(* ===== verification/Py_Prelude.thy ===== *)
theory Py_Prelude
  imports Complex_Main "HOL-Library.AList" "HOL-Library.Sublist" "HOL-Library.Char_ord"
    "HOL-Library.List_Lexorder"
begin

text \<open>
  Shared vocabulary of the development: Python values, strings and dictionaries as the
  components use them, exceptions as values, and the collections of facts the component
  proofs draw on.

  Conventions.
  \<^item> \<open>int\<close> models Python's unbounded integers; clock readings and other \<open>float\<close> quantities
    that the code only adds, subtracts, scales and compares are exact rationals
    (\<open>rat\<close>), so the rounding of binary floating point is outside the model.
  \<^item> A clock reading, a fresh identifier (\<open>uuid4\<close>) and every other input that the code
    obtains from its environment is an explicit argument.
  \<^item> A Python \<open>dict\<close> is an association list with distinct keys in insertion order:
    \<open>AList.update\<close> overwrites in place and appends new keys at the end, which is what
    \<open>d[k] = v\<close> does; \<open>AList.delete\<close> is \<open>d.pop(k, None)\<close>; \<open>map_of\<close> is \<open>d.get(k)\<close>.
  \<^item> Strings are lists of ASCII characters. Operations that depend on the character class
    (\<open>lower\<close>, \<open>strip\<close>) are the ASCII ones.
\<close>

named_theorems dict_simps \<open>rewrite rules for association-list dictionaries\<close>
named_theorems step_defs \<open>definitions of operations unfolded in one-step proofs\<close>
named_theorems inv_intros \<open>preservation of component invariants\<close>


section \<open>Exceptions\<close>

datatype py_exc =
    ValueError string
  | KeyError string
  | PermissionError string
  | IntegrityError string
  | AnyException string

text \<open>A call either raises (\<open>Inl\<close>) or returns (\<open>Inr\<close>).\<close>

type_synonym 'a result = "py_exc + 'a"

fun is_err :: "'a result \<Rightarrow> bool" where
  "is_err (Inl _) = True"
| "is_err (Inr _) = False"


section \<open>Strings\<close>

definition lower_char :: "char \<Rightarrow> char" where
  "lower_char c = (case map_of (zip ''ABCDEFGHIJKLMNOPQRSTUVWXYZ'' ''abcdefghijklmnopqrstuvwxyz'') c of
     None \<Rightarrow> c | Some d \<Rightarrow> d)"

definition upper_char :: "char \<Rightarrow> char" where
  "upper_char c = (case map_of (zip ''abcdefghijklmnopqrstuvwxyz'' ''ABCDEFGHIJKLMNOPQRSTUVWXYZ'') c of
     None \<Rightarrow> c | Some d \<Rightarrow> d)"

definition lower :: "string \<Rightarrow> string" where
  "lower s = map lower_char s"

definition upper :: "string \<Rightarrow> string" where
  "upper s = map upper_char s"

definition is_space :: "char \<Rightarrow> bool" where
  "is_space c \<longleftrightarrow> (of_char c :: nat) \<in> {9, 10, 11, 12, 13, 28, 29, 30, 31, 32}"

definition blank :: "string \<Rightarrow> bool" where
  \<comment> \<open>\<open>not s.strip()\<close>\<close>
  "blank s \<longleftrightarrow> list_all is_space s"

definition quoted :: "string \<Rightarrow> string" where
  "quoted s = [CHR 0x27] @ s @ [CHR 0x27]"

text \<open>\<open>s.startswith(p)\<close> is \<open>prefix p s\<close>, \<open>s.endswith(p)\<close> is \<open>suffix p s\<close> and
  \<open>p in s\<close> is \<open>sublist p s\<close>, all executable in \<open>HOL-Library.Sublist\<close>.\<close>

fun join :: "string \<Rightarrow> string list \<Rightarrow> string" where
  "join sep [] = []"
| "join sep [x] = x"
| "join sep (x # y # ys) = x @ sep @ join sep (y # ys)"

lemma length_lower [simp]: "length (lower s) = length s"
  by (simp add: lower_def)

lemma length_upper [simp]: "length (upper s) = length s"
  by (simp add: upper_def)

lemma lower_append [simp]: "lower (s @ t) = lower s @ lower t"
  by (simp add: lower_def)

lemma lower_Nil [simp]: "lower [] = []"
  by (simp add: lower_def)

lemma lower_Nil_iff [simp]: "lower s = [] \<longleftrightarrow> s = []"
  by (simp add: lower_def)

lemma lower_char_cases:
  "lower_char c = c \<or> c \<in> set ''ABCDEFGHIJKLMNOPQRSTUVWXYZ''
     \<and> lower_char c \<in> set ''abcdefghijklmnopqrstuvwxyz''"
proof (cases "map_of (zip ''ABCDEFGHIJKLMNOPQRSTUVWXYZ'' ''abcdefghijklmnopqrstuvwxyz'') c")
  case None
  then show ?thesis unfolding lower_char_def None by simp
next
  case (Some d)
  then have "(c, d) \<in> set (zip ''ABCDEFGHIJKLMNOPQRSTUVWXYZ'' ''abcdefghijklmnopqrstuvwxyz'')"
    by (rule map_of_SomeD)
  then have "c \<in> set ''ABCDEFGHIJKLMNOPQRSTUVWXYZ'' \<and> d \<in> set ''abcdefghijklmnopqrstuvwxyz''"
    by (blast dest: set_zip_leftD set_zip_rightD)
  moreover have "lower_char c = d" unfolding lower_char_def Some by simp
  ultimately show ?thesis by blast
qed

lemma lower_char_other:
  "x \<notin> set ''ABCDEFGHIJKLMNOPQRSTUVWXYZ'' \<Longrightarrow> x \<notin> set ''abcdefghijklmnopqrstuvwxyz'' \<Longrightarrow>
     lower_char c = x \<longleftrightarrow> c = x"
  using lower_char_cases [of c] lower_char_cases [of x] by metis

lemma lower_char_idem [simp]: "lower_char (lower_char c) = lower_char c"
proof -
  have "\<forall>x \<in> set ''abcdefghijklmnopqrstuvwxyz''. lower_char x = x"
    by (simp add: lower_char_def)
  then show ?thesis using lower_char_cases [of c] by metis
qed

lemma lower_idem [simp]: "lower (lower s) = lower s"
  by (simp add: lower_def)

text \<open>The bits of a character decide about it, which is what evaluation uses.\<close>

lemma lower_char_code [code]:
  "lower_char (Char b0 b1 b2 b3 b4 b5 b6 b7) =
     (if b6 \<and> \<not> b5 \<and> \<not> b7 \<and> (b0 \<or> b1 \<or> b2 \<or> b3 \<or> b4) \<and> \<not> (b4 \<and> b3 \<and> (b2 \<or> b1 \<and> b0))
      then Char b0 b1 b2 b3 b4 True b6 b7 else Char b0 b1 b2 b3 b4 b5 b6 b7)"
  by (cases b0; cases b1; cases b2; cases b3; cases b4; cases b5; cases b6; cases b7) (simp_all add: lower_char_def)

lemma upper_char_code [code]:
  "upper_char (Char b0 b1 b2 b3 b4 b5 b6 b7) =
     (if b6 \<and> b5 \<and> \<not> b7 \<and> (b0 \<or> b1 \<or> b2 \<or> b3 \<or> b4) \<and> \<not> (b4 \<and> b3 \<and> (b2 \<or> b1 \<and> b0))
      then Char b0 b1 b2 b3 b4 False b6 b7 else Char b0 b1 b2 b3 b4 b5 b6 b7)"
  by (cases b0; cases b1; cases b2; cases b3; cases b4; cases b5; cases b6; cases b7) (simp_all add: upper_char_def)

lemma sublist_lower: "sublist s t \<Longrightarrow> sublist (lower s) (lower t)"
  unfolding sublist_def by (metis lower_append)

lemma blank_Nil [simp]: "blank []"
  by (simp add: blank_def)


section \<open>Numbers\<close>

definition py_round :: "nat \<Rightarrow> rat \<Rightarrow> rat" where
  \<comment> \<open>\<open>round(x, n)\<close>: to \<open>n\<close> decimals, ties to even\<close>
  "py_round n x =
     (let y = x * 10 ^ n; f = floor y; d = y - of_int f;
          r = (if d < 1 / 2 then f else if d > 1 / 2 then f + 1 else if even f then f else f + 1)
      in of_int r / 10 ^ n)"

definition py_int :: "rat \<Rightarrow> int" where
  \<comment> \<open>\<open>int(x)\<close> truncates towards zero\<close>
  "py_int x = (if 0 \<le> x then floor x else ceiling x)"

lemma py_int_nonneg: "0 \<le> x \<Longrightarrow> 0 \<le> py_int x"
  by (simp add: py_int_def)

lemma py_int_le: "0 \<le> x \<Longrightarrow> of_int (py_int x) \<le> x"
  by (simp add: py_int_def)

definition py_sorted :: "string list \<Rightarrow> string list" where
  \<comment> \<open>\<open>sorted(set(xs))\<close>: strings compare by code points\<close>
  "py_sorted xs = sort (remdups xs)"

lemma set_py_sorted [simp]: "set (py_sorted xs) = set xs"
  by (simp add: py_sorted_def)


definition digit :: "nat \<Rightarrow> char" where
  "digit n = ''0123456789'' ! n"

fun nat_str :: "nat \<Rightarrow> string" where
  \<comment> \<open>\<open>str(n)\<close>\<close>
  "nat_str n = (if n < 10 then [digit n] else nat_str (n div 10) @ [digit (n mod 10)])"

declare nat_str.simps [simp del]

definition int_str :: "int \<Rightarrow> string" where
  "int_str i = (if i < 0 then ''-'' @ nat_str (nat (- i)) else nat_str (nat i))"


section \<open>Dictionaries\<close>

text \<open>Keys stay distinct under every dictionary operation.\<close>

abbreviation keys :: "('k \<times> 'v) list \<Rightarrow> 'k list" where
  "keys d \<equiv> map fst d"

definition dict_ok :: "('k \<times> 'v) list \<Rightarrow> bool" where
  "dict_ok d \<longleftrightarrow> distinct (keys d)"

definition dict_get :: "('k \<times> 'v) list \<Rightarrow> 'k \<Rightarrow> 'v \<Rightarrow> 'v" where
  \<comment> \<open>\<open>d.get(k, default)\<close>\<close>
  "dict_get d k v = (case map_of d k of None \<Rightarrow> v | Some w \<Rightarrow> w)"

lemma dict_get_None [simp]: "map_of d k = None \<Longrightarrow> dict_get d k v = v"
  by (simp add: dict_get_def)

lemma dict_get_Some [simp]: "map_of d k = Some w \<Longrightarrow> dict_get d k v = w"
  by (simp add: dict_get_def)

lemma dict_get_Nil [simp]: "dict_get [] k v = v"
  by (simp add: dict_get_def)

lemma map_of_update [simp, dict_simps]:
  "map_of (AList.update k v d) = (map_of d)(k \<mapsto> v)"
  by (rule update_conv')

lemma map_of_delete [simp, dict_simps]:
  "map_of (AList.delete k d) = (map_of d)(k := None)"
  by (rule delete_conv')

lemma dict_get_update [simp, dict_simps]:
  "dict_get (AList.update k v d) k' w = (if k' = k then v else dict_get d k' w)"
  by (simp add: dict_get_def)

lemma dict_get_delete [simp, dict_simps]:
  "dict_get (AList.delete k d) k' w = (if k' = k then w else dict_get d k' w)"
  by (simp add: dict_get_def)

lemma dict_ok_Nil [simp]: "dict_ok []"
  by (simp add: dict_ok_def)

lemma dict_ok_update [simp, intro]: "dict_ok d \<Longrightarrow> dict_ok (AList.update k v d)"
  by (simp add: dict_ok_def distinct_update)

lemma dict_ok_delete [simp, intro]: "dict_ok d \<Longrightarrow> dict_ok (AList.delete k d)"
  by (simp add: dict_ok_def distinct_delete)

lemma dict_ok_filter [simp, intro]: "dict_ok d \<Longrightarrow> dict_ok (filter P d)"
  by (simp add: dict_ok_def distinct_map_filter)

lemma dict_ok_map_snd [simp]: "dict_ok (map (\<lambda>(k, v). (k, f k v)) d) = dict_ok d"
  by (simp add: dict_ok_def comp_def case_prod_beta)

lemma map_of_Some_in: "map_of d k = Some v \<Longrightarrow> (k, v) \<in> set d"
  by (rule map_of_SomeD)

lemma in_dict_map_of: "dict_ok d \<Longrightarrow> (k, v) \<in> set d \<Longrightarrow> map_of d k = Some v"
  by (simp add: dict_ok_def)

lemma map_of_filter_key:
  "dict_ok d \<Longrightarrow>
   map_of (filter P d) k = (case map_of d k of None \<Rightarrow> None
     | Some v \<Rightarrow> if P (k, v) then Some v else None)"
proof (induction d)
  case Nil
  then show ?case by simp
next
  case (Cons p d)
  obtain a b where p: "p = (a, b)" by (cases p)
  from Cons.prems have d: "dict_ok d" and a: "a \<notin> fst ` set d"
    by (auto simp: dict_ok_def p)
  from a have "map_of d a = None" by (simp add: map_of_eq_None_iff)
  with Cons.IH [OF d] show ?case by (auto simp: p split: option.splits)
qed

lemma length_filter_mono:
  "(\<And>x. x \<in> set xs \<Longrightarrow> P x \<Longrightarrow> Q x) \<Longrightarrow> length (filter P xs) \<le> length (filter Q xs)"
proof (induction xs)
  case Nil
  then show ?case by simp
next
  case (Cons x xs)
  then have "length (filter P xs) \<le> length (filter Q xs)" by simp
  with Cons.prems [of x] show ?case by auto
qed

lemma find_SomeD: "find P xs = Some x \<Longrightarrow> x \<in> set xs \<and> P x"
  by (metis find_Some_iff nth_mem)

lemma map_of_map_val:
  "map_of (map (\<lambda>(k, v). (k, f k v)) d) k = map_option (f k) (map_of d k)"
  by (induction d) auto

lemma length_update_le: "length (AList.update k v d) \<le> Suc (length d)"
  by (induction d) auto

lemma length_update_in: "k \<in> set (keys d) \<Longrightarrow> length (AList.update k v d) = length d"
  by (induction d) auto

lemma length_update_new: "k \<notin> set (keys d) \<Longrightarrow> length (AList.update k v d) = Suc (length d)"
  by (induction d) auto

lemma set_keys_update [simp]: "set (keys (AList.update k v d)) = insert k (set (keys d))"
  by (induction d) auto

lemma length_delete_less:
  "k \<in> set (keys d) \<Longrightarrow> length (AList.delete k d) < length d"
  by (induction d) (auto simp: le_imp_less_Suc length_delete_le)


section \<open>Python values\<close>

text \<open>
  The values that tool parameters and contexts are made of. An object (\<open>PObj\<close>) carries its
  identity, which \<open>is\<close> compares, its class and its attributes. Floating-point values inside
  parameters are not represented.
\<close>

datatype pyval =
    PNone
  | PBool bool
  | PInt int
  | PStr string
  | PList "pyval list"
  | PDict "(string \<times> pyval) list"
  | PObj nat string "(string \<times> pyval) list"

type_synonym params = "(string \<times> pyval) list"

fun truthy :: "pyval \<Rightarrow> bool" where
  "truthy PNone = False"
| "truthy (PBool b) = b"
| "truthy (PInt i) = (i \<noteq> 0)"
| "truthy (PStr s) = (s \<noteq> [])"
| "truthy (PList xs) = (xs \<noteq> [])"
| "truthy (PDict d) = (d \<noteq> [])"
| "truthy (PObj i c a) = True"

fun is_same :: "pyval \<Rightarrow> pyval \<Rightarrow> bool" where
  \<comment> \<open>\<open>x is y\<close> for objects and \<open>None\<close>\<close>
  "is_same (PObj i c a) (PObj j c' a') = (i = j)"
| "is_same PNone PNone = True"
| "is_same _ _ = False"

definition py_or :: "pyval \<Rightarrow> pyval \<Rightarrow> pyval" where
  \<comment> \<open>the value of \<open>a or b\<close>\<close>
  "py_or a b = (if truthy a then a else b)"

definition pget :: "(string \<times> pyval) list \<Rightarrow> string \<Rightarrow> pyval" where
  \<comment> \<open>\<open>d.get(k)\<close>, with \<open>None\<close> for a missing key\<close>
  "pget d k = dict_get d k PNone"

fun is_str :: "pyval \<Rightarrow> bool" where
  "is_str (PStr _) = True"
| "is_str _ = False"

lemma is_strE [elim!]:
  assumes "is_str v"
  obtains s where "v = PStr s"
  using assms by (cases v) auto

lemma truthy_py_or [simp]: "truthy (py_or a b) \<longleftrightarrow> truthy a \<or> truthy b"
  by (simp add: py_or_def)

fun as_dict :: "pyval \<Rightarrow> params" where
  \<comment> \<open>\<open>x or {}\<close> for a dictionary-valued \<open>x\<close>\<close>
  "as_dict (PDict d) = d"
| "as_dict _ = []"

lemma pget_Nil [simp]: "pget [] k = PNone"
  by (simp add: pget_def)

lemma pget_update [simp, dict_simps]:
  "pget (AList.update k v d) k' = (if k' = k then v else pget d k')"
  by (simp add: pget_def)

lemma pget_delete [simp, dict_simps]:
  "pget (AList.delete k d) k' = (if k' = k then PNone else pget d k')"
  by (simp add: pget_def)

lemma pget_Cons [simp]: "pget ((k, v) # d) k' = (if k' = k then v else pget d k')"
  by (simp add: pget_def dict_get_def)


section \<open>Single-use resources\<close>

text \<open>
  Three stores of the program hand out resources that may be spent once: step grants,
  one-time cloud authorizations and pending confirmations. They share this contract:
  spending succeeds only on an available resource and makes it unavailable, and no other
  operation makes an unavailable resource available again unless it issues it. A run is a
  list of operations; its log collects the identifiers that were spent.
\<close>

locale single_use =
  fixes step :: "'s \<Rightarrow> 'op \<Rightarrow> 's"
    and spends :: "'s \<Rightarrow> 'op \<Rightarrow> 'id option"
    and issues :: "'s \<Rightarrow> 'op \<Rightarrow> 'id \<Rightarrow> bool"
    and avail :: "'s \<Rightarrow> 'id \<Rightarrow> bool"
  assumes spend_avail: "spends s op = Some i \<Longrightarrow> avail s i"
    and spend_used: "spends s op = Some i \<Longrightarrow> \<not> avail (step s op) i"
    and avail_step: "avail (step s op) i \<Longrightarrow> avail s i \<or> issues s op i"
begin

fun run :: "'s \<Rightarrow> 'op list \<Rightarrow> 's" where
  "run s [] = s"
| "run s (op # ops) = run (step s op) ops"

fun spent :: "'s \<Rightarrow> 'op list \<Rightarrow> 'id list" where
  "spent s [] = []"
| "spent s (op # ops) =
     (case spends s op of None \<Rightarrow> [] | Some i \<Rightarrow> [i]) @ spent (step s op) ops"

fun reissued :: "'s \<Rightarrow> 'op list \<Rightarrow> 'id \<Rightarrow> bool" where
  "reissued s [] i = False"
| "reissued s (op # ops) i = (issues s op i \<or> reissued (step s op) ops i)"

lemma unavail_not_spent:
  "\<not> avail s i \<Longrightarrow> \<not> reissued s ops i \<Longrightarrow> i \<notin> set (spent s ops)"
proof (induction ops arbitrary: s)
  case Nil
  then show ?case by simp
next
  case (Cons op ops)
  from Cons.prems have "\<not> avail (step s op) i" by (auto dest: avail_step)
  with Cons.IH Cons.prems(2) have "i \<notin> set (spent (step s op) ops)" by simp
  with Cons.prems(1) show ?case using spend_avail [of s op i] by (auto split: option.splits)
qed

lemma spent_at_most_once:
  "\<not> reissued s ops i \<Longrightarrow> count_list (spent s ops) i \<le> 1"
proof (induction ops arbitrary: s)
  case Nil
  then show ?case by simp
next
  case (Cons op ops)
  from Cons.prems have nr: "\<not> reissued (step s op) ops i" by simp
  show ?case
  proof (cases "spends s op = Some i")
    case True
    then have "i \<notin> set (spent (step s op) ops)"
      using nr by (intro unavail_not_spent spend_used)
    with True show ?thesis by (simp add: count_notin)
  next
    case False
    with Cons.IH [OF nr] show ?thesis by (auto split: option.splits)
  qed
qed

lemma spent_available: "\<not> reissued s ops i \<Longrightarrow> i \<in> set (spent s ops) \<Longrightarrow> avail s i"
  by (rule ccontr) (auto dest: unavail_not_spent)

end

end
