(* ===== verification/Rate_Window.thy ===== *)
theory Rate_Window
  imports Py_Prelude
begin

text \<open>
  The contract of a sliding-window rate limiter, shared by the per-tool limiter of the security
  boundary and the keyed limiter of the core.

  A limiter keeps some time stamps per key. A check at time \<open>t\<close> looks at the stamps younger
  than \<open>span k\<close>, admits the call exactly if there are fewer than \<open>lim k\<close> of them, and then
  records \<open>t\<close>; a check of one key never loses live stamps of another, provided the key
  \<open>fits\<close> (a limiter of bounded size may evict when it does not). The consequences are proved
  once here: the limiter answers as if it kept the complete log of admitted calls, and no
  window of length \<open>span k\<close> ever contains more than \<open>lim k\<close> of them.
\<close>

locale sliding_window =
  fixes check :: "'s \<Rightarrow> 'k \<Rightarrow> rat \<Rightarrow> 's \<times> bool"
    and stamps :: "'s \<Rightarrow> 'k \<Rightarrow> rat list"
    and lim :: "'k \<Rightarrow> nat"
    and span :: "'k \<Rightarrow> rat"
    and fits :: "'s \<Rightarrow> 'k \<Rightarrow> bool"
    and ok :: "'s \<Rightarrow> bool"
  assumes check_ok: "ok s \<Longrightarrow> ok (fst (check s k t))"
    and check_admits: "ok s \<Longrightarrow> sorted (stamps s k) \<Longrightarrow>
      snd (check s k t) \<longleftrightarrow> length (filter (\<lambda>x. t - span k < x) (stamps s k)) < lim k"
    and check_records: "ok s \<Longrightarrow> sorted (stamps s k) \<Longrightarrow>
      stamps (fst (check s k t)) k =
        filter (\<lambda>x. t - span k < x) (stamps s k) @ (if snd (check s k t) then [t] else [])"
    and check_other: "ok s \<Longrightarrow> fits s k \<Longrightarrow> k' \<noteq> k \<Longrightarrow> sorted (stamps s k') \<Longrightarrow>
      filter (\<lambda>x. t - span k' < x) (stamps (fst (check s k t)) k')
        = filter (\<lambda>x. t - span k' < x) (stamps s k')"
    and check_other_sub: "ok s \<Longrightarrow> k' \<noteq> k \<Longrightarrow> sorted (stamps s k') \<Longrightarrow>
      sorted (stamps (fst (check s k t)) k') \<and> set (stamps (fst (check s k t)) k') \<subseteq> set (stamps s k')"
begin

fun run :: "'s \<Rightarrow> ('k \<times> rat) list \<Rightarrow> 's" where
  "run s [] = s"
| "run s ((k, t) # rs) = run (fst (check s k t)) rs"

fun admitted :: "'s \<Rightarrow> ('k \<times> rat) list \<Rightarrow> 'k \<Rightarrow> rat list" where
  "admitted s [] k = []"
| "admitted s ((k', t) # rs) k =
     (if k' = k \<and> snd (check s k' t) then [t] else []) @ admitted (fst (check s k' t)) rs k"

fun all_fit :: "'s \<Rightarrow> ('k \<times> rat) list \<Rightarrow> bool" where
  "all_fit s [] = True"
| "all_fit s ((k, t) # rs) = (fits s k \<and> all_fit (fst (check s k t)) rs)"

text \<open>\<open>A\<close> is the log of calls admitted for \<open>k\<close> up to time \<open>t\<close>; the limiter's stamps agree with
  it on everything that later checks will look at.\<close>

definition log_ok :: "'s \<Rightarrow> 'k \<Rightarrow> rat \<Rightarrow> rat list \<Rightarrow> bool" where
  "log_ok s k t A \<longleftrightarrow>
     sorted A \<and> (\<forall>x \<in> set A. x \<le> t)
     \<and> sorted (stamps s k) \<and> (\<forall>x \<in> set (stamps s k). x \<le> t)
     \<and> (\<forall>u \<ge> t. filter (\<lambda>x. u - span k < x) (stamps s k) = filter (\<lambda>x. u - span k < x) A)
     \<and> (\<forall>T. length (filter (\<lambda>x. T - span k < x \<and> x \<le> T) A) \<le> lim k)"

lemma filter_later:
  fixes c d :: rat
  assumes "c \<le> d"
  shows "filter (\<lambda>x. d < x) (filter (\<lambda>x. c < x) xs) = filter (\<lambda>x. d < x) xs"
  using assms by (induction xs) auto

lemma log_ok_same:
  assumes s: "ok s" and A: "log_ok s k t A" and t: "t \<le> t'"
  shows "log_ok (fst (check s k t')) k t' (A @ (if snd (check s k t') then [t'] else []))"
proof -
  let ?live = "filter (\<lambda>x. t' - span k < x) (stamps s k)"
  let ?new = "if snd (check s k t') then [t'] else []"
  from A have srt: "sorted (stamps s k)" and le: "\<forall>x \<in> set (stamps s k). x \<le> t'"
    and srtA: "sorted A" and leA: "\<forall>x \<in> set A. x \<le> t'"
    and agree: "\<forall>u \<ge> t. filter (\<lambda>x. u - span k < x) (stamps s k) = filter (\<lambda>x. u - span k < x) A"
    and bound: "\<And>T. length (filter (\<lambda>x. T - span k < x \<and> x \<le> T) A) \<le> lim k"
    using t by (auto simp: log_ok_def intro: order_trans)
  have rec: "stamps (fst (check s k t')) k = ?live @ ?new"
    by (rule check_records [OF s srt])
  have live: "?live = filter (\<lambda>x. t' - span k < x) A" using agree t by blast
  have "length (filter (\<lambda>x. T - span k < x \<and> x \<le> T) (A @ ?new)) \<le> lim k" for T
  proof (cases "snd (check s k t') \<and> t' \<le> T")
    case True
    then have "length (filter (\<lambda>x. T - span k < x \<and> x \<le> T) A)
        \<le> length (filter (\<lambda>x. t' - span k < x) A)"
      by (intro length_filter_mono) auto
    also have "\<dots> < lim k"
      using True check_admits [OF s srt, of t'] live by simp
    finally show ?thesis using True by simp
  next
    case False
    then show ?thesis using bound [of T] by auto
  qed
  moreover have "filter (\<lambda>x. u - span k < x) (?live @ ?new) = filter (\<lambda>x. u - span k < x) (A @ ?new)"
    if "t' \<le> u" for u
    using that by (auto simp: live intro!: filter_cong)
  moreover have "sorted (?live @ ?new)" "sorted (A @ ?new)"
    using srt le srtA leA by (simp_all add: sorted_append sorted_wrt_filter)
  ultimately show ?thesis
    using le leA by (auto simp: log_ok_def rec)
qed

lemma log_ok_other:
  assumes s: "ok s" and f: "fits s k'" and A: "log_ok s k t A" and t: "t \<le> t'" and k: "k \<noteq> k'"
  shows "log_ok (fst (check s k' t')) k t' A"
proof -
  from A have srt: "sorted (stamps s k)" by (simp add: log_ok_def)
  have sub: "sorted (stamps (fst (check s k' t')) k)"
    "set (stamps (fst (check s k' t')) k) \<subseteq> set (stamps s k)"
    using check_other_sub [OF s k srt] by auto
  have eq: "filter (\<lambda>x. t' - span k < x) (stamps (fst (check s k' t')) k)
      = filter (\<lambda>x. t' - span k < x) (stamps s k)"
    by (rule check_other [OF s f k srt])
  have "filter (\<lambda>x. u - span k < x) (stamps (fst (check s k' t')) k)
      = filter (\<lambda>x. u - span k < x) (stamps s k)" if "t' \<le> u" for u
  proof -
    have "t' - span k \<le> u - span k" using that by simp
    from filter_later [OF this] eq show ?thesis by metis
  qed
  with A sub t show ?thesis by (fastforce simp: log_ok_def)
qed

lemma log_ok_run:
  assumes "ok s" and "log_ok s k t A" and "sorted (t # map snd rs)" and "all_fit s rs"
  shows "log_ok (run s rs) k (last (t # map snd rs)) (A @ admitted s rs k) \<and> ok (run s rs)"
  using assms
proof (induction rs arbitrary: s t A)
  case Nil
  then show ?case by simp
next
  case (Cons r rs)
  obtain k' t' where r: "r = (k', t')" by (cases r)
  let ?s = "fst (check s k' t')"
  let ?A = "A @ (if k' = k \<and> snd (check s k' t') then [t'] else [])"
  have le: "t \<le> t'" using Cons.prems(3) r by simp
  have A': "log_ok ?s k t' ?A"
  proof (cases "k' = k")
    case True
    then show ?thesis using log_ok_same [OF Cons.prems(1,2) le] by simp
  next
    case False
    then show ?thesis
      using log_ok_other [OF Cons.prems(1) _ Cons.prems(2) le, of k'] Cons.prems(4) r by auto
  qed
  have "sorted (t' # map snd rs)" "all_fit ?s rs"
    using Cons.prems(3,4) r by auto
  from Cons.IH [OF check_ok [OF Cons.prems(1)] A' this]
  show ?case by (simp add: r)
qed

definition start :: "'s \<Rightarrow> bool" where
  "start s \<longleftrightarrow> ok s \<and> (\<forall>k. stamps s k = [])"

lemma log_ok_start: "start s \<Longrightarrow> log_ok s k t []"
  by (simp add: start_def log_ok_def)

lemma log_ok_runs:
  assumes "start s" and "sorted (map snd rs)" and "all_fit s rs"
  shows "\<exists>t. log_ok (run s rs) k t (admitted s rs k) \<and> ok (run s rs)
    \<and> (rs \<noteq> [] \<longrightarrow> t = last (map snd rs))"
proof (cases rs)
  case Nil
  with assms(1) show ?thesis by (auto simp: start_def log_ok_def)
next
  case (Cons r rest)
  with assms have "sorted (snd r # map snd rs)" by auto
  from log_ok_run [OF _ log_ok_start [OF assms(1)] this assms(3)] assms(1)
  show ?thesis using Cons by (fastforce simp: start_def)
qed

text \<open>No window of length \<open>span k\<close> contains more than \<open>lim k\<close> admitted calls of \<open>k\<close>.\<close>

lemma window_bound:
  assumes "start s" and "sorted (map snd rs)" and "all_fit s rs"
  shows "length (filter (\<lambda>x. T - span k < x \<and> x \<le> T) (admitted s rs k)) \<le> lim k"
  using log_ok_runs [OF assms, of k] by (auto simp: log_ok_def)

text \<open>The limiter decides as the complete log of admitted calls would.\<close>

lemma admits_as_log:
  assumes "start s" and "sorted (map snd rs @ [t])" and "all_fit s rs"
  shows "snd (check (run s rs) k t)
    \<longleftrightarrow> length (filter (\<lambda>x. t - span k < x) (admitted s rs k)) < lim k"
proof -
  from assms(2) have "sorted (map snd rs)" by (simp add: sorted_append)
  from log_ok_runs [OF assms(1) this assms(3), of k] obtain u
    where u: "log_ok (run s rs) k u (admitted s rs k)" "ok (run s rs)"
      "rs \<noteq> [] \<longrightarrow> u = last (map snd rs)" by blast
  have agree: "filter (\<lambda>x. t - span k < x) (stamps (run s rs) k)
      = filter (\<lambda>x. t - span k < x) (admitted s rs k)"
  proof (cases "rs = []")
    case True
    with assms(1) show ?thesis by (simp add: start_def)
  next
    case False
    then have "last (map snd rs) \<in> set (map snd rs)" by (intro last_in_set) simp
    with False u(3) assms(2) have "u \<le> t" by (auto simp: sorted_append)
    with u(1) show ?thesis by (simp add: log_ok_def)
  qed
  from u have "sorted (stamps (run s rs) k)" by (simp add: log_ok_def)
  from check_admits [OF u(2) this] agree show ?thesis by simp
qed

end

end
