(* ===== verification/Security_Models.thy ===== *)
theory Security_Models
  imports Py_Prelude
begin

text \<open>
  \<open>sentinel/security/models.py\<close>: the values that cross the tool-execution boundary. Risk
  levels are ordered by \<open>_RISK_ORDER\<close> of \<open>sentinel/security/argument_validator.py\<close>, which is
  made the type's linear order, so that \<open>_max_risk\<close> is the library's \<open>max\<close>.
\<close>

datatype risk_level = LOW | MEDIUM | HIGH | CRITICAL

datatype security_decision = APPROVED | DENIED | REQUIRE_CONFIRMATION

fun risk_order :: "risk_level \<Rightarrow> nat" where
  "risk_order LOW = 0"
| "risk_order MEDIUM = 1"
| "risk_order HIGH = 2"
| "risk_order CRITICAL = 3"

fun risk_value :: "risk_level \<Rightarrow> string" where
  "risk_value LOW = ''low''"
| "risk_value MEDIUM = ''medium''"
| "risk_value HIGH = ''high''"
| "risk_value CRITICAL = ''critical''"

definition max_risk :: "risk_level \<Rightarrow> risk_level \<Rightarrow> risk_level" where
  "max_risk a b = (if risk_order b \<le> risk_order a then a else b)"

instantiation risk_level :: linorder
begin

definition less_eq_risk_level :: "risk_level \<Rightarrow> risk_level \<Rightarrow> bool" where
  "less_eq_risk_level a b \<longleftrightarrow> risk_order a \<le> risk_order b"

definition less_risk_level :: "risk_level \<Rightarrow> risk_level \<Rightarrow> bool" where
  "less_risk_level a b \<longleftrightarrow> risk_order a < risk_order b"

lemma risk_order_inj: "risk_order a = risk_order b \<Longrightarrow> a = b"
  by (cases a; cases b) simp_all

instance
  by standard (auto simp: less_eq_risk_level_def less_risk_level_def intro: risk_order_inj)

end

lemma max_risk_max: "max_risk a b = max a b"
  by (auto simp: max_risk_def max_def less_eq_risk_level_def intro: risk_order_inj)

lemma risk_bounds [simp]: "LOW \<le> r" "r \<le> CRITICAL"
  by (cases r; simp add: less_eq_risk_level_def)+

lemma risk_top [simp]: "CRITICAL \<le> r \<longleftrightarrow> r = CRITICAL"
  by (cases r) (simp_all add: less_eq_risk_level_def)

lemma risk_bot [simp]: "r \<le> LOW \<longleftrightarrow> r = LOW"
  by (cases r) (simp_all add: less_eq_risk_level_def)

section \<open>Execution grants in transport\<close>

record grant_context =
  gc_grant_id :: string
  gc_plan_grant_id :: string
  gc_step_grant_id :: string
  gc_user_id :: string
  gc_session_id :: string
  gc_identity_hash :: string
  gc_plan_id :: string
  gc_plan_hash :: string
  gc_step_id :: string
  gc_step_index :: int
  gc_tool_id :: string
  gc_params_hash :: string
  gc_approved_at :: string
  gc_expires_at :: string
  gc_ambiguity_decision_id :: string
  gc_input_understanding_id :: string

definition grant_complete :: "grant_context \<Rightarrow> bool" where
  \<comment> \<open>the negation of the condition under which \<open>__post_init__\<close> raises\<close>
  "grant_complete g \<longleftrightarrow>
     list_all (\<lambda>s. s \<noteq> [])
       [gc_grant_id g, gc_plan_grant_id g, gc_step_grant_id g, gc_user_id g, gc_session_id g,
        gc_identity_hash g, gc_plan_id g, gc_plan_hash g, gc_step_id g, gc_tool_id g,
        gc_params_hash g, gc_approved_at g, gc_expires_at g]
     \<and> 0 \<le> gc_step_index g"

definition make_grant :: "grant_context \<Rightarrow> grant_context result" where
  "make_grant g =
     (if grant_complete g then Inr g else Inl (ValueError ''incomplete execution grant context''))"

section \<open>Requests and results\<close>

text \<open>
  A context entry that may hold an \<open>ExecutionGrantContext\<close> instance is an object of that
  class; \<open>grant_obj\<close> builds it and \<open>as_grant\<close> is the \<open>isinstance\<close> test.
\<close>

definition grant_attrs :: "grant_context \<Rightarrow> params" where
  "grant_attrs g =
     [(''grant_id'', PStr (gc_grant_id g)), (''plan_grant_id'', PStr (gc_plan_grant_id g)),
      (''step_grant_id'', PStr (gc_step_grant_id g)), (''user_id'', PStr (gc_user_id g)),
      (''session_id'', PStr (gc_session_id g)), (''identity_hash'', PStr (gc_identity_hash g)),
      (''plan_id'', PStr (gc_plan_id g)), (''plan_hash'', PStr (gc_plan_hash g)),
      (''step_id'', PStr (gc_step_id g)), (''step_index'', PInt (gc_step_index g)),
      (''tool_id'', PStr (gc_tool_id g)), (''params_hash'', PStr (gc_params_hash g)),
      (''approved_at'', PStr (gc_approved_at g)), (''expires_at'', PStr (gc_expires_at g)),
      (''ambiguity_decision_id'', PStr (gc_ambiguity_decision_id g)),
      (''input_understanding_id'', PStr (gc_input_understanding_id g))]"

definition grant_obj :: "nat \<Rightarrow> grant_context \<Rightarrow> pyval" where
  "grant_obj i g = PObj i ''ExecutionGrantContext'' (grant_attrs g)"

fun str_of :: "pyval \<Rightarrow> string" where
  "str_of (PStr s) = s"
| "str_of _ = []"

fun int_of :: "pyval \<Rightarrow> int" where
  "int_of (PInt i) = i"
| "int_of _ = 0"

definition grant_of_attrs :: "params \<Rightarrow> grant_context" where
  "grant_of_attrs a =
     \<lparr>gc_grant_id = str_of (pget a ''grant_id''),
      gc_plan_grant_id = str_of (pget a ''plan_grant_id''),
      gc_step_grant_id = str_of (pget a ''step_grant_id''),
      gc_user_id = str_of (pget a ''user_id''),
      gc_session_id = str_of (pget a ''session_id''),
      gc_identity_hash = str_of (pget a ''identity_hash''),
      gc_plan_id = str_of (pget a ''plan_id''),
      gc_plan_hash = str_of (pget a ''plan_hash''),
      gc_step_id = str_of (pget a ''step_id''),
      gc_step_index = int_of (pget a ''step_index''),
      gc_tool_id = str_of (pget a ''tool_id''),
      gc_params_hash = str_of (pget a ''params_hash''),
      gc_approved_at = str_of (pget a ''approved_at''),
      gc_expires_at = str_of (pget a ''expires_at''),
      gc_ambiguity_decision_id = str_of (pget a ''ambiguity_decision_id''),
      gc_input_understanding_id = str_of (pget a ''input_understanding_id'')\<rparr>"

fun as_grant :: "pyval \<Rightarrow> grant_context option" where
  "as_grant (PObj i c a) = (if c = ''ExecutionGrantContext'' then Some (grant_of_attrs a) else None)"
| "as_grant _ = None"

lemma grant_of_attrs_attrs [simp]: "grant_of_attrs (grant_attrs g) = g"
  by (simp add: grant_of_attrs_def grant_attrs_def)

lemma as_grant_obj [simp]: "as_grant (grant_obj i g) = Some g"
  by (simp add: grant_obj_def)

record tool_request =
  tr_tool_name :: string
  tr_arguments :: params
  tr_source :: string
  tr_context :: params
  tr_session_id :: string
  tr_user_id :: string
  tr_execution_id :: string
  tr_model_id :: string
  tr_provider_id :: string

record execution_result =
  er_success :: bool
  er_data :: pyval
  er_error :: "string option"
  er_risk :: risk_level
  er_decision :: security_decision
  er_policy_id :: "string option"
  er_policy_reason :: "string option"
  er_user_confirmed :: bool
  er_tool_name :: string
  er_policy_result :: "params option"
  er_quality_result :: "params option"
  er_requires_confirmation :: bool

definition er_default :: "bool \<Rightarrow> string \<Rightarrow> execution_result" where
  "er_default ok tool =
     \<lparr>er_success = ok, er_data = PNone, er_error = None, er_risk = LOW, er_decision = APPROVED,
      er_policy_id = None, er_policy_reason = None, er_user_confirmed = False,
      er_tool_name = tool, er_policy_result = None, er_quality_result = None,
      er_requires_confirmation = False\<rparr>"

end
