(* ===== verification/Tool_Rate_Limiter.thy ===== *)
theory Tool_Rate_Limiter
  imports Rate_Window Security_Models
begin

text \<open>
  \<open>sentinel/security/tool_rate_limiter.py\<close>: the per-tool limiter of the guard. The table of
  limits is a dictionary in insertion order, because the lookup of a pattern takes the first
  match in that order. The component is an instance of the sliding-window contract.
\<close>

section \<open>Configuration\<close>

record rate_config =
  rc_max_calls :: int
  rc_window_seconds :: int

definition rate_config_ok :: "rate_config \<Rightarrow> bool" where
  "rate_config_ok c \<longleftrightarrow> 1 \<le> rc_max_calls c \<and> 1 \<le> rc_window_seconds c"

definition make_rate_config :: "int \<Rightarrow> int \<Rightarrow> rate_config result" where
  "make_rate_config m w =
     (if m < 1 then Inl (ValueError ''max_calls must be >= 1'')
      else if w < 1 then Inl (ValueError ''window_seconds must be >= 1'')
      else Inr \<lparr>rc_max_calls = m, rc_window_seconds = w\<rparr>)"

abbreviation rc :: "int \<Rightarrow> int \<Rightarrow> rate_config" where
  "rc m w \<equiv> \<lparr>rc_max_calls = m, rc_window_seconds = w\<rparr>"

definition default_rate_limits :: "(string \<times> rate_config) list" where
  "default_rate_limits =
     [(''chat.respond'', rc 60 60), (''conversation.*'', rc 120 60),
      (''filesystem.read'', rc 60 60), (''filesystem.write'', rc 10 60),
      (''filesystem.delete'', rc 3 60), (''filesystem.copy'', rc 10 60),
      (''filesystem.move'', rc 10 60), (''filesystem.create'', rc 20 60),
      (''filesystem.search'', rc 30 60), (''filesystem.format'', rc 1 3600),
      (''executor.command'', rc 10 60), (''executor.launch'', rc 15 60),
      (''executor.kill'', rc 5 60), (''process.*'', rc 20 60),
      (''browser.open'', rc 30 60), (''browser.*'', rc 60 60),
      (''network.*'', rc 30 60), (''web.*'', rc 30 60),
      (''system.shutdown'', rc 1 3600), (''system.reboot'', rc 1 3600),
      (''identity.*'', rc 10 60), (''permission.*'', rc 10 60),
      (''ai.*'', rc 30 60), (''model.*'', rc 30 60),
      (''*'', rc 60 60)]"


section \<open>State and operations\<close>

record tool_limiter =
  tl_limits :: "(string \<times> rate_config) list"
  tl_windows :: "(string \<times> rat list) list"

definition dict_union :: "('k \<times> 'v) list \<Rightarrow> ('k \<times> 'v) list \<Rightarrow> ('k \<times> 'v) list" where
  \<comment> \<open>\<open>d.update(e)\<close>\<close>
  "dict_union d e = fold (\<lambda>(k, v). AList.update k v) e d"

definition tl_init :: "(string \<times> rate_config) list \<Rightarrow> tool_limiter" where
  "tl_init limits = \<lparr>tl_limits = dict_union default_rate_limits limits, tl_windows = []\<rparr>"

definition set_limit :: "tool_limiter \<Rightarrow> string \<Rightarrow> rate_config \<Rightarrow> tool_limiter" where
  "set_limit s tool c = s\<lparr>tl_limits := AList.update tool c (tl_limits s)\<rparr>"

definition pattern_matches :: "string \<Rightarrow> string \<Rightarrow> bool" where
  "pattern_matches tool pat \<longleftrightarrow> suffix ''*'' pat \<and> prefix (butlast pat) tool"

definition lookup_limit :: "(string \<times> rate_config) list \<Rightarrow> string \<Rightarrow> rate_config" where
  "lookup_limit limits tool =
     (case map_of limits tool of
        Some c \<Rightarrow> c
      | None \<Rightarrow>
          (case find (\<lambda>(pat, c). pattern_matches tool pat) limits of
             Some (pat, c) \<Rightarrow> c
           | None \<Rightarrow> dict_get limits ''*'' (rc 60 60)))"

definition get_limit :: "tool_limiter \<Rightarrow> string \<Rightarrow> rate_config" where
  "get_limit s tool = lookup_limit (tl_limits s) tool"

record rate_result =
  rr_allowed :: bool
  rr_current :: int
  rr_max_calls :: int
  rr_window :: int
  rr_retry_after :: "rat option"
  rr_reason :: string

definition rr_blocked :: "rate_result \<Rightarrow> bool" where
  "rr_blocked r \<longleftrightarrow> \<not> rr_allowed r"

definition rate_reason :: "string \<Rightarrow> int \<Rightarrow> rate_config \<Rightarrow> string" where
  "rate_reason tool count c =
     ''Rate limit exceeded for '' @ quoted tool @ '': '' @ int_str count @ ''/''
     @ int_str (rc_max_calls c) @ '' per '' @ int_str (rc_window_seconds c) @ ''s''"

definition tl_check :: "tool_limiter \<Rightarrow> string \<Rightarrow> rat \<Rightarrow> tool_limiter \<times> rate_result" where
  "tl_check s tool now =
     (let c = get_limit s tool;
          window_start = now - of_int (rc_window_seconds c);
          window = filter (\<lambda>t. window_start < t) (dict_get (tl_windows s) tool []);
          count = int (length window)
      in if rc_max_calls c \<le> count then
           (let oldest = (case window of [] \<Rightarrow> now | t # _ \<Rightarrow> t) in
            (s\<lparr>tl_windows := AList.update tool window (tl_windows s)\<rparr>,
             \<lparr>rr_allowed = False, rr_current = count, rr_max_calls = rc_max_calls c,
              rr_window = rc_window_seconds c,
              rr_retry_after = Some (max 0 (oldest + of_int (rc_window_seconds c) - now)),
              rr_reason = rate_reason tool count c\<rparr>))
         else
           (s\<lparr>tl_windows := AList.update tool (window @ [now]) (tl_windows s)\<rparr>,
            \<lparr>rr_allowed = True, rr_current = count + 1, rr_max_calls = rc_max_calls c,
             rr_window = rc_window_seconds c, rr_retry_after = None, rr_reason = []\<rparr>))"

definition tl_reset :: "tool_limiter \<Rightarrow> string option \<Rightarrow> tool_limiter" where
  "tl_reset s tool =
     (case tool of
        Some (c # cs) \<Rightarrow> s\<lparr>tl_windows := AList.delete (c # cs) (tl_windows s)\<rparr>
      | _ \<Rightarrow> s\<lparr>tl_windows := []\<rparr>)"

record tool_stats =
  ts_active :: nat
  ts_limit :: int
  ts_window :: int

definition tl_get_stats :: "tool_limiter \<Rightarrow> rat \<Rightarrow> (string \<times> tool_stats) list" where
  "tl_get_stats s now =
     map (\<lambda>(tool, stamps).
       (let c = get_limit s tool in
        (tool, \<lparr>ts_active = length (filter (\<lambda>t. now - of_int (rc_window_seconds c) < t) stamps),
                ts_limit = rc_max_calls c, ts_window = rc_window_seconds c\<rparr>)))
       (tl_windows s)"


section \<open>The sliding-window contract\<close>

definition tl_stamps :: "tool_limiter \<Rightarrow> string \<Rightarrow> rat list" where
  "tl_stamps s tool = dict_get (tl_windows s) tool []"

lemma tl_check_limits [simp]: "tl_limits (fst (tl_check s tool now)) = tl_limits s"
  by (simp add: tl_check_def Let_def)

lemma tl_check_allowed:
  "rr_allowed (snd (tl_check s tool now)) \<longleftrightarrow>
     int (length (filter (\<lambda>t. now - of_int (rc_window_seconds (get_limit s tool)) < t)
       (tl_stamps s tool))) < rc_max_calls (get_limit s tool)"
  unfolding tl_check_def Let_def tl_stamps_def
  by (simp split: if_split)

lemma tl_check_windows:
  "tl_windows (fst (tl_check s tool now)) =
     AList.update tool
       (filter (\<lambda>t. now - of_int (rc_window_seconds (get_limit s tool)) < t) (tl_stamps s tool)
        @ (if rr_allowed (snd (tl_check s tool now)) then [now] else [])) (tl_windows s)"
  unfolding tl_check_def Let_def tl_stamps_def
  by (simp split: if_split)

lemma tl_check_stamps:
  "tl_stamps (fst (tl_check s tool now)) tool' =
     (if tool' = tool
      then filter (\<lambda>t. now - of_int (rc_window_seconds (get_limit s tool)) < t) (tl_stamps s tool)
        @ (if rr_allowed (snd (tl_check s tool now)) then [now] else [])
      else tl_stamps s tool')"
  unfolding tl_stamps_def [of "fst (tl_check s tool now)"] tl_check_windows dict_get_update
  by (simp only: tl_stamps_def)

definition tl_decide :: "tool_limiter \<Rightarrow> string \<Rightarrow> rat \<Rightarrow> tool_limiter \<times> bool" where
  "tl_decide s tool now = (let (s', r) = tl_check s tool now in (s', rr_allowed r))"

lemma tl_decide_simps [simp]:
  "fst (tl_decide s tool now) = fst (tl_check s tool now)"
  "snd (tl_decide s tool now) = rr_allowed (snd (tl_check s tool now))"
  by (simp_all add: tl_decide_def case_prod_beta)

interpretation tool_window: sliding_window tl_decide tl_stamps
    "\<lambda>tool. nat (rc_max_calls (lookup_limit limits tool))"
    "\<lambda>tool. of_int (rc_window_seconds (lookup_limit limits tool))"
    "\<lambda>s tool. True" "\<lambda>s. tl_limits s = limits"
  for limits
proof unfold_locales
  fix s :: tool_limiter and k t
  assume "tl_limits s = limits" "sorted (tl_stamps s k)"
  then show "snd (tl_decide s k t) \<longleftrightarrow>
      length (filter (\<lambda>x. t - of_int (rc_window_seconds (lookup_limit limits k)) < x) (tl_stamps s k))
        < nat (rc_max_calls (lookup_limit limits k))"
    by (simp add: tl_check_allowed get_limit_def zless_nat_eq_int_zless)
qed (simp_all add: tl_check_stamps get_limit_def)


section \<open>Properties\<close>

lemma tl_start: "tool_window.start limits \<lparr>tl_limits = limits, tl_windows = []\<rparr>"
  by (simp add: tool_window.start_def tl_stamps_def)

lemma all_fit_tools [simp]: "tool_window.all_fit s rs"
  by (induction s rs rule: tool_window.all_fit.induct) simp_all

text \<open>A run of checks, and the times at which calls of a tool were let through.\<close>

fun tl_run :: "tool_limiter \<Rightarrow> (string \<times> rat) list \<Rightarrow> tool_limiter" where
  "tl_run s [] = s"
| "tl_run s ((tool, now) # rs) = tl_run (fst (tl_check s tool now)) rs"

fun tl_admitted :: "tool_limiter \<Rightarrow> (string \<times> rat) list \<Rightarrow> string \<Rightarrow> rat list" where
  "tl_admitted s [] tool = []"
| "tl_admitted s ((tool', now) # rs) tool =
     (if tool' = tool \<and> rr_allowed (snd (tl_check s tool' now)) then [now] else [])
     @ tl_admitted (fst (tl_check s tool' now)) rs tool"

lemma tl_run_eq: "tool_window.run s rs = tl_run s rs"
  by (induction s rs rule: tl_run.induct) simp_all

lemma tl_admitted_eq: "tool_window.admitted s rs tool = tl_admitted s rs tool"
  by (induction s rs tool rule: tl_admitted.induct) simp_all

text \<open>C19: For every table of limits, every interleaving of checks with a clock that does not run
  backwards, and every tool: no half-open window of the tool's length contains more admitted calls
  than the tool's limit.\<close>

theorem tool_calls_bounded:
  assumes "sorted (map snd rs)"
  shows "length (filter
      (\<lambda>x. T - of_int (rc_window_seconds (lookup_limit limits tool)) < x \<and> x \<le> T)
      (tl_admitted \<lparr>tl_limits = limits, tl_windows = []\<rparr> rs tool))
    \<le> nat (rc_max_calls (lookup_limit limits tool))"
  using tool_window.window_bound [OF tl_start assms, of limits T tool]
  by (simp add: tl_admitted_eq)

theorem tool_calls_bounded_witness:
  "length (filter (\<lambda>x. 5 - of_int (rc_window_seconds (lookup_limit [(''t'', rc 2 10)] ''t'')) < x \<and> x \<le> 5)
      (tl_admitted \<lparr>tl_limits = [(''t'', rc 2 10)], tl_windows = []\<rparr>
        [(''t'', 1), (''t'', 2), (''t'', 3)] ''t''))
    \<le> nat (rc_max_calls (lookup_limit [(''t'', rc 2 10)] ''t''))"
  by (rule tool_calls_bounded) simp

text \<open>The limiter never refuses too early: after any run it admits a call exactly if fewer than the
  limit of admitted calls are younger than the window.\<close>

theorem tool_check_exact:
  assumes "sorted (map snd rs @ [now])"
  shows "rr_allowed (snd (tl_check (tl_run \<lparr>tl_limits = limits, tl_windows = []\<rparr> rs) tool now))
    \<longleftrightarrow> length (filter (\<lambda>x. now - of_int (rc_window_seconds (lookup_limit limits tool)) < x)
          (tl_admitted \<lparr>tl_limits = limits, tl_windows = []\<rparr> rs tool))
        < nat (rc_max_calls (lookup_limit limits tool))"
  using tool_window.admits_as_log [OF tl_start assms, of limits tool]
  by (simp add: tl_admitted_eq tl_run_eq)

theorem tool_check_exact_witness:
  "rr_allowed (snd (tl_check
      (tl_run \<lparr>tl_limits = [(''t'', rc 2 10)], tl_windows = []\<rparr> [(''t'', 1), (''t'', 2)]) ''t'' 12))
    \<longleftrightarrow> length (filter (\<lambda>x. 12 - of_int (rc_window_seconds (lookup_limit [(''t'', rc 2 10)] ''t'')) < x)
          (tl_admitted \<lparr>tl_limits = [(''t'', rc 2 10)], tl_windows = []\<rparr> [(''t'', 1), (''t'', 2)] ''t''))
        < nat (rc_max_calls (lookup_limit [(''t'', rc 2 10)] ''t''))"
  by (rule tool_check_exact) simp

text \<open>
  A pattern that is added later stands behind the catch-all entry \<open>*\<close> of the default table, which
  matches every tool.
\<close>

lemma find_update_new:
  "find P d \<noteq> None \<Longrightarrow> map_of d k = None \<Longrightarrow> find P (AList.update k v d) = find P d"
  by (induction d) auto

lemma find_catch_all: "find (\<lambda>(pat, c). pattern_matches tool pat) default_rate_limits \<noteq> None"
proof -
  have "(''*'', rc 60 60) \<in> set default_rate_limits"
    by (simp add: default_rate_limits_def)
  moreover have "pattern_matches tool ''*''" by (simp add: pattern_matches_def)
  ultimately show ?thesis by (auto simp: find_None_iff)
qed

text \<open>Setting a limit for a new wildcard pattern has no effect on the tools that it covers: their
  limit stays the one the default table gives them.\<close>

theorem new_pattern_limit_ignored:
  assumes "map_of default_rate_limits pat = None" and "tool \<noteq> pat"
  shows "get_limit (set_limit (tl_init []) pat c) tool = get_limit (tl_init []) tool"
proof -
  have "map_of default_rate_limits ''*'' \<noteq> None"
    by (simp add: default_rate_limits_def)
  with assms(1) have "pat \<noteq> ''*''" by (intro notI) simp
  with assms(2) have "dict_get (AList.update pat c default_rate_limits) ''*'' d
        = dict_get default_rate_limits ''*'' d" for d
    by simp
  moreover have "map_of (AList.update pat c default_rate_limits) tool = map_of default_rate_limits tool"
    using assms(2) by simp
  moreover have "find P (AList.update pat c default_rate_limits) = find P default_rate_limits"
    if "P = (\<lambda>(pat, c). pattern_matches tool pat)" for P
    unfolding that by (rule find_update_new [OF find_catch_all assms(1)])
  ultimately have "lookup_limit (AList.update pat c default_rate_limits) tool
      = lookup_limit default_rate_limits tool"
    unfolding lookup_limit_def by presburger
  then show ?thesis
    by (simp add: get_limit_def set_limit_def tl_init_def dict_union_def)
qed

theorem new_pattern_limit_ignored_witness:
  "get_limit (set_limit (tl_init []) ''plugins.*'' (rc 1 60)) ''plugins.load''
     = get_limit (tl_init []) ''plugins.load''"
  by (rule new_pattern_limit_ignored) (simp_all add: default_rate_limits_def)

end
