(* ===== verification/Rate_Limiter.thy ===== *)
theory Rate_Limiter
  imports Rate_Window
begin

text \<open>
  \<open>sentinel/core/rate_limiter.py\<close>: the keyed sliding-window limiter of the core, the token
  buckets, the hierarchical check over tiers and the bounded log of consumption records.
  The keyed limiter is the second instance of the sliding-window contract: it evicts stale
  buckets on every call and, when it already holds \<open>max_buckets\<close> buckets, the bucket whose
  latest call is oldest, which is what the contract's \<open>fits\<close> is about.
\<close>

record rate_decision =
  rd_allowed :: bool
  rd_remaining :: int
  rd_retry_after :: rat
  rd_limit :: int
  rd_tier :: string

definition default_limits :: "(string \<times> int) list" where
  "default_limits = [(''global'', 60), (''user'', 30), (''session'', 20)]"

definition tier_limits :: "(string \<times> (string \<times> int) list) list" where
  "tier_limits =
     [(''free'', [(''global'', 30), (''user'', 10), (''session'', 5)]),
      (''premium'', [(''global'', 200), (''user'', 100), (''session'', 50)])]"

definition user_tier_limits :: "string \<Rightarrow> (string \<times> int) list" where
  "user_tier_limits tier =
     dict_get tier_limits tier (dict_get tier_limits ''free'' [])"


section \<open>Token buckets\<close>

record token_bucket =
  tb_capacity :: rat
  tb_rate :: rat
  tb_tokens :: "(string \<times> rat) list"
  tb_last :: "(string \<times> rat) list"

definition tb_new :: "rat \<Rightarrow> rat \<Rightarrow> token_bucket result" where
  "tb_new capacity rate =
     (if capacity \<le> 0 \<or> rate \<le> 0 then Inl (ValueError ''capacity and rate must be positive'')
      else Inr \<lparr>tb_capacity = capacity, tb_rate = rate, tb_tokens = [], tb_last = []\<rparr>)"

definition tb_level :: "token_bucket \<Rightarrow> string \<Rightarrow> rat \<Rightarrow> rat" where
  \<comment> \<open>the refilled level of a key at a time\<close>
  "tb_level b key now =
     (let elapsed = now - dict_get (tb_last b) key now
      in min (tb_capacity b) (dict_get (tb_tokens b) key (tb_capacity b) + elapsed * tb_rate b))"

definition tb_allow :: "token_bucket \<Rightarrow> string \<Rightarrow> rat \<Rightarrow> rat \<Rightarrow> token_bucket \<times> rate_decision" where
  "tb_allow b key tokens now =
     (let level = tb_level b key now;
          b1 = b\<lparr>tb_last := AList.update key now (tb_last b)\<rparr>
      in if tokens \<le> level then
           (b1\<lparr>tb_tokens := AList.update key (level - tokens) (tb_tokens b)\<rparr>,
            \<lparr>rd_allowed = True, rd_remaining = py_int (level - tokens), rd_retry_after = 0,
             rd_limit = py_int (tb_capacity b), rd_tier = []\<rparr>)
         else
           (b1\<lparr>tb_tokens := AList.update key level (tb_tokens b)\<rparr>,
            \<lparr>rd_allowed = False, rd_remaining = 0,
             rd_retry_after = (if 0 < tb_rate b
               then of_int (ceiling ((tokens - level) / tb_rate b)) else 0),
             rd_limit = py_int (tb_capacity b), rd_tier = []\<rparr>))"

record bucket_stats =
  bs_capacity :: rat
  bs_rate :: rat
  bs_active_keys :: nat

definition tb_stats :: "token_bucket \<Rightarrow> bucket_stats" where
  "tb_stats b = \<lparr>bs_capacity = tb_capacity b, bs_rate = tb_rate b, bs_active_keys = length (tb_tokens b)\<rparr>"


section \<open>Consumption records\<close>

record consumption_record =
  cr_timestamp :: rat
  cr_key :: string
  cr_tier :: string
  cr_allowed :: bool
  cr_limit :: int
  cr_remaining :: int

definition push_bounded :: "nat \<Rightarrow> 'a list \<Rightarrow> 'a \<Rightarrow> 'a list" where
  \<comment> \<open>\<open>append\<close> on a \<open>deque(maxlen=n)\<close>\<close>
  "push_bounded n xs x = (let ys = xs @ [x] in drop (length ys - n) ys)"

definition max_records :: nat where "max_records = 10000"

definition tracker_record :: "consumption_record list \<Rightarrow> rat \<Rightarrow> string \<Rightarrow> string \<Rightarrow> bool \<Rightarrow> int \<Rightarrow> int
    \<Rightarrow> consumption_record list" where
  "tracker_record rs wall key tier allowed limit remaining =
     push_bounded max_records rs
       \<lparr>cr_timestamp = wall, cr_key = key, cr_tier = tier, cr_allowed = allowed,
        cr_limit = limit, cr_remaining = remaining\<rparr>"

record consumption_summary =
  cs_total :: nat
  cs_denied :: nat
  cs_denied_rate :: rat
  cs_by_tier :: "(string \<times> nat) list"

definition tracker_summary :: "consumption_record list \<Rightarrow> consumption_summary" where
  "tracker_summary rs =
     (let total = length rs; denied = length (filter (\<lambda>r. \<not> cr_allowed r) rs) in
      \<lparr>cs_total = total, cs_denied = denied,
       cs_denied_rate = (if total = 0 then 0 else py_round 2 (of_nat denied / of_nat total * 100)),
       cs_by_tier = fold (\<lambda>r d. AList.update (cr_tier r) (Suc (dict_get d (cr_tier r) 0)) d) rs []\<rparr>)"


section \<open>The keyed limiter\<close>

record rate_limiter =
  rl_window :: rat
  rl_max_buckets :: nat
  rl_buckets :: "(string \<times> rat list) list"
  rl_records :: "consumption_record list"
  rl_token_buckets :: "(string \<times> token_bucket) list"

definition rl_new :: "rat \<Rightarrow> int \<Rightarrow> rate_limiter result" where
  "rl_new window max_buckets =
     (if window \<le> 0 \<or> max_buckets \<le> 0
      then Inl (ValueError ''window_seconds and max_buckets must be positive'')
      else Inr \<lparr>rl_window = window, rl_max_buckets = nat max_buckets, rl_buckets = [],
                rl_records = [], rl_token_buckets = []\<rparr>)"

definition register_token_bucket :: "rate_limiter \<Rightarrow> string \<Rightarrow> rat \<Rightarrow> rat \<Rightarrow> rate_limiter result" where
  "register_token_bucket s name capacity rate =
     (case tb_new capacity rate of
        Inl e \<Rightarrow> Inl e
      | Inr tb \<Rightarrow> Inr (s\<lparr>rl_token_buckets := AList.update name tb (rl_token_buckets s)\<rparr>))"

definition get_token_bucket :: "rate_limiter \<Rightarrow> string \<Rightarrow> token_bucket option" where
  "get_token_bucket s name = map_of (rl_token_buckets s) name"

definition evict_stale :: "rat \<Rightarrow> (string \<times> rat list) list \<Rightarrow> (string \<times> rat list) list" where
  "evict_stale cutoff bs =
     filter (\<lambda>(k, b). b \<noteq> []) (map (\<lambda>(k, b). (k, dropWhile (\<lambda>x. x \<le> cutoff) b)) bs)"

fun oldest_bucket :: "(string \<times> rat list) list \<Rightarrow> (string \<times> rat) option" where
  \<comment> \<open>\<open>min\<close> over the keys by the last entry: the first key with the least one\<close>
  "oldest_bucket [] = None"
| "oldest_bucket ((k, b) # bs) =
     (case oldest_bucket bs of
        None \<Rightarrow> Some (k, last b)
      | Some (k', l) \<Rightarrow> if last b \<le> l then Some (k, last b) else Some (k', l))"

definition make_room :: "nat \<Rightarrow> string \<Rightarrow> (string \<times> rat list) list \<Rightarrow> (string \<times> rat list) list" where
  "make_room max_buckets key bs =
     (if key \<notin> set (keys bs) \<and> max_buckets \<le> length bs
      then (case oldest_bucket bs of None \<Rightarrow> bs | Some (k, l) \<Rightarrow> AList.delete k bs)
      else bs)"

definition rl_allow :: "rate_limiter \<Rightarrow> string \<Rightarrow> int \<Rightarrow> rat \<Rightarrow> rat \<Rightarrow> string
    \<Rightarrow> (rate_limiter \<times> rate_decision) result" where
  "rl_allow s key limit now wall tier =
     (if limit \<le> 0 then Inl (ValueError ''limit must be positive'')
      else
        (let cutoff = now - rl_window s;
             bs = make_room (rl_max_buckets s) key (evict_stale cutoff (rl_buckets s));
             bucket = dropWhile (\<lambda>x. x \<le> cutoff) (dict_get bs key [])
         in if limit \<le> int (length bucket) then
              Inr (s\<lparr>rl_buckets := AList.update key bucket bs,
                     rl_records := tracker_record (rl_records s) wall key tier False limit 0\<rparr>,
                   \<lparr>rd_allowed = False, rd_remaining = 0,
                    rd_retry_after = of_int (ceiling (max 0 (rl_window s - (now - hd bucket)))),
                    rd_limit = limit, rd_tier = tier\<rparr>)
            else
              (let remaining = max 0 (limit - int (length bucket + 1)) in
               Inr (s\<lparr>rl_buckets := AList.update key (bucket @ [now]) bs,
                      rl_records := tracker_record (rl_records s) wall key tier True limit remaining\<rparr>,
                    \<lparr>rd_allowed = True, rd_remaining = remaining, rd_retry_after = 0,
                     rd_limit = limit, rd_tier = tier\<rparr>))))"

definition rl_check :: "rate_limiter \<Rightarrow> string \<Rightarrow> int \<Rightarrow> rat \<Rightarrow> (rate_limiter \<times> rate_decision) result" where
  "rl_check s key limit now =
     (if limit \<le> 0 then Inl (ValueError ''limit must be positive'')
      else
        (case dict_get (rl_buckets s) key [] of
           [] \<Rightarrow> Inr (s, \<lparr>rd_allowed = True, rd_remaining = limit, rd_retry_after = 0,
                         rd_limit = limit, rd_tier = []\<rparr>)
         | x # xs \<Rightarrow>
             (let cutoff = now - rl_window s;
                  bucket = dropWhile (\<lambda>x. x \<le> cutoff) (x # xs);
                  s' = s\<lparr>rl_buckets := AList.update key bucket (rl_buckets s)\<rparr>
              in if limit \<le> int (length bucket) then
                   Inr (s', \<lparr>rd_allowed = False, rd_remaining = 0,
                     rd_retry_after = of_int (ceiling (max 0 (rl_window s - (now - hd bucket)))),
                     rd_limit = limit, rd_tier = []\<rparr>)
                 else
                   Inr (s', \<lparr>rd_allowed = True, rd_remaining = max 0 (limit - int (length bucket)),
                     rd_retry_after = 0, rd_limit = limit, rd_tier = []\<rparr>))))"

fun check_tiers :: "rate_limiter \<Rightarrow> (string \<times> int) list \<Rightarrow> rat \<Rightarrow> rat \<Rightarrow> string \<Rightarrow> rate_decision
    \<Rightarrow> (rate_limiter \<times> rate_decision) result" where
  "check_tiers s [] now wall label last_allowed = Inr (s, last_allowed)"
| "check_tiers s ((key, limit) # tiers) now wall label last_allowed =
     (case rl_allow s key limit now wall label of
        Inl e \<Rightarrow> Inl e
      | Inr (s', dec) \<Rightarrow>
          if rd_allowed dec then check_tiers s' tiers now wall label dec else Inr (s', dec))"

definition check_hierarchy :: "rate_limiter \<Rightarrow> (string \<times> int) list \<Rightarrow> rat \<Rightarrow> rat \<Rightarrow> string
    \<Rightarrow> (rate_limiter \<times> rate_decision) result" where
  "check_hierarchy s tiers now wall label =
     check_tiers s tiers now wall label
       \<lparr>rd_allowed = True, rd_remaining = 0, rd_retry_after = 0, rd_limit = 0, rd_tier = []\<rparr>"

definition rl_clear :: "rate_limiter \<Rightarrow> rate_limiter \<times> nat" where
  "rl_clear s = (s\<lparr>rl_buckets := []\<rparr>, length (rl_buckets s))"

record limiter_stats =
  ls_window :: rat
  ls_max_buckets :: nat
  ls_active_keys :: nat
  ls_limits :: "(string \<times> int) list"
  ls_tier_limits :: "(string \<times> (string \<times> int) list) list"
  ls_token_buckets :: "(string \<times> bucket_stats) list"
  ls_consumption :: consumption_summary

definition rl_stats :: "rate_limiter \<Rightarrow> limiter_stats" where
  "rl_stats s =
     \<lparr>ls_window = rl_window s, ls_max_buckets = rl_max_buckets s,
      ls_active_keys = length (rl_buckets s), ls_limits = default_limits,
      ls_tier_limits = tier_limits,
      ls_token_buckets = map (\<lambda>(name, tb). (name, tb_stats tb)) (rl_token_buckets s),
      ls_consumption = tracker_summary (rl_records s)\<rparr>"


section \<open>Buckets\<close>

definition rl_stamps :: "rate_limiter \<Rightarrow> string \<Rightarrow> rat list" where
  "rl_stamps s key = dict_get (rl_buckets s) key []"

lemma dropWhile_sorted:
  "sorted xs \<Longrightarrow> dropWhile (\<lambda>x. x \<le> c) xs = filter (\<lambda>x. (c::rat) < x) xs"
proof (induction xs)
  case Nil
  then show ?case by simp
next
  case (Cons x xs)
  show ?case
  proof (cases "x \<le> c")
    case True
    with Cons show ?thesis by simp
  next
    case False
    with Cons.prems have "\<forall>y \<in> set xs. c < y" by auto
    with False show ?thesis by simp
  qed
qed

lemma evict_stale_ok [simp]: "dict_ok bs \<Longrightarrow> dict_ok (evict_stale c bs)"
  unfolding evict_stale_def by (intro dict_ok_filter) simp

lemma dropWhile_all_le: "\<forall>x \<in> set xs. x \<le> (c::rat) \<Longrightarrow> dropWhile (\<lambda>x. x \<le> c) xs = []"
  by simp

lemma evict_stale_get:
  "dict_ok bs \<Longrightarrow>
   dict_get (evict_stale c bs) k [] = dropWhile (\<lambda>x. x \<le> c) (dict_get bs k [])"
  unfolding evict_stale_def dict_get_def
  by (subst map_of_filter_key)
    (auto simp: map_of_map_val split: option.split intro: sym [OF dropWhile_all_le])

lemma evict_stale_keys:
  "set (keys (evict_stale c bs)) \<subseteq> set (keys bs)"
  by (force simp: evict_stale_def)

lemma evict_stale_length: "length (evict_stale c bs) \<le> length bs"
  unfolding evict_stale_def by (metis length_filter_le length_map)

lemma evict_stale_length_less:
  assumes "k \<in> set (keys bs)" and "k \<notin> set (keys (evict_stale c bs))"
  shows "length (evict_stale c bs) < length bs"
proof -
  from assms(1) obtain b where b: "(k, b) \<in> set bs" by auto
  let ?m = "map (\<lambda>(k, b). (k, dropWhile (\<lambda>x. x \<le> c) b)) bs"
  have "(k, dropWhile (\<lambda>x. x \<le> c) b) \<in> set ?m" using b by force
  moreover from this assms(2) have "dropWhile (\<lambda>x. x \<le> c) b = []"
    by (force simp: evict_stale_def)
  ultimately have "length (filter (\<lambda>(k, b). b \<noteq> []) ?m) < length ?m"
    by (intro length_filter_less) auto
  then show ?thesis by (simp add: evict_stale_def)
qed

lemma make_room_ok [simp]: "dict_ok bs \<Longrightarrow> dict_ok (make_room m k bs)"
  by (simp add: make_room_def split: option.split)

lemma make_room_get_sub:
  "dict_get (make_room m k bs) k' [] = dict_get bs k' [] \<or> dict_get (make_room m k bs) k' [] = []"
  unfolding make_room_def by (simp split: if_split option.split prod.split)

lemma oldest_bucket_in: "oldest_bucket bs = Some (k, l) \<Longrightarrow> k \<in> set (keys bs)"
  by (induction bs arbitrary: k l rule: oldest_bucket.induct) (auto split: option.splits if_splits)

lemma oldest_bucket_None: "oldest_bucket bs = None \<longleftrightarrow> bs = []"
  by (induction bs rule: oldest_bucket.induct) (auto split: option.splits)

lemma make_room_length:
  assumes "0 < m" and "length bs \<le> m"
  shows "length (AList.update k v (make_room m k bs)) \<le> m"
proof (cases "k \<in> set (keys bs)")
  case True
  then show ?thesis using assms(2) by (simp add: make_room_def length_update_in)
next
  case new: False
  show ?thesis
  proof (cases "m \<le> length bs")
    case False
    have "make_room m k bs = bs" using False by (simp add: make_room_def)
    then show ?thesis using False new by (simp add: length_update_new)
  next
    case True
    with assms(1) have "bs \<noteq> []" by auto
    then obtain k' l where o: "oldest_bucket bs = Some (k', l)"
      by (metis oldest_bucket_None option.exhaust surj_pair)
    then have "length (AList.delete k' bs) < length bs"
      by (intro length_delete_less oldest_bucket_in)
    moreover have "make_room m k bs = AList.delete k' bs"
      using new True o by (simp add: make_room_def)
    ultimately show ?thesis
      using length_update_le [of k v "AList.delete k' bs"] assms(2) by simp
  qed
qed

lemma make_room_same: "dict_get (make_room m k bs) k v = dict_get bs k v"
  unfolding make_room_def
  by (auto split: if_split option.split prod.split dest: oldest_bucket_in)

lemma make_room_fits:
  assumes "length bs \<le> m" and "k \<in> set (keys bs) \<or> length bs < m"
  shows "make_room m k (evict_stale c bs) = evict_stale c bs"
proof (cases "k \<in> set (keys (evict_stale c bs))")
  case True
  then show ?thesis by (simp add: make_room_def)
next
  case False
  have "length (evict_stale c bs) < m"
    using assms evict_stale_length [of c bs] evict_stale_length_less [OF _ False] by fastforce
  then show ?thesis by (simp add: make_room_def)
qed


section \<open>The sliding-window contract\<close>

definition rl_ok :: "rat \<Rightarrow> rate_limiter \<Rightarrow> bool" where
  "rl_ok w s \<longleftrightarrow> rl_window s = w \<and> dict_ok (rl_buckets s) \<and> 0 < rl_max_buckets s
     \<and> length (rl_buckets s) \<le> rl_max_buckets s"

definition rl_fits :: "rate_limiter \<Rightarrow> string \<Rightarrow> bool" where
  "rl_fits s key \<longleftrightarrow> key \<in> set (keys (rl_buckets s)) \<or> length (rl_buckets s) < rl_max_buckets s"

definition rl_step :: "(string \<Rightarrow> int) \<Rightarrow> rate_limiter \<Rightarrow> string \<Rightarrow> rat \<Rightarrow> rate_limiter \<times> bool" where
  \<comment> \<open>a caller that asks for each key with that key's own positive limit\<close>
  "rl_step lims s key now =
     (case rl_allow s key (max 1 (lims key)) now now [] of
        Inl e \<Rightarrow> (s, False)
      | Inr (s', dec) \<Rightarrow> (s', rd_allowed dec))"

definition rl_bucket :: "rate_limiter \<Rightarrow> string \<Rightarrow> rat \<Rightarrow> rat list" where
  \<comment> \<open>the bucket the decision is taken on\<close>
  "rl_bucket s key now =
     dropWhile (\<lambda>x. x \<le> now - rl_window s)
       (dict_get (make_room (rl_max_buckets s) key
          (evict_stale (now - rl_window s) (rl_buckets s))) key [])"

lemma dropWhile_twice [simp]: "dropWhile P (dropWhile P xs) = dropWhile P xs"
  by (induction xs) auto

lemma rl_bucket_eq:
  "dict_ok (rl_buckets s) \<Longrightarrow>
   rl_bucket s key now = dropWhile (\<lambda>x. x \<le> now - rl_window s) (rl_stamps s key)"
  by (simp add: rl_bucket_def rl_stamps_def make_room_same evict_stale_get)

lemma rl_bucket_live:
  "dict_ok (rl_buckets s) \<Longrightarrow> sorted (rl_stamps s key) \<Longrightarrow>
   rl_bucket s key now = filter (\<lambda>x. now - rl_window s < x) (rl_stamps s key)"
  by (simp add: rl_bucket_eq dropWhile_sorted)

lemma rl_allow_view:
  assumes "0 < limit"
  obtains s' d where "rl_allow s key limit now wall tier = Inr (s', d)"
    and "rd_allowed d \<longleftrightarrow> int (length (rl_bucket s key now)) < limit"
    and "rl_buckets s' =
      AList.update key (rl_bucket s key now @ (if rd_allowed d then [now] else []))
        (make_room (rl_max_buckets s) key (evict_stale (now - rl_window s) (rl_buckets s)))"
    and "rl_window s' = rl_window s" and "rl_max_buckets s' = rl_max_buckets s"
proof (cases "limit \<le> int (length (rl_bucket s key now))")
  case True
  with assms show ?thesis
    by (intro that) (simp add: rl_allow_def Let_def rl_bucket_def [symmetric]; simp)+
next
  case False
  with assms show ?thesis
    by (intro that) (simp add: rl_allow_def Let_def rl_bucket_def [symmetric]; simp)+
qed

lemma rl_step_view:
  "snd (rl_step lims s key now) \<longleftrightarrow> int (length (rl_bucket s key now)) < max 1 (lims key)"
  "rl_buckets (fst (rl_step lims s key now)) =
     AList.update key (rl_bucket s key now @ (if snd (rl_step lims s key now) then [now] else []))
       (make_room (rl_max_buckets s) key (evict_stale (now - rl_window s) (rl_buckets s)))"
  "rl_window (fst (rl_step lims s key now)) = rl_window s"
  "rl_max_buckets (fst (rl_step lims s key now)) = rl_max_buckets s"
proof -
  have "0 < max 1 (lims key)" by simp
  from rl_allow_view [OF this, of s key now now "[]"]
  obtain s' d where v: "rl_allow s key (max 1 (lims key)) now now [] = Inr (s', d)"
    and d: "rd_allowed d \<longleftrightarrow> int (length (rl_bucket s key now)) < max 1 (lims key)"
    and b: "rl_buckets s' =
      AList.update key (rl_bucket s key now @ (if rd_allowed d then [now] else []))
        (make_room (rl_max_buckets s) key (evict_stale (now - rl_window s) (rl_buckets s)))"
    and w: "rl_window s' = rl_window s" "rl_max_buckets s' = rl_max_buckets s" .
  have "rl_step lims s key now = (s', rd_allowed d)" by (simp add: rl_step_def v)
  with d b w show
    "snd (rl_step lims s key now) \<longleftrightarrow> int (length (rl_bucket s key now)) < max 1 (lims key)"
    "rl_buckets (fst (rl_step lims s key now)) =
     AList.update key (rl_bucket s key now @ (if snd (rl_step lims s key now) then [now] else []))
       (make_room (rl_max_buckets s) key (evict_stale (now - rl_window s) (rl_buckets s)))"
    "rl_window (fst (rl_step lims s key now)) = rl_window s"
    "rl_max_buckets (fst (rl_step lims s key now)) = rl_max_buckets s"
    by simp_all
qed

lemma rl_step_ok: "rl_ok w s \<Longrightarrow> rl_ok w (fst (rl_step lims s key now))"
  using evict_stale_length [of "now - rl_window s" "rl_buckets s"]
  by (simp add: rl_ok_def rl_step_view make_room_length)

lemma rl_step_other:
  assumes "rl_ok w s" and "key' \<noteq> key"
  shows "rl_stamps (fst (rl_step lims s key now)) key' =
      dropWhile (\<lambda>x. x \<le> now - rl_window s) (rl_stamps s key')
    \<or> rl_stamps (fst (rl_step lims s key now)) key' = []"
  using assms make_room_get_sub [of "rl_max_buckets s" key
      "evict_stale (now - rl_window s) (rl_buckets s)" key']
  by (auto simp: rl_stamps_def rl_step_view evict_stale_get rl_ok_def)

lemma rl_step_other_fits:
  assumes "rl_ok w s" and "rl_fits s key" and "key' \<noteq> key"
  shows "rl_stamps (fst (rl_step lims s key now)) key' =
      dropWhile (\<lambda>x. x \<le> now - rl_window s) (rl_stamps s key')"
  using assms
  by (simp add: rl_stamps_def rl_step_view make_room_fits evict_stale_get rl_ok_def rl_fits_def)

interpretation keyed_window: sliding_window "rl_step lims" rl_stamps
  "\<lambda>k. nat (max 1 (lims k))" "\<lambda>k. w" rl_fits "rl_ok w" for lims w
proof
  fix s k t
  assume s: "rl_ok w s"
  then have w: "rl_window s = w" and d: "dict_ok (rl_buckets s)" by (simp_all add: rl_ok_def)
  show "rl_ok w (fst (rl_step lims s k t))" by (rule rl_step_ok [OF s])
  {
    assume srt: "sorted (rl_stamps s k)"
    have b: "rl_bucket s k t = filter (\<lambda>x. t - w < x) (rl_stamps s k)"
      using rl_bucket_live [OF d srt] w by simp
    show "snd (rl_step lims s k t)
        = (length (filter (\<lambda>x. t - w < x) (rl_stamps s k)) < nat (max 1 (lims k)))"
      by (simp add: rl_step_view b zless_nat_eq_int_zless)
    show "rl_stamps (fst (rl_step lims s k t)) k =
        filter (\<lambda>x. t - w < x) (rl_stamps s k) @ (if snd (rl_step lims s k t) then [t] else [])"
      using rl_step_view(2) [of lims s k t] by (simp add: rl_stamps_def b [unfolded rl_stamps_def])
  }
  fix k'
  assume k: "k' \<noteq> k" and srt: "sorted (rl_stamps s k')"
  show "filter (\<lambda>x. t - w < x) (rl_stamps (fst (rl_step lims s k t)) k')
      = filter (\<lambda>x. t - w < x) (rl_stamps s k')" if "rl_fits s k"
    using rl_step_other_fits [OF s that k, of lims t] by (simp add: dropWhile_sorted [OF srt] w)
  show "sorted (rl_stamps (fst (rl_step lims s k t)) k')
      \<and> set (rl_stamps (fst (rl_step lims s k t)) k') \<subseteq> set (rl_stamps s k')"
    using rl_step_other [OF s k, of lims t] srt
    by (auto simp: dropWhile_sorted sorted_wrt_filter)
qed

fun rl_run :: "(string \<Rightarrow> int) \<Rightarrow> rate_limiter \<Rightarrow> (string \<times> rat) list \<Rightarrow> rate_limiter" where
  "rl_run lims s [] = s"
| "rl_run lims s ((k, t) # rs) = rl_run lims (fst (rl_step lims s k t)) rs"

fun rl_admitted :: "(string \<Rightarrow> int) \<Rightarrow> rate_limiter \<Rightarrow> (string \<times> rat) list \<Rightarrow> string \<Rightarrow> rat list" where
  "rl_admitted lims s [] k = []"
| "rl_admitted lims s ((k', t) # rs) k =
     (if k' = k \<and> snd (rl_step lims s k' t) then [t] else [])
       @ rl_admitted lims (fst (rl_step lims s k' t)) rs k"

fun rl_all_fit :: "(string \<Rightarrow> int) \<Rightarrow> rate_limiter \<Rightarrow> (string \<times> rat) list \<Rightarrow> bool" where
  "rl_all_fit lims s [] = True"
| "rl_all_fit lims s ((k, t) # rs) = (rl_fits s k \<and> rl_all_fit lims (fst (rl_step lims s k t)) rs)"

lemma rl_run_eq: "keyed_window.run lims s rs = rl_run lims s rs"
  by (induction rs arbitrary: s) auto

lemma rl_admitted_eq: "keyed_window.admitted lims s rs k = rl_admitted lims s rs k"
  by (induction rs arbitrary: s) auto

lemma rl_all_fit_eq: "keyed_window.all_fit lims s rs = rl_all_fit lims s rs"
  by (induction rs arbitrary: s) auto

lemma rl_new_start:
  "rl_new w m = Inr s \<Longrightarrow> keyed_window.start w s"
  by (auto simp: rl_new_def keyed_window.start_def rl_ok_def rl_stamps_def split: if_splits)

text \<open>For a limiter created with a positive window and bucket bound, and calls in time order
  that each find their bucket or room for a new one, no key is ever granted more than its limit
  within any window.\<close>

theorem keyed_calls_bounded:
  assumes "rl_new w m = Inr s" and "sorted (map snd rs)" and "rl_all_fit lims s rs"
    and "0 < lims k"
  shows "int (length (filter (\<lambda>x. T - w < x \<and> x \<le> T) (rl_admitted lims s rs k))) \<le> lims k"
proof -
  have "length (filter (\<lambda>x. T - w < x \<and> x \<le> T) (rl_admitted lims s rs k)) \<le> nat (max 1 (lims k))"
    using keyed_window.window_bound [OF rl_new_start [OF assms(1)] assms(2), of lims T k] assms(3)
    by (simp add: rl_admitted_eq rl_all_fit_eq)
  then show ?thesis using assms(4) by (simp add: le_nat_iff)
qed

definition rl_sample :: rate_limiter where
  "rl_sample = \<lparr>rl_window = 60, rl_max_buckets = 2, rl_buckets = [], rl_records = [], rl_token_buckets = []\<rparr>"

lemma rl_sample_new: "rl_new 60 2 = Inr rl_sample"
  by (simp add: rl_new_def rl_sample_def)

theorem keyed_calls_bounded_witness:
  "int (length (filter (\<lambda>x. 40 - 60 < x \<and> x \<le> 40)
      (rl_admitted (\<lambda>k. 2) rl_sample [(''u'', 1), (''v'', 2), (''u'', 3), (''u'', 4)] ''u''))) \<le> 2"
  by (rule keyed_calls_bounded [where lims = "\<lambda>k. 2" and m = 2 and T = 40])
    (simp_all add: rl_sample_new rl_fits_def rl_sample_def rl_step_def rl_allow_def Let_def
      make_room_def evict_stale_def dict_get_def)

text \<open>After any run of calls, a key is granted exactly when fewer than its limit of the calls
  granted to it are younger than the window: the limiter neither forgets nor over-counts.\<close>

theorem keyed_check_exact:
  assumes "rl_new w m = Inr s" and "sorted (map snd rs @ [t])" and "rl_all_fit lims s rs"
    and "0 < lims k"
  shows "snd (rl_step lims (rl_run lims s rs) k t) \<longleftrightarrow>
    int (length (filter (\<lambda>x. t - w < x) (rl_admitted lims s rs k))) < lims k"
  using keyed_window.admits_as_log [OF rl_new_start [OF assms(1)] assms(2), of lims k] assms(3,4)
  by (simp add: rl_admitted_eq rl_all_fit_eq rl_run_eq zless_nat_eq_int_zless)

theorem keyed_check_exact_witness:
  "snd (rl_step (\<lambda>k. 1) (rl_run (\<lambda>k. 1) rl_sample [(''u'', 1), (''v'', 2)]) ''u'' 62) \<longleftrightarrow>
    int (length (filter (\<lambda>x. 62 - 60 < x) (rl_admitted (\<lambda>k. 1) rl_sample [(''u'', 1), (''v'', 2)] ''u''))) < 1"
  by (rule keyed_check_exact [where lims = "\<lambda>k. 1" and m = 2])
    (simp_all add: rl_sample_new rl_fits_def rl_sample_def rl_step_def rl_allow_def Let_def
      make_room_def evict_stale_def dict_get_def)

text \<open>The keyed limiter never keeps more than \<open>max_buckets\<close> buckets, whatever is asked.\<close>

theorem buckets_bounded:
  assumes "rl_new w m = Inr s"
  shows "int (length (rl_buckets (rl_run lims s rs))) \<le> m"
proof -
  have "rl_ok w s \<Longrightarrow> rl_max_buckets s = M \<Longrightarrow>
      rl_ok w (rl_run lims s rs) \<and> rl_max_buckets (rl_run lims s rs) = M"
    for s M
    by (induction rs arbitrary: s) (auto simp: rl_step_ok rl_step_view)
  from this [of s "nat m"] assms show ?thesis
    by (auto simp: rl_new_def rl_ok_def split: if_splits)
qed

theorem buckets_bounded_witness:
  "int (length (rl_buckets (rl_run (\<lambda>k. 1) rl_sample [(''u'', 1), (''v'', 2), (''x'', 3)]))) \<le> 2"
  by (rule buckets_bounded [OF rl_sample_new])


section \<open>Token buckets conserve tokens\<close>

fun tb_run :: "token_bucket \<Rightarrow> string \<Rightarrow> (rat \<times> rat) list \<Rightarrow> token_bucket" where
  "tb_run b key [] = b"
| "tb_run b key ((n, t) # rs) = tb_run (fst (tb_allow b key n t)) key rs"

fun tb_granted :: "token_bucket \<Rightarrow> string \<Rightarrow> (rat \<times> rat) list \<Rightarrow> rat" where
  \<comment> \<open>the tokens handed out for \<open>key\<close> over a run of requests\<close>
  "tb_granted b key [] = 0"
| "tb_granted b key ((n, t) # rs) =
     (if rd_allowed (snd (tb_allow b key n t)) then n else 0)
       + tb_granted (fst (tb_allow b key n t)) key rs"

lemma tb_allow_view:
  "rd_allowed (snd (tb_allow b key n t)) \<longleftrightarrow> n \<le> tb_level b key t"
  "tb_capacity (fst (tb_allow b key n t)) = tb_capacity b"
  "tb_rate (fst (tb_allow b key n t)) = tb_rate b"
  "dict_get (tb_tokens (fst (tb_allow b key n t))) key c
     = tb_level b key t - (if n \<le> tb_level b key t then n else 0)"
  "dict_get (tb_last (fst (tb_allow b key n t))) key c = t"
  by (simp_all add: tb_allow_def Let_def)

lemma tb_level_next:
  "tb_level (fst (tb_allow b key n t)) key u =
     min (tb_capacity b)
       (tb_level b key t - (if n \<le> tb_level b key t then n else 0) + (u - t) * tb_rate b)"
  unfolding tb_level_def [of "fst (tb_allow b key n t)"] by (simp add: tb_allow_view)

lemma tb_granted_le:
  assumes "0 \<le> tb_rate b" and "0 \<le> tb_capacity b" and "\<forall>(n, t) \<in> set rs. 0 \<le> n"
    and "sorted (map snd rs)" and "rs \<noteq> []" and "0 \<le> tb_level b key (snd (hd rs))"
  shows "tb_granted b key rs
    \<le> tb_level b key (snd (hd rs)) + (snd (last rs) - snd (hd rs)) * tb_rate b"
  using assms
proof (induction rs arbitrary: b)
  case Nil
  then show ?case by simp
next
  case (Cons r rs)
  obtain n t where r: "r = (n, t)" by (cases r)
  let ?b = "fst (tb_allow b key n t)" and ?g = "if n \<le> tb_level b key t then n else 0"
  show ?case
  proof (cases rs)
    case Nil
    then show ?thesis using Cons.prems(6) r by (simp add: tb_allow_view)
  next
    case C: (Cons r' rs')
    let ?u = "snd (hd rs)"
    have u: "t \<le> ?u" using Cons.prems(4) r C by simp
    have n: "0 \<le> n" using Cons.prems(3) r by simp
    have nn: "0 \<le> (?u - t) * tb_rate b" using u Cons.prems(1) by simp
    have lev: "tb_level ?b key ?u \<le> tb_level b key t - ?g + (?u - t) * tb_rate b"
      and lev0: "0 \<le> tb_level ?b key ?u"
      using nn n Cons.prems(2,6) r by (simp_all add: tb_level_next)
    have "tb_granted ?b key rs \<le> tb_level ?b key ?u + (snd (last rs) - ?u) * tb_rate b"
      using Cons.IH [of ?b] Cons.prems(1-4) lev0 C r by (simp add: tb_allow_view)
    with lev have "?g + tb_granted ?b key rs
        \<le> tb_level b key t + (?u - t) * tb_rate b + (snd (last rs) - ?u) * tb_rate b"
      by linarith
    also have "\<dots> = tb_level b key t + (snd (last rs) - t) * tb_rate b"
      by (simp add: algebra_simps)
    finally show ?thesis using r C by (simp add: tb_allow_view)
  qed
qed

text \<open>A token bucket conserves tokens: over any run of requests for one key, in time order,
  the tokens granted never exceed the capacity plus what the elapsed time has refilled.\<close>

theorem token_bucket_conserves:
  assumes "tb_new capacity rate = Inr b" and "\<forall>(n, t) \<in> set rs. 0 \<le> n"
    and "sorted (map snd rs)" and "rs \<noteq> []"
  shows "tb_granted b key rs \<le> capacity + (snd (last rs) - snd (hd rs)) * rate"
proof -
  have b: "tb_capacity b = capacity" "tb_rate b = rate" "0 < capacity" "0 < rate"
    and l: "tb_level b key t = capacity" for t
    using assms(1) by (auto simp: tb_new_def tb_level_def split: if_splits)
  show ?thesis using tb_granted_le [of b rs key] assms(2-4) b l by simp
qed

theorem token_bucket_conserves_witness:
  "tb_granted \<lparr>tb_capacity = 3, tb_rate = 1/2, tb_tokens = [], tb_last = []\<rparr> ''u'' [(2, 0), (2, 1), (2, 4)]
     \<le> 3 + (snd (last [(2, 0), (2, 1), (2::rat, 4::rat)]) - snd (hd [(2, 0), (2, 1), (2::rat, 4)])) * (1/2)"
  by (rule token_bucket_conserves) (simp_all add: tb_new_def)

end
