(* ===== verification/Py_Text.thy ===== *)
theory Py_Text
  imports Py_Prelude
begin

text \<open>
  The parts of Python's string library that the policies use: \<open>str()\<close> of parameter values,
  \<open>int()\<close> of a decimal string, \<open>replace\<close>, \<open>split\<close> by a substring, \<open>fnmatch\<close> and the host part
  of \<open>urlparse\<close>. \<open>repr\<close> of a string puts it between single quotes, which is what Python prints
  for printable text without quotes and backslashes; an object prints as its class.
  \<open>fnmatch\<close> passes its arguments through \<open>os.path.normcase\<close>, so the operating system is an
  argument of everything that depends on it.
\<close>

section \<open>Text of values\<close>

fun py_repr :: "pyval \<Rightarrow> string" where
  "py_repr PNone = ''None''"
| "py_repr (PBool b) = (if b then ''True'' else ''False'')"
| "py_repr (PInt i) = int_str i"
| "py_repr (PStr s) = quoted s"
| "py_repr (PList xs) = ''['' @ join '', '' (map py_repr xs) @ '']''"
| "py_repr (PDict d) = ''{'' @ join '', '' (map (\<lambda>(k, v). quoted k @ '': '' @ py_repr v) d) @ ''}''"
| "py_repr (PObj i c a) = ''<'' @ c @ ''>''"

fun py_str :: "pyval \<Rightarrow> string" where
  "py_str (PStr s) = s"
| "py_str v = py_repr v"

definition str_list_repr :: "string list \<Rightarrow> string" where
  "str_list_repr xs = ''['' @ join '', '' (map quoted xs) @ '']''"

fun digit_value :: "char \<Rightarrow> int option" where
  "digit_value c =
     (let n = of_char c :: int in if 48 \<le> n \<and> n \<le> 57 then Some (n - 48) else None)"

fun parse_digits :: "int \<Rightarrow> string \<Rightarrow> int option" where
  \<comment> \<open>digits, with single underscores between them\<close>
  "parse_digits acc [] = Some acc"
| "parse_digits acc (c # cs) =
     (case digit_value c of
        Some d \<Rightarrow> parse_digits (acc * 10 + d) cs
      | None \<Rightarrow>
          (case cs of
             [] \<Rightarrow> None
           | c' # cs' \<Rightarrow>
               if c = CHR ''_'' then
                 (case digit_value c' of
                    Some d \<Rightarrow> parse_digits (acc * 10 + d) cs'
                  | None \<Rightarrow> None)
               else None))"

fun parse_nat :: "string \<Rightarrow> int option" where
  "parse_nat [] = None"
| "parse_nat (c # cs) =
     (case digit_value c of Some d \<Rightarrow> parse_digits d cs | None \<Rightarrow> None)"

definition strip :: "string \<Rightarrow> string" where
  "strip s = rev (dropWhile is_space (rev (dropWhile is_space s)))"

definition parse_int :: "string \<Rightarrow> int option" where
  \<comment> \<open>\<open>int(s)\<close>; \<open>None\<close> where it raises \<open>ValueError\<close>\<close>
  "parse_int s =
     (case strip s of
        [] \<Rightarrow> None
      | c # cs \<Rightarrow>
          if c = CHR ''-'' then map_option uminus (parse_nat cs)
          else if c = CHR ''+'' then parse_nat cs
          else parse_nat (c # cs))"

fun py_int_of :: "pyval \<Rightarrow> int result" where
  \<comment> \<open>\<open>int(x)\<close>\<close>
  "py_int_of (PInt i) = Inr i"
| "py_int_of (PBool b) = Inr (if b then 1 else 0)"
| "py_int_of (PStr s) =
     (case parse_int s of
        Some i \<Rightarrow> Inr i
      | None \<Rightarrow> Inl (ValueError (''invalid literal for int() with base 10: '' @ quoted s)))"
| "py_int_of _ = Inl (AnyException ''TypeError'')"


definition win :: "string \<Rightarrow> string" where
  \<comment> \<open>a Windows path literal, written here with slashes for its backslashes\<close>
  "win s = map (\<lambda>c. if c = CHR ''/'' then CHR 0x5C else c) s"


section \<open>Dynamic operations on values\<close>

fun py_eq :: "pyval \<Rightarrow> pyval \<Rightarrow> bool" where
  \<comment> \<open>\<open>==\<close>: \<open>True\<close> equals 1 and \<open>False\<close> equals 0, objects compare by identity\<close>
  "py_eq (PBool a) (PInt i) = (i = (if a then 1 else 0))"
| "py_eq (PInt i) (PBool a) = (i = (if a then 1 else 0))"
| "py_eq (PObj i c a) (PObj j c' a') = (i = j)"
| "py_eq a b = (a = b)"

lemma py_eq_refl [simp]: "py_eq v v"
  by (cases v) auto

lemma py_eq_str [simp]: "py_eq v (PStr s) \<longleftrightarrow> v = PStr s" "py_eq (PStr s) v \<longleftrightarrow> v = PStr s"
  by (cases v; auto)+

definition py_member :: "pyval \<Rightarrow> pyval list \<Rightarrow> bool" where
  \<comment> \<open>\<open>x in xs\<close> for a list\<close>
  "py_member v xs \<longleftrightarrow> (\<exists>x \<in> set xs. py_eq v x)"

lemma py_member_str [simp]: "py_member (PStr s) xs \<longleftrightarrow> PStr s \<in> set xs"
  by (auto simp: py_member_def)

fun or_dict :: "pyval \<Rightarrow> params result" where
  \<comment> \<open>\<open>x or {}\<close>, used as a dictionary\<close>
  "or_dict (PDict d) = Inr d"
| "or_dict v = (if truthy v then Inl (AnyException ''AttributeError'') else Inr [])"

fun str_items :: "pyval \<Rightarrow> string list" where
  \<comment> \<open>the strings of a list\<close>
  "str_items (PList xs) = concat (map (\<lambda>x. case x of PStr s \<Rightarrow> [s] | _ \<Rightarrow> []) xs)"
| "str_items _ = []"

lemma str_items_map [simp]: "str_items (PList (map PStr xs)) = xs"
  by (induction xs) simp_all

fun int_items :: "pyval \<Rightarrow> int list" where
  "int_items (PList xs) = concat (map (\<lambda>x. case x of PInt i \<Rightarrow> [i] | _ \<Rightarrow> []) xs)"
| "int_items _ = []"

fun items :: "pyval \<Rightarrow> pyval list result" where
  \<comment> \<open>iteration\<close>
  "items (PList xs) = Inr xs"
| "items (PStr s) = Inr (map (\<lambda>c. PStr [c]) s)"
| "items (PDict d) = Inr (map (\<lambda>(k, v). PStr k) d)"
| "items _ = Inl (AnyException ''TypeError'')"

definition or_items :: "pyval \<Rightarrow> pyval list result" where
  \<comment> \<open>iteration over \<open>x or []\<close>\<close>
  "or_items v = (if truthy v then items v else Inr [])"

fun bind_result :: "'a result \<Rightarrow> ('a \<Rightarrow> 'b result) \<Rightarrow> 'b result" where
  "bind_result (Inl e) f = Inl e"
| "bind_result (Inr a) f = f a"

lemma bind_result_Inr [simp]:
  "bind_result r f = Inr b \<longleftrightarrow> (\<exists>a. r = Inr a \<and> f a = Inr b)"
  by (cases r) auto


definition cfg_int :: "params \<Rightarrow> string \<Rightarrow> int \<Rightarrow> int result" where
  \<comment> \<open>a configured number, about to be compared with one\<close>
  "cfg_int config key d =
     (case dict_get config key (PInt d) of
        PInt i \<Rightarrow> Inr i
      | PBool b \<Rightarrow> Inr (if b then 1 else 0)
      | _ \<Rightarrow> Inl (AnyException ''TypeError''))"


section \<open>Substrings\<close>

fun split_sub :: "string \<Rightarrow> string \<Rightarrow> (string \<times> string) option" where
  \<comment> \<open>the text before and after the first occurrence of a non-empty separator\<close>
  "split_sub d [] = None"
| "split_sub d (x # xs) =
     (if prefix d (x # xs) then Some ([], drop (length d) (x # xs))
      else map_option (\<lambda>(a, b). (x # a, b)) (split_sub d xs))"

definition first_part :: "string \<Rightarrow> string \<Rightarrow> string" where
  \<comment> \<open>\<open>s.split(d)[0]\<close>\<close>
  "first_part d s = (case split_sub d s of None \<Rightarrow> s | Some (a, b) \<Rightarrow> a)"

definition last_part :: "char \<Rightarrow> string \<Rightarrow> string" where
  \<comment> \<open>\<open>s.split(c)[-1]\<close>\<close>
  "last_part c s = rev (takeWhile (\<lambda>x. x \<noteq> c) (rev s))"

function replace_all :: "string \<Rightarrow> string \<Rightarrow> string \<Rightarrow> string" where
  \<comment> \<open>\<open>s.replace(d, r)\<close> for a non-empty \<open>d\<close>\<close>
  "replace_all d r [] = []"
| "replace_all d r (x # xs) =
     (if d \<noteq> [] \<and> prefix d (x # xs) then r @ replace_all d r (drop (length d) (x # xs))
      else x # replace_all d r xs)"
  by pat_completeness auto
termination
  by (relation "measure (\<lambda>(d, r, s). length s)") (auto simp: less_Suc_eq_le neq_Nil_conv)

lemma replace_all_absent: "\<not> sublist d s \<Longrightarrow> replace_all d r s = s"
  by (induction d r s rule: replace_all.induct) (auto simp: sublist_Cons_right)

lemma replace_all_self: "d \<noteq> [] \<Longrightarrow> replace_all d r d = r"
  by (cases d) simp_all


section \<open>Shell patterns\<close>

datatype platform = Posix | Windows

definition normcase :: "platform \<Rightarrow> string \<Rightarrow> string" where
  "normcase os s =
     (case os of
        Posix \<Rightarrow> s
      | Windows \<Rightarrow> map (\<lambda>c. if c = CHR ''/'' then CHR 0x5C else lower_char c) s)"

fun set_member :: "char \<Rightarrow> string \<Rightarrow> bool" where
  \<comment> \<open>membership in the body of a bracket expression\<close>
  "set_member c [] = False"
| "set_member c (a # cs) =
     (case cs of
        h # b # cs' \<Rightarrow>
          if h = CHR ''-'' then
            ((of_char a :: nat) \<le> of_char c \<and> (of_char c :: nat) \<le> of_char b) \<or> set_member c cs'
          else c = a \<or> set_member c cs
      | _ \<Rightarrow> c = a \<or> set_member c cs)"

definition bracket :: "string \<Rightarrow> (bool \<times> string \<times> string) option" where
  \<comment> \<open>a bracket expression after its opening bracket: negation, body and the rest\<close>
  "bracket p =
     (let (neg, q) = (case p of c # cs \<Rightarrow> if c = CHR ''!'' then (True, cs) else (False, p)
                              | [] \<Rightarrow> (False, p));
          (h, t) = (case q of c # cs \<Rightarrow> if c = CHR '']'' then ([c], cs) else ([], q) | [] \<Rightarrow> ([], q));
          body = takeWhile (\<lambda>x. x \<noteq> CHR '']'') t; rest = dropWhile (\<lambda>x. x \<noteq> CHR '']'') t
      in (case rest of [] \<Rightarrow> None | c # cs \<Rightarrow> Some (neg, h @ body, cs)))"

lemma bracket_shorter: "bracket p = Some (n, b, r) \<Longrightarrow> length r < length p"
proof -
  assume a: "bracket p = Some (n, b, r)"
  have *: "length cs < length t" if "dropWhile P t = c # cs" for P c t and cs :: string
    using length_dropWhile_le [of P t] that by simp
  show ?thesis
    using a unfolding bracket_def Let_def
    by (auto split: list.splits if_splits dest!: *)
qed

function glob :: "string \<Rightarrow> string \<Rightarrow> bool" where
  "glob [] s = (s = [])"
| "glob (p # ps) s =
     (if p = CHR ''*'' then glob ps s \<or> (case s of [] \<Rightarrow> False | c # cs \<Rightarrow> glob (p # ps) cs)
      else
        (case s of
           [] \<Rightarrow> False
         | c # cs \<Rightarrow>
             if p = CHR ''?'' then glob ps cs
             else if p = CHR ''['' then
               (case bracket ps of
                  None \<Rightarrow> c = p \<and> glob ps cs
                | Some (neg, body, rest) \<Rightarrow> (set_member c body \<noteq> neg) \<and> glob rest cs)
             else c = p \<and> glob ps cs))"
  by pat_completeness auto
termination
  by (relation "measure (\<lambda>(p, s). length p + length s)")
    (auto dest: bracket_shorter)

definition fnmatch :: "platform \<Rightarrow> string \<Rightarrow> string \<Rightarrow> bool" where
  \<comment> \<open>\<open>fnmatch(name, pat)\<close>\<close>
  "fnmatch os name pat = glob (normcase os pat) (normcase os name)"

definition literal :: "string \<Rightarrow> bool" where
  "literal p \<longleftrightarrow> list_all (\<lambda>c. c \<noteq> CHR ''*'' \<and> c \<noteq> CHR ''?'' \<and> c \<noteq> CHR ''['') p"

lemma glob_literal [simp]: "literal p \<Longrightarrow> glob p s \<longleftrightarrow> s = p"
  by (induction p arbitrary: s) (auto simp: literal_def split: list.split)

lemma glob_star [simp]: "glob ''*'' s"
  by (induction s) simp_all

lemma glob_literal_append:
  "literal p \<Longrightarrow> glob (p @ q) s \<longleftrightarrow> (\<exists>t. s = p @ t \<and> glob q t)"
  by (induction p arbitrary: s) (auto simp: literal_def split: list.split)

lemma glob_prefix: "literal p \<Longrightarrow> glob (p @ ''*'') s \<longleftrightarrow> prefix p s"
  by (simp only: glob_literal_append glob_star prefix_def) auto

lemma glob_suffix:
  assumes "literal p"
  shows "glob (CHR ''*'' # p) s \<longleftrightarrow> suffix p s"
proof (induction s)
  case Nil
  show ?case using assms by (auto simp: eq_commute)
next
  case (Cons c cs)
  have "glob (CHR ''*'' # p) (c # cs) \<longleftrightarrow> c # cs = p \<or> suffix p cs"
    using assms Cons by simp
  then show ?case by (simp add: suffix_Cons eq_commute)
qed

lemma fnmatch_star [simp]: "fnmatch os s ''*''"
proof -
  have "lower_char CHR ''*'' = CHR ''*''" by (simp add: lower_char_def)
  then have "normcase os ''*'' = ''*''" by (simp add: normcase_def split: platform.split)
  then show ?thesis unfolding fnmatch_def by (simp only: glob_star)
qed

declare glob.simps(2) [simp del]


section \<open>Host names\<close>

definition url_scheme_char :: "char \<Rightarrow> bool" where
  "url_scheme_char c \<longleftrightarrow>
     c \<in> set ''abcdefghijklmnopqrstuvwxyzABCDEFGHIJKLMNOPQRSTUVWXYZ0123456789+-.''"

definition url_strip :: "string \<Rightarrow> string" where
  \<comment> \<open>leading control characters and spaces, and embedded tabs and line ends, are dropped\<close>
  "url_strip u =
     filter (\<lambda>c. c \<notin> {CHR 0x09, CHR 0x0A, CHR 0x0D})
       (dropWhile (\<lambda>c. (of_char c :: nat) \<le> 32) u)"

definition url_after_scheme :: "string \<Rightarrow> string" where
  "url_after_scheme u =
     (let i = takeWhile (\<lambda>c. c \<noteq> CHR '':'') u; rest = dropWhile (\<lambda>c. c \<noteq> CHR '':'') u
      in if rest \<noteq> [] \<and> i \<noteq> []
            \<and> hd i \<in> set ''abcdefghijklmnopqrstuvwxyzABCDEFGHIJKLMNOPQRSTUVWXYZ''
            \<and> list_all url_scheme_char i
         then tl rest else u)"

definition url_netloc :: "string \<Rightarrow> string" where
  "url_netloc u =
     (let r = url_after_scheme (url_strip u)
      in if prefix ''//'' r
         then takeWhile (\<lambda>c. c \<noteq> CHR ''/'' \<and> c \<noteq> CHR ''?'' \<and> c \<noteq> CHR ''#'') (drop 2 r) else [])"

definition url_hostname :: "string \<Rightarrow> string option result" where
  \<comment> \<open>\<open>urlparse(u).hostname\<close>; unbalanced brackets raise (the address inside brackets
    is not checked)\<close>
  "url_hostname u =
     (let netloc = url_netloc u in
      if (CHR ''['' \<in> set netloc) \<noteq> (CHR '']'' \<in> set netloc)
      then Inl (ValueError ''Invalid IPv6 URL'')
      else
        (let hostinfo = last_part (CHR ''@'') netloc;
             host = (if CHR ''['' \<in> set hostinfo
                     then takeWhile (\<lambda>c. c \<noteq> CHR '']'') (tl (dropWhile (\<lambda>c. c \<noteq> CHR ''['') hostinfo))
                     else takeWhile (\<lambda>c. c \<noteq> CHR '':'') hostinfo);
             addr = takeWhile (\<lambda>c. c \<noteq> CHR ''%'') host
         in Inr (if host = [] then None else Some (lower addr @ drop (length addr) host))))"

end
