(* ===== verification/Policy_Engine.thy ===== *)
theory Policy_Engine
  imports Py_Text
begin

text \<open>
  \<open>sentinel/core/policy.py\<close> and \<open>sentinel/core/policy_engine.py\<close>. A policy is an identifier
  with its \<open>evaluate\<close>; an evaluation may raise, and the engine lets the exception through. The
  engine is its registry of policies, the map from permissions to policy identifiers and the
  default effect; the events it schedules on the bus are returned as a list. The three effects
  are made a linear order by restrictiveness, so that the combination of several policies is a
  maximum.
\<close>

section \<open>Policies\<close>

datatype policy_effect = ALLOW | REQUIRE_CONFIRM | DENY

fun effect_value :: "policy_effect \<Rightarrow> string" where
  "effect_value ALLOW = ''allow''"
| "effect_value DENY = ''deny''"
| "effect_value REQUIRE_CONFIRM = ''require_confirm''"

record policy_result =
  pr_effect :: policy_effect
  pr_policy_id :: string
  pr_reason :: string
  pr_context :: params

abbreviation mk_result :: "policy_effect \<Rightarrow> string \<Rightarrow> string \<Rightarrow> params \<Rightarrow> policy_result" where
  "mk_result e i r c \<equiv> \<lparr>pr_effect = e, pr_policy_id = i, pr_reason = r, pr_context = c\<rparr>"

record policy =
  pol_id :: string
  pol_eval :: "string \<Rightarrow> params \<Rightarrow> params \<Rightarrow> policy_result result"

fun restrictiveness :: "policy_effect \<Rightarrow> nat" where
  "restrictiveness ALLOW = 0"
| "restrictiveness REQUIRE_CONFIRM = 1"
| "restrictiveness DENY = 2"

instantiation policy_effect :: linorder
begin

definition less_eq_policy_effect :: "policy_effect \<Rightarrow> policy_effect \<Rightarrow> bool" where
  "less_eq_policy_effect a b \<longleftrightarrow> restrictiveness a \<le> restrictiveness b"

definition less_policy_effect :: "policy_effect \<Rightarrow> policy_effect \<Rightarrow> bool" where
  "less_policy_effect a b \<longleftrightarrow> restrictiveness a < restrictiveness b"

lemma restrictiveness_inj: "restrictiveness a = restrictiveness b \<Longrightarrow> a = b"
  by (cases a; cases b) simp_all

instance
  by standard (auto simp: less_eq_policy_effect_def less_policy_effect_def intro: restrictiveness_inj)

end

lemma effect_bounds [simp]: "ALLOW \<le> e" "e \<le> DENY"
  by (cases e; simp add: less_eq_policy_effect_def)+

lemma effect_top [simp]: "DENY \<le> e \<longleftrightarrow> e = DENY"
  by (cases e) (simp_all add: less_eq_policy_effect_def)

lemma effect_bot [simp]: "e \<le> ALLOW \<longleftrightarrow> e = ALLOW"
  by (cases e) (simp_all add: less_eq_policy_effect_def)

lemma confirm_le [simp]: "REQUIRE_CONFIRM \<le> e \<longleftrightarrow> e \<noteq> ALLOW"
  by (cases e) (simp_all add: less_eq_policy_effect_def)

lemma le_confirm [simp]: "e \<le> REQUIRE_CONFIRM \<longleftrightarrow> e \<noteq> DENY"
  by (cases e) (simp_all add: less_eq_policy_effect_def)


section \<open>The engine\<close>

record policy_engine =
  pe_policies :: "(string \<times> policy) list"
  pe_permission_map :: "(string \<times> string list) list"
  pe_default :: policy_effect
  pe_has_bus :: bool

record policy_event =
  ev_type :: string
  ev_tool :: string
  ev_session :: pyval
  ev_request :: pyval
  ev_status :: string
  ev_details :: params

definition engine_new :: "policy_effect \<Rightarrow> bool \<Rightarrow> policy_engine" where
  "engine_new default_effect bus =
     \<lparr>pe_policies = [], pe_permission_map = [], pe_default = default_effect, pe_has_bus = bus\<rparr>"

definition set_event_bus :: "policy_engine \<Rightarrow> policy_engine" where
  "set_event_bus e = e\<lparr>pe_has_bus := True\<rparr>"

definition emit :: "policy_engine \<Rightarrow> string \<Rightarrow> string \<Rightarrow> pyval \<Rightarrow> pyval \<Rightarrow> string \<Rightarrow> params
    \<Rightarrow> policy_event list" where
  "emit e typ tool sid rid status details =
     (if \<not> pe_has_bus e then []
      else [\<lparr>ev_type = typ, ev_tool = tool, ev_session = py_or sid (PStr []),
             ev_request = py_or rid (PStr []),
             ev_status = status, ev_details = details\<rparr>])"

definition add_permission :: "string \<Rightarrow> string \<Rightarrow> (string \<times> string list) list
    \<Rightarrow> (string \<times> string list) list" where
  \<comment> \<open>\<open>setdefault(perm, []).append(pid)\<close>\<close>
  "add_permission pid perm m = AList.update perm (dict_get m perm [] @ [pid]) m"

definition register :: "policy_engine \<Rightarrow> policy \<Rightarrow> string list \<Rightarrow> policy_engine result" where
  "register e p permissions =
     (if pol_id p \<in> set (keys (pe_policies e))
      then Inl (ValueError (''Policy '' @ quoted (pol_id p) @ '' already registered''))
      else Inr (e\<lparr>pe_policies := AList.update (pol_id p) p (pe_policies e),
                  pe_permission_map := fold (add_permission (pol_id p)) permissions (pe_permission_map e)\<rparr>))"

definition drop_policy :: "string \<Rightarrow> (string \<times> string list) list \<Rightarrow> (string \<times> string list) list" where
  "drop_policy pid m =
     filter (\<lambda>(perm, pids). pids \<noteq> [])
       (map (\<lambda>(perm, pids). (perm, filter (\<lambda>p. p \<noteq> pid) pids)) m)"

definition unregister :: "policy_engine \<Rightarrow> string \<Rightarrow> policy_engine result" where
  "unregister e pid =
     (if pid \<notin> set (keys (pe_policies e))
      then Inl (KeyError (''Policy '' @ quoted pid @ '' not found''))
      else Inr (e\<lparr>pe_policies := AList.delete pid (pe_policies e),
                  pe_permission_map := drop_policy pid (pe_permission_map e)\<rparr>))"

fun lookup_all :: "(string \<times> policy) list \<Rightarrow> string list \<Rightarrow> policy list result" where
  \<comment> \<open>\<open>self._policies[pid]\<close> for each identifier\<close>
  "lookup_all ps [] = Inr []"
| "lookup_all ps (pid # pids) =
     (case map_of ps pid of
        None \<Rightarrow> Inl (KeyError pid)
      | Some p \<Rightarrow>
          (case lookup_all ps pids of Inl x \<Rightarrow> Inl x | Inr qs \<Rightarrow> Inr (p # qs)))"

fun dedup :: "string list \<Rightarrow> string list \<Rightarrow> string list" where
  \<comment> \<open>the identifiers in order of first occurrence\<close>
  "dedup seen [] = []"
| "dedup seen (x # xs) = (if x \<in> set seen then dedup seen xs else x # dedup (x # seen) xs)"

definition covering :: "policy_engine \<Rightarrow> string list \<Rightarrow> string list" where
  "covering e permissions =
     dedup [] (concat (map (\<lambda>perm. dict_get (pe_permission_map e) perm []) permissions))"

definition policies_for_permissions :: "policy_engine \<Rightarrow> string list \<Rightarrow> policy list result" where
  "policies_for_permissions e permissions = lookup_all (pe_policies e) (covering e permissions)"

fun evaluate_each :: "policy list \<Rightarrow> string \<Rightarrow> params \<Rightarrow> params \<Rightarrow> policy_result list result" where
  "evaluate_each [] tool ps ctx = Inr []"
| "evaluate_each (p # ps') tool ps ctx =
     (case pol_eval p tool ps ctx of
        Inl x \<Rightarrow> Inl x
      | Inr r \<Rightarrow>
          (case evaluate_each ps' tool ps ctx of Inl x \<Rightarrow> Inl x | Inr rs \<Rightarrow> Inr (r # rs)))"

definition combine :: "policy_result list \<Rightarrow> policy_result" where
  "combine evaluated =
     (case find (\<lambda>r. pr_effect r = DENY) evaluated of
        Some r \<Rightarrow> r
      | None \<Rightarrow>
          (let confirms = filter (\<lambda>r. pr_effect r = REQUIRE_CONFIRM) evaluated in
           if confirms \<noteq> [] then
             mk_result REQUIRE_CONFIRM (join '','' (map pr_policy_id confirms))
               (join ''; '' (map pr_reason confirms))
               [(''confirmations'', PList (map (\<lambda>r. PDict (pr_context r)) confirms))]
           else mk_result ALLOW ''_all'' ''All policies allowed'' []))"

definition default_result :: "policy_engine \<Rightarrow> string \<Rightarrow> string list \<Rightarrow> policy_result" where
  "default_result e tool permissions =
     mk_result (pe_default e) ''_default''
       (''No policy covers permissions '' @ str_list_repr permissions)
       [(''tool_id'', PStr tool), (''permissions'', PList (map PStr permissions))]"

definition decision_events :: "policy_engine \<Rightarrow> string \<Rightarrow> pyval \<Rightarrow> pyval \<Rightarrow> policy_result
    \<Rightarrow> string list \<Rightarrow> policy_event list" where
  "decision_events e tool sid rid r permissions =
     emit e ''policy.audit.decision'' tool sid rid (effect_value (pr_effect r))
       [(''policy_id'', PStr (pr_policy_id r)), (''effect'', PStr (effect_value (pr_effect r))),
        (''reason'', PStr (pr_reason r)), (''permissions'', PList (map PStr permissions)),
        (''context'', PDict (pr_context r))]
     @ (if pr_effect r = DENY then
          emit e ''policy.denied'' tool sid rid ''denied''
            [(''policy_id'', PStr (pr_policy_id r)), (''reason'', PStr (pr_reason r))]
        else
          emit e ''policy.validated'' tool sid rid ''completed''
            [(''effect'', PStr (effect_value (pr_effect r)))])"

definition evaluation_context :: "params \<Rightarrow> string list \<Rightarrow> params" where
  "evaluation_context ctx permissions =
     AList.update ''required_permissions'' (PList (map PStr permissions)) ctx"

definition evaluate :: "policy_engine \<Rightarrow> string \<Rightarrow> params \<Rightarrow> params \<Rightarrow> string list
    \<Rightarrow> policy_result result \<times> policy_event list" where
  "evaluate e tool ps ctx permissions =
     (let sid = dict_get ctx ''session_id'' (PStr []); rid = dict_get ctx ''execution_id'' (PStr []);
          started = emit e ''policy.validating'' tool sid rid [] []
      in case policies_for_permissions e permissions of
           Inl x \<Rightarrow> (Inl x, started)
         | Inr [] \<Rightarrow>
             (let r = default_result e tool permissions
              in (Inr r, started @ decision_events e tool sid rid r permissions))
         | Inr (p # pols) \<Rightarrow>
             (case evaluate_each (p # pols) tool ps (evaluation_context ctx permissions) of
                Inl x \<Rightarrow> (Inl x, started)
              | Inr evaluated \<Rightarrow>
                  (let r = combine evaluated
                   in (Inr r, started @ decision_events e tool sid rid r permissions))))"

record audit_summary =
  as_total_policies :: nat
  as_policy_ids :: "string list"
  as_default_effect :: string
  as_permission_map :: "(string \<times> nat) list"

definition engine_summary :: "policy_engine \<Rightarrow> audit_summary" where
  "engine_summary e =
     \<lparr>as_total_policies = length (pe_policies e), as_policy_ids = keys (pe_policies e),
      as_default_effect = effect_value (pe_default e),
      as_permission_map = map (\<lambda>(k, v). (k, length v)) (pe_permission_map e)\<rparr>"


section \<open>The registry\<close>

definition engine_ok :: "policy_engine \<Rightarrow> bool" where
  "engine_ok e \<longleftrightarrow>
     dict_ok (pe_policies e) \<and> dict_ok (pe_permission_map e)
     \<and> list_all (\<lambda>(pid, p). pol_id p = pid) (pe_policies e)
     \<and> list_all (\<lambda>(perm, pids). pids \<noteq> [] \<and> set pids \<subseteq> set (keys (pe_policies e)))
         (pe_permission_map e)"

lemma engine_new_ok: "engine_ok (engine_new d b)"
  by (simp add: engine_ok_def engine_new_def)

lemma in_update: "(k', v') \<in> set (AList.update k v d) \<Longrightarrow> (k', v') = (k, v) \<or> (k', v') \<in> set d"
  by (induction d) (auto split: if_splits)

lemma dict_get_entry: "dict_get d k [] \<noteq> [] \<Longrightarrow> (k, dict_get d k []) \<in> set d"
  unfolding dict_get_def by (cases "map_of d k") (auto dest: map_of_SomeD)

lemma fold_add_ok: "dict_ok m \<Longrightarrow> dict_ok (fold (add_permission pid) perms m)"
  by (induction perms arbitrary: m) (auto simp: add_permission_def)

lemma fold_add_get:
  "set (dict_get (fold (add_permission pid) perms m) perm []) =
     set (dict_get m perm []) \<union> (if perm \<in> set perms then {pid} else {})"
  by (induction perms arbitrary: m) (auto simp: add_permission_def)

lemma fold_add_entry:
  assumes "(perm, pids) \<in> set (fold (add_permission pid) perms m)"
    and "\<forall>(perm, pids) \<in> set m. pids \<noteq> [] \<and> set pids \<subseteq> A"
  shows "pids \<noteq> [] \<and> set pids \<subseteq> insert pid A"
  using assms
proof (induction perms arbitrary: m A)
  case Nil
  then show ?case by auto
next
  case (Cons q perms)
  have "\<forall>(perm, pids) \<in> set (add_permission pid q m). pids \<noteq> [] \<and> set pids \<subseteq> insert pid A"
    using Cons.prems(2) dict_get_entry [of m q]
    by (fastforce simp: add_permission_def dest: in_update)
  from Cons.IH [OF _ this] Cons.prems(1) show ?case by simp
qed

lemma register_view:
  assumes "register e p permissions = Inr e'"
  shows "pol_id p \<notin> set (keys (pe_policies e))"
    "pe_policies e' = AList.update (pol_id p) p (pe_policies e)"
    "pe_permission_map e' = fold (add_permission (pol_id p)) permissions (pe_permission_map e)"
    "pe_default e' = pe_default e" "pe_has_bus e' = pe_has_bus e"
  using assms by (auto simp: register_def split: if_splits)

lemma register_ok:
  assumes "engine_ok e" and "register e p permissions = Inr e'"
  shows "engine_ok e'"
proof -
  note v = register_view [OF assms(2)]
  have "list_all (\<lambda>(pid, p). pol_id p = pid) (pe_policies e')"
    using assms(1) by (fastforce simp: engine_ok_def list_all_iff v dest: in_update)
  moreover have "list_all (\<lambda>(perm, pids). pids \<noteq> [] \<and> set pids \<subseteq> set (keys (pe_policies e')))
         (pe_permission_map e')"
  proof -
    have keys: "set (keys (pe_policies e')) = insert (pol_id p) (set (keys (pe_policies e)))"
      unfolding v(2) by (rule set_keys_update)
    have old: "\<forall>(perm, pids) \<in> set (pe_permission_map e).
        pids \<noteq> [] \<and> set pids \<subseteq> set (keys (pe_policies e))"
      using assms(1) unfolding engine_ok_def list_all_iff by blast
    have "pids \<noteq> [] \<and> set pids \<subseteq> insert (pol_id p) (set (keys (pe_policies e)))"
      if "(perm, pids) \<in> set (pe_permission_map e')" for perm pids
      using fold_add_entry [OF that [unfolded v(3)] old] .
    then show ?thesis unfolding list_all_iff keys by blast
  qed
  ultimately show ?thesis
    using assms(1) by (simp add: engine_ok_def v fold_add_ok)
qed

lemma in_drop_policy:
  "(perm, pids) \<in> set (drop_policy pid m) \<longleftrightarrow>
     pids \<noteq> [] \<and> (\<exists>ps. (perm, ps) \<in> set m \<and> pids = filter (\<lambda>p. p \<noteq> pid) ps)"
  by (auto simp: drop_policy_def)

lemma unregister_ok:
  assumes "engine_ok e" and "unregister e pid = Inr e'"
  shows "engine_ok e'"
proof -
  have e': "pe_policies e' = AList.delete pid (pe_policies e)"
    "pe_permission_map e' = drop_policy pid (pe_permission_map e)"
    using assms(2) by (auto simp: unregister_def split: if_splits)
  have "dict_ok (drop_policy pid (pe_permission_map e))"
    using assms(1) unfolding drop_policy_def engine_ok_def by (intro dict_ok_filter) simp
  moreover have "list_all (\<lambda>(perm, pids). pids \<noteq> []
      \<and> set pids \<subseteq> set (keys (AList.delete pid (pe_policies e)))) (drop_policy pid (pe_permission_map e))"
    using assms(1) by (fastforce simp: list_all_iff engine_ok_def in_drop_policy delete_keys)
  moreover have "list_all (\<lambda>(pid, p). pol_id p = pid) (AList.delete pid (pe_policies e))"
    using assms(1) by (auto simp: list_all_iff engine_ok_def AList.delete_eq)
  ultimately show ?thesis using assms(1) by (simp add: engine_ok_def e')
qed

lemma drop_policy_add:
  "drop_policy pid (add_permission pid perm m) = drop_policy pid m"
  by (induction m) (auto simp: add_permission_def drop_policy_def dict_get_def)

lemma drop_policy_fold: "drop_policy pid (fold (add_permission pid) perms m) = drop_policy pid m"
  by (induction perms arbitrary: m) (simp_all add: drop_policy_add)

lemma drop_policy_absent:
  "list_all (\<lambda>(perm, pids). pids \<noteq> [] \<and> pid \<notin> set pids) m \<Longrightarrow> drop_policy pid m = m"
proof (induction m)
  case (Cons e m)
  obtain perm pids where e: "e = (perm, pids)" by (cases e)
  with Cons.prems have "filter (\<lambda>p. p \<noteq> pid) pids = pids" by (intro filter_True) auto
  with Cons e show ?case by (simp add: drop_policy_def)
qed (simp add: drop_policy_def)

lemma delete_update_new: "k \<notin> set (keys d) \<Longrightarrow> AList.delete k (AList.update k v d) = d"
  by (induction d) (auto simp: AList.delete_eq filter_id_conv)

text \<open>Sample engines, on which the properties are instantiated.\<close>

definition fixed_policy :: "string \<Rightarrow> policy_effect \<Rightarrow> policy" where
  "fixed_policy i eff = \<lparr>pol_id = i, pol_eval = (\<lambda>tool ps ctx. Inr (mk_result eff i [] []))\<rparr>"

definition sample_engine :: policy_engine where
  "sample_engine =
     \<lparr>pe_policies = [(''a'', fixed_policy ''a'' ALLOW), (''b'', fixed_policy ''b'' REQUIRE_CONFIRM)],
      pe_permission_map = [(''x'', [''a'']), (''y'', [''a'', ''b''])], pe_default = DENY, pe_has_bus = True\<rparr>"

definition sample_engine' :: policy_engine where
  "sample_engine' =
     \<lparr>pe_policies = [(''a'', fixed_policy ''a'' ALLOW), (''b'', fixed_policy ''b'' REQUIRE_CONFIRM),
        (''d'', fixed_policy ''d'' DENY)],
      pe_permission_map = [(''x'', [''a'', ''d'']), (''y'', [''a'', ''b'']), (''z'', [''d''])],
      pe_default = DENY, pe_has_bus = True\<rparr>"

lemma sample_engine_ok: "engine_ok sample_engine"
  by (simp add: engine_ok_def sample_engine_def dict_ok_def fixed_policy_def)

lemma sample_register:
  "register sample_engine (fixed_policy ''d'' DENY) [''x'', ''z''] = Inr sample_engine'"
  by (simp add: register_def sample_engine_def sample_engine'_def fixed_policy_def
      add_permission_def dict_get_def)

lemma sample_decision:
  "fst (evaluate sample_engine ''t'' [] [] [''x'', ''y'']) =
     Inr (mk_result REQUIRE_CONFIRM ''b'' [] [(''confirmations'', PList [PDict []])])"
  by (simp add: evaluate_def Let_def policies_for_permissions_def covering_def dict_get_def
      sample_engine_def fixed_policy_def combine_def)

lemma sample_decision':
  "fst (evaluate sample_engine' ''t'' [] [] [''x'', ''y'']) = Inr (mk_result DENY ''d'' [] [])"
  by (simp add: evaluate_def Let_def policies_for_permissions_def covering_def dict_get_def
      sample_engine'_def fixed_policy_def combine_def)

lemma sample_covering: "covering sample_engine [''x'', ''y''] = [''a'', ''b'']"
  by (simp add: covering_def dict_get_def sample_engine_def)

text \<open>Registering a policy and unregistering it again gives back the very same engine, with the
  permission map in its original order and no entry left over.\<close>

theorem register_unregister:
  assumes "engine_ok e" and "register e p permissions = Inr e'"
  shows "unregister e' (pol_id p) = Inr e"
proof -
  note v = register_view [OF assms(2)]
  have "list_all (\<lambda>(perm, pids). pids \<noteq> [] \<and> pol_id p \<notin> set pids) (pe_permission_map e)"
    using assms(1) v(1) by (auto simp: engine_ok_def list_all_iff)
  then have "drop_policy (pol_id p) (pe_permission_map e') = pe_permission_map e"
    by (simp add: v drop_policy_fold drop_policy_absent)
  moreover have "AList.delete (pol_id p) (pe_policies e') = pe_policies e"
    using v(1) by (simp add: v(2) delete_update_new)
  moreover have "pol_id p \<in> set (keys (pe_policies e'))"
    unfolding v(2) set_keys_update by simp
  ultimately show ?thesis
    using v(4,5) by (simp add: unregister_def)
qed

theorem register_unregister_witness:
  "unregister sample_engine' (pol_id (fixed_policy ''d'' DENY)) = Inr sample_engine"
  by (rule register_unregister [OF sample_engine_ok sample_register])


section \<open>Lookup\<close>

lemma set_dedup: "set (dedup seen xs) = set xs - set seen"
  by (induction seen xs rule: dedup.induct) auto

lemma set_covering:
  "set (covering e permissions) = (\<Union>perm \<in> set permissions. set (dict_get (pe_permission_map e) perm []))"
  by (simp add: covering_def set_dedup)

lemma covering_known:
  assumes "engine_ok e"
  shows "set (covering e permissions) \<subseteq> set (keys (pe_policies e))"
proof
  fix pid
  assume "pid \<in> set (covering e permissions)"
  then obtain perm where "pid \<in> set (dict_get (pe_permission_map e) perm [])"
    by (auto simp: set_covering)
  moreover from this have "(perm, dict_get (pe_permission_map e) perm []) \<in> set (pe_permission_map e)"
    by (intro dict_get_entry) auto
  ultimately show "pid \<in> set (keys (pe_policies e))"
    using assms by (fastforce simp: engine_ok_def list_all_iff)
qed

lemma lookup_all_known:
  "set pids \<subseteq> set (keys ps) \<Longrightarrow> lookup_all ps pids = Inr (map (\<lambda>i. the (map_of ps i)) pids)"
proof (induction pids)
  case Nil
  then show ?case by simp
next
  case (Cons i pids)
  then have "\<exists>p. map_of ps i = Some p" by (auto simp: map_of_eq_None_iff simp flip: not_None_eq)
  with Cons show ?case by auto
qed

lemma policies_for_permissions_ok:
  "engine_ok e \<Longrightarrow> policies_for_permissions e permissions =
     Inr (map (\<lambda>i. the (map_of (pe_policies e) i)) (covering e permissions))"
  unfolding policies_for_permissions_def by (intro lookup_all_known covering_known)

lemma evaluate_each_all2:
  "evaluate_each pols tool ps ctx = Inr rs \<Longrightarrow>
     list_all2 (\<lambda>p r. pol_eval p tool ps ctx = Inr r) pols rs"
  by (induction pols arbitrary: rs) (auto split: sum.splits)

lemma evaluate_each_set:
  assumes "evaluate_each pols tool ps ctx = Inr rs"
  shows "r \<in> set rs \<longleftrightarrow> (\<exists>p \<in> set pols. pol_eval p tool ps ctx = Inr r)"
  using evaluate_each_all2 [OF assms]
proof (induction pols rs rule: list_all2_induct)
  case Nil
  then show ?case by simp
next
  case (Cons p pols q rs)
  then show ?case by auto
qed


section \<open>Decisions\<close>

lemma combine_effect:
  "pr_effect (combine rs) =
     (if \<exists>r \<in> set rs. pr_effect r = DENY then DENY
      else if \<exists>r \<in> set rs. pr_effect r = REQUIRE_CONFIRM then REQUIRE_CONFIRM else ALLOW)"
proof (cases "find (\<lambda>r. pr_effect r = DENY) rs")
  case None
  then have no: "\<not> (\<exists>r \<in> set rs. pr_effect r = DENY)" by (simp add: find_None_iff)
  have "filter (\<lambda>r. pr_effect r = REQUIRE_CONFIRM) rs = []
      \<longleftrightarrow> \<not> (\<exists>r \<in> set rs. pr_effect r = REQUIRE_CONFIRM)"
    by (simp add: filter_empty_conv)
  then have "pr_effect (combine rs)
      = (if \<exists>r \<in> set rs. pr_effect r = REQUIRE_CONFIRM then REQUIRE_CONFIRM else ALLOW)"
    unfolding combine_def None Let_def by (simp split: if_split)
  with no show ?thesis by simp
next
  case (Some r)
  then have "\<exists>x \<in> set rs. pr_effect x = DENY" "pr_effect r = DENY"
    by (auto simp: find_Some_iff)
  then show ?thesis using Some by (simp add: combine_def)
qed

lemma combine_is_Max:
  assumes "rs \<noteq> []"
  shows "pr_effect (combine rs) = Max (pr_effect ` set rs)"
proof (rule Max_eqI [symmetric])
  show "finite (pr_effect ` set rs)" by simp
  show "y \<le> pr_effect (combine rs)" if "y \<in> pr_effect ` set rs" for y
  proof -
    from that obtain x where x: "x \<in> set rs" "pr_effect x = y" by auto
    then have "\<exists>r \<in> set rs. pr_effect r = y" by blast
    then show ?thesis by (cases y) (simp_all add: combine_effect)
  qed
  obtain r where r: "r \<in> set rs" using assms by (cases rs) auto
  show "pr_effect (combine rs) \<in> pr_effect ` set rs"
  proof (cases "\<exists>x \<in> set rs. pr_effect x \<noteq> ALLOW")
    case True
    then obtain x where "x \<in> set rs" "pr_effect x \<noteq> ALLOW" by blast
    then show ?thesis unfolding combine_effect by (cases "pr_effect x") (auto intro: rev_image_eqI)
  next
    case False
    with r show ?thesis unfolding combine_effect by (auto intro: rev_image_eqI)
  qed
qed

lemma evaluate_cases:
  assumes "engine_ok e" and "fst (evaluate e tool ps ctx permissions) = Inr r"
  obtains (default) "covering e permissions = []" and "r = default_result e tool permissions"
  | (policies) rs where "covering e permissions \<noteq> []" and "rs \<noteq> []" and "r = combine rs"
      and "\<And>x. x \<in> set rs \<longleftrightarrow> (\<exists>i \<in> set (covering e permissions).
        pol_eval (the (map_of (pe_policies e) i)) tool ps (evaluation_context ctx permissions) = Inr x)"
proof (cases "covering e permissions")
  case Nil
  with assms that(1) show thesis
    by (simp add: evaluate_def policies_for_permissions_ok Let_def)
next
  case (Cons i js)
  let ?f = "\<lambda>i. the (map_of (pe_policies e) i)"
  from assms Cons obtain rs where
    rs: "evaluate_each (map ?f (i # js)) tool ps (evaluation_context ctx permissions) = Inr rs"
    and r: "r = combine rs"
    by (auto simp: evaluate_def policies_for_permissions_ok Let_def split: sum.splits)
  have "rs \<noteq> []" using evaluate_each_all2 [OF rs] by auto
  with that(2) r Cons evaluate_each_set [OF rs] show thesis by auto
qed

text \<open>C16: the engine's decision is the most restrictive of its policies' decisions: it allows only if
  every policy that covers a required permission allows, and one denial denies.\<close>

theorem most_restrictive_wins:
  assumes "engine_ok e" and "fst (evaluate e tool ps ctx permissions) = Inr r"
    and "covering e permissions \<noteq> []"
  shows "pr_effect r =
    Max {pr_effect x | x i. i \<in> set (covering e permissions)
      \<and> pol_eval (the (map_of (pe_policies e) i)) tool ps (evaluation_context ctx permissions) = Inr x}"
  using assms(1,2)
proof (cases rule: evaluate_cases)
  case default
  with assms(3) show ?thesis by simp
next
  case (policies rs)
  have "{pr_effect x | x i. i \<in> set (covering e permissions)
      \<and> pol_eval (the (map_of (pe_policies e) i)) tool ps (evaluation_context ctx permissions) = Inr x}
    = pr_effect ` set rs"
    by (rule set_eqI) (unfold mem_Collect_eq image_iff Bex_def policies(4), blast)
  with policies(2,3) show ?thesis by (simp add: combine_is_Max)
qed

theorem most_restrictive_wins_witness:
  "pr_effect (mk_result REQUIRE_CONFIRM ''b'' [] [(''confirmations'', PList [PDict []])]) =
    Max {pr_effect x | x i. i \<in> set (covering sample_engine [''x'', ''y''])
      \<and> pol_eval (the (map_of (pe_policies sample_engine) i)) ''t'' []
          (evaluation_context [] [''x'', ''y'']) = Inr x}"
  by (rule most_restrictive_wins [OF sample_engine_ok sample_decision]) (simp add: sample_covering)

text \<open>Registering one more policy never makes a decision more permissive, as long as some policy
  already covered the request.\<close>

theorem register_only_restricts:
  assumes "engine_ok e" and "register e p perms = Inr e'" and "covering e permissions \<noteq> []"
    and "fst (evaluate e tool ps ctx permissions) = Inr r"
    and "fst (evaluate e' tool ps ctx permissions) = Inr r'"
  shows "pr_effect r \<le> pr_effect r'"
proof -
  note v = register_view [OF assms(2)]
  have sub: "set (covering e permissions) \<subseteq> set (covering e' permissions)"
    by (auto simp: set_covering v(3) fold_add_get)
  from assms(1,4) obtain rs where rs: "r = combine rs"
    and in_rs: "\<And>x. x \<in> set rs \<longleftrightarrow> (\<exists>i \<in> set (covering e permissions).
        pol_eval (the (map_of (pe_policies e) i)) tool ps (evaluation_context ctx permissions) = Inr x)"
    using assms(3) by (cases rule: evaluate_cases) auto
  from register_ok [OF assms(1,2)] assms(5) obtain rs' where rs': "r' = combine rs'"
    and in_rs': "\<And>x. x \<in> set rs' \<longleftrightarrow> (\<exists>i \<in> set (covering e' permissions).
        pol_eval (the (map_of (pe_policies e') i)) tool ps (evaluation_context ctx permissions) = Inr x)"
    using assms(3) sub by (cases rule: evaluate_cases) auto
  have "map_of (pe_policies e') i = map_of (pe_policies e) i" if "i \<in> set (covering e permissions)" for i
    using that covering_known [OF assms(1), of permissions] v(1) by (auto simp: v(2))
  then have "set rs \<subseteq> set rs'"
    unfolding subset_iff in_rs in_rs' using sub by (metis subset_iff)
  then show ?thesis unfolding rs rs' combine_effect by auto
qed

theorem register_only_restricts_witness:
  "pr_effect (mk_result REQUIRE_CONFIRM ''b'' [] [(''confirmations'', PList [PDict []])])
     \<le> pr_effect (mk_result DENY ''d'' [] [])"
  by (rule register_only_restricts
      [OF sample_engine_ok sample_register _ sample_decision sample_decision'])
    (simp add: sample_covering)

text \<open>Every decision is audited: with a bus, an evaluation that returns emits exactly the start
  event, one audit record that carries the effect and the policy of the returned result, and
  one outcome event, which is a denial exactly when the result is one.\<close>

theorem decision_audited:
  assumes "fst (evaluate e tool ps ctx permissions) = Inr r" and "pe_has_bus e"
  shows "\<exists>started audit outcome. snd (evaluate e tool ps ctx permissions) = [started, audit, outcome]
    \<and> ev_type started = ''policy.validating'' \<and> ev_type audit = ''policy.audit.decision''
    \<and> ev_status audit = effect_value (pr_effect r)
    \<and> pget (ev_details audit) ''policy_id'' = PStr (pr_policy_id r)
    \<and> (ev_type outcome = ''policy.denied'' \<longleftrightarrow> pr_effect r = DENY)"
proof -
  have d: "snd (evaluate e tool ps ctx permissions) =
      emit e ''policy.validating'' tool (dict_get ctx ''session_id'' (PStr []))
        (dict_get ctx ''execution_id'' (PStr [])) [] []
      @ decision_events e tool (dict_get ctx ''session_id'' (PStr []))
          (dict_get ctx ''execution_id'' (PStr [])) r permissions"
    using assms(1) by (auto simp: evaluate_def Let_def split: sum.splits list.splits)
  show ?thesis
    using assms(2) unfolding d emit_def decision_events_def by simp
qed

theorem decision_audited_witness:
  "\<exists>started audit outcome. snd (evaluate sample_engine ''t'' [] [] [''x'', ''y'']) = [started, audit, outcome]
    \<and> ev_type started = ''policy.validating'' \<and> ev_type audit = ''policy.audit.decision''
    \<and> ev_status audit = effect_value REQUIRE_CONFIRM
    \<and> pget (ev_details audit) ''policy_id'' = PStr ''b''
    \<and> (ev_type outcome = ''policy.denied'' \<longleftrightarrow> REQUIRE_CONFIRM = DENY)"
  using decision_audited [OF sample_decision] by (simp add: sample_engine_def)

end
