(* ===== verification/Security_Policies.thy ===== *)
theory Security_Policies
  imports Policy_Engine
begin

text \<open>
  \<open>sentinel/policies/security_policies.py\<close>: the policies on permission levels, identities,
  granular rules and the emergency stop. The callbacks the policies are built with
  (\<open>get_level\<close>, \<open>is_confirmed\<close>, \<open>get_rules\<close>, \<open>is_emergency_stop\<close>) enter by the values they
  return; the loaded \<open>security.yaml\<close> enters as a dictionary.
\<close>

section \<open>Configuration\<close>

type_synonym levels = "(string \<times> (string \<times> policy_effect) list) list"

definition effect_map :: "(string \<times> policy_effect) list" where
  "effect_map = [(''allow'', ALLOW), (''deny'', DENY), (''require_confirm'', REQUIRE_CONFIRM)]"

definition default_security_config :: params where
  "default_security_config =
     (let rules = (\<lambda>w r d. PDict [(''write'', PStr w), (''read'', PStr r), (''dangerous'', PStr d)]) in
      [(''permission_levels'', PDict
         [(''view'', rules ''deny'' ''allow'' ''deny''),
          (''confirm'', rules ''allow'' ''allow'' ''require_confirm''),
          (''auto'', rules ''allow'' ''allow'' ''require_confirm''),
          (''admin'', rules ''allow'' ''allow'' ''allow'')]),
       (''dangerous_tools'', PList (map PStr
         [''executor.command'', ''executor.kill'', ''executor.launch'', ''filesystem.write'',
          ''filesystem.delete'', ''permissions.set_level'', ''permissions.emergency'',
          ''permissions.confirm'', ''fleet.generate_pairing'', ''fleet.revoke_pairing'',
          ''fleet.toggle_remote'', ''plugins.load'', ''plugins.unload'', ''plugins.reload'',
          ''plugins.toggle'', ''plugins.create'']))])"

fun effect_of :: "pyval \<Rightarrow> policy_effect" where
  "effect_of (PStr s) = dict_get effect_map s DENY"
| "effect_of _ = DENY"

fun load_rules :: "params \<Rightarrow> levels result" where
  \<comment> \<open>a level whose rules are not a dictionary raises\<close>
  "load_rules [] = Inr []"
| "load_rules ((name, rules) # raw) =
     (case rules of
        PDict d \<Rightarrow>
          bind_result (load_rules raw) (\<lambda>lv.
            Inr ((name, map (\<lambda>(action, effect). (action, effect_of effect)) d) # lv))
      | _ \<Rightarrow> Inl (AnyException ''AttributeError''))"

definition load_levels :: "params \<Rightarrow> levels result" where
  "load_levels config =
     (case dict_get config ''permission_levels'' (PDict []) of
        PDict d \<Rightarrow> load_rules d
      | _ \<Rightarrow> Inl (AnyException ''AttributeError''))"

definition load_dangerous_tools :: "params \<Rightarrow> string list" where
  "load_dangerous_tools config = remdups (str_items (pget config ''dangerous_tools''))"


section \<open>Permission levels\<close>

definition write_markers :: "string list" where
  "write_markers =
     [''.write'', ''.delete'', ''.create'', ''.activate'', ''.deactivate'', ''.rollback'',
      ''.optimize'', ''.free_resources'']"

definition is_dangerous :: "string list \<Rightarrow> string \<Rightarrow> bool" where
  "is_dangerous dangerous tool \<longleftrightarrow> list_ex (\<lambda>d. sublist d tool) dangerous"

definition is_write :: "string \<Rightarrow> bool" where
  "is_write tool \<longleftrightarrow> list_ex (\<lambda>m. sublist m tool) write_markers"

definition level_rules :: "levels \<Rightarrow> string \<Rightarrow> (string \<times> policy_effect) list" where
  "level_rules lv level = dict_get lv level (dict_get lv ''view'' [])"

definition level_effect :: "levels \<Rightarrow> string list \<Rightarrow> string \<Rightarrow> string \<Rightarrow> policy_effect" where
  \<comment> \<open>the read rule also applies to a tool that is classified as nothing\<close>
  "level_effect lv dangerous level tool =
     (let rules = level_rules lv level in
      if is_dangerous dangerous tool then dict_get rules ''dangerous'' DENY
      else if is_write tool then dict_get rules ''write'' DENY
      else dict_get rules ''read'' DENY)"

definition grant_matches :: "params \<Rightarrow> string \<Rightarrow> pyval \<Rightarrow> bool" where
  "grant_matches grant tool user_id \<longleftrightarrow>
     py_eq (pget grant ''tool_id'') (PStr tool) \<and> py_eq (pget grant ''user_id'') user_id"

definition permission_level_evaluate :: "levels \<Rightarrow> string list \<Rightarrow> string
    \<Rightarrow> (pyval \<Rightarrow> bool) option \<Rightarrow> string \<Rightarrow> params \<Rightarrow> params \<Rightarrow> policy_result result" where
  "permission_level_evaluate lv dangerous level is_confirmed tool ps ctx =
     (let effect = level_effect lv dangerous level tool;
          plain = mk_result effect ''permission_level''
            (''Permission level '' @ quoted level @ '': '' @ effect_value effect @ '' for tool '' @ quoted tool)
            [(''level'', PStr level), (''tool_id'', PStr tool),
             (''dangerous'', PBool (is_dangerous dangerous tool))]
      in if effect = REQUIRE_CONFIRM then
           bind_result (or_dict (pget ctx ''_confirmation_grant'')) (\<lambda>grant.
           bind_result (or_dict (pget ctx ''identity'')) (\<lambda>identity.
             if grant_matches grant tool (pget identity ''user_id'') then
               Inr (mk_result ALLOW ''permission_level''
                 (''Single-use confirmation '' @ quoted (py_str (pget grant ''action_id'')) @ '' accepted'')
                 [(''level'', PStr level), (''confirmed'', PBool True),
                  (''action_id'', pget grant ''action_id'')])
             else if truthy (pget ps ''confirmed'') \<and> truthy (pget ps ''action_id'')
                  \<and> (case is_confirmed of None \<Rightarrow> False | Some f \<Rightarrow> f (pget ps ''action_id'')) then
               Inr (mk_result ALLOW ''permission_level''
                 (''Action '' @ quoted (py_str (pget ps ''action_id'')) @ '' was previously confirmed'')
                 [(''level'', PStr level), (''confirmed'', PBool True)])
             else Inr plain))
         else Inr plain)"


section \<open>Identity\<close>

fun hashable :: "pyval \<Rightarrow> bool" where
  "hashable (PList _) = False"
| "hashable (PDict _) = False"
| "hashable _ = True"

definition py_set :: "pyval \<Rightarrow> pyval list result" where
  \<comment> \<open>\<open>set(x or [])\<close>, as a list of its elements\<close>
  "py_set v =
     bind_result (or_items v) (\<lambda>xs.
       if list_all hashable xs then Inr xs else Inl (AnyException ''TypeError''))"

definition missing_permissions :: "pyval list \<Rightarrow> pyval list \<Rightarrow> string list result" where
  \<comment> \<open>\<open>sorted(required - granted)\<close> of strings; other elements do not sort together with them\<close>
  "missing_permissions required granted =
     (let diff = filter (\<lambda>r. \<not> py_member r granted) required in
      if list_all is_str diff then Inr (py_sorted (map py_str diff))
      else Inl (AnyException ''TypeError''))"

fun is_dict :: "pyval \<Rightarrow> bool" where
  "is_dict (PDict _) = True"
| "is_dict _ = False"

definition identity_evaluate :: "string \<Rightarrow> params \<Rightarrow> params \<Rightarrow> policy_result result" where
  "identity_evaluate tool ps ctx =
     (let v = py_or (pget ctx ''identity'') (PDict []); identity = as_dict v in
      bind_result (py_set (pget ctx ''required_permissions'')) (\<lambda>required.
      bind_result (if is_dict v then py_set (pget identity ''permissions'') else Inr []) (\<lambda>granted.
        if \<not> is_dict v \<or> \<not> truthy (pget identity ''is_authenticated'') then
          Inr (mk_result DENY ''identity_permissions'' ''Authenticated identity is required'' [])
        else
          bind_result (if py_member (PStr ''*'') granted then Inr []
                       else missing_permissions required granted) (\<lambda>missing.
            if missing \<noteq> [] then
              Inr (mk_result DENY ''identity_permissions''
                (''Identity lacks permissions: '' @ str_list_repr missing)
                [(''user_id'', pget identity ''user_id''), (''missing'', PList (map PStr missing))])
            else
              Inr (mk_result ALLOW ''identity_permissions'' ''Identity permissions satisfied''
                [(''user_id'', pget identity ''user_id'')])))))"


section \<open>Granular rules\<close>

fun fnmatch_val :: "platform \<Rightarrow> string \<Rightarrow> pyval \<Rightarrow> bool result" where
  "fnmatch_val os name (PStr pat) = Inr (fnmatch os name pat)"
| "fnmatch_val os name _ = Inl (AnyException ''TypeError'')"

fun member_of :: "pyval \<Rightarrow> pyval \<Rightarrow> bool result" where
  \<comment> \<open>\<open>v in (c or [])\<close>\<close>
  "member_of v (PList xs) = Inr (py_member v xs)"
| "member_of v (PDict d) = Inr (\<exists>k \<in> set (keys d). py_eq v (PStr k))"
| "member_of (PStr t) (PStr s) = Inr (s \<noteq> [] \<and> sublist t s)"
| "member_of v c = (if truthy c then Inl (AnyException ''TypeError'') else Inr False)"

definition rule_matches :: "platform \<Rightarrow> string \<Rightarrow> string \<Rightarrow> pyval \<Rightarrow> pyval \<Rightarrow> params \<Rightarrow> bool result" where
  "rule_matches os tool path user_id required rule =
     (let rule_user = dict_get rule ''user_id'' (PStr ''*'');
          permission = dict_get rule ''permission'' (PStr ''*'');
          scope = py_or (pget rule ''path_prefix'') (PStr [])
      in if \<not> (py_eq rule_user (PStr ''*'') \<or> py_eq rule_user user_id) then Inr False
         else
           bind_result (fnmatch_val os tool (dict_get rule ''tool'' (PStr ''*''))) (\<lambda>m.
             if \<not> m then Inr False
             else
               bind_result (if py_eq permission (PStr ''*'') then Inr True
                            else member_of permission required) (\<lambda>needed.
                 if \<not> needed then Inr False
                 else if truthy scope \<and> \<not> prefix (lower (py_str scope)) (lower path) then Inr False
                 else Inr True)))"

fun matching_rules :: "platform \<Rightarrow> string \<Rightarrow> string \<Rightarrow> pyval \<Rightarrow> pyval \<Rightarrow> params list
    \<Rightarrow> params list result" where
  "matching_rules os tool path user_id required [] = Inr []"
| "matching_rules os tool path user_id required (rule # rules) =
     bind_result (rule_matches os tool path user_id required rule) (\<lambda>m.
     bind_result (matching_rules os tool path user_id required rules) (\<lambda>ms.
       Inr (if m then rule # ms else ms)))"

definition path_param :: "params \<Rightarrow> string" where
  \<comment> \<open>\<open>str(params.get("path") or params.get("root") or "")\<close>\<close>
  "path_param ps = py_str (py_or (pget ps ''path'') (py_or (pget ps ''root'') (PStr [])))"

definition first_with_effect :: "string \<Rightarrow> params list \<Rightarrow> params option" where
  "first_with_effect eff rules = find (\<lambda>rule. py_eq (pget rule ''effect'') (PStr eff)) rules"

definition granular_result :: "policy_effect \<Rightarrow> string \<Rightarrow> params \<Rightarrow> policy_result" where
  "granular_result e eff rule =
     mk_result e ''granular_permissions''
       (''Granular rule '' @ quoted (py_str (pget rule ''id'')) @ '' -> '' @ eff)
       [(''rule'', PDict rule)]"

definition granular_evaluate :: "platform \<Rightarrow> params list \<Rightarrow> string \<Rightarrow> params \<Rightarrow> params
    \<Rightarrow> policy_result result" where
  "granular_evaluate os rules tool ps ctx =
     bind_result (or_dict (pget ctx ''identity'')) (\<lambda>identity.
       (let user_id = dict_get identity ''user_id'' (PStr []) in
        bind_result (matching_rules os tool (path_param ps) user_id
            (pget ctx ''required_permissions'') rules) (\<lambda>matches.
          case first_with_effect ''deny'' matches of
            Some rule \<Rightarrow> Inr (granular_result DENY ''deny'' rule)
          | None \<Rightarrow>
              (case first_with_effect ''require_confirm'' matches of
                 Some rule \<Rightarrow>
                   bind_result (or_dict (pget ctx ''_confirmation_grant'')) (\<lambda>grant.
                     if grant_matches grant tool user_id then
                       Inr (mk_result ALLOW ''granular_permissions''
                         ''No restrictive granular rule matched'' [])
                     else Inr (granular_result REQUIRE_CONFIRM ''require_confirm'' rule))
               | None \<Rightarrow>
                   Inr (mk_result ALLOW ''granular_permissions''
                     ''No restrictive granular rule matched'' [])))))"


section \<open>Emergency stop\<close>

definition emergency_evaluate :: "bool \<Rightarrow> string \<Rightarrow> params \<Rightarrow> params \<Rightarrow> policy_result result" where
  "emergency_evaluate stopped tool ps ctx =
     (if stopped then
        if tool = ''permissions.status'' then
          Inr (mk_result ALLOW ''emergency_stop'' ''Emergency stop status remains observable''
            [(''emergency_stop'', PBool True)])
        else if tool = ''permissions.emergency'' \<and> py_eq (pget ps ''action'') (PStr ''resume'') then
          Inr (mk_result ALLOW ''emergency_stop'' ''Emergency stop allows permissions.emergency resume''
            [(''emergency_stop'', PBool True)])
        else
          Inr (mk_result DENY ''emergency_stop'' ''Emergency stop is active. All execution denied.''
            [(''emergency_stop'', PBool True)])
      else Inr (mk_result ALLOW ''emergency_stop'' ''Emergency stop not active'' []))"

definition stop_exempt :: "string \<Rightarrow> params \<Rightarrow> bool" where
  "stop_exempt tool ps \<longleftrightarrow> tool = ''permissions.status''
     \<or> tool = ''permissions.emergency'' \<and> pget ps ''action'' = PStr ''resume''"



section \<open>Properties\<close>

text \<open>The levels and dangerous tools of the built-in configuration.\<close>

definition builtin_levels :: levels where
  "builtin_levels = (case load_levels default_security_config of Inr lv \<Rightarrow> lv | Inl e \<Rightarrow> [])"

definition builtin_dangerous :: "string list" where
  "builtin_dangerous = load_dangerous_tools default_security_config"

lemma load_builtin:
  "load_levels default_security_config =
     Inr [(''view'', [(''write'', DENY), (''read'', ALLOW), (''dangerous'', DENY)]),
          (''confirm'', [(''write'', ALLOW), (''read'', ALLOW), (''dangerous'', REQUIRE_CONFIRM)]),
          (''auto'', [(''write'', ALLOW), (''read'', ALLOW), (''dangerous'', REQUIRE_CONFIRM)]),
          (''admin'', [(''write'', ALLOW), (''read'', ALLOW), (''dangerous'', ALLOW)])]"
  by (simp add: load_levels_def default_security_config_def Let_def effect_map_def dict_get_def)

lemma level_effect_builtin:
  "level_effect builtin_levels dangerous ''admin'' tool = ALLOW"
  "level \<in> {''confirm'', ''auto''} \<Longrightarrow>
     level_effect builtin_levels dangerous level tool
       = (if is_dangerous dangerous tool then REQUIRE_CONFIRM else ALLOW)"
  "level \<notin> {''confirm'', ''auto'', ''admin''} \<Longrightarrow>
     level_effect builtin_levels dangerous level tool
       = (if is_dangerous dangerous tool \<or> is_write tool then DENY else ALLOW)"
  unfolding level_effect_def level_rules_def builtin_levels_def load_builtin Let_def
  by (auto simp: dict_get_def)

lemma permission_level_allow:
  "permission_level_evaluate lv dangerous level f tool ps ctx = Inr r \<Longrightarrow>
     pr_effect r = level_effect lv dangerous level tool
     \<or> level_effect lv dangerous level tool = REQUIRE_CONFIRM \<and> pr_effect r = ALLOW"
  unfolding permission_level_evaluate_def Let_def by (auto split: if_splits)

text \<open>At the view level, and at any level name the configuration does not know, a dangerous tool and
  a tool whose name carries a write marker are denied, whatever grant or confirmation comes with
  the request.\<close>

theorem view_level_is_read_only:
  assumes "level \<notin> {''confirm'', ''auto'', ''admin''}"
    and "is_dangerous dangerous tool \<or> is_write tool"
  shows "\<exists>r. permission_level_evaluate builtin_levels dangerous level f tool ps ctx = Inr r
    \<and> pr_effect r = DENY"
proof -
  have e: "level_effect builtin_levels dangerous level tool = DENY"
    using assms by (simp add: level_effect_builtin)
  show ?thesis unfolding permission_level_evaluate_def e Let_def by simp
qed

theorem view_level_is_read_only_witness:
  "\<exists>r. permission_level_evaluate builtin_levels builtin_dangerous ''view'' None ''system.optimize'' [] []
      = Inr r \<and> pr_effect r = DENY"
  by (rule view_level_is_read_only)
    (simp_all add: is_write_def write_markers_def sublist_code prefix_code)

text \<open>But a tool whose name carries none of the markers inherits the read rule: at the view level
  \<open>process.kill\<close>, \<open>process.suspend\<close> and \<open>executor.restart\<close>, which change the machine, are allowed.\<close>

theorem unmarked_mutations_read:
  "list_all (\<lambda>tool. \<exists>r. permission_level_evaluate builtin_levels builtin_dangerous ''view'' None tool [] []
      = Inr r \<and> pr_effect r = ALLOW) [''process.kill'', ''process.suspend'', ''executor.restart'']"
proof -
  have no: "\<not> is_dangerous builtin_dangerous tool \<and> \<not> is_write tool"
    if "tool \<in> {''process.kill'', ''process.suspend'', ''executor.restart''}" for tool
    using that
    by (auto simp: is_dangerous_def builtin_dangerous_def load_dangerous_tools_def is_write_def
        default_security_config_def Let_def write_markers_def sublist_code prefix_code)
  have "\<exists>r. permission_level_evaluate builtin_levels builtin_dangerous ''view'' None tool [] []
      = Inr r \<and> pr_effect r = ALLOW"
    if "tool \<in> {''process.kill'', ''process.suspend'', ''executor.restart''}" for tool
  proof -
    have e: "level_effect builtin_levels builtin_dangerous ''view'' tool = ALLOW"
      using no [OF that] by (simp add: level_effect_builtin)
    show ?thesis unfolding permission_level_evaluate_def e Let_def by simp
  qed
  then show ?thesis by simp
qed

text \<open>At the levels that ask for confirmation, a dangerous tool is allowed exactly if the context
  carries a grant for this tool and this user or the parameters name an action that was
  confirmed; otherwise the policy asks.\<close>

theorem dangerous_needs_confirmation:
  assumes "level \<in> {''confirm'', ''auto''}" and "is_dangerous dangerous tool"
    and "or_dict (pget ctx ''_confirmation_grant'') = Inr grant"
    and "or_dict (pget ctx ''identity'') = Inr identity"
  shows "\<exists>r. permission_level_evaluate builtin_levels dangerous level (Some f) tool ps ctx = Inr r
    \<and> pr_effect r =
        (if grant_matches grant tool (pget identity ''user_id'')
            \<or> truthy (pget ps ''confirmed'') \<and> truthy (pget ps ''action_id'') \<and> f (pget ps ''action_id'')
         then ALLOW else REQUIRE_CONFIRM)"
proof -
  have e: "level_effect builtin_levels dangerous level tool = REQUIRE_CONFIRM"
    using assms(1,2) by (simp add: level_effect_builtin)
  show ?thesis
    unfolding permission_level_evaluate_def e Let_def assms(3,4) by simp
qed

theorem dangerous_needs_confirmation_witness:
  "\<exists>r. permission_level_evaluate builtin_levels [''executor.kill''] ''auto'' (Some (\<lambda>a. False))
      ''executor.kill'' [] [(''identity'', PDict [(''user_id'', PStr ''u'')]),
        (''_confirmation_grant'', PDict [(''tool_id'', PStr ''executor.kill''), (''user_id'', PStr ''v'')])]
      = Inr r
    \<and> pr_effect r =
        (if grant_matches [(''tool_id'', PStr ''executor.kill''), (''user_id'', PStr ''v'')] ''executor.kill''
              (pget [(''user_id'', PStr ''u'')] ''user_id'')
            \<or> truthy (pget [] ''confirmed'') \<and> truthy (pget [] ''action_id'')
              \<and> (\<lambda>a. False) (pget [] ''action_id'')
         then ALLOW else REQUIRE_CONFIRM)"
  by (rule dangerous_needs_confirmation)
    (simp_all add: is_dangerous_def sublist_code prefix_code)

lemma missing_permissions_strings:
  "\<exists>missing. missing_permissions (map PStr required) granted = Inr missing"
proof -
  have "list_all is_str (filter (\<lambda>r. \<not> py_member r granted) (map PStr required))"
    by (auto simp: list_all_iff)
  then show ?thesis by (simp add: missing_permissions_def Let_def)
qed

lemma missing_permissions_Nil:
  "missing_permissions (map PStr required) granted = Inr []
     \<longleftrightarrow> (\<forall>p \<in> set required. PStr p \<in> set granted)"
proof -
  have "list_all is_str (filter (\<lambda>r. \<not> py_member r granted) (map PStr required))"
    by (auto simp: list_all_iff)
  moreover have "py_sorted xs = [] \<longleftrightarrow> xs = []" for xs
    by (metis set_empty set_py_sorted)
  ultimately show ?thesis
    by (auto simp: missing_permissions_def Let_def filter_empty_conv)
qed

lemma identity_allows_view:
  assumes "pget ctx ''identity'' = PDict identity"
    and "pget ctx ''required_permissions'' = PList (map PStr required)"
    and "pget identity ''permissions'' = PList (map PStr granted)"
  shows "\<exists>r. identity_evaluate tool ps ctx = Inr r \<and>
    (pr_effect r = ALLOW \<longleftrightarrow>
       truthy (pget identity ''is_authenticated'')
       \<and> (''*'' \<in> set granted \<or> set required \<subseteq> set granted))"
proof -
  have h: "py_set (PList (map PStr xs)) = Inr (map PStr xs)" for xs
    by (auto simp: py_set_def or_items_def list_all_iff)
  have in_map: "PStr p \<in> set (map PStr xs) \<longleftrightarrow> p \<in> set xs" for p xs by auto
  show ?thesis
  proof (cases "truthy (pget identity ''is_authenticated'')")
    case False
    then show ?thesis
      by (cases "identity = []")
        (simp_all add: identity_evaluate_def assms h Let_def py_or_def, simp add: py_set_def or_items_def)
  next
    case True
    then have ne: "identity \<noteq> []" by auto
    show ?thesis
    proof (cases "''*'' \<in> set granted")
      case star: True
      then show ?thesis
        using True ne
        by (simp add: identity_evaluate_def assms h Let_def py_or_def in_map del: set_map)
    next
      case star: False
      obtain missing where m: "missing_permissions (map PStr required) (map PStr granted) = Inr missing"
        using missing_permissions_strings by blast
      have "missing = [] \<longleftrightarrow> set required \<subseteq> set granted"
        using missing_permissions_Nil [of required "map PStr granted"] m by auto
      then show ?thesis
        using True ne star m
        by (simp add: identity_evaluate_def assms h Let_def py_or_def in_map del: set_map)
    qed
  qed
qed

lemma identity_effect: "identity_evaluate tool ps ctx = Inr r \<Longrightarrow> pr_effect r \<in> {ALLOW, DENY}"
  by (auto simp: identity_evaluate_def Let_def split: if_splits)

text \<open>The identity policy allows exactly an authenticated identity that holds every required
  permission or the wildcard.\<close>

theorem identity_allows_exactly:
  assumes "pget ctx ''identity'' = PDict identity"
    and "pget ctx ''required_permissions'' = PList (map PStr required)"
    and "pget identity ''permissions'' = PList (map PStr granted)"
  shows "\<exists>r. identity_evaluate tool ps ctx = Inr r \<and>
    (pr_effect r = ALLOW \<longleftrightarrow>
       truthy (pget identity ''is_authenticated'')
       \<and> (''*'' \<in> set granted \<or> set required \<subseteq> set granted))"
  by (rule identity_allows_view [OF assms])

theorem identity_allows_exactly_witness:
  "\<exists>r. identity_evaluate ''filesystem.read'' []
      [(''identity'', PDict [(''permissions'', PList (map PStr [''filesystem.read''])),
          (''is_authenticated'', PBool True)]),
       (''required_permissions'', PList (map PStr [''filesystem.read'']))] = Inr r \<and>
    (pr_effect r = ALLOW \<longleftrightarrow>
       truthy (pget [(''permissions'', PList (map PStr [''filesystem.read''])),
          (''is_authenticated'', PBool True)] ''is_authenticated'')
       \<and> (''*'' \<in> set [''filesystem.read''] \<or> set [''filesystem.read''] \<subseteq> set [''filesystem.read'']))"
  by (rule identity_allows_exactly) simp_all

text \<open>During an emergency stop the policy denies every tool except the status query and the resume
  command; without one it allows.\<close>

theorem emergency_stop_exact:
  "\<exists>r. emergency_evaluate stopped tool ps ctx = Inr r
    \<and> pr_effect r = (if stopped \<and> \<not> stop_exempt tool ps then DENY else ALLOW)"
  by (auto simp: emergency_evaluate_def stop_exempt_def)

lemma matching_rules_in:
  "matching_rules os tool path u req rules = Inr ms \<Longrightarrow>
     rule \<in> set ms \<longleftrightarrow> rule \<in> set rules \<and> rule_matches os tool path u req rule = Inr True"
  by (induction rules arbitrary: ms) (auto split: if_splits)

lemma first_with_effect_None:
  "first_with_effect eff rules = None \<longleftrightarrow> (\<forall>rule \<in> set rules. pget rule ''effect'' \<noteq> PStr eff)"
  by (auto simp: first_with_effect_def find_None_iff)

text \<open>A granular rule that denies decides, wherever it stands among the rules and whatever grant the
  request carries: the policy answers, it denies.\<close>

theorem granular_deny_decides:
  assumes "granular_evaluate os rules tool ps ctx = Inr r"
    and "or_dict (pget ctx ''identity'') = Inr identity"
    and "rule \<in> set rules" and "pget rule ''effect'' = PStr ''deny''"
    and "rule_matches os tool (path_param ps) (dict_get identity ''user_id'' (PStr []))
      (pget ctx ''required_permissions'') rule = Inr True"
  shows "pr_effect r = DENY"
proof -
  from assms(1,2) obtain ms where
    ms: "matching_rules os tool (path_param ps) (dict_get identity ''user_id'' (PStr []))
      (pget ctx ''required_permissions'') rules = Inr ms"
    by (auto simp: granular_evaluate_def Let_def)
  have "first_with_effect ''deny'' ms \<noteq> None"
    using matching_rules_in [OF ms, of rule] assms(3-5) by (auto simp: first_with_effect_None)
  then show ?thesis
    using assms(1,2) ms by (auto simp: granular_evaluate_def Let_def granular_result_def)
qed

definition sample_rules :: "params list" where
  "sample_rules =
     [[(''id'', PStr ''r1''), (''effect'', PStr ''require_confirm'')],
      [(''id'', PStr ''r2''), (''path_prefix'', PStr ''/etc''), (''effect'', PStr ''deny'')]]"

theorem granular_deny_decides_witness:
  "pr_effect (granular_result DENY ''deny''
      [(''id'', PStr ''r2''), (''path_prefix'', PStr ''/etc''), (''effect'', PStr ''deny'')]) = DENY"
proof (rule granular_deny_decides [where
      rule = "[(''id'', PStr ''r2''), (''path_prefix'', PStr ''/etc''), (''effect'', PStr ''deny'')]"])
  show "granular_evaluate Posix sample_rules ''filesystem.read'' [(''path'', PStr ''/etc/x'')] [] =
    Inr (granular_result DENY ''deny''
      [(''id'', PStr ''r2''), (''path_prefix'', PStr ''/etc''), (''effect'', PStr ''deny'')])"
    by (simp add: granular_evaluate_def Let_def sample_rules_def rule_matches_def path_param_def
        pget_def dict_get_def py_or_def first_with_effect_def lower_def lower_char_def)
qed (simp_all add: sample_rules_def rule_matches_def path_param_def pget_def dict_get_def py_or_def
  Let_def lower_def lower_char_def)

end
