(* ===== verification/Resource_Policies.thy ===== *)
theory Resource_Policies
  imports Security_Policies
begin

text \<open>
  The policies on resources: \<open>filesystem_policy.py\<close>, \<open>network_policy.py\<close>, \<open>browser_policy.py\<close>
  and \<open>ai_policy.py\<close> of \<open>sentinel/policies\<close>. Each \<open>evaluate\<close> is one definition over its
  configuration dictionary, whose lists hold strings (numbers for the ports); the built-in
  configurations are constants.
\<close>

abbreviation allow :: "string \<Rightarrow> string \<Rightarrow> policy_result result" where
  "allow i reason \<equiv> Inr (mk_result ALLOW i reason [])"

abbreviation deny :: "string \<Rightarrow> string \<Rightarrow> params \<Rightarrow> policy_result result" where
  "deny i reason c \<equiv> Inr (mk_result DENY i reason c)"

definition fnmatch_ci :: "platform \<Rightarrow> string \<Rightarrow> string \<Rightarrow> bool" where
  \<comment> \<open>\<open>fnmatch(s, p) or fnmatch(s.lower(), p.lower())\<close>\<close>
  "fnmatch_ci os s p \<longleftrightarrow> fnmatch os s p \<or> fnmatch os (lower s) (lower p)"


section \<open>Filesystem\<close>

definition filesystem_config :: params where
  "filesystem_config =
     [(''blocked_paths'', PList (map (\<lambda>s. PStr (win s))
        [''C:/Windows/System32/config/*'', ''C:/Windows/System32/SAM'',
         ''C:/Windows/System32/SECURITY'', ''C:/Windows/System32/drivers/etc/*'',
         ''%USERPROFILE%/AppData/Local/Google/Chrome/User Data/Default/Login Data'',
         ''%USERPROFILE%/AppData/Local/Microsoft/Credentials/*'',
         ''%USERPROFILE%/.ssh/*'', ''%USERPROFILE%/.gnupg/*''])),
      (''dangerous_extensions'', PList (map PStr
        [''.exe'', ''.dll'', ''.sys'', ''.bat'', ''.cmd'', ''.ps1'', ''.vbs'', ''.scr'', ''.msi'',
         ''.msp'', ''.com'', ''.pif'', ''.cpl''])),
      (''max_file_size_bytes'', PInt 104857600),
      (''max_delete_batch'', PInt 50)]"

definition user_profile_text :: "params \<Rightarrow> string" where
  "user_profile_text ctx =
     (let u = dict_get ctx ''user_profile'' (PStr []) in
      if is_str u then py_str u else if truthy u then py_str u else [])"

definition blocked_pattern :: "platform \<Rightarrow> params \<Rightarrow> params \<Rightarrow> string \<Rightarrow> string option" where
  \<comment> \<open>the first blocked pattern that the path matches\<close>
  "blocked_pattern os config ctx path =
     find (\<lambda>blocked. fnmatch_ci os path
             (replace_all ''%USERPROFILE%'' (user_profile_text ctx) blocked))
       (str_items (pget config ''blocked_paths''))"

definition extension :: "string \<Rightarrow> string" where
  "extension path = (if CHR ''.'' \<in> set path then lower (CHR ''.'' # last_part (CHR ''.'') path) else [])"

definition filesystem_path_evaluate :: "platform \<Rightarrow> params \<Rightarrow> string \<Rightarrow> params \<Rightarrow> params
    \<Rightarrow> policy_result result" where
  "filesystem_path_evaluate os config tool ps ctx =
     (let path = path_param ps; paths = py_or (pget ps ''paths'') (PList []) in
      if path = [] \<and> \<not> truthy paths then allow ''filesystem_path'' ''No path to evaluate''
      else
        (case blocked_pattern os config ctx path of
           Some blocked \<Rightarrow>
             deny ''filesystem_path''
               (''Path '' @ quoted path @ '' matches blocked pattern '' @ quoted blocked)
               [(''path'', PStr path), (''blocked_pattern'', PStr blocked)]
         | None \<Rightarrow>
             if extension path \<in> set (str_items (pget config ''dangerous_extensions'')) then
               deny ''filesystem_path''
                 (''File extension '' @ quoted (extension path) @ '' is blocked for security'')
                 [(''path'', PStr path), (''extension'', PStr (extension path))]
             else if tool = ''filesystem.delete'' then
               bind_result (if truthy paths then items paths else Inr [PStr path]) (\<lambda>all.
               bind_result (cfg_int config ''max_delete_batch'' 50) (\<lambda>max_batch.
                 (let batch = filter truthy all in
                  if max_batch < int (length batch) then
                    Inr (mk_result REQUIRE_CONFIRM ''filesystem_path''
                      (''Deleting '' @ nat_str (length batch) @ '' files exceeds the batch limit of ''
                         @ int_str max_batch)
                      [(''batch_size'', PInt (int (length batch))), (''max_batch'', PInt max_batch)])
                  else allow ''filesystem_path'' ''Filesystem path allowed'')))
             else allow ''filesystem_path'' ''Filesystem path allowed''))"

definition filesystem_size_evaluate :: "string \<Rightarrow> params \<Rightarrow> params \<Rightarrow> policy_result result" where
  "filesystem_size_evaluate tool ps ctx =
     (let max_size = 104857600; declared = py_or (pget ps ''size'') (pget ps ''content_length'') in
      if declared = PNone then allow ''filesystem_size'' ''File size within limits''
      else
        bind_result (py_int_of declared) (\<lambda>n.
          if max_size < n then
            deny ''filesystem_size''
              (''File size '' @ py_str declared @ '' exceeds maximum of '' @ int_str max_size @ '' bytes'')
              [(''declared_size'', declared), (''max_size'', PInt max_size)]
          else allow ''filesystem_size'' ''File size within limits''))"


section \<open>Network\<close>

definition network_config :: params where
  "network_config =
     [(''blocked_domains'', PList (map PStr
        [''*.malware.test'', ''*.phishing.test'', ''*.exploit.test'', ''localhost:*'', ''127.0.0.1:*''])),
      (''allowed_protocols'', PList (map PStr [''http'', ''https'', ''ws'', ''wss''])),
      (''blocked_ports'', PList (map PInt [22, 23, 25, 135, 445, 3389, 5900, 5901])),
      (''max_connections_per_minute'', PInt 60),
      (''max_download_size_bytes'', PInt 52428800)]"

fun blocked_domain :: "platform \<Rightarrow> string \<Rightarrow> string list \<Rightarrow> (string \<times> string) option" where
  \<comment> \<open>the first pattern that blocks the host, with the reason\<close>
  "blocked_domain os host [] = None"
| "blocked_domain os host (blocked # bs) =
     (if fnmatch_ci os host blocked then
        Some (blocked, ''Hostname '' @ quoted host @ '' matches blocked domain pattern '' @ quoted blocked)
      else if prefix ''*.'' blocked \<and> (host = drop 2 blocked \<or> suffix (''.'' @ drop 2 blocked) host) then
        Some (blocked, ''Hostname '' @ quoted host @ '' matches blocked domain '' @ quoted (drop 2 blocked))
      else blocked_domain os host bs)"

definition url_param :: "params \<Rightarrow> string" where
  "url_param ps = py_str (py_or (pget ps ''url'') (py_or (pget ps ''endpoint'') (PStr [])))"

definition scheme_of :: "string \<Rightarrow> string" where
  "scheme_of url = (if sublist ''://'' url then first_part ''://'' url else [])"

definition url_port :: "string \<Rightarrow> int option" where
  "url_port url =
     (if CHR '':'' \<in> set url
      then parse_int (takeWhile (\<lambda>c. c \<noteq> CHR ''/'') (last_part (CHR '':'') url)) else None)"

definition network_size_check :: "params \<Rightarrow> params \<Rightarrow> string \<Rightarrow> policy_result result" where
  "network_size_check config ps url =
     (let size = py_or (pget ps ''max_size'') (pget ps ''download_size'') in
      if size = PNone then allow ''network_domain'' ''Network domain allowed''
      else
        bind_result (py_int_of size) (\<lambda>n.
        bind_result (cfg_int config ''max_download_size_bytes'' 52428800) (\<lambda>max_dl.
          if max_dl < n then
            deny ''network_domain''
              (''Download size '' @ py_str size @ '' exceeds maximum of '' @ int_str max_dl @ '' bytes'')
              [(''url'', PStr url), (''size'', size), (''max_size'', PInt max_dl)]
          else allow ''network_domain'' ''Network domain allowed'')))"

definition network_evaluate :: "platform \<Rightarrow> params \<Rightarrow> string \<Rightarrow> params \<Rightarrow> params
    \<Rightarrow> policy_result result" where
  "network_evaluate os config tool ps ctx =
     (let url = url_param ps; proto = scheme_of url in
      if url = [] then allow ''network_domain'' ''No URL to evaluate''
      else
        bind_result (url_hostname url) (\<lambda>h.
          (let host = (case h of Some x \<Rightarrow> x | None \<Rightarrow> url) in
           case blocked_domain os host (str_items (pget config ''blocked_domains'')) of
             Some (blocked, reason) \<Rightarrow>
               deny ''network_domain'' reason
                 [(''url'', PStr url), (''hostname'', PStr host), (''blocked_pattern'', PStr blocked)]
           | None \<Rightarrow>
               if proto \<noteq> [] \<and> proto \<notin> set (str_items (pget config ''allowed_protocols'')) then
                 deny ''network_domain'' (''Protocol '' @ quoted proto @ '' is not allowed'')
                   [(''url'', PStr url), (''protocol'', PStr proto)]
               else
                 (case url_port url of
                    Some port \<Rightarrow>
                      if port \<in> set (int_items (pget config ''blocked_ports'')) then
                        deny ''network_domain'' (''Port '' @ int_str port @ '' is blocked for security'')
                          [(''url'', PStr url), (''port'', PInt port)]
                      else network_size_check config ps url
                  | None \<Rightarrow> network_size_check config ps url))))"


section \<open>Browser\<close>

definition browser_config :: params where
  "browser_config =
     [(''blocked_url_patterns'', PList (map PStr
        [''chrome://*'', ''about:*'', ''file://*'', ''javascript:*'', ''data:*'', ''blob:*''])),
      (''allowed_navigation_schemes'', PList (map PStr [''http'', ''https''])),
      (''max_tabs'', PInt 20),
      (''blocked_domains'', PList (map PStr [''*.malware.test'', ''*.phishing.test''])),
      (''max_page_size_bytes'', PInt 10485760)]"

definition browser_navigation_evaluate :: "platform \<Rightarrow> params \<Rightarrow> string \<Rightarrow> params \<Rightarrow> params
    \<Rightarrow> policy_result result" where
  "browser_navigation_evaluate os config tool ps ctx =
     (let url = py_str (py_or (pget ps ''url'') (PStr [])); scheme = scheme_of url in
      if url = [] then allow ''browser_navigation'' ''No URL to evaluate''
      else
        (case find (fnmatch_ci os url) (str_items (pget config ''blocked_url_patterns'')) of
           Some pattern \<Rightarrow>
             deny ''browser_navigation'' (''URL scheme or pattern '' @ quoted pattern @ '' is blocked'')
               [(''url'', PStr url), (''blocked_pattern'', PStr pattern)]
         | None \<Rightarrow>
             if scheme \<noteq> []
                \<and> scheme \<notin> set (str_items (pget config ''allowed_navigation_schemes'')) then
               deny ''browser_navigation'' (''Navigation scheme '' @ quoted scheme @ '' is not allowed'')
                 [(''url'', PStr url), (''scheme'', PStr scheme)]
             else
               (case find (fnmatch_ci os url) (str_items (pget config ''blocked_domains'')) of
                  Some domain \<Rightarrow>
                    deny ''browser_navigation'' (''URL matches blocked domain '' @ quoted domain)
                      [(''url'', PStr url), (''blocked_domain'', PStr domain)]
                | None \<Rightarrow> allow ''browser_navigation'' ''Browser navigation allowed'')))"

fun num_of :: "pyval \<Rightarrow> int option" where
  \<comment> \<open>the number of an \<open>int\<close> (a \<open>bool\<close> is one)\<close>
  "num_of (PInt i) = Some i"
| "num_of (PBool b) = Some (if b then 1 else 0)"
| "num_of _ = None"

definition browser_tabs_evaluate :: "string \<Rightarrow> params \<Rightarrow> params \<Rightarrow> policy_result result" where
  "browser_tabs_evaluate tool ps ctx =
     (let open_tabs = py_or (dict_get ps ''open_tabs'' (PInt 0)) (dict_get ctx ''browser_open_tabs'' (PInt 0));
          max_tabs = 20
      in case num_of open_tabs of
           Some n \<Rightarrow>
             if max_tabs \<le> n then
               Inr (mk_result REQUIRE_CONFIRM ''browser_tabs''
                 (''Already have '' @ py_str open_tabs @ '' tabs open (max '' @ int_str max_tabs @ '')'')
                 [(''open_tabs'', open_tabs), (''max_tabs'', PInt max_tabs)])
             else allow ''browser_tabs'' ''Tab count within limits''
         | None \<Rightarrow> allow ''browser_tabs'' ''Tab count within limits'')"


section \<open>AI providers and content\<close>

definition ai_config :: params where
  "ai_config =
     [(''max_input_tokens'', PInt 128000), (''max_output_tokens'', PInt 4096),
      (''blocked_model_ids'', PList []),
      (''allowed_providers'', PList (map PStr
        [''openai'', ''anthropic'', ''ollama'', ''groq'', ''mistral'', ''google''])),
      (''require_safe_output'', PBool True)]"

fun list_items :: "pyval \<Rightarrow> pyval list" where
  "list_items (PList xs) = xs"
| "list_items _ = []"

definition ai_model_evaluate :: "params \<Rightarrow> string \<Rightarrow> params \<Rightarrow> params \<Rightarrow> policy_result result" where
  "ai_model_evaluate config tool ps ctx =
     (if tool = ''ai.config'' then allow ''ai_model'' ''AI configuration authorized''
      else
        (let model = py_or (pget ps ''model'') (dict_get ctx ''ai_model'' (PStr []));
             provider = py_or (pget ps ''provider'') (dict_get ctx ''ai_provider'' (PStr []))
         in if truthy model \<and> py_member model (list_items (pget config ''blocked_model_ids'')) then
              deny ''ai_model'' (''Model '' @ quoted (py_str model) @ '' is blocked'') [(''model'', model)]
            else if truthy provider
                 \<and> \<not> py_member provider (list_items (pget config ''allowed_providers'')) then
              deny ''ai_model'' (''Provider '' @ quoted (py_str provider) @ '' is not in the allowed list'')
                [(''provider'', provider)]
            else allow ''ai_model'' ''AI model allowed''))"

definition ai_content_evaluate :: "string \<Rightarrow> params \<Rightarrow> params \<Rightarrow> policy_result result" where
  "ai_content_evaluate tool ps ctx =
     (let input_tokens = py_or (pget ps ''input_tokens'') (PInt 0);
          output_tokens = py_or (pget ps ''max_tokens'') (PInt 0);
          max_input = 128000; max_output = 4096;
          over = (\<lambda>v m. case num_of v of Some n \<Rightarrow> m < n | None \<Rightarrow> False)
      in if over input_tokens max_input then
           deny ''ai_content''
             (''Input of '' @ py_str input_tokens @ '' tokens exceeds limit of '' @ int_str max_input)
             [(''input_tokens'', input_tokens), (''max_input'', PInt max_input)]
         else if over output_tokens max_output then
           deny ''ai_content''
             (''Requested output of '' @ py_str output_tokens @ '' tokens exceeds limit of ''
                @ int_str max_output)
             [(''output_tokens'', output_tokens), (''max_output'', PInt max_output)]
         else allow ''ai_content'' ''AI content allowed'')"


section \<open>Properties\<close>

lemma lower_char_special:
  "lower_char c = CHR ''*'' \<longleftrightarrow> c = CHR ''*''"
  "lower_char c = CHR ''?'' \<longleftrightarrow> c = CHR ''?''"
  "lower_char c = CHR ''['' \<longleftrightarrow> c = CHR ''[''"
  by (rule lower_char_other, simp_all)+

lemma literal_lower [simp]: "literal (lower p) = literal p"
  by (simp add: literal_def lower_def list_all_iff lower_char_special)

lemma literal_normcase [simp]: "literal (normcase os p) = literal p"
proof (cases os)
  case Posix
  then show ?thesis by (simp add: normcase_def)
next
  case Windows
  have "(if c = CHR ''/'' then CHR 0x5C else lower_char c) = x \<longleftrightarrow> c = x"
    if "x \<in> {CHR ''*'', CHR ''?'', CHR ''[''}" for c x
    using that lower_char_special [of c] by (cases "c = CHR ''/''") auto
  note special = this [of "CHR ''*''", simplified] this [of "CHR ''?''", simplified]
    this [of "CHR ''[''", simplified]
  show ?thesis
    unfolding literal_def normcase_def Windows platform.case list.pred_map comp_def special ..
qed

lemma normcase_append [simp]: "normcase os (s @ t) = normcase os s @ normcase os t"
  by (simp add: normcase_def split: platform.split)

lemma normcase_star: "normcase os ''*'' = ''*''"
  by (simp add: normcase_def lower_char_def split: platform.split)

lemma lower_star: "lower ''*'' = ''*''"
  by (simp add: lower_def lower_char_def)

lemma fnmatch_prefix: "literal p \<Longrightarrow> prefix p s \<Longrightarrow> fnmatch os s (p @ ''*'')"
  unfolding fnmatch_def by (auto simp: normcase_star glob_prefix prefix_def)

lemma fnmatch_ci_dir:
  assumes "literal dir" and "prefix (lower dir) (lower s)"
  shows "fnmatch_ci os s (dir @ ''*'')"
proof -
  have "fnmatch os (lower s) (lower dir @ ''*'')" using assms by (intro fnmatch_prefix) simp_all
  then show ?thesis by (simp add: fnmatch_ci_def lower_star del: lower_Nil_iff)
qed

lemma lower_normcase_lower: "lower (normcase os (lower s)) = lower (normcase os s)"
proof -
  have slash: "lower_char c = CHR ''/'' \<longleftrightarrow> c = CHR ''/''" for c
    by (rule lower_char_other) simp_all
  show ?thesis
    by (cases os) (simp_all add: normcase_def lower_def slash comp_def cong: if_cong)
qed

lemma fnmatch_head:
  assumes "literal q" and "fnmatch os s (q @ t)"
  shows "prefix (normcase os q) (normcase os s)"
  using assms by (auto simp: fnmatch_def glob_literal_append prefix_def)

lemma fnmatch_ci_head:
  assumes "literal q" and "fnmatch_ci os s (q @ t)"
  shows "prefix (lower (normcase os q)) (lower (normcase os s))"
proof -
  have mono: "prefix a b \<Longrightarrow> prefix (lower a) (lower b)" for a b
    by (auto simp: prefix_def)
  from assms(2) consider "fnmatch os s (q @ t)" | "fnmatch os (lower s) (lower q @ lower t)"
    by (auto simp: fnmatch_ci_def)
  then show ?thesis
  proof cases
    case 1
    then show ?thesis using fnmatch_head [OF assms(1)] mono by blast
  next
    case 2
    then have "prefix (lower (normcase os (lower q))) (lower (normcase os (lower s)))"
      using fnmatch_head [of "lower q"] assms(1) mono by simp
    then show ?thesis by (simp add: lower_normcase_lower)
  qed
qed

text \<open>Everything below a blocked directory is denied, whatever the tool and however the path is
  capitalised.\<close>

theorem blocked_directory_denied:
  assumes "dir @ ''*'' \<in> set (str_items (pget config ''blocked_paths''))"
    and "literal dir" and "\<not> sublist ''%USERPROFILE%'' (dir @ ''*'')"
    and "prefix (lower dir) (lower (path_param ps))" and "dir \<noteq> []"
  shows "\<exists>r. filesystem_path_evaluate os config tool ps ctx = Inr r \<and> pr_effect r = DENY"
proof -
  have "path_param ps \<noteq> []" using assms(4,5) by auto
  moreover have "blocked_pattern os config ctx (path_param ps) \<noteq> None"
    unfolding blocked_pattern_def find_None_iff
    using assms(1) fnmatch_ci_dir [OF assms(2,4), of os] replace_all_absent [OF assms(3)] by metis
  ultimately show ?thesis
    unfolding filesystem_path_evaluate_def Let_def by (auto split: option.split)
qed

theorem blocked_directory_denied_witness:
  "\<exists>r. filesystem_path_evaluate Posix [(''blocked_paths'', PList (map PStr [''/srv/keys/*'']))]
      ''filesystem.read'' [(''path'', PStr ''/SRV/Keys/a'')] [] = Inr r \<and> pr_effect r = DENY"
  by (rule blocked_directory_denied [where dir = "''/srv/keys/''"])
    (simp_all add: literal_def path_param_def py_or_def lower_def lower_char_def sublist_code prefix_code)

text \<open>The built-in patterns for the user's own secrets do nothing unless the context carries
  \<open>user_profile\<close>: without it, no path below \<open>C:\Users\<close> matches a blocked pattern, so a read of an
  SSH key there is allowed by this policy.\<close>

theorem user_secrets_not_blocked:
  assumes "map_of ctx ''user_profile'' = None" and "CHR ''.'' \<notin> set name"
  shows "\<exists>r. filesystem_path_evaluate os filesystem_config ''filesystem.read''
      [(''path'', PStr (win ''C:/Users/me/.ssh/'' @ name))] ctx = Inr r \<and> pr_effect r = ALLOW"
proof -
  let ?path = "win ''C:/Users/me/.ssh/'' @ name"
  have u: "user_profile_text ctx = []" using assms(1) by (simp add: user_profile_text_def Let_def)
  have b: "blocked_pattern os filesystem_config ctx ?path = None"
  proof -
    have "\<not> fnmatch_ci os ?path (replace_all ''%USERPROFILE%'' [] p)"
      if "p \<in> set (str_items (pget filesystem_config ''blocked_paths''))" for p
    proof -
      have "(\<exists>t. replace_all ''%USERPROFILE%'' [] p = win ''C:/W'' @ t)
          \<or> (\<exists>t. replace_all ''%USERPROFILE%'' [] p = win ''/'' @ t)"
        using that by (auto simp: filesystem_config_def win_def)
      moreover have "\<not> prefix (lower (normcase os (win ''C:/W''))) (lower (normcase os ?path))"
        "\<not> prefix (lower (normcase os (win ''/''))) (lower (normcase os ?path))"
        by (cases os; simp add: win_def lower_def normcase_def; simp add: lower_char_def)+
      moreover have "literal (win ''C:/W'')" "literal (win ''/'')"
        by (simp_all add: literal_def win_def)
      ultimately show ?thesis using fnmatch_ci_head by metis
    qed
    then show ?thesis unfolding blocked_pattern_def u find_None_iff by blast
  qed
  have e: "extension ?path \<notin> set (str_items (pget filesystem_config ''dangerous_extensions''))"
  proof -
    have "last_part (CHR ''.'') ?path = win ''ssh/'' @ name"
    proof -
      have "\<forall>x \<in> set (rev name). x \<noteq> CHR ''.''" using assms(2) by auto
      then show ?thesis by (simp add: last_part_def win_def takeWhile_append)
    qed
    then have "length (extension ?path) \<ge> 5" by (simp add: extension_def win_def)
    moreover have "\<forall>x \<in> set (str_items (pget filesystem_config ''dangerous_extensions'')). length x = 4"
      by (simp add: filesystem_config_def)
    ultimately show ?thesis by auto
  qed
  have p: "path_param [(''path'', PStr ?path)] = ?path" "?path \<noteq> []"
    by (simp_all add: path_param_def py_or_def win_def)
  show ?thesis unfolding filesystem_path_evaluate_def Let_def p b using e p(2) by simp
qed

theorem user_secrets_not_blocked_witness:
  "\<exists>r. filesystem_path_evaluate Windows filesystem_config ''filesystem.read''
      [(''path'', PStr (win ''C:/Users/me/.ssh/'' @ ''id_rsa''))] [] = Inr r \<and> pr_effect r = ALLOW"
  by (rule user_secrets_not_blocked) simp_all

lemma blocked_domain_None:
  "blocked_domain os host bs = None \<Longrightarrow> blocked \<in> set bs \<Longrightarrow>
     \<not> fnmatch_ci os host blocked
     \<and> (prefix ''*.'' blocked \<longrightarrow> host \<noteq> drop 2 blocked \<and> \<not> suffix (''.'' @ drop 2 blocked) host)"
  by (induction bs) (auto split: if_splits)

text \<open>A network request whose URL names a host is allowed only if the host lies outside every
  blocked domain (neither the base of a wildcard pattern nor a name below it), the protocol is an
  allowed one and the port is not blocked.\<close>

theorem network_allows_only:
  assumes "network_evaluate os config tool ps ctx = Inr r" and "pr_effect r = ALLOW"
    and "url_param ps \<noteq> []" and "url_hostname (url_param ps) = Inr (Some host)"
    and "''*.'' @ base \<in> set (str_items (pget config ''blocked_domains''))"
  shows "host \<noteq> base \<and> \<not> suffix (''.'' @ base) host
    \<and> (scheme_of (url_param ps) = []
        \<or> scheme_of (url_param ps) \<in> set (str_items (pget config ''allowed_protocols'')))
    \<and> url_port (url_param ps) \<notin> Some ` set (int_items (pget config ''blocked_ports''))"
proof -
  have none: "blocked_domain os host (str_items (pget config ''blocked_domains'')) = None"
    using assms(1-4) by (auto simp: network_evaluate_def Let_def split: option.splits)
  have proto: "scheme_of (url_param ps) = []
        \<or> scheme_of (url_param ps) \<in> set (str_items (pget config ''allowed_protocols''))"
    using assms(1-4) none by (auto simp: network_evaluate_def Let_def split: if_splits)
  have port: "url_port (url_param ps) \<noteq> Some p" if "p \<in> set (int_items (pget config ''blocked_ports''))" for p
    using assms(1-4) none that by (auto simp: network_evaluate_def Let_def split: if_splits)
  from blocked_domain_None [OF none assms(5)] proto port show ?thesis by auto
qed

theorem network_allows_only_witness:
  "''example.org'' \<noteq> ''malware.test'' \<and> \<not> suffix (''.'' @ ''malware.test'') ''example.org''
    \<and> (scheme_of (url_param [(''url'', PStr ''https://example.org/x'')]) = []
        \<or> scheme_of (url_param [(''url'', PStr ''https://example.org/x'')])
            \<in> set (str_items (pget network_config ''allowed_protocols'')))
    \<and> url_port (url_param [(''url'', PStr ''https://example.org/x'')])
        \<notin> Some ` set (int_items (pget network_config ''blocked_ports''))"
proof (rule network_allows_only)
  show "network_evaluate Posix network_config ''web.fetch'' [(''url'', PStr ''https://example.org/x'')] []
    = Inr (mk_result ALLOW ''network_domain'' ''Network domain allowed'' [])"
    by code_simp
  show "url_hostname (url_param [(''url'', PStr ''https://example.org/x'')]) = Inr (Some ''example.org'')"
    by code_simp
  show "url_param [(''url'', PStr ''https://example.org/x'')] \<noteq> []"
    by (simp add: url_param_def py_or_def)
qed (simp_all add: network_config_def)

text \<open>The built-in patterns \<open>localhost:*\<close> and \<open>127.0.0.1:*\<close> never match a URL with a scheme, because
  the host name they are compared with has no port: requests to local services are allowed.\<close>

theorem localhost_not_blocked:
  "\<exists>r. network_evaluate os network_config tool [(''url'', PStr ''http://localhost:8080/admin'')] [] = Inr r
    \<and> pr_effect r = ALLOW"
proof -
  have "url_hostname ''http://localhost:8080/admin'' = Inr (Some ''localhost'')"
    by code_simp
  moreover have "scheme_of ''http://localhost:8080/admin'' = ''http''" by code_simp
  moreover have "url_port ''http://localhost:8080/admin'' = Some 8080" by code_simp
  moreover have "blocked_domain os ''localhost'' (str_items (pget network_config ''blocked_domains'')) = None"
    by (cases os; hypsubst; code_simp)
  moreover have "url_param [(''url'', PStr ''http://localhost:8080/admin'')] = ''http://localhost:8080/admin''"
    by (simp add: url_param_def py_or_def)
  moreover have "set (str_items (pget network_config ''allowed_protocols'')) = {''http'', ''https'', ''ws'', ''wss''}"
    "8080 \<notin> set (int_items (pget network_config ''blocked_ports''))"
    by (simp_all add: network_config_def)
  moreover have "network_size_check network_config [(''url'', PStr ''http://localhost:8080/admin'')] u
      = allow ''network_domain'' ''Network domain allowed''" for u
    by (simp add: network_size_check_def Let_def py_or_def)
  ultimately show ?thesis by (simp add: network_evaluate_def Let_def)
qed

text \<open>The browser policy compares its blocked domains with the whole URL, so that a page of a blocked
  domain is allowed as soon as the URL goes on after the host name.\<close>

theorem browser_domain_bypass:
  "\<exists>r. browser_navigation_evaluate os browser_config tool
      [(''url'', PStr ''https://evil.malware.test/'')] [] = Inr r \<and> pr_effect r = ALLOW"
proof -
  have "scheme_of ''https://evil.malware.test/'' = ''https''" by code_simp
  moreover have "find (fnmatch_ci os ''https://evil.malware.test/'')
      (str_items (pget browser_config ''blocked_url_patterns'')) = None"
    by (cases os; hypsubst; code_simp)
  moreover have "find (fnmatch_ci os ''https://evil.malware.test/'')
      (str_items (pget browser_config ''blocked_domains'')) = None"
    by (cases os; hypsubst; code_simp)
  ultimately show ?thesis
    by (simp add: browser_navigation_evaluate_def Let_def browser_config_def py_or_def)
qed

end
