(* ===== verification/Default_Policies.thy ===== *)
theory Default_Policies
  imports Resource_Policies
begin

text \<open>
  \<open>sentinel/core/capability_matrix.py\<close> and the assembly of the policy engine by
  \<open>init_policies\<close> of \<open>sidecar/modules/__init__.py\<close>. The callbacks that the assembled policies
  hold (permission service, configuration files) are gathered in one record of the values that
  they return during an evaluation.
\<close>

section \<open>The role capability matrix\<close>

definition user_read :: "string list" where
  "user_read =
     [''system.*'', ''filesystem.read'', ''filesystem.list'', ''filesystem.search'', ''ai.*'', ''audit.*'',
      ''profile.*'', ''agent.*'', ''fleet.status'', ''fleet.list_devices'', ''fleet.qr'',
      ''fleet.export_sync'', ''fleet.sync_log'', ''plugins.list'', ''plugins.templates'',
      ''permissions.status'']"

definition user_write :: "string list" where
  "user_write =
     [''filesystem.write'', ''profile.*'', ''ai.config'', ''fleet.register_device'',
      ''fleet.update_device'', ''fleet.sync_push'', ''fleet.sync_pull'', ''fleet.receive_sync'']"

definition user_dangerous :: "string list" where
  "user_dangerous =
     [''executor.command'', ''executor.launch'', ''executor.kill'', ''executor.restart'',
      ''filesystem.delete'']"

definition viewer_tools :: "string list" where
  "viewer_tools =
     [''system.*'', ''filesystem.read'', ''filesystem.list'', ''filesystem.search'', ''ai.chat'',
      ''ai.analyze'', ''audit.*'', ''profile.read'', ''fleet.status'', ''fleet.list_devices'',
      ''fleet.qr'', ''fleet.export_sync'', ''fleet.sync_log'', ''plugins.list'',
      ''plugins.templates'', ''permissions.status'']"

definition critical_tool_patterns :: "string list" where
  "critical_tool_patterns =
     [''permissions.set_level'', ''permissions.emergency'', ''permissions.confirm'',
      ''permissions.blocklist'', ''permissions.remove_blocklist'', ''fleet.generate_pairing'',
      ''fleet.revoke_pairing'', ''fleet.toggle_remote'', ''fleet.delete_device'', ''plugins.load'',
      ''plugins.unload'', ''plugins.reload'', ''plugins.toggle'', ''plugins.create'',
      ''plugins.install_url'', ''plugins.install_zip'', ''vault.*'', ''policies.reload'',
      ''admin.config_set'', ''admin.config_delete'', ''admin.backup'', ''permissions.add_rule'',
      ''permissions.remove_rule'', ''goals.register'', ''goals.unregister'', ''goals.update'',
      ''budget.*'', ''cache.*'', ''rate_limiter.*'', ''fallback.*'', ''circuit_breaker.*'',
      ''offline_queue.*'', ''alert.*'', ''advisory.*'', ''kb.add_file'', ''kb.clear'', ''kb.rebuild'',
      ''pipeline.reset_stats'', ''profile.import'', ''simulate.*'', ''process.offline'',
      ''skill.suggest'', ''skill.execute'']"

datatype category = Read | Write | Dangerous

definition capability_matrix :: "(string \<times> (category \<times> string list) list) list" where
  "capability_matrix =
     [(''admin'', [(Read, [''*'']), (Write, [''*'']), (Dangerous, [''*''])]),
      (''user'', [(Read, user_read), (Write, user_write), (Dangerous, user_dangerous)]),
      (''viewer'', [(Read, viewer_tools), (Write, []), (Dangerous, [])])]"

definition matches_any :: "platform \<Rightarrow> string \<Rightarrow> string list \<Rightarrow> bool" where
  "matches_any os tool pats \<longleftrightarrow> list_ex (fnmatch os tool) pats"

definition requires_admin :: "platform \<Rightarrow> string \<Rightarrow> bool" where
  "requires_admin os tool = matches_any os tool critical_tool_patterns"

definition classify_tool :: "platform \<Rightarrow> string \<Rightarrow> string" where
  "classify_tool os tool =
     (if requires_admin os tool then ''critical''
      else if matches_any os tool user_dangerous then ''dangerous''
      else if matches_any os tool user_write then ''write''
      else if list_ex (\<lambda>m. sublist m tool) [''.write'', ''.delete'', ''.create''] then ''write''
      else ''read'')"

definition role_allowed :: "platform \<Rightarrow> string \<Rightarrow> string \<Rightarrow> bool" where
  "role_allowed os role tool =
     (case map_of capability_matrix role of
        None \<Rightarrow> False
      | Some caps \<Rightarrow>
          role = ''admin''
          \<or> list_ex (\<lambda>c. matches_any os tool (dict_get caps c [])) [Dangerous, Write, Read])"

fun role_allowed_val :: "platform \<Rightarrow> pyval \<Rightarrow> string \<Rightarrow> bool result" where
  \<comment> \<open>a role that is not a string is no key of the matrix; a list or dictionary cannot be looked up\<close>
  "role_allowed_val os (PStr role) tool = Inr (role_allowed os role tool)"
| "role_allowed_val os v tool = (if hashable v then Inr False else Inl (AnyException ''TypeError''))"

definition capability_evaluate :: "platform \<Rightarrow> string \<Rightarrow> params \<Rightarrow> params \<Rightarrow> policy_result result" where
  "capability_evaluate os tool ps ctx =
     bind_result (or_dict (pget ctx ''identity'')) (\<lambda>identity.
       (let role = dict_get identity ''role'' (PStr ''viewer'') in
        if requires_admin os tool \<and> role \<noteq> PStr ''admin'' then
          Inr (mk_result DENY ''capability_matrix''
            (''Tool '' @ quoted tool @ '' requires admin role (current: '' @ py_str role @ '')'')
            [(''tool_id'', PStr tool), (''role'', role), (''required_role'', PStr ''admin'')])
        else
          bind_result (role_allowed_val os role tool) (\<lambda>ok.
            if \<not> ok then
              Inr (mk_result DENY ''capability_matrix''
                (''Role '' @ quoted (py_str role) @ '' is not allowed to use tool '' @ quoted tool)
                [(''tool_id'', PStr tool), (''role'', role)])
            else
              Inr (mk_result ALLOW ''capability_matrix''
                (''Role '' @ quoted (py_str role) @ '' allowed by capability matrix'')
                [(''tool_id'', PStr tool), (''role'', role)]))))"


section \<open>Assembly\<close>

record policy_env =
  env_os :: platform
  env_level :: string
  env_confirmed :: "pyval \<Rightarrow> bool"
  env_rules :: "params list"
  env_stopped :: bool
  env_levels :: levels
  env_dangerous :: "string list"
  env_filesystem :: params
  env_network :: params
  env_browser :: params
  env_ai :: params

abbreviation mk_policy :: "string \<Rightarrow> (string \<Rightarrow> params \<Rightarrow> params \<Rightarrow> policy_result result) \<Rightarrow> policy" where
  "mk_policy i f \<equiv> \<lparr>pol_id = i, pol_eval = f\<rparr>"

fun register_all :: "policy_engine \<Rightarrow> (policy \<times> string list) list \<Rightarrow> policy_engine result" where
  "register_all e [] = Inr e"
| "register_all e ((p, perms) # regs) =
     bind_result (register e p perms) (\<lambda>e'. register_all e' regs)"

definition perms_with :: "string list \<Rightarrow> string list \<Rightarrow> string list" where
  \<comment> \<open>the permissions that contain one of the words, or all if none does\<close>
  "perms_with ws all_perms =
     (let found = filter (\<lambda>p. list_ex (\<lambda>w. sublist w p) ws) all_perms
      in if found = [] then all_perms else found)"

definition default_registrations :: "policy_env \<Rightarrow> string list \<Rightarrow> (policy \<times> string list) list" where
  "default_registrations env all_perms =
     (let os = env_os env; filesystem_perms = perms_with [''filesystem''] all_perms;
          network_perms = perms_with [''web'', ''network'', ''kb''] all_perms;
          browser_perms = perms_with [''browser''] all_perms;
          ai_perms = perms_with [''ai'', ''model''] all_perms
      in [(mk_policy ''identity_permissions'' identity_evaluate, all_perms),
          (mk_policy ''capability_matrix'' (capability_evaluate os), all_perms),
          (mk_policy ''permission_level''
             (permission_level_evaluate (env_levels env) (env_dangerous env) (env_level env)
                (Some (env_confirmed env))), all_perms),
          (mk_policy ''granular_permissions'' (granular_evaluate os (env_rules env)), all_perms),
          (mk_policy ''emergency_stop'' (emergency_evaluate (env_stopped env)), all_perms),
          (mk_policy ''filesystem_path'' (filesystem_path_evaluate os (env_filesystem env)), filesystem_perms),
          (mk_policy ''filesystem_size'' filesystem_size_evaluate, filesystem_perms),
          (mk_policy ''network_domain'' (network_evaluate os (env_network env)), network_perms),
          (mk_policy ''browser_navigation'' (browser_navigation_evaluate os (env_browser env)), browser_perms),
          (mk_policy ''browser_tabs'' browser_tabs_evaluate, browser_perms),
          (mk_policy ''ai_model'' (ai_model_evaluate (env_ai env)), ai_perms),
          (mk_policy ''ai_content'' ai_content_evaluate, ai_perms)])"

definition init_policies :: "policy_env \<Rightarrow> (string \<times> string list) list \<Rightarrow> string list list
    \<Rightarrow> policy_engine result" where
  "init_policies env module_permissions spec_permissions =
     (let all_perms = remdups (concat (map snd module_permissions) @ concat spec_permissions)
      in register_all (engine_new DENY False) (default_registrations env all_perms))"


section \<open>Properties of the assembled engine\<close>

lemma register_fresh:
  "pol_id p \<notin> set (keys (pe_policies e)) \<Longrightarrow> \<exists>e'. register e p perms = Inr e'"
  by (simp add: register_def)

lemma register_covering:
  "register e p perms = Inr e' \<Longrightarrow>
     set (covering e' req) = set (covering e req) \<union> (if set perms \<inter> set req \<noteq> {} then {pol_id p} else {})"
  by (auto simp: set_covering register_view(3) fold_add_get split: if_splits)

definition touched :: "(policy \<times> string list) list \<Rightarrow> string list \<Rightarrow> string set" where
  \<comment> \<open>the policies among some registrations that a request with these permissions meets\<close>
  "touched regs req = (pol_id \<circ> fst) ` set (filter (\<lambda>r. set (snd r) \<inter> set req \<noteq> {}) regs)"

lemma touched_Cons:
  "touched ((p, perms) # regs) req =
     (if set perms \<inter> set req \<noteq> {} then {pol_id p} else {}) \<union> touched regs req"
  unfolding touched_def by simp

lemma touched_Nil [simp]: "touched [] req = {}"
  by (simp add: touched_def)

lemma in_touched:
  "(p, perms) \<in> set regs \<Longrightarrow> set perms \<inter> set req \<noteq> {} \<Longrightarrow> pol_id p \<in> touched regs req"
  unfolding touched_def by (rule rev_image_eqI [of "(p, perms)"]) simp_all

lemma touched_none:
  "list_all (\<lambda>(p, perms). set perms \<subseteq> A) regs \<Longrightarrow> A \<inter> set req = {} \<Longrightarrow> touched regs req = {}"
proof (induction regs)
  case (Cons r regs)
  obtain p perms where r: "r = (p, perms)" by (cases r)
  with Cons.prems have "set perms \<inter> set req = {}" by auto
  with Cons r show ?case by (simp add: touched_Cons)
qed simp

lemma register_all_ok:
  assumes "engine_ok e" and "distinct (map (pol_id \<circ> fst) regs)"
    and "\<forall>(p, perms) \<in> set regs. pol_id p \<notin> set (keys (pe_policies e))"
  shows "\<exists>e'. register_all e regs = Inr e' \<and> engine_ok e'
    \<and> set (covering e' req) = set (covering e req)
        \<union> touched regs req
    \<and> (\<forall>(p, perms) \<in> set regs. map_of (pe_policies e') (pol_id p) = Some p)
    \<and> (\<forall>i \<in> set (keys (pe_policies e)). map_of (pe_policies e') i = map_of (pe_policies e) i)
    \<and> pe_default e' = pe_default e"
  using assms
proof (induction regs arbitrary: e)
  case Nil
  then show ?case by simp
next
  case (Cons r regs)
  obtain p perms where r: "r = (p, perms)" by (cases r)
  with Cons.prems obtain e1 where e1: "register e p perms = Inr e1"
    using register_fresh by fastforce
  note v = register_view [OF e1]
  have keys: "set (keys (pe_policies e1)) = insert (pol_id p) (set (keys (pe_policies e)))"
    unfolding v(2) by (rule set_keys_update)
  have fresh: "\<forall>(q, perms) \<in> set regs. pol_id q \<notin> set (keys (pe_policies e1))"
    using Cons.prems(2,3) unfolding keys r by (force simp: image_iff)
  from Cons.IH [OF register_ok [OF Cons.prems(1) e1] _ fresh] Cons.prems(2) obtain e'
    where e': "register_all e1 regs = Inr e'" "engine_ok e'"
      "set (covering e' req) = set (covering e1 req)
        \<union> touched regs req"
      "\<forall>(p, perms) \<in> set regs. map_of (pe_policies e') (pol_id p) = Some p"
      "\<forall>i \<in> set (keys (pe_policies e1)). map_of (pe_policies e') i = map_of (pe_policies e1) i"
      "pe_default e' = pe_default e1"
    by auto
  have same: "map_of (pe_policies e') i = map_of (AList.update (pol_id p) p (pe_policies e)) i"
    if "i \<in> insert (pol_id p) (set (keys (pe_policies e)))" for i
  proof -
    from that have "i \<in> set (keys (pe_policies e1))" unfolding keys .
    with e'(5) have "map_of (pe_policies e') i = map_of (pe_policies e1) i" by blast
    then show ?thesis unfolding v(2) .
  qed
  have "map_of (pe_policies e') (pol_id p) = Some p"
    using same [of "pol_id p"] by simp
  moreover have "map_of (pe_policies e') i = map_of (pe_policies e) i"
    if "i \<in> set (keys (pe_policies e))" for i
    using same [of i] that v(1) by (cases "i = pol_id p") auto
  ultimately show ?case
    using e' v(4) by (simp add: r e1 register_covering [OF e1] touched_Cons Un_assoc)
qed

lemma perms_with_sub: "set (perms_with ws a) \<subseteq> set a"
  by (auto simp: perms_with_def Let_def)

lemma registrations_known:
  "list_all (\<lambda>(p, perms). set perms \<subseteq> set a) (default_registrations env a)"
  by (simp add: default_registrations_def Let_def perms_with_sub)

lemma registrations_distinct: "distinct (map (pol_id \<circ> fst) (default_registrations env all_perms))"
  by (simp add: default_registrations_def Let_def)

definition known_permissions :: "(string \<times> string list) list \<Rightarrow> string list list \<Rightarrow> string set" where
  "known_permissions module_permissions spec_permissions =
     set (concat (map snd module_permissions)) \<union> set (concat spec_permissions)"

lemma init_policies_view:
  obtains e where "init_policies env mp sp = Inr e" and "engine_ok e" and "pe_default e = DENY"
    and "\<And>req. set (covering e req) =
      touched (default_registrations env (remdups (concat (map snd mp) @ concat sp))) req"
    and "\<And>p perms. (p, perms) \<in> set (default_registrations env (remdups (concat (map snd mp) @ concat sp)))
      \<Longrightarrow> map_of (pe_policies e) (pol_id p) = Some p"
proof -
  let ?regs = "default_registrations env (remdups (concat (map snd mp) @ concat sp))"
  have n: "covering (engine_new DENY False) req = []" for req
    by (simp add: covering_def engine_new_def)
      (metis (no_types, lifting) concat_eq_Nil_conv dedup.simps(1) imageE set_map)
  have all: "\<exists>e'. register_all (engine_new DENY False) ?regs = Inr e' \<and> engine_ok e'
    \<and> set (covering e' req) = touched ?regs req
    \<and> (\<forall>(p, perms) \<in> set ?regs. map_of (pe_policies e') (pol_id p) = Some p)
    \<and> pe_default e' = DENY" for req
    using register_all_ok [OF engine_new_ok registrations_distinct, of env "remdups (concat (map snd mp) @ concat sp)" DENY False req]
    by (simp add: n) (simp add: engine_new_def)
  then obtain e where e: "register_all (engine_new DENY False) ?regs = Inr e" by blast
  from all e have "engine_ok e" "pe_default e = DENY"
    "\<And>req. set (covering e req) = touched ?regs req"
    "\<forall>(p, perms) \<in> set ?regs. map_of (pe_policies e) (pol_id p) = Some p"
    by auto
  moreover have "init_policies env mp sp = Inr e"
    using e by (simp only: init_policies_def Let_def)
  ultimately show ?thesis by (intro that) (assumption | blast)+
qed

lemma covering_policy_denies:
  assumes "engine_ok e" and "fst (evaluate e tool ps ctx req) = Inr r"
    and "i \<in> set (covering e req)"
    and "map_of (pe_policies e) i = Some p" and "pol_eval p tool ps (evaluation_context ctx req) = Inr x"
    and "pr_effect x = DENY"
  shows "pr_effect r = DENY"
  using assms(1,2)
proof (cases rule: evaluate_cases)
  case default
  with assms(3) show ?thesis by simp
next
  case (policies rs)
  have "x \<in> set rs" unfolding policies(4) using assms(3-5) by (intro bexI [of _ i]) simp_all
  with assms(6) show ?thesis unfolding policies(3) combine_effect by auto
qed

text \<open>A policy that is registered for all permissions decides about every request that requires one
  of them; a request that requires none is denied by default.\<close>

lemma init_policy_denies:
  assumes "init_policies env mp sp = Inr e" and "fst (evaluate e tool ps ctx req) = Inr r"
    and "(p, remdups (concat (map snd mp) @ concat sp))
      \<in> set (default_registrations env (remdups (concat (map snd mp) @ concat sp)))"
    and "pol_eval p tool ps (evaluation_context ctx req) = Inr x" and "pr_effect x = DENY"
  shows "pr_effect r = DENY"
proof -
  let ?all = "remdups (concat (map snd mp) @ concat sp)"
  from init_policies_view [of env mp sp] assms(1) have e: "engine_ok e" "pe_default e = DENY"
    "set (covering e req) =
      touched (default_registrations env ?all) req"
    "map_of (pe_policies e) (pol_id p) = Some p"
    using assms(3) by (metis (no_types, lifting) Inr_inject)+
  show ?thesis
  proof (cases "set ?all \<inter> set req = {}")
    case False
    then have "pol_id p \<in> set (covering e req)" unfolding e(3) by (intro in_touched [OF assms(3)])
    from covering_policy_denies [OF e(1) assms(2) this e(4) assms(4,5)] show ?thesis .
  next
    case True
    have "touched (default_registrations env ?all) req = {}"
      by (rule touched_none [OF registrations_known True])
    then have "covering e req = []" unfolding set_empty [symmetric] e(3) .
    from e(1) assms(2) show ?thesis
      by (cases rule: evaluate_cases) (use \<open>covering e req = []\<close> e(2) in \<open>simp_all add: default_result_def\<close>)
  qed
qed

text \<open>A sample assembly and request, on which the properties are instantiated.\<close>

definition sample_env :: "bool \<Rightarrow> policy_env" where
  "sample_env stopped =
     \<lparr>env_os = Posix, env_level = ''confirm'', env_confirmed = (\<lambda>a. False), env_rules = [],
      env_stopped = stopped, env_levels = builtin_levels, env_dangerous = builtin_dangerous,
      env_filesystem = filesystem_config, env_network = network_config,
      env_browser = browser_config, env_ai = ai_config\<rparr>"

definition sample_identity :: params where
  "sample_identity =
     [(''user_id'', PStr ''u''), (''role'', PStr ''admin''), (''is_authenticated'', PBool True),
      (''permissions'', PList (map PStr [''vault.write'']))]"

definition sample_answer :: "bool \<Rightarrow> policy_result result" where
  "sample_answer stopped =
     bind_result (init_policies (sample_env stopped) [(''vault.create'', [''vault.write''])] [])
       (\<lambda>e. fst (evaluate e ''vault.create'' [] [(''identity'', PDict sample_identity)] [''vault.write'']))"

lemma sample_allowed: "sample_answer False = Inr (mk_result ALLOW ''_all'' ''All policies allowed'' [])"
  by code_simp

lemma sample_stopped: "\<exists>r. sample_answer True = Inr r"
proof -
  have "\<not> is_err (sample_answer True)" by code_simp
  then show ?thesis by (cases "sample_answer True") auto
qed

text \<open>While the emergency stop is active, the assembled engine denies every request except the
  status query and the resume command, whatever the tool's permissions, the caller and the
  grants: an evaluation that answers denies.\<close>

theorem emergency_stop_engine:
  assumes "init_policies env mp sp = Inr e" and "env_stopped env" and "\<not> stop_exempt tool ps"
    and "fst (evaluate e tool ps ctx req) = Inr r"
  shows "pr_effect r = DENY"
proof (rule init_policy_denies [OF assms(1,4)])
  let ?all = "remdups (concat (map snd mp) @ concat sp)"
  show "(mk_policy ''emergency_stop'' (emergency_evaluate True), ?all)
      \<in> set (default_registrations env ?all)"
    using assms(2) by (simp add: default_registrations_def Let_def)
  show "pol_eval (mk_policy ''emergency_stop'' (emergency_evaluate True)) tool ps (evaluation_context ctx req)
      = Inr (mk_result DENY ''emergency_stop'' ''Emergency stop is active. All execution denied.''
            [(''emergency_stop'', PBool True)])"
    using assms(3) by (auto simp: emergency_evaluate_def stop_exempt_def)
qed simp

theorem emergency_stop_engine_witness:
  "\<exists>e r. init_policies (sample_env True) [(''vault.create'', [''vault.write''])] [] = Inr e
    \<and> fst (evaluate e ''vault.create'' [] [(''identity'', PDict sample_identity)] [''vault.write'']) = Inr r
    \<and> pr_effect r = DENY"
proof -
  from sample_stopped obtain e r where
    e: "init_policies (sample_env True) [(''vault.create'', [''vault.write''])] [] = Inr e" and
    r: "fst (evaluate e ''vault.create'' [] [(''identity'', PDict sample_identity)] [''vault.write'']) = Inr r"
    by (auto simp: sample_answer_def)
  from emergency_stop_engine [OF e _ _ r] e r show ?thesis
    by (auto simp: sample_env_def stop_exempt_def)
qed

lemma evaluation_context_get:
  "pget (evaluation_context ctx req) k =
     (if k = ''required_permissions'' then PList (map PStr req) else pget ctx k)"
  by (simp add: evaluation_context_def)

lemma identity_total:
  assumes "pget ctx ''required_permissions'' = PList (map PStr req)"
    and "py_set (pget (as_dict (py_or (pget ctx ''identity'') (PDict []))) ''permissions'') = Inr granted"
  shows "\<exists>x. identity_evaluate tool ps ctx = Inr x"
proof -
  have h: "py_set (PList (map PStr req)) = Inr (map PStr req)"
    by (auto simp: py_set_def or_items_def list_all_iff)
  obtain missing where m: "missing_permissions (map PStr req) granted = Inr missing"
    using missing_permissions_strings by blast
  show ?thesis
    by (simp add: identity_evaluate_def Let_def assms h m)
qed

text \<open>The assembled engine lets a request through (at least to a confirmation) only for an
  authenticated identity that holds every required permission or the wildcard.\<close>

theorem engine_requires_identity:
  assumes "init_policies env mp sp = Inr e" and "fst (evaluate e tool ps ctx req) = Inr r"
    and "pr_effect r \<noteq> DENY"
    and "pget ctx ''identity'' = PDict identity"
    and "pget identity ''permissions'' = PList (map PStr granted)"
  shows "truthy (pget identity ''is_authenticated'')
    \<and> (''*'' \<in> set granted \<or> set req \<subseteq> set granted)"
proof (rule ccontr)
  assume no: "\<not> ?thesis"
  let ?all = "remdups (concat (map snd mp) @ concat sp)"
  let ?p = "mk_policy ''identity_permissions'' identity_evaluate"
  obtain x where x: "identity_evaluate tool ps (evaluation_context ctx req) = Inr x"
      "pr_effect x = ALLOW \<longleftrightarrow> truthy (pget identity ''is_authenticated'')
       \<and> (''*'' \<in> set granted \<or> set req \<subseteq> set granted)"
    using identity_allows_view [of "evaluation_context ctx req" identity req granted tool ps] assms(4,5)
    by (auto simp: evaluation_context_get)
  have "pr_effect x = DENY"
    using identity_effect [OF x(1)] x(2) no by auto
  have "(?p, ?all) \<in> set (default_registrations env ?all)"
    by (simp add: default_registrations_def Let_def)
  from init_policy_denies [OF assms(1,2) this] x(1) \<open>pr_effect x = DENY\<close> assms(3)
  show False by simp
qed

theorem engine_requires_identity_witness:
  "\<exists>e r. init_policies (sample_env False) [(''vault.create'', [''vault.write''])] [] = Inr e
    \<and> fst (evaluate e ''vault.create'' [] [(''identity'', PDict sample_identity)] [''vault.write'']) = Inr r
    \<and> pr_effect r \<noteq> DENY
    \<and> truthy (pget sample_identity ''is_authenticated'')
        \<and> (''*'' \<in> set [''vault.write''] \<or> set [''vault.write''] \<subseteq> set [''vault.write''])"
proof -
  from sample_allowed obtain e r where
    e: "init_policies (sample_env False) [(''vault.create'', [''vault.write''])] [] = Inr e" and
    r: "fst (evaluate e ''vault.create'' [] [(''identity'', PDict sample_identity)] [''vault.write'']) = Inr r"
    and a: "pr_effect r \<noteq> DENY"
    by (auto simp: sample_answer_def)
  have "truthy (pget sample_identity ''is_authenticated'')
        \<and> (''*'' \<in> set [''vault.write''] \<or> set [''vault.write''] \<subseteq> set [''vault.write''])"
    by (rule engine_requires_identity [OF e r a]) (simp_all add: sample_identity_def sample_env_def)
  with e r a show ?thesis by blast
qed

text \<open>A critical tool (the permission, plugin, vault and fleet administration among them) gets past
  the assembled engine only for a caller whose role is \<open>admin\<close>.\<close>

theorem critical_tools_need_admin:
  assumes "init_policies env mp sp = Inr e" and "fst (evaluate e tool ps ctx req) = Inr r"
    and "pr_effect r \<noteq> DENY" and "requires_admin (env_os env) tool"
    and "pget ctx ''identity'' = PDict identity"
  shows "pget identity ''role'' = PStr ''admin''"
proof (rule ccontr)
  assume no: "\<not> ?thesis"
  let ?all = "remdups (concat (map snd mp) @ concat sp)"
  let ?p = "mk_policy ''capability_matrix'' (capability_evaluate (env_os env))"
  from no have "dict_get identity ''role'' (PStr ''viewer'') \<noteq> PStr ''admin''"
    by (cases "map_of identity ''role''") (auto simp: pget_def)
  then obtain x where x: "capability_evaluate (env_os env) tool ps (evaluation_context ctx req) = Inr x"
      "pr_effect x = DENY"
    using assms(4,5) by (simp add: capability_evaluate_def evaluation_context_get Let_def)
  have "(?p, ?all) \<in> set (default_registrations env ?all)"
    by (simp add: default_registrations_def Let_def)
  from init_policy_denies [OF assms(1,2) this] x assms(3) show False by simp
qed

lemma vault_critical: "requires_admin Posix ''vault.create''"
  by code_simp

theorem critical_tools_need_admin_witness:
  "\<exists>e r. init_policies (sample_env False) [(''vault.create'', [''vault.write''])] [] = Inr e
    \<and> fst (evaluate e ''vault.create'' [] [(''identity'', PDict sample_identity)] [''vault.write'']) = Inr r
    \<and> pr_effect r \<noteq> DENY
    \<and> pget sample_identity ''role'' = PStr ''admin''"
proof -
  from sample_allowed obtain e r where
    e: "init_policies (sample_env False) [(''vault.create'', [''vault.write''])] [] = Inr e" and
    r: "fst (evaluate e ''vault.create'' [] [(''identity'', PDict sample_identity)] [''vault.write'']) = Inr r"
    and a: "pr_effect r \<noteq> DENY"
    by (auto simp: sample_answer_def)
  have "pget sample_identity ''role'' = PStr ''admin''"
    by (rule critical_tools_need_admin [OF e r a]) (simp_all add: sample_identity_def sample_env_def vault_critical)
  with e r a show ?thesis by blast
qed

end
