(* ===== verification/Recovery.thy ===== *)
theory Recovery
  imports Py_Text
begin

text \<open>
  \<open>sentinel/core/recovery.py\<close>: the classification of errors by their text, and the retry,
  fallback and rollback handlers. A handler's callback is a function on a state of its own that
  says how the call ended; the delays that a retry waits for are returned as a list. The
  retry loop with jitter of \<open>sentinel/core/hardening.py\<close> is the same one, its jitter drawn by the
  environment.
\<close>

section \<open>Classification\<close>

datatype error_category = TRANSIENT | FUNCTIONAL | POLICY | CIRCUIT_OPEN | FATAL

fun category_value :: "error_category \<Rightarrow> string" where
  "category_value TRANSIENT = ''transient''"
| "category_value FUNCTIONAL = ''functional''"
| "category_value POLICY = ''policy''"
| "category_value CIRCUIT_OPEN = ''circuit_open''"
| "category_value FATAL = ''fatal''"

definition transient_patterns :: "string list" where
  "transient_patterns =
     [''timeout'', ''too many requests'', ''rate limit'', ''rate_limit'', ''connection refused'',
      ''connection reset'', ''connection aborted'', ''temporarily unavailable'', ''service unavailable'',
      ''busy'', ''try again'', ''throttl'', ''503'', ''502'', ''429'']"

definition policy_patterns :: "string list" where
  "policy_patterns =
     [''denied'', ''blocked by policy'', ''requires confirmation'', ''permission denied'',
      ''access denied'', ''forbidden'', ''identity required'', ''pending confirmation'', ''audit preflight'']"

definition circuit_open_patterns :: "string list" where
  "circuit_open_patterns = [''circuit-open'', ''circuit open'', ''circuit breaker is open'']"

definition functional_patterns :: "string list" where
  "functional_patterns =
     [''not found'', ''no such'', ''does not exist'', ''unknown tool'', ''invalid parameter'',
      ''missing required'', ''failed: '', ''execution error:'']"

definition mentions :: "string list \<Rightarrow> string \<Rightarrow> bool" where
  "mentions pats err \<longleftrightarrow> list_ex (\<lambda>p. sublist p (lower err)) pats"

definition classify :: "string \<Rightarrow> error_category" where
  "classify err =
     (if err = [] then FATAL
      else if mentions policy_patterns err then POLICY
      else if mentions circuit_open_patterns err then CIRCUIT_OPEN
      else if mentions transient_patterns err then TRANSIENT
      else if mentions functional_patterns err then FUNCTIONAL
      else FATAL)"


section \<open>Policies and outcomes\<close>

record recovery_policy =
  rp_max_retries :: nat
  rp_retry_delay_ms :: rat
  rp_retry_backoff :: rat
  rp_retry_max_delay_ms :: rat
  rp_retry_on :: "string list"
  rp_fallback_tool_ids :: "string list"
  rp_fallback_on :: "string list"

definition recovery_defaults :: recovery_policy where
  "recovery_defaults =
     \<lparr>rp_max_retries = 3, rp_retry_delay_ms = 500, rp_retry_backoff = 2, rp_retry_max_delay_ms = 15000,
      rp_retry_on = [''transient''], rp_fallback_tool_ids = [], rp_fallback_on = [''functional'']\<rparr>"

definition default_for :: "string \<Rightarrow> recovery_policy" where
  "default_for tool =
     (if prefix ''ai.'' tool then recovery_defaults\<lparr>rp_fallback_tool_ids := [''ai.chat'']\<rparr>
      else if prefix ''executor.'' tool then recovery_defaults\<lparr>rp_max_retries := 1\<rparr>
      else if prefix ''system.'' tool \<or> prefix ''filesystem.'' tool
      then recovery_defaults\<lparr>rp_max_retries := 2\<rparr>
      else recovery_defaults)"

text \<open>How an awaited callback ends: with a successful result, with a failed one and its error text, or
  with an exception.\<close>

datatype 'r attempt = Succeeded 'r | Returned_Failure 'r "string option" | Raised string

datatype 'r retry_end = Done 'r | Reraised string | Exhausted nat "string option"

definition retryable :: "recovery_policy \<Rightarrow> string \<Rightarrow> bool" where
  "retryable pol err \<longleftrightarrow> classify err = TRANSIENT \<and> ''transient'' \<in> set (rp_retry_on pol)"

definition retry_delay :: "recovery_policy \<Rightarrow> nat \<Rightarrow> rat" where
  \<comment> \<open>the wait after an attempt, in seconds\<close>
  "retry_delay pol attempt =
     min (rp_retry_delay_ms pol * rp_retry_backoff pol ^ (attempt - 1)) (rp_retry_max_delay_ms pol) / 1000"

definition failure_text :: "string option \<Rightarrow> string" where
  \<comment> \<open>\<open>error or "unknown error"\<close>\<close>
  "failure_text e = (case e of None \<Rightarrow> ''unknown error'' | Some t \<Rightarrow> if t = [] then ''unknown error'' else t)"

fun retry_from :: "('s \<Rightarrow> 's \<times> 'r attempt) \<Rightarrow> (nat \<Rightarrow> rat) \<Rightarrow> recovery_policy \<Rightarrow> nat \<Rightarrow> nat \<Rightarrow> string option
    \<Rightarrow> 's \<Rightarrow> 's \<times> rat list \<times> 'r retry_end" where
  \<comment> \<open>the loop with \<open>left\<close> attempts to go, the next one being number \<open>attempt\<close>\<close>
  "retry_from f jitter pol 0 attempt prev s = (s, [], Exhausted (rp_max_retries pol) prev)"
| "retry_from f jitter pol (Suc left) attempt prev s =
     (let (s', r) = f s;
          again = (\<lambda>err.
            let wait = (if left = 0 then [] else [retry_delay pol attempt + jitter attempt]);
                (s'', waits, e) = retry_from f jitter pol left (Suc attempt) (Some err) s'
            in (s'', wait @ waits, e))
      in case r of
           Succeeded x \<Rightarrow> (s', [], Done x)
         | Returned_Failure x err \<Rightarrow>
             if retryable pol (failure_text err) then again (failure_text err) else (s', [], Done x)
         | Raised msg \<Rightarrow>
             if retryable pol msg then again msg else (s', [], Reraised msg))"

definition retry_execute :: "('s \<Rightarrow> 's \<times> 'r attempt) \<Rightarrow> recovery_policy \<Rightarrow> 's \<Rightarrow> 's \<times> rat list \<times> 'r retry_end" where
  "retry_execute f pol s = retry_from f (\<lambda>n. 0) pol (rp_max_retries pol) 1 None s"

definition enhanced_retry_execute :: "('s \<Rightarrow> 's \<times> 'r attempt) \<Rightarrow> (nat \<Rightarrow> rat) \<Rightarrow> recovery_policy \<Rightarrow> 's
    \<Rightarrow> 's \<times> rat list \<times> 'r retry_end" where
  \<comment> \<open>\<open>EnhancedRetryHandler.execute\<close>, the drawn jitter of each wait an argument\<close>
  "enhanced_retry_execute f jitter pol s = retry_from f jitter pol (rp_max_retries pol) 1 None s"


section \<open>Fallback\<close>

fun fallback_loop :: "('s \<Rightarrow> 's \<times> 'r attempt) list \<Rightarrow> 'r \<Rightarrow> 's \<Rightarrow> 's \<times> 'r" where
  "fallback_loop [] original s = (s, original)"
| "fallback_loop (f # fs) original s =
     (let (s', r) = f s in
      case r of Succeeded x \<Rightarrow> (s', x) | _ \<Rightarrow> fallback_loop fs original s')"

definition fallback_execute :: "'r attempt \<Rightarrow> 'r \<Rightarrow> ('s \<Rightarrow> 's \<times> 'r attempt) list \<Rightarrow> recovery_policy \<Rightarrow> 's
    \<Rightarrow> 's \<times> 'r" where
  \<comment> \<open>the original result comes with how it ended\<close>
  "fallback_execute outcome original executors pol s =
     (case outcome of
        Returned_Failure x err \<Rightarrow>
          if classify (case err of None \<Rightarrow> [] | Some t \<Rightarrow> t) \<noteq> FUNCTIONAL
             \<or> ''functional'' \<notin> set (rp_fallback_on pol) \<or> executors = []
          then (s, original)
          else fallback_loop executors original s
      | _ \<Rightarrow> (s, original))"


section \<open>Rollback\<close>

record plan_step =
  ps_id :: string
  ps_tool_id :: string
  ps_is_reversible :: bool
  ps_rollback_tool_id :: "string option"
  ps_rollback_params :: "params option"

record rollback_action =
  ra_step_id :: string
  ra_tool_id :: string
  ra_rollback_tool_id :: string
  ra_success :: bool
  ra_error :: "string option"

datatype rollback_outcome = Rolled bool "string option" | Rollback_Raised string

definition reversible :: "plan_step \<Rightarrow> bool" where
  "reversible st \<longleftrightarrow> ps_is_reversible st \<and> (case ps_rollback_tool_id st of Some t \<Rightarrow> t \<noteq> [] | None \<Rightarrow> False)"

definition rollback_params :: "plan_step \<Rightarrow> pyval \<Rightarrow> params" where
  \<comment> \<open>the step's own parameters, completed by the data of its result\<close>
  "rollback_params st data =
     fold (\<lambda>(k, v) d. if map_of d k = None then AList.update k v d else d) (as_dict data)
       (case ps_rollback_params st of None \<Rightarrow> [] | Some d \<Rightarrow> d)"

definition action_of :: "plan_step \<Rightarrow> rollback_outcome \<Rightarrow> rollback_action" where
  "action_of st r =
     \<lparr>ra_step_id = ps_id st, ra_tool_id = ps_tool_id st, ra_rollback_tool_id = the (ps_rollback_tool_id st),
      ra_success = (case r of Rolled ok e \<Rightarrow> ok | Rollback_Raised m \<Rightarrow> False),
      ra_error = (case r of Rolled ok e \<Rightarrow> e | Rollback_Raised m \<Rightarrow> Some m)\<rparr>"

fun rollback_list :: "('s \<Rightarrow> string \<Rightarrow> params \<Rightarrow> 's \<times> rollback_outcome) \<Rightarrow> (plan_step \<times> pyval) list \<Rightarrow> 's
    \<Rightarrow> 's \<times> rollback_action list" where
  "rollback_list run [] s = (s, [])"
| "rollback_list run ((st, data) # rest) s =
     (if \<not> reversible st then rollback_list run rest s
      else
        (let (s', r) = run s (the (ps_rollback_tool_id st)) (rollback_params st data);
             (s'', acts) = rollback_list run rest s'
         in (s'', action_of st r # acts)))"

definition rollback :: "('s \<Rightarrow> string \<Rightarrow> params \<Rightarrow> 's \<times> rollback_outcome) \<Rightarrow> (plan_step \<times> pyval) list \<Rightarrow> 's
    \<Rightarrow> 's \<times> rollback_action list" where
  "rollback run completed s = rollback_list run (rev completed) s"


section \<open>Properties\<close>

fun tried :: "('s \<Rightarrow> 's \<times> 'r attempt) \<Rightarrow> nat \<Rightarrow> 's \<Rightarrow> 'r attempt list" where
  \<comment> \<open>how the first attempts end\<close>
  "tried f 0 s = []"
| "tried f (Suc n) s = snd (f s) # tried f n (fst (f s))"

fun transient_end :: "recovery_policy \<Rightarrow> 'r attempt \<Rightarrow> bool" where
  "transient_end pol (Succeeded x) = False"
| "transient_end pol (Returned_Failure x err) = retryable pol (failure_text err)"
| "transient_end pol (Raised msg) = retryable pol msg"

fun final_end :: "'r attempt \<Rightarrow> 'r retry_end" where
  "final_end (Succeeded x) = Done x"
| "final_end (Returned_Failure x err) = Done x"
| "final_end (Raised msg) = Reraised msg"

lemma retry_step:
  "retry_from f jitter pol (Suc left) attempt prev s =
     (if transient_end pol (snd (f s)) then
        (let (s', waits, e) = retry_from f jitter pol left (Suc attempt)
               (Some (case snd (f s) of Raised m \<Rightarrow> m | Returned_Failure x err \<Rightarrow> failure_text err | _ \<Rightarrow> []))
               (fst (f s))
         in (s', (if left = 0 then [] else [retry_delay pol attempt + jitter attempt]) @ waits, e))
      else (fst (f s), [], final_end (snd (f s))))"
  by (cases "f s"; cases "snd (f s)") (auto split: prod.splits)

lemma retry_from_shape:
  "\<exists>n \<le> left.
     list_all (transient_end pol) (tried f n s)
     \<and> fst (retry_from f jitter pol left attempt prev s) = ((\<lambda>s. fst (f s)) ^^ (if n < left then Suc n else n)) s
     \<and> fst (snd (retry_from f jitter pol left attempt prev s))
         = map (\<lambda>i. retry_delay pol i + jitter i) [attempt ..< attempt + min n (left - 1)]
     \<and> (if n < left
        then \<not> transient_end pol (snd (f (((\<lambda>s. fst (f s)) ^^ n) s)))
          \<and> snd (snd (retry_from f jitter pol left attempt prev s))
              = final_end (snd (f (((\<lambda>s. fst (f s)) ^^ n) s)))
        else \<exists>err. snd (snd (retry_from f jitter pol left attempt prev s)) = Exhausted (rp_max_retries pol) err)"
proof (induction left arbitrary: attempt prev s)
  case 0
  show ?case by simp
next
  case (Suc left)
  show ?case
  proof (cases "transient_end pol (snd (f s))")
    case False
    then show ?thesis unfolding retry_step by (intro exI [of _ 0]) simp
  next
    case True
    let ?g = "\<lambda>s. fst (f s)"
    let ?prev = "Some (case snd (f s) of Raised m \<Rightarrow> m | Returned_Failure x err \<Rightarrow> failure_text err | _ \<Rightarrow> [])"
    let ?r = "retry_from f jitter pol left (Suc attempt) ?prev (fst (f s))"
    from Suc.IH [of "fst (f s)" "Suc attempt" ?prev] obtain n where
      n: "n \<le> left" "list_all (transient_end pol) (tried f n (fst (f s)))"
        "fst ?r = (?g ^^ (if n < left then Suc n else n)) (fst (f s))"
        "fst (snd ?r) = map (\<lambda>i. retry_delay pol i + jitter i) [Suc attempt ..< Suc attempt + min n (left - 1)]"
        "if n < left
        then \<not> transient_end pol (snd (f ((?g ^^ n) (fst (f s)))))
          \<and> snd (snd ?r) = final_end (snd (f ((?g ^^ n) (fst (f s)))))
        else \<exists>err. snd (snd ?r) = Exhausted (rp_max_retries pol) err"
      by blast
    have r: "retry_from f jitter pol (Suc left) attempt prev s =
      (fst ?r, (if left = 0 then [] else [retry_delay pol attempt + jitter attempt]) @ fst (snd ?r), snd (snd ?r))"
      unfolding retry_step using True by (simp add: case_prod_beta' Let_def)
    have waits: "(if left = 0 then [] else [retry_delay pol attempt + jitter attempt]) @ fst (snd ?r)
        = map (\<lambda>i. retry_delay pol i + jitter i) [attempt ..< attempt + min (Suc n) (Suc left - 1)]"
      unfolding n(4) using n(1) by (cases left) (simp_all add: upt_conv_Cons min_def)
    have pow: "(?g ^^ Suc m) s = (?g ^^ m) (fst (f s))"
      "(?g ^^ (if Suc n < Suc left then Suc (Suc n) else Suc n)) s
        = (?g ^^ (if n < left then Suc n else n)) (fst (f s))" for m
      by (simp_all add: funpow_Suc_right del: funpow.simps)
    show ?thesis
    proof (intro exI [of _ "Suc n"] conjI)
      show "Suc n \<le> Suc left" using n(1) by simp
      show "list_all (transient_end pol) (tried f (Suc n) s)" using n(2) True by simp
      show "fst (retry_from f jitter pol (Suc left) attempt prev s)
          = (?g ^^ (if Suc n < Suc left then Suc (Suc n) else Suc n)) s"
        unfolding r fst_conv pow(2) by (rule n(3))
      show "fst (snd (retry_from f jitter pol (Suc left) attempt prev s))
          = map (\<lambda>i. retry_delay pol i + jitter i) [attempt ..< attempt + min (Suc n) (Suc left - 1)]"
        unfolding r fst_conv snd_conv by (rule waits)
      show "if Suc n < Suc left
        then \<not> transient_end pol (snd (f ((?g ^^ Suc n) s)))
          \<and> snd (snd (retry_from f jitter pol (Suc left) attempt prev s)) = final_end (snd (f ((?g ^^ Suc n) s)))
        else \<exists>err. snd (snd (retry_from f jitter pol (Suc left) attempt prev s)) = Exhausted (rp_max_retries pol) err"
        unfolding r snd_conv pow(1) Suc_less_eq by (rule n(5))
    qed
  qed
qed

text \<open>The retry loop calls its operation until the first outcome that is not a retryable failure, and
  at most the maximal number of times: all earlier attempts ended in a transient failure that the policy retries, the
  outcome is that of the last attempt made, or exhaustion, and the waits in between are exactly the
  policy's delays for the attempts.\<close>

theorem retry_loop_exact:
  "\<exists>n. n \<le> rp_max_retries pol
     \<and> list_all (transient_end pol) (tried f n s)
     \<and> fst (retry_execute f pol s)
         = ((\<lambda>s. fst (f s)) ^^ (if n < rp_max_retries pol then Suc n else n)) s
     \<and> fst (snd (retry_execute f pol s)) = map (retry_delay pol) [1 ..< 1 + min n (rp_max_retries pol - 1)]
     \<and> (if n < rp_max_retries pol
        then \<not> transient_end pol (snd (f (((\<lambda>s. fst (f s)) ^^ n) s)))
          \<and> snd (snd (retry_execute f pol s)) = final_end (snd (f (((\<lambda>s. fst (f s)) ^^ n) s)))
        else \<exists>err. snd (snd (retry_execute f pol s)) = Exhausted (rp_max_retries pol) err)"
proof -
  let ?r = "retry_execute f pol s"
  from retry_from_shape [of "rp_max_retries pol" pol f s "\<lambda>n. 0" 1 None]
  obtain n where n: "n \<le> rp_max_retries pol" "list_all (transient_end pol) (tried f n s)"
    "fst ?r = ((\<lambda>s. fst (f s)) ^^ (if n < rp_max_retries pol then Suc n else n)) s"
    "fst (snd ?r) = map (\<lambda>i. retry_delay pol i + 0) [1 ..< 1 + min n (rp_max_retries pol - 1)]"
    "if n < rp_max_retries pol
     then \<not> transient_end pol (snd (f (((\<lambda>s. fst (f s)) ^^ n) s)))
       \<and> snd (snd ?r) = final_end (snd (f (((\<lambda>s. fst (f s)) ^^ n) s)))
     else \<exists>err. snd (snd ?r) = Exhausted (rp_max_retries pol) err"
    unfolding retry_execute_def by blast
  then show ?thesis unfolding add_0_right by blast
qed

text \<open>Rollback undoes every completed reversible step exactly once, in reverse order of completion and
  with that step's own rollback tool, also when the rollback of a later step fails or raises.\<close>

theorem rollback_complete:
  "map (\<lambda>a. (ra_step_id a, ra_rollback_tool_id a)) (snd (rollback run completed s))
     = rev (map (\<lambda>(st, d). (ps_id st, the (ps_rollback_tool_id st)))
         (filter (\<lambda>(st, d). reversible st) completed))"
proof -
  have "map (\<lambda>a. (ra_step_id a, ra_rollback_tool_id a)) (snd (rollback_list run xs s))
     = map (\<lambda>(st, d). (ps_id st, the (ps_rollback_tool_id st))) (filter (\<lambda>(st, d). reversible st) xs)" for xs
    by (induction run xs s rule: rollback_list.induct) (auto simp: action_of_def split: prod.splits)
  then show ?thesis by (simp add: rollback_def rev_map rev_filter [symmetric])
qed

lemma setdefault_get:
  "map_of (fold (\<lambda>(k, v) d. if map_of d k = None then AList.update k v d else d) e d) k =
     (case map_of d k of Some v \<Rightarrow> Some v | None \<Rightarrow> map_of e k)"
  by (induction e arbitrary: d) (auto simp: update_conv' split: option.splits if_splits)

text \<open>A rollback gets the parameters that the plan wrote for it; the data of the step's result only
  fills in parameters that the plan left open.\<close>

theorem rollback_params_priority:
  "map_of (rollback_params st data) k =
     (case map_of (case ps_rollback_params st of None \<Rightarrow> [] | Some d \<Rightarrow> d) k of
        Some v \<Rightarrow> Some v
      | None \<Rightarrow> map_of (as_dict data) k)"
  unfolding rollback_params_def by (rule setdefault_get)

end
