(* ===== verification/Argument_Validator.thy ===== *)
theory Argument_Validator
  imports Security_Models
begin

text \<open>
  \<open>sentinel/security/argument_validator.py\<close>: the checks on tool arguments that run before
  anything else in the guard.

  Python iterates the constant sets of the module in an unspecified order; the model uses the
  order of the literals. Which errors occur does not depend on it, their order in the message
  does.
\<close>

section \<open>Tables\<close>

definition sep :: char where
  \<comment> \<open>the backslash\<close>
  "sep = CHR 0x5C"

definition sensitive_path_patterns :: "string list" where
  "sensitive_path_patterns =
     [''C:'' @ [sep] @ ''Windows'', ''C:'' @ [sep] @ ''System32'', ''C:'' @ [sep] @ ''Program Files'',
      ''/etc'', ''/usr'', ''/bin'', ''/boot'', ''/dev'', ''/proc'', ''/sys'',
      ''..'', ''~'', ''$HOME'', ''$SYSTEM'']"

definition dangerous_command_keywords :: "string list" where
  "dangerous_command_keywords =
     [''rm -rf'', ''format'', ''del /f'', ''rd /s'', ''shutdown'', ''reboot'',
      ''chmod 777'', ''sudo'', ''su root'', ''passwd'']"

definition max_string_length :: nat where "max_string_length = 10000"
definition max_dict_depth :: nat where "max_dict_depth = 10"
definition max_list_items :: nat where "max_list_items = 1000"

definition critical_tools :: "string list" where
  "critical_tools =
     [''filesystem.delete'', ''filesystem.write'', ''filesystem.format'',
      ''executor.command'', ''executor.kill'', ''process.kill'',
      ''system.shutdown'', ''system.reboot'', ''identity.credential_delete'',
      ''admin.*'', ''permission.*'']"

definition high_risk_tools :: "string list" where
  "high_risk_tools =
     [''filesystem.copy'', ''filesystem.move'', ''filesystem.create'',
      ''executor.launch'', ''network.*'', ''registry.*'']"

definition path_keys :: "string list" where
  "path_keys =
     [''path'', ''source'', ''destination'', ''src'', ''dst'', ''target'', ''directory'', ''file'',
      ''folder'']"

definition cmd_keys :: "string list" where
  "cmd_keys = [''command'', ''cmd'', ''executable'', ''binary'', ''script'', ''code'']"


section \<open>Validation results\<close>

record validation =
  v_valid :: bool
  v_risk :: risk_level
  v_errors :: "string list"
  v_warnings :: "string list"

definition v_ok :: validation where
  "v_ok = \<lparr>v_valid = True, v_risk = LOW, v_errors = [], v_warnings = []\<rparr>"

definition v_fail :: "string \<Rightarrow> validation" where
  "v_fail e = \<lparr>v_valid = False, v_risk = LOW, v_errors = [e], v_warnings = []\<rparr>"

definition merge :: "validation \<Rightarrow> validation \<Rightarrow> validation" where
  "merge r s =
     \<lparr>v_valid = (v_valid r \<and> v_valid s), v_risk = max_risk (v_risk r) (v_risk s),
      v_errors = v_errors r @ v_errors s, v_warnings = v_warnings r @ v_warnings s\<rparr>"

fun merge_all :: "validation list \<Rightarrow> validation" where
  "merge_all [] = v_ok"
| "merge_all (r # rs) = merge r (merge_all rs)"

lemma v_ok_simps [simp]:
  "v_valid v_ok" "v_risk v_ok = LOW" "v_errors v_ok = []" "v_warnings v_ok = []"
  by (simp_all add: v_ok_def)

lemma v_fail_simps [simp]: "\<not> v_valid (v_fail e)" "v_errors (v_fail e) = [e]"
  by (simp_all add: v_fail_def)

lemma merge_simps [simp]:
  "v_valid (merge r s) = (v_valid r \<and> v_valid s)"
  "v_risk (merge r s) = max (v_risk r) (v_risk s)"
  "v_errors (merge r s) = v_errors r @ v_errors s"
  "v_warnings (merge r s) = v_warnings r @ v_warnings s"
  by (simp_all add: merge_def max_risk_max)

lemma merge_all_valid [simp]: "v_valid (merge_all rs) = list_all v_valid rs"
  by (induction rs) auto

lemma merge_all_risk: "r \<in> set rs \<Longrightarrow> v_risk r \<le> v_risk (merge_all rs)"
  by (induction rs) (auto simp: le_max_iff_disj)


section \<open>Windows volume roots\<close>

text \<open>
  \<open>PureWindowsPath\<close>: the drive and root of a path whose separators are backslashes
  (\<open>ntpath.splitroot\<close>), and its remaining components without empty and \<open>.\<close> ones.
\<close>

definition to_backslashes :: "string \<Rightarrow> string" where
  "to_backslashes s = map (\<lambda>c. if c = CHR ''/'' then sep else c) s"

fun split_at :: "char \<Rightarrow> string \<Rightarrow> (string \<times> string) option" where
  \<comment> \<open>the text before the first separator and from that separator on\<close>
  "split_at c [] = None"
| "split_at c (x # xs) =
     (if x = c then Some ([], x # xs)
      else map_option (\<lambda>(a, b). (x # a, b)) (split_at c xs))"

fun split_on :: "char \<Rightarrow> string \<Rightarrow> string list" where
  "split_on c [] = [[]]"
| "split_on c (x # xs) =
     (if x = c then [] # split_on c xs
      else (case split_on c xs of [] \<Rightarrow> [[x]] | w # ws \<Rightarrow> (x # w) # ws))"

definition splitroot :: "string \<Rightarrow> string \<times> string \<times> string" where
  "splitroot p =
     (if take 1 p = [sep] then
        if take 1 (drop 1 p) = [sep] then
          (let start = (if upper (take 8 p) = [sep, sep] @ ''?'' @ [sep] @ ''UNC'' @ [sep] then 8 else 2)
           in case split_at sep (drop start p) of
                None \<Rightarrow> (p, [], [])
              | Some (a, rest) \<Rightarrow>
                  (case split_at sep (drop 1 rest) of
                     None \<Rightarrow> (p, [], [])
                   | Some (b, rest2) \<Rightarrow>
                       (take start p @ a @ [sep] @ b, take 1 rest2, drop 1 rest2)))
        else ([], take 1 p, drop 1 p)
      else if take 1 (drop 1 p) = '':'' then
        if take 1 (drop 2 p) = [sep] then (take 2 p, [sep], drop 3 p)
        else (take 2 p, [], drop 2 p)
      else ([], [], p))"

definition win_parse :: "string \<Rightarrow> string \<times> string \<times> string list" where
  \<comment> \<open>drive, root and relative components; a bare UNC share gets a root\<close>
  "win_parse p =
     (let (drv, root, rel) = splitroot p;
          dparts = split_on sep drv;
          root' = (if root = [] \<and> take 1 drv = [sep] \<and> last drv \<noteq> sep
                      \<and> (length dparts = 4 \<and> \<not> sublist (dparts ! 2) ''?.'' \<or> length dparts = 6)
                   then [sep] else root)
      in (drv, root', filter (\<lambda>x. x \<noteq> [] \<and> x \<noteq> ''.'') (split_on sep rel)))"

definition is_windows_volume_root :: "string \<Rightarrow> bool" where
  \<comment> \<open>\<open>len(path.parts) == 1\<close> with a drive and a root: the anchor is the only part\<close>
  "is_windows_volume_root v =
     (let (drv, root, rel) = win_parse (to_backslashes v) in drv \<noteq> [] \<and> root \<noteq> [] \<and> rel = [])"


section \<open>The checks\<close>

definition matches_tool :: "string list \<Rightarrow> string \<Rightarrow> bool" where
  "matches_tool patterns tool =
     list_ex (\<lambda>p. if suffix ''*'' p then prefix (butlast p) tool else tool = p) patterns"

definition is_critical_tool :: "string \<Rightarrow> bool" where
  "is_critical_tool tool = matches_tool critical_tools tool"

definition is_high_risk_tool :: "string \<Rightarrow> bool" where
  "is_high_risk_tool tool = matches_tool high_risk_tools tool"

definition protected_path :: "string \<Rightarrow> bool" where
  "protected_path v \<longleftrightarrow>
     is_windows_volume_root v
     \<or> list_ex (\<lambda>p. prefix (upper p) (upper v) \<or> prefix p v) sensitive_path_patterns"

definition blocked_path_tools :: "string list" where
  "blocked_path_tools = [''filesystem.delete'', ''filesystem.write'', ''filesystem.format'']"

definition check_path_arg :: "string \<Rightarrow> params \<Rightarrow> string \<Rightarrow> validation" where
  "check_path_arg tool args key =
     (case pget args key of
        PStr value \<Rightarrow>
          if blank value then v_fail (quoted key @ '' is empty'')
          else if protected_path value then
            \<lparr>v_valid = (tool \<notin> set blocked_path_tools),
             v_risk = (if tool \<in> set blocked_path_tools then CRITICAL else HIGH),
             v_errors = (if tool \<in> set blocked_path_tools
                         then [quoted key @ '' targets protected system path: '' @ value] else []),
             v_warnings = [quoted key @ '' targets sensitive path: '' @ value]\<rparr>
          else v_ok
      | _ \<Rightarrow> v_ok)"

definition validate_path_arguments :: "string \<Rightarrow> params \<Rightarrow> validation" where
  "validate_path_arguments tool args = merge_all (map (check_path_arg tool args) path_keys)"

definition check_cmd_arg :: "params \<Rightarrow> string \<Rightarrow> validation" where
  "check_cmd_arg args key =
     (case pget args key of
        PStr value \<Rightarrow>
          if blank value then v_fail (quoted key @ '' is empty'')
          else merge
            (case find (\<lambda>kw. sublist kw (lower value)) dangerous_command_keywords of
               None \<Rightarrow> v_ok
             | Some kw \<Rightarrow> (v_fail (quoted key @ '' contains dangerous command: '' @ kw))
                 \<lparr>v_risk := CRITICAL\<rparr>)
            (if max_string_length < length value
             then v_fail (quoted key @ '' exceeds max length ('' @ nat_str (length value)
                 @ '' > '' @ nat_str max_string_length @ '')'') else v_ok)
      | _ \<Rightarrow> v_ok)"

definition validate_command_arguments :: "params \<Rightarrow> validation" where
  "validate_command_arguments args = merge_all (map (check_cmd_arg args) cmd_keys)"

lemma size_take_list [termination_simp]:
  "x \<in> set (take n xs) \<Longrightarrow> size x < Suc (size_list size xs)"
  by (drule in_set_takeD) (simp add: less_Suc_eq_le size_list_estimation')

fun validate_depth :: "pyval \<Rightarrow> nat \<Rightarrow> validation" where
  "validate_depth v depth =
     (if max_dict_depth < depth then v_fail ''Nested structure exceeds max depth''
      else (case v of
         PDict d \<Rightarrow> merge_all (map (\<lambda>(k, w). validate_depth w (Suc depth)) d)
       | PList xs \<Rightarrow> merge_all (map (\<lambda>w. validate_depth w (Suc depth)) (take 10 xs))
       | _ \<Rightarrow> v_ok))"

declare validate_depth.simps [simp del]

fun validate_types :: "string \<Rightarrow> params \<Rightarrow> validation" where
  "validate_types pre [] = v_ok"
| "validate_types pre ((key, value) # rest) =
     (let full_key = (if pre = [] then key else pre @ ''.'' @ key)
      in merge
           (case value of
              PStr s \<Rightarrow> if max_string_length < length s
                then v_fail (quoted full_key @ '' exceeds max string length ('' @ nat_str (length s)
                  @ '' > '' @ nat_str max_string_length @ '')'') else v_ok
            | PList xs \<Rightarrow> if max_list_items < length xs
                then v_fail (quoted full_key @ '' exceeds max list items ('' @ nat_str (length xs)
                  @ '' > '' @ nat_str max_list_items @ '')'') else v_ok
            | PDict d \<Rightarrow> merge (validate_depth (PDict d) 0) (validate_types full_key d)
            | _ \<Rightarrow> v_ok)
           (validate_types pre rest))"

definition validate :: "string \<Rightarrow> params \<Rightarrow> validation" where
  "validate tool_name arguments =
     (let tool = lower tool_name;
          r = merge_all [validate_path_arguments tool arguments, validate_command_arguments arguments,
                         validate_types [] arguments, validate_depth (PDict arguments) 0]
      in r\<lparr>v_risk := (if is_critical_tool tool then max_risk (v_risk r) CRITICAL
                      else if is_high_risk_tool tool then max_risk (v_risk r) HIGH
                      else v_risk r)\<rparr>)"


section \<open>What the checks decide\<close>

text \<open>
  The nesting height that \<open>validate_depth\<close> sees: entries of dictionaries and the first ten items
  of lists.
\<close>

fun height :: "pyval \<Rightarrow> nat" where
  "height (PDict d) = foldr max (map (\<lambda>(k, v). Suc (height v)) d) 0"
| "height (PList xs) = foldr max (map (\<lambda>v. Suc (height v)) (take 10 xs)) 0"
| "height _ = 0"

lemma foldr_max_le: "foldr max ns (0::nat) \<le> m \<longleftrightarrow> list_all (\<lambda>n. n \<le> m) ns"
  by (induction ns) auto

lemma list_all_map [simp]: "list_all P (map f xs) = list_all (\<lambda>x. P (f x)) xs"
  by (induction xs) auto

lemma validate_depth_height:
  "v_valid (validate_depth v depth) \<longleftrightarrow> depth + height v \<le> max_dict_depth"
proof (induction v depth rule: validate_depth.induct)
  case (1 v depth)
  show ?case
  proof (cases "max_dict_depth < depth")
    case True
    then show ?thesis by (subst validate_depth.simps) simp
  next
    case False
    have le: "depth + n \<le> max_dict_depth \<longleftrightarrow> n \<le> max_dict_depth - depth" for n
      using False by arith
    show ?thesis
    proof (cases v)
      case (PDict d)
      have "v_valid (validate_depth w (Suc depth)) \<longleftrightarrow> Suc (height w) \<le> max_dict_depth - depth"
        if "(k, w) \<in> set d" for k w
        using "1.IH"(2) [OF False PDict that refl] False by arith
      then show ?thesis
        using False
        by (subst validate_depth.simps)
          (auto simp: PDict le foldr_max_le list_all_iff)
    next
      case (PList xs)
      have "v_valid (validate_depth w (Suc depth)) \<longleftrightarrow> Suc (height w) \<le> max_dict_depth - depth"
        if "w \<in> set (take 10 xs)" for w
        using "1.IH"(1) [OF False PList that] False by arith
      then show ?thesis
        using False
        by (subst validate_depth.simps)
          (auto simp: PList le foldr_max_le list_all_iff)
    qed (use False in \<open>subst validate_depth.simps, simp\<close>)+
  qed
qed

lemma check_path_arg_PStr:
  "pget args key = PStr v \<Longrightarrow>
   v_valid (check_path_arg tool args key)
     \<longleftrightarrow> \<not> blank v \<and> \<not> (protected_path v \<and> tool \<in> set blocked_path_tools)"
  by (simp add: check_path_arg_def)

lemma check_cmd_arg_PStr:
  "pget args key = PStr v \<Longrightarrow>
   v_valid (check_cmd_arg args key)
     \<longleftrightarrow> \<not> blank v \<and> list_all (\<lambda>kw. \<not> sublist kw (lower v)) dangerous_command_keywords
       \<and> length v \<le> max_string_length"
  by (auto simp: check_cmd_arg_def list_all_iff find_None_iff split: option.splits)
    (auto simp: find_Some_iff)

lemma check_arg_other:
  "\<not> is_str (pget args key) \<Longrightarrow>
   check_path_arg tool args key = v_ok \<and> check_cmd_arg args key = v_ok"
  by (cases "pget args key") (simp_all add: check_path_arg_def check_cmd_arg_def)

lemma validate_valid:
  "v_valid (validate tool args) \<longleftrightarrow>
     list_all (\<lambda>k. v_valid (check_path_arg (lower tool) args k)) path_keys
     \<and> list_all (\<lambda>k. v_valid (check_cmd_arg args k)) cmd_keys
     \<and> v_valid (validate_types [] args)
     \<and> height (PDict args) \<le> max_dict_depth"
  by (simp add: validate_def Let_def validate_path_arguments_def validate_command_arguments_def
      validate_depth_height)

lemma validate_risk_ge:
  "r \<in> set [validate_path_arguments (lower tool) args, validate_command_arguments args] \<Longrightarrow>
   v_risk r \<le> v_risk (validate tool args)"
  unfolding validate_def Let_def max_risk_max
  by (auto intro!: order_trans [OF merge_all_risk] simp: le_max_iff_disj)


section \<open>Properties\<close>

text \<open>The reference predicate: what a request must satisfy, independently of how it is checked.\<close>

fun text_arg :: "pyval \<Rightarrow> string option" where
  "text_arg (PStr s) = Some s"
| "text_arg _ = None"

definition path_arg_ok :: "string \<Rightarrow> params \<Rightarrow> string \<Rightarrow> bool" where
  "path_arg_ok tool args k = (case text_arg (pget args k) of None \<Rightarrow> True
     | Some v \<Rightarrow> \<not> blank v \<and> \<not> (protected_path v \<and> tool \<in> set blocked_path_tools))"

definition cmd_arg_ok :: "params \<Rightarrow> string \<Rightarrow> bool" where
  "cmd_arg_ok args k = (case text_arg (pget args k) of None \<Rightarrow> True
     | Some v \<Rightarrow> \<not> blank v \<and> length v \<le> max_string_length
         \<and> list_all (\<lambda>kw. \<not> sublist kw (lower v)) dangerous_command_keywords)"

fun sizes_ok :: "params \<Rightarrow> bool" where
  "sizes_ok [] = True"
| "sizes_ok ((k, v) # rest) =
     ((case v of
         PStr s \<Rightarrow> length s \<le> max_string_length
       | PList xs \<Rightarrow> length xs \<le> max_list_items
       | PDict d \<Rightarrow> height (PDict d) \<le> max_dict_depth \<and> sizes_ok d
       | _ \<Rightarrow> True) \<and> sizes_ok rest)"

lemma validate_types_sizes: "v_valid (validate_types pre args) \<longleftrightarrow> sizes_ok args"
proof (induction args arbitrary: pre rule: sizes_ok.induct)
  case 1
  show ?case by simp
next
  case (2 k v rest)
  show ?case
    by (cases v) (auto simp: 2 Let_def validate_depth_height)
qed

lemma check_path_arg_ok: "v_valid (check_path_arg tool args k) \<longleftrightarrow> path_arg_ok tool args k"
  by (cases "pget args k") (auto simp: check_path_arg_PStr check_arg_other path_arg_ok_def)

lemma check_cmd_arg_ok: "v_valid (check_cmd_arg args k) \<longleftrightarrow> cmd_arg_ok args k"
  by (cases "pget args k") (auto simp: check_cmd_arg_PStr check_arg_other cmd_arg_ok_def)

text \<open>C17: The validator accepts a call exactly when every path argument is acceptable for the tool,
  every command argument is acceptable, the size limits hold and the nesting height is within the
  limit; the tool name is compared in lower case.\<close>

theorem validate_accepts_exactly:
  "v_valid (validate tool args) \<longleftrightarrow>
     list_all (path_arg_ok (lower tool) args) path_keys
     \<and> list_all (cmd_arg_ok args) cmd_keys
     \<and> sizes_ok args
     \<and> height (PDict args) \<le> max_dict_depth"
  by (simp add: validate_valid validate_types_sizes check_path_arg_ok check_cmd_arg_ok)

text \<open>A command argument that contains a dangerous keyword, in any letter case, is always rejected
  and classified CRITICAL, whatever the tool.\<close>

theorem dangerous_commands_rejected:
  assumes "key \<in> set cmd_keys" and "pget args key = PStr v" and "\<not> blank v"
    and "kw \<in> set dangerous_command_keywords" and "sublist kw (lower v)"
  shows "\<not> v_valid (validate tool args) \<and> v_risk (validate tool args) = CRITICAL"
proof -
  let ?r = "check_cmd_arg args key"
  have found: "find (\<lambda>kw. sublist kw (lower v)) dangerous_command_keywords \<noteq> None"
    using assms(4,5) by (auto simp: find_None_iff)
  then have r: "\<not> v_valid ?r" "v_risk ?r = CRITICAL"
    using assms(2,3) by (auto simp: check_cmd_arg_def max_def split: option.splits)
  have "v_risk ?r \<le> v_risk (validate_command_arguments args)"
    unfolding validate_command_arguments_def using assms(1) by (intro merge_all_risk) simp
  also have "\<dots> \<le> v_risk (validate tool args)"
    by (rule validate_risk_ge) simp
  finally have "v_risk (validate tool args) = CRITICAL"
    using r(2) by simp
  moreover have "\<not> v_valid (validate tool args)"
    using assms(1) r(1) by (auto simp: validate_valid list_all_iff)
  ultimately show ?thesis by blast
qed

theorem dangerous_commands_rejected_witness:
  "\<not> v_valid (validate ''executor.run'' [(''cmd'', PStr ''SUDO ls'')])
   \<and> v_risk (validate ''executor.run'' [(''cmd'', PStr ''SUDO ls'')]) = CRITICAL"
  by (rule dangerous_commands_rejected [where key = "''cmd''" and v = "''SUDO ls''" and kw = "''sudo''"])
    (simp_all add: lower_def lower_char_def cmd_keys_def blank_def is_space_def
      dangerous_command_keywords_def)

text \<open>What the limits do not see: below the first ten items of a list nothing is inspected, so the
  remaining items may be nested arbitrarily deep and contain strings of any length.\<close>

theorem list_tail_not_inspected:
  assumes "length xs = 10" and "height (PList xs) < max_dict_depth"
    and "length (xs @ ys) \<le> max_list_items" and "k \<notin> set path_keys" and "k \<notin> set cmd_keys"
  shows "v_valid (validate tool [(k, PList (xs @ ys))])"
proof -
  have "height (PDict [(k, PList (xs @ ys))]) \<le> max_dict_depth"
    using assms(1,2) by simp
  moreover have "path_arg_ok t [(k, PList (xs @ ys))] key" for t key
    by (simp add: path_arg_ok_def)
  moreover have "cmd_arg_ok [(k, PList (xs @ ys))] key" for key
    by (simp add: cmd_arg_ok_def)
  ultimately show ?thesis
    using assms(3)
    by (simp add: validate_valid validate_types_sizes check_path_arg_ok check_cmd_arg_ok list_all_iff)
qed

theorem list_tail_not_inspected_witness:
  "v_valid (validate ''t'' [(''items'', PList ([PNone, PNone, PNone, PNone, PNone, PNone, PNone, PNone, PNone, PNone]
      @ [PStr (replicate 20000 CHR ''a'')]))])"
  by (rule list_tail_not_inspected)
    (simp_all add: max_dict_depth_def max_list_items_def path_keys_def cmd_keys_def)

end
