(* ===== verification/Json.thy ===== *)
theory Json
  imports Py_Text
begin

text \<open>
  \<open>json.dumps\<close> with sorted keys and \<open>json.loads\<close>, which the program uses to put plans and
  parameters into a canonical form before it hashes or stores them. Numbers are integers: a
  text with a fraction or an exponent is not read (floating-point values are not represented).
  The main result is that what is read back from a dumped value is the value itself, with its
  dictionaries in key order.
\<close>

section \<open>Writing\<close>

definition hex_digit :: "nat \<Rightarrow> char" where
  "hex_digit n = ''0123456789abcdef'' ! n"

definition json_char :: "char \<Rightarrow> string" where
  "json_char c =
     (let n = of_char c :: nat in
      if n = 34 then [CHR 0x5C, CHR 0x22]
      else if n = 92 then [CHR 0x5C, CHR 0x5C]
      else if n = 8 then CHR 0x5C # ''b''
      else if n = 9 then CHR 0x5C # ''t''
      else if n = 10 then CHR 0x5C # ''n''
      else if n = 12 then CHR 0x5C # ''f''
      else if n = 13 then CHR 0x5C # ''r''
      else if 32 \<le> n \<and> n \<le> 126 then [c]
      else CHR 0x5C # ''u00'' @ [hex_digit (n div 16), hex_digit (n mod 16)])"

definition json_str :: "string \<Rightarrow> string" where
  "json_str s = CHR 0x22 # concat (map json_char s) @ [CHR 0x22]"

fun json_dump :: "string \<Rightarrow> string \<Rightarrow> pyval \<Rightarrow> string" where
  \<comment> \<open>\<open>json.dumps(v, sort_keys=True, separators=(sep, ksep), default=str)\<close>\<close>
  "json_dump sep ksep PNone = ''null''"
| "json_dump sep ksep (PBool b) = (if b then ''true'' else ''false'')"
| "json_dump sep ksep (PInt i) = int_str i"
| "json_dump sep ksep (PStr s) = json_str s"
| "json_dump sep ksep (PList xs) = ''['' @ join sep (map (json_dump sep ksep) xs) @ '']''"
| "json_dump sep ksep (PDict d) =
     ''{'' @ join sep (map (\<lambda>(k, t). json_str k @ ksep @ t)
        (sort_key fst (map (\<lambda>(k, v). (k, json_dump sep ksep v)) d))) @ ''}''"
| "json_dump sep ksep (PObj i c a) = json_str (py_str (PObj i c a))"

abbreviation json_compact :: "pyval \<Rightarrow> string" where
  "json_compact \<equiv> json_dump '','' '':''"

fun jsonable :: "pyval \<Rightarrow> bool" where
  \<comment> \<open>without \<open>default\<close>, an object raises \<open>TypeError\<close>\<close>
  "jsonable (PList xs) = list_all jsonable xs"
| "jsonable (PDict d) = list_all (\<lambda>(k, v). jsonable v) d"
| "jsonable (PObj i c a) = False"
| "jsonable v = True"

fun canon :: "pyval \<Rightarrow> pyval" where
  \<comment> \<open>the value with every dictionary in key order\<close>
  "canon (PList xs) = PList (map canon xs)"
| "canon (PDict d) = PDict (sort_key fst (map (\<lambda>(k, v). (k, canon v)) d))"
| "canon v = v"

fun keys_ok :: "pyval \<Rightarrow> bool" where
  \<comment> \<open>no dictionary has a key twice\<close>
  "keys_ok (PList xs) = list_all keys_ok xs"
| "keys_ok (PDict d) = (dict_ok d \<and> list_all (\<lambda>(k, v). keys_ok v) d)"
| "keys_ok v = True"


section \<open>Reading\<close>

definition skip :: "string \<Rightarrow> string" where
  "skip s = dropWhile (\<lambda>c. c \<in> {CHR 0x20, CHR 0x09, CHR 0x0A, CHR 0x0D}) s"

fun hex_value :: "char \<Rightarrow> nat option" where
  "hex_value c =
     (let n = of_char c :: nat in
      if 48 \<le> n \<and> n \<le> 57 then Some (n - 48)
      else if 97 \<le> n \<and> n \<le> 102 then Some (n - 87)
      else if 65 \<le> n \<and> n \<le> 70 then Some (n - 55) else None)"

definition json_escape :: "string \<Rightarrow> (char \<times> string) option" where
  \<comment> \<open>the character of an escape, after its backslash\<close>
  "json_escape s =
     (case s of
        [] \<Rightarrow> None
      | c # r \<Rightarrow>
          (let n = of_char c :: nat in
           if n = 34 \<or> n = 92 \<or> n = 47 then Some (c, r)
           else if n = 98 then Some (CHR 0x08, r)
           else if n = 116 then Some (CHR 0x09, r)
           else if n = 110 then Some (CHR 0x0A, r)
           else if n = 102 then Some (CHR 0x0C, r)
           else if n = 114 then Some (CHR 0x0D, r)
           else if n = 117 then
             (case r of
                a # b # h # l # r' \<Rightarrow>
                  (case (hex_value a, hex_value b, hex_value h, hex_value l) of
                     (Some 0, Some 0, Some x, Some y) \<Rightarrow> Some (char_of (16 * x + y), r')
                   | _ \<Rightarrow> None)
              | _ \<Rightarrow> None)
           else None))"

lemma json_escape_shorter: "json_escape s = Some (c, r) \<Longrightarrow> length r < length s"
  unfolding json_escape_def Let_def by (auto split: list.splits if_splits option.splits nat.splits)

function json_string :: "string \<Rightarrow> (string \<times> string) option" where
  \<comment> \<open>a string after its opening quote\<close>
  "json_string [] = None"
| "json_string (c # r) =
     (let n = of_char c :: nat in
      if n = 34 then Some ([], r)
      else if n = 92 then
        (case json_escape r of
           None \<Rightarrow> None
         | Some (x, r') \<Rightarrow> map_option (\<lambda>(t, r''). (x # t, r'')) (json_string r'))
      else if n < 32 then None
      else map_option (\<lambda>(t, r''). (c # t, r'')) (json_string r))"
  by pat_completeness auto
termination
  by (relation "measure length") (auto dest: json_escape_shorter)

definition is_digit :: "char \<Rightarrow> bool" where
  "is_digit c \<longleftrightarrow> digit_value c \<noteq> None"

definition json_nat :: "string \<Rightarrow> (int \<times> string) option" where
  "json_nat s =
     (let ds = takeWhile is_digit s; ds' = (if take 1 ds = ''0'' then ''0'' else ds);
          r = drop (length ds') s
      in if ds = [] \<or> (r \<noteq> [] \<and> hd r \<in> {CHR ''.'', CHR ''e'', CHR ''E''}) then None
         else map_option (\<lambda>i. (i, r)) (parse_digits 0 ds'))"

definition json_number :: "string \<Rightarrow> (pyval \<times> string) option" where
  "json_number s =
     (if take 1 s = ''-'' then map_option (\<lambda>(i, r). (PInt (- i), r)) (json_nat (tl s))
      else map_option (\<lambda>(i, r). (PInt i, r)) (json_nat s))"

definition json_atom :: "string \<Rightarrow> (pyval \<times> string) option" where
  "json_atom s =
     (if prefix ''null'' s then Some (PNone, drop 4 s)
      else if prefix ''true'' s then Some (PBool True, drop 4 s)
      else if prefix ''false'' s then Some (PBool False, drop 5 s)
      else if take 1 s = [CHR 0x22] then map_option (\<lambda>(t, r). (PStr t, r)) (json_string (tl s))
      else json_number s)"

fun json_value :: "nat \<Rightarrow> string \<Rightarrow> (pyval \<times> string) option"
  and json_elems :: "nat \<Rightarrow> string \<Rightarrow> (pyval list \<times> string) option"
  and json_members :: "nat \<Rightarrow> string \<Rightarrow> ((string \<times> pyval) list \<times> string) option" where
  \<comment> \<open>the first argument bounds the recursion; the length of the text is enough\<close>
  "json_value 0 s = None"
| "json_value (Suc n) s =
     (if take 1 s = ''['' then
        (if take 1 (skip (tl s)) = '']'' then Some (PList [], tl (skip (tl s)))
         else map_option (\<lambda>(xs, r). (PList xs, r)) (json_elems n (skip (tl s))))
      else if take 1 s = ''{'' then
        (if take 1 (skip (tl s)) = ''}'' then Some (PDict [], tl (skip (tl s)))
         else map_option (\<lambda>(d, r). (PDict (fold (\<lambda>(k, v). AList.update k v) d []), r))
                (json_members n (skip (tl s))))
      else json_atom s)"
| "json_elems 0 s = None"
| "json_elems (Suc n) s =
     (case json_value n s of
        None \<Rightarrow> None
      | Some (v, r) \<Rightarrow>
          if take 1 (skip r) = '','' then
            map_option (\<lambda>(vs, r'). (v # vs, r')) (json_elems n (skip (tl (skip r))))
          else if take 1 (skip r) = '']'' then Some ([v], tl (skip r))
          else None)"
| "json_members 0 s = None"
| "json_members (Suc n) s =
     (if take 1 s \<noteq> [CHR 0x22] then None
      else
        (case json_string (tl s) of
           None \<Rightarrow> None
         | Some (k, r) \<Rightarrow>
             if take 1 (skip r) \<noteq> '':'' then None
             else
               (case json_value n (skip (tl (skip r))) of
                  None \<Rightarrow> None
                | Some (v, r) \<Rightarrow>
                    if take 1 (skip r) = '','' then
                      map_option (\<lambda>(d, r'). ((k, v) # d, r')) (json_members n (skip (tl (skip r))))
                    else if take 1 (skip r) = ''}'' then Some ([(k, v)], tl (skip r))
                    else None)))"

definition json_loads :: "string \<Rightarrow> pyval option" where
  \<comment> \<open>\<open>None\<close> where \<open>json.loads\<close> raises\<close>
  "json_loads s =
     (case json_value (Suc (length s)) (skip s) of
        Some (v, r) \<Rightarrow> if skip r = [] then Some v else None
      | None \<Rightarrow> None)"


section \<open>Round trip\<close>

lemma hex_value_digit: "n < 16 \<Longrightarrow> hex_value (hex_digit n) = Some n"
proof -
  have "list_all (\<lambda>n. hex_value (hex_digit n) = Some n) [0..<16]" by code_simp
  then show "n < 16 \<Longrightarrow> ?thesis" by (simp add: list_all_iff)
qed

lemma of_char_less: "(of_char c :: nat) < 256"
  by (cases c) (simp add: of_char_def; smt (verit) horner_sum_of_bool_2_less)

lemma char_of_code: "of_char c = (n::nat) \<Longrightarrow> c = char_of n"
  by (metis char_of_char)

lemma json_escape_u:
  assumes "m < 16" and "k < 16"
  shows "json_escape (''u00'' @ hex_digit m # hex_digit k # r) = Some (char_of (16 * m + k), r)"
proof -
  have "hex_value CHR ''0'' = Some 0" by simp
  then show ?thesis
    using hex_value_digit [OF assms(1)] hex_value_digit [OF assms(2)]
    by (simp add: json_escape_def del: hex_value.simps)
qed

lemma json_string_escape:
  assumes "json_escape (e @ r) = Some (c, r)" and "json_string r = Some (t, r')"
  shows "json_string (CHR 0x5C # e @ r) = Some (c # t, r')"
  using assms by simp

lemma char_codes:
  "CHR 0x22 = char_of (34::nat)" "CHR 0x5C = char_of (92::nat)" "CHR 0x08 = char_of (8::nat)"
  "CHR 0x09 = char_of (9::nat)" "CHR 0x0A = char_of (10::nat)" "CHR 0x0C = char_of (12::nat)"
  "CHR 0x0D = char_of (13::nat)"
  by (rule char_of_code, simp)+

lemma json_string_char:
  assumes r: "json_string r = Some (t, r')"
  shows "json_string (json_char c @ r) = Some (c # t, r')"
proof -
  define n where "n = (of_char c :: nat)"
  have c: "c = char_of n" using char_of_code n_def by metis
  have n256: "n < 256" unfolding n_def by (rule of_char_less)
  consider "n \<in> {34, 92, 8, 9, 10, 12, 13}" | "32 \<le> n" "n \<le> 126" "n \<notin> {34, 92}"
    | "n \<notin> {34, 92, 8, 9, 10, 12, 13}" "\<not> (32 \<le> n \<and> n \<le> 126)" by blast
  then show ?thesis
  proof cases
    case 1
    then show ?thesis
      using r by (elim insertE emptyE; simp add: json_char_def n_def [symmetric] Let_def;
        simp add: json_escape_def c char_codes)
  next
    case 2
    then have "json_char c = [c]" by (auto simp: json_char_def n_def [symmetric] Let_def)
    then show ?thesis using 2 r by (simp add: n_def [symmetric] Let_def)
  next
    case 3
    have jc: "json_char c = CHR 0x5C # (''u00'' @ [hex_digit (n div 16), hex_digit (n mod 16)])"
      using 3 by (auto simp: json_char_def n_def [symmetric] Let_def)
    have "json_escape (''u00'' @ hex_digit (n div 16) # hex_digit (n mod 16) # r) = Some (c, r)"
      using json_escape_u [of "n div 16" "n mod 16" r] n256 unfolding c by simp
    then have "json_escape ((''u00'' @ [hex_digit (n div 16), hex_digit (n mod 16)]) @ r) = Some (c, r)"
      by simp
    from json_string_escape [OF this r] show ?thesis unfolding jc by simp
  qed
qed

lemma json_string_body:
  "json_string (concat (map json_char s) @ CHR 0x22 # r) = Some (s, r)"
proof (induction s)
  case Nil
  show ?case by simp
next
  case (Cons c s)
  from json_string_char [OF this] show ?case by simp
qed

lemma json_str_read: "take 1 (json_str s @ r) = [CHR 0x22]" "json_string (tl (json_str s @ r)) = Some (s, r)"
  by (simp_all add: json_str_def json_string_body)

lemma digit_digit: "n < 10 \<Longrightarrow> digit_value (digit n) = Some (int n)"
proof -
  have "list_all (\<lambda>n. digit_value (digit n) = Some (int n)) [0..<10]" by code_simp
  then show "n < 10 \<Longrightarrow> ?thesis" by (simp add: list_all_iff)
qed

lemma parse_digits_append:
  "list_all is_digit s \<Longrightarrow> list_all is_digit t \<Longrightarrow> parse_digits a (s @ t) =
     (case parse_digits a s of Some b \<Rightarrow> parse_digits b t | None \<Rightarrow> None)"
  by (induction s arbitrary: a) (auto simp: is_digit_def simp del: digit_value.simps split: option.split)

lemma nat_str_digits:
  "list_all is_digit (nat_str n) \<and> parse_digits 0 (nat_str n) = Some (int n) \<and> nat_str n \<noteq> []
     \<and> (take 1 (nat_str n) = ''0'' \<longrightarrow> nat_str n = ''0'')"
proof (induction n rule: nat_str.induct)
  case (1 n)
  show ?case
  proof (cases "n < 10")
    case True
    have "list_all (\<lambda>n. is_digit (digit n)) [0..<10]" by code_simp
    then have "is_digit (digit n)" using True by (simp add: list_all_iff)
    then show ?thesis using True digit_digit [OF True]
      by (subst (1 2 3 4 5) nat_str.simps) (simp del: digit_value.simps)
  next
    case False
    have d: "is_digit (digit (n mod 10))" using digit_digit [of "n mod 10"] by (simp add: is_digit_def del: digit_value.simps)
    from 1 [OF False] have IH: "list_all is_digit (nat_str (n div 10))"
      "parse_digits 0 (nat_str (n div 10)) = Some (int (n div 10))" "nat_str (n div 10) \<noteq> []"
      "take 1 (nat_str (n div 10)) = ''0'' \<longrightarrow> nat_str (n div 10) = ''0''" by auto
    have e: "nat_str n = nat_str (n div 10) @ [digit (n mod 10)]"
      using False by (subst nat_str.simps) simp
    have nz: "take 1 (nat_str (n div 10)) \<noteq> ''0''"
    proof
      assume "take 1 (nat_str (n div 10)) = ''0''"
      then have "nat_str (n div 10) = ''0''" using IH(4) by blast
      then have "int (n div 10) = 0" using IH(2) by simp
      then show False using False by simp
    qed
    have "take 1 (nat_str (n div 10) @ x) = take 1 (nat_str (n div 10))" for x
      using IH(3) by (cases "nat_str (n div 10)") simp_all
    with nz have nz': "take 1 (nat_str (n div 10) @ [digit (n mod 10)]) \<noteq> ''0''" by metis
    have "int (n div 10) * 10 + int (n mod 10) = int n" by presburger
    then show ?thesis
      unfolding e using IH(1-3) d nz' digit_digit [of "n mod 10"]
      by (simp add: parse_digits_append del: digit_value.simps take_append)
  qed
qed

text \<open>The text after a value starts with a delimiter, which no value can absorb.\<close>

definition stops :: "string \<Rightarrow> bool" where
  "stops r \<longleftrightarrow> r = [] \<or> hd r \<in> {CHR '','', CHR '']'', CHR ''}''}"

lemma stops_simps [simp]: "stops []" "stops (CHR '','' # r)" "stops (CHR '']'' # r)" "stops (CHR ''}'' # r)"
  by (simp_all add: stops_def)

lemma stops_cases: "stops r \<Longrightarrow> r = [] \<or> (\<exists>c t. r = c # t \<and> c \<in> {CHR '','', CHR '']'', CHR ''}''})"
  by (cases r) (auto simp: stops_def)

lemma stops_not_digit: "stops r \<Longrightarrow> takeWhile is_digit r = []"
proof -
  have "\<not> is_digit CHR '',''" "\<not> is_digit CHR '']''" "\<not> is_digit CHR ''}''"
    by (simp_all add: is_digit_def)
  then show "stops r \<Longrightarrow> ?thesis" by (auto dest!: stops_cases)
qed

lemma stops_skip: "stops r \<Longrightarrow> skip r = r"
  by (auto dest!: stops_cases simp: skip_def)

lemma json_nat_str:
  assumes "stops r"
  shows "json_nat (nat_str n @ r) = Some (int n, r)"
proof -
  have d: "list_all is_digit (nat_str n)" "parse_digits 0 (nat_str n) = Some (int n)" "nat_str n \<noteq> []"
    "take 1 (nat_str n) = ''0'' \<longrightarrow> nat_str n = ''0''"
    using nat_str_digits by auto
  have tw: "takeWhile is_digit (nat_str n @ r) = nat_str n"
    using d(1) stops_not_digit [OF assms] by (simp add: takeWhile_append list_all_iff)
  have ds': "(if take 1 (nat_str n) = ''0'' then ''0'' else nat_str n) = nat_str n"
    using d(4) by presburger
  have "r = [] \<or> hd r \<notin> {CHR ''.'', CHR ''e'', CHR ''E''}"
    using stops_cases [OF assms] by auto
  then show ?thesis
    unfolding json_nat_def Let_def tw ds' using d(2,3) by auto
qed

lemma nat_str_head: "\<exists>c t. nat_str n = c # t \<and> is_digit c"
  using nat_str_digits [of n] by (cases "nat_str n") auto

lemma digit_not_special: "is_digit c \<Longrightarrow> c \<notin> set ''[{ntf-'' \<and> c \<noteq> CHR 0x22 \<and> c \<notin> set ''] }''"
  by (auto simp: is_digit_def)

lemma json_int_read:
  assumes "stops r"
  shows "json_atom (int_str i @ r) = Some (PInt i, r)" and "take 1 (int_str i @ r) \<notin> {''['', ''{''}"
    and "skip (int_str i @ r) = int_str i @ r"
proof -
  obtain c t where c: "nat_str (nat i) = c # t" "is_digit c" using nat_str_head by blast
  note n = json_nat_str [OF assms, of "nat (- i)"] json_nat_str [OF assms, of "nat i"]
  have sp: "c \<notin> set ''[{ntf-'' \<and> c \<noteq> CHR 0x22 \<and> c \<notin> set ''] }''"
    by (rule digit_not_special [OF c(2)])
  have "\<not> is_digit CHR 0x09" "\<not> is_digit CHR 0x0A" "\<not> is_digit CHR 0x0D" "\<not> is_digit CHR 0x20"
    by (simp_all add: is_digit_def)
  with c(2) have ws: "c \<notin> {CHR 0x20, CHR 0x09, CHR 0x0A, CHR 0x0D}" by auto
  show "json_atom (int_str i @ r) = Some (PInt i, r)"
    using n sp c by (auto simp: json_atom_def json_number_def int_str_def)
  show "take 1 (int_str i @ r) \<notin> {''['', ''{''}"
    using c sp by (auto simp: int_str_def)
  show "skip (int_str i @ r) = int_str i @ r"
    using c ws by (auto simp: int_str_def skip_def)
qed

lemma insort_map:
  "(\<And>x. fst (h x) = fst x) \<Longrightarrow> insort_key fst (h x) (map h ys) = map h (insort_key fst x ys)"
  by (induction ys) simp_all

lemma sort_map: "(\<And>x. fst (h x) = fst x) \<Longrightarrow> sort_key fst (map h d) = map h (sort_key fst d)"
  by (induction d) (simp_all add: insort_map)

lemma sort_map_val:
  "sort_key fst (map (\<lambda>(k, v). (k, f v)) d) = map (\<lambda>(k, v). (k, f v)) (sort_key fst d)"
  by (rule sort_map) auto

lemma fold_update_append:
  "distinct (keys (e @ d)) \<Longrightarrow> fold (\<lambda>(k, v). AList.update k v) d e = e @ d"
proof (induction d arbitrary: e)
  case Nil
  then show ?case by simp
next
  case (Cons p d)
  obtain k v where p: "p = (k, v)" by (cases p)
  have "AList.update k v e = e @ [(k, v)]"
    using Cons.prems p by (induction e) auto
  with Cons.IH [of "e @ [(k, v)]"] Cons.prems p show ?case by simp
qed

lemma join_Cons: "join sep (x # xs) = x @ (if xs = [] then [] else sep @ join sep xs)"
  by (cases xs) simp_all

definition reads :: "pyval \<Rightarrow> bool" where
  \<comment> \<open>the dumped value is read back, in canonical form, in front of any delimiter\<close>
  "reads v \<longleftrightarrow>
     (\<forall>n r. stops r \<longrightarrow> length (json_compact v) \<le> n \<longrightarrow>
        json_value n (json_compact v @ r) = Some (canon v, r)
        \<and> skip (json_compact v @ r) = json_compact v @ r)
     \<and> json_compact v \<noteq> []"

lemma readsD:
  assumes "reads v" and "stops r" and "length (json_compact v) \<le> n"
  shows "json_value n (json_compact v @ r) = Some (canon v, r)"
    and "skip (json_compact v @ r) = json_compact v @ r"
  using assms unfolding reads_def by blast+

lemma json_elems_read:
  assumes "\<forall>v \<in> set xs. reads v" and "xs \<noteq> []"
    and "length (join '','' (map json_compact xs)) < n"
  shows "json_elems n (join '','' (map json_compact xs) @ CHR '']'' # r) = Some (map canon xs, r)
    \<and> skip (join '','' (map json_compact xs) @ CHR '']'' # r)
        = join '','' (map json_compact xs) @ CHR '']'' # r"
  using assms
proof (induction xs arbitrary: n)
  case Nil
  then show ?case by simp
next
  case (Cons x xs)
  from Cons.prems(3) obtain m where n: "n = Suc m" by (cases n) simp_all
  have x: "reads x" using Cons.prems(1) by simp
  show ?case
  proof (cases "xs = []")
    case True
    have "length (json_compact x) \<le> m" using Cons.prems(3) True n by simp
    with readsD [OF x, of "CHR '']'' # r"] show ?thesis
      by (simp add: True n stops_skip)
  next
    case False
    let ?t = "join '','' (map json_compact xs) @ CHR '']'' # r"
    have l: "length (json_compact x) \<le> m" "length (join '','' (map json_compact xs)) < m"
      using Cons.prems(3) False n by (simp_all add: join_Cons)
    have "json_elems m ?t = Some (map canon xs, r)" "skip ?t = ?t"
      using Cons.IH [OF _ False l(2)] Cons.prems(1) by auto
    with readsD [OF x, of "CHR '','' # ?t" m] l(1) False show ?thesis
      by (simp add: join_Cons n stops_skip)
  qed
qed

abbreviation member_text :: "string \<times> pyval \<Rightarrow> string" where
  "member_text \<equiv> \<lambda>(k, v). json_str k @ '':'' @ json_compact v"

lemma json_str_nonempty: "json_str k = CHR 0x22 # tl (json_str k)"
  by (simp add: json_str_def)

lemma json_members_read:
  assumes "\<forall>(k, v) \<in> set d. reads v" and "d \<noteq> []"
    and "length (join '','' (map member_text d)) < n"
  shows "json_members n (join '','' (map member_text d) @ CHR ''}'' # r)
      = Some (map (\<lambda>(k, v). (k, canon v)) d, r)
    \<and> skip (join '','' (map member_text d) @ CHR ''}'' # r)
        = join '','' (map member_text d) @ CHR ''}'' # r"
  using assms
proof (induction d arbitrary: n)
  case Nil
  then show ?case by simp
next
  case (Cons p d)
  obtain k v where p: "p = (k, v)" by (cases p)
  from Cons.prems(3) obtain m where n: "n = Suc m" by (cases n) simp_all
  have v: "reads v" using Cons.prems(1) p by simp
  have q: "skip (json_str k @ s) = json_str k @ s" for s
    by (subst (1 2) json_str_nonempty) (simp add: skip_def)
  have colon: "skip (CHR '':'' # s) = CHR '':'' # s" for s by (simp add: skip_def)
  show ?case
  proof (cases "d = []")
    case True
    have "length (json_compact v) \<le> m" using Cons.prems(3) True n p by simp
    with readsD [OF v, of "CHR ''}'' # r"] show ?thesis
      using json_str_read [of k "'':'' @ json_compact v @ CHR ''}'' # r"]
      by (simp add: True n p q colon stops_skip)
  next
    case False
    let ?t = "join '','' (map member_text d) @ CHR ''}'' # r"
    have l: "length (json_compact v) \<le> m" "length (join '','' (map member_text d)) < m"
      using Cons.prems(3) False n p by (simp_all add: join_Cons)
    have "json_members m ?t = Some (map (\<lambda>(k, v). (k, canon v)) d, r)" "skip ?t = ?t"
      using Cons.IH [OF _ False l(2)] Cons.prems(1) by auto
    with readsD [OF v, of "CHR '','' # ?t" m] l(1) False show ?thesis
      using json_str_read [of k "'':'' @ json_compact v @ CHR '','' # ?t"]
      by (simp add: join_Cons n p q colon stops_skip)
  qed
qed

lemma reads_atom:
  assumes "\<And>r. stops r \<Longrightarrow> json_atom (json_compact v @ r) = Some (canon v, r)"
    and "\<And>r. stops r \<Longrightarrow> skip (json_compact v @ r) = json_compact v @ r"
    and "take 1 (json_compact v) \<notin> {''['', ''{''}" and "json_compact v \<noteq> []"
  shows "reads v"
  unfolding reads_def
proof (intro conjI allI impI)
  fix n r
  assume r: "stops r" and n: "length (json_compact v) \<le> n"
  from assms(4) n obtain m where "n = Suc m" by (cases n) auto
  moreover have "take 1 (json_compact v @ r) \<notin> {''['', ''{''}"
    using assms(3,4) by (cases "json_compact v") auto
  ultimately show "json_value n (json_compact v @ r) = Some (canon v, r)"
    using assms(1) [OF r] by auto
  show "skip (json_compact v @ r) = json_compact v @ r" by (rule assms(2) [OF r])
qed (rule assms(4))

lemma json_compact_dict:
  "json_compact (PDict d) = ''{'' @ join '','' (map member_text (sort_key fst d)) @ ''}''"
  by (simp only: json_dump.simps sort_map_val map_map) (simp add: comp_def case_prod_beta')

lemma canon_dict: "canon (PDict d) = PDict (map (\<lambda>(k, v). (k, canon v)) (sort_key fst d))"
  by (simp add: sort_map_val)

lemma join_nonempty: "x \<noteq> [] \<Longrightarrow> join sep (x # xs) \<noteq> []"
  by (cases xs) simp_all

lemma json_compact_head: "take 1 (json_compact v) \<noteq> '']''"
proof (cases v)
  case (PInt i)
  show ?thesis
  proof -
    obtain c t where "nat_str (nat i) = c # t" "is_digit c" using nat_str_head by blast
    with digit_not_special [of c] PInt show ?thesis by (simp add: int_str_def)
  qed
qed (simp_all add: json_str_def)

lemma reads_list:
  assumes "\<forall>v \<in> set xs. reads v"
  shows "reads (PList xs)"
  unfolding reads_def
proof (intro conjI allI impI)
  fix n r
  assume r: "stops r" and n: "length (json_compact (PList xs)) \<le> n"
  then obtain m where m: "n = Suc m" by (cases n) simp_all
  show "json_value n (json_compact (PList xs) @ r) = Some (canon (PList xs), r)"
  proof (cases xs)
    case Nil
    then show ?thesis by (simp add: m skip_def)
  next
    case (Cons x ys)
    let ?t = "join '','' (map json_compact xs) @ CHR '']'' # r"
    have e: "json_elems m ?t = Some (map canon xs, r)" "skip ?t = ?t"
      using json_elems_read [OF assms, of m r] n m Cons by auto
    have x: "reads x" using assms Cons by simp
    have "take 1 (json_compact x) \<noteq> '']''"
      using json_compact_head [of x] by simp
    then have "take 1 ?t \<noteq> '']''"
      using x Cons by (cases "json_compact x") (auto simp: join_Cons reads_def)
    with e show ?thesis by (simp add: m del: join.simps)
  qed
  show "skip (json_compact (PList xs) @ r) = json_compact (PList xs) @ r" by (simp add: skip_def)
qed simp

lemma reads_dict:
  assumes "\<forall>(k, v) \<in> set d. reads v" and "dict_ok d"
  shows "reads (PDict d)"
  unfolding reads_def
proof (intro conjI allI impI)
  fix n r
  assume r: "stops r" and n: "length (json_compact (PDict d)) \<le> n"
  let ?d = "sort_key fst d"
  from n obtain m where m: "n = Suc m" by (cases n) simp_all
  have l: "length (join '','' (map member_text ?d)) < m"
    using n unfolding json_compact_dict m by simp
  have all: "\<forall>(k, v) \<in> set ?d. reads v" using assms(1) by simp
  have dist: "distinct (keys (map (\<lambda>(k, v). (k, canon v)) ?d))"
    using assms(2) by (simp add: dict_ok_def comp_def case_prod_beta' distinct_map)
  show "json_value n (json_compact (PDict d) @ r) = Some (canon (PDict d), r)"
  proof (cases "?d = []")
    case True
    then show ?thesis unfolding json_compact_dict canon_dict by (simp add: m skip_def)
  next
    case False
    let ?t = "join '','' (map member_text ?d) @ CHR ''}'' # r"
    have e: "json_members m ?t = Some (map (\<lambda>(k, v). (k, canon v)) ?d, r)" "skip ?t = ?t"
      using json_members_read [OF all False l] by auto
    have "take 1 ?t \<noteq> ''}''"
      using False by (cases ?d) (auto simp: join_Cons json_str_def)
    with e fold_update_append [of "[]", simplified, OF dist] show ?thesis
      unfolding json_compact_dict canon_dict by (simp add: m del: join.simps)
  qed
  show "skip (json_compact (PDict d) @ r) = json_compact (PDict d) @ r"
    unfolding json_compact_dict by (simp add: skip_def)
qed simp

text \<open>Every value without objects and repeated keys is read back.\<close>

lemma json_reads: "jsonable v \<Longrightarrow> keys_ok v \<Longrightarrow> reads v"
proof (induction v rule: canon.induct [case_names Lst Dct Non Boo Num Str Obj])
  case (Lst xs)
  then show ?case by (intro reads_list) (simp add: list_all_iff)
next
  case (Dct d)
  have "reads v" if "(k, v) \<in> set d" for k v
    by (rule Dct(1) [OF that]) (use Dct(2,3) that in \<open>auto simp: list_all_iff\<close>)
  then show ?case using Dct(2,3) by (intro reads_dict) auto
next
  case Non
  show ?case by (rule reads_atom) (simp_all add: json_atom_def skip_def)
next
  case (Boo b)
  show ?case by (rule reads_atom) (simp_all add: json_atom_def skip_def)
next
  case (Num i)
  show ?case
  proof (rule reads_atom)
    show "json_atom (json_compact (PInt i) @ r) = Some (canon (PInt i), r)" if "stops r" for r
      using json_int_read(1) [OF that] by simp
    show "skip (json_compact (PInt i) @ r) = json_compact (PInt i) @ r" if "stops r" for r
      using json_int_read(3) [OF that] by simp
    show "take 1 (json_compact (PInt i)) \<notin> {''['', ''{''}"
      using json_int_read(2) [of "[]" i] by simp
    show "json_compact (PInt i) \<noteq> []"
      using nat_str_head [of "nat i"] by (auto simp: int_str_def)
  qed
next
  case (Str s)
  show ?case
    by (rule reads_atom) (simp add: json_atom_def json_str_def json_string_body, simp_all add: json_str_def skip_def)
next
  case (Obj i c a)
  then show ?case by simp
qed

lemma json_round_trip:
  assumes "jsonable v" and "keys_ok v"
  shows "json_loads (json_compact v) = Some (canon v)"
proof -
  have "reads v" using assms by (rule json_reads)
  from readsD [OF this, of "[]" "Suc (length (json_compact v))"] show ?thesis
    by (simp add: json_loads_def skip_def)
qed

lemma sort_key_unique:
  assumes "dict_ok d" and "dict_ok d'" and "set d = set d'"
  shows "sort_key fst d = sort_key fst d'"
proof (rule map_sorted_distinct_set_unique)
  show "inj_on fst (set (sort_key fst d) \<union> set (sort_key fst d'))"
    using assms by (simp add: dict_ok_def distinct_map)
  show "distinct (keys (sort_key fst d))" "distinct (keys (sort_key fst d'))"
    using assms by (simp_all add: dict_ok_def distinct_map)
qed (simp_all add: assms(3))

lemma json_key_order:
  assumes "dict_ok d" and "dict_ok d'" and "set d = set d'"
  shows "json_compact (PDict d) = json_compact (PDict d')"
  unfolding json_compact_dict sort_key_unique [OF assms] ..

end
