(* ===== verification/Grant_Repository.thy ===== *)
theory Grant_Repository
  imports Json Security_Models
begin

text \<open>
  \<open>sidecar/repositories/execution_grant_repository.py\<close>: the durable plan grants and the
  single-use step grants. The two tables are dictionaries from their primary keys to rows, and
  the constraints of their schema (migration 8 of \<open>sidecar/repositories/database.py\<close>) that
  the operations can run into are modelled: primary keys, the uniqueness of
  \<open>(plan_grant_id, step_index)\<close>, and the check on the status. A transaction that raises is
  rolled back, so an operation that returns \<open>Inl\<close> leaves the database as it was. Time stamps are
  ISO strings and compare as strings, in Python and in SQL; \<open>now\<close> is the reading an operation
  starts with and \<open>ts\<close> the one its audit records take.
\<close>

section \<open>Tables\<close>

datatype grant_status =
  Pending | Approved | In_Progress | Consumed | Rejected | Expired | Cancelled | Failed | Superseded

fun status_text :: "grant_status \<Rightarrow> string" where
  "status_text Pending = ''pending''"
| "status_text Approved = ''approved''"
| "status_text In_Progress = ''in_progress''"
| "status_text Consumed = ''consumed''"
| "status_text Rejected = ''rejected''"
| "status_text Expired = ''expired''"
| "status_text Cancelled = ''cancelled''"
| "status_text Failed = ''failed''"
| "status_text Superseded = ''superseded_by_clarification''"

definition status_check :: "grant_status \<Rightarrow> bool" where
  \<comment> \<open>\<open>CHECK(status IN (...))\<close> of both tables\<close>
  "status_check s \<longleftrightarrow>
     s \<in> {Pending, Approved, In_Progress, Consumed, Rejected, Expired, Cancelled, Failed}"

record plan_row =
  pl_user_id :: string
  pl_session_id :: string
  pl_identity_hash :: string
  pl_plan_id :: string
  pl_plan_hash :: string
  pl_plan_payload :: string
  pl_risk_level :: string
  pl_simulation_evidence :: string
  pl_schema_version :: int
  pl_status :: grant_status
  pl_created_at :: string
  pl_approved_at :: "string option"
  pl_expires_at :: string
  pl_consumed_at :: "string option"
  pl_rejected_at :: "string option"

record step_row =
  st_plan_grant_id :: string
  st_plan_id :: string
  st_plan_hash :: string
  st_step_id :: string
  st_step_index :: int
  st_tool_id :: string
  st_params_hash :: string
  st_identity_hash :: string
  st_session_id :: string
  st_status :: grant_status
  st_created_at :: string
  st_expires_at :: string
  st_consumed_at :: "string option"

record audit_row =
  au_grant_id :: string
  au_kind :: string
  au_event :: string
  au_occurred_at :: string
  au_user_id :: string
  au_session_id :: string
  au_identity_hash :: string
  au_plan_id :: string
  au_step_id :: string
  au_tool_id :: string
  au_reason :: string
  au_metadata :: string

record grant_db =
  db_plans :: "(string \<times> plan_row) list"
  db_steps :: "(string \<times> step_row) list"
  db_audit :: "audit_row list"

definition audit_str :: "params \<Rightarrow> string \<Rightarrow> string" where
  "audit_str details k = py_str (dict_get details k (PStr []))"

definition audit :: "string \<Rightarrow> string \<Rightarrow> string \<Rightarrow> params \<Rightarrow> string \<Rightarrow> grant_db \<Rightarrow> grant_db" where
  \<comment> \<open>\<open>_audit\<close>\<close>
  "audit grant_id kind event details ts db =
     db\<lparr>db_audit := db_audit db @
       [\<lparr>au_grant_id = grant_id, au_kind = kind, au_event = event, au_occurred_at = ts,
         au_user_id = audit_str details ''user_id'', au_session_id = audit_str details ''session_id'',
         au_identity_hash = audit_str details ''identity_hash'', au_plan_id = audit_str details ''plan_id'',
         au_step_id = audit_str details ''step_id'', au_tool_id = audit_str details ''tool_id'',
         au_reason = audit_str details ''reason'',
         au_metadata = json_dump '', '' '': '' (dict_get details ''metadata'' (PDict []))\<rparr>]\<rparr>"


section \<open>Plan grants\<close>

text \<open>The dictionary that \<open>create_plan\<close> takes, its string fields empty where they are missing.\<close>

record plan_grant =
  pg_grant_id :: string
  pg_user_id :: string
  pg_session_id :: string
  pg_identity_hash :: string
  pg_plan_id :: string
  pg_plan_hash :: string
  pg_plan_payload :: string
  pg_risk_level :: string
  pg_expires_at :: string
  pg_simulation_evidence :: pyval
  pg_schema_version :: int

definition plan_grant_details :: "plan_grant \<Rightarrow> params" where
  "plan_grant_details g =
     [(''grant_id'', PStr (pg_grant_id g)), (''user_id'', PStr (pg_user_id g)),
      (''session_id'', PStr (pg_session_id g)), (''identity_hash'', PStr (pg_identity_hash g)),
      (''plan_id'', PStr (pg_plan_id g))]"

definition create_plan :: "grant_db \<Rightarrow> plan_grant \<Rightarrow> string \<Rightarrow> string \<Rightarrow> grant_db result" where
  "create_plan db g now ts =
     (if list_ex (\<lambda>s. s = [])
          [pg_grant_id g, pg_user_id g, pg_session_id g, pg_identity_hash g, pg_plan_id g,
           pg_plan_hash g, pg_plan_payload g, pg_risk_level g, pg_expires_at g]
      then Inl (ValueError ''incomplete plan grant'')
      else if pg_grant_id g \<in> set (keys (db_plans db))
      then Inl (IntegrityError ''UNIQUE constraint failed: plan_approval_grants.grant_id'')
      else
        Inr (audit (pg_grant_id g) ''plan'' ''created'' (plan_grant_details g) ts
          (db\<lparr>db_plans := AList.update (pg_grant_id g)
             \<lparr>pl_user_id = pg_user_id g, pl_session_id = pg_session_id g,
              pl_identity_hash = pg_identity_hash g, pl_plan_id = pg_plan_id g,
              pl_plan_hash = pg_plan_hash g, pl_plan_payload = pg_plan_payload g,
              pl_risk_level = pg_risk_level g,
              pl_simulation_evidence = json_dump '', '' '': '' (pg_simulation_evidence g),
              pl_schema_version = pg_schema_version g, pl_status = Pending, pl_created_at = now,
              pl_approved_at = None, pl_expires_at = pg_expires_at g, pl_consumed_at = None,
              pl_rejected_at = None\<rparr> (db_plans db)\<rparr>)))"

definition plan_transitions :: "(grant_status \<times> grant_status) list" where
  "plan_transitions =
     [(Pending, Approved), (Approved, In_Progress), (In_Progress, Consumed), (Pending, Rejected),
      (Pending, Cancelled), (Approved, Cancelled), (In_Progress, Failed)]"

definition live_plan :: "grant_status \<Rightarrow> bool" where
  "live_plan s \<longleftrightarrow> s \<in> {Pending, Approved, In_Progress}"

definition stamp_plan :: "grant_status \<Rightarrow> string \<Rightarrow> plan_row \<Rightarrow> plan_row" where
  \<comment> \<open>the column that records when the target status was reached\<close>
  "stamp_plan target now row =
     (case target of
        Approved \<Rightarrow> row\<lparr>pl_approved_at := Some now\<rparr>
      | Consumed \<Rightarrow> row\<lparr>pl_consumed_at := Some now\<rparr>
      | Rejected \<Rightarrow> row\<lparr>pl_rejected_at := Some now\<rparr>
      | _ \<Rightarrow> row)"

definition transition_plan :: "grant_db \<Rightarrow> string \<Rightarrow> grant_status \<Rightarrow> grant_status \<Rightarrow> params
    \<Rightarrow> string \<Rightarrow> string \<Rightarrow> grant_db \<times> bool" where
  "transition_plan db gid expected target actor now ts =
     (if (expected, target) \<notin> set plan_transitions then (db, False)
      else
        (case map_of (db_plans db) gid of
           None \<Rightarrow> (db, False)
         | Some row \<Rightarrow>
             if pl_expires_at row \<le> now \<and> live_plan (pl_status row) then
               (audit gid ''plan'' ''expired'' actor ts
                  (db\<lparr>db_plans := AList.update gid (row\<lparr>pl_status := Expired\<rparr>) (db_plans db)\<rparr>), False)
             else if pl_status row = expected \<and> now < pl_expires_at row then
               (audit gid ''plan'' (status_text target) actor ts
                  (db\<lparr>db_plans := AList.update gid (stamp_plan target now (row\<lparr>pl_status := target\<rparr>))
                     (db_plans db)\<rparr>), True)
             else
               (audit gid ''plan'' ''transition_rejected'' actor ts db, False)))"

definition get_plan :: "grant_db \<Rightarrow> string \<Rightarrow> plan_row option" where
  "get_plan db gid = map_of (db_plans db) gid"


section \<open>Step grants\<close>

record step_grant =
  sg_step_grant_id :: string
  sg_plan_grant_id :: string
  sg_plan_id :: string
  sg_plan_hash :: string
  sg_step_id :: string
  sg_step_index :: "int option"
  sg_tool_id :: string
  sg_params_hash :: string
  sg_identity_hash :: string
  sg_session_id :: string
  sg_expires_at :: string

definition step_grant_details :: "step_grant \<Rightarrow> params" where
  "step_grant_details g =
     [(''session_id'', PStr (sg_session_id g)), (''identity_hash'', PStr (sg_identity_hash g)),
      (''plan_id'', PStr (sg_plan_id g)), (''step_id'', PStr (sg_step_id g)),
      (''tool_id'', PStr (sg_tool_id g))]"

definition step_grant_complete :: "step_grant \<Rightarrow> bool" where
  "step_grant_complete g \<longleftrightarrow>
     list_all (\<lambda>s. s \<noteq> [])
       [sg_step_grant_id g, sg_plan_grant_id g, sg_plan_id g, sg_plan_hash g, sg_step_id g,
        sg_tool_id g, sg_params_hash g, sg_identity_hash g, sg_session_id g, sg_expires_at g]
     \<and> sg_step_index g \<noteq> None"

definition step_slot_taken :: "grant_db \<Rightarrow> string \<Rightarrow> int \<Rightarrow> bool" where
  "step_slot_taken db pgid index \<longleftrightarrow>
     list_ex (\<lambda>(i, row). st_plan_grant_id row = pgid \<and> st_step_index row = index) (db_steps db)"

definition create_step :: "grant_db \<Rightarrow> step_grant \<Rightarrow> string \<Rightarrow> string \<Rightarrow> (grant_db \<times> bool) result" where
  "create_step db g now ts =
     (if \<not> step_grant_complete g then Inl (ValueError ''incomplete step grant'')
      else
        (case map_of (db_plans db) (sg_plan_grant_id g) of
           None \<Rightarrow> Inr (db, False)
         | Some parent \<Rightarrow>
             if pl_status parent \<notin> {Approved, In_Progress} then Inr (db, False)
             else if pl_plan_id parent \<noteq> sg_plan_id g \<or> pl_plan_hash parent \<noteq> sg_plan_hash g
                  \<or> pl_identity_hash parent \<noteq> sg_identity_hash g
                  \<or> pl_session_id parent \<noteq> sg_session_id g then Inr (db, False)
             else if sg_step_grant_id g \<in> set (keys (db_steps db))
                  \<or> step_slot_taken db (sg_plan_grant_id g) (the (sg_step_index g))
             then Inl (IntegrityError ''UNIQUE constraint failed: step_execution_grants'')
             else
               Inr (audit (sg_step_grant_id g) ''step'' ''created'' (step_grant_details g) ts
                 (db\<lparr>db_steps := AList.update (sg_step_grant_id g)
                    \<lparr>st_plan_grant_id = sg_plan_grant_id g, st_plan_id = sg_plan_id g,
                     st_plan_hash = sg_plan_hash g, st_step_id = sg_step_id g,
                     st_step_index = the (sg_step_index g), st_tool_id = sg_tool_id g,
                     st_params_hash = sg_params_hash g, st_identity_hash = sg_identity_hash g,
                     st_session_id = sg_session_id g, st_status = Approved, st_created_at = now,
                     st_expires_at = sg_expires_at g, st_consumed_at = None\<rparr> (db_steps db)\<rparr>), True)))"

record step_binding =
  sb_plan_grant_id :: string
  sb_plan_id :: string
  sb_plan_hash :: string
  sb_step_id :: string
  sb_step_index :: "int option"
  sb_tool_id :: string
  sb_params_hash :: string
  sb_identity_hash :: string
  sb_session_id :: string

definition binding_complete :: "step_binding \<Rightarrow> bool" where
  "binding_complete b \<longleftrightarrow>
     list_all (\<lambda>s. s \<noteq> [])
       [sb_plan_grant_id b, sb_plan_id b, sb_plan_hash b, sb_step_id b, sb_tool_id b,
        sb_params_hash b, sb_identity_hash b, sb_session_id b]
     \<and> sb_step_index b \<noteq> None"

definition binding_details :: "step_binding \<Rightarrow> params" where
  "binding_details b =
     [(''session_id'', PStr (sb_session_id b)), (''identity_hash'', PStr (sb_identity_hash b)),
      (''plan_id'', PStr (sb_plan_id b)), (''step_id'', PStr (sb_step_id b)),
      (''tool_id'', PStr (sb_tool_id b))]"

definition binding_matches :: "step_binding \<Rightarrow> step_row \<Rightarrow> bool" where
  "binding_matches b row \<longleftrightarrow>
     st_plan_grant_id row = sb_plan_grant_id b \<and> st_plan_id row = sb_plan_id b
     \<and> st_plan_hash row = sb_plan_hash b \<and> st_step_id row = sb_step_id b
     \<and> Some (st_step_index row) = sb_step_index b \<and> st_tool_id row = sb_tool_id b
     \<and> st_params_hash row = sb_params_hash b \<and> st_identity_hash row = sb_identity_hash b
     \<and> st_session_id row = sb_session_id b"

definition consume_step :: "grant_db \<Rightarrow> string \<Rightarrow> step_binding \<Rightarrow> string \<Rightarrow> string \<Rightarrow> grant_db \<times> bool" where
  "consume_step db sid b now ts =
     (if \<not> binding_complete b then (db, False)
      else
        (case map_of (db_steps db) sid of
           Some row \<Rightarrow>
             if st_status row = Approved \<and> now < st_expires_at row \<and> binding_matches b row then
               (audit sid ''step'' ''consumed'' (binding_details b) ts
                  (db\<lparr>db_steps := AList.update sid
                     (row\<lparr>st_status := Consumed, st_consumed_at := Some now\<rparr>) (db_steps db)\<rparr>), True)
             else (audit sid ''step'' ''replay_or_mismatch'' (binding_details b) ts db, False)
         | None \<Rightarrow> (audit sid ''step'' ''replay_or_mismatch'' (binding_details b) ts db, False)))"

definition get_step :: "grant_db \<Rightarrow> string \<Rightarrow> step_row option" where
  "get_step db sid = map_of (db_steps db) sid"


section \<open>Invalidation\<close>

definition invalidation_targets :: "grant_db \<Rightarrow> string \<Rightarrow> string \<Rightarrow> (string \<times> plan_row) list" where
  "invalidation_targets db plan_id session_id =
     filter (\<lambda>(gid, row). pl_plan_id row = plan_id \<and> pl_session_id row = session_id
       \<and> live_plan (pl_status row)) (db_plans db)"

fun supersede_all :: "(string \<times> plan_row) list \<Rightarrow> string \<Rightarrow> params \<Rightarrow> params \<Rightarrow> string \<Rightarrow> string
    \<Rightarrow> grant_db \<Rightarrow> nat \<Rightarrow> (grant_db \<times> nat) result" where
  \<comment> \<open>the loop over the selected rows; an update to a status outside the check raises\<close>
  "supersede_all [] reason context actor now ts db updated = Inr (db, updated)"
| "supersede_all ((gid, row) # rows) reason context actor now ts db updated =
     (if \<not> status_check Superseded
      then Inl (IntegrityError ''CHECK constraint failed: plan_approval_grants'')
      else
        (let details = fold (\<lambda>(k, v). AList.update k v)
               ([(''reason'', PStr reason), (''prior_status'', PStr (status_text (pl_status row))),
                 (''plan_id'', PStr (pl_plan_id row)), (''plan_hash'', PStr (pl_plan_hash row))]
                @ context @ [(''replaced_grant_id'', PStr gid)]) actor;
             db' = audit gid ''plan'' ''superseded_by_clarification'' details ts
               (db\<lparr>db_plans := AList.update gid
                  (row\<lparr>pl_status := Superseded, pl_consumed_at := Some now\<rparr>) (db_plans db)\<rparr>)
         in supersede_all rows reason context actor now ts db' (Suc updated)))"

definition invalidate_by_plan_id :: "grant_db \<Rightarrow> string \<Rightarrow> string \<Rightarrow> string \<Rightarrow> params \<Rightarrow> params
    \<Rightarrow> string \<Rightarrow> string \<Rightarrow> (grant_db \<times> nat) result" where
  "invalidate_by_plan_id db plan_id session_id reason context actor now ts =
     (if plan_id = [] \<or> session_id = [] then Inr (db, 0)
      else supersede_all (invalidation_targets db plan_id session_id) reason context actor now ts db 0)"

definition get_invalidated :: "grant_db \<Rightarrow> string \<Rightarrow> plan_row option" where
  "get_invalidated db gid =
     (case map_of (db_plans db) gid of
        Some row \<Rightarrow> if pl_status row = Superseded then Some row else None
      | None \<Rightarrow> None)"



section \<open>Runs\<close>

datatype grant_op =
    Create_Plan plan_grant string string
  | Transition_Plan string grant_status grant_status params string string
  | Create_Step step_grant string string
  | Consume_Step string step_binding string string
  | Invalidate string string string params params string string

fun grant_step :: "grant_db \<Rightarrow> grant_op \<Rightarrow> grant_db" where
  "grant_step db (Create_Plan g now ts) = (case create_plan db g now ts of Inr db' \<Rightarrow> db' | Inl e \<Rightarrow> db)"
| "grant_step db (Transition_Plan gid a b actor now ts) = fst (transition_plan db gid a b actor now ts)"
| "grant_step db (Create_Step g now ts) =
     (case create_step db g now ts of Inr (db', ok) \<Rightarrow> db' | Inl e \<Rightarrow> db)"
| "grant_step db (Consume_Step sid b now ts) = fst (consume_step db sid b now ts)"
| "grant_step db (Invalidate pid sid reason ctx actor now ts) =
     (case invalidate_by_plan_id db pid sid reason ctx actor now ts of Inr (db', n) \<Rightarrow> db' | Inl e \<Rightarrow> db)"

fun grant_run :: "grant_db \<Rightarrow> grant_op list \<Rightarrow> grant_db" where
  "grant_run db [] = db"
| "grant_run db (op # ops) = grant_run (grant_step db op) ops"

definition empty_db :: grant_db where
  "empty_db = \<lparr>db_plans = [], db_steps = [], db_audit = []\<rparr>"

lemma audit_simps [simp]:
  "db_plans (audit g k e d t db) = db_plans db" "db_steps (audit g k e d t db) = db_steps db"
  by (simp_all add: audit_def)

lemma no_supersede: "\<not> status_check Superseded"
  by (simp add: status_check_def)

lemma supersede_all_eq:
  "supersede_all rows reason ctx actor now ts db n =
     (if rows = [] then Inr (db, n)
      else Inl (IntegrityError ''CHECK constraint failed: plan_approval_grants''))"
  by (cases rows) (auto simp: no_supersede)

lemma invalidate_same: "grant_step db (Invalidate pid sid reason ctx actor now ts) = db"
  by (simp add: invalidate_by_plan_id_def supersede_all_eq)

text \<open>What one operation does to one row of each table.\<close>

definition plan_edge :: "grant_status \<Rightarrow> grant_status \<Rightarrow> bool" where
  "plan_edge a b \<longleftrightarrow> (a, b) \<in> set plan_transitions \<or> live_plan a \<and> b = Expired"

definition same_binding :: "plan_row \<Rightarrow> plan_row \<Rightarrow> bool" where
  "same_binding r r' \<longleftrightarrow>
     pl_user_id r' = pl_user_id r \<and> pl_session_id r' = pl_session_id r
     \<and> pl_identity_hash r' = pl_identity_hash r \<and> pl_plan_id r' = pl_plan_id r
     \<and> pl_plan_hash r' = pl_plan_hash r \<and> pl_plan_payload r' = pl_plan_payload r
     \<and> pl_risk_level r' = pl_risk_level r \<and> pl_expires_at r' = pl_expires_at r"

lemma same_binding_refl [simp]: "same_binding r r"
  by (simp add: same_binding_def)

lemma stamp_plan_simps [simp]:
  "same_binding r (stamp_plan t now (r\<lparr>pl_status := st\<rparr>))" "pl_status (stamp_plan t now r) = pl_status r"
  "same_binding r (r\<lparr>pl_status := st\<rparr>)"
  by (cases t; simp add: stamp_plan_def same_binding_def)+

lemma create_plan_rows:
  "map_of (db_plans (grant_step db (Create_Plan g now ts))) gid = Some row' \<Longrightarrow>
     map_of (db_plans db) gid = Some row'
     \<or> gid \<notin> set (keys (db_plans db)) \<and> pl_status row' = Pending"
  by (auto simp: create_plan_def split: if_splits)

lemma create_plan_keeps:
  "map_of (db_plans db) gid = Some row \<Longrightarrow>
     map_of (db_plans (grant_step db (Create_Plan g now ts))) gid = Some row"
proof -
  assume row: "map_of (db_plans db) gid = Some row"
  then have "gid \<in> set (keys (db_plans db))" by (force dest: map_of_SomeD)
  with row show ?thesis
    by (cases "gid = pg_grant_id g") (simp_all add: create_plan_def split: if_split)
qed

lemma plan_row_step:
  assumes "map_of (db_plans db) gid = Some row"
  shows "\<exists>row'. map_of (db_plans (grant_step db op)) gid = Some row' \<and> same_binding row row'
    \<and> (pl_status row' = pl_status row \<or> plan_edge (pl_status row) (pl_status row'))"
proof (cases op)
  case (Create_Plan g now ts)
  show ?thesis unfolding Create_Plan using create_plan_keeps [OF assms, of g now ts] by simp
next
  case (Transition_Plan g a b actor now ts)
  show ?thesis
    using assms unfolding Transition_Plan grant_step.simps transition_plan_def
    by (auto simp: plan_edge_def split: option.split)
next
  case (Create_Step g now ts)
  show ?thesis using assms unfolding Create_Step grant_step.simps create_step_def
    by (auto split: option.split)
next
  case (Consume_Step sid b now ts)
  show ?thesis using assms unfolding Consume_Step grant_step.simps consume_step_def
    by (auto split: option.split)
next
  case (Invalidate pid sid reason ctx actor now ts)
  show ?thesis using assms unfolding Invalidate invalidate_same by simp
qed

lemma plan_edge_live: "plan_edge a b \<Longrightarrow> live_plan a"
  by (auto simp: plan_edge_def plan_transitions_def live_plan_def)

lemma plan_grants_keep:
  assumes "map_of (db_plans db) gid = Some row"
  shows "\<exists>row'. map_of (db_plans (grant_run db ops)) gid = Some row' \<and> same_binding row row'
    \<and> (live_plan (pl_status row) \<or> pl_status row' = pl_status row)"
  using assms
proof (induction ops arbitrary: db row)
  case Nil
  then show ?case by simp
next
  case (Cons op ops)
  from plan_row_step [OF Cons.prems, of op] obtain r where
    r: "map_of (db_plans (grant_step db op)) gid = Some r" "same_binding row r"
      "pl_status r = pl_status row \<or> plan_edge (pl_status row) (pl_status r)" by blast
  from Cons.IH [OF r(1)] obtain r' where
    r': "map_of (db_plans (grant_run (grant_step db op) ops)) gid = Some r'" "same_binding r r'"
      "live_plan (pl_status r) \<or> pl_status r' = pl_status r" by blast
  from r(2) r'(2) have "same_binding row r'" by (simp add: same_binding_def)
  with r r' show ?case using plan_edge_live by fastforce
qed


text \<open>A sample life of a plan grant with one step.\<close>

definition sample_plan :: plan_grant where
  "sample_plan = \<lparr>pg_grant_id = ''g'', pg_user_id = ''u'', pg_session_id = ''s'', pg_identity_hash = ''i'',
     pg_plan_id = ''p'', pg_plan_hash = ''h'', pg_plan_payload = ''{}'', pg_risk_level = ''high'',
     pg_expires_at = ''2030'', pg_simulation_evidence = PDict [], pg_schema_version = 1\<rparr>"

definition sample_step :: step_grant where
  "sample_step = \<lparr>sg_step_grant_id = ''sg'', sg_plan_grant_id = ''g'', sg_plan_id = ''p'', sg_plan_hash = ''h'',
     sg_step_id = ''s0'', sg_step_index = Some 0, sg_tool_id = ''t'', sg_params_hash = ''ph'',
     sg_identity_hash = ''i'', sg_session_id = ''s'', sg_expires_at = ''2030''\<rparr>"

definition sample_binding :: step_binding where
  "sample_binding = \<lparr>sb_plan_grant_id = ''g'', sb_plan_id = ''p'', sb_plan_hash = ''h'', sb_step_id = ''s0'',
     sb_step_index = Some 0, sb_tool_id = ''t'', sb_params_hash = ''ph'', sb_identity_hash = ''i'',
     sb_session_id = ''s''\<rparr>"

definition sample_ops :: "grant_op list" where
  "sample_ops =
     [Create_Plan sample_plan ''2025'' ''2025'',
      Transition_Plan ''g'' Pending Approved [] ''2025'' ''2025'',
      Transition_Plan ''g'' Approved In_Progress [] ''2025'' ''2025'',
      Create_Step sample_step ''2025'' ''2025'']"

lemma sample_consumes: "snd (consume_step (grant_run empty_db sample_ops) ''sg'' sample_binding ''2026'' ''2026'')"
  by code_simp

lemma sample_plan_row:
  "map_of (db_plans (grant_run empty_db [Create_Plan sample_plan ''2025'' ''2025''])) ''g'' =
     Some \<lparr>pl_user_id = ''u'', pl_session_id = ''s'', pl_identity_hash = ''i'', pl_plan_id = ''p'',
       pl_plan_hash = ''h'', pl_plan_payload = ''{}'', pl_risk_level = ''high'',
       pl_simulation_evidence = ''{}'', pl_schema_version = 1, pl_status = Pending,
       pl_created_at = ''2025'', pl_approved_at = None, pl_expires_at = ''2030'',
       pl_consumed_at = None, pl_rejected_at = None\<rparr>"
  by code_simp

text \<open>A plan grant is never deleted and what it was approved for (user, session, identity, plan,
  plan hash, payload, risk and expiry) never changes, whatever operations follow; and once it is
  consumed, rejected, expired, cancelled or failed, it stays so.\<close>

theorem plan_grants_durable:
  assumes "map_of (db_plans db) gid = Some row"
  shows "\<exists>row'. map_of (db_plans (grant_run db ops)) gid = Some row' \<and> same_binding row row'
    \<and> (live_plan (pl_status row) \<or> pl_status row' = pl_status row)"
  by (rule plan_grants_keep [OF assms])

theorem plan_grants_durable_witness:
  "\<exists>row'. map_of (db_plans (grant_run (grant_run empty_db [Create_Plan sample_plan ''2025'' ''2025''])
        (tl sample_ops))) ''g'' = Some row'
    \<and> pl_plan_payload row' = ''{}''"
  using plan_grants_durable [OF sample_plan_row, of "tl sample_ops"] by (auto simp: same_binding_def)


section \<open>Single use\<close>

fun consumed_by :: "grant_db \<Rightarrow> grant_op \<Rightarrow> string option" where
  "consumed_by db (Consume_Step sid b now ts) = (if snd (consume_step db sid b now ts) then Some sid else None)"
| "consumed_by db op = None"

definition unconsumed :: "grant_db \<Rightarrow> string \<Rightarrow> bool" where
  "unconsumed db sid \<longleftrightarrow> (case map_of (db_steps db) sid of None \<Rightarrow> True | Some row \<Rightarrow> st_status row = Approved)"

lemma create_step_keeps:
  "map_of (db_steps db) sid = Some row \<Longrightarrow>
     map_of (db_steps (grant_step db (Create_Step g now ts))) sid = Some row"
proof -
  assume row: "map_of (db_steps db) sid = Some row"
  then have "sid \<in> set (keys (db_steps db))" by (force dest: map_of_SomeD)
  with row show ?thesis
    by (cases "sid = sg_step_grant_id g")
      (simp_all add: create_step_def split: if_split option.split)
qed

lemma step_row_step:
  assumes "map_of (db_steps db) sid = Some row"
  shows "\<exists>row'. map_of (db_steps (grant_step db op)) sid = Some row'
    \<and> (row' = row \<or> st_status row = Approved \<and> st_status row' = Consumed)"
proof (cases op)
  case (Create_Plan g now ts)
  show ?thesis using assms unfolding Create_Plan grant_step.simps create_plan_def by auto
next
  case (Transition_Plan g a b actor now ts)
  show ?thesis using assms unfolding Transition_Plan grant_step.simps transition_plan_def
    by (auto split: option.split)
next
  case (Create_Step g now ts)
  show ?thesis unfolding Create_Step using create_step_keeps [OF assms, of g now ts] by blast
next
  case (Consume_Step s b now ts)
  show ?thesis using assms unfolding Consume_Step grant_step.simps consume_step_def
    by (auto split: option.split)
next
  case (Invalidate pid s reason ctx actor now ts)
  show ?thesis using assms unfolding Invalidate invalidate_same by simp
qed

interpretation step_grants: single_use grant_step consumed_by "\<lambda>db op sid. False" unconsumed
proof
  show "unconsumed db sid" if "consumed_by db op = Some sid" for db op sid
    using that by (cases op) (auto simp: consume_step_def unconsumed_def split: option.splits if_splits)
  show "\<not> unconsumed (grant_step db op) sid" if "consumed_by db op = Some sid" for db op sid
    using that by (cases op) (auto simp: consume_step_def unconsumed_def split: option.splits if_splits)
  show "unconsumed db sid \<or> False" if "unconsumed (grant_step db op) sid" for db op sid
    using that step_row_step [of db sid _ op]
    by (fastforce simp: unconsumed_def split: option.splits)
qed

fun consumed_steps :: "grant_db \<Rightarrow> grant_op list \<Rightarrow> string list" where
  "consumed_steps db [] = []"
| "consumed_steps db (op # ops) =
     (case consumed_by db op of None \<Rightarrow> [] | Some i \<Rightarrow> [i]) @ consumed_steps (grant_step db op) ops"

lemma consumed_steps_eq: "step_grants.spent db ops = consumed_steps db ops"
  by (induction ops arbitrary: db) auto

lemma never_reissued: "\<not> step_grants.reissued db ops i"
  by (induction ops arbitrary: db) auto

text \<open>C10: a step grant is consumed at most once, in any sequence of operations from any database state,
  whatever other grants, transitions and replays come in between.\<close>

theorem step_consumed_at_most_once: "count_list (consumed_steps db ops) sid \<le> 1"
  using step_grants.spent_at_most_once [OF never_reissued] by (simp add: consumed_steps_eq)


section \<open>Authority\<close>

definition approved_once :: "plan_row \<Rightarrow> bool" where
  "approved_once p \<longleftrightarrow> pl_approved_at p \<noteq> None"

definition db_ok :: "grant_db \<Rightarrow> bool" where
  \<comment> \<open>step grants belong to a plan that was approved and share its binding\<close>
  "db_ok db \<longleftrightarrow>
     (\<forall>gid p. map_of (db_plans db) gid = Some p \<longrightarrow> pl_status p \<in> {Approved, In_Progress} \<longrightarrow> approved_once p)
     \<and> (\<forall>sid r. map_of (db_steps db) sid = Some r \<longrightarrow>
          (\<exists>p. map_of (db_plans db) (st_plan_grant_id r) = Some p \<and> approved_once p
             \<and> st_plan_id r = pl_plan_id p \<and> st_plan_hash r = pl_plan_hash p
             \<and> st_identity_hash r = pl_identity_hash p \<and> st_session_id r = pl_session_id p))"

lemma db_ok_plan: "db_ok db \<Longrightarrow> map_of (db_plans db) gid = Some p \<Longrightarrow>
    pl_status p \<in> {Approved, In_Progress} \<Longrightarrow> approved_once p"
  unfolding db_ok_def by blast

lemma db_ok_step:
  assumes "db_ok db" and "map_of (db_steps db) sid = Some r"
  obtains p where "map_of (db_plans db) (st_plan_grant_id r) = Some p" "approved_once p"
    "st_plan_id r = pl_plan_id p" "st_plan_hash r = pl_plan_hash p"
    "st_identity_hash r = pl_identity_hash p" "st_session_id r = pl_session_id p"
  using assms unfolding db_ok_def by blast

lemma stamp_plan_approved [simp]:
  "approved_once (stamp_plan t now r) \<longleftrightarrow> t = Approved \<or> approved_once r"
  "approved_once (r\<lparr>pl_status := st\<rparr>) = approved_once r"
  by (cases t; simp add: stamp_plan_def approved_once_def)+

text \<open>Both tables grow and change row by row: a plan row keeps its approval, a row in an approved state
  comes from an approved row or the approval itself.\<close>

lemma plan_row_approved:
  assumes "map_of (db_plans db) gid = Some p" and "approved_once p"
    and "map_of (db_plans (grant_step db op)) gid = Some p'"
  shows "approved_once p'"
proof (cases op)
  case (Create_Plan g now ts)
  show ?thesis using create_plan_keeps [OF assms(1), of g now ts] assms(2,3) Create_Plan by simp
next
  case (Transition_Plan g a b actor now ts)
  show ?thesis using assms unfolding Transition_Plan grant_step.simps transition_plan_def
    by (auto split: if_splits option.splits)
next
  case (Create_Step g now ts)
  show ?thesis using assms unfolding Create_Step grant_step.simps create_step_def
    by (auto split: if_splits option.splits)
next
  case (Consume_Step sid b now ts)
  show ?thesis using assms unfolding Consume_Step grant_step.simps consume_step_def
    by (auto split: if_splits option.splits)
next
  case (Invalidate pid sid reason ctx actor now ts)
  show ?thesis using assms unfolding Invalidate invalidate_same by simp
qed

lemma plan_approval_step:
  assumes "db_ok db" and "map_of (db_plans (grant_step db op)) gid = Some p'"
    and "pl_status p' \<in> {Approved, In_Progress}"
  shows "approved_once p'"
proof (cases op)
  case (Create_Plan g now ts)
  show ?thesis
    using create_plan_rows [OF assms(2) [unfolded Create_Plan]] assms(3) db_ok_plan [OF assms(1)] by auto
next
  case (Transition_Plan g a b actor now ts)
  have "pl_status row \<in> {Approved, In_Progress}"
    if "(pl_status row, b) \<in> set plan_transitions" "b = In_Progress" for row :: plan_row
    using that by (auto simp: plan_transitions_def)
  then show ?thesis
    using assms db_ok_plan [OF assms(1)] unfolding Transition_Plan grant_step.simps transition_plan_def
    by (auto split: if_splits option.splits)
next
  case (Create_Step g now ts)
  show ?thesis using assms(2,3) db_ok_plan [OF assms(1)]
    unfolding Create_Step grant_step.simps create_step_def
    by (auto split: if_splits option.splits)
next
  case (Consume_Step sid b now ts)
  show ?thesis using assms(2,3) db_ok_plan [OF assms(1)]
    unfolding Consume_Step grant_step.simps consume_step_def
    by (auto split: if_splits option.splits)
next
  case (Invalidate pid sid reason ctx actor now ts)
  show ?thesis using assms(2,3) db_ok_plan [OF assms(1)] unfolding Invalidate invalidate_same by simp
qed

lemma step_row_origin:
  assumes "map_of (db_steps (grant_step db op)) sid = Some r"
  shows "(\<exists>r0. map_of (db_steps db) sid = Some r0 \<and> st_plan_grant_id r0 = st_plan_grant_id r
      \<and> st_plan_id r0 = st_plan_id r \<and> st_plan_hash r0 = st_plan_hash r
      \<and> st_identity_hash r0 = st_identity_hash r \<and> st_session_id r0 = st_session_id r)
    \<or> (\<exists>p. map_of (db_plans db) (st_plan_grant_id r) = Some p \<and> pl_status p \<in> {Approved, In_Progress}
      \<and> st_plan_id r = pl_plan_id p \<and> st_plan_hash r = pl_plan_hash p
      \<and> st_identity_hash r = pl_identity_hash p \<and> st_session_id r = pl_session_id p)"
proof (cases op)
  case (Create_Plan g now ts)
  show ?thesis using assms unfolding Create_Plan grant_step.simps create_plan_def
    by (auto split: if_splits)
next
  case (Transition_Plan g a b actor now ts)
  show ?thesis using assms unfolding Transition_Plan grant_step.simps transition_plan_def
    by (auto split: if_splits option.splits)
next
  case (Create_Step g now ts)
  show ?thesis using assms unfolding Create_Step grant_step.simps create_step_def
    by (auto split: if_splits option.splits)
next
  case (Consume_Step s b now ts)
  show ?thesis using assms unfolding Consume_Step grant_step.simps consume_step_def
    by (auto split: if_splits option.splits)
next
  case (Invalidate pid s reason ctx actor now ts)
  show ?thesis using assms unfolding Invalidate invalidate_same by blast
qed

lemma db_ok_grant_step: "db_ok db \<Longrightarrow> db_ok (grant_step db op)"
  unfolding db_ok_def [of "grant_step db op"]
proof (intro conjI allI impI)
  fix gid p
  assume db: "db_ok db"
  show "approved_once p" if "map_of (db_plans (grant_step db op)) gid = Some p"
    "pl_status p \<in> {Approved, In_Progress}"
    by (rule plan_approval_step [OF db that])
next
  fix sid r
  assume db: "db_ok db" and r: "map_of (db_steps (grant_step db op)) sid = Some r"
  from step_row_origin [OF r] obtain p where
    p: "map_of (db_plans db) (st_plan_grant_id r) = Some p" "approved_once p"
      "st_plan_id r = pl_plan_id p" "st_plan_hash r = pl_plan_hash p"
      "st_identity_hash r = pl_identity_hash p" "st_session_id r = pl_session_id p"
  proof (elim disjE exE conjE)
    fix r0
    assume "map_of (db_steps db) sid = Some r0" "st_plan_grant_id r0 = st_plan_grant_id r"
      "st_plan_id r0 = st_plan_id r" "st_plan_hash r0 = st_plan_hash r"
      "st_identity_hash r0 = st_identity_hash r" "st_session_id r0 = st_session_id r"
    then show thesis by (elim db_ok_step [OF db]) (auto intro: that)
  qed (auto intro: that db_ok_plan [OF db])
  from plan_row_step [OF p(1), of op] obtain p' where
    p': "map_of (db_plans (grant_step db op)) (st_plan_grant_id r) = Some p'" "same_binding p p'" by blast
  from plan_row_approved [OF p(1,2) p'(1)] p p' show
    "\<exists>p. map_of (db_plans (grant_step db op)) (st_plan_grant_id r) = Some p \<and> approved_once p
             \<and> st_plan_id r = pl_plan_id p \<and> st_plan_hash r = pl_plan_hash p
             \<and> st_identity_hash r = pl_identity_hash p \<and> st_session_id r = pl_session_id p"
    by (auto simp: same_binding_def)
qed

lemma db_ok_empty: "db_ok empty_db"
  by (simp add: db_ok_def empty_db_def)

lemma db_ok_run: "db_ok db \<Longrightarrow> db_ok (grant_run db ops)"
  by (induction ops arbitrary: db) (simp_all add: db_ok_grant_step)

lemma consume_step_success:
  assumes "snd (consume_step db sid b now ts)"
  obtains row where "map_of (db_steps db) sid = Some row" "st_status row = Approved"
    "now < st_expires_at row" "binding_matches b row" "binding_complete b"
  using assms by (auto simp: consume_step_def split: if_splits option.splits)

text \<open>C11: no execution without approval: when a step grant is consumed, in any database reached from
  the empty one, the grant is unexpired and unused, it names this very step (tool, parameters, step,
  index) and the plan it belongs to was approved and agrees with the caller's binding in plan,
  plan hash, identity and session.\<close>

theorem consumption_needs_approval:
  assumes "snd (consume_step (grant_run empty_db ops) sid b now ts)"
  shows "\<exists>row p. map_of (db_steps (grant_run empty_db ops)) sid = Some row
    \<and> st_status row = Approved \<and> now < st_expires_at row \<and> binding_matches b row
    \<and> map_of (db_plans (grant_run empty_db ops)) (sb_plan_grant_id b) = Some p \<and> approved_once p
    \<and> pl_plan_id p = sb_plan_id b \<and> pl_plan_hash p = sb_plan_hash b
    \<and> pl_identity_hash p = sb_identity_hash b \<and> pl_session_id p = sb_session_id b"
proof -
  from consume_step_success [OF assms] obtain row where
    row: "map_of (db_steps (grant_run empty_db ops)) sid = Some row" "st_status row = Approved"
      "now < st_expires_at row" "binding_matches b row" .
  from db_ok_step [OF db_ok_run [OF db_ok_empty] row(1)] obtain p where
    "map_of (db_plans (grant_run empty_db ops)) (st_plan_grant_id row) = Some p" "approved_once p"
    "st_plan_id row = pl_plan_id p" "st_plan_hash row = pl_plan_hash p"
    "st_identity_hash row = pl_identity_hash p" "st_session_id row = pl_session_id p" .
  with row show ?thesis by (auto simp: binding_matches_def)
qed

theorem consumption_needs_approval_witness:
  "\<exists>row p. map_of (db_steps (grant_run empty_db sample_ops)) ''sg'' = Some row
    \<and> st_status row = Approved \<and> ''2026'' < st_expires_at row \<and> binding_matches sample_binding row
    \<and> map_of (db_plans (grant_run empty_db sample_ops)) (sb_plan_grant_id sample_binding) = Some p
    \<and> approved_once p \<and> pl_plan_id p = sb_plan_id sample_binding
    \<and> pl_plan_hash p = sb_plan_hash sample_binding
    \<and> pl_identity_hash p = sb_identity_hash sample_binding \<and> pl_session_id p = sb_session_id sample_binding"
  by (rule consumption_needs_approval [OF sample_consumes])

text \<open>An issued step grant outlives its plan: after the plan has failed, the step grant can still be
  consumed, because consumption does not look at the plan.\<close>

theorem step_outlives_failed_plan:
  "let db = grant_run empty_db (sample_ops @ [Transition_Plan ''g'' In_Progress Failed [] ''2025'' ''2025''])
   in map_option pl_status (get_plan db ''g'') = Some Failed
      \<and> snd (consume_step db ''sg'' sample_binding ''2026'' ''2026'')"
proof -
  have "map_option pl_status (get_plan (grant_run empty_db
      (sample_ops @ [Transition_Plan ''g'' In_Progress Failed [] ''2025'' ''2025''])) ''g'') = Some Failed"
    by code_simp
  moreover have "snd (consume_step (grant_run empty_db
      (sample_ops @ [Transition_Plan ''g'' In_Progress Failed [] ''2025'' ''2025'']))
      ''sg'' sample_binding ''2026'' ''2026'')"
    by code_simp
  ultimately show ?thesis by (simp add: Let_def)
qed

text \<open>Superseding never works: when a clarification finds a live plan grant to supersede, the update
  violates the status check and the whole call raises, so that no grant is ever superseded.\<close>

theorem invalidation_always_raises:
  assumes "plan_id \<noteq> []" and "session_id \<noteq> []"
    and "(gid, row) \<in> set (db_plans db)" and "pl_plan_id row = plan_id"
    and "pl_session_id row = session_id" and "live_plan (pl_status row)"
  shows "invalidate_by_plan_id db plan_id session_id reason ctx actor now ts
    = Inl (IntegrityError ''CHECK constraint failed: plan_approval_grants'')"
proof -
  have "(gid, row) \<in> set (invalidation_targets db plan_id session_id)"
    using assms by (simp add: invalidation_targets_def)
  then show ?thesis
    using assms(1,2) by (auto simp: invalidate_by_plan_id_def supersede_all_eq)
qed

theorem invalidation_always_raises_witness:
  "invalidate_by_plan_id (grant_run empty_db [Create_Plan sample_plan ''2025'' ''2025'']) ''p'' ''s'' ''r'' [] []
      ''2026'' ''2026''
    = Inl (IntegrityError ''CHECK constraint failed: plan_approval_grants'')"
  by (rule invalidation_always_raises [OF _ _ map_of_SomeD [OF sample_plan_row]])
    (simp_all add: live_plan_def)

end
