(* ===== verification/Confirmation.thy ===== *)
theory Confirmation
  imports Grant_Repository
begin

text \<open>
  \<open>sentinel/core/confirmation.py\<close>: the broker of single-use confirmations and the factory of
  durable plan and step grants. Pending confirmations are kept in the memory backend of
  \<open>sentinel/core/operational_memory.py\<close>, whose four operations on them are modelled here for both
  backends: \<open>InMemoryBackend\<close>, which keeps at most a number of records and keeps them as they are, and
  \<open>SQLiteBackend\<close>, which keeps any number and sanitizes their parameters; grants are kept in the repository of \<open>Grant_Repository\<close>. The hash function
  (SHA-256, in hexadecimal) is an argument. Identifiers that the code draws with \<open>uuid4\<close> and
  clock readings are arguments; creation times of confirmations are instants.
\<close>

section \<open>Hashes and canonical forms\<close>

definition secret_keys :: "string list" where
  "secret_keys =
     [''password'', ''passwd'', ''secret'', ''token'', ''api_key'', ''apikey'', ''authorization'',
      ''api-key'', ''x-api-key'', ''auth_token'', ''access_key'', ''secret_key'', ''private_key'']"

definition broker_hash :: "(string \<Rightarrow> string) \<Rightarrow> pyval \<Rightarrow> string" where
  \<comment> \<open>\<open>_hash\<close>\<close>
  "broker_hash sha v = take 16 (sha (json_compact v))"

definition canonical_params_hash :: "(string \<Rightarrow> string) \<Rightarrow> string \<Rightarrow> pyval \<Rightarrow> string \<Rightarrow> string \<Rightarrow> string" where
  "canonical_params_hash sha tool ps plan_id identity_hash =
     broker_hash sha (PDict [(''tool_id'', PStr tool), (''params'', ps), (''plan_id'', PStr plan_id),
       (''identity_hash'', PStr identity_hash)])"

definition canonical_plan :: "(string \<Rightarrow> string) \<Rightarrow> pyval \<Rightarrow> (string \<times> string) result" where
  "canonical_plan sha plan =
     (case plan of
        PDict d \<Rightarrow>
          if d = [] then Inl (ValueError ''approved plan is required'')
          else if \<not> jsonable plan then Inl (AnyException ''TypeError'')
          else (let payload = json_compact plan in Inr (payload, sha payload))
      | _ \<Rightarrow> Inl (ValueError ''approved plan is required''))"

definition strip_separators :: "string \<Rightarrow> string" where
  "strip_separators s = filter (\<lambda>c. c \<noteq> CHR ''_'' \<and> c \<noteq> CHR ''-'') s"

definition redact :: "string \<Rightarrow> string" where
  "redact s =
     (if list_ex (\<lambda>p. sublist (strip_separators p) (strip_separators (lower s))) secret_keys
      then ''<REDACTED>'' else s)"

definition secret_name :: "string \<Rightarrow> bool" where
  "secret_name key \<longleftrightarrow>
     list_ex (\<lambda>m. sublist m (map (\<lambda>c. if c = CHR ''-'' then CHR ''_'' else c) (lower key))) secret_keys"

fun redact_value :: "pyval \<Rightarrow> pyval" where
  \<comment> \<open>the value that \<open>_redact_context\<close> keeps under a key that is not a secret's\<close>
  "redact_value (PDict d) =
     PDict (map (\<lambda>(k, v). (k, if secret_name k then PStr ''<REDACTED>'' else redact_value v)) d)"
| "redact_value (PStr s) = PStr (redact s)"
| "redact_value v = v"


section \<open>Sanitized parameters\<close>

definition memory_secret_keys :: "string list" where
  \<comment> \<open>\<open>_SECRET_KEYS\<close>\<close>
  "memory_secret_keys = secret_keys @ [''credentials'']"

definition memory_secret :: "string \<Rightarrow> bool" where
  "memory_secret key \<longleftrightarrow>
     list_ex (\<lambda>m. sublist m (map (\<lambda>c. if c = CHR ''-'' then CHR ''_'' else c) (lower key))) memory_secret_keys"

definition memory_redact :: "string \<Rightarrow> string" where
  "memory_redact s =
     (if list_ex (\<lambda>p. sublist (strip_separators p) (strip_separators (lower s))) memory_secret_keys
      then ''<REDACTED>'' else s)"

fun redact_sensitive :: "pyval \<Rightarrow> pyval" where
  "redact_sensitive (PDict d) =
     PDict (map (\<lambda>(k, v). (k, if memory_secret k then PStr ''<REDACTED>'' else redact_sensitive v)) d)"
| "redact_sensitive (PList xs) = PList (map redact_sensitive xs)"
| "redact_sensitive (PStr s) = PStr (memory_redact s)"
| "redact_sensitive v = v"

fun json_safe :: "pyval \<Rightarrow> pyval" where
  "json_safe (PDict d) = PDict (map (\<lambda>(k, v). (k, json_safe v)) d)"
| "json_safe (PList xs) = PList (map json_safe xs)"
| "json_safe (PObj i c a) = PStr (py_str (PObj i c a))"
| "json_safe v = v"

definition sanitize :: "pyval \<Rightarrow> pyval" where
  \<comment> \<open>\<open>_sanitize\<close> redacts again at every level on the way down, which changes nothing more\<close>
  "sanitize v = json_safe (redact_sensitive v)"

lemma memory_redact_twice: "memory_redact (memory_redact s) = memory_redact s"
proof -
  have "memory_redact ''<REDACTED>'' = ''<REDACTED>''" by code_simp
  then show ?thesis unfolding memory_redact_def by (simp split: if_splits)
qed

lemma redact_sensitive_twice: "redact_sensitive (redact_sensitive v) = redact_sensitive v"
proof (induction v rule: redact_sensitive.induct)
  case (1 d)
  have "memory_redact ''<REDACTED>'' = ''<REDACTED>''" by code_simp
  with 1 show ?case by (auto simp: comp_def)
qed (simp_all add: memory_redact_twice)


section \<open>Pending confirmations\<close>

record pending_record =
  pa_action_id :: string
  pa_tool_id :: string
  pa_params :: params
  pa_reason :: string
  pa_created_at :: rat
  pa_ttl_seconds :: rat
  pa_risk_level :: string
  pa_plan_id :: string
  pa_params_hash :: string
  pa_identity_hash :: string
  pa_redacted :: bool

record memory =
  me_pending :: "(string \<times> pending_record) list"
  me_max_pending :: nat
  me_durable :: bool \<comment> \<open>the \<open>SQLiteBackend\<close>\<close>

definition kept :: "memory \<Rightarrow> pyval \<Rightarrow> pyval" where
  \<comment> \<open>what comes back of a stored value\<close>
  "kept m v = (if me_durable m then sanitize v else v)"

definition store_pending_action :: "memory \<Rightarrow> pending_record \<Rightarrow> memory result" where
  "store_pending_action m r =
     (if me_durable m
      then Inr (m\<lparr>me_pending := AList.update (pa_action_id r)
             (r\<lparr>pa_params := as_dict (sanitize (PDict (pa_params r)))\<rparr>) (me_pending m)\<rparr>)
      else if me_max_pending m \<le> length (me_pending m)
      then Inl (AnyException ''RuntimeError: pending action limit reached'')
      else Inr (m\<lparr>me_pending := AList.update (pa_action_id r) r (me_pending m)\<rparr>))"

definition get_pending_action :: "memory \<Rightarrow> string \<Rightarrow> pending_record option" where
  "get_pending_action m i = map_of (me_pending m) i"

definition remove_pending_action :: "memory \<Rightarrow> string \<Rightarrow> memory \<times> pending_record option" where
  "remove_pending_action m i = (m\<lparr>me_pending := AList.delete i (me_pending m)\<rparr>, map_of (me_pending m) i)"

definition stored_user :: "pending_record \<Rightarrow> pyval" where
  "stored_user r =
     py_or (pget (as_dict (pget (pa_params r) ''identity'')) ''user_id'')
       (dict_get (pa_params r) ''user_id'' (PStr []))"

definition consume_pending_action :: "memory \<Rightarrow> string \<Rightarrow> string
    \<Rightarrow> (memory \<times> pending_record option) result" where
  "consume_pending_action m i expected =
     (case map_of (me_pending m) i of
        None \<Rightarrow> Inr (m, None)
      | Some r \<Rightarrow>
          if expected \<noteq> [] \<and> \<not> py_eq (stored_user r) (PStr expected)
          then Inl (PermissionError ''Identity hash mismatch: replay detected'')
          else Inr (m\<lparr>me_pending := AList.delete i (me_pending m)\<rparr>, Some r))"

record confirmation_grant =
  cg_action_id :: string
  cg_tool_id :: pyval
  cg_params :: params
  cg_context :: params
  cg_user_id :: string
  cg_risk_level :: string
  cg_plan_id :: string
  cg_params_hash :: string
  cg_identity_hash :: string

definition identity_binding :: "(string \<Rightarrow> string) \<Rightarrow> pyval \<Rightarrow> pyval \<Rightarrow> string" where
  "identity_binding sha user session =
     broker_hash sha (PDict [(''user_id'', user), (''session_id'', session)])"

definition confirmation_record :: "(string \<Rightarrow> string) \<Rightarrow> rat \<Rightarrow> string \<Rightarrow> params \<Rightarrow> params \<Rightarrow> params
    \<Rightarrow> string \<Rightarrow> string \<Rightarrow> string \<Rightarrow> string \<Rightarrow> rat \<Rightarrow> pending_record" where
  "confirmation_record sha ttl tool ps ctx identity reason risk plan_id action_id now =
     (let user_id = pget identity ''user_id'';
          session_id = py_or (pget identity ''session_id'') (pget ctx ''session_id'');
          redacted = redact_value (PDict ps)
      in \<lparr>pa_action_id = action_id, pa_tool_id = tool,
          pa_params =
            [(''kind'', PStr ''tool_confirmation''), (''tool_id'', PStr tool), (''params'', redacted),
             (''context'', PDict
                [(''identity'', PDict [(''user_id'', user_id), (''role'', pget identity ''role''),
                    (''session_id'', py_or session_id (PStr []))]),
                 (''execution_id'', pget ctx ''execution_id'')]),
             (''user_id'', user_id)],
          pa_reason = reason, pa_created_at = now, pa_ttl_seconds = ttl, pa_risk_level = risk,
          pa_plan_id = plan_id, pa_params_hash = broker_hash sha redacted,
          pa_identity_hash = identity_binding sha user_id (dict_get identity ''session_id'' (PStr [])),
          pa_redacted = True\<rparr>)"

lemma record_params:
  "pa_params (confirmation_record sha ttl tool ps ctx identity reason risk plan_id i now) =
     [(''kind'', PStr ''tool_confirmation''), (''tool_id'', PStr tool), (''params'', redact_value (PDict ps)),
      (''context'', PDict
         [(''identity'', PDict [(''user_id'', pget identity ''user_id''), (''role'', pget identity ''role''),
             (''session_id'', py_or (py_or (pget identity ''session_id'') (pget ctx ''session_id'')) (PStr []))]),
          (''execution_id'', pget ctx ''execution_id'')]),
      (''user_id'', pget identity ''user_id'')]"
  by (simp add: confirmation_record_def Let_def)

lemma record_bindings [simp]:
  "pa_params_hash (confirmation_record sha ttl tool ps ctx identity reason risk plan_id i now) = broker_hash sha (redact_value (PDict ps))"
  "pa_identity_hash (confirmation_record sha ttl tool ps ctx identity reason risk plan_id i now)
     = identity_binding sha (pget identity ''user_id'') (dict_get identity ''session_id'' (PStr []))"
  "pa_created_at (confirmation_record sha ttl tool ps ctx identity reason risk plan_id i now) = now"
  "pa_ttl_seconds (confirmation_record sha ttl tool ps ctx identity reason risk plan_id i now) = ttl"
  "pa_action_id (confirmation_record sha ttl tool ps ctx identity reason risk plan_id i now) = i"
  by (simp_all add: confirmation_record_def Let_def)

definition confirmation_request :: "(string \<Rightarrow> string) \<Rightarrow> rat \<Rightarrow> memory \<Rightarrow> string \<Rightarrow> params \<Rightarrow> params
    \<Rightarrow> string \<Rightarrow> string \<Rightarrow> string \<Rightarrow> string \<Rightarrow> rat \<Rightarrow> (memory \<times> string) result" where
  \<comment> \<open>\<open>request\<close>; the drawn identifier and the time of the call come last\<close>
  "confirmation_request sha ttl m tool ps ctx reason risk plan_id action_id now =
     bind_result (or_dict (pget ctx ''identity'')) (\<lambda>identity.
       (if \<not> truthy (pget identity ''user_id'')
        then Inl (ValueError ''Authenticated user is required for confirmation'')
        else
          bind_result (store_pending_action m
              (confirmation_record sha ttl tool ps ctx identity reason risk plan_id action_id now))
            (\<lambda>m'. Inr (m', action_id))))"

definition stored_session :: "pending_record \<Rightarrow> pyval" where
  "stored_session r =
     dict_get (as_dict (pget (as_dict (pget (pa_params r) ''context'')) ''identity'')) ''session_id'' (PStr [])"

definition is_tool_confirmation :: "pending_record \<Rightarrow> bool" where
  "is_tool_confirmation r \<longleftrightarrow> pget (pa_params r) ''kind'' = PStr ''tool_confirmation''"

definition check_bindings :: "(string \<Rightarrow> string) \<Rightarrow> pending_record \<Rightarrow> string \<Rightarrow> string option \<Rightarrow> unit result" where
  \<comment> \<open>the two hash comparisons of an approval\<close>
  "check_bindings sha r user session =
     (if pa_params_hash r \<noteq> []
         \<and> broker_hash sha (PDict (as_dict (pget (pa_params r) ''params''))) \<noteq> pa_params_hash r
      then Inl (PermissionError ''Params hash mismatch: approval tampered with'')
      else if pa_identity_hash r \<noteq> []
         \<and> pa_identity_hash r \<noteq> identity_binding sha (PStr user)
              (case session of None \<Rightarrow> stored_session r | Some s \<Rightarrow> PStr s)
      then Inl (PermissionError ''Identity hash mismatch: replay detected'')
      else Inr ())"

definition confirmation_consume :: "(string \<Rightarrow> string) \<Rightarrow> memory \<Rightarrow> string \<Rightarrow> string \<Rightarrow> bool
    \<Rightarrow> string option \<Rightarrow> rat \<Rightarrow> memory \<times> confirmation_grant option result" where
  \<comment> \<open>\<open>consume\<close>; once the record has been removed it stays removed, whatever follows\<close>
  "confirmation_consume sha m i user approved session now =
     (case get_pending_action m i of
        None \<Rightarrow> (m, Inr None)
      | Some pre \<Rightarrow>
          if \<not> is_tool_confirmation pre then (m, Inr None)
          else
            (case consume_pending_action m i user of
               Inl e \<Rightarrow> (m, Inl e)
             | Inr (m', None) \<Rightarrow> (m', Inr None)
             | Inr (m', Some r) \<Rightarrow>
                 (m',
                  if \<not> is_tool_confirmation r then Inr None
                  else
                    bind_result (if approved then check_bindings sha r user session else Inr ()) (\<lambda>u.
                      if pa_ttl_seconds r < now - pa_created_at r then Inr None
                      else if \<not> approved then Inr None
                      else Inr (Some
                        \<lparr>cg_action_id = i, cg_tool_id = pget (pa_params r) ''tool_id'',
                         cg_params = as_dict (pget (pa_params r) ''params''),
                         cg_context = as_dict (pget (pa_params r) ''context''), cg_user_id = user,
                         cg_risk_level = pa_risk_level r, cg_plan_id = pa_plan_id r,
                         cg_params_hash = pa_params_hash r, cg_identity_hash = pa_identity_hash r\<rparr>)))))"

record confirmation_view =
  cv_action_id :: string
  cv_tool_id :: string
  cv_reason :: string
  cv_risk_level :: string
  cv_plan_id :: string
  cv_created_at :: rat
  cv_ttl_seconds :: rat
  cv_redacted :: bool

definition confirmation_peek :: "memory \<Rightarrow> string \<Rightarrow> confirmation_view option" where
  "confirmation_peek m i =
     (case get_pending_action m i of
        None \<Rightarrow> None
      | Some r \<Rightarrow>
          if \<not> is_tool_confirmation r then None
          else Some \<lparr>cv_action_id = pa_action_id r, cv_tool_id = pa_tool_id r, cv_reason = pa_reason r,
                     cv_risk_level = pa_risk_level r, cv_plan_id = pa_plan_id r,
                     cv_created_at = pa_created_at r, cv_ttl_seconds = pa_ttl_seconds r,
                     cv_redacted = pa_redacted r\<rparr>)"


section \<open>Durable grants\<close>

definition request_plan_grant :: "grant_db \<Rightarrow> plan_grant \<Rightarrow> string \<Rightarrow> string \<Rightarrow> (grant_db \<times> string) result" where
  \<comment> \<open>the grant carries the drawn identifier\<close>
  "request_plan_grant db g now ts = bind_result (create_plan db g now ts) (\<lambda>db'. Inr (db', pg_grant_id g))"

definition recover_approved_plan :: "(string \<Rightarrow> string) \<Rightarrow> grant_db \<Rightarrow> string \<Rightarrow> pyval result" where
  "recover_approved_plan sha db gid =
     (case get_plan db gid of
        None \<Rightarrow> Inl (PermissionError ''approved plan grant is unavailable'')
      | Some p \<Rightarrow>
          if pl_status p \<notin> {Approved, In_Progress}
          then Inl (PermissionError ''approved plan grant is unavailable'')
          else if sha (pl_plan_payload p) \<noteq> pl_plan_hash p
          then Inl (PermissionError ''approved plan hash mismatch'')
          else
            (case json_loads (pl_plan_payload p) of
               Some v \<Rightarrow> Inr v
             | None \<Rightarrow> Inl (PermissionError ''approved plan payload is invalid'')))"

definition approve_plan_grant :: "grant_db \<Rightarrow> string \<Rightarrow> string \<Rightarrow> string \<Rightarrow> string \<Rightarrow> grant_db \<times> bool" where
  "approve_plan_grant db gid user now ts =
     transition_plan db gid Pending Approved [(''user_id'', PStr user)] now ts"

definition step_context :: "string \<Rightarrow> step_row \<Rightarrow> plan_row \<Rightarrow> string \<Rightarrow> grant_context result" where
  "step_context sid s p approved_at =
     make_grant
       \<lparr>gc_grant_id = sid, gc_plan_grant_id = st_plan_grant_id s, gc_step_grant_id = sid,
        gc_user_id = pl_user_id p, gc_session_id = st_session_id s,
        gc_identity_hash = st_identity_hash s, gc_plan_id = st_plan_id s,
        gc_plan_hash = st_plan_hash s, gc_step_id = st_step_id s, gc_step_index = st_step_index s,
        gc_tool_id = st_tool_id s, gc_params_hash = st_params_hash s, gc_approved_at = approved_at,
        gc_expires_at = st_expires_at s, gc_ambiguity_decision_id = [], gc_input_understanding_id = []\<rparr>"

definition issue_step_grant :: "grant_db \<Rightarrow> step_grant \<Rightarrow> string \<Rightarrow> string
    \<Rightarrow> grant_db \<times> grant_context result" where
  "issue_step_grant db g now ts =
     (case create_step db g now ts of
        Inl e \<Rightarrow> (db, Inl e)
      | Inr (db', ok) \<Rightarrow>
          (db',
           if \<not> ok then Inl (PermissionError ''step grant cannot be derived from the approved plan'')
           else
             (case (get_step db' (sg_step_grant_id g), get_plan db' (sg_plan_grant_id g)) of
                (Some s, Some p) \<Rightarrow>
                  (case pl_approved_at p of
                     None \<Rightarrow> Inl (PermissionError ''durable grant context is incomplete'')
                   | Some a \<Rightarrow>
                       if a = [] then Inl (PermissionError ''durable grant context is incomplete'')
                       else step_context (sg_step_grant_id g) s p a)
              | _ \<Rightarrow> Inl (PermissionError ''durable grant context is incomplete''))))"

definition consume_step_grant :: "grant_db \<Rightarrow> string \<Rightarrow> step_binding \<Rightarrow> string \<Rightarrow> string \<Rightarrow> grant_db \<times> bool" where
  "consume_step_grant db sid b now ts = consume_step db sid b now ts"

definition actor_of :: "string \<Rightarrow> string \<Rightarrow> string \<Rightarrow> params" where
  "actor_of user session ident =
     [(''user_id'', PStr user), (''session_id'', PStr session), (''identity_hash'', PStr ident)]"

definition bound_to :: "plan_row \<Rightarrow> string \<Rightarrow> string \<Rightarrow> string \<Rightarrow> bool" where
  "bound_to p user session ident \<longleftrightarrow>
     pl_user_id p = user \<and> pl_session_id p = session \<and> pl_identity_hash p = ident"

definition resume_approved_plan :: "(string \<Rightarrow> string) \<Rightarrow> grant_db \<Rightarrow> string \<Rightarrow> string \<Rightarrow> string \<Rightarrow> string
    \<Rightarrow> string \<Rightarrow> string \<Rightarrow> grant_db \<times> (plan_row \<times> pyval) result" where
  "resume_approved_plan sha db gid user session ident now ts =
     (if user = [] \<or> session = [] \<or> ident = []
      then (db, Inl (PermissionError ''authenticated identity and session are required''))
      else
        (case get_plan db gid of
           None \<Rightarrow> (db, Inl (PermissionError ''plan grant identity binding mismatch''))
         | Some p \<Rightarrow>
             if \<not> bound_to p user session ident
             then (db, Inl (PermissionError ''plan grant identity binding mismatch''))
             else
               (let (db', ok) =
                  (if pl_status p = Approved
                   then transition_plan db gid Approved In_Progress (actor_of user session ident) now ts
                   else (db, True))
                in if \<not> ok then (db', Inl (PermissionError ''plan grant could not be resumed''))
                   else
                     (db',
                      case get_plan db' gid of
                        None \<Rightarrow> Inl (PermissionError ''plan grant is not resumable'')
                      | Some q \<Rightarrow>
                          if pl_status q \<noteq> In_Progress
                          then Inl (PermissionError ''plan grant is not resumable'')
                          else bind_result (recover_approved_plan sha db' gid) (\<lambda>v. Inr (q, v))))))"

definition step_at :: "grant_db \<Rightarrow> string \<Rightarrow> int \<Rightarrow> (string \<times> step_row) option" where
  "step_at db gid index =
     find (\<lambda>(sid, s). st_plan_grant_id s = gid \<and> st_step_index s = index) (db_steps db)"

definition consumed_at_index :: "grant_db \<Rightarrow> string \<Rightarrow> int \<Rightarrow> bool" where
  "consumed_at_index db gid index \<longleftrightarrow>
     (case step_at db gid index of Some (sid, s) \<Rightarrow> st_status s = Consumed | None \<Rightarrow> False)"

definition issue_next_step_grant :: "(string \<Rightarrow> string) \<Rightarrow> grant_db \<Rightarrow> string \<Rightarrow> string \<Rightarrow> string \<Rightarrow> string
    \<Rightarrow> string \<Rightarrow> int \<Rightarrow> string \<Rightarrow> pyval \<Rightarrow> string \<Rightarrow> string \<Rightarrow> string \<Rightarrow> string
    \<Rightarrow> grant_db \<times> grant_context result" where
  \<comment> \<open>the drawn step grant identifier comes before the two clock readings\<close>
  "issue_next_step_grant sha db gid user session ident step_id index tool ps expires new_id now ts =
     (case get_plan db gid of
        None \<Rightarrow> (db, Inl (PermissionError ''plan grant is not in progress''))
      | Some p \<Rightarrow>
          if pl_status p \<noteq> In_Progress
          then (db, Inl (PermissionError ''plan grant is not in progress''))
          else if \<not> bound_to p user session ident
          then (db, Inl (PermissionError ''plan grant identity binding mismatch''))
          else if \<not> list_all (consumed_at_index db gid) [0..index - 1]
          then (db, Inl (PermissionError ''step order violation''))
          else
            (case step_at db gid index of
               Some (sid, s) \<Rightarrow>
                 (db,
                  if st_status s \<noteq> Approved
                  then Inl (PermissionError ''step grant already consumed or failed'')
                  else
                    make_grant
                      \<lparr>gc_grant_id = sid, gc_plan_grant_id = gid, gc_step_grant_id = sid,
                       gc_user_id = user, gc_session_id = session, gc_identity_hash = ident,
                       gc_plan_id = pl_plan_id p, gc_plan_hash = pl_plan_hash p,
                       gc_step_id = st_step_id s, gc_step_index = index, gc_tool_id = st_tool_id s,
                       gc_params_hash = st_params_hash s,
                       gc_approved_at = (case pl_approved_at p of Some a \<Rightarrow> a | None \<Rightarrow> []),
                       gc_expires_at = st_expires_at s, gc_ambiguity_decision_id = [],
                       gc_input_understanding_id = []\<rparr>)
             | None \<Rightarrow>
                 issue_step_grant db
                   \<lparr>sg_step_grant_id = new_id, sg_plan_grant_id = gid, sg_plan_id = pl_plan_id p,
                    sg_plan_hash = pl_plan_hash p, sg_step_id = step_id, sg_step_index = Some index,
                    sg_tool_id = tool,
                    sg_params_hash = canonical_params_hash sha tool ps (pl_plan_id p) ident,
                    sg_identity_hash = ident, sg_session_id = session, sg_expires_at = expires\<rparr> now ts))"

fun py_len :: "pyval \<Rightarrow> nat option" where
  "py_len (PList xs) = Some (length xs)"
| "py_len (PDict d) = Some (length d)"
| "py_len (PStr s) = Some (length s)"
| "py_len _ = None"

definition consumed_count :: "grant_db \<Rightarrow> string \<Rightarrow> nat" where
  "consumed_count db gid =
     length (filter (\<lambda>(sid, s). st_plan_grant_id s = gid \<and> st_status s = Consumed) (db_steps db))"

definition complete_plan :: "grant_db \<Rightarrow> string \<Rightarrow> string \<Rightarrow> string \<Rightarrow> string \<Rightarrow> string \<Rightarrow> string
    \<Rightarrow> grant_db \<times> bool result" where
  \<comment> \<open>a payload that is no dictionary raises \<open>AttributeError\<close>, which is not caught\<close>
  "complete_plan db gid user session ident now ts =
     (case get_plan db gid of
        None \<Rightarrow> (db, Inr False)
      | Some p \<Rightarrow>
          if \<not> bound_to p user session ident then (db, Inr False)
          else
            (case json_loads (pl_plan_payload p) of
               None \<Rightarrow> (db, Inr False)
             | Some (PDict d) \<Rightarrow>
                 (case py_len (dict_get d ''steps'' (PList [])) of
                    None \<Rightarrow> (db, Inr False)
                  | Some expected \<Rightarrow>
                      if expected = 0 \<or> consumed_count db gid \<noteq> expected then (db, Inr False)
                      else
                        (let (db', ok) = transition_plan db gid In_Progress Consumed
                               (actor_of user session ident) now ts
                         in (db', Inr ok)))
             | Some v \<Rightarrow> (db, Inl (AnyException ''AttributeError''))))"

definition fail_plan :: "grant_db \<Rightarrow> string \<Rightarrow> string \<Rightarrow> string \<Rightarrow> string \<Rightarrow> string \<Rightarrow> string
    \<Rightarrow> grant_db \<times> bool" where
  "fail_plan db gid user session ident now ts =
     (case get_plan db gid of
        None \<Rightarrow> (db, False)
      | Some p \<Rightarrow>
          if \<not> bound_to p user session ident then (db, False)
          else transition_plan db gid In_Progress Failed (actor_of user session ident) now ts)"



section \<open>Canonical plans\<close>

text \<open>an approved plan comes back exactly: the plan that was put into canonical form and requested is
  what the broker recovers, with its keys in order, after any operations on the grants, whenever it
  recovers anything at all; a tampered payload is refused.\<close>

theorem approved_plan_recovered:
  assumes "canonical_plan sha plan = Inr (payload, digest)" and "keys_ok plan"
    and "pg_plan_payload g = payload" and "pg_plan_hash g = digest"
    and "request_plan_grant db g now ts = Inr (db', gid)"
    and "recover_approved_plan sha (grant_run db' ops) gid = Inr v"
  shows "v = canon plan"
proof -
  obtain d where d: "plan = PDict d" "jsonable plan" "payload = json_compact plan"
    using assms(1) by (auto simp: canonical_plan_def Let_def split: pyval.splits if_splits)
  from assms(5) have c: "create_plan db g now ts = Inr db'" "gid = pg_grant_id g"
    by (auto simp: request_plan_grant_def)
  then obtain row where row: "map_of (db_plans db') gid = Some row" "pl_plan_payload row = payload"
    using assms(3) by (auto simp: create_plan_def split: if_splits)
  from plan_grants_keep [OF row(1), of ops] obtain row' where
    row': "map_of (db_plans (grant_run db' ops)) gid = Some row'" "same_binding row row'" by blast
  then have "pl_plan_payload row' = json_compact plan"
    using row(2) d(3) by (simp add: same_binding_def)
  moreover have "json_loads (json_compact plan) = Some (canon plan)"
    by (rule json_round_trip [OF d(2) assms(2)])
  ultimately show ?thesis
    using assms(6) row'(1)
    by (auto simp: recover_approved_plan_def get_plan_def split: if_splits)
qed

definition tagged :: "string \<Rightarrow> string" where
  \<comment> \<open>a stand-in for the hash function in the sample runs\<close>
  "tagged s = CHR ''#'' # s"

definition demo_plan :: pyval where
  "demo_plan = PDict [(''steps'', PList [PDict [(''tool'', PStr ''t''), (''args'', PNone)]]), (''id'', PInt 7)]"

definition demo_grant :: plan_grant where
  "demo_grant = sample_plan\<lparr>pg_plan_payload := json_compact demo_plan,
     pg_plan_hash := tagged (json_compact demo_plan)\<rparr>"

definition demo_db :: grant_db where
  "demo_db = (case request_plan_grant empty_db demo_grant ''2025'' ''2025'' of
     Inr (db, gid) \<Rightarrow> db | Inl e \<Rightarrow> empty_db)"

definition demo_approval :: "grant_op list" where
  "demo_approval = [Transition_Plan ''g'' Pending Approved [] ''2025'' ''2025'']"

lemma demo_request: "request_plan_grant empty_db demo_grant ''2025'' ''2025'' = Inr (demo_db, ''g'')"
proof -
  have "case request_plan_grant empty_db demo_grant ''2025'' ''2025'' of
      Inr (db, gid) \<Rightarrow> gid = ''g'' | Inl e \<Rightarrow> False"
    by code_simp
  then show ?thesis by (auto simp: demo_db_def split: sum.splits prod.splits)
qed

lemma demo_recovers:
  "\<exists>v. recover_approved_plan tagged (grant_run demo_db demo_approval) ''g'' = Inr v"
proof -
  have "\<not> is_err (recover_approved_plan tagged (grant_run demo_db demo_approval) ''g'')"
    by code_simp
  then show ?thesis by (cases "recover_approved_plan tagged (grant_run demo_db demo_approval) ''g''") auto
qed

theorem approved_plan_recovered_witness:
  "recover_approved_plan tagged (grant_run demo_db demo_approval) ''g'' = Inr (canon demo_plan)"
proof -
  obtain v where v: "recover_approved_plan tagged (grant_run demo_db demo_approval) ''g'' = Inr v"
    using demo_recovers by blast
  have "v = canon demo_plan"
    by (rule approved_plan_recovered [OF _ _ _ _ demo_request v])
      (simp_all add: canonical_plan_def Let_def demo_plan_def demo_grant_def dict_ok_def)
  with v show ?thesis by simp
qed

text \<open>The parameter hash that a step grant is bound to does not depend on the order of the keys.\<close>

theorem params_hash_key_order:
  assumes "dict_ok d" and "dict_ok d'" and "set d = set d'"
  shows "canonical_params_hash sha tool (PDict d) plan_id ident
    = canonical_params_hash sha tool (PDict d') plan_id ident"
  using json_key_order [OF assms]
  by (simp add: canonical_params_hash_def broker_hash_def)


theorem params_hash_key_order_witness:
  "canonical_params_hash tagged ''t'' (PDict [(''a'', PInt 1), (''b'', PNone)]) ''p'' ''i''
    = canonical_params_hash tagged ''t'' (PDict [(''b'', PNone), (''a'', PInt 1)]) ''p'' ''i''"
  by (rule params_hash_key_order) (auto simp: dict_ok_def)


section \<open>Confirmations are used once\<close>

datatype memory_op =
    Request_Op rat string params params string string string string rat
  | Consume_Op string string bool "string option" rat
  | Remove_Op string


fun memory_step :: "(string \<Rightarrow> string) \<Rightarrow> memory \<Rightarrow> memory_op \<Rightarrow> memory" where
  "memory_step sha m (Request_Op ttl tool ps ctx reason risk plan_id action_id now) =
     (case confirmation_request sha ttl m tool ps ctx reason risk plan_id action_id now of
        Inr (m', i) \<Rightarrow> m' | Inl e \<Rightarrow> m)"
| "memory_step sha m (Consume_Op i user approved session now) =
     fst (confirmation_consume sha m i user approved session now)"
| "memory_step sha m (Remove_Op i) = fst (remove_pending_action m i)"

fun confirms :: "(string \<Rightarrow> string) \<Rightarrow> memory \<Rightarrow> memory_op \<Rightarrow> string option" where
  \<comment> \<open>the confirmation that an operation turns into a grant\<close>
  "confirms sha m (Consume_Op i user approved session now) =
     (case snd (confirmation_consume sha m i user approved session now) of
        Inr (Some g) \<Rightarrow> Some i | _ \<Rightarrow> None)"
| "confirms sha m op = None"

fun requests :: "memory_op \<Rightarrow> string \<Rightarrow> bool" where
  "requests (Request_Op ttl tool ps ctx reason risk plan_id action_id now) i = (action_id = i)"
| "requests op i = False"

definition pending :: "memory \<Rightarrow> string \<Rightarrow> bool" where
  "pending m i \<longleftrightarrow> map_of (me_pending m) i \<noteq> None"

lemma consume_grants:
  assumes "snd (confirmation_consume sha m i user approved session now) = Inr (Some g)"
  obtains r where "map_of (me_pending m) i = Some r" "is_tool_confirmation r" "approved"
    "user = [] \<or> stored_user r = PStr user" "check_bindings sha r user session = Inr ()"
    "now - pa_created_at r \<le> pa_ttl_seconds r"
    "fst (confirmation_consume sha m i user approved session now)
      = m\<lparr>me_pending := AList.delete i (me_pending m)\<rparr>"
    "cg_tool_id g = pget (pa_params r) ''tool_id''"
    "cg_params g = as_dict (pget (pa_params r) ''params'')" "cg_user_id g = user"
  using assms
  unfolding confirmation_consume_def get_pending_action_def consume_pending_action_def
  by (auto split: option.splits if_splits)

lemma consume_memory:
  "fst (confirmation_consume sha m i user approved session now) = m
   \<or> fst (confirmation_consume sha m i user approved session now)
      = m\<lparr>me_pending := AList.delete i (me_pending m)\<rparr>"
  unfolding confirmation_consume_def get_pending_action_def consume_pending_action_def
  by (auto split: option.splits)

interpretation confirmations: single_use "memory_step sha" "confirms sha" "\<lambda>m op i. requests op i" pending
  for sha
proof
  show "pending m i" if "confirms sha m op = Some i" for m op i
    using that by (cases op) (auto simp: pending_def split: sum.splits option.splits elim: consume_grants)
  show "\<not> pending (memory_step sha m op) i" if "confirms sha m op = Some i" for m op i
    using that by (cases op) (auto simp: pending_def split: sum.splits option.splits elim: consume_grants)
  show "pending m i \<or> requests op i" if a: "pending (memory_step sha m op) i" for m op i
  proof (cases op)
    case (Request_Op ttl tool ps ctx reason risk plan_id action_id now)
    show ?thesis using a unfolding Request_Op
      by (auto simp: pending_def confirmation_request_def store_pending_action_def Let_def
          split: sum.splits if_splits)
  next
    case (Consume_Op j user approved session now)
    show ?thesis using a consume_memory [of sha m j user approved session now] unfolding Consume_Op
      by (auto simp: pending_def split: if_splits)
  next
    case (Remove_Op j)
    show ?thesis using a unfolding Remove_Op
      by (auto simp: pending_def remove_pending_action_def split: if_splits)
  qed
qed

fun confirmed_ids :: "(string \<Rightarrow> string) \<Rightarrow> memory \<Rightarrow> memory_op list \<Rightarrow> string list" where
  "confirmed_ids sha m [] = []"
| "confirmed_ids sha m (op # ops) =
     (case confirms sha m op of None \<Rightarrow> [] | Some i \<Rightarrow> [i]) @ confirmed_ids sha (memory_step sha m op) ops"

lemma confirmed_ids_eq: "confirmations.spent sha m ops = confirmed_ids sha m ops"
  by (induction ops arbitrary: m) auto

lemma requests_eq: "confirmations.reissued sha m ops i \<longleftrightarrow> (\<exists>op \<in> set ops. requests op i)"
  by (induction ops arbitrary: m) auto

text \<open>C12: a confirmation yields at most one grant: over any sequence of requests, approvals, denials and
  removals in which its identifier is not drawn again, it is approved successfully at most once.\<close>

theorem confirmation_granted_once:
  assumes "list_all (\<lambda>op. \<not> requests op i) ops"
  shows "count_list (confirmed_ids sha m ops) i \<le> 1"
  using confirmations.spent_at_most_once [of sha m ops i] assms
  by (simp add: confirmed_ids_eq requests_eq list_all_iff)

definition demo_identity :: params where
  "demo_identity = [(''identity'', PDict [(''user_id'', PStr ''u''), (''session_id'', PStr ''s'')])]"

definition demo_ops :: "memory_op list" where
  "demo_ops =
     [Request_Op 600 ''t'' [] demo_identity ''r'' ''high'' [] ''a1'' 0,
      Consume_Op ''a1'' ''u'' True (Some ''s'') 5, Consume_Op ''a1'' ''u'' True (Some ''s'') 6]"

definition demo_memory :: memory where
  "demo_memory = \<lparr>me_pending = [], me_max_pending = 10, me_durable = False\<rparr>"

theorem confirmation_granted_once_witness:
  "count_list (confirmed_ids tagged (memory_step tagged demo_memory (hd demo_ops)) (tl demo_ops)) ''a1'' \<le> 1"
  by (rule confirmation_granted_once) (simp add: demo_ops_def)

section \<open>What an approval grants\<close>

definition memory_run :: "(string \<Rightarrow> string) \<Rightarrow> memory \<Rightarrow> memory_op list \<Rightarrow> memory" where
  "memory_run sha m ops = foldl (memory_step sha) m ops"

lemma store_durable: "store_pending_action m r = Inr m' \<Longrightarrow> me_durable m' = me_durable m"
  by (auto simp: store_pending_action_def split: if_splits)

lemma memory_step_durable [simp]: "me_durable (memory_step sha m op) = me_durable m"
proof (cases op)
  case (Request_Op ttl tool ps ctx reason risk plan_id i now)
  then show ?thesis
    by (auto simp: confirmation_request_def split: sum.splits dest: store_durable)
next
  case (Consume_Op i user approved session now)
  then show ?thesis using consume_memory [of sha m i user approved session now] by auto
qed (simp add: remove_pending_action_def)

lemma memory_run_durable [simp]: "me_durable (memory_run sha m ops) = me_durable m"
  unfolding memory_run_def by (induction ops arbitrary: m) simp_all

definition stored_params :: "memory \<Rightarrow> pending_record \<Rightarrow> params" where
  "stored_params m r = (if me_durable m then as_dict (sanitize (PDict (pa_params r))) else pa_params r)"

lemma stored_record:
  assumes "store_pending_action m r = Inr m'"
  shows "map_of (me_pending m') j
    = (if j = pa_action_id r then Some (r\<lparr>pa_params := stored_params m r\<rparr>) else map_of (me_pending m) j)"
  using assms by (auto simp: store_pending_action_def stored_params_def update_conv split: if_splits)

text \<open>Every pending confirmation is what the backend keeps of one that was requested.\<close>

definition requested :: "(string \<Rightarrow> string) \<Rightarrow> memory_op list \<Rightarrow> memory \<Rightarrow> string \<Rightarrow> pending_record \<Rightarrow> bool" where
  "requested sha ops m i r \<longleftrightarrow>
     (\<exists>ttl tool ps ctx identity reason risk plan_id now.
        Request_Op ttl tool ps ctx reason risk plan_id i now \<in> set ops
        \<and> or_dict (pget ctx ''identity'') = Inr identity
        \<and> (let r0 = confirmation_record sha ttl tool ps ctx identity reason risk plan_id i now
           in r = r0\<lparr>pa_params := stored_params m r0\<rparr>))"

lemma requested_more: "requested sha ops m i r \<Longrightarrow> requested sha (ops @ [op]) m i r"
  unfolding requested_def by (simp only: set_append Un_iff) blast

lemma requested_step:
  assumes "map_of (me_pending (memory_step sha m op)) i = Some r"
  shows "map_of (me_pending m) i = Some r \<or> requested sha [op] m i r"
proof (cases op)
  case (Request_Op ttl tool ps ctx reason risk plan_id j now)
  show ?thesis
  proof (cases "confirmation_request sha ttl m tool ps ctx reason risk plan_id j now")
    case (Inr x)
    then obtain identity m' where d: "or_dict (pget ctx ''identity'') = Inr identity"
      "store_pending_action m (confirmation_record sha ttl tool ps ctx identity reason risk plan_id j now) = Inr m'" "x = (m', j)"
      by (auto simp: confirmation_request_def split: if_splits)
    have "pa_action_id (confirmation_record sha ttl tool ps ctx identity reason risk plan_id j now) = j"
      by (simp add: confirmation_record_def Let_def)
    with assms stored_record [OF d(2)] d(3) Inr d(1) show ?thesis
      unfolding Request_Op by (auto simp: requested_def split: if_splits)
  qed (use assms Request_Op in simp)
next
  case (Consume_Op j user approved session now)
  then show ?thesis using assms consume_memory [of sha m j user approved session now] by (auto simp: delete_conv' split: if_splits)
qed (use assms in \<open>auto simp: remove_pending_action_def delete_conv' split: if_splits\<close>)

lemma requested_run:
  assumes "map_of (me_pending (memory_run sha m ops)) i = Some r"
  shows "map_of (me_pending m) i = Some r \<or> requested sha ops m i r"
  using assms
proof (induction ops arbitrary: r rule: rev_induct)
  case (snoc op ops)
  then have "map_of (me_pending (memory_step sha (memory_run sha m ops) op)) i = Some r" by (simp add: memory_run_def)
  from requested_step [OF this] show ?case
  proof
    assume "map_of (me_pending (memory_run sha m ops)) i = Some r"
    from snoc.IH [OF this] show ?thesis by (auto intro: requested_more)
  next
    assume "requested sha [op] (memory_run sha m ops) i r"
    moreover have "stored_params (memory_run sha m ops) = stored_params m" by (simp add: stored_params_def fun_eq_iff)
    ultimately have "requested sha (ops @ [op]) m i r"
      unfolding requested_def by (simp only: set_append Un_iff) blast
    then show ?thesis ..
  qed
qed (simp add: memory_run_def)

lemma kept_kind: "sanitize (PStr ''tool_confirmation'') = PStr ''tool_confirmation''"
  by code_simp

definition harmless_keys :: "string list" where
  "harmless_keys = [''kind'', ''tool_id'', ''params'', ''context'', ''user_id'', ''identity'', ''role'', ''session_id'', ''execution_id'']"

lemma harmless: "\<not> list_ex memory_secret harmless_keys"
  by code_simp

lemma harmless_simps [simp]:
  "\<not> memory_secret ''kind''" "\<not> memory_secret ''tool_id''" "\<not> memory_secret ''params''" "\<not> memory_secret ''context''"
  "\<not> memory_secret ''user_id''" "\<not> memory_secret ''identity''" "\<not> memory_secret ''role''" "\<not> memory_secret ''session_id''"
  "\<not> memory_secret ''execution_id''"
  using harmless by (simp_all add: harmless_keys_def)

text \<open>The fields of a stored confirmation, for both backends.\<close>

lemma kept_fields:
  assumes "r0 = confirmation_record sha ttl tool ps ctx identity reason risk plan_id i now"
    and "r = r0\<lparr>pa_params := stored_params m r0\<rparr>"
  shows "is_tool_confirmation r" "stored_user r = kept m (pget identity ''user_id'')"
    "pget (pa_params r) ''tool_id'' = kept m (PStr tool)"
    "as_dict (pget (pa_params r) ''params'') = as_dict (kept m (redact_value (PDict ps)))"
    "stored_session r = kept m (py_or (py_or (pget identity ''session_id'') (pget ctx ''session_id'')) (PStr []))"
proof -
  have k: "json_safe (redact_sensitive (PStr ''tool_confirmation'')) = PStr ''tool_confirmation''"
    using kept_kind by (simp add: sanitize_def)
  note d = assms(2) assms(1) stored_params_def record_params kept_def sanitize_def
  show "is_tool_confirmation r" unfolding is_tool_confirmation_def d using k by (simp add: pget_def)
  show "stored_user r = kept m (pget identity ''user_id'')"
    unfolding stored_user_def d by (simp add: pget_def dict_get_def py_or_def)
  show "pget (pa_params r) ''tool_id'' = kept m (PStr tool)" unfolding d by (simp add: pget_def)
  show "as_dict (pget (pa_params r) ''params'') = as_dict (kept m (redact_value (PDict ps)))"
    unfolding d by (simp add: pget_def)
  show "stored_session r = kept m (py_or (py_or (pget identity ''session_id'') (pget ctx ''session_id'')) (PStr []))"
    unfolding stored_session_def d by (simp add: pget_def dict_get_def)
qed

lemma kept_redacted: "\<exists>d. kept m (redact_value (PDict ps)) = PDict d"
  by (simp add: kept_def sanitize_def)

text \<open>C13: over any operations on a memory that holds no tool confirmation yet, with either backend: a non-empty user who
  turns a confirmation into a grant has approved it, and it was asked for by a request among the operations, under
  this identifier, for this very user, not longer ago than its time to live, and, when a session is given, with this
  user and session in the hash of the identity. The grant carries the tool of that request and its redacted parameters
  as the backend keeps them, whose hash is that of the redacted parameters, and the record is gone. (A hash is assumed
  never to be empty.)\<close>

theorem confirmation_grant_bound:
  assumes "\<And>v. sha v \<noteq> []" and "list_all (\<lambda>(j, r). \<not> is_tool_confirmation r) (me_pending m)"
    and "confirmation_consume sha (memory_run sha m ops) i user approved session now = (m', Inr (Some g))" and "user \<noteq> []"
  shows "approved \<and> map_of (me_pending m') i = None
    \<and> (\<exists>ttl tool ps ctx identity reason risk plan_id asked.
         Request_Op ttl tool ps ctx reason risk plan_id i asked \<in> set ops \<and> or_dict (pget ctx ''identity'') = Inr identity
         \<and> now - asked \<le> ttl \<and> kept m (pget identity ''user_id'') = PStr user
         \<and> cg_tool_id g = kept m (PStr tool) \<and> PDict (cg_params g) = kept m (redact_value (PDict ps))
         \<and> broker_hash sha (PDict (cg_params g)) = broker_hash sha (redact_value (PDict ps))
         \<and> (case session of None \<Rightarrow> True
            | Some x \<Rightarrow> identity_binding sha (PStr user) (PStr x)
                = identity_binding sha (pget identity ''user_id'') (dict_get identity ''session_id'' (PStr []))))"
proof -
  let ?m = "memory_run sha m ops"
  have "snd (confirmation_consume sha ?m i user approved session now) = Inr (Some g)"
    using assms(3) by simp
  then obtain r where r: "map_of (me_pending ?m) i = Some r" "is_tool_confirmation r" "approved" "stored_user r = PStr user"
    "check_bindings sha r user session = Inr ()" "now - pa_created_at r \<le> pa_ttl_seconds r"
    "m' = ?m\<lparr>me_pending := AList.delete i (me_pending ?m)\<rparr>"
    "cg_tool_id g = pget (pa_params r) ''tool_id''" "cg_params g = as_dict (pget (pa_params r) ''params'')"
    using assms(3,4) by (elim consume_grants) auto
  have "map_of (me_pending m) i \<noteq> Some r"
    using assms(2) r(2) by (auto simp: list_all_iff dest!: map_of_SomeD)
  with requested_run [OF r(1)] have "requested sha ops m i r" by blast
  then obtain ttl tool ps ctx identity reason risk plan_id asked where
    q: "Request_Op ttl tool ps ctx reason risk plan_id i asked \<in> set ops" "or_dict (pget ctx ''identity'') = Inr identity"
    and k: "r = (confirmation_record sha ttl tool ps ctx identity reason risk plan_id i asked)\<lparr>pa_params := stored_params m
        (confirmation_record sha ttl tool ps ctx identity reason risk plan_id i asked)\<rparr>"
    unfolding requested_def Let_def by blast
  note f = kept_fields [OF refl k]
  obtain d where d: "kept m (redact_value (PDict ps)) = PDict d" using kept_redacted by blast
  have g: "cg_params g = d" using r(9) unfolding f(4) d by (simp only: as_dict.simps)
  have h: "broker_hash sha v \<noteq> []" "identity_binding sha u w \<noteq> []" for v u w
    using assms(1) by (simp_all add: identity_binding_def broker_hash_def)
  have hash: "broker_hash sha (PDict (cg_params g)) = broker_hash sha (redact_value (PDict ps))"
    and sess: "case session of None \<Rightarrow> True
       | Some x \<Rightarrow> identity_binding sha (PStr user) (PStr x)
           = identity_binding sha (pget identity ''user_id'') (dict_get identity ''session_id'' (PStr []))"
    using r(5) h unfolding check_bindings_def f(4) d as_dict.simps g
    by (auto simp: k simp del: redact_value.simps split: if_splits option.splits)
  have age: "now - asked \<le> ttl" using r(6) by (simp add: k)
  have tool: "cg_tool_id g = kept m (PStr tool)" unfolding r(8) f(3) ..
  have "map_of (me_pending m') i = None" unfolding r(7) by (simp add: delete_conv')
  moreover have "kept m (pget identity ''user_id'') = PStr user" unfolding f(2) [symmetric] by (rule r(4))
  moreover have "PDict (cg_params g) = kept m (redact_value (PDict ps))" unfolding g d ..
  ultimately show ?thesis
    using r(3) q age tool hash sess
    by (intro conjI exI [of _ ttl] exI [of _ tool] exI [of _ ps] exI [of _ ctx] exI [of _ identity] exI [of _ reason]
        exI [of _ risk] exI [of _ plan_id] exI [of _ asked]) assumption+
qed


lemma demo_consume:
  "\<exists>m' g. confirmation_consume tagged (memory_step tagged demo_memory (hd demo_ops)) ''a1'' ''u'' True
     (Some ''s'') 5 = (m', Inr (Some g))"
proof -
  have "case snd (confirmation_consume tagged (memory_step tagged demo_memory (hd demo_ops)) ''a1'' ''u''
      True (Some ''s'') 5) of Inr (Some g) \<Rightarrow> True | _ \<Rightarrow> False"
    by code_simp
  then show ?thesis
    by (cases "confirmation_consume tagged (memory_step tagged demo_memory (hd demo_ops)) ''a1'' ''u'' True
      (Some ''s'') 5") (auto split: sum.splits option.splits)
qed

theorem confirmation_grant_bound_witness:
  "\<exists>m' g. confirmation_consume tagged (memory_run tagged demo_memory (take 1 demo_ops)) ''a1'' ''u'' True (Some ''s'') 5
      = (m', Inr (Some g))
    \<and> map_of (me_pending m') ''a1'' = None
    \<and> (\<exists>ttl tool ps ctx identity reason risk plan_id asked.
         Request_Op ttl tool ps ctx reason risk plan_id ''a1'' asked \<in> set demo_ops
         \<and> cg_tool_id g = kept demo_memory (PStr tool))"
proof -
  obtain m' g where c: "confirmation_consume tagged (memory_run tagged demo_memory (take 1 demo_ops)) ''a1'' ''u'' True
      (Some ''s'') 5 = (m', Inr (Some g))"
    using demo_consume by (auto simp: memory_run_def demo_ops_def)
  have "list_all (\<lambda>(j, r). \<not> is_tool_confirmation r) (me_pending demo_memory)" "''u'' \<noteq> []" "\<And>v. tagged v \<noteq> []"
    by (simp_all add: demo_memory_def tagged_def)
  from confirmation_grant_bound [OF this(3,1) c this(2)] c show ?thesis by (meson in_set_takeD)
qed






text \<open>What a confirmed call runs with is not what was asked: a string argument that merely contains a
  word such as token is replaced before it is stored, and the grant hands the replacement to the
  tool, with a parameter hash that matches it.\<close>

theorem confirmed_arguments_replaced:
  "let m = memory_step tagged demo_memory (Request_Op 600 ''filesystem.write''
         [(''path'', PStr ''/notes''), (''content'', PStr ''a token ring'')] demo_identity ''r'' ''high'' [] ''a1'' 0)
   in case snd (confirmation_consume tagged m ''a1'' ''u'' True (Some ''s'') 5) of
        Inr (Some g) \<Rightarrow>
          cg_params g = [(''path'', PStr ''/notes''), (''content'', PStr ''<REDACTED>'')]
          \<and> cg_params_hash g = broker_hash tagged (PDict (cg_params g))
      | _ \<Rightarrow> False"
  by code_simp


section \<open>Steps in order\<close>

text \<open>The broker issues a step of a plan only when every earlier step has been consumed: no step is
  skipped and none is issued ahead.\<close>

theorem steps_issued_in_order:
  assumes "issue_next_step_grant sha db gid user session ident step_id index tool ps expires new_id now ts
      = (db', Inr c)"
    and "0 \<le> i" and "i < index"
  shows "\<exists>sid s. (sid, s) \<in> set (db_steps db) \<and> st_plan_grant_id s = gid \<and> st_step_index s = i
    \<and> st_status s = Consumed"
proof -
  have "list_all (consumed_at_index db gid) [0..index - 1]"
    using assms(1) by (auto simp: issue_next_step_grant_def split: option.splits if_splits)
  then have "consumed_at_index db gid i" using assms(2,3) by (simp add: list_all_iff)
  then obtain sid s where "step_at db gid i = Some (sid, s)" "st_status s = Consumed"
    by (auto simp: consumed_at_index_def split: option.splits)
  then show ?thesis unfolding step_at_def by (auto dest: find_SomeD)
qed

definition demo_progress :: grant_db where
  \<comment> \<open>the sample plan in progress with its first step consumed\<close>
  "demo_progress = grant_run empty_db (sample_ops @ [Consume_Step ''sg'' sample_binding ''2026'' ''2026''])"

lemma demo_next:
  "\<exists>db' c. issue_next_step_grant tagged demo_progress ''g'' ''u'' ''s'' ''i'' ''s1'' 1 ''t'' (PDict []) ''2030''
     ''sg2'' ''2026'' ''2026'' = (db', Inr c)"
proof -
  have "\<not> is_err (snd (issue_next_step_grant tagged demo_progress ''g'' ''u'' ''s'' ''i'' ''s1'' 1 ''t'' (PDict [])
      ''2030'' ''sg2'' ''2026'' ''2026''))"
    by code_simp
  then show ?thesis
    by (cases "issue_next_step_grant tagged demo_progress ''g'' ''u'' ''s'' ''i'' ''s1'' 1 ''t'' (PDict []) ''2030''
      ''sg2'' ''2026'' ''2026''"; cases "snd (issue_next_step_grant tagged demo_progress ''g'' ''u'' ''s'' ''i'' ''s1''
      1 ''t'' (PDict []) ''2030'' ''sg2'' ''2026'' ''2026'')") auto
qed

theorem steps_issued_in_order_witness:
  "\<exists>sid s. (sid, s) \<in> set (db_steps demo_progress) \<and> st_plan_grant_id s = ''g'' \<and> st_step_index s = 0
    \<and> st_status s = Consumed"
proof -
  obtain db' c where "issue_next_step_grant tagged demo_progress ''g'' ''u'' ''s'' ''i'' ''s1'' 1 ''t'' (PDict [])
      ''2030'' ''sg2'' ''2026'' ''2026'' = (db', Inr c)"
    using demo_next by blast
  then show ?thesis by (rule steps_issued_in_order) simp_all
qed

text \<open>Redaction does not look into lists: a list of strings under a harmless key is stored as it is,
  secrets included.\<close>

theorem lists_not_redacted:
  "redact_value (PDict [(''args'', PList [PStr ''--password=hunter2''])])
     = PDict [(''args'', PList [PStr ''--password=hunter2''])]
   \<and> redact_value (PDict [(''args'', PStr ''--password=hunter2'')])
     = PDict [(''args'', PStr ''<REDACTED>'')]"
  by code_simp

end
