(* ===== verification/Circuit_Breaker.thy ===== *)
theory Circuit_Breaker
  imports Py_Prelude
begin

text \<open>
  \<open>sentinel/core/circuit_breaker.py\<close>: the per-provider circuit breaker.

  The record holds the five dictionaries of \<open>CircuitBreaker\<close>; each method is one
  definition taking the clock reading it makes. The second half states the contract as a
  small automaton per provider (\<open>breaker_view\<close>) and proves that every method refines it and
  leaves the other providers alone, that the invariant linking the dictionaries is kept, and
  what follows for probes and cool-down.
\<close>

section \<open>State and operations\<close>

datatype circuit_state = CLOSED | OPEN | HALF_OPEN

record breaker =
  cb_threshold :: int
  cb_cooldown :: rat
  cb_failures :: "(string \<times> int) list"
  cb_states :: "(string \<times> circuit_state) list"
  cb_last_failure :: "(string \<times> rat) list"
  cb_last_success :: "(string \<times> rat) list"
  cb_probe :: "(string \<times> bool) list"

definition cb_init :: "int \<Rightarrow> rat \<Rightarrow> breaker" where
  "cb_init threshold cooldown =
     \<lparr>cb_threshold = threshold, cb_cooldown = cooldown, cb_failures = [], cb_states = [],
      cb_last_failure = [], cb_last_success = [], cb_probe = []\<rparr>"

definition state_of :: "breaker \<Rightarrow> string \<Rightarrow> circuit_state" where
  "state_of b p = dict_get (cb_states b) p CLOSED"

definition probing :: "breaker \<Rightarrow> string \<Rightarrow> bool" where
  "probing b p = dict_get (cb_probe b) p False"

definition record_success :: "breaker \<Rightarrow> string \<Rightarrow> rat \<Rightarrow> breaker" where
  "record_success b p now =
     b\<lparr>cb_failures := AList.update p 0 (cb_failures b),
       cb_states := AList.update p CLOSED (cb_states b),
       cb_probe := AList.delete p (cb_probe b),
       cb_last_success := AList.update p now (cb_last_success b)\<rparr>"

definition record_failure :: "breaker \<Rightarrow> string \<Rightarrow> rat \<Rightarrow> breaker" where
  "record_failure b p now =
     (let count = dict_get (cb_failures b) p 0 + 1;
          b1 = b\<lparr>cb_failures := AList.update p count (cb_failures b),
                 cb_last_failure := AList.update p now (cb_last_failure b)\<rparr>
      in if state_of b p = HALF_OPEN \<or> cb_threshold b \<le> count
         then b1\<lparr>cb_states := AList.update p OPEN (cb_states b),
                 cb_probe := AList.delete p (cb_probe b)\<rparr>
         else b1)"

definition allow_request :: "breaker \<Rightarrow> string \<Rightarrow> rat \<Rightarrow> breaker \<times> bool" where
  "allow_request b p now =
     (case state_of b p of
        CLOSED \<Rightarrow> (b, True)
      | OPEN \<Rightarrow>
          (case map_of (cb_last_failure b) p of
             Some t \<Rightarrow>
               if cb_cooldown b \<le> now - t
               then (b\<lparr>cb_states := AList.update p HALF_OPEN (cb_states b),
                       cb_probe := AList.update p True (cb_probe b)\<rparr>, True)
               else (b, False)
           | None \<Rightarrow> (b, False))
      | HALF_OPEN \<Rightarrow>
          if probing b p then (b, False)
          else (b\<lparr>cb_probe := AList.update p True (cb_probe b)\<rparr>, True))"

record breaker_report =
  rp_provider :: string
  rp_state :: circuit_state
  rp_failures :: int
  rp_threshold :: int
  rp_cooldown :: rat
  rp_remaining :: rat
  rp_last_failure :: "rat option"
  rp_last_success :: "rat option"
  rp_probe :: bool

definition get_state :: "breaker \<Rightarrow> string \<Rightarrow> rat \<Rightarrow> breaker_report" where
  "get_state b p now =
     (let st = state_of b p;
          last_fail = map_of (cb_last_failure b) p;
          remaining = (case last_fail of
             Some t \<Rightarrow> if st = OPEN then max 0 (cb_cooldown b - (now - t)) else 0
           | None \<Rightarrow> 0)
      in \<lparr>rp_provider = p, rp_state = st, rp_failures = dict_get (cb_failures b) p 0,
          rp_threshold = cb_threshold b, rp_cooldown = cb_cooldown b,
          rp_remaining = py_round 1 remaining, rp_last_failure = last_fail,
          rp_last_success = map_of (cb_last_success b) p, rp_probe = probing b p\<rparr>)"

definition get_all_states :: "breaker \<Rightarrow> rat \<Rightarrow> breaker_report list" where
  "get_all_states b now =
     map (\<lambda>p. get_state b p now) (py_sorted (keys (cb_states b) @ keys (cb_failures b)))"

definition availability_score :: "breaker \<Rightarrow> string \<Rightarrow> rat \<Rightarrow> rat" where
  "availability_score b p now =
     (let r = get_state b p now
      in case rp_state r of
           CLOSED \<Rightarrow> 100
         | HALF_OPEN \<Rightarrow> 50
         | OPEN \<Rightarrow> max 0 (50 - min 50 (of_int (rp_failures r) * 15)))"

definition recovery_seconds :: "breaker \<Rightarrow> string \<Rightarrow> rat \<Rightarrow> rat" where
  "recovery_seconds b p now = rp_remaining (get_state b p now)"

definition total_failures :: "breaker \<Rightarrow> string \<Rightarrow> int" where
  "total_failures b p = dict_get (cb_failures b) p 0"

definition cb_reset :: "breaker \<Rightarrow> string option \<Rightarrow> breaker \<times> nat" where
  "cb_reset b pid =
     (case pid of
        Some (c # cs) \<Rightarrow>
          (let p = c # cs in
           (b\<lparr>cb_failures := AList.delete p (cb_failures b),
              cb_states := AList.delete p (cb_states b),
              cb_last_failure := AList.delete p (cb_last_failure b),
              cb_last_success := AList.delete p (cb_last_success b),
              cb_probe := AList.delete p (cb_probe b)\<rparr>, 1))
      | _ \<Rightarrow>
          (b\<lparr>cb_failures := [], cb_states := [], cb_last_failure := [],
             cb_last_success := [], cb_probe := []\<rparr>, length (cb_failures b)))"


section \<open>Events and runs\<close>

datatype cb_event =
    Success string rat
  | Failure string rat
  | Request string rat
  | Reset "string option"

fun cb_step :: "breaker \<Rightarrow> cb_event \<Rightarrow> breaker" where
  "cb_step b (Success p now) = record_success b p now"
| "cb_step b (Failure p now) = record_failure b p now"
| "cb_step b (Request p now) = fst (allow_request b p now)"
| "cb_step b (Reset pid) = fst (cb_reset b pid)"

fun cb_run :: "breaker \<Rightarrow> cb_event list \<Rightarrow> breaker" where
  "cb_run b [] = b"
| "cb_run b (e # es) = cb_run (cb_step b e) es"

text \<open>The answers that the requests for \<open>p\<close> get along a run.\<close>

fun cb_answers :: "breaker \<Rightarrow> string \<Rightarrow> cb_event list \<Rightarrow> bool list" where
  "cb_answers b p [] = []"
| "cb_answers b p (e # es) =
     (case e of Request q now \<Rightarrow> if q = p then [snd (allow_request b p now)] else [] | _ \<Rightarrow> [])
     @ cb_answers (cb_step b e) p es"

lemma cb_run_append [simp]: "cb_run b (es @ fs) = cb_run (cb_run b es) fs"
  by (induction es arbitrary: b) auto


section \<open>The contract: one automaton per provider\<close>

datatype breaker_view =
    Closed int
  | Open int rat
  | Probing int

definition cb_view :: "breaker \<Rightarrow> string \<Rightarrow> breaker_view" where
  "cb_view b p =
     (let n = dict_get (cb_failures b) p 0
      in case state_of b p of
           CLOSED \<Rightarrow> Closed n
         | OPEN \<Rightarrow> Open n (dict_get (cb_last_failure b) p 0)
         | HALF_OPEN \<Rightarrow> Probing n)"

fun view_success :: "breaker_view \<Rightarrow> breaker_view" where
  "view_success _ = Closed 0"

fun view_failure :: "int \<Rightarrow> rat \<Rightarrow> breaker_view \<Rightarrow> breaker_view" where
  "view_failure k now (Closed n) = (if k \<le> n + 1 then Open (n + 1) now else Closed (n + 1))"
| "view_failure k now (Open n t) = Open (n + 1) now"
| "view_failure k now (Probing n) = Open (n + 1) now"

fun view_request :: "rat \<Rightarrow> rat \<Rightarrow> breaker_view \<Rightarrow> breaker_view \<times> bool" where
  "view_request cool now (Closed n) = (Closed n, True)"
| "view_request cool now (Open n t) =
     (if cool \<le> now - t then (Probing n, True) else (Open n t, False))"
| "view_request cool now (Probing n) = (Probing n, False)"

text \<open>Which providers a reset clears: all of them when no identifier (or an empty one) is given.\<close>

fun reset_hits :: "string option \<Rightarrow> string \<Rightarrow> bool" where
  "reset_hits (Some (c # cs)) q = (c # cs = q)"
| "reset_hits _ q = True"

fun view_step :: "int \<Rightarrow> rat \<Rightarrow> string \<Rightarrow> breaker_view \<Rightarrow> cb_event \<Rightarrow> breaker_view" where
  "view_step k cool q v (Success p now) = (if p = q then view_success v else v)"
| "view_step k cool q v (Failure p now) = (if p = q then view_failure k now v else v)"
| "view_step k cool q v (Request p now) = (if p = q then fst (view_request cool now v) else v)"
| "view_step k cool q v (Reset pid) =
     (if reset_hits pid q then Closed 0 else v)"


section \<open>The invariant\<close>

text \<open>
  An open circuit remembers when it failed, an admitted probe is in flight exactly while the
  circuit is half open, failure counts are not negative, and a closed circuit has fewer than
  \<open>threshold\<close> failures behind it.
\<close>

definition cb_inv_at :: "breaker \<Rightarrow> string \<Rightarrow> bool" where
  "cb_inv_at b p \<longleftrightarrow>
     (state_of b p = OPEN \<longrightarrow> map_of (cb_last_failure b) p \<noteq> None)
     \<and> (probing b p \<longleftrightarrow> state_of b p = HALF_OPEN)
     \<and> 0 \<le> dict_get (cb_failures b) p 0
     \<and> (state_of b p = CLOSED \<longrightarrow> 0 < cb_threshold b
          \<longrightarrow> dict_get (cb_failures b) p 0 < cb_threshold b)"

definition cb_inv :: "breaker \<Rightarrow> bool" where
  "cb_inv b \<longleftrightarrow> (\<forall>p. cb_inv_at b p)"

lemmas cb_ops = record_success_def record_failure_def allow_request_def cb_reset_def
  state_of_def probing_def

lemma cb_op_config [simp]:
  "cb_threshold (record_success b p now) = cb_threshold b"
  "cb_cooldown (record_success b p now) = cb_cooldown b"
  "cb_threshold (record_failure b p now) = cb_threshold b"
  "cb_cooldown (record_failure b p now) = cb_cooldown b"
  "cb_threshold (fst (allow_request b p now)) = cb_threshold b"
  "cb_cooldown (fst (allow_request b p now)) = cb_cooldown b"
  "cb_threshold (fst (cb_reset b pid)) = cb_threshold b"
  "cb_cooldown (fst (cb_reset b pid)) = cb_cooldown b"
  by (simp_all add: cb_ops Let_def split: circuit_state.split option.split list.split)

lemma cb_step_config [simp]:
  "cb_threshold (cb_step b e) = cb_threshold b" "cb_cooldown (cb_step b e) = cb_cooldown b"
  by (cases e; simp)+

lemma cb_run_config [simp]:
  "cb_threshold (cb_run b es) = cb_threshold b" "cb_cooldown (cb_run b es) = cb_cooldown b"
  by (induction es arbitrary: b) auto

text \<open>
  The observers of a provider after each operation; the proofs below use only these.
\<close>

abbreviation fails :: "breaker \<Rightarrow> string \<Rightarrow> int" where
  "fails b p \<equiv> dict_get (cb_failures b) p 0"

abbreviation last_fail :: "breaker \<Rightarrow> string \<Rightarrow> rat option" where
  "last_fail b \<equiv> map_of (cb_last_failure b)"

lemma obs_success [simp]:
  "state_of (record_success b p now) q = (if q = p then CLOSED else state_of b q)"
  "probing (record_success b p now) q = (if q = p then False else probing b q)"
  "fails (record_success b p now) q = (if q = p then 0 else fails b q)"
  "last_fail (record_success b p now) = last_fail b"
  by (simp_all add: record_success_def state_of_def probing_def)

lemma obs_failure [simp]:
  "state_of (record_failure b p now) q =
     (if q = p \<and> (state_of b p = HALF_OPEN \<or> cb_threshold b \<le> fails b p + 1) then OPEN
      else state_of b q)"
  "probing (record_failure b p now) q =
     (if q = p \<and> (state_of b p = HALF_OPEN \<or> cb_threshold b \<le> fails b p + 1) then False
      else probing b q)"
  "fails (record_failure b p now) q = (if q = p then fails b p + 1 else fails b q)"
  "last_fail (record_failure b p now) = (last_fail b)(p \<mapsto> now)"
  by (simp_all add: record_failure_def state_of_def probing_def Let_def)

definition may_probe :: "breaker \<Rightarrow> string \<Rightarrow> rat \<Rightarrow> bool" where
  "may_probe b p now \<longleftrightarrow>
     (state_of b p = OPEN \<and> (\<exists>t. last_fail b p = Some t \<and> cb_cooldown b \<le> now - t))
     \<or> (state_of b p = HALF_OPEN \<and> \<not> probing b p)"

lemma allow_request_eq:
  "snd (allow_request b p now) = (state_of b p = CLOSED \<or> may_probe b p now)"
  by (auto simp: allow_request_def may_probe_def split: circuit_state.split option.split)

lemma obs_request [simp]:
  "state_of (fst (allow_request b p now)) q =
     (if q = p \<and> may_probe b p now then HALF_OPEN else state_of b q)"
  "probing (fst (allow_request b p now)) q =
     (if q = p \<and> may_probe b p now then True else probing b q)"
  "cb_failures (fst (allow_request b p now)) = cb_failures b"
  "cb_last_failure (fst (allow_request b p now)) = cb_last_failure b"
  by (cases "state_of b p"; cases "last_fail b p";
      simp add: allow_request_def may_probe_def state_of_def probing_def)+

lemma obs_reset [simp]:
  "state_of (fst (cb_reset b pid)) q = (if reset_hits pid q then CLOSED else state_of b q)"
  "probing (fst (cb_reset b pid)) q = (if reset_hits pid q then False else probing b q)"
  "fails (fst (cb_reset b pid)) q = (if reset_hits pid q then 0 else fails b q)"
  "last_fail (fst (cb_reset b pid)) q = (if reset_hits pid q then None else last_fail b q)"
  by (cases "(pid, q)" rule: reset_hits.cases;
      simp add: cb_reset_def state_of_def probing_def Let_def)+

lemma cb_init_inv: "cb_inv (cb_init k c)"
  by (simp add: cb_inv_def cb_inv_at_def cb_init_def state_of_def probing_def)

lemma cb_step_inv_at: "cb_inv_at b q \<Longrightarrow> cb_inv_at (cb_step b e) q"
proof (cases e)
  case (Success p now)
  assume "cb_inv_at b q"
  with Success show ?thesis by (simp add: cb_inv_at_def)
next
  case (Failure p now)
  assume "cb_inv_at b q"
  with Failure show ?thesis by (cases "p = q") (simp_all add: cb_inv_at_def)
next
  case (Request p now)
  assume "cb_inv_at b q"
  with Request show ?thesis by (cases "p = q") (simp_all add: cb_inv_at_def may_probe_def)
next
  case (Reset pid)
  assume "cb_inv_at b q"
  with Reset show ?thesis by (simp add: cb_inv_at_def)
qed

lemma cb_step_inv: "cb_inv b \<Longrightarrow> cb_inv (cb_step b e)"
  by (simp add: cb_inv_def cb_step_inv_at)

lemma cb_run_inv: "cb_inv b \<Longrightarrow> cb_inv (cb_run b es)"
  by (induction es arbitrary: b) (auto intro: cb_step_inv)

lemma cb_reachable_inv: "cb_inv (cb_run (cb_init k c) es)"
  by (rule cb_run_inv [OF cb_init_inv])


section \<open>Refinement\<close>

lemma cb_view_eq:
  "cb_view b q = (case state_of b q of
     CLOSED \<Rightarrow> Closed (fails b q)
   | OPEN \<Rightarrow> Open (fails b q) (case last_fail b q of None \<Rightarrow> 0 | Some t \<Rightarrow> t)
   | HALF_OPEN \<Rightarrow> Probing (fails b q))"
  unfolding cb_view_def Let_def dict_get_def [of "cb_last_failure b"] by (rule refl)

lemma may_probe_inv:
  "cb_inv b \<Longrightarrow> may_probe b q now \<longleftrightarrow>
     (\<exists>t. state_of b q = OPEN \<and> last_fail b q = Some t \<and> cb_cooldown b \<le> now - t)"
  by (auto simp: cb_inv_def cb_inv_at_def may_probe_def)

lemma inv_last_fail: "cb_inv b \<Longrightarrow> state_of b q = OPEN \<Longrightarrow> \<exists>t. last_fail b q = Some t"
  by (simp add: cb_inv_def cb_inv_at_def)

lemma cb_request_view:
  "cb_inv b \<Longrightarrow> cb_view (fst (allow_request b q now)) q
     = fst (view_request (cb_cooldown b) now (cb_view b q))"
  using inv_last_fail [of b q]
  by (cases "state_of b q") (auto simp: cb_view_eq may_probe_inv)

lemma cb_step_view:
  "cb_inv b \<Longrightarrow>
   cb_view (cb_step b e) q = view_step (cb_threshold b) (cb_cooldown b) q (cb_view b q) e"
proof (cases e)
  case (Success p now)
  then show ?thesis by (cases "state_of b q") (simp_all add: cb_view_eq)
next
  case (Failure p now)
  then show ?thesis by (cases "state_of b q") (simp_all add: cb_view_eq)
next
  case (Request p now)
  assume "cb_inv b"
  with Request show ?thesis
    by (cases "p = q"; cases "state_of b q") (simp_all add: cb_request_view, simp_all add: cb_view_eq)
next
  case (Reset pid)
  then show ?thesis
    by (cases "state_of b q") (simp_all add: cb_view_eq)
qed

lemma cb_request_answer:
  "cb_inv b \<Longrightarrow>
   snd (allow_request b q now) = snd (view_request (cb_cooldown b) now (cb_view b q))"
  using inv_last_fail [of b q]
  by (cases "state_of b q") (auto simp: cb_view_eq allow_request_eq may_probe_inv)

fun view_answers :: "int \<Rightarrow> rat \<Rightarrow> string \<Rightarrow> breaker_view \<Rightarrow> cb_event list \<Rightarrow> bool list" where
  "view_answers k cool q v [] = []"
| "view_answers k cool q v (e # es) =
     (case e of Request p now \<Rightarrow> if p = q then [snd (view_request cool now v)] else [] | _ \<Rightarrow> [])
     @ view_answers k cool q (view_step k cool q v e) es"

lemma cb_run_view:
  "cb_inv b \<Longrightarrow>
   cb_view (cb_run b es) q = foldl (view_step (cb_threshold b) (cb_cooldown b) q) (cb_view b q) es"
  by (induction es arbitrary: b) (simp_all add: cb_step_view cb_step_inv)

lemma cb_answers_view:
  "cb_inv b \<Longrightarrow>
   cb_answers b q es = view_answers (cb_threshold b) (cb_cooldown b) q (cb_view b q) es"
  by (induction es arbitrary: b)
    (auto simp: cb_step_view cb_step_inv cb_request_answer split: cb_event.split)

lemma cb_init_view [simp]: "cb_view (cb_init k c) q = Closed 0"
  by (simp add: cb_view_def cb_init_def state_of_def)

lemma cb_init_config [simp]: "cb_threshold (cb_init k c) = k" "cb_cooldown (cb_init k c) = c"
  by (simp_all add: cb_init_def)

lemma state_of_view:
  "state_of b q = (case cb_view b q of Closed n \<Rightarrow> CLOSED | Open n t \<Rightarrow> OPEN | Probing n \<Rightarrow> HALF_OPEN)"
  by (simp add: cb_view_def Let_def split: circuit_state.split)


section \<open>Properties\<close>

text \<open>C9: The circuit breaker is an implementation of the per-provider automaton: along every
  history of successes, failures, requests and resets of any providers, each provider's view
  and the answers its requests get are those of its own automaton.\<close>

theorem breaker_refines_automaton:
  "cb_view (cb_run (cb_init k c) es) q = foldl (view_step k c q) (Closed 0) es
   \<and> cb_answers (cb_init k c) q es = view_answers k c q (Closed 0) es"
  by (simp add: cb_run_view cb_answers_view cb_init_inv)

text \<open>An event that cannot release a pending probe of \<open>q\<close>.\<close>

fun no_outcome :: "string \<Rightarrow> cb_event \<Rightarrow> bool" where
  "no_outcome q (Success p now) = (p \<noteq> q)"
| "no_outcome q (Failure p now) = (p \<noteq> q)"
| "no_outcome q (Request p now) = True"
| "no_outcome q (Reset pid) = (\<not> reset_hits pid q)"

lemma view_probing_stuck:
  "list_all (no_outcome q) es \<Longrightarrow>
   foldl (view_step k c q) (Probing n) es = Probing n
   \<and> list_all Not (view_answers k c q (Probing n) es)"
proof (induction es)
  case Nil
  then show ?case by simp
next
  case (Cons e es)
  then show ?case by (cases e) (auto split: option.splits list.splits)
qed

lemma probing_stuck:
  assumes "cb_inv b" and "cb_view b q = Probing n" and "list_all (no_outcome q) es"
  shows "cb_view (cb_run b es) q = Probing n \<and> list_all Not (cb_answers b q es)"
  using assms view_probing_stuck [of q es] by (simp add: cb_run_view cb_answers_view)

text \<open>At most one recovery probe: once a provider is half open with its probe admitted, every
  further request for it is refused, however many arrive and however late, until a success, a
  failure or a reset for that provider is recorded.\<close>

theorem half_open_admits_one_probe:
  assumes "cb_view (cb_run (cb_init k c) es) q = Probing n" and "list_all (no_outcome q) fs"
  shows "cb_view (cb_run (cb_init k c) (es @ fs)) q = Probing n
    \<and> list_all Not (cb_answers (cb_run (cb_init k c) es) q fs)"
  using probing_stuck [OF cb_reachable_inv assms] by simp

theorem half_open_admits_one_probe_witness:
  "cb_view (cb_run (cb_init 1 10) ([Failure ''a'' 0, Request ''a'' 10] @ [Request ''a'' 500])) ''a''
     = Probing 1
   \<and> list_all Not (cb_answers (cb_run (cb_init 1 10) [Failure ''a'' 0, Request ''a'' 10]) ''a''
       [Request ''a'' 500])"
  by (rule half_open_admits_one_probe) (simp_all add: cb_view_eq cb_ops cb_init_def)

lemma view_failures:
  "foldl (view_step k c q) (Closed n) (map (Failure q) ts) =
     (if ts = [] \<or> n + int (length ts) < k then Closed (n + int (length ts))
      else Open (n + int (length ts)) (last ts))"
proof (induction ts rule: rev_induct)
  case Nil
  then show ?case by simp
next
  case (snoc t ts)
  then show ?case by auto
qed

text \<open>The circuit opens exactly when \<open>failure_threshold\<close> consecutive failures have been recorded
  since the last success, whatever happened before that success.\<close>

theorem opens_at_threshold:
  assumes "0 < k"
  shows "state_of (cb_run (cb_init k c) (es @ Success q t # map (Failure q) ts)) q = OPEN
    \<longleftrightarrow> k \<le> int (length ts)"
  using assms by (auto simp: state_of_view cb_run_view cb_reachable_inv cb_step_inv view_failures cb_step_view
      simp del: cb_step.simps)

theorem opens_at_threshold_witness:
  "state_of (cb_run (cb_init 2 30) ([] @ Success ''p'' 0 # map (Failure ''p'') [1, 2])) ''p'' = OPEN
   \<longleftrightarrow> (2::int) \<le> int (length [1, 2 :: rat])"
  by (rule opens_at_threshold) simp

text \<open>An open circuit fails fast: until the cool-down since the last recorded failure has passed,
  every request is refused and nothing changes.\<close>

theorem open_circuit_rejects:
  assumes "state_of b q = OPEN" and "map_of (cb_last_failure b) q = Some t"
    and "now - t < cb_cooldown b"
  shows "allow_request b q now = (b, False)"
  using assms by (simp add: allow_request_def)

theorem open_circuit_rejects_witness:
  "allow_request (cb_run (cb_init 1 30) [Failure ''p'' 5]) ''p'' 20
     = (cb_run (cb_init 1 30) [Failure ''p'' 5], False)"
  by (rule open_circuit_rejects [where t = 5]) (simp_all add: cb_ops cb_init_def)

end
