(* ===== verification/Hardening.thy ===== *)
theory Hardening
  imports Circuit_Breaker Recovery Security_Models
begin

text \<open>
  \<open>sentinel/core/hardening.py\<close> (without the retry loop, which is in \<open>Recovery\<close>, and the machine
  load of \<open>check_system_health\<close>, which \<open>psutil\<close> measures), and the result type of
  \<open>sentinel/core/tool.py\<close>. The service owns one circuit breaker for all tools.
\<close>

section \<open>Tool specifications and results\<close>

datatype tool_status = ACTIVE | DISABLED

record tool_spec =
  ts_id :: string
  ts_required_permissions :: "string list"
  ts_timeout_seconds :: nat
  ts_status :: tool_status

record tool_result =
  tr_success :: bool
  tr_data :: pyval
  tr_error :: "string option"
  tr_tool_id :: string
  tr_duration_ms :: "rat option"
  tr_requires_confirmation :: bool
  tr_policy_decision :: "string option"
  tr_policy_result :: "params option"
  tr_quality_result :: "params option"

definition tool_ok :: "pyval \<Rightarrow> string \<Rightarrow> tool_result" where
  "tool_ok data tool =
     \<lparr>tr_success = True, tr_data = data, tr_error = None, tr_tool_id = tool, tr_duration_ms = None,
      tr_requires_confirmation = False, tr_policy_decision = None, tr_policy_result = None,
      tr_quality_result = None\<rparr>"

definition tool_fail :: "string \<Rightarrow> string \<Rightarrow> tool_result" where
  "tool_fail err tool =
     \<lparr>tr_success = False, tr_data = PNone, tr_error = Some err, tr_tool_id = tool, tr_duration_ms = None,
      tr_requires_confirmation = False, tr_policy_decision = None, tr_policy_result = None,
      tr_quality_result = None\<rparr>"

definition needs_confirm :: "string \<Rightarrow> string \<Rightarrow> string \<Rightarrow> tool_result" where
  "needs_confirm reason tool policy_id =
     \<lparr>tr_success = False, tr_data = PNone, tr_error = Some reason, tr_tool_id = tool, tr_duration_ms = None,
      tr_requires_confirmation = True, tr_policy_decision = Some policy_id, tr_policy_result = None,
      tr_quality_result = None\<rparr>"


section \<open>Configuration\<close>

record hardening_config =
  hc_timeout_seconds :: int
  hc_threshold :: int
  hc_cooldown :: rat
  hc_retry_jitter :: rat
  hc_overrides :: "(string \<times> params) list"

definition hardening_defaults :: hardening_config where
  "hardening_defaults =
     \<lparr>hc_timeout_seconds = 30, hc_threshold = 3, hc_cooldown = 30, hc_retry_jitter = 1/10, hc_overrides = []\<rparr>"

definition override_of :: "hardening_config \<Rightarrow> string \<Rightarrow> params" where
  "override_of c tool = dict_get (hc_overrides c) tool []"

definition get_timeout :: "hardening_config \<Rightarrow> string \<Rightarrow> pyval" where
  "get_timeout c tool = dict_get (override_of c tool) ''timeout_seconds'' (PInt (hc_timeout_seconds c))"

definition get_threshold :: "hardening_config \<Rightarrow> string \<Rightarrow> pyval" where
  "get_threshold c tool = dict_get (override_of c tool) ''circuit_breaker_threshold'' (PInt (hc_threshold c))"


section \<open>The service\<close>

record hardening_stats =
  hs_timeouts :: nat
  hs_circuit_blocks :: nat
  hs_retries_attempted :: nat
  hs_retries_successful :: nat
  hs_failures :: "(string \<times> nat) list"

record hardening =
  hd_config :: hardening_config
  hd_breaker :: breaker
  hd_stats :: hardening_stats

definition hardening_new :: "hardening_config \<Rightarrow> hardening" where
  "hardening_new c =
     \<lparr>hd_config = c, hd_breaker = cb_init (hc_threshold c) (hc_cooldown c),
      hd_stats = \<lparr>hs_timeouts = 0, hs_circuit_blocks = 0, hs_retries_attempted = 0,
        hs_retries_successful = 0,
        hs_failures = map (\<lambda>c. (category_value c, 0)) [TRANSIENT, FUNCTIONAL, POLICY, CIRCUIT_OPEN, FATAL]\<rparr>\<rparr>"

definition set_tool_override :: "hardening \<Rightarrow> string \<Rightarrow> params \<Rightarrow> hardening" where
  "set_tool_override h tool overrides =
     h\<lparr>hd_config := (hd_config h)\<lparr>hc_overrides :=
       AList.update tool (fold (\<lambda>(k, v). AList.update k v) overrides (override_of (hd_config h) tool))
         (hc_overrides (hd_config h))\<rparr>\<rparr>"

definition get_tool_override :: "hardening \<Rightarrow> string \<Rightarrow> params" where
  "get_tool_override h tool = override_of (hd_config h) tool"

definition remove_tool_override :: "hardening \<Rightarrow> string \<Rightarrow> hardening \<times> bool" where
  "remove_tool_override h tool =
     (h\<lparr>hd_config := (hd_config h)\<lparr>hc_overrides := AList.delete tool (hc_overrides (hd_config h))\<rparr>\<rparr>,
      map_of (hc_overrides (hd_config h)) tool \<noteq> None)"

abbreviation map_stats :: "(hardening_stats \<Rightarrow> hardening_stats) \<Rightarrow> hardening \<Rightarrow> hardening" where
  "map_stats f h \<equiv> h\<lparr>hd_stats := f (hd_stats h)\<rparr>"

definition record_timeout :: "hardening \<Rightarrow> hardening" where
  "record_timeout = map_stats (\<lambda>s. s\<lparr>hs_timeouts := Suc (hs_timeouts s)\<rparr>)"

definition record_circuit_block :: "hardening \<Rightarrow> hardening" where
  "record_circuit_block = map_stats (\<lambda>s. s\<lparr>hs_circuit_blocks := Suc (hs_circuit_blocks s)\<rparr>)"

definition record_retry :: "bool \<Rightarrow> hardening \<Rightarrow> hardening" where
  "record_retry success =
     map_stats (\<lambda>s. s\<lparr>hs_retries_attempted := Suc (hs_retries_attempted s),
       hs_retries_successful := (if success then Suc (hs_retries_successful s) else hs_retries_successful s)\<rparr>)"

definition classify_failure :: "string \<Rightarrow> hardening \<Rightarrow> hardening \<times> error_category" where
  "classify_failure err h =
     (let c = classify err in
      (map_stats (\<lambda>s. s\<lparr>hs_failures :=
          AList.update (category_value c) (Suc (dict_get (hs_failures s) (category_value c) 0)) (hs_failures s)\<rparr>) h,
       c))"

definition should_trip_circuit :: "error_category \<Rightarrow> bool" where
  "should_trip_circuit c \<longleftrightarrow> c \<in> {TRANSIENT, FATAL}"

record tool_health =
  th_tool_id :: string
  th_healthy :: bool
  th_circuit_state :: circuit_state
  th_failures :: int

definition check_tool_health :: "hardening \<Rightarrow> string \<Rightarrow> rat \<Rightarrow> tool_health" where
  "check_tool_health h tool now =
     (if tool = [] then \<lparr>th_tool_id = tool, th_healthy = True, th_circuit_state = CLOSED, th_failures = 0\<rparr>
      else
        (let s = get_state (hd_breaker h) tool now in
         \<lparr>th_tool_id = tool, th_healthy = rp_state s \<noteq> OPEN, th_circuit_state = rp_state s,
          th_failures = rp_failures s\<rparr>))"


section \<open>One call behind the breaker\<close>

text \<open>What the gateway tells the breaker about a call that it let through.\<close>

datatype call_end = Call_Ok | Call_Failed string | Call_Timeout

definition after_call :: "hardening \<Rightarrow> string \<Rightarrow> call_end \<Rightarrow> string \<Rightarrow> rat \<Rightarrow> hardening" where
  \<comment> \<open>\<open>timeout_text\<close> is the message that the gateway classifies after a timeout\<close>
  "after_call h tool e timeout_text now =
     (case e of
        Call_Ok \<Rightarrow> h\<lparr>hd_breaker := record_success (hd_breaker h) tool now\<rparr>
      | Call_Failed err \<Rightarrow>
          (let (h', c) = classify_failure err h in
           if should_trip_circuit c then h'\<lparr>hd_breaker := record_failure (hd_breaker h') tool now\<rparr> else h')
      | Call_Timeout \<Rightarrow>
          record_timeout (fst (classify_failure timeout_text
            (h\<lparr>hd_breaker := record_failure (hd_breaker h) tool now\<rparr>))))"

definition admit_call :: "hardening \<Rightarrow> string \<Rightarrow> rat \<Rightarrow> hardening \<times> bool" where
  \<comment> \<open>the gateway's question to the breaker before it runs a tool\<close>
  "admit_call h tool now =
     (let (b, ok) = allow_request (hd_breaker h) tool now;
          h' = h\<lparr>hd_breaker := b\<rparr>
      in if ok then (h', True) else (record_circuit_block h', False))"

fun calls :: "hardening \<Rightarrow> string \<Rightarrow> (rat \<times> call_end \<times> string \<times> rat) list \<Rightarrow> bool list" where
  \<comment> \<open>which of a sequence of calls, one after the other, are let through: each has the time of the
    request, how the call ends if it runs, the text after a timeout and the time at which it ends\<close>
  "calls h tool [] = []"
| "calls h tool ((start, e, txt, stop) # cs) =
     (let (h', ok) = admit_call h tool start
      in ok # calls (if ok then after_call h' tool e txt stop else h') tool cs)"

lemma admit_call_breaker:
  "hd_breaker (fst (admit_call h tool now)) = fst (allow_request (hd_breaker h) tool now)"
  "snd (admit_call h tool now) = snd (allow_request (hd_breaker h) tool now)"
  by (simp_all add: admit_call_def record_circuit_block_def case_prod_beta' Let_def)

lemma after_call_breaker:
  "hd_breaker (after_call h tool e txt now) =
     (case e of
        Call_Ok \<Rightarrow> record_success (hd_breaker h) tool now
      | Call_Failed err \<Rightarrow>
          if should_trip_circuit (classify err) then record_failure (hd_breaker h) tool now else hd_breaker h
      | Call_Timeout \<Rightarrow> record_failure (hd_breaker h) tool now)"
  by (cases e) (simp_all add: after_call_def classify_failure_def record_timeout_def Let_def)

lemma probing_refuses:
  assumes "cb_inv (hd_breaker h)" and "cb_view (hd_breaker h) tool = Probing n"
  shows "list_all Not (calls h tool cs)"
  using assms
proof (induction cs arbitrary: h)
  case Nil
  then show ?case by simp
next
  case (Cons c cs)
  obtain start e tt stop where c: "c = (start, e, tt, stop)" by (cases c)
  let ?h = "fst (admit_call h tool start)"
  have no: "snd (admit_call h tool start) = False"
    using Cons.prems by (simp add: admit_call_breaker cb_request_answer)
  have "cb_inv (hd_breaker ?h)"
    using cb_step_inv [OF Cons.prems(1), of "Request tool start"] by (simp add: admit_call_breaker)
  moreover have "cb_view (hd_breaker ?h) tool = Probing n"
    using Cons.prems by (simp add: admit_call_breaker cb_request_view)
  ultimately have "list_all Not (calls ?h tool cs)" by (rule Cons.IH)
  with no show ?case by (simp add: c case_prod_beta' Let_def)
qed

text \<open>C20: a recovery probe is lost when its call fails for a reason that is not the tool's health: a
  breaker that has let a probe through hears nothing of a call that ends in a functional, policy or
  circuit error, stays half open, and refuses every later call of that tool, however late.\<close>

theorem neutral_probe_locks_tool:
  assumes "cb_inv (hd_breaker h)" and "cb_view (hd_breaker h) tool = Open n t"
    and "cb_cooldown (hd_breaker h) \<le> start - t" and "\<not> should_trip_circuit (classify err)"
  shows "calls h tool ((start, Call_Failed err, txt, stop) # cs)
    = True # replicate (length cs) False"
proof -
  let ?h = "fst (admit_call h tool start)"
  have ok: "snd (admit_call h tool start) = True"
    using assms by (simp add: admit_call_breaker cb_request_answer)
  have inv: "cb_inv (hd_breaker ?h)"
    using cb_step_inv [OF assms(1), of "Request tool start"] by (simp add: admit_call_breaker)
  have view: "cb_view (hd_breaker ?h) tool = Probing n"
    using assms by (simp add: admit_call_breaker cb_request_view)
  have "list_all Not (calls (after_call ?h tool (Call_Failed err) txt stop) tool cs)"
    using inv view assms(4) by (intro probing_refuses) (simp_all add: after_call_breaker)
  moreover have "length (calls g tool cs) = length cs" for g
    by (induction cs arbitrary: g) (auto simp: case_prod_beta' Let_def)
  ultimately have "calls (after_call ?h tool (Call_Failed err) txt stop) tool cs = replicate (length cs) False"
    by (auto simp: list_all_iff list_eq_iff_nth_eq in_set_conv_nth)
  with ok show ?thesis by (simp add: case_prod_beta' Let_def)
qed

definition tripped_service :: hardening where
  "tripped_service =
     after_call (hardening_new (hardening_defaults\<lparr>hc_threshold := 1\<rparr>)) ''t'' (Call_Failed ''connection timeout'') [] 0"

lemma tripped_service_breaker: "hd_breaker tripped_service = cb_run (cb_init 1 30) [Failure ''t'' 0]"
  by code_simp

theorem neutral_probe_locks_tool_witness:
  "calls tripped_service ''t'' ((30, Call_Failed ''file not found'', [], 31) # [(1000, Call_Ok, [], 1001)])
     = True # replicate (length [(1000 :: rat, Call_Ok, [] :: string, 1001 :: rat)]) False"
proof (rule neutral_probe_locks_tool)
  show "cb_inv (hd_breaker tripped_service)"
    unfolding tripped_service_breaker by (rule cb_reachable_inv)
  show "cb_view (hd_breaker tripped_service) ''t'' = Open 1 0"
    by code_simp
  show "cb_cooldown (hd_breaker tripped_service) \<le> 30 - 0"
    by code_simp
  show "\<not> should_trip_circuit (classify ''file not found'')"
    by code_simp
qed

end
