(* ===== verification/Tool_Gateway.thy ===== *)
theory Tool_Gateway
  imports Policy_Engine Confirmation Quality_Gate
begin

text \<open>
  \<open>sentinel/core/tool_gateway.py\<close>: the gateway in front of every tool. \<open>execute\<close> is a sequence of
  stages, each of which may return early or raise; a stage maps the state to the new state and how
  it ended. The trace records the calls the gateway makes to its surroundings (event bus, audit
  service, the tool itself) in order; \<open>Ran\<close> is the call of the tool. What answers from outside (the
  tool, the context engine, the grounding engine, the audit service, clocks and drawn identifiers)
  is in the environment record, which every call gets anew. The confirmation broker keeps its
  pending actions in \<open>gw_memory\<close>, which the guard shares.
\<close>

section \<open>State and environment\<close>

datatype gateway_event =
    Emitted string string string
  | Policy_Emitted policy_event
  | Audited string pyval string pyval
  | Authorized string string params "params option"
  | Ran string params params

record gateway =
  gw_tools :: "(string \<times> tool_spec) list"
  gw_policy :: "policy_engine option"
  gw_audit :: bool
  gw_guard :: "nat option"
  gw_hardening :: "hardening option"
  gw_broker :: bool
  gw_memory :: memory
  gw_bus :: bool
  gw_trace :: "gateway_event list"

datatype run_end = Run_Returned tool_result | Run_Raised string | Run_Timed_Out

record gateway_env =
  ge_sha :: "string \<Rightarrow> string"
  ge_ttl :: rat
  ge_now :: rat
  ge_stop :: rat
  ge_action_id :: string
  ge_execution_id :: string
  ge_collect :: "(pyval \<times> pyval) result option"
  ge_services :: params
  ge_audit_raises :: bool
  ge_ground :: "(pyval \<Rightarrow> params \<Rightarrow> (bool \<times> string) result) option"
  ge_patterns :: "regex list"
  ge_run :: "string \<Rightarrow> params \<Rightarrow> params \<Rightarrow> pyval \<Rightarrow> run_end"

datatype 'a flow = Goes 'a | Returns tool_result | Raises py_exc

fun then_do :: "gateway \<times> 'a flow \<Rightarrow> ('a \<Rightarrow> gateway \<Rightarrow> gateway \<times> 'b flow) \<Rightarrow> gateway \<times> 'b flow" where
  "then_do (g, Goes x) f = f x g"
| "then_do (g, Returns r) f = (g, Returns r)"
| "then_do (g, Raises e) f = (g, Raises e)"

definition traced :: "gateway_event \<Rightarrow> gateway \<Rightarrow> gateway" where
  "traced e g = g\<lparr>gw_trace := gw_trace g @ [e]\<rparr>"

definition gw_emit :: "string \<Rightarrow> string \<Rightarrow> string \<Rightarrow> gateway \<Rightarrow> gateway" where
  "gw_emit typ tool status g = (if gw_bus g then traced (Emitted typ tool status) g else g)"

definition log_action :: "string \<Rightarrow> pyval \<Rightarrow> string \<Rightarrow> pyval \<Rightarrow> gateway \<Rightarrow> gateway" where
  "log_action action details status user g =
     (if gw_audit g then traced (Audited action details status user) g else g)"

fun exc_text :: "py_exc \<Rightarrow> string" where
  "exc_text (ValueError m) = m"
| "exc_text (KeyError m) = quoted m"
| "exc_text (PermissionError m) = m"
| "exc_text (IntegrityError m) = m"
| "exc_text (AnyException m) = m"


section \<open>Registration\<close>

definition gw_register :: "(tool_spec \<Rightarrow> py_exc option) \<Rightarrow> gateway \<Rightarrow> tool_spec \<Rightarrow> gateway \<times> unit result" where
  \<comment> \<open>the first argument is the capability registry, which may refuse the tool; it is stored before that\<close>
  "gw_register refuse g spec =
     (if ts_status spec = ACTIVE \<and> ts_required_permissions spec = []
      then (g, Inl (ValueError (''Active tool '' @ quoted (ts_id spec)
                      @ '' must declare at least one required permission'')))
      else if map_of (gw_tools g) (ts_id spec) \<noteq> None
      then (g, Inl (ValueError (''Tool '' @ quoted (ts_id spec) @ '' already registered'')))
      else (g\<lparr>gw_tools := AList.update (ts_id spec) spec (gw_tools g)\<rparr>,
            case refuse spec of None \<Rightarrow> Inr () | Some e \<Rightarrow> Inl e))"

definition gw_unregister :: "gateway \<Rightarrow> string \<Rightarrow> gateway result" where
  "gw_unregister g tool =
     (if map_of (gw_tools g) tool = None
      then Inl (KeyError (''Tool '' @ quoted tool @ '' not found''))
      else Inr (g\<lparr>gw_tools := AList.delete tool (gw_tools g)\<rparr>))"

definition get_spec :: "gateway \<Rightarrow> string \<Rightarrow> tool_spec option" where
  "get_spec g tool = map_of (gw_tools g) tool"

definition list_specs :: "gateway \<Rightarrow> tool_spec list" where
  "list_specs g = map snd (gw_tools g)"

definition list_active :: "gateway \<Rightarrow> tool_spec list" where
  "list_active g = filter (\<lambda>s. ts_status s = ACTIVE) (map snd (gw_tools g))"


section \<open>Checks before the policies\<close>

definition refusal :: "string \<Rightarrow> string \<Rightarrow> string \<Rightarrow> string \<Rightarrow> tool_result" where
  "refusal err tool policy_id reason =
     (tool_fail err tool)\<lparr>tr_policy_decision := Some policy_id,
       tr_policy_result := Some [(''effect'', PStr ''deny''), (''policy_id'', PStr policy_id),
         (''reason'', PStr reason)]\<rparr>"

definition check_plan_context :: "string \<Rightarrow> params \<Rightarrow> gateway \<Rightarrow> gateway \<times> unit flow" where
  "check_plan_context tool ctx g =
     (g, if pget ctx ''source'' = PStr ''approved_plan''
            \<and> (as_grant (pget ctx ''execution_grant'') = None
               \<or> \<not> is_same (pget ctx ''validated_execution_grant'') (pget ctx ''execution_grant''))
         then Returns (tool_fail ''Approved-plan execution requires a validated ExecutionGrantContext'' tool)
         else Goes ())"

definition authentication_error :: string where
  "authentication_error = json_dump '', '' '': '' (PDict
     [(''error_type'', PStr ''AUTHENTICATION_REQUIRED''),
      (''message'', PStr ''This operation requires an authenticated user identity''),
      (''required'', PList [PStr ''user_id'', PStr ''session_id''])])"

definition contract_error :: string where
  "contract_error = json_dump '', '' '': '' (PDict
     [(''error_type'', PStr ''GOVERNANCE_CONTRACT_VIOLATION''),
      (''message'', PStr ''ToolGateway.execute was called without a validated governance context'')])"

fun identity_value :: "pyval \<Rightarrow> pyval" where
  \<comment> \<open>an identity object is turned into its attributes by \<open>to_dict\<close>\<close>
  "identity_value (PObj i c a) = PDict a"
| "identity_value v = v"

definition authenticated :: "pyval \<Rightarrow> params option" where
  "authenticated v =
     (case v of
        PDict d \<Rightarrow> if truthy (pget d ''is_authenticated'') \<and> truthy (pget d ''user_id'') then Some d else None
      | _ \<Rightarrow> None)"

definition check_identity :: "string \<Rightarrow> params \<Rightarrow> gateway \<Rightarrow> gateway \<times> (params \<times> params) flow" where
  "check_identity tool ctx g =
     (let raw = pget ctx ''identity''; v = identity_value raw;
          ctx' = (if v \<noteq> raw then AList.update ''identity'' v ctx else ctx)
      in (g, case authenticated v of
               Some d \<Rightarrow> Goes (d, ctx')
             | None \<Rightarrow> Returns (refusal authentication_error tool ''identity'' ''Authenticated user identity is required'')))"

definition check_guard :: "string \<Rightarrow> params \<Rightarrow> gateway \<Rightarrow> gateway \<times> unit flow" where
  "check_guard tool ctx g =
     (g, case gw_guard g of
           None \<Rightarrow> Goes ()
         | Some i \<Rightarrow>
             if is_same (pget ctx ''issuing_guard'') (PObj i ''ToolExecutionGuard'' []) then Goes ()
             else Returns (refusal contract_error tool ''governance_contract''
                    ''No validated issuing guard in execution context''))"

definition find_tool :: "string \<Rightarrow> gateway \<Rightarrow> gateway \<times> tool_spec flow" where
  "find_tool tool g =
     (let g' = gw_emit ''tool.searching'' tool [] g in
      (case map_of (gw_tools g') tool of
         None \<Rightarrow> (g', Returns (tool_fail (''Tool '' @ quoted tool @ '' not found'') tool))
       | Some spec \<Rightarrow>
           if ts_status spec = DISABLED
           then (g', Returns (tool_fail (''Tool '' @ quoted tool @ '' is disabled'') tool))
           else if ts_required_permissions spec = []
           then (let err = ''Blocked: tool '' @ quoted tool @ '' does not declare required permissions (fail-closed)''
                 in (g', Returns (refusal err tool ''_missing_permissions'' err)))
           else (gw_emit ''tool.selected'' tool [] g', Goes spec)))"

definition enrich :: "gateway_env \<Rightarrow> params \<Rightarrow> params" where
  \<comment> \<open>the system context, unless there is one, and the registries that are set\<close>
  "enrich env ctx =
     fold (\<lambda>(k, v). AList.update k v) (ge_services env)
       (case ge_collect env of
          Some (Inr (system, summary)) \<Rightarrow>
            if map_of ctx ''system'' = None
            then AList.update ''system_summary'' summary (AList.update ''system'' system ctx) else ctx
        | _ \<Rightarrow> ctx)"


section \<open>Policy, audit and grounding\<close>

definition policy_dict :: "policy_result \<Rightarrow> params" where
  "policy_dict r =
     [(''effect'', PStr (effect_value (pr_effect r))), (''policy_id'', PStr (pr_policy_id r)),
      (''reason'', PStr (pr_reason r)), (''context'', PDict (pr_context r))]"

definition effect_named :: "pyval \<Rightarrow> policy_effect" where
  "effect_named v = (if v = PStr ''allow'' then ALLOW else if v = PStr ''require_confirm'' then REQUIRE_CONFIRM else DENY)"

fun as_policy_result :: "pyval \<Rightarrow> policy_result option" where
  \<comment> \<open>a \<open>PolicyResult\<close> object, its effect written as the value of the enumeration\<close>
  "as_policy_result (PObj i c a) =
     (if c = ''PolicyResult''
      then Some (mk_result (effect_named (pget a ''effect'')) (str_of (pget a ''policy_id''))
                   (str_of (pget a ''reason'')) (as_dict (pget a ''context'')))
      else None)"
| "as_policy_result _ = None"

definition policy_refusal :: "policy_result \<Rightarrow> string \<Rightarrow> tool_result" where
  "policy_refusal r tool =
     (tool_fail (''Blocked by policy '' @ quoted (pr_policy_id r) @ '': '' @ pr_reason r) tool)
       \<lparr>tr_policy_decision := Some (pr_policy_id r), tr_policy_result := Some (policy_dict r)\<rparr>"

definition ask_confirmation :: "gateway_env \<Rightarrow> string \<Rightarrow> params \<Rightarrow> params \<Rightarrow> policy_result \<Rightarrow> gateway
    \<Rightarrow> gateway \<times> string option flow" where
  \<comment> \<open>the broker stores a pending action; without a broker there is no identifier\<close>
  "ask_confirmation env tool ps ctx r g =
     (if \<not> gw_broker g then (g, Goes None)
      else
        (case confirmation_request (ge_sha env) (ge_ttl env) (gw_memory g) tool ps ctx (pr_reason r)
                (py_str (dict_get (pr_context r) ''level'' (PStr ''unknown'')))
                (str_of (dict_get ctx ''plan_id'' (PStr []))) (ge_action_id env) (ge_now env) of
           Inl e \<Rightarrow> (g, Raises e)
         | Inr (m, i) \<Rightarrow> (g\<lparr>gw_memory := m\<rparr>, Goes (Some i))))"

definition confirmation_pending :: "gateway_env \<Rightarrow> string \<Rightarrow> params \<Rightarrow> params \<Rightarrow> params \<Rightarrow> policy_result
    \<Rightarrow> gateway \<Rightarrow> gateway \<times> params option flow" where
  "confirmation_pending env tool ps ctx identity r g =
     then_do (ask_confirmation env tool ps ctx r g) (\<lambda>i g.
       (log_action ''confirmation_pending''
          (PStr ((case i of None \<Rightarrow> ''None'' | Some x \<Rightarrow> x) @ '':'' @ tool)) ''pending_confirmation''
          (dict_get identity ''user_id'' (PStr ''unknown'')) g,
        Returns ((needs_confirm (pr_reason r) tool (pr_policy_id r))
          \<lparr>tr_policy_result := Some (policy_dict r),
           tr_data := (case i of
             Some (x # xs) \<Rightarrow> PDict [(''action_id'', PStr (x # xs))] | _ \<Rightarrow> PNone)\<rparr>)))"

definition check_policy :: "gateway_env \<Rightarrow> string \<Rightarrow> params \<Rightarrow> params \<Rightarrow> params \<Rightarrow> tool_spec
    \<Rightarrow> gateway \<Rightarrow> gateway \<times> params option flow" where
  "check_policy env tool ps ctx identity spec g =
     (case gw_policy g of
        None \<Rightarrow>
          (let err = ''Blocked: no PolicyEngine configured for protected tool '' @ quoted tool
           in (g, Returns (refusal err tool ''_missing_policy_engine'' err)))
      | Some engine \<Rightarrow>
          if pget ctx ''_guard_policy_result'' \<noteq> PNone then
            (g, case as_policy_result (pget ctx ''_guard_policy_result'') of
                  None \<Rightarrow> Raises (AnyException ''TypeError'')
                | Some r \<Rightarrow>
                    if pr_effect r = DENY then Returns (policy_refusal r tool) else Goes (Some (policy_dict r)))
          else
            (let (answer, events) = evaluate engine tool ps ctx (ts_required_permissions spec);
                 g' = g\<lparr>gw_trace := gw_trace g @ map Policy_Emitted events\<rparr>
             in case answer of
                  Inl e \<Rightarrow> (g', Raises e)
                | Inr r \<Rightarrow>
                    if pr_effect r = DENY then (g', Returns (policy_refusal r tool))
                    else if pr_effect r = REQUIRE_CONFIRM \<and> \<not> truthy (pget ctx ''_confirmation_grant'')
                    then confirmation_pending env tool ps ctx identity r g'
                    else (g', Goes (Some (policy_dict r)))))"

definition check_audit :: "gateway_env \<Rightarrow> string \<Rightarrow> params \<Rightarrow> params \<Rightarrow> params option
    \<Rightarrow> gateway \<Rightarrow> gateway \<times> unit flow" where
  "check_audit env tool ctx identity policy g =
     (if \<not> gw_audit g then
        (g, Returns ((tool_fail (''Blocked: audit service unavailable for protected tool '' @ quoted tool) tool)
           \<lparr>tr_policy_decision := Some ''_missing_audit_service'', tr_policy_result := policy\<rparr>))
      else if ge_audit_raises env then
        (g, Returns ((tool_fail (''Blocked: audit preflight failed for '' @ quoted tool) tool)
           \<lparr>tr_policy_decision := Some ''_audit_preflight_failed'', tr_policy_result := policy\<rparr>))
      else (traced (Authorized
              (py_str (py_or (pget ctx ''execution_id'') (PStr (ge_execution_id env)))) tool identity policy) g,
            Goes ()))"

fun attr :: "pyval \<Rightarrow> string \<Rightarrow> pyval" where
  "attr (PObj i c a) k = pget a k"
| "attr _ k = PNone"

fun ground_all :: "(pyval \<Rightarrow> params \<Rightarrow> (bool \<times> string) result) \<Rightarrow> params \<Rightarrow> pyval list \<Rightarrow> string option result" where
  \<comment> \<open>the message for the first required grounding that is not satisfied\<close>
  "ground_all f ctx [] = Inr None"
| "ground_all f ctx (req # reqs) =
     (if truthy (attr req ''required'') then
        (case f req ctx of
           Inl e \<Rightarrow> Inl e
         | Inr (grounded, err) \<Rightarrow>
             if \<not> grounded
             then Inr (Some (''Required grounding for '' @ py_str (attr req ''category'') @ '' not satisfied: '' @ err))
             else ground_all f ctx reqs)
      else ground_all f ctx reqs)"

definition check_grounding :: "gateway_env \<Rightarrow> string \<Rightarrow> params \<Rightarrow> gateway \<Rightarrow> gateway \<times> unit flow" where
  "check_grounding env tool ctx g =
     (g, case ge_ground env of
           None \<Rightarrow> Goes ()
         | Some f \<Rightarrow>
             (case bind_result (or_items (pget ctx ''grounding_requirements'')) (ground_all f ctx) of
                Inl e \<Rightarrow> Returns (tool_fail (''Grounding enforcement error: '' @ exc_text e) tool)
              | Inr (Some err) \<Rightarrow> Returns (tool_fail err tool)
              | Inr None \<Rightarrow> Goes ()))"


section \<open>Running the tool\<close>

definition check_circuit :: "gateway_env \<Rightarrow> string \<Rightarrow> gateway \<Rightarrow> gateway \<times> unit flow" where
  "check_circuit env tool g =
     (let g' = gw_emit ''tool.started'' tool [] g in
      (case gw_hardening g' of
         None \<Rightarrow> (g', Goes ())
       | Some h \<Rightarrow>
           (let (h', ok) = admit_call h tool (ge_now env); g'' = g'\<lparr>gw_hardening := Some h'\<rparr> in
            if ok then (g'', Goes ())
            else (g'', Returns (tool_fail
                   (''Tool '' @ quoted tool @ '' is circuit-open (too many recent failures)'') tool)))))"

definition run_timeout :: "tool_spec \<Rightarrow> string \<Rightarrow> gateway \<Rightarrow> pyval" where
  "run_timeout spec tool g =
     py_or (PInt (int (ts_timeout_seconds spec)))
       (case gw_hardening g of None \<Rightarrow> PInt 30 | Some h \<Rightarrow> get_timeout (hd_config h) tool)"

definition whole_ms :: "rat \<Rightarrow> string" where
  \<comment> \<open>\<open>:.0f\<close>\<close>
  "whole_ms x = int_str (py_int (py_round 0 x)) @ ''ms''"

definition elapsed :: "gateway_env \<Rightarrow> rat" where
  "elapsed env = (ge_stop env - ge_now env) * 1000"

definition report_end :: "gateway_env \<Rightarrow> string \<Rightarrow> call_end \<Rightarrow> gateway \<Rightarrow> gateway" where
  \<comment> \<open>what the hardening service hears of the call\<close>
  "report_end env tool e g =
     (case gw_hardening g of
        None \<Rightarrow> g
      | Some h \<Rightarrow>
          g\<lparr>gw_hardening := Some (after_call h tool e (''timeout after '' @ whole_ms (elapsed env)) (ge_stop env))\<rparr>)"

definition quality_dict :: "quality_report \<Rightarrow> params" where
  "quality_dict q =
     [(''passed'', PBool (qr_passed q)), (''issues'', PList (map PStr (qr_issues q))),
      (''redacted'', PBool (qr_redacted q)), (''redacted_data'', qr_data q)]"

definition finish_returned :: "gateway_env \<Rightarrow> string \<Rightarrow> params option \<Rightarrow> tool_result \<Rightarrow> gateway
    \<Rightarrow> gateway \<times> tool_result" where
  "finish_returned env tool policy r0 g =
     (let r = r0\<lparr>tr_tool_id := tool, tr_duration_ms := Some (elapsed env), tr_policy_result := policy\<rparr>;
          g' = report_end env tool
            (if tr_success r then Call_Ok else Call_Failed (case tr_error r of None \<Rightarrow> [] | Some t \<Rightarrow> t)) g;
          q = scan (ge_patterns env) r
      in if \<not> qr_passed q then
           (gw_emit ''tool.finished'' tool ''blocked'' g',
            (tool_fail (''Output blocked by quality gate: '' @ join ''; '' (qr_issues q)) tool)
              \<lparr>tr_duration_ms := Some (elapsed env), tr_policy_result := policy,
               tr_quality_result := Some (quality_dict q)\<rparr>)
         else
           (gw_emit ''tool.finished'' tool (if tr_success r then ''completed'' else ''failed'') g',
            r\<lparr>tr_data := gate_output (ge_patterns env) r, tr_quality_result := Some (quality_dict q)\<rparr>))"

definition run_tool :: "gateway_env \<Rightarrow> string \<Rightarrow> params \<Rightarrow> params \<Rightarrow> tool_spec \<Rightarrow> params option \<Rightarrow> gateway
    \<Rightarrow> gateway \<times> tool_result flow" where
  "run_tool env tool ps ctx spec policy g =
     (let g' = traced (Ran tool ps ctx) g in
      (case ge_run env tool ps ctx (run_timeout spec tool g) of
         Run_Returned r \<Rightarrow> (let (g'', r') = finish_returned env tool policy r g' in (g'', Goes r'))
       | Run_Timed_Out \<Rightarrow>
           (gw_emit ''tool.finished'' tool ''timeout'' (report_end env tool Call_Timeout g'),
            Goes ((tool_fail (''Tool '' @ quoted tool @ '' timed out after '' @ whole_ms (elapsed env)) tool)
              \<lparr>tr_duration_ms := Some (elapsed env)\<rparr>))
       | Run_Raised e \<Rightarrow>
           (gw_emit ''tool.finished'' tool ''error'' (report_end env tool (Call_Failed e) g'),
            Goes ((tool_fail (''Execution error: '' @ e) tool)\<lparr>tr_duration_ms := Some (elapsed env)\<rparr>))))"


section \<open>The gateway's operations\<close>

definition perform :: "gateway_env \<Rightarrow> string \<Rightarrow> params \<Rightarrow> params \<Rightarrow> tool_spec \<Rightarrow> params option \<Rightarrow> gateway
    \<Rightarrow> gateway \<times> tool_result flow" where
  "perform env tool ps ctx spec policy g =
     then_do (check_grounding env tool ctx g) (\<lambda>u g.
     then_do (check_circuit env tool g) (\<lambda>u g.
       run_tool env tool ps ctx spec policy g))"

definition govern :: "gateway_env \<Rightarrow> string \<Rightarrow> params \<Rightarrow> params \<Rightarrow> params \<Rightarrow> tool_spec \<Rightarrow> gateway
    \<Rightarrow> gateway \<times> tool_result flow" where
  "govern env tool ps ctx identity spec g =
     then_do (check_policy env tool ps ctx identity spec g) (\<lambda>policy g.
     then_do (check_audit env tool ctx identity policy g) (\<lambda>u g.
       perform env tool ps ctx spec policy g))"

definition gw_stages :: "gateway_env \<Rightarrow> string \<Rightarrow> params \<Rightarrow> params \<Rightarrow> gateway \<Rightarrow> gateway \<times> tool_result flow" where
  "gw_stages env tool ps ctx g =
     then_do (check_plan_context tool ctx g) (\<lambda>u g.
     then_do (check_identity tool ctx g) (\<lambda>(identity, ctx) g.
     then_do (check_guard tool ctx g) (\<lambda>u g.
     then_do (find_tool tool g) (\<lambda>spec g.
       govern env tool ps (enrich env ctx) identity spec g))))"

fun ended :: "tool_result flow \<Rightarrow> tool_result result" where
  "ended (Goes r) = Inr r"
| "ended (Returns r) = Inr r"
| "ended (Raises e) = Inl e"

definition gw_execute :: "gateway_env \<Rightarrow> string \<Rightarrow> params \<Rightarrow> params \<Rightarrow> gateway \<Rightarrow> gateway \<times> tool_result result" where
  "gw_execute env tool ps ctx g = (let (g', e) = gw_stages env tool ps ctx g in (g', ended e))"

definition grant_marker :: "confirmation_grant \<Rightarrow> string \<Rightarrow> pyval" where
  "grant_marker cg action_id =
     PDict [(''action_id'', PStr action_id), (''tool_id'', cg_tool_id cg), (''user_id'', PStr (cg_user_id cg)),
       (''params_hash'', PStr (cg_params_hash cg)), (''identity_hash'', PStr (cg_identity_hash cg))]"

definition confirmed_context :: "confirmation_grant \<Rightarrow> string \<Rightarrow> params \<Rightarrow> params" where
  "confirmed_context cg action_id identity =
     AList.update ''_confirmation_grant'' (grant_marker cg action_id)
       (AList.update ''identity'' (PDict identity) (cg_context cg))"

definition gw_confirm :: "gateway_env \<Rightarrow> (pyval \<Rightarrow> params \<Rightarrow> params \<Rightarrow> gateway \<Rightarrow> gateway \<times> tool_result result) option
    \<Rightarrow> string \<Rightarrow> bool \<Rightarrow> params \<Rightarrow> gateway \<Rightarrow> gateway \<times> tool_result result" where
  \<comment> \<open>the second argument is the confirmation executor; identity fields are strings\<close>
  "gw_confirm env executor action_id approved identity g =
     (if \<not> gw_broker g then (g, Inr (tool_fail ''Confirmation service is unavailable'' []))
      else if \<not> truthy (pget identity ''user_id'') \<or> \<not> truthy (pget identity ''session_id'') then
        (g, Inr (tool_fail ''Confirmation requires an authenticated identity with a non-empty session'' []))
      else
        (let (m, answer) = confirmation_consume (ge_sha env) (gw_memory g) action_id
               (str_of (pget identity ''user_id'')) approved (Some (str_of (pget identity ''session_id''))) (ge_now env);
             g' = g\<lparr>gw_memory := m\<rparr>; user = dict_get identity ''user_id'' (PStr ''unknown'')
         in case answer of
              Inl (PermissionError msg) \<Rightarrow>
                (log_action ''confirmation_denied'' (PStr action_id) ''denied'' user g', Inr (tool_fail msg []))
            | Inl e \<Rightarrow> (g', Inl e)
            | Inr None \<Rightarrow>
                (log_action ''confirmation_rejected_or_expired'' (PStr action_id) ''denied'' user g',
                 Inr (tool_fail ''Confirmation expired, rejected, or already consumed'' []))
            | Inr (Some cg) \<Rightarrow>
                (let g'' = log_action ''confirmation_approved'' (PStr (action_id @ '':'' @ py_str (cg_tool_id cg)))
                       ''authorized'' (PStr (cg_user_id cg)) g'
                 in case executor of
                      None \<Rightarrow> (g'', Inr (tool_fail ''Confirmation execution pipeline is unavailable'' []))
                    | Some run \<Rightarrow>
                        run (cg_tool_id cg) (cg_params cg) (confirmed_context cg action_id identity) g'')))"


section \<open>What the stages leave alone\<close>

fun quiet :: "gateway_event \<Rightarrow> bool" where
  "quiet (Ran t p c) = False"
| "quiet (Authorized i t d p) = False"
| "quiet _ = True"

definition quiet_step :: "gateway \<Rightarrow> gateway \<Rightarrow> bool" where
  \<comment> \<open>the configuration is unchanged, and nothing was authorised or run\<close>
  "quiet_step g g' \<longleftrightarrow>
     gw_tools g' = gw_tools g \<and> gw_policy g' = gw_policy g \<and> gw_audit g' = gw_audit g
     \<and> gw_guard g' = gw_guard g \<and> gw_hardening g' = gw_hardening g
     \<and> (\<exists>new. gw_trace g' = gw_trace g @ new \<and> list_all quiet new)"

lemma quiet_step_refl [simp]: "quiet_step g g"
  by (simp add: quiet_step_def)

lemma quiet_step_trans [trans]: "quiet_step g g' \<Longrightarrow> quiet_step g' g'' \<Longrightarrow> quiet_step g g''"
  unfolding quiet_step_def by (metis append.assoc list_all_append)

lemma quiet_steps [simp]:
  "quiet_step g (gw_emit ty tool status g)"
  "quiet_step g (log_action action details status' user g)"
  "quiet_step g (g\<lparr>gw_memory := m\<rparr>)"
  "quiet_step g (g\<lparr>gw_trace := gw_trace g @ map Policy_Emitted evs\<rparr>)"
  by (simp_all add: quiet_step_def gw_emit_def log_action_def traced_def list_all_iff)

lemma quiet_emit_after [simp]: "quiet_step g g' \<Longrightarrow> quiet_step g (gw_emit ty tool status g')"
  by (rule quiet_step_trans [OF _ quiet_steps(1)])

lemma quiet_log_after [simp]: "quiet_step g g' \<Longrightarrow> quiet_step g (log_action a d st u g')"
  by (rule quiet_step_trans [OF _ quiet_steps(2)])

lemma then_do_cases:
  obtains (go) x where "snd s = Goes x" and "then_do s f = f x (fst s)"
  | (stop) "\<And>x. snd s \<noteq> Goes x" and "fst (then_do s f) = fst s" and "\<And>y. snd (then_do s f) \<noteq> Goes y"
  by (cases s; cases "snd s") auto

lemma then_do_stop:
  assumes "\<And>x. snd s \<noteq> Goes x"
  shows "fst (then_do s f) = fst s" and "snd (then_do s f) \<noteq> Goes y"
  using assms by (cases s; cases "snd s"; simp)+

lemma then_do_goes:
  assumes "snd (then_do s f) = Goes y"
  obtains x where "snd s = Goes x" and "snd (f x (fst s)) = Goes y"
  using assms by (cases s; cases "snd s") auto

lemma early_checks:
  "fst (check_plan_context tool ctx g) = g" "fst (check_identity tool ctx g) = g"
  "fst (check_guard tool ctx g) = g" "fst (check_grounding env tool ctx g) = g"
  by (simp_all add: check_plan_context_def check_identity_def check_guard_def check_grounding_def Let_def)

lemma find_tool_quiet: "quiet_step g (fst (find_tool tool g))"
  by (simp add: find_tool_def Let_def split: option.split)

lemma ask_confirmation_quiet: "quiet_step g (fst (ask_confirmation env tool ps ctx r g))"
  by (auto simp: ask_confirmation_def split: sum.split)

lemma confirmation_pending_quiet: "quiet_step g (fst (confirmation_pending env tool ps ctx identity r g))"
proof -
  let ?s = "ask_confirmation env tool ps ctx r g"
  have q: "quiet_step g (fst ?s)" by (rule ask_confirmation_quiet)
  show ?thesis
    unfolding confirmation_pending_def
    by (cases ?s; cases "snd ?s") (use q in auto)
qed

lemma confirmation_pending_stops: "snd (confirmation_pending env tool ps ctx identity r g) \<noteq> Goes x"
  unfolding confirmation_pending_def
  by (cases "ask_confirmation env tool ps ctx r g"; cases "snd (ask_confirmation env tool ps ctx r g)") auto

definition policy_clear :: "gateway \<Rightarrow> string \<Rightarrow> params \<Rightarrow> params \<Rightarrow> tool_spec \<Rightarrow> bool" where
  "policy_clear g tool ps ctx spec \<longleftrightarrow>
     (case gw_policy g of
        None \<Rightarrow> False
      | Some engine \<Rightarrow>
          if pget ctx ''_guard_policy_result'' \<noteq> PNone
          then (case as_policy_result (pget ctx ''_guard_policy_result'') of
                  None \<Rightarrow> False | Some r \<Rightarrow> pr_effect r \<noteq> DENY)
          else (case fst (evaluate engine tool ps ctx (ts_required_permissions spec)) of
                  Inl e \<Rightarrow> False
                | Inr r \<Rightarrow> pr_effect r = ALLOW
                    \<or> pr_effect r = REQUIRE_CONFIRM \<and> truthy (pget ctx ''_confirmation_grant'')))"

lemma check_policy_view:
  "quiet_step g (fst (check_policy env tool ps ctx identity spec g))"
  "(\<exists>p. snd (check_policy env tool ps ctx identity spec g) = Goes p) \<longleftrightarrow> policy_clear g tool ps ctx spec"
proof -
  let ?c = "check_policy env tool ps ctx identity spec g"
  have "quiet_step g (fst ?c) \<and> ((\<exists>p. snd ?c = Goes p) \<longleftrightarrow> policy_clear g tool ps ctx spec)"
  proof (cases "gw_policy g")
    case None
    then show ?thesis by (simp add: check_policy_def policy_clear_def Let_def)
  next
    case (Some engine)
    show ?thesis
    proof (cases "pget ctx ''_guard_policy_result'' = PNone")
      case False
      then show ?thesis
        by (simp add: check_policy_def policy_clear_def Some split: option.split)
    next
      case True
      obtain answer evs where ev: "evaluate engine tool ps ctx (ts_required_permissions spec) = (answer, evs)"
        by fastforce
      let ?g = "g\<lparr>gw_trace := gw_trace g @ map Policy_Emitted evs\<rparr>"
      have q: "quiet_step g ?g" by simp
      show ?thesis
      proof (cases answer)
        case (Inl e)
        then show ?thesis
          using Some True ev q by (simp add: check_policy_def policy_clear_def)
      next
        case (Inr r)
        have "quiet_step g (fst (confirmation_pending env tool ps ctx identity r ?g))"
          using q confirmation_pending_quiet by (rule quiet_step_trans)
        with Some True ev q Inr show ?thesis
          by (cases "pr_effect r") (simp_all add: check_policy_def policy_clear_def Let_def confirmation_pending_stops)
      qed
    qed
  qed
  then show "quiet_step g (fst ?c)" "(\<exists>p. snd ?c = Goes p) \<longleftrightarrow> policy_clear g tool ps ctx spec" by blast+
qed


section \<open>When the tool runs\<close>

definition plan_ok :: "params \<Rightarrow> bool" where
  "plan_ok ctx \<longleftrightarrow>
     pget ctx ''source'' = PStr ''approved_plan'' \<longrightarrow>
       as_grant (pget ctx ''execution_grant'') \<noteq> None
       \<and> is_same (pget ctx ''validated_execution_grant'') (pget ctx ''execution_grant'')"

definition caller :: "params \<Rightarrow> params option" where
  "caller ctx = authenticated (identity_value (pget ctx ''identity''))"

definition identified :: "params \<Rightarrow> params" where
  "identified ctx =
     (let raw = pget ctx ''identity'' in
      if identity_value raw \<noteq> raw then AList.update ''identity'' (identity_value raw) ctx else ctx)"

definition guard_ok :: "gateway \<Rightarrow> params \<Rightarrow> bool" where
  "guard_ok g ctx \<longleftrightarrow>
     (case gw_guard g of
        None \<Rightarrow> True | Some i \<Rightarrow> is_same (pget ctx ''issuing_guard'') (PObj i ''ToolExecutionGuard'' []))"

definition grounded :: "gateway_env \<Rightarrow> params \<Rightarrow> bool" where
  "grounded env ctx \<longleftrightarrow>
     (case ge_ground env of
        None \<Rightarrow> True
      | Some f \<Rightarrow> bind_result (or_items (pget ctx ''grounding_requirements'')) (ground_all f ctx) = Inr None)"

definition circuit_lets :: "gateway \<Rightarrow> string \<Rightarrow> rat \<Rightarrow> bool" where
  "circuit_lets g tool now = (case gw_hardening g of None \<Rightarrow> True | Some h \<Rightarrow> snd (admit_call h tool now))"

definition cleared :: "gateway_env \<Rightarrow> string \<Rightarrow> params \<Rightarrow> params \<Rightarrow> gateway \<Rightarrow> bool" where
  \<comment> \<open>everything that has to hold for the tool to be called, without any order\<close>
  "cleared env tool ps ctx g \<longleftrightarrow>
     plan_ok ctx \<and> caller ctx \<noteq> None \<and> guard_ok g (identified ctx)
     \<and> (case map_of (gw_tools g) tool of
          None \<Rightarrow> False
        | Some spec \<Rightarrow>
            (let ctx' = enrich env (identified ctx) in
             ts_status spec = ACTIVE \<and> ts_required_permissions spec \<noteq> []
             \<and> policy_clear g tool ps ctx' spec \<and> gw_audit g \<and> \<not> ge_audit_raises env
             \<and> grounded env ctx' \<and> circuit_lets g tool (ge_now env)))"

definition runs_of :: "gateway_event list \<Rightarrow> (string \<times> params \<times> params) list" where
  "runs_of tr = concat (map (\<lambda>e. case e of Ran t p c \<Rightarrow> [(t, p, c)] | _ \<Rightarrow> []) tr)"

lemma runs_of_simps [simp]:
  "runs_of [] = []" "runs_of (xs @ ys) = runs_of xs @ runs_of ys"
  "runs_of (Ran t p c # xs) = (t, p, c) # runs_of xs" "runs_of (Authorized i t d q # xs) = runs_of xs"
  by (simp_all add: runs_of_def)

lemma runs_of_quiet [simp]: "list_all quiet xs \<Longrightarrow> runs_of xs = []"
  by (induction xs) (auto simp: runs_of_def split: gateway_event.splits)

lemma emit_trace:
  obtains new where "gw_trace (gw_emit ty tool status g) = gw_trace g @ new" and "list_all quiet new"
  using quiet_steps(1) [of g ty tool status] unfolding quiet_step_def by blast

lemma report_end_trace [simp]: "gw_trace (report_end env tool e g) = gw_trace g"
  by (simp add: report_end_def split: option.split)

lemma run_tool_trace:
  "\<exists>post. list_all quiet post
     \<and> gw_trace (fst (run_tool env tool ps ctx spec policy g)) = gw_trace g @ Ran tool ps ctx # post"
proof -
  have "\<exists>post. list_all quiet post \<and> gw_trace (gw_emit ty tool st h) = gw_trace g @ Ran tool ps ctx # post"
    if "gw_trace h = gw_trace g @ [Ran tool ps ctx]" for ty st h
    using emit_trace [of ty tool st h] that by (metis append.assoc append_Cons append_Nil)
  then show ?thesis
    by (simp add: run_tool_def finish_returned_def traced_def Let_def split: run_end.split)
qed

lemma check_grounding_goes: "snd (check_grounding env tool ctx g) = Goes u \<longleftrightarrow> grounded env ctx"
  by (auto simp: check_grounding_def grounded_def split: option.splits sum.splits)

lemma check_circuit_view:
  "\<exists>new. gw_trace (fst (check_circuit env tool g)) = gw_trace g @ new \<and> list_all quiet new"
  "snd (check_circuit env tool g) = Goes u \<longleftrightarrow> circuit_lets g tool (ge_now env)"
proof -
  obtain new where new: "gw_trace (gw_emit ''tool.started'' tool [] g) = gw_trace g @ new" "list_all quiet new"
    by (rule emit_trace)
  have h: "gw_hardening (gw_emit ty tool st g) = gw_hardening g" for ty st
    by (simp add: gw_emit_def traced_def)
  show "\<exists>new. gw_trace (fst (check_circuit env tool g)) = gw_trace g @ new \<and> list_all quiet new"
    using new by (auto simp: check_circuit_def Let_def case_prod_beta' split: option.split)
  show "snd (check_circuit env tool g) = Goes u \<longleftrightarrow> circuit_lets g tool (ge_now env)"
    by (auto simp: check_circuit_def circuit_lets_def Let_def h case_prod_beta' split: option.split)
qed

lemma perform_trace:
  "\<exists>pre post. list_all quiet pre \<and> list_all quiet post
     \<and> gw_trace (fst (perform env tool ps ctx spec policy g)) = gw_trace g @ pre @
         (if grounded env ctx \<and> circuit_lets g tool (ge_now env) then Ran tool ps ctx # post else [])"
proof (cases "grounded env ctx")
  case False
  then have "snd (check_grounding env tool ctx g) \<noteq> Goes u" for u by (simp add: check_grounding_goes)
  then have "fst (perform env tool ps ctx spec policy g) = g"
    unfolding perform_def
    by (cases rule: then_do_cases [of "check_grounding env tool ctx g"]) (auto simp: early_checks)
  with False show ?thesis by (intro exI [of _ "[]"]) simp
next
  case True
  let ?s = "check_circuit env tool g"
  have p: "perform env tool ps ctx spec policy g = then_do ?s (\<lambda>u g. run_tool env tool ps ctx spec policy g)"
    using True check_grounding_goes [of env tool ctx g "()"] early_checks(4) [of env tool ctx g]
    unfolding perform_def by (cases "check_grounding env tool ctx g") simp
  from check_circuit_view(1) [of env tool g] obtain new where
    new: "gw_trace (fst ?s) = gw_trace g @ new" "list_all quiet new" by blast
  show ?thesis
  proof (cases "circuit_lets g tool (ge_now env)")
    case lets: True
    then have "fst (perform env tool ps ctx spec policy g) = fst (run_tool env tool ps ctx spec policy (fst ?s))"
      using check_circuit_view(2) [of env tool g "()"] unfolding p by (cases ?s) simp
    moreover obtain post where "list_all quiet post"
      "gw_trace (fst (run_tool env tool ps ctx spec policy (fst ?s))) = gw_trace (fst ?s) @ Ran tool ps ctx # post"
      using run_tool_trace by blast
    ultimately show ?thesis
      using new True lets by (intro exI [of _ new] exI [of _ post]) simp
  next
    case stops: False
    then have "fst (perform env tool ps ctx spec policy g) = fst ?s"
      using check_circuit_view(2) [of env tool g] unfolding p
      by (cases rule: then_do_cases [of ?s]) auto
    with new stops show ?thesis by (intro exI [of _ new] exI [of _ "[]"]) simp
  qed
qed


lemma check_audit_cases:
  assumes "gw_audit g" and "\<not> ge_audit_raises env"
  obtains i where "check_audit env tool ctx identity policy g = (traced (Authorized i tool identity policy) g, Goes ())"
  using assms by (simp add: check_audit_def)

lemma check_audit_stops:
  "\<not> (gw_audit g \<and> \<not> ge_audit_raises env) \<Longrightarrow>
     fst (check_audit env tool ctx identity policy g) = g \<and> snd (check_audit env tool ctx identity policy g) \<noteq> Goes u"
  by (auto simp: check_audit_def)

lemma govern_trace:
  "\<exists>pre. list_all quiet pre
     \<and> (if policy_clear g tool ps ctx spec \<and> gw_audit g \<and> \<not> ge_audit_raises env then
          \<exists>i policy mid post. list_all quiet mid \<and> list_all quiet post
          \<and> gw_trace (fst (govern env tool ps ctx identity spec g)) = gw_trace g @ pre @
              Authorized i tool identity policy # mid @
                (if grounded env ctx \<and> circuit_lets g tool (ge_now env) then Ran tool ps ctx # post else [])
        else gw_trace (fst (govern env tool ps ctx identity spec g)) = gw_trace g @ pre)"
proof -
  let ?c = "check_policy env tool ps ctx identity spec g"
  let ?A = "\<lambda>p g. then_do (check_audit env tool ctx identity p g) (\<lambda>u g. perform env tool ps ctx spec p g)"
  have q: "quiet_step g (fst ?c)" by (rule check_policy_view)
  then obtain pre where pre: "list_all quiet pre" "gw_trace (fst ?c) = gw_trace g @ pre"
    and same: "gw_audit (fst ?c) = gw_audit g" "gw_hardening (fst ?c) = gw_hardening g"
    by (auto simp: quiet_step_def)
  have govern: "govern env tool ps ctx identity spec g = then_do ?c ?A"
    by (simp add: govern_def)
  show ?thesis
  proof (cases "policy_clear g tool ps ctx spec")
    case False
    then have "\<And>p. snd ?c \<noteq> Goes p" using check_policy_view(2) [of env tool ps ctx identity spec g] by metis
    then have "fst (govern env tool ps ctx identity spec g) = fst ?c"
      unfolding govern by (cases rule: then_do_cases [of ?c]) auto
    with False pre show ?thesis by auto
  next
    case True
    then obtain p where "snd ?c = Goes p" using check_policy_view(2) [of env tool ps ctx identity spec g] by metis
    then have g1: "govern env tool ps ctx identity spec g = ?A p (fst ?c)"
      unfolding govern by (cases ?c) simp
    show ?thesis
    proof (cases "gw_audit g \<and> \<not> ge_audit_raises env")
      case False
      then have "fst (?A p (fst ?c)) = fst ?c"
        using check_audit_stops [of "fst ?c" env tool ctx identity p] same(1)
        by (cases rule: then_do_cases [of "check_audit env tool ctx identity p (fst ?c)"]) auto
      with False pre g1 show ?thesis by auto
    next
      case aud: True
      then obtain i where i: "check_audit env tool ctx identity p (fst ?c)
          = (traced (Authorized i tool identity p) (fst ?c), Goes ())"
        using check_audit_cases [of "fst ?c" env] same(1) by metis
      let ?g = "traced (Authorized i tool identity p) (fst ?c)"
      have tr: "gw_trace ?g = gw_trace g @ pre @ [Authorized i tool identity p]"
        by (simp add: traced_def pre)
      have lets: "circuit_lets ?g tool (ge_now env) = circuit_lets g tool (ge_now env)"
        by (simp add: circuit_lets_def traced_def same(2))
      obtain mid post where "list_all quiet mid" "list_all quiet post"
        "gw_trace (fst (perform env tool ps ctx spec p ?g)) = gw_trace ?g @ mid @
          (if grounded env ctx \<and> circuit_lets g tool (ge_now env) then Ran tool ps ctx # post else [])"
        using perform_trace [of env tool ps ctx spec p ?g] lets by auto
      then have "list_all quiet mid \<and> list_all quiet post
          \<and> gw_trace (fst (govern env tool ps ctx identity spec g)) = gw_trace g @ pre @
              Authorized i tool identity p # mid @
                (if grounded env ctx \<and> circuit_lets g tool (ge_now env) then Ran tool ps ctx # post else [])"
        by (simp add: g1 i tr)
      then have "\<exists>i policy mid post. list_all quiet mid \<and> list_all quiet post
          \<and> gw_trace (fst (govern env tool ps ctx identity spec g)) = gw_trace g @ pre @
              Authorized i tool identity policy # mid @
                (if grounded env ctx \<and> circuit_lets g tool (ge_now env) then Ran tool ps ctx # post else [])"
        by blast
      with True aud pre(1) show ?thesis by (intro exI [of _ pre]) (simp only: simp_thms if_True)
    qed
  qed
qed

text \<open>The four checks that come first, together.\<close>

definition admitted :: "string \<Rightarrow> params \<Rightarrow> gateway \<Rightarrow> tool_spec option" where
  "admitted tool ctx g =
     (if plan_ok ctx \<and> caller ctx \<noteq> None \<and> guard_ok g (identified ctx)
      then (case map_of (gw_tools g) tool of
              None \<Rightarrow> None
            | Some spec \<Rightarrow>
                if ts_status spec = ACTIVE \<and> ts_required_permissions spec \<noteq> [] then Some spec else None)
      else None)"

lemma find_tool_goes:
  "snd (find_tool tool g) =
     (case map_of (gw_tools g) tool of
        Some spec \<Rightarrow> if ts_status spec = ACTIVE \<and> ts_required_permissions spec \<noteq> [] then Goes spec
          else snd (find_tool tool g)
      | None \<Rightarrow> snd (find_tool tool g))"
  "snd (find_tool tool g) = Goes spec \<Longrightarrow>
     map_of (gw_tools g) tool = Some spec \<and> ts_status spec = ACTIVE \<and> ts_required_permissions spec \<noteq> []"
proof -
  have t: "gw_tools (gw_emit ty tool st g) = gw_tools g" for ty st
    by (simp add: gw_emit_def traced_def)
  show "snd (find_tool tool g) =
     (case map_of (gw_tools g) tool of
        Some spec \<Rightarrow> if ts_status spec = ACTIVE \<and> ts_required_permissions spec \<noteq> [] then Goes spec
          else snd (find_tool tool g)
      | None \<Rightarrow> snd (find_tool tool g))"
    by (simp add: find_tool_def t Let_def split: option.split)
  assume "snd (find_tool tool g) = Goes spec"
  then show "map_of (gw_tools g) tool = Some spec \<and> ts_status spec = ACTIVE \<and> ts_required_permissions spec \<noteq> []"
    by (cases "ts_status spec") (auto simp: find_tool_def t Let_def split: option.splits if_splits)
qed

lemma gw_stages_admitted:
  "case admitted tool ctx g of
     Some spec \<Rightarrow> (\<exists>g1 d. quiet_step g g1 \<and> caller ctx = Some d
       \<and> gw_stages env tool ps ctx g = govern env tool ps (enrich env (identified ctx)) d spec g1)
   | None \<Rightarrow> quiet_step g (fst (gw_stages env tool ps ctx g)) \<and> (\<forall>r. snd (gw_stages env tool ps ctx g) \<noteq> Goes r)"
proof -
  have p: "check_plan_context tool ctx g = (g, if plan_ok ctx then Goes ()
      else Returns (tool_fail ''Approved-plan execution requires a validated ExecutionGrantContext'' tool))"
    by (auto simp: check_plan_context_def plan_ok_def)
  have i: "check_identity tool ctx g = (g, case caller ctx of Some d \<Rightarrow> Goes (d, identified ctx)
      | None \<Rightarrow> Returns (refusal authentication_error tool ''identity'' ''Authenticated user identity is required''))"
    by (simp add: check_identity_def caller_def identified_def Let_def split: option.split)
  have u: "check_guard tool ctx' g = (g, if guard_ok g ctx' then Goes ()
      else Returns (refusal contract_error tool ''governance_contract''
             ''No validated issuing guard in execution context''))" for ctx'
    by (simp add: check_guard_def guard_ok_def split: option.split)
  have q: "quiet_step g (fst (find_tool tool g))" by (rule find_tool_quiet)
  show ?thesis
  proof (cases "plan_ok ctx \<and> caller ctx \<noteq> None \<and> guard_ok g (identified ctx)")
    case False
    then show ?thesis
      by (cases "plan_ok ctx"; cases "caller ctx") (auto simp: gw_stages_def p i u admitted_def)
  next
    case True
    then obtain d where d: "caller ctx = Some d" by blast
    have st: "gw_stages env tool ps ctx g = then_do (find_tool tool g)
        (\<lambda>spec g. govern env tool ps (enrich env (identified ctx)) d spec g)"
      using True d by (simp add: gw_stages_def p i u)
    show ?thesis
    proof (cases "admitted tool ctx g")
      case None
      then have "snd (find_tool tool g) \<noteq> Goes spec" for spec
        using find_tool_goes(2) [of tool g spec] True by (auto simp: admitted_def)
      with None q show ?thesis
        unfolding st by (simp add: then_do_stop)
    next
      case (Some spec)
      then have "snd (find_tool tool g) = Goes spec"
        using find_tool_goes(1) [of tool g] True by (auto simp: admitted_def split: option.splits if_splits)
      then have "gw_stages env tool ps ctx g
          = govern env tool ps (enrich env (identified ctx)) d spec (fst (find_tool tool g))"
        unfolding st by (cases "find_tool tool g") simp
      with Some q d show ?thesis by auto
    qed
  qed
qed


section \<open>Properties of the gateway\<close>

abbreviation runs :: "gateway \<Rightarrow> (string \<times> params \<times> params) list" where
  "runs g \<equiv> runs_of (gw_trace g)"

lemma quiet_step_runs: "quiet_step g g' \<Longrightarrow> runs g' = runs g"
  by (auto simp: quiet_step_def)

lemma quiet_step_same:
  assumes "quiet_step g g'"
  shows "policy_clear g' tool ps ctx spec = policy_clear g tool ps ctx spec"
    and "circuit_lets g' tool now = circuit_lets g tool now" and "gw_audit g' = gw_audit g"
  using assms by (simp_all add: quiet_step_def policy_clear_def circuit_lets_def)

lemma govern_runs:
  "runs (fst (govern env tool ps ctx identity spec g)) = runs g @
     (if policy_clear g tool ps ctx spec \<and> gw_audit g \<and> \<not> ge_audit_raises env
         \<and> grounded env ctx \<and> circuit_lets g tool (ge_now env) then [(tool, ps, ctx)] else [])"
  using govern_trace [of g tool ps ctx spec env identity] by (auto split: if_splits)

lemma cleared_admitted:
  "cleared env tool ps ctx g \<longleftrightarrow>
     (case admitted tool ctx g of
        None \<Rightarrow> False
      | Some spec \<Rightarrow>
          policy_clear g tool ps (enrich env (identified ctx)) spec \<and> gw_audit g \<and> \<not> ge_audit_raises env
          \<and> grounded env (enrich env (identified ctx)) \<and> circuit_lets g tool (ge_now env))"
  by (auto simp: cleared_def admitted_def Let_def split: option.splits)

lemma gw_execute_runs:
  "runs (fst (gw_execute env tool ps ctx g)) = runs g @
     (if cleared env tool ps ctx g then [(tool, ps, enrich env (identified ctx))] else [])"
proof -
  have fst: "fst (gw_execute env tool ps ctx g) = fst (gw_stages env tool ps ctx g)"
    by (simp add: gw_execute_def case_prod_beta' Let_def)
  show ?thesis
  proof (cases "admitted tool ctx g")
    case None
    with gw_stages_admitted [of g env tool ps ctx] show ?thesis
      by (simp add: fst cleared_admitted quiet_step_runs)
  next
    case (Some spec)
    with gw_stages_admitted [of g env tool ps ctx] obtain g1 d where g1: "quiet_step g g1"
      and st: "gw_stages env tool ps ctx g = govern env tool ps (enrich env (identified ctx)) d spec g1"
      by auto
    show ?thesis
      unfolding fst st govern_runs cleared_admitted Some quiet_step_runs [OF g1]
      by (simp add: quiet_step_same [OF g1])
  qed
qed

text \<open>C2: the gateway calls a tool exactly when it is cleared: in one call of \<open>execute\<close> the tool is called
  at most once, with the parameters of the request, and precisely if the plan context, the caller's
  identity, the issuing guard, the tool's registration, the policies, the audit preflight, the
  required grounding and the tool's circuit all permit it.\<close>

theorem gateway_runs_exactly:
  "runs (fst (gw_execute env tool ps ctx g)) = runs g @
     (if cleared env tool ps ctx g then [(tool, ps, enrich env (identified ctx))] else [])"
  by (rule gw_execute_runs)

text \<open>A trace in which every call of a tool uses up one earlier authorisation of that tool.\<close>

fun audited :: "string list \<Rightarrow> gateway_event list \<Rightarrow> bool" where
  "audited open_auths [] = True"
| "audited open_auths (e # es) =
     (case e of
        Authorized i t d p \<Rightarrow> audited (t # open_auths) es
      | Ran t ps c \<Rightarrow> t \<in> set open_auths \<and> audited (remove1 t open_auths) es
      | _ \<Rightarrow> audited open_auths es)"

fun still_open :: "string list \<Rightarrow> gateway_event list \<Rightarrow> string list" where
  "still_open os [] = os"
| "still_open os (e # es) =
     (case e of
        Authorized i t d p \<Rightarrow> still_open (t # os) es | Ran t ps c \<Rightarrow> still_open (remove1 t os) es
      | _ \<Rightarrow> still_open os es)"

lemma audited_append: "audited os (xs @ ys) \<longleftrightarrow> audited os xs \<and> audited (still_open os xs) ys"
  by (induction xs arbitrary: os) (auto split: gateway_event.split)

lemma audited_quiet: "list_all quiet xs \<Longrightarrow> audited os (xs @ ys) = audited os ys"
  by (induction xs) (auto split: gateway_event.splits)

lemma still_open_quiet: "list_all quiet xs \<Longrightarrow> still_open os xs = os"
  by (induction xs) (auto split: gateway_event.splits)

lemma audited_quiet_end: "list_all quiet xs \<Longrightarrow> audited os xs"
  using audited_quiet [of xs os "[]"] by simp

datatype gateway_op =
    Op_Execute gateway_env string params params
  | Op_Confirm gateway_env "gateway_env \<times> string" string bool params
  | Op_Register tool_spec
  | Op_Unregister string
  | Op_Configure "policy_engine option" bool "nat option" "hardening option" bool bool

definition gateway_step :: "gateway \<Rightarrow> gateway_op \<Rightarrow> gateway" where
  \<comment> \<open>a confirmation is executed by the gateway itself, for a tool given by name\<close>
  "gateway_step g op =
     (case op of
        Op_Execute env tool ps ctx \<Rightarrow> fst (gw_execute env tool ps ctx g)
      | Op_Confirm env (env', tool) i approved identity \<Rightarrow>
          fst (gw_confirm env (Some (\<lambda>t ps ctx. gw_execute env' tool ps ctx)) i approved identity g)
      | Op_Register spec \<Rightarrow> fst (gw_register (\<lambda>s. None) g spec)
      | Op_Unregister tool \<Rightarrow> (case gw_unregister g tool of Inl e \<Rightarrow> g | Inr g' \<Rightarrow> g')
      | Op_Configure policy aud guard hs bus broker \<Rightarrow>
          g\<lparr>gw_policy := policy, gw_audit := aud, gw_guard := guard, gw_hardening := hs, gw_bus := bus,
            gw_broker := broker\<rparr>)"

lemma gw_execute_audited:
  assumes "audited os (gw_trace g)"
  shows "audited os (gw_trace (fst (gw_execute env tool ps ctx g)))"
proof -
  have fst: "fst (gw_execute env tool ps ctx g) = fst (gw_stages env tool ps ctx g)"
    by (simp add: gw_execute_def case_prod_beta' Let_def)
  have quietly: "audited os (gw_trace g')" if "quiet_step g g'" for g'
    using that assms by (auto simp: quiet_step_def audited_append audited_quiet_end)
  show ?thesis
  proof (cases "admitted tool ctx g")
    case None
    with gw_stages_admitted [of g env tool ps ctx] show ?thesis
      by (simp add: fst quietly)
  next
    case (Some spec)
    with gw_stages_admitted [of g env tool ps ctx] obtain g1 d where g1: "quiet_step g g1"
      and st: "gw_stages env tool ps ctx g = govern env tool ps (enrich env (identified ctx)) d spec g1"
      by auto
    show ?thesis
      unfolding fst st
      using govern_trace [of g1 tool ps "enrich env (identified ctx)" spec env d] quietly [OF g1]
      by (auto simp: audited_append audited_quiet audited_quiet_end still_open_quiet split: if_splits)
  qed
qed


lemma log_action_audited [simp]: "audited os (gw_trace (log_action a d st u g)) = audited os (gw_trace g)"
  by (simp add: log_action_def traced_def audited_append)

lemma log_action_memory [simp]:
  "audited os (gw_trace (g\<lparr>gw_memory := m\<rparr>)) = audited os (gw_trace g)"
  by simp

lemma gw_confirm_audited:
  assumes "audited os (gw_trace g)"
    and "\<And>t ps c h. audited os (gw_trace h) \<Longrightarrow> audited os (gw_trace (fst (run t ps c h)))"
  shows "audited os (gw_trace (fst (gw_confirm env (Some run) i approved identity g)))"
  using assms unfolding gw_confirm_def Let_def case_prod_beta'
  by (simp split: sum.split py_exc.split option.split)

lemma gateway_step_audited:
  assumes "audited os (gw_trace g)"
  shows "audited os (gw_trace (gateway_step g op))"
proof (cases op)
  case (Op_Execute env tool ps ctx)
  with gw_execute_audited [OF assms] show ?thesis by (simp add: gateway_step_def)
next
  case (Op_Confirm env et i approved identity)
  obtain env' tool where "et = (env', tool)" by (cases et)
  with Op_Confirm gw_confirm_audited [OF assms] gw_execute_audited show ?thesis
    by (simp add: gateway_step_def)
next
  case (Op_Register spec)
  with assms show ?thesis by (simp add: gateway_step_def gw_register_def)
next
  case (Op_Unregister tool)
  with assms show ?thesis by (simp add: gateway_step_def gw_unregister_def)
next
  case (Op_Configure policy aud guard hs bus broker)
  with assms show ?thesis by (simp add: gateway_step_def)
qed

text \<open>C8: nothing runs unaudited: along every sequence of calls, confirmations, registrations and
  reconfigurations, each call of a tool in the trace is preceded by an authorisation entry for that
  tool that no other call has used up.\<close>

theorem runs_are_audited:
  assumes "gw_trace g = []"
  shows "audited [] (gw_trace (foldl gateway_step g ops))"
proof -
  have "audited [] (gw_trace h) \<Longrightarrow> audited [] (gw_trace (foldl gateway_step h ops))" for h
    by (induction ops arbitrary: h) (simp_all add: gateway_step_audited)
  with assms show ?thesis by simp
qed

text \<open>Early returns are failures.\<close>

definition failing :: "'a flow \<Rightarrow> bool" where
  "failing f \<longleftrightarrow> (case f of Returns r \<Rightarrow> \<not> tr_success r | _ \<Rightarrow> True)"

lemma failing_simps [simp]:
  "failing (Goes x)" "failing (Raises e)" "failing (Returns r) \<longleftrightarrow> \<not> tr_success r"
  by (simp_all add: failing_def)

lemma tool_fail_success [simp]:
  "\<not> tr_success (tool_fail err tool)" "\<not> tr_success (refusal err tool pid reason)"
  "\<not> tr_success (needs_confirm reason tool pid)" "\<not> tr_success (policy_refusal r tool)"
  by (simp_all add: tool_fail_def refusal_def needs_confirm_def policy_refusal_def)

lemma failing_then_do:
  "failing (snd s) \<Longrightarrow> (\<And>x g. failing (snd (f x g))) \<Longrightarrow> failing (snd (then_do s f))"
  by (cases s; cases "snd s") auto

lemma failing_stages:
  "failing (snd (check_plan_context tool ctx g))" "failing (snd (check_identity tool ctx g))"
  "failing (snd (check_guard tool ctx g))" "failing (snd (find_tool tool g))"
  "failing (snd (check_audit env tool ctx identity policy g))" "failing (snd (check_grounding env tool ctx g))"
  "failing (snd (check_circuit env tool g))" "failing (snd (run_tool env tool ps ctx spec policy g))"
  by (simp_all add: check_plan_context_def check_identity_def check_guard_def find_tool_def check_audit_def
      check_grounding_def check_circuit_def run_tool_def Let_def case_prod_beta'
      split: option.split sum.split run_end.split)

lemma failing_policy: "failing (snd (check_policy env tool ps ctx identity spec g))"
proof -
  have "failing (snd (confirmation_pending env tool ps ctx identity r h))" for r h
    unfolding confirmation_pending_def
    by (rule failing_then_do) (simp_all add: ask_confirmation_def split: sum.split)
  then show ?thesis
    by (simp add: check_policy_def Let_def case_prod_beta' split: option.split sum.split)
qed

lemma failing_gateway: "failing (snd (gw_stages env tool ps ctx g))"
  unfolding gw_stages_def govern_def perform_def
  by (intro failing_then_do failing_stages failing_policy; clarsimp; intro failing_then_do failing_stages failing_policy)

lemma perform_goes:
  assumes "snd (perform env tool ps ctx spec policy g) = Goes r"
  shows "grounded env ctx \<and> circuit_lets g tool (ge_now env)"
proof -
  from assms obtain u where u: "snd (check_grounding env tool ctx g) = Goes u"
    and s: "snd (then_do (check_circuit env tool g) (\<lambda>u g. run_tool env tool ps ctx spec policy g)) = Goes r"
    unfolding perform_def by (rule then_do_goes) (simp add: early_checks)
  from s obtain u' where "snd (check_circuit env tool g) = Goes u'" by (rule then_do_goes)
  with u show ?thesis by (simp add: check_grounding_goes check_circuit_view)
qed

lemma govern_goes:
  assumes "snd (govern env tool ps ctx identity spec g) = Goes r"
  shows "policy_clear g tool ps ctx spec \<and> gw_audit g \<and> \<not> ge_audit_raises env \<and> grounded env ctx
      \<and> circuit_lets g tool (ge_now env)"
proof -
  let ?h = "fst (check_policy env tool ps ctx identity spec g)"
  from assms obtain p where p: "snd (check_policy env tool ps ctx identity spec g) = Goes p"
    and s: "snd (then_do (check_audit env tool ctx identity p ?h) (\<lambda>u g. perform env tool ps ctx spec p g)) = Goes r"
    unfolding govern_def by (rule then_do_goes)
  have q: "quiet_step g ?h" by (rule check_policy_view)
  from s obtain u where u: "snd (check_audit env tool ctx identity p ?h) = Goes u"
    and s': "snd (perform env tool ps ctx spec p (fst (check_audit env tool ctx identity p ?h))) = Goes r"
    by (rule then_do_goes)
  have aud: "gw_audit ?h \<and> \<not> ge_audit_raises env"
    using u check_audit_stops [of ?h env tool ctx identity p u] by blast
  then obtain i where "fst (check_audit env tool ctx identity p ?h) = traced (Authorized i tool identity p) ?h"
    using check_audit_cases [of ?h env tool ctx identity p] by (metis fst_conv)
  with perform_goes [OF s'] have "grounded env ctx \<and> circuit_lets ?h tool (ge_now env)"
    by (simp add: circuit_lets_def traced_def)
  with aud p check_policy_view(2) [of env tool ps ctx identity spec g] show ?thesis
    using quiet_step_same [OF q] by auto
qed

lemma stages_goes: "snd (gw_stages env tool ps ctx g) = Goes r \<Longrightarrow> cleared env tool ps ctx g"
proof (cases "admitted tool ctx g")
  case None
  moreover assume "snd (gw_stages env tool ps ctx g) = Goes r"
  ultimately show ?thesis using gw_stages_admitted [of g env tool ps ctx] by simp
next
  case (Some spec)
  assume s: "snd (gw_stages env tool ps ctx g) = Goes r"
  from Some gw_stages_admitted [of g env tool ps ctx] obtain g1 d where g1: "quiet_step g g1"
    and st: "gw_stages env tool ps ctx g = govern env tool ps (enrich env (identified ctx)) d spec g1"
    by auto
  from govern_goes [OF s [unfolded st]] show ?thesis
    by (simp add: cleared_admitted Some quiet_step_same [OF g1])
qed

text \<open>A call that is not cleared never reports success: it returns a failed result, or the
  exception of a policy or of the confirmation broker reaches the caller.\<close>

theorem uncleared_call_fails:
  assumes "\<not> cleared env tool ps ctx g"
  shows "case snd (gw_execute env tool ps ctx g) of Inl e \<Rightarrow> True | Inr r \<Rightarrow> \<not> tr_success r"
  using assms failing_gateway [of env tool ps ctx g] stages_goes [of env tool ps ctx g]
  by (cases "snd (gw_stages env tool ps ctx g)") (auto simp: gw_execute_def case_prod_beta' Let_def)

section \<open>A sample gateway\<close>

definition sample_spec :: tool_spec where
  "sample_spec = \<lparr>ts_id = ''t'', ts_required_permissions = [''x''], ts_timeout_seconds = 5, ts_status = ACTIVE\<rparr>"

definition sample_gateway :: "policy_effect \<Rightarrow> gateway" where
  "sample_gateway eff =
     \<lparr>gw_tools = [(''t'', sample_spec)],
      gw_policy = Some \<lparr>pe_policies = [(''p'', fixed_policy ''p'' eff)], pe_permission_map = [(''x'', [''p''])],
                     pe_default = DENY, pe_has_bus = True\<rparr>,
      gw_audit = True, gw_guard = Some 7, gw_hardening = None, gw_broker = True, gw_memory = demo_memory,
      gw_bus = True, gw_trace = []\<rparr>"

definition sample_surroundings :: gateway_env where
  "sample_surroundings =
     \<lparr>ge_sha = tagged, ge_ttl = 600, ge_now = 0, ge_stop = 0, ge_action_id = ''a1'', ge_execution_id = ''e1'',
      ge_collect = None, ge_services = [], ge_audit_raises = False, ge_ground = None, ge_patterns = [],
      ge_run = (\<lambda>tool ps ctx limit. Run_Returned (tool_ok (PStr ''done'') tool))\<rparr>"

definition sample_context :: params where
  \<comment> \<open>as the guard hands it to the gateway\<close>
  "sample_context =
     [(''identity'', PDict [(''user_id'', PStr ''u''), (''session_id'', PStr ''s''), (''is_authenticated'', PBool True)]),
      (''session_id'', PStr ''s''), (''issuing_guard'', PObj 7 ''ToolExecutionGuard'' [])]"

lemma sample_cleared: "cleared sample_surroundings ''t'' [] sample_context (sample_gateway ALLOW)"
  by code_simp

lemma sample_denied: "\<not> cleared sample_surroundings ''t'' [] sample_context (sample_gateway DENY)"
  by code_simp

lemma sample_runs:
  "runs (gateway_step (sample_gateway ALLOW) (Op_Execute sample_surroundings ''t'' [] sample_context))
     = [(''t'', [], sample_context)]"
proof -
  have "enrich sample_surroundings (identified sample_context) = sample_context" by code_simp
  then show ?thesis
    by (simp add: gateway_step_def gw_execute_runs sample_cleared) (simp add: sample_gateway_def)
qed

theorem runs_are_audited_witness:
  "let g = foldl gateway_step (sample_gateway ALLOW) [Op_Execute sample_surroundings ''t'' [] sample_context]
   in audited [] (gw_trace g) \<and> runs g = [(''t'', [], sample_context)]"
  using runs_are_audited [of "sample_gateway ALLOW" "[Op_Execute sample_surroundings ''t'' [] sample_context]"]
    sample_runs
  by (simp add: Let_def sample_gateway_def)

theorem uncleared_call_fails_witness:
  "case snd (gw_execute sample_surroundings ''t'' [] sample_context (sample_gateway DENY)) of
     Inl e \<Rightarrow> True | Inr r \<Rightarrow> \<not> tr_success r"
  by (rule uncleared_call_fails [OF sample_denied])

end
