(* ===== verification/Tool_Guard.thy ===== *)
theory Tool_Guard
  imports Argument_Validator Tool_Rate_Limiter Tool_Gateway
begin

text \<open>
  \<open>sentinel/security/tool_guard.py\<close>: the guard in front of the gateway, and the request that
  \<open>sentinel/core/execution_pipeline.py\<close> builds for it. The guard keeps its own policy engine, rate
  limiter and grant repository; it shares the confirmation memory and the trace with the gateway.
  The risk classifier is an argument, as are clocks and drawn identifiers. An object (\<open>PObj\<close>) counts
  as a dataclass instance, its attributes as fields.
\<close>

section \<open>State\<close>

record guard =
  gd_id :: nat
  gd_policy :: "policy_engine option"
  gd_audit :: bool
  gd_broker :: bool
  gd_limiter :: tool_limiter
  gd_repository :: bool
  gd_grants :: grant_db

record guard_env =
  ne_gateway :: gateway_env
  ne_action_id :: string
  ne_now :: rat
  ne_text_now :: string
  ne_risk :: "(tool_request \<Rightarrow> string option result) option"

type_synonym guarded = "guard \<times> gateway"

definition guard_sha :: "guard_env \<Rightarrow> string \<Rightarrow> string" where
  "guard_sha env = ge_sha (ne_gateway env)"

definition denied :: "tool_request \<Rightarrow> string \<Rightarrow> risk_level \<Rightarrow> execution_result" where
  "denied req err risk =
     (er_default False (tr_tool_name req))\<lparr>er_error := Some err, er_risk := risk, er_decision := DENIED\<rparr>"

definition approved :: "tool_request \<Rightarrow> risk_level \<Rightarrow> execution_result" where
  "approved req risk = (er_default True (tr_tool_name req))\<lparr>er_risk := risk\<rparr>"


section \<open>Ambiguity\<close>

fun field_of :: "pyval \<Rightarrow> string \<Rightarrow> pyval" where
  "field_of (PDict d) k = pget d k"
| "field_of (PObj i c a) k = pget a k"
| "field_of v k = PNone"

definition ids_differ :: "pyval \<Rightarrow> pyval \<Rightarrow> bool" where
  "ids_differ a b \<longleftrightarrow> a \<noteq> PNone \<and> b \<noteq> PNone \<and> \<not> py_eq a b"

fun material_level :: "pyval \<Rightarrow> bool" where
  "material_level (PStr s) = (lower s \<in> {''material'', ''high''})"
| "material_level v = False"

definition ambiguity_denial :: "tool_request \<Rightarrow> pyval \<Rightarrow> execution_result option" where
  \<comment> \<open>the part of \<open>_check_ambiguity\<close> on the ambiguity decision\<close>
  "ambiguity_denial req a =
     (if field_of a ''requires_clarification'' = PBool True then
        Some (denied req ''AMBIGUITY_UNRESOLVED: clarification required'' MEDIUM)
      else if field_of a ''ask_clarification'' = PBool True then
        Some (denied req ''AMBIGUITY_UNRESOLVED: ask_clarification set'' MEDIUM)
      else if material_level (field_of a ''ambiguity_level'') then
        Some (denied req ''AMBIGUITY_UNRESOLVED: material ambiguity'' HIGH)
      else if field_of a ''action'' = PStr ''reject'' then
        Some (denied req ''AMBIGUITY_UNRESOLVED: rejected by ambiguity engine'' HIGH)
      else if ids_differ (py_or (field_of a ''decision_id'') (field_of a ''id''))
                (field_of (pget (tr_context req) ''execution_grant'') ''ambiguity_decision_id'') then
        Some (denied req ''AMBIGUITY_UNRESOLVED: ambiguity decision mismatch'' HIGH)
      else None)"

definition target_keys :: "string list" where
  "target_keys = [''path'', ''target'', ''file'', ''app'', ''contact'']"

definition target_missing :: "tool_request \<Rightarrow> pyval \<Rightarrow> bool" where
  "target_missing req u \<longleftrightarrow>
     list_ex (\<lambda>k. map_of (tr_arguments req) k \<noteq> None) target_keys
     \<and> \<not> truthy (field_of u ''selected_target'')
     \<and> \<not> list_ex (\<lambda>k. truthy (pget (tr_arguments req) k)) target_keys"

definition understanding_denial :: "tool_request \<Rightarrow> pyval \<Rightarrow> execution_result option" where
  \<comment> \<open>the part of \<open>_check_ambiguity\<close> on the understanding of the input\<close>
  "understanding_denial req u =
     (if field_of u ''selected_intent'' = PStr ''informational'' then
        Some (denied req ''AMBIGUITY_UNRESOLVED: informational intent cannot execute'' LOW)
      else if field_of u ''requires_clarification'' = PBool True
              \<or> field_of u ''ambiguity_level'' \<in> {PStr ''material'', PStr ''high''} then
        Some (denied req ''AMBIGUITY_UNRESOLVED: input requires clarification'' MEDIUM)
      else if target_missing req u then
        Some (denied req ''AMBIGUITY_UNRESOLVED: exact target missing'' MEDIUM)
      else if ids_differ (py_or (field_of u ''decision_id'') (field_of u ''id''))
                (field_of (pget (tr_context req) ''execution_grant'') ''input_understanding_id'') then
        Some (denied req ''AMBIGUITY_UNRESOLVED: input understanding mismatch'' HIGH)
      else None)"

definition check_ambiguity :: "tool_request \<Rightarrow> execution_result option" where
  "check_ambiguity req =
     (let a = pget (tr_context req) ''ambiguity_decision''; u = pget (tr_context req) ''input_understanding'';
          first = (if a = PNone then None else ambiguity_denial req a)
      in case first of
           Some r \<Rightarrow> Some r
         | None \<Rightarrow> if u = PNone then None else understanding_denial req u)"


section \<open>Execution grants\<close>

definition request_identity_hash :: "(string \<Rightarrow> string) \<Rightarrow> tool_request \<Rightarrow> string" where
  "request_identity_hash sha req =
     broker_hash sha (PDict [(''user_id'', PStr (tr_user_id req)), (''session_id'', PStr (tr_session_id req))])"

definition grant_fields_match :: "(string \<Rightarrow> string) \<Rightarrow> tool_request \<Rightarrow> grant_context \<Rightarrow> bool" where
  "grant_fields_match sha req gc \<longleftrightarrow>
     tr_user_id req \<noteq> [] \<and> tr_session_id req \<noteq> [] \<and> gc_user_id gc = tr_user_id req
     \<and> gc_session_id gc = tr_session_id req \<and> gc_tool_id gc = tr_tool_name req
     \<and> gc_identity_hash gc = request_identity_hash sha req
     \<and> gc_params_hash gc = canonical_params_hash sha (tr_tool_name req) (PDict (tr_arguments req))
         (gc_plan_id gc) (request_identity_hash sha req)"

definition grant_binding :: "grant_context \<Rightarrow> step_binding" where
  "grant_binding gc =
     \<lparr>sb_plan_grant_id = gc_plan_grant_id gc, sb_plan_id = gc_plan_id gc, sb_plan_hash = gc_plan_hash gc,
      sb_step_id = gc_step_id gc, sb_step_index = Some (gc_step_index gc), sb_tool_id = gc_tool_id gc,
      sb_params_hash = gc_params_hash gc, sb_identity_hash = gc_identity_hash gc,
      sb_session_id = gc_session_id gc\<rparr>"

datatype grant_check =
    No_Grant
  | Grant_Failed execution_result
  | Grant_Spent tool_request

definition consume_execution_grant :: "guard_env \<Rightarrow> tool_request \<Rightarrow> guard \<Rightarrow> guard \<times> grant_check result" where
  \<comment> \<open>an identity that is not a dictionary raises, unless the grant does not fit anyway\<close>
  "consume_execution_grant env req gd =
     (let raw = pget (tr_context req) ''execution_grant'';
          mismatch = Inr (Grant_Failed (denied req ''Execution grant binding mismatch'' LOW))
      in if raw = PNone \<and> tr_source req \<noteq> ''approved_plan'' then (gd, Inr No_Grant)
         else
           (case as_grant raw of
              None \<Rightarrow>
                (gd, Inr (Grant_Failed (denied req
                   ''ExecutionGrantContext is required for approved plan execution'' LOW)))
            | Some gc \<Rightarrow>
                if \<not> grant_fields_match (guard_sha env) req gc then (gd, mismatch)
                else
                  (case or_dict (pget (tr_context req) ''identity'') of
                     Inl e \<Rightarrow> (gd, Inl e)
                   | Inr identity \<Rightarrow>
                       if pget identity ''user_id'' \<noteq> PStr (tr_user_id req)
                          \<or> pget identity ''session_id'' \<noteq> PStr (tr_session_id req) \<or> \<not> gd_repository gd
                       then (gd, mismatch)
                       else
                         (let (db, ok) = consume_step (gd_grants gd) (gc_step_grant_id gc) (grant_binding gc)
                                (ne_text_now env) (ne_text_now env);
                              gd' = gd\<lparr>gd_grants := db\<rparr>
                          in if \<not> ok then
                               (gd', Inr (Grant_Failed (denied req
                                  ''Execution grant rejected, expired, or already consumed'' LOW)))
                             else
                               (gd', Inr (Grant_Spent (req\<lparr>tr_context :=
                                  AList.update ''validated_execution_grant'' raw (tr_context req)\<rparr>)))))))"


section \<open>Confirmations\<close>

definition digests_equal :: "pyval \<Rightarrow> string \<Rightarrow> bool result" where
  \<comment> \<open>\<open>hmac.compare_digest\<close> raises unless both arguments are strings\<close>
  "digests_equal v s = (case v of PStr t \<Rightarrow> Inr (t = s) | _ \<Rightarrow> Inl (AnyException ''TypeError''))"

definition is_already_approved :: "(string \<Rightarrow> string) \<Rightarrow> tool_request \<Rightarrow> bool result" where
  "is_already_approved sha req =
     (if tr_session_id req = [] \<or> tr_user_id req = [] then Inr False
      else bind_result (or_dict (pget (tr_context req) ''_confirmation_grant'')) (\<lambda>cg.
       if pget cg ''user_id'' \<noteq> PStr (tr_user_id req) \<or> pget cg ''tool_id'' \<noteq> PStr (tr_tool_name req) then Inr False
       else if \<not> truthy (pget cg ''params_hash'') then Inr False
       else
         bind_result (digests_equal (pget cg ''params_hash'') (broker_hash sha (PDict (tr_arguments req)))) (\<lambda>same.
           if \<not> same then Inr False
           else
             bind_result (or_dict (pget (tr_context req) ''identity'')) (\<lambda>identity.
               if \<not> truthy (pget cg ''identity_hash'') then Inr False
               else digests_equal (pget cg ''identity_hash'')
                 (identity_binding sha (PStr (tr_user_id req)) (dict_get identity ''session_id'' (PStr [])))))))"

definition request_confirmation :: "guard_env \<Rightarrow> tool_request \<Rightarrow> string \<Rightarrow> risk_level \<Rightarrow> guard \<Rightarrow> gateway
    \<Rightarrow> gateway \<times> string option" where
  "request_confirmation env req reason risk gd g =
     (if \<not> gd_broker gd \<or> tr_user_id req = [] \<or> tr_session_id req = [] then (g, None)
      else
        (case confirmation_request (guard_sha env) (ge_ttl (ne_gateway env)) (gw_memory g) (tr_tool_name req)
                (tr_arguments req) (tr_context req) (''Execute '' @ tr_tool_name req @ '': '' @ reason)
                (risk_value risk) (py_str (dict_get (tr_context req) ''plan_id'' (PStr [])))
                (ne_action_id env) (ge_now (ne_gateway env)) of
           Inl e \<Rightarrow> (g, None)
         | Inr (m, i) \<Rightarrow> (g\<lparr>gw_memory := m\<rparr>, Some i)))"


section \<open>Policy and risk\<close>

definition identity_denial_text :: "string \<Rightarrow> string" where
  "identity_denial_text reason = json_dump '', '' '': '' (PDict
     [(''error_type'', PStr ''AUTHENTICATION_REQUIRED''), (''message'', PStr reason),
      (''required'', PList [PStr ''user_id'', PStr ''session_id''])])"

definition guard_permissions :: "tool_request \<Rightarrow> gateway \<Rightarrow> string list" where
  "guard_permissions req g =
     (case get_spec g (tr_tool_name req) of None \<Rightarrow> [] | Some spec \<Rightarrow> ts_required_permissions spec)"

definition decide_confirmation :: "guard_env \<Rightarrow> tool_request \<Rightarrow> risk_level \<Rightarrow> policy_result \<Rightarrow> bool \<Rightarrow> guard
    \<Rightarrow> gateway \<Rightarrow> gateway \<times> execution_result" where
  \<comment> \<open>the branch of \<open>_evaluate_policy\<close> on an effect that requires confirmation\<close>
  "decide_confirmation env req risk r verified gd g =
     (let with_policy = (\<lambda>e. e\<lparr>er_policy_id := Some (pr_policy_id r), er_policy_reason := Some (pr_reason r)\<rparr>) in
      if verified then (g, with_policy ((approved req risk)\<lparr>er_user_confirmed := True\<rparr>))
      else
        (case request_confirmation env req (pr_reason r) risk gd g of
           (g', Some (c # cs)) \<Rightarrow>
             (g', with_policy ((er_default False (tr_tool_name req))
                \<lparr>er_data := PDict [(''action_id'', PStr (c # cs))], er_risk := risk,
                 er_decision := REQUIRE_CONFIRMATION, er_requires_confirmation := True\<rparr>))
         | (g', _) \<Rightarrow>
             (g', with_policy (denied req (''Confirmation service unavailable: '' @ pr_reason r) risk))))"

definition policy_context :: "tool_request \<Rightarrow> bool \<Rightarrow> params" where
  \<comment> \<open>an unverified grant is not shown to the policies\<close>
  "policy_context req verified =
     (if verified then tr_context req else AList.delete ''_confirmation_grant'' (tr_context req))"

definition evaluate_policy :: "guard_env \<Rightarrow> tool_request \<Rightarrow> risk_level \<Rightarrow> guard \<Rightarrow> gateway
    \<Rightarrow> gateway \<times> execution_result" where
  \<comment> \<open>any exception on the way is a denial\<close>
  "evaluate_policy env req risk gd g =
     (let failed = (\<lambda>e. denied req (''Policy evaluation error: '' @ exc_text e) HIGH) in
      case gd_policy gd of
        None \<Rightarrow> (g, approved req risk)
      | Some engine \<Rightarrow>
          (case is_already_approved (guard_sha env) req of
             Inl e \<Rightarrow> (g, failed e)
           | Inr verified \<Rightarrow>
               (let (answer, events) = evaluate engine (tr_tool_name req) (tr_arguments req)
                      (policy_context req verified) (guard_permissions req g);
                    g' = g\<lparr>gw_trace := gw_trace g @ map Policy_Emitted events\<rparr>
                in case answer of
                     Inl e \<Rightarrow> (g', failed e)
                   | Inr r \<Rightarrow>
                       (case pr_effect r of
                          ALLOW \<Rightarrow> (g', approved req risk)
                        | DENY \<Rightarrow>
                            (let reason = (if pr_policy_id r = ''identity_permissions''
                                           then identity_denial_text (pr_reason r) else pr_reason r)
                             in (g', (denied req reason risk)\<lparr>er_policy_id := Some (pr_policy_id r),
                                       er_policy_reason := Some reason\<rparr>))
                        | REQUIRE_CONFIRM \<Rightarrow> decide_confirmation env req risk r verified gd g'))))"

definition risk_named :: "string \<Rightarrow> risk_level" where
  \<comment> \<open>\<open>getattr(RiskLevel, level.upper(), RiskLevel.LOW)\<close>\<close>
  "risk_named s =
     (let u = upper s in
      if u = ''MEDIUM'' then MEDIUM else if u = ''HIGH'' then HIGH
      else if u = ''CRITICAL'' then CRITICAL else LOW)"

definition classify_risk :: "guard_env \<Rightarrow> tool_request \<Rightarrow> risk_level \<Rightarrow> risk_level" where
  "classify_risk env req current =
     (case ne_risk env of
        None \<Rightarrow> current
      | Some f \<Rightarrow> (case f req of Inr (Some level) \<Rightarrow> max_risk current (risk_named level) | _ \<Rightarrow> current))"


section \<open>Through the gateway\<close>

definition gateway_context :: "guard \<Rightarrow> tool_request \<Rightarrow> params" where
  "gateway_context gd req =
     AList.update ''issuing_guard'' (PObj (gd_id gd) ''ToolExecutionGuard'' [])
       (AList.update ''source'' (PStr (tr_source req))
         (AList.update ''execution_id'' (PStr (tr_execution_id req))
           (AList.update ''_guard_execution'' (PBool True) (tr_context req))))"

definition execute_via_gateway :: "guard_env \<Rightarrow> tool_request \<Rightarrow> guard \<Rightarrow> gateway \<Rightarrow> gateway \<times> execution_result" where
  "execute_via_gateway env req gd g =
     (let (g', answer) = gw_execute (ne_gateway env) (tr_tool_name req) (tr_arguments req)
            (gateway_context gd req) g
      in (g', case answer of
                Inl e \<Rightarrow> denied req (exc_text e) HIGH
              | Inr r \<Rightarrow>
                  (er_default (tr_success r) (tr_tool_name req))
                    \<lparr>er_data := tr_data r, er_error := tr_error r, er_policy_result := tr_policy_result r,
                     er_quality_result := tr_quality_result r, er_requires_confirmation := tr_requires_confirmation r\<rparr>))"

definition guard_log :: "string \<Rightarrow> params \<Rightarrow> guard \<Rightarrow> gateway \<Rightarrow> gateway" where
  "guard_log event entry gd g =
     (if gd_audit gd
      then traced (Audited event (PDict entry) (py_str (dict_get entry ''decision'' (PStr [])))
                     (dict_get entry ''user_id'' (PStr ''system''))) g
      else g)"

fun decision_value :: "security_decision \<Rightarrow> string" where
  "decision_value APPROVED = ''approved''"
| "decision_value DENIED = ''denied''"
| "decision_value REQUIRE_CONFIRMATION = ''require_confirmation''"

definition opt_str :: "string option \<Rightarrow> pyval" where
  "opt_str x = (case x of None \<Rightarrow> PNone | Some s \<Rightarrow> PStr s)"

definition request_fields :: "tool_request \<Rightarrow> params" where
  "request_fields req =
     [(''tool'', PStr (tr_tool_name req)), (''source'', PStr (tr_source req)),
      (''user_id'', PStr (tr_user_id req)), (''session_id'', PStr (tr_session_id req)),
      (''execution_id'', PStr (tr_execution_id req))]"

definition ambiguity_entry :: "guard_env \<Rightarrow> tool_request \<Rightarrow> execution_result \<Rightarrow> params" where
  "ambiguity_entry env req r =
     (''event'', PStr ''tool_execution_ambiguity_denied'') # request_fields req
       @ [(''error'', opt_str (er_error r)), (''timestamp'', PStr (ne_text_now env))]"

definition build_audit_entry :: "guard_env \<Rightarrow> tool_request \<Rightarrow> execution_result \<Rightarrow> risk_level \<Rightarrow> security_decision
    \<Rightarrow> params" where
  "build_audit_entry env req r risk decision =
     (''event'', PStr ''tool_execution'') # request_fields req
       @ [(''model_id'', PStr (tr_model_id req)), (''provider_id'', PStr (tr_provider_id req)),
          (''risk'', PStr (risk_value risk)), (''decision'', PStr (decision_value decision)),
          (''user_confirmation'', PBool (er_user_confirmed r)), (''success'', PBool (er_success r)),
          (''error'', opt_str (er_error r)), (''timestamp'', PStr (ne_text_now env))]"


section \<open>The guard's \<open>execute\<close>\<close>

definition guard_governed :: "guard_env \<Rightarrow> tool_request \<Rightarrow> risk_level \<Rightarrow> guarded \<Rightarrow> guarded \<times> execution_result" where
  \<comment> \<open>steps 4 to 7: risk, policy, gateway, audit\<close>
  "guard_governed env req risk0 s =
     (let (gd, g) = s; risk = classify_risk env req risk0; (g1, p) = evaluate_policy env req risk gd g
      in if er_decision p = DENIED then ((gd, g1), p)
         else
           (let (g2, r0) = execute_via_gateway env req gd g1;
                r = (if er_user_confirmed p then r0\<lparr>er_user_confirmed := True\<rparr> else r0)
            in ((gd, guard_log ''tool_execution'' (build_audit_entry env req r risk APPROVED) gd g2), r)))"

definition guard_rated :: "guard_env \<Rightarrow> tool_request \<Rightarrow> risk_level \<Rightarrow> guarded \<Rightarrow> guarded \<times> execution_result" where
  \<comment> \<open>steps 2 and 3: rate limit, existence of the tool\<close>
  "guard_rated env req risk s =
     (let (gd, g) = s; (tl, rate) = tl_check (gd_limiter gd) (tr_tool_name req) (ne_now env);
          gd' = gd\<lparr>gd_limiter := tl\<rparr>
      in if rr_blocked rate then ((gd', g), denied req (rr_reason rate) MEDIUM)
         else if get_spec g (tr_tool_name req) = None
         then ((gd', g), denied req (''Tool '' @ quoted (tr_tool_name req) @ '' not found'') LOW)
         else guard_governed env req risk (gd', g))"

definition guard_execute :: "guard_env \<Rightarrow> tool_request \<Rightarrow> guarded \<Rightarrow> guarded \<times> execution_result result" where
  "guard_execute env req s =
     (let (gd, g) = s in
      case check_ambiguity req of
        Some r \<Rightarrow>
          ((gd, guard_log ''tool_execution_ambiguity_denied'' (ambiguity_entry env req r) gd g), Inr r)
      | None \<Rightarrow>
          (let v = validate (tr_tool_name req) (tr_arguments req) in
           if \<not> v_valid v then
             ((gd, g), Inr (denied req (''Argument validation failed: '' @ join ''; '' (v_errors v)) (v_risk v)))
           else
             (case consume_execution_grant env req gd of
                (gd', Inl e) \<Rightarrow> ((gd', g), Inl e)
              | (gd', Inr (Grant_Failed r)) \<Rightarrow> ((gd', g), Inr r)
              | (gd', Inr No_Grant) \<Rightarrow>
                  (let (s', r) = guard_rated env req (v_risk v) (gd', g) in (s', Inr r))
              | (gd', Inr (Grant_Spent req')) \<Rightarrow>
                  (let (s', r) = guard_rated env req' (v_risk v) (gd', g) in (s', Inr r)))))"


section \<open>The pipeline in front of the guard\<close>

definition pipeline_session :: "params \<Rightarrow> pyval" where
  "pipeline_session ctx =
     (let identity = as_dict (dict_get ctx ''identity'' (PDict []));
          own = dict_get identity ''session_id'' (PStr []);
          meta = (if truthy own then own
                  else case pget identity ''metadata'' of
                         PDict d \<Rightarrow> dict_get d ''session_id'' (PStr []) | _ \<Rightarrow> own)
      in py_or meta (dict_get ctx ''session_id'' (PStr [])))"

definition pipeline_request :: "string \<Rightarrow> params \<Rightarrow> params \<Rightarrow> string \<Rightarrow> tool_request" where
  \<comment> \<open>identifiers are taken to be strings\<close>
  "pipeline_request tool ps ctx source =
     (let session = pipeline_session ctx;
          ctx' = (if truthy session then AList.update ''session_id'' session ctx else ctx)
      in \<lparr>tr_tool_name = tool, tr_arguments = ps, tr_source = source, tr_context = ctx',
          tr_session_id = str_of session,
          tr_user_id = str_of (dict_get (as_dict (dict_get ctx ''identity'' (PDict []))) ''user_id'' (PStr [])),
          tr_execution_id = str_of (dict_get ctx' ''execution_id'' (PStr [])),
          tr_model_id = [], tr_provider_id = []\<rparr>)"

definition shown_policy :: "execution_result \<Rightarrow> params option" where
  "shown_policy r =
     (case er_policy_result r of
        Some d \<Rightarrow> Some d
      | None \<Rightarrow>
          map_option (\<lambda>i. [(''effect'', PStr (decision_value (er_decision r))), (''policy_id'', PStr i),
              (''reason'', opt_str (er_policy_reason r))]) (er_policy_id r))"

definition pipeline_result :: "string \<Rightarrow> execution_result result \<Rightarrow> tool_result" where
  "pipeline_result tool answer =
     (case answer of
        Inl e \<Rightarrow> tool_fail (''Security guard error: '' @ exc_text e) tool
      | Inr r \<Rightarrow>
          \<lparr>tr_success = er_success r, tr_data = er_data r,
           tr_error = (if er_success r then None
             else Some (case er_error r of Some (c # cs) \<Rightarrow> c # cs | _ \<Rightarrow> ''Blocked by ToolExecutionGuard'')),
           tr_tool_id = tool, tr_duration_ms = None, tr_requires_confirmation = er_requires_confirmation r,
           tr_policy_decision = Some (decision_value (er_decision r)), tr_policy_result = shown_policy r,
           tr_quality_result = er_quality_result r\<rparr>)"

definition pipeline_execute :: "guard_env \<Rightarrow> string \<Rightarrow> params \<Rightarrow> params \<Rightarrow> string \<Rightarrow> guarded \<Rightarrow> guarded \<times> tool_result" where
  \<comment> \<open>with a guard; without one the pipeline refuses every call\<close>
  "pipeline_execute env tool ps ctx source s =
     (let (s', answer) = guard_execute env (pipeline_request tool ps ctx source) s
      in (s', pipeline_result tool answer))"


section \<open>Complete mediation\<close>

lemma quiet_step_cleared:
  assumes "quiet_step g g'"
  shows "cleared env tool ps ctx g' = cleared env tool ps ctx g"
proof -
  have "gw_tools g' = gw_tools g" "gw_guard g' = gw_guard g" using assms by (simp_all add: quiet_step_def)
  then show ?thesis
    unfolding cleared_def guard_ok_def Let_def quiet_step_same [OF assms] by simp
qed

lemma request_confirmation_quiet: "quiet_step g (fst (request_confirmation env req reason risk gd g))"
  by (auto simp: request_confirmation_def split: sum.split)

lemma decide_confirmation_quiet: "quiet_step g (fst (decide_confirmation env req risk r verified gd g))"
  using request_confirmation_quiet [of g env req "pr_reason r" risk gd]
  by (auto simp: decide_confirmation_def Let_def split: prod.split option.split list.split)

lemma evaluate_policy_quiet: "quiet_step g (fst (evaluate_policy env req risk gd g))"
proof (cases "gd_policy gd")
  case None
  then show ?thesis by (simp add: evaluate_policy_def)
next
  case (Some engine)
  show ?thesis
  proof (cases "is_already_approved (guard_sha env) req")
    case (Inl e)
    with Some show ?thesis by (simp add: evaluate_policy_def)
  next
    case (Inr v)
    obtain answer evs where ev: "evaluate engine (tr_tool_name req) (tr_arguments req)
        (policy_context req v) (guard_permissions req g) = (answer, evs)"
      by fastforce
    let ?g = "g\<lparr>gw_trace := gw_trace g @ map Policy_Emitted evs\<rparr>"
    have q: "quiet_step g ?g" by simp
    show ?thesis
    proof (cases answer)
      case (Inl e)
      with Some Inr ev q show ?thesis by (simp add: evaluate_policy_def Let_def)
    next
      case ans: (Inr r)
      have "quiet_step g (fst (decide_confirmation env req risk r v gd ?g))"
        by (rule quiet_step_trans [OF q decide_confirmation_quiet])
      with Some Inr ev q ans show ?thesis
        by (cases "pr_effect r") (simp_all add: evaluate_policy_def Let_def)
    qed
  qed
qed

lemma guard_log_runs [simp]: "runs (guard_log event entry gd g) = runs g"
  by (simp add: guard_log_def traced_def runs_of_def)

definition effective_request :: "guard_env \<Rightarrow> tool_request \<Rightarrow> guard \<Rightarrow> tool_request option" where
  \<comment> \<open>the request as it goes on after the grant check\<close>
  "effective_request env req gd =
     (case snd (consume_execution_grant env req gd) of
        Inr No_Grant \<Rightarrow> Some req | Inr (Grant_Spent req') \<Rightarrow> Some req' | _ \<Rightarrow> None)"

definition guard_admits :: "guard_env \<Rightarrow> tool_request \<Rightarrow> tool_request \<Rightarrow> guarded \<Rightarrow> bool" where
  \<comment> \<open>what has to hold besides the grant\<close>
  "guard_admits env req req' s \<longleftrightarrow>
     (let (gd, g) = s; v = validate (tr_tool_name req) (tr_arguments req) in
      check_ambiguity req = None \<and> v_valid v
      \<and> \<not> rr_blocked (snd (tl_check (gd_limiter gd) (tr_tool_name req') (ne_now env)))
      \<and> get_spec g (tr_tool_name req') \<noteq> None
      \<and> er_decision (snd (evaluate_policy env req' (classify_risk env req' (v_risk v)) gd g)) \<noteq> DENIED
      \<and> cleared (ne_gateway env) (tr_tool_name req') (tr_arguments req') (gateway_context gd req') g)"

lemma evaluate_policy_guard:
  assumes "gd_policy gd' = gd_policy gd" and "gd_broker gd' = gd_broker gd"
  shows "evaluate_policy env req risk gd' g = evaluate_policy env req risk gd g"
proof -
  have "decide_confirmation env req risk r v gd' h = decide_confirmation env req risk r v gd h" for r v h
    unfolding decide_confirmation_def request_confirmation_def assms(2) ..
  then show ?thesis unfolding evaluate_policy_def assms(1) by presburger
qed

lemma execute_via_gateway_runs:
  "runs (fst (execute_via_gateway env req gd g)) = runs g @
     (if cleared (ne_gateway env) (tr_tool_name req) (tr_arguments req) (gateway_context gd req) g
      then [(tr_tool_name req, tr_arguments req, enrich (ne_gateway env) (identified (gateway_context gd req)))] else [])"
  using gw_execute_runs [of "ne_gateway env" "tr_tool_name req" "tr_arguments req" "gateway_context gd req" g]
  by (simp add: execute_via_gateway_def case_prod_beta' Let_def)

lemma guard_governed_runs:
  "runs (snd (fst (guard_governed env req risk (gd, g)))) = runs g @
     (if er_decision (snd (evaluate_policy env req (classify_risk env req risk) gd g)) \<noteq> DENIED
         \<and> cleared (ne_gateway env) (tr_tool_name req) (tr_arguments req) (gateway_context gd req) g
      then [(tr_tool_name req, tr_arguments req, enrich (ne_gateway env) (identified (gateway_context gd req)))] else [])"
proof -
  let ?p = "evaluate_policy env req (classify_risk env req risk) gd g"
  have q: "quiet_step g (fst ?p)" by (rule evaluate_policy_quiet)
  show ?thesis
    by (simp add: guard_governed_def case_prod_beta' Let_def execute_via_gateway_runs quiet_step_runs [OF q]
        quiet_step_cleared [OF q])
qed

lemma guard_rated_runs:
  "runs (snd (fst (guard_rated env req risk (gd, g)))) = runs g @
     (if \<not> rr_blocked (snd (tl_check (gd_limiter gd) (tr_tool_name req) (ne_now env)))
         \<and> get_spec g (tr_tool_name req) \<noteq> None
         \<and> er_decision (snd (evaluate_policy env req (classify_risk env req risk) gd g)) \<noteq> DENIED
         \<and> cleared (ne_gateway env) (tr_tool_name req) (tr_arguments req) (gateway_context gd req) g
      then [(tr_tool_name req, tr_arguments req, enrich (ne_gateway env) (identified (gateway_context gd req)))] else [])"
proof -
  have "gateway_context (gd\<lparr>gd_limiter := tl\<rparr>) req = gateway_context gd req" for tl
    by (simp add: gateway_context_def)
  moreover have "evaluate_policy env req r (gd\<lparr>gd_limiter := tl\<rparr>) g = evaluate_policy env req r gd g" for r tl
    by (rule evaluate_policy_guard) simp_all
  ultimately show ?thesis
    by (simp add: guard_rated_def case_prod_beta' Let_def guard_governed_runs)
qed

lemma consume_keeps:
  "fst (consume_execution_grant env req gd) = gd
   \<or> (\<exists>db. fst (consume_execution_grant env req gd) = gd\<lparr>gd_grants := db\<rparr>)"
  by (auto simp: consume_execution_grant_def Let_def case_prod_beta' split: option.split sum.split)

lemma consume_spent:
  assumes "snd (consume_execution_grant env req gd) = Inr (Grant_Spent req')"
  obtains gc where "as_grant (pget (tr_context req) ''execution_grant'') = Some gc"
    and "snd (consume_step (gd_grants gd) (gc_step_grant_id gc) (grant_binding gc) (ne_text_now env) (ne_text_now env))"
    and "fst (consume_execution_grant env req gd) = gd\<lparr>gd_grants := fst (consume_step (gd_grants gd)
          (gc_step_grant_id gc) (grant_binding gc) (ne_text_now env) (ne_text_now env))\<rparr>"
    and "req' = req\<lparr>tr_context := AList.update ''validated_execution_grant''
          (pget (tr_context req) ''execution_grant'') (tr_context req)\<rparr>"
    and "grant_fields_match (guard_sha env) req gc"
proof -
  let ?raw = "pget (tr_context req) ''execution_grant''"
  let ?sha = "guard_sha env"
  have go: "\<not> (?raw = PNone \<and> tr_source req \<noteq> ''approved_plan'')"
  proof
    assume "?raw = PNone \<and> tr_source req \<noteq> ''approved_plan''"
    note if_P [OF this, simp]
    from assms show False unfolding consume_execution_grant_def Let_def by simp
  qed
  obtain gc where gc: "as_grant ?raw = Some gc"
    using assms go unfolding consume_execution_grant_def Let_def by (cases "as_grant ?raw") auto
  have fit: "grant_fields_match ?sha req gc"
    using assms go gc unfolding consume_execution_grant_def Let_def
    by (cases "grant_fields_match ?sha req gc") auto
  obtain identity where identity: "or_dict (pget (tr_context req) ''identity'') = Inr identity"
    using assms go gc fit unfolding consume_execution_grant_def Let_def
    by (cases "or_dict (pget (tr_context req) ''identity'')") auto
  let ?c = "consume_step (gd_grants gd) (gc_step_grant_id gc) (grant_binding gc) (ne_text_now env) (ne_text_now env)"
  have own: "\<not> (pget identity ''user_id'' \<noteq> PStr (tr_user_id req)
      \<or> pget identity ''session_id'' \<noteq> PStr (tr_session_id req) \<or> \<not> gd_repository gd)"
  proof
    assume "pget identity ''user_id'' \<noteq> PStr (tr_user_id req)
      \<or> pget identity ''session_id'' \<noteq> PStr (tr_session_id req) \<or> \<not> gd_repository gd"
    with assms go gc fit identity show False
      unfolding consume_execution_grant_def Let_def by simp
  qed
  have eq: "consume_execution_grant env req gd = (gd\<lparr>gd_grants := fst ?c\<rparr>,
      if \<not> snd ?c then Inr (Grant_Failed (denied req
          ''Execution grant rejected, expired, or already consumed'' LOW))
      else Inr (Grant_Spent (req\<lparr>tr_context := AList.update ''validated_execution_grant'' ?raw (tr_context req)\<rparr>)))"
    unfolding consume_execution_grant_def Let_def case_prod_beta'
    using go gc fit identity own by simp
  show thesis
    using that [OF gc _ _ _ fit] assms unfolding eq by (cases "snd ?c") simp_all
qed

lemma guard_execute_runs:
  "runs (snd (fst (guard_execute env req (gd, g)))) = runs g @
     (case effective_request env req gd of
        None \<Rightarrow> []
      | Some req' \<Rightarrow>
          if guard_admits env req req' (gd, g)
          then [(tr_tool_name req, tr_arguments req,
                 enrich (ne_gateway env) (identified (gateway_context gd req')))]
          else [])"
proof -
  let ?gd = "fst (consume_execution_grant env req gd)"
  have same: "gd_limiter ?gd = gd_limiter gd" "gd_policy ?gd = gd_policy gd" "gd_broker ?gd = gd_broker gd"
    "gateway_context ?gd r = gateway_context gd r" for r
    using consume_keeps [of env req gd] by (auto simp: gateway_context_def)
  have eval: "evaluate_policy env r risk ?gd g = evaluate_policy env r risk gd g" for r risk
    by (rule evaluate_policy_guard) (simp_all add: same)
  have spent: "tr_tool_name r = tr_tool_name req \<and> tr_arguments r = tr_arguments req"
    if "snd (consume_execution_grant env req gd) = Inr (Grant_Spent r)" for r
    by (rule consume_spent [OF that]) simp
  show ?thesis
  proof (cases "check_ambiguity req")
    case (Some r)
    then show ?thesis by (simp add: guard_execute_def guard_admits_def Let_def split: option.split)
  next
    case None
    obtain gd' c where c: "consume_execution_grant env req gd = (gd', c)" by (cases "consume_execution_grant env req gd")
    let ?v = "validate (tr_tool_name req) (tr_arguments req)"
    show ?thesis
    proof (cases "v_valid ?v")
      case False
      with None show ?thesis
        by (simp add: guard_execute_def guard_admits_def Let_def split: option.split)
    next
      case True
      show ?thesis
      proof (cases c)
        case (Inl e)
        with None True c show ?thesis by (simp add: guard_execute_def effective_request_def)
      next
        case (Inr k)
        have rated: "runs (snd (fst (guard_rated env r (v_risk ?v) (gd', g)))) = runs g @
            (if guard_admits env req r (gd, g)
             then [(tr_tool_name r, tr_arguments r, enrich (ne_gateway env) (identified (gateway_context gd r)))]
             else [])" for r
          using guard_rated_runs [of env r "v_risk ?v" gd' g] same eval c None True
          by (simp add: guard_admits_def Let_def)
        show ?thesis
        proof (cases k)
          case No_Grant
          with rated [of req] None True c Inr show ?thesis
            by (simp add: guard_execute_def effective_request_def Let_def case_prod_beta')
        next
          case (Grant_Failed r)
          with None True c Inr show ?thesis
            by (simp add: guard_execute_def effective_request_def Let_def)
        next
          case (Grant_Spent r)
          with rated [of r] spent [of r] None True c Inr show ?thesis
            by (simp add: guard_execute_def effective_request_def Let_def case_prod_beta')
        qed
      qed
    qed
  qed
qed

text \<open>C1: complete mediation: one call of the guard runs at most the requested tool, with the arguments
  that were validated, and it does so exactly when no material ambiguity is open, the arguments are
  valid, an execution grant was spent where one is needed, the rate limit has room, the tool exists,
  the guard's policies do not deny and the gateway clears the call.\<close>

theorem guard_runs_exactly:
  "runs (snd (fst (guard_execute env req (gd, g)))) = runs g @
     (case effective_request env req gd of
        None \<Rightarrow> []
      | Some req' \<Rightarrow>
          if guard_admits env req req' (gd, g)
          then [(tr_tool_name req, tr_arguments req,
                 enrich (ne_gateway env) (identified (gateway_context gd req')))]
          else [])"
  by (rule guard_execute_runs)


section \<open>Grants and runs\<close>

lemma guard_rated_grants [simp]:
  "gd_grants (fst (fst (guard_rated env req risk s))) = gd_grants (fst s)"
  by (cases s) (simp add: guard_rated_def guard_governed_def case_prod_beta' Let_def)

abbreviation spend :: "guard_env \<Rightarrow> guard \<Rightarrow> grant_context \<Rightarrow> grant_db \<times> bool" where
  "spend env gd gc \<equiv>
     consume_step (gd_grants gd) (gc_step_grant_id gc) (grant_binding gc) (ne_text_now env) (ne_text_now env)"

lemma consume_grants_change:
  "gd_grants (fst (consume_execution_grant env req gd)) = gd_grants gd
   \<or> (\<exists>gc. gd_grants (fst (consume_execution_grant env req gd)) = fst (spend env gd gc))"
  unfolding consume_execution_grant_def Let_def case_prod_beta'
  by (auto split: option.split sum.split)

lemma guard_execute_grants:
  "gd_grants (fst (fst (guard_execute env req (gd, g)))) =
     (if check_ambiguity req = None \<and> v_valid (validate (tr_tool_name req) (tr_arguments req))
      then gd_grants (fst (consume_execution_grant env req gd)) else gd_grants gd)"
proof (cases "check_ambiguity req")
  case (Some r)
  then show ?thesis by (simp add: guard_execute_def)
next
  case None
  obtain gd' c where c: "consume_execution_grant env req gd = (gd', c)"
    by (cases "consume_execution_grant env req gd")
  show ?thesis
  proof (cases c)
    case (Inl e)
    with None c show ?thesis by (simp add: guard_execute_def Let_def)
  next
    case (Inr k)
    with None c show ?thesis by (cases k) (simp_all add: guard_execute_def Let_def case_prod_beta')
  qed
qed

lemma plan_call_spends:
  assumes "tr_source req = ''approved_plan''"
    and "runs (snd (fst (guard_execute env req (gd, g)))) \<noteq> runs g"
  obtains gc where "as_grant (pget (tr_context req) ''execution_grant'') = Some gc"
    and "snd (spend env gd gc)" and "gd_grants (fst (fst (guard_execute env req (gd, g)))) = fst (spend env gd gc)"
    and "grant_fields_match (guard_sha env) req gc"
proof -
  have eff: "effective_request env req gd \<noteq> None" and "check_ambiguity req = None"
    and "v_valid (validate (tr_tool_name req) (tr_arguments req))"
    using assms(2) guard_execute_runs [of env req gd g]
    by (auto simp: guard_admits_def Let_def split: option.splits if_splits)
  then have db: "gd_grants (fst (fst (guard_execute env req (gd, g)))) = gd_grants (fst (consume_execution_grant env req gd))"
    by (simp add: guard_execute_grants)
  have "snd (consume_execution_grant env req gd) \<noteq> Inr No_Grant"
    using assms(1) unfolding consume_execution_grant_def Let_def case_prod_beta'
    by (simp split: option.split sum.split)
  with eff obtain r where "snd (consume_execution_grant env req gd) = Inr (Grant_Spent r)"
    by (auto simp: effective_request_def split: sum.splits grant_check.splits)
  then show thesis
    by (rule consume_spent) (use db that in simp)
qed

text \<open>C4: a call for an approved plan that runs its tool has spent a step grant: the grant was issued for
  this tool, these parameters and this user and session, it was approved and unexpired when the
  call came, and it is consumed afterwards.\<close>

theorem plan_run_spends_grant:
  assumes "tr_source req = ''approved_plan''"
    and "runs (snd (fst (guard_execute env req (gd, g)))) \<noteq> runs g"
  shows "\<exists>gc row row'. as_grant (pget (tr_context req) ''execution_grant'') = Some gc
    \<and> gc_tool_id gc = tr_tool_name req \<and> gc_user_id gc = tr_user_id req \<and> gc_session_id gc = tr_session_id req
    \<and> gc_params_hash gc = canonical_params_hash (guard_sha env) (tr_tool_name req) (PDict (tr_arguments req))
        (gc_plan_id gc) (request_identity_hash (guard_sha env) req)
    \<and> get_step (gd_grants gd) (gc_step_grant_id gc) = Some row
    \<and> st_status row = Approved \<and> ne_text_now env < st_expires_at row \<and> binding_matches (grant_binding gc) row
    \<and> get_step (gd_grants (fst (fst (guard_execute env req (gd, g))))) (gc_step_grant_id gc) = Some row'
    \<and> st_status row' = Consumed"
proof -
  from assms obtain gc where gc: "as_grant (pget (tr_context req) ''execution_grant'') = Some gc"
    and ok: "snd (spend env gd gc)"
    and db: "gd_grants (fst (fst (guard_execute env req (gd, g)))) = fst (spend env gd gc)"
    and fits: "grant_fields_match (guard_sha env) req gc" by (rule plan_call_spends)
  from ok obtain row where row: "map_of (db_steps (gd_grants gd)) (gc_step_grant_id gc) = Some row"
    "st_status row = Approved" "ne_text_now env < st_expires_at row" "binding_matches (grant_binding gc) row"
    "binding_complete (grant_binding gc)" by (rule consume_step_success)
  have "map_of (db_steps (fst (spend env gd gc))) (gc_step_grant_id gc)
      = Some (row\<lparr>st_status := Consumed, st_consumed_at := Some (ne_text_now env)\<rparr>)"
    using row by (simp add: consume_step_def)
  with gc fits row db show ?thesis by (auto simp: grant_fields_match_def get_step_def)
qed

datatype mission_op =
    Guard_Call guard_env tool_request
  | Grants_Change grant_op
  | Gateway_Change gateway_op
  | Guard_Setup "policy_engine option" tool_limiter bool

fun mission_step :: "guarded \<Rightarrow> mission_op \<Rightarrow> guarded" where
  "mission_step s (Guard_Call env req) = fst (guard_execute env req s)"
| "mission_step (gd, g) (Grants_Change op) = (gd\<lparr>gd_grants := grant_step (gd_grants gd) op\<rparr>, g)"
| "mission_step (gd, g) (Gateway_Change op) = (gd, gateway_step g op)"
| "mission_step (gd, g) (Guard_Setup policy limiter aud) =
     (gd\<lparr>gd_policy := policy, gd_limiter := limiter, gd_audit := aud\<rparr>, g)"

fun plan_run :: "guarded \<Rightarrow> mission_op \<Rightarrow> string option" where
  \<comment> \<open>the step grant named by a call for an approved plan that ran its tool\<close>
  "plan_run (gd, g) (Guard_Call env req) =
     (if tr_source req = ''approved_plan'' \<and> runs (snd (fst (guard_execute env req (gd, g)))) \<noteq> runs g
      then map_option gc_step_grant_id (as_grant (pget (tr_context req) ''execution_grant'')) else None)"
| "plan_run s op = None"

lemma consume_unconsumed:
  assumes "snd (consume_step db sid b now ts)"
  shows "unconsumed db sid" and "\<not> unconsumed (fst (consume_step db sid b now ts)) sid"
  using step_grants.spend_avail [of db "Consume_Step sid b now ts" sid]
    step_grants.spend_used [of db "Consume_Step sid b now ts" sid] assms by simp_all

lemma unconsumed_back: "unconsumed (grant_step db op) sid \<Longrightarrow> unconsumed db sid"
  using step_grants.avail_step [of db op sid] by simp

lemma plan_run_spends:
  assumes "plan_run s op = Some sid"
  shows "unconsumed (gd_grants (fst s)) sid \<and> \<not> unconsumed (gd_grants (fst (mission_step s op))) sid"
proof -
  obtain gd g where s: "s = (gd, g)" by (cases s)
  with assms obtain env req where op: "op = Guard_Call env req" by (cases op) auto
  from assms s op have "tr_source req = ''approved_plan''"
    and "runs (snd (fst (guard_execute env req (gd, g)))) \<noteq> runs g" by (auto split: if_splits)
  then obtain gc where "as_grant (pget (tr_context req) ''execution_grant'') = Some gc"
    and "snd (spend env gd gc)" and "gd_grants (fst (fst (guard_execute env req (gd, g)))) = fst (spend env gd gc)"
    by (rule plan_call_spends)
  with assms s op consume_unconsumed [of "gd_grants gd" "gc_step_grant_id gc"] show ?thesis
    by (auto split: if_splits)
qed

lemma mission_unconsumed:
  assumes "unconsumed (gd_grants (fst (mission_step s op))) sid"
  shows "unconsumed (gd_grants (fst s)) sid"
proof -
  obtain gd g where s: "s = (gd, g)" by (cases s)
  show ?thesis
  proof (cases op)
    case (Guard_Call env req)
    have "unconsumed (gd_grants (fst (consume_execution_grant env req gd))) sid \<Longrightarrow> unconsumed (gd_grants gd) sid"
      using consume_grants_change [of env req gd] unconsumed_back [of "gd_grants gd" "Consume_Step i b now ts" for i b now ts]
      by auto
    with assms s Guard_Call show ?thesis by (simp add: guard_execute_grants split: if_splits)
  qed (use assms s unconsumed_back in auto)
qed

interpretation plan_runs: single_use mission_step plan_run "\<lambda>s op sid. False" "\<lambda>s. unconsumed (gd_grants (fst s))"
  by unfold_locales (use plan_run_spends mission_unconsumed in blast)+

fun granted_runs :: "guarded \<Rightarrow> mission_op list \<Rightarrow> string list" where
  "granted_runs s [] = []"
| "granted_runs s (op # ops) =
     (case plan_run s op of None \<Rightarrow> [] | Some i \<Rightarrow> [i]) @ granted_runs (mission_step s op) ops"

lemma granted_runs_eq: "plan_runs.spent s ops = granted_runs s ops"
  by (induction ops arbitrary: s) auto

lemma runs_not_reissued: "\<not> plan_runs.reissued s ops i"
  by (induction ops arbitrary: s) auto

text \<open>C3: one grant, one run: in every sequence of guard calls, repository operations, gateway operations
  and reconfigurations, the calls for approved plans run a tool at most once per step grant,
  replays of the same request included.\<close>

theorem one_run_per_grant: "count_list (granted_runs s ops) sid \<le> 1"
  using plan_runs.spent_at_most_once [OF runs_not_reissued] by (simp add: granted_runs_eq)

section \<open>A sample mission\<close>

definition sample_identity_hash :: string where
  "sample_identity_hash = identity_binding tagged (PStr ''u'') (PStr ''s'')"

definition sample_params_hash :: string where
  "sample_params_hash = canonical_params_hash tagged ''t'' (PDict []) ''p'' sample_identity_hash"

definition sample_grants :: grant_db where
  "sample_grants = grant_run empty_db
     [Create_Plan (sample_plan\<lparr>pg_identity_hash := sample_identity_hash\<rparr>) ''2025'' ''2025'',
      Transition_Plan ''g'' Pending Approved [] ''2025'' ''2025'',
      Transition_Plan ''g'' Approved In_Progress [] ''2025'' ''2025'',
      Create_Step (sample_step\<lparr>sg_identity_hash := sample_identity_hash, sg_params_hash := sample_params_hash\<rparr>)
        ''2025'' ''2025'']"

definition sample_execution_grant :: grant_context where
  "sample_execution_grant =
     \<lparr>gc_grant_id = ''sg'', gc_plan_grant_id = ''g'', gc_step_grant_id = ''sg'', gc_user_id = ''u'',
      gc_session_id = ''s'', gc_identity_hash = sample_identity_hash, gc_plan_id = ''p'', gc_plan_hash = ''h'',
      gc_step_id = ''s0'', gc_step_index = 0, gc_tool_id = ''t'', gc_params_hash = sample_params_hash,
      gc_approved_at = ''2025'', gc_expires_at = ''2030'', gc_ambiguity_decision_id = [],
      gc_input_understanding_id = []\<rparr>"

definition sample_user :: pyval where
  "sample_user = PDict [(''user_id'', PStr ''u''), (''session_id'', PStr ''s''), (''is_authenticated'', PBool True)]"

definition sample_request :: "string \<Rightarrow> params \<Rightarrow> tool_request" where
  "sample_request source extra =
     \<lparr>tr_tool_name = ''t'', tr_arguments = [], tr_source = source,
      tr_context = [(''identity'', sample_user), (''session_id'', PStr ''s'')] @ extra,
      tr_session_id = ''s'', tr_user_id = ''u'', tr_execution_id = ''e'', tr_model_id = [], tr_provider_id = []\<rparr>"

definition plan_request :: tool_request where
  "plan_request = sample_request ''approved_plan'' [(''execution_grant'', grant_obj 3 sample_execution_grant)]"

definition sample_guard :: "policy_effect \<Rightarrow> guard" where
  "sample_guard eff =
     \<lparr>gd_id = 7, gd_policy = gw_policy (sample_gateway eff), gd_audit = True, gd_broker = True,
      gd_limiter = tl_init [(''t'', rc 1 60)], gd_repository = True, gd_grants = sample_grants\<rparr>"

definition sample_guard_env :: guard_env where
  "sample_guard_env =
     \<lparr>ne_gateway = sample_surroundings, ne_action_id = ''a2'', ne_now = 100, ne_text_now = ''2026'', ne_risk = None\<rparr>"

definition guard_lets :: "guard_env \<Rightarrow> tool_request \<Rightarrow> guarded \<Rightarrow> bool" where
  "guard_lets env req s =
     (case effective_request env req (fst s) of None \<Rightarrow> False | Some req' \<Rightarrow> guard_admits env req req' s)"

lemma guard_lets_runs:
  "guard_lets env req (gd, g) \<longleftrightarrow> runs (snd (fst (guard_execute env req (gd, g)))) \<noteq> runs g"
  by (auto simp: guard_lets_def guard_execute_runs split: option.split)

lemma plan_request_let: "guard_lets sample_guard_env plan_request (sample_guard ALLOW, sample_gateway ALLOW)"
  by code_simp

theorem plan_run_spends_grant_witness:
  "\<exists>gc row. as_grant (pget (tr_context plan_request) ''execution_grant'') = Some gc
    \<and> get_step sample_grants (gc_step_grant_id gc) = Some row \<and> st_status row = Approved"
  using plan_run_spends_grant [of plan_request sample_guard_env "sample_guard ALLOW" "sample_gateway ALLOW"]
    plan_request_let
  by (auto simp: guard_lets_runs plan_request_def sample_request_def sample_guard_def)

section \<open>Lost grants\<close>

lemma spent_grant_never_fits:
  assumes "as_grant (pget (tr_context req) ''execution_grant'') = Some gc"
    and "\<not> unconsumed (gd_grants gd) (gc_step_grant_id gc)"
  shows "effective_request env req gd = None"
proof (rule ccontr)
  assume "effective_request env req gd \<noteq> None"
  moreover have "snd (consume_execution_grant env req gd) \<noteq> Inr No_Grant"
    using assms(1) unfolding consume_execution_grant_def Let_def case_prod_beta'
    by (simp split: option.split sum.split) auto
  ultimately obtain r where "snd (consume_execution_grant env req gd) = Inr (Grant_Spent r)"
    by (auto simp: effective_request_def split: sum.splits grant_check.splits)
  then obtain gc' where "as_grant (pget (tr_context req) ''execution_grant'') = Some gc'"
    and "snd (spend env gd gc')" by (rule consume_spent)
  with assms consume_unconsumed(1) show False by auto
qed

text \<open>A rate-limited call loses its grant: the grant is spent before the rate limit is looked at, so
  a call for an approved step that meets the limit fails, and however the guard, the gateway and
  the time change, this request never runs its tool afterwards.\<close>

theorem grant_spent_then_limited:
  assumes "check_ambiguity req = None" and "v_valid (validate (tr_tool_name req) (tr_arguments req))"
    and "snd (consume_execution_grant env req gd) = Inr (Grant_Spent req')"
    and "rr_blocked (snd (tl_check (gd_limiter gd) (tr_tool_name req) (ne_now env)))"
  shows "\<exists>gd' r. guard_execute env req (gd, g) = ((gd', g), Inr r) \<and> \<not> er_success r \<and> er_decision r = DENIED
    \<and> (\<forall>env' g'. runs (snd (fst (guard_execute env' req (gd', g')))) = runs g')"
proof -
  let ?gd = "fst (consume_execution_grant env req gd)"
  let ?gd' = "?gd\<lparr>gd_limiter := fst (tl_check (gd_limiter gd) (tr_tool_name req) (ne_now env))\<rparr>"
  let ?r = "denied req' (rr_reason (snd (tl_check (gd_limiter gd) (tr_tool_name req) (ne_now env)))) MEDIUM"
  obtain gc where gc: "as_grant (pget (tr_context req) ''execution_grant'') = Some gc"
    "snd (spend env gd gc)" "?gd = gd\<lparr>gd_grants := fst (spend env gd gc)\<rparr>" "tr_tool_name req' = tr_tool_name req"
    by (rule consume_spent [OF assms(3)]) (use that in simp)
  have "guard_execute env req (gd, g) = ((?gd', g), Inr ?r)"
    using assms gc by (cases "consume_execution_grant env req gd")
      (simp add: guard_execute_def guard_rated_def Let_def case_prod_beta')
  moreover have "\<not> er_success ?r" "er_decision ?r = DENIED"
    by (simp_all add: denied_def er_default_def)
  moreover have "\<not> unconsumed (gd_grants ?gd') (gc_step_grant_id gc)"
    using consume_unconsumed(2) [OF gc(2)] by (simp add: gc(3))
  then have "runs (snd (fst (guard_execute env' req (?gd', g')))) = runs g'" for env' g'
    by (simp add: guard_execute_runs spent_grant_never_fits [OF gc(1)])
  ultimately show ?thesis by blast
qed

definition limited_guard :: guard where
  \<comment> \<open>one call of the tool has just been counted\<close>
  "limited_guard = (sample_guard ALLOW)\<lparr>gd_limiter := fst (tl_check (gd_limiter (sample_guard ALLOW)) ''t'' 99)\<rparr>"

lemma limited_spends: "\<exists>r. snd (consume_execution_grant sample_guard_env plan_request limited_guard) = Inr (Grant_Spent r)"
proof -
  have "case snd (consume_execution_grant sample_guard_env plan_request limited_guard) of
      Inr (Grant_Spent r) \<Rightarrow> True | _ \<Rightarrow> False" by code_simp
  then show ?thesis by (auto split: sum.splits grant_check.splits)
qed

lemma limited_checks:
  "check_ambiguity plan_request = None"
  "v_valid (validate (tr_tool_name plan_request) (tr_arguments plan_request))"
  "rr_blocked (snd (tl_check (gd_limiter limited_guard) (tr_tool_name plan_request) (ne_now sample_guard_env)))"
  by code_simp+

theorem grant_spent_then_limited_witness:
  "\<exists>gd' r. guard_execute sample_guard_env plan_request (limited_guard, sample_gateway ALLOW)
      = ((gd', sample_gateway ALLOW), Inr r) \<and> er_decision r = DENIED
    \<and> (\<forall>env' g'. runs (snd (fst (guard_execute env' plan_request (gd', g')))) = runs g')"
proof -
  obtain r where r: "snd (consume_execution_grant sample_guard_env plan_request limited_guard) = Inr (Grant_Spent r)"
    using limited_spends by blast
  from grant_spent_then_limited [OF limited_checks(1,2) r limited_checks(3), of "sample_gateway ALLOW"]
  show ?thesis by blast
qed


section \<open>Confirmations and runs\<close>

lemma dict_get_pget: "pget d k = v \<Longrightarrow> v \<noteq> PNone \<Longrightarrow> dict_get d k w = v"
  by (auto simp: pget_def dict_get_def split: option.splits)

lemma redact_dict: "\<exists>d. redact_value (PDict ps) = PDict d"
  by simp

text \<open>C14: a confirmation comes back as an approval: what \<open>request\<close> stored for an authenticated user with a
  session, \<open>consume\<close> hands out to the same user and session within its time to live, and the call
  the pipeline builds from it counts as already approved, so the guard does not ask again. This holds for the backend in
  memory; for the SQLite backend it holds of a call whose tool, user and redacted parameters the store keeps as they are,
  that is, in which sanitizing finds nothing more to redact.\<close>

theorem confirmed_call_is_approved:
  assumes "\<And>v. broker_hash sha v \<noteq> []" and "pget ctx ''identity'' = PDict identity"
    and "pget identity ''user_id'' = PStr user" and "pget identity ''session_id'' = PStr session"
    and "user \<noteq> []" and "session \<noteq> []"
    and "confirmation_request sha ttl m tool ps ctx reason risk plan_id i now = Inr (m', i')"
    and "later - now \<le> ttl"
    and "me_durable m \<Longrightarrow> \<forall>v \<in> {PStr tool, PStr user, redact_value (PDict ps)}. sanitize v = v"
  shows "i' = i \<and> (\<exists>m'' cg. confirmation_consume sha m' i user True (Some session) later = (m'', Inr (Some cg))
    \<and> cg_tool_id cg = PStr tool \<and> PDict (cg_params cg) = redact_value (PDict ps)
    \<and> is_already_approved sha (pipeline_request tool (cg_params cg) (confirmed_context cg i identity) source) = Inr True)"
proof -
  let ?r0 = "confirmation_record sha ttl tool ps ctx identity reason risk plan_id i now"
  define r where "r = ?r0\<lparr>pa_params := stored_params m ?r0\<rparr>"
  have store: "i' = i" "store_pending_action m ?r0 = Inr m'"
    using assms(2,7) by (auto simp: confirmation_request_def split: if_splits)
  from stored_record [OF store(2), of i] have row: "map_of (me_pending m') i = Some r" by (simp add: r_def)
  note f = kept_fields [OF refl r_def]
  have kept: "kept m (PStr tool) = PStr tool" "kept m (PStr user) = PStr user" "kept m (redact_value (PDict ps)) = redact_value (PDict ps)"
    using assms(9) by (auto simp: kept_def simp del: redact_value.simps)
  obtain d where d: "redact_value (PDict ps) = PDict d" using redact_dict by blast
  have u: "stored_user r = PStr user" unfolding f(2) assms(3) by (rule kept(2))
  have kd: "kept m (PDict d) = PDict d" using kept(3) unfolding d .
  have ps: "as_dict (pget (pa_params r) ''params'') = d" unfolding f(4) d kd by simp
  have sess: "dict_get identity ''session_id'' (PStr []) = PStr session"
    using assms(4) by (rule dict_get_pget) simp
  have fields: "pa_params_hash r = broker_hash sha (PDict d)" "pa_identity_hash r = identity_binding sha (PStr user) (PStr session)"
    "pa_created_at r = now" "pa_ttl_seconds r = ttl"
    by (simp_all add: r_def d assms(3) sess del: redact_value.simps)
  have "check_bindings sha r user (Some session) = Inr ()"
    unfolding check_bindings_def ps fields by simp
  then obtain cg where take: "confirmation_consume sha m' i user True (Some session) later
      = (m'\<lparr>me_pending := AList.delete i (me_pending m')\<rparr>, Inr (Some cg))"
    and cg: "cg_tool_id cg = PStr tool" "cg_params cg = d" "cg_user_id cg = user" "cg_params_hash cg = broker_hash sha (PDict d)"
      "cg_identity_hash cg = identity_binding sha (PStr user) (PStr session)"
    using f(1) u ps fields assms(5,8) f(3) kept(1)
    by (simp add: confirmation_consume_def get_pending_action_def consume_pending_action_def row)
  have "is_already_approved sha (pipeline_request tool (cg_params cg) (confirmed_context cg i identity) source) = Inr True"
    using assms(1,4-6) sess dict_get_pget [OF assms(3), of "PStr []"]
    by (simp add: cg is_already_approved_def pipeline_request_def pipeline_session_def confirmed_context_def
        grant_marker_def py_or_def digests_equal_def Let_def identity_binding_def)
  with store take cg d show ?thesis by auto
qed

definition forged_request :: tool_request where
  "forged_request = sample_request ''user'' [(''_confirmation_grant'', PDict [(''x'', PBool True)])]"

text \<open>An unverified grant runs the tool: the policies require a confirmation, the guard finds that the
  grant in the context is none and stores a request for confirmation, and the tool runs all the
  same, because the guard goes on and the gateway takes any grant that is not empty.\<close>

theorem unverified_grant_runs:
  "is_already_approved tagged forged_request = Inr False
   \<and> er_decision (snd (evaluate_policy sample_guard_env forged_request LOW (sample_guard REQUIRE_CONFIRM)
         (sample_gateway REQUIRE_CONFIRM))) = REQUIRE_CONFIRMATION
   \<and> map fst (runs (snd (fst (guard_execute sample_guard_env forged_request
         (sample_guard REQUIRE_CONFIRM, sample_gateway REQUIRE_CONFIRM))))) = [''t'']"
proof -
  have "is_already_approved tagged forged_request = Inr False" by code_simp
  moreover have "er_decision (snd (evaluate_policy sample_guard_env forged_request LOW (sample_guard REQUIRE_CONFIRM)
      (sample_gateway REQUIRE_CONFIRM))) = REQUIRE_CONFIRMATION" by code_simp
  moreover have "guard_lets sample_guard_env forged_request (sample_guard REQUIRE_CONFIRM, sample_gateway REQUIRE_CONFIRM)"
    by code_simp
  then have "map fst (runs (snd (fst (guard_execute sample_guard_env forged_request
      (sample_guard REQUIRE_CONFIRM, sample_gateway REQUIRE_CONFIRM))))) = [''t'']"
    by (auto simp: guard_lets_def guard_execute_runs forged_request_def sample_request_def sample_gateway_def
        split: option.splits)
  ultimately show ?thesis by blast
qed

text \<open>One call asks twice: without a grant, a call that the policies want confirmed leaves two pending
  confirmations behind, one of the guard and one of the gateway; the tool does not run.\<close>

theorem confirmation_asked_twice:
  "let ((gd, g), answer) = guard_execute sample_guard_env (sample_request ''user'' [])
        (sample_guard REQUIRE_CONFIRM, sample_gateway REQUIRE_CONFIRM)
   in runs g = [] \<and> map fst (me_pending (gw_memory g)) = [''a2'', ''a1'']"
  by code_simp


definition confirmed_memory :: memory where
  "confirmed_memory = memory_step tagged demo_memory (hd demo_ops)"

lemma tagged_hash: "broker_hash tagged v \<noteq> []"
  by (simp add: broker_hash_def tagged_def)

theorem confirmed_call_is_approved_witness:
  "\<exists>m'' cg. confirmation_consume tagged confirmed_memory ''a1'' ''u'' True (Some ''s'') 5 = (m'', Inr (Some cg))
    \<and> is_already_approved tagged (pipeline_request ''t'' (cg_params cg)
        (confirmed_context cg ''a1'' [(''user_id'', PStr ''u''), (''session_id'', PStr ''s'')]) ''gateway'') = Inr True"
proof -
  have "confirmation_request tagged 600 demo_memory ''t'' [] demo_identity ''r'' ''high'' [] ''a1'' 0
      = Inr (confirmed_memory, ''a1'')"
    by (simp add: confirmed_memory_def demo_ops_def confirmation_request_def demo_identity_def demo_memory_def
        store_pending_action_def Let_def py_or_def)
  from confirmed_call_is_approved [OF tagged_hash _ _ _ _ _ this, where later = 5 and identity = "[(''user_id'', PStr ''u''), (''session_id'', PStr ''s'')]"
      and user = "''u''" and session = "''s''" and source = "''gateway''"]
  moreover have "\<not> me_durable demo_memory" by (simp add: demo_memory_def)
  ultimately show ?thesis by (auto simp: demo_identity_def)
qed

end
