(* ===== verification/Cloud_Authority.thy ===== *)
theory Cloud_Authority
  imports Py_Text
begin

text \<open>
  \<open>sentinel/security/cloud_authority.py\<close>: who may send a request to a cloud model, and
  \<open>sidecar/repositories/cloud_authority_store.py\<close>: the durable one-time authorizations. The code shares
  and mutates authorization objects (a consent handed to the caller is the object in the list, a
  policy may stand under two names), so the objects live in a store and the collections hold
  references; \<open>in\<close> and \<open>remove\<close> compare dataclass instances by their fields.
\<close>

section \<open>Authorizations\<close>

record cloud_auth =
  ca_cloud_allowed :: bool
  ca_providers :: "string list"
  ca_models :: "string list"
  ca_purposes :: "string list"
  ca_classes :: "string list"
  ca_paid :: bool
  ca_fallback :: bool
  ca_max_request :: rat
  ca_max_period :: rat
  ca_issued_by :: string
  ca_issued_at :: rat
  ca_expires_at :: "rat option"
  ca_revoked_at :: "rat option"
  ca_scope :: string
  ca_reason :: string

definition ca_default :: cloud_auth where
  "ca_default =
     \<lparr>ca_cloud_allowed = False, ca_providers = [], ca_models = [], ca_purposes = [], ca_classes = [],
      ca_paid = False, ca_fallback = False, ca_max_request = 0, ca_max_period = 0, ca_issued_by = [],
      ca_issued_at = 0, ca_expires_at = None, ca_revoked_at = None, ca_scope = [], ca_reason = []\<rparr>"

record cloud_request =
  cr_provider :: string
  cr_model :: string
  cr_purpose :: string
  cr_class :: string
  cr_cost :: rat

definition auth_expired :: "cloud_auth \<Rightarrow> rat option \<Rightarrow> rat \<Rightarrow> bool" where
  \<comment> \<open>\<open>is_expired\<close>; the last argument is the clock, read when no time (or time 0) is given\<close>
  "auth_expired a given clock \<longleftrightarrow>
     (let now = (case given of None \<Rightarrow> clock | Some t \<Rightarrow> if t = 0 then clock else t) in
      (case ca_expires_at a of None \<Rightarrow> False | Some e \<Rightarrow> e < now) \<or> ca_revoked_at a \<noteq> None)"

definition in_scope :: "string list \<Rightarrow> string \<Rightarrow> bool" where
  "in_scope allowed x \<longleftrightarrow> allowed = [] \<or> x \<in> set allowed"

definition permits :: "cloud_auth \<Rightarrow> cloud_request \<Rightarrow> rat \<Rightarrow> bool" where
  "permits a r clock \<longleftrightarrow>
     ca_cloud_allowed a \<and> \<not> auth_expired a None clock
     \<and> in_scope (ca_providers a) (cr_provider r) \<and> in_scope (ca_models a) (cr_model r)
     \<and> in_scope (ca_purposes a) (cr_purpose r) \<and> in_scope (ca_classes a) (cr_class r)
     \<and> \<not> (0 < cr_cost r \<and> \<not> ca_paid a)
     \<and> \<not> (0 < ca_max_request a \<and> ca_max_request a < cr_cost r)"


section \<open>The authority\<close>

record authority =
  au_objects :: "cloud_auth list"
  au_standing :: "(string \<times> nat) list"
  au_one_time :: "nat list"
  au_local_only :: bool
  au_offline :: bool

definition authority_new :: authority where
  "authority_new =
     \<lparr>au_objects = [], au_standing = [], au_one_time = [], au_local_only = False, au_offline = False\<rparr>"

definition set_local_only :: "authority \<Rightarrow> bool \<Rightarrow> authority" where
  "set_local_only s b = s\<lparr>au_local_only := b\<rparr>"

definition set_offline :: "authority \<Rightarrow> bool \<Rightarrow> authority" where
  "set_offline s b = s\<lparr>au_offline := b\<rparr>"

definition new_object :: "authority \<Rightarrow> cloud_auth \<Rightarrow> authority \<times> nat" where
  "new_object s a = (s\<lparr>au_objects := au_objects s @ [a]\<rparr>, length (au_objects s))"

definition add_standing :: "authority \<Rightarrow> nat \<Rightarrow> string \<Rightarrow> authority" where
  "add_standing s i name = s\<lparr>au_standing := AList.update name i (au_standing s)\<rparr>"

definition revoke_object :: "authority \<Rightarrow> nat \<Rightarrow> rat \<Rightarrow> authority" where
  "revoke_object s i now =
     s\<lparr>au_objects := (au_objects s)[i := (au_objects s ! i)\<lparr>ca_revoked_at := Some now\<rparr>]\<rparr>"

definition revoke_standing :: "authority \<Rightarrow> string \<Rightarrow> rat \<Rightarrow> authority" where
  "revoke_standing s name now =
     (case map_of (au_standing s) name of None \<Rightarrow> s | Some i \<Rightarrow> revoke_object s i now)"

record consent_terms =
  ct_request :: cloud_request
  ct_paid :: bool
  ct_max_cost :: rat
  ct_scope :: string
  ct_reason :: string

definition one_time_auth :: "consent_terms \<Rightarrow> rat \<Rightarrow> cloud_auth" where
  "one_time_auth c now =
     ca_default\<lparr>ca_cloud_allowed := True, ca_providers := [cr_provider (ct_request c)],
       ca_models := [cr_model (ct_request c)], ca_purposes := [cr_purpose (ct_request c)],
       ca_classes := [cr_class (ct_request c)], ca_paid := ct_paid c, ca_max_request := ct_max_cost c,
       ca_issued_by := ''user_consent'', ca_issued_at := now, ca_expires_at := Some (now + 60),
       ca_scope := ct_scope c, ca_reason := ct_reason c\<rparr>"

definition issue_consent :: "authority \<Rightarrow> consent_terms \<Rightarrow> rat \<Rightarrow> authority \<times> nat" where
  "issue_consent s c now =
     (let (s', i) = new_object s (one_time_auth c now) in (s'\<lparr>au_one_time := au_one_time s' @ [i]\<rparr>, i))"

fun drop_first :: "('a \<Rightarrow> bool) \<Rightarrow> 'a list \<Rightarrow> 'a list" where
  "drop_first P [] = []"
| "drop_first P (x # xs) = (if P x then xs else x # drop_first P xs)"

definition consume_consent :: "authority \<Rightarrow> nat \<Rightarrow> rat \<Rightarrow> authority" where
  "consume_consent s i now =
     (let same = (\<lambda>j. au_objects s ! j = au_objects s ! i) in
      if list_ex same (au_one_time s)
      then revoke_object (s\<lparr>au_one_time := drop_first same (au_one_time s)\<rparr>) i now
      else s)"

definition live_refs :: "authority \<Rightarrow> nat list" where
  "live_refs s = au_one_time s @ map snd (au_standing s)"

definition is_authorized :: "authority \<Rightarrow> cloud_request \<Rightarrow> rat \<Rightarrow> bool" where
  "is_authorized s r now \<longleftrightarrow>
     (if au_offline s then False
      else if au_local_only s then False
      else if au_standing s = [] \<and> au_one_time s = [] then False
      else list_ex (\<lambda>i. permits (au_objects s ! i) r now) (live_refs s))"

definition scope_reason :: "cloud_auth \<Rightarrow> cloud_request \<Rightarrow> string option" where
  "scope_reason a r =
     (if \<not> in_scope (ca_providers a) (cr_provider r) then
        Some (''Provider '' @ cr_provider r @ '' not in authorized providers'')
      else if \<not> in_scope (ca_models a) (cr_model r) then
        Some (''Model '' @ cr_model r @ '' not in authorized models'')
      else if \<not> in_scope (ca_purposes a) (cr_purpose r) then Some ''Purpose not in authorized purposes''
      else if \<not> in_scope (ca_classes a) (cr_class r) then Some ''Data classification not in authorized classes''
      else if 0 < cr_cost r \<and> \<not> ca_paid a then Some ''Paid use not authorized''
      else if 0 < ca_max_request a \<and> ca_max_request a < cr_cost r then Some ''Estimated cost exceeds request cap''
      else None)"

definition authorization_reason :: "authority \<Rightarrow> cloud_request \<Rightarrow> string option" where
  \<comment> \<open>\<open>require_authorization_reason\<close>: the loop ends at the first authorization that allows the cloud\<close>
  "authorization_reason s r =
     (if au_offline s then Some ''Offline mode is active''
      else if au_local_only s then Some ''Local-only mode is active''
      else if au_standing s = [] \<and> au_one_time s = [] then Some ''No cloud authorization configured''
      else
        (case find (\<lambda>i. ca_cloud_allowed (au_objects s ! i)) (live_refs s) of
           None \<Rightarrow> Some ''No matching cloud authorization''
         | Some i \<Rightarrow> scope_reason (au_objects s ! i) r))"

section \<open>No cloud use without consent\<close>

datatype authority_op =
    Add_Policy string cloud_auth
  | Share_Policy string nat
  | Revoke_Policy string rat
  | Issue_Consent consent_terms rat
  | Consume_Consent nat rat
  | Local_Only bool
  | Offline bool

fun authority_step :: "authority \<Rightarrow> authority_op \<Rightarrow> authority" where
  \<comment> \<open>\<open>Share_Policy\<close> registers an object that is known already under a further name\<close>
  "authority_step s (Add_Policy name a) = (let (s', i) = new_object s a in add_standing s' i name)"
| "authority_step s (Share_Policy name i) = (if i < length (au_objects s) then add_standing s i name else s)"
| "authority_step s (Revoke_Policy name now) = revoke_standing s name now"
| "authority_step s (Issue_Consent c now) = fst (issue_consent s c now)"
| "authority_step s (Consume_Consent i now) = (if i < length (au_objects s) then consume_consent s i now else s)"
| "authority_step s (Local_Only b) = set_local_only s b"
| "authority_step s (Offline b) = set_offline s b"

definition refs_defined :: "authority \<Rightarrow> bool" where
  "refs_defined s \<longleftrightarrow> (\<forall>i \<in> set (live_refs s). i < length (au_objects s))"

lemma set_drop_first: "set (drop_first P xs) \<subseteq> set xs"
  by (induction xs) auto

lemma update_values: "set (map snd (AList.update k v d)) \<subseteq> insert v (set (map snd d))"
  by (induction d) auto

lemma update_below:
  "\<forall>i \<in> set (map snd d). i < n \<Longrightarrow> v < n \<Longrightarrow> \<forall>i \<in> set (map snd (AList.update k v d)). i < n"
  using update_values [of k v d] by blast

lemma refs_defined_step: "refs_defined s \<Longrightarrow> refs_defined (authority_step s op)"
proof (cases op)
  case (Add_Policy name a)
  assume "refs_defined s"
  then have "\<forall>j \<in> set (live_refs s). j < Suc (length (au_objects s))" unfolding refs_defined_def by (meson less_SucI)
  then have "\<forall>j \<in> set (map snd (au_standing s)). j < Suc (length (au_objects s))"
    "\<forall>j \<in> set (au_one_time s). j < Suc (length (au_objects s))"
    by (simp_all add: live_refs_def ball_Un)
  from update_below [OF this(1), of "length (au_objects s)" name] this(2) Add_Policy show ?thesis
    by (simp add: refs_defined_def live_refs_def new_object_def add_standing_def ball_Un)
next
  case (Share_Policy name i)
  assume ok: "refs_defined s"
  then have "\<forall>j \<in> set (map snd (au_standing s)). j < length (au_objects s)"
    by (simp add: refs_defined_def live_refs_def ball_Un)
  from update_below [OF this, of i name] ok Share_Policy show ?thesis
    by (simp add: refs_defined_def live_refs_def add_standing_def ball_Un)
next
  case (Revoke_Policy name t)
  assume "refs_defined s"
  with Revoke_Policy show ?thesis
    by (simp add: refs_defined_def live_refs_def revoke_standing_def revoke_object_def split: option.split)
next
  case (Issue_Consent c t)
  assume "refs_defined s"
  with Issue_Consent show ?thesis
    by (auto simp: refs_defined_def live_refs_def issue_consent_def new_object_def less_SucI)
next
  case (Consume_Consent i t)
  assume "refs_defined s"
  with Consume_Consent set_drop_first [of "\<lambda>j. au_objects s ! j = au_objects s ! i" "au_one_time s"] show ?thesis
    by (auto simp: refs_defined_def live_refs_def consume_consent_def revoke_object_def Let_def)
qed (simp_all add: refs_defined_def live_refs_def set_local_only_def set_offline_def)

lemma refs_defined_run: "refs_defined (foldl authority_step authority_new ops)"
  by (induction ops rule: rev_induct)
    (simp_all add: refs_defined_step, simp add: refs_defined_def authority_new_def live_refs_def)

lemma permits_one_time:
  "permits (one_time_auth c t) r now \<longleftrightarrow>
     now \<le> t + 60 \<and> cr_provider r = cr_provider (ct_request c) \<and> cr_model r = cr_model (ct_request c)
     \<and> cr_purpose r = cr_purpose (ct_request c) \<and> cr_class r = cr_class (ct_request c)
     \<and> (0 < cr_cost r \<longrightarrow> ct_paid c) \<and> (0 < ct_max_cost c \<longrightarrow> cr_cost r \<le> ct_max_cost c)"
  by (auto simp: permits_def one_time_auth_def ca_default_def auth_expired_def in_scope_def)

text \<open>
  An operation withdraws an authorization when it revokes a name the object stands under at that time, or consumes the
  consent while it is in the list.
\<close>

fun withdraws :: "authority \<Rightarrow> authority_op \<Rightarrow> nat \<Rightarrow> bool" where
  "withdraws s (Revoke_Policy name t) i = (map_of (au_standing s) name = Some i)"
| "withdraws s (Consume_Consent j t) i = (j = i \<and> i \<in> set (au_one_time s))"
| "withdraws s op i = False"

fun withdrawn :: "authority \<Rightarrow> authority_op list \<Rightarrow> nat \<Rightarrow> bool" where
  "withdrawn s [] i = False"
| "withdrawn s (op # ops) i = (withdraws s op i \<or> withdrawn (authority_step s op) ops i)"

lemma withdrawn_snoc:
  "withdrawn s (ops @ [op]) i \<longleftrightarrow> withdrawn s ops i \<or> withdraws (foldl authority_step s ops) op i"
  by (induction ops arbitrary: s) auto

fun creates :: "authority_op \<Rightarrow> cloud_auth \<Rightarrow> bool" where
  "creates (Add_Policy name a) b = (b = a)"
| "creates (Issue_Consent c t) b = (b = one_time_auth c t)"
| "creates op b = False"

lemma step_objects:
  "(\<exists>a. creates op a \<and> au_objects (authority_step s op) = au_objects s @ [a]) \<and> (\<forall>i. \<not> withdraws s op i)
   \<or> length (au_objects (authority_step s op)) = length (au_objects s)"
  by (cases op) (auto simp: new_object_def add_standing_def revoke_standing_def revoke_object_def issue_consent_def
      consume_consent_def set_local_only_def set_offline_def Let_def split: option.split)

lemma revoked_nth:
  assumes "i < length (au_objects s)"
  shows "au_objects (revoke_object s j t) ! i
    = (if j = i then (au_objects s ! i)\<lparr>ca_revoked_at := Some t\<rparr> else au_objects s ! i)"
  using assms by (simp add: revoke_object_def)

lemma step_object:
  assumes "i < length (au_objects s)"
  shows "au_objects (authority_step s op) ! i = au_objects s ! i \<and> \<not> withdraws s op i
    \<or> ca_revoked_at (au_objects (authority_step s op) ! i) \<noteq> None"
proof (cases op)
  case (Revoke_Policy name t)
  then show ?thesis using assms by (auto simp: revoke_standing_def revoked_nth split: option.split)
next
  case (Consume_Consent j t)
  have "list_ex (\<lambda>j. au_objects s ! j = au_objects s ! i) (au_one_time s)" if "i \<in> set (au_one_time s)"
    using that by (auto simp: list_ex_iff)
  then show ?thesis using assms Consume_Consent
    by (auto simp: consume_consent_def revoked_nth Let_def)
qed (use assms in \<open>auto simp: new_object_def add_standing_def issue_consent_def set_local_only_def set_offline_def nth_append\<close>)

text \<open>Every object goes back to the operation that granted it, and is as it was granted unless it has been revoked.\<close>

lemma object_history:
  assumes "i < length (au_objects (foldl authority_step authority_new ops))"
  shows "\<exists>before op after a. ops = before @ op # after \<and> creates op a
    \<and> length (au_objects (foldl authority_step authority_new before)) = i
    \<and> (ca_revoked_at (au_objects (foldl authority_step authority_new ops) ! i) = None \<longrightarrow>
         au_objects (foldl authority_step authority_new ops) ! i = a
         \<and> \<not> withdrawn (foldl authority_step authority_new (before @ [op])) after i)"
  using assms
proof (induction ops rule: rev_induct)
  case (snoc x ops)
  let ?s = "foldl authority_step authority_new ops"
  have run: "foldl authority_step authority_new (ops @ [x]) = authority_step ?s x" by simp
  show ?case
  proof (cases "i < length (au_objects ?s)")
    case True
    from snoc.IH [OF this] obtain before op after a where h: "ops = before @ op # after" "creates op a"
      "length (au_objects (foldl authority_step authority_new before)) = i"
      "ca_revoked_at (au_objects ?s ! i) = None \<longrightarrow> au_objects ?s ! i = a
         \<and> \<not> withdrawn (foldl authority_step authority_new (before @ [op])) after i"
      by (elim exE conjE) (rule that)
    have "?s = foldl authority_step (foldl authority_step authority_new (before @ [op])) after" by (simp add: h(1))
    then have w: "withdrawn (foldl authority_step authority_new (before @ [op])) (after @ [x]) i
        \<longleftrightarrow> withdrawn (foldl authority_step authority_new (before @ [op])) after i \<or> withdraws ?s x i"
      by (simp add: withdrawn_snoc)
    have "ca_revoked_at (au_objects (authority_step ?s x) ! i) = None \<longrightarrow> au_objects (authority_step ?s x) ! i = a
         \<and> \<not> withdrawn (foldl authority_step authority_new (before @ [op])) (after @ [x]) i"
      using step_object [OF True, of x] h(4) unfolding w by metis
    moreover have "ops @ [x] = before @ op # (after @ [x])" using h(1) by simp
    ultimately show ?thesis unfolding run
      by (intro exI [of _ before] exI [of _ op] exI [of _ "after @ [x]"] exI [of _ a] conjI) (rule h(2,3) | assumption)+
  next
    case False
    with snoc.prems step_objects [of x ?s] obtain a where "creates x a" "au_objects (authority_step ?s x) = au_objects ?s @ [a]"
      unfolding run by auto
    moreover from this snoc.prems False have "i = length (au_objects ?s)" by simp
    ultimately show ?thesis unfolding run
      by (intro exI [of _ ops] exI [of _ x] exI [of _ "[]"] exI [of _ a]) simp
  qed
qed (simp add: authority_new_def)

text \<open>C22: nothing goes to the cloud without authority: whatever happened before, a request is authorized
  only while the application is neither offline nor local-only, and only by an authority that still stands: one that
  some operation granted and that none after it has withdrawn, that is, revoked under a name it stood under or consumed
  while it was listed. It is a standing policy that permits the request, or a consent for this very provider, model,
  purpose and data class given at most a minute ago, which admits paid use when the request costs anything and whose
  cap, unless it is 0, is not exceeded.\<close>

theorem cloud_use_needs_consent:
  assumes "is_authorized (foldl authority_step authority_new ops) r now"
  shows "\<not> au_offline (foldl authority_step authority_new ops)
    \<and> \<not> au_local_only (foldl authority_step authority_new ops)
    \<and> (\<exists>before op after i. ops = before @ op # after
         \<and> i = length (au_objects (foldl authority_step authority_new before))
         \<and> i \<in> set (live_refs (foldl authority_step authority_new ops))
         \<and> \<not> withdrawn (foldl authority_step authority_new (before @ [op])) after i
         \<and> (case op of
              Add_Policy name a \<Rightarrow> permits a r now
            | Issue_Consent c t \<Rightarrow> now \<le> t + 60
                \<and> cr_provider r = cr_provider (ct_request c) \<and> cr_model r = cr_model (ct_request c)
                \<and> cr_purpose r = cr_purpose (ct_request c) \<and> cr_class r = cr_class (ct_request c)
                \<and> (0 < cr_cost r \<longrightarrow> ct_paid c) \<and> (0 < ct_max_cost c \<longrightarrow> cr_cost r \<le> ct_max_cost c)
            | _ \<Rightarrow> False))"
proof -
  let ?s = "foldl authority_step authority_new ops"
  from assms have modes: "\<not> au_offline ?s" "\<not> au_local_only ?s"
    and "\<exists>i \<in> set (live_refs ?s). permits (au_objects ?s ! i) r now"
    by (auto simp: is_authorized_def list_ex_iff split: if_splits)
  then obtain i where i: "i \<in> set (live_refs ?s)" "permits (au_objects ?s ! i) r now" by blast
  have "i < length (au_objects ?s)" using refs_defined_run [of ops] i(1) by (simp add: refs_defined_def)
  moreover have "ca_revoked_at (au_objects ?s ! i) = None" using i(2) by (auto simp: permits_def auth_expired_def)
  ultimately obtain before op after a where h: "ops = before @ op # after" "creates op a"
    "length (au_objects (foldl authority_step authority_new before)) = i" "au_objects ?s ! i = a"
    "\<not> withdrawn (foldl authority_step authority_new (before @ [op])) after i"
    using object_history by blast
  have "case op of
              Add_Policy name a \<Rightarrow> permits a r now
            | Issue_Consent c t \<Rightarrow> now \<le> t + 60
                \<and> cr_provider r = cr_provider (ct_request c) \<and> cr_model r = cr_model (ct_request c)
                \<and> cr_purpose r = cr_purpose (ct_request c) \<and> cr_class r = cr_class (ct_request c)
                \<and> (0 < cr_cost r \<longrightarrow> ct_paid c) \<and> (0 < ct_max_cost c \<longrightarrow> cr_cost r \<le> ct_max_cost c)
            | _ \<Rightarrow> False"
    using i(2) h(2,4) by (cases op) (simp_all add: permits_one_time)
  with modes i(1) h show ?thesis by blast
qed

definition small_request :: cloud_request where
  "small_request = \<lparr>cr_provider = ''p'', cr_model = ''m'', cr_purpose = ''conversation'',
     cr_class = ''ordinary_personal'', cr_cost = 0\<rparr>"

definition small_terms :: consent_terms where
  "small_terms = \<lparr>ct_request = small_request, ct_paid = False, ct_max_cost = 0, ct_scope = ''single_request'',
     ct_reason = []\<rparr>"

lemma small_authorized: "is_authorized (foldl authority_step authority_new [Issue_Consent small_terms 10]) small_request 20"
  by code_simp

theorem cloud_use_needs_consent_witness:
  "\<exists>before op after. [Issue_Consent small_terms 10] = before @ op # after
    \<and> \<not> withdrawn (foldl authority_step authority_new (before @ [op])) after
          (length (au_objects (foldl authority_step authority_new before)))"
  using cloud_use_needs_consent [OF small_authorized] by blast

text \<open>A consumed consent is dead.\<close>

definition dead :: "authority \<Rightarrow> nat \<Rightarrow> bool" where
  "dead s i \<longleftrightarrow> i < length (au_objects s) \<and> ca_revoked_at (au_objects s ! i) \<noteq> None"

lemma dead_revoke: "dead s i \<Longrightarrow> dead (revoke_object s j now) i"
  by (cases "j = i") (auto simp: dead_def revoke_object_def)

lemma dead_same: "au_objects s' = au_objects s \<Longrightarrow> dead s' i = dead s i"
  by (simp add: dead_def)

lemma dead_step: "dead s i \<Longrightarrow> dead (authority_step s op) i"
proof (cases op)
  case (Consume_Consent j now)
  assume "dead s i"
  then have "dead (s\<lparr>au_one_time := os\<rparr>) i" for os by (simp add: dead_def)
  with Consume_Consent \<open>dead s i\<close> show ?thesis by (simp add: consume_consent_def Let_def dead_revoke)
next
  case (Revoke_Policy name now)
  assume "dead s i"
  with Revoke_Policy show ?thesis by (simp add: revoke_standing_def dead_revoke split: option.split)
qed (auto simp: dead_def Let_def new_object_def add_standing_def issue_consent_def set_local_only_def set_offline_def
    nth_append)

lemma dead_run: "dead s i \<Longrightarrow> dead (foldl authority_step s ops) i"
  by (induction ops arbitrary: s) (simp_all add: dead_step)

lemma issued_ref: "snd (issue_consent s c now) = length (au_objects s)"
  by (simp add: issue_consent_def new_object_def)

text \<open>A one-time consent is used once: after it has been issued and consumed, with anything in between
  and afterwards, its object permits no request any more.\<close>

theorem consumed_consent_dead:
  assumes "i = snd (issue_consent s c t)" and "s1 = foldl authority_step (fst (issue_consent s c t)) ops"
    and "i \<in> set (au_one_time s1)"
  shows "\<not> permits (au_objects (foldl authority_step s1 (Consume_Consent i t' # ops')) ! i) r now"
proof -
  have len: "i < length (au_objects s1)"
  proof -
    have "length (au_objects s0) \<le> length (au_objects (authority_step s0 op))" for s0 op
      by (cases op) (auto simp: Let_def new_object_def add_standing_def revoke_standing_def revoke_object_def
          issue_consent_def consume_consent_def set_local_only_def set_offline_def split: option.split)
    then have "length (au_objects s0) \<le> length (au_objects (foldl authority_step s0 os))" for s0 os
      by (induction os arbitrary: s0) (auto intro: order_trans)
    moreover have "i < length (au_objects (fst (issue_consent s c t)))"
      by (simp add: assms(1) issued_ref) (simp add: issue_consent_def new_object_def)
    ultimately show ?thesis unfolding assms(2) by (rule order.strict_trans2 [rotated])
  qed
  have "list_ex (\<lambda>j. au_objects s1 ! j = au_objects s1 ! i) (au_one_time s1)"
    using assms(3) by (auto simp: list_ex_iff)
  with len have "dead (authority_step s1 (Consume_Consent i t')) i"
    by (simp add: dead_def consume_consent_def Let_def revoke_object_def)
  then have "dead (foldl authority_step s1 (Consume_Consent i t' # ops')) i"
    by (simp add: dead_run)
  then show ?thesis by (auto simp: dead_def permits_def auth_expired_def)
qed

theorem consumed_consent_dead_witness:
  "\<not> permits (au_objects (foldl authority_step (fst (issue_consent authority_new small_terms 10))
      [Consume_Consent 0 15]) ! 0) small_request 20"
  using consumed_consent_dead [of 0 authority_new small_terms 10 "fst (issue_consent authority_new small_terms 10)" "[]"
      15 "[]" small_request 20]
  by (simp add: issue_consent_def new_object_def authority_new_def)

text \<open>Two consents that were given within one tick of the clock go together: consuming one of them takes
  the other out of the list and revokes the consumed one that stays, so the second is lost unused.\<close>

theorem twin_consents_lost:
  "let s = foldl authority_step authority_new [Issue_Consent small_terms 10, Issue_Consent small_terms 10] in
   is_authorized s small_request 20
   \<and> \<not> is_authorized (authority_step s (Consume_Consent 1 15)) small_request 20"
  by code_simp

text \<open>The explanation contradicts the decision: for an expired consent there is no reason against the
  request although it is not authorized, and with two policies the reason names the first one although
  the second authorizes the request.\<close>

theorem reason_contradicts_decision:
  "let s = foldl authority_step authority_new [Issue_Consent small_terms 10];
       s' = foldl authority_step authority_new
         [Add_Policy ''a'' (ca_default\<lparr>ca_cloud_allowed := True, ca_providers := [''q'']\<rparr>),
          Add_Policy ''b'' (ca_default\<lparr>ca_cloud_allowed := True, ca_providers := [''p'']\<rparr>)]
   in \<not> is_authorized s small_request 100 \<and> authorization_reason s small_request = None
      \<and> is_authorized s' small_request 100
      \<and> authorization_reason s' small_request = Some ''Provider p not in authorized providers''"
  by code_simp

section \<open>The durable store\<close>

text \<open>JSON columns hold the lists that they encode; timestamps are ISO strings, compared as such.\<close>

record one_time_row =
  ot_user :: string
  ot_correlation :: "string option"
  ot_providers :: "string list"
  ot_models :: "string list"
  ot_purposes :: "string list"
  ot_classes :: "string list"
  ot_paid :: bool
  ot_max_cost :: rat
  ot_issued_at :: string
  ot_expires_at :: string
  ot_consumed_at :: "string option"
  ot_revoked_at :: "string option"
  ot_updated_at :: string

record policy_row =
  sp_user :: string
  sp_terms :: cloud_auth
  sp_currency :: string
  sp_issued_at :: string
  sp_expires_at :: "string option"
  sp_revoked_at :: "string option"
  sp_version :: int
  sp_updated_at :: string

record authority_row =
  as_schema_version :: int
  as_onboarding_version :: string
  as_local_only :: bool
  as_offline :: bool
  as_review_required :: bool
  as_provider :: string
  as_model :: string
  as_execution_state :: string
  as_updated_at :: string

record cloud_store =
  cs_state :: "(string \<times> authority_row) list"
  cs_policies :: "(string \<times> policy_row) list"
  cs_one_time :: "(string \<times> one_time_row) list"

definition replace_row :: "string \<Rightarrow> 'r \<Rightarrow> (string \<times> 'r) list \<Rightarrow> (string \<times> 'r) list" where
  \<comment> \<open>\<open>INSERT OR REPLACE\<close>: the old row goes, the new one comes last\<close>
  "replace_row k r rows = AList.delete k rows @ [(k, r)]"

definition delete_rows :: "(string \<times> 'r) list \<Rightarrow> (string \<times> 'r) list \<Rightarrow> (string \<times> 'r) list" where
  "delete_rows gone rows = fold (\<lambda>(i, r). AList.delete i) gone rows"

definition latest_first :: "('a \<Rightarrow> string) \<Rightarrow> 'a list \<Rightarrow> 'a list" where
  "latest_first f xs = rev (sort_key f (rev xs))"

definition save_state :: "cloud_store \<Rightarrow> string \<Rightarrow> authority_row \<Rightarrow> string \<Rightarrow> cloud_store" where
  "save_state st user row now =
     st\<lparr>cs_state := AList.update user (row\<lparr>as_updated_at := now\<rparr>) (cs_state st)\<rparr>"

definition load_state :: "cloud_store \<Rightarrow> string \<Rightarrow> authority_row option" where
  "load_state st user = map_of (cs_state st) user"

definition store_policy :: "cloud_store \<Rightarrow> string \<Rightarrow> string option \<Rightarrow> policy_row \<Rightarrow> string \<Rightarrow> string
    \<Rightarrow> cloud_store \<times> string" where
  \<comment> \<open>\<open>add_standing_policy\<close>; a missing identifier is drawn, a missing time of issue is now\<close>
  "store_policy st user given row drawn now =
     (let i = (case given of Some (c # cs) \<Rightarrow> c # cs | _ \<Rightarrow> drawn);
          row' = row\<lparr>sp_user := user, sp_issued_at := (if sp_issued_at row = [] then now else sp_issued_at row),
                     sp_updated_at := now\<rparr>
      in (st\<lparr>cs_policies := replace_row i row' (cs_policies st)\<rparr>, i))"

definition revoke_policy :: "cloud_store \<Rightarrow> string \<Rightarrow> string \<Rightarrow> string \<Rightarrow> string \<Rightarrow> cloud_store \<times> bool" where
  "revoke_policy st user i revoked_at now =
     (case map_of (cs_policies st) i of
        Some row \<Rightarrow>
          if sp_user row = user
          then (st\<lparr>cs_policies := AList.update i
                  (row\<lparr>sp_revoked_at := Some revoked_at, sp_updated_at := now\<rparr>) (cs_policies st)\<rparr>, True)
          else (st, False)
      | None \<Rightarrow> (st, False))"

definition list_policies :: "cloud_store \<Rightarrow> string \<Rightarrow> (string \<times> policy_row) list" where
  "list_policies st user =
     latest_first (\<lambda>(i, r). sp_updated_at r) (filter (\<lambda>(i, r). sp_user r = user) (cs_policies st))"

definition issue_one_time :: "cloud_store \<Rightarrow> string \<Rightarrow> string option \<Rightarrow> one_time_row \<Rightarrow> string \<Rightarrow> string \<Rightarrow> string
    \<Rightarrow> cloud_store \<times> string" where
  \<comment> \<open>the drawn identifier, the present time and the time a minute later come last\<close>
  "issue_one_time st user given row drawn now later =
     (let i = (case given of Some (c # cs) \<Rightarrow> c # cs | _ \<Rightarrow> drawn);
          row' = row\<lparr>ot_user := user, ot_issued_at := (if ot_issued_at row = [] then now else ot_issued_at row),
                     ot_expires_at := (if ot_expires_at row = [] then later else ot_expires_at row),
                     ot_updated_at := now\<rparr>
      in (st\<lparr>cs_one_time := replace_row i row' (cs_one_time st)\<rparr>, i))"

definition consumable :: "string \<Rightarrow> string \<Rightarrow> one_time_row \<Rightarrow> bool" where
  "consumable user now r \<longleftrightarrow>
     ot_user r = user \<and> ot_consumed_at r = None \<and> ot_revoked_at r = None \<and> now < ot_expires_at r"

definition consume_one_time :: "cloud_store \<Rightarrow> string \<Rightarrow> string \<Rightarrow> string \<Rightarrow> cloud_store \<times> bool" where
  "consume_one_time st user i now =
     (case map_of (cs_one_time st) i of
        Some r \<Rightarrow>
          if consumable user now r
          then (st\<lparr>cs_one_time := AList.update i
                  (r\<lparr>ot_consumed_at := Some now, ot_updated_at := now\<rparr>) (cs_one_time st)\<rparr>, True)
          else (st, False)
      | None \<Rightarrow> (st, False))"

definition list_one_time :: "cloud_store \<Rightarrow> string \<Rightarrow> bool option \<Rightarrow> (string \<times> one_time_row) list" where
  "list_one_time st user consumed =
     latest_first (\<lambda>(i, r). ot_updated_at r)
       (filter (\<lambda>(i, r). ot_user r = user
          \<and> (case consumed of None \<Rightarrow> True | Some b \<Rightarrow> b = (ot_consumed_at r \<noteq> None))) (cs_one_time st))"

definition delete_authority_data :: "cloud_store \<Rightarrow> string \<Rightarrow> cloud_store \<times> nat \<times> nat \<times> nat" where
  "delete_authority_data st user =
     (let mine = (\<lambda>(i :: string, r). ot_user r = user); mine' = (\<lambda>(i :: string, r). sp_user r = user) in
      (st\<lparr>cs_state := AList.delete user (cs_state st),
          cs_policies := delete_rows (filter mine' (cs_policies st)) (cs_policies st),
          cs_one_time := delete_rows (filter mine (cs_one_time st)) (cs_one_time st)\<rparr>,
       length (filter (\<lambda>(u, r). u = user) (cs_state st)), length (filter mine' (cs_policies st)),
       length (filter mine (cs_one_time st))))"

datatype store_op =
    Save_State string authority_row string
  | Store_Policy string "string option" policy_row string string
  | Revoke_Stored string string string string
  | Issue_One_Time string "string option" one_time_row string string string
  | Consume_One_Time string string string
  | Delete_Data string

fun store_step :: "cloud_store \<Rightarrow> store_op \<Rightarrow> cloud_store" where
  "store_step st (Save_State u r now) = save_state st u r now"
| "store_step st (Store_Policy u g r d now) = fst (store_policy st u g r d now)"
| "store_step st (Revoke_Stored u i t now) = fst (revoke_policy st u i t now)"
| "store_step st (Issue_One_Time u g r d now later) = fst (issue_one_time st u g r d now later)"
| "store_step st (Consume_One_Time u i now) = fst (consume_one_time st u i now)"
| "store_step st (Delete_Data u) = fst (delete_authority_data st u)"

fun store_consumes :: "cloud_store \<Rightarrow> store_op \<Rightarrow> string option" where
  "store_consumes st (Consume_One_Time u i now) = (if snd (consume_one_time st u i now) then Some i else None)"
| "store_consumes st op = None"

fun store_issues :: "store_op \<Rightarrow> string \<Rightarrow> bool" where
  "store_issues (Issue_One_Time u g r d now later) i = (i = (case g of Some (c # cs) \<Rightarrow> c # cs | _ \<Rightarrow> d))"
| "store_issues op i = False"

definition unused :: "cloud_store \<Rightarrow> string \<Rightarrow> bool" where
  "unused st i \<longleftrightarrow> (\<exists>r. map_of (cs_one_time st) i = Some r \<and> ot_consumed_at r = None)"

lemma map_of_replace_other: "k' \<noteq> k \<Longrightarrow> map_of (replace_row k r rows) k' = map_of rows k'"
  by (simp add: replace_row_def map_add_def split: option.split)

lemma map_of_delete_rows: "map_of (delete_rows gone rows) k = Some v \<Longrightarrow> map_of rows k = Some v"
proof -
  have "map_of (fold (\<lambda>(i, r). AList.delete i) gone rows) k = Some v \<Longrightarrow> map_of rows k = Some v"
  proof (induction gone arbitrary: rows)
    case (Cons x gone)
    then have "map_of (AList.delete (fst x) rows) k = Some v"
      using Cons.IH [of "AList.delete (fst x) rows"] by (simp add: case_prod_beta')
    then show ?case by (simp split: if_splits)
  qed simp
  then show "map_of (delete_rows gone rows) k = Some v \<Longrightarrow> map_of rows k = Some v" by (simp add: delete_rows_def)
qed

lemma issue_one_time_view:
  "cs_one_time (fst (issue_one_time st u g r d now later)) =
     replace_row (case g of Some (c # cs) \<Rightarrow> c # cs | _ \<Rightarrow> d)
       (r\<lparr>ot_user := u, ot_issued_at := (if ot_issued_at r = [] then now else ot_issued_at r),
          ot_expires_at := (if ot_expires_at r = [] then later else ot_expires_at r), ot_updated_at := now\<rparr>)
       (cs_one_time st)"
  by (simp add: issue_one_time_def Let_def)


interpretation cloud_consents: single_use store_step store_consumes "\<lambda>st op i. store_issues op i" unused
proof
  show "unused st i" if "store_consumes st op = Some i" for st op i
    using that by (cases op) (auto simp: consume_one_time_def unused_def consumable_def split: option.splits if_splits)
  show "\<not> unused (store_step st op) i" if "store_consumes st op = Some i" for st op i
    using that by (cases op) (auto simp: consume_one_time_def unused_def split: option.splits if_splits)
  show "unused st i \<or> store_issues op i" if u: "unused (store_step st op) i" for st op i
  proof (cases op)
    case (Issue_One_Time u' g r d now later)
    with u show ?thesis
      by (cases "store_issues op i") (auto simp: unused_def issue_one_time_view map_of_replace_other)
  next
    case (Consume_One_Time u' j now)
    with u show ?thesis by (auto simp: unused_def consume_one_time_def split: option.splits if_splits)
  next
    case (Delete_Data u')
    with u show ?thesis by (auto simp: unused_def delete_authority_data_def Let_def dest: map_of_delete_rows)
  qed (use u in \<open>auto simp: unused_def save_state_def store_policy_def revoke_policy_def Let_def split: option.splits if_splits\<close>)
qed

fun consumed_consents :: "cloud_store \<Rightarrow> store_op list \<Rightarrow> string list" where
  "consumed_consents st [] = []"
| "consumed_consents st (op # ops) =
     (case store_consumes st op of None \<Rightarrow> [] | Some i \<Rightarrow> [i]) @ consumed_consents (store_step st op) ops"

lemma consumed_consents_eq: "cloud_consents.spent st ops = consumed_consents st ops"
  by (induction ops arbitrary: st) auto

lemma consents_reissued: "cloud_consents.reissued st ops i \<longleftrightarrow> list_ex (\<lambda>op. store_issues op i) ops"
  by (induction ops arbitrary: st) auto

text \<open>A stored one-time authorization is consumed at most once, by whatever sequence of operations of
  the store, unless it is issued again under the same identifier.\<close>

theorem cloud_consent_once:
  assumes "\<not> list_ex (\<lambda>op. store_issues op i) ops"
  shows "count_list (consumed_consents st ops) i \<le> 1"
  using cloud_consents.spent_at_most_once [of st ops i] assms by (simp add: consumed_consents_eq consents_reissued)

definition sample_row :: one_time_row where
  "sample_row = \<lparr>ot_user = [], ot_correlation = None, ot_providers = [''p''], ot_models = [], ot_purposes = [],
     ot_classes = [], ot_paid = False, ot_max_cost = 0, ot_issued_at = [], ot_expires_at = [],
     ot_consumed_at = None, ot_revoked_at = None, ot_updated_at = []\<rparr>"

definition sample_store :: cloud_store where
  "sample_store = fst (issue_one_time \<lparr>cs_state = [], cs_policies = [], cs_one_time = []\<rparr> ''u'' None sample_row
     ''a'' ''2026-01'' ''2026-02'')"

theorem cloud_consent_once_witness:
  "count_list (consumed_consents sample_store
      [Consume_One_Time ''u'' ''a'' ''2026-01'', Consume_One_Time ''u'' ''a'' ''2026-01'']) ''a'' \<le> 1
   \<and> consumed_consents sample_store [Consume_One_Time ''u'' ''a'' ''2026-01''] = [''a'']"
proof
  show "count_list (consumed_consents sample_store
      [Consume_One_Time ''u'' ''a'' ''2026-01'', Consume_One_Time ''u'' ''a'' ''2026-01'']) ''a'' \<le> 1"
    by (rule cloud_consent_once) simp
  show "consumed_consents sample_store [Consume_One_Time ''u'' ''a'' ''2026-01''] = [''a'']" by code_simp
qed

end
