(* ===== verification/Consent_Manager.thy ===== *)
theory Consent_Manager
  imports Py_Text
begin

text \<open>
  \<open>sentinel/core/consent_manager.py\<close> with its in-memory storage: requests for consent, the grants that
  answer them, and the check before a tool runs. Every operation gets the clock and the drawn
  identifiers; grants and requests are dictionaries by identifier.
\<close>

section \<open>State\<close>

datatype consent_type = ONCE | SESSION | PERMANENT

record consent_grant =
  cn_user :: string
  cn_tool :: string
  cn_type :: consent_type
  cn_granted_at :: rat
  cn_expires_at :: "rat option"
  cn_risk :: string
  cn_pattern :: "params option"
  cn_revoked :: bool
  cn_label :: string

record pending_consent =
  pc_user :: string
  pc_tool :: string
  pc_params :: params
  pc_risk_level :: string
  pc_risk_label :: string
  pc_risk_description :: string
  pc_read_only :: bool
  pc_reversible :: bool
  pc_resources :: "string list"
  pc_impact :: string
  pc_simulation :: string
  pc_plan :: params
  pc_intent :: params
  pc_context :: params
  pc_created_at :: rat
  pc_expires_at :: rat
  pc_can_grant_permanent :: bool

record consents =
  cs_grants :: "(string \<times> consent_grant) list"
  cs_pending :: "(string \<times> pending_consent) list"

definition consents_new :: consents where
  "consents_new = \<lparr>cs_grants = [], cs_pending = []\<rparr>"

definition consent_valid :: "consent_grant \<Rightarrow> rat \<Rightarrow> bool" where
  "consent_valid g now \<longleftrightarrow>
     (if cn_revoked g then False
      else if cn_type g = ONCE then False
      else (case cn_expires_at g of None \<Rightarrow> True | Some e \<Rightarrow> \<not> e < now))"

definition consent_matches :: "consent_grant \<Rightarrow> string \<Rightarrow> params option \<Rightarrow> bool" where
  \<comment> \<open>an empty pattern and missing or empty parameters are not compared\<close>
  "consent_matches g tool ps \<longleftrightarrow>
     cn_tool g = tool
     \<and> (case (cn_pattern g, ps) of
          (Some (p # pat), Some (q # qs)) \<Rightarrow>
            list_all (\<lambda>(k, v). case map_of (q # qs) k of None \<Rightarrow> False | Some w \<Rightarrow> py_eq w v) (p # pat)
        | _ \<Rightarrow> True)"


section \<open>Storage\<close>

definition save_grant :: "consents \<Rightarrow> string \<Rightarrow> consent_grant \<Rightarrow> consents" where
  "save_grant s i g = s\<lparr>cs_grants := AList.update i g (cs_grants s)\<rparr>"

definition remove_grant :: "consents \<Rightarrow> string \<Rightarrow> consents" where
  "remove_grant s i = s\<lparr>cs_grants := AList.delete i (cs_grants s)\<rparr>"

definition grants_of :: "consents \<Rightarrow> string \<Rightarrow> (string \<times> consent_grant) list" where
  \<comment> \<open>\<open>list_active\<close>\<close>
  "grants_of s user = filter (\<lambda>(i, g). cn_user g = user) (cs_grants s)"

definition expired_grant :: "rat \<Rightarrow> consent_grant \<Rightarrow> bool" where
  "expired_grant before g \<longleftrightarrow> (case cn_expires_at g of None \<Rightarrow> False | Some e \<Rightarrow> e \<le> before)"

definition storage_cleanup :: "consents \<Rightarrow> rat \<Rightarrow> consents \<times> nat" where
  "storage_cleanup s before =
     (let gone = filter (\<lambda>(i, g). expired_grant before g) (cs_grants s) in
      (s\<lparr>cs_grants := filter (\<lambda>(i, g). \<not> expired_grant before g) (cs_grants s)\<rparr>, length gone))"


section \<open>Operations\<close>

definition request_consent :: "consents \<Rightarrow> string \<Rightarrow> pending_consent \<Rightarrow> rat \<Rightarrow> rat \<Rightarrow> consents" where
  \<comment> \<open>the drawn identifier, the answer's fields, time to live and clock\<close>
  "request_consent s i p ttl now =
     s\<lparr>cs_pending := AList.update i
        (p\<lparr>pc_created_at := now, pc_expires_at := now + ttl, pc_can_grant_permanent := pc_reversible p\<rparr>)
        (cs_pending s)\<rparr>"

definition check_consent :: "consents \<Rightarrow> string \<Rightarrow> string \<Rightarrow> params option \<Rightarrow> rat
    \<Rightarrow> consents \<times> consent_grant option" where
  "check_consent s user tool ps now =
     (case find (\<lambda>(i, g). consent_matches g tool ps \<and> consent_valid g now) (grants_of s user) of
        None \<Rightarrow> (s, None)
      | Some (i, g) \<Rightarrow> (if cn_type g = ONCE then remove_grant s i else s, Some g))"

definition session_expiry :: "consent_type \<Rightarrow> rat option \<Rightarrow> rat \<Rightarrow> rat option" where
  "session_expiry ty ttl now =
     (if ty = SESSION then Some (now + (case ttl of None \<Rightarrow> 86400 | Some t \<Rightarrow> if t = 0 then 86400 else t)) else None)"

definition drop_pending :: "consents \<Rightarrow> string \<Rightarrow> consents" where
  "drop_pending s i = s\<lparr>cs_pending := AList.delete i (cs_pending s)\<rparr>"

definition grant_consent :: "consents \<Rightarrow> string \<Rightarrow> string \<Rightarrow> consent_type \<Rightarrow> rat option \<Rightarrow> string \<Rightarrow> rat
    \<Rightarrow> consents \<times> consent_grant option" where
  \<comment> \<open>the drawn identifier and the clock come last\<close>
  "grant_consent s pending_id user ty ttl i now =
     (case map_of (cs_pending s) pending_id of
        None \<Rightarrow> (s, None)
      | Some p \<Rightarrow>
          if pc_user p \<noteq> user then (s, None)
          else if pc_expires_at p < now then (drop_pending s pending_id, None)
          else
            (let g = \<lparr>cn_user = user, cn_tool = pc_tool p, cn_type = ty, cn_granted_at = now,
                      cn_expires_at = session_expiry ty ttl now, cn_risk = pc_risk_level p,
                      cn_pattern = (if ty = PERMANENT then None else Some (pc_params p)), cn_revoked = False,
                      cn_label = pc_risk_label p @ '': '' @ pc_tool p\<rparr>;
                 s' = (if ty = ONCE then s else save_grant s i g)
             in (drop_pending s' pending_id, Some g)))"

definition direct_grant :: "consents \<Rightarrow> string \<Rightarrow> string \<Rightarrow> consent_type \<Rightarrow> string \<Rightarrow> string \<Rightarrow> rat option \<Rightarrow> string
    \<Rightarrow> rat \<Rightarrow> consents \<times> consent_grant" where
  "direct_grant s user tool ty risk label ttl i now =
     (let g = \<lparr>cn_user = user, cn_tool = tool, cn_type = ty, cn_granted_at = now,
               cn_expires_at = session_expiry ty ttl now, cn_risk = risk, cn_pattern = None, cn_revoked = False,
               cn_label = (if label = [] then ''Manual approval: '' @ tool else label)\<rparr>
      in (if ty = ONCE then s else save_grant s i g, g))"

definition revoke_consent :: "consents \<Rightarrow> string \<Rightarrow> string \<Rightarrow> consents \<times> bool" where
  "revoke_consent s i user =
     (case map_of (cs_grants s) i of
        None \<Rightarrow> (s, False)
      | Some g \<Rightarrow> if cn_user g \<noteq> user then (s, False) else (save_grant s i (g\<lparr>cn_revoked := True\<rparr>), True))"

definition list_grants :: "consents \<Rightarrow> string \<Rightarrow> rat \<Rightarrow> consent_grant list" where
  "list_grants s user now = filter (\<lambda>g. consent_valid g now) (map snd (grants_of s user))"

definition list_pending :: "consents \<Rightarrow> string \<Rightarrow> rat \<Rightarrow> pending_consent list" where
  "list_pending s user now = filter (\<lambda>p. pc_user p = user \<and> now < pc_expires_at p) (map snd (cs_pending s))"

definition get_pending :: "consents \<Rightarrow> string \<Rightarrow> rat \<Rightarrow> consents \<times> pending_consent option" where
  "get_pending s i now =
     (case map_of (cs_pending s) i of
        None \<Rightarrow> (s, None)
      | Some p \<Rightarrow> if pc_expires_at p < now then (drop_pending s i, None) else (s, Some p))"

definition revoke_all :: "consents \<Rightarrow> string \<Rightarrow> consents \<times> nat" where
  "revoke_all s user =
     (fold (\<lambda>(i, g) s. save_grant s i (g\<lparr>cn_revoked := True\<rparr>)) (grants_of s user) s, length (grants_of s user))"

definition cleanup_expired :: "consents \<Rightarrow> rat \<Rightarrow> consents \<times> nat" where
  "cleanup_expired s now =
     storage_cleanup (s\<lparr>cs_pending := filter (\<lambda>(i, p). \<not> pc_expires_at p \<le> now) (cs_pending s)\<rparr>) now"

section \<open>Where consents come from\<close>

datatype consent_op =
    Request string pending_consent rat rat
  | Grant string string consent_type "rat option" string rat
  | Direct string string consent_type string string "rat option" string rat
  | Revoke string string
  | Revoke_All string
  | Check string string "params option" rat
  | Look string rat
  | Cleanup rat

fun consent_step :: "consents \<Rightarrow> consent_op \<Rightarrow> consents" where
  "consent_step s (Request i p ttl now) = request_consent s i p ttl now"
| "consent_step s (Grant pid user ty ttl i now) = fst (grant_consent s pid user ty ttl i now)"
| "consent_step s (Direct user tool ty risk label ttl i now) = fst (direct_grant s user tool ty risk label ttl i now)"
| "consent_step s (Revoke i user) = fst (revoke_consent s i user)"
| "consent_step s (Revoke_All user) = fst (revoke_all s user)"
| "consent_step s (Check user tool ps now) = fst (check_consent s user tool ps now)"
| "consent_step s (Look i now) = fst (get_pending s i now)"
| "consent_step s (Cleanup now) = fst (cleanup_expired s now)"

definition stored :: "consents \<Rightarrow> consent_grant set" where
  "stored s = set (map snd (cs_grants s))"

abbreviation revoked :: "consent_grant \<Rightarrow> consent_grant" where
  "revoked g \<equiv> g\<lparr>cn_revoked := True\<rparr>"

lemma delete_values: "set (map snd (AList.delete k d)) \<subseteq> set (map snd d)"
  by (induction d) auto

lemma stored_simps [simp]:
  "stored (drop_pending s i) = stored s" "stored (request_consent s i p ttl now) = stored s"
  "stored (s\<lparr>cs_pending := ps\<rparr>) = stored s"
  by (simp_all add: stored_def drop_pending_def request_consent_def)

lemma stored_save: "h \<in> stored (save_grant s i g) \<Longrightarrow> h = g \<or> h \<in> stored s"
proof -
  have "set (map snd (AList.update i g d)) \<subseteq> insert g (set (map snd d))" for d
    by (induction d) auto
  then show "h \<in> stored (save_grant s i g) \<Longrightarrow> h = g \<or> h \<in> stored s"
    by (simp add: stored_def save_grant_def del: set_map) blast
qed

lemma stored_remove: "h \<in> stored (remove_grant s i) \<Longrightarrow> h \<in> stored s"
  using delete_values [of i "cs_grants s"] by (auto simp: stored_def remove_grant_def)

lemma map_of_stored: "map_of (cs_grants s) i = Some g \<Longrightarrow> g \<in> stored s"
  by (force simp: stored_def dest: map_of_SomeD)

lemma stored_revoke_fold:
  "h \<in> stored (fold (\<lambda>(i, g) s. save_grant s i (revoked g)) gs s) \<Longrightarrow>
     h \<in> stored s \<or> (\<exists>g \<in> set (map snd gs). h = revoked g)"
proof (induction gs arbitrary: s)
  case (Cons x gs)
  obtain i g where x: "x = (i, g)" by (cases x)
  with Cons.prems have "h \<in> stored (fold (\<lambda>(i, g) s. save_grant s i (revoked g)) gs (save_grant s i (revoked g)))"
    by simp
  from Cons.IH [OF this] x show ?case by (auto dest: stored_save)
qed simp

lemma grants_of_stored: "g \<in> set (map snd (grants_of s user)) \<longleftrightarrow> g \<in> stored s \<and> cn_user g = user"
  by (force simp: grants_of_def stored_def)

lemma stored_step:
  assumes "g \<in> stored (consent_step s op)"
  shows "g \<in> stored s \<or> (\<exists>g' \<in> stored s. g = revoked g')
    \<or> (\<exists>pid user ty ttl i now. op = Grant pid user ty ttl i now \<and> ty \<noteq> ONCE \<and> snd (grant_consent s pid user ty ttl i now) = Some g)
    \<or> (\<exists>user tool ty risk label ttl i now. op = Direct user tool ty risk label ttl i now \<and> ty \<noteq> ONCE
         \<and> snd (direct_grant s user tool ty risk label ttl i now) = g)"
proof (cases op)
  case (Grant pid user ty ttl i now)
  show ?thesis
  proof (cases "map_of (cs_pending s) pid")
    case None
    with assms Grant show ?thesis by (simp add: grant_consent_def)
  next
    case (Some p)
    with assms Grant show ?thesis
      by (auto simp: grant_consent_def Let_def split: if_splits dest!: stored_save)
  qed
next
  case (Direct user tool ty risk label ttl i now)
  with assms show ?thesis by (auto simp: direct_grant_def Let_def split: if_splits dest!: stored_save)
next
  case (Revoke i user)
  with assms show ?thesis
    by (auto simp: revoke_consent_def split: option.splits if_splits dest!: stored_save intro: map_of_stored)
next
  case (Revoke_All user)
  with assms stored_revoke_fold [of g "grants_of s user" s] grants_of_stored show ?thesis
    by (auto simp: revoke_all_def simp del: set_map)
next
  case (Check user tool ps now)
  with assms show ?thesis by (auto simp: check_consent_def split: option.splits if_splits dest: stored_remove)
next
  case (Look i now)
  with assms show ?thesis by (auto simp: get_pending_def split: option.splits if_splits)
next
  case (Cleanup now)
  with assms show ?thesis by (auto simp: cleanup_expired_def storage_cleanup_def Let_def stored_def)
qed (use assms in simp)

lemma pending_step:
  assumes "(pid, p) \<in> set (cs_pending (consent_step s op))"
  shows "(pid, p) \<in> set (cs_pending s)
    \<or> (\<exists>p0 ttl now. op = Request pid p0 ttl now \<and> pc_user p = pc_user p0 \<and> pc_tool p = pc_tool p0
        \<and> pc_params p = pc_params p0 \<and> pc_expires_at p = now + ttl)"
proof -
  have upd: "(pid, p) \<in> set (AList.update k v d) \<Longrightarrow> (pid, p) \<in> set d \<or> (pid = k \<and> p = v)" for k v d
    by (induction d) (auto split: if_splits)
  have del: "(pid, p) \<in> set (AList.delete k d) \<Longrightarrow> (pid, p) \<in> set d" for k d
    by (induction d) (auto split: if_splits)
  have fold: "cs_pending (fold (\<lambda>(i, g) s. save_grant s i (revoked g)) gs t) = cs_pending t" for gs t
    by (induction gs arbitrary: t) (auto simp: save_grant_def)
  show ?thesis
  proof (cases op)
    case (Request i q ttl now)
    with assms upd [of i] show ?thesis by (fastforce simp: request_consent_def)
  next
    case (Grant i user ty ttl j now)
    with assms show ?thesis
      by (auto simp: grant_consent_def drop_pending_def save_grant_def Let_def split: option.splits if_splits dest: del)
  next
    case (Look i now)
    with assms show ?thesis by (auto simp: get_pending_def drop_pending_def split: option.splits if_splits dest: del)
  qed (use assms fold in \<open>auto simp: direct_grant_def revoke_consent_def revoke_all_def check_consent_def
        remove_grant_def save_grant_def cleanup_expired_def storage_cleanup_def Let_def
        split: option.splits if_splits\<close>)
qed


definition consent_origin :: "consent_op list \<Rightarrow> consent_grant \<Rightarrow> bool" where
  \<comment> \<open>the user granted it: directly, or in answer to a request for this tool that had not run out\<close>
  "consent_origin ops g \<longleftrightarrow>
     (\<exists>risk label ttl i. Direct (cn_user g) (cn_tool g) (cn_type g) risk label ttl i (cn_granted_at g) \<in> set ops)
     \<or> (\<exists>pid p ttl ttl' i start. Grant pid (cn_user g) (cn_type g) ttl' i (cn_granted_at g) \<in> set ops
          \<and> Request pid p ttl start \<in> set ops \<and> pc_user p = cn_user g \<and> pc_tool p = cn_tool g
          \<and> cn_granted_at g \<le> start + ttl
          \<and> (cn_type g \<noteq> PERMANENT \<longrightarrow> cn_pattern g = Some (pc_params p)))"

definition consents_ok :: "consent_op list \<Rightarrow> consents \<Rightarrow> bool" where
  "consents_ok ops s \<longleftrightarrow>
     (\<forall>g \<in> stored s. cn_type g \<noteq> ONCE \<and> consent_origin ops g)
     \<and> (\<forall>pid p. (pid, p) \<in> set (cs_pending s) \<longrightarrow>
          (\<exists>p0 ttl now. Request pid p0 ttl now \<in> set ops \<and> pc_user p = pc_user p0 \<and> pc_tool p = pc_tool p0
             \<and> pc_params p = pc_params p0 \<and> pc_expires_at p = now + ttl))"

lemma origin_more: "consent_origin ops g \<Longrightarrow> consent_origin (ops @ [op]) g"
  unfolding consent_origin_def by (simp add: Bex_def) blast

lemma origin_revoked: "consent_origin ops (revoked g) = consent_origin ops g"
  by (simp add: consent_origin_def)

lemma grant_consent_result:
  assumes "snd (grant_consent s pid user ty ttl i now) = Some g"
  obtains p where "map_of (cs_pending s) pid = Some p" "pc_user p = user" "now \<le> pc_expires_at p"
    "cn_user g = user" "cn_type g = ty" "cn_tool g = pc_tool p" "cn_granted_at g = now"
    "ty \<noteq> PERMANENT \<longrightarrow> cn_pattern g = Some (pc_params p)"
  using assms by (auto simp: grant_consent_def Let_def split: option.splits if_splits)

lemma consents_step_ok:
  assumes "consents_ok ops s"
  shows "consents_ok (ops @ [op]) (consent_step s op)"
  unfolding consents_ok_def
proof (intro conjI allI impI ballI)
  fix g
  assume "g \<in> stored (consent_step s op)"
  from stored_step [OF this] consider "g \<in> stored s" | g' where "g' \<in> stored s" "g = revoked g'"
    | (granted) pid user ty ttl i now where "op = Grant pid user ty ttl i now" "ty \<noteq> ONCE"
        "snd (grant_consent s pid user ty ttl i now) = Some g"
    | (direct) user tool ty risk label ttl i now where "op = Direct user tool ty risk label ttl i now" "ty \<noteq> ONCE"
        "snd (direct_grant s user tool ty risk label ttl i now) = g"
    by (elim disjE bexE exE conjE) fast+
  then have "cn_type g \<noteq> ONCE \<and> consent_origin (ops @ [op]) g"
  proof cases
    case 1
    with assms show ?thesis by (simp add: consents_ok_def origin_more)
  next
    case 2
    with assms show ?thesis by (simp add: consents_ok_def origin_revoked origin_more)
  next
    case granted
    from granted(3) obtain p where p: "map_of (cs_pending s) pid = Some p" "pc_user p = user" "now \<le> pc_expires_at p"
      and g: "cn_user g = user" "cn_type g = ty" "cn_tool g = pc_tool p" "cn_granted_at g = now"
        "ty \<noteq> PERMANENT \<longrightarrow> cn_pattern g = Some (pc_params p)" by (rule grant_consent_result)
    from p(1) have "(pid, p) \<in> set (cs_pending s)" by (rule map_of_SomeD)
    with assms obtain p0 ttl0 start where "Request pid p0 ttl0 start \<in> set ops" "pc_user p = pc_user p0"
      "pc_tool p = pc_tool p0" "pc_params p = pc_params p0" "pc_expires_at p = start + ttl0"
      unfolding consents_ok_def by blast
    with p g granted(1,2) show ?thesis unfolding consent_origin_def by fastforce
  next
    case direct
    then have "op = Direct (cn_user g) (cn_tool g) (cn_type g) risk label ttl i (cn_granted_at g)"
      by (auto simp: direct_grant_def Let_def)
    with direct show ?thesis unfolding consent_origin_def by (auto simp: direct_grant_def Let_def)
  qed
  then show "cn_type g \<noteq> ONCE" "consent_origin (ops @ [op]) g" by blast+
next
  fix pid p
  assume "(pid, p) \<in> set (cs_pending (consent_step s op))"
  from pending_step [OF this] assms
  show "\<exists>p0 ttl now. Request pid p0 ttl now \<in> set (ops @ [op]) \<and> pc_user p = pc_user p0 \<and> pc_tool p = pc_tool p0
      \<and> pc_params p = pc_params p0 \<and> pc_expires_at p = now + ttl"
    unfolding consents_ok_def by (simp add: Bex_def) blast
qed

lemma consents_run_ok: "consents_ok ops (foldl consent_step consents_new ops)"
proof (induction ops rule: rev_induct)
  case Nil
  then show ?case by (simp add: consents_ok_def consents_new_def stored_def)
next
  case (snoc op ops)
  then show ?case using consents_step_ok by simp
qed

lemma check_consent_found:
  assumes "snd (check_consent s user tool ps now) = Some g"
  shows "g \<in> stored s \<and> cn_user g = user \<and> consent_matches g tool ps \<and> consent_valid g now"
proof -
  from assms obtain i where "find (\<lambda>(i, g). consent_matches g tool ps \<and> consent_valid g now) (grants_of s user) = Some (i, g)"
    by (auto simp: check_consent_def split: option.splits)
  then have "(i, g) \<in> set (grants_of s user)" "consent_matches g tool ps \<and> consent_valid g now"
    by (auto simp: find_Some_iff in_set_conv_nth)
  then show ?thesis using grants_of_stored [of g s user] by force
qed

text \<open>C23: a tool is covered only by a consent of its user: whatever happened before, the grant that
  \<open>check_consent\<close> finds was given by this user for this tool, directly or in time to a request for
  it, it is not a one-time grant, not revoked and not expired, and unless it is permanent or either
  side is empty its parameters are those that were asked about.\<close>

theorem consent_needs_grant:
  assumes "snd (check_consent (foldl consent_step consents_new ops) user tool ps now) = Some g"
  shows "consent_origin ops g \<and> cn_user g = user \<and> cn_tool g = tool \<and> cn_type g \<noteq> ONCE \<and> \<not> cn_revoked g
    \<and> (\<forall>e. cn_expires_at g = Some e \<longrightarrow> now \<le> e)
    \<and> (\<forall>pat qs k v. cn_pattern g = Some pat \<longrightarrow> ps = Some qs \<longrightarrow> qs \<noteq> [] \<longrightarrow> (k, v) \<in> set pat \<longrightarrow>
         (\<exists>w. map_of qs k = Some w \<and> py_eq w v))"
proof -
  let ?s = "foldl consent_step consents_new ops"
  from check_consent_found [OF assms] have g: "g \<in> stored ?s" "cn_user g = user" "consent_matches g tool ps"
    "consent_valid g now" by blast+
  moreover from g(1) have "consent_origin ops g" using consents_run_ok [of ops] by (simp add: consents_ok_def)
  moreover have "\<exists>w. map_of qs k = Some w \<and> py_eq w v"
    if "cn_pattern g = Some pat" "ps = Some qs" "qs \<noteq> []" "(k, v) \<in> set pat" for pat qs k v
    using g(3) that by (cases pat; cases qs) (auto simp: consent_matches_def list_all_iff split: option.splits)
  ultimately show ?thesis
    by (auto simp: consent_matches_def consent_valid_def split: if_splits option.splits)
qed


lemma find_none: "(\<And>x. x \<in> set xs \<Longrightarrow> \<not> P x) \<Longrightarrow> find P xs = None"
  by (simp add: find_None_iff)

definition no_new_consent :: "string \<Rightarrow> consent_op \<Rightarrow> bool" where
  "no_new_consent user op \<longleftrightarrow>
     (case op of Grant pid u ty ttl i now \<Rightarrow> u \<noteq> user | Direct u tool ty risk label ttl i now \<Rightarrow> u \<noteq> user | _ \<Rightarrow> True)"

definition all_revoked :: "string \<Rightarrow> consents \<Rightarrow> bool" where
  "all_revoked user s \<longleftrightarrow> (\<forall>g \<in> stored s. cn_user g = user \<longrightarrow> cn_revoked g)"

lemma grant_user: "snd (grant_consent s pid u ty ttl i now) = Some g \<Longrightarrow> cn_user g = u"
  by (erule grant_consent_result)

lemma all_revoked_step:
  assumes "all_revoked user s" and "no_new_consent user op"
  shows "all_revoked user (consent_step s op)"
  unfolding all_revoked_def
proof (intro ballI impI)
  fix g
  assume "g \<in> stored (consent_step s op)" and u: "cn_user g = user"
  from stored_step [OF this(1)] show "cn_revoked g"
  proof (elim disjE bexE exE conjE)
    assume "g \<in> stored s"
    with assms u show ?thesis by (simp add: all_revoked_def)
  next
    fix pid u' ty ttl i now
    assume "op = Grant pid u' ty ttl i now" and "snd (grant_consent s pid u' ty ttl i now) = Some g"
    with assms(2) u grant_user show ?thesis by (fastforce simp: no_new_consent_def)
  next
    fix u' tool ty risk label ttl i now
    assume "op = Direct u' tool ty risk label ttl i now" and "snd (direct_grant s u' tool ty risk label ttl i now) = g"
    with assms(2) u show ?thesis by (auto simp: no_new_consent_def direct_grant_def Let_def)
  qed simp
qed

lemma all_revoked_run: "all_revoked user s \<Longrightarrow> list_all (no_new_consent user) ops \<Longrightarrow>
    all_revoked user (foldl consent_step s ops)"
  by (induction ops arbitrary: s) (simp_all add: all_revoked_step)

lemma revoke_fold_rows:
  "dict_ok gs \<Longrightarrow> map_of (cs_grants (fold (\<lambda>(i, g) s. save_grant s i (revoked g)) gs s)) k
     = (case map_of gs k of None \<Rightarrow> map_of (cs_grants s) k | Some g \<Rightarrow> Some (revoked g))"
proof (induction gs arbitrary: s)
  case (Cons x gs)
  obtain i g where x: "x = (i, g)" by (cases x)
  with Cons.prems have "dict_ok gs" "map_of gs i = None" by (auto simp: dict_ok_def map_of_eq_None_iff)
  with Cons.IH [of "save_grant s i (revoked g)"] x show ?case
    by (auto simp: save_grant_def split: option.split)
qed simp

lemma consents_distinct: "dict_ok (cs_grants s) \<Longrightarrow> dict_ok (cs_grants (consent_step s op))"
proof -
  assume ok: "dict_ok (cs_grants s)"
  have save: "dict_ok (cs_grants (save_grant t i g)) = dict_ok (AList.update i g (cs_grants t))" for t i g
    by (simp add: save_grant_def)
  have fold: "dict_ok (cs_grants t) \<Longrightarrow> dict_ok (cs_grants (fold (\<lambda>(i, g) s. save_grant s i (revoked g)) gs t))" for gs t
    by (induction gs arbitrary: t) (auto simp: save)
  have filt: "dict_ok d \<Longrightarrow> dict_ok (filter P d)" for d :: "(string \<times> consent_grant) list" and P
    by (simp add: dict_ok_def distinct_map_filter)
  show ?thesis
  proof (cases op)
    case (Check u t ps now)
    with ok show ?thesis
      by (auto simp: check_consent_def remove_grant_def dict_ok_def distinct_delete split: option.split)
  qed (use ok fold filt in \<open>auto simp: request_consent_def grant_consent_def drop_pending_def direct_grant_def
      revoke_consent_def revoke_all_def get_pending_def cleanup_expired_def storage_cleanup_def save Let_def
      split: option.split\<close>)
qed

lemma consents_run_distinct: "dict_ok (cs_grants (foldl consent_step consents_new ops))"
proof -
  have "dict_ok (cs_grants s) \<Longrightarrow> dict_ok (cs_grants (foldl consent_step s ops))" for s
    by (induction ops arbitrary: s) (simp_all add: consents_distinct)
  then show ?thesis by (simp add: consents_new_def)
qed

lemma revoke_all_revokes:
  assumes "dict_ok (cs_grants s)"
  shows "all_revoked user (fst (revoke_all s user))"
  unfolding all_revoked_def
proof (intro ballI impI)
  let ?s = "fst (revoke_all s user)"
  fix g
  assume g: "g \<in> stored ?s" "cn_user g = user"
  have "dict_ok (cs_grants ?s)" using consents_distinct [OF assms, of "Revoke_All user"] by simp
  with g(1) obtain k where k: "map_of (cs_grants ?s) k = Some g"
    by (auto simp: stored_def dict_ok_def)
  have "dict_ok (grants_of s user)" using assms by (simp add: grants_of_def dict_ok_def distinct_map_filter)
  from k revoke_fold_rows [OF this] have
    "(case map_of (grants_of s user) k of None \<Rightarrow> map_of (cs_grants s) k | Some g \<Rightarrow> Some (revoked g)) = Some g"
    by (simp add: revoke_all_def)
  then show "cn_revoked g"
  proof (cases "map_of (grants_of s user) k")
    case None
    then have "(k, g) \<notin> set (grants_of s user)" by (force simp: map_of_eq_None_iff)
    with None g(2) \<open>(case map_of (grants_of s user) k of None \<Rightarrow> map_of (cs_grants s) k | Some g \<Rightarrow> Some (revoked g)) = Some g\<close>
    show ?thesis by (auto simp: grants_of_def dest: map_of_SomeD)
  qed auto
qed

text \<open>Revocation holds: once a user's consents have all been revoked, no tool is covered for this user,
  at any time and whatever else happens, until a new consent of the user is given.\<close>

theorem revocation_holds:
  assumes "list_all (no_new_consent user) later"
  shows "snd (check_consent (foldl consent_step (fst (revoke_all (foldl consent_step consents_new ops) user)) later)
    user tool ps now) = None"
proof -
  let ?s = "foldl consent_step (fst (revoke_all (foldl consent_step consents_new ops) user)) later"
  have "all_revoked user ?s"
    by (rule all_revoked_run [OF revoke_all_revokes [OF consents_run_distinct] assms])
  then have "\<not> (g \<in> stored ?s \<and> cn_user g = user \<and> consent_valid g now)" for g
    by (auto simp: all_revoked_def consent_valid_def)
  then show ?thesis using check_consent_found [of ?s user tool ps now]
    by (cases "snd (check_consent ?s user tool ps now)") auto
qed

definition demo_pending :: pending_consent where
  "demo_pending =
     \<lparr>pc_user = ''u'', pc_tool = ''t'', pc_params = [(''path'', PStr ''/a'')], pc_risk_level = ''high'',
      pc_risk_label = ''High'', pc_risk_description = [], pc_read_only = False, pc_reversible = True,
      pc_resources = [], pc_impact = [], pc_simulation = [], pc_plan = [], pc_intent = [], pc_context = [],
      pc_created_at = 0, pc_expires_at = 0, pc_can_grant_permanent = False\<rparr>"

definition demo_consents :: "consent_type \<Rightarrow> consent_op list" where
  "demo_consents ty = [Request ''r'' demo_pending 600 0, Grant ''r'' ''u'' ty None ''g'' 1]"

theorem consent_needs_grant_witness:
  "\<exists>g. snd (check_consent (foldl consent_step consents_new (demo_consents SESSION)) ''u'' ''t''
      (Some [(''path'', PStr ''/a'')]) 2) = Some g
    \<and> consent_origin (demo_consents SESSION) g \<and> cn_type g \<noteq> ONCE"
proof -
  have "snd (check_consent (foldl consent_step consents_new (demo_consents SESSION)) ''u'' ''t''
      (Some [(''path'', PStr ''/a'')]) 2) \<noteq> None" by code_simp
  then obtain g where g: "snd (check_consent (foldl consent_step consents_new (demo_consents SESSION)) ''u'' ''t''
      (Some [(''path'', PStr ''/a'')]) 2) = Some g" by blast
  with consent_needs_grant [OF g] show ?thesis by blast
qed

theorem revocation_holds_witness:
  "snd (check_consent (foldl consent_step (fst (revoke_all (foldl consent_step consents_new (demo_consents SESSION)) ''u''))
      [Cleanup 5]) ''u'' ''t'' None 6) = None"
  by (rule revocation_holds) (simp add: no_new_consent_def)

text \<open>A one-time consent covers nothing: granting it answers the request and stores no grant, so the
  very call it was given for is not covered; and a session consent that was given for one path
  covers a call without parameters.\<close>

theorem consent_gaps:
  "let once = foldl consent_step consents_new (demo_consents ONCE);
       session = foldl consent_step consents_new (demo_consents SESSION)
   in snd (check_consent once ''u'' ''t'' (Some [(''path'', PStr ''/a'')]) 2) = None
      \<and> snd (check_consent session ''u'' ''t'' (Some [(''path'', PStr ''/b'')]) 2) = None
      \<and> snd (check_consent session ''u'' ''t'' None 2) \<noteq> None"
  by code_simp

end
