(* ===== verification/Offline_Queue.thy ===== *)
theory Offline_Queue
  imports Py_Text "HOL-Library.Product_Lexorder"
begin

text \<open>
  \<open>sentinel/core/offline_queue.py\<close>: operations that wait for the network. The queue is a dictionary of
  items in the order of their arrival; \<open>process_queue\<close> gets the behaviour of \<open>sync_fn\<close> as a function
  of the number of the call, the queue and the item, which gives the queue as it leaves it (it may enqueue, remove or
  change items, and so may other tasks while it is awaited) and answers, or raises with a text.
\<close>

section \<open>State\<close>

datatype queue_status = Q_PENDING | Q_SYNCING | Q_SYNCED | Q_FAILED

datatype queue_priority = Q_HIGH | Q_NORMAL | Q_LOW

fun priority_value :: "queue_priority \<Rightarrow> nat" where
  "priority_value Q_HIGH = 0"
| "priority_value Q_NORMAL = 1"
| "priority_value Q_LOW = 2"

record queue_item =
  qi_operation :: string
  qi_payload :: params
  qi_status :: queue_status
  qi_priority :: queue_priority
  qi_created :: rat
  qi_retries :: nat
  qi_error :: "string option"
  qi_max_retries :: nat

record queue =
  oq_items :: "(string \<times> queue_item) list"
  oq_max_retries :: nat

definition queue_new :: "nat \<Rightarrow> queue" where
  "queue_new n = \<lparr>oq_items = [], oq_max_retries = n\<rparr>"


section \<open>Operations\<close>

definition set_item :: "queue \<Rightarrow> string \<Rightarrow> queue_item \<Rightarrow> queue" where
  "set_item q i x = q\<lparr>oq_items := AList.update i x (oq_items q)\<rparr>"

definition enqueue :: "queue \<Rightarrow> string \<Rightarrow> string \<Rightarrow> params \<Rightarrow> queue_priority \<Rightarrow> rat \<Rightarrow> queue" where
  \<comment> \<open>the second argument is the drawn identifier\<close>
  "enqueue q i operation payload prio now =
     set_item q i \<lparr>qi_operation = operation, qi_payload = payload, qi_status = Q_PENDING, qi_priority = prio,
       qi_created = now, qi_retries = 0, qi_error = None, qi_max_retries = oq_max_retries q\<rparr>"

definition rank :: "string \<times> queue_item \<Rightarrow> nat \<times> rat" where
  "rank = (\<lambda>(i, x). (priority_value (qi_priority x), qi_created x))"

definition ready :: "queue_status \<Rightarrow> string \<times> queue_item \<Rightarrow> bool" where
  "ready st = (\<lambda>(i, x). qi_status x = st \<and> qi_retries x < qi_max_retries x)"

definition dequeue :: "queue \<Rightarrow> queue_status \<Rightarrow> queue \<times> (string \<times> queue_item) option" where
  "dequeue q st =
     (case find (ready st) (sort_key rank (oq_items q)) of
        None \<Rightarrow> (q, None)
      | Some (i, x) \<Rightarrow>
          (let x' = x\<lparr>qi_status := Q_SYNCING\<rparr> in (set_item q i x', Some (i, x'))))"

definition dequeue_all :: "queue \<Rightarrow> queue_status \<Rightarrow> queue \<times> (string \<times> queue_item) list" where
  "dequeue_all q st =
     (let taken = map (\<lambda>(i, x). (i, x\<lparr>qi_status := Q_SYNCING\<rparr>)) (sort_key rank (filter (ready st) (oq_items q)))
      in (fold (\<lambda>(i, x) q. set_item q i x) taken q, taken))"

definition mark_synced :: "queue \<Rightarrow> string \<Rightarrow> queue \<times> bool" where
  "mark_synced q i =
     (case map_of (oq_items q) i of
        None \<Rightarrow> (q, False) | Some x \<Rightarrow> (set_item q i (x\<lparr>qi_status := Q_SYNCED\<rparr>), True))"

definition mark_failed :: "queue \<Rightarrow> string \<Rightarrow> string \<Rightarrow> queue \<times> bool" where
  "mark_failed q i err =
     (case map_of (oq_items q) i of
        None \<Rightarrow> (q, False)
      | Some x \<Rightarrow>
          (let n = qi_retries x + 1 in
           (set_item q i (x\<lparr>qi_retries := n, qi_error := Some err,
              qi_status := (if qi_max_retries x \<le> n then Q_FAILED else Q_PENDING)\<rparr>), True)))"

definition pending_count :: "queue \<Rightarrow> nat" where
  "pending_count q = length (filter (\<lambda>(i, x). qi_status x = Q_PENDING) (oq_items q))"

type_synonym sync_fn = "nat \<Rightarrow> queue \<Rightarrow> string \<times> queue_item \<Rightarrow> queue \<times> (string + bool)"

fun process_loop :: "sync_fn \<Rightarrow> nat \<Rightarrow> nat \<Rightarrow> queue \<Rightarrow> nat \<Rightarrow> nat \<Rightarrow> queue \<times> nat \<times> nat" where
  \<comment> \<open>the number of the call, the calls that are left, and the two counters\<close>
  "process_loop sync k 0 q synced failed = (q, synced, failed)"
| "process_loop sync k (Suc n) q synced failed =
     (case dequeue q Q_PENDING of
        (q', None) \<Rightarrow> (q', synced, failed)
      | (q', Some (i, x)) \<Rightarrow>
          (case sync k q' (i, x) of
             (p, Inr True) \<Rightarrow> process_loop sync (Suc k) n (fst (mark_synced p i)) (Suc synced) failed
           | (p, Inr False) \<Rightarrow>
               process_loop sync (Suc k) n (fst (mark_failed p i ''sync_fn returned False'')) synced (Suc failed)
           | (p, Inl e) \<Rightarrow> process_loop sync (Suc k) n (fst (mark_failed p i e)) synced (Suc failed)))"

definition process_queue :: "sync_fn \<Rightarrow> nat \<Rightarrow> queue \<Rightarrow> queue \<times> nat \<times> nat \<times> nat" where
  "process_queue sync n q =
     (let (q', synced, failed) = process_loop sync 0 n q 0 0 in (q', synced, failed, pending_count q'))"

definition list_items :: "queue \<Rightarrow> queue_status option \<Rightarrow> string option \<Rightarrow> (string \<times> queue_item) list" where
  \<comment> \<open>newest first; Python's reversed sort keeps the order of equal items\<close>
  "list_items q st operation =
     rev (sort_key (\<lambda>(i, x). qi_created x) (rev (filter (\<lambda>(i, x).
       (case st of None \<Rightarrow> True | Some s \<Rightarrow> qi_status x = s)
       \<and> (case operation of Some (c # cs) \<Rightarrow> qi_operation x = c # cs | _ \<Rightarrow> True)) (oq_items q))))"

definition remove_item :: "queue \<Rightarrow> string \<Rightarrow> queue \<times> bool" where
  "remove_item q i =
     (if map_of (oq_items q) i = None then (q, False)
      else (q\<lparr>oq_items := AList.delete i (oq_items q)\<rparr>, True))"

definition clear_items :: "queue \<Rightarrow> queue_status option \<Rightarrow> queue \<times> nat" where
  "clear_items q st =
     (case st of
        None \<Rightarrow> (q\<lparr>oq_items := []\<rparr>, length (oq_items q))
      | Some s \<Rightarrow>
          (q\<lparr>oq_items := filter (\<lambda>(i, x). qi_status x \<noteq> s) (oq_items q)\<rparr>,
           length (filter (\<lambda>(i, x). qi_status x = s) (oq_items q))))"

definition status_count :: "queue \<Rightarrow> queue_status \<Rightarrow> nat" where
  \<comment> \<open>the entries of \<open>stats\<close>\<close>
  "status_count q st = length (filter (\<lambda>(i, x). qi_status x = st) (oq_items q))"


section \<open>Order of service\<close>

lemma dict_ok_items: "dict_ok (oq_items q) \<Longrightarrow> (i, x) \<in> set (oq_items q) \<longleftrightarrow> map_of (oq_items q) i = Some x"
  by (simp add: dict_ok_def)

lemma find_sorted_least:
  assumes "find P (sort_key f xs) = Some x"
  shows "x \<in> set xs \<and> P x \<and> (\<forall>y \<in> set xs. P y \<longrightarrow> f x \<le> f y)"
proof -
  let ?ys = "sort_key f xs"
  from assms obtain n where n: "n < length ?ys" "x = ?ys ! n" "P x" "\<forall>m < n. \<not> P (?ys ! m)"
    by (auto simp: find_Some_iff)
  have "f x \<le> f y" if "y \<in> set xs" "P y" for y
  proof -
    from that(1) obtain m where m: "m < length ?ys" "y = ?ys ! m" by (metis in_set_conv_nth set_sort)
    with n(4) that(2) have "n \<le> m" by (metis not_le)
    moreover have "sorted (map f ?ys)" by (rule sorted_sort_key)
    ultimately show ?thesis using n(1,2) m by (auto simp: sorted_iff_nth_mono)
  qed
  with n show ?thesis by (metis nth_mem set_sort)
qed

text \<open>The queue serves by priority and age: what \<open>dequeue\<close> hands out waited with attempts left, and no
  other such item has a higher priority, or the same priority and an earlier arrival; nothing is
  handed out only if nothing is ready.\<close>

theorem dequeue_serves_first:
  "case snd (dequeue q st) of
     None \<Rightarrow> \<not> list_ex (ready st) (oq_items q)
   | Some (i, x') \<Rightarrow> \<exists>x. (i, x) \<in> set (oq_items q) \<and> x' = x\<lparr>qi_status := Q_SYNCING\<rparr> \<and> ready st (i, x)
       \<and> list_all (\<lambda>y. \<not> ready st y \<or> rank (i, x) \<le> rank y) (oq_items q)"
proof (cases "find (ready st) (sort_key rank (oq_items q))")
  case None
  then have "\<not> list_ex (ready st) (oq_items q)" by (auto simp: find_None_iff list_ex_iff)
  with None show ?thesis by (simp add: dequeue_def)
next
  case (Some y)
  obtain i x where y: "y = (i, x)" by (cases y)
  with find_sorted_least [OF Some] Some show ?thesis
    by (auto simp: dequeue_def Let_def list_all_iff)
qed


section \<open>Processing\<close>

definition queue_ok :: "queue \<Rightarrow> bool" where
  \<comment> \<open>attempts stay within the limit, and a failed item has used them up\<close>
  "queue_ok q \<longleftrightarrow> dict_ok (oq_items q)
     \<and> (\<forall>(i, x) \<in> set (oq_items q). qi_retries x \<le> qi_max_retries x
          \<and> (qi_status x = Q_FAILED \<longrightarrow> qi_retries x = qi_max_retries x)
          \<and> (qi_status x = Q_SYNCING \<longrightarrow> qi_retries x < qi_max_retries x))"

lemma update_twice: "AList.update k v (AList.update k w d) = AList.update k v d"
  by (induction d) auto

lemma set_item_twice: "set_item (set_item q i x) i y = set_item q i y"
  by (simp add: set_item_def update_twice)

lemma map_of_set_item [simp]: "map_of (oq_items (set_item q i x)) = (map_of (oq_items q))(i \<mapsto> x)"
  by (simp add: set_item_def)

lemma dict_ok_set_item [simp]: "dict_ok (oq_items q) \<Longrightarrow> dict_ok (oq_items (set_item q i x))"
  by (simp add: set_item_def)

definition total :: "(queue_item \<Rightarrow> nat) \<Rightarrow> queue \<Rightarrow> nat" where
  "total f q = sum_list (map (\<lambda>(i, x). f x) (oq_items q))"

lemma total_set_item:
  assumes "map_of (oq_items q) i = Some x" and "dict_ok (oq_items q)"
  shows "total f (set_item q i y) + f x = total f q + f y"
proof -
  have "map_of d i = Some x \<Longrightarrow> distinct (map fst d) \<Longrightarrow>
      sum_list (map (\<lambda>(i, x). f x) (AList.update i y d)) + f x = sum_list (map (\<lambda>(i, x). f x) d) + f y" for d
    by (induction d) (auto split: if_splits)
  with assms show ?thesis by (simp add: total_def set_item_def dict_ok_def)
qed

lemma status_count_total: "status_count q st = total (\<lambda>x. if qi_status x = st then 1 else 0) q"
proof -
  have "length (filter (\<lambda>(i, x). P x) d) = sum_list (map (\<lambda>(i, x). if P x then 1 else 0) d)"
    for d :: "(string \<times> queue_item) list" and P by (induction d) auto
  then show ?thesis by (simp add: status_count_def total_def)
qed

lemma pending_count_status: "pending_count q = status_count q Q_PENDING"
  by (simp add: pending_count_def status_count_def)

lemma dequeue_cases:
  assumes "dict_ok (oq_items q)"
  obtains (none) "dequeue q Q_PENDING = (q, None)" and "\<not> list_ex (ready Q_PENDING) (oq_items q)"
  | (some) i x where "map_of (oq_items q) i = Some x" and "ready Q_PENDING (i, x)"
      and "dequeue q Q_PENDING = (set_item q i (x\<lparr>qi_status := Q_SYNCING\<rparr>), Some (i, x\<lparr>qi_status := Q_SYNCING\<rparr>))"
proof (cases "find (ready Q_PENDING) (sort_key rank (oq_items q))")
  case None
  then have "\<not> list_ex (ready Q_PENDING) (oq_items q)" by (auto simp: find_None_iff list_ex_iff)
  with None none show thesis by (simp add: dequeue_def)
next
  case (Some y)
  obtain i x where y: "y = (i, x)" by (cases y)
  from find_sorted_least [OF Some] y have "(i, x) \<in> set (oq_items q)" "ready Q_PENDING (i, x)" by blast+
  with Some y some dict_ok_items [OF assms] show thesis by (simp add: dequeue_def Let_def)
qed

abbreviation synced_item :: "queue_item \<Rightarrow> queue_item" where
  "synced_item x \<equiv> x\<lparr>qi_status := Q_SYNCED\<rparr>"

abbreviation failed_item :: "string \<Rightarrow> queue_item \<Rightarrow> queue_item" where
  "failed_item e x \<equiv> x\<lparr>qi_retries := qi_retries x + 1, qi_error := Some e,
     qi_status := (if qi_max_retries x \<le> qi_retries x + 1 then Q_FAILED else Q_PENDING)\<rparr>"

lemma process_step:
  assumes "dict_ok (oq_items q)" and "map_of (oq_items q) i = Some x" and "ready Q_PENDING (i, x)"
    and "dequeue q Q_PENDING = (set_item q i (x\<lparr>qi_status := Q_SYNCING\<rparr>), Some (i, x\<lparr>qi_status := Q_SYNCING\<rparr>))"
    and "\<forall>k p y. fst (sync k p y) = p"
  shows "process_loop sync k (Suc n) q synced failed =
    (case snd (sync k (set_item q i (x\<lparr>qi_status := Q_SYNCING\<rparr>)) (i, x\<lparr>qi_status := Q_SYNCING\<rparr>)) of
       Inr True \<Rightarrow> process_loop sync (Suc k) n (set_item q i (synced_item x)) (Suc synced) failed
     | Inr False \<Rightarrow> process_loop sync (Suc k) n (set_item q i (failed_item ''sync_fn returned False'' x)) synced (Suc failed)
     | Inl e \<Rightarrow> process_loop sync (Suc k) n (set_item q i (failed_item e x)) synced (Suc failed))"
  using assms(1-4) assms(5) [rule_format, of k "set_item q i (x\<lparr>qi_status := Q_SYNCING\<rparr>)" "(i, x\<lparr>qi_status := Q_SYNCING\<rparr>)"]
  by (auto simp: mark_synced_def mark_failed_def Let_def set_item_twice split: sum.split bool.split prod.split)

definition within_limits :: "queue \<Rightarrow> bool" where
  "within_limits q \<longleftrightarrow> (\<forall>i x. map_of (oq_items q) i = Some x \<longrightarrow> qi_retries x \<le> qi_max_retries x)"

lemma within_limits_set: "within_limits q \<Longrightarrow> qi_retries x \<le> qi_max_retries x \<Longrightarrow> within_limits (set_item q i x)"
  by (simp add: within_limits_def)

lemma process_loop_accounts:
  assumes pure: "\<forall>k p y. fst (sync k p y) = p"
    and "dict_ok (oq_items q)" and "within_limits q" and "process_loop sync k n q a b = (q', a', b')"
  shows "dict_ok (oq_items q') \<and> a \<le> a' \<and> b \<le> b' \<and> (a' - a) + (b' - b) \<le> n
    \<and> status_count q' Q_SYNCED = status_count q Q_SYNCED + (a' - a)
    \<and> status_count q' Q_SYNCING = status_count q Q_SYNCING
    \<and> total qi_retries q' = total qi_retries q + (b' - b)
    \<and> total (\<lambda>x. 1) q' = total (\<lambda>x. 1) q
    \<and> within_limits q' \<and> total qi_max_retries q' = total qi_max_retries q
    \<and> ((a' - a) + (b' - b) < n \<longrightarrow> \<not> list_ex (ready Q_PENDING) (oq_items q'))"
  using assms(2-4)
proof (induction n arbitrary: k q a b)
  case 0
  then show ?case by simp
next
  case (Suc n)
  from Suc.prems(1) show ?case
  proof (cases rule: dequeue_cases)
    case none
    with Suc.prems show ?thesis by simp
  next
    case (some i x)
    have st: "qi_status x = Q_PENDING" "qi_retries x < qi_max_retries x" using some(2) by (simp_all add: ready_def)
    have lim: "within_limits (set_item q i (synced_item x))" "within_limits (set_item q i (failed_item e x))" for e
      using st(2) Suc.prems(2) by (simp_all add: within_limits_set)
    note eq = process_step [OF Suc.prems(1) some pure, of k n a b]
    have tot: "total f (set_item q i y) + f x = total f q + f y" for f y
      by (rule total_set_item [OF some(1) Suc.prems(1)])
    have ok: "dict_ok (oq_items (set_item q i y))" for y using Suc.prems(1) by simp
    show ?thesis
    proof (cases "snd (sync k (set_item q i (x\<lparr>qi_status := Q_SYNCING\<rparr>)) (i, x\<lparr>qi_status := Q_SYNCING\<rparr>)) = Inr True")
      case True
      with eq Suc.prems(3) have "process_loop sync (Suc k) n (set_item q i (synced_item x)) (Suc a) b = (q', a', b')"
        by simp
      from Suc.IH [OF ok lim(1) this] show ?thesis
        using tot [of qi_max_retries "synced_item x"] tot [of "\<lambda>x. if qi_status x = Q_SYNCED then 1 else 0" "synced_item x"]
          tot [of "\<lambda>x. if qi_status x = Q_SYNCING then 1 else 0" "synced_item x"]
          tot [of qi_retries "synced_item x"] tot [of "\<lambda>x. 1" "synced_item x"] st
        by (simp add: status_count_total) linarith
    next
      case False
      with eq Suc.prems(3) obtain e where
        "process_loop sync (Suc k) n (set_item q i (failed_item e x)) a (Suc b) = (q', a', b')"
        by (cases "snd (sync k (set_item q i (x\<lparr>qi_status := Q_SYNCING\<rparr>)) (i, x\<lparr>qi_status := Q_SYNCING\<rparr>))") auto
      from Suc.IH [OF ok lim(2) this] show ?thesis
        using tot [of qi_max_retries "failed_item e x"] tot [of "\<lambda>x. if qi_status x = Q_SYNCED then 1 else 0" "failed_item e x"]
          tot [of "\<lambda>x. if qi_status x = Q_SYNCING then 1 else 0" "failed_item e x"]
          tot [of qi_retries "failed_item e x"] tot [of "\<lambda>x. 1" "failed_item e x"] st
        by (simp add: status_count_total split: if_splits) linarith+
    qed
  qed
qed


text \<open>Processing keeps account, when \<open>sync_fn\<close> leaves the queue alone: every counted success is an item that became synced, every counted
  failure one more attempt on some item, together at most \<open>max_items\<close>; no item appears, disappears or
  stays in the state of being synced, and the loop ends early only if nothing is ready.\<close>

theorem process_queue_accounts:
  assumes "\<forall>k p y. fst (sync k p y) = p" and "dict_ok (oq_items q)" and "within_limits q"
    and "process_queue sync n q = (q', synced, failed, remaining)"
  shows "synced + failed \<le> n
    \<and> status_count q' Q_SYNCED = status_count q Q_SYNCED + synced
    \<and> status_count q' Q_SYNCING = status_count q Q_SYNCING
    \<and> total qi_retries q' = total qi_retries q + failed
    \<and> length (oq_items q') = length (oq_items q)
    \<and> remaining = status_count q' Q_PENDING
    \<and> (synced + failed < n \<longrightarrow> \<not> list_ex (ready Q_PENDING) (oq_items q'))"
proof -
  have len: "total (\<lambda>x. 1) p = length (oq_items p)" for p
    by (simp add: total_def case_prod_beta' sum_list_triv)
  from assms(4) have "process_loop sync 0 n q 0 0 = (q', synced, failed)" "remaining = pending_count q'"
    by (auto simp: process_queue_def split: prod.splits)
  with process_loop_accounts [OF assms(1-3), of 0 n 0 0 q' synced failed] show ?thesis
    by (simp add: len [simplified] pending_count_status)
qed

text \<open>
  The attempts that are left on the waiting items bound the number of turns, whatever \<open>sync_fn\<close> answers, as long as it
  puts nothing into the queue and changes none of its items.
\<close>

definition attempts_left :: "queue \<Rightarrow> nat" where
  "attempts_left q = total (\<lambda>x. if qi_status x = Q_PENDING then qi_max_retries x - qi_retries x else 0) q"

definition only_removes :: "queue \<Rightarrow> queue \<Rightarrow> bool" where
  "only_removes q p \<longleftrightarrow> dict_ok (oq_items p) \<and> set (oq_items p) \<subseteq> set (oq_items q)"

lemma total_removes:
  assumes "only_removes q p" and "dict_ok (oq_items q)"
  shows "total f p \<le> total f q"
proof -
  have d: "distinct (oq_items p)" "distinct (oq_items q)" "set (oq_items p) \<subseteq> set (oq_items q)"
    using assms by (auto simp: only_removes_def dict_ok_def distinct_map)
  show ?thesis
    unfolding total_def sum_list_distinct_conv_sum_set [OF d(1)] sum_list_distinct_conv_sum_set [OF d(2)]
    using d(3) by (intro sum_mono2) auto
qed

lemma total_0: "total f q = 0 \<longleftrightarrow> (\<forall>(i, x) \<in> set (oq_items q). f x = 0)"
  by (auto simp: total_def)

text \<open>One turn: an item that is not being synced afterwards uses up an attempt or leaves the waiting items.\<close>

definition turn :: "sync_fn \<Rightarrow> nat \<Rightarrow> queue \<Rightarrow> string \<Rightarrow> queue_item \<Rightarrow> queue" where
  "turn sync k q i x =
     (case sync k q (i, x) of
        (p, Inr True) \<Rightarrow> fst (mark_synced p i)
      | (p, Inr False) \<Rightarrow> fst (mark_failed p i ''sync_fn returned False'')
      | (p, Inl e) \<Rightarrow> fst (mark_failed p i e))"

lemma process_turn:
  "dequeue q Q_PENDING = (q', Some (i, x)) \<Longrightarrow>
     \<exists>a' b'. process_loop sync k (Suc n) q a b = process_loop sync (Suc k) n (turn sync k q' i x) a' b'"
  by (auto simp: turn_def split: prod.split sum.split bool.split)

definition syncing_in :: "queue \<Rightarrow> queue \<Rightarrow> bool" where
  \<comment> \<open>what is being synced was being synced before\<close>
  "syncing_in q p \<longleftrightarrow> (\<forall>i y. map_of (oq_items p) i = Some y \<longrightarrow> qi_status y = Q_SYNCING \<longrightarrow>
     (\<exists>z. map_of (oq_items q) i = Some z \<and> qi_status z = Q_SYNCING))"

lemma turn_facts:
  assumes ok: "dict_ok (oq_items q)" and x: "map_of (oq_items q) i = Some x" "ready Q_PENDING (i, x)"
    and rem: "\<forall>k p y. dict_ok (oq_items p) \<longrightarrow> only_removes p (fst (sync k p y))"
  defines "q' \<equiv> set_item q i (x\<lparr>qi_status := Q_SYNCING\<rparr>)"
  shows "dict_ok (oq_items (turn sync k q' i (x\<lparr>qi_status := Q_SYNCING\<rparr>)))
    \<and> attempts_left (turn sync k q' i (x\<lparr>qi_status := Q_SYNCING\<rparr>)) < attempts_left q
    \<and> syncing_in q (turn sync k q' i (x\<lparr>qi_status := Q_SYNCING\<rparr>))"
proof -
  let ?x = "x\<lparr>qi_status := Q_SYNCING\<rparr>"
  let ?f = "\<lambda>x. if qi_status x = Q_PENDING then qi_max_retries x - qi_retries x else 0"
  have ok': "dict_ok (oq_items q')" using ok by (simp add: q'_def)
  obtain p r where s: "sync k q' (i, ?x) = (p, r)" by fastforce
  have p: "only_removes q' p" using rem [rule_format, OF ok', of k "(i, ?x)"] by (simp add: s)
  then have okp: "dict_ok (oq_items p)" by (simp add: only_removes_def)
  have st: "qi_status x = Q_PENDING" "qi_retries x < qi_max_retries x" using x(2) by (simp_all add: ready_def)
  have q': "attempts_left q' + (qi_max_retries x - qi_retries x) = attempts_left q"
    using total_set_item [OF x(1) ok, of ?f ?x] st by (simp add: attempts_left_def q'_def)
  have le: "attempts_left p \<le> attempts_left q'" using total_removes [OF p ok'] by (simp add: attempts_left_def)
  have sub: "map_of (oq_items q') j = Some y" if "map_of (oq_items p) j = Some y" for j y
  proof -
    have "(j, y) \<in> set (oq_items q')" using p map_of_SomeD [OF that] by (auto simp: only_removes_def)
    with dict_ok_items [OF ok'] show ?thesis by blast
  qed
  have pq: "map_of (oq_items q) j = Some y" if "map_of (oq_items p) j = Some y" "j \<noteq> i" for j y
    using sub [OF that(1)] that(2) by (simp add: q'_def)
  have item: "map_of (oq_items p) i = None \<or> map_of (oq_items p) i = Some ?x"
    using sub [of i] by (cases "map_of (oq_items p) i") (auto simp: q'_def)
  have marked: "dict_ok (oq_items t) \<and> attempts_left t < attempts_left q \<and> syncing_in q t"
    if t: "t = p \<and> map_of (oq_items p) i = None
      \<or> (map_of (oq_items p) i = Some ?x \<and> (\<exists>y. t = set_item p i y \<and> qi_status y \<noteq> Q_SYNCING \<and> ?f y < qi_max_retries x - qi_retries x))" for t
    using t
  proof (elim disjE conjE exE)
    assume t: "t = p" and n: "map_of (oq_items p) i = None"
    have "syncing_in q p" unfolding syncing_in_def using pq n by (metis option.distinct(1))
    then show ?thesis using t okp le q' st(2) by simp
  next
    fix y assume i: "map_of (oq_items p) i = Some ?x" and t: "t = set_item p i y" and y: "qi_status y \<noteq> Q_SYNCING"
      "?f y < qi_max_retries x - qi_retries x"
    have "attempts_left t = attempts_left p + ?f y"
      using total_set_item [OF i okp, of ?f y] by (simp add: attempts_left_def t)
    moreover have "syncing_in q t" unfolding syncing_in_def t using pq y(1) by auto
    ultimately show ?thesis using t okp le q' y(2) by simp
  qed
  have sy: "fst (mark_synced p i) = p \<and> map_of (oq_items p) i = None
      \<or> (map_of (oq_items p) i = Some ?x \<and> (\<exists>y. fst (mark_synced p i) = set_item p i y \<and> qi_status y \<noteq> Q_SYNCING
          \<and> ?f y < qi_max_retries x - qi_retries x))"
    using item st by (auto simp: mark_synced_def)
  have fa: "fst (mark_failed p i e) = p \<and> map_of (oq_items p) i = None
      \<or> (map_of (oq_items p) i = Some ?x \<and> (\<exists>y. fst (mark_failed p i e) = set_item p i y \<and> qi_status y \<noteq> Q_SYNCING
          \<and> ?f y < qi_max_retries x - qi_retries x))" for e
  proof (cases "map_of (oq_items p) i")
    case (Some z)
    with item have z: "map_of (oq_items p) i = Some ?x" by simp
    then have "fst (mark_failed p i e) = set_item p i (failed_item e x)" by (simp add: mark_failed_def Let_def)
    moreover have "qi_status (failed_item e x) \<noteq> Q_SYNCING" "?f (failed_item e x) < qi_max_retries x - qi_retries x"
      using st by auto
    ultimately show ?thesis using z by blast
  qed (simp add: mark_failed_def)
  show ?thesis unfolding turn_def s prod.case
    using marked [OF sy] marked [OF fa] by (cases r) (auto split: bool.split)
qed

lemma syncing_in_trans: "syncing_in q p \<Longrightarrow> syncing_in p t \<Longrightarrow> syncing_in q t"
  unfolding syncing_in_def by blast

lemma process_loop_settles:
  assumes rem: "\<forall>k p y. dict_ok (oq_items p) \<longrightarrow> only_removes p (fst (sync k p y))"
    and "dict_ok (oq_items q)" and "attempts_left q \<le> n"
  shows "dict_ok (oq_items (fst (process_loop sync k n q a b)))
    \<and> \<not> list_ex (ready Q_PENDING) (oq_items (fst (process_loop sync k n q a b)))
    \<and> syncing_in q (fst (process_loop sync k n q a b))"
  using assms(2,3)
proof (induction n arbitrary: k q a b)
  case 0
  then have "\<forall>(i, x) \<in> set (oq_items q). (if qi_status x = Q_PENDING then qi_max_retries x - qi_retries x else 0) = 0"
    by (simp add: attempts_left_def total_0)
  with 0 show ?case by (auto simp: list_ex_iff ready_def syncing_in_def split: if_splits)
next
  case (Suc n)
  from Suc.prems(1) show ?case
  proof (cases rule: dequeue_cases)
    case none
    with Suc.prems show ?thesis by (simp add: syncing_in_def)
  next
    case (some i x)
    define t where "t = turn sync k (set_item q i (x\<lparr>qi_status := Q_SYNCING\<rparr>)) i (x\<lparr>qi_status := Q_SYNCING\<rparr>)"
    from turn_facts [OF Suc.prems(1) some(1,2) rem, of k, folded t_def] have t: "dict_ok (oq_items t)"
      "attempts_left t < attempts_left q" "syncing_in q t" by blast+
    from process_turn [OF some(3), of sync k n a b, folded t_def] obtain a' b' where
      eq: "process_loop sync k (Suc n) q a b = process_loop sync (Suc k) n t a' b'" by blast
    have "attempts_left t \<le> n" using t(2) Suc.prems(2) by simp
    from Suc.IH [OF t(1) this, of "Suc k" a' b'] show ?thesis unfolding eq using syncing_in_trans [OF t(3)] by blast
  qed
qed

text \<open>C27: the queue settles: whatever \<open>sync_fn\<close> answers or raises, as long as it neither puts items into the queue nor
  changes any (it may remove them), a call with as many turns as the waiting items have attempts left leaves every item
  of the queue synced, failed for good, with its attempts used up, or in the state of being synced that it was in
  already before the call.\<close>

theorem queue_settles:
  assumes "\<forall>k p y. dict_ok (oq_items p) \<longrightarrow> only_removes p (fst (sync k p y))"
    and "dict_ok (oq_items q)" and "attempts_left q \<le> n"
  shows "\<forall>(i, x) \<in> set (oq_items (fst (process_queue sync n q))).
    qi_status x \<in> {Q_SYNCED, Q_FAILED} \<or> qi_max_retries x \<le> qi_retries x
    \<or> (qi_status x = Q_SYNCING \<and> (\<exists>y. map_of (oq_items q) i = Some y \<and> qi_status y = Q_SYNCING))"
proof -
  let ?q = "fst (process_loop sync 0 n q 0 0)"
  have f: "fst (process_queue sync n q) = ?q" by (simp add: process_queue_def case_prod_beta' Let_def)
  from process_loop_settles [OF assms, of 0 0 0] have ok: "dict_ok (oq_items ?q)"
    "\<not> list_ex (ready Q_PENDING) (oq_items ?q)" "syncing_in q ?q" by blast+
  have "qi_status x \<in> {Q_SYNCED, Q_FAILED} \<or> qi_max_retries x \<le> qi_retries x
    \<or> (qi_status x = Q_SYNCING \<and> (\<exists>y. map_of (oq_items q) i = Some y \<and> qi_status y = Q_SYNCING))"
    if m: "(i, x) \<in> set (oq_items ?q)" for i x
  proof (cases "qi_status x")
    case Q_PENDING
    with ok(2) m show ?thesis by (auto simp: list_ex_iff ready_def)
  next
    case Q_SYNCING
    with ok(1,3) m show ?thesis by (auto simp: syncing_in_def dict_ok_items)
  qed simp_all
  then show ?thesis unfolding f by blast
qed

definition demo_queue :: queue where
  "demo_queue = enqueue (enqueue (queue_new 5) ''a'' ''upload'' [] Q_HIGH 0) ''b'' ''report'' [] Q_NORMAL 1"

definition demo_sync :: sync_fn where
  "demo_sync k q y = (q, if qi_operation (snd y) = ''upload'' then Inl ''offline'' else Inr True)"

lemma demo_queue_ok: "dict_ok (oq_items demo_queue)" "within_limits demo_queue"
  by (simp_all add: demo_queue_def enqueue_def queue_new_def set_item_def dict_ok_def within_limits_def)

theorem process_queue_accounts_witness:
  "\<exists>q' s f r. process_queue demo_sync 6 demo_queue = (q', s, f, r) \<and> s + f \<le> 6
    \<and> status_count q' Q_SYNCED = status_count demo_queue Q_SYNCED + s"
proof -
  obtain q' s f r where p: "process_queue demo_sync 6 demo_queue = (q', s, f, r)"
    by (cases "process_queue demo_sync 6 demo_queue")
  have "\<forall>k q y. fst (demo_sync k q y) = q" by (simp add: demo_sync_def)
  from process_queue_accounts [OF this demo_queue_ok p] p show ?thesis by blast
qed

theorem queue_settles_witness:
  "list_all (\<lambda>(i, x). qi_status x \<in> {Q_SYNCED, Q_FAILED} \<or> qi_max_retries x \<le> qi_retries x
      \<or> (qi_status x = Q_SYNCING \<and> (\<exists>y. map_of (oq_items demo_queue) i = Some y \<and> qi_status y = Q_SYNCING)))
    (oq_items (fst (process_queue demo_sync 10 demo_queue)))"
  unfolding list_all_iff
  by (rule queue_settles [OF _ demo_queue_ok(1)])
    (simp_all add: demo_sync_def only_removes_def attempts_left_def demo_queue_def total_def enqueue_def queue_new_def set_item_def)

text \<open>There is no backoff: a failing item is ready again at once, so one item of high priority that
  cannot be synced takes all turns of a call until its attempts are used up, and the item behind it
  is not tried.\<close>

theorem failing_item_starves:
  "let (q, synced, failed, remaining) = process_queue demo_sync 5 demo_queue in
   synced = 0 \<and> failed = 5 \<and> map_option qi_retries (map_of (oq_items q) ''a'') = Some 5
   \<and> map_option qi_retries (map_of (oq_items q) ''b'') = Some 0"
  by code_simp

end
