(* ===== verification/Fallback.thy ===== *)
theory Fallback
  imports Circuit_Breaker Py_Text
begin

text \<open>
  \<open>sentinel/routing/fallback_manager.py\<close> over \<open>sentinel/core/router_types.py\<close>: chains of model providers
  behind the circuit breaker. The providers' clients are outside: \<open>fe_providers\<close> says which are
  configured and which are local, \<open>fe_call\<close> how the attempt with a given number ends (with the text
  of an exception, or with a result). Each attempt has a start and an end on the clock.
\<close>

section \<open>Providers and decisions\<close>

datatype task_type = REASONING | ANALYSIS | QUICK | CODE | CREATIVE | LOCAL

fun task_value :: "task_type \<Rightarrow> string" where
  "task_value REASONING = ''reasoning''"
| "task_value ANALYSIS = ''analysis''"
| "task_value QUICK = ''quick''"
| "task_value CODE = ''code''"
| "task_value CREATIVE = ''creative''"
| "task_value LOCAL = ''local''"

record provider_spec =
  pv_id :: string
  pv_name :: string
  pv_tasks :: "task_type list"
  pv_requires_key :: bool
  pv_local :: bool
  pv_model :: string
  pv_priority :: int
  pv_chain :: "string list"

record route =
  ro_provider :: string
  ro_model :: string
  ro_task :: task_type
  ro_strategy :: string
  ro_reason :: string

abbreviation spec :: "string \<Rightarrow> string \<Rightarrow> task_type list \<Rightarrow> bool \<Rightarrow> bool \<Rightarrow> string \<Rightarrow> int \<Rightarrow> string list \<Rightarrow> provider_spec" where
  "spec i n ts key loc mdl prio chain \<equiv>
     \<lparr>pv_id = i, pv_name = n, pv_tasks = ts, pv_requires_key = key, pv_local = loc, pv_model = mdl,
      pv_priority = prio, pv_chain = chain\<rparr>"

definition builtin_providers :: "provider_spec list" where
  \<comment> \<open>without the \<open>config\<close> entries (addresses and hardware needs)\<close>
  "builtin_providers =
     [spec ''deepseek'' ''DeepSeek v4 Flash (Free)'' [REASONING, CODE, QUICK, ANALYSIS, CREATIVE] True False
        ''deepseek/deepseek-v4-flash'' 10 [''nvidia'', ''sentinel_local''],
      spec ''nvidia-nemotron'' ''NVIDIA Nemotron (Free)'' [REASONING, CODE, QUICK, ANALYSIS] True False
        ''nvidia/nemotron-3-super-120b-a12b'' 20 [''sentinel_local''],
      spec ''openrouter'' ''OpenRouter'' [REASONING, ANALYSIS, QUICK, CODE, CREATIVE] True False
        ''deepseek/deepseek-v4-flash'' 30 [],
      spec ''groq'' ''Groq'' [QUICK, ANALYSIS] True False ''llama-3.3-70b-versatile'' 25 [],
      spec ''gemini'' ''Gemini'' [REASONING, ANALYSIS, CREATIVE] True False ''gemini-2.5-flash'' 18 [],
      spec ''github_models'' ''GitHub Models (Free)'' [QUICK, CODE, REASONING, ANALYSIS] True False ''gpt-4o'' 12
        [''sentinel_local''],
      spec ''openai'' ''OpenAI'' [REASONING, CODE, CREATIVE] True False ''gpt-4o'' 22 [],
      spec ''anthropic'' ''Anthropic'' [REASONING, ANALYSIS, CODE] True False ''claude-sonnet-4'' 22 [],
      spec ''sentinel_local'' ''Sentinel Local'' [LOCAL, QUICK, REASONING, ANALYSIS, CODE, CREATIVE] False True
        ''Qwen3-1.7B-Q8_0.gguf'' 50 [],
      spec ''ollama'' ''Ollama'' [LOCAL, QUICK] False True ''llama3'' 30 [],
      spec ''cerebras'' ''Cerebras'' [QUICK, ANALYSIS] True False ''llama-3.3-70b'' 14 [],
      spec ''mistral'' ''Mistral'' [REASONING, CODE, ANALYSIS] True False ''mistral-large-latest'' 16 [],
      spec ''nvidia'' ''NVIDIA NIM'' [REASONING, ANALYSIS, QUICK, CODE, CREATIVE] True False
        ''nvidia/nemotron-3-super-120b-a12b'' 28 []]"

definition fallback_strategies :: "string list" where
  "fallback_strategies = [''chain'', ''round_robin'', ''broadcast'']"

definition total_timeout_budget :: rat where "total_timeout_budget = 120"

definition call_timeout :: rat where "call_timeout = 60"

definition local_call_timeout :: rat where "local_call_timeout = 120"

definition has_any :: "string list \<Rightarrow> string \<Rightarrow> bool" where
  "has_any ws msg \<longleftrightarrow> list_ex (\<lambda>w. sublist w msg) ws"

definition provider_error_category :: "string \<Rightarrow> string" where
  \<comment> \<open>the category of \<open>classify_provider_error\<close>\<close>
  "provider_error_category err =
     (let msg = lower err in
      if has_any [''timeout'', ''timed out''] msg then ''timeout''
      else if has_any [''rate_limit'', ''429''] msg then ''rate_limit''
      else if has_any [''unauthorized'', ''401'', ''invalid_api_key'', ''auth''] msg then ''auth''
      else if has_any [''insufficient_quota'', ''402'', ''billing''] msg then ''quota''
      else if has_any [''context_length'', ''max_tokens'', ''token_limit''] msg then ''context_overflow''
      else if has_any [''connection'', ''reset'', ''refused'', ''resolve''] msg then ''connection''
      else if has_any [''unavailable'', ''503'', ''502''] msg then ''service_unavailable''
      else ''unknown'')"

definition tenths :: "rat \<Rightarrow> string" where
  \<comment> \<open>\<open>:.1f\<close> of a number that is not negative\<close>
  "tenths x = (let n = py_int (py_round 1 x * 10) in int_str (n div 10) @ ''.'' @ int_str (n mod 10))"

definition format_elapsed :: "rat \<Rightarrow> string" where
  "format_elapsed s =
     (if s < 1 then int_str (py_int (py_round 0 (s * 1000))) @ ''ms''
      else if s < 60 then tenths s @ ''s''
      else int_str (py_int s div 60) @ ''m'' @ int_str (py_int s mod 60) @ ''s'')"


section \<open>The manager\<close>

record history_entry =
  he_primary :: string
  he_used :: string
  he_attempt :: nat
  he_category :: string
  he_message :: string
  he_elapsed :: rat

record fallback_manager =
  fm_providers :: "(string \<times> provider_spec) list"
  fm_default_chain :: "string list"
  fm_strategy :: string
  fm_max :: int
  fm_stats :: "(string \<times> nat) list"
  fm_history :: "history_entry list"
  fm_breaker :: breaker

definition fm_new :: "(string \<times> provider_spec) list \<Rightarrow> string list \<Rightarrow> string \<Rightarrow> int \<Rightarrow> breaker \<Rightarrow> fallback_manager" where
  "fm_new providers chain strategy mx b =
     \<lparr>fm_providers = providers, fm_default_chain = chain,
      fm_strategy = (if strategy \<in> set fallback_strategies then strategy else ''chain''), fm_max = mx,
      fm_stats = [], fm_history = [], fm_breaker = b\<rparr>"

definition set_fallback_strategy :: "fallback_manager \<Rightarrow> string \<Rightarrow> fallback_manager result" where
  "set_fallback_strategy fm s =
     (if s \<notin> set fallback_strategies
      then Inl (ValueError (''Fallback strategy must be one of '' @ str_list_repr fallback_strategies))
      else Inr (fm\<lparr>fm_strategy := s\<rparr>))"

definition set_max_fallbacks :: "fallback_manager \<Rightarrow> int \<Rightarrow> fallback_manager" where
  "set_max_fallbacks fm n = fm\<lparr>fm_max := max 1 n\<rparr>"

definition set_default_chain :: "fallback_manager \<Rightarrow> string list \<Rightarrow> fallback_manager" where
  "set_default_chain fm chain = fm\<lparr>fm_default_chain := chain\<rparr>"

fun chain_from :: "fallback_manager \<Rightarrow> (string \<Rightarrow> bool) \<Rightarrow> (string \<Rightarrow> provider_spec \<Rightarrow> route) \<Rightarrow> string list \<Rightarrow> route list
    \<Rightarrow> string list \<Rightarrow> route list" where
  \<comment> \<open>the loop over provider identifiers; an unavailable provider skips the test of the limit\<close>
  "chain_from fm avail mk [] res seen = res"
| "chain_from fm avail mk (p # ps) res seen =
     (case (if p \<in> set seen then None else map_of (fm_providers fm) p) of
        Some sp \<Rightarrow>
          if \<not> avail p then chain_from fm avail mk ps res seen
          else
            (let res' = res @ [mk p sp] in
             if fm_max fm \<le> int (length res') - 1 then res' else chain_from fm avail mk ps res' (p # seen))
      | None \<Rightarrow> if fm_max fm \<le> int (length res) - 1 then res else chain_from fm avail mk ps res seen)"

fun chain_of :: "int \<Rightarrow> route list \<Rightarrow> route list \<Rightarrow> string list \<Rightarrow> route list" where
  \<comment> \<open>the loop over all candidates of the selector\<close>
  "chain_of mx [] res seen = res"
| "chain_of mx (c # cs) res seen =
     (let (res', seen') = (if ro_provider c \<in> set seen then (res, seen) else (res @ [c], ro_provider c # seen)) in
      if mx \<le> int (length res') - 1 then res' else chain_of mx cs res' seen')"

definition chain_route :: "task_type \<Rightarrow> string \<Rightarrow> string \<Rightarrow> string \<Rightarrow> provider_spec \<Rightarrow> route" where
  "chain_route task strategy label p sp =
     \<lparr>ro_provider = p, ro_model = pv_model sp, ro_task = task, ro_strategy = strategy, ro_reason = label @ p\<rparr>"

definition build_fallback_chain :: "fallback_manager \<Rightarrow> route \<Rightarrow> task_type \<Rightarrow> (string \<Rightarrow> bool) \<Rightarrow> route list option
    \<Rightarrow> route list" where
  \<comment> \<open>the last argument is what \<open>select_all_fn\<close> returns, if there is one\<close>
  "build_fallback_chain fm primary task avail everyone =
     (let own = (case map_of (fm_providers fm) (ro_provider primary) of None \<Rightarrow> [] | Some sp \<Rightarrow> pv_chain sp);
          ids = (if own \<noteq> [] then own else fm_default_chain fm)
      in if ids \<noteq> []
         then chain_from fm avail (chain_route task ''chain'' ''Fallback chain: '') ids [primary] [ro_provider primary]
         else case everyone of
                Some cs \<Rightarrow> chain_of (fm_max fm) cs [primary] [ro_provider primary]
              | None \<Rightarrow> [primary])"

definition override_chain :: "fallback_manager \<Rightarrow> route \<Rightarrow> task_type \<Rightarrow> (string \<Rightarrow> bool) \<Rightarrow> string list \<Rightarrow> route list" where
  "override_chain fm primary task avail ids =
     chain_from fm avail (chain_route task (fm_strategy fm) ''Fallback override: '') ids [primary] [ro_provider primary]"

fun filter_open :: "breaker \<Rightarrow> route list \<Rightarrow> rat \<Rightarrow> breaker \<times> route list" where
  \<comment> \<open>\<open>filter_open_providers\<close> asks the breaker about every candidate of the chain, in order\<close>
  "filter_open b [] now = (b, [])"
| "filter_open b (c # cs) now =
     (let (b1, ok) = allow_request b (ro_provider c) now; (b2, rest) = filter_open b1 cs now
      in (b2, if ok then c # rest else rest))"

definition record_fallback :: "fallback_manager \<Rightarrow> string \<Rightarrow> fallback_manager" where
  "record_fallback fm p = fm\<lparr>fm_stats := AList.update p (dict_get (fm_stats fm) p 0 + 1) (fm_stats fm)\<rparr>"

definition total_fallbacks :: "fallback_manager \<Rightarrow> nat" where
  "total_fallbacks fm = sum_list (map snd (fm_stats fm))"

definition reset_fallback_stats :: "fallback_manager \<Rightarrow> fallback_manager \<times> nat" where
  "reset_fallback_stats fm = (fm\<lparr>fm_stats := [], fm_history := []\<rparr>, total_fallbacks fm)"

section \<open>Execution with fallback\<close>

record fallback_env =
  fe_filter :: rat
  fe_start :: rat
  fe_began :: "nat \<Rightarrow> rat"
  fe_ended :: "nat \<Rightarrow> rat"
  fe_providers :: "string \<Rightarrow> bool option"
  fe_call :: "nat \<Rightarrow> route \<Rightarrow> rat \<Rightarrow> string + params"

record selection =
  sl_primary :: string
  sl_used :: string
  sl_model :: string
  sl_strategy :: string
  sl_reason :: string
  sl_attempt :: nat
  sl_tried :: nat
  sl_elapsed :: string

definition remaining_budget :: "fallback_env \<Rightarrow> nat \<Rightarrow> rat" where
  "remaining_budget env i = max 5 (total_timeout_budget - (fe_began env i - fe_start env))"

definition attempt_timeout :: "fallback_env \<Rightarrow> nat \<Rightarrow> bool \<Rightarrow> rat" where
  "attempt_timeout env i loc = min (remaining_budget env i) (if loc then local_call_timeout else call_timeout)"

definition note_success :: "fallback_env \<Rightarrow> string \<Rightarrow> nat \<Rightarrow> route \<Rightarrow> fallback_manager \<Rightarrow> fallback_manager" where
  "note_success env primary i c fm =
     (let p = ro_provider c; fm1 = fm\<lparr>fm_breaker := record_success (fm_breaker fm) p (fe_ended env i)\<rparr> in
      if p = primary then fm1
      else (record_fallback fm1 p)\<lparr>fm_history := fm_history fm1 @
             [\<lparr>he_primary = primary, he_used = p, he_attempt = i + 1, he_category = ''success_after_fallback'',
               he_message = [], he_elapsed = fe_ended env i - fe_start env\<rparr>]\<rparr>)"

definition note_failure :: "fallback_env \<Rightarrow> string \<Rightarrow> nat \<Rightarrow> route \<Rightarrow> string \<Rightarrow> fallback_manager \<Rightarrow> fallback_manager" where
  "note_failure env primary i c err fm =
     fm\<lparr>fm_breaker := record_failure (fm_breaker fm) (ro_provider c) (fe_ended env i),
        fm_history := fm_history fm @
          [\<lparr>he_primary = primary, he_used = ro_provider c, he_attempt = i + 1,
            he_category = provider_error_category err, he_message = err,
            he_elapsed = fe_ended env i - fe_start env\<rparr>]\<rparr>"

definition selection_of :: "fallback_env \<Rightarrow> fallback_manager \<Rightarrow> string \<Rightarrow> nat \<Rightarrow> route \<Rightarrow> selection" where
  \<comment> \<open>the offline explanation is never added: \<open>_offline_reason\<close> is an attribute of another class\<close>
  "selection_of env fm primary i c =
     \<lparr>sl_primary = primary, sl_used = ro_provider c, sl_model = ro_model c, sl_strategy = fm_strategy fm,
      sl_reason = ro_reason c, sl_attempt = i + 1, sl_tried = i,
      sl_elapsed = format_elapsed (fe_ended env i - fe_start env)\<rparr>"

fun try_candidates :: "fallback_env \<Rightarrow> string \<Rightarrow> nat \<Rightarrow> string option \<Rightarrow> route list \<Rightarrow> fallback_manager
    \<Rightarrow> fallback_manager \<times> (string option + params \<times> selection)" where
  "try_candidates env primary i last_err [] fm = (fm, Inl last_err)"
| "try_candidates env primary i last_err (c # cs) fm =
     (case fe_providers env (ro_provider c) of
        None \<Rightarrow> try_candidates env primary (Suc i) last_err cs fm
      | Some loc \<Rightarrow>
          (case fe_call env i c (attempt_timeout env i loc) of
             Inr res \<Rightarrow> (note_success env primary i c fm, Inr (res, selection_of env fm primary i c))
           | Inl e \<Rightarrow>
               (let fm' = note_failure env primary i c e fm;
                    last' = Some (''['' @ provider_error_category e @ ''] '' @ e)
                in if remaining_budget env i < 5 \<and> cs \<noteq> [] then (fm', Inl last')
                   else try_candidates env primary (Suc i) last' cs fm')))"

definition fallback_chain :: "fallback_manager \<Rightarrow> route \<Rightarrow> task_type \<Rightarrow> string list option \<Rightarrow> (string \<Rightarrow> bool)
    \<Rightarrow> route list option \<Rightarrow> route list" where
  "fallback_chain fm primary task override avail everyone =
     (case override of
        Some ids \<Rightarrow> override_chain fm primary task avail ids
      | None \<Rightarrow> build_fallback_chain fm primary task avail everyone)"

definition run_chain :: "fallback_env \<Rightarrow> route list \<Rightarrow> fallback_manager
    \<Rightarrow> fallback_manager \<times> (string option + params \<times> selection)" where
  \<comment> \<open>\<open>execute_with_fallback\<close> after the chain is built; both errors are a \<open>RuntimeError\<close>, the first one
    (no candidate is let through) names the states of the breaker\<close>
  "run_chain env chain fm =
     (let (b, cs) = filter_open (fm_breaker fm) chain (fe_filter env); fm' = fm\<lparr>fm_breaker := b\<rparr> in
      case cs of
        [] \<Rightarrow> (fm', Inl None)
      | c # cs' \<Rightarrow> try_candidates env (ro_provider c) 0 None (c # cs') fm')"

definition execute_with_fallback :: "fallback_env \<Rightarrow> fallback_manager \<Rightarrow> route \<Rightarrow> task_type \<Rightarrow> string list option
    \<Rightarrow> (string \<Rightarrow> bool) \<Rightarrow> route list option \<Rightarrow> fallback_manager \<times> (string option + params \<times> selection)" where
  "execute_with_fallback env fm primary task override avail everyone =
     run_chain env (fallback_chain fm primary task override avail everyone) fm"


section \<open>Attempts\<close>

definition attempt :: "fallback_env \<Rightarrow> nat \<Rightarrow> route \<Rightarrow> (string + params) option" where
  \<comment> \<open>how the attempt at a candidate ends, if its provider is configured\<close>
  "attempt env i c =
     (case fe_providers env (ro_provider c) of
        None \<Rightarrow> None | Some loc \<Rightarrow> Some (fe_call env i c (attempt_timeout env i loc)))"

fun outcomes :: "fallback_env \<Rightarrow> nat \<Rightarrow> route list \<Rightarrow> cb_event list" where
  \<comment> \<open>what the breaker has to hear: each failed attempt up to the first success, and that one\<close>
  "outcomes env i [] = []"
| "outcomes env i (c # cs) =
     (case attempt env i c of
        None \<Rightarrow> outcomes env (Suc i) cs
      | Some (Inr res) \<Rightarrow> [Success (ro_provider c) (fe_ended env i)]
      | Some (Inl e) \<Rightarrow> Failure (ro_provider c) (fe_ended env i) # outcomes env (Suc i) cs)"

fun winner :: "fallback_env \<Rightarrow> nat \<Rightarrow> route list \<Rightarrow> (params \<times> string \<times> nat) option" where
  "winner env i [] = None"
| "winner env i (c # cs) =
     (case attempt env i c of
        Some (Inr res) \<Rightarrow> Some (res, ro_provider c, i + 1)
      | _ \<Rightarrow> winner env (Suc i) cs)"

lemma budget_never_short: "\<not> remaining_budget env i < 5"
  by (simp add: remaining_budget_def)

lemma note_breaker [simp]:
  "fm_breaker (note_success env primary i c fm) = record_success (fm_breaker fm) (ro_provider c) (fe_ended env i)"
  "fm_breaker (note_failure env primary i c e fm) = record_failure (fm_breaker fm) (ro_provider c) (fe_ended env i)"
  by (simp_all add: note_success_def note_failure_def record_fallback_def Let_def)

lemma try_candidates_exact:
  "fm_breaker (fst (try_candidates env primary i last_err cs fm)) = cb_run (fm_breaker fm) (outcomes env i cs)
   \<and> (case snd (try_candidates env primary i last_err cs fm) of
        Inl e \<Rightarrow> winner env i cs = None
      | Inr (res, sel) \<Rightarrow> winner env i cs = Some (res, sl_used sel, sl_attempt sel) \<and> sl_primary sel = primary)"
proof (induction cs arbitrary: i last_err fm)
  case Nil
  then show ?case by simp
next
  case (Cons c cs)
  show ?case
  proof (cases "fe_providers env (ro_provider c)")
    case None
    then have w: "winner env i (c # cs) = winner env (Suc i) cs" by (simp add: attempt_def)
    from None Cons [of "Suc i" last_err fm] show ?thesis unfolding w by (simp add: attempt_def)
  next
    case (Some loc)
    show ?thesis
    proof (cases "fe_call env i c (attempt_timeout env i loc)")
      case (Inl e)
      with Some have w: "winner env i (c # cs) = winner env (Suc i) cs" by (simp add: attempt_def)
      from Inl Some Cons [of "Suc i" "Some (''['' @ provider_error_category e @ ''] '' @ e)" "note_failure env primary i c e fm"]
      show ?thesis unfolding w by (simp add: attempt_def budget_never_short)
    next
      case (Inr res)
      with Some show ?thesis by (simp add: attempt_def selection_of_def)
    qed
  qed
qed

lemma filter_open_run:
  "fst (filter_open b chain now) = cb_run b (map (\<lambda>c. Request (ro_provider c) now) chain)"
  by (induction chain arbitrary: b) (simp_all add: case_prod_beta' Let_def)

lemma filter_open_sub: "subseq (snd (filter_open b chain now)) chain"
  by (induction chain arbitrary: b) (auto simp: case_prod_beta' Let_def)


abbreviation let_through :: "fallback_env \<Rightarrow> fallback_manager \<Rightarrow> route list \<Rightarrow> route list" where
  "let_through env fm chain \<equiv> snd (filter_open (fm_breaker fm) chain (fe_filter env))"

lemma run_chain_exact:
  "fm_breaker (fst (run_chain env chain fm))
     = cb_run (fm_breaker fm) (map (\<lambda>c. Request (ro_provider c) (fe_filter env)) chain
         @ outcomes env 0 (let_through env fm chain))
   \<and> (case snd (run_chain env chain fm) of
        Inl e \<Rightarrow> winner env 0 (let_through env fm chain) = None
      | Inr (res, sel) \<Rightarrow> winner env 0 (let_through env fm chain) = Some (res, sl_used sel, sl_attempt sel))"
proof (cases "let_through env fm chain")
  case Nil
  then show ?thesis by (simp add: run_chain_def case_prod_beta' Let_def filter_open_run)
next
  case (Cons c cs)
  let ?fm = "fm\<lparr>fm_breaker := fst (filter_open (fm_breaker fm) chain (fe_filter env))\<rparr>"
  have "run_chain env chain fm = try_candidates env (ro_provider c) 0 None (c # cs) ?fm"
    using Cons by (simp add: run_chain_def case_prod_beta' Let_def)
  with try_candidates_exact [of env "ro_provider c" 0 None "c # cs" ?fm] show ?thesis
    unfolding Cons by (auto simp: filter_open_run split: sum.splits)
qed

text \<open>C21: fallback is exact: the breaker is asked about every provider of the chain, the ones it lets through
  are tried in order, each once, until the first success, it hears of exactly these attempts, and the
  answer is that success, or an error when there is none.\<close>

theorem fallback_first_success:
  "fm_breaker (fst (execute_with_fallback env fm primary task override avail everyone))
     = cb_run (fm_breaker fm)
         (map (\<lambda>c. Request (ro_provider c) (fe_filter env)) (fallback_chain fm primary task override avail everyone)
          @ outcomes env 0 (let_through env fm (fallback_chain fm primary task override avail everyone)))
   \<and> (case snd (execute_with_fallback env fm primary task override avail everyone) of
        Inl e \<Rightarrow> winner env 0 (let_through env fm (fallback_chain fm primary task override avail everyone)) = None
      | Inr (res, sel) \<Rightarrow> winner env 0 (let_through env fm (fallback_chain fm primary task override avail everyone))
          = Some (res, sl_used sel, sl_attempt sel))"
  unfolding execute_with_fallback_def by (rule run_chain_exact)

lemma chain_from_distinct:
  assumes "distinct (map ro_provider res)" and "set seen = set (map ro_provider res)"
    and "\<And>p sp. ro_provider (mk p sp) = p"
  shows "distinct (map ro_provider (chain_from fm avail mk ps res seen))"
  using assms
proof (induction ps arbitrary: res seen)
  case Nil
  then show ?case by simp
next
  case (Cons p ps)
  show ?case
  proof (cases "if p \<in> set seen then None else map_of (fm_providers fm) p")
    case None
    with Cons show ?thesis by simp
  next
    case (Some sp)
    then have "p \<notin> set seen" by (auto split: if_splits)
    then have "distinct (map ro_provider (res @ [mk p sp]))" and "set (p # seen) = set (map ro_provider (res @ [mk p sp]))"
      using Cons.prems by auto
    with Cons.IH [of "res @ [mk p sp]" "p # seen"] Cons.IH [of res seen] Cons.prems Some show ?thesis
      by (simp add: Let_def)
  qed
qed

lemma chain_of_distinct:
  "distinct (map ro_provider res) \<Longrightarrow> set seen = set (map ro_provider res) \<Longrightarrow>
     distinct (map ro_provider (chain_of mx cs res seen))"
  by (induction mx cs res seen rule: chain_of.induct) (auto simp: Let_def)

lemma chain_distinct: "distinct (map ro_provider (fallback_chain fm primary task override avail everyone))"
  by (auto simp: fallback_chain_def override_chain_def build_fallback_chain_def chain_route_def Let_def
      intro!: chain_from_distinct chain_of_distinct split: option.split)

lemma outcomes_after_success:
  "attempt env i c = Some (Inr res) \<Longrightarrow> outcomes env i (c # cs) = [Success (ro_provider c) (fe_ended env i)]"
  by simp

lemma requests_view:
  assumes "cb_inv b" and "p \<notin> set ps"
  shows "cb_view (cb_run b (map (\<lambda>q. Request q t) ps)) p = cb_view b p"
  using assms
proof (induction ps arbitrary: b)
  case (Cons q ps)
  then show ?case using cb_step_inv [OF Cons.prems(1), of "Request q t"] cb_step_view [OF Cons.prems(1), of "Request q t" p]
    by auto
qed simp

lemma request_opens_probe:
  assumes "cb_inv b" and "cb_view b p = Open n s" and "cb_cooldown b \<le> t - s" and "distinct ps" and "p \<in> set ps"
  shows "cb_view (cb_run b (map (\<lambda>q. Request q t) ps)) p = Probing n"
  using assms
proof (induction ps arbitrary: b)
  case (Cons q ps)
  have inv: "cb_inv (cb_step b (Request q t))" by (rule cb_step_inv [OF Cons.prems(1)])
  show ?case
  proof (cases "q = p")
    case True
    then have "cb_view (cb_step b (Request q t)) p = Probing n"
      using Cons.prems by (simp add: cb_request_view)
    with requests_view [OF inv, of p ps t] Cons.prems True show ?thesis by simp
  next
    case False
    then have "cb_view (cb_step b (Request q t)) p = Open n s"
      using Cons.prems cb_step_view [OF Cons.prems(1), of "Request q t" p] by simp
    with Cons.IH [OF inv] Cons.prems False show ?thesis by simp
  qed
qed simp

text \<open>A healthy first provider locks the others out: a provider later in the chain whose circuit was
  open and has cooled down gets its recovery probe when the chain is filtered, but when the first
  candidate answers it is never tried, so the probe is never resolved and every later request for that
  provider is refused, however many and however late, until the breaker is reset.\<close>

theorem unused_probe_locks_provider:
  assumes "cb_inv (fm_breaker fm)" and "cb_view (fm_breaker fm) p = Open n s"
    and "cb_cooldown (fm_breaker fm) \<le> fe_filter env - s"
    and "fallback_chain fm primary task override avail everyone = c # rest" and "p \<in> set (map ro_provider rest)"
    and "snd (allow_request (fm_breaker fm) (ro_provider c) (fe_filter env))"
    and "attempt env 0 c = Some (Inr res)"
    and "list_all (no_outcome p) es"
  shows "list_all Not (cb_answers (fm_breaker (fst (execute_with_fallback env fm primary task override avail everyone))) p es)"
proof -
  let ?chain = "c # rest" and ?b = "fm_breaker fm" and ?t = "fe_filter env"
  let ?reqs = "map (\<lambda>q. Request q ?t) (map ro_provider ?chain)"
  have dist: "distinct (map ro_provider ?chain)"
    using chain_distinct [of fm primary task override avail everyone] unfolding assms(4) .
  have "\<exists>cs. let_through env fm ?chain = c # cs" using assms(6) by (simp add: case_prod_beta' Let_def)
  then obtain cs where cs: "let_through env fm ?chain = c # cs" by blast
  have after: "fm_breaker (fst (execute_with_fallback env fm primary task override avail everyone))
      = cb_run (cb_run ?b ?reqs) [Success (ro_provider c) (fe_ended env 0)]"
    using run_chain_exact [of env ?chain fm]
    unfolding execute_with_fallback_def assms(4) cs outcomes_after_success [OF assms(7)] by (simp add: comp_def)
  have inv: "cb_inv (cb_run ?b ?reqs)" by (rule cb_run_inv [OF assms(1)])
  have "cb_view (cb_run ?b ?reqs) p = Probing n"
    by (rule request_opens_probe [OF assms(1-3) dist]) (use assms(5) in simp)
  moreover have "ro_provider c \<noteq> p" using dist assms(5) by auto
  ultimately show ?thesis
    unfolding after using probing_stuck [OF inv, of p n "Success (ro_provider c) (fe_ended env 0) # es"] assms(8) by simp
qed


definition demo_route :: route where
  "demo_route = \<lparr>ro_provider = ''groq'', ro_model = ''m'', ro_task = QUICK, ro_strategy = ''manual'', ro_reason = []\<rparr>"

definition demo_fallbacks :: fallback_manager where
  \<comment> \<open>the circuit of the second provider opened at time 0\<close>
  "demo_fallbacks = fm_new (map (\<lambda>p. (pv_id p, p)) builtin_providers) [''mistral''] ''chain'' 5
     (cb_run (cb_init 1 30) [Failure ''mistral'' 0])"

definition demo_fallback_env :: fallback_env where
  "demo_fallback_env = \<lparr>fe_filter = 40, fe_start = 40, fe_began = (\<lambda>i. 40), fe_ended = (\<lambda>i. 41),
     fe_providers = (\<lambda>p. Some False), fe_call = (\<lambda>i c t. Inr [])\<rparr>"

theorem unused_probe_locks_provider_witness:
  "list_all Not (cb_answers (fm_breaker (fst (execute_with_fallback demo_fallback_env demo_fallbacks demo_route QUICK
      None (\<lambda>p. True) None))) ''mistral'' [Request ''mistral'' 100, Request ''mistral'' 1000000])"
proof (rule unused_probe_locks_provider)
  show "cb_inv (fm_breaker demo_fallbacks)"
    unfolding demo_fallbacks_def fm_new_def by (simp only: fallback_manager.select_convs) (rule cb_reachable_inv)
  show "cb_view (fm_breaker demo_fallbacks) ''mistral'' = Open 1 0" by code_simp
  show "cb_cooldown (fm_breaker demo_fallbacks) \<le> fe_filter demo_fallback_env - 0" by code_simp
  show "fallback_chain demo_fallbacks demo_route QUICK None (\<lambda>p. True) None = demo_route #
      [chain_route QUICK ''chain'' ''Fallback chain: '' ''mistral''
        (spec ''mistral'' ''Mistral'' [REASONING, CODE, ANALYSIS] True False ''mistral-large-latest'' 16 [])]"
    by code_simp
  show "''mistral'' \<in> set (map ro_provider [chain_route QUICK ''chain'' ''Fallback chain: '' ''mistral''
        (spec ''mistral'' ''Mistral'' [REASONING, CODE, ANALYSIS] True False ''mistral-large-latest'' 16 [])])"
    by (simp add: chain_route_def)
  show "snd (allow_request (fm_breaker demo_fallbacks) (ro_provider demo_route) (fe_filter demo_fallback_env))"
    by code_simp
  show "attempt demo_fallback_env 0 demo_route = Some (Inr [])" by code_simp
  show "list_all (no_outcome ''mistral'') [Request ''mistral'' 100, Request ''mistral'' 1000000]" by simp
qed

end
