(* ===== verification/Capabilities.thy ===== *)
theory Capabilities
  imports Security_Models Py_Text
begin

text \<open>
  The registry of capabilities, \<open>sentinel/core/capability_registry.py\<close>: the capability record, the
  defaults by tool name, \<open>capability_from_spec\<close> and the registry, a dictionary in order of
  registration whose lock makes every operation atomic. Its \<open>RiskLevel\<close> has the values of the one in
  \<open>sentinel/security/models.py\<close>. The conversion to and from dictionaries is not modelled.
\<close>

section \<open>Capabilities\<close>

record capability =
  cp_id :: string
  cp_name :: string
  cp_description :: string
  cp_category :: string
  cp_risk :: risk_level
  cp_requires_confirmation :: bool
  cp_permissions :: "string list"
  cp_parameters :: params
  cp_result_type :: string
  cp_tags :: "string list"
  cp_version :: string
  cp_timeout :: int
  cp_impact :: "string option"
  cp_reversible :: "bool option"
  cp_rollback_available :: "bool option"
  cp_default_parameters :: params
  cp_required_level :: "string option"

definition result_type_defaults :: "(string \<times> string) list" where
  "result_type_defaults =
     [(''filesystem.read'', ''text''), (''filesystem.write'', ''status''), (''filesystem.list'', ''json''),
      (''filesystem.search'', ''json''), (''executor.command'', ''text''), (''executor.launch'', ''status''),
      (''executor.kill'', ''status''), (''system.info'', ''json''), (''system.cpu'', ''json''),
      (''system.processes'', ''json'')]"

definition risk_defaults :: "(string \<times> risk_level) list" where
  "risk_defaults =
     [(''filesystem.read'', LOW), (''filesystem.write'', MEDIUM), (''filesystem.list'', LOW),
      (''filesystem.search'', LOW), (''executor.command'', HIGH), (''executor.launch'', MEDIUM),
      (''executor.kill'', HIGH), (''system.info'', LOW), (''system.cpu'', LOW), (''system.processes'', LOW)]"

definition tag_defaults :: "(string \<times> string list) list" where
  "tag_defaults =
     [(''filesystem.read'', [''read'', ''file'']), (''filesystem.write'', [''write'', ''file'', ''modify'']),
      (''filesystem.list'', [''read'', ''file'', ''directory'']),
      (''filesystem.search'', [''read'', ''file'', ''search'']),
      (''executor.command'', [''execute'', ''command'', ''shell'']),
      (''executor.launch'', [''execute'', ''launch'', ''app'']),
      (''executor.kill'', [''execute'', ''process'', ''modify'']),
      (''system.info'', [''read'', ''system'', ''monitor'']), (''system.cpu'', [''read'', ''system'', ''monitor'']),
      (''system.processes'', [''read'', ''system'', ''monitor''])]"

definition valid_impacts :: "string list" where
  "valid_impacts = [''low'', ''medium'', ''high'', ''critical'']"

text \<open>The optional arguments of \<open>capability_from_spec\<close>.\<close>

record spec_options =
  so_risk :: "risk_level option"
  so_tags :: "string list option"
  so_result_type :: "string option"
  so_impact :: "string option"
  so_reversible :: "bool option"
  so_rollback :: "bool option"
  so_default_parameters :: "params option"
  so_level :: "string option"

record tool_form =
  tf_id :: string
  tf_name :: string
  tf_description :: string
  tf_version :: string
  tf_parameters :: params
  tf_permissions :: "string list"
  tf_timeout :: int
  tf_category :: string

definition resolved_risk :: "tool_form \<Rightarrow> spec_options \<Rightarrow> risk_level" where
  "resolved_risk f opt =
     (case so_risk opt of Some r \<Rightarrow> r | None \<Rightarrow> dict_get risk_defaults (tf_id f) LOW)"

definition resolved_result :: "tool_form \<Rightarrow> spec_options \<Rightarrow> string" where
  \<comment> \<open>an empty result type counts as none\<close>
  "resolved_result f opt =
     (case so_result_type opt of
        Some t \<Rightarrow> if t \<noteq> [] then t else dict_get result_type_defaults (tf_id f) ''json''
      | None \<Rightarrow> dict_get result_type_defaults (tf_id f) ''json'')"

definition resolved_impact :: "tool_form \<Rightarrow> spec_options \<Rightarrow> string" where
  "resolved_impact f opt =
     (case so_impact opt of Some i \<Rightarrow> i | None \<Rightarrow> risk_value (resolved_risk f opt))"

definition resolved_reversible :: "tool_form \<Rightarrow> spec_options \<Rightarrow> bool" where
  "resolved_reversible f opt =
     (case so_reversible opt of Some b \<Rightarrow> b | None \<Rightarrow> resolved_risk f opt \<in> {LOW, MEDIUM})"

definition capability_from_spec :: "tool_form \<Rightarrow> spec_options \<Rightarrow> capability result" where
  "capability_from_spec f opt =
     (if resolved_impact f opt \<notin> set valid_impacts
      then Inl (ValueError (''Invalid estimated_impact '' @ quoted (resolved_impact f opt) @ ''. Must be one of ''
                  @ str_list_repr (py_sorted valid_impacts)))
      else Inr
        \<lparr>cp_id = tf_id f, cp_name = tf_name f, cp_description = tf_description f, cp_category = tf_category f,
         cp_risk = resolved_risk f opt, cp_requires_confirmation = resolved_risk f opt \<in> {HIGH, CRITICAL},
         cp_permissions = tf_permissions f, cp_parameters = tf_parameters f,
         cp_result_type = resolved_result f opt,
         cp_tags = (case so_tags opt of Some ts \<Rightarrow> ts | None \<Rightarrow> dict_get tag_defaults (tf_id f) []),
         cp_version = tf_version f, cp_timeout = tf_timeout f, cp_impact = Some (resolved_impact f opt),
         cp_reversible = Some (resolved_reversible f opt),
         cp_rollback_available = Some (case so_rollback opt of Some b \<Rightarrow> b | None \<Rightarrow> False),
         cp_default_parameters = (case so_default_parameters opt of Some d \<Rightarrow> d | None \<Rightarrow> []),
         cp_required_level = so_level opt\<rparr>)"


section \<open>The registry\<close>

type_synonym capabilities = "(string \<times> capability) list"

definition register_capability :: "capabilities \<Rightarrow> capability \<Rightarrow> capabilities result" where
  "register_capability reg c =
     (if cp_id c \<in> set (keys reg)
      then Inl (ValueError (''Capability '' @ quoted (cp_id c) @ '' already registered''))
      else Inr (AList.update (cp_id c) c reg))"

definition get_capability :: "capabilities \<Rightarrow> string \<Rightarrow> capability option" where
  "get_capability reg i = map_of reg i"

definition find_capabilities :: "(capability \<Rightarrow> bool) \<Rightarrow> capabilities \<Rightarrow> capability list" where
  \<comment> \<open>the list comprehension of the \<open>find_by\<close> methods\<close>
  "find_capabilities P reg = filter P (map snd reg)"

definition find_by_category :: "capabilities \<Rightarrow> string \<Rightarrow> capability list" where
  "find_by_category reg cat = find_capabilities (\<lambda>c. cp_category c = cat) reg"

definition find_by_tag :: "capabilities \<Rightarrow> string \<Rightarrow> capability list" where
  "find_by_tag reg tag = find_capabilities (\<lambda>c. tag \<in> set (cp_tags c)) reg"

definition find_by_risk :: "capabilities \<Rightarrow> risk_level \<Rightarrow> capability list" where
  "find_by_risk reg r = find_capabilities (\<lambda>c. cp_risk c = r) reg"

definition find_by_permission :: "capabilities \<Rightarrow> string \<Rightarrow> capability list" where
  "find_by_permission reg p = find_capabilities (\<lambda>c. p \<in> set (cp_permissions c)) reg"

definition find_by_min_risk :: "capabilities \<Rightarrow> risk_level \<Rightarrow> capability list" where
  "find_by_min_risk reg r = find_capabilities (\<lambda>c. risk_order r \<le> risk_order (cp_risk c)) reg"

definition registry_ok :: "capabilities \<Rightarrow> bool" where
  \<comment> \<open>every capability stands under its own identifier\<close>
  "registry_ok reg \<longleftrightarrow> dict_ok reg \<and> list_all (\<lambda>(i, c). cp_id c = i) reg"

lemma registry_ok_Nil [simp]: "registry_ok []"
  by (simp add: registry_ok_def dict_ok_def)

lemma registry_ok_register:
  assumes "registry_ok reg" and "register_capability reg c = Inr reg'"
  shows "registry_ok reg'"
proof -
  have "list_all (\<lambda>(i, c). cp_id c = i) (AList.update (cp_id c) c r)"
    if "list_all (\<lambda>(i, c). cp_id c = i) r" for r :: capabilities
    using that by (induction r) auto
  with assms show ?thesis
    by (auto simp: registry_ok_def register_capability_def dict_ok_def distinct_update split: if_splits)
qed

lemma get_capability_id: "registry_ok reg \<Longrightarrow> get_capability reg i = Some c \<Longrightarrow> cp_id c = i"
  by (auto simp: registry_ok_def get_capability_def list_all_iff dest: map_of_SomeD)

lemma from_spec_valid:
  assumes "capability_from_spec f opt = Inr c"
  shows "cp_id c = tf_id f \<and> (\<exists>i \<in> set valid_impacts. cp_impact c = Some i)
    \<and> (cp_requires_confirmation c \<longleftrightarrow> HIGH \<le> cp_risk c)
    \<and> (so_reversible opt = None \<longrightarrow> cp_reversible c = Some (\<not> cp_requires_confirmation c))"
  using assms
  by (cases "cp_risk c")
    (auto simp: capability_from_spec_def less_eq_risk_level_def resolved_reversible_def split: if_splits)

end
