(* ===== verification/Goals.thy ===== *)
theory Goals
  imports Capabilities "HOL-Library.Multiset"
begin

text \<open>
  Goals and their ranking, \<open>sentinel/core/goals.py\<close>: the registry with its index from intents to
  goals and its bounded audit log, the four ways in which \<open>find_candidates\<close> matches a target, and
  the scorer. Every operation of the registry holds its lock, so it is atomic. A goal is a mutable
  object that \<open>update\<close> changes in place; here the registry carries it, and an update that raises half-way keeps
  what it has already changed, as the code does. Scores are rationals; the attributes of an update
  have the declared types; the bound of the audit log is not negative.
\<close>

section \<open>Goals\<close>

record goal =
  gl_id :: string
  gl_name :: string
  gl_description :: string
  gl_intents :: "string list"
  gl_capabilities :: "string list"
  gl_priority :: int
  gl_risk :: risk_level
  gl_keywords :: "string list"
  gl_rules :: "(string \<times> rat) list"
  gl_enabled :: bool
  gl_created :: string
  gl_updated :: string

definition new_goal :: "goal \<Rightarrow> string \<Rightarrow> goal" where
  \<comment> \<open>\<open>__post_init__\<close>\<close>
  "new_goal g now =
     g\<lparr>gl_created := (if gl_created g = [] then now else gl_created g),
       gl_updated := (if gl_updated g = [] then now else gl_updated g)\<rparr>"

datatype audit_details =
    Registered int "string list" "string list"
  | Deleted string
  | Changed "string list"

record goal_audit =
  ga_time :: string
  ga_operation :: string
  ga_goal :: string
  ga_source :: string
  ga_details :: audit_details

record goals =
  gr_definitions :: "(string \<times> goal) list"
  gr_index :: "(string \<times> string list) list"
  gr_audit :: "goal_audit list"
  gr_max_audit :: nat

definition goals_new :: "nat \<Rightarrow> goals" where
  "goals_new n = \<lparr>gr_definitions = [], gr_index = [], gr_audit = [], gr_max_audit = n\<rparr>"

definition trim :: "nat \<Rightarrow> 'a list \<Rightarrow> 'a list" where
  \<comment> \<open>the loop that pops from the front while the list is too long\<close>
  "trim n xs = drop (length xs - n) xs"

definition set_max_audit :: "goals \<Rightarrow> nat \<Rightarrow> goals" where
  "set_max_audit r n = r\<lparr>gr_max_audit := n, gr_audit := trim n (gr_audit r)\<rparr>"

definition audit :: "goals \<Rightarrow> string \<Rightarrow> string \<Rightarrow> string \<Rightarrow> audit_details \<Rightarrow> string \<Rightarrow> goals" where
  "audit r operation i source details now =
     r\<lparr>gr_audit := trim (gr_max_audit r)
        (gr_audit r @ [\<lparr>ga_time = now, ga_operation = operation, ga_goal = i, ga_source = source,
                        ga_details = details\<rparr>])\<rparr>"


section \<open>The index\<close>

fun index_add :: "string \<Rightarrow> string list \<Rightarrow> (string \<times> string list) list \<Rightarrow> (string \<times> string list) list" where
  "index_add i [] idx = idx"
| "index_add i (t # ts) idx = index_add i ts (AList.update t (dict_get idx t [] @ [i]) idx)"

fun index_remove :: "string \<Rightarrow> string list \<Rightarrow> (string \<times> string list) list \<Rightarrow> (string \<times> string list) list" where
  "index_remove i [] idx = idx"
| "index_remove i (t # ts) idx =
     index_remove i ts
       (if i \<in> set (dict_get idx t []) then
          (if remove1 i (dict_get idx t []) = [] then AList.delete t idx
           else AList.update t (remove1 i (dict_get idx t [])) idx)
        else idx)"


section \<open>Operations\<close>

definition register_goal :: "goals \<Rightarrow> goal \<Rightarrow> string \<Rightarrow> string \<Rightarrow> goals \<times> unit result" where
  "register_goal r g source now =
     (if gl_id g \<in> set (keys (gr_definitions r))
      then (r, Inl (ValueError (''Goal '' @ quoted (gl_id g) @ '' already registered'')))
      else (audit (r\<lparr>gr_definitions := AList.update (gl_id g) g (gr_definitions r),
                     gr_index := index_add (gl_id g) (gl_intents g) (gr_index r)\<rparr>)
              ''REGISTER'' (gl_id g) source (Registered (gl_priority g) (gl_intents g) (gl_capabilities g)) now,
            Inr ()))"

definition unregister_goal :: "goals \<Rightarrow> string \<Rightarrow> string \<Rightarrow> string \<Rightarrow> goals \<times> unit result" where
  "unregister_goal r i source now =
     (case map_of (gr_definitions r) i of
        None \<Rightarrow> (r, Inl (KeyError (''Goal '' @ quoted i @ '' not found'')))
      | Some g \<Rightarrow>
          (audit (r\<lparr>gr_definitions := AList.delete i (gr_definitions r),
                    gr_index := index_remove i (gl_intents g) (gr_index r)\<rparr>) ''DELETE'' i source (Deleted i) now,
           Inr ()))"

text \<open>An entry of \<open>changes\<close>: an allowed field with its value, or a field that may not be updated.\<close>

datatype goal_change =
    Name string | Description string | Related_Intents "string list" | Possible_Capabilities "string list"
  | Priority int | Base_Risk risk_level | Keywords "string list" | Enabled bool | Context_Rules "(string \<times> rat) list"
  | Other_Field string

fun field_name :: "goal_change \<Rightarrow> string" where
  "field_name (Name _) = ''name''"
| "field_name (Description _) = ''description''"
| "field_name (Related_Intents _) = ''related_intents''"
| "field_name (Possible_Capabilities _) = ''possible_capabilities''"
| "field_name (Priority _) = ''priority''"
| "field_name (Base_Risk _) = ''base_risk''"
| "field_name (Keywords _) = ''keywords''"
| "field_name (Enabled _) = ''enabled''"
| "field_name (Context_Rules _) = ''context_rules''"
| "field_name (Other_Field f) = f"

fun set_field :: "goal_change \<Rightarrow> goal \<Rightarrow> goal" where
  "set_field (Name v) g = g\<lparr>gl_name := v\<rparr>"
| "set_field (Description v) g = g\<lparr>gl_description := v\<rparr>"
| "set_field (Related_Intents v) g = g\<lparr>gl_intents := v\<rparr>"
| "set_field (Possible_Capabilities v) g = g\<lparr>gl_capabilities := v\<rparr>"
| "set_field (Priority v) g = g\<lparr>gl_priority := v\<rparr>"
| "set_field (Base_Risk v) g = g\<lparr>gl_risk := v\<rparr>"
| "set_field (Keywords v) g = g\<lparr>gl_keywords := v\<rparr>"
| "set_field (Enabled v) g = g\<lparr>gl_enabled := v\<rparr>"
| "set_field (Context_Rules v) g = g\<lparr>gl_rules := v\<rparr>"
| "set_field (Other_Field f) g = g"

definition store_goal :: "goals \<Rightarrow> string \<Rightarrow> (goal \<Rightarrow> goal) \<Rightarrow> goals" where
  \<comment> \<open>an assignment to the attributes of a registered goal\<close>
  "store_goal r i f =
     (case map_of (gr_definitions r) i of
        None \<Rightarrow> r
      | Some g \<Rightarrow> r\<lparr>gr_definitions := AList.update i (f g) (gr_definitions r)\<rparr>)"

definition move_intents :: "goals \<Rightarrow> string \<Rightarrow> string list \<Rightarrow> goal_change \<Rightarrow> goals" where
  "move_intents r i old c =
     (case c of
        Related_Intents v \<Rightarrow> r\<lparr>gr_index := index_add i v (index_remove i old (gr_index r))\<rparr>
      | _ \<Rightarrow> r)"

fun apply_changes :: "string \<Rightarrow> string list \<Rightarrow> goal_change list \<Rightarrow> goals \<Rightarrow> goals \<times> unit result" where
  "apply_changes i old [] r = (r, Inr ())"
| "apply_changes i old (c # cs) r =
     (case c of
        Other_Field f \<Rightarrow> (r, Inl (ValueError (''Field '' @ quoted f @ '' is not allowed for update'')))
      | _ \<Rightarrow> apply_changes i old cs (store_goal (move_intents r i old c) i (set_field c)))"

definition update_goal :: "goals \<Rightarrow> string \<Rightarrow> goal_change list \<Rightarrow> string \<Rightarrow> string \<Rightarrow> goals \<times> goal result" where
  "update_goal r i changes source now =
     (case map_of (gr_definitions r) i of
        None \<Rightarrow> (r, Inl (KeyError (''Goal '' @ quoted i @ '' not found'')))
      | Some g \<Rightarrow>
          (case apply_changes i (gl_intents g) changes r of
             (r', Inl e) \<Rightarrow> (r', Inl e)
           | (r', Inr _) \<Rightarrow>
               (let r'' = audit (store_goal r' i (\<lambda>g. g\<lparr>gl_updated := now\<rparr>)) ''UPDATE'' i source
                            (Changed (map field_name changes)) now
                in (r'', Inr (the (map_of (gr_definitions r'') i))))))"

definition get_goal :: "goals \<Rightarrow> string \<Rightarrow> goal option" where
  "get_goal r i = map_of (gr_definitions r) i"

definition find_by_intent :: "goals \<Rightarrow> string \<Rightarrow> goal list" where
  "find_by_intent r t = List.map_filter (map_of (gr_definitions r)) (dict_get (gr_index r) t [])"

definition clear_goals :: "goals \<Rightarrow> goals" where
  \<comment> \<open>the audit log stays\<close>
  "clear_goals r = r\<lparr>gr_definitions := [], gr_index := []\<rparr>"


section \<open>Matching\<close>

definition goal_stopwords :: "string list" where
  "goal_stopwords = [''system'', ''executor'', ''scheduler'', ''manage'']"

fun split_words :: "string \<Rightarrow> string \<Rightarrow> string list" where
  \<comment> \<open>\<open>s.split()\<close>, with the word read so far\<close>
  "split_words w [] = (if w = [] then [] else [w])"
| "split_words w (c # cs) =
     (if is_space c then (if w = [] then [] else [w]) @ split_words [] cs else split_words (w @ [c]) cs)"

definition name_tokens :: "string \<Rightarrow> string list" where
  \<comment> \<open>the set of words between dots, underscores and white space\<close>
  "name_tokens s = remdups (split_words [] (map (\<lambda>c. if c \<in> {CHR ''.'', CHR ''_''} then CHR '' '' else c) s))"

definition token_similarity :: "string \<Rightarrow> string \<Rightarrow> rat" where
  "token_similarity a b =
     (let ta = name_tokens a; tb = name_tokens b; common = filter (\<lambda>t. t \<in> set tb) ta in
      if ta = [] \<or> tb = [] then 0
      else if filter (\<lambda>t. t \<notin> set goal_stopwords) common = [] then 0
      else of_nat (length common) / of_nat (length (remdups (ta @ tb))))"

record goal_match =
  gm_goal :: goal
  gm_confidence :: rat
  gm_type :: string
  gm_by :: string

definition search_by_intent :: "goals \<Rightarrow> string \<Rightarrow> rat \<Rightarrow> goal list" where
  "search_by_intent r t threshold =
     filter (\<lambda>g. list_ex (\<lambda>ref. threshold \<le> token_similarity t ref) (gl_intents g)) (map snd (gr_definitions r))"

definition exact_match :: "string \<Rightarrow> goal \<Rightarrow> goal_match" where
  "exact_match t g = \<lparr>gm_goal = g, gm_confidence = 1, gm_type = ''exact'', gm_by = t\<rparr>"

definition fuzzy_match :: "string \<Rightarrow> goal \<Rightarrow> goal_match option" where
  "fuzzy_match t g =
     map_option (\<lambda>ref. \<lparr>gm_goal = g, gm_confidence = py_round 2 (min (5/10 + token_similarity t ref * (4/10)) (95/100)),
                        gm_type = ''fuzzy_intent'', gm_by = ref\<rparr>)
       (find (\<lambda>ref. 3/10 \<le> token_similarity t ref) (gl_intents g))"

definition capability_match :: "string \<Rightarrow> goal \<Rightarrow> goal_match option" where
  "capability_match t g =
     map_option (\<lambda>cap. \<lparr>gm_goal = g, gm_confidence = py_round 2 (min (4/10 + token_similarity t cap * (4/10)) (85/100)),
                        gm_type = ''capability'', gm_by = cap\<rparr>)
       (find (\<lambda>cap. t \<noteq> cap \<and> 3/10 \<le> token_similarity t cap) (gl_capabilities g))"

definition content_tokens :: "string \<Rightarrow> string list" where
  "content_tokens s = filter (\<lambda>w. w \<notin> set goal_stopwords) (name_tokens (lower s))"

definition keyword_match :: "string \<Rightarrow> goal \<Rightarrow> goal_match option" where
  "keyword_match t g =
     (let overlap = filter (\<lambda>w. w \<in> set (content_tokens (gl_name g @ '' '' @ gl_description g @ '' ''
                                               @ join '' '' (gl_keywords g)))) (content_tokens t)
      in if overlap = [] then None
         else Some \<lparr>gm_goal = g, gm_confidence = 4/10, gm_type = ''keyword'',
                    gm_by = join '', '' (py_sorted overlap)\<rparr>)"

fun match_pass :: "(goal \<Rightarrow> goal_match option) \<Rightarrow> goal list \<Rightarrow> goal_match list \<times> string list
    \<Rightarrow> goal_match list \<times> string list" where
  \<comment> \<open>one pass over the goals that are not yet among the results\<close>
  "match_pass f [] acc = acc"
| "match_pass f (g # gs) (res, seen) =
     (if gl_id g \<in> set seen then match_pass f gs (res, seen)
      else (case f g of
              None \<Rightarrow> match_pass f gs (res, seen)
            | Some m \<Rightarrow> match_pass f gs (res @ [m], gl_id g # seen)))"

definition exact_pass :: "goals \<Rightarrow> string \<Rightarrow> goal_match list \<times> string list" where
  "exact_pass r t =
     (let ids = filter (\<lambda>i. i \<in> set (keys (gr_definitions r))) (dict_get (gr_index r) t [])
      in (map (\<lambda>i. exact_match t (the (map_of (gr_definitions r) i))) ids, ids))"

definition find_candidates :: "goals \<Rightarrow> string \<Rightarrow> goal_match list" where
  "find_candidates r t =
     (let gs = map snd (gr_definitions r)
      in fst (match_pass (keyword_match t) gs
               (match_pass (capability_match t) gs
                 (match_pass (fuzzy_match t) gs (exact_pass r t)))))"


section \<open>Scoring\<close>

text \<open>The entries of the context that the scorer reads.\<close>

record usage =
  us_cpu :: "rat option"
  us_memory :: "rat option"
  us_disk :: "rat option"

definition no_usage :: usage where
  "no_usage = \<lparr>us_cpu = None, us_memory = None, us_disk = None\<rparr>"

record scorer_config =
  sg_min_confidence :: rat
  sg_confidence_weight :: rat
  sg_priority_weight :: rat
  sg_context_weight :: rat

definition scorer_defaults :: scorer_config where
  "scorer_defaults =
     \<lparr>sg_min_confidence = 3/10, sg_confidence_weight = 6/10, sg_priority_weight = 2/10, sg_context_weight = 2/10\<rparr>"

record scored_goal =
  sc_result :: goal_match
  sc_score :: rat
  sc_reasons :: "string list"

definition over :: "rat option \<Rightarrow> rat \<Rightarrow> rat \<Rightarrow> bool" where
  "over v d limit \<longleftrightarrow> limit < (case v of None \<Rightarrow> d | Some x \<Rightarrow> x)"

definition context_bonus :: "'a usage_scheme \<Rightarrow> goal \<Rightarrow> rat" where
  "context_bonus u g =
     (if gl_rules g = [] then 0
      else min ((if over (us_cpu u) 50 80 then dict_get (gl_rules g) ''cpu_high'' 0 else 0)
                + (if over (us_memory u) 50 80 then dict_get (gl_rules g) ''mem_high'' 0 else 0)
                + (if over (us_disk u) 50 85 then dict_get (gl_rules g) ''disk_high'' 0 else 0)) 1)"

definition score_reasons :: "'a usage_scheme \<Rightarrow> goal_match \<Rightarrow> string list" where
  "score_reasons u m =
     [gm_type m @ ''_via_'' @ gm_by m]
     @ (if over (us_cpu u) 0 80 then [''high_cpu_context''] else [])
     @ (if over (us_memory u) 0 80 then [''high_memory_context''] else [])
     @ (if over (us_disk u) 0 85 then [''high_disk_context''] else [])"

definition score_goal :: "'a usage_scheme \<Rightarrow> scorer_config \<Rightarrow> goal_match \<Rightarrow> scored_goal" where
  "score_goal u cfg m =
     \<lparr>sc_result = m,
      sc_score = py_round 4 (gm_confidence m * sg_confidence_weight cfg
                   + of_int (gl_priority (gm_goal m)) / 10 * sg_priority_weight cfg
                   + context_bonus u (gm_goal m) * sg_context_weight cfg),
      sc_reasons = score_reasons u m\<rparr>"

definition rank_goals :: "'a usage_scheme \<Rightarrow> scorer_config \<Rightarrow> goal_match list \<Rightarrow> scored_goal list" where
  \<comment> \<open>the sort with \<open>reverse=True\<close> keeps the order of equal scores\<close>
  "rank_goals u cfg ms =
     sort_key (\<lambda>s. - sc_score s) (map (score_goal u cfg) (filter (\<lambda>m. sg_min_confidence cfg \<le> gm_confidence m) ms))"

definition default_goals :: "goal list" where
  "default_goals =
     (let goal = \<lambda>i n d ints caps p rules.
            \<lparr>gl_id = i, gl_name = n, gl_description = d, gl_intents = ints, gl_capabilities = caps, gl_priority = p,
             gl_risk = LOW, gl_keywords = [], gl_rules = rules, gl_enabled = True, gl_created = [], gl_updated = []\<rparr>
      in [goal ''system_health_diagnosis'' ''System Health Diagnosis'' ''Analyze overall system health and performance''
            [''system.health''] [''system.cpu'', ''system.info'', ''system.processes''] 8
            [(''cpu_high'', 3/10), (''mem_high'', 3/10), (''disk_high'', 3/10)],
          goal ''disk_space_cleanup'' ''Disk Space Cleanup''
            ''Identify and free disk space by analyzing storage usage''
            [''system.disk''] [''system.info''] 5 [(''disk_high'', 1)],
          goal ''network_diagnosis'' ''Network Diagnosis''
            ''Troubleshoot network connectivity and performance issues''
            [''system.network''] [''system.info'', ''system.processes''] 6 [],
          goal ''performance_tuning'' ''Performance Tuning''
            ''Optimize system performance by analyzing resource usage''
            [''system.cpu'', ''system.processes'', ''system.memory'']
            [''system.cpu'', ''system.info'', ''system.processes''] 7
            [(''cpu_high'', 5/10), (''mem_high'', 5/10)]])"

definition default_registry :: "nat \<Rightarrow> string \<Rightarrow> goals" where
  \<comment> \<open>\<open>create_default_goal_registry\<close>\<close>
  "default_registry n now =
     fold (\<lambda>g r. fst (register_goal r (new_goal g now) ''system'' now)) default_goals (goals_new n)"


section \<open>The index is exact\<close>

definition index_of :: "goals \<Rightarrow> string \<Rightarrow> string \<Rightarrow> nat" where
  \<comment> \<open>how often a goal stands under an intent\<close>
  "index_of r t i = count_list (dict_get (gr_index r) t []) i"

definition relates :: "goals \<Rightarrow> string \<Rightarrow> string \<Rightarrow> nat" where
  "relates r t i = (case map_of (gr_definitions r) i of None \<Rightarrow> 0 | Some g \<Rightarrow> count_list (gl_intents g) t)"

definition goals_ok :: "goals \<Rightarrow> bool" where
  "goals_ok r \<longleftrightarrow> dict_ok (gr_definitions r) \<and> (\<forall>t i. index_of r t i = relates r t i)
     \<and> (\<forall>i g. map_of (gr_definitions r) i = Some g \<longrightarrow> gl_id g = i) \<and> length (gr_audit r) \<le> gr_max_audit r"

lemma index_add_count:
  "count_list (dict_get (index_add i ts idx) t []) j
     = count_list (dict_get idx t []) j + (if j = i then count_list ts t else 0)"
  by (induction ts arbitrary: idx) auto

lemma count_list_remove1: "count_list (remove1 x xs) y = (if x = y then count_list xs y - 1 else count_list xs y)"
  by (induction xs) auto

lemma index_remove_count:
  "count_list (dict_get (index_remove i ts idx) t []) j
     = (if j = i then count_list (dict_get idx t []) j - count_list ts t else count_list (dict_get idx t []) j)"
proof (induction ts arbitrary: idx)
  case (Cons u ts)
  let ?idx = "if i \<in> set (dict_get idx u []) then
          (if remove1 i (dict_get idx u []) = [] then AList.delete u idx
           else AList.update u (remove1 i (dict_get idx u [])) idx)
        else idx"
  have "count_list (dict_get ?idx t []) j
      = (if j = i \<and> t = u then count_list (dict_get idx t []) j - 1 else count_list (dict_get idx t []) j)" for j
  proof (cases "i \<in> set (dict_get idx u [])")
    case True
    then have "remove1 i (dict_get idx u []) = [] \<Longrightarrow> count_list (dict_get idx u []) j = (if j = i then 1 else 0)"
      by (cases "dict_get idx u []") (auto split: if_splits)
    with True show ?thesis by (auto simp: count_list_remove1)
  next
    case False
    then show ?thesis by (auto simp: count_notin)
  qed
  then show ?case using Cons.IH [of ?idx] by (auto simp del: if_split_asm)
qed simp

lemma length_trim [simp]: "length (trim n xs) = min n (length xs)"
  by (simp add: trim_def min_def)

lemma audit_ok [simp]: "goals_ok (audit r op i source details now) \<longleftrightarrow>
    dict_ok (gr_definitions r) \<and> (\<forall>t i. index_of r t i = relates r t i)
     \<and> (\<forall>i g. map_of (gr_definitions r) i = Some g \<longrightarrow> gl_id g = i)"
  by (simp add: goals_ok_def audit_def index_of_def relates_def)

lemma audit_keeps_ok: "goals_ok r \<Longrightarrow> goals_ok (audit r op i source details now)"
  by (simp add: goals_ok_def [of r])

lemma store_goal_ok:
  assumes "goals_ok r" and "\<And>g. gl_id (f g) = gl_id g" and "\<And>g. gl_intents (f g) = gl_intents g"
  shows "goals_ok (store_goal r i f)"
  using assms
  by (auto simp: store_goal_def goals_ok_def index_of_def relates_def update_conv' split: option.splits)

lemma set_field_id [simp]: "gl_id (set_field c g) = gl_id g"
  by (cases c) simp_all

lemma register_goal_ok:
  assumes "goals_ok r"
  shows "goals_ok (fst (register_goal r g source now))"
proof (cases "map_of (gr_definitions r) (gl_id g)")
  case None
  then have "gl_id g \<notin> set (keys (gr_definitions r))" by (simp add: map_of_eq_None_iff)
  with None assms show ?thesis
    by (auto simp: register_goal_def goals_ok_def [of r] index_of_def relates_def index_add_count update_conv'
        split: option.splits)
next
  case (Some h)
  then have "gl_id g \<in> set (keys (gr_definitions r))" by (metis domI dom_map_of_conv_image_fst set_map)
  with assms show ?thesis by (simp add: register_goal_def)
qed

lemma unregister_goal_ok: "goals_ok r \<Longrightarrow> goals_ok (fst (unregister_goal r i source now))"
  by (auto simp: unregister_goal_def goals_ok_def [of r] index_of_def relates_def index_remove_count delete_conv'
      split: option.splits)

text \<open>Within an update the index already follows the new intents while the old ones are still remembered.\<close>

definition follows :: "string \<Rightarrow> string list \<Rightarrow> goal_change list \<Rightarrow> goals \<Rightarrow> bool" where
  "follows i old cs r \<longleftrightarrow>
     (\<exists>g. map_of (gr_definitions r) i = Some g
        \<and> (gl_intents g = old \<or> ''related_intents'' \<notin> set (map field_name cs)))"

lemma apply_change_ok:
  assumes "goals_ok r" and "follows i old (c # cs) r" and "distinct (map field_name (c # cs))"
  shows "goals_ok (store_goal (move_intents r i old c) i (set_field c))
    \<and> follows i old cs (store_goal (move_intents r i old c) i (set_field c))"
proof -
  from assms(2) obtain g where g: "map_of (gr_definitions r) i = Some g"
    "gl_intents g = old \<or> ''related_intents'' \<notin> set (map field_name (c # cs))"
    by (auto simp: follows_def)
  show ?thesis
  proof (cases c)
    case (Related_Intents v)
    with g assms(3) have "gl_intents g = old" "''related_intents'' \<notin> set (map field_name cs)" by auto
    with g Related_Intents assms(1) show ?thesis
      by (auto simp: store_goal_def move_intents_def follows_def goals_ok_def index_of_def relates_def
          index_add_count index_remove_count update_conv' split: option.splits)
  qed (use g assms(1) in \<open>auto simp: store_goal_def move_intents_def follows_def goals_ok_def index_of_def
      relates_def update_conv' split: option.splits\<close>)
qed

lemma apply_changes_ok:
  "goals_ok r \<Longrightarrow> follows i old cs r \<Longrightarrow> distinct (map field_name cs)
    \<Longrightarrow> goals_ok (fst (apply_changes i old cs r))"
proof (induction cs arbitrary: r)
  case (Cons c cs)
  from apply_change_ok [OF Cons.prems] Cons.IH Cons.prems show ?case by (cases c) simp_all
qed simp

lemma update_goal_ok:
  assumes "goals_ok r" and "distinct (map field_name cs)"
  shows "goals_ok (fst (update_goal r i cs source now))"
proof (cases "map_of (gr_definitions r) i")
  case (Some g)
  let ?a = "apply_changes i (gl_intents g) cs r"
  have ok: "goals_ok (fst ?a)"
    using assms Some by (intro apply_changes_ok) (auto simp: follows_def)
  then have "goals_ok (audit (store_goal (fst ?a) i (\<lambda>g. g\<lparr>gl_updated := now\<rparr>)) op i source d now)" for op d
    by (intro audit_keeps_ok store_goal_ok) simp_all
  with ok Some show ?thesis
    by (auto simp: update_goal_def Let_def split: prod.splits sum.splits)
qed (use assms in \<open>simp add: update_goal_def\<close>)

datatype goals_op =
    Register goal string string
  | Unregister string string string
  | Update string "goal_change list" string string
  | Clear
  | Set_Max nat

fun goals_step :: "goals \<Rightarrow> goals_op \<Rightarrow> goals" where
  "goals_step r (Register g source now) = fst (register_goal r (new_goal g now) source now)"
| "goals_step r (Unregister i source now) = fst (unregister_goal r i source now)"
| "goals_step r (Update i cs source now) = fst (update_goal r i cs source now)"
| "goals_step r Clear = clear_goals r"
| "goals_step r (Set_Max n) = set_max_audit r n"

fun keyed :: "goals_op \<Rightarrow> bool" where
  \<comment> \<open>the changes of an update are a dictionary\<close>
  "keyed (Update i cs source now) = distinct (map field_name cs)"
| "keyed _ = True"

lemma goals_step_ok: "goals_ok r \<Longrightarrow> keyed op \<Longrightarrow> goals_ok (goals_step r op)"
proof (cases op)
  case Clear
  then show "goals_ok r \<Longrightarrow> keyed op \<Longrightarrow> goals_ok (goals_step r op)"
    by (simp add: clear_goals_def goals_ok_def index_of_def relates_def)
next
  case (Set_Max n)
  then show "goals_ok r \<Longrightarrow> keyed op \<Longrightarrow> goals_ok (goals_step r op)"
    by (simp add: set_max_audit_def goals_ok_def index_of_def relates_def)
qed (simp_all add: register_goal_ok unregister_goal_ok update_goal_ok)

lemma goals_run_ok: "list_all keyed ops \<Longrightarrow> goals_ok r \<Longrightarrow> goals_ok (foldl goals_step r ops)"
  by (induction ops arbitrary: r) (simp_all add: goals_step_ok)

lemma goals_new_ok: "goals_ok (goals_new n)"
  by (simp add: goals_ok_def goals_new_def index_of_def relates_def)

lemma map_filter_set: "set (List.map_filter f xs) = {y. \<exists>x \<in> set xs. f x = Some y}"
  by (induction xs) (auto simp: List.map_filter_simps split: option.splits)

lemma count_pos: "0 < count_list xs x \<longleftrightarrow> x \<in> set xs"
  by (induction xs) auto

lemma find_by_intent_set:
  assumes "goals_ok r"
  shows "set (find_by_intent r t) = {g. g \<in> snd ` set (gr_definitions r) \<and> t \<in> set (gl_intents g)}"
proof -
  have "i \<in> set (dict_get (gr_index r) t []) \<longleftrightarrow>
      (\<exists>g. map_of (gr_definitions r) i = Some g \<and> t \<in> set (gl_intents g))" for i
    using assms unfolding count_pos [symmetric]
    by (auto simp: goals_ok_def index_of_def relates_def split: option.splits)
  moreover have "g \<in> snd ` set (gr_definitions r) \<longleftrightarrow> (\<exists>i. map_of (gr_definitions r) i = Some g)" for g
    using assms by (force simp: goals_ok_def dict_ok_def)
  ultimately show ?thesis by (auto simp: find_by_intent_def map_filter_set)
qed


text \<open>The goal index is exact: after any sequence of registrations, removals, updates (the refused ones
  included), clears and changes of the audit bound, an intent finds exactly the registered goals that list
  it, and the audit log is within its bound.\<close>

theorem goal_index_exact:
  assumes "list_all keyed ops" and "r = foldl goals_step (goals_new n) ops"
  shows "set (find_by_intent r t) = {g. g \<in> snd ` set (gr_definitions r) \<and> t \<in> set (gl_intents g)}
    \<and> length (gr_audit r) \<le> gr_max_audit r"
proof -
  have "goals_ok r" unfolding assms(2) by (rule goals_run_ok [OF assms(1) goals_new_ok])
  then show ?thesis using find_by_intent_set [of r t] by (simp add: goals_ok_def)
qed

definition demo_goal :: "string \<Rightarrow> string list \<Rightarrow> bool \<Rightarrow> goal" where
  "demo_goal i ts e =
     \<lparr>gl_id = i, gl_name = i, gl_description = [], gl_intents = ts, gl_capabilities = [], gl_priority = 1,
      gl_risk = LOW, gl_keywords = [], gl_rules = [], gl_enabled = e, gl_created = ''t'', gl_updated = ''t''\<rparr>"

definition demo_changes :: "goals_op list" where
  "demo_changes =
     [Register (demo_goal ''g'' [''a.b''] True) ''u'' ''t'',
      Update ''g'' [Related_Intents [''c.d''], Other_Field ''id'', Name ''n''] ''u'' ''t2'']"

theorem goal_index_exact_witness:
  "set (find_by_intent (foldl goals_step (goals_new 5) demo_changes) ''c.d'')
     = {g. g \<in> snd ` set (gr_definitions (foldl goals_step (goals_new 5) demo_changes))
          \<and> ''c.d'' \<in> set (gl_intents g)}
   \<and> length (gr_audit (foldl goals_step (goals_new 5) demo_changes))
       \<le> gr_max_audit (foldl goals_step (goals_new 5) demo_changes)"
  by (rule goal_index_exact [OF _ refl]) (simp add: demo_changes_def)

text \<open>An update that is refused has happened in part: the fields before the one that may not be updated
  are changed and stay changed, with the index, and the audit log has no entry of it.\<close>

theorem refused_update_sticks:
  "is_err (snd (update_goal (foldl goals_step (goals_new 5) (take 1 demo_changes)) ''g''
       [Related_Intents [''c.d''], Other_Field ''id'', Name ''n''] ''u'' ''t2''))
   \<and> map_option gl_intents (get_goal (foldl goals_step (goals_new 5) demo_changes) ''g'') = Some [''c.d'']
   \<and> map ga_operation (gr_audit (foldl goals_step (goals_new 5) demo_changes)) = [''REGISTER'']"
  by code_simp

text \<open>The flag \<open>enabled\<close> is not looked at: a disabled goal is found like any other.\<close>

theorem disabled_goal_found:
  "map (\<lambda>m. gl_id (gm_goal m))
     (find_candidates (fst (register_goal (goals_new 5) (demo_goal ''g'' [''a.b''] False) ''u'' ''t'')) ''a.b'')
   = [''g'']"
  by code_simp


section \<open>Candidates\<close>

abbreviation match_id :: "goal_match \<Rightarrow> string" where
  "match_id m \<equiv> gl_id (gm_goal m)"

definition matches_goals :: "goals \<Rightarrow> goal_match list \<times> string list \<Rightarrow> bool" where
  "matches_goals r acc \<longleftrightarrow> distinct (map match_id (fst acc)) \<and> set (map match_id (fst acc)) = set (snd acc)
     \<and> (\<forall>m \<in> set (fst acc). gm_goal m \<in> snd ` set (gr_definitions r))"

lemma match_pass_goals:
  assumes "\<And>g m. f g = Some m \<Longrightarrow> gm_goal m = g" and "set gs \<subseteq> snd ` set (gr_definitions r)"
    and "matches_goals r acc"
  shows "matches_goals r (match_pass f gs acc)"
  using assms(2,3)
proof (induction gs arbitrary: acc)
  case (Cons g gs)
  obtain res seen where acc: "acc = (res, seen)" by (cases acc)
  show ?case
  proof (cases "gl_id g \<in> set seen \<or> f g = None")
    case True
    with Cons acc show ?thesis by auto
  next
    case False
    then obtain m where m: "f g = Some m" by blast
    then have "matches_goals r (res @ [m], gl_id g # seen)"
      using Cons.prems False assms(1) [OF m] unfolding matches_goals_def acc by auto
    with Cons m False acc show ?thesis by simp
  qed
qed simp

lemma match_pass_keeps: "\<exists>ys. fst (match_pass f gs acc) = fst acc @ ys \<and> (\<forall>m \<in> set ys. \<exists>g. f g = Some m)"
proof (induction gs arbitrary: acc)
  case (Cons g gs)
  obtain res seen where acc: "acc = (res, seen)" by (cases acc)
  show ?case
  proof (cases "gl_id g \<in> set seen \<or> f g = None")
    case True
    with Cons.IH [of acc] acc show ?thesis by auto
  next
    case False
    then obtain m where m: "f g = Some m" by blast
    from Cons.IH [of "(res @ [m], gl_id g # seen)"] obtain ys where
      "fst (match_pass f gs (res @ [m], gl_id g # seen)) = (res @ [m]) @ ys" "\<forall>m \<in> set ys. \<exists>g. f g = Some m"
      by auto
    with False m acc show ?thesis by (intro exI [of _ "m # ys"]) auto
  qed
qed simp

lemma distinct_count: "distinct xs \<longleftrightarrow> (\<forall>x. count_list xs x \<le> 1)"
proof (induction xs)
  case (Cons a xs)
  have "(\<forall>x. count_list (a # xs) x \<le> 1) \<longleftrightarrow> count_list xs a = 0 \<and> (\<forall>x. count_list xs x \<le> 1)"
    by (auto simp: le_Suc_eq)
  with Cons.IH show ?case by (simp add: count_list_0_iff)
qed simp

lemma exact_pass_ids:
  assumes "goals_ok r"
  shows "filter (\<lambda>i. i \<in> set (keys (gr_definitions r))) (dict_get (gr_index r) t []) = dict_get (gr_index r) t []"
    and "i \<in> set (dict_get (gr_index r) t [])
      \<longleftrightarrow> (\<exists>g. map_of (gr_definitions r) i = Some g \<and> t \<in> set (gl_intents g))"
proof -
  show *: "i \<in> set (dict_get (gr_index r) t [])
      \<longleftrightarrow> (\<exists>g. map_of (gr_definitions r) i = Some g \<and> t \<in> set (gl_intents g))" for i
    using assms unfolding count_pos [symmetric]
    by (auto simp: goals_ok_def index_of_def relates_def split: option.splits)
  have "i \<in> set (keys (gr_definitions r))" if "i \<in> set (dict_get (gr_index r) t [])" for i
    using that unfolding * by (metis domI dom_map_of_conv_image_fst set_map)
  then show "filter (\<lambda>i. i \<in> set (keys (gr_definitions r))) (dict_get (gr_index r) t []) = dict_get (gr_index r) t []"
    by (auto intro: filter_True)
qed

lemma exact_pass_distinct:
  assumes "goals_ok r" and "list_all (\<lambda>(i, g). distinct (gl_intents g)) (gr_definitions r)"
  shows "distinct (dict_get (gr_index r) t [])"
proof -
  have "count_list (dict_get (gr_index r) t []) i \<le> 1" for i
  proof (cases "map_of (gr_definitions r) i")
    case (Some g)
    with assms(2) have "distinct (gl_intents g)" by (auto simp: list_all_iff dest!: map_of_SomeD)
    with Some assms(1) show ?thesis by (simp add: goals_ok_def index_of_def relates_def distinct_count)
  qed (use assms(1) in \<open>simp add: goals_ok_def index_of_def relates_def\<close>)
  then show ?thesis unfolding distinct_count by blast
qed

lemma exact_pass_eq:
  assumes "goals_ok r"
  shows "exact_pass r t = (map (\<lambda>i. exact_match t (the (map_of (gr_definitions r) i))) (dict_get (gr_index r) t []),
    dict_get (gr_index r) t [])"
  unfolding exact_pass_def Let_def exact_pass_ids(1) [OF assms] ..

lemma exact_pass_goals:
  assumes "goals_ok r" and "list_all (\<lambda>(i, g). distinct (gl_intents g)) (gr_definitions r)"
  shows "matches_goals r (exact_pass r t)"
proof -
  have "match_id (exact_match t (the (map_of (gr_definitions r) i))) = i
      \<and> the (map_of (gr_definitions r) i) \<in> snd ` set (gr_definitions r)"
    if "i \<in> set (dict_get (gr_index r) t [])" for i
    using that assms(1) unfolding exact_pass_ids(2) [OF assms(1)]
    by (force simp: exact_match_def goals_ok_def dest: map_of_SomeD)
  then have "map match_id (fst (exact_pass r t)) = dict_get (gr_index r) t []"
    "\<forall>m \<in> set (fst (exact_pass r t)). gm_goal m \<in> snd ` set (gr_definitions r)"
    by (auto simp: exact_pass_eq [OF assms(1)] exact_match_def intro!: map_idI)
  then show ?thesis
    using exact_pass_distinct [OF assms] by (simp add: matches_goals_def exact_pass_eq [OF assms(1)] del: set_map map_map)
qed

lemma match_type:
  "fuzzy_match t g = Some m \<Longrightarrow> gm_goal m = g \<and> gm_type m \<noteq> ''exact''"
  "capability_match t g = Some m \<Longrightarrow> gm_goal m = g \<and> gm_type m \<noteq> ''exact''"
  "keyword_match t g = Some m \<Longrightarrow> gm_goal m = g \<and> gm_type m \<noteq> ''exact''"
  by (auto simp: fuzzy_match_def capability_match_def keyword_match_def Let_def split: if_splits)

lemma find_candidates_shape:
  "\<exists>ys. find_candidates r t = fst (exact_pass r t) @ ys \<and> (\<forall>m \<in> set ys. gm_type m \<noteq> ''exact'')"
proof -
  let ?gs = "map snd (gr_definitions r)"
  obtain a where a: "fst (match_pass (fuzzy_match t) ?gs (exact_pass r t)) = fst (exact_pass r t) @ a"
    "\<forall>m \<in> set a. \<exists>g. fuzzy_match t g = Some m" using match_pass_keeps by blast
  let ?p = "match_pass (fuzzy_match t) ?gs (exact_pass r t)"
  obtain b where b: "fst (match_pass (capability_match t) ?gs ?p) = fst ?p @ b"
    "\<forall>m \<in> set b. \<exists>g. capability_match t g = Some m" using match_pass_keeps by blast
  let ?q = "match_pass (capability_match t) ?gs ?p"
  obtain c where c: "fst (match_pass (keyword_match t) ?gs ?q) = fst ?q @ c"
    "\<forall>m \<in> set c. \<exists>g. keyword_match t g = Some m" using match_pass_keeps by blast
  show ?thesis
    unfolding find_candidates_def Let_def
    by (rule exI [of _ "a @ b @ c"]) (use a b c match_type in \<open>auto\<close>)
qed

lemma map_the: "\<forall>i \<in> set xs. \<exists>g. m i = Some g \<Longrightarrow> map (\<lambda>i. f (the (m i))) xs = map f (List.map_filter m xs)"
  by (induction xs) (auto simp: List.map_filter_simps)

text \<open>The candidates for a target are registered goals, each at most once, and the exact matches come
  first: they are the goals that list the target among their intents.\<close>

theorem candidates_exact_first:
  assumes "list_all keyed ops" and "r = foldl goals_step (goals_new n) ops"
    and "list_all (\<lambda>(i, g). distinct (gl_intents g)) (gr_definitions r)"
  shows "distinct (map match_id (find_candidates r t))
    \<and> (\<forall>m \<in> set (find_candidates r t). gm_goal m \<in> snd ` set (gr_definitions r))
    \<and> takeWhile (\<lambda>m. gm_type m = ''exact'') (find_candidates r t)
        = map (exact_match t) (find_by_intent r t)"
proof -
  have ok: "goals_ok r" unfolding assms(2) by (rule goals_run_ok [OF assms(1) goals_new_ok])
  have sub: "set (map snd (gr_definitions r)) \<subseteq> snd ` set (gr_definitions r)" by simp
  have "matches_goals r (match_pass (keyword_match t) (map snd (gr_definitions r))
     (match_pass (capability_match t) (map snd (gr_definitions r))
       (match_pass (fuzzy_match t) (map snd (gr_definitions r)) (exact_pass r t))))"
    by (intro match_pass_goals exact_pass_goals [OF ok assms(3)] sub) (auto dest: match_type)
  then have "distinct (map match_id (find_candidates r t))"
    "\<forall>m \<in> set (find_candidates r t). gm_goal m \<in> snd ` set (gr_definitions r)"
    by (simp_all add: matches_goals_def find_candidates_def Let_def)
  moreover obtain ys where ys: "find_candidates r t = fst (exact_pass r t) @ ys" "\<forall>m \<in> set ys. gm_type m \<noteq> ''exact''"
    using find_candidates_shape by blast
  have "\<forall>i \<in> set (dict_get (gr_index r) t []). \<exists>g. map_of (gr_definitions r) i = Some g"
    using exact_pass_ids(2) [OF ok, of _ t] by blast
  then have "fst (exact_pass r t) = map (exact_match t) (find_by_intent r t)"
    unfolding exact_pass_eq [OF ok] find_by_intent_def fst_conv by (rule map_the)
  moreover have "takeWhile (\<lambda>m. gm_type m = ''exact'') (map (exact_match t) gs @ ys) = map (exact_match t) gs" for gs
    using ys(2) by (induction gs; cases ys) (auto simp: exact_match_def)
  ultimately show ?thesis using ys(1) by simp
qed

theorem candidates_exact_first_witness:
  "distinct (map match_id (find_candidates (foldl goals_step (goals_new 5) demo_changes) ''c.d''))
    \<and> (\<forall>m \<in> set (find_candidates (foldl goals_step (goals_new 5) demo_changes) ''c.d'').
         gm_goal m \<in> snd ` set (gr_definitions (foldl goals_step (goals_new 5) demo_changes)))
    \<and> takeWhile (\<lambda>m. gm_type m = ''exact'') (find_candidates (foldl goals_step (goals_new 5) demo_changes) ''c.d'')
        = map (exact_match ''c.d'') (find_by_intent (foldl goals_step (goals_new 5) demo_changes) ''c.d'')"
  by (rule candidates_exact_first [OF _ refl]; code_simp)

text \<open>The scorer keeps the candidates that are confident enough and puts the best score first.\<close>

theorem ranking_best_first:
  "mset (rank_goals u cfg ms)
     = mset (map (score_goal u cfg) (filter (\<lambda>m. sg_min_confidence cfg \<le> gm_confidence m) ms))
   \<and> sorted_wrt (\<lambda>a b. sc_score b \<le> sc_score a) (rank_goals u cfg ms)"
proof -
  have "sorted (map (\<lambda>s. - sc_score s) (rank_goals u cfg ms))" by (simp add: rank_goals_def)
  then have "sorted_wrt (\<lambda>a b. sc_score b \<le> sc_score a) (rank_goals u cfg ms)" by (simp add: sorted_wrt_map)
  then show ?thesis by (simp add: rank_goals_def)
qed

end
