(* ===== verification/Planning.thy ===== *)
theory Planning
  imports Goals Recovery
begin

text \<open>
  The planner, \<open>sentinel/core/planner.py\<close>: the built-in step definitions, the step made from a
  capability, \<open>plan\<close>, its risk score, and \<open>resolve_dependencies\<close>, which arranges the steps in levels.
  A step is the \<open>plan_step\<close> of \<open>Recovery\<close> with its further attributes. The context is a record of
  the entries that the planner reads, with the declared types; a context that is missing or empty is
  \<open>None\<close>. Numbers are rationals. The events that the planner emits are not modelled.
\<close>

section \<open>Plans\<close>

record step = plan_step +
  pt_params :: params
  pt_description :: string
  pt_impact :: string
  pt_duration :: "rat option"
  pt_depends :: "string list"
  pt_policy :: "recovery_policy option"

record intent =
  in_action :: string
  in_target :: string
  in_params :: params
  in_confidence :: rat

record plan =
  pl_steps :: "step list"
  pl_intent :: intent
  pl_risk :: rat
  pl_duration :: rat
  pl_description :: string
  pl_goal :: "goal option"

definition simple_step :: "string \<Rightarrow> string \<Rightarrow> string \<Rightarrow> string \<Rightarrow> step" where
  \<comment> \<open>a step with the defaults of the class\<close>
  "simple_step i tool description impact =
     \<lparr>ps_id = i, ps_tool_id = tool, ps_is_reversible = False, ps_rollback_tool_id = None, ps_rollback_params = None,
      pt_params = [], pt_description = description, pt_impact = impact, pt_duration = None, pt_depends = [],
      pt_policy = None\<rparr>"

definition rollback_map :: "(string \<times> string \<times> params option) list" where
  "rollback_map =
     [(''filesystem.write'', ''filesystem.undo_write'', Some [(''original_content'', PStr ''original_content'')]),
      (''filesystem.delete'', ''filesystem.restore'', None),
      (''filesystem.copy'', ''filesystem.delete'', None),
      (''executor.kill'', ''executor.restart'',
         Some [(''pid'', PStr ''pid''), (''process_name'', PStr ''process_name'')])]"

definition discover_step :: step where
  "discover_step = simple_step ''discover'' ''app.discovery'' ''Discover application path'' ''low''"

definition check_step :: step where
  "check_step = (simple_step ''check'' ''system.processes'' ''Check if already running'' ''low'')
     \<lparr>pt_params := [(''limit'', PInt 5)], pt_depends := [''discover'']\<rparr>"

definition review_steps :: "step list" where
  "review_steps =
     [(simple_step ''search'' ''filesystem.search'' ''Search for the latest PDF in the source directory'' ''low'')
        \<lparr>pt_params := [(''query'', PStr ''*.pdf''), (''root'', PStr ''{{parameters.source_dir}}''),
                       (''sort_by_mtime'', PBool True)]\<rparr>,
      (simple_step ''mkdir'' ''filesystem.mkdir'' ''Ensure the Reviewed directory exists'' ''low'')
        \<lparr>pt_params := [(''path'', PStr ''{{parameters.target_dir}}'')], pt_depends := [''search'']\<rparr>,
      (simple_step ''copy'' ''filesystem.copy'' ''Copy the most recent PDF into Reviewed'' ''high'')
        \<lparr>pt_params := [(''source'', PStr ''{{steps.search.data.files.0.path}}''),
                       (''dest'', PStr ''{{parameters.target_dir}}''), (''dest_is_dir'', PBool True)],
         pt_depends := [''mkdir''], ps_is_reversible := True\<rparr>,
      (simple_step ''verify'' ''filesystem.list'' ''Verify the copied file is present in Reviewed'' ''low'')
        \<lparr>pt_params := [(''path'', PStr ''{{parameters.target_dir}}'')], pt_depends := [''copy'']\<rparr>,
      (simple_step ''open'' ''document.open'' ''Open the copied PDF with the default application'' ''medium'')
        \<lparr>pt_params := [(''path'', PStr ''{{steps.copy.data.path}}'')], pt_depends := [''verify'']\<rparr>]"

definition step_definitions :: "(string \<times> step list) list" where
  "step_definitions =
     [(''system.cpu'', [simple_step ''cpu'' ''system.cpu'' ''Get CPU usage'' ''low'']),
      (''system.memory'', [simple_step ''mem'' ''system.info'' ''Get memory usage'' ''low'']),
      (''system.disk'', [simple_step ''disk'' ''system.info'' ''Get disk usage'' ''low'']),
      (''system.processes'', [simple_step ''procs'' ''system.processes'' ''Get process list'' ''low'']),
      (''system.network'', [simple_step ''net'' ''system.info'' ''Get network info'' ''low'']),
      (''system.info'', [simple_step ''sys'' ''system.info'' ''Get full system info'' ''low'']),
      (''system.health'',
         [simple_step ''cpu'' ''system.cpu'' ''Get CPU usage'' ''low'',
          simple_step ''mem'' ''system.info'' ''Get memory usage'' ''low'',
          simple_step ''disk'' ''system.info'' ''Get disk usage'' ''low'',
          (simple_step ''procs'' ''system.processes'' ''Get top processes'' ''low'')
            \<lparr>pt_params := [(''limit'', PInt 5), (''include_memory'', PBool False)],
             pt_depends := [''mem'', ''disk'']\<rparr>]),
      (''system.uptime'', [simple_step ''sys'' ''system.info'' ''Get uptime info'' ''low'']),
      (''app.discovery'',
         [(simple_step ''apps'' ''app.discovery'' ''Discover installed applications available to Sentinel'' ''low'')
            \<lparr>pt_params := [(''action'', PStr ''list''), (''limit'', PInt 30)]\<rparr>]),
      (''models.list'', [simple_step ''models'' ''system.info'' ''List available models'' ''low'']),
      (''settings.ai'', [simple_step ''cfg'' ''system.info'' ''AI configuration'' ''low'']),
      (''executor.command'', [simple_step ''exec'' ''executor.command'' ''Execute command'' ''medium'']),
      (''executor.launch'',
         [discover_step, check_step,
          (simple_step ''launch'' ''executor.launch'' ''Launch process'' ''medium'')
            \<lparr>ps_is_reversible := True, ps_rollback_tool_id := Some ''executor.kill'', pt_depends := [''check'']\<rparr>]),
      (''executor.kill'',
         [simple_step ''find'' ''system.processes'' ''Find process by name'' ''low'',
          (simple_step ''kill'' ''executor.kill'' ''Kill process'' ''medium'')
            \<lparr>ps_is_reversible := True, ps_rollback_tool_id := Some ''executor.restart'', pt_depends := [''find'']\<rparr>]),
      (''filesystem.search'', [simple_step ''locate'' ''filesystem.search'' ''Search files matching pattern'' ''low'']),
      (''filesystem.write'',
         [(simple_step ''write'' ''filesystem.write'' ''Write content to file'' ''high'')
            \<lparr>ps_is_reversible := True, ps_rollback_tool_id := Some ''filesystem.undo_write''\<rparr>]),
      (''filesystem.delete'',
         [(simple_step ''del'' ''filesystem.delete'' ''Delete file (movable to temp)'' ''high'')
            \<lparr>ps_is_reversible := True, ps_rollback_tool_id := Some ''filesystem.restore''\<rparr>]),
      (''review_document'', review_steps)]"

record planner =
  pn_definitions :: "(string \<times> step list) list"
  pn_capabilities :: "capabilities option"
  pn_goals :: "goals option"
  pn_scorer :: scorer_config

definition planner_new :: "(string \<times> step list) list option \<Rightarrow> capabilities option \<Rightarrow> goals option
    \<Rightarrow> scorer_config option \<Rightarrow> planner" where
  "planner_new defs caps gs cfg =
     \<lparr>pn_definitions = (case defs of Some (d # ds) \<Rightarrow> d # ds | _ \<Rightarrow> step_definitions), pn_capabilities = caps,
      pn_goals = gs, pn_scorer = (case cfg of Some c \<Rightarrow> c | None \<Rightarrow> scorer_defaults)\<rparr>"


section \<open>The context\<close>

record app_profile =
  ap_name :: string
  ap_confidence :: rat
  ap_source :: string

record hardware =
  hw_gpu :: "bool option"
  hw_vram :: "rat option"

record deep_context =
  dc_hardware :: hardware
  dc_apps :: "app_profile list"

record plan_context = usage +
  pc_deep :: "deep_context option"
  pc_apps :: "app_profile list"

definition base_app_name :: "string \<Rightarrow> string" where
  \<comment> \<open>\<open>casefold\<close>, then \<open>removesuffix(".exe")\<close>\<close>
  "base_app_name s =
     (let t = lower s in if suffix ''.exe'' t then take (length t - 4) t else t)"

definition find_app :: "app_profile list \<Rightarrow> string \<Rightarrow> app_profile option" where
  "find_app apps name = find (\<lambda>a. base_app_name (ap_name a) = base_app_name name) apps"

definition application_evidence :: "plan_context option \<Rightarrow> string \<Rightarrow> app_profile list \<Rightarrow> app_profile option" where
  "application_evidence ctx name profiles =
     (if name = [] then None
      else if profiles \<noteq> [] then find_app profiles name
      else (case ctx of
              None \<Rightarrow> None
            | Some c \<Rightarrow> find_app (case pc_deep c of Some d \<Rightarrow> dc_apps d | None \<Rightarrow> pc_apps c) name))"


section \<open>Risk\<close>

definition impact_score :: "string \<Rightarrow> rat" where
  "impact_score s =
     dict_get [(''low'', 1/10), (''medium'', 4/10), (''high'', 7/10), (''critical'', 1)] s (3/10)"

definition action_score :: "string \<Rightarrow> rat" where
  "action_score a =
     dict_get [(''query'', 0), (''analyze'', 1/10), (''configure'', 3/10), (''execute'', 6/10), (''control'', 4/10)] a (2/10)"

definition step_score :: "step \<Rightarrow> rat" where
  "step_score s = impact_score (pt_impact s) + (if ps_is_reversible s then 0 else 1/10)"

definition max_impact :: "step list \<Rightarrow> rat" where
  "max_impact steps = fold (\<lambda>s m. max m (step_score s)) steps 0"

definition describes :: "string list \<Rightarrow> step list \<Rightarrow> bool" where
  "describes words steps \<longleftrightarrow> list_ex (\<lambda>s. list_ex (\<lambda>w. sublist w (lower (pt_description s))) words) steps"

definition named_app :: "step \<Rightarrow> pyval" where
  "named_app s = py_or (py_or (pget (pt_params s) ''app'') (pget (pt_params s) ''name'')) (PStr [])"

fun unknown_app :: "plan_context \<Rightarrow> app_profile list \<Rightarrow> step list \<Rightarrow> bool result" where
  \<comment> \<open>whether some step names an application without evidence\<close>
  "unknown_app c apps [] = Inr False"
| "unknown_app c apps (s # ss) =
     (if \<not> truthy (named_app s) then unknown_app c apps ss
      else (case named_app s of
              PStr a \<Rightarrow> if application_evidence (Some c) a apps = None then Inr True else unknown_app c apps ss
            | _ \<Rightarrow> Inl (AnyException ''AttributeError'')))"

definition no_hardware :: hardware where
  "no_hardware = \<lparr>hw_gpu = None, hw_vram = None\<rparr>"

definition context_risk :: "plan_context \<Rightarrow> step list \<Rightarrow> string \<Rightarrow> rat result" where
  "context_risk c steps action =
     (let hw = (case pc_deep c of Some d \<Rightarrow> dc_hardware d | None \<Rightarrow> no_hardware);
          apps = (case pc_deep c of Some d \<Rightarrow> dc_apps d | None \<Rightarrow> []);
          gpu = (if action = ''execute'' \<and> hw_gpu hw = Some False
                   \<and> describes [''gpu'', ''cuda'', ''render'', ''3d''] steps then 15/100 else 0);
          vram = (if (case hw_vram hw of Some v \<Rightarrow> v < 4 | None \<Rightarrow> False)
                    \<and> describes [''llm'', ''ai'', ''model'', ''training''] steps then 1/10 else 0)
      in if action = ''execute''
         then bind_result (unknown_app c apps steps) (\<lambda>u. Inr (gpu + vram + (if u then 8/100 else 0)))
         else Inr (gpu + vram))"

definition calculate_risk :: "step list \<Rightarrow> intent \<Rightarrow> plan_context option \<Rightarrow> rat result" where
  "calculate_risk steps i ctx =
     bind_result (case ctx of None \<Rightarrow> Inr 0 | Some c \<Rightarrow> context_risk c steps (in_action i))
       (\<lambda>extra. Inr (min (max_impact steps * (6/10) + action_score (in_action i) * (4/10) + extra) 1))"


section \<open>Planning\<close>

definition step_from_capability :: "capability \<Rightarrow> step" where
  "step_from_capability c =
     (let rb = map_of rollback_map (cp_id c) in
      \<lparr>ps_id = last_part CHR ''.'' (cp_id c), ps_tool_id = cp_id c,
       ps_is_reversible = (case rb of Some _ \<Rightarrow> True
         | None \<Rightarrow> (case cp_reversible c of Some b \<Rightarrow> b | None \<Rightarrow> cp_risk c \<in> {LOW, MEDIUM})),
       ps_rollback_tool_id = map_option fst rb,
       ps_rollback_params = (case rb of Some (t, Some (d # ds)) \<Rightarrow> Some (d # ds) | _ \<Rightarrow> None),
       pt_params = cp_default_parameters c,
       pt_description = (if cp_description c \<noteq> [] then cp_description c else cp_name c),
       pt_impact = (case cp_impact c of Some (x # xs) \<Rightarrow> x # xs | _ \<Rightarrow> risk_value (cp_risk c)),
       pt_duration = None, pt_depends = [], pt_policy = None\<rparr>)"

definition goal_risk_score :: "goal \<Rightarrow> rat" where
  "goal_risk_score g = impact_score (risk_value (gl_risk g))"

definition choose_goal :: "planner \<Rightarrow> string \<Rightarrow> plan_context option \<Rightarrow> goal option" where
  "choose_goal pn target ctx =
     (case pn_goals pn of
        None \<Rightarrow> None
      | Some r \<Rightarrow>
          (case rank_goals (case ctx of Some c \<Rightarrow> usage.truncate c | None \<Rightarrow> no_usage) (pn_scorer pn)
                  (find_candidates r target) of
             [] \<Rightarrow> None
           | s # _ \<Rightarrow> Some (gm_goal (sc_result s))))"

definition definitions_for :: "planner \<Rightarrow> string \<Rightarrow> step list" where
  "definitions_for pn target =
     (let ds = (case Option.bind (pn_capabilities pn) (\<lambda>reg. get_capability reg target) of
            Some c \<Rightarrow>
              (if target = ''executor.launch''
               then [discover_step, check_step, (step_from_capability c)\<lparr>pt_depends := [''check'']\<rparr>]
               else [step_from_capability c])
          | None \<Rightarrow> dict_get (pn_definitions pn) target [])
      in if ds = [] then [simple_step ''default'' ''system.info'' (''Process '' @ target) ''medium''] else ds)"

definition percent :: "rat \<Rightarrow> string" where
  \<comment> \<open>the format \<open>.0%\<close>\<close>
  "percent x = int_str (floor (py_round 0 (x * 100))) @ ''%''"

definition launch_description :: "string \<Rightarrow> app_profile option \<Rightarrow> string \<Rightarrow> string" where
  "launch_description app evidence d =
     (case evidence of
        Some a \<Rightarrow> ''Launch '' @ app @ '' (detected via '' @ ap_source a @ '', confidence '' @ percent (ap_confidence a)
                    @ ''; execution still requires policy authorization)''
      | None \<Rightarrow>
          if app \<noteq> [] \<and> app \<notin> {''browser'', ''default-browser'', ''navegador''}
          then ''Launch '' @ app @ '' (not confirmed by the current application catalog)'' else d)"

definition step_params :: "intent \<Rightarrow> params \<Rightarrow> params" where
  "step_params i ps =
     (if in_target i = ''system.processes'' \<and> ''limit'' \<in> set (keys (in_params i))
      then AList.update ''limit'' (pget (in_params i) ''limit'') ps
      else if in_target i \<in> {''app.discovery'', ''executor.launch''} then fold (\<lambda>(k, v). AList.update k v) (in_params i) ps
      else ps)"

definition app_named :: "intent \<Rightarrow> string" where
  "app_named i = strip (py_str (dict_get (in_params i) ''app_name'' (PStr [])))"

definition plan_step_of :: "intent \<Rightarrow> plan_context option \<Rightarrow> app_profile list \<Rightarrow> step \<Rightarrow> step" where
  "plan_step_of i ctx profiles d =
     d\<lparr>pt_params := step_params i (pt_params d),
       pt_description := (if in_target i = ''executor.launch''
          then launch_description (app_named i) (application_evidence ctx (app_named i) profiles) (pt_description d)
          else pt_description d),
       pt_duration := None,
       pt_policy := Some (case pt_policy d of Some p \<Rightarrow> p | None \<Rightarrow> default_for (ps_tool_id d))\<rparr>"

definition total_duration :: "step list \<Rightarrow> rat" where
  "total_duration steps =
     sum_list (map (\<lambda>s. case pt_duration s of Some d \<Rightarrow> if d = 0 then 0 else d | None \<Rightarrow> 0) steps)"

definition make_plan :: "planner \<Rightarrow> intent \<Rightarrow> plan_context option \<Rightarrow> app_profile list \<Rightarrow> plan result" where
  "make_plan pn i ctx profiles =
     (let goal = choose_goal pn (in_target i) ctx;
          steps = map (plan_step_of i ctx profiles) (definitions_for pn (in_target i));
          description = in_action i @ '' '' @ in_target i @ '' in '' @ nat_str (length steps) @ '' step(s)''
      in bind_result (calculate_risk steps i ctx) (\<lambda>risk. Inr
           \<lparr>pl_steps = steps, pl_intent = i,
            pl_risk = (case goal of Some g \<Rightarrow> max risk (goal_risk_score g) | None \<Rightarrow> risk),
            pl_duration = total_duration steps,
            pl_description = (case goal of Some g \<Rightarrow> ''Goal: '' @ gl_name g @ '' | '' @ description | None \<Rightarrow> description),
            pl_goal = goal\<rparr>))"


section \<open>Levels\<close>

type_synonym graph = "(string \<times> string list) list"
type_synonym degrees = "(string \<times> int) list"

fun add_edges :: "string \<Rightarrow> string list \<Rightarrow> graph \<times> degrees \<Rightarrow> graph \<times> degrees" where
  "add_edges i [] g = g"
| "add_edges i (d # ds) (adj, deg) =
     add_edges i ds (AList.update d (dict_get adj d [] @ [i]) adj, AList.update i (dict_get deg i 0 + 1) deg)"

definition build_graph :: "step list \<Rightarrow> graph \<times> degrees" where
  "build_graph steps =
     fold (\<lambda>s. add_edges (ps_id s) (pt_depends s)) steps
       (map (\<lambda>s. (ps_id s, [])) steps, map (\<lambda>s. (ps_id s, 0)) steps)"

fun relax :: "string list \<Rightarrow> degrees \<Rightarrow> string list \<Rightarrow> degrees \<times> string list" where
  \<comment> \<open>the edges out of one level: a step whose last dependency this was goes to the next one\<close>
  "relax [] deg nxt = (deg, nxt)"
| "relax (n # ns) deg nxt =
     (let d = dict_get deg n 0 - 1
      in relax ns (AList.update n d deg) (if d = 0 then nxt @ [n] else nxt))"

definition positive :: "degrees \<Rightarrow> string set" where
  "positive deg = {k. 0 < dict_get deg k 0}"

lemma positive_keys: "positive deg \<subseteq> set (keys deg)"
  by (force simp: positive_def dict_get_def dest: map_of_SomeD split: option.splits)

lemma finite_positive [simp]: "finite (positive deg)"
  by (rule finite_subset [OF positive_keys]) simp

lemma relax_card:
  "card (positive (fst (relax ns deg nxt))) + length (snd (relax ns deg nxt)) \<le> card (positive deg) + length nxt"
proof (induction ns deg nxt rule: relax.induct)
  case (2 n ns deg nxt)
  let ?d = "dict_get deg n 0 - 1"
  have *: "positive (AList.update n ?d deg) = (if 0 < ?d then insert n (positive deg) else positive deg - {n})"
    by (auto simp: positive_def)
  have "card (positive (AList.update n ?d deg)) + (if ?d = 0 then 1 else 0) \<le> card (positive deg)"
  proof (cases "0 < ?d")
    case True
    then have "n \<in> positive deg" by (simp add: positive_def)
    with True show ?thesis by (simp add: * insert_absorb)
  next
    case False
    show ?thesis
    proof (cases "?d = 0")
      case True
      then have n: "n \<in> positive deg" by (simp add: positive_def)
      then have "0 < card (positive deg)" by (auto simp: card_gt_0_iff)
      with True n show ?thesis unfolding * by (simp add: card_Diff_singleton)
    qed (use False in \<open>simp add: * card_Diff1_le\<close>)
  qed
  with 2 [OF refl] show ?case by (auto simp: Let_def split: if_splits)
qed simp

function levels_from :: "graph \<Rightarrow> degrees \<Rightarrow> string list \<Rightarrow> string list list" where
  "levels_from adj deg queue =
     (if queue = [] then []
      else (let (deg', nxt) = relax (concat (map (\<lambda>i. dict_get adj i []) queue)) deg []
            in queue # levels_from adj deg' nxt))"
  by pat_completeness auto

termination
proof (relation "measure (\<lambda>(adj, deg, queue). 2 * card (positive deg) + (if queue = [] then 0 else 1))")
  fix adj :: graph and deg deg' :: degrees and queue nxt :: "string list" and p
  assume q: "queue \<noteq> []" and p: "p = relax (concat (map (\<lambda>i. dict_get adj i []) queue)) deg []" "(deg', nxt) = p"
  then have r: "relax (concat (map (\<lambda>i. dict_get adj i []) queue)) deg [] = (deg', nxt)" by simp
  have "card (positive deg') + length nxt \<le> card (positive deg)"
    using relax_card [of "concat (map (\<lambda>i. dict_get adj i []) queue)" deg "[]"] unfolding r by simp
  moreover have "p = (deg', nxt)" using p(2) by simp
  ultimately show "((adj, deg', nxt), adj, deg, queue)
      \<in> measure (\<lambda>(adj, deg, queue). 2 * card (positive deg) + (if queue = [] then 0 else 1))"
    using q by (cases nxt) auto
qed simp

declare levels_from.simps [simp del]

definition depends_known :: "step list \<Rightarrow> bool" where
  "depends_known steps \<longleftrightarrow> list_all (\<lambda>s. set (pt_depends s) \<subseteq> set (map ps_id steps)) steps"

definition step_levels :: "step list \<Rightarrow> string list list" where
  "step_levels steps =
     (let (adj, deg) = build_graph steps
      in levels_from adj deg (map fst (filter (\<lambda>(i, d). d = 0) deg)))"

definition resolve_dependencies :: "step list \<Rightarrow> step list list" where
  "resolve_dependencies steps =
     (if \<not> distinct (map ps_id steps) \<or> \<not> depends_known steps then []
      else if sum_list (map length (step_levels steps)) \<noteq> length steps then []
      else map (map (\<lambda>i. the (find (\<lambda>s. ps_id s = i) steps))) (step_levels steps))"


definition hundredths :: "rat \<Rightarrow> string" where
  \<comment> \<open>the format \<open>.2f\<close> of a non-negative number\<close>
  "hundredths x =
     (let n = nat (floor (py_round 2 x * 100))
      in nat_str (n div 100) @ ''.'' @ [digit (n mod 100 div 10), digit (n mod 10)])"

definition describe_step :: "nat \<Rightarrow> step list \<Rightarrow> step \<Rightarrow> string" where
  "describe_step i level s =
     ''  '' @ nat_str (i + 1) @ ''.'' @ ps_id s @ ''. '' @ ps_tool_id s @ '': '' @ pt_description s
     @ (if ps_is_reversible s then '' [reversible]'' else '' [irreversible]'')
     @ (if pt_depends s \<noteq> [] then '' after '' @ str_list_repr (pt_depends s) else [])
     @ (if 1 < length level then '' [parallel]'' else [])"

definition describe_plan :: "plan \<Rightarrow> string" where
  "describe_plan p =
     join [CHR 0x0A]
       ([''Plan: '' @ pl_description p,
         ''Risk: '' @ hundredths (pl_risk p) @ '' | Steps: '' @ nat_str (length (pl_steps p))]
        @ concat (map (\<lambda>(i, level). map (describe_step i level) level)
            (zip [0 ..< length (resolve_dependencies (pl_steps p))] (resolve_dependencies (pl_steps p)))))"


section \<open>The graph\<close>

lemma relax_spec:
  "dict_get (fst (relax ns deg nxt)) k 0 = dict_get deg k 0 - int (count_list ns k)
   \<and> (\<exists>ys. snd (relax ns deg nxt) = nxt @ ys \<and> distinct ys
        \<and> set ys = {k. 0 < dict_get deg k 0 \<and> dict_get deg k 0 \<le> int (count_list ns k)})"
proof (induction ns deg nxt arbitrary: k rule: relax.induct)
  case (1 deg nxt)
  then show ?case by auto
next
  case (2 n ns deg nxt)
  let ?d = "dict_get deg n 0 - 1" and ?deg = "AList.update n (dict_get deg n 0 - 1) deg"
  let ?nxt = "if ?d = 0 then nxt @ [n] else nxt"
  obtain ys where ys: "snd (relax ns ?deg ?nxt) = ?nxt @ ys" "distinct ys"
    "set ys = {k. 0 < dict_get ?deg k 0 \<and> dict_get ?deg k 0 \<le> int (count_list ns k)}"
    using 2 [OF refl] by blast
  have "snd (relax (n # ns) deg nxt) = nxt @ (if ?d = 0 then n # ys else ys)"
    using ys(1) by (simp add: Let_def)
  moreover have "distinct (if ?d = 0 then n # ys else ys)" using ys(2,3) by auto
  moreover have "set (if ?d = 0 then n # ys else ys)
      = {k. 0 < dict_get deg k 0 \<and> dict_get deg k 0 \<le> int (count_list (n # ns) k)}"
    using ys(3) by auto
  moreover have "dict_get (fst (relax (n # ns) deg nxt)) k 0 = dict_get deg k 0 - int (count_list (n # ns) k)"
    using 2 [OF refl] by (auto simp: Let_def)
  ultimately show ?case by blast
qed

lemma add_edges_spec:
  "count_list (dict_get (fst (add_edges i ds g)) d []) k
     = count_list (dict_get (fst g) d []) k + (if k = i then count_list ds d else 0)"
  "dict_get (snd (add_edges i ds g)) k 0 = dict_get (snd g) k 0 + (if k = i then int (length ds) else 0)"
  by (induction i ds g rule: add_edges.induct) auto

lemma add_edges_keys: "i \<in> set (keys (snd g)) \<Longrightarrow> keys (snd (add_edges i ds g)) = keys (snd g)"
  by (induction i ds g rule: add_edges.induct) (auto simp: update_keys)

definition depends_of :: "step list \<Rightarrow> string \<Rightarrow> string list" where
  \<comment> \<open>all dependencies under one identifier\<close>
  "depends_of steps k = concat (map pt_depends (filter (\<lambda>s. ps_id s = k) steps))"

lemma fold_edges_spec:
  "count_list (dict_get (fst (fold (\<lambda>s. add_edges (ps_id s) (pt_depends s)) steps g)) d []) k
     = count_list (dict_get (fst g) d []) k + count_list (depends_of steps k) d"
  "dict_get (snd (fold (\<lambda>s. add_edges (ps_id s) (pt_depends s)) steps g)) k 0
     = dict_get (snd g) k 0 + int (length (depends_of steps k))"
  by (induction steps arbitrary: g) (simp_all add: add_edges_spec depends_of_def)

lemma fold_edges_keys:
  "set (map ps_id steps) \<subseteq> set (keys (snd g))
    \<Longrightarrow> keys (snd (fold (\<lambda>s. add_edges (ps_id s) (pt_depends s)) steps g)) = keys (snd g)"
proof (induction steps arbitrary: g)
  case (Cons s steps)
  then have "keys (snd (add_edges (ps_id s) (pt_depends s) g)) = keys (snd g)"
    by (intro add_edges_keys) simp
  with Cons.IH [of "add_edges (ps_id s) (pt_depends s) g"] Cons.prems show ?case by simp
qed simp

lemma dict_get_const: "dict_get (map (\<lambda>s. (f s, c)) xs) k c = c"
  by (induction xs) (auto simp: dict_get_def)

lemma build_graph_spec:
  "count_list (dict_get (fst (build_graph steps)) d []) k = count_list (depends_of steps k) d"
  "dict_get (snd (build_graph steps)) k 0 = int (length (depends_of steps k))"
  "keys (snd (build_graph steps)) = map ps_id steps"
  by (simp_all add: build_graph_def fold_edges_spec fold_edges_keys dict_get_const comp_def)


section \<open>The levels are exact\<close>

text \<open>The state of the loop: the degree of a step counts its dependencies outside the finished levels, and the
  queue holds the steps that are ready.\<close>

definition scheduling :: "step list \<Rightarrow> degrees \<Rightarrow> string list \<Rightarrow> string set \<Rightarrow> bool" where
  "scheduling steps deg queue finished \<longleftrightarrow>
     (\<forall>k \<in> set (map ps_id steps). dict_get deg k 0
        = int (length (filter (\<lambda>d. d \<notin> finished) (depends_of steps k))))
     \<and> finished \<subseteq> set (map ps_id steps) \<and> (\<forall>k \<in> finished. set (depends_of steps k) \<subseteq> finished)
     \<and> distinct queue
     \<and> set queue = {k \<in> set (map ps_id steps) - finished. set (depends_of steps k) \<subseteq> finished}"

lemma count_concat: "count_list (concat xss) k = sum_list (map (\<lambda>xs. count_list xs k) xss)"
  by (induction xss) (simp_all add: count_list_append)

lemma count_neighbours:
  assumes "distinct queue" and "\<And>d k. count_list (dict_get adj d []) k = count_list (D k) d"
  shows "count_list (concat (map (\<lambda>i. dict_get adj i []) queue)) k = length (filter (\<lambda>d. d \<in> set queue) (D k))"
proof -
  have "sum_list (map (count_list xs) queue) = length (filter (\<lambda>d. d \<in> set queue) xs)" if "distinct queue" for xs
    using that
  proof (induction queue)
    case (Cons q qs)
    have "length (filter (\<lambda>d. d \<in> set (q # qs)) xs) = count_list xs q + length (filter (\<lambda>d. d \<in> set qs) xs)"
      using Cons.prems by (induction xs) auto
    with Cons show ?case by simp
  qed simp
  from this [OF assms(1), of "D k"] show ?thesis by (simp add: count_concat comp_def assms(2))
qed

lemma scheduling_step:
  assumes "scheduling steps deg queue finished"
    and adj: "\<And>d k. count_list (dict_get adj d []) k = count_list (depends_of steps k) d"
    and r: "relax (concat (map (\<lambda>i. dict_get adj i []) queue)) deg [] = (deg', nxt)"
    and unknown: "\<And>k. k \<notin> set (map ps_id steps) \<Longrightarrow> dict_get deg k 0 = 0"
  shows "scheduling steps deg' nxt (finished \<union> set queue)
    \<and> (\<forall>k. k \<notin> set (map ps_id steps) \<longrightarrow> dict_get deg' k 0 = 0)"
proof -
  let ?ids = "set (map ps_id steps)" and ?D = "depends_of steps" and ?F = "finished \<union> set queue"
  have q: "distinct queue" "set queue = {k \<in> ?ids - finished. set (?D k) \<subseteq> finished}"
    and fin: "finished \<subseteq> ?ids" "\<And>k. k \<in> finished \<Longrightarrow> set (?D k) \<subseteq> finished"
    and deg: "\<And>k. k \<in> ?ids \<Longrightarrow> dict_get deg k 0 = int (length (filter (\<lambda>d. d \<notin> finished) (?D k)))"
    using assms(1) by (auto simp: scheduling_def)
  note count = count_neighbours [OF q(1), of adj ?D, OF adj]
  have deg': "dict_get deg' k 0 = dict_get deg k 0 - int (length (filter (\<lambda>d. d \<in> set queue) (?D k)))" for k
    using relax_spec [of "concat (map (\<lambda>i. dict_get adj i []) queue)" deg "[]" k] by (simp add: r count)
  have "length (filter (\<lambda>d. d \<notin> finished) xs)
      = length (filter (\<lambda>d. d \<in> set queue) xs) + length (filter (\<lambda>d. d \<notin> ?F) xs)" for xs
    using q(2) by (induction xs) auto
  then have new: "dict_get deg' k 0 = int (length (filter (\<lambda>d. d \<notin> ?F) (?D k)))" if "k \<in> ?ids" for k
    using deg' [of k] deg [OF that] by simp
  have nil: "?D k = []" if "k \<notin> ?ids" for k
    using that by (auto simp: depends_of_def filter_empty_conv)
  have nxt: "distinct nxt" "set nxt = {k. 0 < dict_get deg k 0
      \<and> dict_get deg k 0 \<le> int (length (filter (\<lambda>d. d \<in> set queue) (?D k)))}"
    using relax_spec [of "concat (map (\<lambda>i. dict_get adj i []) queue)" deg "[]"] by (auto simp: r count)
  have empty: "length (filter (\<lambda>d. d \<notin> X) xs) = 0 \<longleftrightarrow> set xs \<subseteq> X" for X and xs :: "string list"
    by (auto simp: filter_empty_conv)
  have "k \<in> set nxt \<longleftrightarrow> k \<in> ?ids - ?F \<and> set (?D k) \<subseteq> ?F" for k
  proof (cases "k \<in> ?ids")
    case True
    have "0 \<le> dict_get deg k 0" "0 \<le> dict_get deg' k 0" unfolding deg [OF True] new [OF True] by simp_all
    then have "k \<in> set nxt \<longleftrightarrow> dict_get deg k 0 \<noteq> 0 \<and> dict_get deg' k 0 = 0"
      unfolding nxt(2) mem_Collect_eq using deg' [of k] by linarith
    also have "\<dots> \<longleftrightarrow> \<not> set (?D k) \<subseteq> finished \<and> set (?D k) \<subseteq> ?F"
      unfolding deg [OF True] new [OF True] of_nat_eq_0_iff empty ..
    also have "\<dots> \<longleftrightarrow> k \<in> ?ids - ?F \<and> set (?D k) \<subseteq> ?F" using True q(2) fin(2) by blast
    finally show ?thesis .
  next
    case False
    then show ?thesis unfolding nxt(2) using unknown [OF False] by simp
  qed
  then have "set nxt = {k \<in> ?ids - ?F. set (?D k) \<subseteq> ?F}" by blast
  moreover have "set (?D k) \<subseteq> ?F" if "k \<in> ?F" for k using that q(2) fin(2) by blast
  ultimately show ?thesis
    using new nxt(1) fin(1) q(2) unknown deg' nil by (simp add: scheduling_def)
qed


text \<open>A scheduled list of levels: every level is not empty and holds exactly the steps whose dependencies are
  all in the levels before it, without the ones that were ready earlier.\<close>

fun level_chain :: "step list \<Rightarrow> string set \<Rightarrow> string list list \<Rightarrow> bool" where
  "level_chain steps finished [] =
     ({k \<in> set (map ps_id steps) - finished. set (depends_of steps k) \<subseteq> finished} = {})"
| "level_chain steps finished (q # qs) \<longleftrightarrow>
     q \<noteq> [] \<and> distinct q
     \<and> set q = {k \<in> set (map ps_id steps) - finished. set (depends_of steps k) \<subseteq> finished}
     \<and> level_chain steps (finished \<union> set q) qs"

lemma levels_from_chain:
  assumes "scheduling steps deg queue finished"
    and "\<And>d k. count_list (dict_get adj d []) k = count_list (depends_of steps k) d"
    and "\<And>k. k \<notin> set (map ps_id steps) \<Longrightarrow> dict_get deg k 0 = 0"
  shows "level_chain steps finished (levels_from adj deg queue)"
  using assms
proof (induction adj deg queue arbitrary: finished rule: levels_from.induct)
  case (1 adj deg queue)
  show ?case
  proof (cases "queue = []")
    case True
    with "1.prems"(1) show ?thesis by (simp add: levels_from.simps scheduling_def)
  next
    case False
    obtain deg' nxt where r: "relax (concat (map (\<lambda>i. dict_get adj i []) queue)) deg [] = (deg', nxt)"
      by (cases "relax (concat (map (\<lambda>i. dict_get adj i []) queue)) deg []")
    note step = scheduling_step [OF "1.prems"(1,2) r "1.prems"(3)]
    have "level_chain steps (finished \<union> set queue) (levels_from adj deg' nxt)"
      using "1.IH" [OF False refl, OF r [symmetric]] step "1.prems"(2) by blast
    moreover have "levels_from adj deg queue = queue # levels_from adj deg' nxt"
      using False r by (subst levels_from.simps) simp
    ultimately show ?thesis using "1.prems"(1) False by (simp add: scheduling_def)
  qed
qed

lemma step_levels_chain: "distinct (map ps_id steps) \<Longrightarrow> level_chain steps {} (step_levels steps)"
proof -
  assume dist: "distinct (map ps_id steps)"
  obtain adj deg where g: "build_graph steps = (adj, deg)" by (cases "build_graph steps")
  have adj: "count_list (dict_get adj d []) k = count_list (depends_of steps k) d"
    and deg: "dict_get deg k 0 = int (length (depends_of steps k))" and ks: "keys deg = map ps_id steps" for d k
    using build_graph_spec [of steps] by (simp_all add: g)
  let ?q = "map fst (filter (\<lambda>(i, d). d = 0) deg)"
  have "distinct ?q" using dist ks by (metis distinct_map_filter)
  moreover have "set ?q = {k \<in> set (map ps_id steps). set (depends_of steps k) \<subseteq> {}}"
  proof -
    have *: "(k, 0) \<in> set deg \<longleftrightarrow> k \<in> set (keys deg) \<and> dict_get deg k 0 = 0" for k
    proof -
      have "(k, 0) \<in> set deg \<longleftrightarrow> map_of deg k = Some 0"
        using dist unfolding ks [symmetric] by (simp add: map_of_eq_Some_iff)
      moreover have "k \<in> set (keys deg) \<longleftrightarrow> map_of deg k \<noteq> None" by (simp add: map_of_eq_None_iff)
      ultimately show ?thesis by (cases "map_of deg k") (auto simp: dict_get_def)
    qed
    have "set ?q = {k. (k, 0) \<in> set deg}" by force
    also have "\<dots> = {k \<in> set (map ps_id steps). set (depends_of steps k) \<subseteq> {}}"
      unfolding * ks deg by simp
    finally show ?thesis .
  qed
  moreover have "dict_get deg k 0 = 0" if "k \<notin> set (map ps_id steps)" for k
    unfolding deg using that by (auto simp: depends_of_def filter_empty_conv)
  ultimately have "level_chain steps {} (levels_from adj deg ?q)"
    using deg by (intro levels_from_chain adj) (auto simp: scheduling_def)
  then show ?thesis by (simp add: step_levels_def g)
qed


lemma level_chain_facts:
  assumes "level_chain steps finished qs"
  shows "distinct (concat qs) \<and> set (concat qs) \<inter> finished = {} \<and> set (concat qs) \<subseteq> set (map ps_id steps)"
  using assms
proof (induction steps finished qs rule: level_chain.induct)
  case (2 steps finished q qs)
  have "level_chain steps (finished \<union> set q) qs" using "2.prems" unfolding level_chain.simps by blast
  note "2.IH" [OF this]
  moreover have "distinct q" "set q \<subseteq> set (map ps_id steps)" "set q \<inter> finished = {}" using "2.prems" by auto
  ultimately show ?case unfolding concat.simps distinct_append set_append by blast
qed simp

lemma level_chain_complete:
  assumes "level_chain steps finished qs" and "\<And>k d. d \<in> set (depends_of steps k) \<Longrightarrow> (rk d :: nat) < rk k"
    and "\<And>k. set (depends_of steps k) \<subseteq> set (map ps_id steps)"
  shows "set (map ps_id steps) \<subseteq> finished \<union> set (concat qs)"
  using assms
proof (induction steps finished qs rule: level_chain.induct)
  case (1 steps finished)
  have "k \<in> set (map ps_id steps) \<Longrightarrow> k \<in> finished" for k
  proof (induction "rk k" arbitrary: k rule: less_induct)
    case less
    then have "set (depends_of steps k) \<subseteq> finished" using 1(2,3) by blast
    with less.prems 1(1) show ?case by auto
  qed
  then show ?case by auto
next
  case (2 steps finished q qs)
  from 2(2) have "level_chain steps (finished \<union> set q) qs" unfolding level_chain.simps by blast
  then have "set (map ps_id steps) \<subseteq> (finished \<union> set q) \<union> set (concat qs)" by (rule 2(1)) (use 2(3,4) in auto)
  then show ?case unfolding concat.simps set_append by blast
qed

lemma level_chain_rank:
  assumes "level_chain steps finished qs"
  shows "\<exists>rk :: string \<Rightarrow> nat. \<forall>k \<in> set (concat qs). \<forall>d \<in> set (depends_of steps k).
     d \<in> finished \<or> d \<in> set (concat qs) \<and> rk d < rk k"
  using assms
proof (induction steps finished qs rule: level_chain.induct)
  case (2 steps finished q qs)
  then have c: "level_chain steps (finished \<union> set q) qs" unfolding level_chain.simps by blast
  from "2.IH" [OF c] obtain rk :: "string \<Rightarrow> nat" where rk: "\<And>k d. k \<in> set (concat qs) \<Longrightarrow> d \<in> set (depends_of steps k)
      \<Longrightarrow> d \<in> finished \<union> set q \<or> d \<in> set (concat qs) \<and> rk d < rk k" by blast
  have q: "k \<in> set q \<Longrightarrow> set (depends_of steps k) \<subseteq> finished" for k using "2.prems" by auto
  have disj: "set (concat qs) \<inter> set q = {}" using level_chain_facts [OF c] by blast
  let ?rk = "\<lambda>k. if k \<in> set q then 0 else Suc (rk k)"
  have "d \<in> finished \<or> d \<in> set (concat (q # qs)) \<and> ?rk d < ?rk k"
    if "k \<in> set (concat (q # qs))" "d \<in> set (depends_of steps k)" for k d
  proof (cases "k \<in> set q")
    case True
    with q that(2) show ?thesis by blast
  next
    case False
    with that(1) have k: "k \<in> set (concat qs)" by (simp del: set_concat)
    show ?thesis using rk [OF k that(2)] False by (auto simp del: set_concat)
  qed
  then show ?case by (intro exI [of _ ?rk]) blast
qed simp

definition schedulable :: "step list \<Rightarrow> bool" where
  \<comment> \<open>identifiers are unique, dependencies are steps of the plan, and there is no cycle\<close>
  "schedulable steps \<longleftrightarrow>
     distinct (map ps_id steps) \<and> depends_known steps
     \<and> (\<exists>rk :: string \<Rightarrow> nat. \<forall>s \<in> set steps. \<forall>d \<in> set (pt_depends s). rk d < rk (ps_id s))"

lemma depends_of_distinct:
  "distinct (map ps_id steps) \<Longrightarrow> s \<in> set steps \<Longrightarrow> depends_of steps (ps_id s) = pt_depends s"
proof (induction steps)
  case (Cons a steps)
  have "filter (\<lambda>b. ps_id b = ps_id a) steps = []" using Cons.prems(1) by (simp add: filter_empty_conv) (metis rev_image_eqI)
  with Cons show ?case by (auto simp: depends_of_def)
qed simp

lemma depends_of_cases:
  assumes "d \<in> set (depends_of steps k)"
  obtains s where "s \<in> set steps" "ps_id s = k" "d \<in> set (pt_depends s)"
  using assms by (auto simp: depends_of_def)

lemma schedulable_complete:
  assumes "distinct (map ps_id steps)" and "depends_known steps"
  shows "schedulable steps \<longleftrightarrow> set (concat (step_levels steps)) = set (map ps_id steps)"
proof
  let ?ls = "step_levels steps"
  note chain = step_levels_chain [OF assms(1)]
  {
    assume "schedulable steps"
    then obtain rk :: "string \<Rightarrow> nat" where "\<forall>s \<in> set steps. \<forall>d \<in> set (pt_depends s). rk d < rk (ps_id s)"
      by (auto simp: schedulable_def)
    then have "d \<in> set (depends_of steps k) \<Longrightarrow> rk d < rk k" for k d by (auto elim!: depends_of_cases)
    moreover have "set (depends_of steps k) \<subseteq> set (map ps_id steps)" for k
      using assms(2) by (fastforce simp: depends_known_def list_all_iff elim!: depends_of_cases)
    ultimately have "set (map ps_id steps) \<subseteq> {} \<union> set (concat ?ls)" by (rule level_chain_complete [OF chain])
    then show "set (concat ?ls) = set (map ps_id steps)" using level_chain_facts [OF chain] by blast
  next
    assume all: "set (concat ?ls) = set (map ps_id steps)"
    from level_chain_rank [OF chain] obtain rk :: "string \<Rightarrow> nat" where
      "\<forall>k \<in> set (concat ?ls). \<forall>d \<in> set (depends_of steps k). rk d < rk k" by blast
    then have "\<forall>s \<in> set steps. \<forall>d \<in> set (pt_depends s). rk d < rk (ps_id s)"
      unfolding all using depends_of_distinct [OF assms(1)] by auto
    then show "schedulable steps" using assms by (auto simp: schedulable_def)
  }
qed


definition in_levels :: "step list list \<Rightarrow> nat \<Rightarrow> string set" where
  \<comment> \<open>the identifiers of the levels before the given one\<close>
  "in_levels ls i = ps_id ` set (concat (take i ls))"

lemma level_chain_nth:
  assumes "level_chain steps finished qs" and "i < length qs"
  shows "qs ! i \<noteq> [] \<and> set (qs ! i) = {k \<in> set (map ps_id steps) - (finished \<union> set (concat (take i qs))).
     set (depends_of steps k) \<subseteq> finished \<union> set (concat (take i qs))}"
  using assms
proof (induction steps finished qs arbitrary: i rule: level_chain.induct)
  case (2 steps finished q qs)
  have c: "level_chain steps (finished \<union> set q) qs" using "2.prems" unfolding level_chain.simps by blast
  show ?case
  proof (cases i)
    case 0
    with "2.prems" show ?thesis unfolding level_chain.simps by simp
  next
    case (Suc j)
    have "finished \<union> set q \<union> set (concat (take j qs)) = finished \<union> set (concat (take i (q # qs)))"
      unfolding Suc take_Suc_Cons concat.simps set_append by blast
    with "2.IH" [OF c, of j] "2.prems"(2) Suc show ?thesis unfolding \<open>_ = _ \<union> set (concat (take i (q # qs)))\<close> by simp
  qed
qed simp

lemma find_step:
  assumes "distinct (map ps_id steps)" and "s \<in> set steps"
  shows "find (\<lambda>t. ps_id t = ps_id s) steps = Some s"
  using assms
proof (induction steps)
  case (Cons a steps)
  then show ?case by (auto simp: rev_image_eqI)
qed simp

lemma resolve_schedulable:
  assumes "schedulable steps"
  shows "map (map ps_id) (resolve_dependencies steps) = step_levels steps
    \<and> set (concat (resolve_dependencies steps)) = set steps"
proof -
  let ?ls = "step_levels steps" and ?find = "\<lambda>i. the (find (\<lambda>s. ps_id s = i) steps)"
  have d: "distinct (map ps_id steps)" "depends_known steps" using assms by (auto simp: schedulable_def)
  have all: "set (concat ?ls) = set (map ps_id steps)" using assms schedulable_complete [OF d] by simp
  have "distinct (concat ?ls)" using level_chain_facts [OF step_levels_chain [OF d(1)]] by blast
  then have "sum_list (map length ?ls) = length steps"
    using all d(1) by (metis distinct_card length_concat length_map)
  then have r: "resolve_dependencies steps = map (map ?find) ?ls" using d by (simp add: resolve_dependencies_def)
  have fs: "ps_id (?find i) = i \<and> ?find i \<in> set steps" if "i \<in> set (concat ?ls)" for i
    using that find_step [OF d(1)] unfolding all by auto
  have "map (map ps_id) (map (map ?find) ?ls) = ?ls"
    unfolding map_map by (rule map_idI) (use fs in \<open>auto intro!: map_idI simp: comp_def\<close>)
  moreover have "set (concat (map (map ?find) ?ls)) = ?find ` set (concat ?ls)" by (simp flip: map_concat)
  moreover have "?find ` set (map ps_id steps) = set steps" using find_step [OF d(1)] by (force simp: image_iff)
  ultimately show ?thesis unfolding r all by simp
qed

text \<open>C28: \<open>resolve_dependencies\<close> is exact. When the identifiers are unique, the dependencies are known and
  there is no cycle, its levels are all the steps, each once, a step comes in the first level after all its
  dependencies, and no level is empty; otherwise the answer is empty.\<close>

theorem dependencies_resolved:
  "if schedulable steps then
     distinct (map ps_id (concat (resolve_dependencies steps)))
     \<and> set (concat (resolve_dependencies steps)) = set steps
     \<and> (\<forall>i < length (resolve_dependencies steps).
          resolve_dependencies steps ! i \<noteq> []
          \<and> set (resolve_dependencies steps ! i)
              = {s \<in> set steps. ps_id s \<notin> in_levels (resolve_dependencies steps) i
                   \<and> set (pt_depends s) \<subseteq> in_levels (resolve_dependencies steps) i})
   else resolve_dependencies steps = []"
proof (cases "schedulable steps")
  case True
  let ?r = "resolve_dependencies steps" and ?ls = "step_levels steps"
  have d: "distinct (map ps_id steps)" using True by (auto simp: schedulable_def)
  note res = resolve_schedulable [OF True] and chain = step_levels_chain [OF d]
  have ids: "ps_id ` set (concat (take i ?r)) = set (concat (take i ?ls))" for i
    unfolding conjunct1 [OF res, symmetric] by (simp add: take_map image_UN)
  have "?r ! i \<noteq> [] \<and> set (?r ! i) = {s \<in> set steps. ps_id s \<notin> in_levels ?r i \<and> set (pt_depends s) \<subseteq> in_levels ?r i}"
    if "i < length ?r" for i
  proof -
    have i: "i < length ?ls" "?ls ! i = map ps_id (?r ! i)"
      using that conjunct1 [OF res] by (metis length_map nth_map)+
    note level = level_chain_nth [OF chain i(1)]
    have sub: "set (?r ! i) \<subseteq> set steps" using conjunct2 [OF res] that by (metis UN_I nth_mem set_concat subsetI)
    have mem: "s \<in> set (?r ! i) \<longleftrightarrow> ps_id s \<in> set (?ls ! i)" if "s \<in> set steps" for s
      using that sub d unfolding i(2) by (auto simp: distinct_map dest: inj_onD)
    have "s \<in> set (?r ! i) \<longleftrightarrow> s \<in> set steps \<and> ps_id s \<notin> in_levels ?r i \<and> set (pt_depends s) \<subseteq> in_levels ?r i" for s
    proof (cases "s \<in> set steps")
      case True
      then show ?thesis
        using level mem [OF True] depends_of_distinct [OF d True] unfolding in_levels_def ids by auto
    qed (use sub in blast)
    then show ?thesis using level i(2) by auto
  qed
  moreover have "distinct (map ps_id (concat ?r))"
    using level_chain_facts [OF chain] conjunct1 [OF res] by (metis map_concat)
  ultimately show ?thesis using True res by simp
next
  case False
  show ?thesis
  proof (cases "distinct (map ps_id steps) \<and> depends_known steps")
    case True
    note chain = level_chain_facts [OF step_levels_chain [of steps]]
    have "set (concat (step_levels steps)) \<subset> set (map ps_id steps)"
      using schedulable_complete [of steps] False True chain by blast
    then have "card (set (concat (step_levels steps))) < card (set (map ps_id steps))"
      by (intro psubset_card_mono) simp_all
    then have "length (concat (step_levels steps)) < length steps"
      using chain True by (metis distinct_card length_map)
    then show ?thesis using False by (simp add: resolve_dependencies_def length_concat)
  qed (use False in \<open>auto simp: resolve_dependencies_def\<close>)
qed



definition two_steps :: "step list" where
  "two_steps = [(simple_step ''b'' ''files.move'' '''' ''low'')\<lparr>pt_depends := [''a'']\<rparr>, simple_step ''a'' ''files.list'' '''' ''low'']"

lemma two_steps_levels: "resolve_dependencies two_steps = [[two_steps ! 1], [two_steps ! 0]]"
  by code_simp

theorem dependencies_resolved_witness:
  "distinct (map ps_id (concat (resolve_dependencies two_steps))) \<and> set (concat (resolve_dependencies two_steps)) = set two_steps
   \<and> resolve_dependencies two_steps ! 1 \<noteq> []"
  using dependencies_resolved [of two_steps] unfolding two_steps_levels
  by (auto split: if_splits)

section \<open>Plans of the built-in definitions\<close>

fun ordered :: "string list \<Rightarrow> step list \<Rightarrow> bool" where
  \<comment> \<open>every step depends on earlier ones only\<close>
  "ordered seen [] = True"
| "ordered seen (s # ss) \<longleftrightarrow>
     ps_id s \<notin> set seen \<and> set (pt_depends s) \<subseteq> set seen \<and> ordered (ps_id s # seen) ss"

lemma ordered_facts:
  assumes "ordered seen steps"
  shows "distinct (map ps_id steps) \<and> set (map ps_id steps) \<inter> set seen = {}
    \<and> (\<exists>rk :: string \<Rightarrow> nat. \<forall>s \<in> set steps. \<forall>d \<in> set (pt_depends s).
          (d \<in> set seen \<or> d \<in> set (map ps_id steps)) \<and> (d \<notin> set seen \<longrightarrow> rk d < rk (ps_id s)))"
  using assms
proof (induction seen steps rule: ordered.induct)
  case (2 seen s ss)
  then have "ordered (ps_id s # seen) ss" by simp
  note ih = "2.IH" [OF this]
  then have dis: "distinct (map ps_id ss)" "set (map ps_id ss) \<inter> set (ps_id s # seen) = {}" by blast+
  from ih obtain rk :: "string \<Rightarrow> nat" where rk: "\<And>t d. t \<in> set ss \<Longrightarrow> d \<in> set (pt_depends t) \<Longrightarrow>
      (d \<in> set (ps_id s # seen) \<or> d \<in> set (map ps_id ss)) \<and> (d \<notin> set (ps_id s # seen) \<longrightarrow> rk d < rk (ps_id t))"
    by blast
  let ?rk = "\<lambda>k. if k = ps_id s then 0 else Suc (rk k)"
  have "(d \<in> set seen \<or> d \<in> set (map ps_id (s # ss))) \<and> (d \<notin> set seen \<longrightarrow> ?rk d < ?rk (ps_id t))"
    if "t \<in> set (s # ss)" "d \<in> set (pt_depends t)" for t d
  proof (cases "t = s")
    case True
    with "2.prems" that(2) show ?thesis by auto
  next
    case False
    with that have t: "t \<in> set ss" by simp
    then have "ps_id t \<in> set (map ps_id ss)" by simp
    then have "ps_id t \<noteq> ps_id s" using dis(2) by (metis disjoint_iff list.set_intros(1))
    then show ?thesis using rk [OF t that(2)] by auto
  qed
  then show ?case using dis "2.prems" by (intro conjI exI [of _ ?rk]) auto
qed simp

lemma ordered_schedulable: "ordered [] steps \<Longrightarrow> schedulable steps"
  using ordered_facts [of "[]" steps]
  by (auto simp: schedulable_def depends_known_def list_all_iff subset_iff simp del: set_map)

lemma ordered_map:
  assumes "\<And>s. ps_id (f s) = ps_id s" and "\<And>s. pt_depends (f s) = pt_depends s"
  shows "ordered seen (map f steps) = ordered seen steps"
  by (induction seen steps rule: ordered.induct) (simp_all add: assms)

lemma builtin_ordered: "list_all (\<lambda>(t, ds). ordered [] ds) step_definitions"
  by code_simp

lemma capability_steps_ordered: "ordered [] [step_from_capability c]"
  by (simp add: step_from_capability_def Let_def)

lemma launch_steps_ordered:
  "cp_id c = ''executor.launch''
    \<Longrightarrow> ordered [] [discover_step, check_step, (step_from_capability c)\<lparr>pt_depends := [''check'']\<rparr>]"
  by (simp add: step_from_capability_def Let_def discover_step_def check_step_def simple_step_def last_part_def)

lemma definitions_ordered:
  assumes "\<And>reg. caps = Some reg \<Longrightarrow> registry_ok reg"
  shows "ordered [] (definitions_for (planner_new None caps gs cfg) target)
    \<and> definitions_for (planner_new None caps gs cfg) target \<noteq> []"
proof -
  have default: "ordered [] [simple_step i t d imp]" for i t d imp by (simp add: simple_step_def)
  show ?thesis
  proof (cases "Option.bind caps (\<lambda>reg. get_capability reg target)")
    case None
    have "ordered [] (dict_get step_definitions target [])"
      using builtin_ordered by (force simp: dict_get_def list_all_iff dest: map_of_SomeD split: option.splits)
    with None default show ?thesis by (simp add: definitions_for_def planner_new_def Let_def)
  next
    case (Some c)
    then obtain reg where "caps = Some reg" "get_capability reg target = Some c" by (cases caps) auto
    then have "cp_id c = target" using assms get_capability_id by blast
    with Some launch_steps_ordered [of c] capability_steps_ordered [of c] show ?thesis
      by (simp add: definitions_for_def planner_new_def Let_def del: ordered.simps)
  qed
qed

lemma impact_score_bounds [simp]: "0 \<le> impact_score s" "impact_score s \<le> 1"
  by (simp_all add: impact_score_def dict_get_def)

lemma action_score_nonneg [simp]: "0 \<le> action_score s"
  by (simp add: action_score_def dict_get_def)

lemma max_impact_nonneg [simp]: "0 \<le> max_impact steps"
proof -
  have "(m :: rat) \<le> fold (\<lambda>s m. max m (step_score s)) steps m" for m
    by (induction steps arbitrary: m) (auto intro: order_trans max.cobounded1)
  then show ?thesis by (simp add: max_impact_def)
qed

lemma context_risk_nonneg: "context_risk c steps a = Inr r \<Longrightarrow> 0 \<le> r"
  by (auto simp: context_risk_def Let_def split: if_splits)

lemma calculate_risk_bounds:
  assumes "calculate_risk steps i ctx = Inr r"
  shows "0 \<le> r \<and> r \<le> 1"
proof -
  from assms obtain extra where x: "(case ctx of None \<Rightarrow> Inr 0 | Some c \<Rightarrow> context_risk c steps (in_action i)) = Inr extra"
    and r: "r = min (max_impact steps * (6/10) + action_score (in_action i) * (4/10) + extra) 1"
    unfolding calculate_risk_def bind_result_Inr by blast
  have e: "0 \<le> extra" using x by (auto dest: context_risk_nonneg split: option.splits)
  have "0 \<le> max_impact steps * (6/10) + action_score (in_action i) * (4/10) + extra" using e by simp
  then show ?thesis unfolding r by simp
qed

text \<open>Every plan can be carried out: with the built-in definitions and any registry of capabilities, a
  plan has at least one step, all its steps are scheduled by \<open>resolve_dependencies\<close>, every step has a
  recovery policy, and the risk lies between 0 and 1.\<close>

theorem plans_are_schedulable:
  assumes "make_plan (planner_new None caps gs cfg) i ctx profiles = Inr p"
    and "\<forall>reg. caps = Some reg \<longrightarrow> registry_ok reg"
  shows "pl_steps p \<noteq> [] \<and> set (concat (resolve_dependencies (pl_steps p))) = set (pl_steps p)
    \<and> list_all (\<lambda>s. pt_policy s \<noteq> None) (pl_steps p) \<and> 0 \<le> pl_risk p \<and> pl_risk p \<le> 1"
proof -
  let ?ds = "definitions_for (planner_new None caps gs cfg) (in_target i)"
  have ds: "ordered [] ?ds" "?ds \<noteq> []" using definitions_ordered [of caps] assms(2) by blast+
  from assms(1) obtain r where steps: "pl_steps p = map (plan_step_of i ctx profiles) ?ds"
    and r: "calculate_risk (pl_steps p) i ctx = Inr r"
    and risk: "pl_risk p = (case choose_goal (planner_new None caps gs cfg) (in_target i) ctx of
        Some g \<Rightarrow> max r (goal_risk_score g) | None \<Rightarrow> r)"
    by (auto simp: make_plan_def Let_def)
  have "ordered [] (pl_steps p)" unfolding steps using ds(1) by (simp add: ordered_map plan_step_of_def)
  then have "set (concat (resolve_dependencies (pl_steps p))) = set (pl_steps p)"
    using resolve_schedulable ordered_schedulable by blast
  moreover have "list_all (\<lambda>s. pt_policy s \<noteq> None) (pl_steps p)" unfolding steps by (simp add: list_all_iff plan_step_of_def)
  moreover have "0 \<le> pl_risk p \<and> pl_risk p \<le> 1"
    using calculate_risk_bounds [OF r] by (auto simp: risk goal_risk_score_def split: option.splits)
  ultimately show ?thesis using ds(2) steps by simp
qed


definition launch_intent :: intent where
  "launch_intent =
     \<lparr>in_action = ''execute'', in_target = ''executor.launch'', in_params = [(''app_name'', PStr ''notepad'')],
      in_confidence = 1\<rparr>"

definition plain_planner :: planner where
  "plain_planner = planner_new None None None None"

theorem plans_are_schedulable_witness:
  "\<exists>p. make_plan plain_planner launch_intent None [] = Inr p \<and> pl_steps p \<noteq> []
    \<and> set (concat (resolve_dependencies (pl_steps p))) = set (pl_steps p)
    \<and> list_all (\<lambda>s. pt_policy s \<noteq> None) (pl_steps p) \<and> 0 \<le> pl_risk p \<and> pl_risk p \<le> 1"
proof -
  have "\<not> is_err (make_plan plain_planner launch_intent None [])" by code_simp
  then obtain p where p: "make_plan plain_planner launch_intent None [] = Inr p"
    by (cases "make_plan plain_planner launch_intent None []") simp_all
  with plans_are_schedulable [of None None None launch_intent None "[]" p] show ?thesis
    by (auto simp: plain_planner_def)
qed

text \<open>The estimated duration of a plan is always zero: the steps are copied without their estimate.\<close>

theorem duration_always_zero:
  assumes "make_plan pn i ctx profiles = Inr p"
  shows "pl_duration p = 0"
  using assms by (auto simp: make_plan_def Let_def total_duration_def plan_step_of_def comp_def)

definition long_step :: step where
  "long_step = (simple_step ''s'' ''t'' ''d'' ''low'')\<lparr>pt_duration := Some 5000\<rparr>"

theorem duration_always_zero_witness:
  "\<exists>p. make_plan (planner_new (Some [(''x'', [long_step])]) None None None) (launch_intent\<lparr>in_target := ''x''\<rparr>) None []
        = Inr p \<and> pl_duration p = 0"
proof -
  let ?m = "make_plan (planner_new (Some [(''x'', [long_step])]) None None None) (launch_intent\<lparr>in_target := ''x''\<rparr>) None []"
  have "\<not> is_err ?m" by code_simp
  then obtain p where p: "?m = Inr p" by (cases ?m) simp_all
  with duration_always_zero [OF p] show ?thesis by blast
qed

lemma setdefault_keeps:
  "map_of d k = Some v
    \<Longrightarrow> map_of (fold (\<lambda>(k, v) d. if map_of d k = None then AList.update k v d else d) xs d) k = Some v"
  by (rule fold_invariant [where Q = "\<lambda>_. True"]) (auto simp: update_conv')

text \<open>Undoing a planned write destroys the file: for a step made from the capability
  \<open>filesystem.write\<close>, the rollback calls \<open>filesystem.undo_write\<close> with the text \<open>original_content\<close> as the content to
  restore, whatever content the write had saved in its result.\<close>

theorem undo_writes_placeholder:
  assumes "cp_id c = ''filesystem.write''"
  shows "rollback_list run [(plan_step.truncate (step_from_capability c), data)] s
     = (let (s', r) = run s ''filesystem.undo_write'' (rollback_params (plan_step.truncate (step_from_capability c)) data)
        in (s', [action_of (plan_step.truncate (step_from_capability c)) r]))
   \<and> pget (rollback_params (plan_step.truncate (step_from_capability c)) data) ''original_content''
       = PStr ''original_content''"
proof -
  let ?st = "plan_step.truncate (step_from_capability c)"
  have st: "reversible ?st" "ps_rollback_tool_id ?st = Some ''filesystem.undo_write''"
    "ps_rollback_params ?st = Some [(''original_content'', PStr ''original_content'')]"
    using assms by (simp_all add: step_from_capability_def Let_def rollback_map_def plan_step.truncate_def reversible_def)
  have "pget (rollback_params ?st data) ''original_content'' = PStr ''original_content''"
    by (simp add: rollback_params_def st pget_def dict_get_def setdefault_keeps)
  then show ?thesis using st by (simp add: case_prod_beta' Let_def)
qed

definition write_capability :: capability where
  "write_capability =
     \<lparr>cp_id = ''filesystem.write'', cp_name = ''Write'', cp_description = [], cp_category = ''files'', cp_risk = MEDIUM,
      cp_requires_confirmation = False, cp_permissions = [], cp_parameters = [], cp_result_type = ''status'',
      cp_tags = [], cp_version = ''1'', cp_timeout = 30, cp_impact = None, cp_reversible = None,
      cp_rollback_available = None, cp_default_parameters = [], cp_required_level = None\<rparr>"

theorem undo_writes_placeholder_witness:
  "rollback_list (\<lambda>s t ps. (s @ [(t, ps)], Rolled True None))
      [(plan_step.truncate (step_from_capability write_capability), PDict [(''original_content'', PStr ''saved text'')])] []
     = (let (s', r) = (\<lambda>s t ps. (s @ [(t, ps)], Rolled True None)) [] ''filesystem.undo_write''
              (rollback_params (plan_step.truncate (step_from_capability write_capability))
                 (PDict [(''original_content'', PStr ''saved text'')]))
        in (s', [action_of (plan_step.truncate (step_from_capability write_capability)) r]))
   \<and> pget (rollback_params (plan_step.truncate (step_from_capability write_capability))
        (PDict [(''original_content'', PStr ''saved text'')])) ''original_content'' = PStr ''original_content''"
  by (rule undo_writes_placeholder) (simp add: write_capability_def)

lemma fold_update_other:
  "k \<notin> set (keys xs) \<Longrightarrow> map_of (fold (\<lambda>(k, v). AList.update k v) xs d) k = map_of d k"
proof (induction xs arbitrary: d)
  case (Cons x xs)
  then show ?case by (cases x) (simp add: update_conv')
qed simp

text \<open>The check for unknown applications never fires for a launch: the intent carries the application under
  \<open>app_name\<close>, the risk looks for it under \<open>app\<close> and \<open>name\<close>, so no step of a launch plan counts as
  unknown, whatever is installed.\<close>

theorem launch_never_unknown:
  assumes "in_target i = ''executor.launch''" and "set (keys (in_params i)) \<inter> {''app'', ''name''} = {}"
  shows "unknown_app c apps (map (plan_step_of i ctx profiles) (definitions_for plain_planner ''executor.launch'')) = Inr False"
proof -
  have launch: "definitions_for plain_planner ''executor.launch'' =
      [discover_step, check_step,
       (simple_step ''launch'' ''executor.launch'' ''Launch process'' ''medium'')
         \<lparr>ps_is_reversible := True, ps_rollback_tool_id := Some ''executor.kill'', pt_depends := [''check'']\<rparr>]"
    by (simp add: definitions_for_def plain_planner_def planner_new_def step_definitions_def dict_get_def)
  have other: "pget (pt_params (plan_step_of i ctx profiles s)) k = pget (pt_params s) k" if "k \<in> {''app'', ''name''}" for s k
  proof -
    have "k \<notin> set (keys (in_params i))" using that assms(2) by blast
    from fold_update_other [OF this] show ?thesis
      using assms(1) by (simp add: plan_step_of_def step_params_def pget_def dict_get_def)
  qed
  have none: "pget (pt_params s) k = PNone"
    if "s \<in> set (definitions_for plain_planner ''executor.launch'')" "k \<in> {''app'', ''name''}" for s k
    using that by (auto simp: launch discover_step_def check_step_def simple_step_def)
  have "\<not> truthy (named_app (plan_step_of i ctx profiles s))"
    if "s \<in> set (definitions_for plain_planner ''executor.launch'')" for s
    using other none [OF that] by (simp add: named_app_def)
  then show ?thesis unfolding launch by simp
qed

theorem launch_never_unknown_witness:
  "unknown_app \<lparr>us_cpu = None, us_memory = None, us_disk = None, pc_deep = None, pc_apps = []\<rparr> []
     (map (plan_step_of launch_intent None []) (definitions_for plain_planner ''executor.launch'')) = Inr False"
  by (rule launch_never_unknown) (simp_all add: launch_intent_def)

end
