(* ===== verification/Risk.thy ===== *)
theory Risk
  imports Planning
begin

text \<open>
  From a plan to a decision: the simulation (\<open>sentinel/core/simulation.py\<close>), the objective risk
  (\<open>sentinel/core/objective_risk_assessor.py\<close>), the risk classifier
  (\<open>sentinel/core/risk_classifier.py\<close>) and the decision engine (\<open>sentinel/core/decision_engine.py\<close>).
  The context is the planner's, with the further entries that these classes read. How a number prints
  is an argument. The fixed Spanish explanations are constructors. The snapshot before the simulation
  is not modelled, and the classifier's own simulation is not either: it is a coroutine that is never
  awaited and has no impacts.
\<close>

section \<open>The context\<close>

record summary =
  sm_cpu :: "rat option"
  sm_memory :: "rat option"
  sm_disk :: "rat option"
  sm_processes :: "int option"

record sim_entry =
  se_overall :: string
  se_irreversible :: bool

record risk_context = plan_context +
  rc_summary :: "summary option"
  rc_changes :: "string list"
  rc_known_apps :: "string list"
  rc_simulation :: "sim_entry option"

definition apps_of :: "'a plan_context_scheme \<Rightarrow> app_profile list" where
  "apps_of c = (case pc_deep c of Some d \<Rightarrow> dc_apps d | None \<Rightarrow> [])"

definition hardware_of :: "'a plan_context_scheme \<Rightarrow> hardware" where
  "hardware_of c = (case pc_deep c of Some d \<Rightarrow> dc_hardware d | None \<Rightarrow> no_hardware)"

definition low_vram :: "hardware \<Rightarrow> bool" where
  "low_vram hw = (case hw_vram hw of Some v \<Rightarrow> v < 4 | None \<Rightarrow> False)"

definition above :: "rat option \<Rightarrow> rat \<Rightarrow> bool" where
  "above v limit = (case v of Some x \<Rightarrow> limit < x | None \<Rightarrow> False)"


section \<open>Simulation\<close>

record tool_impact =
  ti_type :: string
  ti_level :: string
  ti_duration :: int
  ti_irreversible :: bool

definition tool_impacts :: "(string \<times> tool_impact) list" where
  "tool_impacts =
     (let i = \<lambda>t l d. \<lparr>ti_type = t, ti_level = l, ti_duration = d, ti_irreversible = False\<rparr>;
          r = \<lambda>d. \<lparr>ti_type = ''read'', ti_level = ''none'', ti_duration = d, ti_irreversible = False\<rparr>
      in [(''system.info'', r 500), (''system.cpu'', r 200), (''system.memory'', r 200), (''system.disk'', r 300),
          (''system.network'', r 500), (''system.processes'', r 300), (''system.gpu'', r 500),
          (''hardware.intelligence'', r 500), (''hardware.profile'', r 500), (''ai.chat'', r 2000),
          (''ai.analyze'', r 3000), (''ai.config'', i ''config'' ''medium'' 200), (''filesystem.read'', r 500),
          (''filesystem.write'', i ''write'' ''high'' 1000), (''filesystem.delete'', i ''write'' ''critical'' 500),
          (''filesystem.undo_write'', i ''write'' ''medium'' 500), (''filesystem.restore'', i ''write'' ''medium'' 500),
          (''executor.restart'', i ''execute'' ''medium'' 3000), (''executor.command'', i ''execute'' ''high'' 5000),
          (''executor.launch'', i ''execute'' ''high'' 3000),
          (''executor.kill'', (i ''system'' ''high'' 500)\<lparr>ti_irreversible := True\<rparr>),
          (''app.discovery'', r 1000), (''fleet.status'', r 1000),
          (''fleet.generate_pairing'', i ''config'' ''medium'' 2000),
          (''fleet.revoke_pairing'', (i ''config'' ''high'' 1000)\<lparr>ti_irreversible := True\<rparr>),
          (''permissions.status'', r 200), (''permissions.set_level'', i ''config'' ''critical'' 200),
          (''permissions.emergency'', (i ''system'' ''critical'' 200)\<lparr>ti_irreversible := True\<rparr>),
          (''plugins.list'', r 500), (''plugins.load'', i ''config'' ''medium'' 2000),
          (''plugins.unload'', i ''config'' ''medium'' 1000), (''trigger.evaluate'', r 500),
          (''trigger.toggle'', i ''config'' ''low'' 200), (''proactive.write'', i ''write'' ''medium'' 500),
          (''sentinel.process'', i ''execute'' ''medium'' 3000), (''pipeline.report'', i ''network'' ''high'' 15000)])"

definition irreversible_tools :: "string list" where
  "irreversible_tools = [''executor.kill'', ''fleet.revoke_pairing'', ''permissions.emergency'']"

definition base_impact :: "string \<Rightarrow> tool_impact" where
  "base_impact tool =
     dict_get tool_impacts tool
       \<lparr>ti_type = ''execute'', ti_level = ''medium'', ti_duration = 1000, ti_irreversible = False\<rparr>"

record impact =
  im_step :: string
  im_tool :: string
  im_description :: string
  im_type :: string
  im_level :: string
  im_duration :: int
  im_files :: "pyval list"
  im_processes :: "string list"
  im_network :: "string list"
  im_config :: "string list"
  im_warnings :: "string list"
  im_reboot :: bool
  im_irreversible :: bool

definition param2 :: "params \<Rightarrow> string \<Rightarrow> string \<Rightarrow> pyval" where
  \<comment> \<open>\<open>params.get(k, params.get(k2, ""))\<close>\<close>
  "param2 ps k k2 = dict_get ps k (dict_get ps k2 (PStr []))"

definition destructive_keywords :: "string list" where
  "destructive_keywords = [''rm -rf'', ''shutdown'', ''format'', ''mkfs'', ''dd '']"

definition dash :: string where
  \<comment> \<open>the long dash of the messages, in UTF-8\<close>
  "dash = [CHR 0xE2, CHR 0x80, CHR 0x94]"

definition write_effects :: "params \<Rightarrow> pyval list \<times> string list" where
  "write_effects ps =
     (let path = param2 ps ''path'' ''file''; content = param2 ps ''content'' ''data''
      in (if truthy path then [path] else [],
          if truthy content \<and> 100 < length (py_str content)
          then [''Writing '' @ nat_str (length (py_str content)) @ '' bytes to ''
                @ py_str (py_or path (PStr ''unknown path''))] else []))"

definition delete_effects :: "params \<Rightarrow> pyval list \<times> string list" where
  "delete_effects ps =
     (let path = param2 ps ''path'' ''file'' in
      if truthy path then ([path], [''Deleting '' @ py_str path @ '' (backup saved to temp)'']) else ([], []))"

definition command_effects :: "params \<Rightarrow> (string option \<times> string list \<times> string list) result" where
  \<comment> \<open>a new level, the processes and the warnings\<close>
  "command_effects ps =
     (case param2 ps ''command'' ''cmd'' of
        PStr cmd \<Rightarrow>
          if cmd = [] then Inr (None, [], [])
          else if list_ex (\<lambda>kw. sublist kw (lower cmd)) destructive_keywords
          then Inr (Some ''critical'', [take 80 cmd], [''DESTRUCTIVE command: '' @ take 80 cmd])
          else Inr (None, [take 80 cmd], [])
      | v \<Rightarrow> if truthy v then Inl (AnyException ''AttributeError'') else Inr (None, [], []))"

definition launch_level :: "risk_context \<Rightarrow> string \<Rightarrow> string option" where
  "launch_level c app =
     (if list_ex (\<lambda>a. lower a = lower app) (rc_known_apps c) then Some ''low''
      else map_option (\<lambda>p. if 7/10 \<le> ap_confidence p then ''low'' else ''medium'') (find_app (apps_of c) app))"

definition launch_effects :: "risk_context \<Rightarrow> params \<Rightarrow> (string option \<times> string list) result" where
  "launch_effects c ps =
     (case param2 ps ''app'' ''name'' of
        PStr app \<Rightarrow> if app = [] then Inr (None, []) else Inr (launch_level c app, [app])
      | v \<Rightarrow> if truthy v then Inl (AnyException ''AttributeError'') else Inr (None, []))"

definition config_effects :: "string \<Rightarrow> params \<Rightarrow> string list \<times> string list" where
  "config_effects tool ps =
     (if tool = ''ai.config'' then
        (let v = param2 ps ''provider'' ''model''
         in (if truthy v then [''AI provider/model: '' @ py_str v] else [], []))
      else if tool = ''permissions.set_level'' then
        (let v = dict_get ps ''level'' (PStr [])
         in (if truthy v then [''Permission level -> '' @ py_str v] else [],
             if v = PStr ''admin'' then [''Elevating to admin permissions''] else []))
      else ([], []))"

definition gpu_words :: "string list" where
  "gpu_words = [''gpu'', ''cuda'', ''render'', ''3d'', ''video'', ''graphics'', ''machine learning'', ''ai'', ''tensor'']"

definition vram_words :: "string list" where
  "vram_words = [''llm'', ''ai'', ''model'', ''stable diffusion'', ''training'']"

definition word_in :: "string list \<Rightarrow> string \<Rightarrow> bool" where
  "word_in ws s \<longleftrightarrow> list_ex (\<lambda>w. sublist w (lower s)) ws"

definition hardware_warnings :: "(rat \<Rightarrow> string) \<Rightarrow> risk_context \<Rightarrow> string \<Rightarrow> string \<Rightarrow> string list" where
  "hardware_warnings sh c tool description =
     (let hw = hardware_of c; launch = tool \<in> {''executor.launch'', ''app.launch''} in
      (if launch \<and> hw_gpu hw = Some False \<and> word_in gpu_words description
       then [''No GPU detected '' @ dash @ '' GPU-dependent launch may fail or use CPU fallback''] else [])
      @ (if tool \<in> {''system.gpu'', ''hardware.intelligence''} \<and> hw_gpu hw = Some False
         then [''No GPU detected on this system''] else [])
      @ (if low_vram hw \<and> launch \<and> word_in vram_words description
         then [''Low GPU VRAM ('' @ sh (the (hw_vram hw)) @ ''GB) '' @ dash @ '' LLM/AI task may be slow or fail''] else []))"

definition catalog_warnings :: "risk_context \<Rightarrow> string \<Rightarrow> params \<Rightarrow> string list" where
  "catalog_warnings c tool ps =
     (let app = base_app_name (py_str (param2 ps ''app'' ''name'')) in
      if tool = ''executor.launch'' \<and> app \<noteq> [] \<and> \<not> list_ex (\<lambda>p. base_app_name (ap_name p) = app) (apps_of c)
      then [''App '' @ quoted app @ '' not found in installed catalog''] else [])"

definition load_warnings :: "(rat \<Rightarrow> string) \<Rightarrow> risk_context \<Rightarrow> string list" where
  "load_warnings sh c =
     (if ''hardware_capacity_changed'' \<in> set (rc_changes c)
      then [''Hardware configuration recently changed '' @ dash @ '' execution may behave differently''] else [])
     @ (if ''application_removed'' \<in> set (rc_changes c)
        then [''An application was recently removed '' @ dash @ '' verify required tools still exist''] else [])
     @ (case rc_summary c of
          None \<Rightarrow> []
        | Some s \<Rightarrow>
            (if above (sm_cpu s) 80
             then [''High CPU load ('' @ sh (the (sm_cpu s)) @ ''%) '' @ dash @ '' execution may be slow''] else [])
            @ (if above (sm_memory s) 85
               then [''High memory usage ('' @ sh (the (sm_memory s)) @ ''%) '' @ dash @ '' execution may fail''] else []))"

text \<open>What the branch of the tool adds: a new level, files, processes, network, configuration and warnings.\<close>

record effects =
  ef_level :: "string option"
  ef_files :: "pyval list"
  ef_processes :: "string list"
  ef_network :: "string list"
  ef_config :: "string list"
  ef_warnings :: "string list"

definition no_effects :: effects where
  "no_effects = \<lparr>ef_level = None, ef_files = [], ef_processes = [], ef_network = [], ef_config = [], ef_warnings = []\<rparr>"

definition tool_effects :: "risk_context \<Rightarrow> string \<Rightarrow> params \<Rightarrow> effects result" where
  "tool_effects c tool ps =
     (if tool = ''filesystem.write'' then
        Inr (no_effects\<lparr>ef_files := fst (write_effects ps), ef_warnings := snd (write_effects ps)\<rparr>)
      else if tool = ''filesystem.delete'' then
        Inr (no_effects\<lparr>ef_files := fst (delete_effects ps), ef_warnings := snd (delete_effects ps)\<rparr>)
      else if tool = ''executor.command'' then
        bind_result (command_effects ps) (\<lambda>(l, procs, ws).
          Inr (no_effects\<lparr>ef_level := l, ef_processes := procs, ef_warnings := ws\<rparr>))
      else if tool = ''executor.kill'' then
        (let v = param2 ps ''pid'' ''process''
         in Inr (no_effects\<lparr>ef_processes := (if truthy v then [py_str v] else [])\<rparr>))
      else if tool = ''executor.launch'' then
        bind_result (launch_effects c ps) (\<lambda>(l, procs). Inr (no_effects\<lparr>ef_level := l, ef_processes := procs\<rparr>))
      else if tool \<in> {''fleet.generate_pairing'', ''fleet.revoke_pairing''} then
        Inr (no_effects\<lparr>ef_network := [''fleet network'']\<rparr>)
      else Inr (no_effects\<lparr>ef_config := fst (config_effects tool ps), ef_warnings := snd (config_effects tool ps)\<rparr>))"

definition predict_impact :: "(rat \<Rightarrow> string) \<Rightarrow> risk_context \<Rightarrow> step \<Rightarrow> impact result" where
  "predict_impact sh c s =
     (let tool = ps_tool_id s; base = base_impact tool in
      bind_result (tool_effects c tool (pt_params s)) (\<lambda>ef. Inr
        \<lparr>im_step = ps_id s, im_tool = tool,
         im_description = (if pt_description s \<noteq> [] then pt_description s else tool),
         im_type = ti_type base, im_level = (case ef_level ef of Some l \<Rightarrow> l | None \<Rightarrow> ti_level base),
         im_duration = ti_duration base, im_files = ef_files ef, im_processes = ef_processes ef,
         im_network = ef_network ef, im_config = ef_config ef,
         im_warnings = ef_warnings ef @ hardware_warnings sh c tool (pt_description s)
           @ catalog_warnings c tool (pt_params s) @ load_warnings sh c,
         im_reboot = False, im_irreversible = ti_irreversible base \<or> tool \<in> set irreversible_tools\<rparr>))"

definition level_score :: "string \<Rightarrow> nat" where
  "level_score l = dict_get [(''critical'', 4), (''high'', 3), (''medium'', 2), (''low'', 1), (''none'', 0)] l 0"

definition overall_risk :: "impact list \<Rightarrow> string" where
  "overall_risk is =
     (if is = [] then ''low''
      else
        (let m = fold max (map (\<lambda>i. level_score (im_level i)) is) 0;
             m2 = (if list_ex im_irreversible is then max m 4 else m);
             m3 = (if 2 \<le> length (filter (\<lambda>i. im_level i = ''critical'') is) then max m2 4 else m2)
         in dict_get [(4, ''critical''), (3, ''high''), (2, ''medium''), (1, ''low''), (0, ''low'')] m3 ''low''))"

fun strings_of :: "pyval list \<Rightarrow> string list result" where
  \<comment> \<open>the items that \<open>join\<close> accepts\<close>
  "strings_of [] = Inr []"
| "strings_of (v # vs) =
     (case v of PStr s \<Rightarrow> bind_result (strings_of vs) (\<lambda>ss. Inr (s # ss)) | _ \<Rightarrow> Inl (AnyException ''TypeError''))"

definition impact_details :: "impact \<Rightarrow> string list result" where
  "impact_details i =
     bind_result (strings_of (take 3 (im_files i))) (\<lambda>files. Inr
       ((if im_files i \<noteq> [] then [''files: '' @ join '', '' files] else [])
        @ (if im_processes i \<noteq> [] then [''processes: '' @ join '', '' (take 3 (im_processes i))] else [])
        @ (if im_network i \<noteq> [] then [''network''] else [])
        @ (if im_config i \<noteq> [] then [''config: '' @ join '', '' (take 2 (im_config i))] else [])
        @ (if im_warnings i \<noteq> [] then [''WARNING '' @ join ''; '' (take 3 (im_warnings i))] else [])))"

fun impact_lines :: "impact list \<Rightarrow> string list result" where
  "impact_lines [] = Inr []"
| "impact_lines (i # is) =
     bind_result (impact_details i) (\<lambda>ds. bind_result (impact_lines is) (\<lambda>ls. Inr
       ((''  '' @ im_step i @ '': ['' @ im_level i @ ''] '' @ im_description i
         @ (if ds = [] then [] else '' ['' @ join ''; '' ds @ '']'')) # ls)))"

definition build_summary :: "impact list \<Rightarrow> string \<Rightarrow> string result" where
  "build_summary is risk =
     bind_result (impact_lines is) (\<lambda>ls. Inr (join [CHR 0x0A]
       ([''Simulation: '' @ nat_str (length is) @ '' step(s), risk: '' @ risk] @ ls
        @ [if risk \<in> {''high'', ''critical''} then ''WARNING Confirmation required due to risk level''
           else if list_ex im_irreversible is then ''WARNING Confirmation required (irreversible actions)''
           else ''OK Low risk - can auto-execute''])))"

record simulation =
  si_plan_id :: string
  si_impacts :: "impact list"
  si_overall :: string
  si_requires_confirmation :: bool
  si_summary :: string

fun predict_all :: "(rat \<Rightarrow> string) \<Rightarrow> risk_context \<Rightarrow> step list \<Rightarrow> impact list result" where
  "predict_all sh c [] = Inr []"
| "predict_all sh c (s # ss) =
     bind_result (predict_impact sh c s) (\<lambda>i. bind_result (predict_all sh c ss) (\<lambda>is. Inr (i # is)))"

definition simulate :: "(rat \<Rightarrow> string) \<Rightarrow> risk_context \<Rightarrow> plan \<Rightarrow> simulation result" where
  \<comment> \<open>a \<open>Plan\<close> has no identifier\<close>
  "simulate sh c p =
     bind_result (predict_all sh c (pl_steps p)) (\<lambda>is.
       bind_result (build_summary is (overall_risk is)) (\<lambda>text. Inr
         \<lparr>si_plan_id = ''unknown'', si_impacts = is, si_overall = overall_risk is,
          si_requires_confirmation = overall_risk is \<in> {''high'', ''critical''} \<or> list_ex im_irreversible is,
          si_summary = text\<rparr>))"


section \<open>Objective risk\<close>

definition context_modifiers :: "(string \<times> rat) list" where
  "context_modifiers =
     [(''cpu_critical'', 10/100), (''memory_critical'', 15/100), (''disk_critical'', 10/100),
      (''many_processes'', 5/100), (''new_app_detected'', 8/100), (''app_removed'', 5/100),
      (''app_capabilities_changed'', 10/100), (''hardware_changed'', 12/100), (''gpu_unavailable'', 15/100),
      (''gpu_low_vram'', 10/100), (''app_not_found'', 8/100), (''app_low_confidence'', 5/100)]"

definition env_change_factors :: "(string \<times> string) list" where
  "env_change_factors =
     [(''application_added'', ''new_app_detected''), (''application_removed'', ''app_removed''),
      (''application_capabilities_changed'', ''app_capabilities_changed''),
      (''hardware_capacity_changed'', ''hardware_changed'')]"

definition impact_thresholds :: "(string \<times> rat \<times> rat) list" where
  \<comment> \<open>the limits for automatic execution and for confirmation, by permission level\<close>
  "impact_thresholds =
     [(''view'', 0, 1/10), (''confirm'', 3/10, 7/10), (''auto'', 6/10, 9/10), (''admin'', 1, 1)]"

definition graded :: "rat option \<Rightarrow> rat \<Rightarrow> rat \<Rightarrow> string \<Rightarrow> string list" where
  "graded v critical high name =
     (if above v critical then [name @ ''_critical''] else if above v high then [name @ ''_high''] else [])"

definition summary_factors :: "summary option \<Rightarrow> string list" where
  "summary_factors so =
     (case so of
        None \<Rightarrow> []
      | Some s \<Rightarrow> graded (sm_cpu s) 90 70 ''cpu'' @ graded (sm_memory s) 90 75 ''memory'' @ graded (sm_disk s) 95 85 ''disk''
          @ (case sm_processes s of Some n \<Rightarrow> if 200 < n then [''many_processes''] else [] | None \<Rightarrow> []))"

fun change_factors :: "string list \<Rightarrow> string list \<Rightarrow> string list" where
  \<comment> \<open>each factor once\<close>
  "change_factors seen [] = []"
| "change_factors seen (c # cs) =
     (case map_of env_change_factors c of
        Some f \<Rightarrow> if f \<in> set seen then change_factors seen cs else f # change_factors (f # seen) cs
      | None \<Rightarrow> change_factors seen cs)"

fun app_factors :: "plan_context option \<Rightarrow> app_profile list \<Rightarrow> step list \<Rightarrow> string list result" where
  "app_factors c apps [] = Inr []"
| "app_factors c apps (s # ss) =
     (if \<not> truthy (named_app s) then app_factors c apps ss
      else (case named_app s of
              PStr a \<Rightarrow> bind_result (app_factors c apps ss) (\<lambda>fs. Inr
                ((case application_evidence c a apps of
                    None \<Rightarrow> [''app_not_found'']
                  | Some p \<Rightarrow> if 0 < ap_confidence p \<and> ap_confidence p < 7/10 then [''app_low_confidence''] else []) @ fs))
            | _ \<Rightarrow> Inl (AnyException ''AttributeError'')))"

definition context_factors :: "risk_context option \<Rightarrow> step list \<Rightarrow> string list result" where
  "context_factors ctx steps =
     (let hw = (case ctx of Some c \<Rightarrow> hardware_of c | None \<Rightarrow> no_hardware);
          apps = (case ctx of Some c \<Rightarrow> apps_of c | None \<Rightarrow> [])
      in bind_result (app_factors (map_option plan_context.truncate ctx) apps steps) (\<lambda>fs. Inr
           ((case ctx of Some c \<Rightarrow> summary_factors (rc_summary c) @ change_factors [] (rc_changes c) | None \<Rightarrow> [])
            @ (if hw_gpu hw = Some False then [''gpu_unavailable''] else [])
            @ (if low_vram hw then [''gpu_low_vram''] else []) @ fs)))"

definition simulation_modifier :: "sim_entry \<Rightarrow> string \<Rightarrow> rat" where
  "simulation_modifier e level =
     (if se_overall e = ''critical'' then (if se_irreversible e then 5/10 else 3/10)
      else if se_overall e = ''high'' then 2/10
      else if se_overall e = ''medium'' then (if level \<noteq> ''admin'' then 1/10 else 0)
      else if se_overall e = ''low'' then - (1/10) else 0)"

record assessment =
  as_base :: rat
  as_factors :: "string list"
  as_modifier :: rat
  as_simulation :: rat
  as_final :: rat
  as_irreversible :: bool
  as_confirm :: bool
  as_reject :: bool
  as_sources :: "string list"

definition irreversible_plan :: "step list \<Rightarrow> bool" where
  "irreversible_plan steps \<longleftrightarrow>
     list_ex (\<lambda>s. pt_impact s \<in> {''high'', ''critical''} \<and> \<not> ps_is_reversible s) steps"

definition thresholds :: "string \<Rightarrow> rat \<times> rat" where
  "thresholds level = dict_get impact_thresholds level (3/10, 7/10)"

definition final_risk :: "rat \<Rightarrow> string list \<Rightarrow> rat \<Rightarrow> rat" where
  "final_risk base factors sim =
     max (min (base + sum_list (map (\<lambda>f. dict_get context_modifiers f 0) factors) + sim) 1) 0"

definition assess :: "plan \<Rightarrow> risk_context option \<Rightarrow> string \<Rightarrow> assessment result" where
  "assess p ctx level =
     bind_result (context_factors ctx (pl_steps p)) (\<lambda>fs.
       let sim = Option.bind ctx rc_simulation;
           m = (case sim of Some e \<Rightarrow> simulation_modifier e level | None \<Rightarrow> 0);
           final = final_risk (pl_risk p) fs m;
           irr = irreversible_plan (pl_steps p);
           crit = (case sim of Some e \<Rightarrow> se_overall e = ''critical'' \<and> se_irreversible e | None \<Rightarrow> False)
       in Inr
         \<lparr>as_base = pl_risk p, as_factors = fs,
          as_modifier = sum_list (map (\<lambda>f. dict_get context_modifiers f 0) fs), as_simulation = m, as_final = final,
          as_irreversible = irr,
          as_confirm = fst (thresholds level) < final \<or> irr \<and> level \<noteq> ''admin'',
          as_reject = snd (thresholds level) < final \<or> crit \<and> \<not> irr,
          as_sources = [''plan_risk_score'', ''system_context'']
            @ (if list_ex (\<lambda>f. f \<in> snd ` set env_change_factors) fs then [''environment_learning''] else [])
            @ [''step_analysis''] @ (if sim \<noteq> None then [''simulation''] else [])\<rparr>)"


section \<open>Classification\<close>

text \<open>The explanations of a level, in the order of \<open>_build_description\<close>.\<close>

datatype risk_text = Opens_Known_App | Only_Reads | Opens_Unverified_App | Is_Reversible | Significant_Change | Irreversible_Operation

datatype risk_label = Bajo | Medio | Alto | Critico

record classification =
  cl_level :: risk_level
  cl_score :: rat
  cl_label :: risk_label
  cl_description :: risk_text
  cl_read_only :: bool
  cl_reversible :: bool
  cl_resources :: "string list"
  cl_impact :: string
  cl_summary :: string
  cl_factors :: "string list"
  cl_irreversible :: bool

definition low_read_tools :: "string list" where
  "low_read_tools =
     [''system.health'', ''system.info'', ''system.cpu'', ''system.memory'', ''system.disk'', ''system.network'',
      ''system.processes'', ''system.gpu'', ''filesystem.read'', ''filesystem.search'', ''filesystem.list'',
      ''app.discovery'']"

definition medium_reversible_tools :: "string list" where
  "medium_reversible_tools = [''filesystem.write'', ''executor.kill'', ''executor.restart'']"

definition suspicious_markers :: "string list" where
  "suspicious_markers =
     map win [''/temp/'', ''/tmp/'', ''/appdata/local/temp/'', ''/downloads/'', ''/users/public/'']"

definition known_app_names :: "string list" where
  "known_app_names =
     [''notepad'', ''calc'', ''calculator'', ''chrome'', ''edge'', ''firefox'', ''brave'', ''opera'', ''word'', ''excel'',
      ''paint'', ''powershell'', ''terminal'', ''cmd'', ''explorer'', ''taskmgr'', ''code'', ''vscode'', ''winword'',
      ''outlook'', ''powerpnt'', ''msaccess'']"

definition without_exe :: "string \<Rightarrow> string" where
  "without_exe s = (if suffix ''.exe'' s then take (length s - 4) s else s)"

definition suspicious_path :: "params \<Rightarrow> bool" where
  "suspicious_path ps =
     (let path = lower (py_str (py_or (dict_get ps ''executable_path'' (PStr [])) (dict_get ps ''path'' (PStr []))))
      in path \<noteq> [] \<and> list_ex (\<lambda>m. sublist m path) suspicious_markers)"

definition classify_launch :: "(string \<Rightarrow> bool) \<Rightarrow> params \<Rightarrow> string list \<Rightarrow> risk_level" where
  \<comment> \<open>the first argument is the knowledge service: whether it knows the name or is confident of it\<close>
  "classify_launch knows ps known =
     (let app = lower (strip (py_str (dict_get ps ''app_name'' (PStr [])))); base = without_exe app in
      if app = [] then MEDIUM
      else if sublist ''!'' app then LOW
      else if list_ex (\<lambda>a. lower a = app) known then LOW
      else if knows app then LOW
      else if suspicious_path ps then HIGH
      else if base \<noteq> app \<and> base \<in> set known_app_names then LOW
      else if list_ex (\<lambda>k. sublist k base \<and> k \<noteq> base) known_app_names then HIGH
      else MEDIUM)"

definition classify_by_plan :: "step list \<Rightarrow> risk_level" where
  "classify_by_plan steps =
     (let is = map pt_impact steps in
      if ''critical'' \<in> set is then CRITICAL else if ''high'' \<in> set is then HIGH
      else if ''medium'' \<in> set is then MEDIUM else LOW)"

definition classify_level :: "(string \<Rightarrow> bool) \<Rightarrow> intent \<Rightarrow> step list \<Rightarrow> string list \<Rightarrow> risk_level" where
  "classify_level knows i steps known =
     (let t = in_target i in
      if t = ''filesystem.delete'' then HIGH
      else if t \<in> set medium_reversible_tools then MEDIUM
      else if t \<in> set low_read_tools then LOW
      else if t = ''executor.command'' then MEDIUM
      else if t = ''executor.launch'' then classify_launch knows (in_params i) known
      else classify_by_plan steps)"

fun level_to_score :: "risk_level \<Rightarrow> rat" where
  "level_to_score LOW = 1/10"
| "level_to_score MEDIUM = 4/10"
| "level_to_score HIGH = 7/10"
| "level_to_score CRITICAL = 95/100"

fun level_label :: "risk_level \<Rightarrow> risk_label" where
  "level_label LOW = Bajo"
| "level_label MEDIUM = Medio"
| "level_label HIGH = Alto"
| "level_label CRITICAL = Critico"

definition build_description :: "risk_level \<Rightarrow> string \<Rightarrow> risk_text" where
  "build_description l t =
     (case l of
        LOW \<Rightarrow> if t = ''executor.launch'' then Opens_Known_App else Only_Reads
      | MEDIUM \<Rightarrow> if t = ''executor.launch'' then Opens_Unverified_App else Is_Reversible
      | HIGH \<Rightarrow> Significant_Change
      | CRITICAL \<Rightarrow> Irreversible_Operation)"

definition is_read_only :: "intent \<Rightarrow> step list \<Rightarrow> bool" where
  "is_read_only i steps \<longleftrightarrow>
     in_action i = ''query'' \<or> in_action i \<in> {''analyze'', ''execute''} \<and> in_target i \<in> set low_read_tools
     \<or> list_all (\<lambda>s. pt_impact s \<in> {''low'', ''none''}) steps"

definition o_acute :: string where
  "o_acute = [CHR 0xC3, CHR 0xB3]"

definition plan_text :: "step list \<Rightarrow> intent \<Rightarrow> string" where
  "plan_text steps i =
     (let t = in_target i; app = dict_get (in_params i) ''app_name'' (PStr []) in
      if t = ''executor.launch'' then
        (if truthy app then ''Voy a iniciar '' @ py_str app @ ''.'' else ''Voy a iniciar una aplicaci'' @ o_acute @ ''n.'')
      else if t = ''executor.command'' then ''Voy a ejecutar un comando en el sistema.''
      else if t \<in> set low_read_tools then ''Solo lectura del sistema. No se realizan cambios.''
      else if t = ''filesystem.write'' then ''Voy a modificar un archivo.''
      else if t = ''filesystem.delete'' then
        ''Voy a eliminar un archivo. Esta acci'' @ o_acute @ ''n puede ser irreversible.''
      else if steps = [] then ''Voy a ejecutar la acci'' @ o_acute @ ''n solicitada.''
      else join ''; '' (map (\<lambda>s. ps_tool_id s @ '' ('' @ pt_impact s @ '')'') steps))"

definition estimate_impact :: "step list \<Rightarrow> intent \<Rightarrow> simulation option \<Rightarrow> string" where
  "estimate_impact steps i sim =
     (case sim of
        Some s \<Rightarrow> if si_summary s \<noteq> [] then si_summary s else plan_text steps i
      | None \<Rightarrow> plan_text steps i)"

definition step_resource :: "step \<Rightarrow> string list" where
  "step_resource s =
     (let has = (\<lambda>k. k \<in> set (keys (pt_params s))); v = (\<lambda>k. py_str (pget (pt_params s) k)) in
      if has ''target'' then [ps_tool_id s @ '': '' @ v ''target'']
      else if has ''path'' then [v ''path'']
      else if has ''process'' then [v ''process'']
      else if ps_tool_id s \<noteq> [] then [ps_tool_id s] else [])"

definition extract_resources :: "step list \<Rightarrow> simulation option \<Rightarrow> string list" where
  "extract_resources steps sim =
     fold (\<lambda>d rs. if d \<noteq> [] \<and> d \<notin> set rs then rs @ [d] else rs)
       (case sim of Some s \<Rightarrow> map im_description (si_impacts s) | None \<Rightarrow> [])
       (concat (map step_resource steps))"

definition classify_risk :: "(string \<Rightarrow> bool) \<Rightarrow> intent \<Rightarrow> step list \<Rightarrow> risk_context option \<Rightarrow> simulation option
    \<Rightarrow> classification" where
  "classify_risk knows i steps ctx sim =
     (let l = classify_level knows i steps (case ctx of Some c \<Rightarrow> rc_known_apps c | None \<Rightarrow> []);
          irr = (case sim of Some s \<Rightarrow> list_ex im_irreversible (si_impacts s) | None \<Rightarrow> False);
          l' = (if irr \<and> l \<noteq> CRITICAL then HIGH else l)
      in \<lparr>cl_level = l', cl_score = level_to_score l', cl_label = level_label l',
          cl_description = build_description l' (in_target i), cl_read_only = is_read_only i steps,
          cl_reversible = (\<not> irr), cl_resources = extract_resources steps sim,
          cl_impact = estimate_impact steps i sim,
          cl_summary = (case sim of Some s \<Rightarrow> si_summary s | None \<Rightarrow> []), cl_factors = [], cl_irreversible = irr\<rparr>)"


section \<open>Decisions\<close>

datatype decision = Approve | Reject | Require_Confirm | Modify

datatype decision_reason =
    Classified risk_text | View_Only | Simulated_Risk | Objective_Limit | Objective_Confirmation | Objective_Approval

record verdict =
  vd_decision :: decision
  vd_reason :: decision_reason
  vd_factors :: "string list"
  vd_base :: rat
  vd_modifier :: rat
  vd_final :: rat
  vd_extra :: "string option"

definition simulation_override :: "string \<Rightarrow> bool \<Rightarrow> rat \<Rightarrow> string \<Rightarrow> rat \<times> decision option \<times> string option" where
  \<comment> \<open>\<open>_simulation_risk_overrides\<close>, from the overall risk and whether an impact is irreversible\<close>
  "simulation_override overall irr final level =
     (let forced = (if level \<noteq> ''admin'' then Some Require_Confirm else None) in
      if overall = ''critical'' \<and> irr then
        (min (final + 5/10) 1, forced, if level \<noteq> ''admin'' then Some ''critical_irreversible'' else None)
      else if overall = ''critical'' then (min (final + 3/10) 1, forced, None)
      else if overall = ''high'' then (min (final + 2/10) 1, forced, None)
      else if overall = ''medium'' then (min (final + 1/10) 1, forced, None)
      else if overall = ''low'' then (max (final - 1/10) 0, None, None)
      else (final, None, None))"

definition verdict_of :: "decision \<Rightarrow> decision_reason \<Rightarrow> assessment \<Rightarrow> string option \<Rightarrow> verdict" where
  "verdict_of d r a extra =
     \<lparr>vd_decision = d, vd_reason = r, vd_factors = as_factors a, vd_base = as_base a, vd_modifier = as_modifier a,
      vd_final = as_final a, vd_extra = extra\<rparr>"

definition simulated :: "simulation option \<Rightarrow> risk_context option \<Rightarrow> (string \<times> bool) option" where
  \<comment> \<open>the overall risk and irreversibility that the decision looks at: of the given simulation, or of the entry of
    the context\<close>
  "simulated sim ctx =
     (case sim of
        Some s \<Rightarrow> Some (si_overall s, list_ex im_irreversible (si_impacts s))
      | None \<Rightarrow> map_option (\<lambda>e. (se_overall e, se_irreversible e)) (Option.bind ctx rc_simulation))"

definition decide_assessed :: "plan \<Rightarrow> risk_context option \<Rightarrow> simulation option \<Rightarrow> string \<Rightarrow> assessment \<Rightarrow> verdict" where
  "decide_assessed p ctx sim level a =
     (if level = ''view'' \<and> list_ex (\<lambda>s. pt_impact s \<noteq> ''low'') (pl_steps p) then verdict_of Reject View_Only a None
      else (case (case simulated sim ctx of
                    Some (overall, irr) \<Rightarrow> snd (simulation_override overall irr (as_final a) level)
                  | None \<Rightarrow> (None, None)) of
              (Some d, extra) \<Rightarrow> verdict_of d Simulated_Risk a extra
            | (None, _) \<Rightarrow>
                if level \<noteq> ''admin'' \<and> as_reject a then verdict_of Require_Confirm Objective_Limit a None
                else if level \<noteq> ''admin'' \<and> as_confirm a then verdict_of Require_Confirm Objective_Confirmation a None
                else verdict_of Approve Objective_Approval a None))"

definition decide :: "string \<Rightarrow> plan \<Rightarrow> risk_context option \<Rightarrow> simulation option \<Rightarrow> classification option
    \<Rightarrow> verdict result" where
  \<comment> \<open>\<open>DecisionEngine.evaluate\<close> at a permission level\<close>
  "decide level p ctx sim cl =
     (case cl of
        Some k \<Rightarrow>
          if level \<noteq> ''admin'' \<and> cl_level k = LOW
          then Inr \<lparr>vd_decision = Approve, vd_reason = Classified (cl_description k), vd_factors = cl_factors k,
                    vd_base = cl_score k, vd_modifier = 0, vd_final = cl_score k, vd_extra = None\<rparr>
          else bind_result (assess p ctx level) (\<lambda>a. Inr (decide_assessed p ctx sim level a))
      | None \<Rightarrow> bind_result (assess p ctx level) (\<lambda>a. Inr (decide_assessed p ctx sim level a)))"

definition read_only_targets :: "string list" where
  "read_only_targets =
     [''system.health'', ''system.info'', ''system.cpu'', ''system.memory'', ''system.disk'', ''system.network'',
      ''system.processes'', ''system.gpu'', ''app.discovery'']"

definition should_skip_decision :: "intent \<Rightarrow> bool" where
  "should_skip_decision i \<longleftrightarrow>
     1/2 < in_confidence i
     \<and> (in_action i = ''query'' \<or> in_action i = ''analyze'' \<and> in_target i \<in> set read_only_targets
        \<or> in_action i = ''execute'' \<and> in_target i \<in> set read_only_targets)"


section \<open>Properties\<close>

lemma le_fold_max: "k \<le> fold max xs (m :: nat) \<longleftrightarrow> k \<le> m \<or> (\<exists>x \<in> set xs. k \<le> x)"
  by (induction xs arbitrary: m) (auto simp: le_max_iff_disj)

lemma level_score_eq:
  "4 \<le> level_score l \<longleftrightarrow> l = ''critical''" "3 \<le> level_score l \<longleftrightarrow> l = ''critical'' \<or> l = ''high''"
  "2 \<le> level_score l \<longleftrightarrow> l = ''critical'' \<or> l = ''high'' \<or> l = ''medium''" "level_score l \<le> 4"
  by (auto simp: level_score_def dict_get_def)

lemma fold_max_le: "(\<forall>x \<in> set xs. x \<le> k) \<Longrightarrow> m \<le> k \<Longrightarrow> fold max xs m \<le> (k :: nat)"
  by (induction xs arbitrary: m) auto

lemma level_name:
  "m \<le> 4 \<Longrightarrow> dict_get [(4, ''critical''), (3, ''high''), (2, ''medium''), (1, ''low''), (0, ''low'')] m ''low''
     = (if 4 \<le> m then ''critical'' else if 3 \<le> m then ''high'' else if 2 \<le> m then ''medium'' else ''low'')" for m :: nat
  by (cases "m = 4"; cases "m = 3"; cases "m = 2"; cases "m = 1") (auto simp: dict_get_def)

lemma overall_risk_eq:
  "overall_risk is =
     (if list_ex (\<lambda>i. im_level i = ''critical'' \<or> im_irreversible i) is then ''critical''
      else if list_ex (\<lambda>i. im_level i = ''high'') is then ''high''
      else if list_ex (\<lambda>i. im_level i = ''medium'') is then ''medium'' else ''low'')"
proof (cases "is = []")
  case False
  let ?m = "fold max (map (\<lambda>i. level_score (im_level i)) is) 0"
  define n where "n = (if 2 \<le> length (filter (\<lambda>i. im_level i = ''critical'') is)
    then max (if list_ex im_irreversible is then max ?m 4 else ?m) 4 else (if list_ex im_irreversible is then max ?m 4 else ?m))"
  have m4: "?m \<le> 4" by (rule fold_max_le) (auto simp: level_score_eq)
  have crit: "2 \<le> length (filter (\<lambda>i. im_level i = ''critical'') is) \<Longrightarrow> \<exists>i \<in> set is. im_level i = ''critical''"
    by (rule ccontr) (simp add: filter_False)
  have four: "4 \<le> n \<longleftrightarrow> list_ex (\<lambda>i. im_level i = ''critical'' \<or> im_irreversible i) is"
    using crit by (auto simp: n_def le_max_iff_disj le_fold_max level_score_eq list_ex_iff)
  have rest: "\<not> 4 \<le> n \<Longrightarrow> n = ?m" and n4: "n \<le> 4" using m4 by (auto simp: n_def split: if_splits)
  have "overall_risk is = dict_get [(4, ''critical''), (3, ''high''), (2, ''medium''), (1, ''low''), (0, ''low'')] n ''low''"
    using False unfolding overall_risk_def n_def Let_def by (simp only: if_False)
  also have "\<dots> = (if 4 \<le> n then ''critical'' else if 3 \<le> n then ''high'' else if 2 \<le> n then ''medium'' else ''low'')"
    by (rule level_name [OF n4])
  finally have eq: "overall_risk is = \<dots>" .
  show ?thesis
  proof (cases "4 \<le> n")
    case False
    then have "\<not> list_ex (\<lambda>i. im_level i = ''critical'') is" using four by (auto simp: list_ex_iff)
    then have "3 \<le> n \<longleftrightarrow> list_ex (\<lambda>i. im_level i = ''high'') is" "2 \<le> n \<longleftrightarrow>
        list_ex (\<lambda>i. im_level i = ''high'') is \<or> list_ex (\<lambda>i. im_level i = ''medium'') is"
      unfolding rest [OF False] by (auto simp: le_fold_max level_score_eq list_ex_iff)
    with False eq four show ?thesis by simp
  qed (use eq four in simp)
qed (simp add: overall_risk_def)

lemma predict_all_steps:
  "predict_all sh c ss = Inr is \<Longrightarrow> list_all2 (\<lambda>s i. predict_impact sh c s = Inr i) ss is"
  by (induction ss arbitrary: "is") auto

lemma command_effects_level: "command_effects ps = Inr (l, r) \<Longrightarrow> l = None \<or> l = Some ''critical''"
  by (cases "param2 ps ''command'' ''cmd''") (auto simp: command_effects_def split: if_splits)

lemma other_effects_level:
  assumes "tool \<noteq> ''executor.launch''" and "tool \<noteq> ''executor.command''" and "tool_effects c tool ps = Inr ef"
  shows "ef_level ef = None"
proof -
  consider "tool = ''filesystem.write''" | "tool = ''filesystem.delete''" | "tool = ''executor.kill''"
    | "tool = ''fleet.generate_pairing'' \<or> tool = ''fleet.revoke_pairing''"
    | "tool \<noteq> ''filesystem.write'' \<and> tool \<noteq> ''filesystem.delete'' \<and> tool \<noteq> ''executor.kill''
       \<and> tool \<noteq> ''fleet.generate_pairing'' \<and> tool \<noteq> ''fleet.revoke_pairing''" by argo
  then show ?thesis
  proof cases
    case 1
    with assms(3) have "Inr ef = Inr (no_effects\<lparr>ef_files := fst (write_effects ps), ef_warnings := snd (write_effects ps)\<rparr>)"
      unfolding tool_effects_def by simp
    then show ?thesis by (simp add: no_effects_def)
  next
    case 2
    with assms(3) have "Inr ef = Inr (no_effects\<lparr>ef_files := fst (delete_effects ps), ef_warnings := snd (delete_effects ps)\<rparr>)"
      unfolding tool_effects_def by simp
    then show ?thesis by (simp add: no_effects_def)
  next
    case 3
    with assms(3) have "\<exists>xs. Inr ef = Inr (no_effects\<lparr>ef_processes := xs\<rparr>)"
      unfolding tool_effects_def by (simp add: Let_def del: sum.inject) blast
    then show ?thesis by (auto simp: no_effects_def)
  next
    case 4
    with assms(3) have "Inr ef = Inr (no_effects\<lparr>ef_network := [''fleet network'']\<rparr>)"
      unfolding tool_effects_def by auto
    then show ?thesis by (simp add: no_effects_def)
  next
    case 5
    with assms have "Inr ef = Inr (no_effects\<lparr>ef_config := fst (config_effects tool ps), ef_warnings := snd (config_effects tool ps)\<rparr>)"
      unfolding tool_effects_def by simp
    then show ?thesis by (simp add: no_effects_def)
  qed
qed

lemma tool_effects_level:
  assumes "tool_effects c tool ps = Inr ef" and "ef_level ef = Some l"
  shows "tool = ''executor.launch'' \<or> tool = ''executor.command'' \<and> l = ''critical''"
proof (cases "tool = ''executor.command''")
  case True
  with assms command_effects_level [of ps] show ?thesis
    by (cases "command_effects ps") (auto simp: tool_effects_def)
next
  case False
  with other_effects_level [OF _ False assms(1)] assms(2) show ?thesis by auto
qed

lemma predicted:
  assumes "predict_impact sh c s = Inr i"
  shows "(im_irreversible i \<longleftrightarrow> ti_irreversible (base_impact (ps_tool_id s)) \<or> ps_tool_id s \<in> set irreversible_tools)
    \<and> (ps_tool_id s \<noteq> ''executor.launch'' \<longrightarrow>
        im_level i = ti_level (base_impact (ps_tool_id s)) \<or> im_level i = ''critical'')"
proof -
  from assms obtain ef where ef: "tool_effects c (ps_tool_id s) (pt_params s) = Inr ef"
    and i: "im_level i = (case ef_level ef of Some l \<Rightarrow> l | None \<Rightarrow> ti_level (base_impact (ps_tool_id s)))"
      "im_irreversible i \<longleftrightarrow> ti_irreversible (base_impact (ps_tool_id s)) \<or> ps_tool_id s \<in> set irreversible_tools"
    by (auto simp: predict_impact_def Let_def)
  with tool_effects_level [OF ef] show ?thesis by (auto split: option.splits)
qed

definition forcing :: "(string \<times> bool) option \<Rightarrow> bool" where
  \<comment> \<open>a simulated risk that always asks\<close>
  "forcing sim \<longleftrightarrow> (\<exists>overall irr. sim = Some (overall, irr)
     \<and> (overall = ''critical'' \<or> overall = ''high'' \<or> overall = ''medium''))"

lemma override_forced:
  "level \<noteq> ''admin'' \<Longrightarrow> fst (snd (simulation_override overall irr f level))
     = (if overall = ''critical'' \<or> overall = ''high'' \<or> overall = ''medium'' then Some Require_Confirm else None)"
  "fst (snd (simulation_override overall irr f ''admin'')) = None"
  by (simp_all add: simulation_override_def Let_def)

lemma decide_assessed_decision:
  "vd_decision (decide_assessed p ctx sim level a) =
     (if level = ''view'' \<and> list_ex (\<lambda>s. pt_impact s \<noteq> ''low'') (pl_steps p) then Reject
      else if level \<noteq> ''admin'' \<and> (forcing (simulated sim ctx) \<or> as_reject a \<or> as_confirm a) then Require_Confirm
      else Approve)"
proof -
  let ?f = "case simulated sim ctx of
      Some (overall, irr) \<Rightarrow> snd (simulation_override overall irr (as_final a) level) | None \<Rightarrow> (None, None)"
  have "fst ?f = (if level \<noteq> ''admin'' \<and> forcing (simulated sim ctx) then Some Require_Confirm else None)"
    by (cases "level = ''admin''"; cases "simulated sim ctx")
      (auto simp: forcing_def override_forced split: prod.split)
  then show ?thesis
    by (cases ?f; cases "fst ?f") (auto simp: decide_assessed_def verdict_of_def split: if_splits)
qed

lemma decide_decision:
  assumes "decide level p ctx sim cl = Inr v"
  shows "(\<exists>k. cl = Some k \<and> level \<noteq> ''admin'' \<and> cl_level k = LOW \<and> vd_decision v = Approve)
    \<or> (\<exists>a. assess p ctx level = Inr a \<and> v = decide_assessed p ctx sim level a)"
  using assms by (auto simp: decide_def split: option.splits if_splits)


text \<open>C29: An approved plan is harmless: below the level \<open>admin\<close>, when the classifier did not call the action
  low, a plan that is approved with its simulation has only steps whose simulated impact is low or none, none of
  them irreversible in the simulation, every step with a high declared impact is reversible, the objective
  risk is within the limit of the level, and at the level \<open>view\<close> every step is declared low.\<close>

theorem approved_plan_harmless:
  assumes "simulate sh c p = Inr s" and "decide level p (Some c) (Some s) cl = Inr v" and "vd_decision v = Approve"
    and "level \<noteq> ''admin''" and "\<forall>k. cl = Some k \<longrightarrow> cl_level k \<noteq> LOW"
  shows "list_all2 (\<lambda>st i. predict_impact sh c st = Inr i \<and> im_level i \<notin> {''critical'', ''high'', ''medium''}
            \<and> \<not> im_irreversible i \<and> ps_tool_id st \<notin> set irreversible_tools
            \<and> (pt_impact st \<in> {''high'', ''critical''} \<longrightarrow> ps_is_reversible st)
            \<and> (level = ''view'' \<longrightarrow> pt_impact st = ''low'')) (pl_steps p) (si_impacts s)
    \<and> vd_final v \<le> fst (thresholds level)"
proof -
  from decide_decision [OF assms(2)] assms(5) obtain a where
    a: "assess p (Some c) level = Inr a" "v = decide_assessed p (Some c) (Some s) level a" by auto
  with assms(3,4) have v: "level = ''view'' \<Longrightarrow> list_all (\<lambda>s. pt_impact s = ''low'') (pl_steps p)"
    "\<not> forcing (simulated (Some s) (Some c))" "\<not> as_confirm a"
    by (auto simp: decide_assessed_decision list_ex_iff list_all_iff split: if_splits)
  have s: "predict_all sh c (pl_steps p) = Inr (si_impacts s)" "si_overall s = overall_risk (si_impacts s)"
    using assms(1) by (auto simp: simulate_def)
  have quiet: "overall_risk (si_impacts s) \<noteq> ''critical'' \<and> overall_risk (si_impacts s) \<noteq> ''high''
      \<and> overall_risk (si_impacts s) \<noteq> ''medium''"
    using v(2) by (auto simp: forcing_def simulated_def s(2))
  have harmless: "im_level i \<notin> {''critical'', ''high'', ''medium''} \<and> \<not> im_irreversible i" if "i \<in> set (si_impacts s)" for i
    using quiet that unfolding overall_risk_eq
    by (auto simp: list_ex_iff split: if_splits)
  have irr: "\<not> irreversible_plan (pl_steps p)" and final: "as_final a \<le> fst (thresholds level)"
    using a(1) v(3) assms(4) by (auto simp: assess_def Let_def)
  have "vd_final v = as_final a"
    unfolding a(2) by (simp add: decide_assessed_def verdict_of_def split: option.split prod.split)
  moreover have "list_all2 (\<lambda>st i. predict_impact sh c st = Inr i \<and> im_level i \<notin> {''critical'', ''high'', ''medium''}
            \<and> \<not> im_irreversible i \<and> ps_tool_id st \<notin> set irreversible_tools
            \<and> (pt_impact st \<in> {''high'', ''critical''} \<longrightarrow> ps_is_reversible st)
            \<and> (level = ''view'' \<longrightarrow> pt_impact st = ''low'')) (pl_steps p) (si_impacts s)"
  proof (rule list.rel_mono_strong [OF predict_all_steps [OF s(1)]])
    fix st i
    assume st: "st \<in> set (pl_steps p)" and i: "i \<in> set (si_impacts s)" and pr: "predict_impact sh c st = Inr i"
    show "predict_impact sh c st = Inr i \<and> im_level i \<notin> {''critical'', ''high'', ''medium''}
            \<and> \<not> im_irreversible i \<and> ps_tool_id st \<notin> set irreversible_tools
            \<and> (pt_impact st \<in> {''high'', ''critical''} \<longrightarrow> ps_is_reversible st)
            \<and> (level = ''view'' \<longrightarrow> pt_impact st = ''low'')"
      using harmless [OF i] predicted [OF pr] pr st irr v(1)
      by (auto simp: irreversible_plan_def list_ex_iff list_all_iff)
  qed
  ultimately show ?thesis using final by simp
qed

definition levels :: "string list" where
  "levels = [''view'', ''confirm'', ''auto'', ''admin'']"

lemma thresholds_mono:
  assumes "i \<le> j" and "j < 4"
  shows "fst (thresholds (levels ! i)) \<le> fst (thresholds (levels ! j))
    \<and> snd (thresholds (levels ! i)) \<le> snd (thresholds (levels ! j))"
proof -
  have "i \<in> {0, 1, 2, 3}" "j \<in> {0, 1, 2, 3}" using assms by auto
  then show ?thesis using assms(1)
    by (auto simp: levels_def thresholds_def impact_thresholds_def dict_get_def)
qed


lemma simulation_modifier_levels:
  "level \<noteq> ''admin'' \<Longrightarrow> level' \<noteq> ''admin'' \<Longrightarrow> simulation_modifier e level = simulation_modifier e level'"
  by (simp add: simulation_modifier_def)

lemma assess_levels:
  assumes "assess p ctx level = Inr a" and "level \<noteq> ''admin''" and "level' \<noteq> ''admin''"
    and "fst (thresholds level) \<le> fst (thresholds level')" and "snd (thresholds level) \<le> snd (thresholds level')"
  shows "\<exists>a'. assess p ctx level' = Inr a' \<and> (as_confirm a' \<longrightarrow> as_confirm a) \<and> (as_reject a' \<longrightarrow> as_reject a)"
proof -
  from assms(1) obtain fs where fs: "context_factors ctx (pl_steps p) = Inr fs" by (auto simp: assess_def)
  have "(case Option.bind ctx rc_simulation of Some e \<Rightarrow> simulation_modifier e level | None \<Rightarrow> 0)
      = (case Option.bind ctx rc_simulation of Some e \<Rightarrow> simulation_modifier e level' | None \<Rightarrow> 0)"
    using simulation_modifier_levels [OF assms(2,3)] by (simp split: option.split)
  then show ?thesis using assms(1,4,5) fs assms(2,3) by (auto simp: assess_def Let_def)
qed

text \<open>Decisions are monotone in the permission level: what is approved at a level is approved at every
  higher one, with the same plan, context, simulation and classification.\<close>

theorem decisions_monotone:
  assumes "i \<le> j" and "j < 4" and "decide (levels ! i) p ctx sim cl = Inr v" and "vd_decision v = Approve"
    and "decide (levels ! j) p ctx sim cl = Inr w"
  shows "vd_decision w = Approve"
proof (cases "j = 3")
  case True
  with assms(5) have "decide ''admin'' p ctx sim cl = Inr w" by (simp add: levels_def)
  from decide_decision [OF this] show ?thesis by (auto simp: decide_assessed_decision)
next
  case False
  with assms(1,2) have ij: "i \<in> {0, 1, 2}" "j \<in> {0, 1, 2}" by auto
  then have na: "levels ! i \<noteq> ''admin''" "levels ! j \<noteq> ''admin''" by (auto simp: levels_def)
  show ?thesis
  proof (cases "\<exists>k. cl = Some k \<and> cl_level k = LOW")
    case True
    with assms(5) na show ?thesis by (auto simp: decide_def)
  next
    case no: False
    from decide_decision [OF assms(3)] no obtain a where a: "assess p ctx (levels ! i) = Inr a"
      "v = decide_assessed p ctx sim (levels ! i) a" by auto
    from decide_decision [OF assms(5)] no obtain b where b: "assess p ctx (levels ! j) = Inr b"
      "w = decide_assessed p ctx sim (levels ! j) b" by auto
    have mono: "as_confirm b \<Longrightarrow> as_confirm a" "as_reject b \<Longrightarrow> as_reject a"
      using assess_levels [OF a(1) na] thresholds_mono [OF assms(1,2)] b(1) by auto
    have view: "levels ! j = ''view'' \<Longrightarrow> levels ! i = ''view''" using ij assms(1) by (auto simp: levels_def)
    show ?thesis
      using assms(4) na mono view unfolding a(2) b(2) by (auto simp: decide_assessed_decision split: if_splits)
  qed
qed

definition plain_plan :: "step list \<Rightarrow> plan" where
  "plain_plan ss =
     \<lparr>pl_steps = ss, pl_intent = launch_intent, pl_risk = 0, pl_duration = 0, pl_description = [], pl_goal = None\<rparr>"

definition plain_context :: risk_context where
  "plain_context =
     \<lparr>us_cpu = None, us_memory = None, us_disk = None, pc_deep = None, pc_apps = [], rc_summary = None, rc_changes = [],
      rc_known_apps = [], rc_simulation = None\<rparr>"

definition read_step :: step where
  "read_step = simple_step ''a'' ''system.info'' ''Get info'' ''low''"

theorem approved_plan_harmless_witness:
  "\<exists>s v. simulate (\<lambda>_. []) plain_context (plain_plan [read_step]) = Inr s
     \<and> decide ''confirm'' (plain_plan [read_step]) (Some plain_context) (Some s) None = Inr v
     \<and> list_all2 (\<lambda>st i. predict_impact (\<lambda>_. []) plain_context st = Inr i \<and> im_level i \<notin> {''critical'', ''high'', ''medium''}
            \<and> \<not> im_irreversible i \<and> ps_tool_id st \<notin> set irreversible_tools
            \<and> (pt_impact st \<in> {''high'', ''critical''} \<longrightarrow> ps_is_reversible st)
            \<and> (''confirm'' = ''view'' \<longrightarrow> pt_impact st = ''low'')) (pl_steps (plain_plan [read_step])) (si_impacts s)
     \<and> vd_final v \<le> fst (thresholds ''confirm'')"
proof -
  let ?sim = "simulate (\<lambda>_. []) plain_context (plain_plan [read_step])"
  have run: "case ?sim of Inr s \<Rightarrow>
      (case decide ''confirm'' (plain_plan [read_step]) (Some plain_context) (Some s) None of
         Inr v \<Rightarrow> vd_decision v = Approve | _ \<Rightarrow> False) | _ \<Rightarrow> False"
    by code_simp
  then obtain s v where "?sim = Inr s" "decide ''confirm'' (plain_plan [read_step]) (Some plain_context) (Some s) None = Inr v"
    "vd_decision v = Approve" by (auto split: sum.splits)
  with approved_plan_harmless [of "\<lambda>_. []" plain_context "plain_plan [read_step]" s "''confirm''" None v] show ?thesis
    by simp
qed

theorem decisions_monotone_witness:
  "\<exists>v w. decide (levels ! 1) (plain_plan [read_step]) None None None = Inr v
     \<and> decide (levels ! 2) (plain_plan [read_step]) None None None = Inr w \<and> vd_decision w = Approve"
proof -
  let ?d = "\<lambda>n. decide (levels ! n) (plain_plan [read_step]) None None None"
  have "case ?d 1 of Inr v \<Rightarrow> vd_decision v = Approve | _ \<Rightarrow> False" by code_simp
  then obtain v where v: "?d 1 = Inr v" "vd_decision v = Approve" by (auto split: sum.splits)
  have "\<not> is_err (?d 2)" by code_simp
  then obtain w where w: "?d 2 = Inr w" by (cases "?d 2") simp_all
  have "vd_decision w = Approve" by (rule decisions_monotone [OF _ _ v w]) simp_all
  with v w show ?thesis by blast
qed

text \<open>A read-only target approves any plan: below the level \<open>admin\<close>, when the target of the intent is
  one of the read-only tools and the simulation finds nothing irreversible, the decision is to approve, whatever the
  steps do, also at the level \<open>view\<close>.\<close>

theorem low_target_approves_anything:
  assumes "in_target i \<in> set low_read_tools" and "level \<noteq> ''admin''"
    and "\<forall>s. sim = Some s \<longrightarrow> \<not> list_ex im_irreversible (si_impacts s)"
  shows "\<exists>v. decide level p ctx sim (Some (classify_risk knows i (pl_steps p) ctx sim)) = Inr v \<and> vd_decision v = Approve"
proof -
  have "in_target i \<noteq> ''filesystem.delete''" "in_target i \<notin> set medium_reversible_tools"
    using assms(1) by (auto simp: low_read_tools_def medium_reversible_tools_def)
  then have "cl_level (classify_risk knows i (pl_steps p) ctx sim) = LOW"
    using assms(1,3) by (auto simp: classify_risk_def classify_level_def Let_def split: option.split)
  with assms(2) show ?thesis by (simp add: decide_def)
qed

definition delete_step :: step where
  "delete_step = simple_step ''d'' ''filesystem.delete'' ''Delete'' ''critical''"

theorem low_target_approves_anything_witness:
  "\<exists>v. decide ''view'' (plain_plan [delete_step]) None None
       (Some (classify_risk (\<lambda>_. False) (launch_intent\<lparr>in_target := ''filesystem.list''\<rparr>) (pl_steps (plain_plan [delete_step]))
          None None)) = Inr v \<and> vd_decision v = Approve"
  by (rule low_target_approves_anything) (simp_all add: low_read_tools_def)

text \<open>Applications the classifier itself lists as known are called dangerous when they are named without
  their suffix, because another known name is part of theirs; and any name with an exclamation mark is called safe.\<close>

theorem known_apps_misjudged:
  "list_all (\<lambda>a. a \<in> set known_app_names \<and> classify_launch (\<lambda>_. False) [(''app_name'', PStr a)] [] = HIGH)
       [''calculator'', ''vscode'', ''winword'']
   \<and> classify_launch (\<lambda>_. False) [(''app_name'', PStr ''calculator.exe'')] [] = LOW
   \<and> classify_launch (\<lambda>_. False) [(''app_name'', PStr ''x!y''), (''path'', PStr (win ''C:/Users/Public/x.exe''))] [] = LOW"
  by code_simp

end
