(* ===== verification/Context_Window.thy ===== *)
theory Context_Window
  imports Py_Text
begin

text \<open>
  What of a conversation fits into a model: \<open>sentinel/core/context_window.py\<close> and
  \<open>sentinel/core/context_budget.py\<close>. A message is its role and its content. The token counter is the
  library's encoder when there is one (an argument), else the heuristic of the code. Thresholds are
  rationals.
\<close>

section \<open>Tokens and windows\<close>

record message =
  ms_role :: string
  ms_content :: string

definition model_windows :: "(string \<times> int) list" where
  "model_windows =
     [(''gpt-4-turbo'', 128000), (''gpt-4o'', 128000), (''gpt-4o-mini'', 128000), (''gpt-4'', 8192),
      (''gpt-3.5-turbo'', 16384), (''claude-sonnet-4'', 200000), (''claude-3-haiku'', 200000),
      (''claude-3-opus'', 200000), (''deepseek-v4-flash'', 65536), (''deepseek-chat'', 32768),
      (''gemini-2.5-flash'', 1048576), (''gemini-2.5-pro'', 1048576), (''llama-3.3-70b-versatile'', 131072),
      (''llama3'', 8192), (''llama3.1'', 131072), (''mistral-large-latest'', 32768), (''mistral-medium'', 32768),
      (''codestral'', 32768), (''Qwen3-1.7B-Q8_0.gguf'', 4096)]"

definition family_windows :: "(string \<times> int) list" where
  "family_windows =
     [(''gpt'', 8192), (''claude'', 100000), (''deepseek'', 32768), (''gemini'', 32768), (''llama'', 8192),
      (''mistral'', 32768), (''phi'', 4096), (''qwen'', 32768), (''command'', 4096)]"

type_synonym encoder = "(string \<Rightarrow> nat) option"

definition count_tokens :: "encoder \<Rightarrow> string option \<Rightarrow> string \<Rightarrow> nat" where
  "count_tokens enc model s =
     (if s = [] then 0
      else (case enc of
              Some f \<Rightarrow> f s
            | None \<Rightarrow>
                (case model of
                   Some m \<Rightarrow> if m \<noteq> [] \<and> (prefix ''gpt-4'' m \<or> sublist ''claude'' m)
                     then (length s + 1) div 3 else (length s + 3) div 4
                 | None \<Rightarrow> (length s + 3) div 4)))"

definition longest_prefix :: "(string \<times> int) list \<Rightarrow> string \<Rightarrow> int option" where
  \<comment> \<open>the loop over the entries, the longest names first\<close>
  "longest_prefix ws m =
     map_option snd (find (\<lambda>(k, w). prefix k (lower m)) (sort_key (\<lambda>(k, w). - int (length k)) ws))"

definition named_window :: "string \<Rightarrow> int option" where
  "named_window m =
     (case map_of model_windows m of
        Some w \<Rightarrow> Some w
      | None \<Rightarrow> (case longest_prefix model_windows m of Some w \<Rightarrow> Some w | None \<Rightarrow> longest_prefix family_windows m))"

definition get_model_window :: "string option \<Rightarrow> int" where
  "get_model_window model =
     (case model of
        None \<Rightarrow> 8192
      | Some m \<Rightarrow> if m = [] then 8192 else (case named_window m of Some w \<Rightarrow> w | None \<Rightarrow> 8192))"

definition message_tokens :: "encoder \<Rightarrow> string option \<Rightarrow> message \<Rightarrow> nat" where
  "message_tokens enc model m = count_tokens enc model (ms_role m) + count_tokens enc model (ms_content m) + 4"

definition count_messages :: "encoder \<Rightarrow> string option \<Rightarrow> message list \<Rightarrow> nat" where
  "count_messages enc model ms = sum_list (map (message_tokens enc model) ms) + 2"


section \<open>Trimming\<close>

abbreviation is_system :: "message \<Rightarrow> bool" where
  "is_system m \<equiv> ms_role m = ''system''"

fun keep_while :: "('m list \<Rightarrow> bool) \<Rightarrow> 'm list \<Rightarrow> 'm list \<Rightarrow> 'm list" where
  \<comment> \<open>append messages as long as the whole still fits\<close>
  "keep_while fits acc [] = acc"
| "keep_while fits acc (m # ms) = (if fits (acc @ [m]) then keep_while fits (acc @ [m]) ms else acc)"

definition trim_budget :: "int \<Rightarrow> int \<Rightarrow> int" where
  "trim_budget max_tokens reserve =
     (let b = max (max_tokens - reserve) (max_tokens div 2) in if b \<le> 0 then max_tokens else b)"

definition trim_messages :: "encoder \<Rightarrow> message list \<Rightarrow> int \<Rightarrow> int \<Rightarrow> message list" where
  "trim_messages enc ms max_tokens reserve =
     (if ms = [] then ms
      else if int (count_messages enc None ms) \<le> max_tokens then ms
      else
        (let sys = filter is_system ms;
             kept = keep_while (\<lambda>trial. int (count_messages enc None trial) \<le> trim_budget max_tokens reserve) sys
                      (rev (filter (\<lambda>m. \<not> is_system m) ms))
         in sys @ rev (filter (\<lambda>m. \<not> is_system m) kept)))"

definition should_summarize :: "encoder \<Rightarrow> message list \<Rightarrow> int \<Rightarrow> rat \<Rightarrow> bool" where
  "should_summarize enc ms max_tokens threshold \<longleftrightarrow>
     ms \<noteq> [] \<and> 0 < max_tokens \<and> of_int max_tokens * threshold < of_nat (count_messages enc None ms)"

definition newline :: string where
  "newline = [CHR 0x0A]"

definition message_line :: "message \<Rightarrow> string" where
  "message_line m =
     ''['' @ ms_role m @ '']: '' @ map (\<lambda>c. if c = CHR 0x0A then CHR '' '' else c) (take 200 (ms_content m))"

definition summary_message :: "encoder \<Rightarrow> string option \<Rightarrow> message list \<Rightarrow> message" where
  "summary_message enc model ms =
     \<lparr>ms_role = ''system'',
      ms_content =
        (if ms = [] then []
         else
           (let s = ''Previous conversation summary:'' @ newline @ join newline (map message_line ms) @ newline @ ''---'';
                n = count_tokens enc model s
            in if 512 < n
               then take (nat (py_int (of_nat (length s) * (512 / of_nat (max n 1))))) s @ newline @ ''[truncated...]''
               else s))\<rparr>"


section \<open>The manager\<close>

record window_manager =
  wm_windows :: "(string \<times> int) list"
  wm_default :: int
  wm_reserve :: int
  wm_threshold :: rat

definition manager_default :: window_manager where
  "manager_default = \<lparr>wm_windows = [], wm_default = 8192, wm_reserve = 1024, wm_threshold = 85/100\<rparr>"

definition set_model_window :: "window_manager \<Rightarrow> string \<Rightarrow> int \<Rightarrow> window_manager" where
  "set_model_window wm model w = wm\<lparr>wm_windows := AList.update model w (wm_windows wm)\<rparr>"

definition get_window :: "window_manager \<Rightarrow> string option \<Rightarrow> int" where
  "get_window wm model =
     (case model of
        None \<Rightarrow> wm_default wm
      | Some m \<Rightarrow>
          if m = [] then wm_default wm
          else (case map_of (wm_windows wm) m of
                  Some w \<Rightarrow> w
                | None \<Rightarrow> (case named_window m of Some w \<Rightarrow> w | None \<Rightarrow> wm_default wm)))"

record managed =
  mg_messages :: "message list"
  mg_original :: nat
  mg_final :: nat
  mg_trimmed :: int
  mg_summary :: "message option"
  mg_tokens :: nat

definition summarise :: "window_manager \<Rightarrow> encoder \<Rightarrow> message list \<Rightarrow> string option \<Rightarrow> int \<Rightarrow> bool
    \<Rightarrow> message list \<times> message option \<times> nat" where
  \<comment> \<open>the messages, the summary and how many it replaces\<close>
  "summarise wm enc ms model max_tokens force =
     (let sys = filter is_system ms; rest = drop (length sys) ms; old = take (length rest - 4) rest in
      if (force \<or> should_summarize enc ms max_tokens (wm_threshold wm)) \<and> 4 < length rest
      then (sys @ summary_message enc model old # drop (length rest - 4) rest, Some (summary_message enc model old),
            length old)
      else (ms, None, 0))"

definition manage :: "window_manager \<Rightarrow> encoder \<Rightarrow> message list \<Rightarrow> string option \<Rightarrow> int option \<Rightarrow> bool \<Rightarrow> managed" where
  "manage wm enc ms model limit force =
     (let max_tokens = (case limit of Some n \<Rightarrow> n | None \<Rightarrow> get_window wm model) in
      if ms = []
      then \<lparr>mg_messages = [], mg_original = 0, mg_final = 0, mg_trimmed = 0, mg_summary = None,
            mg_tokens = count_messages enc model []\<rparr>
      else
        (let (ms', summary, replaced) = summarise wm enc ms model max_tokens force;
             trimmed = trim_messages enc ms' max_tokens (wm_reserve wm)
         in \<lparr>mg_messages = (if trimmed = [] then drop (length ms - 1) ms else trimmed),
             mg_original = length ms, mg_final = length trimmed,
             mg_trimmed = int replaced + int (length ms') - int (length trimmed), mg_summary = summary,
             mg_tokens = count_messages enc model ms'\<rparr>))"


section \<open>Budgets\<close>

datatype purpose = CONVERSATION | TECHNICAL | REASONING_TASK | GOVERNED_ACTION

definition budget_windows :: "(string \<times> int) list" where
  "budget_windows =
     [(''gpt-4o'', 128000), (''gpt-4o-mini'', 128000), (''Qwen3-1.7B-Q8_0.gguf'', 4096), (''llama3'', 8192),
      (''deepseek/deepseek-v4-flash:free'', 64000), (''nvidia/nemotron-3-super-120b-a12b'', 128000)]"

fun purpose_ratio :: "purpose \<Rightarrow> rat" where
  "purpose_ratio CONVERSATION = 75/100"
| "purpose_ratio TECHNICAL = 65/100"
| "purpose_ratio REASONING_TASK = 65/100"
| "purpose_ratio GOVERNED_ACTION = 80/100"

record budget =
  bd_max_input :: int
  bd_system :: int
  bd_history :: int
  bd_memory :: int
  bd_tools :: int
  bd_overhead :: int

definition reserved :: "budget \<Rightarrow> int" where
  "reserved b = bd_system b + bd_history b + bd_memory b + bd_tools b + bd_overhead b"

definition available :: "budget \<Rightarrow> int" where
  "available b = max 0 (bd_max_input b - reserved b)"

definition budget_fits :: "budget \<Rightarrow> int \<Rightarrow> bool" where
  "budget_fits b n \<longleftrightarrow> n \<le> available b"

definition estimate_tokens :: "string \<Rightarrow> nat" where
  "estimate_tokens s = max 1 (length s div 4)"

definition sum_messages :: "message list \<Rightarrow> nat" where
  "sum_messages ms = sum_list (map (\<lambda>m. estimate_tokens (ms_content m)) ms)"

definition budget_for :: "(string \<times> int) list \<Rightarrow> string \<Rightarrow> purpose \<Rightarrow> int \<Rightarrow> int \<Rightarrow> int \<Rightarrow> int \<Rightarrow> budget" where
  "budget_for windows model p history memories tools extra =
     \<lparr>bd_max_input = py_int (of_int (dict_get windows model 128000) * purpose_ratio p), bd_system = 256,
      bd_history = history * 64, bd_memory = memories * 128, bd_tools = tools * 64, bd_overhead = 128 + extra\<rparr>"

fun keep_affordable :: "int \<Rightarrow> message list \<Rightarrow> message list" where
  \<comment> \<open>messages as long as their cost is covered\<close>
  "keep_affordable left [] = []"
| "keep_affordable left (m # ms) =
     (if int (estimate_tokens (ms_content m)) \<le> left
      then m # keep_affordable (left - int (estimate_tokens (ms_content m))) ms else [])"

definition truncate_messages :: "message list \<Rightarrow> budget \<Rightarrow> bool \<Rightarrow> message list" where
  "truncate_messages ms b keep_system =
     (let sys = filter (\<lambda>m. keep_system \<and> is_system m) ms;
          others = filter (\<lambda>m. m \<notin> set sys) ms;
          kept = sys @ keep_affordable (available b - int (sum_messages sys)) (rev others)
      in if ms = [] then [] else sys @ rev (filter (\<lambda>m. \<not> is_system m) kept))"


section \<open>What is kept\<close>

lemma keep_while_prefix:
  "\<exists>n \<le> length ms. keep_while fits acc ms = acc @ take n ms \<and> (\<forall>k. 0 < k \<longrightarrow> k \<le> n \<longrightarrow> fits (acc @ take k ms))
     \<and> (n < length ms \<longrightarrow> \<not> fits (acc @ take (Suc n) ms))"
proof (induction ms arbitrary: acc)
  case (Cons m ms)
  show ?case
  proof (cases "fits (acc @ [m])")
    case True
    from Cons.IH [of "acc @ [m]"] obtain n where n: "n \<le> length ms"
      "keep_while fits (acc @ [m]) ms = acc @ [m] @ take n ms"
      "\<forall>k. 0 < k \<longrightarrow> k \<le> n \<longrightarrow> fits (acc @ [m] @ take k ms)"
      "n < length ms \<longrightarrow> \<not> fits (acc @ [m] @ take (Suc n) ms)" by auto
    have "fits (acc @ take k (m # ms))" if "0 < k" "k \<le> Suc n" for k
      using that n(3) True by (cases k; cases "k - 1") auto
    with n True show ?thesis by (intro exI [of _ "Suc n"]) auto
  qed (auto intro: exI [of _ 0])
qed simp

text \<open>Trimming is exact: a conversation that fits is returned unchanged; otherwise all system messages are
  kept, in order, followed by the longest run of the most recent other messages with which every
  intermediate conversation still fits into the budget, and the next older message would not fit.\<close>

theorem trimming_exact:
  "if ms = [] \<or> int (count_messages enc None ms) \<le> max_tokens then trim_messages enc ms max_tokens reserve = ms
   else \<exists>n \<le> length (filter (\<lambda>m. \<not> is_system m) ms).
     trim_messages enc ms max_tokens reserve
       = filter is_system ms @ drop (length (filter (\<lambda>m. \<not> is_system m) ms) - n) (filter (\<lambda>m. \<not> is_system m) ms)
     \<and> (0 < n \<longrightarrow> int (count_messages enc None (trim_messages enc ms max_tokens reserve)) \<le> trim_budget max_tokens reserve)
     \<and> (n < length (filter (\<lambda>m. \<not> is_system m) ms) \<longrightarrow>
          trim_budget max_tokens reserve < int (count_messages enc None (filter is_system ms
            @ drop (length (filter (\<lambda>m. \<not> is_system m) ms) - Suc n) (filter (\<lambda>m. \<not> is_system m) ms))))"
proof (cases "ms = [] \<or> int (count_messages enc None ms) \<le> max_tokens")
  case False
  let ?sys = "filter is_system ms" and ?rest = "filter (\<lambda>m. \<not> is_system m) ms"
  let ?fits = "\<lambda>trial. int (count_messages enc None trial) \<le> trim_budget max_tokens reserve"
  obtain n where n: "n \<le> length ?rest" "keep_while ?fits ?sys (rev ?rest) = ?sys @ take n (rev ?rest)"
    "\<forall>k. 0 < k \<longrightarrow> k \<le> n \<longrightarrow> ?fits (?sys @ take k (rev ?rest))"
    "n < length ?rest \<longrightarrow> \<not> ?fits (?sys @ take (Suc n) (rev ?rest))"
    using keep_while_prefix [of "rev ?rest" ?fits ?sys] by auto
  have "filter (\<lambda>m. \<not> is_system m) (take n (rev ?rest)) = take n (rev ?rest)"
    by (auto intro!: filter_True dest: in_set_takeD)
  then have t: "trim_messages enc ms max_tokens reserve = ?sys @ drop (length ?rest - n) ?rest"
    using False n(2) by (simp add: trim_messages_def Let_def take_rev)
  have count: "count_messages enc None (?sys @ drop (length ?rest - k) ?rest)
      = count_messages enc None (?sys @ take k (rev ?rest))" for k
    by (simp add: count_messages_def take_rev rev_map [symmetric] sum_list_rev)
  from False show ?thesis
    using n(1) t n(3)[rule_format, of n] n(4) count by (auto intro!: exI [of _ n] simp: not_le)
qed (auto simp: trim_messages_def)


definition three_messages :: "message list" where
  "three_messages = [\<lparr>ms_role = ''user'', ms_content = ''a''\<rparr>, \<lparr>ms_role = ''system'', ms_content = ''b''\<rparr>,
     \<lparr>ms_role = ''user'', ms_content = ''c''\<rparr>]"

lemma three_messages_long: "\<not> (three_messages = [] \<or> int (count_messages None None three_messages) \<le> 3)"
  by code_simp
theorem trimming_exact_witness:
  "\<exists>n \<le> 2. trim_messages None three_messages 3 0 = [three_messages ! 1] @ drop (2 - n) [three_messages ! 0, three_messages ! 2]"
  using trimming_exact [of three_messages None 3 0] unfolding if_not_P [OF three_messages_long]
  by (auto simp: three_messages_def numeral_2_eq_2)

definition cost :: "message list \<Rightarrow> int" where
  "cost ms = int (sum_messages ms)"

lemma cost_simps [simp]: "cost [] = 0" "cost (m # ms) = int (estimate_tokens (ms_content m)) + cost ms"
  by (simp_all add: cost_def sum_messages_def)

lemma cost_append: "cost (xs @ ys) = cost xs + cost ys"
  by (induction xs) simp_all

lemma cost_rev: "cost (rev xs) = cost xs"
  by (induction xs) (simp_all add: cost_append)

lemma keep_affordable_prefix:
  "\<exists>n \<le> length ms. keep_affordable left ms = take n ms \<and> (0 < n \<longrightarrow> cost (take n ms) \<le> left)
     \<and> (n < length ms \<longrightarrow> left < cost (take (Suc n) ms))"
proof (induction ms arbitrary: left)
  case (Cons m ms)
  let ?c = "int (estimate_tokens (ms_content m))"
  show ?case
  proof (cases "?c \<le> left")
    case True
    from Cons.IH [of "left - ?c"] obtain n where "n \<le> length ms" "keep_affordable (left - ?c) ms = take n ms"
      "0 < n \<longrightarrow> cost (take n ms) \<le> left - ?c" "n < length ms \<longrightarrow> left - ?c < cost (take (Suc n) ms)" by blast
    with True show ?thesis by (intro exI [of _ "Suc n"]) auto
  next
    case False
    then show ?thesis by (intro exI [of _ 0]) auto
  qed
qed simp

text \<open>A truncated conversation keeps every system message and the longest run of the most recent other
  messages that the budget still covers; whenever one of them is kept, the whole is within the budget.\<close>

theorem truncation_exact:
  "\<exists>n \<le> length (filter (\<lambda>m. \<not> is_system m) ms).
     truncate_messages ms b True
       = filter is_system ms @ drop (length (filter (\<lambda>m. \<not> is_system m) ms) - n) (filter (\<lambda>m. \<not> is_system m) ms)
     \<and> (0 < n \<longrightarrow> cost (truncate_messages ms b True) \<le> available b)
     \<and> (n < length (filter (\<lambda>m. \<not> is_system m) ms) \<longrightarrow> available b < cost (filter is_system ms
          @ drop (length (filter (\<lambda>m. \<not> is_system m) ms) - Suc n) (filter (\<lambda>m. \<not> is_system m) ms)))"
proof -
  let ?sys = "filter is_system ms" and ?rest = "filter (\<lambda>m. \<not> is_system m) ms"
  have others: "filter (\<lambda>m. m \<in> set ms \<longrightarrow> \<not> is_system m) ms = ?rest" by (rule filter_cong) auto
  obtain n where n: "n \<le> length ?rest" "keep_affordable (available b - cost ?sys) (rev ?rest) = take n (rev ?rest)"
    "0 < n \<longrightarrow> cost (take n (rev ?rest)) \<le> available b - cost ?sys"
    "n < length ?rest \<longrightarrow> available b - cost ?sys < cost (take (Suc n) (rev ?rest))"
    using keep_affordable_prefix [of "rev ?rest" "available b - cost ?sys"] by auto
  have "filter (\<lambda>m. \<not> is_system m) (take n (rev ?rest)) = take n (rev ?rest)"
    by (auto intro!: filter_True dest: in_set_takeD)
  then have t: "truncate_messages ms b True = ?sys @ drop (length ?rest - n) ?rest"
    using n(2) by (simp add: truncate_messages_def Let_def others take_rev cost_def del: cost_simps)
  have "cost (drop (length ?rest - k) ?rest) = cost (take k (rev ?rest))" for k by (simp add: take_rev cost_rev)
  with n t show ?thesis by (intro exI [of _ n]) (auto simp: cost_append)
qed

definition late_system :: "message list" where
  "late_system =
     (let u = \<lambda>c. \<lparr>ms_role = ''user'', ms_content = c\<rparr> in
      [u ''first'', \<lparr>ms_role = ''system'', ms_content = ''rules''\<rparr>, u ''a'', u ''b'', u ''c'', u ''d''])"

text \<open>A system message that does not stand first corrupts a summarised conversation: the code cuts as many
  messages from the front as there are system messages, so a message of the user is lost without being
  summarised and the system message is kept and summarised too.\<close>

theorem summary_loses_message:
  "mg_summary (manage manager_default None late_system None None True)
     = Some (summary_message None None [\<lparr>ms_role = ''system'', ms_content = ''rules''\<rparr>])
   \<and> list_all (\<lambda>m. \<not> sublist ''first'' (ms_content m)) (mg_messages (manage manager_default None late_system None None True))
   \<and> mg_trimmed (manage manager_default None late_system None None True) = 1"
  by code_simp

lemma sublist_filter_split:
  assumes "ms = filter is_system ms @ rest"
  shows "drop (length (filter is_system ms)) ms = rest"
  using assms by (metis append_eq_conv_conj)

text \<open>When the system messages stand first, summarising replaces exactly the older messages: what is sent is
  the system messages, the summary of all messages but the last four, and these four.\<close>

theorem summary_replaces_oldest:
  assumes "ms = filter is_system ms @ rest" and "4 < length rest" and "force"
  shows "summarise wm enc ms model max_tokens force =
    (filter is_system ms @ summary_message enc model (take (length rest - 4) rest) # drop (length rest - 4) rest,
     Some (summary_message enc model (take (length rest - 4) rest)), length rest - 4)"
  using assms(2,3) unfolding summarise_def Let_def sublist_filter_split [OF assms(1)] by simp

theorem summary_replaces_oldest_witness:
  "summarise manager_default None (map (\<lambda>i. \<lparr>ms_role = ''user'', ms_content = [i]\<rparr>) ''abcde'') None 10 True =
    (filter is_system (map (\<lambda>i. \<lparr>ms_role = ''user'', ms_content = [i]\<rparr>) ''abcde'')
       @ summary_message None None (take (length (map (\<lambda>i. \<lparr>ms_role = ''user'', ms_content = [i]\<rparr>) ''abcde'') - 4)
            (map (\<lambda>i. \<lparr>ms_role = ''user'', ms_content = [i]\<rparr>) ''abcde''))
       # drop (length (map (\<lambda>i. \<lparr>ms_role = ''user'', ms_content = [i]\<rparr>) ''abcde'') - 4)
            (map (\<lambda>i. \<lparr>ms_role = ''user'', ms_content = [i]\<rparr>) ''abcde''),
     Some (summary_message None None (take (length (map (\<lambda>i. \<lparr>ms_role = ''user'', ms_content = [i]\<rparr>) ''abcde'') - 4)
            (map (\<lambda>i. \<lparr>ms_role = ''user'', ms_content = [i]\<rparr>) ''abcde''))),
     length (map (\<lambda>i. \<lparr>ms_role = ''user'', ms_content = [i]\<rparr>) ''abcde'') - 4)"
  by (rule summary_replaces_oldest) simp_all

end
