(* ===== verification/Value_Store.thy ===== *)
theory Value_Store
  imports Py_Prelude
begin

text \<open>
  The contract of the stores that keep the last value written under a key. A cache refines the dictionary
  that never forgets: whatever it holds is what that dictionary holds after the same operations. A store that
  forgets nothing by itself (\<open>value_store\<close>) agrees with the dictionary.
\<close>

locale value_cache =
  fixes step :: "'s \<Rightarrow> 'op \<Rightarrow> 's"
    and holds :: "'s \<Rightarrow> 'k \<Rightarrow> 'v option"
    and spec :: "('k \<Rightarrow> 'v option) \<Rightarrow> 'op \<Rightarrow> 'k \<Rightarrow> 'v option"
    and fits :: "'s \<Rightarrow> bool"
  assumes refines: "fits s \<Longrightarrow> holds (step s op) \<subseteq>\<^sub>m spec (holds s) op"
    and spec_mono: "m \<subseteq>\<^sub>m m' \<Longrightarrow> spec m op \<subseteq>\<^sub>m spec m' op"
    and bounded: "fits s \<Longrightarrow> fits (step s op)"
begin

lemma run_refines:
  "fits s \<Longrightarrow> holds s \<subseteq>\<^sub>m m \<Longrightarrow> holds (foldl step s ops) \<subseteq>\<^sub>m foldl spec m ops"
proof (induction ops arbitrary: s m)
  case (Cons op ops)
  from map_le_trans [OF refines spec_mono] Cons.prems have "holds (step s op) \<subseteq>\<^sub>m spec m op" by blast
  from Cons.IH [OF bounded this] Cons.prems show ?case by simp
qed simp

lemma run_bounded: "fits s \<Longrightarrow> fits (foldl step s ops)"
  by (induction ops arbitrary: s) (simp_all add: bounded)

lemma holds_last_stored:
  "fits s \<Longrightarrow> (\<And>k. holds s k = None) \<Longrightarrow> holds (foldl step s ops) k = Some v \<Longrightarrow>
    foldl spec Map.empty ops k = Some v"
  using run_refines [of s Map.empty ops] by (auto simp: map_le_def dom_def)

end

locale value_store = value_cache +
  assumes exact: "fits s \<Longrightarrow> spec (holds s) op \<subseteq>\<^sub>m holds (step s op)"
begin

lemma step_exact: "fits s \<Longrightarrow> holds (step s op) = spec (holds s) op"
  using refines exact by (blast intro: map_le_antisym)

lemma run_exact: "fits s \<Longrightarrow> holds (foldl step s ops) = foldl spec (holds s) ops"
  by (induction ops arbitrary: s) (simp_all add: step_exact bounded)

end

end
