(* ===== verification/Caches.thy ===== *)
theory Caches
  imports Planning Json Value_Store
begin

text \<open>
  The plan cache (\<open>sentinel/core/plan_cache.py\<close>) and the grounding cache
  (\<open>sentinel/core/grounding_cache.py\<close>). Both are dictionaries in insertion order with a limit on the number of
  entries and a time to live; the plan cache holds its lock during every operation. Times are rationals
  and arguments. The locale \<open>value_cache\<close> of \<open>Value_Store\<close> is what their clients rely on: an entry holds what was last
  stored under its key. The conversion of plans to and from dictionaries is not modelled.
\<close>

section \<open>The plan cache\<close>

record plan_entry =
  pe_plan :: plan
  pe_hits :: nat
  pe_created :: rat
  pe_last_hit :: rat
  pe_ttl :: int

record plan_cache =
  pk_entries :: "(string \<times> plan_entry) list"
  pk_max :: int
  pk_default_ttl :: int

definition plan_cache_new :: "int \<Rightarrow> int \<Rightarrow> plan_cache" where
  "plan_cache_new n ttl = \<lparr>pk_entries = [], pk_max = n, pk_default_ttl = ttl\<rparr>"

definition cache_key :: "(string \<Rightarrow> string) \<Rightarrow> intent \<Rightarrow> string" where
  \<comment> \<open>the hash is an argument; parameters are values that \<open>json.dumps\<close> accepts\<close>
  "cache_key sha i =
     take 16 (sha (in_action i @ ''|'' @ in_target i @ ''|'' @ json_dump '', '' '': '' (PDict (in_params i))))"

definition plan_get :: "(string \<Rightarrow> string) \<Rightarrow> plan_cache \<Rightarrow> intent \<Rightarrow> rat \<Rightarrow> plan_cache \<times> plan option" where
  "plan_get sha pc i now =
     (let key = cache_key sha i in
      case map_of (pk_entries pc) key of
        None \<Rightarrow> (pc, None)
      | Some e \<Rightarrow>
          if of_int (pe_ttl e) \<le> now - pe_last_hit e then (pc\<lparr>pk_entries := AList.delete key (pk_entries pc)\<rparr>, None)
          else (pc\<lparr>pk_entries := AList.update key (e\<lparr>pe_hits := pe_hits e + 1, pe_last_hit := now\<rparr>) (pk_entries pc)\<rparr>,
                Some (pe_plan e)))"

fun least_recent :: "(string \<times> plan_entry) list \<Rightarrow> (string \<times> plan_entry) option" where
  \<comment> \<open>the first entry with the least time of its last hit\<close>
  "least_recent [] = None"
| "least_recent (x # xs) =
     (case least_recent xs of
        None \<Rightarrow> Some x
      | Some y \<Rightarrow> if pe_last_hit (snd x) \<le> pe_last_hit (snd y) then Some x else Some y)"

definition plan_put :: "(string \<Rightarrow> string) \<Rightarrow> plan_cache \<Rightarrow> intent \<Rightarrow> plan \<Rightarrow> int option \<Rightarrow> rat \<Rightarrow> plan_cache result" where
  "plan_put sha pc i p ttl now =
     (let key = cache_key sha i;
          e = \<lparr>pe_plan = p, pe_hits = 0, pe_created = now, pe_last_hit = now,
               pe_ttl = (case ttl of Some t \<Rightarrow> if t = 0 then pk_default_ttl pc else t | None \<Rightarrow> pk_default_ttl pc)\<rparr>
      in if int (length (pk_entries pc)) < pk_max pc
         then Inr (pc\<lparr>pk_entries := AList.update key e (pk_entries pc)\<rparr>)
         else (case least_recent (pk_entries pc) of
                 None \<Rightarrow> Inl (ValueError ''min() iterable argument is empty'')
               | Some (old, _) \<Rightarrow> Inr (pc\<lparr>pk_entries := AList.update key e (AList.delete old (pk_entries pc))\<rparr>)))"

definition plan_invalidate :: "(string \<Rightarrow> string) \<Rightarrow> plan_cache \<Rightarrow> intent \<Rightarrow> plan_cache \<times> bool" where
  "plan_invalidate sha pc i =
     (if cache_key sha i \<in> set (keys (pk_entries pc))
      then (pc\<lparr>pk_entries := AList.delete (cache_key sha i) (pk_entries pc)\<rparr>, True) else (pc, False))"

definition plan_clear :: "plan_cache \<Rightarrow> plan_cache \<times> nat" where
  "plan_clear pc = (pc\<lparr>pk_entries := []\<rparr>, length (pk_entries pc))"

definition plan_stats :: "plan_cache \<Rightarrow> (string \<times> plan_entry) list" where
  \<comment> \<open>the entries of the statistics, the least recent first\<close>
  "plan_stats pc = sort_key (\<lambda>(k, e). pe_last_hit e) (pk_entries pc)"

datatype plan_op =
    Plan_Get intent rat
  | Plan_Put intent plan "int option" rat
  | Plan_Invalidate intent
  | Plan_Clear

fun plan_step :: "(string \<Rightarrow> string) \<Rightarrow> plan_cache \<Rightarrow> plan_op \<Rightarrow> plan_cache" where
  "plan_step sha pc (Plan_Get i now) = fst (plan_get sha pc i now)"
| "plan_step sha pc (Plan_Put i p ttl now) = (case plan_put sha pc i p ttl now of Inr pc' \<Rightarrow> pc' | Inl e \<Rightarrow> pc)"
| "plan_step sha pc (Plan_Invalidate i) = fst (plan_invalidate sha pc i)"
| "plan_step sha pc Plan_Clear = fst (plan_clear pc)"

definition plan_holds :: "plan_cache \<Rightarrow> string \<Rightarrow> plan option" where
  "plan_holds pc k = map_option pe_plan (map_of (pk_entries pc) k)"

fun plan_spec :: "(string \<Rightarrow> string) \<Rightarrow> (string \<Rightarrow> plan option) \<Rightarrow> plan_op \<Rightarrow> string \<Rightarrow> plan option" where
  "plan_spec sha m (Plan_Put i p ttl now) = m(cache_key sha i \<mapsto> p)"
| "plan_spec sha m (Plan_Get i now) = m"
| "plan_spec sha m (Plan_Invalidate i) = m(cache_key sha i := None)"
| "plan_spec sha m Plan_Clear = Map.empty"

definition plan_fits :: "plan_cache \<Rightarrow> bool" where
  "plan_fits pc \<longleftrightarrow> dict_ok (pk_entries pc) \<and> 1 \<le> pk_max pc \<and> int (length (pk_entries pc)) \<le> pk_max pc"

lemma least_recent_in: "least_recent xs = Some x \<Longrightarrow> x \<in> set xs"
  by (induction xs arbitrary: x) (auto split: option.splits if_splits)

lemma least_recent_none: "least_recent xs = None \<longleftrightarrow> xs = []"
  by (cases xs) (auto split: option.splits)

lemma least_recent_least: "least_recent xs = Some x \<Longrightarrow> y \<in> set xs \<Longrightarrow> pe_last_hit (snd x) \<le> pe_last_hit (snd y)"
proof (induction xs arbitrary: x y)
  case (Cons a xs)
  show ?case
  proof (cases "least_recent xs")
    case None
    with Cons.prems show ?thesis by (simp add: least_recent_none)
  next
    case (Some z)
    with Cons.IH [OF Some] Cons.prems show ?thesis by (fastforce split: if_splits)
  qed
qed simp

lemma length_update: "length (AList.update k v d) = (if k \<in> set (keys d) then length d else Suc (length d))"
  by (induction d) auto

lemma map_of_absent: "k \<notin> fst ` set d \<Longrightarrow> map_of d k = None"
  by (simp add: map_of_eq_None_iff)

lemma plan_put_fits:
  assumes "plan_fits pc" and "plan_put sha pc i p ttl now = Inr pc'"
  shows "plan_fits pc'"
proof (cases "int (length (pk_entries pc)) < pk_max pc")
  case True
  with assms show ?thesis by (auto simp: plan_put_def Let_def plan_fits_def length_update split: if_splits)
next
  case False
  with assms(2) obtain old x where l: "least_recent (pk_entries pc) = Some (old, x)"
    by (auto simp: plan_put_def Let_def split: option.splits)
  then have "old \<in> set (keys (pk_entries pc))" by (auto dest: least_recent_in intro: rev_image_eqI)
  then have "length (AList.delete old (pk_entries pc)) < length (pk_entries pc)" by (rule length_delete_less)
  with False assms l show ?thesis
    by (auto simp: plan_put_def Let_def plan_fits_def length_update split: if_splits)
qed

lemma plan_put_works:
  assumes "plan_fits pc"
  shows "\<exists>pc'. plan_put sha pc i p ttl now = Inr pc'"
proof (cases "least_recent (pk_entries pc)")
  case None
  then have "pk_entries pc = []" by (simp add: least_recent_none)
  with assms show ?thesis by (auto simp: plan_put_def Let_def plan_fits_def)
next
  case (Some x)
  then show ?thesis by (cases x) (auto simp: plan_put_def Let_def)
qed

lemma plan_put_holds:
  "plan_put sha pc i p ttl now = Inr pc' \<Longrightarrow> plan_holds pc' \<subseteq>\<^sub>m (plan_holds pc)(cache_key sha i \<mapsto> p)"
  by (auto simp: plan_holds_def plan_put_def Let_def map_le_def split: if_splits option.splits)

lemma plan_step_max: "pk_max (plan_step sha s op) = pk_max s"
  by (cases op) (auto simp: plan_get_def plan_put_def plan_invalidate_def plan_clear_def Let_def
      split: option.splits sum.splits if_splits)

interpretation plans: value_cache "plan_step sha" plan_holds "plan_spec sha" plan_fits
proof
  fix s op
  assume fits: "plan_fits s"
  show "plan_holds (plan_step sha s op) \<subseteq>\<^sub>m plan_spec sha (plan_holds s) op"
  proof (cases op)
    case (Plan_Put i p ttl now)
    from plan_put_works [OF fits] obtain s' where "plan_put sha s i p ttl now = Inr s'" by blast
    with plan_put_holds [OF this] Plan_Put show ?thesis by simp
  qed (auto simp: plan_holds_def plan_get_def plan_invalidate_def plan_clear_def Let_def map_le_def
      split: option.splits if_splits dest: map_of_absent)
next
  fix m m' :: "string \<Rightarrow> plan option" and op
  assume "m \<subseteq>\<^sub>m m'"
  then show "plan_spec sha m op \<subseteq>\<^sub>m plan_spec sha m' op"
    by (cases op) (auto simp: map_le_def)
next
  fix s op
  assume "plan_fits s"
  then show "plan_fits (plan_step sha s op)"
  proof (cases op)
    case (Plan_Put i p ttl now)
    with plan_put_fits \<open>plan_fits s\<close> show ?thesis by (auto split: sum.split)
  next
    case (Plan_Get i now)
    with \<open>plan_fits s\<close> show ?thesis
      using length_delete_le [of "cache_key sha i" "pk_entries s"]
      by (auto simp: plan_fits_def plan_get_def Let_def length_update map_of_eq_None_iff split: option.split
          dest: map_of_SomeD intro: rev_image_eqI)
  next
    case (Plan_Invalidate i)
    with \<open>plan_fits s\<close> show ?thesis
      using length_delete_le [of "cache_key sha i" "pk_entries s"] by (auto simp: plan_fits_def plan_invalidate_def)
  next
    case Plan_Clear
    with \<open>plan_fits s\<close> show ?thesis by (simp add: plan_fits_def plan_clear_def)
  qed
qed

lemma plan_hit:
  "snd (plan_get sha pc i now) = Some p \<Longrightarrow> plan_holds pc (cache_key sha i) = Some p"
  by (auto simp: plan_get_def plan_holds_def Let_def split: option.splits if_splits)


section \<open>The grounding cache\<close>

record 'v ground_entry =
  ge_data :: 'v
  ge_time :: rat
  ge_ttl :: rat
  ge_accesses :: nat
  ge_accessed :: "rat option"

record 'v ground_cache =
  gc_entries :: "(string \<times> 'v ground_entry) list"
  gc_default_ttl :: rat
  gc_max :: nat

definition ground_cache_new :: "rat \<Rightarrow> 'v ground_cache" where
  "ground_cache_new ttl = \<lparr>gc_entries = [], gc_default_ttl = ttl, gc_max = 1000\<rparr>"

definition ground_expired :: "'v ground_entry \<Rightarrow> rat \<Rightarrow> bool" where
  "ground_expired e now \<longleftrightarrow> ge_ttl e < now - ge_time e"

definition ground_get :: "'v ground_cache \<Rightarrow> string \<Rightarrow> rat \<Rightarrow> 'v ground_cache \<times> 'v option" where
  "ground_get gc key now =
     (case map_of (gc_entries gc) key of
        None \<Rightarrow> (gc, None)
      | Some e \<Rightarrow>
          if ground_expired e now then (gc\<lparr>gc_entries := AList.delete key (gc_entries gc)\<rparr>, None)
          else (gc\<lparr>gc_entries := AList.delete key (gc_entries gc)
                     @ [(key, e\<lparr>ge_accesses := ge_accesses e + 1, ge_accessed := Some now\<rparr>)]\<rparr>,
                Some (ge_data e)))"

definition evict_oldest :: "'v ground_cache \<Rightarrow> 'v ground_cache" where
  "evict_oldest gc = gc\<lparr>gc_entries := tl (gc_entries gc)\<rparr>"

definition ground_set :: "'v ground_cache \<Rightarrow> string \<Rightarrow> 'v \<Rightarrow> rat option \<Rightarrow> rat \<Rightarrow> 'v ground_cache" where
  \<comment> \<open>a key that is there already keeps its position\<close>
  "ground_set gc key v ttl now =
     (let gc' = (if gc_max gc \<le> length (gc_entries gc) then evict_oldest gc else gc);
          e = \<lparr>ge_data = v, ge_time = now, ge_ttl = (case ttl of Some t \<Rightarrow> t | None \<Rightarrow> gc_default_ttl gc'),
               ge_accesses = 0, ge_accessed = None\<rparr>
      in gc'\<lparr>gc_entries := AList.update key e (gc_entries gc')\<rparr>)"

definition ground_invalidate :: "'v ground_cache \<Rightarrow> string \<Rightarrow> 'v ground_cache \<times> bool" where
  "ground_invalidate gc key =
     (if key \<in> set (keys (gc_entries gc)) then (gc\<lparr>gc_entries := AList.delete key (gc_entries gc)\<rparr>, True)
      else (gc, False))"

definition ground_invalidate_pattern :: "'v ground_cache \<Rightarrow> string \<Rightarrow> 'v ground_cache \<times> nat" where
  "ground_invalidate_pattern gc pat =
     (gc\<lparr>gc_entries := filter (\<lambda>(k, e). \<not> sublist pat k) (gc_entries gc)\<rparr>,
      length (filter (sublist pat) (keys (gc_entries gc))))"

definition ground_invalidate_all :: "'v ground_cache \<Rightarrow> 'v ground_cache \<times> nat" where
  "ground_invalidate_all gc = (gc\<lparr>gc_entries := []\<rparr>, length (gc_entries gc))"

definition ground_cleanup :: "'v ground_cache \<Rightarrow> rat \<Rightarrow> 'v ground_cache \<times> nat" where
  "ground_cleanup gc now =
     (gc\<lparr>gc_entries := filter (\<lambda>(k, e). \<not> ground_expired e now) (gc_entries gc)\<rparr>,
      length (filter (\<lambda>(k, e). ground_expired e now) (gc_entries gc)))"

record ground_stats =
  gs_total :: nat
  gs_expired :: nat
  gs_valid :: int
  gs_accesses :: nat
  gs_max :: nat
  gs_utilization :: rat

definition ground_get_stats :: "'v ground_cache \<Rightarrow> rat \<Rightarrow> ground_stats" where
  "ground_get_stats gc now =
     (let total = length (gc_entries gc); expired = length (filter (\<lambda>(k, e). ground_expired e now) (gc_entries gc))
      in \<lparr>gs_total = total, gs_expired = expired, gs_valid = int total - int expired,
          gs_accesses = sum_list (map (\<lambda>(k, e). ge_accesses e) (gc_entries gc)), gs_max = gc_max gc,
          gs_utilization = (if 0 < gc_max gc then of_nat total / of_nat (gc_max gc) else 0)\<rparr>)"

datatype 'v ground_op =
    Ground_Get string rat
  | Ground_Set string 'v "rat option" rat
  | Ground_Invalidate string
  | Ground_Pattern string
  | Ground_All
  | Ground_Cleanup rat

fun ground_step :: "'v ground_cache \<Rightarrow> 'v ground_op \<Rightarrow> 'v ground_cache" where
  "ground_step gc (Ground_Get k now) = fst (ground_get gc k now)"
| "ground_step gc (Ground_Set k v ttl now) = ground_set gc k v ttl now"
| "ground_step gc (Ground_Invalidate k) = fst (ground_invalidate gc k)"
| "ground_step gc (Ground_Pattern pat) = fst (ground_invalidate_pattern gc pat)"
| "ground_step gc Ground_All = fst (ground_invalidate_all gc)"
| "ground_step gc (Ground_Cleanup now) = fst (ground_cleanup gc now)"

definition stamped :: "'v ground_entry \<Rightarrow> 'v \<times> rat \<times> rat" where
  "stamped e = (ge_data e, ge_time e, ge_ttl e)"

definition ground_holds :: "'v ground_cache \<Rightarrow> string \<Rightarrow> ('v \<times> rat \<times> rat) option" where
  "ground_holds gc k = map_option stamped (map_of (gc_entries gc) k)"

fun ground_spec :: "rat \<Rightarrow> (string \<Rightarrow> ('v \<times> rat \<times> rat) option) \<Rightarrow> 'v ground_op \<Rightarrow> string \<Rightarrow> ('v \<times> rat \<times> rat) option"
where
  "ground_spec dflt m (Ground_Set k v ttl now) = m(k \<mapsto> (v, now, case ttl of Some t \<Rightarrow> t | None \<Rightarrow> dflt))"
| "ground_spec dflt m (Ground_Invalidate k) = m(k := None)"
| "ground_spec dflt m (Ground_Pattern pat) = (\<lambda>k. if sublist pat k then None else m k)"
| "ground_spec dflt m Ground_All = Map.empty"
| "ground_spec dflt m _ = m"

definition ground_fits :: "rat \<Rightarrow> 'v ground_cache \<Rightarrow> bool" where
  "ground_fits dflt gc \<longleftrightarrow>
     dict_ok (gc_entries gc) \<and> gc_default_ttl gc = dflt \<and> 1 \<le> gc_max gc \<and> length (gc_entries gc) \<le> gc_max gc"

lemma dict_ok_move_end: "dict_ok d \<Longrightarrow> dict_ok (AList.delete k d @ [(k, v)])"
  by (auto simp: dict_ok_def distinct_delete dom_map_of_conv_image_fst [symmetric])

lemma dict_ok_tl: "dict_ok d \<Longrightarrow> dict_ok (tl d)"
  by (cases d) (auto simp: dict_ok_def)

lemma map_of_tl: "dict_ok d \<Longrightarrow> map_of (tl d) \<subseteq>\<^sub>m map_of d"
  by (cases d) (auto simp: dict_ok_def map_le_def dom_def image_iff dest: map_of_SomeD)

lemma map_of_filtered: "dict_ok d \<Longrightarrow> map_of (filter P d) k = Some v \<Longrightarrow> map_of d k = Some v \<and> P (k, v)"
  by (auto dest!: map_of_SomeD intro: in_dict_map_of)

lemma ground_set_holds:
  assumes "ground_fits dflt gc"
  shows "ground_holds (ground_set gc k v ttl now) \<subseteq>\<^sub>m ground_spec dflt (ground_holds gc) (Ground_Set k v ttl now)"
proof -
  have "map_of (tl (gc_entries gc)) \<subseteq>\<^sub>m map_of (gc_entries gc)"
    using assms by (intro map_of_tl) (simp add: ground_fits_def)
  then have "map_of (tl (gc_entries gc)) k' = Some e \<Longrightarrow> map_of (gc_entries gc) k' = Some e" for k' e
    by (metis domI map_le_def)
  with assms show ?thesis
    by (auto simp: ground_set_def evict_oldest_def Let_def ground_holds_def ground_fits_def stamped_def map_le_def
        split: option.split)
qed

lemma ground_set_fits:
  assumes "ground_fits dflt gc"
  shows "ground_fits dflt (ground_set gc k v ttl now)"
  using assms
  by (cases "gc_entries gc")
    (auto simp: ground_set_def evict_oldest_def Let_def ground_fits_def length_update dict_ok_def distinct_update)

interpretation grounded: value_cache ground_step ground_holds "ground_spec dflt" "ground_fits dflt"
proof
  fix s :: "'v ground_cache" and op
  assume fits: "ground_fits dflt s"
  then have d: "dict_ok (gc_entries s)" by (simp add: ground_fits_def)
  show "ground_holds (ground_step s op) \<subseteq>\<^sub>m ground_spec dflt (ground_holds s) op"
  proof (cases op)
    case (Ground_Set k v ttl now)
    with ground_set_holds [OF fits] show ?thesis by simp
  next
    case (Ground_Pattern pat)
    with map_of_filtered [OF d] show ?thesis
      by (fastforce simp: ground_holds_def ground_invalidate_pattern_def map_le_def)
  next
    case (Ground_Cleanup now)
    with map_of_filtered [OF d] show ?thesis by (fastforce simp: ground_holds_def ground_cleanup_def map_le_def)
  next
    case (Ground_Get k now)
    then show ?thesis
      by (auto simp: ground_holds_def ground_get_def stamped_def map_le_def map_add_def split: option.splits if_splits)
  qed (auto simp: ground_holds_def ground_invalidate_def ground_invalidate_all_def map_le_def
      dest: map_of_absent split: if_splits)
next
  fix m m' :: "string \<Rightarrow> ('v \<times> rat \<times> rat) option" and op
  assume "m \<subseteq>\<^sub>m m'"
  then show "ground_spec dflt m op \<subseteq>\<^sub>m ground_spec dflt m' op"
    by (cases op) (auto simp: map_le_def)
next
  fix s :: "'v ground_cache" and op
  assume fits: "ground_fits dflt s"
  show "ground_fits dflt (ground_step s op)"
  proof (cases op)
    case (Ground_Set k v ttl now)
    with ground_set_fits [OF fits] show ?thesis by simp
  next
    case (Ground_Get k now)
    have "k \<in> set (keys (gc_entries s))" if "map_of (gc_entries s) k = Some e" for e
      using map_of_SomeD [OF that] by force
    with Ground_Get fits show ?thesis
      using length_delete_less [of k "gc_entries s"] length_delete_le [of k "gc_entries s"]
      by (fastforce simp: ground_fits_def ground_get_def dict_ok_move_end split: option.split)
  next
    case (Ground_Invalidate k)
    with fits show ?thesis
      using length_delete_le [of k "gc_entries s"] by (auto simp: ground_fits_def ground_invalidate_def)
  next
    case (Ground_Pattern pat)
    with fits show ?thesis
      using order_trans [OF length_filter_le [of "\<lambda>(k, e). \<not> sublist pat k" "gc_entries s"], of "gc_max s"]
      by (simp add: ground_fits_def ground_invalidate_pattern_def)
  next
    case (Ground_Cleanup now)
    with fits show ?thesis
      using order_trans [OF length_filter_le [of "\<lambda>(k, e). \<not> ground_expired e now" "gc_entries s"], of "gc_max s"]
      by (simp add: ground_fits_def ground_cleanup_def)
  next
    case Ground_All
    with fits show ?thesis by (simp add: ground_fits_def ground_invalidate_all_def)
  qed
qed

lemma ground_hit:
  "ground_get gc k now = (gc', Some v) \<Longrightarrow> \<exists>t ttl. ground_holds gc k = Some (v, t, ttl) \<and> now - t \<le> ttl"
  by (auto simp: ground_get_def ground_holds_def stamped_def ground_expired_def split: option.splits if_splits)


definition some_plan :: "nat \<Rightarrow> plan" where
  "some_plan n =
     \<lparr>pl_steps = [], pl_intent = launch_intent, pl_risk = of_nat n, pl_duration = 0,
      pl_description = ''plan'', pl_goal = None\<rparr>"


section \<open>Properties\<close>

text \<open>
  A plan that the plan cache returns is the plan of the last \<open>set\<close> whose intent has the same key, with no
  \<open>invalidate\<close> of that key and no \<open>clear\<close> after it, whatever else was read, stored, expired or evicted in
  between; and the cache never holds more entries than its limit.
\<close>

theorem cached_plan_is_last_stored:
  assumes "1 \<le> n"
  shows "int (length (pk_entries (foldl (plan_step sha) (plan_cache_new n ttl) ops))) \<le> n \<and>
    (snd (plan_get sha (foldl (plan_step sha) (plan_cache_new n ttl) ops) i now) = Some p \<longrightarrow>
     foldl (plan_spec sha) Map.empty ops (cache_key sha i) = Some p)"
proof -
  let ?s = "foldl (plan_step sha) (plan_cache_new n ttl) ops"
  have fits: "plan_fits (plan_cache_new n ttl)" using assms by (simp add: plan_fits_def plan_cache_new_def)
  have "foldl (plan_spec sha) Map.empty ops (cache_key sha i) = Some p" if "snd (plan_get sha ?s i now) = Some p"
    by (rule plans.holds_last_stored [OF fits _ plan_hit [OF that]]) (simp add: plan_holds_def plan_cache_new_def)
  moreover have "pk_max (foldl (plan_step sha) s ops) = pk_max s" for s
    by (induction ops arbitrary: s) (simp_all add: plan_step_max)
  with plans.run_bounded [OF fits, of sha ops] have "int (length (pk_entries ?s)) \<le> n"
    by (simp add: plan_fits_def plan_cache_new_def)
  ultimately show ?thesis by blast
qed

definition plan_ops :: "plan_op list" where
  "plan_ops = [Plan_Put launch_intent (some_plan 1) None 0, Plan_Get launch_intent 4,
     Plan_Put launch_intent (some_plan 2) None 5]"

lemma cache_key_const [simp]: "cache_key (\<lambda>_. ''k'') i = ''k''"
  by (simp add: cache_key_def)

theorem cached_plan_is_last_stored_witness:
  "int (length (pk_entries (foldl (plan_step (\<lambda>_. ''k'')) (plan_cache_new 1 300) plan_ops))) \<le> 1 \<and>
   foldl (plan_spec (\<lambda>_. ''k'')) Map.empty plan_ops (cache_key (\<lambda>_. ''k'') launch_intent) = Some (some_plan 2)"
proof -
  have "snd (plan_get (\<lambda>_. ''k'') (foldl (plan_step (\<lambda>_. ''k'')) (plan_cache_new 1 300) plan_ops) launch_intent 304)
      = Some (some_plan 2)"
    by (simp add: plan_ops_def plan_cache_new_def plan_put_def plan_get_def Let_def)
  with cached_plan_is_last_stored
    [of 1 "\<lambda>_. ''k''" 300 plan_ops launch_intent 304 "some_plan 2"]
  show ?thesis by simp
qed

text \<open>
  A value that the grounding cache returns was stored under that very key by the last \<open>set\<close> of it, nothing
  invalidated it since (by key, by pattern or as a whole), and it is no older than the time to live it was
  stored with (the default one when none was given).
\<close>

theorem grounded_value_is_fresh:
  assumes "ground_get (foldl ground_step (ground_cache_new dflt) ops) k now = (gc, Some v)"
  shows "\<exists>t ttl. foldl (ground_spec dflt) Map.empty ops k = Some (v, t, ttl) \<and> now - t \<le> ttl"
proof -
  have "ground_fits dflt (ground_cache_new dflt)" by (simp add: ground_fits_def ground_cache_new_def)
  note last = grounded.holds_last_stored [OF this]
  from ground_hit [OF assms] obtain t ttl where
    h: "ground_holds (foldl ground_step (ground_cache_new dflt) ops) k = Some (v, t, ttl)" and "now - t \<le> ttl"
    by blast
  with last [OF _ h] show ?thesis by (auto simp: ground_holds_def ground_cache_new_def)
qed

theorem grounded_value_is_fresh_witness:
  "\<exists>t ttl. foldl (ground_spec 30) Map.empty [Ground_Set ''cpu'' True None 0, Ground_Invalidate ''ram''] ''cpu''
      = Some (True, t, ttl) \<and> 20 - t \<le> ttl"
  by (rule grounded_value_is_fresh [where gc = "\<lparr>gc_entries =
        [(''cpu'', \<lparr>ge_data = True, ge_time = 0, ge_ttl = 30, ge_accesses = 1, ge_accessed = Some 20\<rparr>)],
        gc_default_ttl = 30, gc_max = 1000\<rparr>"])
    (simp add: ground_cache_new_def ground_set_def ground_invalidate_def ground_get_def ground_expired_def Let_def)

text \<open>
  The key of an intent does not tell all intents apart: a bar inside the action or the target moves the
  border between them, whatever hash is used.
\<close>

theorem plan_key_collision:
  "cache_key sha \<lparr>in_action = ''copy|notes'', in_target = ''old'', in_params = ps, in_confidence = 1\<rparr>
   = cache_key sha \<lparr>in_action = ''copy'', in_target = ''notes|old'', in_params = ps, in_confidence = 1\<rparr>"
  by (simp add: cache_key_def)

definition ground_full :: "nat \<Rightarrow> nat ground_cache" where
  "ground_full n =
     \<lparr>gc_entries = [(''cpu'', \<lparr>ge_data = n, ge_time = 0, ge_ttl = 30, ge_accesses = 0, ge_accessed = None\<rparr>),
        (''ram'', \<lparr>ge_data = 2, ge_time = 1, ge_ttl = 30, ge_accesses = 0, ge_accessed = None\<rparr>)],
      gc_default_ttl = 30, gc_max = 2\<rparr>"

text \<open>
  Storing a value again under a key that a full grounding cache already holds evicts an entry all the same:
  the oldest one, here another key, although no room was needed.
\<close>

theorem overwriting_evicts:
  "map_of (gc_entries (ground_set (ground_full n) ''ram'' m None 2)) ''cpu'' = None \<and>
   length (gc_entries (ground_set (ground_full n) ''ram'' m None 2)) = 1"
  by (simp add: ground_set_def evict_oldest_def ground_full_def Let_def)

end
