(* ===== verification/Plugin_Sdk.thy ===== *)
theory Plugin_Sdk
  imports Json Value_Store
begin

text \<open>
  The plugin SDK (\<open>sentinel/plugin_sdk\<close>): permissions and their tokens (\<open>permission.py\<close>), the lifecycle
  (\<open>lifecycle.py\<close>), the manifest (\<open>manifest.py\<close>), the static validation of a plugin directory
  (\<open>validator.py\<close>), the registry (\<open>registry.py\<close>) and the event bus (\<open>events.py\<close>). Sets of permissions are sorted
  lists without repetition. A plugin directory is its files with their contents; what lies outside and what
  is not a file is an argument. The hash is an argument of the checksum. Texts of error messages are
  constructors.
\<close>

section \<open>Permissions\<close>

datatype plugin_risk = RISK_LOW | RISK_MEDIUM | RISK_HIGH | RISK_CRITICAL

fun risk_index :: "plugin_risk \<Rightarrow> nat" where
  "risk_index RISK_LOW = 0"
| "risk_index RISK_MEDIUM = 1"
| "risk_index RISK_HIGH = 2"
| "risk_index RISK_CRITICAL = 3"

lemma risk_index_inject: "risk_index a = risk_index b \<longleftrightarrow> a = b"
  by (cases a; cases b) simp_all

instantiation plugin_risk :: linorder
begin

definition less_eq_plugin_risk :: "plugin_risk \<Rightarrow> plugin_risk \<Rightarrow> bool" where
  "less_eq_plugin_risk a b \<longleftrightarrow> risk_index a \<le> risk_index b"

definition less_plugin_risk :: "plugin_risk \<Rightarrow> plugin_risk \<Rightarrow> bool" where
  "less_plugin_risk a b \<longleftrightarrow> risk_index a < risk_index b"

instance
  by standard (auto simp: less_eq_plugin_risk_def less_plugin_risk_def risk_index_inject)

end

definition permission_catalog :: "(string \<times> string \<times> plugin_risk) list" where
  \<comment> \<open>permission, group, risk; the descriptions are for display\<close>
  "permission_catalog =
     [(''system.read'', ''system'', RISK_LOW),
      (''system.modify'', ''system'', RISK_CRITICAL),
      (''process.manage'', ''system'', RISK_CRITICAL),
      (''filesystem.read'', ''files'', RISK_LOW),
      (''filesystem.write'', ''files'', RISK_MEDIUM),
      (''application.launch'', ''app'', RISK_MEDIUM),
      (''application.control'', ''app'', RISK_HIGH),
      (''network.request'', ''network'', RISK_HIGH),
      (''model.request'', ''ai'', RISK_MEDIUM),
      (''memory.access'', ''ai'', RISK_HIGH)]"

definition permission_risk :: "string \<Rightarrow> plugin_risk" where
  "permission_risk p = (case map_of permission_catalog p of Some (g, r) \<Rightarrow> r | None \<Rightarrow> RISK_LOW)"

fun highest_risk :: "plugin_risk \<Rightarrow> string list \<Rightarrow> plugin_risk" where
  "highest_risk h [] = h"
| "highest_risk h (p # ps) = highest_risk (if h < permission_risk p then permission_risk p else h) ps"

definition evaluate_risk :: "string list \<Rightarrow> plugin_risk" where
  "evaluate_risk ps = highest_risk RISK_LOW ps"

definition requires_user_approval :: "string list \<Rightarrow> bool" where
  "requires_user_approval ps \<longleftrightarrow> evaluate_risk ps \<in> {RISK_MEDIUM, RISK_HIGH, RISK_CRITICAL}"

definition unknown_permissions :: "string list \<Rightarrow> string list" where
  "unknown_permissions ps = py_sorted (filter (\<lambda>p. p \<notin> set (keys permission_catalog)) ps)"

record permission_evaluation =
  pv_permissions :: "string list"
  pv_risk :: plugin_risk
  pv_requires_approval :: bool
  pv_critical :: bool
  pv_unknown :: "string list"

definition evaluate_permissions :: "string list \<Rightarrow> permission_evaluation" where
  "evaluate_permissions ps =
     \<lparr>pv_permissions = sort ps, pv_risk = evaluate_risk ps, pv_requires_approval = requires_user_approval ps,
      pv_critical = (evaluate_risk ps = RISK_CRITICAL), pv_unknown = unknown_permissions ps\<rparr>"

record permission_token =
  tk_plugin :: string
  tk_permissions :: "string list"
  tk_granted :: rat
  tk_expires :: rat
  tk_id :: string
  tk_note :: string

definition token_valid :: "permission_token \<Rightarrow> rat \<Rightarrow> bool" where
  "token_valid t now \<longleftrightarrow> now < tk_expires t"

record approval_record =
  ar_plugin :: string
  ar_permissions :: "string list"
  ar_granted :: rat
  ar_token :: string
  ar_risk :: plugin_risk

record permission_manager =
  pm_tokens :: "(string \<times> permission_token) list"
  pm_approvals :: "approval_record list"
  pm_storage :: bool

definition permissions_new :: "bool \<Rightarrow> (permission_token list \<times> approval_record list) option \<Rightarrow> permission_manager"
where
  \<comment> \<open>what the storage holds is an argument; a state that cannot be read leaves the manager empty\<close>
  "permissions_new storage state =
     (case (if storage then state else None) of
        None \<Rightarrow> \<lparr>pm_tokens = [], pm_approvals = [], pm_storage = storage\<rparr>
      | Some (ts, as) \<Rightarrow>
          \<lparr>pm_tokens = fold (\<lambda>t. AList.update (tk_plugin t) t) ts [], pm_approvals = as, pm_storage = storage\<rparr>)"

definition persisted :: "permission_manager \<Rightarrow> (permission_token list \<times> approval_record list) option" where
  "persisted pm =
     (if pm_storage pm
      then Some (map snd (pm_tokens pm), drop (length (pm_approvals pm) - 100) (pm_approvals pm)) else None)"

definition storage_error :: py_exc where
  "storage_error = AnyException ''RuntimeError''"

definition permission_grant :: "permission_manager \<Rightarrow> string \<Rightarrow> string list \<Rightarrow> int \<Rightarrow> rat \<Rightarrow> string \<Rightarrow> bool
    \<Rightarrow> permission_manager \<times> permission_token result" where
  \<comment> \<open>\<open>stored\<close>: the storage accepts the new state\<close>
  "permission_grant pm pid ps ttl now tid stored =
     (let perms = py_sorted ps;
          token = \<lparr>tk_plugin = pid, tk_permissions = perms, tk_granted = now, tk_expires = now + of_int (max 60 ttl),
                   tk_id = tid, tk_note = ''user_approved''\<rparr>;
          previous = map_of (pm_tokens pm) pid;
          n = length (pm_approvals pm);
          pm' = pm\<lparr>pm_tokens := AList.update pid token (pm_tokens pm),
                   pm_approvals := pm_approvals pm @
                     [\<lparr>ar_plugin = pid, ar_permissions = perms, ar_granted = now, ar_token = tid,
                       ar_risk = evaluate_risk perms\<rparr>]\<rparr>
      in if pm_storage pm' \<and> \<not> stored
         then (pm'\<lparr>pm_tokens := (case previous of None \<Rightarrow> AList.delete pid (pm_tokens pm')
                     | Some t \<Rightarrow> AList.update pid t (pm_tokens pm')),
                   pm_approvals := take n (pm_approvals pm')\<rparr>, Inl storage_error)
         else (pm', Inr token))"

definition permission_revoke :: "permission_manager \<Rightarrow> string \<Rightarrow> bool \<Rightarrow> permission_manager \<times> bool result" where
  "permission_revoke pm pid stored =
     (case map_of (pm_tokens pm) pid of
        None \<Rightarrow> (pm, Inr False)
      | Some t \<Rightarrow>
          (let pm' = pm\<lparr>pm_tokens := AList.delete pid (pm_tokens pm)\<rparr>
           in if pm_storage pm' \<and> \<not> stored
              then (pm'\<lparr>pm_tokens := AList.update pid t (pm_tokens pm')\<rparr>, Inl storage_error)
              else (pm', Inr True)))"

definition token_for :: "permission_manager \<Rightarrow> string \<Rightarrow> rat \<Rightarrow> permission_token option" where
  "token_for pm pid now =
     (case map_of (pm_tokens pm) pid of
        None \<Rightarrow> None
      | Some t \<Rightarrow> if \<not> token_valid t now then None else Some t)"

definition has_permission :: "permission_manager \<Rightarrow> string \<Rightarrow> string \<Rightarrow> rat \<Rightarrow> bool" where
  "has_permission pm pid p now =
     (case token_for pm pid now of None \<Rightarrow> False | Some t \<Rightarrow> p \<in> set (tk_permissions t))"

definition require_permission :: "permission_manager \<Rightarrow> string \<Rightarrow> string \<Rightarrow> rat \<Rightarrow> unit result" where
  "require_permission pm pid p now =
     (if \<not> has_permission pm pid p now
      then Inl (PermissionError (''plugin '' @ quoted pid @ '' lacks permission '' @ quoted p)) else Inr ())"

definition approved_permissions :: "permission_manager \<Rightarrow> string \<Rightarrow> rat \<Rightarrow> string list" where
  "approved_permissions pm pid now = (case token_for pm pid now of Some t \<Rightarrow> tk_permissions t | None \<Rightarrow> [])"

datatype permission_op =
    Grant_Token string "string list" int rat string bool
  | Revoke_Token string bool

fun permission_step :: "permission_manager \<Rightarrow> permission_op \<Rightarrow> permission_manager" where
  "permission_step pm (Grant_Token pid ps ttl now tid stored) = fst (permission_grant pm pid ps ttl now tid stored)"
| "permission_step pm (Revoke_Token pid stored) = fst (permission_revoke pm pid stored)"

definition permission_holds :: "permission_manager \<Rightarrow> string \<Rightarrow> (string set \<times> rat) option" where
  \<comment> \<open>what a token permits and until when\<close>
  "permission_holds pm pid = map_option (\<lambda>t. (set (tk_permissions t), tk_expires t)) (map_of (pm_tokens pm) pid)"

fun permission_spec :: "bool \<Rightarrow> (string \<Rightarrow> (string set \<times> rat) option) \<Rightarrow> permission_op \<Rightarrow> string \<Rightarrow> (string set \<times> rat) option"
where
  "permission_spec storage m (Grant_Token pid ps ttl now tid stored) =
     (if storage \<and> \<not> stored then m else m(pid \<mapsto> (set ps, now + of_int (max 60 ttl))))"
| "permission_spec storage m (Revoke_Token pid stored) = (if storage \<and> \<not> stored then m else m(pid := None))"

definition permissions_ok :: "bool \<Rightarrow> permission_manager \<Rightarrow> bool" where
  "permissions_ok storage pm \<longleftrightarrow> dict_ok (pm_tokens pm) \<and> pm_storage pm = storage"

lemma update_same: "map_of d k = Some v \<Longrightarrow> AList.update k v d = d"
  by (induction d) auto

lemma delete_back: "map_of d k = None \<Longrightarrow> AList.delete k (AList.update k w d) = d"
  by (induction d) (auto simp: map_of_eq_None_iff split: if_splits)

lemma failed_grant_keeps_state:
  "pm_storage pm \<Longrightarrow> \<not> stored \<Longrightarrow> permission_grant pm pid ps ttl now tid stored = (pm, Inl storage_error)"
  by (cases "map_of (pm_tokens pm) pid")
    (simp_all add: permission_grant_def Let_def update_same delete_back)

lemma permission_step_holds:
  "permissions_ok storage pm \<Longrightarrow> permission_holds (permission_step pm op) = permission_spec storage (permission_holds pm) op"
proof (cases op)
  case (Grant_Token pid ps ttl now tid stored)
  moreover assume "permissions_ok storage pm"
  ultimately show ?thesis
  proof (cases "pm_storage pm \<and> \<not> stored")
    case True
    with Grant_Token \<open>permissions_ok storage pm\<close> show ?thesis
      by (simp add: failed_grant_keeps_state permissions_ok_def)
  next
    case False
    with Grant_Token \<open>permissions_ok storage pm\<close> show ?thesis
      by (auto simp: permission_grant_def Let_def permissions_ok_def permission_holds_def)
  qed
next
  case (Revoke_Token pid stored)
  moreover assume "permissions_ok storage pm"
  ultimately show ?thesis
    by (auto simp: permission_revoke_def Let_def permissions_ok_def permission_holds_def split: option.split)
qed

lemma permission_step_ok: "permissions_ok storage pm \<Longrightarrow> permissions_ok storage (permission_step pm op)"
  by (cases op) (auto simp: permission_grant_def permission_revoke_def Let_def permissions_ok_def split: option.split)

interpretation permissions: value_store permission_step permission_holds "permission_spec storage" "permissions_ok storage"
proof
  fix m m' :: "string \<Rightarrow> (string set \<times> rat) option" and op
  assume "m \<subseteq>\<^sub>m m'"
  then show "permission_spec storage m op \<subseteq>\<^sub>m permission_spec storage m' op"
    by (cases op) (auto simp: map_le_def)
qed (simp_all add: permission_step_holds permission_step_ok)

lemma has_permission_holds:
  "has_permission pm pid p now \<longleftrightarrow> (\<exists>ps t. permission_holds pm pid = Some (ps, t) \<and> p \<in> ps \<and> now < t)"
  by (auto simp: has_permission_def token_for_def token_valid_def permission_holds_def split: option.split)

text \<open>
  A plugin has a permission exactly when the last grant for it, with no revocation since, included that
  permission and the granted time is not over; a grant or revocation that the storage refuses changes nothing.
  In particular no permission exists before the first grant.
\<close>

theorem permissions_exact:
  "has_permission (foldl permission_step (permissions_new storage None) ops) pid p now
   \<longleftrightarrow> (\<exists>ps t. foldl (permission_spec storage) Map.empty ops pid = Some (ps, t) \<and> p \<in> ps \<and> now < t)"
proof -
  have "permissions_ok storage (permissions_new storage None)"
    by (simp add: permissions_ok_def permissions_new_def)
  from permissions.run_exact [OF this, of ops]
  have "permission_holds (foldl permission_step (permissions_new storage None) ops)
      = foldl (permission_spec storage) (\<lambda>k. permission_holds (permissions_new storage None) k) ops" by simp
  also have "(\<lambda>k. permission_holds (permissions_new storage None) k) = Map.empty"
    by (simp add: permissions_new_def permission_holds_def)
  finally show ?thesis by (simp add: has_permission_holds)
qed


section \<open>Lifecycle\<close>

datatype plugin_state =
    STATE_INSTALLED | STATE_VALIDATED | STATE_PERMISSION_REVIEW | STATE_ACTIVE | STATE_EXECUTING | STATE_DEACTIVATED
  | STATE_ERROR

definition plugin_states :: "(string \<times> plugin_state) list" where
  "plugin_states =
     [(''installed'', STATE_INSTALLED), (''validated'', STATE_VALIDATED),
      (''permission_review'', STATE_PERMISSION_REVIEW), (''active'', STATE_ACTIVE), (''executing'', STATE_EXECUTING),
      (''deactivated'', STATE_DEACTIVATED), (''error'', STATE_ERROR)]"

fun allowed_states :: "plugin_state \<Rightarrow> plugin_state list" where
  "allowed_states STATE_INSTALLED = [STATE_VALIDATED, STATE_DEACTIVATED, STATE_ERROR]"
| "allowed_states STATE_VALIDATED = [STATE_PERMISSION_REVIEW, STATE_DEACTIVATED, STATE_ERROR]"
| "allowed_states STATE_PERMISSION_REVIEW = [STATE_ACTIVE, STATE_DEACTIVATED, STATE_ERROR]"
| "allowed_states STATE_ACTIVE = [STATE_EXECUTING, STATE_DEACTIVATED, STATE_ERROR]"
| "allowed_states STATE_EXECUTING = [STATE_ACTIVE, STATE_DEACTIVATED, STATE_ERROR]"
| "allowed_states STATE_DEACTIVATED = [STATE_INSTALLED, STATE_ERROR]"
| "allowed_states STATE_ERROR = [STATE_INSTALLED, STATE_DEACTIVATED]"

definition can_move :: "plugin_state \<Rightarrow> plugin_state \<Rightarrow> bool" where
  "can_move s t \<longleftrightarrow> t \<in> set (allowed_states s)"

definition lifecycle_new :: "string \<Rightarrow> plugin_state result" where
  "lifecycle_new initial =
     (case map_of plugin_states initial of
        None \<Rightarrow> Inl (ValueError (''unknown lifecycle state: '' @ initial))
      | Some s \<Rightarrow> Inr s)"

definition transition :: "plugin_state \<Rightarrow> string \<Rightarrow> plugin_state result" where
  "transition s target =
     (case map_of plugin_states target of
        None \<Rightarrow> Inl (AnyException ''LifecycleError'')
      | Some t \<Rightarrow> if t = s then Inr s else if \<not> can_move s t then Inl (AnyException ''LifecycleError'') else Inr t)"

definition normalize_state :: "string \<Rightarrow> plugin_state" where
  "normalize_state v = (case map_of plugin_states v of Some s \<Rightarrow> s | None \<Rightarrow> STATE_ERROR)"

text \<open>The states that one lifecycle object goes through; the head of the trace is the present one.\<close>

inductive lifecycle_trace :: "plugin_state list \<Rightarrow> bool" where
  first_state: "lifecycle_trace [STATE_INSTALLED]"
| moved: "lifecycle_trace (s # tr) \<Longrightarrow> transition s target = Inr t \<Longrightarrow> lifecycle_trace (t # s # tr)"

inductive_cases lifecycle_traceE: "lifecycle_trace (s # tr)"

definition since_install :: "plugin_state list \<Rightarrow> plugin_state list" where
  "since_install tr = takeWhile (\<lambda>s. s \<noteq> STATE_INSTALLED) tr"

definition gates_passed :: "plugin_state list \<Rightarrow> bool" where
  "gates_passed tr \<longleftrightarrow>
     (hd tr = STATE_PERMISSION_REVIEW \<longrightarrow> STATE_VALIDATED \<in> set (since_install tr))
     \<and> (hd tr \<in> {STATE_ACTIVE, STATE_EXECUTING} \<longrightarrow> {STATE_VALIDATED, STATE_PERMISSION_REVIEW} \<subseteq> set (since_install tr))"

lemma transition_cases:
  "transition s target = Inr t \<Longrightarrow> t = s \<or> can_move s t"
  by (auto simp: transition_def split: option.splits if_splits)

lemma gates_step:
  assumes "gates_passed (s # tr)" and "t = s \<or> can_move s t"
  shows "gates_passed (t # s # tr)"
  using assms by (cases s; cases t) (auto simp: gates_passed_def can_move_def since_install_def)

lemma trace_gates: "lifecycle_trace tr \<Longrightarrow> gates_passed tr"
  by (induction rule: lifecycle_trace.induct)
    (simp add: gates_passed_def, blast dest: transition_cases intro: gates_step)

text \<open>
  A plugin never skips a gate: whatever transitions its lifecycle went through, when it is active or
  executing it was validated and its permissions were reviewed since it was last (re)installed.
\<close>

theorem lifecycle_gates:
  assumes "lifecycle_trace tr" and "hd tr = STATE_ACTIVE \<or> hd tr = STATE_EXECUTING"
  shows "STATE_VALIDATED \<in> set (since_install tr) \<and> STATE_PERMISSION_REVIEW \<in> set (since_install tr)"
  using trace_gates [OF assms(1)] assms(2) by (auto simp: gates_passed_def)

theorem lifecycle_gates_witness:
  "STATE_VALIDATED \<in> set (since_install [STATE_ACTIVE, STATE_PERMISSION_REVIEW, STATE_VALIDATED, STATE_INSTALLED])
   \<and> STATE_PERMISSION_REVIEW \<in> set (since_install [STATE_ACTIVE, STATE_PERMISSION_REVIEW, STATE_VALIDATED, STATE_INSTALLED])"
proof (rule lifecycle_gates)
  show "lifecycle_trace [STATE_ACTIVE, STATE_PERMISSION_REVIEW, STATE_VALIDATED, STATE_INSTALLED]"
    using lifecycle_trace.first_state lifecycle_trace.moved [of STATE_INSTALLED "[]" "''validated''" STATE_VALIDATED]
      lifecycle_trace.moved [of STATE_VALIDATED "[STATE_INSTALLED]" "''permission_review''" STATE_PERMISSION_REVIEW]
      lifecycle_trace.moved [of STATE_PERMISSION_REVIEW "[STATE_VALIDATED, STATE_INSTALLED]" "''active''" STATE_ACTIVE]
    by (simp add: transition_def plugin_states_def can_move_def)
qed simp


section \<open>The manifest\<close>

definition lower_alnum :: "char \<Rightarrow> bool" where
  "lower_alnum c \<longleftrightarrow> c \<in> set ''abcdefghijklmnopqrstuvwxyz0123456789''"

definition plugin_id_ok :: "string \<Rightarrow> bool" where
  \<comment> \<open>\<open>PLUGIN_ID_PATTERN\<close>\<close>
  "plugin_id_ok s \<longleftrightarrow>
     (case s of [] \<Rightarrow> False
      | c # cs \<Rightarrow> lower_alnum c \<and> length cs \<le> 63 \<and> list_all (\<lambda>x. lower_alnum x \<or> x = CHR ''_'' \<or> x = CHR ''-'') cs)"

definition semver_body :: "char \<Rightarrow> bool" where
  "semver_body c \<longleftrightarrow> lower_alnum (lower_char c) \<or> c = CHR ''.'' \<or> c = CHR ''-''"

definition semver_separator :: "char \<Rightarrow> bool" where
  "semver_separator c \<longleftrightarrow> c = CHR ''.'' \<or> c = CHR ''-'' \<or> c = CHR ''+''"

fun semver_inside :: "string \<Rightarrow> bool"
  and semver_opened :: "string \<Rightarrow> bool" where
  \<comment> \<open>the repeated group of \<open>SEMVER_PATTERN\<close>: inside a group with at least one character, or after its separator\<close>
  "semver_inside [] = True"
| "semver_inside (c # cs) = (if semver_body c then semver_inside cs else c = CHR ''+'' \<and> semver_opened cs)"
| "semver_opened [] = False"
| "semver_opened (c # cs) = (semver_body c \<and> semver_inside cs)"

definition semver_groups :: "string \<Rightarrow> bool" where
  "semver_groups s = (case s of [] \<Rightarrow> True | c # cs \<Rightarrow> semver_separator c \<and> semver_opened cs)"

definition numeral_dot :: "string \<Rightarrow> string option" where
  \<comment> \<open>the text after a number and a dot\<close>
  "numeral_dot s =
     (case dropWhile is_digit s of
        CHR ''.'' # rest \<Rightarrow> if takeWhile is_digit s = [] then None else Some rest
      | _ \<Rightarrow> None)"

definition semver_ok :: "string \<Rightarrow> bool" where
  \<comment> \<open>\<open>SEMVER_PATTERN\<close>\<close>
  "semver_ok s =
     (case numeral_dot s of None \<Rightarrow> False
      | Some r \<Rightarrow>
          (case numeral_dot r of None \<Rightarrow> False
           | Some q \<Rightarrow> takeWhile is_digit q \<noteq> [] \<and> semver_groups (dropWhile is_digit q)))"

text \<open>The language of the repeated group, as the pattern writes it.\<close>

inductive semver_star :: "string \<Rightarrow> bool" where
  empty: "semver_star []"
| group: "semver_separator c \<Longrightarrow> body \<noteq> [] \<Longrightarrow> list_all semver_body body \<Longrightarrow> semver_star rest \<Longrightarrow>
    semver_star (c # body @ rest)"

lemma semver_inside_append: "list_all semver_body body \<Longrightarrow> semver_inside rest \<Longrightarrow> semver_inside (body @ rest)"
  by (induction body) auto

lemma semver_inside_groups: "semver_groups s \<Longrightarrow> semver_inside s"
  by (cases s) (auto simp: semver_groups_def semver_separator_def semver_body_def elim: semver_opened.elims)

lemma semver_groups_sound: "semver_star s \<Longrightarrow> semver_groups s"
proof (induction rule: semver_star.induct)
  case (group c body rest)
  then obtain b bs where "body = b # bs" by (cases body) auto
  with group semver_inside_append [of bs rest] semver_inside_groups [of rest] show ?case
    by (simp add: semver_groups_def)
qed (simp add: semver_groups_def)

lemma semver_opened_star:
  "(semver_inside s \<longrightarrow> (\<exists>body rest. s = body @ rest \<and> list_all semver_body body \<and> semver_star rest))
   \<and> (semver_opened s \<longrightarrow> (\<exists>body rest. s = body @ rest \<and> body \<noteq> [] \<and> list_all semver_body body \<and> semver_star rest))"
proof (induction s)
  case Nil
  show ?case by (auto intro: semver_star.empty)
next
  case (Cons c s)
  have body: "\<exists>body rest. c # s = body @ rest \<and> body \<noteq> [] \<and> list_all semver_body body \<and> semver_star rest"
    if b: "semver_body c" and i: "semver_inside s"
  proof -
    from Cons i obtain body rest where "s = body @ rest" "list_all semver_body body" "semver_star rest" by blast
    with b show ?thesis by (intro exI [of _ "c # body"] exI [of _ rest]) simp
  qed
  have plus: "semver_star (CHR ''+'' # s)" if o: "semver_opened s"
  proof -
    from Cons o obtain body rest where "s = body @ rest" "body \<noteq> []" "list_all semver_body body" "semver_star rest"
      by blast
    then show ?thesis using semver_star.group [of "CHR ''+''" body rest] by (simp add: semver_separator_def)
  qed
  show ?case using body plus by (auto simp: exI [of _ "[]"] split: if_splits)
qed

lemma semver_groups_complete: "semver_groups s \<Longrightarrow> semver_star s"
proof (cases s)
  case (Cons c cs)
  moreover assume "semver_groups s"
  ultimately have "semver_separator c" "semver_opened cs" by (simp_all add: semver_groups_def)
  moreover from this semver_opened_star [of cs] obtain body rest where
    "cs = body @ rest" "body \<noteq> []" "list_all semver_body body" "semver_star rest" by blast
  ultimately show ?thesis using Cons by (auto intro: semver_star.group)
qed (simp add: semver_star.empty)

lemma semver_groups_iff: "semver_groups s \<longleftrightarrow> semver_star s"
  using semver_groups_sound semver_groups_complete by blast

definition plugin_capabilities :: "string list" where
  "plugin_capabilities =
     [''tools'', ''events'', ''commands'', ''automation'', ''media'', ''games'', ''security'', ''workflow'']"

definition plugin_event_types :: "string list" where
  "plugin_event_types =
     [''sentinel.start'', ''sentinel.stop'', ''user.login'', ''user.logout'', ''application.opened'',
      ''application.closed'', ''game.started'', ''game.closed'', ''file.created'', ''file.modified'',
      ''system.warning'', ''task.completed'', ''task.failed'', ''automation.triggered'', ''network.connected'']"

record plugin_manifest =
  mf_id :: string
  mf_name :: string
  mf_version :: string
  mf_author :: string
  mf_description :: string
  mf_entrypoint :: string
  mf_capabilities :: "string list"
  mf_permissions :: "string list"
  mf_events :: "string list"
  mf_dependencies :: "string list"
  mf_publisher_key :: string
  mf_signature :: string
  mf_checksum :: string

definition string_items :: "pyval \<Rightarrow> string list result" where
  \<comment> \<open>\<open>[str(x) for x in v]\<close>\<close>
  "string_items v =
     (case v of
        PList xs \<Rightarrow> Inr (map py_str xs)
      | PStr s \<Rightarrow> Inr (map (\<lambda>c. [c]) s)
      | PDict d \<Rightarrow> Inr (keys d)
      | _ \<Rightarrow> Inl (AnyException ''TypeError''))"

definition manifest_from_dict :: "params \<Rightarrow> plugin_manifest result" where
  \<comment> \<open>license, homepage, minimal version and certification are carried only\<close>
  "manifest_from_dict d =
     (case string_items (dict_get d ''capabilities'' (PList [])) of Inl e \<Rightarrow> Inl e | Inr cs \<Rightarrow>
      case string_items (dict_get d ''permissions'' (PList [])) of Inl e \<Rightarrow> Inl e | Inr ps \<Rightarrow>
      case string_items (dict_get d ''events'' (PList [])) of Inl e \<Rightarrow> Inl e | Inr es \<Rightarrow>
      case string_items (dict_get d ''dependencies'' (PList [])) of Inl e \<Rightarrow> Inl e | Inr ds \<Rightarrow>
      let field = \<lambda>k dflt. py_str (dict_get d k (PStr dflt))
      in Inr \<lparr>mf_id = field ''id'' [], mf_name = field ''name'' [], mf_version = field ''version'' ''1.0.0'',
              mf_author = field ''author'' ''unknown'', mf_description = field ''description'' [],
              mf_entrypoint = field ''entrypoint'' ''plugin.py'', mf_capabilities = cs, mf_permissions = ps,
              mf_events = es, mf_dependencies = ds, mf_publisher_key = field ''publisher_key_id'' [],
              mf_signature = field ''signature_ed25519'' [], mf_checksum = field ''checksum_sha256'' []\<rparr>)"

datatype plugin_issue =
    Not_A_Directory
  | No_Manifest
  | Malformed_Manifest
  | Bad_Plugin_Id string
  | Name_Required
  | Bad_Version string
  | Entrypoint_Required
  | Entrypoint_Not_Python string
  | Unknown_Capabilities "string list"
  | Unknown_Events "string list"
  | Unknown_Permission string
  | Entrypoint_Missing string
  | Too_Many_Files
  | Too_Many_Bytes
  | Symbolic_Link string
  | Forbidden_Import string

definition manifest_issues :: "plugin_manifest \<Rightarrow> plugin_issue list" where
  "manifest_issues m =
     (if plugin_id_ok (mf_id m) then [] else [Bad_Plugin_Id (mf_id m)])
     @ (if mf_name m = [] then [Name_Required] else [])
     @ (if semver_ok (mf_version m) then [] else [Bad_Version (mf_version m)])
     @ (if mf_entrypoint m = [] then [Entrypoint_Required] else [])
     @ (if last_part CHR ''.'' (mf_entrypoint m) \<noteq> ''py'' then [Entrypoint_Not_Python (mf_entrypoint m)] else [])
     @ (let u = filter (\<lambda>c. c \<notin> set plugin_capabilities) (mf_capabilities m)
        in if u \<noteq> [] then [Unknown_Capabilities (py_sorted u)] else [])
     @ (let u = filter (\<lambda>e. e \<notin> set plugin_event_types) (mf_events m)
        in if u \<noteq> [] then [Unknown_Events (py_sorted u)] else [])"


section \<open>Validation of a plugin directory\<close>

record plugin_tree =
  tr_is_dir :: bool
  tr_files :: "(string \<times> string) list"
  tr_links :: "string list"
  tr_outside :: "string \<Rightarrow> string option"

text \<open>\<open>tr_files\<close> are the regular files under the directory with their relative paths and bytes, in the order of
  \<open>rglob\<close>; \<open>tr_links\<close> the names of its symbolic links; \<open>tr_outside\<close> answers for paths that are not among them,
  such as \<open>../x.py\<close>.\<close>

definition read_path :: "plugin_tree \<Rightarrow> string \<Rightarrow> string option" where
  "read_path t p = (case map_of (tr_files t) p of Some c \<Rightarrow> Some c | None \<Rightarrow> tr_outside t p)"

definition manifest_name :: string where "manifest_name = ''manifest.json''"

definition load_manifest :: "plugin_tree \<Rightarrow> plugin_manifest result" where
  "load_manifest t =
     (case map_of (tr_files t) manifest_name of
        None \<Rightarrow> Inl (AnyException ''FileNotFoundError'')
      | Some c \<Rightarrow>
          (case json_loads c of
             None \<Rightarrow> Inl (ValueError ''JSONDecodeError'')
           | Some (PDict d) \<Rightarrow> manifest_from_dict d
           | Some _ \<Rightarrow> Inl (AnyException ''AttributeError'')))"

definition forbidden_imports :: "string list" where
  "forbidden_imports =
     [''sentinel.core.orchestrator'', ''sentinel.core.execution_pipeline'', ''sentinel.core.policy_engine'',
      ''sentinel.core.decision_engine'', ''sentinel.core.memory'', ''sentinel.core.tool_gateway'',
      ''sentinel.core.planner'', ''sentinel.core.model_router'', ''sentinel.core.intent'']"

definition risky_patterns :: "(string \<times> string) list" where
  "risky_patterns =
     [(''import subprocess'', ''subprocess''), (''import socket'', ''socket''), (''import ctypes'', ''ctypes''),
      (''from ctypes'', ''ctypes''), (''import winreg'', ''winreg''), (''os.system('', ''os.system''),
      (''os.startfile('', ''os.startfile''), (''os.kill('', ''os.kill''), (''shutil.rmtree'', ''shutil.rmtree'')]"

definition max_plugin_files :: nat where "max_plugin_files = 500"
definition max_plugin_bytes :: nat where "max_plugin_bytes = 20 * 1024 * 1024"

definition to_bytes :: "nat \<Rightarrow> nat \<Rightarrow> nat list option" where
  \<comment> \<open>\<open>n.to_bytes(w, "big")\<close>\<close>
  "to_bytes w n = (if n < 256 ^ w then Some (map (\<lambda>i. n div 256 ^ i mod 256) (rev [0 ..< w])) else None)"

definition bytes_of :: "string \<Rightarrow> nat list" where
  "bytes_of s = map of_char s"

definition framed :: "string \<times> string \<Rightarrow> nat list option" where
  \<comment> \<open>what one file adds to the hash\<close>
  "framed f =
     (case to_bytes 4 (length (fst f)) of None \<Rightarrow> None | Some a \<Rightarrow>
      case to_bytes 8 (length (snd f)) of None \<Rightarrow> None | Some b \<Rightarrow>
        Some (a @ bytes_of (fst f) @ b @ bytes_of (snd f)))"

fun framed_all :: "(string \<times> string) list \<Rightarrow> nat list option" where
  "framed_all [] = Some []"
| "framed_all (f # fs) =
     (case framed f of None \<Rightarrow> None | Some a \<Rightarrow> (case framed_all fs of None \<Rightarrow> None | Some b \<Rightarrow> Some (a @ b)))"

definition unsigned_manifest :: "string \<Rightarrow> string" where
  \<comment> \<open>the manifest without its checksum and signature, when it is a JSON object\<close>
  "unsigned_manifest c =
     (case json_loads c of
        Some (PDict d) \<Rightarrow>
          json_compact (PDict (AList.update ''signature_ed25519'' (PStr []) (AList.update ''checksum_sha256'' (PStr []) d)))
      | _ \<Rightarrow> c)"

definition hashed_files :: "plugin_tree \<Rightarrow> (string \<times> string) list" where
  "hashed_files t =
     map (\<lambda>(p, c). (p, if p = manifest_name then unsigned_manifest c else c)) (sort_key fst (tr_files t))"

definition calculate_checksum :: "(nat list \<Rightarrow> string) \<Rightarrow> plugin_tree \<Rightarrow> (string \<times> nat) result" where
  "calculate_checksum sha t =
     (case framed_all (hashed_files t) of
        None \<Rightarrow> Inl (AnyException ''OverflowError'')
      | Some bs \<Rightarrow> Inr (sha bs, length (tr_files t)))"

record plugin_report =
  rp_valid :: bool
  rp_issues :: "plugin_issue list"
  rp_warnings :: "string list"
  rp_manifest :: "plugin_manifest option"
  rp_files :: nat
  rp_bytes :: nat
  rp_checksum :: string
  rp_matches :: bool

definition rejected_report :: "plugin_issue \<Rightarrow> plugin_report" where
  "rejected_report i =
     \<lparr>rp_valid = False, rp_issues = [i], rp_warnings = [], rp_manifest = None, rp_files = 0, rp_bytes = 0,
      rp_checksum = [], rp_matches = False\<rparr>"

definition tree_bytes :: "plugin_tree \<Rightarrow> nat" where
  "tree_bytes t = sum_list (map (\<lambda>(p, c). length c) (tr_files t))"

definition source_issues :: "string \<Rightarrow> plugin_issue list" where
  "source_issues src = map Forbidden_Import (filter (\<lambda>f. sublist f src) forbidden_imports)"

definition source_warnings :: "string list \<Rightarrow> string \<Rightarrow> string list" where
  "source_warnings perms src =
     map snd (filter (\<lambda>(p, n). sublist p src \<and> n \<notin> set perms \<and> n \<noteq> ''subprocess'') risky_patterns)"

definition tree_issues :: "plugin_tree \<Rightarrow> plugin_manifest \<Rightarrow> plugin_issue list" where
  "tree_issues t m =
     manifest_issues m
     @ map Unknown_Permission (unknown_permissions (mf_permissions m))
     @ (if read_path t (mf_entrypoint m) = None then [Entrypoint_Missing (mf_entrypoint m)] else [])
     @ (if max_plugin_files < length (tr_files t) then [Too_Many_Files] else [])
     @ (if max_plugin_bytes < tree_bytes t then [Too_Many_Bytes] else [])
     @ (case tr_links t of [] \<Rightarrow> [] | l # ls \<Rightarrow> [Symbolic_Link l])
     @ (case read_path t (mf_entrypoint m) of None \<Rightarrow> [] | Some src \<Rightarrow> source_issues src)"

definition validate_plugin :: "(nat list \<Rightarrow> string) \<Rightarrow> plugin_tree \<Rightarrow> plugin_manifest option \<Rightarrow> plugin_report result" where
  "validate_plugin sha t given =
     (if \<not> tr_is_dir t then Inr (rejected_report Not_A_Directory)
      else if map_of (tr_files t) manifest_name = None then Inr (rejected_report No_Manifest)
      else (case (case given of Some m \<Rightarrow> Inr m | None \<Rightarrow> load_manifest t) of
              Inl (ValueError e) \<Rightarrow> Inr (rejected_report Malformed_Manifest)
            | Inl (KeyError e) \<Rightarrow> Inr (rejected_report Malformed_Manifest)
            | Inl e \<Rightarrow> Inl e
            | Inr m \<Rightarrow>
                (case calculate_checksum sha t of
                   Inl e \<Rightarrow> Inl e
                 | Inr (checksum, n) \<Rightarrow>
                     Inr \<lparr>rp_valid = (tree_issues t m = []), rp_issues = tree_issues t m,
                          rp_warnings = (case read_path t (mf_entrypoint m) of None \<Rightarrow> []
                            | Some src \<Rightarrow> source_warnings (mf_permissions m) src),
                          rp_manifest = Some m, rp_files = n, rp_bytes = tree_bytes t, rp_checksum = checksum,
                          rp_matches = (mf_checksum m = [] \<or> mf_checksum m = checksum)\<rparr>)))"

text \<open>What an accepted plugin is, without the code's accumulation of issues.\<close>

definition acceptable_manifest :: "plugin_manifest \<Rightarrow> bool" where
  "acceptable_manifest m \<longleftrightarrow>
     plugin_id_ok (mf_id m) \<and> mf_name m \<noteq> [] \<and> semver_ok (mf_version m)
     \<and> last_part CHR ''.'' (mf_entrypoint m) = ''py''
     \<and> set (mf_capabilities m) \<subseteq> set plugin_capabilities \<and> set (mf_events m) \<subseteq> set plugin_event_types
     \<and> set (mf_permissions m) \<subseteq> set (keys permission_catalog)"

lemma manifest_issues_none:
  "manifest_issues m = [] \<and> unknown_permissions (mf_permissions m) = [] \<longleftrightarrow> acceptable_manifest m"
proof -
  have "py_sorted xs = [] \<longleftrightarrow> xs = []" for xs
    using set_py_sorted [of xs] by (metis set_empty)
  then show ?thesis
    by (auto simp: manifest_issues_def acceptable_manifest_def unknown_permissions_def Let_def filter_empty_conv
        last_part_def subset_iff)
qed

text \<open>
  Validation accepts a directory exactly when it is one with a manifest, the manifest is acceptable (identifier
  and version have their form, the entry point is a Python file, capabilities, events and permissions are
  known), the entry point exists, the limits hold, there is no symbolic link, and no forbidden module name
  occurs in the entry point.
\<close>

theorem validation_exact:
  assumes "validate_plugin sha t (Some m) = Inr r"
  shows "rp_valid r \<longleftrightarrow>
    tr_is_dir t \<and> map_of (tr_files t) manifest_name \<noteq> None \<and> acceptable_manifest m
    \<and> (\<exists>src. read_path t (mf_entrypoint m) = Some src \<and> list_all (\<lambda>f. \<not> sublist f src) forbidden_imports)
    \<and> length (tr_files t) \<le> max_plugin_files \<and> tree_bytes t \<le> max_plugin_bytes \<and> tr_links t = []"
proof (cases "tr_is_dir t \<and> map_of (tr_files t) manifest_name \<noteq> None")
  case True
  with assms have "rp_valid r \<longleftrightarrow> tree_issues t m = []"
    by (auto simp: validate_plugin_def split: sum.splits prod.splits)
  also have "\<dots> \<longleftrightarrow> (manifest_issues m = [] \<and> unknown_permissions (mf_permissions m) = [])
      \<and> (\<exists>src. read_path t (mf_entrypoint m) = Some src \<and> source_issues src = [])
      \<and> length (tr_files t) \<le> max_plugin_files \<and> tree_bytes t \<le> max_plugin_bytes \<and> tr_links t = []"
    by (auto simp: tree_issues_def not_less split: option.split list.split)
  finally show ?thesis
    using True unfolding manifest_issues_none by (auto simp: source_issues_def filter_empty_conv list_all_iff)
next
  case False
  with assms show ?thesis by (auto simp: validate_plugin_def rejected_report_def split: if_splits)
qed

definition sample_manifest :: plugin_manifest where
  "sample_manifest =
     \<lparr>mf_id = ''demo'', mf_name = ''Demo'', mf_version = ''1.0.0'', mf_author = ''me'', mf_description = [],
      mf_entrypoint = ''plugin.py'', mf_capabilities = [''tools''], mf_permissions = [''system.read''],
      mf_events = [''sentinel.start''], mf_dependencies = [], mf_publisher_key = [], mf_signature = [], mf_checksum = []\<rparr>"

definition sample_tree :: "string \<Rightarrow> plugin_tree" where
  "sample_tree src =
     \<lparr>tr_is_dir = True, tr_files = [(''manifest.json'', ''{}''), (''plugin.py'', src)], tr_links = [],
      tr_outside = (\<lambda>p. None)\<rparr>"

lemma sample_hashed: "length (unsigned_manifest ''{}'') < 100"
  by code_simp

lemma sample_framed: "length src < 1000 \<Longrightarrow> framed_all (hashed_files (sample_tree src)) \<noteq> None"
  using sample_hashed by (simp add: hashed_files_def sample_tree_def manifest_name_def framed_def to_bytes_def)

lemma sample_read: "read_path (sample_tree src) (mf_entrypoint sample_manifest) = Some src"
  by (simp add: read_path_def sample_tree_def sample_manifest_def)

lemma sample_manifest_ok: "manifest_issues sample_manifest = []"
  "unknown_permissions (mf_permissions sample_manifest) = []"
  by code_simp+

lemma sample_bytes: "length src < 1000 \<Longrightarrow> tree_bytes (sample_tree src) \<le> max_plugin_bytes"
  by (simp add: tree_bytes_def sample_tree_def max_plugin_bytes_def)

lemma sample_validation:
  assumes "length src < 1000"
  shows "\<exists>r. validate_plugin sha (sample_tree src) (Some sample_manifest) = Inr r \<and> rp_issues r = source_issues src"
proof -
  have "tree_issues (sample_tree src) sample_manifest = source_issues src"
    using sample_bytes [OF assms]
    by (simp add: tree_issues_def sample_manifest_ok sample_read not_less)
      (simp add: sample_tree_def max_plugin_files_def)
  moreover have "map_of (tr_files (sample_tree src)) manifest_name \<noteq> None" "tr_is_dir (sample_tree src)"
    by (simp_all add: sample_tree_def manifest_name_def)
  ultimately show ?thesis
    using sample_framed [OF assms] by (auto simp: validate_plugin_def calculate_checksum_def)
qed

theorem validation_exact_witness:
  "\<exists>r. validate_plugin (\<lambda>_. []) (sample_tree ''import os'') (Some sample_manifest) = Inr r \<and> rp_valid r"
proof -
  obtain r where r: "validate_plugin (\<lambda>_. []) (sample_tree ''import os'') (Some sample_manifest) = Inr r"
    using sample_validation [of "''import os''"] by auto
  have "list_all (\<lambda>f. \<not> sublist f ''import os'') forbidden_imports" by code_simp
  moreover have "acceptable_manifest sample_manifest"
    using sample_manifest_ok manifest_issues_none by blast
  moreover have "map_of (tr_files (sample_tree ''import os'')) manifest_name \<noteq> None"
    "tr_is_dir (sample_tree ''import os'')" "length (tr_files (sample_tree ''import os'')) \<le> max_plugin_files"
    "tr_links (sample_tree ''import os'') = []"
    by (simp_all add: sample_tree_def manifest_name_def max_plugin_files_def)
  ultimately show ?thesis
    using validation_exact [OF r] r sample_read sample_bytes [of "''import os''"] by auto
qed

text \<open>
  The scan for forbidden modules looks for their dotted names, so the other form of the import statement is
  not seen: a plugin that imports the tool gateway with \<open>from sentinel.core import tool_gateway\<close> is valid.
\<close>

theorem from_import_not_seen:
  "\<exists>r. validate_plugin sha (sample_tree ''from sentinel.core import tool_gateway'') (Some sample_manifest) = Inr r
    \<and> rp_issues r = []"
proof -
  have "source_issues ''from sentinel.core import tool_gateway'' = []" by code_simp
  with sample_validation [of "''from sentinel.core import tool_gateway''" sha] show ?thesis by simp
qed

text \<open>The framing of the files can be undone, so no two different lists of files give the hash the same bytes.\<close>

lemma to_bytes_length: "to_bytes w n = Some bs \<Longrightarrow> length bs = w"
  by (auto simp: to_bytes_def split: if_splits)

definition of_bytes :: "nat list \<Rightarrow> nat" where
  "of_bytes bs = foldl (\<lambda>a b. a * 256 + b) 0 bs"

lemma foldl_digits:
  "foldl (\<lambda>a b. a * 256 + b) x bs = x * 256 ^ length bs + foldl (\<lambda>a b. a * 256 + b) (0 :: nat) bs"
proof (induction bs arbitrary: x)
  case (Cons c cs)
  have "foldl (\<lambda>a b. a * 256 + b) (x * 256 + c) cs = (x * 256 + c) * 256 ^ length cs + foldl (\<lambda>a b. a * 256 + b) 0 cs"
    and "foldl (\<lambda>a b. a * 256 + b) c cs = c * 256 ^ length cs + foldl (\<lambda>a b. a * 256 + b) 0 cs"
    by (rule Cons.IH)+
  then show ?case by (simp add: add_mult_distrib)
qed simp

lemma of_bytes_Cons: "of_bytes (b # bs) = b * 256 ^ length bs + of_bytes bs"
  using foldl_digits [of b bs] by (simp add: of_bytes_def)

lemma of_bytes_digits: "of_bytes (map (\<lambda>i. n div 256 ^ i mod 256) (rev [0 ..< w])) = n mod 256 ^ w"
proof (induction w)
  case (Suc w)
  have "rev [0 ..< Suc w] = w # rev [0 ..< w]" by simp
  then have "of_bytes (map (\<lambda>i. n div 256 ^ i mod 256) (rev [0 ..< Suc w]))
      = n div 256 ^ w mod 256 * 256 ^ w + n mod 256 ^ w"
    by (simp add: of_bytes_Cons Suc)
  also have "\<dots> = n mod 256 ^ Suc w" using mod_mult2_eq [of n "256 ^ w" 256] by (simp add: mult.commute)
  finally show ?case .
qed (simp add: of_bytes_def)

lemma to_bytes_inject: "to_bytes w m = Some bs \<Longrightarrow> to_bytes w n = Some bs \<Longrightarrow> m = n"
  using of_bytes_digits [of m w] of_bytes_digits [of n w] by (auto simp: to_bytes_def split: if_splits)

lemma chars_of_bytes: "map char_of (bytes_of s) = s"
  by (simp add: bytes_of_def comp_def)

lemma bytes_of_inject: "bytes_of s = bytes_of t \<longleftrightarrow> s = t"
  using chars_of_bytes by metis

lemma length_bytes_of [simp]: "length (bytes_of s) = length s"
  by (simp add: bytes_of_def)

lemma framed_prefix:
  assumes "framed f = Some a" and "framed g = Some b" and "a @ as = b @ bs"
  shows "f = g \<and> as = bs"
proof -
  obtain l1 c1 where f: "to_bytes 4 (length (fst f)) = Some l1" "to_bytes 8 (length (snd f)) = Some c1"
      "a = l1 @ bytes_of (fst f) @ c1 @ bytes_of (snd f)"
    using assms(1) by (auto simp: framed_def split: option.splits)
  obtain l2 c2 where g: "to_bytes 4 (length (fst g)) = Some l2" "to_bytes 8 (length (snd g)) = Some c2"
      "b = l2 @ bytes_of (fst g) @ c2 @ bytes_of (snd g)"
    using assms(2) by (auto simp: framed_def split: option.splits)
  note len = f(1,2) [THEN to_bytes_length] g(1,2) [THEN to_bytes_length]
  have "l1 = l2" and r1: "bytes_of (fst f) @ c1 @ bytes_of (snd f) @ as = bytes_of (fst g) @ c2 @ bytes_of (snd g) @ bs"
    using assms(3) f(3) g(3) len by (auto simp: append_eq_append_conv)
  then have "length (fst f) = length (fst g)" using to_bytes_inject f(1) g(1) by blast
  then have p: "fst f = fst g" and r: "c1 @ bytes_of (snd f) @ as = c2 @ bytes_of (snd g) @ bs"
    using r1 by (simp_all add: append_eq_append_conv bytes_of_inject)
  then have "c1 = c2" and r2: "bytes_of (snd f) @ as = bytes_of (snd g) @ bs"
    using len by (simp_all add: append_eq_append_conv)
  then have "length (snd f) = length (snd g)" using to_bytes_inject f(2) g(2) by blast
  then have "snd f = snd g \<and> as = bs" using r2 by (simp add: append_eq_append_conv bytes_of_inject)
  with p show ?thesis by (simp add: prod_eq_iff)
qed

lemma framed_all_inject: "framed_all fs = Some bs \<Longrightarrow> framed_all gs = Some bs \<Longrightarrow> fs = gs"
proof (induction fs arbitrary: gs bs)
  case Nil
  then show ?case
  proof (cases gs)
    case (Cons g gs')
    with Nil obtain a where "framed g = Some a" "a = []" by (auto split: option.splits)
    then show ?thesis by (auto simp: framed_def dest!: to_bytes_length split: option.splits)
  qed simp
next
  case (Cons f fs)
  then obtain a r where fa: "framed f = Some a" "framed_all fs = Some r" "bs = a @ r" by (auto split: option.splits)
  show ?case
  proof (cases gs)
    case Nil
    with Cons.prems(2) fa have "a = []" by simp
    with fa(1) show ?thesis by (auto simp: framed_def dest!: to_bytes_length split: option.splits)
  next
    case g: (Cons g gs')
    with Cons.prems(2) obtain b q where ga: "framed g = Some b" "framed_all gs' = Some q" "bs = b @ q"
      by (auto split: option.splits)
    then have "a @ r = b @ q" using fa(3) by simp
    from framed_prefix [OF fa(1) ga(1) this] have "f = g" "r = q" by simp_all
    with Cons.IH [OF fa(2), of gs'] ga(2) g show ?thesis by simp
  qed
qed

text \<open>
  The checksum of a plugin covers all of it: two plugin directories for which the hash function was given the
  same bytes have the same files with the same contents, up to the checksum and the signature in the manifest.
\<close>

theorem checksum_covers_files:
  assumes "calculate_checksum (\<lambda>bs. map char_of bs) t = Inr (c, n)"
    and "calculate_checksum (\<lambda>bs. map char_of bs) t' = Inr (c, n')"
  shows "hashed_files t = hashed_files t'"
proof -
  obtain bs bs' where fr: "framed_all (hashed_files t) = Some bs" "framed_all (hashed_files t') = Some bs'"
    "map char_of bs = (map char_of bs' :: string)"
    using assms by (auto simp: calculate_checksum_def split: option.splits)
  have small: "framed_all fs = Some bs \<Longrightarrow> \<forall>b \<in> set bs. b < 256" for fs bs
    by (induction fs arbitrary: bs)
      (auto simp: framed_def to_bytes_def bytes_of_def split: option.splits if_splits)
  have "map (of_char \<circ> char_of) bs = (map (of_char \<circ> char_of) bs' :: nat list)"
    using fr(3) by (metis map_map)
  moreover have "map (of_char \<circ> char_of) bs = bs" "map (of_char \<circ> char_of) bs' = bs'"
    using small [OF fr(1)] small [OF fr(2)] by (auto intro!: map_idI simp: of_char_of)
  ultimately show ?thesis using fr framed_all_inject by metis
qed

end
