(* ===== verification/Plugin_Manager.thy ===== *)
theory Plugin_Manager
  imports Plugin_Sdk
begin

text \<open>
  The plugin registry (\<open>plugin_sdk/registry.py\<close>), the event bus (\<open>plugin_sdk/events.py\<close>) and the plugin manager
  (\<open>sentinel/core/plugin_manager.py\<close>). The two plugin directories are part of the state, the tables of the
  registry are lists of rows, and the handlers on the bus are the plugins they dispatch to. What the code of a
  plugin does when it is imported, constructed or called is an argument, as are times and token identifiers.
\<close>

section \<open>The registry\<close>

record plugin_row =
  pr_id :: string
  pr_name :: string
  pr_version :: string
  pr_status :: plugin_state
  pr_permissions :: "string list"
  pr_installed :: rat
  pr_last_execution :: "rat option"
  pr_trust :: rat
  pr_certification :: string
  pr_failures :: nat
  pr_approval :: string

record metric_row =
  mr_id :: string
  mr_time :: rat
  mr_duration :: rat
  mr_ok :: bool
  mr_detail :: string

record plugin_registry =
  rg_plugins :: "(string \<times> plugin_row) list"
  rg_metrics :: "metric_row list"

definition registry_upsert :: "plugin_registry \<Rightarrow> plugin_row \<Rightarrow> plugin_registry" where
  \<comment> \<open>on a conflict the date of installation stays\<close>
  "registry_upsert rg r =
     rg\<lparr>rg_plugins := AList.update (pr_id r)
          (case map_of (rg_plugins rg) (pr_id r) of None \<Rightarrow> r | Some old \<Rightarrow> r\<lparr>pr_installed := pr_installed old\<rparr>)
          (rg_plugins rg)\<rparr>"

definition registry_get :: "plugin_registry \<Rightarrow> string \<Rightarrow> plugin_row option" where
  "registry_get rg pid = map_of (rg_plugins rg) pid"

definition registry_list :: "plugin_registry \<Rightarrow> plugin_row list" where
  "registry_list rg = sort_key pr_name (map snd (rg_plugins rg))"

definition registry_remove :: "plugin_registry \<Rightarrow> string \<Rightarrow> plugin_registry \<times> bool" where
  "registry_remove rg pid =
     (rg\<lparr>rg_plugins := AList.delete pid (rg_plugins rg), rg_metrics := filter (\<lambda>m. mr_id m \<noteq> pid) (rg_metrics rg)\<rparr>,
      pid \<in> set (keys (rg_plugins rg)))"

definition update_row :: "(plugin_row \<Rightarrow> plugin_row) \<Rightarrow> plugin_registry \<Rightarrow> string \<Rightarrow> plugin_registry" where
  "update_row f rg pid =
     (case map_of (rg_plugins rg) pid of
        None \<Rightarrow> rg
      | Some r \<Rightarrow> rg\<lparr>rg_plugins := AList.update pid (f r) (rg_plugins rg)\<rparr>)"

definition touch_execution :: "plugin_registry \<Rightarrow> string \<Rightarrow> bool \<Rightarrow> rat \<Rightarrow> string \<Rightarrow> rat \<Rightarrow> plugin_registry" where
  "touch_execution rg pid ok duration detail now =
     (let rg' = update_row (\<lambda>r. r\<lparr>pr_last_execution := Some now, pr_failures := pr_failures r + (if ok then 0 else 1)\<rparr>) rg pid
      in rg'\<lparr>rg_metrics := rg_metrics rg' @
           [\<lparr>mr_id = pid, mr_time = now, mr_duration = duration, mr_ok = ok, mr_detail = detail\<rparr>]\<rparr>)"

definition set_trust :: "plugin_registry \<Rightarrow> string \<Rightarrow> rat \<Rightarrow> string \<Rightarrow> plugin_registry" where
  "set_trust rg pid trust cert = update_row (\<lambda>r. r\<lparr>pr_trust := trust, pr_certification := cert\<rparr>) rg pid"

definition set_approval :: "plugin_registry \<Rightarrow> string \<Rightarrow> string \<Rightarrow> plugin_registry" where
  "set_approval rg pid s = update_row (\<lambda>r. r\<lparr>pr_approval := s\<rparr>) rg pid"

definition set_status :: "plugin_registry \<Rightarrow> string \<Rightarrow> plugin_state \<Rightarrow> plugin_registry" where
  "set_status rg pid s = update_row (\<lambda>r. r\<lparr>pr_status := s\<rparr>) rg pid"

definition registry_metrics :: "plugin_registry \<Rightarrow> string option \<Rightarrow> nat \<Rightarrow> metric_row list" where
  "registry_metrics rg pid limit =
     take limit (sort_key (\<lambda>m. - mr_time m)
       (case pid of Some p \<Rightarrow> if p = [] then rg_metrics rg else filter (\<lambda>m. mr_id m = p) (rg_metrics rg)
        | None \<Rightarrow> rg_metrics rg))"

record metric_sums =
  ms_calls :: nat
  ms_ok :: nat
  ms_average :: rat
  ms_failures :: nat

definition aggregate_metrics :: "plugin_registry \<Rightarrow> string \<Rightarrow> metric_sums" where
  "aggregate_metrics rg pid =
     (let ms = filter (\<lambda>m. mr_id m = pid) (rg_metrics rg)
      in \<lparr>ms_calls = length ms, ms_ok = length (filter mr_ok ms),
          ms_average = (if ms = [] then 0 else sum_list (map mr_duration ms) / of_nat (length ms)),
          ms_failures = length (filter (\<lambda>m. \<not> mr_ok m) ms)\<rparr>)"


section \<open>The event bus\<close>

record plugin_event =
  ev_type :: string
  ev_payload :: params
  ev_source :: string
  ev_id :: string
  ev_time :: rat

record 'h plugin_bus =
  bu_subscribers :: "(string \<times> 'h list) list"
  bu_history :: "plugin_event list"

definition bus_new :: "'h plugin_bus" where
  "bus_new = \<lparr>bu_subscribers = [], bu_history = []\<rparr>"

definition handlers_for :: "'h plugin_bus \<Rightarrow> string \<Rightarrow> 'h list" where
  "handlers_for b e = dict_get (bu_subscribers b) e []"

definition bus_subscribe :: "'h plugin_bus \<Rightarrow> string \<Rightarrow> 'h \<Rightarrow> 'h plugin_bus result" where
  "bus_subscribe b e h =
     (if e \<notin> set plugin_event_types then Inl (ValueError ''unknown plugin event type'')
      else Inr (b\<lparr>bu_subscribers := AList.update e (handlers_for b e @ [h]) (bu_subscribers b)\<rparr>))"

definition bus_unsubscribe :: "'h plugin_bus \<Rightarrow> string \<Rightarrow> 'h \<Rightarrow> 'h plugin_bus" where
  "bus_unsubscribe b e h =
     (if h \<in> set (handlers_for b e)
      then b\<lparr>bu_subscribers := AList.update e (remove1 h (handlers_for b e)) (bu_subscribers b)\<rparr> else b)"

definition last_items :: "int \<Rightarrow> 'a list \<Rightarrow> 'a list" where
  \<comment> \<open>\<open>xs[-n:]\<close>, which is the whole list for \<open>n = 0\<close>\<close>
  "last_items n xs = (if n \<le> 0 then drop (nat (- n)) xs else drop (length xs - nat n) xs)"

definition bus_record :: "'h plugin_bus \<Rightarrow> plugin_event \<Rightarrow> 'h plugin_bus" where
  "bus_record b ev = b\<lparr>bu_history := last_items 200 (bu_history b @ [ev])\<rparr>"

definition bus_history :: "'h plugin_bus \<Rightarrow> int \<Rightarrow> plugin_event list" where
  "bus_history b limit = last_items limit (bu_history b)"

definition subscriber_count :: "'h plugin_bus \<Rightarrow> string \<Rightarrow> nat" where
  "subscriber_count b e = length (handlers_for b e)"


section \<open>The manager\<close>

datatype loaded_code = Sdk_Plugin | Legacy_Hooks "string list"

record loaded_plugin =
  ld_code :: loaded_code
  ld_events :: "string list"

record plugin_manager =
  px_official :: "(string \<times> plugin_tree) list"
  px_dir :: "(string \<times> plugin_tree) list"
  px_registry :: plugin_registry
  px_permissions :: permission_manager
  px_bus :: "string plugin_bus"
  px_active :: "(string \<times> loaded_plugin) list"
  px_lifecycles :: "(string \<times> plugin_state) list"
  px_manifests :: "(string \<times> plugin_manifest) list"

text \<open>What the surroundings answer during one operation.\<close>

record plugin_env =
  xe_now :: rat
  xe_token :: string
  xe_stored :: bool
  xe_sha :: "nat list \<Rightarrow> string"
  xe_sdk :: "plugin_tree \<Rightarrow> bool"
  xe_legacy :: "plugin_tree \<Rightarrow> string list option"

text \<open>\<open>xe_sdk t\<close>: importing the entry point of \<open>t\<close> gives a plugin object; \<open>xe_legacy t\<close>: the hooks that its \<open>main.py\<close>
  defines, when it can be imported.\<close>

datatype plugin_reply =
    Plugin_Not_Found
  | Invalid_Plugin "plugin_issue list"
  | Already_Installed
  | Installed string
  | Validated plugin_state
  | Undeclared "string list"
  | Approved permission_token
  | Permission_Review "string list" permission_evaluation
  | Not_Loadable
  | Activated plugin_state
  | Deactivated plugin_state
  | Id_Mismatch
  | Removed bool

definition locate :: "plugin_manager \<Rightarrow> string \<Rightarrow> plugin_tree option" where
  "locate mg pid =
     (let present = \<lambda>d. (case map_of d pid of
            Some t \<Rightarrow> if tr_is_dir t \<and> map_of (tr_files t) manifest_name \<noteq> None then Some t else None
          | None \<Rightarrow> None)
      in case present (px_official mg) of Some t \<Rightarrow> Some t | None \<Rightarrow> present (px_dir mg))"

fun risk_penalty :: "plugin_risk \<Rightarrow> rat" where
  "risk_penalty RISK_LOW = 0"
| "risk_penalty RISK_MEDIUM = - 3"
| "risk_penalty RISK_HIGH = - 6"
| "risk_penalty RISK_CRITICAL = - 10"

definition compute_trust :: "plugin_manifest \<Rightarrow> nat \<Rightarrow> nat \<Rightarrow> rat" where
  "compute_trust m failed succeeded =
     (let score = 60 + (if mf_checksum m \<noteq> [] then 15 else 0)
            + (if mf_signature m \<noteq> [] \<and> mf_publisher_key m \<noteq> [] then 15 else 0)
            + sum_list (map (\<lambda>p. risk_penalty (permission_risk p)) (mf_permissions m))
            - of_nat (min (failed * 2) 30) + min (of_nat succeeded / 2) 10
      in max 0 (min 100 score))"

definition trust_certifications :: "(string \<times> rat) list" where
  "trust_certifications = [(''official'', 90), (''trusted'', 75), (''verified'', 50), (''community'', 0)]"

definition certification_for :: "rat \<Rightarrow> string" where
  "certification_for trust =
     (case find (\<lambda>(n, t). t \<le> trust) trust_certifications of Some (n, t) \<Rightarrow> n | None \<Rightarrow> ''community'')"

definition lifecycle_of :: "plugin_manager \<Rightarrow> string \<Rightarrow> plugin_state" where
  "lifecycle_of mg pid = dict_get (px_lifecycles mg) pid STATE_INSTALLED"

definition install_path :: "plugin_state list" where
  "install_path = [STATE_INSTALLED, STATE_VALIDATED, STATE_PERMISSION_REVIEW, STATE_ACTIVE]"

fun advance :: "plugin_state list \<Rightarrow> plugin_state \<Rightarrow> plugin_state \<Rightarrow> plugin_state" where
  "advance [] goal s = s"
| "advance (x # xs) goal s =
     (let s' = (if can_move s x then x else s) in if s' = goal then s' else advance xs goal s')"

definition move_lifecycle :: "plugin_state \<Rightarrow> plugin_state \<Rightarrow> plugin_state" where
  "move_lifecycle goal s =
     (if goal \<in> set install_path then advance install_path goal s else if can_move s goal then goal else s)"

definition set_lifecycle :: "string \<Rightarrow> plugin_state \<Rightarrow> plugin_manager \<Rightarrow> plugin_manager" where
  "set_lifecycle pid s mg = mg\<lparr>px_lifecycles := AList.update pid s (px_lifecycles mg)\<rparr>"

definition change_record :: "string \<Rightarrow> (plugin_row \<Rightarrow> plugin_row) \<Rightarrow> plugin_manager \<Rightarrow> plugin_manager" where
  \<comment> \<open>the record is read, changed and written back when there is one\<close>
  "change_record pid f mg =
     (case registry_get (px_registry mg) pid of
        None \<Rightarrow> mg
      | Some r \<Rightarrow> mg\<lparr>px_registry := registry_upsert (px_registry mg) (f r)\<rparr>)"

definition install :: "plugin_env \<Rightarrow> plugin_manager \<Rightarrow> plugin_tree \<Rightarrow> string option \<Rightarrow> plugin_manager \<times> plugin_reply result" where
  "install env mg source pid =
     (if \<not> tr_is_dir source then (mg, Inr Plugin_Not_Found)
      else (case load_manifest source of
              Inl e \<Rightarrow> (mg, Inl e)
            | Inr m0 \<Rightarrow>
                (let target = (case pid of Some p \<Rightarrow> if p = [] then mf_id m0 else p | None \<Rightarrow> mf_id m0);
                     m = m0\<lparr>mf_id := target\<rparr>
                 in case validate_plugin (xe_sha env) source (Some m) of
                      Inl e \<Rightarrow> (mg, Inl e)
                    | Inr r \<Rightarrow>
                        if \<not> rp_valid r then (mg, Inr (Invalid_Plugin (rp_issues r)))
                        else if map_of (px_dir mg) target \<noteq> None then (mg, Inr Already_Installed)
                        else
                          (let trust = compute_trust m 0 0;
                               row = \<lparr>pr_id = target, pr_name = (if mf_name m = [] then target else mf_name m),
                                      pr_version = mf_version m, pr_status = STATE_INSTALLED,
                                      pr_permissions = mf_permissions m, pr_installed = xe_now env,
                                      pr_last_execution = None, pr_trust = trust,
                                      pr_certification = certification_for trust, pr_failures = 0,
                                      pr_approval = ''pending''\<rparr>
                           in (mg\<lparr>px_dir := AList.update target source (px_dir mg),
                                  px_registry := registry_upsert (px_registry mg) row,
                                  px_lifecycles := AList.update target STATE_INSTALLED (px_lifecycles mg),
                                  px_manifests := AList.update target m (px_manifests mg)\<rparr>,
                               Inr (Installed target))))))"

definition validate_installed :: "plugin_env \<Rightarrow> plugin_manager \<Rightarrow> string \<Rightarrow> plugin_manager \<times> plugin_reply result" where
  "validate_installed env mg pid =
     (case locate mg pid of
        None \<Rightarrow> (mg, Inr Plugin_Not_Found)
      | Some t \<Rightarrow>
          (case load_manifest t of
             Inl e \<Rightarrow> (mg, Inl e)
           | Inr m \<Rightarrow>
               (case validate_plugin (xe_sha env) t (Some m) of
                  Inl e \<Rightarrow> (mg, Inl e)
                | Inr r \<Rightarrow>
                    if \<not> rp_valid r then (mg, Inr (Invalid_Plugin (rp_issues r)))
                    else
                      (let s = lifecycle_of mg pid;
                           s' = (if can_move s STATE_VALIDATED then STATE_VALIDATED else s);
                           mg' = change_record pid (\<lambda>r. r\<lparr>pr_status := STATE_VALIDATED\<rparr>) (set_lifecycle pid s' mg)
                       in (mg'\<lparr>px_manifests := AList.update pid m (px_manifests mg')\<rparr>, Inr (Validated s'))))))"

definition default_ttl :: int where "default_ttl = 6 * 3600"

definition approve_permissions :: "plugin_env \<Rightarrow> plugin_manager \<Rightarrow> string \<Rightarrow> string list option
    \<Rightarrow> plugin_manager \<times> plugin_reply result" where
  "approve_permissions env mg pid wanted =
     (case locate mg pid of
        None \<Rightarrow> (mg, Inr Plugin_Not_Found)
      | Some t \<Rightarrow>
          (case load_manifest t of
             Inl e \<Rightarrow> (mg, Inl e)
           | Inr m \<Rightarrow>
               (let undeclared = (case wanted of None \<Rightarrow> [] | Some ps \<Rightarrow> filter (\<lambda>p. p \<notin> set (mf_permissions m)) ps);
                    requested = (case wanted of None \<Rightarrow> mf_permissions m | Some ps \<Rightarrow> ps)
                in if undeclared \<noteq> [] then (mg, Inr (Undeclared (py_sorted undeclared)))
                   else (case permission_grant (px_permissions mg) pid requested default_ttl (xe_now env) (xe_token env)
                                (xe_stored env) of
                           (pm, Inl e) \<Rightarrow> (mg\<lparr>px_permissions := pm\<rparr>, Inl e)
                         | (pm, Inr token) \<Rightarrow>
                             (let mg1 = mg\<lparr>px_permissions := pm\<rparr>;
                                  mg2 = set_lifecycle pid (move_lifecycle STATE_PERMISSION_REVIEW (lifecycle_of mg1 pid)) mg1
                              in (change_record pid
                                    (\<lambda>r. r\<lparr>pr_approval := ''approved'', pr_status := STATE_PERMISSION_REVIEW\<rparr>) mg2,
                                  Inr (Approved token)))))))"

definition load_plugin :: "plugin_env \<Rightarrow> plugin_tree \<Rightarrow> plugin_manifest \<Rightarrow> loaded_plugin option" where
  "load_plugin env t m =
     (if read_path t (mf_entrypoint m) \<noteq> None \<and> xe_sdk env t
      then Some \<lparr>ld_code = Sdk_Plugin, ld_events = mf_events m\<rparr>
      else if read_path t ''main.py'' \<noteq> None
      then map_option (\<lambda>hs. \<lparr>ld_code = Legacy_Hooks hs, ld_events = mf_events m\<rparr>) (xe_legacy env t)
      else None)"

fun subscribe_events :: "string \<Rightarrow> string list \<Rightarrow> string plugin_bus \<Rightarrow> string plugin_bus" where
  "subscribe_events pid [] b = b"
| "subscribe_events pid (e # es) b =
     subscribe_events pid es (case bus_subscribe b e pid of Inr b' \<Rightarrow> b' | Inl x \<Rightarrow> b)"

definition missing_permissions :: "plugin_env \<Rightarrow> plugin_manager \<Rightarrow> string \<Rightarrow> plugin_manifest \<Rightarrow> string list" where
  "missing_permissions env mg pid m =
     filter (\<lambda>p. \<not> has_permission (px_permissions mg) pid p (xe_now env)) (mf_permissions m)"

definition activate :: "plugin_env \<Rightarrow> plugin_manager \<Rightarrow> string \<Rightarrow> plugin_manager \<times> plugin_reply result" where
  "activate env mg pid =
     (case locate mg pid of
        None \<Rightarrow> (mg, Inr Plugin_Not_Found)
      | Some t \<Rightarrow>
          (case load_manifest t of
             Inl e \<Rightarrow> (mg, Inl e)
           | Inr m \<Rightarrow>
               (case validate_plugin (xe_sha env) t (Some m) of
                  Inl e \<Rightarrow> (mg, Inl e)
                | Inr r \<Rightarrow>
                    if \<not> rp_valid r then (mg, Inr (Invalid_Plugin (rp_issues r)))
                    else if missing_permissions env mg pid m \<noteq> []
                    then (change_record pid (\<lambda>r. r\<lparr>pr_status := STATE_PERMISSION_REVIEW, pr_approval := ''pending''\<rparr>)
                            (set_lifecycle pid (move_lifecycle STATE_PERMISSION_REVIEW (lifecycle_of mg pid)) mg),
                          Inr (Permission_Review (missing_permissions env mg pid m)
                            (evaluate_permissions (mf_permissions m))))
                    else
                      (let s = move_lifecycle STATE_ACTIVE (lifecycle_of mg pid); mg1 = set_lifecycle pid s mg
                       in case load_plugin env t m of
                            None \<Rightarrow>
                              (case transition s ''error'' of
                                 Inl e \<Rightarrow> (mg1, Inl e)
                               | Inr s' \<Rightarrow>
                                   (change_record pid (\<lambda>r. r\<lparr>pr_status := STATE_ERROR\<rparr>) (set_lifecycle pid s' mg1),
                                    Inr Not_Loadable))
                          | Some l \<Rightarrow>
                              (change_record pid (\<lambda>r. r\<lparr>pr_status := STATE_ACTIVE\<rparr>)
                                 (mg1\<lparr>px_active := AList.update pid l (px_active mg1),
                                      px_bus := subscribe_events pid (ld_events l) (px_bus mg1)\<rparr>),
                               Inr (Activated s))))))"

definition deactivate :: "plugin_manager \<Rightarrow> string \<Rightarrow> plugin_manager \<times> plugin_reply result" where
  \<comment> \<open>an exception of the stop hook is swallowed\<close>
  "deactivate mg pid =
     (let mg1 = mg\<lparr>px_active := AList.delete pid (px_active mg)\<rparr>
      in case (case transition (lifecycle_of mg pid) ''deactivated'' of
                 Inr s \<Rightarrow> Inr s
               | Inl e \<Rightarrow> transition (lifecycle_of mg pid) ''installed'') of
           Inl e \<Rightarrow> (mg1, Inl e)
         | Inr s \<Rightarrow> (change_record pid (\<lambda>r. r\<lparr>pr_status := s\<rparr>) (set_lifecycle pid s mg1), Inr (Deactivated s)))"

definition remove_dir :: "plugin_manager \<Rightarrow> string \<Rightarrow> plugin_manager" where
  \<comment> \<open>\<open>rmtree\<close> of the directory that \<open>_locate\<close> finds\<close>
  "remove_dir mg pid =
     (case map_of (px_official mg) pid of
        Some t \<Rightarrow>
          if tr_is_dir t \<and> map_of (tr_files t) manifest_name \<noteq> None
          then mg\<lparr>px_official := AList.delete pid (px_official mg)\<rparr>
          else mg\<lparr>px_dir := AList.delete pid (px_dir mg)\<rparr>
      | None \<Rightarrow> mg\<lparr>px_dir := AList.delete pid (px_dir mg)\<rparr>)"

definition remove_plugin :: "plugin_env \<Rightarrow> plugin_manager \<Rightarrow> string \<Rightarrow> plugin_manager \<times> plugin_reply result" where
  "remove_plugin env mg pid =
     (let mg0 = (if map_of (px_active mg) pid \<noteq> None then fst (deactivate mg pid) else mg);
          mg1 = (if locate mg0 pid \<noteq> None then remove_dir mg0 pid else mg0);
          mg2 = mg1\<lparr>px_registry := fst (registry_remove (px_registry mg1) pid),
                   px_lifecycles := AList.delete pid (px_lifecycles mg1),
                   px_manifests := AList.delete pid (px_manifests mg1)\<rparr>
      in case permission_revoke (px_permissions mg2) pid (xe_stored env) of
           (pm, Inl e) \<Rightarrow> (mg2\<lparr>px_permissions := pm\<rparr>, Inl e)
         | (pm, Inr b) \<Rightarrow> (mg2\<lparr>px_permissions := pm\<rparr>, Inr (Removed (locate mg0 pid \<noteq> None))))"

definition replace_plugin :: "plugin_env \<Rightarrow> plugin_manager \<Rightarrow> string \<Rightarrow> plugin_tree \<Rightarrow> plugin_manager \<times> plugin_reply result" where
  \<comment> \<open>the end of \<open>update\<close>: the plugin is deactivated, removed, installed again and activated again if it was active\<close>
  "replace_plugin env mg pid source =
     (let was_active = (map_of (px_active mg) pid \<noteq> None);
          mg1 = (if was_active then fst (deactivate mg pid) else mg);
          removed = remove_plugin env mg1 pid
      in if is_err (snd removed) then removed
         else (let installed = install env (fst removed) source (Some pid)
               in if snd installed = Inr (Installed pid) \<and> was_active
                  then (let again = activate env (fst installed) pid
                        in (fst again, case snd again of Inl e \<Rightarrow> Inl e | Inr x \<Rightarrow> snd installed))
                  else installed))"

definition update_plugin :: "plugin_env \<Rightarrow> plugin_manager \<Rightarrow> string \<Rightarrow> plugin_tree \<Rightarrow> plugin_manager \<times> plugin_reply result" where
  "update_plugin env mg pid source =
     (case locate mg pid of
        None \<Rightarrow> (mg, Inr Plugin_Not_Found)
      | Some old \<Rightarrow>
          (case load_manifest source of
             Inl e \<Rightarrow> (mg, Inl e)
           | Inr m \<Rightarrow>
               if mf_id m \<noteq> pid then (mg, Inr Id_Mismatch)
               else (case validate_plugin (xe_sha env) source (Some m) of
                       Inl e \<Rightarrow> (mg, Inl e)
                     | Inr r \<Rightarrow> if \<not> rp_valid r then (mg, Inr (Invalid_Plugin (rp_issues r)))
                         else replace_plugin env mg pid source)))"


section \<open>Running plugins\<close>

datatype plugin_call = On_Event plugin_event | On_Command string params

datatype dispatch_reply = Not_Active | Not_Handled | Handled pyval | Plugin_Failed py_exc

definition handles :: "loaded_plugin \<Rightarrow> plugin_call \<Rightarrow> bool" where
  "handles l call =
     (case ld_code l of
        Sdk_Plugin \<Rightarrow> True
      | Legacy_Hooks hs \<Rightarrow> (case call of On_Event e \<Rightarrow> ''on_event'' | On_Command c ps \<Rightarrow> ''on_command'') \<in> set hs)"

definition call_detail :: "plugin_call \<Rightarrow> string" where
  "call_detail call = (case call of On_Event e \<Rightarrow> ''event:'' @ ev_type e | On_Command c ps \<Rightarrow> ''command:'' @ c)"

type_synonym 's plugin_code = "'s \<Rightarrow> string \<Rightarrow> plugin_call \<Rightarrow> 's \<times> rat \<times> rat \<times> pyval result"

definition dispatch :: "'s plugin_code \<Rightarrow> plugin_manager \<Rightarrow> 's \<Rightarrow> string \<Rightarrow> plugin_call
    \<Rightarrow> plugin_manager \<times> 's \<times> dispatch_reply" where
  \<comment> \<open>\<open>run\<close> is the plugin's code; it also gives the clock before and after the call\<close>
  "dispatch run mg s pid call =
     (case map_of (px_active mg) pid of
        None \<Rightarrow> (mg, s, Not_Active)
      | Some l \<Rightarrow>
          if \<not> handles l call then (mg, s, Not_Handled)
          else (case run s pid call of
                  (s', started, now, r) \<Rightarrow>
                    (mg\<lparr>px_registry := touch_execution (px_registry mg) pid (\<not> is_err r) ((now - started) * 1000)
                           (call_detail call) now\<rparr>,
                     s', case r of Inr v \<Rightarrow> Handled v | Inl e \<Rightarrow> Plugin_Failed e)))"

fun dispatch_all :: "'s plugin_code \<Rightarrow> plugin_manager \<Rightarrow> 's \<Rightarrow> string list \<Rightarrow> plugin_event
    \<Rightarrow> plugin_manager \<times> 's \<times> dispatch_reply list" where
  "dispatch_all run mg s [] ev = (mg, s, [])"
| "dispatch_all run mg s (pid # pids) ev =
     (case dispatch run mg s pid (On_Event ev) of
        (mg1, s1, r) \<Rightarrow> (case dispatch_all run mg1 s1 pids ev of (mg2, s2, rs) \<Rightarrow> (mg2, s2, r # rs)))"

definition emit_event :: "'s plugin_code \<Rightarrow> plugin_manager \<Rightarrow> 's \<Rightarrow> plugin_event
    \<Rightarrow> (plugin_manager \<times> 's \<times> dispatch_reply list) result" where
  "emit_event run mg s ev =
     (if ev_type ev \<notin> set plugin_event_types then Inl (ValueError ''unknown plugin event type'')
      else (case dispatch_all run mg s (handlers_for (px_bus mg) (ev_type ev)) ev of
              (mg', s', rs) \<Rightarrow> Inr (mg'\<lparr>px_bus := bus_record (px_bus mg') ev\<rparr>, s', rs)))"

record manager_metrics =
  mm_installed :: nat
  mm_active :: nat
  mm_failures :: nat
  mm_calls :: nat
  mm_call_failures :: nat
  mm_average :: rat
  mm_violations :: nat
  mm_certifications :: "(string \<times> nat) list"

definition manager_metrics_of :: "plugin_manager \<Rightarrow> manager_metrics" where
  "manager_metrics_of mg =
     (let rows = registry_list (px_registry mg);
          aggs = map (\<lambda>r. aggregate_metrics (px_registry mg) (pr_id r)) rows;
          calls = sum_list (map ms_calls aggs);
          duration = sum_list (map (\<lambda>a. ms_average a * of_nat (ms_calls a)) aggs)
      in \<lparr>mm_installed = length rows, mm_active = length (px_active mg),
          mm_failures = sum_list (map pr_failures rows), mm_calls = calls,
          mm_call_failures = sum_list (map ms_failures aggs),
          mm_average = (if calls = 0 then 0 else py_round 1 (duration / of_nat calls)),
          mm_violations = length (pm_approvals (px_permissions mg)),
          mm_certifications = fold (\<lambda>r d. AList.update (pr_certification r) (dict_get d (pr_certification r) 0 + 1) d) rows []\<rparr>)"


section \<open>Operations as steps\<close>

datatype manager_op =
    Install_Op plugin_tree "string option"
  | Validate_Op string
  | Approve_Op string "string list option"
  | Activate_Op string
  | Deactivate_Op string
  | Update_Op string plugin_tree
  | Remove_Op string

fun manager_step :: "plugin_env \<Rightarrow> plugin_manager \<Rightarrow> manager_op \<Rightarrow> plugin_manager \<times> plugin_reply result" where
  "manager_step env mg (Install_Op t pid) = install env mg t pid"
| "manager_step env mg (Validate_Op pid) = validate_installed env mg pid"
| "manager_step env mg (Approve_Op pid ps) = approve_permissions env mg pid ps"
| "manager_step env mg (Activate_Op pid) = activate env mg pid"
| "manager_step env mg (Deactivate_Op pid) = deactivate mg pid"
| "manager_step env mg (Update_Op pid t) = update_plugin env mg pid t"
| "manager_step env mg (Remove_Op pid) = remove_plugin env mg pid"

lemma change_record_simps [simp]:
  "px_active (change_record pid f mg) = px_active mg" "px_official (change_record pid f mg) = px_official mg"
  "px_dir (change_record pid f mg) = px_dir mg" "px_permissions (change_record pid f mg) = px_permissions mg"
  "px_bus (change_record pid f mg) = px_bus mg" "px_lifecycles (change_record pid f mg) = px_lifecycles mg"
  "px_manifests (change_record pid f mg) = px_manifests mg"
  by (simp_all add: change_record_def split: option.split)

lemma set_lifecycle_simps [simp]:
  "px_active (set_lifecycle pid s mg) = px_active mg" "px_official (set_lifecycle pid s mg) = px_official mg"
  "px_dir (set_lifecycle pid s mg) = px_dir mg" "px_permissions (set_lifecycle pid s mg) = px_permissions mg"
  "px_bus (set_lifecycle pid s mg) = px_bus mg" "px_registry (set_lifecycle pid s mg) = px_registry mg"
  "px_lifecycles (set_lifecycle pid s mg) = AList.update pid s (px_lifecycles mg)"
  "px_manifests (set_lifecycle pid s mg) = px_manifests mg"
  by (simp_all add: set_lifecycle_def)

lemma locate_cong: "px_official mg = px_official mg' \<Longrightarrow> px_dir mg = px_dir mg' \<Longrightarrow> locate mg pid = locate mg' pid"
  by (simp only: locate_def)

lemma remove_dir_simps [simp]:
  "px_active (remove_dir mg pid) = px_active mg" "px_permissions (remove_dir mg pid) = px_permissions mg"
  "px_bus (remove_dir mg pid) = px_bus mg" "px_registry (remove_dir mg pid) = px_registry mg"
  "px_lifecycles (remove_dir mg pid) = px_lifecycles mg" "px_manifests (remove_dir mg pid) = px_manifests mg"
  by (simp_all add: remove_dir_def split: option.split)

text \<open>What the code has established about a plugin when it becomes active.\<close>

definition cleared :: "plugin_env \<Rightarrow> plugin_manager \<Rightarrow> string \<Rightarrow> loaded_plugin \<Rightarrow> bool" where
  "cleared env mg pid l \<longleftrightarrow>
     (\<exists>t m r. locate mg pid = Some t \<and> load_manifest t = Inr m \<and> validate_plugin (xe_sha env) t (Some m) = Inr r
        \<and> rp_valid r \<and> (\<forall>p \<in> set (mf_permissions m). has_permission (px_permissions mg) pid p (xe_now env))
        \<and> load_plugin env t m = Some l)"

lemma activate_eq:
  assumes "locate mg pid = Some t" and "load_manifest t = Inr m" and "validate_plugin (xe_sha env) t (Some m) = Inr r"
    and "rp_valid r" and "missing_permissions env mg pid m = []" and "load_plugin env t m = Some l"
  shows "activate env mg pid =
    (change_record pid (\<lambda>r. r\<lparr>pr_status := STATE_ACTIVE\<rparr>)
       (set_lifecycle pid (move_lifecycle STATE_ACTIVE (lifecycle_of mg pid)) mg
          \<lparr>px_active := AList.update pid l (px_active mg), px_bus := subscribe_events pid (ld_events l) (px_bus mg)\<rparr>),
     Inr (Activated (move_lifecycle STATE_ACTIVE (lifecycle_of mg pid))))"
  using assms unfolding activate_def Let_def by simp

lemma activate_active:
  assumes "map_of (px_active (fst (activate env mg pid))) q = Some l"
  shows "map_of (px_active mg) q = Some l \<or> q = pid \<and> cleared env (fst (activate env mg pid)) pid l"
proof (cases "\<exists>t m r l'. locate mg pid = Some t \<and> load_manifest t = Inr m \<and> validate_plugin (xe_sha env) t (Some m) = Inr r
    \<and> rp_valid r \<and> missing_permissions env mg pid m = [] \<and> load_plugin env t m = Some l'")
  case False
  then have "px_active (fst (activate env mg pid)) = px_active mg"
    by (auto simp: activate_def Let_def split: option.split sum.split)
  with assms show ?thesis by simp
next
  case True
  then obtain t m r l' where c: "locate mg pid = Some t" "load_manifest t = Inr m"
    "validate_plugin (xe_sha env) t (Some m) = Inr r" "rp_valid r" "missing_permissions env mg pid m = []"
    "load_plugin env t m = Some l'" by blast
  note act = activate_eq [OF c]
  have "locate (fst (activate env mg pid)) pid = Some t"
    using c(1) by (subst locate_cong [of _ mg]) (simp_all add: act)
  with c have "cleared env (fst (activate env mg pid)) pid l'"
    unfolding cleared_def by (auto simp: act missing_permissions_def filter_empty_conv)
  with assms show ?thesis by (auto simp: act split: if_splits)
qed

lemma deactivate_active:
  "map_of (px_active (fst (deactivate mg pid))) q = Some l \<Longrightarrow> map_of (px_active mg) q = Some l"
  by (auto simp: deactivate_def Let_def split: sum.splits if_splits)

lemma remove_active:
  assumes "map_of (px_active (fst (remove_plugin env mg pid))) q = Some l"
  shows "map_of (px_active mg) q = Some l"
proof -
  define mg0 where "mg0 = (if map_of (px_active mg) pid \<noteq> None then fst (deactivate mg pid) else mg)"
  define mg1 where "mg1 = (if locate mg0 pid \<noteq> None then remove_dir mg0 pid else mg0)"
  have "px_active (fst (remove_plugin env mg pid)) = px_active mg1"
    unfolding remove_plugin_def Let_def mg0_def [symmetric] mg1_def [symmetric]
    by (simp split: prod.split sum.split)
  also have "\<dots> = px_active mg0" by (simp add: mg1_def)
  finally show ?thesis using assms deactivate_active [of mg pid q l] by (auto simp: mg0_def split: if_splits)
qed

lemma install_active: "px_active (fst (install env mg t pid)) = px_active mg"
  by (simp add: install_def Let_def split: sum.split)

lemma replace_active:
  assumes "map_of (px_active (fst (replace_plugin env mg pid t))) q = Some l"
  shows "map_of (px_active mg) q = Some l \<or> q = pid \<and> cleared env (fst (replace_plugin env mg pid t)) pid l"
proof -
  define mg1 where "mg1 = (if map_of (px_active mg) pid \<noteq> None then fst (deactivate mg pid) else mg)"
  define mg2 where "mg2 = fst (remove_plugin env mg1 pid)"
  define mg3 where "mg3 = fst (install env mg2 t (Some pid))"
  have old: "map_of (px_active mg) q = Some l" if "map_of (px_active m) q = Some l" "m = mg2 \<or> m = mg3" for m
    using that remove_active [of env mg1 pid q l] deactivate_active [of mg pid q l]
    by (auto simp: mg1_def mg2_def mg3_def install_active split: if_splits)
  have "fst (replace_plugin env mg pid t) = mg2 \<or> fst (replace_plugin env mg pid t) = mg3
      \<or> fst (replace_plugin env mg pid t) = fst (activate env mg3 pid)"
    unfolding replace_plugin_def Let_def mg1_def [symmetric] mg2_def [symmetric] mg3_def [symmetric] by (simp add: mg2_def mg3_def)
  then consider "map_of (px_active mg) q = Some l" | "fst (replace_plugin env mg pid t) = fst (activate env mg3 pid)"
    using assms old by metis
  then show ?thesis
  proof cases
    case 2
    then have "map_of (px_active (fst (activate env mg3 pid))) q = Some l" using assms by simp
    from activate_active [OF this] old [of mg3] 2 show ?thesis by auto
  qed simp
qed

lemma update_cases: "fst (update_plugin env mg pid t) = mg \<or> update_plugin env mg pid t = replace_plugin env mg pid t"
  by (simp add: update_plugin_def split: option.split sum.split)

lemma update_active:
  "map_of (px_active (fst (update_plugin env mg pid t))) q = Some l \<Longrightarrow>
    map_of (px_active mg) q = Some l \<or> q = pid \<and> cleared env (fst (update_plugin env mg pid t)) pid l"
  using update_cases [of env mg pid t] replace_active [of env mg pid t q l] by metis

text \<open>
  C32: Whatever operation runs, a plugin that is active afterwards was active before, or it was activated by this
  operation with its directory validated and with a token that is valid now and covers every permission its
  manifest asks for.
\<close>

theorem activation_gated:
  assumes "map_of (px_active (fst (manager_step env mg op))) pid = Some l"
  shows "map_of (px_active mg) pid = Some l \<or> cleared env (fst (manager_step env mg op)) pid l"
proof (cases op)
  case (Validate_Op p)
  with assms show ?thesis
    by (auto simp: validate_installed_def Let_def split: option.splits sum.splits if_splits)
next
  case (Approve_Op p ps)
  with assms show ?thesis
    by (auto simp: approve_permissions_def Let_def split: option.splits sum.splits prod.splits if_splits)
next
  case (Install_Op t p)
  with assms show ?thesis by (simp add: install_active)
next
  case (Activate_Op p)
  with assms activate_active [of env mg p pid l] show ?thesis by auto
next
  case (Deactivate_Op p)
  with assms deactivate_active [of mg p pid l] show ?thesis by simp
next
  case (Update_Op p t)
  with assms update_active [of env mg p t pid l] show ?thesis by auto
next
  case (Remove_Op p)
  with assms remove_active [of env mg p pid l] show ?thesis by simp
qed

section \<open>The invariant of the manager\<close>

definition registry_ok :: "plugin_registry \<Rightarrow> bool" where
  "registry_ok rg \<longleftrightarrow> dict_ok (rg_plugins rg) \<and> (\<forall>k r. map_of (rg_plugins rg) k = Some r \<longrightarrow> pr_id r = k)"

definition bus_ok :: "'h plugin_bus \<Rightarrow> bool" where
  "bus_ok b \<longleftrightarrow> dict_ok (bu_subscribers b) \<and> set (keys (bu_subscribers b)) \<subseteq> set plugin_event_types
     \<and> length (bu_history b) \<le> 200"

definition manager_ok :: "plugin_manager \<Rightarrow> bool" where
  "manager_ok mg \<longleftrightarrow>
     dict_ok (px_official mg) \<and> dict_ok (px_dir mg) \<and> dict_ok (px_active mg) \<and> dict_ok (px_lifecycles mg)
     \<and> dict_ok (px_manifests mg) \<and> dict_ok (pm_tokens (px_permissions mg))
     \<and> set (keys (px_active mg)) \<subseteq> set (keys (px_lifecycles mg))
     \<and> registry_ok (px_registry mg) \<and> bus_ok (px_bus mg)"

lemma fst_update [simp]: "fst ` set (AList.update k v d) = insert k (fst ` set d)"
  using set_keys_update [of k v d] by (simp only: set_map)

lemma fst_delete [simp]: "fst ` set (AList.delete k d) = fst ` set d - {k}"
  by (induction d) auto

lemma registry_ok_upsert: "registry_ok rg \<Longrightarrow> registry_ok (registry_upsert rg r)"
  by (auto simp: registry_ok_def registry_upsert_def split: option.split)

lemma registry_ok_remove: "registry_ok rg \<Longrightarrow> registry_ok (fst (registry_remove rg pid))"
  by (auto simp: registry_ok_def registry_remove_def)

lemma registry_ok_touch: "registry_ok rg \<Longrightarrow> registry_ok (touch_execution rg pid ok d detail now)"
  by (auto simp: registry_ok_def touch_execution_def update_row_def Let_def split: option.split)

lemma bus_ok_add:
  "bus_ok b \<Longrightarrow> e \<in> set plugin_event_types \<Longrightarrow> bus_ok (b\<lparr>bu_subscribers := AList.update e hs (bu_subscribers b)\<rparr>)"
  by (simp add: bus_ok_def)

lemma bus_ok_subscribe: "bus_ok b \<Longrightarrow> bus_subscribe b e h = Inr b' \<Longrightarrow> bus_ok b'"
  by (auto simp: bus_subscribe_def bus_ok_add split: if_splits)

lemma bus_ok_subscribe_events: "bus_ok b \<Longrightarrow> bus_ok (subscribe_events pid es b)"
  by (induction es arbitrary: b) (auto split: sum.split intro: bus_ok_subscribe)

lemma length_last_items: "0 < n \<Longrightarrow> length (last_items n xs) \<le> nat n"
  by (simp add: last_items_def)

lemma bus_ok_record: "bus_ok b \<Longrightarrow> bus_ok (bus_record b ev)"
  using length_last_items [of 200 "bu_history b @ [ev]"] by (simp add: bus_ok_def bus_record_def)

lemma ok_change_record: "manager_ok mg \<Longrightarrow> manager_ok (change_record pid f mg)"
  by (auto simp: manager_ok_def change_record_def intro: registry_ok_upsert split: option.split)

lemma ok_set_lifecycle: "manager_ok mg \<Longrightarrow> manager_ok (set_lifecycle pid s mg)"
  by (auto simp: manager_ok_def)

lemma ok_manifests: "manager_ok mg \<Longrightarrow> manager_ok (mg\<lparr>px_manifests := AList.update pid m (px_manifests mg)\<rparr>)"
  by (simp add: manager_ok_def)

lemma ok_permissions:
  "manager_ok mg \<Longrightarrow> dict_ok (pm_tokens pm) \<Longrightarrow> manager_ok (mg\<lparr>px_permissions := pm\<rparr>)"
  by (simp add: manager_ok_def)

lemma ok_loaded:
  "manager_ok mg \<Longrightarrow> manager_ok (set_lifecycle pid s mg\<lparr>px_active := AList.update pid l (px_active mg),
     px_bus := subscribe_events pid es (px_bus mg)\<rparr>)"
  by (auto simp: manager_ok_def intro: bus_ok_subscribe_events)

lemma ok_remove_dir: "manager_ok mg \<Longrightarrow> manager_ok (remove_dir mg pid)"
  by (simp add: manager_ok_def remove_dir_def split: option.split)

lemma dict_ok_grant: "dict_ok (pm_tokens pm) \<Longrightarrow> dict_ok (pm_tokens (fst (permission_grant pm pid ps ttl now tid st)))"
  by (auto simp: permission_grant_def Let_def split: option.split)

lemma dict_ok_revoke: "dict_ok (pm_tokens pm) \<Longrightarrow> dict_ok (pm_tokens (fst (permission_revoke pm pid st)))"
  by (auto simp: permission_revoke_def Let_def split: option.split)

lemma manager_tokens_ok: "manager_ok mg \<Longrightarrow> dict_ok (pm_tokens (px_permissions mg))"
  by (simp add: manager_ok_def)

lemmas ok_steps = ok_change_record ok_set_lifecycle ok_manifests ok_loaded ok_remove_dir

lemma install_ok: "manager_ok mg \<Longrightarrow> manager_ok (fst (install env mg t pid))"
  by (auto simp: install_def Let_def manager_ok_def registry_ok_upsert split: sum.split)

lemma validate_installed_ok: "manager_ok mg \<Longrightarrow> manager_ok (fst (validate_installed env mg pid))"
  by (auto simp: validate_installed_def Let_def ok_change_record ok_set_lifecycle ok_manifests
      split: option.split sum.split simp del: change_record_simps set_lifecycle_simps)

lemma approve_ok:
  assumes "manager_ok mg"
  shows "manager_ok (fst (approve_permissions env mg pid ps))"
proof -
  have "manager_ok (mg\<lparr>px_permissions := pm\<rparr>)"
    if "permission_grant (px_permissions mg) pid rs ttl now tid st = (pm, r)" for rs ttl now tid st pm r
    using dict_ok_grant [OF manager_tokens_ok [OF assms], of pid rs ttl now tid st] that
    by (intro ok_permissions [OF assms]) simp
  then show ?thesis
    using assms by (auto simp: approve_permissions_def Let_def ok_change_record ok_set_lifecycle
        split: option.split sum.split prod.split)
qed

lemma activate_ok: "manager_ok mg \<Longrightarrow> manager_ok (fst (activate env mg pid))"
  by (auto simp: activate_def Let_def ok_change_record ok_set_lifecycle ok_loaded
      split: option.split sum.split simp del: set_lifecycle_simps change_record_simps)
    (use ok_loaded in \<open>auto simp: ok_change_record\<close>)

lemma deactivate_eq:
  "\<exists>s. fst (deactivate mg pid) = change_record pid (\<lambda>r. r\<lparr>pr_status := s\<rparr>)
     (set_lifecycle pid s (mg\<lparr>px_active := AList.delete pid (px_active mg)\<rparr>))"
proof -
  have "\<exists>s. transition t ''deactivated'' = Inr s" for t
    by (cases t) (simp_all add: transition_def plugin_states_def can_move_def)
  then obtain s where "transition (lifecycle_of mg pid) ''deactivated'' = Inr s" by blast
  then show ?thesis by (auto simp: deactivate_def Let_def)
qed

lemma ok_forget: "manager_ok mg \<Longrightarrow> manager_ok (mg\<lparr>px_active := AList.delete pid (px_active mg)\<rparr>)"
  by (simp add: manager_ok_def) blast

lemma deactivate_ok:
  assumes "manager_ok mg"
  shows "manager_ok (fst (deactivate mg pid))"
proof -
  obtain s where s: "fst (deactivate mg pid) = change_record pid (\<lambda>r. r\<lparr>pr_status := s\<rparr>)
     (set_lifecycle pid s (mg\<lparr>px_active := AList.delete pid (px_active mg)\<rparr>))"
    using deactivate_eq by blast
  show ?thesis unfolding s by (intro ok_change_record ok_set_lifecycle ok_forget assms)
qed

lemma deactivate_gone: "map_of (px_active (fst (deactivate mg pid))) pid = None"
  using deactivate_eq [of mg pid] by auto

lemma remove_ok:
  assumes "manager_ok mg"
  shows "manager_ok (fst (remove_plugin env mg pid))"
proof -
  define mg0 where "mg0 = (if map_of (px_active mg) pid \<noteq> None then fst (deactivate mg pid) else mg)"
  define mg1 where "mg1 = (if locate mg0 pid \<noteq> None then remove_dir mg0 pid else mg0)"
  define mg2 where "mg2 = mg1\<lparr>px_registry := fst (registry_remove (px_registry mg1) pid),
      px_lifecycles := AList.delete pid (px_lifecycles mg1), px_manifests := AList.delete pid (px_manifests mg1)\<rparr>"
  have "manager_ok mg0" using assms deactivate_ok by (simp add: mg0_def)
  then have "manager_ok mg1" by (simp add: mg1_def ok_remove_dir)
  moreover have "map_of (px_active mg1) pid = None"
    using deactivate_gone [of mg pid] by (auto simp: mg1_def mg0_def)
  ultimately have "manager_ok mg2"
    by (auto simp: mg2_def manager_ok_def registry_ok_remove map_of_eq_None_iff)
  then have "manager_ok (mg2\<lparr>px_permissions := fst (permission_revoke (px_permissions mg2) pid (xe_stored env))\<rparr>)"
    by (intro ok_permissions dict_ok_revoke manager_tokens_ok)
  moreover have "fst (remove_plugin env mg pid)
      = mg2\<lparr>px_permissions := fst (permission_revoke (px_permissions mg2) pid (xe_stored env))\<rparr>"
    unfolding remove_plugin_def Let_def mg0_def [symmetric] mg1_def [symmetric] mg2_def [symmetric]
    by (simp split: prod.split sum.split)
  ultimately show ?thesis by simp
qed

lemma ok_bus: "manager_ok mg \<Longrightarrow> manager_ok (mg\<lparr>px_bus := bus_record (px_bus mg) ev\<rparr>)"
  by (simp add: manager_ok_def bus_ok_record)

lemma replace_ok: "manager_ok mg \<Longrightarrow> manager_ok (fst (replace_plugin env mg pid t))"
  unfolding replace_plugin_def Let_def
  by (simp add: remove_ok install_ok activate_ok deactivate_ok)

text \<open>
  C33: Every operation of the plugin manager keeps its state well formed: the dictionaries have no key twice, a plugin
  that is active has a lifecycle, a row of the registry carries the key it is stored under, and the event bus
  knows only the product's event types and at most 200 past events.
\<close>

theorem manager_well_formed:
  assumes "manager_ok mg"
  shows "manager_ok (fst (manager_step env mg op)) \<and> manager_ok (fst (dispatch run mg s pid call))
    \<and> (\<forall>mg' s' rs. emit_event run mg s ev = Inr (mg', s', rs) \<longrightarrow> manager_ok mg')"
proof (intro conjI allI impI)
  show "manager_ok (fst (manager_step env mg op))"
    using assms update_cases [of env mg] replace_ok [OF assms]
    by (cases op) (auto simp: install_ok validate_installed_ok approve_ok activate_ok deactivate_ok remove_ok, metis)
  have disp: "manager_ok (fst (dispatch run m s pid call))" if "manager_ok m" for m s pid call
    using that by (auto simp: dispatch_def manager_ok_def registry_ok_touch split: option.split prod.split)
  then show "manager_ok (fst (dispatch run mg s pid call))" using assms .
  have all: "manager_ok (fst (dispatch_all run m s pids ev))" if "manager_ok m" for m s pids
    using that
  proof (induction pids arbitrary: m s)
    case (Cons p pids)
    obtain m1 s1 r where d: "dispatch run m s p (On_Event ev) = (m1, s1, r)" by (metis prod_cases3)
    with disp [OF Cons.prems, of s p "On_Event ev"] have "manager_ok m1" by simp
    from Cons.IH [OF this, of s1] d show ?case by (auto split: prod.splits)
  qed simp
  fix mg' s' rs
  assume "emit_event run mg s ev = Inr (mg', s', rs)"
  then obtain m1 where "fst (dispatch_all run mg s (handlers_for (px_bus mg) (ev_type ev)) ev) = m1"
    "mg' = m1\<lparr>px_bus := bus_record (px_bus m1) ev\<rparr>"
    by (auto simp: emit_event_def split: if_splits prod.splits)
  with all [OF assms] ok_bus show "manager_ok mg'" by metis
qed


section \<open>What goes wrong\<close>

definition manager_new :: "bool \<Rightarrow> (string \<times> plugin_tree) list \<Rightarrow> (string \<times> plugin_tree) list \<Rightarrow> plugin_manager" where
  "manager_new storage official dir =
     \<lparr>px_official = official, px_dir = dir, px_registry = \<lparr>rg_plugins = [], rg_metrics = []\<rparr>,
      px_permissions = permissions_new storage None, px_bus = bus_new, px_active = [], px_lifecycles = [],
      px_manifests = []\<rparr>"

lemma manager_new_simps [simp]:
  "px_official (manager_new st off d) = off" "px_dir (manager_new st off d) = d"
  "px_bus (manager_new st off d) = bus_new" "px_active (manager_new st off d) = []"
  "px_lifecycles (manager_new st off d) = []"
  by (simp_all add: manager_new_def)

lemma manager_new_ok: "dict_ok official \<Longrightarrow> dict_ok dir \<Longrightarrow> manager_ok (manager_new storage official dir)"
  by (simp add: manager_ok_def manager_new_def permissions_new_def registry_ok_def bus_ok_def bus_new_def)

definition demo_env :: plugin_env where
  "demo_env = \<lparr>xe_now = 0, xe_token = ''t'', xe_stored = True, xe_sha = (\<lambda>bs. []), xe_sdk = (\<lambda>t. True),
     xe_legacy = (\<lambda>t. None)\<rparr>"

theorem manager_well_formed_witness:
  "manager_ok (fst (manager_step demo_env (manager_new True [] []) (Activate_Op ''demo'')))"
  by (rule conjunct1 [OF manager_well_formed]) (simp add: manager_new_ok)

text \<open>The token is looked at when a plugin is activated, and never again by the manager.\<close>

lemma dispatch_ignores_permissions:
  "snd (dispatch run (mg\<lparr>px_permissions := pm\<rparr>) s pid call) = snd (dispatch run mg s pid call)"
  by (simp add: dispatch_def split: option.split prod.split)

text \<open>
  Revoking the token of an active plugin does not stop it: events and commands reach it as before, and get
  the same answer, whatever tokens there are.
\<close>

theorem revoked_plugin_runs:
  "snd (dispatch run (mg\<lparr>px_permissions := fst (permission_revoke (px_permissions mg) pid stored)\<rparr>) s pid call)
   = snd (dispatch run mg s pid call)"
  by (rule dispatch_ignores_permissions)

text \<open>
  The trust score believes the manifest: any text for checksum, signature and key makes a plugin without risky
  permissions official, although nothing was verified.
\<close>

theorem forged_official:
  "certification_for (compute_trust
     (sample_manifest\<lparr>mf_checksum := ''x'', mf_signature := ''x'', mf_publisher_key := ''x''\<rparr>) 0 0) = ''official''"
  by code_simp

section \<open>Concrete plugins\<close>

definition demo_text :: "string list \<Rightarrow> string list \<Rightarrow> string" where
  "demo_text perms evs =
     json_compact (PDict [(''id'', PStr ''demo''), (''name'', PStr ''Demo''), (''permissions'', PList (map PStr perms)),
       (''events'', PList (map PStr evs))])"

definition demo_tree :: "string list \<Rightarrow> string list \<Rightarrow> plugin_tree" where
  "demo_tree perms evs =
     \<lparr>tr_is_dir = True, tr_files = [(manifest_name, demo_text perms evs), (''plugin.py'', ''import os'')], tr_links = [],
      tr_outside = (\<lambda>p. None)\<rparr>"

definition demo_manifest :: "string list \<Rightarrow> string list \<Rightarrow> plugin_manifest" where
  "demo_manifest perms evs =
     \<lparr>mf_id = ''demo'', mf_name = ''Demo'', mf_version = ''1.0.0'', mf_author = ''unknown'', mf_description = [],
      mf_entrypoint = ''plugin.py'', mf_capabilities = [], mf_permissions = perms, mf_events = evs,
      mf_dependencies = [], mf_publisher_key = [], mf_signature = [], mf_checksum = []\<rparr>"

lemma demo_loads:
  "load_manifest (demo_tree [] [''sentinel.start'']) = Inr (demo_manifest [] [''sentinel.start''])"
  "load_manifest (demo_tree [''system.read''] []) = Inr (demo_manifest [''system.read''] [])"
  by code_simp+

lemma demo_small:
  "length (demo_text [] [''sentinel.start'']) < 1000" "length (demo_text [''system.read''] []) < 1000"
  "length (unsigned_manifest (demo_text [] [''sentinel.start''])) < 1000"
  "length (unsigned_manifest (demo_text [''system.read''] [])) < 1000"
  by code_simp+

lemma demo_accepted: "acceptable_manifest (demo_manifest [] [''sentinel.start''])"
  "acceptable_manifest (demo_manifest [''system.read''] [])"
  by code_simp+

lemma demo_valid:
  assumes "length (demo_text perms evs) < 1000" and "length (unsigned_manifest (demo_text perms evs)) < 1000"
    and "acceptable_manifest (demo_manifest perms evs)"
  shows "\<exists>r. validate_plugin sha (demo_tree perms evs) (Some (demo_manifest perms evs)) = Inr r \<and> rp_valid r"
proof -
  have "source_issues ''import os'' = []" by code_simp
  moreover have "manifest_issues (demo_manifest perms evs) = []"
    "unknown_permissions (mf_permissions (demo_manifest perms evs)) = []"
    using assms(3) manifest_issues_none by blast+
  ultimately have "tree_issues (demo_tree perms evs) (demo_manifest perms evs) = []"
    using assms(1) by (simp add: tree_issues_def demo_tree_def read_path_def demo_manifest_def max_plugin_files_def
        max_plugin_bytes_def tree_bytes_def manifest_name_def)
  moreover have "framed_all (hashed_files (demo_tree perms evs)) \<noteq> None"
    using assms(2) by (simp add: hashed_files_def demo_tree_def manifest_name_def framed_def to_bytes_def)
  ultimately show ?thesis
    by (auto simp: validate_plugin_def calculate_checksum_def demo_tree_def)
qed

lemmas demo_valids = demo_valid [OF demo_small(1,3) demo_accepted(1)] demo_valid [OF demo_small(2,4) demo_accepted(2)]

lemma locate_demo: "map_of (px_official mg) ''demo'' = None \<Longrightarrow> map_of (px_dir mg) ''demo'' = Some (demo_tree ps es)
    \<Longrightarrow> locate mg ''demo'' = Some (demo_tree ps es)"
  by (simp add: locate_def demo_tree_def)

lemma load_demo: "load_plugin demo_env (demo_tree ps es) (demo_manifest ps' es')
    = Some \<lparr>ld_code = Sdk_Plugin, ld_events = es'\<rparr>"
  by (simp add: load_plugin_def demo_tree_def demo_manifest_def read_path_def demo_env_def manifest_name_def)

lemma activate_demo:
  assumes "map_of (px_official mg) ''demo'' = None"
    and "map_of (px_dir mg) ''demo'' = Some (demo_tree [] [''sentinel.start''])"
  shows "activate demo_env mg ''demo'' =
    (change_record ''demo'' (\<lambda>r. r\<lparr>pr_status := STATE_ACTIVE\<rparr>)
       (set_lifecycle ''demo'' (move_lifecycle STATE_ACTIVE (lifecycle_of mg ''demo'')) mg
          \<lparr>px_active := AList.update ''demo'' \<lparr>ld_code = Sdk_Plugin, ld_events = [''sentinel.start'']\<rparr> (px_active mg),
           px_bus := subscribe_events ''demo'' [''sentinel.start''] (px_bus mg)\<rparr>),
     Inr (Activated (move_lifecycle STATE_ACTIVE (lifecycle_of mg ''demo''))))"
proof -
  obtain r where "validate_plugin (xe_sha demo_env) (demo_tree [] [''sentinel.start''])
      (Some (demo_manifest [] [''sentinel.start''])) = Inr r" "rp_valid r"
    using demo_valids(1) by blast
  moreover have "missing_permissions demo_env mg ''demo'' (demo_manifest [] [''sentinel.start'']) = []"
    by (simp add: missing_permissions_def demo_manifest_def)
  ultimately show ?thesis
    using activate_eq [OF locate_demo [OF assms] demo_loads(1) _ _ _ load_demo] by simp
qed

theorem activation_gated_witness:
  "cleared demo_env (fst (manager_step demo_env
     (manager_new True [] [(''demo'', demo_tree [] [''sentinel.start''])]) (Activate_Op ''demo''))) ''demo''
     \<lparr>ld_code = Sdk_Plugin, ld_events = [''sentinel.start'']\<rparr>"
  using activation_gated [of demo_env "manager_new True [] [(''demo'', demo_tree [] [''sentinel.start''])]"
      "Activate_Op ''demo''" "''demo''" "\<lparr>ld_code = Sdk_Plugin, ld_events = [''sentinel.start'']\<rparr>"]
    activate_demo [of "manager_new True [] [(''demo'', demo_tree [] [''sentinel.start''])]"]
  by (simp add: manager_new_def)

text \<open>
  Deactivating a plugin leaves its handlers on the event bus, and activating it again adds them once more: from
  then on the plugin handles every event twice.
\<close>

theorem reactivated_plugin_runs_twice:
  "handlers_for (px_bus (fst (activate demo_env (fst (deactivate (fst (activate demo_env
     (manager_new True [] [(''demo'', demo_tree [] [''sentinel.start''])]) ''demo'')) ''demo'')) ''demo'')))
     ''sentinel.start'' = [''demo'', ''demo'']"
proof -
  let ?m0 = "manager_new True [] [(''demo'', demo_tree [] [''sentinel.start''])]"
  let ?m1 = "fst (activate demo_env ?m0 ''demo'')"
  let ?m2 = "fst (deactivate ?m1 ''demo'')"
  note a0 = activate_demo [of ?m0, simplified]
  have m1: "px_bus ?m1 = subscribe_events ''demo'' [''sentinel.start''] (px_bus ?m0)"
    "px_official ?m1 = px_official ?m0" "px_dir ?m1 = px_dir ?m0"
    by (simp_all add: a0)
  obtain s where m2: "?m2 = change_record ''demo'' (\<lambda>r. r\<lparr>pr_status := s\<rparr>)
     (set_lifecycle ''demo'' s (?m1\<lparr>px_active := AList.delete ''demo'' (px_active ?m1)\<rparr>))"
    using deactivate_eq by blast
  have "px_bus ?m2 = px_bus ?m1" "px_official ?m2 = []" "px_dir ?m2 = [(''demo'', demo_tree [] [''sentinel.start''])]"
    unfolding m2 by (simp_all add: m1)
  with activate_demo [of ?m2] show ?thesis
    by (simp add: m1 bus_new_def bus_subscribe_def plugin_event_types_def handlers_for_def)
qed

lemma revoked_holds_nothing:
  "permission_revoke pm pid stored = (pm', Inr b) \<Longrightarrow> \<not> has_permission pm' pid p now"
  by (auto simp: permission_revoke_def has_permission_def token_for_def Let_def split: option.splits if_splits)

lemma blocked_activation:
  assumes "locate mg pid = Some t" and "load_manifest t = Inr m" and "p \<in> set (mf_permissions m)"
    and "\<not> has_permission (px_permissions mg) pid p (xe_now env)"
  shows "px_active (fst (activate env mg pid)) = px_active mg"
proof -
  have "missing_permissions env mg pid m \<noteq> []"
    using assms(3,4) by (auto simp: missing_permissions_def filter_empty_conv)
  with assms(1,2) show ?thesis by (simp add: activate_def Let_def split: sum.split)
qed

lemma remove_outcome:
  assumes "remove_plugin env mg pid = (mg', Inr b)"
  shows "map_of (px_active mg') pid = None" and "locate mg' pid = None \<or> (\<exists>t. map_of (px_dir mg') pid = Some t)"
    and "\<not> has_permission (px_permissions mg') pid p now"
    and "map_of (px_dir mg') pid = None \<Longrightarrow> locate mg' pid = None"
proof -
  define mg0 where "mg0 = (if map_of (px_active mg) pid \<noteq> None then fst (deactivate mg pid) else mg)"
  define mg1 where "mg1 = (if locate mg0 pid \<noteq> None then remove_dir mg0 pid else mg0)"
  define mg2 where "mg2 = mg1\<lparr>px_registry := fst (registry_remove (px_registry mg1) pid),
      px_lifecycles := AList.delete pid (px_lifecycles mg1), px_manifests := AList.delete pid (px_manifests mg1)\<rparr>"
  obtain pm c where r: "permission_revoke (px_permissions mg2) pid (xe_stored env) = (pm, Inr c)"
    and mg': "mg' = mg2\<lparr>px_permissions := pm\<rparr>"
    using assms unfolding remove_plugin_def Let_def mg0_def [symmetric] mg1_def [symmetric] mg2_def [symmetric]
    by (auto split: prod.splits sum.splits)
  show "map_of (px_active mg') pid = None"
    using deactivate_gone [of mg pid] by (auto simp: mg' mg2_def mg1_def mg0_def)
  show "\<not> has_permission (px_permissions mg') pid p now"
    using revoked_holds_nothing [OF r] by (simp add: mg')
  have l: "locate mg' pid = locate mg1 pid" by (rule locate_cong) (simp_all add: mg' mg2_def)
  show gone: "locate mg' pid = None" if "map_of (px_dir mg') pid = None"
    using that unfolding l
    by (auto simp: mg' mg2_def mg1_def locate_def remove_dir_def Let_def split: option.splits if_splits)
  then show "locate mg' pid = None \<or> (\<exists>t. map_of (px_dir mg') pid = Some t)"
    by (cases "map_of (px_dir mg') pid") auto
qed

lemma install_outcome:
  assumes "install env mg source (Some pid) = (mg', Inr (Installed i))" and "pid \<noteq> []"
  shows "map_of (px_dir mg) pid = None" and "px_dir mg' = AList.update pid source (px_dir mg)"
    and "px_official mg' = px_official mg" and "px_active mg' = px_active mg" and "px_permissions mg' = px_permissions mg"
    and "i = pid" and "tr_is_dir source" and "map_of (tr_files source) manifest_name \<noteq> None"
  using assms by (auto simp: install_def load_manifest_def Let_def split: sum.splits if_splits option.splits)

text \<open>
  Updating a plugin revokes its token with the removal of the old version, and the failed activation that
  follows is not reported: when the new version asks for any permission, a plugin that was active is not active
  after an update that was answered as installed.
\<close>

theorem update_drops_plugin:
  assumes "update_plugin env mg pid source = (mg', Inr (Installed i))"
    and "load_manifest source = Inr m" and "mf_permissions m \<noteq> []"
  shows "map_of (px_active mg') pid = None"
proof -
  from assms(1,2) have pid: "mf_id m = pid" and rep: "replace_plugin env mg pid source = (mg', Inr (Installed i))"
    and val: "\<exists>r. validate_plugin (xe_sha env) source (Some m) = Inr r \<and> rp_valid r"
    by (auto simp: update_plugin_def split: option.splits sum.splits if_splits)
  have "pid \<noteq> []" using val validation_exact pid by (auto simp: acceptable_manifest_def plugin_id_ok_def)
  define mg1 where "mg1 = (if map_of (px_active mg) pid \<noteq> None then fst (deactivate mg pid) else mg)"
  obtain mg2 b where rem: "remove_plugin env mg1 pid = (mg2, Inr b)"
    using rep unfolding replace_plugin_def Let_def mg1_def [symmetric]
    by (cases "remove_plugin env mg1 pid"; cases "snd (remove_plugin env mg1 pid)") (auto split: if_splits)
  obtain mg3 y where ins: "install env mg2 source (Some pid) = (mg3, y)" by fastforce
  note gone = remove_outcome [OF rem]
  show ?thesis
  proof (cases "y = Inr (Installed pid) \<and> map_of (px_active mg) pid \<noteq> None")
    case False
    with rep have "mg' = mg3" unfolding replace_plugin_def Let_def mg1_def [symmetric] by (auto simp: rem ins)
    with gone(1) install_active [of env mg2 source "Some pid"] ins show ?thesis by simp
  next
    case True
    with rep have mg': "mg' = fst (activate env mg3 pid)"
      unfolding replace_plugin_def Let_def mg1_def [symmetric] by (auto simp: rem ins)
    note new = install_outcome [OF ins [unfolded conjunct1 [OF True]] \<open>pid \<noteq> []\<close>]
    have "locate mg3 pid = Some source"
      using gone(4) [OF new(1)] new by (auto simp: locate_def Let_def split: option.splits if_splits)
    moreover obtain p where "p \<in> set (mf_permissions m)" using assms(3) by (cases "mf_permissions m") auto
    moreover have "\<not> has_permission (px_permissions mg3) pid p (xe_now env)" using gone(3) new(5) by simp
    ultimately show ?thesis
      using blocked_activation [OF _ assms(2)] gone(1) new(4) by (simp add: mg')
  qed
qed

lemma remove_succeeds:
  assumes "xe_stored env" and "map_of (px_official mg) pid = None" and "map_of (px_active mg) pid = None"
  shows "\<exists>mg' b. remove_plugin env mg pid = (mg', Inr b) \<and> map_of (px_official mg') pid = None
    \<and> (locate mg pid \<noteq> None \<longrightarrow> map_of (px_dir mg') pid = None)"
  using assms by (auto simp: remove_plugin_def permission_revoke_def remove_dir_def Let_def split: option.split)

lemma install_succeeds:
  assumes "load_manifest source = Inr m" and "mf_id m = pid" and "pid \<noteq> []" and "tr_is_dir source"
    and "validate_plugin (xe_sha env) source (Some m) = Inr r" and "rp_valid r" and "map_of (px_dir mg) pid = None"
  shows "snd (install env mg source (Some pid)) = Inr (Installed pid)"
proof -
  have same: "m\<lparr>mf_id := pid\<rparr> = m" using assms(2) by simp
  show ?thesis
    using assms unfolding install_def Let_def option.case if_not_P [OF assms(3)] assms(1) sum.case same by simp
qed

definition active_demo :: plugin_manager where
  "active_demo = fst (activate demo_env (manager_new True [] [(''demo'', demo_tree [] [''sentinel.start''])]) ''demo'')"

lemma active_demo_simps:
  "px_official active_demo = []" "px_dir active_demo = [(''demo'', demo_tree [] [''sentinel.start''])]"
  "map_of (px_active active_demo) ''demo'' \<noteq> None"
  unfolding active_demo_def
  using activate_demo [of "manager_new True [] [(''demo'', demo_tree [] [''sentinel.start''])]", simplified] by simp_all

lemma demo_update: "\<exists>mg'. update_plugin demo_env active_demo ''demo'' (demo_tree [''system.read''] []) = (mg', Inr (Installed ''demo''))"
proof -
  let ?new = "demo_tree [''system.read''] []" and ?m = "demo_manifest [''system.read''] []"
  define mg1 where "mg1 = fst (deactivate active_demo ''demo'')"
  have mg1: "px_official mg1 = []" "px_dir mg1 = [(''demo'', demo_tree [] [''sentinel.start''])]"
    using deactivate_eq [of active_demo "''demo''"] by (auto simp: mg1_def active_demo_simps)
  have "locate mg1 ''demo'' \<noteq> None" using mg1 by (simp add: locate_demo)
  with remove_succeeds [of demo_env mg1 "''demo''"] mg1 deactivate_gone [of active_demo "''demo''"]
  obtain mg2 b where rem: "remove_plugin demo_env mg1 ''demo'' = (mg2, Inr b)"
    and mg2: "map_of (px_official mg2) ''demo'' = None" "map_of (px_dir mg2) ''demo'' = None"
    by (auto simp: demo_env_def mg1_def)
  obtain r where r: "validate_plugin (xe_sha demo_env) ?new (Some ?m) = Inr r" "rp_valid r" using demo_valids(2) by blast
  have tree: "tr_is_dir ?new" by (simp add: demo_tree_def)
  have id: "mf_id ?m = ''demo''" by (simp add: demo_manifest_def)
  from install_succeeds [OF demo_loads(2) id _ tree r mg2(2)]
  obtain mg3 where ins: "install demo_env mg2 ?new (Some ''demo'') = (mg3, Inr (Installed ''demo''))"
    by (metis list.distinct(1) prod.collapse)
  note new = install_outcome [OF ins]
  have loc: "locate mg3 ''demo'' = Some ?new" using new(2,3) mg2 by (intro locate_demo) simp_all
  have "\<not> has_permission (px_permissions mg3) ''demo'' ''system.read'' (xe_now demo_env)"
    using remove_outcome(3) [OF rem] new(5) by simp
  then have "missing_permissions demo_env mg3 ''demo'' ?m \<noteq> []"
    by (auto simp: missing_permissions_def filter_empty_conv demo_manifest_def)
  then have "\<exists>x. snd (activate demo_env mg3 ''demo'') = Inr x"
    using r unfolding activate_def Let_def by (simp add: loc demo_loads(2))
  moreover have "update_plugin demo_env active_demo ''demo'' ?new = replace_plugin demo_env active_demo ''demo'' ?new"
    using r id by (simp add: update_plugin_def locate_demo active_demo_simps demo_loads(2))
  ultimately show ?thesis
    using active_demo_simps(3) unfolding replace_plugin_def Let_def
    by (auto simp: mg1_def [symmetric] rem ins)
qed

theorem update_drops_plugin_witness:
  "map_of (px_active active_demo) ''demo'' \<noteq> None
   \<and> map_of (px_active (fst (update_plugin demo_env active_demo ''demo'' (demo_tree [''system.read''] [])))) ''demo'' = None"
proof -
  obtain mg' where u: "update_plugin demo_env active_demo ''demo'' (demo_tree [''system.read''] []) = (mg', Inr (Installed ''demo''))"
    using demo_update by blast
  have "mf_permissions (demo_manifest [''system.read''] []) \<noteq> []" by (simp add: demo_manifest_def)
  from update_drops_plugin [OF u demo_loads(2) this] u active_demo_simps(3) show ?thesis by simp
qed

end
