(* ===== verification/Clarification.thy ===== *)
theory Clarification
  imports Confirmation
begin

text \<open>
  Clarifications: questions that are put to the user when a request is ambiguous. The store of the records
  (\<open>sidecar/repositories/clarification_store.py\<close>), the contract of a continuation
  (\<open>sidecar/services/clarification_continuation.py\<close>) and the service that creates, resolves and cancels them
  (\<open>sidecar/services/clarification_service.py\<close>). Timestamps, which the code compares as ISO texts, are
  rationals; identifiers that the code draws are arguments. The JSON files mirror the dictionaries in memory and
  are not modelled, nor are the wording of the question and its language.
\<close>

section \<open>The store\<close>

datatype clarification_state = Asked | Cancelled_State | Expired_State | Superseded_State | Consumed_State

record candidate =
  cd_id :: string
  cd_label :: string

record clarification =
  cl_id :: string
  cl_correlation :: string
  cl_session :: string
  cl_user :: string
  cl_request :: string
  cl_decision :: string
  cl_understanding :: string
  cl_ambiguity :: string
  cl_candidates :: "candidate list"
  cl_free_text :: bool
  cl_risk :: string
  cl_created :: rat
  cl_expires :: rat
  cl_answered :: "rat option"
  cl_selected :: string
  cl_response :: string
  cl_state :: clarification_state
  cl_version :: nat
  cl_resolved_utterance :: string
  cl_resolved_target :: string
  cl_resolved_action :: string
  cl_continuation :: string

text \<open>The dictionary is keyed by the identifiers of its records: it is the list of these, in insertion order.\<close>

type_synonym clarifications = "clarification list"

definition clarification_get :: "clarifications \<Rightarrow> string \<Rightarrow> clarification option" where
  "clarification_get d cid = find (\<lambda>c. cl_id c = cid) d"

definition store_record :: "clarification \<Rightarrow> clarifications \<Rightarrow> clarifications" where
  "store_record c d =
     (if cl_id c \<in> set (map cl_id d) then map (\<lambda>c'. if cl_id c' = cl_id c then c else c') d else d @ [c])"

definition max_retained :: nat where "max_retained = 256"

definition clarification_expired :: "clarification \<Rightarrow> rat \<Rightarrow> bool" where
  "clarification_expired c now \<longleftrightarrow> cl_expires c < now"

definition is_open :: "clarification \<Rightarrow> rat \<Rightarrow> bool" where
  "is_open c now \<longleftrightarrow> cl_state c = Asked \<and> \<not> clarification_expired c now"

definition compact_records :: "rat \<Rightarrow> clarifications \<Rightarrow> clarifications" where
  \<comment> \<open>the oldest finished records go, the newest stay; open ones stay always\<close>
  "compact_records now d =
     (let active = filter (\<lambda>c. is_open c now) d; finished = filter (\<lambda>c. \<not> is_open c now) d
      in if length active + length finished \<le> max_retained then d
         else (let keep = take (max_retained - length active) (sort_key (\<lambda>c. - cl_created c) finished)
               in filter (\<lambda>c. cl_id c \<in> cl_id ` (set active \<union> set keep)) d))"

definition clarification_put :: "rat \<Rightarrow> clarification \<Rightarrow> clarifications \<Rightarrow> clarifications" where
  "clarification_put now c d = compact_records now (store_record c d)"

definition pending_for :: "string \<Rightarrow> string \<Rightarrow> clarification \<Rightarrow> bool" where
  "pending_for session user c \<longleftrightarrow> cl_session c = session \<and> cl_user c = user \<and> cl_state c = Asked"

definition get_pending :: "rat \<Rightarrow> string \<Rightarrow> string \<Rightarrow> clarifications \<Rightarrow> clarifications \<times> clarification list" where
  "get_pending now session user d =
     (map (\<lambda>c. if pending_for session user c \<and> clarification_expired c now then c\<lparr>cl_state := Expired_State\<rparr> else c) d,
      filter (\<lambda>c. pending_for session user c \<and> \<not> clarification_expired c now) d)"

definition clear_expired :: "rat \<Rightarrow> clarifications \<Rightarrow> clarifications \<times> nat" where
  "clear_expired now d =
     (map (\<lambda>c. if cl_state c = Asked \<and> clarification_expired c now then c\<lparr>cl_state := Expired_State\<rparr> else c) d,
      length (filter (\<lambda>c. cl_state c = Asked \<and> clarification_expired c now) d))"

definition supersede_pending :: "string \<Rightarrow> string \<Rightarrow> string \<Rightarrow> clarifications \<Rightarrow> clarifications \<times> nat" where
  "supersede_pending session user request d =
     (map (\<lambda>c. if pending_for session user c \<and> cl_request c \<noteq> request then c\<lparr>cl_state := Superseded_State\<rparr> else c) d,
      length (filter (\<lambda>c. pending_for session user c \<and> cl_request c \<noteq> request) d))"


section \<open>Continuations\<close>

datatype continuation_state =
    Created | Replanning | Clarification_Again | Awaiting_Confirmation | Authorized | Executing | Verified_Completed
  | Continuation_Failed | Interrupted | Continuation_Cancelled | Continuation_Expired | Continuation_Superseded
  | Continuation_Denied | Clarification_Pending | Clarification_Resolved

fun next_states :: "continuation_state \<Rightarrow> continuation_state list" where
  \<comment> \<open>the table of \<open>transition\<close>; the states that it does not list have no successor\<close>
  "next_states Created = [Replanning, Continuation_Cancelled, Continuation_Expired]"
| "next_states Replanning =
     [Awaiting_Confirmation, Clarification_Again, Continuation_Denied, Continuation_Failed, Continuation_Cancelled]"
| "next_states Clarification_Again = [Replanning, Continuation_Cancelled, Continuation_Expired]"
| "next_states Awaiting_Confirmation =
     [Replanning, Authorized, Continuation_Denied, Continuation_Cancelled, Continuation_Expired]"
| "next_states Authorized = [Executing, Continuation_Cancelled]"
| "next_states Executing = [Verified_Completed, Continuation_Failed, Interrupted, Continuation_Cancelled]"
| "next_states _ = []"

record change_flags =
  ch_intent :: bool
  ch_tool :: bool
  ch_target :: bool
  ch_scope :: bool
  ch_arguments :: bool
  ch_provider :: bool
  ch_data_class :: bool
  ch_cost :: bool
  ch_risk :: bool
  ch_destructive :: bool

definition no_change :: change_flags where
  "no_change = \<lparr>ch_intent = False, ch_tool = False, ch_target = False, ch_scope = False, ch_arguments = False,
     ch_provider = False, ch_data_class = False, ch_cost = False, ch_risk = False, ch_destructive = False\<rparr>"

definition any_change :: "change_flags \<Rightarrow> bool" where
  "any_change f \<longleftrightarrow> ch_intent f \<or> ch_tool f \<or> ch_target f \<or> ch_scope f \<or> ch_arguments f \<or> ch_provider f
     \<or> ch_data_class f \<or> ch_cost f \<or> ch_risk f \<or> ch_destructive f"

datatype continuation_event =
    Continuation_Made
  | Continuation_Started rat
  | Replanning_Complete string
  | Confirmation_Denied string
  | Material_Change_Detected
  | Confirmation_Accepted string
  | Execution_Verified string
  | Continuation_Failure string
  | Continuation_Dropped string

record continuation =
  co_id :: string
  co_request :: string
  co_correlation :: string
  co_clarification :: string
  co_clarification_version :: nat
  co_selected :: string
  co_response :: string
  co_utterance :: string
  co_target :: string
  co_from_candidate :: bool
  co_user :: string
  co_session :: string
  co_created :: rat
  co_flags :: change_flags
  co_prior_action :: string
  co_prior_argument :: string
  co_plan_digest :: string
  co_confirmation :: string
  co_new_correlation :: string
  co_parent :: string
  co_state :: continuation_state
  co_version :: nat
  co_key :: string
  co_summary :: string
  co_execution :: string
  co_started :: "rat option"
  co_completed :: "rat option"
  co_events :: "continuation_event list"

definition continuation_move :: "continuation_state \<Rightarrow> continuation \<Rightarrow> continuation \<times> bool" where
  "continuation_move t c =
     (if t \<notin> set (next_states (co_state c)) then (c, False)
      else (c\<lparr>co_state := t, co_version := co_version c + 1\<rparr>, True))"

abbreviation moved_to :: "continuation_state \<Rightarrow> continuation \<Rightarrow> continuation" where
  \<comment> \<open>a transition whose answer is not looked at\<close>
  "moved_to t c \<equiv> fst (continuation_move t c)"

definition add_event :: "continuation_event \<Rightarrow> continuation \<Rightarrow> continuation" where
  "add_event e c = c\<lparr>co_events := co_events c @ [e]\<rparr>"

type_synonym continuations = "(string \<times> continuation) list"

definition continuation_put :: "continuation \<Rightarrow> continuations \<Rightarrow> continuations" where
  "continuation_put c d = AList.update (co_id c) c d"

definition pending_continuations :: "string \<Rightarrow> string \<Rightarrow> continuations \<Rightarrow> continuation list" where
  "pending_continuations session user d =
     filter (\<lambda>c. co_session c = session \<and> co_user c = user
       \<and> co_state c \<in> {Created, Replanning, Awaiting_Confirmation, Authorized}) (map snd d)"

record clarification_system =
  sy_records :: clarifications
  sy_continuations :: continuations
  sy_grants :: grant_db

fun squeeze :: "string \<Rightarrow> string" where
  \<comment> \<open>\<open>re.sub(r"\s+", " ", s)\<close>\<close>
  "squeeze [] = []"
| "squeeze (c # cs) =
     (if is_space c then (case squeeze cs of CHR 0x20 # r \<Rightarrow> CHR 0x20 # r | r \<Rightarrow> CHR 0x20 # r) else c # squeeze cs)"

definition create_continuation :: "clarification_system \<Rightarrow> clarification \<Rightarrow> string \<Rightarrow> string \<Rightarrow> change_flags \<Rightarrow> string
    \<Rightarrow> string \<Rightarrow> string \<Rightarrow> rat \<Rightarrow> string \<Rightarrow> string \<Rightarrow> clarification_system \<times> continuation" where
  \<comment> \<open>an exception of the invalidation of earlier grants is swallowed; \<open>ts\<close> and \<open>ts'\<close> are the texts of the clock\<close>
  "create_continuation sy r utterance goal flags key cid ncid now ts ts' =
     (let parent = (if cl_request r = [] then cl_correlation r else cl_request r);
          c = add_event Continuation_Made
            \<lparr>co_id = cid, co_request = cl_request r, co_correlation = cl_correlation r, co_clarification = cl_id r,
             co_clarification_version = cl_version r, co_selected = cl_selected r, co_response = cl_response r,
             co_utterance = utterance, co_target = goal, co_from_candidate = (cl_selected r \<noteq> []), co_user = cl_user r,
             co_session = cl_session r, co_created = now, co_flags = flags, co_prior_action = cl_resolved_action r,
             co_prior_argument = cl_resolved_target r, co_plan_digest = [], co_confirmation = [],
             co_new_correlation = ncid, co_parent = parent, co_state = Created, co_version = 1, co_key = key,
             co_summary = [], co_execution = [], co_started = None, co_completed = None, co_events = []\<rparr>;
          db = (case invalidate_by_plan_id (sy_grants sy) parent (cl_session r)
                   ''prior_grant_invalidated_by_clarification''
                   [(''clarification_id'', PStr (cl_id r)), (''continuation_id'', PStr cid),
                    (''resolved_utterance'', PStr (take 200 (squeeze utterance)))]
                   [(''user_id'', PStr (cl_user r)), (''session_id'', PStr (cl_session r))] ts ts' of
                  Inr (db, n) \<Rightarrow> db | Inl e \<Rightarrow> sy_grants sy)
      in (sy\<lparr>sy_grants := db, sy_continuations := continuation_put c (sy_continuations sy)\<rparr>, c))"


section \<open>The service\<close>

definition clarification_ttl :: rat where "clarification_ttl = 3600"

record understanding =
  un_decision :: string
  un_targets :: "string list"
  un_ambiguity :: string
  un_risk :: string

definition make_candidates :: "string \<Rightarrow> string list \<Rightarrow> candidate list" where
  "make_candidates base targets =
     map (\<lambda>i. \<lparr>cd_id = base @ ''-c'' @ nat_str i, cd_label = targets ! i\<rparr>) [0 ..< length targets]"

record drawn =
  \<comment> \<open>what the code draws during one call\<close>
  dr_now :: rat
  dr_id :: string
  dr_correlation :: string
  dr_base :: string
  dr_time :: string
  dr_stamp :: string

definition create_clarification :: "clarification_system \<Rightarrow> drawn \<Rightarrow> understanding \<Rightarrow> string \<Rightarrow> bool \<Rightarrow> string \<Rightarrow> string
    \<Rightarrow> string \<Rightarrow> string \<Rightarrow> clarification_system \<times> clarification" where
  "create_clarification sy dr u decision_id ask session user request correlation =
     (let base = (if un_decision u \<noteq> [] then un_decision u else if correlation \<noteq> [] then correlation else dr_base dr);
          r = \<lparr>cl_id = dr_id dr, cl_correlation = (if correlation = [] then dr_correlation dr else correlation),
               cl_session = session, cl_user = user, cl_request = request, cl_decision = decision_id,
               cl_understanding = un_decision u, cl_ambiguity = un_ambiguity u,
               cl_candidates = make_candidates base (un_targets u), cl_free_text = ask, cl_risk = un_risk u,
               cl_created = dr_now dr, cl_expires = dr_now dr + clarification_ttl, cl_answered = None, cl_selected = [],
               cl_response = [], cl_state = Asked, cl_version = 1, cl_resolved_utterance = [],
               cl_resolved_target = [], cl_resolved_action = [], cl_continuation = []\<rparr>;
          d = fst (supersede_pending session user request (sy_records sy))
      in (sy\<lparr>sy_records := clarification_put (dr_now dr) r d\<rparr>, r))"

definition current_clarification :: "clarification_system \<Rightarrow> rat \<Rightarrow> string \<Rightarrow> string
    \<Rightarrow> clarification_system \<times> clarification option" where
  \<comment> \<open>\<open>get_pending_for_session\<close>: the newest pending one\<close>
  "current_clarification sy now session user =
     (case get_pending now session user (sy_records sy) of
        (d, rs) \<Rightarrow> (sy\<lparr>sy_records := d\<rparr>,
          case sort_key (\<lambda>r. - cl_created r) rs of [] \<Rightarrow> None | r # _ \<Rightarrow> Some r))"

definition answerable :: "clarification \<Rightarrow> string \<Rightarrow> string \<Rightarrow> string \<Rightarrow> nat \<Rightarrow> bool" where
  "answerable r session user correlation version \<longleftrightarrow>
     cl_state r = Asked \<and> cl_session r = session \<and> cl_user r = user \<and> cl_correlation r = correlation
     \<and> cl_version r = version"

definition cancel_clarification :: "clarification_system \<Rightarrow> rat \<Rightarrow> string \<Rightarrow> string \<Rightarrow> string \<Rightarrow> string \<Rightarrow> nat
    \<Rightarrow> clarification_system \<times> clarification option" where
  "cancel_clarification sy now cid session user correlation version =
     (case clarification_get (sy_records sy) cid of
        None \<Rightarrow> (sy, None)
      | Some r \<Rightarrow>
          if \<not> answerable r session user correlation version then (sy, None)
          else (let r' = r\<lparr>cl_answered := Some now, cl_state := Cancelled_State, cl_version := cl_version r + 1\<rparr>
                in (sy\<lparr>sy_records := clarification_put now r' (sy_records sy)\<rparr>, Some r')))"

definition chosen_label :: "clarification \<Rightarrow> string \<Rightarrow> string" where
  "chosen_label r sel = (case find (\<lambda>c. cd_id c = sel) (cl_candidates r) of Some c \<Rightarrow> cd_label c | None \<Rightarrow> [])"

definition answered_record :: "clarification \<Rightarrow> rat \<Rightarrow> string \<Rightarrow> string \<Rightarrow> clarification" where
  "answered_record r now sel free =
     (let r1 = r\<lparr>cl_selected := sel, cl_response := strip free, cl_answered := Some now,
               cl_version := cl_version r + 1\<rparr>;
          r2 = (if sel \<noteq> []
                then r1\<lparr>cl_resolved_target := chosen_label r sel,
                        cl_resolved_utterance := cl_ambiguity r @ '': '' @ chosen_label r sel\<rparr>
                else if free \<noteq> [] then r1\<lparr>cl_resolved_utterance := free\<rparr> else r1)
      in r2\<lparr>cl_resolved_action := ''proceed'', cl_state := Consumed_State\<rparr>)"

definition accept_answer :: "clarification_system \<Rightarrow> drawn \<Rightarrow> clarification \<Rightarrow> clarification_system \<times> clarification option" where
  \<comment> \<open>the end of \<open>resolve\<close>: the answer becomes a continuation and the record is stored\<close>
  "accept_answer sy dr r =
     (let flags = no_change\<lparr>ch_intent := True, ch_target := (cl_resolved_target r \<noteq> []), ch_arguments := (cl_response r \<noteq> [])\<rparr>;
          made = create_continuation sy r (cl_resolved_utterance r) (cl_resolved_target r) flags
            (cl_id r @ '':'' @ nat_str (cl_version r)) (dr_id dr) (dr_correlation dr) (dr_now dr) (dr_time dr) (dr_stamp dr);
          r' = r\<lparr>cl_continuation := co_id (snd made)\<rparr>
      in ((fst made)\<lparr>sy_records := clarification_put (dr_now dr) r' (sy_records (fst made))\<rparr>, Some r'))"

definition resolve_clarification :: "clarification_system \<Rightarrow> drawn \<Rightarrow> string \<Rightarrow> string \<Rightarrow> string \<Rightarrow> string \<Rightarrow> nat
    \<Rightarrow> string \<Rightarrow> string \<Rightarrow> clarification_system \<times> clarification option" where
  "resolve_clarification sy dr cid session user correlation version sel free =
     (case clarification_get (sy_records sy) cid of
        None \<Rightarrow> (sy, None)
      | Some r \<Rightarrow>
          if \<not> answerable r session user correlation version then (sy, None)
          else if cl_expires r < dr_now dr
          then (sy\<lparr>sy_records := clarification_put (dr_now dr) (r\<lparr>cl_state := Expired_State\<rparr>) (sy_records sy)\<rparr>, None)
          else if sel = ''none'' then cancel_clarification sy (dr_now dr) cid session user correlation version
          else if sel \<noteq> [] \<and> sel \<notin> set (map cd_id (cl_candidates r)) then (sy, None)
          else if sel = [] \<and> \<not> (cl_free_text r \<and> strip free \<noteq> []) then (sy, None)
          else
            accept_answer sy dr (answered_record r (dr_now dr) sel free))"


section \<open>Properties of the store\<close>

lemma compact_subset: "set (compact_records now d) \<subseteq> set d"
  by (auto simp: compact_records_def Let_def)

lemma compact_keeps_open: "c \<in> set d \<Longrightarrow> is_open c now \<Longrightarrow> c \<in> set (compact_records now d)"
  by (auto simp: compact_records_def Let_def)

lemma store_cases: "c' \<in> set (store_record c d) \<Longrightarrow> c' = c \<or> c' \<in> set d \<and> cl_id c' \<noteq> cl_id c"
  by (cases "c' = c") (auto simp: store_record_def image_iff split: if_splits)

lemma put_cases: "c' \<in> set (clarification_put now c d) \<Longrightarrow> c' = c \<or> c' \<in> set d \<and> cl_id c' \<noteq> cl_id c"
  using compact_subset store_cases unfolding clarification_put_def by blast

lemma get_found: "clarification_get d cid = Some c \<Longrightarrow> c \<in> set d \<and> cl_id c = cid"
  unfolding clarification_get_def by (auto dest: find_SomeD)

definition asked :: "clarification_system \<Rightarrow> string \<Rightarrow> bool" where
  "asked sy cid \<longleftrightarrow> (\<exists>c \<in> set (sy_records sy). cl_id c = cid \<and> cl_state c = Asked)"

datatype clarification_op =
    Create_Op drawn understanding string bool string string string string
  | Resolve_Op drawn string string string string nat string string
  | Cancel_Op rat string string string string nat
  | Current_Op rat string string
  | Clear_Op rat

fun clarification_step :: "clarification_system \<Rightarrow> clarification_op \<Rightarrow> clarification_system \<times> clarification option" where
  "clarification_step sy (Create_Op dr u d ask s us req corr) =
     (case create_clarification sy dr u d ask s us req corr of (sy', r) \<Rightarrow> (sy', Some r))"
| "clarification_step sy (Resolve_Op dr cid s us corr v sel free) = resolve_clarification sy dr cid s us corr v sel free"
| "clarification_step sy (Cancel_Op now cid s us corr v) = cancel_clarification sy now cid s us corr v"
| "clarification_step sy (Current_Op now s us) = current_clarification sy now s us"
| "clarification_step sy (Clear_Op now) = (sy\<lparr>sy_records := fst (clear_expired now (sy_records sy))\<rparr>, None)"

fun settles :: "clarification_system \<Rightarrow> clarification_op \<Rightarrow> string option" where
  \<comment> \<open>the clarification that the operation resolves or cancels\<close>
  "settles sy (Resolve_Op dr cid s us corr v sel free) =
     (if snd (resolve_clarification sy dr cid s us corr v sel free) = None then None else Some cid)"
| "settles sy (Cancel_Op now cid s us corr v) =
     (if snd (cancel_clarification sy now cid s us corr v) = None then None else Some cid)"
| "settles sy _ = None"

fun asks :: "clarification_op \<Rightarrow> string \<Rightarrow> bool" where
  "asks (Create_Op dr u d ask s us req corr) cid \<longleftrightarrow> dr_id dr = cid"
| "asks _ cid \<longleftrightarrow> False"

lemma put_not_asked:
  "cl_state c \<noteq> Asked \<Longrightarrow> c' \<in> set (clarification_put now c d) \<Longrightarrow> cl_state c' = Asked \<Longrightarrow>
     c' \<in> set d \<and> cl_id c' \<noteq> cl_id c"
  using put_cases by blast

lemma answered_simps [simp]:
  "cl_state (answered_record r now sel free) = Consumed_State" "cl_id (answered_record r now sel free) = cl_id r"
  by (simp_all add: answered_record_def Let_def)

lemma continuation_records [simp]:
  "sy_records (fst (create_continuation sy r u g f k c n now t t')) = sy_records sy"
  by (simp add: create_continuation_def Let_def)

lemma accept_cases:
  "\<exists>r'. cl_id r' = cl_id r \<and> cl_state r' = cl_state r \<and> snd (accept_answer sy dr r) = Some r'
     \<and> sy_records (fst (accept_answer sy dr r)) = clarification_put (dr_now dr) r' (sy_records sy)"
  by (simp add: accept_answer_def Let_def)

lemma cancel_cases:
  assumes "cancel_clarification sy now cid s us corr v = (sy', res)"
  obtains "sy' = sy" "res = None"
  | r where "clarification_get (sy_records sy) cid = Some r" "answerable r s us corr v"
      "res = Some (r\<lparr>cl_answered := Some now, cl_state := Cancelled_State, cl_version := cl_version r + 1\<rparr>)"
      "sy_records sy' = clarification_put now
         (r\<lparr>cl_answered := Some now, cl_state := Cancelled_State, cl_version := cl_version r + 1\<rparr>) (sy_records sy)"
  using assms by (auto simp: cancel_clarification_def Let_def split: option.splits if_splits)

text \<open>What \<open>resolve\<close> does: nothing, or it replaces the asked record by one that is not asked any more.\<close>

lemma resolve_cases:
  assumes "resolve_clarification sy dr cid s us corr v sel free = (sy', res)"
  obtains "sy' = sy" "res = None"
  | r r' where "clarification_get (sy_records sy) cid = Some r" "answerable r s us corr v" "cl_id r' = cid"
      "cl_state r' \<noteq> Asked" "sy_records sy' = clarification_put (dr_now dr) r' (sy_records sy)"
proof (cases "clarification_get (sy_records sy) cid")
  case None
  with assms that(1) show ?thesis by (simp add: resolve_clarification_def)
next
  case (Some r)
  note id = conjunct2 [OF get_found [OF Some]]
  show ?thesis
  proof (cases "answerable r s us corr v")
    case False
    with assms Some that(1) show ?thesis by (simp add: resolve_clarification_def)
  next
    case ans: True
    consider (expired) "cl_expires r < dr_now dr"
      | (none) "\<not> cl_expires r < dr_now dr" "sel = ''none''"
      | (bad) "\<not> cl_expires r < dr_now dr" "sel \<noteq> ''none''"
          "sel \<noteq> [] \<and> sel \<notin> set (map cd_id (cl_candidates r)) \<or> sel = [] \<and> \<not> (cl_free_text r \<and> strip free \<noteq> [])"
      | (good) "\<not> cl_expires r < dr_now dr" "sel \<noteq> ''none''"
          "\<not> (sel \<noteq> [] \<and> sel \<notin> set (map cd_id (cl_candidates r)))" "\<not> (sel = [] \<and> \<not> (cl_free_text r \<and> strip free \<noteq> []))"
      by argo
    then show ?thesis
    proof cases
      case expired
      with assms Some ans show ?thesis
        by (intro that(2) [of r "r\<lparr>cl_state := Expired_State\<rparr>"]) (auto simp: resolve_clarification_def id)
    next
      case none
      with assms Some ans have "cancel_clarification sy (dr_now dr) cid s us corr v = (sy', res)"
        by (simp add: resolve_clarification_def)
      then show ?thesis
      proof (cases rule: cancel_cases)
        case 1
        then show ?thesis by (rule that(1))
      next
        case (2 r')
        with Some ans show ?thesis by (intro that(2) [OF Some ans _ _ 2(4)]) (simp_all add: id)
      qed
    next
      case bad
      with assms Some ans have "sy' = sy \<and> res = None"
        unfolding resolve_clarification_def by (cases "sel = []") simp_all
      with that(1) show ?thesis by blast
    next
      case good
      then have "accept_answer sy dr (answered_record r (dr_now dr) sel free) = (sy', res)"
        using assms Some ans unfolding resolve_clarification_def by (cases "sel = []") simp_all
      with accept_cases [of "answered_record r (dr_now dr) sel free" sy dr] obtain r' where
        "cl_id r' = cid" "cl_state r' \<noteq> Asked" "sy_records sy' = clarification_put (dr_now dr) r' (sy_records sy)"
        by (auto simp: id)
      with that(2) [OF Some ans] show ?thesis by blast
    qed
  qed
qed

lemma settle_put:
  assumes "clarification_get (sy_records sy) cid = Some r" and "cl_state r = Asked" and "cl_id r' = cid"
    and "cl_state r' \<noteq> Asked" and "sy_records sy' = clarification_put now r' (sy_records sy)"
  shows "asked sy cid \<and> \<not> asked sy' cid \<and> (\<forall>i. asked sy' i \<longrightarrow> asked sy i)"
proof (intro conjI allI impI)
  show "asked sy cid" using get_found [OF assms(1)] assms(2) by (auto simp: asked_def)
  show "\<not> asked sy' cid"
    using put_not_asked [OF assms(4), of _ now] assms(3) unfolding asked_def assms(5) by metis
  show "asked sy i" if "asked sy' i" for i
    using that put_not_asked [OF assms(4)] unfolding asked_def assms(5) by blast
qed

lemma settled_by_resolve:
  assumes "resolve_clarification sy dr cid s us corr v sel free = (sy', res)"
  shows "(res \<noteq> None \<longrightarrow> asked sy cid \<and> \<not> asked sy' cid) \<and> (\<forall>i. asked sy' i \<longrightarrow> asked sy i)"
  using assms
proof (cases rule: resolve_cases)
  case (2 r r')
  then have "cl_state r = Asked" by (simp add: answerable_def)
  from settle_put [OF 2(1) this 2(3,4,5)] show ?thesis by blast
qed simp

lemma settled_by_cancel:
  assumes "cancel_clarification sy now cid s us corr v = (sy', res)"
  shows "(res \<noteq> None \<longrightarrow> asked sy cid \<and> \<not> asked sy' cid) \<and> (\<forall>i. asked sy' i \<longrightarrow> asked sy i)"
  using assms
proof (cases rule: cancel_cases)
  case (2 r)
  then have "cl_state r = Asked" by (simp add: answerable_def)
  from settle_put [OF 2(1) this _ _ 2(4)] get_found [OF 2(1)] show ?thesis by simp
qed simp

lemma created_records:
  "\<exists>r. snd (create_clarification sy dr u d ask s us req corr) = r \<and> cl_id r = dr_id dr \<and> cl_request r = req
     \<and> cl_session r = s \<and> cl_user r = us \<and> cl_state r = Asked
     \<and> sy_records (fst (create_clarification sy dr u d ask s us req corr))
         = clarification_put (dr_now dr) r (fst (supersede_pending s us req (sy_records sy)))"
  by (simp add: create_clarification_def Let_def)

lemma superseded_in:
  "c \<in> set (fst (supersede_pending s us req d)) \<Longrightarrow> cl_state c = Asked \<Longrightarrow>
     c \<in> set d \<and> (cl_session c = s \<and> cl_user c = us \<longrightarrow> cl_request c = req)"
  by (auto simp: supersede_pending_def pending_for_def split: if_splits)

lemma asked_created:
  assumes "asked (fst (create_clarification sy dr u d ask s us req corr)) i"
  shows "asked sy i \<or> dr_id dr = i"
proof -
  obtain r where r: "cl_id r = dr_id dr" "sy_records (fst (create_clarification sy dr u d ask s us req corr))
      = clarification_put (dr_now dr) r (fst (supersede_pending s us req (sy_records sy)))"
    using created_records by metis
  with assms obtain c where c: "c \<in> set (clarification_put (dr_now dr) r (fst (supersede_pending s us req (sy_records sy))))"
    "cl_id c = i" "cl_state c = Asked" by (auto simp: asked_def)
  from put_cases [OF c(1)] show ?thesis
  proof
    assume "c = r"
    with c(2) r(1) show ?thesis by simp
  next
    assume "c \<in> set (fst (supersede_pending s us req (sy_records sy))) \<and> cl_id c \<noteq> cl_id r"
    with superseded_in [of c s us req "sy_records sy"] c(2,3) show ?thesis unfolding asked_def by blast
  qed
qed

lemma asked_current: "asked (fst (current_clarification sy now s us)) i \<Longrightarrow> asked sy i"
  by (auto simp: asked_def current_clarification_def get_pending_def split: prod.splits if_splits)

lemma asked_cleared: "asked (sy\<lparr>sy_records := fst (clear_expired now (sy_records sy))\<rparr>) i \<Longrightarrow> asked sy i"
  by (auto simp: asked_def clear_expired_def split: if_splits)

lemma step_asked:
  "(settles sy op = Some i \<longrightarrow> asked sy i \<and> \<not> asked (fst (clarification_step sy op)) i)
   \<and> (asked (fst (clarification_step sy op)) i \<longrightarrow> asked sy i \<or> asks op i)"
proof (cases op)
  case (Create_Op dr u d ask s us req corr)
  then show ?thesis using asked_created [of sy dr u d ask s us req corr i] by (simp split: prod.split)
next
  case (Resolve_Op dr cid s us corr v sel free)
  with settled_by_resolve [OF surjective_pairing, of sy dr cid s us corr v sel free] show ?thesis
    by (auto split: if_splits)
next
  case (Cancel_Op now cid s us corr v)
  with settled_by_cancel [OF surjective_pairing, of sy now cid s us corr v] show ?thesis
    by (auto split: if_splits)
next
  case (Current_Op now s us)
  then show ?thesis using asked_current by simp
next
  case (Clear_Op now)
  then show ?thesis using asked_cleared by simp
qed

interpretation clarifications: single_use "\<lambda>sy op. fst (clarification_step sy op)" settles "\<lambda>sy op cid. asks op cid" asked
  using step_asked by unfold_locales blast+


fun settled :: "clarification_system \<Rightarrow> clarification_op list \<Rightarrow> string list" where
  "settled sy [] = []"
| "settled sy (op # ops) =
     (case settles sy op of None \<Rightarrow> [] | Some i \<Rightarrow> [i]) @ settled (fst (clarification_step sy op)) ops"

lemma settled_eq: "clarifications.spent sy ops = settled sy ops"
  by (induction ops arbitrary: sy) simp_all

lemma reissued_asks: "clarifications.reissued sy ops i \<longleftrightarrow> list_ex (\<lambda>op. asks op i) ops"
  by (induction ops arbitrary: sy) auto

text \<open>
  A clarification is settled at most once: over any sequence of operations by any sessions, no clarification
  is answered or cancelled twice, unless its identifier is drawn again.
\<close>

theorem clarification_settled_once:
  assumes "\<not> list_ex (\<lambda>op. asks op cid) ops"
  shows "count_list (settled sy ops) cid \<le> 1"
  using clarifications.spent_at_most_once [of sy ops cid] assms by (simp add: settled_eq reissued_asks)

definition sample_drawn :: drawn where
  "sample_drawn = \<lparr>dr_now = 10, dr_id = ''q1'', dr_correlation = ''c1'', dr_base = ''b'', dr_time = ''t'', dr_stamp = ''t''\<rparr>"

definition sample_understanding :: understanding where
  "sample_understanding = \<lparr>un_decision = ''u'', un_targets = [''notes.txt'', ''notes.md''], un_ambiguity = ''reference'',
     un_risk = ''wrong target''\<rparr>"

definition no_clarifications :: clarification_system where
  "no_clarifications = \<lparr>sy_records = [], sy_continuations = [], sy_grants = empty_db\<rparr>"

definition sample_asked :: clarification_system where
  "sample_asked = fst (create_clarification no_clarifications sample_drawn sample_understanding ''d'' False ''s'' ''u'' ''r'' ''c'')"

theorem clarification_settled_once_witness:
  "settled sample_asked [Resolve_Op sample_drawn ''q1'' ''s'' ''u'' ''c'' 1 ''u-c1'' [],
     Resolve_Op sample_drawn ''q1'' ''s'' ''u'' ''c'' 1 ''u-c0'' [], Cancel_Op 11 ''q1'' ''s'' ''u'' ''c'' 1] = [''q1'']
   \<and> count_list (settled sample_asked [Resolve_Op sample_drawn ''q1'' ''s'' ''u'' ''c'' 1 ''u-c1'' [],
     Resolve_Op sample_drawn ''q1'' ''s'' ''u'' ''c'' 1 ''u-c0'' [], Cancel_Op 11 ''q1'' ''s'' ''u'' ''c'' 1]) ''q1'' \<le> 1"
proof
  show "settled sample_asked [Resolve_Op sample_drawn ''q1'' ''s'' ''u'' ''c'' 1 ''u-c1'' [],
     Resolve_Op sample_drawn ''q1'' ''s'' ''u'' ''c'' 1 ''u-c0'' [], Cancel_Op 11 ''q1'' ''s'' ''u'' ''c'' 1] = [''q1'']"
    by code_simp
  show "count_list (settled sample_asked [Resolve_Op sample_drawn ''q1'' ''s'' ''u'' ''c'' 1 ''u-c1'' [],
     Resolve_Op sample_drawn ''q1'' ''s'' ''u'' ''c'' 1 ''u-c0'' [], Cancel_Op 11 ''q1'' ''s'' ''u'' ''c'' 1]) ''q1'' \<le> 1"
    by (rule clarification_settled_once) simp
qed

text \<open>
  Storing a record never loses an open question: every pending record that has not expired stays, and there are
  never more than 256 records unless that many are open.
\<close>

lemma length_compact: "length (compact_records now d) \<le> max max_retained (length (filter (\<lambda>c. is_open c now) d))
    \<or> \<not> distinct (map cl_id d)"
proof (cases "length (filter (\<lambda>c. is_open c now) d) + length (filter (\<lambda>c. \<not> is_open c now) d) \<le> max_retained")
  case True
  then show ?thesis
    using sum_length_filter_compl [of "\<lambda>c. is_open c now" d] by (simp add: compact_records_def)
next
  case False
  define act where "act = filter (\<lambda>c. is_open c now) d"
  define keep where "keep = take (max_retained - length act) (sort_key (\<lambda>c. - cl_created c) (filter (\<lambda>c. \<not> is_open c now) d))"
  define ids where "ids = map cl_id act @ map cl_id keep"
  have c: "compact_records now d = filter (\<lambda>c. cl_id c \<in> set ids) d"
    using False by (simp add: compact_records_def Let_def act_def keep_def ids_def image_Un)
  have "length (filter (\<lambda>c. cl_id c \<in> set ids) d) \<le> length ids" if "distinct (map cl_id d)"
  proof -
    have "distinct (map cl_id (filter (\<lambda>c. cl_id c \<in> set ids) d))" using that by (rule distinct_map_filter)
    moreover have "set (map cl_id (filter (\<lambda>c. cl_id c \<in> set ids) d)) \<subseteq> set ids" by auto
    ultimately show ?thesis by (metis card_length card_mono distinct_card finite_set le_trans length_map)
  qed
  moreover have "length ids \<le> max max_retained (length act)" by (simp add: ids_def keep_def)
  ultimately show ?thesis unfolding c act_def by linarith
qed

theorem open_questions_kept:
  assumes "c \<in> set d" and "is_open c now" and "cl_id c \<noteq> cl_id r" and "distinct (map cl_id (store_record r d))"
  shows "c \<in> set (clarification_put now r d)
    \<and> length (clarification_put now r d) \<le> max max_retained (length (filter (\<lambda>c. is_open c now) (store_record r d)))"
proof
  have "c \<in> set (store_record r d)" using assms(1,3) by (auto simp: store_record_def)
  then show "c \<in> set (clarification_put now r d)"
    unfolding clarification_put_def using assms(2) by (rule compact_keeps_open)
  show "length (clarification_put now r d) \<le> max max_retained (length (filter (\<lambda>c. is_open c now) (store_record r d)))"
    using length_compact [of now "store_record r d"] assms(4) by (simp add: clarification_put_def)
qed

text \<open>
  After a new question every question that is still pending in that session for that user belongs to the same
  request: the questions of other requests are superseded.
\<close>

theorem one_request_pending:
  assumes "create_clarification sy dr u d ask s us req corr = (sy', r)"
    and "c \<in> set (sy_records sy')" and "pending_for s us c"
  shows "cl_request c = req"
proof -
  obtain r' where r': "cl_request r' = req" "sy_records sy' = clarification_put (dr_now dr) r' (fst (supersede_pending s us req (sy_records sy)))"
    using created_records [of sy dr u d ask s us req corr] assms(1) by auto
  from put_cases [OF assms(2) [unfolded r'(2)]] show ?thesis
  proof
    assume "c \<in> set (fst (supersede_pending s us req (sy_records sy))) \<and> cl_id c \<noteq> cl_id r'"
    with superseded_in [of c s us req "sy_records sy"] assms(3) show ?thesis by (simp add: pending_for_def)
  qed (use r' in simp)
qed

theorem one_request_pending_witness:
  "\<forall>c \<in> {c. c \<in> set (sy_records (fst (create_clarification sample_asked (sample_drawn\<lparr>dr_id := ''q2''\<rparr>) sample_understanding
      ''d2'' True ''s'' ''u'' ''r2'' ''c2''))) \<and> pending_for ''s'' ''u'' c}. cl_request c = ''r2''"
  using one_request_pending [OF surjective_pairing, of _ sample_asked "sample_drawn\<lparr>dr_id := ''q2''\<rparr>" sample_understanding
      "''d2''" True "''s''" "''u''" "''r2''" "''c2''"] by blast

lemma create_keeps_grants: "sy_grants (fst (create_continuation sy r u g f k c n now t t')) = sy_grants sy"
  by (simp add: create_continuation_def Let_def invalidate_by_plan_id_def supersede_all_eq)

text \<open>
  Answering a clarification leaves every plan grant as it was, although the code means to invalidate the grants of
  the request that was clarified: the invalidation raises for a plan that could still run, and the exception is
  swallowed. So a plan that was approved before the clarification can still be executed after it.
\<close>

theorem clarified_plan_still_approved:
  "sy_grants (fst (resolve_clarification sy dr cid s us corr v sel free)) = sy_grants sy"
proof -
  have "sy_grants (fst (accept_answer sy dr r)) = sy_grants sy" for r
    by (simp add: accept_answer_def Let_def create_keeps_grants)
  moreover have "sy_grants (fst (cancel_clarification sy now cid s us corr v)) = sy_grants sy" for now
    by (simp add: cancel_clarification_def Let_def split: option.split)
  ultimately show ?thesis by (simp add: resolve_clarification_def split: option.split)
qed


text \<open>
  An answer is accepted exactly when the record is pending and bound to this session, user, correlation and
  version, has not expired, and the answer is one of its candidates or, where free text is allowed, a text that is
  not blank.
\<close>

theorem answers_exact:
  "(\<exists>r'. snd (resolve_clarification sy dr cid s us corr v sel free) = Some r' \<and> cl_state r' = Consumed_State)
   \<longleftrightarrow> (\<exists>r. clarification_get (sy_records sy) cid = Some r \<and> answerable r s us corr v \<and> dr_now dr \<le> cl_expires r
        \<and> sel \<noteq> ''none''
        \<and> (if sel = [] then cl_free_text r \<and> strip free \<noteq> [] else sel \<in> set (map cd_id (cl_candidates r))))"
proof (cases "clarification_get (sy_records sy) cid")
  case None
  then show ?thesis by (simp add: resolve_clarification_def)
next
  case (Some r)
  have acc: "snd (accept_answer sy dr (answered_record r (dr_now dr) sel free)) = Some r' \<Longrightarrow> cl_state r' = Consumed_State"
    "snd (accept_answer sy dr (answered_record r (dr_now dr) sel free)) \<noteq> None" for r'
    using accept_cases [of "answered_record r (dr_now dr) sel free" sy dr] by auto
  have can: "snd (cancel_clarification sy (dr_now dr) cid s us corr v) = Some r' \<Longrightarrow> cl_state r' \<noteq> Consumed_State" for r'
    by (auto simp: cancel_clarification_def Let_def split: option.splits if_splits)
  show ?thesis
    using Some acc can unfolding resolve_clarification_def
    by (cases "sel = []"; cases "sel = ''none''"; cases "answerable r s us corr v"; cases "cl_expires r < dr_now dr")
      (auto simp: not_less)
qed

end
