(* ===== verification/Continuation.thy ===== *)
theory Continuation
  imports Clarification Planning
begin

text \<open>
  The consumer of continuations (\<open>sidecar/services/continuation_executor.py\<close>). The orchestrator is an argument: what
  a run of it answers. The code gives up control while it waits for the orchestrator, so each handler is cut there
  into segments, and the handlers of several requests interleave at these points: a segment that waits leaves a
  task behind, whose context is a copy of the stored one, and a later step resumes it. All other use of the grant
  repository is a step of its own. Plans become dictionaries; how their risk, a floating-point number, is written is
  an argument. Continuations whose file cannot be written are not modelled.
\<close>

section \<open>The segments of the handlers\<close>

record execution_plan =
  \<comment> \<open>\<open>ExecutionPlan\<close> of the orchestrator: what its results carry as their plan; routing fields are left out\<close>
  xp_intent :: intent
  xp_plan :: plan
  xp_tool_id :: string
  xp_tool_params :: params

text \<open>
  The serializer reads the attributes of a plan from whatever object it is given, with a default where there is none.
  The steps, the description and the risk are attributes of a plan and not of an execution plan.
\<close>

datatype plan_object = A_Plan plan | An_Execution execution_plan

fun seen_steps :: "plan_object \<Rightarrow> step list" where
  "seen_steps (A_Plan p) = pl_steps p"
| "seen_steps (An_Execution e) = []"

fun seen_description :: "plan_object \<Rightarrow> string" where
  "seen_description (A_Plan p) = pl_description p"
| "seen_description (An_Execution e) = []"

fun seen_risk :: "plan_object \<Rightarrow> rat" where
  "seen_risk (A_Plan p) = pl_risk p"
| "seen_risk (An_Execution e) = 0"

definition safe_plan_dict :: "(rat \<Rightarrow> pyval) \<Rightarrow> plan_object \<Rightarrow> pyval" where
  "safe_plan_dict num p =
     PDict [(''steps'', PList (map (\<lambda>s. PDict [(''id'', PStr (ps_id s)), (''tool_id'', PStr (ps_tool_id s)),
              (''params'', PDict (pt_params s)), (''description'', PStr (pt_description s)),
              (''is_reversible'', PBool (ps_is_reversible s))]) (seen_steps p))),
            (''description'', PStr (seen_description p)), (''risk_score'', num (seen_risk p))]"

record outcome =
  oc_error :: string
  oc_plan :: "execution_plan option"
  oc_approved :: bool
  oc_execution :: string
  oc_summary :: string

definition continuation_risk :: "rat \<Rightarrow> string" where
  "continuation_risk score = (if score < 3 / 10 then ''low'' else if score < 7 / 10 then ''medium'' else ''high'')"

record executor_env =
  ee_now :: rat
  ee_clock :: string
  ee_stamp :: string
  ee_grant :: string
  ee_expires :: string

text \<open>The clock as a number and as the texts of the grant repository, the drawn identifier of a plan grant, and
  the text of its expiry in ten minutes.\<close>

record executor_code =
  ec_sha :: "string \<Rightarrow> string"
  ec_num :: "rat \<Rightarrow> pyval"
  ec_broker :: bool

datatype segment =
    No_Continuation
  | Answered continuation
  | Waiting continuation

definition bound_continuation :: "continuations \<Rightarrow> string \<Rightarrow> string \<Rightarrow> string \<Rightarrow> continuation option" where
  "bound_continuation d cid user session =
     (case map_of d cid of
        None \<Rightarrow> None
      | Some c \<Rightarrow> if co_user c \<noteq> user \<or> co_session c \<noteq> session then None else Some c)"

definition start_begin :: "continuations \<Rightarrow> string \<Rightarrow> string \<Rightarrow> string \<Rightarrow> rat \<Rightarrow> segment" where
  "start_begin d cid user session now =
     (case bound_continuation d cid user session of
        None \<Rightarrow> No_Continuation
      | Some c \<Rightarrow>
          if co_state c \<notin> {Created, Clarification_Resolved} then Answered c
          else if \<not> snd (continuation_move Replanning c) then Answered c
          else Waiting (add_event (Continuation_Started now) (moved_to Replanning c\<lparr>co_started := Some now\<rparr>)))"

definition failed_with :: "string \<Rightarrow> continuation \<Rightarrow> continuation" where
  "failed_with txt' c = moved_to Continuation_Failed c\<lparr>co_summary := txt'\<rparr>"

definition request_continuation_grant :: "executor_code \<Rightarrow> executor_env \<Rightarrow> grant_db \<Rightarrow> continuation \<Rightarrow> execution_plan
    \<Rightarrow> (grant_db \<times> string \<times> string) result" where
  "request_continuation_grant code env db c p =
     bind_result (canonical_plan (ec_sha code) (safe_plan_dict (ec_num code) (An_Execution p))) (\<lambda>(payload, h).
       bind_result (request_plan_grant db
         \<lparr>pg_grant_id = ee_grant env, pg_user_id = co_user c, pg_session_id = co_session c,
          pg_identity_hash = broker_hash (ec_sha code)
            (PDict [(''user_id'', PStr (co_user c)), (''session_id'', PStr (co_session c))]),
          pg_plan_id = co_id c, pg_plan_hash = h, pg_plan_payload = payload, pg_risk_level = continuation_risk (seen_risk (An_Execution p)),
          pg_expires_at = ee_expires env, pg_simulation_evidence = PDict [(''summary'', PStr (seen_description (An_Execution p)))],
          pg_schema_version = 1\<rparr> (ee_clock env) (ee_stamp env)) (\<lambda>(db', gid). Inr (db', gid, h)))"

definition awaiting :: "execution_plan option \<Rightarrow> continuation \<Rightarrow> continuation" where
  \<comment> \<open>an execution plan has no summary either\<close>
  "awaiting p c =
     (let c1 = moved_to Awaiting_Confirmation c;
          plan_text = (case p of Some q \<Rightarrow> seen_description (An_Execution q) | None \<Rightarrow> []);
          c2 = c1\<lparr>co_summary := (if plan_text = [] then ''replanning_complete_requires_confirmation'' else plan_text)\<rparr>
      in add_event (Replanning_Complete (co_confirmation c2)) c2)"

definition start_end :: "executor_code \<Rightarrow> executor_env \<Rightarrow> continuations \<Rightarrow> grant_db \<Rightarrow> continuation \<Rightarrow> outcome option result
    \<Rightarrow> continuations \<times> grant_db \<times> continuation" where
  "start_end code env d db c answer =
     (let (db', c') =
        (case answer of
           Inl e \<Rightarrow> (db, failed_with ''replanning_exception'' c)
         | Inr oc \<Rightarrow>
             let plan = (case oc of Some x \<Rightarrow> oc_plan x | None \<Rightarrow> None)
             in if (case oc of Some x \<Rightarrow> oc_error x \<noteq> [] | None \<Rightarrow> False)
                then (db, failed_with (''replanning_failed: '' @ (case oc of Some x \<Rightarrow> oc_error x | None \<Rightarrow> [])) c)
                else (case (if ec_broker code then plan else None) of
                        None \<Rightarrow> (db, awaiting plan (c\<lparr>co_confirmation := []\<rparr>))
                      | Some p \<Rightarrow>
                          (case request_continuation_grant code env db c p of
                             Inl e \<Rightarrow> (db, failed_with ''replanning_exception'' c)
                           | Inr (db', gid, h) \<Rightarrow>
                               (db', awaiting plan (c\<lparr>co_confirmation := gid, co_plan_digest := h,
                                  co_prior_action := ec_sha code (json_compact (pget (as_dict (safe_plan_dict (ec_num code) (An_Execution p))) ''steps''))\<rparr>)))));
          c'' = c'\<lparr>co_completed := Some (ee_now env)\<rparr>
      in (continuation_put c'' d, db', c''))"

definition confirm_begin :: "continuations \<Rightarrow> string \<Rightarrow> string \<Rightarrow> string \<Rightarrow> bool \<Rightarrow> continuations \<times> segment" where
  "confirm_begin d cid user session approved =
     (case bound_continuation d cid user session of
        None \<Rightarrow> (d, No_Continuation)
      | Some c \<Rightarrow>
          if co_state c \<noteq> Awaiting_Confirmation then (d, Answered c)
          else if \<not> approved
          then (let c' = add_event (Confirmation_Denied (co_confirmation c)) (moved_to Continuation_Denied c)
                in (continuation_put c' d, Answered c'))
          else (d, Waiting c))"

definition check_digest :: "executor_code \<Rightarrow> outcome option \<Rightarrow> string option result" where
  \<comment> \<open>the hash of the plan of the second dry run, when there is one and a broker\<close>
  "check_digest code oc =
     (case (if ec_broker code then Option.bind oc oc_plan else None) of
        None \<Rightarrow> Inr None
      | Some p \<Rightarrow> bind_result (canonical_plan (ec_sha code) (safe_plan_dict (ec_num code) (An_Execution p))) (\<lambda>(payload, h). Inr (Some h)))"

definition execution_failed :: "rat \<Rightarrow> string \<Rightarrow> continuation \<Rightarrow> continuation" where
  \<comment> \<open>the exception handler of \<open>confirm\<close>\<close>
  "execution_failed now txt' c = add_event (Continuation_Failure txt') (failed_with txt' c)\<lparr>co_completed := Some now\<rparr>"

definition confirm_check :: "executor_code \<Rightarrow> executor_env \<Rightarrow> continuations \<Rightarrow> grant_db \<Rightarrow> continuation \<Rightarrow> outcome option result
    \<Rightarrow> continuations \<times> grant_db \<times> segment" where
  "confirm_check code env d db c answer =
     (case bind_result answer (check_digest code) of
        Inl e \<Rightarrow> (let c' = execution_failed (ee_now env) ''execution_exception'' c in (continuation_put c' d, db, Answered c'))
      | Inr h \<Rightarrow>
          if h \<noteq> None \<and> h \<noteq> Some (co_plan_digest c)
          then (let c' = add_event Material_Change_Detected
                      (moved_to Replanning c\<lparr>co_summary := ''plan_changed_replanning_required''\<rparr>)
                in (continuation_put c' d, db, Answered c'))
          else
            (let granted = (if ec_broker code
                   then approve_plan_grant db (co_confirmation c) (co_user c) (ee_clock env) (ee_stamp env) else (db, True))
             in if \<not> snd granted
                then (let c' = moved_to Continuation_Denied c\<lparr>co_summary := ''grant_approval_failed''\<rparr>
                      in (continuation_put c' d, fst granted, Answered c'))
                else (d, fst granted,
                      Waiting (moved_to Executing (add_event (Confirmation_Accepted (co_confirmation c)) (moved_to Authorized c))))))"

definition confirm_end :: "executor_env \<Rightarrow> continuations \<Rightarrow> continuation \<Rightarrow> outcome option result \<Rightarrow> continuations \<times> continuation"
where
  "confirm_end env d c answer =
     (let c' =
        (case answer of
           Inl e \<Rightarrow> add_event (Continuation_Failure ''execution_exception'') (failed_with ''execution_exception'' c)
         | Inr oc \<Rightarrow>
             (case oc of
                Some x \<Rightarrow>
                  if oc_error x = [] \<and> oc_approved x
                  then add_event (Execution_Verified (oc_execution x))
                         (moved_to Verified_Completed c\<lparr>co_summary := (if oc_summary x = [] then ''execution_verified'' else oc_summary x),
                            co_execution := oc_execution x\<rparr>)
                  else (let reason = (if oc_error x = [] then ''execution_failed'' else oc_error x)
                        in add_event (Continuation_Failure reason) (failed_with reason c))
              | None \<Rightarrow> add_event (Continuation_Failure ''execution_failed'') (failed_with ''execution_failed'' c)));
          c'' = c'\<lparr>co_completed := Some (ee_now env)\<rparr>
      in (continuation_put c'' d, c''))"

definition cancel_continuation :: "executor_code \<Rightarrow> executor_env \<Rightarrow> continuations \<Rightarrow> grant_db \<Rightarrow> string \<Rightarrow> string \<Rightarrow> string
    \<Rightarrow> continuations \<times> grant_db \<times> segment" where
  "cancel_continuation code env d db cid user session =
     (case bound_continuation d cid user session of
        None \<Rightarrow> (d, db, No_Continuation)
      | Some c \<Rightarrow>
          if co_state c \<in> {Verified_Completed, Continuation_Denied, Continuation_Failed, Continuation_Cancelled}
          then (d, db, Answered c)
          else
            (let db' = (if ec_broker code \<and> co_confirmation c \<noteq> []
                   then fst (transition_plan db (co_confirmation c) Pending Cancelled
                          [(''user_id'', PStr user), (''session_id'', PStr session)] (ee_clock env) (ee_stamp env)) else db);
                 c' = add_event (Continuation_Dropped (co_confirmation c)) (moved_to Continuation_Cancelled c)
             in (continuation_put c' d, db', Answered c')))"


section \<open>Interleaving\<close>

datatype task = Starting continuation | Checking continuation | Running continuation

record run_record =
  rn_confirmation :: string
  rn_digest :: string
  rn_check :: "string option"
  rn_user :: string

record executor =
  ex_store :: continuations
  ex_grants :: grant_db
  ex_tasks :: "(nat \<times> task) list"
  ex_runs :: "run_record list"

text \<open>\<open>ex_runs\<close> collects the runs of the orchestrator that are not dry.\<close>

datatype executor_op =
    Begin_Start nat string string string rat
  | End_Start nat executor_env "outcome option result"
  | Begin_Confirm nat string string string bool
  | Check_Confirm nat executor_env "outcome option result"
  | End_Confirm nat executor_env "outcome option result"
  | Cancel_Continuation executor_env string string string
  | Other_Grant grant_op

definition wait_for :: "nat \<Rightarrow> (continuation \<Rightarrow> task) \<Rightarrow> segment \<Rightarrow> (nat \<times> task) list \<Rightarrow> (nat \<times> task) list" where
  "wait_for tid mk s ts = (case s of Waiting c \<Rightarrow> AList.update tid (mk c) ts | _ \<Rightarrow> AList.delete tid ts)"

fun executor_step :: "executor_code \<Rightarrow> executor \<Rightarrow> executor_op \<Rightarrow> executor" where
  "executor_step code ex (Begin_Start tid cid user session now) =
     ex\<lparr>ex_tasks := wait_for tid Starting (start_begin (ex_store ex) cid user session now) (ex_tasks ex)\<rparr>"
| "executor_step code ex (End_Start tid env answer) =
     (case map_of (ex_tasks ex) tid of
        Some (Starting c) \<Rightarrow>
          (case start_end code env (ex_store ex) (ex_grants ex) c answer of
             (d, db, c') \<Rightarrow> ex\<lparr>ex_store := d, ex_grants := db, ex_tasks := AList.delete tid (ex_tasks ex)\<rparr>)
      | _ \<Rightarrow> ex)"
| "executor_step code ex (Begin_Confirm tid cid user session approved) =
     (case confirm_begin (ex_store ex) cid user session approved of
        (d, s) \<Rightarrow> ex\<lparr>ex_store := d, ex_tasks := wait_for tid Checking s (ex_tasks ex)\<rparr>)"
| "executor_step code ex (Check_Confirm tid env answer) =
     (case map_of (ex_tasks ex) tid of
        Some (Checking c) \<Rightarrow>
          (case confirm_check code env (ex_store ex) (ex_grants ex) c answer of
             (d, db, s) \<Rightarrow>
               ex\<lparr>ex_store := d, ex_grants := db, ex_tasks := wait_for tid Running s (ex_tasks ex),
                  ex_runs := ex_runs ex @ (case (s, bind_result answer (check_digest code)) of
                    (Waiting c', Inr h) \<Rightarrow> [\<lparr>rn_confirmation = co_confirmation c, rn_digest = co_plan_digest c, rn_check = h, rn_user = co_user c\<rparr>]
                  | _ \<Rightarrow> [])\<rparr>)
      | _ \<Rightarrow> ex)"
| "executor_step code ex (End_Confirm tid env answer) =
     (case map_of (ex_tasks ex) tid of
        Some (Running c) \<Rightarrow>
          ex\<lparr>ex_store := fst (confirm_end env (ex_store ex) c answer), ex_tasks := AList.delete tid (ex_tasks ex)\<rparr>
      | _ \<Rightarrow> ex)"
| "executor_step code ex (Cancel_Continuation env cid user session) =
     (case cancel_continuation code env (ex_store ex) (ex_grants ex) cid user session of
        (d, db, s) \<Rightarrow> ex\<lparr>ex_store := d, ex_grants := db\<rparr>)"
| "executor_step code ex (Other_Grant op) = ex\<lparr>ex_grants := grant_step (ex_grants ex) op\<rparr>"


section \<open>Every execution was approved, and only once\<close>

lemma moved_simps [simp]:
  "co_confirmation (moved_to t c) = co_confirmation c" "co_plan_digest (moved_to t c) = co_plan_digest c"
  "co_user (moved_to t c) = co_user c" "co_session (moved_to t c) = co_session c" "co_id (moved_to t c) = co_id c"
  by (simp_all add: continuation_move_def)

lemma add_event_simps [simp]:
  "co_confirmation (add_event e c) = co_confirmation c" "co_plan_digest (add_event e c) = co_plan_digest c"
  "co_user (add_event e c) = co_user c" "co_session (add_event e c) = co_session c" "co_id (add_event e c) = co_id c"
  by (simp_all add: add_event_def)

definition grant_of :: "grant_db \<Rightarrow> string \<Rightarrow> string \<Rightarrow> string \<Rightarrow> string \<Rightarrow> bool" where
  "grant_of db gid h user session \<longleftrightarrow>
     (\<exists>row. map_of (db_plans db) gid = Some row \<and> pl_plan_hash row = h \<and> pl_user_id row = user \<and> pl_session_id row = session)"

definition settled_grant :: "grant_db \<Rightarrow> string \<Rightarrow> bool" where
  "settled_grant db gid \<longleftrightarrow> (\<exists>row. map_of (db_plans db) gid = Some row \<and> pl_status row \<noteq> Pending)"

definition grants_extend :: "grant_db \<Rightarrow> grant_db \<Rightarrow> bool" where
  "grants_extend db db' \<longleftrightarrow>
     (\<forall>gid h user session. grant_of db gid h user session \<longrightarrow> grant_of db' gid h user session)
     \<and> (\<forall>gid. settled_grant db gid \<longrightarrow> settled_grant db' gid)
     \<and> (map_of (db_plans db) [] = None \<longrightarrow> map_of (db_plans db') [] = None)"

lemma plan_edge_not_pending: "plan_edge a b \<Longrightarrow> b \<noteq> Pending"
  by (auto simp: plan_edge_def plan_transitions_def)

lemma no_empty_grant:
  assumes "map_of (db_plans db) [] = None"
  shows "map_of (db_plans (grant_step db op)) [] = None"
proof (cases op)
  case (Create_Plan g now ts)
  with assms show ?thesis by (auto simp: create_plan_def split: if_splits)
next
  case (Transition_Plan g a b actor now ts)
  with assms show ?thesis by (auto simp: transition_plan_def split: option.split)
next
  case (Create_Step g now ts)
  with assms show ?thesis by (auto simp: create_step_def split: option.split)
next
  case (Consume_Step sid b now ts)
  with assms show ?thesis by (auto simp: consume_step_def split: option.split)
next
  case (Invalidate pid sid reason ctx actor now ts)
  show ?thesis using assms unfolding Invalidate invalidate_same .
qed

lemma grant_step_extends: "grants_extend db (grant_step db op)"
  unfolding grants_extend_def
proof (intro conjI allI impI)
  fix gid h user session
  assume "grant_of db gid h user session"
  then obtain row where "map_of (db_plans db) gid = Some row" "pl_plan_hash row = h" "pl_user_id row = user" "pl_session_id row = session"
    by (auto simp: grant_of_def)
  with plan_row_step [of db gid row op] show "grant_of (grant_step db op) gid h user session"
    by (auto simp: grant_of_def same_binding_def)
next
  fix gid
  assume "settled_grant db gid"
  then obtain row where "map_of (db_plans db) gid = Some row" "pl_status row \<noteq> Pending" by (auto simp: settled_grant_def)
  with plan_row_step [of db gid row op] plan_edge_not_pending show "settled_grant (grant_step db op) gid"
    by (auto simp: settled_grant_def)
qed (rule no_empty_grant)

lemma grants_extend_refl [simp]: "grants_extend db db"
  by (simp add: grants_extend_def)

lemma transition_extends: "grants_extend db (fst (transition_plan db gid a b actor now ts))"
  using grant_step_extends [of db "Transition_Plan gid a b actor now ts"] by simp

lemma approve_granted:
  "approve_plan_grant db gid user now ts = (db', True) \<Longrightarrow> \<not> settled_grant db gid \<and> settled_grant db' gid"
  by (auto simp: approve_plan_grant_def transition_plan_def settled_grant_def stamp_plan_def split: if_splits option.splits)

lemma request_granted:
  assumes "request_continuation_grant code env db c p = Inr (db', gid, h)"
  shows "grants_extend db db' \<and> grant_of db' gid h (co_user c) (co_session c)"
proof -
  obtain g where g: "create_plan db g (ee_clock env) (ee_stamp env) = Inr db'" "pg_grant_id g = gid" "pg_plan_hash g = h"
    "pg_user_id g = co_user c" "pg_session_id g = co_session c"
    using assms by (auto simp: request_continuation_grant_def request_plan_grant_def)
  then have "grant_step db (Create_Plan g (ee_clock env) (ee_stamp env)) = db'" by simp
  moreover have "grant_of db' gid h (co_user c) (co_session c)"
    using g by (auto simp: create_plan_def grant_of_def split: if_splits)
  ultimately show ?thesis using grant_step_extends [of db "Create_Plan g (ee_clock env) (ee_stamp env)"] by simp
qed

definition well_bound :: "grant_db \<Rightarrow> continuation \<Rightarrow> bool" where
  "well_bound db c \<longleftrightarrow> (co_confirmation c \<noteq> [] \<longrightarrow> grant_of db (co_confirmation c) (co_plan_digest c) (co_user c) (co_session c))"

lemma well_bound_extend: "grants_extend db db' \<Longrightarrow> well_bound db c \<Longrightarrow> well_bound db' c"
  by (auto simp: well_bound_def grants_extend_def)

lemma well_bound_simps [simp]:
  "well_bound db (moved_to t c) = well_bound db c" "well_bound db (add_event e c) = well_bound db c"
  "well_bound db (c\<lparr>co_summary := s\<rparr>) = well_bound db c" "well_bound db (c\<lparr>co_started := n\<rparr>) = well_bound db c"
  "well_bound db (c\<lparr>co_completed := n\<rparr>) = well_bound db c" "well_bound db (c\<lparr>co_execution := s\<rparr>) = well_bound db c"
  "well_bound db (c\<lparr>co_summary := s, co_execution := s'\<rparr>) = well_bound db c"
  by (simp_all add: well_bound_def)

fun task_context :: "task \<Rightarrow> continuation" where
  "task_context (Starting c) = c"
| "task_context (Checking c) = c"
| "task_context (Running c) = c"

definition contexts :: "executor \<Rightarrow> continuation set" where
  "contexts ex = ran (map_of (ex_store ex)) \<union> task_context ` ran (map_of (ex_tasks ex))"

definition runs_ok :: "executor \<Rightarrow> bool" where
  "runs_ok ex \<longleftrightarrow>
     (\<forall>r \<in> set (ex_runs ex). (rn_check r = None \<or> rn_check r = Some (rn_digest r)) \<and> settled_grant (ex_grants ex) (rn_confirmation r)
        \<and> (\<exists>s. grant_of (ex_grants ex) (rn_confirmation r) (rn_digest r) (rn_user r) s))
     \<and> (\<forall>gid. count_list (map rn_confirmation (ex_runs ex)) gid \<le> (if settled_grant (ex_grants ex) gid then 1 else 0))"

definition executor_ok :: "executor \<Rightarrow> bool" where
  "executor_ok ex \<longleftrightarrow> (\<forall>c \<in> contexts ex. well_bound (ex_grants ex) c) \<and> runs_ok ex \<and> map_of (db_plans (ex_grants ex)) [] = None"

lemma runs_ok_extend: "runs_ok ex \<Longrightarrow> grants_extend (ex_grants ex) db \<Longrightarrow> runs_ok (ex\<lparr>ex_grants := db\<rparr>)"
  unfolding runs_ok_def grants_extend_def by (fastforce split: if_splits)


lemma start_end_ok:
  assumes "start_end code env d db c answer = (d', db', c')" and "well_bound db c"
  shows "grants_extend db db' \<and> well_bound db' c' \<and> d' = continuation_put c' d"
proof (cases "\<exists>oc p db1 gid h. answer = Inr oc \<and> \<not> (case oc of Some x \<Rightarrow> oc_error x \<noteq> [] | None \<Rightarrow> False)
    \<and> (if ec_broker code then (case oc of Some x \<Rightarrow> oc_plan x | None \<Rightarrow> None) else None) = Some p
    \<and> request_continuation_grant code env db c p = Inr (db1, gid, h)")
  case True
  then obtain oc p db1 gid h where a: "answer = Inr oc" "\<not> (case oc of Some x \<Rightarrow> oc_error x \<noteq> [] | None \<Rightarrow> False)"
    "(if ec_broker code then (case oc of Some x \<Rightarrow> oc_plan x | None \<Rightarrow> None) else None) = Some p"
    "request_continuation_grant code env db c p = Inr (db1, gid, h)" by blast
  from request_granted [OF a(4)] assms(1) show ?thesis
    unfolding start_end_def a(1) Let_def sum.case if_not_P [OF a(2)] a(3) option.case a(4) prod.case
    by (auto simp: awaiting_def Let_def well_bound_def)
next
  case False
  then have "db' = db \<and> well_bound db c' \<and> d' = continuation_put c' d"
    using assms
    by (cases answer)
      (auto simp: start_end_def Let_def awaiting_def failed_with_def well_bound_def
        split: option.splits if_splits sum.splits)
  then show ?thesis by simp
qed

lemma confirm_check_ok:
  assumes "confirm_check code env d db c answer = (d', db', s)" and "well_bound db c" and "ec_broker code"
    and "map_of (db_plans db) [] = None"
  shows "grants_extend db db' \<and> (d' = d \<or> (\<exists>c'. well_bound db' c' \<and> d' = continuation_put c' d))
    \<and> (\<forall>c'. s = Waiting c' \<longrightarrow> well_bound db' c' \<and> \<not> settled_grant db (co_confirmation c) \<and> settled_grant db' (co_confirmation c)
         \<and> co_confirmation c \<noteq> []
         \<and> (\<exists>h. bind_result answer (check_digest code) = Inr h \<and> (h = None \<or> h = Some (co_plan_digest c))))"
proof (cases "bind_result answer (check_digest code)")
  case (Inl e)
  with assms(1) have "d' = continuation_put (execution_failed (ee_now env) ''execution_exception'' c) d" "db' = db"
    "s = Answered (execution_failed (ee_now env) ''execution_exception'' c)"
    by (auto simp: confirm_check_def Let_def)
  moreover have "well_bound db (execution_failed (ee_now env) ''execution_exception'' c)"
    using assms(2) by (simp add: execution_failed_def failed_with_def)
  ultimately show ?thesis by auto
next
  case (Inr h)
  show ?thesis
  proof (cases "h \<noteq> None \<and> h \<noteq> Some (co_plan_digest c)")
    case True
    define c' where "c' = add_event Material_Change_Detected
      (moved_to Replanning c\<lparr>co_summary := ''plan_changed_replanning_required''\<rparr>)"
    have "d' = continuation_put c' d" "db' = db" "s = Answered c'"
      using assms(1) True unfolding confirm_check_def Inr sum.case if_P [OF True] by (auto simp: Let_def c'_def)
    moreover have "well_bound db c'" using assms(2) by (simp add: c'_def)
    ultimately show ?thesis by auto
  next
    case False
    obtain db1 ok where g: "approve_plan_grant db (co_confirmation c) (co_user c) (ee_clock env) (ee_stamp env) = (db1, ok)"
      by fastforce
    have ext: "grants_extend db db1"
      using transition_extends [of db "co_confirmation c" Pending Approved "[(''user_id'', PStr (co_user c))]" "ee_clock env" "ee_stamp env"] g
      by (simp add: approve_plan_grant_def)
    note wb = well_bound_extend [OF ext assms(2)]
    show ?thesis
    proof (cases ok)
      case no: False
      define c' where "c' = moved_to Continuation_Denied c\<lparr>co_summary := ''grant_approval_failed''\<rparr>"
      have "d' = continuation_put c' d" "db' = db1" "s = Answered c'"
        using assms(1,3) g no unfolding confirm_check_def Inr sum.case if_not_P [OF False] by (auto simp: Let_def c'_def)
      moreover have "well_bound db1 c'" using wb by (simp add: c'_def)
      ultimately show ?thesis using ext by auto
    next
      case True
      have s: "\<not> settled_grant db (co_confirmation c)" "settled_grant db1 (co_confirmation c)"
        using approve_granted [of db "co_confirmation c" "co_user c" "ee_clock env" "ee_stamp env" db1] g True by simp_all
      have "co_confirmation c \<noteq> []"
        using s(2) ext assms(4) by (auto simp: settled_grant_def grants_extend_def)
      with assms Inr False g ext wb s True show ?thesis
        by (auto simp: confirm_check_def Let_def)
    qed
  qed
qed


lemma ran_delete: "ran (map_of (AList.delete k d)) \<subseteq> ran (map_of d)"
  by (auto simp: ran_def split: if_splits)

lemma executor_okI:
  assumes "executor_ok ex" and "grants_extend (ex_grants ex) db"
    and "\<And>c. c \<in> contexts (ex\<lparr>ex_store := d, ex_grants := db, ex_tasks := ts\<rparr>) \<Longrightarrow> c \<in> contexts ex \<or> well_bound db c"
  shows "executor_ok (ex\<lparr>ex_store := d, ex_grants := db, ex_tasks := ts\<rparr>)"
  unfolding executor_ok_def
proof (intro conjI ballI)
  fix c
  assume "c \<in> contexts (ex\<lparr>ex_store := d, ex_grants := db, ex_tasks := ts\<rparr>)"
  with assms(3) well_bound_extend [OF assms(2)] assms(1)
  show "well_bound (ex_grants (ex\<lparr>ex_store := d, ex_grants := db, ex_tasks := ts\<rparr>)) c" by (auto simp: executor_ok_def)
next
  have "runs_ok (ex\<lparr>ex_grants := db\<rparr>)" using assms(1,2) by (intro runs_ok_extend) (simp_all add: executor_ok_def)
  then show "runs_ok (ex\<lparr>ex_store := d, ex_grants := db, ex_tasks := ts\<rparr>)" by (simp add: runs_ok_def)
  show "map_of (db_plans (ex_grants (ex\<lparr>ex_store := d, ex_grants := db, ex_tasks := ts\<rparr>))) [] = None"
    using assms(1,2) by (simp add: executor_ok_def grants_extend_def)
qed

lemma bound_in: "bound_continuation d cid user session = Some c \<Longrightarrow> c \<in> ran (map_of d)"
  by (auto simp: bound_continuation_def ran_def split: option.splits if_splits)

lemma task_in: "map_of (ex_tasks ex) tid = Some t \<Longrightarrow> task_context t \<in> contexts ex"
  by (auto simp: contexts_def ran_def)

lemma start_begin_bound:
  assumes "start_begin d cid user session now = Waiting c"
  shows "\<exists>c0 \<in> ran (map_of d). \<forall>db. well_bound db c = well_bound db c0"
  using assms by (auto simp: start_begin_def dest!: bound_in split: option.splits if_splits)

lemma confirm_begin_bound:
  assumes "confirm_begin d cid user session approved = (d', s)"
  shows "(\<forall>c. s = Waiting c \<longrightarrow> c \<in> ran (map_of d))
    \<and> (d' = d \<or> (\<exists>c0 \<in> ran (map_of d). \<exists>c. (\<forall>db. well_bound db c = well_bound db c0) \<and> d' = continuation_put c d))"
  using assms by (auto simp: confirm_begin_def Let_def dest!: bound_in split: option.splits if_splits)
    (metis well_bound_simps(1,2))

lemma cancel_bound:
  assumes "cancel_continuation code env d db cid user session = (d', db', s)"
  shows "grants_extend db db'
    \<and> (d' = d \<or> (\<exists>c0 \<in> ran (map_of d). \<exists>c. (\<forall>db. well_bound db c = well_bound db c0) \<and> d' = continuation_put c d))"
proof (cases "bound_continuation d cid user session")
  case None
  with assms show ?thesis by (auto simp: cancel_continuation_def)
next
  case (Some c)
  define c' where "c' = add_event (Continuation_Dropped (co_confirmation c)) (moved_to Continuation_Cancelled c)"
  have wb: "well_bound db c' = well_bound db c" for db by (simp add: c'_def)
  from Some assms have "d' = d \<and> db' = db \<or> d' = continuation_put c' d \<and> grants_extend db db'"
    by (auto simp: cancel_continuation_def Let_def c'_def transition_extends split: if_splits)
  with wb bound_in [OF Some] show ?thesis by auto
qed

lemma confirm_end_bound:
  "\<exists>c'. (\<forall>db. well_bound db c' = well_bound db c) \<and> fst (confirm_end env d c answer) = continuation_put c' d"
proof -
  have "fst (confirm_end env d c answer) = continuation_put (snd (confirm_end env d c answer)) d"
    by (simp add: confirm_end_def Let_def)
  moreover have "well_bound db (snd (confirm_end env d c answer)) = well_bound db c" for db
    by (simp add: confirm_end_def Let_def failed_with_def split: sum.split option.split)
  ultimately show ?thesis by blast
qed

text \<open>What a step leaves in the store and among the tasks.\<close>

lemma contexts_others [simp]:
  "contexts (ex\<lparr>ex_grants := db\<rparr>) = contexts ex" "contexts (ex\<lparr>ex_runs := rs\<rparr>) = contexts ex"
  by (simp_all add: contexts_def)

definition stored_ok :: "executor \<Rightarrow> grant_db \<Rightarrow> continuations \<Rightarrow> bool" where
  "stored_ok ex db d \<longleftrightarrow> d = ex_store ex \<or> (\<exists>c'. well_bound db c' \<and> d = continuation_put c' (ex_store ex))"

lemma contexts_step:
  assumes "stored_ok ex db d"
    and "\<And>c. c \<in> task_context ` ran (map_of ts) \<Longrightarrow> c \<in> contexts ex \<or> well_bound db c"
    and "c \<in> contexts (ex\<lparr>ex_store := d, ex_grants := db, ex_tasks := ts\<rparr>)"
  shows "c \<in> contexts ex \<or> well_bound db c"
proof -
  have "c \<in> ran (map_of d) \<or> c \<in> task_context ` ran (map_of ts)" using assms(3) by (auto simp: contexts_def)
  then show ?thesis
  proof
    assume "c \<in> ran (map_of d)"
    with assms(1) show ?thesis
      by (auto simp: stored_ok_def contexts_def continuation_put_def ran_def split: if_splits)
  qed (rule assms(2))
qed

lemma waiting_tasks:
  assumes "c \<in> task_context ` ran (map_of (wait_for tid mk s (ex_tasks ex)))"
    and "\<And>c'. s = Waiting c' \<Longrightarrow> task_context (mk c') \<in> contexts ex \<or> well_bound db (task_context (mk c'))"
  shows "c \<in> contexts ex \<or> well_bound db c"
  using assms by (cases s) (auto simp: contexts_def wait_for_def ran_def update_conv split: if_splits)

lemma deleted_tasks: "c \<in> task_context ` ran (map_of (AList.delete tid (ex_tasks ex))) \<Longrightarrow> c \<in> contexts ex"
  by (auto simp: contexts_def ran_def split: if_splits)

lemma executor_ok_grown:
  assumes "executor_ok ex" and "grants_extend (ex_grants ex) db" and "stored_ok ex db d"
    and "\<And>c. c \<in> task_context ` ran (map_of ts) \<Longrightarrow> c \<in> contexts ex \<or> well_bound db c"
  shows "executor_ok (ex\<lparr>ex_store := d, ex_grants := db, ex_tasks := ts\<rparr>)"
  by (rule executor_okI [OF assms(1,2)]) (rule contexts_step [OF assms(3,4)])

lemma executor_ok_run:
  assumes "executor_ok ex" and "settled_grant (ex_grants ex) (rn_confirmation r)"
    and "grant_of (ex_grants ex) (rn_confirmation r) (rn_digest r) (rn_user r) s"
    and "rn_check r = None \<or> rn_check r = Some (rn_digest r)"
    and "rn_confirmation r \<notin> set (map rn_confirmation (ex_runs ex))"
  shows "executor_ok (ex\<lparr>ex_runs := ex_runs ex @ [r]\<rparr>)"
proof -
  have "count_list (map rn_confirmation (ex_runs ex)) (rn_confirmation r) = 0" using assms(5) by (simp add: count_list_0_iff)
  with assms show ?thesis unfolding executor_ok_def runs_ok_def by (auto split: if_splits)
qed

lemma run_is_new: "executor_ok ex \<Longrightarrow> \<not> settled_grant (ex_grants ex) gid \<Longrightarrow> gid \<notin> set (map rn_confirmation (ex_runs ex))"
  by (auto simp: executor_ok_def runs_ok_def)

lemma executor_same: "ex\<lparr>ex_store := ex_store ex, ex_grants := ex_grants ex, ex_tasks := ts\<rparr> = ex\<lparr>ex_tasks := ts\<rparr>"
  by simp

lemma check_step_ok:
  assumes ok: "executor_ok ex" and b: "ec_broker code" and t: "map_of (ex_tasks ex) tid = Some (Checking c)"
  shows "executor_ok (executor_step code ex (Check_Confirm tid env answer))"
proof -
  obtain d db s where r: "confirm_check code env (ex_store ex) (ex_grants ex) c answer = (d, db, s)"
    by (metis prod_cases3)
  define ex1 where "ex1 = ex\<lparr>ex_store := d, ex_grants := db, ex_tasks := wait_for tid Running s (ex_tasks ex)\<rparr>"
  have wb: "well_bound (ex_grants ex) c" using ok task_in [OF t] by (simp add: executor_ok_def)
  have no: "map_of (db_plans (ex_grants ex)) [] = None" using ok by (simp add: executor_ok_def)
  note cc = confirm_check_ok [OF r wb b no]
  have ok1: "executor_ok ex1"
    unfolding ex1_def
  proof (rule executor_ok_grown [OF ok])
    show "stored_ok ex db d" using cc by (auto simp: stored_ok_def)
    fix c1
    assume "c1 \<in> task_context ` ran (map_of (wait_for tid Running s (ex_tasks ex)))"
    then show "c1 \<in> contexts ex \<or> well_bound db c1" by (rule waiting_tasks) (use cc in simp)
  qed (use cc in simp)
  show ?thesis
  proof (cases "\<exists>c'. s = Waiting c'")
    case True
    then obtain c' h where s: "s = Waiting c'" "bind_result answer (check_digest code) = Inr h" "h = None \<or> h = Some (co_plan_digest c)"
      and st: "\<not> settled_grant (ex_grants ex) (co_confirmation c)" "settled_grant db (co_confirmation c)" "co_confirmation c \<noteq> []"
      using cc by blast
    define rec where "rec = \<lparr>rn_confirmation = co_confirmation c, rn_digest = co_plan_digest c, rn_check = h, rn_user = co_user c\<rparr>"
    have "grant_of db (co_confirmation c) (co_plan_digest c) (co_user c) (co_session c)"
      using well_bound_extend [OF _ wb, of db] cc st(3) by (simp add: well_bound_def)
    then have "executor_ok (ex1\<lparr>ex_runs := ex_runs ex1 @ [rec]\<rparr>)"
      by (intro executor_ok_run [OF ok1])
        (use st s(3) run_is_new [OF ok st(1)] in \<open>simp_all add: rec_def ex1_def\<close>)
    moreover have "executor_step code ex (Check_Confirm tid env answer) = ex1\<lparr>ex_runs := ex_runs ex1 @ [rec]\<rparr>"
      by (simp add: t r s(1,2) ex1_def rec_def)
    ultimately show ?thesis by simp
  next
    case False
    then have "executor_step code ex (Check_Confirm tid env answer) = ex1"
      by (cases s) (simp_all add: t r ex1_def)
    with ok1 show ?thesis by simp
  qed
qed

lemma start_step_ok:
  assumes ok: "executor_ok ex" and t: "map_of (ex_tasks ex) tid = Some (Starting c)"
  shows "executor_ok (executor_step code ex (End_Start tid env answer))"
proof -
  obtain d db c' where r: "start_end code env (ex_store ex) (ex_grants ex) c answer = (d, db, c')" by (metis prod_cases3)
  have "well_bound (ex_grants ex) c" using ok task_in [OF t] by (simp add: executor_ok_def)
  note se = start_end_ok [OF r this]
  have "executor_ok (ex\<lparr>ex_store := d, ex_grants := db, ex_tasks := AList.delete tid (ex_tasks ex)\<rparr>)"
    by (rule executor_ok_grown [OF ok]) (use se deleted_tasks in \<open>auto simp: stored_ok_def\<close>)
  then show ?thesis by (simp add: t r)
qed

lemma executor_step_ok:
  assumes "ec_broker code" and ok: "executor_ok ex"
  shows "executor_ok (executor_step code ex op)"
proof (cases op)
  case (Begin_Start tid cid user session now)
  have wb: "well_bound (ex_grants ex) c" if "start_begin (ex_store ex) cid user session now = Waiting c" for c
    using start_begin_bound [OF that] ok by (auto simp: executor_ok_def contexts_def)
  have "executor_ok (ex\<lparr>ex_store := ex_store ex, ex_grants := ex_grants ex,
      ex_tasks := wait_for tid Starting (start_begin (ex_store ex) cid user session now) (ex_tasks ex)\<rparr>)"
  proof (rule executor_ok_grown [OF ok])
    fix c
    assume "c \<in> task_context ` ran (map_of (wait_for tid Starting (start_begin (ex_store ex) cid user session now) (ex_tasks ex)))"
    then show "c \<in> contexts ex \<or> well_bound (ex_grants ex) c" by (rule waiting_tasks) (use wb in simp)
  qed (simp_all add: stored_ok_def)
  then show ?thesis unfolding executor_same Begin_Start executor_step.simps .
next
  case (End_Start tid env answer)
  with start_step_ok [OF ok] ok show ?thesis by (auto split: option.split task.split)
next
  case (Begin_Confirm tid cid user session approved)
  obtain d s where r: "confirm_begin (ex_store ex) cid user session approved = (d, s)" by fastforce
  note cb = confirm_begin_bound [OF r]
  have "executor_ok (ex\<lparr>ex_store := d, ex_grants := ex_grants ex, ex_tasks := wait_for tid Checking s (ex_tasks ex)\<rparr>)"
  proof (rule executor_ok_grown [OF ok])
    show "stored_ok ex (ex_grants ex) d"
      using cb ok by (auto simp: stored_ok_def executor_ok_def contexts_def)
    fix c
    assume "c \<in> task_context ` ran (map_of (wait_for tid Checking s (ex_tasks ex)))"
    then show "c \<in> contexts ex \<or> well_bound (ex_grants ex) c"
      by (rule waiting_tasks) (use cb in \<open>auto simp: contexts_def\<close>)
  qed simp
  then show ?thesis by (simp add: Begin_Confirm r)
next
  case (Check_Confirm tid env answer)
  with check_step_ok [OF ok assms(1)] ok show ?thesis by (auto split: option.split task.split)
next
  case (End_Confirm tid env answer)
  show ?thesis
  proof (cases "\<exists>c. map_of (ex_tasks ex) tid = Some (Running c)")
    case True
    then obtain c where t: "map_of (ex_tasks ex) tid = Some (Running c)" by blast
    have wb: "well_bound (ex_grants ex) c" using ok task_in [OF t] by (simp add: executor_ok_def)
    have "executor_ok (ex\<lparr>ex_store := fst (confirm_end env (ex_store ex) c answer), ex_grants := ex_grants ex,
        ex_tasks := AList.delete tid (ex_tasks ex)\<rparr>)"
      by (rule executor_ok_grown [OF ok])
        (use confirm_end_bound [of c env "ex_store ex" answer] wb deleted_tasks in \<open>auto simp: stored_ok_def\<close>)
    with t show ?thesis by (simp add: End_Confirm)
  next
    case False
    with ok show ?thesis by (auto simp: End_Confirm split: option.split task.split)
  qed
next
  case (Cancel_Continuation env cid user session)
  obtain d db s where r: "cancel_continuation code env (ex_store ex) (ex_grants ex) cid user session = (d, db, s)" by (metis prod_cases3)
  note ca = cancel_bound [OF r]
  have "executor_ok (ex\<lparr>ex_store := d, ex_grants := db, ex_tasks := ex_tasks ex\<rparr>)"
  proof (rule executor_ok_grown [OF ok])
    show "stored_ok ex db d"
      using ca ok well_bound_extend [of "ex_grants ex" db] by (auto simp: stored_ok_def executor_ok_def contexts_def)
  qed (use ca in \<open>auto simp: contexts_def\<close>)
  then show ?thesis by (simp add: Cancel_Continuation r)
next
  case (Other_Grant gop)
  have "executor_ok (ex\<lparr>ex_store := ex_store ex, ex_grants := grant_step (ex_grants ex) gop, ex_tasks := ex_tasks ex\<rparr>)"
    by (rule executor_ok_grown [OF ok grant_step_extends]) (auto simp: stored_ok_def contexts_def)
  then show ?thesis by (simp add: Other_Grant)
qed

lemma executor_runs_ok:
  assumes "ec_broker code" and "executor_ok ex"
  shows "executor_ok (foldl (executor_step code) ex ops)"
  using assms(2) by (induction ops arbitrary: ex) (simp_all add: executor_step_ok [OF assms(1)])

lemma run_count:
  assumes "runs_ok ex"
  shows "count_list (map rn_confirmation (ex_runs ex)) gid \<le> 1"
proof -
  from assms have "count_list (map rn_confirmation (ex_runs ex)) gid \<le> (if settled_grant (ex_grants ex) gid then 1 else 0)"
    unfolding runs_ok_def by blast
  then show ?thesis by (cases "settled_grant (ex_grants ex) gid") simp_all
qed

lemma distinct_count_list: "(\<And>x. count_list xs x \<le> 1) \<Longrightarrow> distinct xs"
proof (induction xs)
  case (Cons y ys)
  have "count_list ys x \<le> 1" for x using Cons.prems [of x] by (auto split: if_splits)
  moreover have "count_list ys y = 0" using Cons.prems [of y] by simp
  ultimately show ?case using Cons.IH by (simp add: count_list_0_iff)
qed simp

text \<open>
  C30: However the requests of a user to start, to confirm and to cancel continuations interleave with each other and
  with every other use of the grants, each confirmation leads to at most one run that is not dry. Each such run has a
  plan grant of the same user, which carries the digest noted in the continuation and is no longer pending, and when
  the second dry run gave a plan its digest was the same. This holds where there is a confirmation broker. (The digest
  says nothing of the plan: it is the same for all.)
\<close>

theorem executions_approved_once:
  assumes "ec_broker code" and "ex_runs ex = []" and "ex_tasks ex = []"
    and "\<forall>c \<in> ran (map_of (ex_store ex)). co_confirmation c = []" and "map_of (db_plans (ex_grants ex)) [] = None"
  shows "distinct (map rn_confirmation (ex_runs (foldl (executor_step code) ex ops)))
    \<and> (\<forall>r \<in> set (ex_runs (foldl (executor_step code) ex ops)).
         (rn_check r = None \<or> rn_check r = Some (rn_digest r))
         \<and> (\<exists>row. map_of (db_plans (ex_grants (foldl (executor_step code) ex ops))) (rn_confirmation r) = Some row
              \<and> pl_status row \<noteq> Pending \<and> pl_plan_hash row = rn_digest r \<and> pl_user_id row = rn_user r))"
proof -
  let ?e = "foldl (executor_step code) ex ops"
  have "executor_ok ex"
    using assms(2-5) by (auto simp: executor_ok_def contexts_def runs_ok_def well_bound_def)
  then have ok: "runs_ok ?e" using executor_runs_ok [OF assms(1), of ex ops] unfolding executor_ok_def by blast
  have "count_list (map rn_confirmation (ex_runs ?e)) gid \<le> 1" for gid
    by (rule run_count [OF ok])
  then have "distinct (map rn_confirmation (ex_runs ?e))" by (rule distinct_count_list)
  with ok show ?thesis unfolding runs_ok_def settled_grant_def grant_of_def by fastforce
qed

definition demo_code :: executor_code where
  "demo_code = \<lparr>ec_sha = (\<lambda>s. ''h''), ec_num = (\<lambda>r. PInt 0), ec_broker = True\<rparr>"

definition demo_env :: executor_env where
  "demo_env = \<lparr>ee_now = 1, ee_clock = ''1'', ee_stamp = ''1'', ee_grant = ''g'', ee_expires = ''9''\<rparr>"

definition demo_continuation :: continuation where
  "demo_continuation =
     \<lparr>co_id = ''c'', co_request = ''r'', co_correlation = ''k'', co_clarification = ''q'', co_clarification_version = 1,
      co_selected = [], co_response = [], co_utterance = ''open'', co_target = [], co_from_candidate = False, co_user = ''u'',
      co_session = ''s'', co_created = 0, co_flags = no_change, co_prior_action = [], co_prior_argument = [],
      co_plan_digest = [], co_confirmation = [], co_new_correlation = [], co_parent = [], co_state = Created, co_version = 1,
      co_key = [], co_summary = [], co_execution = [], co_started = None, co_completed = None, co_events = []\<rparr>"

definition demo_planned :: execution_plan where
  "demo_planned =
     (let i = \<lparr>in_action = ''open'', in_target = [], in_params = [], in_confidence = 1\<rparr> in
      \<lparr>xp_intent = i,
       xp_plan = \<lparr>pl_steps = [], pl_intent = i, pl_risk = 0, pl_duration = 0, pl_description = ''p'', pl_goal = None\<rparr>,
       xp_tool_id = ''t'', xp_tool_params = []\<rparr>)"

definition demo_answer :: "outcome option result" where
  "demo_answer = Inr (Some \<lparr>oc_error = [], oc_plan = Some demo_planned,
    oc_approved = True, oc_execution = ''x'', oc_summary = []\<rparr>)"

definition demo_executor :: executor where
  "demo_executor = \<lparr>ex_store = [(''c'', demo_continuation)], ex_grants = \<lparr>db_plans = [], db_steps = [], db_audit = []\<rparr>,
     ex_tasks = [], ex_runs = []\<rparr>"

definition demo_ops :: "executor_op list" where
  "demo_ops = [Begin_Start 1 ''c'' ''u'' ''s'' 1, End_Start 1 demo_env demo_answer, Begin_Confirm 1 ''c'' ''u'' ''s'' True,
     Begin_Confirm 2 ''c'' ''u'' ''s'' True, Check_Confirm 1 demo_env demo_answer, Check_Confirm 2 demo_env demo_answer]"

lemma demo_runs_once: "map rn_confirmation (ex_runs (foldl (executor_step demo_code) demo_executor demo_ops)) = [''g'']"
  by code_simp

theorem executions_approved_once_witness:
  "distinct (map rn_confirmation (ex_runs (foldl (executor_step demo_code) demo_executor demo_ops)))
    \<and> map rn_confirmation (ex_runs (foldl (executor_step demo_code) demo_executor demo_ops)) = [''g'']"
  using executions_approved_once [of demo_code demo_executor demo_ops] demo_runs_once
  by (simp add: demo_code_def demo_executor_def demo_continuation_def ran_def)

lemma digest_same: "safe_plan_dict num (An_Execution p) = safe_plan_dict num (An_Execution q)"
  by (simp add: safe_plan_dict_def)

lemma start_end_digest:
  assumes "ec_broker code" and "start_end code env d db c (Inr (Some x)) = (d1, db1, c1)"
    and "oc_plan x = Some p" and "co_confirmation c = []" and "co_confirmation c1 \<noteq> []"
  shows "\<exists>payload. canonical_plan (ec_sha code) (safe_plan_dict (ec_num code) (An_Execution p)) = Inr (payload, co_plan_digest c1)"
  using assms
  by (auto simp: start_end_def Let_def awaiting_def failed_with_def request_continuation_grant_def
      split: sum.splits if_splits)

text \<open>
  C31: A changed plan is executed. When the first dry run got a plan grant for its plan and the user confirms, the
  comparison with the second dry run passes for every plan that this may give, with or without an error: as soon as the
  grant can be approved, the handler goes on to execute the request under that grant.
\<close>

theorem changed_plan_executes:
  assumes "ec_broker code" and "start_end code env d db c (Inr (Some x)) = (d1, db1, c1)"
    and "oc_plan x = Some p" and "co_confirmation c = []" and "co_confirmation c1 \<noteq> []"
    and "oc_plan y = Some q"
    and "snd (approve_plan_grant db2 (co_confirmation c1) (co_user c1) (ee_clock env2) (ee_stamp env2))"
  shows "\<exists>db3 c2. confirm_check code env2 d2 db2 c1 (Inr (Some y)) = (d2, db3, Waiting c2) \<and> co_confirmation c2 = co_confirmation c1"
proof -
  obtain payload where c: "canonical_plan (ec_sha code) (safe_plan_dict (ec_num code) (An_Execution p)) = Inr (payload, co_plan_digest c1)"
    using start_end_digest [OF assms(1-5)] by blast
  have "check_digest code (Some y) = Inr (Some (co_plan_digest c1))"
    unfolding check_digest_def using assms(1,6) c [unfolded digest_same [of _ p q]] by simp
  with assms(1,7) show ?thesis by (simp add: confirm_check_def Let_def)
qed

definition other_planned :: execution_plan where
  "other_planned = demo_planned\<lparr>xp_plan := (xp_plan demo_planned)\<lparr>pl_steps := [simple_step ''a'' ''filesystem.delete'' ''delete'' ''high''],
     pl_risk := 1, pl_description := ''delete''\<rparr>\<rparr>"

theorem changed_plan_executes_witness:
  "\<exists>d1 db1 c1 db3 c2. start_end demo_code demo_env [] empty_db (demo_continuation\<lparr>co_state := Replanning\<rparr>) demo_answer = (d1, db1, c1)
     \<and> confirm_check demo_code demo_env d1 db1 c1
         (Inr (Some \<lparr>oc_error = [], oc_plan = Some other_planned, oc_approved = True, oc_execution = [], oc_summary = []\<rparr>))
       = (d1, db3, Waiting c2)"
proof -
  let ?c = "demo_continuation\<lparr>co_state := Replanning\<rparr>"
  obtain d1 db1 c1 where s: "start_end demo_code demo_env [] empty_db ?c demo_answer = (d1, db1, c1)" by (metis prod_cases3)
  have "case start_end demo_code demo_env [] empty_db ?c demo_answer of (d1, db1, c1) \<Rightarrow>
      co_confirmation c1 \<noteq> [] \<and> snd (approve_plan_grant db1 (co_confirmation c1) (co_user c1) (ee_clock demo_env) (ee_stamp demo_env))"
    by code_simp
  then have g: "co_confirmation c1 \<noteq> []"
    "snd (approve_plan_grant db1 (co_confirmation c1) (co_user c1) (ee_clock demo_env) (ee_stamp demo_env))" unfolding s by simp_all
  have b: "ec_broker demo_code" "co_confirmation ?c = []" by (simp_all add: demo_code_def demo_continuation_def)
  from changed_plan_executes [OF b(1) s [unfolded demo_answer_def] _ b(2) g(1) _ g(2), of demo_planned
      "\<lparr>oc_error = [], oc_plan = Some other_planned, oc_approved = True, oc_execution = [], oc_summary = []\<rparr>" other_planned d1]
  obtain db3 c2 where "confirm_check demo_code demo_env d1 db1 c1
      (Inr (Some \<lparr>oc_error = [], oc_plan = Some other_planned, oc_approved = True, oc_execution = [], oc_summary = []\<rparr>))
    = (d1, db3, Waiting c2)" by auto
  with s show ?thesis by blast
qed

text \<open>
  Whether the second dry run succeeds is not looked at: when it fails, its result carries a plan all the same, and the
  request is executed.
\<close>

theorem failed_check_executes:
  "ex_runs (foldl (executor_step demo_code) demo_executor
      [Begin_Start 1 ''c'' ''u'' ''s'' 1, End_Start 1 demo_env demo_answer, Begin_Confirm 1 ''c'' ''u'' ''s'' True,
       Check_Confirm 1 demo_env (Inr (Some \<lparr>oc_error = ''no plan'', oc_plan = Some demo_planned, oc_approved = False,
         oc_execution = [], oc_summary = []\<rparr>))])
     = [\<lparr>rn_confirmation = ''g'', rn_digest = ''h'', rn_check = Some ''h'', rn_user = ''u''\<rparr>]"
  by code_simp

text \<open>
  A continuation whose digest has changed between the two dry runs asks for planning again, but is in a state from
  which it can be neither started nor confirmed.
\<close>

theorem replanning_is_stuck:
  "(\<forall>c. map_of d cid = Some c \<longrightarrow> co_state c = Replanning)
    \<Longrightarrow> start_begin d cid user session now \<in> {No_Continuation} \<union> range Answered
      \<and> fst (confirm_begin d cid user session approved) = d
      \<and> snd (confirm_begin d cid user session approved) \<in> {No_Continuation} \<union> range Answered"
  by (auto simp: start_begin_def confirm_begin_def bound_continuation_def split: option.split)

text \<open>
  A continuation that is cancelled while it executes ends as completed when the execution succeeds.
\<close>

theorem cancel_is_overwritten:
  assumes "co_state c = Executing" and "oc_error x = []" and "oc_approved x"
  shows "\<exists>c'. map_of (fst (confirm_end env (fst (cancel_continuation code env0 d db (co_id c) user session)) c (Inr (Some x)))) (co_id c)
      = Some c' \<and> co_state c' = Verified_Completed"
  using assms
  by (auto simp: confirm_end_def Let_def continuation_put_def continuation_move_def add_event_def update_conv)

end
