(* ===== verification/Step_Execution.thy ===== *)
theory Step_Execution
  imports Tool_Guard Risk Rate_Limiter
begin

text \<open>
  One step of a plan, \<open>Orchestrator._execute_single_step\<close> of \<open>sentinel/core/orchestrator.py\<close>: the placeholders in
  its parameters, the rate limit of its tool, the step grant of an approved plan, and the call through the execution
  pipeline with its retries and fallbacks. The world is the guard with the gateway behind it; the confirmation broker
  and the guard share one grant repository. What surrounds the calls (clocks, drawn identifiers, the answers of the
  tools) is a function of the number of calls made so far. Telemetry, events and the records for model selection are
  left out, as are the entries of the context that nothing behind the pipeline reads and the waiting time in the
  answer of a reached limit.
\<close>

section \<open>Results\<close>

record step_result =
  sr_id :: string
  sr_tool :: string
  sr_success :: bool
  sr_data :: pyval
  sr_error :: "string option"
  sr_duration :: "rat option"
  sr_requires_confirmation :: bool
  sr_policy :: "params option"
  sr_quality :: "params option"
  sr_attempts :: nat
  sr_strategy :: string
  sr_executed :: "string option"
  sr_skipped :: bool
  sr_time :: string

definition step_failed :: "step \<Rightarrow> string \<Rightarrow> pyval \<Rightarrow> step_result" where
  \<comment> \<open>a result with the defaults of the class\<close>
  "step_failed st err data =
     \<lparr>sr_id = ps_id st, sr_tool = ps_tool_id st, sr_success = False, sr_data = data, sr_error = Some err,
      sr_duration = None, sr_requires_confirmation = False, sr_policy = None, sr_quality = None, sr_attempts = 0,
      sr_strategy = ''none'', sr_executed = None, sr_skipped = False, sr_time = []\<rparr>"

definition or_text :: "string option \<Rightarrow> string option \<Rightarrow> string option" where
  "or_text a b = (case a of Some (c # cs) \<Rightarrow> a | _ \<Rightarrow> b)"

definition or_params :: "params option \<Rightarrow> params option \<Rightarrow> params option" where
  "or_params a b = (case a of Some (p # ps) \<Rightarrow> a | _ \<Rightarrow> b)"

definition or_zero :: "rat option \<Rightarrow> rat" where
  "or_zero d = (case d of Some x \<Rightarrow> x | None \<Rightarrow> 0)"

definition merge_tool_result :: "tool_result option \<Rightarrow> step_result \<Rightarrow> tool_result" where
  "merge_tool_result cur r =
     (case cur of
        None \<Rightarrow>
          \<lparr>tr_success = sr_success r, tr_data = sr_data r, tr_error = sr_error r, tr_tool_id = sr_tool r,
           tr_duration_ms = sr_duration r, tr_requires_confirmation = sr_requires_confirmation r,
           tr_policy_decision = None, tr_policy_result = sr_policy r, tr_quality_result = sr_quality r\<rparr>
      | Some c \<Rightarrow>
          if \<not> tr_success c \<or> \<not> sr_success r then
            \<lparr>tr_success = False, tr_data = PNone, tr_error = or_text (tr_error c) (sr_error r), tr_tool_id = tr_tool_id c,
             tr_duration_ms = Some (or_zero (tr_duration_ms c) + or_zero (sr_duration r)),
             tr_requires_confirmation = (tr_requires_confirmation c \<or> sr_requires_confirmation r),
             tr_policy_decision = None, tr_policy_result = or_params (sr_policy r) (tr_policy_result c),
             tr_quality_result = or_params (sr_quality r) (tr_quality_result c)\<rparr>
          else
            \<lparr>tr_success = True, tr_data = py_or (sr_data r) (tr_data c), tr_error = None, tr_tool_id = tr_tool_id c,
             tr_duration_ms = Some (or_zero (tr_duration_ms c) + or_zero (sr_duration r)),
             tr_requires_confirmation = sr_requires_confirmation r,
             tr_policy_decision = None, tr_policy_result = or_params (sr_policy r) (tr_policy_result c),
             tr_quality_result = or_params (sr_quality r) (tr_quality_result c)\<rparr>)"


section \<open>Placeholders\<close>

fun split_char :: "char \<Rightarrow> string \<Rightarrow> string list" where
  \<comment> \<open>\<open>s.split(c)\<close>\<close>
  "split_char c [] = [[]]"
| "split_char c (x # xs) =
     (if x = c then [] # split_char c xs else (x # hd (split_char c xs)) # tl (split_char c xs))"

definition digits_value :: "string \<Rightarrow> nat" where
  "digits_value s = nat (case parse_nat s of Some i \<Rightarrow> i | None \<Rightarrow> 0)"

definition all_digits :: "string \<Rightarrow> bool" where
  \<comment> \<open>\<open>isdigit\<close> of ASCII text\<close>
  "all_digits s \<longleftrightarrow> s \<noteq> [] \<and> list_all (\<lambda>c. digit_value c \<noteq> None) s"

definition get_part :: "string \<Rightarrow> pyval \<Rightarrow> string \<Rightarrow> pyval result" where
  \<comment> \<open>one part of a path; the text of the inner exception is left out of the message\<close>
  "get_part path v part =
     (let failed = Inl (ValueError (''cannot resolve '' @ quoted part @ '' in '' @ path));
          n = digits_value part
      in if all_digits part then
           (case v of
              PList xs \<Rightarrow> if n < length xs then Inr (xs ! n) else failed
            | PStr s \<Rightarrow> if n < length s then Inr (PStr [s ! n]) else failed
            | _ \<Rightarrow> failed)
         else (case v of PDict d \<Rightarrow> (case map_of d part of Some x \<Rightarrow> Inr x | None \<Rightarrow> failed) | _ \<Rightarrow> failed))"

fun get_path :: "string \<Rightarrow> pyval \<Rightarrow> string list \<Rightarrow> pyval result" where
  "get_path path v [] = Inr v"
| "get_path path v (p # ps) = bind_result (get_part path v p) (\<lambda>x. get_path path x ps)"

definition resolve_placeholder :: "string \<Rightarrow> params \<Rightarrow> step_result list \<Rightarrow> pyval result" where
  "resolve_placeholder path ctx results =
     (case split_char CHR ''.'' path of
        [] \<Rightarrow> Inl (ValueError ''empty placeholder'')
      | start # rest \<Rightarrow>
          if start = ''parameters'' then get_path path (dict_get ctx ''parameters'' (PDict [])) rest
          else if start = ''steps'' then
            (case rest of
               i # d # rest' \<Rightarrow>
                 if d \<noteq> ''data'' then Inl (ValueError (''invalid step placeholder: '' @ path))
                 else
                   (case find (\<lambda>r. sr_id r = i) results of
                      None \<Rightarrow> Inl (ValueError (''step '' @ quoted i @ '' not found for placeholder '' @ path))
                    | Some r \<Rightarrow> get_path path (py_or (sr_data r) (PDict [])) rest')
             | _ \<Rightarrow> Inl (ValueError (''invalid step placeholder: '' @ path)))
          else Inl (ValueError (''unknown placeholder root: '' @ start)))"

definition is_placeholder :: "pyval \<Rightarrow> string option" where
  "is_placeholder v =
     (case v of
        PStr s \<Rightarrow>
          if prefix ''{{'' s \<and> suffix ''}}'' s then Some (strip (drop 2 (take (length s - 2) s))) else None
      | _ \<Rightarrow> None)"

fun resolve_params :: "params \<Rightarrow> params \<Rightarrow> step_result list \<Rightarrow> params result" where
  "resolve_params [] ctx results = Inr []"
| "resolve_params ((k, v) # ps) ctx results =
     bind_result (case is_placeholder v of None \<Rightarrow> Inr v | Some path \<Rightarrow> resolve_placeholder path ctx results) (\<lambda>x.
       bind_result (resolve_params ps ctx results) (\<lambda>qs. Inr ((k, x) # qs)))"

definition setdefault :: "string \<Rightarrow> pyval \<Rightarrow> params \<Rightarrow> params" where
  "setdefault k v d = (if map_of d k = None then AList.update k v d else d)"

definition default_params :: "string \<Rightarrow> params \<Rightarrow> params \<Rightarrow> params" where
  \<comment> \<open>what a tool takes from the parameters of the intent\<close>
  "default_params tool ips ps =
     (if tool = ''executor.command'' then setdefault ''command'' (dict_get ips ''command'' (PStr [])) ps
      else if tool = ''executor.kill'' then setdefault ''pid'' (pget ips ''pid'') ps
      else if tool = ''executor.launch'' then
        setdefault ''elevated'' (PBool (truthy (dict_get ips ''elevated'' (PBool False))))
          (setdefault ''app_name'' (py_or (pget ips ''app_name'') (dict_get ips ''command'' (PStr []))) ps)
      else if tool = ''filesystem.search'' then
        setdefault ''root'' (dict_get ips ''root'' (PStr (win ''C:/'')))
          (setdefault ''query'' (dict_get ips ''query'' (PStr [])) ps)
      else ps)"


section \<open>The step\<close>

record orchestra =
  os_world :: guarded
  os_limiter :: rate_limiter
  os_calls :: nat

record orch_code =
  ox_env :: "nat \<Rightarrow> guard_env"
  ox_elapsed :: "nat \<Rightarrow> rat"
  ox_mono :: "nat \<Rightarrow> rat"
  ox_wall :: "nat \<Rightarrow> rat"
  ox_grant_id :: "nat \<Rightarrow> string"
  ox_stamp :: "nat \<Rightarrow> string"
  ox_sha :: "string \<Rightarrow> string"
  ox_broker :: bool
  ox_limits :: "(string \<times> int) list option"
  ox_conservative :: bool
  ox_model :: "step \<Rightarrow> params option"

text \<open>\<open>ox_env\<close> surrounds the calls, \<open>ox_elapsed\<close> measures them; then the two clocks of the limiter, the drawn grant
  identifiers and the time stamps, the configured limits (none without a limiter) and the model routed to a step.\<close>

definition conservative_blocked :: "string list" where
  "conservative_blocked =
     [''filesystem.write'', ''filesystem.delete'', ''executor.command'', ''executor.launch'', ''executor.kill'',
      ''executor.restart'']"

definition conservative_text :: string where
  "conservative_text =
     ''Esta acci'' @ o_acute @ ''n est'' @ [CHR 0xC3, CHR 0xA1] @ '' bloqueada por configuraci'' @ o_acute @ ''n de seguridad.''"

definition tool_category :: "string \<Rightarrow> string" where
  "tool_category tool = first_part ''.'' tool"

definition identity_of :: "params \<Rightarrow> params" where
  \<comment> \<open>\<open>context.get("identity") or {}\<close>, when it is a dictionary\<close>
  "identity_of ctx = as_dict (pget ctx ''identity'')"

definition own_text :: "params \<Rightarrow> string \<Rightarrow> string" where
  "own_text ctx k = str_of (dict_get (identity_of ctx) k (PStr []))"

definition limit_step :: "orch_code \<Rightarrow> params \<Rightarrow> step \<Rightarrow> orchestra \<Rightarrow> orchestra \<times> step_result option result" where
  \<comment> \<open>the limit of the tool's category, when there is one\<close>
  "limit_step code ctx st os =
     (let cat = tool_category (ps_tool_id st) in
      case Option.bind (ox_limits code) (\<lambda>c. map_of c (''tool:'' @ cat)) of
        None \<Rightarrow> (os, Inr None)
      | Some limit \<Rightarrow>
          (case rl_allow (os_limiter os) (''tool:'' @ cat @ '':'' @ ps_tool_id st) limit
                  (ox_mono code (os_calls os)) (ox_wall code (os_calls os))
                  (str_of (dict_get (identity_of ctx) ''tier'' (PStr ''free''))) of
             Inl e \<Rightarrow> (os, Inl e)
           | Inr (l, d) \<Rightarrow>
               (os\<lparr>os_limiter := l\<rparr>,
                Inr (if rd_allowed d then None
                  else Some (step_failed st (''Rate limit exceeded for tool category '' @ quoted cat)
                    (PDict [(''rate_limited'', PBool True), (''tool_category'', PStr cat)]))))))"

definition grants_of :: "orchestra \<Rightarrow> grant_db" where
  "grants_of os = gd_grants (fst (os_world os))"

definition with_grants :: "grant_db \<Rightarrow> orchestra \<Rightarrow> orchestra" where
  "with_grants db os = os\<lparr>os_world := ((fst (os_world os))\<lparr>gd_grants := db\<rparr>, snd (os_world os))\<rparr>"

definition caller_hash :: "orch_code \<Rightarrow> params \<Rightarrow> string" where
  "caller_hash code ctx =
     broker_hash (ox_sha code)
       (PDict [(''user_id'', PStr (own_text ctx ''user_id'')), (''session_id'', PStr (own_text ctx ''session_id''))])"

datatype granted = Ungranted | Granted grant_context | Grant_Refused step_result

definition refused :: "step \<Rightarrow> py_exc \<Rightarrow> granted result" where
  \<comment> \<open>\<open>except (PermissionError, ValueError)\<close>\<close>
  "refused st e =
     (case e of
        PermissionError m \<Rightarrow> Inr (Grant_Refused (step_failed st m PNone))
      | ValueError m \<Rightarrow> Inr (Grant_Refused (step_failed st m PNone))
      | _ \<Rightarrow> Inl e)"

definition grant_step_for :: "orch_code \<Rightarrow> params \<Rightarrow> (string \<times> int) list \<Rightarrow> step \<Rightarrow> params \<Rightarrow> orchestra
    \<Rightarrow> orchestra \<times> granted result" where
  \<comment> \<open>the step grant of a plan that was approved for good\<close>
  "grant_step_for code ctx indexes st ps os =
     (let gid = str_of (pget ctx ''approved_plan_grant_id'');
          user = own_text ctx ''user_id''; session = own_text ctx ''session_id'';
          ident = (if ox_broker code then caller_hash code ctx else []);
          now = ne_text_now (ox_env code (os_calls os));
          invalid = Inr (Grant_Refused (step_failed st ''durable plan grant context is invalid'' PNone))
      in if \<not> truthy (pget ctx ''approved_plan_grant_id'') then (os, Inr Ungranted)
         else
           (case (if ox_broker code then get_plan (grants_of os) gid else None, map_of indexes (ps_id st)) of
              (Some plan, Some i) \<Rightarrow>
                (case resume_approved_plan (ox_sha code) (grants_of os) gid user session ident now now of
                   (db, Inl e) \<Rightarrow> (with_grants db os, refused st e)
                 | (db, Inr _) \<Rightarrow>
                     (case issue_next_step_grant (ox_sha code) db gid user session ident (ps_id st) i (ps_tool_id st)
                             (PDict ps) (pl_expires_at plan) (ox_grant_id code (os_calls os)) now now of
                        (db', Inl e) \<Rightarrow> (with_grants db' os, refused st e)
                      | (db', Inr g) \<Rightarrow> (with_grants db' os, Inr (Granted g))))
            | _ \<Rightarrow> (os, invalid)))"

definition timed :: "rat \<Rightarrow> tool_result \<Rightarrow> tool_result" where
  "timed took r = r\<lparr>tr_duration_ms := (case tr_duration_ms r of None \<Rightarrow> Some took | Some d \<Rightarrow> Some d)\<rparr>"

definition call_pipeline :: "orch_code \<Rightarrow> string \<Rightarrow> params \<Rightarrow> params \<Rightarrow> string \<Rightarrow> orchestra \<Rightarrow> orchestra \<times> tool_result" where
  "call_pipeline code tool ps ctx source os =
     (case pipeline_execute (ox_env code (os_calls os)) tool ps ctx source (os_world os) of
        (w, r) \<Rightarrow> (os\<lparr>os_world := w, os_calls := os_calls os + 1\<rparr>, timed (ox_elapsed code (os_calls os)) r))"

definition call_context :: "params \<Rightarrow> grant_context option \<Rightarrow> params" where
  "call_context ctx g =
     (case g of None \<Rightarrow> ctx | Some c \<Rightarrow> AList.update ''execution_grant'' (grant_obj 0 c) ctx)"

definition call_source :: "grant_context option \<Rightarrow> string" where
  "call_source g = (case g of None \<Rightarrow> ''orchestrator'' | Some c \<Rightarrow> ''approved_plan'')"

definition attempt_of :: "tool_result \<Rightarrow> tool_result attempt" where
  "attempt_of r = (if tr_success r then Succeeded r else Returned_Failure r (tr_error r))"

definition attempt_call :: "orch_code \<Rightarrow> params \<Rightarrow> params \<Rightarrow> grant_context option \<Rightarrow> string
    \<Rightarrow> orchestra \<times> nat \<Rightarrow> (orchestra \<times> nat) \<times> tool_result attempt" where
  \<comment> \<open>\<open>_do_execute\<close>, which counts the attempts\<close>
  "attempt_call code ps ctx g tool s =
     (case call_pipeline code tool ps (call_context ctx g) (call_source g) (fst s) of
        (os, r) \<Rightarrow> ((os, snd s + 1), attempt_of r))"

definition exhausted_text :: "string \<Rightarrow> nat \<Rightarrow> string option \<Rightarrow> string" where
  "exhausted_text tool n err =
     ''Tool '' @ quoted tool @ '' failed after '' @ nat_str n @ '' retries''
     @ (case err of Some (c # cs) \<Rightarrow> '': '' @ c # cs | _ \<Rightarrow> [])"

definition policy_of :: "step \<Rightarrow> recovery_policy" where
  "policy_of st = (case pt_policy st of Some p \<Rightarrow> p | None \<Rightarrow> default_for (ps_tool_id st))"

definition retried :: "orch_code \<Rightarrow> params \<Rightarrow> params \<Rightarrow> grant_context option \<Rightarrow> step \<Rightarrow> orchestra
    \<Rightarrow> (orchestra \<times> nat) \<times> tool_result" where
  \<comment> \<open>the pipeline answers and never raises, so no exception comes out of the retries\<close>
  "retried code ps ctx g st os =
     (case retry_execute (attempt_call code ps ctx g (ps_tool_id st)) (policy_of st) (os, 0) of
        (s, waits, e) \<Rightarrow>
          (s, case e of
                Done r \<Rightarrow> r
              | Reraised m \<Rightarrow> tool_fail m (ps_tool_id st)
              | Exhausted n err \<Rightarrow> tool_fail (exhausted_text (ps_tool_id st) n err) (ps_tool_id st)))"

definition recovered :: "orch_code \<Rightarrow> params \<Rightarrow> params \<Rightarrow> grant_context option \<Rightarrow> step \<Rightarrow> orchestra
    \<Rightarrow> (orchestra \<times> nat) \<times> tool_result" where
  \<comment> \<open>the retries, then the fallback tools\<close>
  "recovered code ps ctx g st os =
     (case retried code ps ctx g st os of
        (s, r) \<Rightarrow>
          (if tr_success r then (s, r)
           else fallback_execute (attempt_of r) r
                  (map (attempt_call code ps ctx g) (filter (\<lambda>t. t \<noteq> ps_tool_id st) (rp_fallback_tool_ids (policy_of st))))
                  (policy_of st) s))"

definition step_result_of :: "step \<Rightarrow> nat \<Rightarrow> string \<Rightarrow> tool_result \<Rightarrow> step_result" where
  "step_result_of st attempts stamp r =
     \<lparr>sr_id = ps_id st, sr_tool = ps_tool_id st, sr_success = tr_success r, sr_data = tr_data r, sr_error = tr_error r,
      sr_duration = tr_duration_ms r, sr_requires_confirmation = tr_requires_confirmation r,
      sr_policy = tr_policy_result r, sr_quality = tr_quality_result r, sr_attempts = attempts,
      sr_strategy = (if tr_tool_id r \<noteq> [] \<and> tr_tool_id r \<noteq> ps_tool_id st then ''fallback''
        else if 1 < attempts then ''retry'' else ''none''),
      sr_executed = Some (if tr_tool_id r = [] then ps_tool_id st else tr_tool_id r), sr_skipped = False, sr_time = stamp\<rparr>"

definition dry_result :: "step \<Rightarrow> params option \<Rightarrow> step_result" where
  "dry_result st model =
     (step_failed st [] (PDict [(''simulated'', PBool True), (''tool_id'', PStr (ps_tool_id st)),
        (''description'', PStr (pt_description st)),
        (''model_decision'', case model of None \<Rightarrow> PNone | Some d \<Rightarrow> PDict d)]))\<lparr>sr_success := True, sr_error := None\<rparr>"

definition step_call_context :: "orch_code \<Rightarrow> params \<Rightarrow> step \<Rightarrow> params" where
  "step_call_context code ctx st =
     (case ox_model code st of None \<Rightarrow> ctx | Some d \<Rightarrow> AList.update ''model_decision'' (PDict d) ctx)"

definition run_step_with :: "orch_code \<Rightarrow> params \<Rightarrow> step \<Rightarrow> params \<Rightarrow> grant_context option \<Rightarrow> orchestra
    \<Rightarrow> orchestra \<times> step_result" where
  "run_step_with code ctx st ps g os =
     (case recovered code ps (step_call_context code ctx st) g st os of
        ((os', n), r) \<Rightarrow> (os', step_result_of st n (ox_stamp code (os_calls os')) r))"

definition execute_single_step :: "orch_code \<Rightarrow> params \<Rightarrow> params \<Rightarrow> (string \<times> int) list \<Rightarrow> bool \<Rightarrow> step_result list
    \<Rightarrow> step \<Rightarrow> orchestra \<Rightarrow> orchestra \<times> step_result result" where
  \<comment> \<open>the arguments after the code: parameters of the intent, context, indexes of the approved plan, whether it is a
    dry run, and the results so far\<close>
  "execute_single_step code ips ctx indexes dry results st os =
     (if dry then (os, Inr (dry_result st (ox_model code st)))
      else if ox_conservative code \<and> ps_tool_id st \<in> set conservative_blocked then
        (os, Inr (step_failed st conservative_text
           (PDict [(''blocked_by'', PStr ''conservative_mode''), (''tool_id'', PStr (ps_tool_id st))])))
      else
        (case limit_step code ctx st os of
           (os1, Inl e) \<Rightarrow> (os1, Inl e)
         | (os1, Inr (Some r)) \<Rightarrow> (os1, Inr r)
         | (os1, Inr None) \<Rightarrow>
             (case resolve_params (pt_params st) ctx results of
                Inl e \<Rightarrow> (os1, Inl e)
              | Inr ps0 \<Rightarrow>
                  (let ps = default_params (ps_tool_id st) ips ps0 in
                   case grant_step_for code ctx indexes st ps os1 of
                     (os2, Inl e) \<Rightarrow> (os2, Inl e)
                   | (os2, Inr (Grant_Refused r)) \<Rightarrow> (os2, Inr r)
                   | (os2, Inr Ungranted) \<Rightarrow> (case run_step_with code ctx st ps None os2 of (os3, r) \<Rightarrow> (os3, Inr r))
                   | (os2, Inr (Granted g)) \<Rightarrow> (case run_step_with code ctx st ps (Some g) os2 of (os3, r) \<Rightarrow> (os3, Inr r))))))"


section \<open>Properties\<close>

lemma step_failed_simps [simp]:
  "sr_id (step_failed st err data) = ps_id st" "sr_tool (step_failed st err data) = ps_tool_id st"
  "\<not> sr_success (step_failed st err data)"
  by (simp_all add: step_failed_def)

lemma dry_result_simps [simp]:
  "sr_id (dry_result st m) = ps_id st" "sr_tool (dry_result st m) = ps_tool_id st" "sr_success (dry_result st m)"
  by (simp_all add: dry_result_def step_failed_def)

lemma refused_step: "refused st e = Inr (Grant_Refused r) \<Longrightarrow> sr_id r = ps_id st \<and> sr_tool r = ps_tool_id st"
  by (auto simp: refused_def split: py_exc.splits)

lemma refused_cases: "refused st e \<noteq> Inr Ungranted" "refused st e \<noteq> Inr (Granted g)"
  by (auto simp: refused_def split: py_exc.splits)

lemma grant_step_refused:
  assumes "grant_step_for code ctx indexes st ps os = (os', Inr (Grant_Refused r))"
  shows "sr_id r = ps_id st \<and> sr_tool r = ps_tool_id st"
  using assms
  by (auto simp: grant_step_for_def Let_def dest: refused_step split: if_splits option.splits prod.splits sum.splits)

lemma limit_step_result:
  assumes "limit_step code ctx st os = (os', Inr (Some r))"
  shows "sr_id r = ps_id st \<and> sr_tool r = ps_tool_id st"
  using assms by (auto simp: limit_step_def Let_def split: option.splits sum.splits if_splits)

lemma run_step_with_result:
  "sr_id (snd (run_step_with code ctx st ps g os)) = ps_id st \<and> sr_tool (snd (run_step_with code ctx st ps g os)) = ps_tool_id st"
  by (simp add: run_step_with_def step_result_of_def split: prod.split)

text \<open>The four ways in which a step that is not a dry one ends.\<close>

lemma single_step_cases:
  assumes "execute_single_step code ips ctx indexes False results st os = (os', x)"
  obtains (ends) "os' = os" "\<exists>d. x = Inr (step_failed st conservative_text d)"
  | (limited) y where "limit_step code ctx st os = (os', y)" "y \<noteq> Inr None" "\<forall>e. y = Inl e \<longrightarrow> x = Inl e" "\<forall>r. y = Inr (Some r) \<longrightarrow> x = Inr r"
  | (unresolved) os1 e where "limit_step code ctx st os = (os1, Inr None)" "resolve_params (pt_params st) ctx results = Inl e"
      "os' = os1" "x = Inl e"
  | (refused) os1 ps y where "limit_step code ctx st os = (os1, Inr None)" "grant_step_for code ctx indexes st ps os1 = (os', y)"
      "\<forall>e. y = Inl e \<longrightarrow> x = Inl e" "\<forall>r. y = Inr (Grant_Refused r) \<longrightarrow> x = Inr r" "y \<noteq> Inr Ungranted" "\<forall>g. y \<noteq> Inr (Granted g)"
  | (ran) os1 ps os2 g where "limit_step code ctx st os = (os1, Inr None)"
      "grant_step_for code ctx indexes st ps os1 = (os2, Inr (case g of None \<Rightarrow> Ungranted | Some c \<Rightarrow> Granted c))"
      "os' = fst (run_step_with code ctx st ps g os2)" "x = Inr (snd (run_step_with code ctx st ps g os2))"
proof (cases "ox_conservative code \<and> ps_tool_id st \<in> set conservative_blocked")
  case True
  with assms show ?thesis by (intro ends) (auto simp: execute_single_step_def)
next
  case False
  obtain os1 y where l: "limit_step code ctx st os = (os1, y)" by fastforce
  note eq = assms [unfolded execute_single_step_def if_not_P [OF False] if_False l prod.case]
  show ?thesis
  proof (cases "y = Inr None")
    case no: False
    then consider e where "y = Inl e" | r where "y = Inr (Some r)" by (cases y) auto
    then show ?thesis using eq l by cases (auto intro!: limited [of y])
  next
    case yes: True
    show ?thesis
    proof (cases "resolve_params (pt_params st) ctx results")
      case (Inl e)
      with eq yes l show ?thesis by (intro unresolved) auto
    next
      case (Inr ps0)
      define ps where "ps = default_params (ps_tool_id st) (ips) ps0"
      obtain os2 z where g: "grant_step_for code ctx indexes st ps os1 = (os2, z)" by fastforce
      have eq2: "(case (os2, z) of
                     (os2, Inl e) \<Rightarrow> (os2, Inl e)
                   | (os2, Inr (Grant_Refused r)) \<Rightarrow> (os2, Inr r)
                   | (os2, Inr Ungranted) \<Rightarrow> (case run_step_with code ctx st ps None os2 of (os3, r) \<Rightarrow> (os3, Inr r))
                   | (os2, Inr (Granted g)) \<Rightarrow> (case run_step_with code ctx st ps (Some g) os2 of (os3, r) \<Rightarrow> (os3, Inr r))) = (os', x)"
        using eq yes Inr by (simp add: Let_def g [unfolded ps_def] ps_def)
      show ?thesis
      proof (cases z)
        case (Inl e)
        with eq2 yes l g show ?thesis by (intro refused) auto
      next
        case (Inr k)
        show ?thesis
        proof (cases k)
          case Ungranted
          with eq2 yes l g Inr show ?thesis by (intro ran [of os1 ps os2 None]) (auto split: prod.splits)
        next
          case (Granted c)
          with eq2 yes l g Inr show ?thesis by (intro ran [of os1 ps os2 "Some c"]) (auto split: prod.splits)
        next
          case (Grant_Refused r)
          with eq2 yes l g Inr show ?thesis by (intro refused) auto
        qed
      qed
    qed
  qed
qed

lemma single_step_result:
  assumes "execute_single_step code ips ctx indexes dry results st os = (os', Inr r)"
  shows "sr_id r = ps_id st \<and> sr_tool r = ps_tool_id st"
proof (cases dry)
  case True
  with assms show ?thesis by (auto simp: execute_single_step_def)
next
  case False
  with assms have "execute_single_step code ips ctx indexes False results st os = (os', Inr r)" by simp
  then show ?thesis
  proof (cases rule: single_step_cases)
    case ends
    then show ?thesis by auto
  next
    case (limited y)
    then obtain e' where "y = Inr (Some e')" by (cases y) (auto split: option.splits)
    with limited limit_step_result show ?thesis by auto
  next
    case (refused os1 ps y)
    then obtain r' where "y = Inr (Grant_Refused r')" by (cases y) (auto, metis granted.exhaust)
    with refused grant_step_refused show ?thesis by auto
  next
    case (ran os1 ps os2 g)
    with run_step_with_result show ?thesis by auto
  qed simp
qed

lemma dry_step: "execute_single_step code ips ctx indexes True results st os = (os, Inr (dry_result st (ox_model code st)))"
  by (simp add: execute_single_step_def)

text \<open>What retries and fallbacks keep.\<close>

lemma retry_from_keeps:
  assumes "\<And>s. P s \<Longrightarrow> P (fst (f s))" and "P s"
  shows "P (fst (retry_from f jitter pol left n prev s))"
  using assms(2)
proof (induction left arbitrary: n prev s)
  case 0
  then show ?case by simp
next
  case (Suc left)
  have "P (fst (f s))" by (rule assms(1) [OF Suc.prems])
  with Suc.IH show ?case unfolding retry_step by (auto simp: case_prod_beta' Let_def)
qed

lemma fallback_loop_keeps:
  assumes "\<And>f s. f \<in> set fs \<Longrightarrow> P s \<Longrightarrow> P (fst (f s))" and "P s"
  shows "P (fst (fallback_loop fs r s))"
  using assms
proof (induction fs arbitrary: s)
  case (Cons f fs)
  have "P (fst (f s))" using Cons.prems by simp
  with Cons show ?case by (auto simp: case_prod_beta' Let_def split: attempt.split)
qed simp

lemma recovered_keeps:
  assumes call: "\<And>tool s. tool = ps_tool_id st \<or> tool \<in> set (rp_fallback_tool_ids (policy_of st)) \<Longrightarrow> P (fst s)
      \<Longrightarrow> P (fst (fst (attempt_call code ps ctx g tool s)))" and "P os"
  shows "P (fst (fst (recovered code ps ctx g st os)))"
proof -
  have "P (fst (fst (retry_execute (attempt_call code ps ctx g (ps_tool_id st)) (policy_of st) (os, 0))))"
    unfolding retry_execute_def
    by (rule retry_from_keeps [where P = "\<lambda>s. P (fst s)"]) (use assms in simp_all)
  then have r: "P (fst (fst (retried code ps ctx g st os)))"
    by (simp add: retried_def case_prod_beta')
  let ?fs = "map (attempt_call code ps ctx g) (filter (\<lambda>t. t \<noteq> ps_tool_id st) (rp_fallback_tool_ids (policy_of st)))"
  have "P (fst (fst (fallback_loop ?fs x s)))" if "P (fst s)" for s x
    by (rule fallback_loop_keeps [where P = "\<lambda>s. P (fst s)"]) (use call that in auto)
  with r have f: "P (fst (fst (fallback_execute y x ?fs pol (fst (retried code ps ctx g st os)))))" for x y pol
    by (auto simp: fallback_execute_def split: attempt.split)
  show ?thesis
    using r f unfolding recovered_def by (auto simp: case_prod_beta')
qed

definition plan_runs_from :: "orchestra \<Rightarrow> orchestra \<Rightarrow> (string \<times> params \<times> params) list" where
  \<comment> \<open>the tools that ran between two states\<close>
  "plan_runs_from os os' = drop (length (runs (snd (os_world os)))) (runs (snd (os_world os')))"

definition extends_runs :: "orchestra \<Rightarrow> orchestra \<Rightarrow> bool" where
  "extends_runs os os' \<longleftrightarrow> prefix (runs (snd (os_world os))) (runs (snd (os_world os')))"

lemma extends_refl [simp]: "extends_runs os os"
  by (simp add: extends_runs_def)

lemma extends_trans: "extends_runs a b \<Longrightarrow> extends_runs b c \<Longrightarrow> extends_runs a c"
  using prefix_order.trans unfolding extends_runs_def by blast

lemma runs_from_trans:
  "extends_runs a b \<Longrightarrow> extends_runs b c \<Longrightarrow> plan_runs_from a c = plan_runs_from a b @ plan_runs_from b c"
  by (auto simp: extends_runs_def plan_runs_from_def prefix_def)

lemma runs_from_same [simp]: "plan_runs_from os os = []"
  by (simp add: plan_runs_from_def)

lemma call_pipeline_world:
  "os_world (fst (call_pipeline code tool ps ctx source os))
     = fst (guard_execute (ox_env code (os_calls os)) (pipeline_request tool ps ctx source) (os_world os))"
  by (simp add: call_pipeline_def pipeline_execute_def Let_def case_prod_beta')

lemma pipeline_request_simps [simp]:
  "tr_source (pipeline_request tool ps ctx source) = source" "tr_tool_name (pipeline_request tool ps ctx source) = tool"
  "tr_arguments (pipeline_request tool ps ctx source) = ps"
  "pget (tr_context (pipeline_request tool ps ctx source)) ''execution_grant'' = pget ctx ''execution_grant''"
  by (simp_all add: pipeline_request_def Let_def)

lemma call_pipeline_runs:
  "\<exists>new. runs (snd (os_world (fst (call_pipeline code tool ps ctx source os)))) = runs (snd (os_world os)) @ new
     \<and> (new = [] \<or> (\<exists>c. new = [(tool, ps, c)]))"
proof -
  obtain gd g where w: "os_world os = (gd, g)" by (cases "os_world os")
  show ?thesis
    unfolding call_pipeline_world w guard_execute_runs snd_conv by (auto split: option.split)
qed

lemma call_pipeline_extends: "extends_runs os (fst (call_pipeline code tool ps ctx source os))"
  using call_pipeline_runs [of code tool ps ctx source os] by (auto simp: extends_runs_def)

text \<open>A call for an approved plan runs a tool only by spending its grant, and no call gives a grant back.\<close>

lemma plan_call_once:
  assumes "as_grant (pget ctx ''execution_grant'') = Some g"
    and "plan_runs_from os (fst (call_pipeline code tool ps ctx ''approved_plan'' os)) \<noteq> []"
  shows "unconsumed (grants_of os) (gc_step_grant_id g)
    \<and> \<not> unconsumed (grants_of (fst (call_pipeline code tool ps ctx ''approved_plan'' os))) (gc_step_grant_id g)"
proof -
  let ?op = "Guard_Call (ox_env code (os_calls os)) (pipeline_request tool ps ctx ''approved_plan'')"
  obtain gd gw where w: "os_world os = (gd, gw)" by (cases "os_world os")
  have "runs (snd (fst (guard_execute (ox_env code (os_calls os)) (pipeline_request tool ps ctx ''approved_plan'') (gd, gw))))
      \<noteq> runs gw"
    using assms(2) call_pipeline_runs [of code tool ps ctx "''approved_plan''" os]
    by (auto simp: plan_runs_from_def call_pipeline_world w)
  then have "plan_run (gd, gw) ?op = Some (gc_step_grant_id g)" by (simp add: assms(1))
  from plan_run_spends [OF this] show ?thesis by (simp add: grants_of_def call_pipeline_world w)
qed

lemma call_keeps_spent:
  assumes "\<not> unconsumed (grants_of os) sid"
  shows "\<not> unconsumed (grants_of (fst (call_pipeline code tool ps ctx source os))) sid"
  using assms mission_unconsumed [of "os_world os" "Guard_Call (ox_env code (os_calls os)) (pipeline_request tool ps ctx source)" sid]
  by (auto simp: grants_of_def call_pipeline_world)

lemma call_run_tool:
  "set (map fst (plan_runs_from os (fst (call_pipeline code tool ps ctx source os)))) \<subseteq> {tool}"
  using call_pipeline_runs [of code tool ps ctx source os] by (auto simp: plan_runs_from_def)

lemma call_run_length: "length (plan_runs_from os (fst (call_pipeline code tool ps ctx source os))) \<le> 1"
  using call_pipeline_runs [of code tool ps ctx source os] by (auto simp: plan_runs_from_def)

definition step_tools :: "step \<Rightarrow> string set" where
  "step_tools st = insert (ps_tool_id st) (set (rp_fallback_tool_ids (policy_of st)))"

definition one_run :: "step \<Rightarrow> string \<Rightarrow> orchestra \<Rightarrow> orchestra \<Rightarrow> bool" where
  "one_run st sid os0 os \<longleftrightarrow>
     extends_runs os0 os \<and> length (plan_runs_from os0 os) \<le> 1 \<and> set (map fst (plan_runs_from os0 os)) \<subseteq> step_tools st
     \<and> (plan_runs_from os0 os \<noteq> [] \<longrightarrow> \<not> unconsumed (grants_of os) sid)"

lemma one_run_call:
  assumes "one_run st sid os0 os" and "as_grant (pget ctx ''execution_grant'') = Some g" and "gc_step_grant_id g = sid"
    and "tool \<in> step_tools st"
  shows "one_run st sid os0 (fst (call_pipeline code tool ps ctx ''approved_plan'' os))"
proof -
  let ?o = "fst (call_pipeline code tool ps ctx ''approved_plan'' os)"
  have ext: "extends_runs os0 os" "extends_runs os ?o"
    using assms(1) call_pipeline_extends by (auto simp: one_run_def)
  note split = runs_from_trans [OF ext]
  note len = call_run_length [of os code tool ps ctx "''approved_plan''"]
  note tool = call_run_tool [of os code tool ps ctx "''approved_plan''"]
  note once = plan_call_once [OF assms(2), of os code tool ps]
  show ?thesis
  proof (cases "plan_runs_from os ?o = []")
    case True
    with assms(1) ext call_keeps_spent split show ?thesis by (auto simp: one_run_def intro: extends_trans)
  next
    case False
    with once assms(3) have spent: "unconsumed (grants_of os) sid" "\<not> unconsumed (grants_of ?o) sid" by auto
    with assms(1) have "plan_runs_from os0 os = []" by (auto simp: one_run_def)
    with split len tool spent ext assms(4) show ?thesis by (auto simp: one_run_def intro: extends_trans)
  qed
qed

lemma granted_run_once:
  "one_run st (gc_step_grant_id g) os (fst (run_step_with code ctx st ps (Some g) os))"
proof -
  have "one_run st (gc_step_grant_id g) os
      (fst (fst (attempt_call code ps (step_call_context code ctx st) (Some g) tool s)))"
    if "tool = ps_tool_id st \<or> tool \<in> set (rp_fallback_tool_ids (policy_of st))" "one_run st (gc_step_grant_id g) os (fst s)"
    for tool s
  proof -
    have "tool \<in> step_tools st" using that(1) by (auto simp: step_tools_def)
    then have "one_run st (gc_step_grant_id g) os (fst (call_pipeline code tool ps
        (call_context (step_call_context code ctx st) (Some g)) ''approved_plan'' (fst s)))"
      by (intro one_run_call [OF that(2)]) (simp_all add: call_context_def)
    then show ?thesis by (simp add: attempt_call_def call_source_def case_prod_beta')
  qed
  then have "one_run st (gc_step_grant_id g) os
      (fst (fst (recovered code ps (step_call_context code ctx st) (Some g) st os)))"
    by (rule recovered_keeps) (auto simp: one_run_def)
  then show ?thesis by (simp add: run_step_with_def case_prod_beta')
qed

lemma with_grants_runs [simp]: "snd (os_world (with_grants db os)) = snd (os_world os)"
  by (simp add: with_grants_def)

lemma limit_step_world: "os_world (fst (limit_step code ctx st os)) = os_world os"
  by (simp add: limit_step_def Let_def split: option.split sum.split prod.split)

lemma grant_step_runs: "snd (os_world (fst (grant_step_for code ctx indexes st ps os))) = snd (os_world os)"
  by (simp add: grant_step_for_def Let_def split: option.split sum.split prod.split)

lemma runs_from_world:
  "snd (os_world a) = snd (os_world a') \<Longrightarrow> plan_runs_from a b = plan_runs_from a' b"
  "snd (os_world b) = snd (os_world b') \<Longrightarrow> plan_runs_from a b = plan_runs_from a b'"
  by (simp_all add: plan_runs_from_def)

lemma extends_world:
  "snd (os_world a) = snd (os_world a') \<Longrightarrow> extends_runs a b = extends_runs a' b"
  "snd (os_world b) = snd (os_world b') \<Longrightarrow> extends_runs a b = extends_runs a b'"
  by (simp_all add: extends_runs_def)

definition step_runs_once :: "step \<Rightarrow> orchestra \<Rightarrow> orchestra \<Rightarrow> bool" where
  "step_runs_once st os os' \<longleftrightarrow>
     extends_runs os os' \<and> length (plan_runs_from os os') \<le> 1 \<and> set (map fst (plan_runs_from os os')) \<subseteq> step_tools st"

lemma grant_step_durable:
  "truthy (pget ctx ''approved_plan_grant_id'') \<Longrightarrow> snd (grant_step_for code ctx indexes st ps os) \<noteq> Inr Ungranted"
  using refused_cases by (auto simp: grant_step_for_def Let_def split: option.split sum.split prod.split)

text \<open>A step of a plan with a durable grant runs at most one tool, whatever its retries and fallbacks.\<close>

lemma durable_step_once:
  assumes "truthy (pget ctx ''approved_plan_grant_id'')"
  shows "step_runs_once st os (fst (execute_single_step code ips ctx indexes dry results st os))"
proof (cases dry)
  case True
  then show ?thesis by (simp add: execute_single_step_def step_runs_once_def)
next
  case False
  obtain os' x where e: "execute_single_step code ips ctx indexes False results st os = (os', x)" by fastforce
  have lw: "snd (os_world os1) = snd (os_world os)" if "limit_step code ctx st os = (os1, y)" for os1 y
    using limit_step_world [of code ctx st os] that by simp
  have gw: "snd (os_world os2) = snd (os_world os1)" if "grant_step_for code ctx indexes st ps os1 = (os2, y)" for os1 os2 y ps
    using grant_step_runs [of code ctx indexes st ps os1] that by simp
  have same: "step_runs_once st os os'" if "snd (os_world os') = snd (os_world os)"
    using that by (simp add: step_runs_once_def extends_world(2) [OF that] runs_from_world(2) [OF that])
  have "step_runs_once st os os'"
    using e
  proof (cases rule: single_step_cases)
    case (ran os1 ps os2 g)
    from ran(2) grant_step_durable [OF assms, of code indexes st ps os1] obtain c where g: "g = Some c" by (cases g) auto
    have w: "snd (os_world os2) = snd (os_world os)" using lw [OF ran(1)] gw [OF ran(2)] by simp
    from granted_run_once [of st c os2 code ctx ps] ran(3) g show ?thesis
      by (auto simp: one_run_def step_runs_once_def extends_world(1) [OF w] runs_from_world(1) [OF w])
  next
    case ends
    then show ?thesis by (intro same) simp
  next
    case (limited y)
    show ?thesis by (rule same [OF lw [OF limited(1)]])
  next
    case (unresolved os1 e)
    with lw [OF unresolved(1)] show ?thesis by (intro same) simp
  next
    case (refused os1 ps y)
    with lw [OF refused(1)] gw [OF refused(2)] show ?thesis by (intro same) simp
  qed
  with e False show ?thesis by simp
qed

end
