(* ===== verification/Grounding.thy ===== *)
theory Grounding
  imports Quality_Gate Step_Execution
begin

text \<open>
  Which requests need evidence, and from which tool (\<open>sentinel/core/grounding.py\<close>): the analysis of an intent and
  the engine that obtains the evidence from its cache, the tool or the context engine. The texts are those that
  \<open>lower\<close> has made of the request, as UTF-8 bytes; the context engine is an argument, and the reasons are left out.
\<close>

section \<open>Requirements\<close>

datatype ground_category =
    System_State | File_Info | Process_Info | Network_Info | App_Info | Hardware_Info | Knowledge_Verifiable
  | No_Category

fun category_name :: "ground_category \<Rightarrow> string" where
  "category_name System_State = ''system_state''"
| "category_name File_Info = ''file_info''"
| "category_name Process_Info = ''process_info''"
| "category_name Network_Info = ''network_info''"
| "category_name App_Info = ''app_info''"
| "category_name Hardware_Info = ''hardware_info''"
| "category_name Knowledge_Verifiable = ''knowledge_verifiable''"
| "category_name No_Category = ''none''"

record requirement =
  gr_category :: ground_category
  gr_required :: bool
  gr_freshness :: rat
  gr_tool :: "string option"
  gr_params :: "params option"

definition words :: "string list \<Rightarrow> regex" where
  "words ws = alts (map lit ws)"

definition anything :: regex where
  \<comment> \<open>\<open>.*\<close>\<close>
  "anything = Many 0 (\<lambda>c. c \<noteq> CHR 0x0A)"

definition byte :: "nat \<Rightarrow> regex" where
  "byte n = Cls (\<lambda>c. of_char c = n)"

definition o_or_acute :: regex where
  "o_or_acute = Or (lit ''o'') (seq [byte 0xC3, byte 0xB3])"

definition a_or_acute :: regex where
  "a_or_acute = Or (lit ''a'') (seq [byte 0xC3, byte 0xA1])"

definition system_patterns :: "regex list" where
  "system_patterns =
     [words [''cpu'', ''processor'', ''procesador''], words [''ram'', ''memory'', ''memoria''],
      words [''disk'', ''disco'', ''drive'', ''storage''], words [''process'', ''proceso'', ''task''],
      words [''network'', ''red'', ''internet''],
      seq [words [''system'', ''sistema''], anything, words [''info'', ''information'', ''status'', ''estado'']]]"

definition file_patterns :: "regex list" where
  "file_patterns =
     [words [''file'', ''archivo''], words [''directory'', ''directorio'', ''folder'', ''carpeta''],
      words [''path'', ''ruta''], seq [words [''read'', ''leer''], anything, words [''file'', ''archivo'']],
      seq [words [''write'', ''escribir''], anything, words [''file'', ''archivo'']]]"

definition process_patterns :: "regex list" where
  "process_patterns =
     [seq [words [''running'', ''ejecutando''], anything, words [''process'', ''proceso'']],
      seq [words [''kill'', ''matar''], anything, words [''process'', ''proceso'']],
      words [''top'', ''processes'', ''procesos'']]"

definition network_patterns :: "regex list" where
  "network_patterns =
     [seq [words [''network'', ''red''], anything, alts [lit ''connection'', seq [lit ''conexi'', o_or_acute, lit ''n'']]],
      words [''internet'', ''connectivity'', ''conectividad''], words [''ip'', ''dns'', ''port'']]"

definition hardware_patterns :: "regex list" where
  "hardware_patterns =
     [alts [lit ''gpu'', lit ''graphics'', seq [lit ''gr'', a_or_acute, lit ''fica''], lit ''video''],
      alts [lit ''vram'', seq [lit ''video'', anything, lit ''ram''], seq [lit ''gpu'', anything, lit ''memory'']],
      alts [lit ''npu'', seq [lit ''neural'', anything, lit ''processor''], seq [lit ''ai'', anything, lit ''accelerator'']],
      alts [lit ''hardware'', seq [lit ''hardware'', anything, lit ''profile''], lit ''specs'', lit ''especificaciones''],
      alts [lit ''nvidia'', lit ''amd'', seq [lit ''intel'', anything, words [''arc'', ''gpu'']]],
      alts [lit ''cuda'', lit ''cudnn'', seq [lit ''tensor'', anything, lit ''core'']]]"

definition mentions_any :: "regex list \<Rightarrow> string \<Rightarrow> bool" where
  "mentions_any rs t \<longleftrightarrow> list_ex (\<lambda>r. search r t) rs"

definition detect_category :: "string \<Rightarrow> string \<Rightarrow> string \<Rightarrow> ground_category" where
  "detect_category action target t =
     (if prefix ''system.'' target then System_State
      else if target \<in> {''filesystem.read'', ''filesystem.search'', ''filesystem.list''} then File_Info
      else if target \<in> {''app.discovery'', ''executor.launch'', ''app.launch''} then App_Info
      else if prefix ''executor.'' target \<and> sublist ''process'' target then Process_Info
      else if prefix ''network.'' target then Network_Info
      else if target \<in> {''system.gpu'', ''hardware.intelligence'', ''hardware.profile''} then Hardware_Info
      else if action \<notin> {''query'', ''analyze''} then No_Category
      else if mentions_any system_patterns t then System_State
      else if mentions_any file_patterns t then File_Info
      else if mentions_any process_patterns t then Process_Info
      else if mentions_any network_patterns t then Network_Info
      else if mentions_any hardware_patterns t then Hardware_Info
      else No_Category)"

fun freshness_for :: "ground_category \<Rightarrow> rat" where
  "freshness_for System_State = 5"
| "freshness_for File_Info = 30"
| "freshness_for Process_Info = 10"
| "freshness_for Network_Info = 15"
| "freshness_for App_Info = 60"
| "freshness_for Hardware_Info = 120"
| "freshness_for Knowledge_Verifiable = 300"
| "freshness_for No_Category = 30"

definition target_tools :: "(string \<times> string \<times> bool) list" where
  \<comment> \<open>target, tool, and whether the parameters of the request go with it\<close>
  "target_tools =
     [(''system.cpu'', ''system.cpu'', False), (''system.memory'', ''system.memory'', False),
      (''system.disk'', ''system.disk'', False), (''system.processes'', ''system.processes'', True),
      (''system.network'', ''system.network'', False), (''system.info'', ''system.info'', False),
      (''system.health'', ''system.info'', False), (''system.gpu'', ''system.gpu'', False),
      (''hardware.intelligence'', ''system.gpu'', False), (''hardware.profile'', ''system.gpu'', False),
      (''filesystem.read'', ''filesystem.read'', True), (''filesystem.search'', ''filesystem.search'', True),
      (''filesystem.list'', ''filesystem.list'', True), (''app.discovery'', ''app.discovery'', True)]"

fun category_tool :: "ground_category \<Rightarrow> (string \<times> bool) option" where
  "category_tool System_State = Some (''system.info'', False)"
| "category_tool File_Info = Some (''filesystem.read'', True)"
| "category_tool Process_Info = Some (''system.processes'', True)"
| "category_tool Network_Info = Some (''system.info'', False)"
| "category_tool App_Info = Some (''app.discovery'', True)"
| "category_tool Hardware_Info = Some (''system.gpu'', True)"
| "category_tool _ = None"

definition tool_for :: "ground_category \<Rightarrow> string \<Rightarrow> (string \<times> bool) option" where
  "tool_for c target = (case map_of target_tools target of Some t \<Rightarrow> Some t | None \<Rightarrow> category_tool c)"

record full_intent = intent +
  in_raw :: string
  in_grounding :: "requirement list"

definition analyze_requirement :: "full_intent \<Rightarrow> requirement list" where
  "analyze_requirement i =
     (let c = detect_category (in_action i) (in_target i) (lower (in_raw i)) in
      if c = No_Category then []
      else
        [\<lparr>gr_category = c, gr_required = True, gr_freshness = freshness_for c,
          gr_tool = map_option fst (tool_for c (in_target i)),
          gr_params = map_option (\<lambda>(t, own). if own then in_params i else []) (tool_for c (in_target i))\<rparr>])"

definition attach_grounding :: "bool \<Rightarrow> full_intent \<Rightarrow> full_intent" where
  \<comment> \<open>with or without an engine\<close>
  "attach_grounding engine i = (if engine then i\<lparr>in_grounding := analyze_requirement i\<rparr> else i)"


section \<open>The engine\<close>

record ground_answer =
  ga_grounded :: bool
  ga_data :: pyval
  ga_source :: string
  ga_time :: "rat option"
  ga_error :: "string option"
  ga_confidence :: rat

definition not_grounded :: "string \<Rightarrow> ground_answer" where
  "not_grounded err =
     \<lparr>ga_grounded = False, ga_data = PNone, ga_source = [], ga_time = None, ga_error = Some err, ga_confidence = 0\<rparr>"

definition grounded_by :: "string \<Rightarrow> rat \<Rightarrow> rat \<Rightarrow> pyval \<Rightarrow> ground_answer" where
  "grounded_by source conf now data =
     \<lparr>ga_grounded = True, ga_data = data, ga_source = source, ga_time = Some now, ga_error = None, ga_confidence = conf\<rparr>"

type_synonym evidence_cache = "(string \<times> pyval \<times> rat) list"

definition requirement_key :: "(string \<Rightarrow> string) \<Rightarrow> requirement \<Rightarrow> string" where
  "requirement_key sha r =
     join '':'' [category_name (gr_category r),
       (case gr_tool r of Some (c # cs) \<Rightarrow> c # cs | _ \<Rightarrow> ''no_tool''),
       take 16 (sha (json_compact (PDict (case gr_params r of Some d \<Rightarrow> d | None \<Rightarrow> []))))]"

definition fresh_cached :: "evidence_cache \<Rightarrow> string \<Rightarrow> requirement \<Rightarrow> rat \<Rightarrow> (pyval \<times> rat) option" where
  "fresh_cached cache key r now =
     (case map_of cache key of
        Some (v, t) \<Rightarrow> if v \<noteq> PNone \<and> now - t < gr_freshness r then Some (v, t) else None
      | None \<Rightarrow> None)"

definition context_answer :: "pyval result option \<Rightarrow> requirement \<Rightarrow> rat \<Rightarrow> string \<Rightarrow> evidence_cache
    \<Rightarrow> evidence_cache \<times> ground_answer" where
  "context_answer collect r now key cache =
     (case (if gr_category r = System_State then collect else None) of
        Some (Inr v) \<Rightarrow> (AList.update key (v, now) cache, grounded_by ''context_engine'' (95/100) now v)
      | _ \<Rightarrow> (cache, not_grounded ''No source available for grounding''))"

definition enforce_grounding :: "orch_code \<Rightarrow> bool \<Rightarrow> pyval result option \<Rightarrow> rat \<Rightarrow> requirement \<Rightarrow> params
    \<Rightarrow> evidence_cache \<times> orchestra \<Rightarrow> (evidence_cache \<times> orchestra) \<times> ground_answer" where
  \<comment> \<open>with or without a pipeline; \<open>collect\<close> is what the context engine answers\<close>
  "enforce_grounding code pipeline collect now r ctx s =
     (let key = requirement_key (ox_sha code) r; cache = fst s; os = snd s in
      case fresh_cached cache key r now of
        Some (v, t) \<Rightarrow> (s, grounded_by ''cache'' (9/10) t v)
      | None \<Rightarrow>
          (case gr_tool r of
             Some (c # cs) \<Rightarrow>
               if \<not> pipeline then (s, not_grounded ''Grounding execution pipeline not configured'')
               else
                 (case call_pipeline code (c # cs) (case gr_params r of Some d \<Rightarrow> d | None \<Rightarrow> []) ctx ''grounding'' os of
                    (os', res) \<Rightarrow>
                      (if tr_success res \<and> truthy (tr_data res)
                       then ((AList.update key (tr_data res, now) cache, os'), grounded_by ''tool'' 1 now (tr_data res))
                       else ((cache, os'), not_grounded
                         (case tr_error res of Some (e # es) \<Rightarrow> e # es | _ \<Rightarrow> ''Tool execution failed''))))
           | _ \<Rightarrow> (case context_answer collect r now key cache of (cache', a) \<Rightarrow> ((cache', os), a))))"

definition invalidate_evidence :: "string option \<Rightarrow> evidence_cache \<Rightarrow> evidence_cache" where
  "invalidate_evidence pat cache =
     (case pat of Some (c # cs) \<Rightarrow> filter (\<lambda>(k, e). \<not> sublist (c # cs) k) cache | _ \<Rightarrow> [])"


section \<open>Properties\<close>

lemma requirement_known:
  assumes "r \<in> set (analyze_requirement i)"
  shows "gr_required r \<and> (\<exists>t. gr_tool r = Some t \<and> t \<noteq> []) \<and> 0 < gr_freshness r"
proof -
  define c where "c = detect_category (in_action i) (in_target i) (lower (in_raw i))"
  have c: "c \<noteq> No_Category" "c \<noteq> Knowledge_Verifiable"
    using assms by (auto simp: analyze_requirement_def c_def [symmetric]) (auto simp: c_def detect_category_def split: if_splits)
  have "\<exists>t own. tool_for c (in_target i) = Some (t, own) \<and> t \<noteq> []"
  proof (cases "map_of target_tools (in_target i)")
    case None
    with c show ?thesis by (cases c) (auto simp: tool_for_def)
  next
    case (Some p)
    then have "(in_target i, p) \<in> set target_tools" by (rule map_of_SomeD)
    with Some show ?thesis by (auto simp: tool_for_def target_tools_def)
  qed
  moreover have "0 < freshness_for c" by (cases c) simp_all
  ultimately show ?thesis using assms c(1) by (auto simp: analyze_requirement_def c_def [symmetric] Let_def)
qed

text \<open>
  Opening an application always asks for a preliminary reading of the installed applications, although the
  comment in the analysis says that an action that changes something must not trigger a hidden one.
\<close>

theorem launching_reads_first:
  assumes "in_target i \<in> {''executor.launch'', ''app.launch''}"
  shows "\<exists>r. analyze_requirement i = [r] \<and> gr_tool r = Some ''app.discovery''"
  using assms
  by (auto simp: analyze_requirement_def detect_category_def tool_for_def target_tools_def)

end
