(* ===== verification/Orchestrator.thy ===== *)
theory Orchestrator
  imports Grounding "HOL-Library.Sublist"
begin

text \<open>
  The orchestrator, \<open>sentinel/core/orchestrator.py\<close>: the loop over the levels of a plan with its rollback, and the
  pipeline around it, from the structural checks over simulation, classification and decision to the preliminary
  evidence, the execution, and the completion of an approved plan. The loop is generic in how a step is executed and
  undone. The steps of a level run concurrently in the code; here their calls happen one step after the other, in an
  order that is an argument, while the results are read in the order of the level as in the code. An exception leaves
  the world as it was reached. Events, memory, advice, presentation and the timeout are left out, and so is the
  pending record of a blocked plan, which no operation can execute.
\<close>

section \<open>The loop over the levels\<close>

record 's loop_state =
  lp_world :: 's
  lp_results :: "step_result list"
  lp_tool :: "tool_result option"
  lp_done :: "(step \<times> step_result) list"
  lp_actions :: "rollback_action list"

type_synonym 's stepper = "step_result list \<Rightarrow> step \<Rightarrow> 's \<Rightarrow> 's \<times> step_result result"
type_synonym 's undoer = "'s \<Rightarrow> string \<Rightarrow> params \<Rightarrow> 's \<times> rollback_outcome"

definition note_result :: "step \<Rightarrow> step_result \<Rightarrow> 's loop_state \<Rightarrow> 's loop_state" where
  "note_result st r l =
     l\<lparr>lp_results := lp_results l @ [r], lp_tool := Some (merge_tool_result (lp_tool l) r), lp_done := lp_done l @ [(st, r)]\<rparr>"

definition note_exception :: "step \<Rightarrow> py_exc \<Rightarrow> 's loop_state \<Rightarrow> 's loop_state" where
  \<comment> \<open>the result of a task that raised does not reach the merged result when there is one\<close>
  "note_exception st e l =
     (let r = step_failed st (exc_text e) PNone
      in l\<lparr>lp_results := lp_results l @ [r],
           lp_tool := (case lp_tool l of None \<Rightarrow> Some (tool_fail (exc_text e) (ps_tool_id st)) | Some t \<Rightarrow> Some t),
           lp_done := lp_done l @ [(st, r)]\<rparr>)"

definition note_outcome :: "step \<times> step_result result \<Rightarrow> 's loop_state \<Rightarrow> 's loop_state" where
  "note_outcome p l = (case snd p of Inl e \<Rightarrow> note_exception (fst p) e l | Inr r \<Rightarrow> note_result (fst p) r l)"

fun exec_all :: "'s stepper \<Rightarrow> step_result list \<Rightarrow> step list \<Rightarrow> 's \<Rightarrow> 's \<times> (string \<times> step_result result) list" where
  "exec_all exec results [] w = (w, [])"
| "exec_all exec results (st # sts) w =
     (let (w1, r) = exec results st w; (w2, rs) = exec_all exec results sts w1 in (w2, (ps_id st, r) # rs))"

definition gather :: "(step list \<Rightarrow> step \<Rightarrow> nat) \<Rightarrow> 's stepper \<Rightarrow> step_result list \<Rightarrow> step list \<Rightarrow> 's
    \<Rightarrow> 's \<times> (step \<times> step_result result) list" where
  \<comment> \<open>\<open>asyncio.gather(..., return_exceptions=True)\<close>; the order gives every task its turn\<close>
  "gather order exec results sts w =
     (let (w', rs) = exec_all exec results (sort_key (order sts) sts) w in (w', map (\<lambda>st. (st, the (map_of rs (ps_id st)))) sts))"

definition undo_completed :: "'s undoer \<Rightarrow> (step \<times> step_result) list \<Rightarrow> 's loop_state \<Rightarrow> 's loop_state" where
  "undo_completed undo completed l =
     (case rollback undo (map (\<lambda>(st, r). (plan_step.truncate st, sr_data r)) completed) (lp_world l) of
        (w, acts) \<Rightarrow> l\<lparr>lp_world := w, lp_actions := lp_actions l @ acts\<rparr>)"

fun run_levels :: "(step list \<Rightarrow> step \<Rightarrow> nat) \<Rightarrow> 's stepper \<Rightarrow> 's undoer \<Rightarrow> bool \<Rightarrow> string list \<Rightarrow> step list list
    \<Rightarrow> 's loop_state \<Rightarrow> 's loop_state \<times> py_exc option" where
  "run_levels order exec undo dry already [] l = (l, None)"
| "run_levels order exec undo dry already (level # rest) l =
     (case filter (\<lambda>st. ps_id st \<notin> set already) level of
        [] \<Rightarrow> run_levels order exec undo dry already rest l
      | [st] \<Rightarrow>
          (case exec (lp_results l) st (lp_world l) of
             (w, Inl e) \<Rightarrow> (l\<lparr>lp_world := w\<rparr>, Some e)
           | (w, Inr r) \<Rightarrow>
               (let l1 = note_result st r (l\<lparr>lp_world := w\<rparr>)
                in if \<not> sr_success r \<and> \<not> dry then (undo_completed undo (lp_done l) l1, None)
                   else run_levels order exec undo dry already rest l1))
      | todo \<Rightarrow>
          (case gather order exec (lp_results l) todo (lp_world l) of
             (w, rs) \<Rightarrow>
               (let l1 = fold note_outcome rs (l\<lparr>lp_world := w\<rparr>);
                    ok = list_all (\<lambda>(st, r). case r of Inr x \<Rightarrow> sr_success x | Inl e \<Rightarrow> False) rs
                in if \<not> ok \<and> \<not> dry
                   then (undo_completed undo (filter (\<lambda>(st, r). sr_success r) (lp_done l1)) l1, None)
                   else run_levels order exec undo dry already rest l1)))"

definition skipped_result :: "step \<Rightarrow> step_result" where
  "skipped_result st = (step_failed st ''Skipped because a dependency failed'' PNone)\<lparr>sr_skipped := True\<rparr>"

definition skip_rest :: "bool \<Rightarrow> step list \<Rightarrow> step_result list \<Rightarrow> step_result list" where
  "skip_rest dry steps results =
     (if \<not> dry \<and> list_ex (\<lambda>r. \<not> sr_success r) results
      then results @ map skipped_result (filter (\<lambda>st. ps_id st \<notin> set (map sr_id results)) steps) else results)"


section \<open>Checks of plans and evidence\<close>

definition required_param :: "string \<Rightarrow> string option" where
  "required_param target =
     map_of [(''executor.command'', ''command''), (''executor.launch'', ''app_name''), (''executor.kill'', ''pid'')] target"

definition validate_executable_plan :: "full_intent \<Rightarrow> step list \<Rightarrow> string option" where
  "validate_executable_plan i steps =
     (if in_confidence i < 6/10 then None
      else if steps = [] then Some (''No se pudo generar un plan de acci'' @ o_acute @ ''n ejecutable.'')
      else
        (case required_param (in_target i) of
           Some k \<Rightarrow>
             if pget (in_params i) k = PNone then Some (k @ '' is required for '' @ in_target i)
             else if list_ex (\<lambda>st. ps_tool_id st = []) steps
             then Some (''El plan de acci'' @ o_acute @ ''n contiene un paso sin herramienta asignada.'') else None
         | None \<Rightarrow>
             if list_ex (\<lambda>st. ps_tool_id st = []) steps
             then Some (''El plan de acci'' @ o_acute @ ''n contiene un paso sin herramienta asignada.'') else None))"

definition tool_planned :: "requirement \<Rightarrow> step list \<Rightarrow> bool" where
  "tool_planned r steps \<longleftrightarrow>
     (case gr_tool r of Some (c # cs) \<Rightarrow> c # cs \<in> set (map ps_tool_id steps) | _ \<Rightarrow> False)"

definition validate_grounding_plan :: "full_intent \<Rightarrow> step list \<Rightarrow> string option" where
  "validate_grounding_plan i steps =
     map_option (\<lambda>r. ''The plan cannot satisfy required grounding for '' @ category_name (gr_category r))
       (find (\<lambda>r. gr_required r \<and> \<not> tool_planned r steps) (in_grounding i))"

record evidence =
  ev_category :: ground_category
  ev_required :: bool
  ev_grounded :: bool
  ev_source :: string
  ev_tool :: "string option"
  ev_time :: string
  ev_freshness :: rat
  ev_error :: "string option"

definition result_for :: "string option \<Rightarrow> step_result list \<Rightarrow> step_result option" where
  \<comment> \<open>the last result of the tool\<close>
  "result_for tool results =
     (case tool of
        None \<Rightarrow> None
      | Some t \<Rightarrow> find (\<lambda>r. sr_tool r = t \<or> t \<noteq> [] \<and> sr_executed r = Some t) (rev results))"

definition grounded_result :: "requirement \<Rightarrow> step_result list \<Rightarrow> bool \<Rightarrow> bool" where
  "grounded_result r results dry \<longleftrightarrow>
     (case result_for (gr_tool r) results of Some m \<Rightarrow> sr_success m \<and> \<not> dry | None \<Rightarrow> False)"

definition evidence_for :: "step_result list \<Rightarrow> bool \<Rightarrow> requirement \<Rightarrow> evidence" where
  "evidence_for results dry r =
     (let m = result_for (gr_tool r) results; g = grounded_result r results dry
      in \<lparr>ev_category = gr_category r, ev_required = gr_required r, ev_grounded = g,
          ev_source = (if dry then ''simulation'' else if g then ''tool'' else ''none''), ev_tool = gr_tool r,
          ev_time = (case m of Some x \<Rightarrow> sr_time x | None \<Rightarrow> []), ev_freshness = gr_freshness r,
          ev_error = (if g \<or> dry then None
            else case m of Some x \<Rightarrow> sr_error x | None \<Rightarrow> Some ''Required tool result is missing'')\<rparr>)"

definition verify_grounding :: "full_intent \<Rightarrow> step_result list \<Rightarrow> bool \<Rightarrow> evidence list \<times> bool" where
  "verify_grounding i results dry =
     (map (evidence_for results dry) (in_grounding i),
      list_all (\<lambda>r. \<not> gr_required r \<or> grounded_result r results dry \<or> dry) (in_grounding i))"

definition tool_grounds :: "full_intent \<Rightarrow> string \<Rightarrow> bool" where
  "tool_grounds i t \<longleftrightarrow> t \<noteq> [] \<and> Some t \<in> set (map gr_tool (in_grounding i))"

fun precheck_levels :: "(step list \<Rightarrow> step \<Rightarrow> nat) \<Rightarrow> 's stepper \<Rightarrow> step list list
    \<Rightarrow> 's \<times> step_result list \<times> tool_result option \<Rightarrow> 's \<times> step_result list \<times> tool_result option" where
  \<comment> \<open>the steps that obtain evidence; a failure does not stop the next level\<close>
  "precheck_levels order exec [] s = s"
| "precheck_levels order exec (level # rest) (w, results, tool) =
     (case gather order exec results level w of
        (w', rs) \<Rightarrow>
          precheck_levels order exec rest
            (w', results @ map (\<lambda>(st, r). case r of Inl e \<Rightarrow> step_failed st (exc_text e) PNone | Inr x \<Rightarrow> x) rs,
             fold (\<lambda>(st, r) t. case r of Inl e \<Rightarrow> t | Inr x \<Rightarrow> Some (merge_tool_result t x)) rs tool))"



section \<open>The pipeline\<close>

record orch_parts =
  op_simulation :: bool
  op_classifier :: bool
  op_level :: "string option"
  op_knows :: "string \<Rightarrow> bool"
  op_show :: "rat \<Rightarrow> string"
  op_order :: "step list \<Rightarrow> step \<Rightarrow> nat"
  op_grounding :: bool

text \<open>Which parts there are: simulation, classifier, the decision engine with its permission level; the known
  applications, the text of numbers, the order in which the tasks of a level get to run, and the grounding engine.\<close>

record exec_result =
  xr_decision :: "verdict option"
  xr_tool :: "tool_result option"
  xr_error :: "string option"
  xr_steps :: "step_result list"
  xr_simulated :: bool
  xr_blocked :: bool
  xr_summary :: string
  xr_actions :: "rollback_action list"
  xr_evidence :: "evidence list"
  xr_satisfied :: bool
  xr_limited :: "rat option"

definition failed_result :: "string \<Rightarrow> exec_result" where
  \<comment> \<open>an \<open>ExecutionResult\<close> with an error and the defaults of the class\<close>
  "failed_result err =
     \<lparr>xr_decision = None, xr_tool = None, xr_error = Some err, xr_steps = [], xr_simulated = False, xr_blocked = False,
      xr_summary = [], xr_actions = [], xr_evidence = [], xr_satisfied = True, xr_limited = None\<rparr>"

definition result_approved :: "exec_result \<Rightarrow> bool" where
  "result_approved r \<longleftrightarrow>
     (case xr_tool r of Some t \<Rightarrow> tr_success t | None \<Rightarrow> False) \<and> xr_satisfied r
     \<and> (case xr_error r of Some (c # cs) \<Rightarrow> False | _ \<Rightarrow> True)"

definition run_simulation :: "orch_parts \<Rightarrow> bool \<Rightarrow> risk_context \<Rightarrow> plan \<Rightarrow> risk_context \<times> simulation option" where
  \<comment> \<open>with the entry that it leaves in the context\<close>
  "run_simulation parts off kx p =
     (case (if op_simulation parts \<and> \<not> off then simulate (op_show parts) kx p else Inl (AnyException [])) of
        Inl e \<Rightarrow> (kx, None)
      | Inr s \<Rightarrow>
          (kx\<lparr>rc_simulation := Some \<lparr>se_overall = si_overall s, se_irreversible = list_ex im_irreversible (si_impacts s)\<rparr>\<rparr>,
           Some s))"

definition approve_instead :: "verdict \<Rightarrow> verdict" where
  \<comment> \<open>the reason is replaced as well\<close>
  "approve_instead v = v\<lparr>vd_decision := Approve, vd_extra := None\<rparr>"

definition settle_decision :: "full_intent \<Rightarrow> bool \<Rightarrow> simulation option \<Rightarrow> verdict \<Rightarrow> verdict" where
  \<comment> \<open>the shortcut for queries, then the one for a plan with a durable grant\<close>
  "settle_decision i durable sim v =
     (let short = should_skip_decision (intent.truncate i)
            \<and> \<not> (case sim of Some s \<Rightarrow> si_requires_confirmation s | None \<Rightarrow> False);
          v1 = (if short \<and> vd_decision v = Require_Confirm then approve_instead v else v)
      in if durable \<and> vd_decision v1 = Require_Confirm then approve_instead v1 else v1)"

definition decide_plan :: "orch_parts \<Rightarrow> full_intent \<Rightarrow> plan \<Rightarrow> risk_context \<Rightarrow> bool \<Rightarrow> simulation option
    \<Rightarrow> verdict option result" where
  "decide_plan parts i p kx durable sim =
     (case op_level parts of
        None \<Rightarrow> Inr None
      | Some level \<Rightarrow>
          (let k = (if op_classifier parts
                 then Some (classify_risk (op_knows parts) (intent.truncate i) (pl_steps p) (Some kx) sim) else None)
           in bind_result (decide level p (Some kx) sim k) (\<lambda>v. Inr (Some (settle_decision i durable sim v)))))"

definition blocked_message :: "simulation option \<Rightarrow> string" where
  "blocked_message sim =
     (let ask = ''Necesito tu autorizaci'' @ o_acute @ ''n para '' in
      case find (\<lambda>m. im_tool m = ''executor.launch'' \<and> im_processes m \<noteq> [])
             (case sim of Some s \<Rightarrow> si_impacts s | None \<Rightarrow> []) of
        Some m \<Rightarrow> ask @ ''abrir '' @ hd (im_processes m) @ ''.''
      | None \<Rightarrow> ask @ ''continuar con esta acci'' @ o_acute @ ''n.'')"

definition rejected_message :: string where
  "rejected_message =
     ''No puedo ejecutar esta acci'' @ o_acute @ ''n porque excede el nivel de riesgo permitido.''"

definition unverified_message :: string where
  "unverified_message = ''No se pudo verificar la informaci'' @ o_acute @ ''n necesaria antes de ejecutar.''"

definition unobtained_message :: string where
  "unobtained_message =
     ''No se pudo obtener la informaci'' @ o_acute @ ''n necesaria para ejecutar la acci'' @ o_acute @ ''n.''"

definition plan_refusal :: "verdict option \<Rightarrow> simulation option \<Rightarrow> exec_result option" where
  \<comment> \<open>a plan that is rejected or has to be confirmed\<close>
  "plan_refusal d sim =
     (case d of
        None \<Rightarrow> None
      | Some v \<Rightarrow>
          if vd_decision v = Reject
          then Some ((failed_result rejected_message)\<lparr>xr_decision := d, xr_simulated := True\<rparr>)
          else if vd_decision v = Require_Confirm
          then Some ((failed_result (blocked_message sim))\<lparr>xr_decision := d, xr_simulated := True, xr_blocked := True,
                 xr_summary := (case sim of Some s \<Rightarrow> si_summary s | None \<Rightarrow> [])\<rparr>)
          else None)"

definition stepper_of :: "orch_code \<Rightarrow> full_intent \<Rightarrow> params \<Rightarrow> (string \<times> int) list \<Rightarrow> bool \<Rightarrow> orchestra stepper" where
  "stepper_of code i ctx indexes dry = execute_single_step code (in_params i) ctx indexes dry"

definition undoer_of :: "orch_code \<Rightarrow> params \<Rightarrow> orchestra undoer" where
  "undoer_of code ctx os tool ps =
     (case call_pipeline code tool ps ctx ''rollback'' os of (os', r) \<Rightarrow> (os', Rolled (tr_success r) (tr_error r)))"

definition durable :: "params \<Rightarrow> bool" where
  "durable ctx \<longleftrightarrow> truthy (pget ctx ''approved_plan_grant_id'')"

definition precheck :: "orch_code \<Rightarrow> orch_parts \<Rightarrow> full_intent \<Rightarrow> params \<Rightarrow> step list \<Rightarrow> orchestra
    \<Rightarrow> orchestra \<times> step_result list \<times> tool_result option" where
  \<comment> \<open>the indexes of an approved plan are not in the context yet\<close>
  "precheck code parts i ctx steps os =
     precheck_levels (op_order parts) (stepper_of code i ctx [] False)
       (resolve_dependencies (filter (\<lambda>st. tool_grounds i (ps_tool_id st)) steps)) (os, [], None)"

definition precheck_message :: string where
  "precheck_message = ''Error al ejecutar las verificaciones previas necesarias.''"

definition precheck_failure :: "full_intent \<Rightarrow> verdict option \<Rightarrow> step_result list \<Rightarrow> tool_result option \<Rightarrow> exec_result option"
where
  "precheck_failure i d results tool =
     (let (ev, ok) = verify_grounding i results False;
          r = (failed_result unverified_message)\<lparr>xr_decision := d, xr_evidence := ev, xr_satisfied := False,
                xr_steps := results, xr_tool := tool\<rparr>
      in if \<not> list_all sr_success results
         then Some (r\<lparr>xr_error := Some precheck_message\<rparr>)
         else if \<not> ok then Some r else None)"

definition plan_indexes :: "step list \<Rightarrow> (string \<times> int) list" where
  "plan_indexes steps = rev (zip (map ps_id steps) (map int [0 ..< length steps]))"

definition plan_levels :: "params \<Rightarrow> step list \<Rightarrow> step list list" where
  \<comment> \<open>a plan with a durable grant runs in the order in which its steps are listed\<close>
  "plan_levels ctx steps = (if durable ctx then map (\<lambda>st. [st]) steps else resolve_dependencies steps)"

definition run_plan :: "orch_code \<Rightarrow> orch_parts \<Rightarrow> full_intent \<Rightarrow> params \<Rightarrow> bool \<Rightarrow> step list
    \<Rightarrow> orchestra \<times> step_result list \<times> tool_result option \<Rightarrow> orchestra loop_state \<times> py_exc option" where
  "run_plan code parts i ctx dry steps pre =
     (case pre of
        (os, results, tool) \<Rightarrow>
          run_levels (op_order parts)
            (stepper_of code i ctx (if durable ctx then plan_indexes steps else []) dry) (undoer_of code ctx) dry
            (map sr_id results) (plan_levels ctx steps)
            \<lparr>lp_world = os, lp_results = results,
             lp_tool = (if steps \<noteq> [] \<and> plan_levels ctx steps = [] \<and> results = []
               then Some (tool_fail ''Invalid plan dependency graph'' ''planner'') else tool),
             lp_done = [], lp_actions = []\<rparr>)"

definition total_time :: "step_result list \<Rightarrow> rat" where
  "total_time results = sum_list (map (\<lambda>r. or_zero (sr_duration r)) results)"

definition loop_result :: "full_intent \<Rightarrow> verdict option \<Rightarrow> bool \<Rightarrow> step list \<Rightarrow> 's loop_state \<Rightarrow> exec_result" where
  "loop_result i d dry steps l =
     (let results = skip_rest dry steps (lp_results l);
          tool = map_option (\<lambda>t. t\<lparr>tr_duration_ms := Some (total_time results)\<rparr>) (lp_tool l);
          (ev, ok) = verify_grounding i results dry
      in \<lparr>xr_decision = d, xr_tool = tool,
          xr_error = (case tool of Some t \<Rightarrow> if tr_success t then None else tr_error t | None \<Rightarrow> None),
          xr_steps = results, xr_simulated = dry, xr_blocked = False, xr_summary = [], xr_actions = lp_actions l,
          xr_evidence = ev, xr_satisfied = ok, xr_limited = None\<rparr>)"

definition has_error :: "exec_result \<Rightarrow> bool" where
  "has_error r \<longleftrightarrow> (case xr_error r of Some (c # cs) \<Rightarrow> True | _ \<Rightarrow> False)"

definition identity_dict :: "params \<Rightarrow> bool" where
  \<comment> \<open>\<open>isinstance(context.get("identity") or {}, dict)\<close>\<close>
  "identity_dict ctx \<longleftrightarrow> (case pget ctx ''identity'' of PDict d \<Rightarrow> True | v \<Rightarrow> \<not> truthy v)"

definition close_plan :: "orch_code \<Rightarrow> params \<Rightarrow> orchestra \<Rightarrow> exec_result \<Rightarrow> orchestra \<times> exec_result result" where
  \<comment> \<open>completes or fails the durable grant\<close>
  "close_plan code ctx os r =
     (let gid = str_of (pget ctx ''approved_plan_grant_id'');
          user = own_text ctx ''user_id''; session = own_text ctx ''session_id''; ident = caller_hash code ctx;
          now = ne_text_now (ox_env code (os_calls os))
      in if \<not> durable ctx \<or> \<not> ox_broker code \<or> \<not> identity_dict ctx then (os, Inr r)
         else if \<not> has_error r \<and> list_all sr_success (xr_steps r) then
           (case complete_plan (grants_of os) gid user session ident now now of
              (db, Inl e) \<Rightarrow> (with_grants db os, Inl e)
            | (db, Inr ok) \<Rightarrow>
                (with_grants db os, Inr (if ok then r else r\<lparr>xr_error := Some ''durable plan completion failed''\<rparr>)))
         else if has_error r
         then (with_grants (fst (fail_plan (grants_of os) gid user session ident now now)) os, Inr r)
         else (os, Inr r))"

definition finish :: "bool \<Rightarrow> bool \<Rightarrow> exec_result \<Rightarrow> exec_result" where
  \<comment> \<open>missing evidence is an error unless it was verified before\<close>
  "finish dry verified r =
     (if \<not> dry \<and> \<not> xr_satisfied r \<and> \<not> has_error r \<and> \<not> verified then r\<lparr>xr_error := Some unobtained_message\<rparr> else r)"

definition evidence_wanted :: "full_intent \<Rightarrow> bool \<Rightarrow> bool" where
  "evidence_wanted i dry \<longleftrightarrow>
     list_ex (\<lambda>r. case gr_tool r of Some (c # cs) \<Rightarrow> True | _ \<Rightarrow> False) (in_grounding i) \<and> \<not> dry"

definition execute_plan :: "orch_code \<Rightarrow> orch_parts \<Rightarrow> full_intent \<Rightarrow> params \<Rightarrow> bool \<Rightarrow> step list \<Rightarrow> verdict option
    \<Rightarrow> orchestra \<Rightarrow> orchestra \<times> exec_result result" where
  \<comment> \<open>from the checks of the evidence on\<close>
  "execute_plan code parts i ctx dry steps d os =
     (case validate_grounding_plan i steps of
        Some err \<Rightarrow> (os, Inr ((failed_result unverified_message)\<lparr>xr_decision := d\<rparr>))
      | None \<Rightarrow>
          (let wanted = evidence_wanted i dry;
               pre = (if wanted then precheck code parts i ctx steps os else (os, [], None));
               failure = (if wanted then precheck_failure i d (fst (snd pre)) (snd (snd pre)) else None)
           in case failure of
                Some r \<Rightarrow> (fst pre, Inr r)
              | None \<Rightarrow>
                  (case run_plan code parts i ctx dry steps pre of
                     (l, Some e) \<Rightarrow> (lp_world l, Inl e)
                   | (l, None) \<Rightarrow>
                       (case close_plan code ctx (lp_world l) (loop_result i d dry steps l) of
                          (os', Inl e) \<Rightarrow> (os', Inl e)
                        | (os', Inr r) \<Rightarrow> (os', Inr (finish dry wanted r))))))"

definition run_pipeline :: "orch_code \<Rightarrow> orch_parts \<Rightarrow> full_intent \<Rightarrow> params \<Rightarrow> risk_context \<Rightarrow> bool \<Rightarrow> bool \<Rightarrow> plan
    \<Rightarrow> orchestra \<Rightarrow> orchestra \<times> exec_result result" where
  \<comment> \<open>the booleans: a dry run, and whether the simulation is skipped\<close>
  "run_pipeline code parts i ctx kx dry nosim p os =
     (case validate_executable_plan i (pl_steps p) of
        Some err \<Rightarrow>
          (os, Inr ((failed_result err)\<lparr>xr_tool := Some (tool_fail err (if in_target i = [] then ''planner'' else in_target i))\<rparr>))
      | None \<Rightarrow>
          (case run_simulation parts (dry \<or> nosim) kx p of
             (kx', sim) \<Rightarrow>
               (case decide_plan parts i p kx' (durable ctx) sim of
                  Inl e \<Rightarrow> (os, Inl e)
                | Inr d \<Rightarrow>
                    (case plan_refusal d sim of
                       Some r \<Rightarrow> (os, Inr r)
                     | None \<Rightarrow> execute_plan code parts i ctx dry (pl_steps p) d os))))"



section \<open>What the loop guarantees\<close>

lemma exec_all_keys: "map fst (snd (exec_all exec rs sts w)) = map ps_id sts"
  by (induction sts arbitrary: w) (simp_all add: Let_def case_prod_beta')

lemma note_outcome_simps [simp]:
  "lp_world (note_outcome p l) = lp_world l" "lp_actions (note_outcome p l) = lp_actions l"
  by (auto simp: note_outcome_def note_result_def note_exception_def Let_def split: sum.split)

definition outcome_result :: "step \<times> step_result result \<Rightarrow> step_result" where
  "outcome_result p = (case snd p of Inl e \<Rightarrow> step_failed (fst p) (exc_text e) PNone | Inr r \<Rightarrow> r)"

lemma note_outcome_done:
  "lp_done (note_outcome p l) = lp_done l @ [(fst p, outcome_result p)]"
  "lp_results (note_outcome p l) = lp_results l @ [outcome_result p]"
  by (auto simp: note_outcome_def note_result_def note_exception_def outcome_result_def Let_def split: sum.split)

lemma note_all:
  "lp_done (fold note_outcome ps l) = lp_done l @ map (\<lambda>p. (fst p, outcome_result p)) ps"
  "lp_results (fold note_outcome ps l) = lp_results l @ map outcome_result ps"
  "lp_actions (fold note_outcome ps l) = lp_actions l"
  "lp_world (fold note_outcome ps l) = lp_world l"
  by (induction ps arbitrary: l) (simp_all add: note_outcome_done)

lemma outcome_success: "sr_success (outcome_result p) \<longleftrightarrow> (case snd p of Inr x \<Rightarrow> sr_success x | Inl e \<Rightarrow> False)"
  by (simp add: outcome_result_def split: sum.split)

definition undo_plan :: "(step \<times> step_result) list \<Rightarrow> (string \<times> string) list" where
  \<comment> \<open>what has to be undone: the reversible steps that succeeded, the last one first\<close>
  "undo_plan completed =
     rev (map (\<lambda>(st, r). (ps_id st, the (ps_rollback_tool_id st)))
       (filter (\<lambda>(st, r). sr_success r \<and> reversible (plan_step.truncate st)) completed))"

definition undone :: "rollback_action list \<Rightarrow> (string \<times> string) list" where
  "undone acts = map (\<lambda>a. (ra_step_id a, ra_rollback_tool_id a)) acts"


lemma truncate_simps [simp]:
  "ps_id (plan_step.truncate st) = ps_id st" "ps_rollback_tool_id (plan_step.truncate st) = ps_rollback_tool_id st"
  by (simp_all add: plan_step.truncate_def)

lemma filter_mapped: "filter P (map f xs) = map f (filter (\<lambda>x. P (f x)) xs)"
  by (induction xs) simp_all

lemma undo_completed_actions:
  assumes "\<forall>(st, r) \<in> set completed. sr_success r"
  shows "undone (lp_actions (undo_completed undo completed l)) = undone (lp_actions l) @ undo_plan completed"
proof -
  obtain w acts where r: "rollback undo (map (\<lambda>(st, r). (plan_step.truncate st, sr_data r)) completed) (lp_world l) = (w, acts)"
    by fastforce
  have f: "filter (\<lambda>(st, r). sr_success r \<and> reversible (plan_step.truncate st)) completed
      = filter (\<lambda>(st, r). reversible (plan_step.truncate st)) completed"
    using assms by (intro filter_cong) auto
  have "undone acts = undo_plan completed"
    using rollback_complete [of undo "map (\<lambda>(st, r). (plan_step.truncate st, sr_data r)) completed" "lp_world l"] r
    unfolding undo_plan_def f undone_def by (simp add: filter_mapped case_prod_beta' comp_def)
  then show ?thesis using r by (simp add: undo_completed_def undone_def)
qed

lemma undo_completed_simps [simp]:
  "lp_results (undo_completed undo completed l) = lp_results l" "lp_done (undo_completed undo completed l) = lp_done l"
  by (simp_all add: undo_completed_def split: prod.split)

lemma undo_plan_success: "undo_plan (filter (\<lambda>(st, r). sr_success r) d) = undo_plan d"
proof -
  have "filter (\<lambda>(st, r). sr_success r \<and> reversible (plan_step.truncate st)) (filter (\<lambda>(st, r). sr_success r) d)
      = filter (\<lambda>(st, r). sr_success r \<and> reversible (plan_step.truncate st)) d"
    by (induction d) auto
  then show ?thesis unfolding undo_plan_def by simp
qed

lemma undo_plan_append: "\<not> sr_success r \<Longrightarrow> undo_plan (d @ [(st, r)]) = undo_plan d"
  by (simp add: undo_plan_def)

text \<open>The contract of the loop with the way steps are executed: the result of a step carries the identifier of that step.\<close>

locale plan_loop =
  fixes exec :: "'s stepper" and undo :: "'s undoer" and order :: "step list \<Rightarrow> step \<Rightarrow> nat"
  assumes ids: "exec rs st w = (w', Inr r) \<Longrightarrow> sr_id r = ps_id st"
begin

lemma exec_all_ids:
  "(k, Inr r) \<in> set (snd (exec_all exec rs sts w)) \<Longrightarrow> sr_id r = k"
proof (induction sts arbitrary: w)
  case (Cons st sts)
  obtain w1 x where e: "exec rs st w = (w1, x)" by fastforce
  obtain w2 ys where a: "exec_all exec rs sts w1 = (w2, ys)" by fastforce
  from Cons.prems e a consider "k = ps_id st" "x = Inr r" | "(k, Inr r) \<in> set ys" by auto
  then show ?case
  proof cases
    case 1
    with ids e show ?thesis by blast
  next
    case 2
    with Cons.IH [of w1] a show ?thesis by simp
  qed
qed simp

lemma gather_ids:
  assumes "gather order exec rs sts w = (w', ps)"
  shows "map fst ps = sts \<and> (\<forall>p \<in> set ps. sr_id (outcome_result p) = ps_id (fst p))"
proof -
  obtain v kv where e: "exec_all exec rs (sort_key (order sts) sts) w = (v, kv)" by fastforce
  with assms have ps: "ps = map (\<lambda>st. (st, the (map_of kv (ps_id st)))) sts" by (simp add: gather_def)
  have "sr_id (outcome_result (st, the (map_of kv (ps_id st)))) = ps_id st" if "st \<in> set sts" for st
  proof -
    have "st \<in> set (sort_key (order sts) sts)" using that by simp
    then have "ps_id st \<in> fst ` set kv"
      using exec_all_keys [of exec rs "sort_key (order sts) sts" w] e by (metis image_eqI list.set_map snd_conv)
    then obtain x where x: "map_of kv (ps_id st) = Some x" by (metis map_of_eq_None_iff option.exhaust)
    show ?thesis
    proof (cases x)
      case (Inr r)
      with map_of_SomeD [OF x] exec_all_ids [of "ps_id st" r rs "sort_key (order sts) sts" w] e x show ?thesis
        by (simp add: outcome_result_def)
    qed (simp add: outcome_result_def x)
  qed
  then show ?thesis unfolding ps by (auto simp: comp_def)
qed

definition loop_shape :: "bool \<Rightarrow> 's loop_state \<Rightarrow> 's loop_state \<Rightarrow> step list \<Rightarrow> step list \<Rightarrow> bool" where
  \<comment> \<open>from the first to the second state some steps were executed and some were left\<close>
  "loop_shape dry l l' did left \<longleftrightarrow>
     (\<exists>d. lp_done l' = lp_done l @ d \<and> map fst d = did \<and> lp_results l' = lp_results l @ map snd d
        \<and> (\<forall>(st, r) \<in> set d. sr_id r = ps_id st)
        \<and> (if \<not> dry \<and> (\<exists>(st, r) \<in> set d. \<not> sr_success r)
           then undone (lp_actions l') = undone (lp_actions l) @ undo_plan (lp_done l')
           else lp_actions l' = lp_actions l \<and> left = []))"

lemma loop_shape_trans:
  assumes "loop_shape dry l l1 a []" and "dry \<or> (\<forall>(st, r) \<in> set (drop (length (lp_done l)) (lp_done l1)). sr_success r)"
    and "loop_shape dry l1 l2 b c"
  shows "loop_shape dry l l2 (a @ b) c"
proof -
  from assms(1) obtain d where d: "lp_done l1 = lp_done l @ d" "map fst d = a" "lp_results l1 = lp_results l @ map snd d"
    "\<forall>(st, r) \<in> set d. sr_id r = ps_id st" and acts: "if \<not> dry \<and> (\<exists>(st, r) \<in> set d. \<not> sr_success r)
           then undone (lp_actions l1) = undone (lp_actions l) @ undo_plan (lp_done l1)
           else lp_actions l1 = lp_actions l \<and> ([] :: step list) = []"
    unfolding loop_shape_def by blast
  from assms(3) obtain e where e: "lp_done l2 = lp_done l1 @ e" "map fst e = b" "lp_results l2 = lp_results l1 @ map snd e"
    "\<forall>(st, r) \<in> set e. sr_id r = ps_id st"
    "if \<not> dry \<and> (\<exists>(st, r) \<in> set e. \<not> sr_success r)
           then undone (lp_actions l2) = undone (lp_actions l1) @ undo_plan (lp_done l2) else lp_actions l2 = lp_actions l1 \<and> c = []"
    unfolding loop_shape_def by blast
  have ok: "dry \<or> (\<forall>(st, r) \<in> set d. sr_success r)" using assms(2) d(1) by simp
  then have "\<not> (\<not> dry \<and> (\<exists>(st, r) \<in> set d. \<not> sr_success r))" by auto
  with acts have same: "lp_actions l1 = lp_actions l" by (simp only: if_False)
  show ?thesis
    unfolding loop_shape_def
    by (intro exI [of _ "d @ e"]) (use d e ok same in \<open>auto split: if_splits\<close>)
qed

lemma run_levels_shape:
  assumes "run_levels order exec undo dry already lvs l = (l', None)"
    and "dry \<or> (\<forall>(st, r) \<in> set (lp_done l). sr_success r)"
  shows "\<exists>did left. concat (map (filter (\<lambda>st. ps_id st \<notin> set already)) lvs) = did @ left \<and> loop_shape dry l l' did left"
  using assms
proof (induction lvs arbitrary: l)
  case Nil
  then show ?case by (auto simp: loop_shape_def)
next
  case (Cons level lvs)
  let ?todo = "filter (\<lambda>st. ps_id st \<notin> set already) level"
  consider "?todo = []" | st where "?todo = [st]" | s1 s2 more where "?todo = s1 # s2 # more"
    by (metis list.exhaust)
  then show ?case
  proof cases
    case 1
    with Cons show ?thesis by simp
  next
    case (2 st)
    obtain w x where e: "exec (lp_results l) st (lp_world l) = (w, x)" by fastforce
    with Cons.prems(1) 2 obtain r where r: "x = Inr r" by (cases x) auto
    have i: "sr_id r = ps_id st" using ids e r by blast
    define l1 where "l1 = note_result st r (l\<lparr>lp_world := w\<rparr>)"
    have l1: "lp_done l1 = lp_done l @ [(st, r)]" "lp_results l1 = lp_results l @ [r]" "lp_actions l1 = lp_actions l"
      by (simp_all add: l1_def note_result_def)
    show ?thesis
    proof (cases "\<not> sr_success r \<and> \<not> dry")
      case True
      with Cons.prems(1) 2 e r have l': "l' = undo_completed undo (lp_done l) l1" by (simp add: l1_def Let_def)
      have "undone (lp_actions l') = undone (lp_actions l) @ undo_plan (lp_done l')"
        unfolding l' using undo_completed_actions [of "lp_done l" undo l1] Cons.prems(2) True l1 by (simp add: undo_plan_append)
      then have "loop_shape dry l l' [st] (concat (map (filter (\<lambda>st. ps_id st \<notin> set already)) lvs))"
        unfolding loop_shape_def by (intro exI [of _ "[(st, r)]"]) (use True l1 i in \<open>simp add: l'\<close>)
      with 2 show ?thesis by (intro exI [of _ "[st]"] exI) simp
    next
      case False
      with Cons.prems(1) 2 e r have "run_levels order exec undo dry already lvs l1 = (l', None)" by (simp add: l1_def Let_def)
      moreover have "dry \<or> (\<forall>(st, r) \<in> set (lp_done l1). sr_success r)" using False Cons.prems(2) l1 by auto
      ultimately obtain did left where IH: "concat (map (filter (\<lambda>st. ps_id st \<notin> set already)) lvs) = did @ left"
        "loop_shape dry l1 l' did left" using Cons.IH by blast
      have "loop_shape dry l l1 [st] []"
        unfolding loop_shape_def by (intro exI [of _ "[(st, r)]"]) (use False l1 i in auto)
      then have "loop_shape dry l l' ([st] @ did) left"
        by (rule loop_shape_trans [OF _ _ IH(2)]) (use False l1 in auto)
      with 2 IH(1) show ?thesis by (intro exI [of _ "[st] @ did"] exI [of _ left]) simp
    qed
  next
    case (3 s1 s2 more)
    obtain w ps where g: "gather order exec (lp_results l) ?todo (lp_world l) = (w, ps)" by fastforce
    note gi = gather_ids [OF g]
    define l1 where "l1 = fold note_outcome ps (l\<lparr>lp_world := w\<rparr>)"
    define d where "d = map (\<lambda>p. (fst p, outcome_result p)) ps"
    define ok where "ok = list_all (\<lambda>(st, r). case r of Inr x \<Rightarrow> sr_success x | Inl e \<Rightarrow> False) ps"
    have l1: "lp_done l1 = lp_done l @ d" "lp_results l1 = lp_results l @ map snd d" "lp_actions l1 = lp_actions l"
      by (simp_all add: l1_def note_all d_def comp_def)
    have d: "map fst d = ?todo" "\<forall>(st, r) \<in> set d. sr_id r = ps_id st" using gi by (auto simp: d_def comp_def)
    have okd: "ok \<longleftrightarrow> (\<forall>(st, r) \<in> set d. sr_success r)"
      by (auto simp: ok_def d_def list_all_iff outcome_success)
    have step: "run_levels order exec undo dry already (level # lvs) l
        = (if \<not> ok \<and> \<not> dry then (undo_completed undo (filter (\<lambda>(st, r). sr_success r) (lp_done l1)) l1, None)
           else run_levels order exec undo dry already lvs l1)"
      using g unfolding run_levels.simps 3 list.case by (simp add: l1_def [symmetric] ok_def [symmetric] Let_def)
    show ?thesis
    proof (cases "\<not> ok \<and> \<not> dry")
      case True
      with Cons.prems(1) step have l': "l' = undo_completed undo (filter (\<lambda>(st, r). sr_success r) (lp_done l1)) l1" by simp
      have "undone (lp_actions l') = undone (lp_actions l) @ undo_plan (lp_done l')"
        unfolding l' undo_completed_simps
        by (subst undo_completed_actions) (auto simp: undo_plan_success l1(3))
      then have "loop_shape dry l l' ?todo (concat (map (filter (\<lambda>st. ps_id st \<notin> set already)) lvs))"
        unfolding loop_shape_def by (intro exI [of _ d]) (use True l1 d okd in \<open>auto simp: l'\<close>)
      then show ?thesis by (intro exI [of _ ?todo] exI) simp
    next
      case False
      with Cons.prems(1) step have "run_levels order exec undo dry already lvs l1 = (l', None)" by simp
      moreover have "dry \<or> (\<forall>(st, r) \<in> set (lp_done l1). sr_success r)" using False Cons.prems(2) l1 okd by auto
      ultimately obtain did left where IH: "concat (map (filter (\<lambda>st. ps_id st \<notin> set already)) lvs) = did @ left"
        "loop_shape dry l1 l' did left" using Cons.IH by blast
      have "loop_shape dry l l1 ?todo []"
        unfolding loop_shape_def by (intro exI [of _ d]) (use False l1 d okd in auto)
      then have "loop_shape dry l l' (?todo @ did) left"
        by (rule loop_shape_trans [OF _ _ IH(2)]) (use False l1 okd in auto)
      with IH(1) show ?thesis by (intro exI [of _ "?todo @ did"] exI [of _ left]) simp
    qed
  qed
qed

lemma precheck_ids:
  "\<exists>rs. fst (snd (precheck_levels order exec lvs (w, results, tool))) = results @ rs \<and> map sr_id rs = map ps_id (concat lvs)"
proof (induction lvs arbitrary: w results tool)
  case (Cons level lvs)
  obtain w' ps where g: "gather order exec results level w = (w', ps)" by fastforce
  note gi = gather_ids [OF g]
  have r: "(\<lambda>(st, r). case r of Inl e \<Rightarrow> step_failed st (exc_text e) PNone | Inr x \<Rightarrow> x) = outcome_result"
    by (auto simp: outcome_result_def fun_eq_iff split: sum.split)
  have m: "map sr_id (map outcome_result ps) = map ps_id level" using gi by (auto simp: comp_def)
  from Cons.IH obtain rs where rs: "fst (snd (precheck_levels order exec lvs
      (w', results @ map outcome_result ps, fold (\<lambda>(st, r) t. case r of Inl e \<Rightarrow> t | Inr x \<Rightarrow> Some (merge_tool_result t x)) ps tool)))
      = (results @ map outcome_result ps) @ rs" "map sr_id rs = map ps_id (concat lvs)" by blast
  show ?case
    unfolding precheck_levels.simps g prod.case r rs(1)
    by (intro exI [of _ "map outcome_result ps @ rs"]) (use m rs(2) in simp)
qed simp

end

interpretation steps: plan_loop "stepper_of code i ctx indexes dry" "undoer_of code ctx" "op_order parts" for code :: orch_code and i ctx indexes dry and parts :: orch_parts
  by unfold_locales (auto simp: stepper_of_def dest: single_step_result)

lemma resolved_levels:
  assumes "resolve_dependencies steps \<noteq> []"
  shows "mset (concat (resolve_dependencies steps)) = mset steps"
proof -
  let ?ls = "step_levels steps"
  have d: "distinct (map ps_id steps)" "depends_known steps" and len: "sum_list (map length ?ls) = length steps"
    using assms by (auto simp: resolve_dependencies_def split: if_splits)
  have f: "distinct (concat ?ls)" "set (concat ?ls) \<subseteq> set (map ps_id steps)"
    using level_chain_facts [OF step_levels_chain [OF d(1)]] by blast+
  have "card (set (concat ?ls)) = card (set (map ps_id steps))"
    using f(1) d(1) len by (metis distinct_card length_concat length_map)
  then have "set (concat ?ls) = set (map ps_id steps)" using f(2) by (simp add: card_subset_eq)
  with schedulable_complete [OF d] have "schedulable steps" by simp
  from resolve_schedulable [OF this] have r: "map (map ps_id) (resolve_dependencies steps) = ?ls"
    "set (concat (resolve_dependencies steps)) = set steps" by auto
  have "map ps_id (concat (resolve_dependencies steps)) = concat ?ls" using r(1) by (metis map_concat)
  then have "distinct (concat (resolve_dependencies steps))" using f(1) by (metis distinct_map)
  moreover have "distinct steps" using d(1) by (simp add: distinct_map)
  ultimately show ?thesis using r(2) by (metis set_eq_iff_mset_eq_distinct)
qed




lemma finish_keeps [simp]:
  "xr_steps (finish dry v r) = xr_steps r" "xr_actions (finish dry v r) = xr_actions r"
  by (simp_all add: finish_def)

lemma loop_result_simps [simp]:
  "xr_steps (loop_result i d dry steps l) = skip_rest dry steps (lp_results l)"
  "xr_actions (loop_result i d dry steps l) = lp_actions l"
  by (simp_all add: loop_result_def Let_def case_prod_beta')


lemma precheck_ok: "precheck_failure i d results tool = None \<Longrightarrow> list_all sr_success results"
  by (auto simp: precheck_failure_def Let_def split: prod.splits if_splits)






section \<open>Which tools run\<close>

lemma exec_all_keeps:
  assumes "\<And>rs st w. P w \<Longrightarrow> P (fst (exec rs st w))" and "P w"
  shows "P (fst (exec_all exec rs sts w))"
  using assms(2)
proof (induction sts arbitrary: w)
  case (Cons st sts)
  from Cons.IH [OF assms(1) [OF Cons.prems]] show ?case by (simp add: Let_def case_prod_beta')
qed simp

lemma gather_keeps:
  assumes "\<And>rs st w. P w \<Longrightarrow> P (fst (exec rs st w))" and "P w"
  shows "P (fst (gather order exec rs sts w))"
  using exec_all_keeps [of P exec, OF assms] by (simp add: gather_def Let_def case_prod_beta')

lemma rollback_list_keeps:
  assumes "\<And>w t ps. P w \<Longrightarrow> P (fst (undo w t ps))" and "P w"
  shows "P (fst (rollback_list undo xs w))"
  using assms(2)
proof (induction xs arbitrary: w)
  case (Cons x xs)
  from Cons.IH [OF assms(1) [OF Cons.prems]] Cons show ?case by (cases x) (simp add: Let_def case_prod_beta')
qed simp

lemma run_levels_keeps:
  assumes exec: "\<And>rs st w. P w \<Longrightarrow> P (fst (exec rs st w))"
    and undo: "\<And>w t ps. \<not> dry \<Longrightarrow> P w \<Longrightarrow> P (fst (undo w t ps))" and "P (lp_world l)"
  shows "P (lp_world (fst (run_levels order exec undo dry already lvs l)))"
  using assms(3)
proof (induction lvs arbitrary: l)
  case (Cons level lvs)
  let ?todo = "filter (\<lambda>st. ps_id st \<notin> set already) level"
  have u: "P (lp_world (undo_completed undo c l1))" if "\<not> dry" "P (lp_world l1)" for c l1
    using rollback_list_keeps [of P undo, OF undo [OF that(1)] that(2)]
    by (simp add: undo_completed_def rollback_def case_prod_beta')
  consider "?todo = []" | st where "?todo = [st]" | s1 s2 more where "?todo = s1 # s2 # more"
    by (metis list.exhaust)
  then show ?case
  proof cases
    case 1
    with Cons show ?thesis by simp
  next
    case (2 st)
    obtain w x where e: "exec (lp_results l) st (lp_world l) = (w, x)" by fastforce
    with exec [OF Cons.prems] have w: "P w" by (metis fst_conv)
    show ?thesis using 2 e w Cons.IH u by (cases x) (auto simp: Let_def note_result_def)
  next
    case (3 s1 s2 more)
    obtain w ps where g: "gather order exec (lp_results l) ?todo (lp_world l) = (w, ps)" by fastforce
    with gather_keeps [of P exec, OF exec Cons.prems] have w: "P w" by (metis fst_conv)
    then have "P (lp_world (fold note_outcome ps (l\<lparr>lp_world := w\<rparr>)))" by (simp add: note_all)
    with g Cons.IH u show ?thesis unfolding run_levels.simps 3 list.case by (simp add: Let_def)
  qed
qed simp

lemma precheck_levels_keeps:
  assumes "\<And>rs st w. P w \<Longrightarrow> P (fst (exec rs st w))" and "P w"
  shows "P (fst (precheck_levels order exec lvs (w, results, tool)))"
  using assms(2)
proof (induction lvs arbitrary: w results tool)
  case (Cons level lvs)
  obtain w' ps where g: "gather order exec results level w = (w', ps)" by fastforce
  with gather_keeps [of P exec, OF assms(1) Cons.prems] have "P w'" by (metis fst_conv)
  with Cons.IH g show ?case by simp
qed simp

definition ran_tools :: "orchestra \<Rightarrow> (string \<times> params \<times> params) list" where
  "ran_tools os = runs (snd (os_world os))"

lemma close_plan_tools: "ran_tools (fst (close_plan code ctx os r)) = ran_tools os"
  by (simp add: close_plan_def ran_tools_def Let_def split: prod.split sum.split)

lemma dry_stepper: "fst (stepper_of code i ctx indexes True rs st os) = os"
  by (simp add: stepper_of_def dry_step)

lemma run_plan_dry:
  assumes "run_plan code parts i ctx True steps (os, [], None) = (l, x)"
  shows "lp_world l = os"
proof -
  have "lp_world (fst (run_plan code parts i ctx True steps (os, [], None))) = os"
    unfolding run_plan_def prod.case
    by (rule run_levels_keeps [where P = "\<lambda>w. w = os"]) (simp_all add: dry_stepper)
  then show ?thesis by (simp add: assms)
qed

lemma execute_plan_dry: "ran_tools (fst (execute_plan code parts i ctx True steps d os)) = ran_tools os"
proof -
  obtain l x where l: "run_plan code parts i ctx True steps (os, [], None) = (l, x)" by fastforce
  have w: "evidence_wanted i True = False" by (simp add: evidence_wanted_def)
  show ?thesis
    using close_plan_tools [of code ctx os "loop_result i d True steps l"] run_plan_dry [OF l]
    by (cases x) (auto simp: execute_plan_def w l split: option.split prod.split sum.split)
qed

definition plan_is_complete :: "full_intent \<Rightarrow> step list \<Rightarrow> bool" where
  \<comment> \<open>a plan that has steps, a tool for every step, and the parameter its target requires\<close>
  "plan_is_complete i steps \<longleftrightarrow>
     steps \<noteq> [] \<and> (\<forall>st \<in> set steps. ps_tool_id st \<noteq> [])
     \<and> (\<forall>k. required_param (in_target i) = Some k \<longrightarrow> pget (in_params i) k \<noteq> PNone)"

lemma executable_plan_iff:
  "validate_executable_plan i steps = None \<longleftrightarrow> (6/10 \<le> in_confidence i \<longrightarrow> plan_is_complete i steps)"
  by (auto simp: validate_executable_plan_def plan_is_complete_def list_ex_iff split: option.splits)

lemma grounding_plan_iff:
  "validate_grounding_plan i steps = None \<longleftrightarrow> (\<forall>r \<in> set (in_grounding i). gr_required r \<longrightarrow> tool_planned r steps)"
  by (auto simp: validate_grounding_plan_def find_None_iff)

definition may_run :: "orch_parts \<Rightarrow> full_intent \<Rightarrow> params \<Rightarrow> risk_context \<Rightarrow> bool \<Rightarrow> bool \<Rightarrow> plan \<Rightarrow> bool" where
  \<comment> \<open>when a plan may run at all: a confirmation is only waived for a query without a risky simulation or by a durable grant\<close>
  "may_run parts i ctx kx dry nosim p \<longleftrightarrow>
     \<not> dry \<and> (6/10 \<le> in_confidence i \<longrightarrow> plan_is_complete i (pl_steps p))
     \<and> (\<forall>r \<in> set (in_grounding i). gr_required r \<longrightarrow> tool_planned r (pl_steps p))
     \<and> (case op_level parts of
          None \<Rightarrow> True
        | Some level \<Rightarrow>
            (let (kx', sim) = run_simulation parts nosim kx p;
                 k = (if op_classifier parts
                   then Some (classify_risk (op_knows parts) (intent.truncate i) (pl_steps p) (Some kx') sim) else None)
             in case decide level p (Some kx') sim k of
                  Inl e \<Rightarrow> False
                | Inr v \<Rightarrow>
                    vd_decision v \<noteq> Reject
                    \<and> (vd_decision v = Require_Confirm \<longrightarrow>
                         durable ctx \<or> should_skip_decision (intent.truncate i)
                           \<and> \<not> (case sim of Some s \<Rightarrow> si_requires_confirmation s | None \<Rightarrow> False))))"

lemma settled_refusal:
  "plan_refusal (Some (settle_decision i dur sim v)) sim = None \<Longrightarrow>
     vd_decision v \<noteq> Reject \<and> (vd_decision v = Require_Confirm \<longrightarrow>
       dur \<or> should_skip_decision (intent.truncate i) \<and> \<not> (case sim of Some s \<Rightarrow> si_requires_confirmation s | None \<Rightarrow> False))"
  by (auto simp: plan_refusal_def settle_decision_def approve_instead_def Let_def split: if_splits)

text \<open>
  C5: The pipeline runs no tool unless the plan may run: not for a dry run, a plan that lacks the tool of a required
  evidence, or a plan whose assessment fails or rejects it; not for a plan that has to be confirmed, except for queries
  whose simulation does not ask for it and with a durable grant; and, when the intent was recognised with a confidence
  of 0.6 or more, not for a plan without steps, with a step without a tool, or without the parameter its target
  requires. Below 0.6 the plan is not checked for these three.
\<close>

theorem tools_run_as_decided:
  assumes "\<not> may_run parts i ctx kx dry nosim p"
  shows "ran_tools (fst (run_pipeline code parts i ctx kx dry nosim p os)) = ran_tools os"
proof (cases "validate_executable_plan i (pl_steps p)")
  case (Some err)
  then show ?thesis by (simp add: run_pipeline_def)
next
  case None
  obtain kx' sim where s: "run_simulation parts (dry \<or> nosim) kx p = (kx', sim)" by fastforce
  obtain y where d: "decide_plan parts i p kx' (durable ctx) sim = y" by blast
  have run: "run_pipeline code parts i ctx kx dry nosim p os =
     (case y of Inl e \<Rightarrow> (os, Inl e)
      | Inr d \<Rightarrow> (case plan_refusal d sim of Some r \<Rightarrow> (os, Inr r) | None \<Rightarrow> execute_plan code parts i ctx dry (pl_steps p) d os))"
    by (simp add: run_pipeline_def None s d)
  show ?thesis
  proof (cases "(\<exists>e. y = Inl e) \<or> (\<exists>d r. y = Inr d \<and> plan_refusal d sim = Some r)")
    case True
    then show ?thesis unfolding run by auto
  next
    case False
    then obtain dd where dd: "y = Inr dd" "plan_refusal dd sim = None" by (cases y) auto
    then have eq: "run_pipeline code parts i ctx kx dry nosim p os = execute_plan code parts i ctx dry (pl_steps p) dd os"
      unfolding run by simp
    consider "dry" | "\<exists>e. validate_grounding_plan i (pl_steps p) = Some e"
      | "\<not> dry" "validate_grounding_plan i (pl_steps p) = None" by blast
    then show ?thesis
    proof cases
      case 1
      then show ?thesis unfolding eq by (simp add: execute_plan_dry)
    next
      case 2
      then show ?thesis unfolding eq by (auto simp: execute_plan_def)
    next
      case 3
      have "may_run parts i ctx kx dry nosim p"
      proof (cases "op_level parts")
        case (Some level)
        define k where "k = (if op_classifier parts
                   then Some (classify_risk (op_knows parts) (intent.truncate i) (pl_steps p) (Some kx') sim) else None)"
        have "bind_result (decide level p (Some kx') sim k) (\<lambda>v. Inr (Some (settle_decision i (durable ctx) sim v))) = Inr dd"
          using d dd(1) by (simp add: decide_plan_def Some Let_def k_def)
        then obtain v where v: "decide level p (Some kx') sim k = Inr v" "dd = Some (settle_decision i (durable ctx) sim v)"
          by (cases "decide level p (Some kx') sim k") auto
        have s': "run_simulation parts nosim kx p = (kx', sim)" using s 3(1) by simp
        show ?thesis
          unfolding may_run_def Some option.case s' Let_def prod.case k_def [symmetric] v(1) sum.case
          using 3(1) None [unfolded executable_plan_iff] 3(2) [unfolded grounding_plan_iff]
            settled_refusal [OF dd(2) [unfolded v(2)]] by blast
      qed (use 3 None in \<open>simp add: may_run_def executable_plan_iff grounding_plan_iff\<close>)
      with assms show ?thesis by contradiction
    qed
  qed
qed


section \<open>Plans with a durable grant\<close>

definition rollback_tool :: "step \<Rightarrow> string" where
  "rollback_tool st = the (ps_rollback_tool_id st)"

lemma undoer_tools:
  "\<exists>new. ran_tools (fst (undoer_of code ctx os tool ps)) = ran_tools os @ new \<and> subseq (map fst new) [tool]"
  using call_pipeline_runs [of code tool ps ctx "''rollback''" os]
  by (auto simp: undoer_of_def ran_tools_def split: prod.splits)

lemma rollback_tools:
  "\<exists>us. ran_tools (fst (rollback_list (undoer_of code ctx) xs os)) = ran_tools os @ us
     \<and> subseq (map fst us) (map (\<lambda>x. the (ps_rollback_tool_id (fst x))) (filter (\<lambda>x. reversible (fst x)) xs))"
proof (induction xs arbitrary: os)
  case (Cons x xs)
  obtain st data where x: "x = (st, data)" by fastforce
  show ?case
  proof (cases "reversible st")
    case True
    let ?o = "fst (undoer_of code ctx os (the (ps_rollback_tool_id st)) (rollback_params st data))"
    from undoer_tools obtain new where new: "ran_tools ?o = ran_tools os @ new"
      "subseq (map fst new) [the (ps_rollback_tool_id st)]" by blast
    from Cons.IH obtain us where us: "ran_tools (fst (rollback_list (undoer_of code ctx) xs ?o)) = ran_tools ?o @ us"
      "subseq (map fst us) (map (\<lambda>x. the (ps_rollback_tool_id (fst x))) (filter (\<lambda>x. reversible (fst x)) xs))" by blast
    have "subseq (map fst (new @ us)) (the (ps_rollback_tool_id st)
        # map (\<lambda>x. the (ps_rollback_tool_id (fst x))) (filter (\<lambda>x. reversible (fst x)) xs))"
      using list_emb_append_mono [OF new(2) us(2)] by simp
    then show ?thesis
      using True new(1) us(1) by (intro exI [of _ "new @ us"]) (simp add: x Let_def case_prod_beta')
  qed (use Cons.IH in \<open>simp add: x\<close>)
qed simp

lemma undo_completed_tools:
  "\<exists>us. ran_tools (lp_world (undo_completed (undoer_of code ctx) completed l)) = ran_tools (lp_world l) @ us
     \<and> subseq (map fst us) (rev (map rollback_tool (filter (\<lambda>st. reversible (plan_step.truncate st)) (map fst completed))))"
proof -
  let ?xs = "rev (map (\<lambda>(st, r). (plan_step.truncate st, sr_data r)) completed)"
  have e: "map (\<lambda>x. the (ps_rollback_tool_id (fst x))) (filter (\<lambda>x. reversible (fst x)) ?xs)
      = rev (map rollback_tool (filter (\<lambda>st. reversible (plan_step.truncate st)) (map fst completed)))"
    by (simp add: rev_map rev_filter [symmetric] filter_mapped case_prod_beta' comp_def rollback_tool_def)
  from rollback_tools [of code ctx ?xs "lp_world l"] show ?thesis
    unfolding e by (simp add: undo_completed_def rollback_def case_prod_beta')
qed

definition step_trace :: "step \<Rightarrow> (string \<times> params \<times> params) list \<Rightarrow> bool" where
  \<comment> \<open>a step ran at most one tool: its own or one of its fallbacks\<close>
  "step_trace st new \<longleftrightarrow> length new \<le> 1 \<and> set (map fst new) \<subseteq> step_tools st"

lemma durable_step_trace:
  assumes "durable ctx"
  shows "\<exists>new. ran_tools (fst (stepper_of code i ctx indexes False rs st os)) = ran_tools os @ new \<and> step_trace st new"
proof -
  have "step_runs_once st os (fst (stepper_of code i ctx indexes False rs st os))"
    using assms unfolding stepper_of_def by (intro durable_step_once) (simp add: durable_def)
  then show ?thesis
    by (auto simp: step_runs_once_def extends_runs_def plan_runs_from_def ran_tools_def prefix_def step_trace_def)
qed

definition in_order :: "step list \<Rightarrow> step list \<Rightarrow> orchestra \<Rightarrow> orchestra \<Rightarrow> bool" where
  \<comment> \<open>the steps had their turns in their order, up to some step; then rollbacks of the given steps and these\<close>
  "in_order before sts os os' \<longleftrightarrow>
     (\<exists>m news us. list_all2 step_trace (take m sts) news \<and> ran_tools os' = ran_tools os @ concat news @ us
        \<and> subseq (map fst us)
            (rev (map rollback_tool (filter (\<lambda>st. reversible (plan_step.truncate st)) (before @ take m sts)))))"

lemma in_order_same: "ran_tools os' = ran_tools os \<Longrightarrow> in_order before sts os os'"
  unfolding in_order_def by (intro exI [of _ 0] exI [of _ "[]"]) simp

lemma in_order_Cons:
  assumes "ran_tools os1 = ran_tools os @ new" and "step_trace st new" and "in_order (before @ [st]) sts os1 os2"
  shows "in_order before (st # sts) os os2"
proof -
  from assms(3) obtain m news us where *: "list_all2 step_trace (take m sts) news" "ran_tools os2 = ran_tools os1 @ concat news @ us"
    "subseq (map fst us) (rev (map rollback_tool
       (filter (\<lambda>st. reversible (plan_step.truncate st)) ((before @ [st]) @ take m sts))))"
    unfolding in_order_def by blast
  show ?thesis
    unfolding in_order_def
    by (intro exI [of _ "Suc m"] exI [of _ "new # news"] exI [of _ us]) (use assms(1,2) * in simp)
qed

lemma durable_levels:
  assumes "durable ctx"
  shows "in_order (map fst (lp_done l)) (filter (\<lambda>st. ps_id st \<notin> set already) sts) (lp_world l)
    (lp_world (fst (run_levels ord (stepper_of code i ctx indexes False) (undoer_of code ctx) False already
       (map (\<lambda>st. [st]) sts) l)))"
proof (induction sts arbitrary: l)
  case Nil
  then show ?case by (simp add: in_order_same)
next
  case (Cons st sts)
  show ?case
  proof (cases "ps_id st \<in> set already")
    case True
    with Cons.IH show ?thesis by simp
  next
    case False
    obtain w x where e: "stepper_of code i ctx indexes False (lp_results l) st (lp_world l) = (w, x)" by fastforce
    from durable_step_trace [OF assms, of code i indexes "lp_results l" st "lp_world l"] e
    obtain new where new: "ran_tools w = ran_tools (lp_world l) @ new" "step_trace st new" by auto
    show ?thesis
    proof (cases x)
      case (Inl exc)
      have "in_order (map fst (lp_done l)) (st # filter (\<lambda>st. ps_id st \<notin> set already) sts) (lp_world l) w"
        by (rule in_order_Cons [OF new in_order_same]) simp
      with e Inl False show ?thesis by simp
    next
      case (Inr r)
      define l1 where "l1 = note_result st r (l\<lparr>lp_world := w\<rparr>)"
      have l1: "lp_done l1 = lp_done l @ [(st, r)]" "lp_world l1 = w" by (simp_all add: l1_def note_result_def)
      show ?thesis
      proof (cases "sr_success r")
        case True
        with Cons.IH [of l1] l1 have "in_order (map fst (lp_done l)) (st # filter (\<lambda>st. ps_id st \<notin> set already) sts) (lp_world l)
          (lp_world (fst (run_levels ord (stepper_of code i ctx indexes False) (undoer_of code ctx) False already
             (map (\<lambda>st. [st]) sts) l1)))"
          by (intro in_order_Cons [OF new]) simp
        with e Inr False True show ?thesis by (simp add: l1_def Let_def)
      next
        case fails: False
        from undo_completed_tools [of code ctx "lp_done l" l1] l1(2)
        obtain us where us: "ran_tools (lp_world (undo_completed (undoer_of code ctx) (lp_done l) l1)) = ran_tools w @ us"
          "subseq (map fst us) (rev (map rollback_tool (filter (\<lambda>st. reversible (plan_step.truncate st)) (map fst (lp_done l)))))"
          by auto
        have "in_order (map fst (lp_done l)) (st # filter (\<lambda>st. ps_id st \<notin> set already) sts) (lp_world l)
            (lp_world (undo_completed (undoer_of code ctx) (lp_done l) l1))"
          unfolding in_order_def
          by (intro exI [of _ 1] exI [of _ "[new]"] exI [of _ us])
            (use new us in \<open>auto intro: list_emb_append2\<close>)
        with e Inr False fails show ?thesis by (simp add: l1_def Let_def)
      qed
    qed
  qed
qed

text \<open>The indexes of the steps are not known to the steps that obtain evidence, so their grants are refused.\<close>

lemma unindexed_step:
  assumes "durable ctx"
  shows "os_world (fst (stepper_of code i ctx [] False rs st os)) = os_world os
    \<and> (\<forall>r. snd (stepper_of code i ctx [] False rs st os) = Inr r \<longrightarrow> \<not> sr_success r)"
proof -
  obtain os' x where e: "execute_single_step code (in_params i) ctx [] False rs st os = (os', x)" by fastforce
  have g: "grant_step_for code ctx [] st ps os1
      = (os1, Inr (Grant_Refused (step_failed st ''durable plan grant context is invalid'' PNone)))" for ps os1
    using assms by (simp add: grant_step_for_def durable_def Let_def split: option.split)
  have lw: "os_world os1 = os_world os" if "limit_step code ctx st os = (os1, y)" for os1 y
    using limit_step_world [of code ctx st os] that by simp
  have "os_world os' = os_world os \<and> (\<forall>r. x = Inr r \<longrightarrow> \<not> sr_success r)"
    using e
  proof (cases rule: single_step_cases)
    case (ran os1 ps os2 g')
    with g [of ps os1] show ?thesis by (cases g') auto
  next
    case ends
    then show ?thesis by auto
  next
    case (limited y)
    then show ?thesis using lw limited
      by (auto simp: limit_step_def Let_def split: option.splits sum.splits prod.splits if_splits)
  next
    case (unresolved os1 e)
    with lw show ?thesis by auto
  next
    case (refused os1 ps y)
    with lw g [of ps os1] show ?thesis by auto
  qed
  then show ?thesis by (simp add: stepper_of_def e)
qed

lemma exec_all_values:
  assumes "\<And>rs st w r. snd (exec rs st w) = Inr r \<Longrightarrow> Q r" and "(k, Inr r) \<in> set (snd (exec_all exec rs sts w))"
  shows "Q r"
  using assms(2)
proof (induction sts arbitrary: w)
  case (Cons st sts)
  from Cons.prems consider "snd (exec rs st w) = Inr r" | "(k, Inr r) \<in> set (snd (exec_all exec rs sts (fst (exec rs st w))))"
    by (auto simp: Let_def case_prod_beta')
  then show ?case using assms(1) Cons.IH by cases blast+
qed simp

lemma gather_failing:
  assumes "\<And>rs st w r. snd (exec rs st w) = Inr r \<Longrightarrow> \<not> sr_success r" and "gather order exec rs sts w = (w', ps)"
  shows "\<forall>p \<in> set ps. \<not> sr_success (outcome_result p)"
proof -
  obtain v kv where e: "exec_all exec rs (sort_key (order sts) sts) w = (v, kv)" by fastforce
  with assms(2) have ps: "ps = map (\<lambda>st. (st, the (map_of kv (ps_id st)))) sts" by (simp add: gather_def)
  have "\<not> sr_success (outcome_result (st, the (map_of kv (ps_id st))))" if "st \<in> set sts" for st
  proof -
    have "ps_id st \<in> fst ` set kv"
      using that exec_all_keys [of exec rs "sort_key (order sts) sts" w] e by (metis image_eqI list.set_map set_sort snd_conv)
    then obtain x where x: "map_of kv (ps_id st) = Some x" by (metis map_of_eq_None_iff option.exhaust)
    show ?thesis
    proof (cases x)
      case (Inr r)
      have "(ps_id st, Inr r) \<in> set (snd (exec_all exec rs (sort_key (order sts) sts) w))"
        using map_of_SomeD [OF x] Inr e by simp
      then have "\<not> sr_success r"
        by (rule exec_all_values [where exec = exec and Q = "\<lambda>r. \<not> sr_success r", rotated]) (rule assms(1))
      then show ?thesis by (simp add: outcome_success x Inr)
    qed (simp add: outcome_success x)
  qed
  then show ?thesis unfolding ps by auto
qed

lemma precheck_levels_failing:
  assumes "\<And>rs st w r. snd (exec rs st w) = Inr r \<Longrightarrow> \<not> sr_success r" and "\<forall>r \<in> set results. \<not> sr_success r"
  shows "\<forall>r \<in> set (fst (snd (precheck_levels order exec lvs (w, results, tool)))). \<not> sr_success r"
  using assms(2)
proof (induction lvs arbitrary: w results tool)
  case (Cons level lvs)
  obtain w' ps where g: "gather order exec results level w = (w', ps)" by fastforce
  have r: "(\<lambda>(st, r). case r of Inl e \<Rightarrow> step_failed st (exc_text e) PNone | Inr x \<Rightarrow> x) = outcome_result"
    by (auto simp: outcome_result_def fun_eq_iff split: sum.split)
  from gather_failing [OF assms(1) g] Cons.prems have "\<forall>r \<in> set (results @ map outcome_result ps). \<not> sr_success r" by auto
  from Cons.IH [OF this] show ?case unfolding precheck_levels.simps g prod.case r .
qed simp

lemma resolve_nothing: "resolve_dependencies [] = []"
  by code_simp

lemma durable_precheck:
  assumes "durable ctx" and "precheck code parts i ctx steps os = (os', rs, t)"
  shows "os_world os' = os_world os \<and> (\<forall>r \<in> set rs. \<not> sr_success r)"
proof -
  let ?ex = "stepper_of code i ctx [] False"
  let ?lv = "resolve_dependencies (filter (\<lambda>st. tool_grounds i (ps_tool_id st)) steps)"
  have p: "precheck_levels (op_order parts) ?ex ?lv (os, [], None) = (os', rs, t)"
    using assms(2) by (simp add: precheck_def)
  have "os_world (fst (precheck_levels (op_order parts) ?ex ?lv (os, [], None))) = os_world os"
    by (rule precheck_levels_keeps [where P = "\<lambda>w. os_world w = os_world os"])
      (simp_all add: unindexed_step [OF assms(1)])
  moreover have "\<forall>r \<in> set (fst (snd (precheck_levels (op_order parts) ?ex ?lv (os, [], None)))). \<not> sr_success r"
    by (rule precheck_levels_failing) (use unindexed_step [OF assms(1)] in auto)
  ultimately show ?thesis by (simp add: p)
qed

text \<open>
  C7: With a durable grant the tools run in the order in which the plan lists its steps, at most one tool for a step, its
  own or one of its fallbacks; after that only rollbacks of these steps run, in the opposite order.
\<close>

theorem durable_plan_in_order:
  assumes "durable ctx"
  shows "in_order [] steps os (fst (execute_plan code parts i ctx False steps d os))"
proof (cases "validate_grounding_plan i steps")
  case (Some err)
  then show ?thesis by (simp add: execute_plan_def in_order_same)
next
  case None
  define pre where "pre = (if evidence_wanted i False then precheck code parts i ctx steps os else (os, [], None))"
  define failure where "failure = (if evidence_wanted i False then precheck_failure i d (fst (snd pre)) (snd (snd pre)) else None)"
  obtain w rs t where p: "pre = (w, rs, t)" by (metis prod_cases3)
  have w: "ran_tools w = ran_tools os \<and> (\<forall>r \<in> set rs. \<not> sr_success r)"
    using durable_precheck [OF assms, of code parts i steps os w rs t] p
    by (cases "evidence_wanted i False") (auto simp: pre_def ran_tools_def)
  show ?thesis
  proof (cases failure)
    case (Some r)
    then have "fst (execute_plan code parts i ctx False steps d os) = w"
      unfolding execute_plan_def None option.case Let_def pre_def [symmetric] failure_def [symmetric] Some by (simp add: p)
    with w show ?thesis by (simp add: in_order_same)
  next
    case none: None
    have "list_all sr_success rs"
      using none precheck_ok p unfolding failure_def by (cases "evidence_wanted i False") (auto simp: pre_def)
    with w have rs: "rs = []" by (cases rs) auto
    obtain l x where l: "run_plan code parts i ctx False steps pre = (l, x)" by fastforce
    have run: "in_order [] steps w (lp_world l)"
      using durable_levels [OF assms, of "\<lparr>lp_world = w, lp_results = rs,
             lp_tool = (if steps \<noteq> [] \<and> plan_levels ctx steps = [] \<and> rs = []
               then Some (tool_fail ''Invalid plan dependency graph'' ''planner'') else t),
             lp_done = [], lp_actions = []\<rparr>" "map sr_id rs" steps "op_order parts" code i "plan_indexes steps"] l assms
      by (simp add: run_plan_def p rs plan_levels_def)
    have c: "ran_tools (fst (close_plan code ctx (lp_world l) z)) = ran_tools (lp_world l)" for z
      by (rule close_plan_tools)
    have "ran_tools (fst (execute_plan code parts i ctx False steps d os)) = ran_tools (lp_world l)"
      unfolding execute_plan_def None option.case Let_def pre_def [symmetric] failure_def [symmetric] none l
      using c [of "loop_result i d False steps l"] by (cases x) (auto split: prod.split sum.split)
    with run w show ?thesis unfolding in_order_def by simp
  qed
qed

text \<open>
  A plan with a durable grant cannot obtain evidence: its preliminary steps are refused, the plan ends with an error
  before any of its other steps, and its grants stay as they were.
\<close>

theorem durable_evidence_refused:
  assumes "durable ctx" and "evidence_wanted i False" and "validate_grounding_plan i steps = None"
    and "resolve_dependencies (filter (\<lambda>st. tool_grounds i (ps_tool_id st)) steps) \<noteq> []"
  shows "\<exists>os' r. execute_plan code parts i ctx False steps d os = (os', Inr r)
    \<and> xr_error r = Some precheck_message \<and> os_world os' = os_world os"
proof -
  let ?sub = "filter (\<lambda>st. tool_grounds i (ps_tool_id st)) steps"
  obtain w rs t where p: "precheck code parts i ctx steps os = (w, rs, t)" by (metis prod_cases3)
  note idle = durable_precheck [OF assms(1) p]
  have "map sr_id rs = map ps_id (concat (resolve_dependencies ?sub))"
    using steps.precheck_ids [of parts code i ctx "[]" False "resolve_dependencies ?sub" os "[]" None] p
    by (auto simp: precheck_def)
  moreover have "?sub \<noteq> []" using assms(4) resolve_nothing by metis
  then have "concat (resolve_dependencies ?sub) \<noteq> []"
    using resolved_levels [OF assms(4)] by (metis mset_zero_iff)
  ultimately have "rs \<noteq> []" by (metis map_is_Nil_conv)
  with idle have "\<not> list_all sr_success rs" by (cases rs) auto
  moreover obtain ev ok where v: "verify_grounding i rs False = (ev, ok)" by fastforce
  ultimately obtain r where r: "precheck_failure i d rs t = Some r" "xr_error r = Some precheck_message"
    by (simp add: precheck_failure_def v)
  have "execute_plan code parts i ctx False steps d os = (w, Inr r)"
    by (simp add: execute_plan_def assms(2,3) p r(1))
  with idle r(2) show ?thesis by blast
qed


section \<open>Tasks that raise\<close>

definition returned :: "step \<times> step_result result \<Rightarrow> bool" where
  "returned p \<longleftrightarrow> (case snd p of Inl e \<Rightarrow> False | Inr r \<Rightarrow> True)"

lemma raised_keeps_tool:
  "lp_tool l \<noteq> None \<Longrightarrow> lp_tool (note_outcome p l) = (if returned p then lp_tool (note_outcome p l) else lp_tool l)
     \<and> lp_tool (note_outcome p l) \<noteq> None"
  by (auto simp: note_outcome_def note_result_def note_exception_def returned_def Let_def split: sum.split option.split)

lemma note_outcome_tool: "lp_tool l = lp_tool l' \<Longrightarrow> lp_tool (note_outcome p l) = lp_tool (note_outcome p l')"
  by (auto simp: note_outcome_def note_result_def note_exception_def Let_def split: sum.split option.split)

lemma raised_ignored:
  "lp_tool l = lp_tool l' \<Longrightarrow> lp_tool l \<noteq> None
     \<Longrightarrow> lp_tool (fold note_outcome ps l) = lp_tool (fold note_outcome (filter returned ps) l')"
proof (induction ps arbitrary: l l')
  case (Cons p ps)
  note k = raised_keeps_tool [OF Cons.prems(2), of p]
  show ?case
  proof (cases "returned p")
    case True
    with Cons.IH [of "note_outcome p l" "note_outcome p l'"] note_outcome_tool [OF Cons.prems(1)] k show ?thesis by simp
  next
    case False
    with Cons.IH [of "note_outcome p l" l'] Cons.prems k show ?thesis by simp
  qed
qed simp

text \<open>
  Whether an execution has an error does not depend on the tasks that raise beside a first task that returns: the
  merged result of a level, and with it the error that is reported, is the one of the tasks that returned.
\<close>

theorem raised_tasks_hidden:
  "xr_error (loop_result i d dry steps (fold note_outcome ((st, Inr r) # ps) l))
     = xr_error (loop_result i d dry steps (fold note_outcome ((st, Inr r) # filter returned ps) l))"
proof -
  have "lp_tool (note_outcome (st, Inr r) l) \<noteq> None" by (simp add: note_outcome_def note_result_def)
  from raised_ignored [OF refl this, of ps]
  have "lp_tool (fold note_outcome ((st, Inr r) # ps) l) = lp_tool (fold note_outcome ((st, Inr r) # filter returned ps) l)"
    by simp
  then show ?thesis by (auto simp: loop_result_def Let_def total_time_def split: prod.split option.split)
qed


section \<open>Sample runs\<close>

definition sample_code :: orch_code where
  "sample_code =
     \<lparr>ox_env = (\<lambda>n. sample_guard_env), ox_elapsed = (\<lambda>n. 1), ox_mono = (\<lambda>n. 0), ox_wall = (\<lambda>n. 0),
      ox_grant_id = (\<lambda>n. ''g''), ox_stamp = (\<lambda>n. ''2026''), ox_sha = tagged, ox_broker = True, ox_limits = None,
      ox_conservative = True, ox_model = (\<lambda>st. None)\<rparr>"

definition sample_parts :: orch_parts where
  "sample_parts =
     \<lparr>op_simulation = False, op_classifier = False, op_level = None, op_knows = (\<lambda>a. False), op_show = (\<lambda>q. []),
      op_order = (\<lambda>sts st. 0), op_grounding = False\<rparr>"

definition sample_orchestra :: orchestra where
  "sample_orchestra =
     \<lparr>os_world = (sample_guard ALLOW, sample_gateway ALLOW),
      os_limiter = \<lparr>rl_window = 60, rl_max_buckets = 10, rl_buckets = [], rl_records = [], rl_token_buckets = []\<rparr>,
      os_calls = 0\<rparr>"

definition app_intent :: full_intent where
  "app_intent =
     \<lparr>in_action = ''execute'', in_target = ''executor.launch'', in_params = [], in_confidence = 1, in_raw = ''open'',
      in_grounding = []\<rparr>"

definition write_step :: step where
  "write_step = simple_step ''a'' ''filesystem.write'' ''write'' ''low''"

definition next_step :: step where
  "next_step = (simple_step ''b'' ''t'' ''call'' ''low'')\<lparr>pt_depends := [''a'']\<rparr>"

definition durable_context :: params where
  "durable_context = [(''approved_plan_grant_id'', PStr ''g'')]"

definition evidence_intent :: full_intent where
  "evidence_intent =
     app_intent\<lparr>in_grounding := [\<lparr>gr_category = System_State, gr_required = True, gr_freshness = 1, gr_tool = Some ''t'',
       gr_params = None\<rparr>]\<rparr>"




theorem tools_run_as_decided_witness:
  "\<forall>kx. ran_tools (fst (run_pipeline sample_code sample_parts app_intent [] kx False False
       \<lparr>pl_steps = [write_step], pl_intent = intent.truncate app_intent, pl_risk = 0, pl_duration = 0,
        pl_description = [], pl_goal = None\<rparr> sample_orchestra)) = ran_tools sample_orchestra"
  by (intro allI tools_run_as_decided) (simp add: may_run_def plan_is_complete_def app_intent_def required_param_def pget_def)

theorem durable_plan_in_order_witness:
  "in_order [] [write_step, next_step] sample_orchestra
     (fst (execute_plan sample_code sample_parts app_intent durable_context False [write_step, next_step] None sample_orchestra))"
  by (rule durable_plan_in_order) (simp add: durable_def durable_context_def pget_def)

theorem durable_evidence_refused_witness:
  "\<exists>os' r. execute_plan sample_code sample_parts evidence_intent durable_context False [next_step\<lparr>pt_depends := []\<rparr>] None
      sample_orchestra = (os', Inr r) \<and> xr_error r = Some precheck_message \<and> os_world os' = os_world sample_orchestra"
proof (rule durable_evidence_refused)
  show "durable durable_context" by code_simp
  show "evidence_wanted evidence_intent False" by code_simp
  show "validate_grounding_plan evidence_intent [next_step\<lparr>pt_depends := []\<rparr>] = None" by code_simp
  have "resolve_dependencies (filter (\<lambda>st. tool_grounds evidence_intent (ps_tool_id st)) [next_step\<lparr>pt_depends := []\<rparr>])
      = [[next_step\<lparr>pt_depends := []\<rparr>]]" by code_simp
  then show "resolve_dependencies (filter (\<lambda>st. tool_grounds evidence_intent (ps_tool_id st)) [next_step\<lparr>pt_depends := []\<rparr>]) \<noteq> []"
    by simp
qed

end
