(* ===== verification/Model_Tiers.thy ===== *)
theory Model_Tiers
  imports Fallback Context_Window Security_Models
begin

text \<open>
  The catalogue of models, \<open>sentinel/core/model_registry.py\<close> over \<open>sentinel/models/model_metadata.py\<close>, and the
  choice of a capability tier for a request, \<open>sentinel/core/model_tier.py\<close>. The fields of a request that the choice
  does not read are left out. Sets of strings that are turned into lists are given in the order of the stored list.
\<close>

section \<open>Models\<close>

datatype model_status = MODEL_AVAILABLE | MODEL_UNAVAILABLE | MODEL_DEPRECATED | MODEL_EXPERIMENTAL

datatype metric = Number rat | Text string

record model =
  md_id :: string
  md_provider :: string
  md_window :: int
  md_tools :: bool
  md_vision :: bool
  md_coding :: bool
  md_reasoning :: bool
  md_embeddings :: bool
  md_speed :: string
  md_cost :: rat
  md_local :: bool
  md_status :: model_status
  md_description :: string
  md_tags :: "string list"
  md_config :: "(string \<times> metric) list"

definition model_checked :: "model \<Rightarrow> model result" where
  "model_checked m =
     (if blank (md_id m) then Inl (ValueError ''ModelMetadata 'id' must be a non-empty string'')
      else if blank (md_provider m) then Inl (ValueError ''ModelMetadata 'provider' must be a non-empty string'')
      else if md_window m < 1 then Inl (ValueError ''ModelMetadata 'context_window' must be >= 1'')
      else if md_cost m < 0 then Inl (ValueError ''ModelMetadata 'cost' must be >= 0'')
      else Inr m)"

definition has_capability :: "model \<Rightarrow> string \<Rightarrow> bool" where
  \<comment> \<open>an unknown capability is one that every model has\<close>
  "has_capability m cap =
     dict_get
       [(''tool_calling'', md_tools m), (''vision'', md_vision m), (''coding'', md_coding m),
        (''reasoning'', md_reasoning m), (''embeddings'', md_embeddings m), (''local'', md_local m)] cap True"

definition task_capabilities :: "(string \<times> string list) list" where
  "task_capabilities =
     [(''chat'', []), (''coding'', [''coding'', ''reasoning'']), (''action'', [''tool_calling'']),
      (''reasoning'', [''reasoning'']), (''analysis'', [''reasoning'']), (''vision'', [''vision'']), (''quick'', []),
      (''creative'', []), (''local'', [''local'']), (''embeddings'', [''embeddings''])]"


section \<open>The registry\<close>

type_synonym registry = "(string \<times> model) list"

definition model_register :: "registry \<Rightarrow> model \<Rightarrow> registry result" where
  "model_register reg m =
     (if map_of reg (md_id m) \<noteq> None then Inl (ValueError (''Model '' @ quoted (md_id m) @ '' is already registered''))
      else Inr (reg @ [(md_id m, m)]))"

fun register_many :: "registry \<Rightarrow> model list \<Rightarrow> registry \<times> py_exc option" where
  \<comment> \<open>the models before one that is registered already stay\<close>
  "register_many reg [] = (reg, None)"
| "register_many reg (m # ms) =
     (case model_register reg m of Inl e \<Rightarrow> (reg, Some e) | Inr reg' \<Rightarrow> register_many reg' ms)"

definition model_upsert :: "registry \<Rightarrow> model \<Rightarrow> registry \<times> bool" where
  "model_upsert reg m = (AList.update (md_id m) m reg, map_of reg (md_id m) = None)"

definition model_unregister :: "registry \<Rightarrow> string \<Rightarrow> registry result" where
  "model_unregister reg i =
     (if map_of reg i = None then Inl (KeyError (''Model '' @ quoted i @ '' not found in registry''))
      else Inr (AList.delete i reg))"

definition set_metric :: "string \<Rightarrow> rat option \<Rightarrow> (string \<times> metric) list \<Rightarrow> (string \<times> metric) list" where
  "set_metric k v c = (case v of None \<Rightarrow> c | Some q \<Rightarrow> AList.update k (Number q) c)"

definition update_metrics :: "registry \<Rightarrow> string \<Rightarrow> rat option \<Rightarrow> rat option \<Rightarrow> rat option \<Rightarrow> rat option \<Rightarrow> rat option
    \<Rightarrow> model_status option \<Rightarrow> registry \<times> bool" where
  \<comment> \<open>latency, costs of input and output, success rate, uses and status, each when it is given\<close>
  "update_metrics reg i latency cin cout success uses status =
     (case map_of reg i of
        None \<Rightarrow> (reg, False)
      | Some m \<Rightarrow>
          (let c = set_metric ''usage_count'' uses (set_metric ''success_rate'' success
                 (set_metric ''cost_output'' cout (set_metric ''cost_input'' cin
                 (set_metric ''latency_avg'' latency (md_config m)))))
           in (AList.update i (m\<lparr>md_config := c, md_status := (case status of None \<Rightarrow> md_status m | Some s \<Rightarrow> s)\<rparr>) reg,
               True)))"

definition model_set_status :: "registry \<Rightarrow> string \<Rightarrow> model_status \<Rightarrow> registry \<times> bool" where
  "model_set_status reg i s = update_metrics reg i None None None None None (Some s)"

definition list_available :: "registry \<Rightarrow> model list" where
  "list_available reg = filter (\<lambda>m. md_status m = MODEL_AVAILABLE) (map snd reg)"

definition find_candidates :: "registry \<Rightarrow> string list \<Rightarrow> model list" where
  "find_candidates reg caps = filter (\<lambda>m. list_all (has_capability m) caps) (list_available reg)"

definition find_by_capability :: "registry \<Rightarrow> string \<Rightarrow> model list" where
  "find_by_capability reg cap = filter (\<lambda>m. has_capability m cap) (map snd reg)"

definition find_by_provider :: "registry \<Rightarrow> string \<Rightarrow> model list" where
  "find_by_provider reg p = filter (\<lambda>m. md_provider m = p) (map snd reg)"

definition find_by_tag :: "registry \<Rightarrow> string \<Rightarrow> model list" where
  "find_by_tag reg t = filter (\<lambda>m. t \<in> set (md_tags m)) (map snd reg)"

definition local_then_cost :: "model list \<Rightarrow> model list" where
  \<comment> \<open>sorted by \<open>(not m.local, m.cost)\<close>\<close>
  "local_then_cost ms = sort_key (\<lambda>m. \<not> md_local m) (sort_key md_cost ms)"

definition cost_then_remote :: "model list \<Rightarrow> model list" where
  \<comment> \<open>sorted by \<open>(m.cost, m.local)\<close>\<close>
  "cost_then_remote ms = sort_key md_cost (sort_key md_local ms)"

definition find_best :: "registry \<Rightarrow> string list \<Rightarrow> string \<Rightarrow> bool \<Rightarrow> model option" where
  "find_best reg caps strategy prefer_local =
     (let ms = find_candidates reg caps;
          sorted = (if prefer_local then local_then_cost ms
            else if strategy = ''cost'' then cost_then_remote ms
            else if strategy = ''local_first'' then local_then_cost ms
            else sort_key md_cost ms)
      in case sorted of [] \<Rightarrow> None | m # _ \<Rightarrow> Some m)"

record stored_model =
  so_id :: string
  so_name :: string
  so_provider :: string
  so_local :: bool
  so_caps :: "string list"
  so_window :: int
  so_cost :: rat
  so_latency :: rat
  so_seen :: string

definition to_stored_model :: "string \<Rightarrow> model \<Rightarrow> stored_model" where
  \<comment> \<open>at a time; latency and time are the defaults of \<open>StoredModel\<close>\<close>
  "to_stored_model now m =
     \<lparr>so_id = md_id m, so_name = md_id m, so_provider = md_provider m, so_local = md_local m,
      so_caps = (if md_tools m then [''tool_calling''] else []) @ (if md_vision m then [''vision''] else [])
        @ (if md_coding m then [''coding''] else []) @ (if md_reasoning m then [''reasoning''] else [])
        @ (if md_embeddings m then [''embeddings''] else []) @ (if md_local m then [''local''] else []),
      so_window = md_window m, so_cost = md_cost m, so_latency = 1, so_seen = now\<rparr>"

definition from_stored_model :: "stored_model \<Rightarrow> model result" where
  "from_stored_model s =
     model_checked
       \<lparr>md_id = so_name s, md_provider = so_provider s, md_window = so_window s,
        md_tools = (''tool_calling'' \<in> set (so_caps s)), md_vision = (''vision'' \<in> set (so_caps s)),
        md_coding = (''coding'' \<in> set (so_caps s)), md_reasoning = (''reasoning'' \<in> set (so_caps s)),
        md_embeddings = (''embeddings'' \<in> set (so_caps s)), md_speed = ''unknown'', md_cost = so_cost s,
        md_local = so_local s, md_status = MODEL_AVAILABLE, md_description = [],
        md_tags = so_provider s # filter (\<lambda>c. c \<noteq> ''local'') (remdups (so_caps s)),
        md_config = [(''latency_avg'', Number (so_latency s)), (''last_seen'', Text (so_seen s))]\<rparr>"

fun load_models :: "registry \<Rightarrow> stored_model list \<Rightarrow> registry \<times> nat" where
  \<comment> \<open>the number of models that are new\<close>
  "load_models reg [] = (reg, 0)"
| "load_models reg (s # ss) =
     (case from_stored_model s of
        Inl e \<Rightarrow> load_models reg ss
      | Inr m \<Rightarrow>
          (let (reg1, new) = model_upsert reg m; (reg2, n) = load_models reg1 ss in (reg2, if new then Suc n else n)))"

definition persist_models :: "string \<Rightarrow> (stored_model \<Rightarrow> bool) \<Rightarrow> registry \<Rightarrow> stored_model list \<times> nat" where
  \<comment> \<open>what the repository saved and how many; the test says whether it saves a model\<close>
  "persist_models now saves reg = (let ss = filter saves (map (to_stored_model now) (map snd reg)) in (ss, length ss))"


section \<open>Tiers\<close>

datatype model_tier =
  Deterministic_Tier | Fast_Conversational | Balanced_Reasoning | Advanced_Reasoning | Multi_Model_Coordination

fun tier_value :: "model_tier \<Rightarrow> nat" where
  "tier_value Deterministic_Tier = 0"
| "tier_value Fast_Conversational = 1"
| "tier_value Balanced_Reasoning = 2"
| "tier_value Advanced_Reasoning = 3"
| "tier_value Multi_Model_Coordination = 4"

instantiation model_tier :: linorder
begin

definition less_eq_model_tier :: "model_tier \<Rightarrow> model_tier \<Rightarrow> bool" where
  "less_eq_model_tier a b \<longleftrightarrow> tier_value a \<le> tier_value b"

definition less_model_tier :: "model_tier \<Rightarrow> model_tier \<Rightarrow> bool" where
  "less_model_tier a b \<longleftrightarrow> tier_value a < tier_value b"

lemma tier_value_inj: "tier_value a = tier_value b \<Longrightarrow> a = b"
  by (cases a; cases b) simp_all

instance
  by standard (auto simp: less_eq_model_tier_def less_model_tier_def dest: tier_value_inj)

end

datatype execution_mode = Deterministic_Mode | Llm_Mode | Deferred_Mode

datatype broad_class = Low_Class | Medium_Class | High_Class

record request_profile =
  rq_text :: string
  rq_purpose :: purpose
  rq_tools :: int
  rq_action :: "string option"
  rq_known :: bool
  rq_deterministic :: bool
  rq_destructive :: bool
  rq_governed :: bool
  rq_risk :: risk_level
  rq_local_only :: bool
  rq_cloud :: bool
  rq_budget :: "rat option"
  rq_tier :: "model_tier option"
  rq_preference :: string
  rq_tokens :: int

record tier_decision =
  td_requested :: model_tier
  td_selected :: model_tier
  td_minimum :: model_tier
  td_maximum :: model_tier
  td_reasons :: "string list"
  td_confidence :: rat
  td_escalation :: bool
  td_downgrade :: bool
  td_downgrade_reason :: "string option"
  td_eligible :: "string list"
  td_excluded :: "string list"
  td_fallback :: "model_tier option"
  td_override :: bool
  td_risk :: risk_level
  td_context :: int
  td_latency :: broad_class
  td_cost :: broad_class
  td_mode :: execution_mode

definition deterministic_actions :: "string list" where
  "deterministic_actions =
     [''open'', ''launch'', ''start'', ''close'', ''quit'', ''play'', ''pause'', ''stop'', ''status'', ''confirm'',
      ''cancel'', ''yes'', ''no'']"

definition tier_1_keywords :: "string list" where
  "tier_1_keywords =
     [''hello'', ''hi'', ''greet'', ''rewrit'', ''translat'', ''explain briefly'', ''what is'', ''who is'', ''how are'',
      ''simple'', ''short'', ''quick'']"

definition tier_2_keywords :: "string list" where
  "tier_2_keywords =
     [''debug'', ''code'', ''python'', ''programming'', ''technical'', ''plan'', ''steps'', ''implement'', ''function'',
      ''refactor'', ''tool'', ''select'', ''moderate'', ''multi-step'', ''limited ambiguity'']"

definition tier_3_keywords :: "string list" where
  "tier_3_keywords =
     [''architecture'', ''security'', ''complex'', ''ambiguous'', ''review'', ''analyse'', ''analyze'', ''consequential'',
      ''difficult'', ''high-precision'', ''root cause'', ''vulnerability'', ''threat model'', ''design'']"

definition tier_4_qualifiers :: "string list" where
  "tier_4_qualifiers =
     [''multi model'', ''independent review'', ''council'', ''ensemble'', ''safety-critical'', ''high value'',
      ''architectural review'', ''security audit'']"

definition contains_any :: "string \<Rightarrow> string list \<Rightarrow> bool" where
  "contains_any s tokens \<longleftrightarrow> list_ex (\<lambda>t. sublist t (lower s)) tokens"

definition count_matches :: "string \<Rightarrow> string list \<Rightarrow> nat" where
  "count_matches s tokens = length (filter (\<lambda>t. sublist t (lower s)) tokens)"

definition request_risk :: "request_profile \<Rightarrow> risk_level" where
  "request_risk p =
     (if rq_risk p = HIGH \<or> rq_risk p = CRITICAL then rq_risk p
      else if rq_destructive p \<or> rq_governed p then HIGH
      else if contains_any (rq_text p) [''security'', ''vulnerability'', ''threat'', ''consequential'', ''critical''] then HIGH
      else if contains_any (rq_text p) [''debug'', ''plan'', ''multi-step'', ''ambiguous''] then MEDIUM
      else LOW)"

definition deterministic_request :: "request_profile \<Rightarrow> bool" where
  "deterministic_request p \<longleftrightarrow>
     (rq_deterministic p \<or> rq_known p
        \<or> (case rq_action p of Some (c # cs) \<Rightarrow> \<not> rq_governed p \<and> \<not> rq_destructive p | _ \<Rightarrow> False))
     \<and> contains_any (rq_text p) deterministic_actions"

fun purpose_tier :: "purpose \<Rightarrow> model_tier \<times> string" where
  "purpose_tier CONVERSATION = (Fast_Conversational, ''purpose_conversation'')"
| "purpose_tier TECHNICAL = (Balanced_Reasoning, ''purpose_technical'')"
| "purpose_tier REASONING_TASK = (Advanced_Reasoning, ''purpose_reasoning'')"
| "purpose_tier GOVERNED_ACTION = (Balanced_Reasoning, ''purpose_governed_action'')"

definition raise_tier :: "bool \<Rightarrow> model_tier \<Rightarrow> string \<Rightarrow> model_tier \<times> string list \<Rightarrow> model_tier \<times> string list" where
  \<comment> \<open>\<open>tier = max(tier, t)\<close> with a reason\<close>
  "raise_tier b t reason s = (if b then (max (fst s) t, snd s @ [reason]) else s)"

definition keyword_tier :: "string \<Rightarrow> model_tier \<times> string list \<Rightarrow> model_tier \<times> string list" where
  "keyword_tier txt s =
     (if 0 < count_matches txt tier_4_qualifiers then raise_tier True Multi_Model_Coordination ''tier_4_qualifier'' s
      else if 0 < count_matches txt tier_3_keywords then raise_tier True Advanced_Reasoning ''advanced_reasoning_signal'' s
      else if 0 < count_matches txt tier_2_keywords then raise_tier True Balanced_Reasoning ''balanced_reasoning_signal'' s
      else raise_tier (0 < count_matches txt tier_1_keywords \<and> fst s < Fast_Conversational) Fast_Conversational
             ''fast_conversational_signal'' s)"

definition needs_tier :: "bool \<Rightarrow> model_tier \<Rightarrow> string \<Rightarrow> model_tier \<times> string list \<Rightarrow> model_tier \<times> string list" where
  \<comment> \<open>a condition that only counts below the tier that it asks for\<close>
  "needs_tier b t reason s = raise_tier (b \<and> fst s < t) t reason s"

definition minimum_tier :: "request_profile \<Rightarrow> model_tier \<times> string list" where
  "minimum_tier p =
     (if deterministic_request p then (Deterministic_Tier, [''known_deterministic_action''])
      else
        (let s0 = (fst (purpose_tier (rq_purpose p)), [snd (purpose_tier (rq_purpose p))]);
             s1 = keyword_tier (rq_text p) s0;
             s2 = needs_tier (request_risk p = HIGH) Balanced_Reasoning ''high_risk_escalation'' s1;
             s3 = needs_tier (request_risk p = CRITICAL) Advanced_Reasoning ''critical_risk_escalation'' s2;
             s4 = needs_tier (0 < rq_tools p \<and> \<not> rq_governed p) Balanced_Reasoning ''tool_use'' s3;
             s5 = needs_tier (8000 < rq_tokens p) Balanced_Reasoning ''large_context'' s4;
             s6 = needs_tier (32000 < rq_tokens p) Advanced_Reasoning ''very_large_context'' s5
         in case rq_tier p of None \<Rightarrow> s6 | Some t \<Rightarrow> needs_tier True t ''user_preferred_floor'' s6))"

definition tier_for_model :: "model \<Rightarrow> model_tier" where
  "tier_for_model m =
     (if md_reasoning m \<and> 32000 \<le> md_window m then Advanced_Reasoning
      else if md_reasoning m \<or> md_coding m \<or> md_tools m \<or> 16000 \<le> md_window m then Balanced_Reasoning
      else Fast_Conversational)"

definition tier_for_provider :: "provider_spec \<Rightarrow> model_tier" where
  "tier_for_provider p =
     (let ts = set (pv_tasks p) in
      if REASONING \<in> ts \<or> ANALYSIS \<in> ts then (if pv_local p then Balanced_Reasoning else Advanced_Reasoning)
      else if CODE \<in> ts then (if pv_local p then Balanced_Reasoning else Advanced_Reasoning)
      else if QUICK \<in> ts \<or> LOCAL \<in> ts then Fast_Conversational
      else Balanced_Reasoning)"

definition model_cost_class :: "rat \<Rightarrow> broad_class" where
  "model_cost_class c = (if c \<le> 5/1000 then Low_Class else if c \<le> 5/100 then Medium_Class else High_Class)"

definition model_latency_class :: "bool \<Rightarrow> rat \<Rightarrow> broad_class" where
  "model_latency_class is_local c = (if is_local then Low_Class else model_cost_class c)"

definition max_allowed_tier :: "request_profile \<Rightarrow> model_tier result" where
  \<comment> \<open>\<open>profile.user_override\<close> is no field of the class\<close>
  "max_allowed_tier p =
     (let c0 = (if rq_local_only p \<or> \<not> rq_cloud p then Balanced_Reasoning else Multi_Model_Coordination);
          c1 = (case rq_budget p of
                  None \<Rightarrow> c0
                | Some b \<Rightarrow> if b \<le> 0 then Fast_Conversational else if b < 1/2 then Balanced_Reasoning else c0);
          c2 = (if rq_preference p = ''fast'' then min c1 Balanced_Reasoning else c1)
      in case rq_tier p of
           Some t \<Rightarrow> Inl (AnyException ''RequestProfile object has no attribute user_override'')
         | None \<Rightarrow>
             Inr (if c2 = Multi_Model_Coordination
                     \<and> \<not> contains_any (rq_text p) (''explicit multi model'' # tier_4_qualifiers)
                  then Advanced_Reasoning else c2))"


section \<open>The decision\<close>

definition deterministic_decision :: "request_profile \<Rightarrow> string list \<Rightarrow> tier_decision" where
  "deterministic_decision p reasons =
     \<lparr>td_requested = Deterministic_Tier, td_selected = Deterministic_Tier, td_minimum = Deterministic_Tier,
      td_maximum = Deterministic_Tier, td_reasons = reasons, td_confidence = 95/100, td_escalation = False,
      td_downgrade = False, td_downgrade_reason = None, td_eligible = [], td_excluded = [], td_fallback = None,
      td_override = False, td_risk = request_risk p, td_context = 4096, td_latency = Low_Class, td_cost = Low_Class,
      td_mode = Deterministic_Mode\<rparr>"

definition fits_request :: "request_profile \<Rightarrow> model_tier \<Rightarrow> model \<Rightarrow> bool" where
  "fits_request p minimum m \<longleftrightarrow> minimum \<le> tier_for_model m \<and> rq_tokens p \<le> md_window m"

definition preferred_tier :: "request_profile \<Rightarrow> model_tier \<Rightarrow> model_tier \<Rightarrow> model_tier \<times> string list" where
  \<comment> \<open>the tier and the reasons that it adds\<close>
  "preferred_tier p minimum maximum =
     (let q = rq_preference p = ''quality'' \<and> minimum < Advanced_Reasoning;
          t1 = (if q then min Advanced_Reasoning maximum else minimum);
          r = request_risk p = HIGH \<and> t1 < Advanced_Reasoning
      in (if r then min Advanced_Reasoning maximum else t1,
          (if q then [''quality_preference''] else []) @ (if r then [''risk_preferred_tier''] else [])))"

definition resolve_tier :: "model_tier list \<Rightarrow> model_tier \<Rightarrow> model_tier \<Rightarrow> model_tier
    \<Rightarrow> model_tier \<times> string option \<times> model_tier option" where
  \<comment> \<open>the selected tier, the reason of a downgrade and the fallback, from the tiers of the eligible models\<close>
  "resolve_tier tiers minimum maximum preferred =
     (if tiers = [] then (minimum, Some ''no_models_available'', Some minimum)
      else if preferred \<in> set tiers \<and> preferred \<le> maximum then (preferred, None, None)
      else if maximum \<in> set tiers \<and> minimum \<le> maximum
      then (let sel = min maximum preferred
            in if maximum < preferred then (sel, Some ''cost_privacy_or_preference_ceiling'', Some sel) else (sel, None, None))
      else
        (case filter (\<lambda>t. minimum \<le> t \<and> t \<le> maximum) tiers of
           [] \<Rightarrow> (Max (set tiers), Some ''no_eligible_model_meets_minimum'', Some (Max (set tiers)))
         | c # cs \<Rightarrow>
             (let sel = Max (set (c # cs))
              in if sel \<noteq> preferred then (sel, Some ''preferred_tier_unavailable'', Some sel) else (sel, None, None))))"

definition llm_decision :: "request_profile \<Rightarrow> model list \<Rightarrow> model_tier \<Rightarrow> string list \<Rightarrow> model_tier \<Rightarrow> tier_decision" where
  "llm_decision p models minimum reasons maximum =
     (let esc = maximum < minimum;
          r1 = reasons @ (if esc then [''minimum_tier_exceeds_maximum_constraints''] else []);
          (preferred, r2) = preferred_tier p minimum maximum;
          eligible = map md_id (filter (fits_request p minimum) models);
          tiers = map tier_for_model (filter (\<lambda>m. md_id m \<in> set eligible) models);
          (sel0, down, fallback) = resolve_tier tiers minimum maximum preferred;
          capped = maximum < sel0;
          sel = (if capped then maximum else sel0);
          shown = find (\<lambda>m. md_id m \<in> set eligible \<and> tier_for_model m = sel) models
      in \<lparr>td_requested = preferred, td_selected = sel, td_minimum = minimum, td_maximum = maximum,
          td_reasons = r1 @ r2 @ (if capped then [''escalation_ceiling_applied''] else []),
          td_confidence = (if down = None \<and> \<not> esc \<and> \<not> capped then 8/10 else 6/10),
          td_escalation = (esc \<or> capped), td_downgrade = (down \<noteq> None), td_downgrade_reason = down,
          td_eligible = eligible, td_excluded = map md_id (filter (\<lambda>m. \<not> fits_request p minimum m) models),
          td_fallback = fallback,
          td_override = (case rq_tier p of None \<Rightarrow> False | Some t \<Rightarrow> minimum \<le> t \<and> t \<le> maximum),
          td_risk = request_risk p, td_context = max (rq_tokens p) 4096,
          td_latency = (if eligible = [] then High_Class
            else case shown of None \<Rightarrow> Low_Class | Some m \<Rightarrow> model_latency_class (md_local m) (md_cost m)),
          td_cost = (if eligible = [] then High_Class
            else case shown of None \<Rightarrow> Low_Class | Some m \<Rightarrow> model_cost_class (md_cost m)),
          td_mode = Llm_Mode\<rparr>)"

definition settled_minimum :: "request_profile \<Rightarrow> model_tier \<times> string list" where
  \<comment> \<open>several models only for an explicit request\<close>
  "settled_minimum p =
     (let (t, rs) = minimum_tier p
      in if t = Multi_Model_Coordination \<and> \<not> contains_any (rq_text p) tier_4_qualifiers
         then (Advanced_Reasoning, rs @ [''tier_4_requires_explicit_signal'']) else (t, rs))"

definition select_tier :: "request_profile \<Rightarrow> model list \<Rightarrow> tier_decision result" where
  "select_tier p models =
     (let (t, rs) = settled_minimum p in
      if t = Deterministic_Tier \<and> \<not> rq_governed p \<and> \<not> rq_destructive p then Inr (deterministic_decision p rs)
      else
        (let (minimum, reasons) = (if t = Deterministic_Tier
               then (Balanced_Reasoning, rs @ [''governed_deterministic_requires_llm_review'']) else (t, rs))
         in bind_result (if models = [] then Inr minimum else max_allowed_tier p)
              (\<lambda>maximum. Inr (llm_decision p models minimum reasons maximum))))"


section \<open>Properties of the registry\<close>

definition registry_ok :: "registry \<Rightarrow> bool" where
  "registry_ok reg \<longleftrightarrow> dict_ok reg \<and> (\<forall>(i, m) \<in> set reg. md_id m = i)"

lemma model_registry_empty: "registry_ok []"
  by (simp add: registry_ok_def)

lemma model_register_ok: "registry_ok reg \<Longrightarrow> model_register reg m = Inr reg' \<Longrightarrow> registry_ok reg'"
  by (auto simp: registry_ok_def model_register_def dict_ok_def map_of_eq_None_iff split: if_splits)

lemma update_in: "(i, x) \<in> set (AList.update k v d) \<Longrightarrow> (i, x) = (k, v) \<or> (i, x) \<in> set d"
  by (induction d) (auto split: if_splits)

lemma registry_update_ok: "registry_ok reg \<Longrightarrow> md_id m = i \<Longrightarrow> registry_ok (AList.update i m reg)"
  by (auto simp: registry_ok_def dest!: update_in)

lemma model_upsert_ok: "registry_ok reg \<Longrightarrow> registry_ok (fst (model_upsert reg m))"
  by (simp add: model_upsert_def registry_update_ok)

lemma update_metrics_ok: "registry_ok reg \<Longrightarrow> registry_ok (fst (update_metrics reg i a b c d e s))"
  by (auto simp: update_metrics_def Let_def registry_ok_def split: option.split dest!: update_in map_of_Some_in)

lemma model_unregister_ok: "registry_ok reg \<Longrightarrow> model_unregister reg i = Inr reg' \<Longrightarrow> registry_ok reg'"
  by (auto simp: registry_ok_def model_unregister_def AList.delete_eq split: if_splits)

lemma load_models_ok: "registry_ok reg \<Longrightarrow> registry_ok (fst (load_models reg ss))"
proof (induction ss arbitrary: reg)
  case (Cons s ss)
  then show ?case
    using model_upsert_ok [OF Cons.prems] by (auto simp: Let_def case_prod_beta' split: sum.split)
qed simp

text \<open>A model that is stored and loaded keeps its capabilities; it loses its speed, and it always comes back as available.\<close>

theorem stored_model_roundtrip:
  assumes "model_checked m = Inr m"
  shows "\<exists>tags config. from_stored_model (to_stored_model now m)
    = Inr (m\<lparr>md_speed := ''unknown'', md_status := MODEL_AVAILABLE, md_description := [], md_tags := tags, md_config := config\<rparr>)"
proof -
  define s where "s = to_stored_model now m"
  define r where "r = m\<lparr>md_speed := ''unknown'', md_status := MODEL_AVAILABLE, md_description := [],
    md_tags := so_provider s # filter (\<lambda>c. c \<noteq> ''local'') (remdups (so_caps s)),
    md_config := [(''latency_avg'', Number (so_latency s)), (''last_seen'', Text (so_seen s))]\<rparr>"
  have caps: "(''tool_calling'' \<in> set (so_caps s)) = md_tools m" "(''vision'' \<in> set (so_caps s)) = md_vision m"
    "(''coding'' \<in> set (so_caps s)) = md_coding m" "(''reasoning'' \<in> set (so_caps s)) = md_reasoning m"
    "(''embeddings'' \<in> set (so_caps s)) = md_embeddings m"
    by (simp_all add: s_def to_stored_model_def)
  have rest: "so_name s = md_id m" "so_provider s = md_provider m" "so_window s = md_window m" "so_cost s = md_cost m"
    "so_local s = md_local m"
    by (simp_all add: s_def to_stored_model_def)
  have "from_stored_model s = model_checked r"
    unfolding from_stored_model_def caps rest by (cases m) (simp add: r_def rest)
  also have "model_checked r = Inr r"
    using assms by (auto simp: model_checked_def r_def split: if_splits)
  finally show ?thesis unfolding s_def [symmetric] r_def by blast
qed


section \<open>Properties of the decision\<close>

lemma raised_above [intro]: "d < fst s \<Longrightarrow> d < fst (raise_tier b t r s)" for d :: model_tier
  by (auto simp: raise_tier_def less_max_iff_disj)

lemma needed_above [intro]: "d < fst s \<Longrightarrow> d < fst (needs_tier b t r s)" for d :: model_tier
  by (auto simp: needs_tier_def)

lemma keyword_above [intro]: "d < fst s \<Longrightarrow> d < fst (keyword_tier x s)" for d :: model_tier
  by (auto simp: keyword_tier_def)

lemma purpose_tier_positive [intro]: "Deterministic_Tier < fst (purpose_tier q)"
  by (cases q) (simp_all add: less_model_tier_def)

lemma minimum_tier_deterministic: "fst (minimum_tier p) = Deterministic_Tier \<longleftrightarrow> deterministic_request p"
proof (cases "deterministic_request p")
  case False
  have "Deterministic_Tier < fst (minimum_tier p)"
    using False unfolding minimum_tier_def Let_def
    by (cases "rq_tier p") (simp_all only: if_False option.case, (intro needed_above keyword_above, simp add: purpose_tier_positive)+)
  with False show ?thesis by auto
qed (simp add: minimum_tier_def)

lemma settled_minimum_deterministic: "fst (settled_minimum p) = Deterministic_Tier \<longleftrightarrow> deterministic_request p"
  using minimum_tier_deterministic [of p] by (auto simp: settled_minimum_def split: prod.splits)

lemma select_tier_cases:
  assumes "select_tier p models = Inr d"
  obtains (deterministic) "deterministic_request p" "\<not> rq_governed p" "\<not> rq_destructive p"
      "d = deterministic_decision p (snd (settled_minimum p))"
  | (llm) minimum reasons maximum where "d = llm_decision p models minimum reasons maximum"
      "models = [] \<and> maximum = minimum \<or> max_allowed_tier p = Inr maximum" "Deterministic_Tier < minimum"
proof -
  obtain t rs where s: "settled_minimum p = (t, rs)" by fastforce
  have t: "t = Deterministic_Tier \<longleftrightarrow> deterministic_request p" using settled_minimum_deterministic [of p] by (simp add: s)
  show thesis
  proof (cases "t = Deterministic_Tier \<and> \<not> rq_governed p \<and> \<not> rq_destructive p")
    case True
    with assms t s show thesis by (intro deterministic) (auto simp: select_tier_def)
  next
    case False
    obtain minimum reasons where mr: "(if t = Deterministic_Tier
               then (Balanced_Reasoning, rs @ [''governed_deterministic_requires_llm_review'']) else (t, rs)) = (minimum, reasons)"
      by fastforce
    have pos: "Deterministic_Tier < minimum"
      using mr by (cases t) (auto simp: less_model_tier_def)
    from assms have "bind_result (if models = [] then Inr minimum else max_allowed_tier p)
        (\<lambda>maximum. Inr (llm_decision p models minimum reasons maximum)) = Inr d"
      unfolding select_tier_def s Let_def prod.case if_not_P [OF False] mr .
    then show thesis
      using pos by (cases "models = []"; cases "max_allowed_tier p") (auto intro: llm)
  qed
qed

lemma resolve_tier_below:
  assumes "resolve_tier tiers minimum maximum preferred = (sel, down, fb)" and "minimum \<le> maximum" "minimum \<le> preferred"
    and "tiers \<noteq> [] \<Longrightarrow> \<exists>t \<in> set tiers. minimum \<le> t"
  shows "minimum \<le> sel"
proof (cases "tiers = []")
  case True
  with assms(1) show ?thesis by (simp add: resolve_tier_def)
next
  case False
  have m: "minimum \<le> Max (set (c # cs))" if "filter (\<lambda>t. minimum \<le> t \<and> t \<le> maximum) tiers = c # cs" for c cs
  proof -
    have "minimum \<le> c" using that [THEN arg_cong [where f = set]] by auto
    then show ?thesis by (simp add: le_max_iff_disj order_trans)
  qed
  have x: "minimum \<le> Max (set tiers)" using assms(4) [OF False] by (auto intro: order_trans [OF _ Max_ge])
  show ?thesis
    using assms(1-3) False m x unfolding resolve_tier_def Let_def
    by (auto split: if_splits list.splits)
qed

text \<open>
  C26: The tier decision: the deterministic path is only chosen for known requests that are neither governed nor
  destructive; otherwise the eligible models are exactly those that reach the minimum and hold the context, the selected
  tier never exceeds the maximum, and it falls below the minimum only with an escalation.
\<close>

theorem tier_decision_sound:
  assumes "select_tier p models = Inr d"
  shows "if td_mode d = Deterministic_Mode
    then deterministic_request p \<and> \<not> rq_governed p \<and> \<not> rq_destructive p
    else td_selected d \<le> td_maximum d \<and> (td_selected d < td_minimum d \<longrightarrow> td_escalation d)
      \<and> td_eligible d = map md_id (filter (fits_request p (td_minimum d)) models)
      \<and> (models \<noteq> [] \<and> (rq_local_only p \<or> \<not> rq_cloud p) \<longrightarrow> td_selected d \<le> Balanced_Reasoning)"
  using assms
proof (cases rule: select_tier_cases)
  case deterministic
  then show ?thesis by (simp add: deterministic_decision_def)
next
  case (llm minimum reasons maximum)
  define eligible where "eligible = map md_id (filter (fits_request p minimum) models)"
  define tiers where "tiers = map tier_for_model (filter (\<lambda>m. md_id m \<in> set eligible) models)"
  obtain preferred r2 where pr: "preferred_tier p minimum maximum = (preferred, r2)" by fastforce
  obtain sel down fb where rt: "resolve_tier tiers minimum maximum preferred = (sel, down, fb)" by (metis prod_cases3)
  have d: "td_mode d = Llm_Mode" "td_selected d = (if maximum < sel then maximum else sel)" "td_minimum d = minimum"
    "td_maximum d = maximum" "td_eligible d = eligible" "td_escalation d = (maximum < minimum \<or> maximum < sel)"
    unfolding llm(1) llm_decision_def Let_def eligible_def [symmetric] pr prod.case tiers_def [symmetric] rt by simp_all
  have cap: "maximum \<le> Balanced_Reasoning" if "models \<noteq> []" "rq_local_only p \<or> \<not> rq_cloud p"
  proof -
    have "max_allowed_tier p = Inr maximum" using llm(2) that(1) by simp
    with that(2) show ?thesis
      by (auto simp: max_allowed_tier_def Let_def min_def less_eq_model_tier_def split: option.splits if_splits)
  qed
  have sel: "td_selected d \<le> maximum" by (simp add: d(2) linorder_not_less)
  have "minimum \<le> sel" if "\<not> td_escalation d"
  proof (rule resolve_tier_below [OF rt])
    show "minimum \<le> maximum" using that by (simp add: d(6) linorder_not_less)
    then show "minimum \<le> preferred"
      using pr by (auto simp: preferred_tier_def Let_def min_def split: if_splits)
    show "\<exists>t \<in> set tiers. minimum \<le> t" if "tiers \<noteq> []"
    proof -
      from that obtain m where "m \<in> set models" "fits_request p minimum m" by (auto simp: tiers_def eligible_def filter_empty_conv)
      then show ?thesis by (auto simp: tiers_def eligible_def fits_request_def)
    qed
  qed
  then show ?thesis using sel cap d by (auto simp: eligible_def)
qed

text \<open>C0. A preferred tier makes the choice raise whenever there are models and the request is not deterministic.\<close>

theorem preferred_tier_raises:
  assumes "rq_tier p = Some t" and "models \<noteq> []" and "\<not> (deterministic_request p \<and> \<not> rq_governed p \<and> \<not> rq_destructive p)"
  shows "\<exists>msg. select_tier p models = Inl (AnyException msg)"
proof -
  obtain t0 rs where s: "settled_minimum p = (t0, rs)" by fastforce
  have n: "\<not> (t0 = Deterministic_Tier \<and> \<not> rq_governed p \<and> \<not> rq_destructive p)"
    using assms(3) settled_minimum_deterministic [of p] by (auto simp: s)
  show ?thesis
    using assms(1,2) unfolding select_tier_def s Let_def prod.case if_not_P [OF n]
    by (simp add: max_allowed_tier_def Let_def case_prod_beta')
qed

definition chat_profile :: request_profile where
  "chat_profile =
     \<lparr>rq_text = ''hello'', rq_purpose = CONVERSATION, rq_tools = 0, rq_action = None, rq_known = False,
      rq_deterministic = False, rq_destructive = False, rq_governed = False, rq_risk = LOW, rq_local_only = True,
      rq_cloud = True, rq_budget = None, rq_tier = None, rq_preference = ''balanced'', rq_tokens = 10\<rparr>"

definition big_model :: model where
  "big_model =
     \<lparr>md_id = ''m'', md_provider = ''p'', md_window = 64000, md_tools = False, md_vision = False, md_coding = True,
      md_reasoning = True, md_embeddings = False, md_speed = ''fast'', md_cost = 0, md_local = False,
      md_status = MODEL_DEPRECATED, md_description = [], md_tags = [], md_config = []\<rparr>"

lemma big_model_checked: "model_checked big_model = Inr big_model"
  by code_simp

lemma chat_not_deterministic: "\<not> deterministic_request (chat_profile\<lparr>rq_tier := t\<rparr>)"
  by (simp add: deterministic_request_def chat_profile_def)

text \<open>A selected tier need not have a model: the only eligible model is of a higher tier, and no downgrade is noted.\<close>

lemma selected_tier_unserved:
  "case select_tier (chat_profile\<lparr>rq_local_only := False\<rparr>) [big_model] of
     Inl e \<Rightarrow> False
   | Inr d \<Rightarrow> td_selected d = Fast_Conversational \<and> td_eligible d = [''m''] \<and> tier_for_model big_model = Advanced_Reasoning
       \<and> \<not> td_downgrade d \<and> \<not> td_escalation d"
  by code_simp

lemma chat_decision: "\<exists>d. select_tier chat_profile [big_model] = Inr d \<and> td_mode d = Llm_Mode"
proof -
  have "case select_tier chat_profile [big_model] of Inl e \<Rightarrow> False | Inr d \<Rightarrow> td_mode d = Llm_Mode" by code_simp
  then show ?thesis by (auto split: sum.splits)
qed

theorem stored_model_roundtrip_witness:
  "\<exists>tags config. from_stored_model (to_stored_model ''now'' big_model)
    = Inr (big_model\<lparr>md_speed := ''unknown'', md_status := MODEL_AVAILABLE, md_description := [], md_tags := tags, md_config := config\<rparr>)"
  by (rule stored_model_roundtrip [OF big_model_checked])

theorem tier_decision_sound_witness:
  "\<exists>d. select_tier chat_profile [big_model] = Inr d \<and> td_selected d \<le> td_maximum d \<and> td_selected d \<le> Balanced_Reasoning"
proof -
  obtain d where d: "select_tier chat_profile [big_model] = Inr d" "td_mode d = Llm_Mode" using chat_decision by blast
  from tier_decision_sound [OF d(1)] d show ?thesis by (auto simp: chat_profile_def)
qed

theorem preferred_tier_raises_witness:
  "\<exists>msg. select_tier (chat_profile\<lparr>rq_tier := Some Advanced_Reasoning\<rparr>) [big_model] = Inl (AnyException msg)"
  by (rule preferred_tier_raises) (use chat_not_deterministic in auto)

end
