(* ===== verification/Provider_Statistics.thy ===== *)
theory Provider_Statistics
  imports Fallback "HOL-Library.List_Lexorder"
begin

text \<open>
  What is known about the model providers: their costs and budgets (\<open>sentinel/core/cost_tracker.py\<close>), the rolling store
  of their recent performance (\<open>sentinel/core/provider_performance.py\<close>) and the cache of their health
  (\<open>sentinel/core/provider_health.py\<close>). A table is the list of its rows in the order of insertion; the exponential
  function, the start of a period and the answers of the network are arguments; numbers are rationals. The fields of an
  observation that no aggregate reads are left out.
\<close>

section \<open>Costs\<close>

definition model_pricing :: "(string \<times> (string \<times> rat) list) list" where
  "model_pricing =
     [(''openrouter'', [(''deepseek/deepseek-v4-flash'', 0), (''gpt-4o'', 25/10000), (''gpt-4o-mini'', 15/100000), (''default'', 0)]),
      (''deepseek'', [(''deepseek-v4-flash'', 0), (''deepseek-reasoner'', 0), (''default'', 0)]),
      (''groq'', [(''llama-3.3-70b-versatile'', 0), (''default'', 0)]),
      (''gemini'', [(''gemini-2.0-flash-001'', 0), (''default'', 0)]),
      (''github_models'', [(''gpt-4o-mini'', 15/100000), (''gpt-4o'', 25/10000), (''default'', 15/100000)]),
      (''cerebras'', [(''llama-3.3-70b'', 0), (''default'', 0)]),
      (''mistral'', [(''mistral-large-latest'', 2/1000), (''mistral-small-latest'', 1/1000), (''default'', 1/1000)]),
      (''ollama'', [(''llama3'', 0), (''default'', 0)])]"

definition get_model_price :: "string \<Rightarrow> string \<Rightarrow> rat" where
  "get_model_price provider mdl =
     (let prices = dict_get model_pricing provider [] in dict_get prices mdl (dict_get prices ''default'' 0))"

definition estimate_cost :: "string \<Rightarrow> string \<Rightarrow> int \<Rightarrow> int \<Rightarrow> rat" where
  "estimate_cost provider mdl prompt completion = of_int (prompt + completion) / 1000 * get_model_price provider mdl"

record cost_record =
  kr_provider :: string
  kr_model :: string
  kr_task :: task_type
  kr_prompt :: int
  kr_completion :: int
  kr_total :: int
  kr_cost :: rat
  kr_estimated :: bool
  kr_session :: "string option"
  kr_error :: "string option"
  kr_time :: string

record cost_summary =
  ks_provider :: string
  ks_model :: string
  ks_calls :: nat
  ks_prompt :: int
  ks_completion :: int
  ks_total :: int
  ks_cost :: rat

record budget_config =
  bg_name :: string
  bg_max :: rat
  bg_period :: string
  bg_provider :: "string option"
  bg_tokens :: "int option"
  bg_enabled :: bool

record budget_alert =
  ba_name :: string
  ba_provider :: "string option"
  ba_cost :: rat
  ba_max :: rat
  ba_tokens :: "int option"
  ba_max_tokens :: "int option"
  ba_period :: string

record cost_tracker =
  kt_records :: "cost_record list"
  kt_table :: "budget_config list"
  kt_budgets :: "budget_config list"

definition load_budgets :: "cost_tracker \<Rightarrow> cost_tracker" where
  "load_budgets k = k\<lparr>kt_budgets := kt_table k\<rparr>"

definition record_cost :: "cost_tracker \<Rightarrow> bool \<Rightarrow> string \<Rightarrow> string \<Rightarrow> string \<Rightarrow> task_type \<Rightarrow> int \<Rightarrow> int \<Rightarrow> string option
    \<Rightarrow> string option \<Rightarrow> bool \<Rightarrow> cost_tracker \<times> cost_record" where
  \<comment> \<open>the boolean: whether the database takes the row; a failure is only logged\<close>
  "record_cost k stored now provider mdl task prompt completion session err estimated =
     (let r = \<lparr>kr_provider = provider, kr_model = mdl, kr_task = task, kr_prompt = prompt, kr_completion = completion,
           kr_total = prompt + completion, kr_cost = estimate_cost provider mdl prompt completion,
           kr_estimated = estimated, kr_session = session, kr_error = err, kr_time = now\<rparr>
      in (if stored then k\<lparr>kt_records := kt_records k @ [r]\<rparr> else k, r))"

definition given :: "string option \<Rightarrow> string option" where
  \<comment> \<open>an empty text is no condition\<close>
  "given s = (case s of Some (c # cs) \<Rightarrow> Some (c # cs) | _ \<Rightarrow> None)"

definition cost_rows :: "cost_tracker \<Rightarrow> string option \<Rightarrow> string option \<Rightarrow> cost_record list" where
  "cost_rows k provider since =
     filter (\<lambda>r. (case given provider of None \<Rightarrow> True | Some p \<Rightarrow> kr_provider r = p)
         \<and> (case given since of None \<Rightarrow> True | Some t \<Rightarrow> t \<le> kr_time r)) (kt_records k)"

definition cost_key :: "cost_record \<Rightarrow> string \<times> string" where
  "cost_key r = (kr_provider r, kr_model r)"

definition cost_keys :: "cost_record list \<Rightarrow> (string \<times> string) list" where
  \<comment> \<open>the groups, in the order in which the database forms them\<close>
  "cost_keys rs = sort_key fst (sort_key snd (remdups (map cost_key rs)))"

definition summarize :: "cost_record list \<Rightarrow> string \<times> string \<Rightarrow> cost_summary" where
  "summarize rs key =
     (let g = filter (\<lambda>r. cost_key r = key) rs in
      \<lparr>ks_provider = fst key, ks_model = snd key, ks_calls = length g, ks_prompt = sum_list (map kr_prompt g),
       ks_completion = sum_list (map kr_completion g), ks_total = sum_list (map kr_total g),
       ks_cost = py_round 6 (sum_list (map kr_cost g))\<rparr>)"

definition group_cost :: "cost_record list \<Rightarrow> string \<times> string \<Rightarrow> rat" where
  "group_cost rs key = sum_list (map kr_cost (filter (\<lambda>r. cost_key r = key) rs))"

definition get_cost_summary :: "cost_tracker \<Rightarrow> string option \<Rightarrow> string option \<Rightarrow> cost_summary list" where
  "get_cost_summary k provider since =
     (let rs = cost_rows k provider since in map (summarize rs) (sort_key (\<lambda>key. - group_cost rs key) (cost_keys rs)))"

definition get_total_cost :: "cost_tracker \<Rightarrow> string option \<Rightarrow> string option \<Rightarrow> rat" where
  "get_total_cost k provider since = py_round 6 (sum_list (map ks_cost (get_cost_summary k provider since)))"

definition get_total_tokens :: "cost_tracker \<Rightarrow> string option \<Rightarrow> string option \<Rightarrow> int" where
  "get_total_tokens k provider since = sum_list (map ks_total (get_cost_summary k provider since))"

definition set_budget :: "cost_tracker \<Rightarrow> budget_config \<Rightarrow> cost_tracker" where
  "set_budget k b = load_budgets (k\<lparr>kt_table := filter (\<lambda>x. bg_name x \<noteq> bg_name b) (kt_table k) @ [b]\<rparr>)"

definition delete_budget :: "cost_tracker \<Rightarrow> string \<Rightarrow> cost_tracker" where
  "delete_budget k name = load_budgets (k\<lparr>kt_table := filter (\<lambda>x. bg_name x \<noteq> name) (kt_table k)\<rparr>)"

definition check_budget :: "cost_tracker \<Rightarrow> (string \<Rightarrow> string) \<Rightarrow> budget_config \<Rightarrow> budget_alert option" where
  \<comment> \<open>\<open>starts\<close> says when the current period of a kind began\<close>
  "check_budget k starts b =
     (let since = Some (starts (bg_period b));
          cost = get_total_cost k (bg_provider b) since;
          tokens = (case bg_tokens b of None \<Rightarrow> None | Some m \<Rightarrow> Some (get_total_tokens k (bg_provider b) since))
      in if bg_max b \<le> cost \<or> (case (bg_tokens b, tokens) of (Some m, Some t) \<Rightarrow> m \<le> t | _ \<Rightarrow> False)
         then Some \<lparr>ba_name = bg_name b, ba_provider = bg_provider b, ba_cost = cost, ba_max = bg_max b,
                ba_tokens = tokens, ba_max_tokens = bg_tokens b, ba_period = bg_period b\<rparr>
         else None)"

definition check_budgets :: "cost_tracker \<Rightarrow> (string \<Rightarrow> string) \<Rightarrow> budget_alert list" where
  "check_budgets k starts = List.map_filter (check_budget k starts) (filter bg_enabled (kt_budgets k))"


section \<open>Performance\<close>

record observation =
  po_provider :: string
  po_model :: string
  po_time :: rat
  po_ttft :: "rat option"
  po_speed :: rat
  po_success :: bool
  po_timeout :: bool
  po_cancelled :: bool
  po_fallback :: bool

record aggregate =
  pa_provider :: string
  pa_model :: string
  pa_count :: nat
  pa_median_ttft :: "rat option"
  pa_p95_ttft :: "rat option"
  pa_median_speed :: "rat option"
  pa_failures :: rat
  pa_timeouts :: rat
  pa_fallbacks :: rat
  pa_freshness :: "rat option"
  pa_confidence :: rat

record performance_store =
  ps_max :: nat
  ps_age :: rat
  ps_observations :: "((string \<times> string) \<times> observation list) list"

definition store_new :: "int \<Rightarrow> rat \<Rightarrow> performance_store" where
  "store_new mx age = \<lparr>ps_max = nat (max mx 1), ps_age = max age (1/1000), ps_observations = []\<rparr>"

fun prune :: "nat \<Rightarrow> rat \<Rightarrow> rat \<Rightarrow> observation list \<Rightarrow> observation list" where
  "prune mx age now [] = []"
| "prune mx age now (x # xs) = (if age < now - po_time x \<or> mx < length (x # xs) then prune mx age now xs else x # xs)"

definition observe :: "performance_store \<Rightarrow> rat \<Rightarrow> observation \<Rightarrow> performance_store" where
  "observe s now x =
     (let key = (po_provider x, po_model x); dq = dict_get (ps_observations s) key [] in
      s\<lparr>ps_observations := AList.update key (prune (ps_max s) (ps_age s) now (dq @ [x])) (ps_observations s)\<rparr>)"

definition median :: "rat list \<Rightarrow> rat option" where
  "median xs =
     (let n = length xs; mid = n div 2 in
      if xs = [] then None else if odd n then Some (xs ! mid) else Some ((xs ! (mid - 1) + xs ! mid) / 2))"

definition percentile :: "rat list \<Rightarrow> rat \<Rightarrow> rat" where
  \<comment> \<open>of a list that is not empty\<close>
  "percentile xs p =
     (let k = of_nat (length xs - 1) * p; f = floor k; c = ceiling k in
      if f = c then xs ! nat f else xs ! nat f * (of_int c - k) + xs ! nat c * (k - of_int f))"

definition rate_of :: "(observation \<Rightarrow> bool) \<Rightarrow> observation list \<Rightarrow> rat" where
  "rate_of P obs = of_nat (length (filter P obs)) / of_nat (length obs)"

definition compute_aggregate :: "(rat \<Rightarrow> rat) \<Rightarrow> string \<Rightarrow> string \<Rightarrow> observation list \<Rightarrow> rat \<Rightarrow> aggregate" where
  "compute_aggregate ex provider mdl obs now =
     (if obs = []
      then \<lparr>pa_provider = provider, pa_model = mdl, pa_count = 0, pa_median_ttft = None, pa_p95_ttft = None,
            pa_median_speed = None, pa_failures = 0, pa_timeouts = 0, pa_fallbacks = 0, pa_freshness = None,
            pa_confidence = 0\<rparr>
      else
        (let n = length obs;
             ttft = sort (List.map_filter po_ttft obs);
             speeds = sort (filter (\<lambda>v. 0 < v) (map po_speed obs));
             freshness = now - Max (set (map po_time obs))
         in \<lparr>pa_provider = provider, pa_model = mdl, pa_count = n, pa_median_ttft = median ttft,
             pa_p95_ttft = (if 10 \<le> length ttft then Some (percentile ttft (95/100)) else None),
             pa_median_speed = median speeds,
             pa_failures = rate_of (\<lambda>x. \<not> po_success x \<and> \<not> po_cancelled x) obs,
             pa_timeouts = rate_of po_timeout obs, pa_fallbacks = rate_of po_fallback obs,
             pa_freshness = Some freshness,
             pa_confidence = py_round 4 (min 1 (of_nat n / 20) * ex (- (freshness / 3600)))\<rparr>))"

definition asked_time :: "rat option \<Rightarrow> rat \<Rightarrow> rat" where
  \<comment> \<open>\<open>now or time.monotonic()\<close>\<close>
  "asked_time now clock = (case now of Some n \<Rightarrow> if n = 0 then clock else n | None \<Rightarrow> clock)"

definition get_aggregate :: "(rat \<Rightarrow> rat) \<Rightarrow> performance_store \<Rightarrow> string \<Rightarrow> string \<Rightarrow> rat option \<Rightarrow> rat
    \<Rightarrow> performance_store \<times> aggregate" where
  \<comment> \<open>at a time; an unknown key leaves the store alone\<close>
  "get_aggregate ex s provider mdl now clock =
     (case map_of (ps_observations s) (provider, mdl) of
        None \<Rightarrow> (s, compute_aggregate ex provider mdl [] (asked_time now clock))
      | Some dq \<Rightarrow>
          (let dq' = prune (ps_max s) (ps_age s) clock dq in
           (s\<lparr>ps_observations := AList.update (provider, mdl) dq' (ps_observations s)\<rparr>,
            compute_aggregate ex provider mdl dq' (asked_time now clock))))"

definition latency_fit :: "(rat \<Rightarrow> rat) \<Rightarrow> aggregate \<Rightarrow> rat" where
  "latency_fit ex a = (case pa_median_ttft a of Some t \<Rightarrow> if 0 < t then ex (- (t / 5000)) else 1/2 | None \<Rightarrow> 1/2)"

definition throughput_fit :: "aggregate \<Rightarrow> rat" where
  "throughput_fit a = (case pa_median_speed a of Some v \<Rightarrow> if 0 < v then min 1 (v / 50) else 1/2 | None \<Rightarrow> 1/2)"

definition score_of :: "(rat \<Rightarrow> rat) \<Rightarrow> aggregate \<Rightarrow> rat" where
  "score_of ex a =
     (if pa_count a = 0 then 1/2
      else py_round 4 (35/100 * latency_fit ex a + 25/100 * throughput_fit a
             + 30/100 * (1 - (pa_failures a * (7/10) + pa_timeouts a * (3/10))) + 10/100 * pa_confidence a))"

definition performance_score :: "(rat \<Rightarrow> rat) \<Rightarrow> performance_store \<Rightarrow> string \<Rightarrow> string \<Rightarrow> rat option \<Rightarrow> rat
    \<Rightarrow> performance_store \<times> rat" where
  "performance_score ex s provider mdl now clock =
     (case get_aggregate ex s provider mdl now clock of (s', a) \<Rightarrow> (s', score_of ex a))"

definition store_size :: "performance_store \<Rightarrow> nat" where
  "store_size s = sum_list (map (\<lambda>(k, dq). length dq) (ps_observations s))"


section \<open>Health\<close>

datatype health_state = PROVIDER_AVAILABLE | PROVIDER_DEGRADED | PROVIDER_OFFLINE | PROVIDER_DISABLED

record health_result =
  hr_provider :: string
  hr_state :: health_state
  hr_latency :: "rat option"
  hr_error :: "string option"
  hr_checked :: rat

record health_checker =
  hc_monitor :: "bool option"
  hc_online :: "bool option"
  hc_ttl :: rat
  hc_cache :: "(string \<times> health_result) list"

text \<open>\<open>hc_monitor\<close> is what an initialised network monitor says.\<close>

datatype probe_answer = Probe_Status nat rat | Probe_Timeout | Probe_Refused | Probe_Failed string

definition internet_online :: "health_checker \<Rightarrow> bool" where
  "internet_online h = (case hc_monitor h of Some b \<Rightarrow> b | None \<Rightarrow> (case hc_online h of Some b \<Rightarrow> b | None \<Rightarrow> True))"

definition check_internet :: "health_checker \<Rightarrow> bool list \<Rightarrow> health_checker \<times> bool" where
  \<comment> \<open>whether the hosts resolve, one after the other\<close>
  "check_internet h hosts = (let b = list_ex id hosts in (h\<lparr>hc_online := Some b\<rparr>, b))"

definition probe_result :: "string \<Rightarrow> rat \<Rightarrow> probe_answer \<Rightarrow> health_result" where
  "probe_result provider now a =
     (case a of
        Probe_Status code latency \<Rightarrow>
          (if 200 \<le> code \<and> code < 300
           then \<lparr>hr_provider = provider, hr_state = PROVIDER_AVAILABLE, hr_latency = Some (py_round 1 latency),
                 hr_error = None, hr_checked = now\<rparr>
           else \<lparr>hr_provider = provider, hr_state = PROVIDER_DEGRADED,
                 hr_latency = (if 500 \<le> code then Some (py_round 1 latency) else None),
                 hr_error = Some (''HTTP '' @ nat_str code), hr_checked = now\<rparr>)
      | Probe_Timeout \<Rightarrow> \<lparr>hr_provider = provider, hr_state = PROVIDER_OFFLINE, hr_latency = None,
          hr_error = Some ''timeout'', hr_checked = now\<rparr>
      | Probe_Refused \<Rightarrow> \<lparr>hr_provider = provider, hr_state = PROVIDER_OFFLINE, hr_latency = None,
          hr_error = Some ''connection_refused'', hr_checked = now\<rparr>
      | Probe_Failed m \<Rightarrow> \<lparr>hr_provider = provider, hr_state = PROVIDER_OFFLINE, hr_latency = None,
          hr_error = Some (take 200 m), hr_checked = now\<rparr>)"

definition check_health :: "health_checker \<Rightarrow> string \<Rightarrow> rat \<Rightarrow> probe_answer \<Rightarrow> health_checker \<times> health_result" where
  "check_health h provider now a =
     (case map_of (hc_cache h) provider of
        Some r \<Rightarrow>
          if now - hr_checked r < hc_ttl h then (h, r)
          else (h\<lparr>hc_cache := AList.update provider (probe_result provider now a) (hc_cache h)\<rparr>, probe_result provider now a)
      | None \<Rightarrow> (h\<lparr>hc_cache := AList.update provider (probe_result provider now a) (hc_cache h)\<rparr>, probe_result provider now a))"

definition is_provider_available :: "health_checker \<Rightarrow> string \<Rightarrow> provider_spec option \<Rightarrow> rat \<Rightarrow> bool" where
  "is_provider_available h provider sp now =
     (if (case sp of Some s \<Rightarrow> pv_local s | None \<Rightarrow> False) then True
      else if \<not> internet_online h then False
      else if (case sp of Some s \<Rightarrow> pv_requires_key s | None \<Rightarrow> False) then True
      else
        (case map_of (hc_cache h) provider of
           Some r \<Rightarrow>
             if now - hr_checked r < hc_ttl h then hr_state r = PROVIDER_AVAILABLE \<or> hr_state r = PROVIDER_DEGRADED else True
         | None \<Rightarrow> True))"

definition get_provider_state :: "health_checker \<Rightarrow> string \<Rightarrow> health_state" where
  "get_provider_state h provider = (case map_of (hc_cache h) provider of Some r \<Rightarrow> hr_state r | None \<Rightarrow> PROVIDER_AVAILABLE)"

definition clear_health :: "health_checker \<Rightarrow> health_checker" where
  "clear_health h = h\<lparr>hc_cache := []\<rparr>"


section \<open>Rounding\<close>

lemma py_round_parts:
  obtains r where "py_round n x = of_int r / 10 ^ n" "\<bar>of_int r - x * 10 ^ n\<bar> \<le> 1 / 2"
    "floor (x * 10 ^ n) \<le> r" "r = floor (x * 10 ^ n) \<or> r = floor (x * 10 ^ n) + 1 \<and> of_int (floor (x * 10 ^ n)) < x * 10 ^ n"
proof -
  define y where "y = x * 10 ^ n"
  define f where "f = floor y"
  define d where "d = y - of_int f"
  define r where "r = (if d < 1 / 2 then f else if d > 1 / 2 then f + 1 else if even f then f else f + 1)"
  have d: "0 \<le> d" "d < 1" unfolding d_def f_def by linarith+
  have pr: "py_round n x = of_int r / 10 ^ n"
    by (simp add: py_round_def Let_def r_def d_def f_def y_def)
  have y: "y = of_int f + d" by (simp add: d_def)
  have "\<bar>of_int r - y\<bar> \<le> 1 / 2" using d unfolding y r_def by (auto simp: abs_if)
  moreover have "f \<le> r" by (simp add: r_def)
  moreover have "r = f \<or> r = f + 1 \<and> of_int f < y" using d unfolding r_def y by auto
  ultimately show thesis using that [OF pr] by (simp add: y_def f_def)
qed

lemma py_round_error: "\<bar>py_round n x - x\<bar> \<le> 1 / (2 * 10 ^ n)"
proof -
  obtain r where r: "py_round n x = of_int r / 10 ^ n" "\<bar>of_int r - x * 10 ^ n\<bar> \<le> 1 / 2"
    by (rule py_round_parts [of n x]) blast
  have "py_round n x - x = (of_int r - x * 10 ^ n) / 10 ^ n" by (simp add: r(1) field_simps)
  then have "\<bar>py_round n x - x\<bar> = \<bar>of_int r - x * 10 ^ n\<bar> / 10 ^ n" by (simp add: abs_divide)
  also have "\<dots> \<le> (1 / 2) / 10 ^ n" using r(2) by (intro divide_right_mono) simp_all
  finally show ?thesis by simp
qed

lemma py_round_unit: "0 \<le> x \<Longrightarrow> x \<le> 1 \<Longrightarrow> 0 \<le> py_round n x \<and> py_round n x \<le> 1"
proof -
  assume x: "0 \<le> x" "x \<le> 1"
  obtain r where r: "py_round n x = of_int r / 10 ^ n" "floor (x * 10 ^ n) \<le> r"
    "r = floor (x * 10 ^ n) \<or> r = floor (x * 10 ^ n) + 1 \<and> of_int (floor (x * 10 ^ n)) < x * 10 ^ n"
    by (rule py_round_parts [of n x]) blast
  have le: "x * 10 ^ n \<le> 10 ^ n" using x by (simp add: mult_le_cancel_right1)
  have "0 \<le> floor (x * 10 ^ n)" using x by simp
  then have "0 \<le> r" using r(2) by linarith
  moreover have "r \<le> 10 ^ n"
  proof -
    have f: "of_int (floor (x * 10 ^ n)) \<le> (10 ^ n :: rat)" using le by linarith
    then have "floor (x * 10 ^ n) \<le> 10 ^ n" by (metis of_int_le_iff of_int_numeral of_int_power)
    moreover have "floor (x * 10 ^ n) < 10 ^ n" if "of_int (floor (x * 10 ^ n)) < x * 10 ^ n"
      using that le by (metis floor_less_iff less_le_trans of_int_less_iff of_int_numeral of_int_power)
    ultimately show ?thesis using r(3) by auto
  qed
  then have "of_int r \<le> (10 ^ n :: rat)" by (metis of_int_le_iff of_int_numeral of_int_power)
  ultimately show ?thesis unfolding r(1) by (simp add: divide_le_eq)
qed


section \<open>What the totals say\<close>

lemma sum_groups:
  fixes f :: "'a \<Rightarrow> 'b :: ab_group_add"
  assumes "distinct ks" and "set (map key rs) \<subseteq> set ks"
  shows "sum_list (map (\<lambda>k. sum_list (map f (filter (\<lambda>r. key r = k) rs))) ks) = sum_list (map f rs)"
  using assms(2)
proof (induction rs)
  case (Cons r rs)
  have split: "sum_list (map f (filter (\<lambda>x. key x = k) (r # rs)))
      = (if key r = k then f r else 0) + sum_list (map f (filter (\<lambda>x. key x = k) rs))" for k
    by simp
  have one: "sum_list (map (\<lambda>k. if key r = k then f r else 0) ks) = f r"
    using assms(1) Cons.prems by (simp add: sum_list_distinct_conv_sum_set)
  show ?case
    unfolding split sum_list_addf one using Cons by simp
qed simp

lemma cost_keys_facts [simp]: "distinct (cost_keys rs)" "set (cost_keys rs) = set (map cost_key rs)"
  by (simp_all add: cost_keys_def)

lemma summarize_simps [simp]:
  "ks_total (summarize rs key) = sum_list (map kr_total (filter (\<lambda>r. cost_key r = key) rs))"
  "ks_cost (summarize rs key) = py_round 6 (group_cost rs key)"
  by (simp_all add: summarize_def group_cost_def Let_def)

lemma sum_list_error:
  fixes f g :: "'a \<Rightarrow> rat"
  assumes "\<And>x. \<bar>f x - g x\<bar> \<le> e"
  shows "\<bar>sum_list (map f xs) - sum_list (map g xs)\<bar> \<le> of_nat (length xs) * e"
proof (induction xs)
  case (Cons x xs)
  have "\<bar>sum_list (map f (x # xs)) - sum_list (map g (x # xs))\<bar>
      \<le> \<bar>f x - g x\<bar> + \<bar>sum_list (map f xs) - sum_list (map g xs)\<bar>" by simp
  also have "\<dots> \<le> e + of_nat (length xs) * e" using assms [of x] Cons.IH by linarith
  finally show ?case by (simp add: algebra_simps)
qed simp

text \<open>
  The totals of the cost tracker: the tokens are exactly those of the rows that match, and the cost differs from the
  sum of their costs by at most half a millionth of a dollar for every provider and model, and once more for the total.
\<close>

theorem cost_totals_exact:
  "get_total_tokens k provider since = sum_list (map kr_total (cost_rows k provider since))
   \<and> \<bar>get_total_cost k provider since - sum_list (map kr_cost (cost_rows k provider since))\<bar>
       \<le> of_nat (length (get_cost_summary k provider since) + 1) / 2000000"
proof
  define rs where "rs = cost_rows k provider since"
  define ks where "ks = sort_key (\<lambda>key. - group_cost rs key) (cost_keys rs)"
  have sm: "get_cost_summary k provider since = map (summarize rs) ks"
    by (simp add: get_cost_summary_def Let_def rs_def ks_def)
  have ks: "distinct ks" "set (map cost_key rs) \<subseteq> set ks" by (simp_all add: ks_def)
  show "get_total_tokens k provider since = sum_list (map kr_total (cost_rows k provider since))"
    unfolding get_total_tokens_def sm rs_def [symmetric]
    using sum_groups [OF ks, of kr_total] by (simp add: comp_def)
  let ?s = "sum_list (map (\<lambda>key. py_round 6 (group_cost rs key)) ks)"
  have t: "get_total_cost k provider since = py_round 6 ?s"
    by (simp add: get_total_cost_def sm comp_def)
  have g: "sum_list (map (group_cost rs) ks) = sum_list (map kr_cost rs)"
    using sum_groups [OF ks, of kr_cost] by (simp add: group_cost_def [abs_def])
  have "\<bar>?s - sum_list (map (group_cost rs) ks)\<bar> \<le> of_nat (length ks) * (1 / 2000000)"
    by (rule sum_list_error) (use py_round_error [of 6] in simp)
  moreover have "\<bar>py_round 6 ?s - ?s\<bar> \<le> 1 / 2000000" using py_round_error [of 6 ?s] by simp
  ultimately have "\<bar>py_round 6 ?s - sum_list (map kr_cost rs)\<bar> \<le> of_nat (length ks) * (1 / 2000000) + 1 / 2000000"
    unfolding g by linarith
  then show "\<bar>get_total_cost k provider since - sum_list (map kr_cost (cost_rows k provider since))\<bar>
       \<le> of_nat (length (get_cost_summary k provider since) + 1) / 2000000"
    unfolding t sm rs_def [symmetric] by (simp add: algebra_simps add_divide_distrib)
qed

text \<open>Providers without an entry in the table of prices cost nothing, whatever they charge.\<close>

lemma unpriced_providers:
  "list_all (\<lambda>p. \<forall>m. get_model_price p m = 0) [''openai'', ''anthropic'', ''nvidia'', ''nvidia-nemotron'', ''sentinel_local'']"
  by (simp add: get_model_price_def model_pricing_def dict_get_def Let_def)


section \<open>What the scores say\<close>

lemma prune_suffix: "suffix (prune mx age now xs) xs"
  by (induction xs) (auto simp: suffix_ConsI)

lemma prune_length: "length (prune mx age now xs) \<le> mx"
  by (induction xs) auto

lemma prune_fresh:
  "sorted (map po_time xs) \<Longrightarrow> \<forall>x \<in> set (prune mx age now xs). now - po_time x \<le> age"
proof (induction xs)
  case (Cons x xs)
  show ?case
  proof (cases "age < now - po_time x \<or> mx < length (x # xs)")
    case True
    with Cons show ?thesis by simp
  next
    case False
    then have "now - po_time x \<le> age" by simp
    moreover have "po_time x \<le> po_time y" if "y \<in> set xs" for y using Cons.prems that by simp
    ultimately show ?thesis using False by (auto intro: order_trans [OF diff_left_mono])
  qed
qed simp

definition store_ok :: "performance_store \<Rightarrow> rat \<Rightarrow> bool" where
  \<comment> \<open>at a time that no observation is ahead of\<close>
  "store_ok s now \<longleftrightarrow>
     dict_ok (ps_observations s)
     \<and> (\<forall>(k, dq) \<in> set (ps_observations s). length dq \<le> ps_max s \<and> sorted (map po_time dq)
           \<and> (\<forall>x \<in> set dq. (po_provider x, po_model x) = k \<and> po_time x \<le> now))"

lemma store_new_ok: "store_ok (store_new mx age) now"
  by (simp add: store_ok_def store_new_def)

lemma update_in': "(i, x) \<in> set (AList.update k v d) \<Longrightarrow> (i, x) = (k, v) \<or> (i, x) \<in> set d"
  by (induction d) (auto split: if_splits)

lemma suffix_sorted: "suffix ys xs \<Longrightarrow> sorted (map po_time xs) \<Longrightarrow> sorted (map po_time ys)"
  by (auto simp: suffix_def sorted_append)

text \<open>
  The rolling store: an observation that is made now keeps the store within its bounds, with every list in the order
  of time and under its own key, and what is kept beside the new observation is not older than the maximal age.
\<close>

theorem observations_bounded:
  assumes "store_ok s now" and "po_time x = now"
  shows "store_ok (observe s now x) now
    \<and> (\<forall>y \<in> set (dict_get (ps_observations (observe s now x)) (po_provider x, po_model x) []). now - po_time y \<le> ps_age s)"
proof -
  let ?key = "(po_provider x, po_model x)"
  define dq where "dq = dict_get (ps_observations s) ?key []"
  define dq' where "dq' = prune (ps_max s) (ps_age s) now (dq @ [x])"
  have o: "observe s now x = s\<lparr>ps_observations := AList.update ?key dq' (ps_observations s)\<rparr>"
    by (simp add: observe_def Let_def dq_def dq'_def)
  have dq: "sorted (map po_time dq) \<and> (\<forall>y \<in> set dq. (po_provider y, po_model y) = ?key \<and> po_time y \<le> now)"
  proof (cases "map_of (ps_observations s) ?key")
    case (Some d)
    with map_of_Some_in [OF Some] assms(1) show ?thesis by (auto simp: store_ok_def dq_def)
  qed (simp add: dq_def)
  then have all: "sorted (map po_time (dq @ [x]))" using assms(2) by (simp add: sorted_append)
  have suf: "suffix dq' (dq @ [x])" unfolding dq'_def by (rule prune_suffix)
  have "length dq' \<le> ps_max s" by (simp add: dq'_def prune_length)
  moreover have "sorted (map po_time dq')" using suffix_sorted [OF suf all] .
  moreover have "\<forall>y \<in> set dq'. (po_provider y, po_model y) = ?key \<and> po_time y \<le> now"
    using set_mono_suffix [OF suf] dq assms(2) by auto
  moreover have "\<forall>(k, d) \<in> set (AList.update ?key dq' (ps_observations s)). (k, d) = (?key, dq') \<or> (k, d) \<in> set (ps_observations s)"
    by (auto dest: update_in')
  ultimately have "store_ok (observe s now x) now"
    using assms(1) unfolding o store_ok_def by fastforce
  moreover have "dict_get (ps_observations (observe s now x)) ?key [] = dq'" by (simp add: o)
  ultimately show ?thesis using prune_fresh [OF all] by (simp add: dq'_def)
qed


lemma rate_unit: "obs \<noteq> [] \<Longrightarrow> 0 \<le> rate_of P obs \<and> rate_of P obs \<le> 1"
  by (simp add: rate_of_def divide_le_eq)

lemma unit_product: "0 \<le> a \<Longrightarrow> a \<le> 1 \<Longrightarrow> 0 \<le> b \<Longrightarrow> b \<le> 1 \<Longrightarrow> 0 \<le> a * b \<and> a * b \<le> 1" for a b :: rat
  by (simp add: mult_le_one)

lemma weighted_unit:
  fixes l t f g c :: rat
  assumes "0 \<le> l" "l \<le> 1" "0 \<le> t" "t \<le> 1" "0 \<le> f" "f \<le> 1" "0 \<le> g" "g \<le> 1" "0 \<le> c" "c \<le> 1"
  shows "0 \<le> 35/100 * l + 25/100 * t + 30/100 * (1 - (f * (7/10) + g * (3/10))) + 10/100 * c
    \<and> 35/100 * l + 25/100 * t + 30/100 * (1 - (f * (7/10) + g * (3/10))) + 10/100 * c \<le> 1"
proof -
  have e: "35/100 * l + 25/100 * t + 30/100 * (1 - (f * (7/10) + g * (3/10))) + 10/100 * c
      = (35 * l + 25 * t + 30 - 21 * f - 9 * g + 10 * c) / 100"
    by (simp add: field_simps)
  have "0 \<le> 35 * l + 25 * t + 30 - 21 * f - 9 * g + 10 * c" "35 * l + 25 * t + 30 - 21 * f - 9 * g + 10 * c \<le> 100"
    using assms by linarith+
  then show ?thesis unfolding e by simp
qed

text \<open>
  The score of a provider lies between 0 and 1 when no kept observation is ahead of the time that is asked for,
  whatever decreasing function stands for the exponential.
\<close>

theorem performance_score_bounds:
  assumes "\<And>v. v \<le> 0 \<Longrightarrow> 0 < ex v \<and> ex v \<le> 1" and "store_ok s clock" and "clock \<le> asked_time now clock"
  shows "0 \<le> snd (performance_score ex s provider mdl now clock) \<and> snd (performance_score ex s provider mdl now clock) \<le> 1"
proof -
  define obs where "obs = (case map_of (ps_observations s) (provider, mdl) of
      None \<Rightarrow> [] | Some dq \<Rightarrow> prune (ps_max s) (ps_age s) clock dq)"
  define t where "t = asked_time now clock"
  define a where "a = compute_aggregate ex provider mdl obs t"
  have score: "snd (performance_score ex s provider mdl now clock) = score_of ex a"
    by (simp add: performance_score_def get_aggregate_def a_def obs_def t_def Let_def case_prod_beta' split: option.split)
  show ?thesis
  proof (cases "obs = []")
    case True
    then show ?thesis unfolding score by (simp add: a_def compute_aggregate_def score_of_def)
  next
    case False
    have old: "\<forall>x \<in> set obs. po_time x \<le> clock"
    proof (cases "map_of (ps_observations s) (provider, mdl)")
      case (Some dq)
      have "\<forall>x \<in> set dq. po_time x \<le> clock" using map_of_Some_in [OF Some] assms(2) by (auto simp: store_ok_def)
      then show ?thesis using set_mono_suffix [OF prune_suffix [of "ps_max s" "ps_age s" clock dq]] by (auto simp: obs_def Some)
    qed (use False in \<open>simp add: obs_def\<close>)
    define freshness where "freshness = t - Max (set (map po_time obs))"
    have "Max (set (map po_time obs)) \<le> clock" using False old by simp
    then have fr: "0 \<le> freshness" using assms(3) by (simp add: freshness_def t_def)
    define raw where "raw = min 1 (of_nat (length obs) / 20) * ex (- (freshness / 3600))"
    have a: "pa_count a = length obs" "pa_confidence a = py_round 4 raw"
      "pa_failures a = rate_of (\<lambda>x. \<not> po_success x \<and> \<not> po_cancelled x) obs" "pa_timeouts a = rate_of po_timeout obs"
      using False by (simp_all add: a_def compute_aggregate_def Let_def raw_def freshness_def)
    have "0 < ex (- (freshness / 3600)) \<and> ex (- (freshness / 3600)) \<le> 1" using fr by (intro assms(1)) simp
    then have "0 \<le> raw \<and> raw \<le> 1" unfolding raw_def by (intro unit_product) auto
    then have conf: "0 \<le> pa_confidence a" "pa_confidence a \<le> 1" using py_round_unit [of raw 4] by (auto simp: a)
    have lat: "0 \<le> latency_fit ex a" "latency_fit ex a \<le> 1"
      using assms(1) [of "- (u / 5000)" for u] by (auto simp: latency_fit_def less_imp_le split: option.split)
    have thr: "0 \<le> throughput_fit a" "throughput_fit a \<le> 1" by (auto simp: throughput_fit_def split: option.split)
    note rates = rate_unit [OF False, of "\<lambda>x. \<not> po_success x \<and> \<not> po_cancelled x"] rate_unit [OF False, of po_timeout]
    have "0 \<le> 35/100 * latency_fit ex a + 25/100 * throughput_fit a
             + 30/100 * (1 - (pa_failures a * (7/10) + pa_timeouts a * (3/10))) + 10/100 * pa_confidence a
        \<and> 35/100 * latency_fit ex a + 25/100 * throughput_fit a
             + 30/100 * (1 - (pa_failures a * (7/10) + pa_timeouts a * (3/10))) + 10/100 * pa_confidence a \<le> 1"
      unfolding a(3,4) by (rule weighted_unit) (use conf lat thr rates in simp_all)
    then show ?thesis unfolding score score_of_def using False by (simp add: a(1) py_round_unit)
  qed
qed

definition sample_observation :: observation where
  "sample_observation =
     \<lparr>po_provider = ''p'', po_model = ''m'', po_time = 7, po_ttft = Some 900, po_speed = 30, po_success = True,
      po_timeout = False, po_cancelled = False, po_fallback = False\<rparr>"

lemma sample_store_ok: "store_ok (observe (store_new 2 60) 7 sample_observation) 7"
  by (simp add: store_ok_def observe_def store_new_def sample_observation_def dict_ok_def)

theorem observations_bounded_witness:
  "store_ok (observe (store_new 2 60) 7 sample_observation) 7"
  using observations_bounded [OF store_new_ok, of sample_observation 7 2 60] by (simp add: sample_observation_def)

theorem performance_score_bounds_witness:
  "0 \<le> snd (performance_score (\<lambda>v. if v \<le> 0 then 1 / (1 - v) else 1 + v) (observe (store_new 2 60) 7 sample_observation)
       ''p'' ''m'' None 7)"
proof -
  have "0 < (if v \<le> 0 then 1 / (1 - v) else 1 + v) \<and> (if v \<le> 0 then 1 / (1 - v) else 1 + v) \<le> 1" if "v \<le> 0" for v :: rat
    using that by (simp add: divide_le_eq)
  then show ?thesis
    by (intro conjunct1 [OF performance_score_bounds] sample_store_ok) (simp_all add: asked_time_def)
qed

end
