(* ===== verification/Hardware_Fit.thy ===== *)
theory Hardware_Fit
  imports Fallback
begin

text \<open>
  Whether a model fits the machine: \<open>ModelCapabilityManager\<close> of \<open>sentinel/core/hardware_intelligence.py\<close>, which
  compares the memory that a model needs with the memory there is, and \<open>sentinel/core/resource_intelligence.py\<close>,
  which looks at the present state of the system. The measurements are arguments; the wording of the reasons is left
  out. The regular expressions that read a size out of the name of a model are written out as scanners, for names of
  ASCII characters.
\<close>

section \<open>Requirements of a model\<close>

definition is_digit :: "char \<Rightarrow> bool" where
  "is_digit c \<longleftrightarrow> c \<in> set ''0123456789''"

fun digits_number :: "string \<Rightarrow> nat" where
  "digits_number s = fold (\<lambda>c n. 10 * n + (of_char c - 48)) s 0"

definition size_at :: "string \<Rightarrow> rat option" where
  \<comment> \<open>\<open>(\d+(?:\.\d+)?)b(?:[-_.]|$)\<close> at the start of the text\<close>
  "size_at s =
     (let ds = takeWhile is_digit s; r = dropWhile is_digit s;
          fs = (case r of [] \<Rightarrow> [] | c # cs \<Rightarrow> if c = CHR ''.'' then takeWhile is_digit cs else []);
          q = of_nat (digits_number ds) + of_nat (digits_number fs) / 10 ^ length fs;
          rest = (if fs = [] then r else drop (Suc (length fs)) r)
      in if ds = [] then None
         else
           (case rest of
              CHR ''b'' # [] \<Rightarrow> Some q
            | CHR ''b'' # c # cs \<Rightarrow> if c \<in> set ''-_.'' then Some q else None
            | _ \<Rightarrow> None))"

fun size_after :: "string \<Rightarrow> rat option" where
  "size_after [] = None"
| "size_after (c # cs) =
     (if c \<in> set ''-_/'' then (case size_at cs of Some q \<Rightarrow> Some q | None \<Rightarrow> size_after cs) else size_after cs)"

definition size_match :: "string \<Rightarrow> rat option" where
  "size_match s = (case size_at s of Some q \<Rightarrow> Some q | None \<Rightarrow> size_after s)"

fun quant_match :: "string \<Rightarrow> nat option" where
  "quant_match [] = None"
| "quant_match (c # cs) =
     (let ds = takeWhile is_digit cs in if c = CHR ''q'' \<and> ds \<noteq> [] then Some (digits_number ds) else quant_match cs)"

record model_requirement =
  mr_memory :: "rat option"
  mr_cores :: int
  mr_source :: string

record hardware_config =
  hw_memory :: "rat option"
  hw_cores :: "int option"

text \<open>The \<open>hardware\<close> entry of the configuration of a provider.\<close>

definition requirement_for :: "string \<Rightarrow> hardware_config \<Rightarrow> model_requirement" where
  "requirement_for mdl c =
     (let cores = (case hw_cores c of Some n \<Rightarrow> if n = 0 then 2 else n | None \<Rightarrow> 2) in
      case hw_memory c of
        Some w \<Rightarrow> \<lparr>mr_memory = Some w, mr_cores = cores, mr_source = ''provider_config''\<rparr>
      | None \<Rightarrow>
          (case size_match (lower mdl) of
             None \<Rightarrow> \<lparr>mr_memory = None, mr_cores = cores, mr_source = ''unknown''\<rparr>
           | Some q \<Rightarrow>
               (let bits = (case quant_match (lower mdl) of Some n \<Rightarrow> of_nat n | None \<Rightarrow> 45/10) in
                \<lparr>mr_memory = Some (py_round 2 (max 1 (q * bits / 8 * (125/100) + 75/100))), mr_cores = cores,
                 mr_source = ''model_name_estimate''\<rparr>)))"

record hardware_profile =
  hp_physical :: "int option"
  hp_logical :: "int option"
  hp_ram :: "rat option"
  hp_vram :: "rat option"

definition profile_from_context :: "int option \<Rightarrow> int option \<Rightarrow> rat option \<Rightarrow> rat option \<Rightarrow> int \<Rightarrow> hardware_profile" where
  \<comment> \<open>cores, memory, graphics memory and the number of graphics cards\<close>
  "profile_from_context physical logical ram vram gpus =
     \<lparr>hp_physical = physical, hp_logical = logical, hp_ram = ram, hp_vram = (if gpus \<le> 0 then None else vram)\<rparr>"

datatype fit_reason = Needs_Cores int int | Needs_Unknown | Needs_Memory rat rat | Fits_Memory rat rat

record compatibility =
  co_compatible :: "bool option"
  co_reason :: fit_reason
  co_requirement :: model_requirement

definition profile_cores :: "hardware_profile \<Rightarrow> int option" where
  "profile_cores p = (case hp_physical p of Some n \<Rightarrow> if n = 0 then hp_logical p else Some n | None \<Rightarrow> hp_logical p)"

definition capacity :: "rat \<Rightarrow> hardware_profile \<Rightarrow> rat" where
  "capacity ram p = max 0 (ram - 2) + (case hp_vram p of Some v \<Rightarrow> v | None \<Rightarrow> 0)"

definition assess_fit :: "string \<Rightarrow> hardware_profile \<Rightarrow> hardware_config \<Rightarrow> compatibility" where
  "assess_fit mdl p c =
     (let r = requirement_for mdl c in
      case profile_cores p of
        Some n \<Rightarrow>
          if n < mr_cores r then \<lparr>co_compatible = Some False, co_reason = Needs_Cores (mr_cores r) n, co_requirement = r\<rparr>
          else
            (case (mr_memory r, hp_ram p) of
               (Some w, Some ram) \<Rightarrow>
                 if capacity ram p < w
                 then \<lparr>co_compatible = Some False, co_reason = Needs_Memory w (capacity ram p), co_requirement = r\<rparr>
                 else \<lparr>co_compatible = Some True, co_reason = Fits_Memory w (capacity ram p), co_requirement = r\<rparr>
             | _ \<Rightarrow> \<lparr>co_compatible = None, co_reason = Needs_Unknown, co_requirement = r\<rparr>)
      | None \<Rightarrow>
          (case (mr_memory r, hp_ram p) of
             (Some w, Some ram) \<Rightarrow>
               if capacity ram p < w
               then \<lparr>co_compatible = Some False, co_reason = Needs_Memory w (capacity ram p), co_requirement = r\<rparr>
               else \<lparr>co_compatible = Some True, co_reason = Fits_Memory w (capacity ram p), co_requirement = r\<rparr>
           | _ \<Rightarrow> \<lparr>co_compatible = None, co_reason = Needs_Unknown, co_requirement = r\<rparr>))"


section \<open>The present state of the system\<close>

record snapshot =
  sn_online :: bool
  sn_ram_free :: rat
  sn_ram_total :: rat
  sn_battery :: "rat option"
  sn_on_battery :: bool
  sn_gpu :: bool
  sn_gpu_free :: int
  sn_cpu :: rat
  sn_saver :: bool
  sn_budget :: rat
  sn_has_budget :: bool

definition ram_available_pct :: "snapshot \<Rightarrow> rat" where
  "ram_available_pct s = (if sn_ram_total s \<le> 0 then 100 else sn_ram_free s / sn_ram_total s * 100)"

definition low_resources :: "snapshot \<Rightarrow> bool" where
  "low_resources s \<longleftrightarrow>
     ram_available_pct s < 15 \<or> sn_on_battery s \<and> (case sn_battery s of Some b \<Rightarrow> b < 20 | None \<Rightarrow> False) \<or> sn_saver s"

record asked_model =
  am_id :: string
  am_provider :: string
  am_local :: bool
  am_cost :: rat
  am_speed :: string

record resource_decision =
  rd_ok :: bool
  rd_modifier :: int
  rd_restrictions :: "string list"

definition hardware_requirements :: "(string \<times> rat \<times> int) list" where
  "hardware_requirements =
     [(''70b'', 64, 48000), (''40b'', 32, 24000), (''13b'', 16, 8000), (''7b'', 8, 4000), (''3b'', 4, 2000),
      (''1b'', 2, 1000)]"

definition hardware_requirement :: "string \<Rightarrow> (rat \<times> int) option" where
  "hardware_requirement mdl = map_option snd (find (\<lambda>(tag, r). sublist tag (lower mdl)) hardware_requirements)"

definition cloud_providers :: "string list" where
  "cloud_providers =
     [''openai'', ''anthropic'', ''gemini'', ''deepseek'', ''groq'', ''cerebras'', ''mistral'', ''openrouter'',
      ''github_models'', ''nvidia-nemotron'']"

definition rejected_for :: "string \<Rightarrow> resource_decision" where
  "rejected_for why = \<lparr>rd_ok = False, rd_modifier = -100, rd_restrictions = [why]\<rparr>"

definition resource_modifier :: "asked_model \<Rightarrow> snapshot \<Rightarrow> int" where
  "resource_modifier m s =
     (if am_local m \<and> \<not> sn_online s then 30 else 0) + (if am_local m then 10 else 0)
     + (if sn_on_battery s \<and> am_local m then 15 else 0) + (if sn_saver s \<and> am_local m then 10 else 0)
     - (if sn_on_battery s \<and> \<not> am_local m then 20 else 0) + (if am_cost m = 0 then 5 else 0)
     - (if ram_available_pct s < 20 then 25 else 0) - (if 80 < sn_cpu s then 15 else 0)
     - (if am_speed m = ''slow'' then 10 else 0)"

definition model_cost :: "(string \<Rightarrow> string \<Rightarrow> rat) option \<Rightarrow> asked_model \<Rightarrow> rat" where
  \<comment> \<open>with the estimate of the cost tracker for 2000 and 500 tokens, when there is one\<close>
  "model_cost estimate m =
     (if 0 < am_cost m then am_cost m else case estimate of Some f \<Rightarrow> f (am_provider m) (am_id m) | None \<Rightarrow> 1/100)"

definition evaluate_resources :: "(string \<Rightarrow> string \<Rightarrow> rat) option \<Rightarrow> asked_model \<Rightarrow> snapshot \<Rightarrow> resource_decision" where
  "evaluate_resources estimate m s =
     (if (am_provider m \<in> set cloud_providers \<or> \<not> am_local m) \<and> \<not> sn_online s then rejected_for ''offline''
      else if (case hardware_requirement (am_id m) of Some (ram, vram) \<Rightarrow> sn_ram_free s < ram | None \<Rightarrow> False)
      then rejected_for ''insufficient_ram''
      else if (case hardware_requirement (am_id m) of Some (ram, vram) \<Rightarrow> sn_gpu s \<and> sn_gpu_free s < vram | None \<Rightarrow> False)
      then rejected_for ''insufficient_vram''
      else if sn_has_budget s \<and> \<not> am_local m \<and> sn_budget s < model_cost estimate m then rejected_for ''budget_exceeded''
      else \<lparr>rd_ok = True, rd_modifier = resource_modifier m s, rd_restrictions = []\<rparr>)"

definition evaluate_all :: "(string \<Rightarrow> string \<Rightarrow> rat) option \<Rightarrow> asked_model list \<Rightarrow> snapshot \<Rightarrow> (asked_model \<times> resource_decision) list" where
  "evaluate_all estimate ms s = map (\<lambda>m. (m, evaluate_resources estimate m s)) ms"

definition filter_resources :: "(string \<Rightarrow> string \<Rightarrow> rat) option \<Rightarrow> asked_model list \<Rightarrow> snapshot \<Rightarrow> (asked_model \<times> resource_decision) list" where
  "filter_resources estimate ms s = filter (\<lambda>(m, d). rd_ok d) (evaluate_all estimate ms s)"

definition resource_fallback :: "(string \<Rightarrow> string \<Rightarrow> rat) option \<Rightarrow> asked_model list \<Rightarrow> string list \<Rightarrow> snapshot
    \<Rightarrow> (asked_model \<times> resource_decision) option" where
  "resource_fallback estimate ms rejected s =
     find (\<lambda>(m, d). rd_ok d) (evaluate_all estimate (filter (\<lambda>m. am_id m \<notin> set rejected) ms) s)"

definition budget_remaining :: "(rat \<times> rat) list \<Rightarrow> rat" where
  \<comment> \<open>from the current and the maximal cost of the alerts of the cost tracker\<close>
  "budget_remaining alerts =
     (case rev (sort_key (\<lambda>(cost, mx). cost / max mx (1/100)) (rev alerts)) of
        [] \<Rightarrow> 10
      | (cost, mx) # _ \<Rightarrow> max 0 (mx - cost))"


section \<open>Properties\<close>

text \<open>More memory or more graphics memory never turns a model that fits into one that does not.\<close>

definition roomier :: "hardware_profile \<Rightarrow> hardware_profile \<Rightarrow> bool" where
  "roomier p q \<longleftrightarrow>
     hp_physical q = hp_physical p \<and> hp_logical q = hp_logical p
     \<and> (case (hp_ram p, hp_ram q) of (Some a, Some b) \<Rightarrow> a \<le> b | (None, None) \<Rightarrow> True | _ \<Rightarrow> False)
     \<and> (case (hp_vram p, hp_vram q) of (Some a, Some b) \<Rightarrow> a \<le> b | (None, Some b) \<Rightarrow> 0 \<le> b | (None, None) \<Rightarrow> True | _ \<Rightarrow> False)"

lemma roomier_capacity: "roomier p q \<Longrightarrow> hp_ram p = Some a \<Longrightarrow> hp_ram q = Some b \<Longrightarrow> capacity a p \<le> capacity b q"
  by (auto simp: roomier_def capacity_def max_def split: option.splits)

lemma roomier_fits:
  assumes "roomier p q" and "co_compatible (assess_fit mdl p c) \<noteq> Some False"
  shows "co_compatible (assess_fit mdl q c) \<noteq> Some False"
proof -
  have "hp_physical q = hp_physical p" "hp_logical q = hp_logical p" using assms(1) by (simp_all add: roomier_def)
  then have cores: "profile_cores q = profile_cores p" unfolding profile_cores_def by (simp only:)
  have ram: "hp_ram q = None \<longleftrightarrow> hp_ram p = None"
    using assms(1) by (auto simp: roomier_def split: option.splits)
  show ?thesis
  proof (cases "hp_ram p")
    case None
    then show ?thesis using assms(2) ram by (auto simp: assess_fit_def cores Let_def split: option.splits if_splits)
  next
    case (Some a)
    then obtain b where b: "hp_ram q = Some b" using ram by (cases "hp_ram q") auto
    from roomier_capacity [OF assms(1) Some b] show ?thesis
      using assms(2) by (auto simp: assess_fit_def cores Some b Let_def split: option.splits if_splits)
  qed
qed

lemma modifier_bounds: "-70 \<le> resource_modifier m s \<and> resource_modifier m s \<le> 70"
  by (simp add: resource_modifier_def)

lemma resources_allowed_iff:
  "rd_ok (evaluate_resources estimate m s) \<longleftrightarrow>
     (sn_online s \<or> am_local m \<and> am_provider m \<notin> set cloud_providers)
     \<and> (case hardware_requirement (am_id m) of
          Some (ram, vram) \<Rightarrow> ram \<le> sn_ram_free s \<and> (sn_gpu s \<longrightarrow> vram \<le> sn_gpu_free s) | None \<Rightarrow> True)
     \<and> (sn_has_budget s \<and> \<not> am_local m \<longrightarrow> model_cost estimate m \<le> sn_budget s)"
  by (auto simp: evaluate_resources_def rejected_for_def split: option.split)

text \<open>
  The two views of the machine disagree: the model that comes with the program has 1.7 billion parameters, but its name
  contains the mark of models with 7 billion, so it is rejected below 8 GB of free memory, while the estimate from the
  same name and the configuration of its provider ask for about 3 GB.
\<close>

lemma bundled_model_judged_large:
  "hardware_requirement ''Qwen3-1.7B-Q8_0.gguf'' = Some (8, 4000)
   \<and> mr_memory (requirement_for ''Qwen3-1.7B-Q8_0.gguf'' \<lparr>hw_memory = None, hw_cores = None\<rparr>) = Some (py_round 2 (2875/1000))"
  by code_simp

end
