(* ===== verification/Provider_Selection.thy ===== *)
theory Provider_Selection
  imports Model_Tiers Provider_Statistics Hardware_Fit
begin

text \<open>
  The choice of a model provider for a task, \<open>sentinel/routing/provider_selector.py\<close>, with the feedback that the smart
  strategy reads (\<open>sentinel/core/model_feedback.py\<close>): a provider named in the request, a preferred one, then the
  candidates that pass availability, hardware, connectivity, privacy, budget and tier, ranked by their resource score.
  The snapshots of the system, the clock, the test of a local provider, the scores of the performance store and the top
  of the model ranking are arguments. The texts of reasons and the traces are left out, except the reason of a
  blocked choice and the list of candidates.
\<close>

section \<open>Feedback\<close>

record feedback =
  fe_provider :: string
  fe_model :: string
  fe_task :: task_type
  fe_success :: bool
  fe_duration :: rat

record feedback_store =
  fs_records :: "feedback list"
  fs_max :: nat

definition record_feedback :: "feedback_store \<Rightarrow> feedback \<Rightarrow> feedback_store" where
  "record_feedback s f =
     (let rs = fs_records s @ [f] in s\<lparr>fs_records := (if fs_max s < length rs then tl rs else rs)\<rparr>)"

record task_stats =
  tk_provider :: string
  tk_task :: task_type
  tk_total :: nat
  tk_successes :: nat
  tk_duration :: rat
  tk_rate :: rat

definition stats_of :: "feedback list \<Rightarrow> string \<times> task_type \<Rightarrow> task_stats" where
  \<comment> \<open>of the records of a group, which is not empty\<close>
  "stats_of rs key =
     (let n = length rs; ok = length (filter fe_success rs) in
      \<lparr>tk_provider = fst key, tk_task = snd key, tk_total = n, tk_successes = ok,
       tk_duration = py_round 1 (sum_list (map fe_duration rs) / of_nat n), tk_rate = py_round 3 (of_nat ok / of_nat n)\<rparr>)"

fun first_keys :: "('a \<Rightarrow> 'k) \<Rightarrow> 'a list \<Rightarrow> 'k list" where
  \<comment> \<open>the keys in the order of their first occurrence\<close>
  "first_keys f [] = []"
| "first_keys f (x # xs) = f x # filter (\<lambda>k. k \<noteq> f x) (first_keys f xs)"

definition get_stats :: "feedback_store \<Rightarrow> string option \<Rightarrow> task_type option \<Rightarrow> task_stats list" where
  "get_stats s provider task =
     (let rs = filter (\<lambda>r. (case given provider of None \<Rightarrow> True | Some p \<Rightarrow> fe_provider r = p)
            \<and> (case task of None \<Rightarrow> True | Some t \<Rightarrow> fe_task r = t)) (fs_records s);
          key = (\<lambda>r. (fe_provider r, fe_task r))
      in sort_key (\<lambda>x. - tk_rate x) (map (\<lambda>k. stats_of (filter (\<lambda>r. key r = k) rs) k) (first_keys key rs)))"

definition success_rate :: "feedback_store \<Rightarrow> string \<Rightarrow> task_type \<Rightarrow> rat" where
  "success_rate s provider task = (case get_stats s (Some provider) (Some task) of [] \<Rightarrow> 0 | x # _ \<Rightarrow> tk_rate x)"

definition avg_duration :: "feedback_store \<Rightarrow> string \<Rightarrow> task_type \<Rightarrow> rat option" where
  "avg_duration s provider task = (case get_stats s (Some provider) (Some task) of [] \<Rightarrow> None | x # _ \<Rightarrow> Some (tk_duration x))"


section \<open>The selector\<close>

record routed_provider = provider_spec +
  pv_hardware :: hardware_config

record availability =
  av_provider :: string
  av_ok :: bool
  av_reason :: string
  av_checked :: rat

record selector =
  se_providers :: "(string \<times> routed_provider) list"
  se_strategy :: string
  se_preferred :: "string option"
  se_ttl :: rat
  se_cache :: "(string \<times> availability) list"
  se_task_caps :: "(task_type \<times> string list) list"
  se_registry :: "registry option"
  se_prices :: bool
  se_feedback :: "feedback_store option"
  se_ranking :: "(string \<times> rat) list option"
  se_performance :: "(string \<Rightarrow> string \<Rightarrow> rat) option"
  se_online :: "bool option"
  se_offline_mode :: string
  se_offline_reason :: "string option"
  se_keys :: "(string \<times> string) list"
  se_checker :: "(routed_provider \<Rightarrow> availability result) option"

text \<open>
  \<open>se_prices\<close>: whether there is a cost tracker; \<open>se_online\<close>: what the health checker says, when there is one.
\<close>

record route_context =
  rx_cloud_denied :: bool
  rx_prefers_local :: bool
  rx_level :: "string option"
  rx_hardware :: "hardware_profile option"
  rx_minimum :: "model_tier option"
  rx_mode :: "string option"
  rx_cpu :: rat
  rx_memory :: rat
  rx_battery :: "(rat \<times> bool) option"

text \<open>
  Whether \<open>cloud_allowed\<close> is false, whether privacy prefers local models, the permission level, the hardware, the
  minimum and the execution mode of the tier decision, and the load and battery that the smart strategy reads.
\<close>

record selection =
  sl_provider :: string
  sl_model :: string
  sl_task :: task_type
  sl_strategy :: string
  sl_blocked :: "string option"
  sl_rejected :: "string option"
  sl_eligible :: "string list"

definition routing_strategies :: "string list" where
  "routing_strategies = [''priority'', ''cost'', ''local_first'', ''smart'', ''manual'']"

definition offline_modes :: "string list" where
  "offline_modes = [''off'', ''auto'', ''force_local'']"

definition set_strategy :: "selector \<Rightarrow> string \<Rightarrow> selector result" where
  "set_strategy s st =
     (if st \<notin> set routing_strategies then Inl (ValueError (''Strategy must be one of '' @ str_list_repr routing_strategies))
      else Inr (s\<lparr>se_strategy := st\<rparr>))"

definition set_preferred_provider :: "selector \<Rightarrow> string option \<Rightarrow> selector result" where
  "set_preferred_provider s p =
     (case given p of
        None \<Rightarrow> Inr (s\<lparr>se_preferred := None\<rparr>)
      | Some i \<Rightarrow>
          if map_of (se_providers s) i = None then Inl (KeyError (''Provider '' @ quoted i @ '' not found''))
          else Inr (s\<lparr>se_preferred := Some i\<rparr>))"

definition set_offline_mode :: "selector \<Rightarrow> string \<Rightarrow> selector result" where
  "set_offline_mode s m =
     (if m \<notin> set offline_modes then Inl (ValueError (''offline_mode must be one of '' @ str_list_repr offline_modes))
      else Inr (s\<lparr>se_offline_mode := m,
             se_offline_reason := (if m = ''force_local'' then Some ''offline_mode_forced'' else None)\<rparr>))"

definition set_api_key :: "selector \<Rightarrow> string \<Rightarrow> string \<Rightarrow> selector" where
  "set_api_key s p k = s\<lparr>se_keys := AList.update p k (se_keys s)\<rparr>"

definition delete_api_key :: "selector \<Rightarrow> string \<Rightarrow> selector \<times> bool" where
  "delete_api_key s p = (s\<lparr>se_keys := AList.delete p (se_keys s)\<rparr>, dict_get (se_keys s) p [] \<noteq> [])"

definition has_api_key :: "selector \<Rightarrow> string \<Rightarrow> bool" where
  "has_api_key s p \<longleftrightarrow> dict_get (se_keys s) p [] \<noteq> []"

definition is_offline :: "selector \<Rightarrow> selector \<times> bool" where
  "is_offline s =
     (if se_offline_mode s = ''force_local'' then (s\<lparr>se_offline_reason := Some ''offline_mode_forced''\<rparr>, True)
      else if se_offline_mode s = ''off'' then (s\<lparr>se_offline_reason := None\<rparr>, False)
      else
        (case se_online s of
           Some b \<Rightarrow> (s\<lparr>se_offline_reason := (if b then None else Some ''no_internet'')\<rparr>, \<not> b)
         | None \<Rightarrow> (s, False)))"

definition fresh_availability :: "selector \<Rightarrow> string \<Rightarrow> rat \<Rightarrow> availability" where
  \<comment> \<open>without the cache\<close>
  "fresh_availability s pid now =
     (case map_of (se_providers s) pid of
        None \<Rightarrow> \<lparr>av_provider = pid, av_ok = False, av_reason = ''unknown_provider'', av_checked = now\<rparr>
      | Some p \<Rightarrow>
          if pv_requires_key p \<and> \<not> has_api_key s pid
          then \<lparr>av_provider = pid, av_ok = False, av_reason = ''missing_api_key'', av_checked = now\<rparr>
          else if pv_local p then
            (case se_checker s of
               None \<Rightarrow> \<lparr>av_provider = pid, av_ok = True, av_reason = ''available'', av_checked = now\<rparr>
             | Some f \<Rightarrow>
                 (case f p of
                    Inr a \<Rightarrow> a
                  | Inl e \<Rightarrow> \<lparr>av_provider = pid, av_ok = True, av_reason = ''available'', av_checked = now\<rparr>))
          else \<lparr>av_provider = pid, av_ok = True, av_reason = ''api_key_configured'', av_checked = now\<rparr>)"

definition provider_availability :: "selector \<Rightarrow> string \<Rightarrow> bool \<Rightarrow> rat \<Rightarrow> selector \<times> availability" where
  "provider_availability s pid refresh now =
     (let a = fresh_availability s pid now; fresh = (s\<lparr>se_cache := AList.update pid a (se_cache s)\<rparr>, a) in
      case map_of (se_cache s) pid of
        Some c \<Rightarrow> if \<not> refresh \<and> now - av_checked c < se_ttl s then (s, c) else fresh
      | None \<Rightarrow> fresh)"

definition provider_tier :: "selector \<Rightarrow> routed_provider \<Rightarrow> model_tier" where
  "provider_tier s p =
     (case se_registry s of
        Some reg \<Rightarrow>
          (if pv_model p = [] then tier_for_provider (provider_spec.truncate p)
           else case map_of reg (pv_model p) of
                  Some m \<Rightarrow> tier_for_model m
                | None \<Rightarrow> tier_for_provider (provider_spec.truncate p))
      | None \<Rightarrow> tier_for_provider (provider_spec.truncate p))"

definition below_minimum :: "selector \<Rightarrow> route_context \<Rightarrow> routed_provider \<Rightarrow> bool" where
  "below_minimum s cx p \<longleftrightarrow> (case rx_minimum cx of None \<Rightarrow> False | Some t \<Rightarrow> provider_tier s p < t)"

definition hard_gate :: "selector \<Rightarrow> route_context \<Rightarrow> snapshot option \<Rightarrow> routed_provider \<Rightarrow> string \<Rightarrow> string option" where
  "hard_gate s cx snap p mdl =
     (if \<not> pv_local p then
        (if rx_cloud_denied cx then Some ''privacy_forbids_cloud''
         else
           (case snap of
              Some sn \<Rightarrow>
                (let price = get_model_price (pv_id p) mdl in
                 if sn_has_budget sn \<and> se_prices s \<and> 0 < price \<and> sn_budget sn < price then Some ''budget_exceeded'' else None)
            | None \<Rightarrow> None))
      else
        (case snap of
           None \<Rightarrow> None
         | Some sn \<Rightarrow>
             (let d = evaluate_resources None
                    \<lparr>am_id = mdl, am_provider = pv_id p, am_local = True, am_cost = 0, am_speed = ''unknown''\<rparr> sn
              in if rd_ok d then None
                 else case rd_restrictions d of [] \<Rightarrow> Some ''resource_rejected'' | r # _ \<Rightarrow> Some r)))"

definition hardware_allows :: "route_context \<Rightarrow> routed_provider \<Rightarrow> bool" where
  "hardware_allows cx p \<longleftrightarrow>
     \<not> pv_local p
     \<or> (case rx_hardware cx of
          None \<Rightarrow> True | Some h \<Rightarrow> co_compatible (assess_fit (pv_model p) h (pv_hardware p)) \<noteq> Some False)"


section \<open>Scores\<close>

definition unit_clip :: "rat \<Rightarrow> rat" where
  "unit_clip x = max 0 (min 1 x)"

definition resource_fit :: "snapshot option \<Rightarrow> routed_provider \<Rightarrow> rat" where
  "resource_fit snap p =
     (case snap of
        None \<Rightarrow> 1/2
      | Some sn \<Rightarrow>
          if pv_local p
          then unit_clip (1/2 + of_int (rd_modifier (evaluate_resources None
                 \<lparr>am_id = pv_model p, am_provider = pv_id p, am_local = True, am_cost = 0, am_speed = ''unknown''\<rparr> sn)) / 100)
          else 1)"

definition health_fit :: "selector \<Rightarrow> routed_provider \<Rightarrow> rat" where
  "health_fit s p = (case map_of (se_cache s) (pv_id p) of None \<Rightarrow> 1/2 | Some a \<Rightarrow> if av_ok a then 1 else 0)"

definition cost_fit :: "selector \<Rightarrow> routed_provider \<Rightarrow> rat" where
  "cost_fit s p =
     (if \<not> pv_requires_key p then 1
      else if se_prices s then 1 / (1 + get_model_price (pv_id p) (pv_model p) * 1000) else 1/2)"

definition power_fit :: "snapshot option \<Rightarrow> routed_provider \<Rightarrow> rat" where
  "power_fit snap p =
     (case snap of Some sn \<Rightarrow> if (sn_saver sn \<or> sn_on_battery sn) \<and> pv_local p then 6/10 else 1 | None \<Rightarrow> 1)"

definition privacy_fit :: "route_context \<Rightarrow> routed_provider \<Rightarrow> rat" where
  "privacy_fit cx p =
     (if (rx_level cx = Some ''high'' \<or> rx_level cx = Some ''emergency'' \<or> rx_prefers_local cx) \<and> \<not> pv_local p
      then 6/10 else 1)"

definition resource_score :: "selector \<Rightarrow> route_context \<Rightarrow> snapshot option \<Rightarrow> routed_provider \<Rightarrow> rat" where
  "resource_score s cx snap p =
     (let base = py_round 4 (35/100 * resource_fit snap p + 25/100 * health_fit s p + 15/100 * cost_fit s p
            + 15/100 * power_fit snap p + 10/100 * privacy_fit cx p)
      in py_round 4 (base + (case se_performance s of Some f \<Rightarrow> 1/10 * f (pv_id p) (pv_model p) | None \<Rightarrow> 0)))"

definition high_load :: "route_context \<Rightarrow> bool" where
  "high_load cx \<longleftrightarrow> 80 < rx_cpu cx \<or> 85 < rx_memory cx"

definition low_battery :: "route_context \<Rightarrow> bool" where
  "low_battery cx \<longleftrightarrow> (case rx_battery cx of Some (pct, plugged) \<Rightarrow> pct < 20 \<and> \<not> plugged | None \<Rightarrow> False)"

definition feedback_score :: "feedback_store \<Rightarrow> routed_provider \<Rightarrow> task_type \<Rightarrow> rat" where
  "feedback_score f p task =
     (let rate = success_rate f (pv_id p) task; dur = avg_duration f (pv_id p) task;
          known = list_ex (\<lambda>x. 0 < tk_total x) (get_stats f (Some (pv_id p)) (Some task))
      in (if 0 < rate then rate * 20 else 0)
         - (if rate = 0 \<and> fs_records f \<noteq> [] then (if known then (1 - rate) * 10 else 5) else 0)
         + (case dur of None \<Rightarrow> 0 | Some d \<Rightarrow> if d < 1000 then 5 else if 10000 < d then -5 else 0))"

definition registry_model_ids :: "selector \<Rightarrow> routed_provider \<Rightarrow> string list" where
  "registry_model_ids s p =
     (case se_registry s of
        None \<Rightarrow> []
      | Some reg \<Rightarrow>
          (case map md_id (filter (\<lambda>m. md_status m = MODEL_AVAILABLE) (find_by_provider reg (pv_id p))) of
             [] \<Rightarrow> [pv_model p] | is \<Rightarrow> is))"

definition ranking_bonus :: "selector \<Rightarrow> routed_provider \<Rightarrow> rat" where
  \<comment> \<open>from the ten best models of the ranking\<close>
  "ranking_bonus s p =
     (case se_ranking s of
        None \<Rightarrow> 0
      | Some best \<Rightarrow>
          (case List.map_filter (map_of (rev best)) (registry_model_ids s p) of
             [] \<Rightarrow> 0 | q # qs \<Rightarrow> Max (set (q # qs)) * (3/10)))"

definition smart_score :: "selector \<Rightarrow> route_context \<Rightarrow> task_type \<Rightarrow> routed_provider \<Rightarrow> rat" where
  "smart_score s cx task p =
     (let level = (case rx_level cx of Some l \<Rightarrow> l | None \<Rightarrow> ''confirm'');
          private = level = ''high'' \<or> level = ''emergency'';
          price = get_model_price (pv_id p) (pv_model p)
      in of_int (pv_priority p)
         + (if se_preferred s = Some (pv_id p) then 60 else 0)
         + (if task \<in> {LOCAL, QUICK} \<and> pv_local p then 20 else 0)
         + (if task \<in> {REASONING, ANALYSIS, CODE} \<and> \<not> pv_local p then 10 else 0)
         + (if high_load cx then (if pv_local p then -10 else 15) else 0)
         + (if low_battery cx then (if pv_local p then -5 else 10) else 0)
         + (if level = ''emergency'' \<or> level = ''restricted'' then 5 else 0)
         + (if private then (if pv_local p then 15 else -5) else 0)
         + (case se_feedback s of Some f \<Rightarrow> feedback_score f p task | None \<Rightarrow> 0)
         - (if se_prices s \<and> 0 < price then price * 1000 else 0)
         + ranking_bonus s p)"


section \<open>Selection\<close>

definition candidate_rejection :: "selector \<Rightarrow> route_context \<Rightarrow> snapshot option \<Rightarrow> bool \<Rightarrow> task_type \<Rightarrow> availability
    \<Rightarrow> routed_provider \<Rightarrow> bool" where
  \<comment> \<open>whether a provider is no candidate, from its availability\<close>
  "candidate_rejection s cx snap offline task a p \<longleftrightarrow>
     task \<notin> set (pv_tasks p) \<or> \<not> av_ok a \<or> \<not> hardware_allows cx p \<or> offline \<and> \<not> pv_local p
     \<or> hard_gate s cx snap p (pv_model p) \<noteq> None \<or> below_minimum s cx p"

fun filter_providers :: "route_context \<Rightarrow> snapshot option \<Rightarrow> bool \<Rightarrow> task_type \<Rightarrow> rat \<Rightarrow> routed_provider list \<Rightarrow> selector
    \<Rightarrow> selector \<times> routed_provider list" where
  "filter_providers cx snap offline task now [] s = (s, [])"
| "filter_providers cx snap offline task now (p # ps) s =
     (if task \<notin> set (pv_tasks p) then filter_providers cx snap offline task now ps s
      else
        (let (s1, a) = provider_availability s (pv_id p) False now;
             (s2, rest) = filter_providers cx snap offline task now ps s1
         in (s2, if candidate_rejection s1 cx snap offline task a p then rest else p # rest)))"

definition filter_candidates :: "selector \<Rightarrow> route_context \<Rightarrow> snapshot option \<Rightarrow> task_type \<Rightarrow> rat \<Rightarrow> selector \<times> routed_provider list" where
  "filter_candidates s cx snap task now =
     (let (s1, offline) = is_offline s in filter_providers cx snap offline task now (map snd (se_providers s1)) s1)"

definition chosen :: "routed_provider \<Rightarrow> task_type \<Rightarrow> string \<Rightarrow> selection" where
  "chosen p task strategy =
     \<lparr>sl_provider = pv_id p, sl_model = pv_model p, sl_task = task, sl_strategy = strategy, sl_blocked = None,
      sl_rejected = None, sl_eligible = []\<rparr>"

definition sort_models :: "string \<Rightarrow> model list \<Rightarrow> model list" where
  "sort_models strategy ms = (if strategy = ''local_first'' then local_then_cost ms else cost_then_remote ms)"

definition select_by_capability :: "selector \<Rightarrow> string \<Rightarrow> string list \<Rightarrow> task_type option \<Rightarrow> selection option" where
  \<comment> \<open>the best model of the registry; the text is the first part of the strategy that is noted\<close>
  "select_by_capability s kind caps task =
     (case se_registry s of
        None \<Rightarrow> None
      | Some reg \<Rightarrow>
          (case sort_models (se_strategy s) (find_candidates reg caps) of
             [] \<Rightarrow> None
           | m # ms \<Rightarrow>
               Some \<lparr>sl_provider = md_provider m, sl_model = md_id m,
                 sl_task = (case task of Some t \<Rightarrow> t | None \<Rightarrow> QUICK), sl_strategy = kind @ se_strategy s,
                 sl_blocked = None, sl_rejected = None, sl_eligible = map md_id (m # ms)\<rparr>))"

definition select_from_registry :: "selector \<Rightarrow> task_type \<Rightarrow> selection option" where
  "select_from_registry s task =
     (case dict_get (se_task_caps s) task [] of
        [] \<Rightarrow> None
      | caps \<Rightarrow> select_by_capability s ''registry_'' caps (Some task))"

definition no_provider :: "task_type \<Rightarrow> py_exc" where
  "no_provider task = AnyException (''No available provider supports task type '' @ quoted (task_value task))"

definition smart_select :: "selector \<Rightarrow> route_context \<Rightarrow> snapshot option \<Rightarrow> task_type \<Rightarrow> rat \<Rightarrow> selector \<times> selection result" where
  "smart_select s cx snap task now =
     (case filter_candidates s cx snap task now of
        (s1, ps) \<Rightarrow>
          (case sort_key (\<lambda>p. - smart_score s1 cx task p) ps of
             [] \<Rightarrow> (s1, Inl (no_provider task))
           | p # rest \<Rightarrow> (s1, Inr ((chosen p task ''smart'')\<lparr>sl_eligible := map pv_id (p # rest)\<rparr>))))"

definition rank_candidates :: "string \<Rightarrow> (routed_provider \<Rightarrow> rat) \<Rightarrow> routed_provider list \<Rightarrow> routed_provider list" where
  "rank_candidates strategy score ps =
     (let ranked = sort_key (\<lambda>p. - score p) (sort_key (\<lambda>p. - pv_priority p) ps) in
      if strategy = ''local_first'' then sort_key (\<lambda>p. \<not> pv_local p) ranked
      else if strategy = ''cost'' then sort_key pv_requires_key ranked
      else ranked)"

definition explicit_gate :: "selector \<Rightarrow> route_context \<Rightarrow> snapshot option \<Rightarrow> routed_provider \<Rightarrow> string \<Rightarrow> availability \<Rightarrow> string option" where
  "explicit_gate s cx snap p mdl a =
     (if \<not> av_ok a then Some (av_reason a)
      else
        (case hard_gate s cx snap p mdl of
           Some g \<Rightarrow> Some g
         | None \<Rightarrow>
             if pv_local p \<and> \<not> hardware_allows cx p then Some ''hardware_incompatible''
             else if below_minimum s cx p then Some ''tier_below_minimum'' else None))"

definition select_explicit :: "selector \<Rightarrow> route_context \<Rightarrow> snapshot option \<Rightarrow> task_type \<Rightarrow> rat \<Rightarrow> string \<Rightarrow> string option
    \<Rightarrow> selector \<times> selection result" where
  "select_explicit s cx snap task now pid mdl =
     (case map_of (se_providers s) pid of
        None \<Rightarrow> (s, Inl (ValueError (''Explicit provider '' @ quoted pid @ '' not found'')))
      | Some p \<Rightarrow>
          if task \<notin> set (pv_tasks p)
          then (s, Inl (ValueError (''Provider '' @ quoted pid @ '' does not support task type '' @ quoted (task_value task))))
          else
            (let m = (case given mdl of Some x \<Rightarrow> x | None \<Rightarrow> pv_model p);
                 (s1, a) = provider_availability s pid False now
             in (s1, Inr \<lparr>sl_provider = pid, sl_model = m, sl_task = task, sl_strategy = ''explicit'',
                       sl_blocked = given (explicit_gate s1 cx snap p m a), sl_rejected = None, sl_eligible = []\<rparr>)))"

definition try_preferred :: "selector \<Rightarrow> route_context \<Rightarrow> snapshot option \<Rightarrow> task_type \<Rightarrow> rat
    \<Rightarrow> selector \<times> (selection + string option)" where
  \<comment> \<open>the choice, or why the preferred provider is none\<close>
  "try_preferred s cx snap task now =
     (case given (se_preferred s) of
        None \<Rightarrow> (s, Inr None)
      | Some pid \<Rightarrow>
          (case map_of (se_providers s) pid of
             None \<Rightarrow> (s, Inr None)
           | Some p \<Rightarrow>
               if task \<notin> set (pv_tasks p) then (s, Inr None)
               else
                 (let (s1, a) = provider_availability s pid False now; g = hard_gate s1 cx snap p (pv_model p) in
                  if av_ok a \<and> g = None \<and> hardware_allows cx p
                  then (s1, Inl ((chosen p task ''preferred'')\<lparr>sl_provider := pid\<rparr>))
                  else (s1, Inr (Some (case g of Some r \<Rightarrow> r | None \<Rightarrow> av_reason a))))))"

definition select_ranked :: "selector \<Rightarrow> route_context \<Rightarrow> snapshot option \<Rightarrow> task_type \<Rightarrow> rat \<Rightarrow> string option
    \<Rightarrow> selector \<times> selection result" where
  "select_ranked s cx snap task now rejected =
     (case filter_candidates s cx snap task now of
        (s1, ps) \<Rightarrow>
          (case rank_candidates (se_strategy s1) (resource_score s1 cx snap) ps of
             [] \<Rightarrow>
               (case select_from_registry s1 task of
                  Some d \<Rightarrow> (s1, Inr d) | None \<Rightarrow> (s1, Inl (no_provider task)))
           | p # rest \<Rightarrow>
               (s1, Inr ((chosen p task (se_strategy s1))\<lparr>sl_rejected := rejected, sl_eligible := map pv_id (p # rest)\<rparr>))))"

definition select_provider :: "selector \<Rightarrow> route_context \<Rightarrow> snapshot option \<Rightarrow> snapshot option \<Rightarrow> task_type \<Rightarrow> rat
    \<Rightarrow> string option \<Rightarrow> string option \<Rightarrow> selector \<times> selection result" where
  \<comment> \<open>the second snapshot is the one that the smart strategy takes for itself\<close>
  "select_provider s cx snap snap2 task now pid mdl =
     (if rx_mode cx = Some ''deterministic''
      then (s, Inr \<lparr>sl_provider = ''deterministic'', sl_model = ''deterministic'', sl_task = task,
               sl_strategy = ''deterministic'', sl_blocked = None, sl_rejected = None, sl_eligible = []\<rparr>)
      else
        (case given pid of
           Some i \<Rightarrow> select_explicit s cx snap task now i mdl
         | None \<Rightarrow>
             (case try_preferred s cx snap task now of
                (s1, Inl d) \<Rightarrow> (s1, Inr d)
              | (s1, Inr rejected) \<Rightarrow>
                  if se_strategy s1 = ''smart'' then smart_select s1 cx snap2 task now
                  else select_ranked s1 cx snap task now rejected)))"

definition select_all :: "selector \<Rightarrow> route_context \<Rightarrow> snapshot option \<Rightarrow> task_type \<Rightarrow> rat \<Rightarrow> selector \<times> selection list" where
  "select_all s cx snap task now =
     (case filter_candidates s cx snap task now of
        (s1, ps) \<Rightarrow>
          (s1, map (\<lambda>p. chosen p task (se_strategy s1))
            (if se_strategy s1 = ''smart''
             then sort_key (\<lambda>p. - (of_int (pv_priority p) + (if high_load cx then (if pv_local p then -5 else 10) else 0) :: rat)) ps
             else if se_strategy s1 = ''local_first'' then sort_key (\<lambda>p. \<not> pv_local p) (sort_key (\<lambda>p. - pv_priority p) ps)
             else if se_strategy s1 = ''cost'' then sort_key pv_requires_key (sort_key (\<lambda>p. - pv_priority p) ps)
             else sort_key (\<lambda>p. - pv_priority p) ps)))"


section \<open>What a selection guarantees\<close>

lemma availability_keeps [simp]:
  "se_providers (fst (provider_availability s pid r now)) = se_providers s"
  "se_strategy (fst (provider_availability s pid r now)) = se_strategy s"
  "se_registry (fst (provider_availability s pid r now)) = se_registry s"
  "se_prices (fst (provider_availability s pid r now)) = se_prices s"
  "se_offline_mode (fst (provider_availability s pid r now)) = se_offline_mode s"
  "se_online (fst (provider_availability s pid r now)) = se_online s"
  "se_task_caps (fst (provider_availability s pid r now)) = se_task_caps s"
  by (simp_all add: provider_availability_def Let_def split: option.split)

lemma offline_keeps [simp]:
  "se_providers (fst (is_offline s)) = se_providers s" "se_strategy (fst (is_offline s)) = se_strategy s"
  "se_registry (fst (is_offline s)) = se_registry s" "se_prices (fst (is_offline s)) = se_prices s"
  "se_offline_mode (fst (is_offline s)) = se_offline_mode s" "se_online (fst (is_offline s)) = se_online s"
  "se_task_caps (fst (is_offline s)) = se_task_caps s"
  by (simp_all add: is_offline_def split: option.split)

lemma gate_same:
  "se_prices s = se_prices s' \<Longrightarrow> hard_gate s cx snap p mdl = hard_gate s' cx snap p mdl"
  unfolding hard_gate_def by (simp only:)

lemma minimum_same: "se_registry s = se_registry s' \<Longrightarrow> below_minimum s cx p = below_minimum s' cx p"
  unfolding below_minimum_def provider_tier_def by (simp only:)

definition offline_now :: "selector \<Rightarrow> bool" where
  "offline_now s \<longleftrightarrow> snd (is_offline s)"

definition passes_gates :: "selector \<Rightarrow> route_context \<Rightarrow> snapshot option \<Rightarrow> task_type \<Rightarrow> routed_provider \<Rightarrow> bool" where
  \<comment> \<open>what preferred and ranked providers have in common\<close>
  "passes_gates s cx snap task p \<longleftrightarrow>
     task \<in> set (pv_tasks p) \<and> hardware_allows cx p \<and> hard_gate s cx snap p (pv_model p) = None"

definition within_budget :: "selector \<Rightarrow> snapshot option \<Rightarrow> routed_provider \<Rightarrow> bool" where
  "within_budget s snap p \<longleftrightarrow>
     (case snap of None \<Rightarrow> True
      | Some sn \<Rightarrow> sn_has_budget sn \<and> se_prices s
          \<longrightarrow> get_model_price (pv_id p) (pv_model p) \<le> max 0 (sn_budget sn))"

lemma gates_explained:
  assumes "passes_gates s cx snap task p"
  shows "(rx_cloud_denied cx \<longrightarrow> pv_local p) \<and> (pv_local p \<or> within_budget s snap p)"
  using assms
  by (auto simp: passes_gates_def hard_gate_def within_budget_def Let_def split: option.splits if_splits)

definition full_candidate :: "selector \<Rightarrow> route_context \<Rightarrow> snapshot option \<Rightarrow> task_type \<Rightarrow> routed_provider \<Rightarrow> bool" where
  "full_candidate s cx snap task p \<longleftrightarrow>
     passes_gates s cx snap task p \<and> (offline_now s \<longrightarrow> pv_local p) \<and> \<not> below_minimum s cx p"

lemma filter_providers_keeps:
  "filter_providers cx snap offline task now ps s = (s', qs) \<Longrightarrow>
     se_providers s' = se_providers s \<and> se_strategy s' = se_strategy s \<and> se_registry s' = se_registry s
     \<and> se_prices s' = se_prices s \<and> se_task_caps s' = se_task_caps s"
proof (induction ps arbitrary: s s' qs)
  case (Cons p ps)
  show ?case
  proof (cases "task \<in> set (pv_tasks p)")
    case True
    obtain s1 a where a: "provider_availability s (pv_id p) False now = (s1, a)" by fastforce
    obtain s2 rest where r: "filter_providers cx snap offline task now ps s1 = (s2, rest)" by fastforce
    have "s' = s2" using Cons.prems True a r by (simp split: if_splits)
    moreover have "se_providers s1 = se_providers s \<and> se_strategy s1 = se_strategy s \<and> se_registry s1 = se_registry s
        \<and> se_prices s1 = se_prices s \<and> se_task_caps s1 = se_task_caps s"
      using availability_keeps [of s "pv_id p" False now] by (simp add: a)
    ultimately show ?thesis using Cons.IH [OF r] by simp
  qed (use Cons in simp)
qed simp

lemma filter_providers_sound:
  "filter_providers cx snap offline task now ps s = (s', qs) \<Longrightarrow> q \<in> set qs \<Longrightarrow>
     q \<in> set ps \<and> passes_gates s cx snap task q \<and> (offline \<longrightarrow> pv_local q) \<and> \<not> below_minimum s cx q"
proof (induction ps arbitrary: s s' qs)
  case (Cons p ps)
  show ?case
  proof (cases "task \<in> set (pv_tasks p)")
    case True
    obtain s1 a where a: "provider_availability s (pv_id p) False now = (s1, a)" by fastforce
    obtain s2 rest where r: "filter_providers cx snap offline task now ps s1 = (s2, rest)" by fastforce
    have same: "se_registry s1 = se_registry s" "se_prices s1 = se_prices s"
      using availability_keeps [of s "pv_id p" False now] by (simp_all add: a)
    have g: "hard_gate s1 cx snap = hard_gate s cx snap" "below_minimum s1 cx = below_minimum s cx"
      by (intro ext gate_same minimum_same same)+
    from Cons.prems True a r consider "q \<in> set rest" | "q = p" "\<not> candidate_rejection s1 cx snap offline task a p"
      by (auto split: if_splits)
    then show ?thesis
    proof cases
      case 1
      from Cons.IH [OF r 1] show ?thesis by (simp add: passes_gates_def g)
    next
      case 2
      then show ?thesis by (auto simp: candidate_rejection_def passes_gates_def g)
    qed
  qed (use Cons in auto)
qed simp

lemma candidates_sound:
  assumes "filter_candidates s cx snap task now = (s', qs)" and "q \<in> set qs"
  shows "q \<in> set (map snd (se_providers s)) \<and> full_candidate s cx snap task q"
proof -
  let ?s1 = "fst (is_offline s)"
  have f: "filter_providers cx snap (snd (is_offline s)) task now (map snd (se_providers s)) ?s1 = (s', qs)"
    using assms(1) by (simp add: filter_candidates_def Let_def case_prod_beta')
  have g: "hard_gate ?s1 cx snap = hard_gate s cx snap" "below_minimum ?s1 cx = below_minimum s cx"
    by (intro ext gate_same minimum_same offline_keeps)+
  from filter_providers_sound [OF f assms(2)] show ?thesis
    by (simp add: full_candidate_def offline_now_def passes_gates_def g)
qed

lemma candidates_keep:
  "filter_candidates s cx snap task now = (s', qs) \<Longrightarrow> se_providers s' = se_providers s \<and> se_strategy s' = se_strategy s
     \<and> se_registry s' = se_registry s \<and> se_task_caps s' = se_task_caps s"
  using filter_providers_keeps [of cx snap "snd (is_offline s)" task now "map snd (se_providers s)" "fst (is_offline s)" s' qs]
  by (simp add: filter_candidates_def Let_def case_prod_beta')

lemma set_rank_candidates [simp]: "set (rank_candidates strategy score ps) = set ps"
  by (simp add: rank_candidates_def Let_def)









lemma registry_same:
  "se_registry s' = se_registry s \<Longrightarrow> se_strategy s' = se_strategy s \<Longrightarrow> se_task_caps s' = se_task_caps s \<Longrightarrow>
     select_from_registry s' task = select_from_registry s task"
  unfolding select_from_registry_def select_by_capability_def by (simp only:)



lemma head_sort_key:
  assumes "sort_key f xs = y # ys"
  shows "\<forall>x \<in> set xs. f y \<le> f x"
proof -
  have "sorted (map f (y # ys))" using sorted_sort_key [of f xs] by (simp add: assms)
  moreover have "set xs = insert y (set ys)" using assms by (metis list.simps(15) set_sort)
  ultimately show ?thesis by auto
qed

lemma head_sort_key_twice:
  assumes "sort_key f (sort_key g xs) = y # ys"
  shows "\<forall>x \<in> set xs. f y \<le> f x \<and> (f x = f y \<longrightarrow> g y \<le> g x)"
proof -
  have f: "\<forall>x \<in> set xs. f y \<le> f x" using head_sort_key [OF assms] by simp
  have "filter (\<lambda>x. f x = f y) (y # ys) = filter (\<lambda>x. f x = f y) (sort_key g xs)"
    using sort_key_stable [of f "f y" "sort_key g xs"] by (simp add: assms)
  also have "\<dots> = sort_key g (filter (\<lambda>x. f x = f y) xs)" by (rule filter_sort)
  finally have "sort_key g (filter (\<lambda>x. f x = f y) xs) = y # filter (\<lambda>x. f x = f y) ys" by simp
  from head_sort_key [OF this] f show ?thesis by auto
qed

text \<open>
  Without a special strategy the chosen candidate has the highest resource score, and the highest priority among
  those with that score.
\<close>

theorem ranked_choice_is_best:
  assumes "filter_candidates s cx snap task now = (s1, ps)" and "p \<in> set ps" and "pv_id p = sl_provider d"
    and "select_ranked s cx snap task now rej = (s', Inr d)" and "se_strategy s \<notin> {''local_first'', ''cost''}"
    and "inj_on pv_id (set ps)" and "q \<in> set ps"
  shows "resource_score s1 cx snap q \<le> resource_score s1 cx snap p
    \<and> (resource_score s1 cx snap q = resource_score s1 cx snap p \<longrightarrow> pv_priority q \<le> pv_priority p)"
proof -
  let ?score = "resource_score s1 cx snap"
  have st: "se_strategy s1 \<notin> {''local_first'', ''cost''}" using assms(5) candidates_keep [OF assms(1)] by simp
  have r: "rank_candidates (se_strategy s1) ?score ps
      = sort_key (\<lambda>p. - ?score p) (sort_key (\<lambda>p. - pv_priority p) ps)"
    using st by (simp add: rank_candidates_def Let_def)
  have "set (rank_candidates (se_strategy s1) ?score ps) = set ps" by simp
  with assms(2) obtain h rest where h: "rank_candidates (se_strategy s1) ?score ps = h # rest"
    by (cases "rank_candidates (se_strategy s1) ?score ps") auto
  have "sl_provider d = pv_id h" using assms(1,4) h by (auto simp: select_ranked_def chosen_def)
  moreover have "h \<in> set ps" using h [THEN arg_cong [where f = set]] by auto
  ultimately have "h = p" using assms(2,3,6) by (auto dest: inj_onD)
  with head_sort_key_twice [OF h [unfolded r]] assms(7) show ?thesis by auto
qed


section \<open>Choices past the gates\<close>

definition remote_provider :: routed_provider where
  "remote_provider =
     \<lparr>pv_id = ''p'', pv_name = ''P'', pv_tasks = [REASONING], pv_requires_key = True, pv_local = False, pv_model = ''m'',
      pv_priority = 10, pv_chain = [], pv_hardware = \<lparr>hw_memory = None, hw_cores = None\<rparr>\<rparr>"

definition sample_selector :: selector where
  "sample_selector =
     \<lparr>se_providers = [(''p'', remote_provider)], se_strategy = ''priority'', se_preferred = None, se_ttl = 15, se_cache = [],
      se_task_caps = [(REASONING, [''reasoning''])],
      se_registry = Some [(''m'', big_model\<lparr>md_status := MODEL_AVAILABLE\<rparr>)], se_prices = False, se_feedback = None,
      se_ranking = None, se_performance = None, se_online = None, se_offline_mode = ''auto'', se_offline_reason = None,
      se_keys = [(''p'', ''k'')], se_checker = None\<rparr>"

definition open_context :: route_context where
  "open_context =
     \<lparr>rx_cloud_denied = False, rx_prefers_local = False, rx_level = None, rx_hardware = None, rx_minimum = None,
      rx_mode = None, rx_cpu = 50, rx_memory = 50, rx_battery = None\<rparr>"

text \<open>
  C25: The way over the registry goes past the privacy gate: outside the deterministic mode, a request that
  denies the cloud and names no provider, to a selector that knows only remote providers and only remote models, with no
  preferred provider and no smart strategy, is not refused: when some registered model is available with the
  capabilities of the task, a remote model is chosen for it, and the decision is not marked as blocked.
\<close>

theorem denied_cloud_routed_remote:
  assumes "rx_cloud_denied cx" and "rx_mode cx \<noteq> Some ''deterministic''"
    and "given (se_preferred s) = None" and "se_strategy s \<noteq> ''smart''"
    and "\<forall>(k, p) \<in> set (se_providers s). \<not> pv_local p"
    and "se_registry s = Some reg" and "\<forall>(k, m) \<in> set reg. \<not> md_local m"
    and "dict_get (se_task_caps s) task [] \<noteq> []"
    and "Model_Tiers.find_candidates reg (dict_get (se_task_caps s) task []) \<noteq> []"
  shows "\<exists>d k m. snd (select_provider s cx snap snap2 task now None mdl) = Inr d \<and> (k, m) \<in> set reg \<and> \<not> md_local m
    \<and> sl_provider d = md_provider m \<and> sl_model d = md_id m \<and> sl_blocked d = None"
proof -
  let ?caps = "dict_get (se_task_caps s) task []"
  obtain s1 ps where f: "filter_candidates s cx snap task now = (s1, ps)" by fastforce
  have "q \<notin> set ps" for q
  proof
    assume "q \<in> set ps"
    from candidates_sound [OF f this] have "q \<in> set (map snd (se_providers s))" "passes_gates s cx snap task q"
      by (simp_all add: full_candidate_def)
    with gates_explained [OF this(2)] assms(1,5) show False by auto
  qed
  then have "ps = []" by (cases ps) auto
  note f = f [unfolded this]
  have n: "rank_candidates st sc [] = []" for st sc by (simp add: rank_candidates_def)
  have p: "try_preferred s cx snap task now = (s, Inr None)" using assms(3) by (simp add: try_preferred_def)
  have "set (sort_models (se_strategy s) (Model_Tiers.find_candidates reg ?caps)) = set (Model_Tiers.find_candidates reg ?caps)"
    by (simp add: sort_models_def local_then_cost_def cost_then_remote_def)
  then obtain m ms where m: "sort_models (se_strategy s) (Model_Tiers.find_candidates reg ?caps) = m # ms"
    "m \<in> set (Model_Tiers.find_candidates reg ?caps)"
    using assms(9) by (metis list.exhaust list.set_intros(1) set_empty)
  from m(2) obtain k where k: "(k, m) \<in> set reg" by (auto simp: Model_Tiers.find_candidates_def list_available_def)
  obtain d where d: "select_from_registry s task = Some d" "sl_provider d = md_provider m" "sl_model d = md_id m" "sl_blocked d = None"
    using assms(6,8) m(1) by (cases ?caps) (auto simp: select_from_registry_def select_by_capability_def)
  have r: "select_from_registry s1 task = select_from_registry s task"
    using candidates_keep [OF f] by (intro registry_same) simp_all
  have g: "given None = None" by (simp add: given_def)
  have "snd (select_provider s cx snap snap2 task now None mdl) = Inr d"
    unfolding select_provider_def g p option.case prod.case sum.case if_not_P [OF assms(4)] if_not_P [OF assms(2)]
    using d(1) by (simp add: select_ranked_def f r n)
  with d k assms(7) show ?thesis by blast
qed

theorem denied_cloud_routed_remote_witness:
  "\<exists>d k m. snd (select_provider sample_selector (open_context\<lparr>rx_cloud_denied := True\<rparr>) None None REASONING 0 None None) = Inr d
     \<and> (k, m) \<in> set [(''m'', big_model\<lparr>md_status := MODEL_AVAILABLE\<rparr>)] \<and> \<not> md_local m
     \<and> sl_provider d = md_provider m \<and> sl_model d = md_id m \<and> sl_blocked d = None"
proof -
  let ?caps = "dict_get (se_task_caps sample_selector) REASONING []"
  have reg: "se_registry sample_selector = Some [(''m'', big_model\<lparr>md_status := MODEL_AVAILABLE\<rparr>)]" by (simp add: sample_selector_def)
  have caps: "?caps \<noteq> []" "Model_Tiers.find_candidates [(''m'', big_model\<lparr>md_status := MODEL_AVAILABLE\<rparr>)] ?caps \<noteq> []"
    by code_simp+
  show ?thesis
    by (rule denied_cloud_routed_remote [OF _ _ _ _ _ reg _ caps])
      (simp_all add: sample_selector_def open_context_def given_def big_model_def remote_provider_def)
qed

text \<open>A preferred provider is used although the offline mode is forced.\<close>

lemma preferred_ignores_offline:
  "case snd (select_provider (sample_selector\<lparr>se_preferred := Some ''p'', se_offline_mode := ''force_local''\<rparr>) open_context
       None None REASONING 0 None None) of
     Inr d \<Rightarrow> sl_provider d = ''p'' \<and> sl_blocked d = None \<and> \<not> pv_local remote_provider | Inl e \<Rightarrow> False"
  by (simp add: select_provider_def try_preferred_def given_def sample_selector_def open_context_def remote_provider_def
      provider_availability_def fresh_availability_def has_api_key_def hard_gate_def hardware_allows_def chosen_def Let_def)

lemma sample_ranked:
  "filter_candidates sample_selector open_context None REASONING 0
     = (sample_selector\<lparr>se_cache := [(''p'', \<lparr>av_provider = ''p'', av_ok = True, av_reason = ''api_key_configured'', av_checked = 0\<rparr>)]\<rparr>,
        [remote_provider])"
  by (simp add: filter_candidates_def is_offline_def sample_selector_def open_context_def remote_provider_def below_minimum_def
      provider_availability_def fresh_availability_def has_api_key_def candidate_rejection_def hard_gate_def hardware_allows_def Let_def)

lemma sample_ranked_choice:
  "\<exists>s' d. select_ranked sample_selector open_context None REASONING 0 None = (s', Inr d) \<and> sl_provider d = ''p''
     \<and> sl_strategy d = ''priority''"
  unfolding select_ranked_def sample_ranked prod.case
  by (simp add: rank_candidates_def Let_def chosen_def remote_provider_def sample_selector_def)

theorem ranked_choice_is_best_witness:
  "\<exists>s1. resource_score s1 open_context None remote_provider \<le> resource_score s1 open_context None remote_provider"
proof -
  obtain s' d where d: "select_ranked sample_selector open_context None REASONING 0 None = (s', Inr d)" "sl_provider d = ''p''"
    using sample_ranked_choice by blast
  from ranked_choice_is_best [OF sample_ranked _ _ d(1)] d(2) show ?thesis
    by (auto simp: remote_provider_def sample_selector_def)
qed


end
