(* ===== verification/Path_Guard.thy ===== *)
theory Path_Guard
  imports Argument_Validator Py_Text
begin

text \<open>
  The guard of file paths, \<open>sidecar/modules/security/path_guardian.py\<close> and \<open>path_policy.py\<close>, on Windows: what
  \<open>ntpath\<close> (Python 3.12) does to a path, the tables of allowed, blocked and sensitive names, and the checks in the order
  of the code. What depends on the machine is an argument: the expansion of \<open>~\<close> and of variables, the working directory,
  the targets of links and which paths exist. Only the last component of a path is looked at for a link, as in the code.
\<close>

section \<open>Paths\<close>

record os_env =
  oe_expand :: "string \<Rightarrow> string"
  oe_abspath :: "string \<Rightarrow> string"
  oe_link :: "string \<Rightarrow> string option"

text \<open>\<open>expandvars\<close> after \<open>expanduser\<close>; \<open>abspath\<close>; the text of a link, when the path is a link that can be read.\<close>

definition split_root :: "string \<Rightarrow> string \<times> string \<times> string" where
  \<comment> \<open>\<open>splitroot\<close> of a path with both separators\<close>
  "split_root p =
     (let (d, r, t) = splitroot (to_backslashes p)
      in (take (length d) p, take (length r) (drop (length d) p), drop (length d + length r) p))"

definition is_sep :: "char \<Rightarrow> bool" where
  "is_sep c \<longleftrightarrow> c = sep \<or> c = CHR ''/''"

definition basename :: "string \<Rightarrow> string" where
  "basename p = (let (d, r, t) = split_root p in rev (takeWhile (\<lambda>c. \<not> is_sep c) (rev t)))"

definition dirname :: "string \<Rightarrow> string" where
  "dirname p =
     (let (d, r, t) = split_root p
      in d @ r @ rev (dropWhile is_sep (dropWhile (\<lambda>c. \<not> is_sep c) (rev t))))"

definition join_path :: "string \<Rightarrow> string \<Rightarrow> string" where
  "join_path a b =
     (let (d1, r1, t1) = split_root a; (d2, r2, t2) = split_root b;
          onto = (\<lambda>d. let t = t1 @ (if t1 \<noteq> [] \<and> \<not> is_sep (last t1) then [sep] else []) @ t2
            in if t \<noteq> [] \<and> r1 = [] \<and> d \<noteq> [] \<and> \<not> is_sep (last d) \<and> last d \<noteq> CHR '':'' then d @ [sep] @ t else d @ r1 @ t)
      in if r2 \<noteq> [] then (if d2 \<noteq> [] \<or> d1 = [] then d2 else d1) @ r2 @ t2
         else if d2 \<noteq> [] \<and> d2 \<noteq> d1 then (if lower d2 \<noteq> lower d1 then d2 @ r2 @ t2 else onto d2)
         else onto d1)"

fun norm_step :: "string \<Rightarrow> string list \<Rightarrow> string \<Rightarrow> string list" where
  \<comment> \<open>a component on top of the components so far, the last one first\<close>
  "norm_step rt stack c =
     (if c = [] \<or> c = ''.'' then stack
      else if c = ''..'' then
        (case stack of
           s # st \<Rightarrow> if s \<noteq> ''..'' then st else c # stack
         | [] \<Rightarrow> if rt \<noteq> [] then [] else [c])
      else c # stack)"

definition norm_components :: "string \<Rightarrow> string \<Rightarrow> string list" where
  "norm_components rt rel = rev (foldl (norm_step rt) [] (split_on sep rel))"

definition normpath :: "string \<Rightarrow> string" where
  "normpath p =
     (let (d, r, t) = splitroot (to_backslashes p); comps = norm_components r t
      in if d @ r = [] \<and> comps = [] then ''.'' else d @ r @ join [sep] comps)"

definition isabs :: "string \<Rightarrow> bool" where
  "isabs p = (let s = to_backslashes (take 3 p) in prefix [sep] s \<or> prefix ('':'' @ [sep]) (drop 1 s))"

definition normalize :: "os_env \<Rightarrow> string \<Rightarrow> string" where
  "normalize env p = (let n = normpath (oe_expand env p) in if isabs n then n else oe_abspath env n)"

definition resolve_symlink :: "os_env \<Rightarrow> string \<Rightarrow> string" where
  "resolve_symlink env p =
     (case oe_link env p of
        None \<Rightarrow> p
      | Some t \<Rightarrow>
          (let t1 = (if prefix (win ''//?/'') t then drop 4 t else t)
           in normpath (if isabs t1 then t1 else oe_abspath env (join_path (dirname p) t1))))"


section \<open>The tables\<close>

definition allowed_paths :: "string list" where
  "allowed_paths =
     map win [''C:/'', ''%USERPROFILE%'', ''%USERPROFILE%/Documents'', ''%USERPROFILE%/Downloads'', ''%USERPROFILE%/Desktop'',
       ''%USERPROFILE%/Pictures'', ''%USERPROFILE%/Music'', ''%USERPROFILE%/Videos'', ''%USERPROFILE%/.aivo'', ''%TEMP%'']"

definition blocked_paths :: "string list" where
  "blocked_paths =
     map win [''C:/Windows'', ''C:/Windows/System32'', ''C:/Program Files'', ''C:/Program Files (x86)'',
       ''C:/System Volume Information'', ''C:/$Recycle.Bin'', ''C:/Boot'', ''C:/Recovery'']"

definition sensitive_names :: "string list" where
  "sensitive_names =
     map win [''.ssh'', ''.id_rsa'', ''.id_ecdsa'', ''.id_ed25519'', ''.pem'', ''.key'', ''.credentials'', ''.env'', ''id_rsa'',
       ''id_ecdsa'', ''id_ed25519'', ''config/*credentials*'', ''config/*secret*'', ''config/*token*'', ''.gitconfig'', ''.netrc'',
       ''.pgpass'', ''aws/credentials'', ''.aws/credentials'', ''gcloud/application_default_credentials.json'',
       ''.config/gcloud'']"

definition get_allowed_paths :: "os_env \<Rightarrow> string list" where
  "get_allowed_paths env = map (\<lambda>p. oe_expand env (to_backslashes p)) allowed_paths"

definition get_blocked_paths :: "os_env \<Rightarrow> string list" where
  "get_blocked_paths env = map (\<lambda>p. oe_expand env (to_backslashes p)) blocked_paths"

definition name_matches :: "string \<Rightarrow> string \<Rightarrow> bool" where
  "name_matches name pattern =
     (let l = lower name; p = to_backslashes pattern in
      prefix ''.'' p \<and> (l = lower p \<or> suffix (lower p) l)
      \<or> (case split_sub ([sep] @ ''*'') p of None \<Rightarrow> False | Some (a, b) \<Rightarrow> prefix (lower a) l \<and> suffix (lower b) l)
      \<or> sublist (lower p) l)"

definition is_sensitive_filename :: "string \<Rightarrow> string option" where
  "is_sensitive_filename name = find (name_matches name) sensitive_names"

definition beneath :: "string \<Rightarrow> string \<Rightarrow> bool" where
  \<comment> \<open>the test of both tables: the entry itself or something below it, case aside\<close>
  "beneath entry p =
     (let l = lower p; e = lower entry in l = e \<or> prefix (e @ [sep]) l \<or> prefix (e @ ''/'') l)"

definition path_matches_blocked :: "os_env \<Rightarrow> string \<Rightarrow> string option" where
  "path_matches_blocked env p = find (\<lambda>b. beneath b p) (get_blocked_paths env)"

definition path_is_within_allowed :: "os_env \<Rightarrow> string \<Rightarrow> bool" where
  "path_is_within_allowed env p = list_ex (\<lambda>a. beneath a p) (get_allowed_paths env)"


section \<open>The guard\<close>

record path_result =
  vr_allowed :: bool
  vr_reason :: string
  vr_risk :: string
  vr_path :: string

definition guard_deny :: "string \<Rightarrow> string \<Rightarrow> string \<Rightarrow> path_result" where
  "guard_deny reason risk p = \<lparr>vr_allowed = False, vr_reason = reason, vr_risk = risk, vr_path = p\<rparr>"

definition guard_allow :: "string \<Rightarrow> string \<Rightarrow> path_result" where
  "guard_allow p risk = \<lparr>vr_allowed = True, vr_reason = [], vr_risk = risk, vr_path = p\<rparr>"

definition max_path_length :: nat where
  "max_path_length = 260"

definition has_traversal :: "string \<Rightarrow> bool" where
  \<comment> \<open>the regular expression adds a last component that ends in a line feed\<close>
  "has_traversal p =
     (let parts = split_on sep (to_backslashes p) in ''..'' \<in> set parts \<or> last parts = ''..'' @ [CHR 0x0A])"

definition check_sensitive :: "string \<Rightarrow> string option" where
  "check_sensitive p =
     (case is_sensitive_filename (basename p) of
        Some q \<Rightarrow> Some (''File matches sensitive pattern: '' @ quoted q)
      | None \<Rightarrow>
          (case List.map_filter is_sensitive_filename (split_on sep p) of
             q # _ \<Rightarrow> Some (''Path component matches sensitive pattern: '' @ quoted q)
           | [] \<Rightarrow> None))"

definition assess_path_risk :: "string \<Rightarrow> string \<Rightarrow> string" where
  "assess_path_risk op p =
     (if op = ''delete'' then ''high''
      else if op = ''write'' then
        (if list_ex (\<lambda>k. sublist k (lower p)) [''boot'', ''system'', ''config''] then ''high'' else ''medium'')
      else ''low'')"

definition guard_path :: "os_env \<Rightarrow> (string \<Rightarrow> bool) \<Rightarrow> string \<Rightarrow> string \<Rightarrow> path_result" where
  \<comment> \<open>\<open>_validate\<close>: the machine, the existing paths, the path and the operation\<close>
  "guard_path env ex p op =
     (if blank p then guard_deny ''Path is empty'' ''medium'' []
      else if max_path_length < length p
      then guard_deny (''Path exceeds max length ('' @ nat_str (length p) @ '' > '' @ nat_str max_path_length @ '')'') ''medium'' []
      else if has_traversal p then guard_deny ''Path traversal detected'' ''high'' (normalize env p)
      else
        (let n = normalize env p; t = resolve_symlink env n in
         case check_sensitive n of
           Some r \<Rightarrow> guard_deny r ''critical'' n
         | None \<Rightarrow>
             (case path_matches_blocked env n of
                Some b \<Rightarrow> guard_deny (''Path is blocked: matches '' @ quoted b) ''critical'' n
              | None \<Rightarrow>
                  (case if t \<noteq> n then path_matches_blocked env t else None of
                     Some b \<Rightarrow> guard_deny (''Symlink target blocked: '' @ quoted t @ '' matches '' @ quoted b) ''critical'' n
                   | None \<Rightarrow>
                       if op \<in> {''write'', ''delete''} \<and> \<not> path_is_within_allowed env n
                          \<and> \<not> (t \<noteq> n \<and> path_is_within_allowed env t)
                       then guard_deny (''Path outside allowed directories for '' @ op) ''high'' n
                       else if \<not> ex n \<and> op \<notin> {''write'', ''resolve''}
                       then guard_deny (''Path does not exist: '' @ n) ''low'' n
                       else guard_allow n (assess_path_risk op n)))))"

definition validate_read :: "os_env \<Rightarrow> (string \<Rightarrow> bool) \<Rightarrow> string \<Rightarrow> path_result" where
  "validate_read env ex p = guard_path env ex p ''read''"

definition validate_write :: "os_env \<Rightarrow> (string \<Rightarrow> bool) \<Rightarrow> string \<Rightarrow> path_result" where
  "validate_write env ex p = guard_path env ex p ''write''"

definition validate_delete :: "os_env \<Rightarrow> (string \<Rightarrow> bool) \<Rightarrow> string \<Rightarrow> path_result" where
  "validate_delete env ex p = guard_path env ex p ''delete''"

definition validate_open :: "os_env \<Rightarrow> (string \<Rightarrow> bool) \<Rightarrow> string \<Rightarrow> path_result" where
  "validate_open env ex p = guard_path env ex p ''open''"

definition validate_search :: "os_env \<Rightarrow> string \<Rightarrow> path_result" where
  "validate_search env p =
     (if blank p then guard_deny ''Search root path is empty'' ''medium'' []
      else
        (let n = normalize env p in
         case path_matches_blocked env n of
           Some b \<Rightarrow> guard_deny (''Search root blocked: matches '' @ quoted b) ''critical'' n
         | None \<Rightarrow> guard_allow n ''low''))"

definition guard_resolve :: "os_env \<Rightarrow> (string \<Rightarrow> bool) \<Rightarrow> string \<Rightarrow> string result" where
  "guard_resolve env ex p =
     (let r = guard_path env ex p ''resolve'' in if vr_allowed r then Inr (vr_path r) else Inl (AnyException (vr_reason r)))"


section \<open>What is allowed\<close>

definition live_names :: "string list" where
  "live_names =
     [''.ssh'', ''.id_rsa'', ''.id_ecdsa'', ''.id_ed25519'', ''.pem'', ''.key'', ''.credentials'', ''.env'', ''id_rsa'',
      ''id_ecdsa'', ''id_ed25519'', ''.gitconfig'', ''.netrc'', ''.pgpass'']"

definition starred_names :: "string list" where
  "starred_names = [''credentials*'', ''secret*'', ''token*'']"

definition secret_name :: "string \<Rightarrow> bool" where
  "secret_name c \<longleftrightarrow>
     (let l = lower c in
      (\<exists>q \<in> set live_names. sublist q l) \<or> (prefix ''config'' l \<and> (\<exists>q \<in> set starred_names. suffix q l)))"

lemma sep_not_lower [simp]: "sep \<in> set (lower s) \<longleftrightarrow> sep \<in> set s"
proof -
  have "sep = lower_char c \<longleftrightarrow> sep = c" for c
    using lower_char_cases [of c] by (auto simp: sep_def lower_char_def split: option.split dest!: map_of_SomeD)
  then show ?thesis by (auto simp: lower_def image_iff)
qed

definition star_patterns :: "string list" where
  "star_patterns = map win [''config/*credentials*'', ''config/*secret*'', ''config/*token*'']"

definition folder_patterns :: "string list" where
  "folder_patterns =
     map win [''aws/credentials'', ''.aws/credentials'', ''gcloud/application_default_credentials.json'', ''.config/gcloud'']"

lemma tables_split:
  "list_all (\<lambda>q. q \<in> set live_names \<or> q \<in> set star_patterns \<or> q \<in> set folder_patterns) sensitive_names"
  "list_all (\<lambda>q. q \<in> set sensitive_names) (live_names @ star_patterns)"
  "list_all (\<lambda>q. sep \<notin> set q \<and> CHR ''/'' \<notin> set q \<and> lower q = q \<and> split_sub ([sep] @ ''*'') q = None) live_names"
  "list_all (\<lambda>q. sep \<in> set q \<and> CHR ''/'' \<notin> set q \<and> split_sub ([sep] @ ''*'') q = None) folder_patterns"
  "list_all (\<lambda>q. sep \<in> set q \<and> CHR ''/'' \<notin> set q \<and> take 1 q \<noteq> ''.'') star_patterns"
  "map (split_sub ([sep] @ ''*'')) star_patterns = map (\<lambda>q. Some (''config'', q)) starred_names"
  "lower ''config'' = ''config''" "list_all (\<lambda>b. lower b = b) starred_names"
  by code_simp+

lemma backslashes_id: "CHR ''/'' \<notin> set q \<Longrightarrow> to_backslashes q = q"
  unfolding to_backslashes_def by (rule map_idI) auto

lemma sublist_sep: "sep \<in> set q \<Longrightarrow> sep \<notin> set c \<Longrightarrow> \<not> sublist (lower q) (lower c) \<and> \<not> suffix (lower q) (lower c) \<and> lower c \<noteq> lower q"
  by (metis sep_not_lower set_mono_sublist set_mono_suffix subsetD)

lemma live_matches: "q \<in> set live_names \<Longrightarrow> name_matches c q \<longleftrightarrow> sublist q (lower c)"
  using tables_split(3) by (auto simp: name_matches_def Let_def backslashes_id list_all_iff dest: suffix_imp_sublist)

lemma folder_never_matches: "q \<in> set folder_patterns \<Longrightarrow> sep \<notin> set c \<Longrightarrow> \<not> name_matches c q"
  using tables_split(4) sublist_sep by (auto simp: name_matches_def Let_def backslashes_id list_all_iff)

lemma star_matches:
  assumes "q \<in> set star_patterns" and "sep \<notin> set c"
  shows "\<exists>b \<in> set starred_names. split_sub ([sep] @ ''*'') q = Some (''config'', b)
     \<and> (name_matches c q \<longleftrightarrow> prefix ''config'' (lower c) \<and> suffix b (lower c))"
proof -
  have "split_sub ([sep] @ ''*'') q \<in> set (map (split_sub ([sep] @ ''*'')) star_patterns)"
    unfolding set_map using assms(1) by (rule imageI)
  then have "split_sub ([sep] @ ''*'') q \<in> set (map (\<lambda>q. Some (''config'', q)) starred_names)"
    unfolding tables_split(6) .
  then obtain b where b: "b \<in> set starred_names" "split_sub ([sep] @ ''*'') q = Some (''config'', b)" by auto
  then have "lower b = b" using tables_split(8) by (simp add: list_all_iff)
  moreover have "sep \<in> set q" "CHR ''/'' \<notin> set q" using assms(1) tables_split(5) by (auto simp: list_all_iff)
  ultimately show ?thesis
    using b sublist_sep [OF _ assms(2)] tables_split(7) by (auto simp: name_matches_def Let_def backslashes_id)
qed

lemma starred_pattern: "b \<in> set starred_names \<Longrightarrow> \<exists>q \<in> set star_patterns. split_sub ([sep] @ ''*'') q = Some (''config'', b)"
proof -
  assume "b \<in> set starred_names"
  then have "Some (''config'', b) \<in> set (map (split_sub ([sep] @ ''*'')) star_patterns)" unfolding tables_split(6) by simp
  then show ?thesis unfolding set_map by (auto simp del: split_sub.simps)
qed

lemma sensitive_iff:
  assumes "sep \<notin> set c"
  shows "is_sensitive_filename c \<noteq> None \<longleftrightarrow> secret_name c"
proof -
  have "is_sensitive_filename c \<noteq> None \<longleftrightarrow> (\<exists>q \<in> set sensitive_names. name_matches c q)"
    by (auto simp: is_sensitive_filename_def find_None_iff)
  also have "\<dots> \<longleftrightarrow> (\<exists>q \<in> set live_names. name_matches c q) \<or> (\<exists>q \<in> set star_patterns. name_matches c q)"
    using tables_split(1,2) folder_never_matches [OF _ assms] by (auto simp: list_all_iff)
  also have "(\<exists>q \<in> set live_names. name_matches c q) \<longleftrightarrow> (\<exists>q \<in> set live_names. sublist q (lower c))"
    using live_matches by blast
  also have "(\<exists>q \<in> set star_patterns. name_matches c q)
      \<longleftrightarrow> prefix ''config'' (lower c) \<and> (\<exists>b \<in> set starred_names. suffix b (lower c))" (is "?l \<longleftrightarrow> ?r")
  proof
    assume ?l
    then show ?r using star_matches [OF _ assms] by metis
  next
    assume r: ?r
    then obtain b where b: "b \<in> set starred_names" "suffix b (lower c)" by blast
    then obtain q where q: "q \<in> set star_patterns" "split_sub ([sep] @ ''*'') q = Some (''config'', b)"
      using starred_pattern by blast
    with star_matches [OF q(1) assms] b r show ?l by auto
  qed
  finally show ?thesis by (simp add: secret_name_def Let_def)
qed

lemma split_on_nonempty [simp]: "split_on c s \<noteq> []"
  by (induction s) (auto split: list.split)

lemma split_on_absent: "w \<in> set (split_on c s) \<Longrightarrow> c \<notin> set w"
  by (induction s arbitrary: w) (auto split: if_splits list.splits)

lemma basename_absent: "sep \<notin> set (basename p)"
  by (auto simp: basename_def is_sep_def dest: set_takeWhileD split: prod.split)

lemma map_filter_Nil_iff: "List.map_filter f xs = [] \<longleftrightarrow> (\<forall>x \<in> set xs. f x = None)"
  by (induction xs) (auto simp: map_filter_simps split: option.split)

lemma check_sensitive_iff:
  "check_sensitive p \<noteq> None \<longleftrightarrow> (\<exists>c \<in> set (basename p # split_on sep p). secret_name c)"
proof -
  have "check_sensitive p \<noteq> None
      \<longleftrightarrow> is_sensitive_filename (basename p) \<noteq> None \<or> List.map_filter is_sensitive_filename (split_on sep p) \<noteq> []"
    by (simp add: check_sensitive_def split: option.split list.split)
  also have "\<dots> \<longleftrightarrow> (\<exists>c \<in> set (basename p # split_on sep p). is_sensitive_filename c \<noteq> None)"
    by (simp add: map_filter_Nil_iff)
  also have "\<dots> \<longleftrightarrow> (\<exists>c \<in> set (basename p # split_on sep p). secret_name c)"
  proof -
    have "sep \<notin> set c" if "c \<in> set (basename p # split_on sep p)" for c
      using that basename_absent split_on_absent by auto
    then show ?thesis using sensitive_iff by blast
  qed
  finally show ?thesis .
qed

lemma blocked_iff: "path_matches_blocked env p \<noteq> None \<longleftrightarrow> (\<exists>b \<in> set (get_blocked_paths env). beneath b p)"
  by (auto simp: path_matches_blocked_def find_None_iff)

lemma within_iff: "path_is_within_allowed env p \<longleftrightarrow> (\<exists>a \<in> set (get_allowed_paths env). beneath a p)"
  by (simp add: path_is_within_allowed_def list_ex_iff)

lemma guard_result [simp]:
  "vr_allowed (guard_deny r k p) = False" "vr_allowed (guard_allow p k) = True" "vr_path (guard_allow p k) = p"
  by (simp_all add: guard_deny_def guard_allow_def)

text \<open>
  C37: The guard allows a path exactly when it is not blank, at most 260 characters long and without a component \<open>..\<close>, when
  no component of the normalized path has a secret name, neither it nor the target of its link is a blocked folder or
  below one, when for a change one of the two is below an allowed folder, and when it exists unless it is to be written
  or resolved.
\<close>

theorem guard_allows_exactly:
  defines "n \<equiv> \<lambda>env p. normalize env p"
  shows "vr_allowed (guard_path env ex p op) \<longleftrightarrow>
    \<not> blank p \<and> length p \<le> max_path_length \<and> \<not> has_traversal p
    \<and> (\<forall>c \<in> set (basename (n env p) # split_on sep (n env p)). \<not> secret_name c)
    \<and> (\<forall>b \<in> set (get_blocked_paths env). \<not> beneath b (n env p) \<and> \<not> beneath b (resolve_symlink env (n env p)))
    \<and> (op \<in> {''write'', ''delete''} \<longrightarrow>
         (\<exists>a \<in> set (get_allowed_paths env). beneath a (n env p) \<or> beneath a (resolve_symlink env (n env p))))
    \<and> (ex (n env p) \<or> op \<in> {''write'', ''resolve''})"
proof -
  have secret: "(\<forall>c \<in> set (basename p # split_on sep p). \<not> secret_name c) \<longleftrightarrow> check_sensitive p = None" for p
    using check_sensitive_iff by blast
  have blocked: "(\<forall>b \<in> set (get_blocked_paths env). \<not> beneath b p \<and> \<not> beneath b q)
      \<longleftrightarrow> path_matches_blocked env p = None \<and> path_matches_blocked env q = None" for p q
    using blocked_iff by blast
  have within: "(\<exists>a \<in> set (get_allowed_paths env). beneath a p \<or> beneath a q)
      \<longleftrightarrow> path_is_within_allowed env p \<or> path_is_within_allowed env q" for p q
    using within_iff by blast
  define m t where "m = normalize env p" and "t = resolve_symlink env m"
  show ?thesis
    unfolding n_def secret blocked within guard_path_def Let_def m_def [symmetric] t_def [symmetric]
    by (cases "check_sensitive m"; cases "path_matches_blocked env m"; cases "path_matches_blocked env t"; cases "t = m")
      simp_all
qed

definition plain_env :: os_env where
  \<comment> \<open>nothing to expand, no links\<close>
  "plain_env = \<lparr>oe_expand = (\<lambda>p. p), oe_abspath = (\<lambda>p. p), oe_link = (\<lambda>p. None)\<rparr>"

definition temp_env :: os_env where
  "temp_env = plain_env\<lparr>oe_expand := (\<lambda>p. if p = ''%TEMP%'' then win ''C:/Temp'' else p)\<rparr>"

lemma temp_file:
  "normalize temp_env (win ''c:/temp/./a.txt'') = win ''c:/temp/a.txt''"
  "list_all (\<lambda>c. \<not> secret_name c) (basename (win ''c:/temp/a.txt'') # split_on sep (win ''c:/temp/a.txt''))"
  "\<not> has_traversal (win ''c:/temp/./a.txt'')" "\<not> blank (win ''c:/temp/./a.txt'')"
  "list_all (\<lambda>b. \<not> beneath b (win ''c:/temp/a.txt'')) (get_blocked_paths temp_env)"
  "list_ex (\<lambda>b. beneath b (win ''c:/temp/a.txt'')) (get_allowed_paths temp_env)"
  "resolve_symlink temp_env (win ''c:/temp/a.txt'') = win ''c:/temp/a.txt''"
  by code_simp+

theorem guard_allows_exactly_witness:
  "vr_allowed (guard_path temp_env (\<lambda>p. True) (win ''c:/temp/./a.txt'') ''delete'')"
proof -
  have "length (win ''c:/temp/./a.txt'') \<le> max_path_length" by (simp add: win_def max_path_length_def)
  then show ?thesis
    unfolding guard_allows_exactly using temp_file by (simp add: list_all_iff list_ex_iff)
qed

text \<open>A path with a root is normalized to components that are neither empty nor dots.\<close>

lemma norm_step_clean:
  assumes "rt \<noteq> []" and "\<forall>c \<in> set st. c \<notin> {[], ''.'', ''..''} \<and> sep \<notin> set c" and "sep \<notin> set x"
  shows "\<forall>c \<in> set (norm_step rt st x). c \<notin> {[], ''.'', ''..''} \<and> sep \<notin> set c"
  using assms by (cases st) auto

lemma norm_components_clean:
  assumes "rt \<noteq> []" and "c \<in> set (norm_components rt rel)"
  shows "c \<notin> {[], ''.'', ''..''} \<and> sep \<notin> set c"
proof -
  have "\<forall>c \<in> set (foldl (norm_step rt) st xs). c \<notin> {[], ''.'', ''..''} \<and> sep \<notin> set c"
    if "\<forall>c \<in> set st. c \<notin> {[], ''.'', ''..''} \<and> sep \<notin> set c" and "\<forall>x \<in> set xs. sep \<notin> set x" for st xs
    using that
  proof (induction xs arbitrary: st)
    case (Cons x xs)
    have "\<forall>c \<in> set (norm_step rt st x). c \<notin> {[], ''.'', ''..''} \<and> sep \<notin> set c"
      using Cons.prems(2) by (intro norm_step_clean [OF assms(1) Cons.prems(1)]) simp
    from Cons.IH [OF this] Cons.prems(2) show ?case by (simp del: norm_step.simps)
  qed simp
  from this [of "[]" "split_on sep rel"] assms(2) show ?thesis
    using split_on_absent by (auto simp: norm_components_def)
qed

lemma split_on_join:
  "xs \<noteq> [] \<Longrightarrow> \<forall>x \<in> set xs. c \<notin> set x \<Longrightarrow> split_on c (join [c] xs) = xs"
proof (induction xs)
  case (Cons x xs)
  have *: "c \<notin> set w \<Longrightarrow> split_on c w = [w]" for w by (induction w) auto
  have **: "c \<notin> set w \<Longrightarrow> split_on c (w @ c # v) = w # split_on c v" for w v by (induction w) auto
  show ?case using Cons * ** by (cases xs) auto
qed simp

text \<open>
  After the normalization of a path with a root, whatever the expansion of variables has put into it, no component
  is empty, \<open>.\<close> or \<open>..\<close>.
\<close>

theorem normalized_without_dots:
  assumes "splitroot (to_backslashes p) = (d, rt, t)" and "rt \<noteq> []"
  shows "\<exists>cs. normpath p = d @ rt @ join [sep] cs \<and> (\<forall>c \<in> set cs. c \<notin> {[], ''.'', ''..''} \<and> sep \<notin> set c)
    \<and> (cs \<noteq> [] \<longrightarrow> split_on sep (join [sep] cs) = cs)"
proof -
  have clean: "\<forall>c \<in> set (norm_components rt t). c \<notin> {[], ''.'', ''..''} \<and> sep \<notin> set c"
    using norm_components_clean [OF assms(2)] by blast
  then have "norm_components rt t \<noteq> [] \<longrightarrow> split_on sep (join [sep] (norm_components rt t)) = norm_components rt t"
    using split_on_join by blast
  with clean assms show ?thesis
    by (intro exI [of _ "norm_components rt t"]) (simp add: normpath_def)
qed

theorem normalized_without_dots_witness:
  "\<exists>cs. normpath (win ''C:/a/../b/./c'') = win ''C:/'' @ join [sep] cs \<and> (\<forall>c \<in> set cs. c \<notin> {[], ''.'', ''..''})"
proof -
  have "splitroot (to_backslashes (win ''C:/a/../b/./c'')) = (''C:'', [sep], win ''a/../b/./c'')" by code_simp
  from normalized_without_dots [OF this] show ?thesis by (auto simp: win_def sep_def)
qed

text \<open>
  Patterns that name a folder and a file are compared with single components and never match: the credentials of cloud
  services are readable. The entry for the root of the drive covers nothing below it.
\<close>

lemma cloud_credentials_readable:
  "\<forall>p \<in> set (map win [''C:/Users/u/.aws/credentials'', ''C:/Users/u/.config/gcloud/application_default_credentials.json'',
       ''C:/Users/u/app/config/secrets.json'']). check_sensitive p = None"
proof -
  have "list_all (\<lambda>p. list_all (\<lambda>c. \<not> secret_name c) (basename p # split_on sep p))
     (map win [''C:/Users/u/.aws/credentials'', ''C:/Users/u/.config/gcloud/application_default_credentials.json'',
       ''C:/Users/u/app/config/secrets.json''])" by code_simp
  then show ?thesis using check_sensitive_iff unfolding list_all_iff by blast
qed

lemma root_entry_covers_itself:
  "beneath (win ''C:/'') (win ''C:/'') \<and> \<not> beneath (win ''C:/'') (win ''C:/data.txt'')"
  by code_simp

lemma harmless_names_denied: "check_sensitive (win ''C:/Users/u/monkey.keynote'') \<noteq> None"
  by code_simp

end
