(* ===== verification/File_Service.thy ===== *)
theory File_Service
  imports Path_Guard Hardening
begin

text \<open>
  The tools of \<open>sidecar/services/filesystem_service.py\<close> over a small file system, with the snapshots of
  \<open>sentinel/security/resource_identity.py\<close> by which a copy notices a file that changes under it.

  The file system maps the identity of an entry (what the system resolves its path to, but for a link at its end,
  \<open>oe_real\<close>) to a node; \<open>oe_denied\<close> lists the identities the process has no access to. A node may be a symbolic link, which
  names the identity it leads to; opening, copying and \<open>stat\<close> follow it, \<open>lstat\<close> and removing do not. Texts are lists of
  bytes, a node says whether it is valid UTF-8, and times are nanoseconds. What other processes do while a copy runs is an
  argument: what happens before the second snapshot of the source, between it and the copy, and after the copy; the
  checks of the copy read both files at one moment. What \<open>readlink\<close> tells the guard (\<open>oe_link\<close>) does not change. The
  results are the dictionaries of the code.
\<close>

section \<open>The file system\<close>

record fs_node =
  nd_folder :: bool
  nd_data :: string
  nd_utf8 :: bool
  nd_mtime :: int
  nd_ctime :: int
  nd_id :: nat
  nd_link :: "string option"

record audit_entry =
  au_action :: string
  au_path :: string
  au_normalized :: string
  au_risk :: string
  au_status :: string
  au_user :: pyval

record file_world =
  fw_nodes :: "(string \<times> fs_node) list"
  fw_next :: nat
  fw_clock :: int
  fw_log :: "audit_entry list"

record fs_env = os_env +
  oe_user :: "string \<Rightarrow> string"
  oe_real :: "string \<Rightarrow> string"
  oe_denied :: "string list"
  oe_temp :: string
  oe_audit :: bool
  oe_hash :: "string \<Rightarrow> string"

datatype io_error = Denied_Access | Missing_File | Other_Error string

definition entry_at :: "'a fs_env_scheme \<Rightarrow> file_world \<Rightarrow> string \<Rightarrow> fs_node option" where
  \<comment> \<open>\<open>lstat\<close>\<close>
  "entry_at env w p = map_of (fw_nodes w) (oe_real env p)"

definition leads_to :: "'a fs_env_scheme \<Rightarrow> file_world \<Rightarrow> string \<Rightarrow> string" where
  \<comment> \<open>the identity that a path leads to when a link is followed\<close>
  "leads_to env w p =
     (case entry_at env w p of
        None \<Rightarrow> oe_real env p
      | Some n \<Rightarrow> (case nd_link n of None \<Rightarrow> oe_real env p | Some t \<Rightarrow> t))"

definition node_at :: "'a fs_env_scheme \<Rightarrow> file_world \<Rightarrow> string \<Rightarrow> fs_node option" where
  "node_at env w p = map_of (fw_nodes w) (leads_to env w p)"

definition path_exists :: "'a fs_env_scheme \<Rightarrow> file_world \<Rightarrow> string \<Rightarrow> bool" where
  "path_exists env w p \<longleftrightarrow> node_at env w p \<noteq> None"

definition is_file :: "'a fs_env_scheme \<Rightarrow> file_world \<Rightarrow> string \<Rightarrow> bool" where
  "is_file env w p \<longleftrightarrow> (case node_at env w p of None \<Rightarrow> False | Some n \<Rightarrow> \<not> nd_folder n)"

definition is_folder :: "'a fs_env_scheme \<Rightarrow> file_world \<Rightarrow> string \<Rightarrow> bool" where
  "is_folder env w p \<longleftrightarrow> (case node_at env w p of None \<Rightarrow> False | Some n \<Rightarrow> nd_folder n)"

definition open_read :: "'a fs_env_scheme \<Rightarrow> file_world \<Rightarrow> string \<Rightarrow> io_error + fs_node" where
  "open_read env w p =
     (case node_at env w p of
        None \<Rightarrow> Inl Missing_File
      | Some n \<Rightarrow> if leads_to env w p \<in> set (oe_denied env) \<or> nd_folder n then Inl Denied_Access else Inr n)"

definition put_file :: "'a fs_env_scheme \<Rightarrow> file_world \<Rightarrow> string \<Rightarrow> string \<Rightarrow> bool \<Rightarrow> int \<Rightarrow> io_error + file_world" where
  \<comment> \<open>open for writing, truncate and write; a new file needs its folder\<close>
  "put_file env w p bytes utf8 mtime =
     (let i = leads_to env w p in
      if i \<in> set (oe_denied env) then Inl Denied_Access
      else
        (case map_of (fw_nodes w) i of
           Some n \<Rightarrow>
             if nd_folder n then Inl Denied_Access
             else Inr (w\<lparr>fw_nodes := AList.update i (n\<lparr>nd_data := bytes, nd_utf8 := utf8, nd_mtime := mtime\<rparr>) (fw_nodes w)\<rparr>)
         | None \<Rightarrow>
             if is_folder env w (dirname (if i = oe_real env p then p else i))
             then Inr (w\<lparr>fw_nodes := AList.update i \<lparr>nd_folder = False, nd_data = bytes, nd_utf8 = utf8, nd_mtime = mtime,
                        nd_ctime = fw_clock w, nd_id = fw_next w, nd_link = None\<rparr> (fw_nodes w), fw_next := Suc (fw_next w)\<rparr>)
             else Inl Missing_File))"

definition remove_file :: "'a fs_env_scheme \<Rightarrow> file_world \<Rightarrow> string \<Rightarrow> io_error + file_world" where
  \<comment> \<open>\<open>os.remove\<close> removes the entry itself, a link rather than what it leads to\<close>
  "remove_file env w p =
     (case entry_at env w p of
        None \<Rightarrow> Inl Missing_File
      | Some n \<Rightarrow>
          if oe_real env p \<in> set (oe_denied env) \<or> nd_folder n then Inl Denied_Access
          else Inr (w\<lparr>fw_nodes := AList.delete (oe_real env p) (fw_nodes w)\<rparr>))"

definition copy_target :: "'a fs_env_scheme \<Rightarrow> file_world \<Rightarrow> string \<Rightarrow> string \<Rightarrow> string" where
  "copy_target env w src dst = (if is_folder env w dst then join_path dst (basename src) else dst)"

definition copy2 :: "'a fs_env_scheme \<Rightarrow> file_world \<Rightarrow> string \<Rightarrow> string \<Rightarrow> io_error + file_world" where
  "copy2 env w src dst =
     (let d = copy_target env w src dst in
      if path_exists env w src \<and> leads_to env w src = leads_to env w d then Inl (Other_Error ''SameFileError'')
      else
        (case open_read env w src of
           Inl e \<Rightarrow> Inl e
         | Inr n \<Rightarrow> put_file env w d (nd_data n) (nd_utf8 n) (nd_mtime n)))"

text \<open>Text files: line ends are translated both ways.\<close>

fun read_newlines :: "string \<Rightarrow> string" where
  "read_newlines [] = []"
| "read_newlines (c # cs) =
     (if c = CHR 0x0D
      then CHR 0x0A # (case cs of d # ds \<Rightarrow> if d = CHR 0x0A then read_newlines ds else read_newlines cs | [] \<Rightarrow> [])
      else c # read_newlines cs)"

definition write_newlines :: "string \<Rightarrow> string" where
  "write_newlines s = concat (map (\<lambda>c. if c = CHR 0x0A then [CHR 0x0D, CHR 0x0A] else [c]) s)"

definition read_text :: "'a fs_env_scheme \<Rightarrow> file_world \<Rightarrow> string \<Rightarrow> io_error + string" where
  "read_text env w p =
     (case open_read env w p of
        Inl e \<Rightarrow> Inl e
      | Inr n \<Rightarrow> if nd_utf8 n then Inr (read_newlines (nd_data n)) else Inl (Other_Error ''UnicodeDecodeError''))"

definition write_text :: "'a fs_env_scheme \<Rightarrow> file_world \<Rightarrow> string \<Rightarrow> string \<Rightarrow> io_error + file_world" where
  "write_text env w p s = put_file env w p (write_newlines s) True (fw_clock w)"


section \<open>Errors and the audit log\<close>

datatype fs_error =
    Http_Error nat string
  | Path_Error string string string
  | Raised string


definition resolve_auth :: "pyval \<Rightarrow> params" where
  "resolve_auth auth =
     (let default = [(''user_id'', PStr ''local''), (''client_id'', PStr ''unknown''), (''level'', PStr ''confirm'')] in
      case auth of
        PNone \<Rightarrow> default
      | PDict d \<Rightarrow> d
      | PObj i c a \<Rightarrow>
          [(''user_id'', dict_get a ''user_id'' (PStr ''local'')), (''client_id'', dict_get a ''client_id'' (PStr ''unknown'')),
           (''level'', PStr ''confirm'')]
      | _ \<Rightarrow> default)"

definition fs_log :: "'a fs_env_scheme \<Rightarrow> string \<Rightarrow> string \<Rightarrow> path_result \<Rightarrow> params \<Rightarrow> string \<Rightarrow> file_world \<Rightarrow> file_world" where
  "fs_log env op original r auth status w =
     (if oe_audit env
      then w\<lparr>fw_log := fw_log w @ [\<lparr>au_action = ''filesystem.'' @ op, au_path = original, au_normalized = vr_path r,
              au_risk = vr_risk r, au_status = status, au_user = dict_get auth ''user_id'' (PStr ''?'')\<rparr>]\<rparr>
      else w)"

definition guard_of :: "'a fs_env_scheme \<Rightarrow> os_env" where
  "guard_of env = \<lparr>oe_expand = oe_expand env, oe_abspath = oe_abspath env, oe_link = oe_link env\<rparr>"

definition check_read :: "'a fs_env_scheme \<Rightarrow> file_world \<Rightarrow> string \<Rightarrow> path_result" where
  "check_read env w p = validate_read (guard_of env) (path_exists env w) p"

definition check_write :: "'a fs_env_scheme \<Rightarrow> file_world \<Rightarrow> string \<Rightarrow> path_result" where
  "check_write env w p = validate_write (guard_of env) (path_exists env w) p"

definition refuse :: "'a fs_env_scheme \<Rightarrow> string \<Rightarrow> string \<Rightarrow> path_result \<Rightarrow> params \<Rightarrow> file_world \<Rightarrow> file_world \<times> (fs_error + 'b)" where
  "refuse env op p r auth w = (fs_log env op p r auth ''blocked'' w, Inl (Path_Error (vr_reason r) p (vr_risk r)))"

definition fail_io :: "'a fs_env_scheme \<Rightarrow> string \<Rightarrow> string \<Rightarrow> string \<Rightarrow> path_result \<Rightarrow> params \<Rightarrow> string \<Rightarrow> io_error \<Rightarrow> file_world
    \<Rightarrow> file_world \<times> (fs_error + 'b)" where
  \<comment> \<open>the handlers of \<open>PermissionError\<close> and of everything else; the first text is what was denied\<close>
  "fail_io env op p denied r auth target e w =
     (case e of
        Denied_Access \<Rightarrow> (fs_log env op p r auth ''denied'' w, Inl (Http_Error 403 (denied @ target)))
      | Missing_File \<Rightarrow> (fs_log env op p r auth ''error'' w, Inl (Http_Error 500 ''No such file or directory''))
      | Other_Error m \<Rightarrow> (fs_log env op p r auth ''error'' w, Inl (Http_Error 500 m)))"

definition max_write_size :: nat where "max_write_size = 5242880"
definition max_hash_size :: nat where "max_hash_size = 262144000"
definition max_search_depth :: nat where "max_search_depth = 8"
definition max_search_results :: nat where "max_search_results = 500"


section \<open>Reading and writing\<close>


definition write_file :: "'a fs_env_scheme \<Rightarrow> string \<Rightarrow> string \<Rightarrow> pyval \<Rightarrow> file_world \<Rightarrow> file_world \<times> (fs_error + pyval)" where
  "write_file env p content auth0 w =
     (let auth = resolve_auth auth0; r = check_write env w p; q = vr_path r in
      if \<not> vr_allowed r then refuse env ''write'' p r auth w
      else if max_write_size < length content
      then (fs_log env ''write'' p r auth ''too_large'' w,
            Inl (Http_Error 413 (''Content too large ('' @ nat_str (length content) @ '' > '' @ nat_str max_write_size @ '' bytes)'')))
      else
        (let original = (if is_file env w q then (case read_text env w q of Inl e \<Rightarrow> None | Inr s \<Rightarrow> Some s) else None) in
         case write_text env w q content of
           Inl e \<Rightarrow> fail_io env ''write'' p ''Access denied: '' r auth q e w
         | Inr w1 \<Rightarrow> (fs_log env ''write'' p r auth ''success'' w1,
             Inr (PDict ([(''path'', PStr q), (''size'', PInt (int (length content)))]
               @ (case original of None \<Rightarrow> [] | Some s \<Rightarrow> [(''original_content'', PStr s)]))))))"

definition undo_write :: "'a fs_env_scheme \<Rightarrow> string \<Rightarrow> string \<Rightarrow> pyval \<Rightarrow> file_world \<Rightarrow> file_world \<times> (fs_error + pyval)" where
  "undo_write env p original auth0 w =
     (let auth = resolve_auth auth0; r = check_write env w p; q = vr_path r in
      if \<not> vr_allowed r then refuse env ''undo_write'' p r auth w
      else
        (case write_text env w q original of
           Inl e \<Rightarrow> fail_io env ''undo_write'' p ''Access denied: '' r auth q e w
         | Inr w1 \<Rightarrow> (fs_log env ''undo_write'' p r auth ''success'' w1,
             Inr (PDict [(''path'', PStr q), (''restored'', PBool True), (''size'', PInt (int (length original)))]))))"

section \<open>Folders\<close>




definition entries_of :: "'a fs_env_scheme \<Rightarrow> file_world \<Rightarrow> string \<Rightarrow> (string \<times> fs_node) list" where
  \<comment> \<open>names and nodes in a folder, whose identities are the paths below its own\<close>
  "entries_of env w p =
     map (\<lambda>(i, n). (basename i, n)) (filter (\<lambda>(i, n). dirname i = leads_to env w p \<and> i \<noteq> leads_to env w p) (fw_nodes w))"

definition followed :: "file_world \<Rightarrow> fs_node \<Rightarrow> fs_node option" where
  \<comment> \<open>\<open>stat\<close> of an entry\<close>
  "followed w n = (case nd_link n of None \<Rightarrow> Some n | Some t \<Rightarrow> map_of (fw_nodes w) t)"

definition is_dir_entry :: "file_world \<Rightarrow> fs_node \<Rightarrow> bool" where
  "is_dir_entry w n = (case followed w n of None \<Rightarrow> False | Some m \<Rightarrow> nd_folder m)"

definition scan_folder :: "'a fs_env_scheme \<Rightarrow> file_world \<Rightarrow> string \<Rightarrow> io_error + (string \<times> fs_node) list" where
  "scan_folder env w p =
     (case node_at env w p of
        None \<Rightarrow> Inl Missing_File
      | Some n \<Rightarrow>
          if leads_to env w p \<in> set (oe_denied env) then Inl Denied_Access
          else if \<not> nd_folder n then Inl (Other_Error ''NotADirectoryError'') else Inr (entries_of env w p))"


record found_file =
  ff_name :: string
  ff_path :: string
  ff_node :: fs_node

definition query_matches :: "string \<Rightarrow> string \<Rightarrow> bool" where
  "query_matches q name =
     (if CHR ''*'' \<in> set q \<or> CHR ''?'' \<in> set q then fnmatch Windows (lower name) (lower q) else sublist (lower q) (lower name))"

fun add_found :: "string \<Rightarrow> string \<Rightarrow> (string \<times> fs_node option) list \<Rightarrow> found_file list \<Rightarrow> found_file list \<times> bool" where
  \<comment> \<open>the files of one folder and what they lead to; whether the search ends here\<close>
  "add_found q dir [] acc = (acc, False)"
| "add_found q dir ((name, n) # rest) acc =
     (let acc1 = (case n of
                    Some m \<Rightarrow> if query_matches q name
                      then acc @ [\<lparr>ff_name = name, ff_path = join_path dir name, ff_node = m\<rparr>] else acc
                  | None \<Rightarrow> acc)
      in if max_search_results \<le> length acc1 then (acc1, True) else add_found q dir rest acc1)"

definition visible :: "string \<Rightarrow> bool" where
  "visible d \<longleftrightarrow> \<not> prefix ''.'' d \<and> \<not> prefix ''$'' d"

fun search_dir :: "nat \<Rightarrow> 'a fs_env_scheme \<Rightarrow> file_world \<Rightarrow> string \<Rightarrow> string \<Rightarrow> found_file list \<times> bool \<Rightarrow> found_file list \<times> bool" where
  \<comment> \<open>\<open>os.walk\<close> from above, as many levels deep; folders that cannot be read are passed over, links to folders are not
    followed\<close>
  "search_dir 0 env w q dir st = st"
| "search_dir (Suc n) env w q dir st =
     (case scan_folder env w dir of
        Inl e \<Rightarrow> st
      | Inr es \<Rightarrow>
          if snd st then st
          else
            foldl (\<lambda>s d. search_dir n env w q (join_path dir d) s)
              (add_found q dir (map (\<lambda>(name, m). (name, followed w m)) (filter (\<lambda>(name, m). \<not> is_dir_entry w m) es)) (fst st))
              (filter visible (map fst (filter (\<lambda>(name, m). is_dir_entry w m \<and> nd_link m = None) es))))"





section \<open>Deleting and restoring\<close>

definition backup_path :: "'a fs_env_scheme \<Rightarrow> string \<Rightarrow> fs_node \<Rightarrow> string" where
  "backup_path env p n =
     join_path (oe_temp env) (''sentinel_undo_'' @ basename p @ ''_''
       @ int_str (floor (py_round 0 (of_int (nd_mtime n) / 1000000000))))"

definition delete_file :: "'a fs_env_scheme \<Rightarrow> string \<Rightarrow> pyval \<Rightarrow> file_world \<Rightarrow> file_world \<times> (fs_error + pyval)" where
  "delete_file env p auth0 w =
     (let auth = resolve_auth auth0; r = check_write env w p; q = vr_path r in
      if \<not> vr_allowed r then refuse env ''delete'' p r auth w
      else
        (case node_at env w q of
           None \<Rightarrow> (w, Inl (Http_Error 404 (''File not found: '' @ q)))
         | Some n \<Rightarrow>
             if nd_folder n then (w, Inl (Http_Error 404 (''File not found: '' @ q)))
             else
               (let b = backup_path env q n in
                case copy2 env w q b of
                  Inl e \<Rightarrow> fail_io env ''delete'' p ''Access denied: '' r auth q e w
                | Inr w1 \<Rightarrow>
                    (case remove_file env w1 q of
                       Inl e \<Rightarrow> fail_io env ''delete'' p ''Access denied: '' r auth q e w1
                     | Inr w2 \<Rightarrow> (fs_log env ''delete'' p r auth ''success'' w2,
                         Inr (PDict [(''path'', PStr q), (''temp_path'', PStr b), (''restored'', PBool False)]))))))"

definition restore_file :: "'a fs_env_scheme \<Rightarrow> string \<Rightarrow> string \<Rightarrow> pyval \<Rightarrow> file_world \<Rightarrow> file_world \<times> (fs_error + pyval)" where
  \<comment> \<open>the guard sees only the path to restore to; the copy goes to the path as it was given\<close>
  "restore_file env temp p auth0 w =
     (let auth = resolve_auth auth0; r = check_write env w p in
      if \<not> vr_allowed r then refuse env ''restore'' p r auth w
      else if \<not> is_file env w temp then (w, Inl (Http_Error 404 (''Backup file not found: '' @ temp)))
      else
        (case copy2 env w temp p of
           Inl e \<Rightarrow> fail_io env ''restore'' p ''Access denied: '' r auth p e w
         | Inr w1 \<Rightarrow>
             (case remove_file env w1 temp of
                Inl e \<Rightarrow> fail_io env ''restore'' p ''Access denied: '' r auth p e w1
              | Inr w2 \<Rightarrow> (fs_log env ''restore'' p r auth ''success'' w2,
                  Inr (PDict [(''path'', PStr p), (''restored'', PBool True)])))))"

section \<open>Snapshots and copies\<close>

record resource_identity =
  ri_path :: string
  ri_size :: nat
  ri_mtime :: int
  ri_ctime :: int
  ri_file :: string
  ri_volume :: string
  ri_hash :: "string option"

definition is_same_identity :: "resource_identity \<Rightarrow> resource_identity \<Rightarrow> bool" where
  "is_same_identity a b \<longleftrightarrow>
     \<not> (ri_hash a \<noteq> None \<and> ri_hash b \<noteq> None \<and> ri_hash a \<noteq> ri_hash b)
     \<and> (if ri_file a \<noteq> [] \<and> ri_volume a \<noteq> [] \<and> ri_file b \<noteq> [] \<and> ri_volume b \<noteq> []
        then ri_file a = ri_file b \<and> ri_volume a = ri_volume b \<and> ri_size a = ri_size b \<and> ri_mtime a = ri_mtime b
        else ri_size a = ri_size b \<and> ri_mtime a = ri_mtime b \<and> ri_ctime a = ri_ctime b)"

definition content_hash :: "'a fs_env_scheme \<Rightarrow> file_world \<Rightarrow> string \<Rightarrow> string option" where
  "content_hash env w p =
     (case node_at env w p of
        None \<Rightarrow> None
      | Some n \<Rightarrow>
          if max_hash_size < length (nd_data n) then None
          else (case open_read env w p of Inl e \<Rightarrow> None | Inr m \<Rightarrow> Some (oe_hash env (nd_data m))))"

definition capture_identity :: "'a fs_env_scheme \<Rightarrow> file_world \<Rightarrow> string \<Rightarrow> fs_error + resource_identity" where
  \<comment> \<open>\<open>lstat\<close> raises when the file is gone and reads a link itself, the hash is of what it leads to; file and volume
    are those of one volume\<close>
  "capture_identity env w p =
     (let q = normpath (oe_abspath env (oe_expand env p)) in
      case entry_at env w q of
        None \<Rightarrow> Inl (Raised ''FileNotFoundError'')
      | Some n \<Rightarrow>
          Inr \<lparr>ri_path = q, ri_size = length (nd_data n), ri_mtime = nd_mtime n, ri_ctime = nd_ctime n,
            ri_file = nat_str (nd_id n), ri_volume = ''volume'', ri_hash = content_hash env w q\<rparr>)"

definition copy_destination :: "'a fs_env_scheme \<Rightarrow> file_world \<Rightarrow> string \<Rightarrow> string \<Rightarrow> string \<Rightarrow> bool \<Rightarrow> string" where
  \<comment> \<open>the name is appended after the guard has looked at the folder\<close>
  "copy_destination env w src dest safe is_dir =
     (if is_dir \<or> is_folder env w (oe_user env dest) then join_path safe (basename src) else safe)"

definition drop_file :: "'a fs_env_scheme \<Rightarrow> file_world \<Rightarrow> string \<Rightarrow> file_world" where
  "drop_file env w p = (case remove_file env w p of Inl e \<Rightarrow> w | Inr w1 \<Rightarrow> w1)"

definition identity_value :: "resource_identity \<Rightarrow> pyval" where
  "identity_value i =
     PDict [(''size'', PInt (int (ri_size i))), (''mtime_ns'', PInt (ri_mtime i)), (''file_id'', PStr (ri_file i)),
       (''volume_id'', PStr (ri_volume i))]"

record others =
  \<comment> \<open>what other processes do while a copy runs\<close>
  ot_check :: "file_world \<Rightarrow> file_world"
  ot_copy :: "file_world \<Rightarrow> file_world"
  ot_verify :: "file_world \<Rightarrow> file_world"

definition undisturbed :: others where
  "undisturbed = \<lparr>ot_check = id, ot_copy = id, ot_verify = id\<rparr>"

definition verify_copy :: "'a fs_env_scheme \<Rightarrow> string \<Rightarrow> string \<Rightarrow> string \<Rightarrow> path_result \<Rightarrow> params \<Rightarrow> resource_identity
    \<Rightarrow> resource_identity \<Rightarrow> file_world \<Rightarrow> file_world \<times> (fs_error + pyval)" where
  "verify_copy env p src dst r auth before now w =
     (if \<not> is_file env w dst then (w, Inl (Http_Error 500 ''Copy verification failed: destination file not created''))
      else
        (case capture_identity env w dst of
           Inl e \<Rightarrow> (w, Inl e)
         | Inr d \<Rightarrow>
             if ri_size d \<noteq> ri_size now
             then (drop_file env w dst, Inl (Http_Error 500 (''Copy verification failed: size mismatch ('' @ nat_str (ri_size d)
                     @ '' != '' @ nat_str (ri_size now) @ '')'')))
             else
               (let done_ok = (\<lambda>h. (fs_log env ''copy'' p r auth ''success'' w,
                     Inr (PDict [(''path'', PStr dst), (''name'', PStr (basename dst)), (''source'', PStr src),
                       (''source_identity'', identity_value before), (''dest_identity'', identity_value d),
                       (''size'', PInt (int (ri_size d))), (''sha256'', h), (''verification_level'', PStr ''verified'')])))
                in if max_hash_size < ri_size now then done_ok PNone
                   else
                     (case (open_read env w src, open_read env w dst) of
                        (Inr a, Inr b) \<Rightarrow>
                          if oe_hash env (nd_data a) = oe_hash env (nd_data b) then done_ok (PStr (oe_hash env (nd_data a)))
                          else (drop_file env w dst, Inl (Http_Error 500 ''Copy verification failed: hash mismatch''))
                      | _ \<Rightarrow> (w, Inl (Raised ''PermissionError''))))))"

definition copy_checked :: "'a fs_env_scheme \<Rightarrow> string \<Rightarrow> string \<Rightarrow> string \<Rightarrow> bool \<Rightarrow> path_result \<Rightarrow> params \<Rightarrow> resource_identity
    \<Rightarrow> others \<Rightarrow> file_world \<Rightarrow> file_world \<times> (fs_error + pyval)" where
  \<comment> \<open>from the checks of the destination on\<close>
  "copy_checked env p src dst overwrite r auth before ot w0 =
     (if path_exists env w0 dst \<and> \<not> overwrite
      then (w0, Inl (Http_Error 409 (''Destination already exists and overwrite is disabled: '' @ dst)))
      else if path_exists env w0 dst \<and> is_folder env w0 dst
      then (w0, Inl (Http_Error 400 (''Destination path is a directory: '' @ dst)))
      else
        (let w = ot_check ot w0 in
         case capture_identity env w src of
           Inl e \<Rightarrow> (w, Inl e)
         | Inr now \<Rightarrow>
             if \<not> is_same_identity before now
             then (fs_log env ''copy'' p r auth ''resource_changed'' w, Inl (Http_Error 409 ''resource_changed_after_approval''))
             else
               (let v = ot_copy ot w in
                case copy2 env v src dst of
                  Inl e \<Rightarrow> fail_io env ''copy'' p ''Access denied copying to '' r auth dst e v
                | Inr w1 \<Rightarrow> verify_copy env p src dst r auth before now (ot_verify ot w1))))"

definition copy_file :: "'a fs_env_scheme \<Rightarrow> string \<Rightarrow> string \<Rightarrow> pyval \<Rightarrow> bool \<Rightarrow> bool
    \<Rightarrow> others \<Rightarrow> file_world \<Rightarrow> file_world \<times> (fs_error + pyval)" where
  "copy_file env p dest auth0 is_dir overwrite ot w =
     (let auth = resolve_auth auth0; r = check_read env w p; src = vr_path r in
      if \<not> vr_allowed r then refuse env ''copy'' p r auth w
      else if \<not> is_file env w src then (w, Inl (Http_Error 404 (''Source file not found: '' @ src)))
      else
        (case capture_identity env w src of
           Inl e \<Rightarrow> (w, Inl e)
         | Inr before \<Rightarrow>
             (let d = check_write env w dest in
              if \<not> vr_allowed d then refuse env ''copy'' dest d auth w
              else copy_checked env p src (copy_destination env w src dest (vr_path d) is_dir) overwrite r auth before ot w)))"


section \<open>The tool\<close>




section \<open>What the tools change\<close>

definition node_of :: "file_world \<Rightarrow> string \<Rightarrow> fs_node option" where
  "node_of w i = map_of (fw_nodes w) i"

lemma node_at_of: "node_at env w p = node_of w (leads_to env w p)"
  by (simp add: node_at_def node_of_def)

lemma entry_at_of: "entry_at env w p = node_of w (oe_real env p)"
  by (simp add: entry_at_def node_of_def)

lemma leads_to_of:
  "leads_to env w p = (case node_of w (oe_real env p) of None \<Rightarrow> oe_real env p
     | Some n \<Rightarrow> (case nd_link n of None \<Rightarrow> oe_real env p | Some t \<Rightarrow> t))"
  by (simp add: leads_to_def entry_at_of)

lemma same_entry: "oe_real env p = oe_real env q \<Longrightarrow> leads_to env w p = leads_to env w q"
  unfolding leads_to_of by (simp only:)

lemma same_nodes: "(\<And>i. node_of w' i = node_of w i) \<Longrightarrow> leads_to env w' p = leads_to env w p"
  by (simp add: leads_to_of)

lemma log_keeps [simp]: "node_of (fs_log env op p r a st w) i = node_of w i" "node_at env (fs_log env op p r a st w) q = node_at env w q"
  "fw_clock (fs_log env op p r a st w) = fw_clock w"
  "leads_to env (fs_log env' op p r a st w) q = leads_to env w q"
  by (simp_all add: fs_log_def node_of_def node_at_def leads_to_def entry_at_def)


lemma fail_no_result [simp]: "fail_io env op p d r a t e w \<noteq> (w', Inr x)"
  by (simp add: fail_io_def split: io_error.splits)


lemma refuse_no_result [simp]: "refuse env op p r a w \<noteq> (w', Inr x)"
  by (simp add: refuse_def)

lemma put_file_keeps: "put_file env w p b u m = Inr w' \<Longrightarrow> i \<noteq> leads_to env w p \<Longrightarrow> node_of w' i = node_of w i"
  by (auto simp: put_file_def node_of_def Let_def split: if_splits option.splits)

lemma put_file_puts:
  assumes "put_file env w p b u m = Inr w'"
  shows "\<exists>n. node_of w' (leads_to env w p) = Some n \<and> \<not> nd_folder n \<and> nd_data n = b \<and> nd_utf8 n = u \<and> nd_mtime n = m"
  using assms by (auto simp: put_file_def node_of_def Let_def split: if_splits option.splits)

lemma put_file_target:
  "put_file env w p b u m = Inr w' \<Longrightarrow> leads_to env w p \<notin> set (oe_denied env)
     \<and> (\<forall>n. node_of w (leads_to env w p) = Some n \<longrightarrow> \<not> nd_folder n)"
  by (auto simp: put_file_def node_of_def Let_def split: if_splits option.splits)

text \<open>Writing a file changes no link.\<close>

lemma put_file_leads:
  assumes "put_file env w p b u m = Inr w'"
  shows "leads_to env w' q = leads_to env w q"
proof (cases "node_of w (leads_to env w p)")
  case None
  then have "node_of w' i = (if i = leads_to env w p then Some \<lparr>nd_folder = False, nd_data = b, nd_utf8 = u, nd_mtime = m,
      nd_ctime = fw_clock w, nd_id = fw_next w, nd_link = None\<rparr> else node_of w i)" for i
    using assms by (auto simp: put_file_def node_of_def Let_def split: if_splits)
  with None show ?thesis by (simp add: leads_to_of)
next
  case (Some n)
  then have "node_of w' i = (if i = leads_to env w p then Some (n\<lparr>nd_data := b, nd_utf8 := u, nd_mtime := m\<rparr>) else node_of w i)" for i
    using assms by (auto simp: put_file_def node_of_def Let_def split: if_splits)
  with Some show ?thesis by (simp add: leads_to_of)
qed

lemma put_file_link:
  assumes "put_file env w p b u m = Inr w'" and "node_of w' (leads_to env w p) = Some n"
  shows "nd_link n = (case node_of w (leads_to env w p) of None \<Rightarrow> None | Some k \<Rightarrow> nd_link k)"
  using assms by (auto simp: put_file_def node_of_def Let_def split: if_splits option.splits)

lemma remove_file_result:
  assumes "remove_file env w p = Inr w'"
  shows "node_of w' i = (if i = oe_real env p then None else node_of w i)"
    and "\<exists>n. node_of w (oe_real env p) = Some n \<and> \<not> nd_folder n"
  using assms by (auto simp: remove_file_def entry_at_of node_of_def split: option.splits if_splits)

lemma copy2_result:
  assumes "copy2 env w src dst = Inr w'"
  defines "t \<equiv> leads_to env w (copy_target env w src dst)"
  shows "i \<noteq> t \<Longrightarrow> node_of w' i = node_of w i"
    and "\<exists>n m. node_of w (leads_to env w src) = Some n \<and> node_of w' t = Some m \<and> nd_data m = nd_data n \<and> nd_utf8 m = nd_utf8 n
           \<and> nd_mtime m = nd_mtime n \<and> \<not> nd_folder m \<and> \<not> nd_folder n"
    and "t \<noteq> leads_to env w src" and "\<forall>n. node_of w t = Some n \<longrightarrow> \<not> nd_folder n"
    and "t \<notin> set (oe_denied env)" and "leads_to env w src \<notin> set (oe_denied env)"
proof -
  have ne: "\<not> (path_exists env w src \<and> leads_to env w src = leads_to env w (copy_target env w src dst))"
    using assms(1) by (auto simp: copy2_def Let_def split: if_splits)
  then obtain n where n: "open_read env w src = Inr n"
    and put: "put_file env w (copy_target env w src dst) (nd_data n) (nd_utf8 n) (nd_mtime n) = Inr w'"
    using assms(1) by (auto simp: copy2_def Let_def split: sum.splits)
  have src: "node_of w (leads_to env w src) = Some n" "\<not> nd_folder n"
    using n by (auto simp: open_read_def node_at_of split: option.splits if_splits)
  show "i \<noteq> t \<Longrightarrow> node_of w' i = node_of w i" using put_file_keeps [OF put] by (simp add: t_def)
  show "\<exists>n m. node_of w (leads_to env w src) = Some n \<and> node_of w' t = Some m \<and> nd_data m = nd_data n \<and> nd_utf8 m = nd_utf8 n
      \<and> nd_mtime m = nd_mtime n \<and> \<not> nd_folder m \<and> \<not> nd_folder n"
    using put_file_puts [OF put] src unfolding t_def by metis
  show "t \<noteq> leads_to env w src" using ne src by (auto simp: t_def path_exists_def node_at_of)
  show "\<forall>n. node_of w t = Some n \<longrightarrow> \<not> nd_folder n" "t \<notin> set (oe_denied env)"
    using put_file_target [OF put] by (simp_all add: t_def)
  show "leads_to env w src \<notin> set (oe_denied env)" using n by (auto simp: open_read_def split: option.splits if_splits)
qed

lemma copy2_puts:
  assumes "copy2 env w src dst = Inr w'"
  obtains b u m where "put_file env w (copy_target env w src dst) b u m = Inr w'"
  using assms by (auto simp: copy2_def Let_def split: if_splits sum.splits)












section \<open>Undoing\<close>

text \<open>Reading with translated line ends is undone by writing exactly for texts whose every line ends in CR LF.\<close>

lemma write_newlines_simps [simp]:
  "write_newlines [] = []"
  "write_newlines (c # cs) = (if c = CHR 0x0A then [CHR 0x0D, CHR 0x0A] else [c]) @ write_newlines cs"
  by (simp_all add: write_newlines_def)

lemma read_write_newlines: "CHR 0x0D \<notin> set s \<Longrightarrow> read_newlines (write_newlines s) = s"
  by (induction s) auto

fun windows_text :: "string \<Rightarrow> bool" where
  \<comment> \<open>every carriage return is followed by a line feed and every line feed follows one\<close>
  "windows_text [] = True"
| "windows_text (c # cs) =
     (if c = CHR 0x0A then False
      else if c = CHR 0x0D then (case cs of d # ds \<Rightarrow> d = CHR 0x0A \<and> windows_text ds | [] \<Rightarrow> False)
      else windows_text cs)"

lemma write_read_newlines: "windows_text s \<longleftrightarrow> write_newlines (read_newlines s) = s"
proof (induction s rule: windows_text.induct)
  case (2 c cs)
  then show ?case by (auto split: list.splits)
qed simp

lemma check_write_anywhere: "check_write env w p = check_write env w' p"
proof -
  have "(\<not> ex n \<and> ''write'' \<notin> {''write'', ''resolve''}) = False" for ex :: "string \<Rightarrow> bool" and n by simp
  then show ?thesis unfolding check_write_def validate_write_def guard_path_def by (simp only:)
qed

text \<open>
  A write that reports the original content is undone by writing that content: the file is the same again, provided it
  held a text whose line ends are those of Windows. Otherwise its line ends have changed.
\<close>

theorem undo_restores_text:
  assumes "write_file env p c au w = (w1, Inr (PDict d))" and "map_of d ''original_content'' = Some (PStr s)"
    and "undo_write env p s au2 w1 = (w2, y)"
  defines "q \<equiv> vr_path (check_write env w p)"
  shows "\<exists>n m. node_at env w q = Some n \<and> node_at env w2 q = Some m \<and> nd_data m = write_newlines (read_newlines (nd_data n))
    \<and> (nd_data m = nd_data n \<longleftrightarrow> windows_text (nd_data n)) \<and> (\<exists>z. y = Inr z)"
proof -
  have al: "vr_allowed (check_write env w p)" using assms(1) by (auto simp: write_file_def Let_def split: if_splits)
  obtain n where n: "node_at env w q = Some n" "\<not> nd_folder n" "nd_utf8 n" "s = read_newlines (nd_data n)"
    and w: "\<exists>v. write_text env w q c = Inr v \<and> (\<forall>i. node_of w1 i = node_of v i)"
    using assms(1,2) al
    by (auto simp: write_file_def Let_def q_def [symmetric] is_file_def read_text_def open_read_def
        split: if_splits option.splits sum.splits)
  obtain v where v: "write_text env w q c = Inr v" "\<And>i. node_of w1 i = node_of v i" using w by blast
  have lw: "leads_to env w1 q = leads_to env v q" by (rule same_nodes) (simp add: v(2))
  have put: "put_file env w q (write_newlines c) True (fw_clock w) = Inr v" using v(1) by (simp add: write_text_def)
  have lv: "leads_to env v q = leads_to env w q" by (rule put_file_leads [OF put])
  have p1: "\<exists>m. node_of w1 (leads_to env w1 q) = Some m \<and> \<not> nd_folder m" "leads_to env w1 q \<notin> set (oe_denied env)"
    using put_file_puts [OF put] put_file_target [OF put] v(2) lw lv by auto
  then obtain v2 where v2: "write_text env w1 q s = Inr v2"
    by (auto simp: write_text_def put_file_def Let_def node_of_def)
  have same: "check_write env w1 p = check_write env w p" by (rule check_write_anywhere)
  have u: "\<exists>r. w2 = fs_log env ''undo_write'' p r (resolve_auth au2) ''success'' v2" "\<exists>z. y = Inr z"
    using assms(3) al v2 by (auto simp: undo_write_def Let_def same q_def [symmetric])
  have put2: "put_file env w1 q (write_newlines s) True (fw_clock w1) = Inr v2" using v2 by (simp add: write_text_def)
  obtain m where m: "node_of v2 (leads_to env w1 q) = Some m" "nd_data m = write_newlines s"
    using put_file_puts [OF put2] by blast
  have "leads_to env w2 q = leads_to env w1 q"
    using put_file_leads [OF put2] u(1) by auto
  then have "node_at env w2 q = Some m" using u(1) m(1) by (auto simp: node_at_of)
  with n m(2) u(2) write_read_newlines [of "nd_data n"] show ?thesis by (auto simp: node_at_of)
qed

definition is_link :: "'a fs_env_scheme \<Rightarrow> file_world \<Rightarrow> string \<Rightarrow> bool" where
  "is_link env w p \<longleftrightarrow> (case entry_at env w p of None \<Rightarrow> False | Some n \<Rightarrow> nd_link n \<noteq> None)"

lemma not_link_leads: "\<not> is_link env w p \<Longrightarrow> leads_to env w p = oe_real env p"
  by (auto simp: is_link_def leads_to_def split: option.splits)

lemma plain_copy:
  assumes "copy2 env w src dst = Inr w'" and "\<not> is_folder env w dst" and "\<not> is_link env w dst"
    and "node_of w' (oe_real env dst) = Some m"
  shows "nd_link m = None"
proof -
  have t: "copy_target env w src dst = dst" using assms(2) by (simp add: copy_target_def)
  obtain b u k where "put_file env w dst b u k = Inr w'" by (rule copy2_puts [OF assms(1), unfolded t])
  from put_file_link [OF this] assms(3,4) show ?thesis
    by (auto simp: not_link_leads is_link_def entry_at_of split: option.splits)
qed

lemma folder_kept:
  assumes "is_folder env w d" and "\<not> is_folder env w b" and "ib = leads_to env w b"
    and "node_of w (leads_to env w p) = Some n" "\<not> nd_folder n" and "\<not> nd_folder e" and "node_of w (oe_real env p) = Some e"
    and one: "\<And>i. node_of w1 i = (if i = oe_real env p then None else if i = ib then Some m else node_of w i)"
    and "ib = oe_real env b"
  shows "is_folder env w1 d"
proof -
  obtain f where f: "node_of w (leads_to env w d) = Some f" "nd_folder f"
    using assms(1) by (auto simp: is_folder_def node_at_of split: option.splits)
  have b: "node_of w ib \<noteq> Some f" using assms(2,3) f(2) by (auto simp: is_folder_def node_at_of)
  have "oe_real env d \<noteq> oe_real env p" using same_entry [of env d p w] f assms(4,5) by auto
  moreover have "oe_real env d \<noteq> ib" using same_entry [of env d b w] f b assms(3,9) by auto
  ultimately have l: "leads_to env w1 d = leads_to env w d" using one [of "oe_real env d"] by (simp add: leads_to_of)
  have "leads_to env w d \<noteq> oe_real env p" "leads_to env w d \<noteq> ib" using f assms(6,7) b by auto
  with one [of "leads_to env w d"] f show ?thesis by (simp add: is_folder_def node_at_of l)
qed

text \<open>
  C39: A deleted file comes back. When the path as it was given leads to the entry that the guard's normalized path leads
  to, the backup is named with neither a folder nor a link in its place, and the parent of the path is a folder:
  restoring the backup that the deletion names puts the data, the encoding and the time of modification back at that
  path, removes the backup and touches no other entry.
\<close>

theorem deleted_file_restored:
  assumes "delete_file env p au w = (w1, Inr (PDict d))" and "map_of d ''temp_path'' = Some (PStr b)"
    and "oe_real env p = oe_real env (vr_path (check_write env w p))"
    and "\<not> is_folder env w b" and "\<not> is_link env w b" and "is_folder env w (dirname p)"
  shows "\<exists>w2 y n m. restore_file env b p au2 w1 = (w2, Inr y) \<and> node_at env w p = Some n \<and> node_at env w2 p = Some m
    \<and> nd_data m = nd_data n \<and> nd_utf8 m = nd_utf8 n \<and> nd_mtime m = nd_mtime n \<and> node_at env w2 b = None
    \<and> (\<forall>i. i \<noteq> oe_real env p \<and> i \<noteq> oe_real env b \<longrightarrow> node_of w2 i = node_of w i)"
proof -
  define q where "q = vr_path (check_write env w p)"
  define ip ib where "ip = oe_real env p" and "ib = oe_real env b"
  have q: "oe_real env q = ip" using assms(3) by (simp add: q_def ip_def)
  then have lq: "leads_to env v q = leads_to env v p" for v by (intro same_entry) (simp add: ip_def)
  have al: "vr_allowed (check_write env w p)" using assms(1) by (auto simp: delete_file_def Let_def split: if_splits)
  obtain n v1 v2 where n: "node_of w (leads_to env w p) = Some n" "\<not> nd_folder n"
    and c: "copy2 env w q b = Inr v1" and r: "remove_file env v1 q = Inr v2"
    and w1: "\<And>i. node_of w1 i = node_of v2 i"
    using assms(1,2) al
    by (auto simp: delete_file_def Let_def q_def [symmetric] node_at_of lq split: if_splits option.splits sum.splits)
  have t: "copy_target env w q b = b" using assms(4) by (simp add: copy_target_def)
  have lb: "leads_to env w b = ib" using not_link_leads [OF assms(5)] by (simp add: ib_def)
  note plain = plain_copy [OF c assms(4,5), folded ib_def]
  note c = copy2_result [OF c, unfolded t lb lq]
  obtain e where e: "node_of v1 ip = Some e" "\<not> nd_folder e" using remove_file_result(2) [OF r] by (auto simp: q)
  have denied: "ip \<notin> set (oe_denied env)" using r by (auto simp: remove_file_def q split: option.splits if_splits)
  note r = remove_file_result(1) [OF r, unfolded q]
  obtain m where m: "node_of v1 ib = Some m" "nd_data m = nd_data n" "nd_utf8 m = nd_utf8 n" "nd_mtime m = nd_mtime n"
    "\<not> nd_folder m" "nd_link m = None" using c(2) n plain by auto
  have ne: "ib \<noteq> ip" using c(3) lb same_entry [of env b p w] by (auto simp: ip_def ib_def)
  have one: "node_of w1 i = (if i = ip then None else if i = ib then Some m else node_of w i)" for i
    using w1 r c(1) m(1) by auto
  have folder: "is_folder env w1 (dirname p)"
  proof (rule folder_kept [OF assms(6) assms(4) lb [symmetric] n e(2)])
    show "node_of w (oe_real env p) = Some e" using c(1) [of ip] e(1) ne by (auto simp: ip_def)
    show "node_of w1 i = (if i = oe_real env p then None else if i = ib then Some m else node_of w i)" for i
      using one [of i] by (simp add: ip_def)
  qed (rule ib_def)
  define k where "k = \<lparr>nd_folder = False, nd_data = nd_data m, nd_utf8 = nd_utf8 m, nd_mtime = nd_mtime m,
      nd_ctime = fw_clock w1, nd_id = fw_next w1, nd_link = None\<rparr>"
  define v3 where "v3 = w1\<lparr>fw_nodes := AList.update ip k (fw_nodes w1), fw_next := Suc (fw_next w1)\<rparr>"
  define v4 where "v4 = v3\<lparr>fw_nodes := AList.delete ib (fw_nodes v3)\<rparr>"
  have v3: "node_of v3 i = (if i = ip then Some k else node_of w1 i)" for i by (simp add: v3_def node_of_def)
  have v4: "node_of v4 i = (if i = ib then None else node_of v3 i)" for i by (simp add: v4_def node_of_def)
  have lp: "leads_to env w1 p = ip" and lb1: "leads_to env w1 b = ib"
    using one [of ip] one [of ib] ne m(6) by (simp_all add: leads_to_of ip_def [symmetric] ib_def [symmetric])
  have src: "open_read env w1 b = Inr m"
    using c(5) m(5) one [of ib] ne by (simp add: open_read_def node_at_of lb1)
  have none: "map_of (fw_nodes w1) ip = None" using one [of ip] by (simp add: node_of_def)
  have copy: "copy2 env w1 b p = Inr v3"
    using ne src none folder denied
    by (simp add: copy2_def copy_target_def is_folder_def [of env w1 p] node_at_of node_of_def lp lb1
        put_file_def v3_def k_def Let_def ip_def)
  have del: "remove_file env v3 b = Inr v4"
    using v3 [of ib] one [of ib] ne m(5) c(5) by (simp add: remove_file_def entry_at_of v4_def ib_def [symmetric])
  have "is_file env w1 b" using one [of ib] ne m(5) by (simp add: is_file_def node_at_of lb1)
  moreover have "vr_allowed (check_write env w1 p)" using al check_write_anywhere by metis
  ultimately have run: "restore_file env b p au2 w1
      = (fs_log env ''restore'' p (check_write env w1 p) (resolve_auth au2) ''success'' v4,
         Inr (PDict [(''path'', PStr p), (''restored'', PBool True)]))"
    using copy del by (simp add: restore_file_def Let_def)
  have after: "node_of v4 ip = Some k" "node_of v4 ib = None" "\<forall>i. i \<noteq> ip \<and> i \<noteq> ib \<longrightarrow> node_of v4 i = node_of w i"
    using ne by (simp_all add: v4 v3 one)
  have "leads_to env v4 p = ip" "leads_to env v4 b = ib"
    using after(1,2) by (simp_all add: leads_to_of ip_def [symmetric] ib_def [symmetric] k_def)
  with after show ?thesis
    unfolding run using n m by (auto simp: node_at_of k_def ip_def ib_def)
qed

section \<open>Copies\<close>





text \<open>A source that changes between the two snapshots is never copied.\<close>

theorem changed_source_not_copied:
  assumes "copy_file env p dest au is_dir ow ot w = (w', x)"
    and "capture_identity env w (vr_path (check_read env w p)) = Inr before"
    and "capture_identity env (ot_check ot w) (vr_path (check_read env w p)) = Inr now" and "\<not> is_same_identity before now"
  shows "(\<exists>e. x = Inl e) \<and> ((\<forall>i. node_of w' i = node_of w i) \<or> (\<forall>i. node_of w' i = node_of (ot_check ot w) i))"
  using assms
  by (auto simp: copy_file_def copy_checked_def refuse_def Let_def split: if_splits)

lemma copy_succeeds:
  assumes "vr_allowed (check_read env w p)" and "vr_path (check_read env w p) = src" and "is_file env w src"
    and "vr_allowed (check_write env w dest)" and "copy_destination env w src dest (vr_path (check_write env w dest)) False = dst"
    and "\<not> path_exists env w dst"
    and "capture_identity env w src = Inr before" and "capture_identity env (ot_check ot w) src = Inr now" and "is_same_identity before now"
    and "copy2 env (ot_copy ot (ot_check ot w)) src dst = Inr v" and "is_file env (ot_verify ot v) dst"
    and "capture_identity env (ot_verify ot v) dst = Inr d" and "ri_size d = ri_size now" and "ri_size now \<le> max_hash_size"
    and "open_read env (ot_verify ot v) src = Inr n" and "open_read env (ot_verify ot v) dst = Inr m"
    and "oe_hash env (nd_data n) = oe_hash env (nd_data m)"
  shows "\<exists>w' x. copy_file env p dest au False ow ot w = (w', Inr x) \<and> node_at env w' dst = node_at env (ot_verify ot v) dst"
  using assms(1-5) assms(6-17)
  by (simp add: copy_file_def copy_checked_def verify_copy_def Let_def)


section \<open>A small machine\<close>

definition sample_fs :: fs_env where
  "sample_fs =
     \<lparr>oe_expand = (\<lambda>p. if p = ''%TEMP%'' then win ''C:/temp'' else if p = ''%USERPROFILE%'' then win ''C:/u'' else p),
      oe_abspath = (\<lambda>p. p), oe_link = (\<lambda>p. None), oe_user = (\<lambda>p. p), oe_real = (\<lambda>p. lower (normpath p)), oe_denied = [],
      oe_temp = win ''C:/temp'', oe_audit = False, oe_hash = (\<lambda>s. s)\<rparr>"

definition folder_node :: fs_node where
  "folder_node = \<lparr>nd_folder = True, nd_data = [], nd_utf8 = True, nd_mtime = 0, nd_ctime = 0, nd_id = 0, nd_link = None\<rparr>"

definition file_node :: "string \<Rightarrow> fs_node" where
  "file_node s = folder_node\<lparr>nd_folder := False, nd_data := s\<rparr>"

definition sample_world :: file_world where
  "sample_world =
     \<lparr>fw_nodes = [(win ''c:/'', folder_node), (win ''c:/temp'', folder_node), (win ''c:/u'', folder_node), (win ''c:/u/d'', folder_node),
        (win ''c:/u/a'', file_node ''one''), (win ''c:/u/d/a'', file_node ''two''), (win ''c:/windows/s'', file_node ''sys'')],
      fw_next = 1, fw_clock = 0, fw_log = []\<rparr>"

lemma sample_leads: "leads_to sample_fs sample_world (win ''C:/u/a'') = win ''c:/u/a''"
  by code_simp

lemma sample_paths:
  "vr_allowed (check_write sample_fs sample_world (win ''C:/u/a''))" "vr_path (check_write sample_fs sample_world (win ''C:/u/a'')) = win ''C:/u/a''"
  "oe_real sample_fs (win ''C:/u/a'') = win ''c:/u/a''"
  by code_simp+

definition backup_name :: string where
  "backup_name = win ''C:/temp/sentinel_undo_a_0''"

lemma sample_delete:
  "snd (delete_file sample_fs (win ''C:/u/a'') PNone sample_world)
     = Inr (PDict [(''path'', PStr (win ''C:/u/a'')), (''temp_path'', PStr backup_name), (''restored'', PBool False)])"
  "node_of (fst (delete_file sample_fs (win ''C:/u/a'') PNone sample_world)) (win ''c:/u/a'') = None"
  "node_of sample_world (win ''c:/u/a'') = Some (file_node ''one'')"
  "\<not> is_folder sample_fs sample_world backup_name" "\<not> is_link sample_fs sample_world backup_name" "is_folder sample_fs sample_world (dirname (win ''C:/u/a''))"
  by code_simp+

theorem deleted_file_restored_witness:
  "\<exists>w1 w2 y m. snd (restore_file sample_fs backup_name (win ''C:/u/a'') PNone w1) = Inr y
     \<and> node_at sample_fs w2 (win ''C:/u/a'') = Some m \<and> nd_data m = ''one''"
proof -
  obtain w1 where d: "delete_file sample_fs (win ''C:/u/a'') PNone sample_world
      = (w1, Inr (PDict [(''path'', PStr (win ''C:/u/a'')), (''temp_path'', PStr backup_name), (''restored'', PBool False)]))"
    using sample_delete(1) by (metis prod.collapse)
  have "\<exists>w2 y n m. restore_file sample_fs backup_name (win ''C:/u/a'') PNone w1 = (w2, Inr y)
      \<and> node_at sample_fs sample_world (win ''C:/u/a'') = Some n \<and> node_at sample_fs w2 (win ''C:/u/a'') = Some m
      \<and> nd_data m = nd_data n \<and> nd_utf8 m = nd_utf8 n \<and> nd_mtime m = nd_mtime n \<and> node_at sample_fs w2 backup_name = None
      \<and> (\<forall>i. i \<noteq> oe_real sample_fs (win ''C:/u/a'') \<and> i \<noteq> oe_real sample_fs backup_name \<longrightarrow> node_of w2 i = node_of sample_world i)"
    by (rule deleted_file_restored [OF d]) (simp_all add: sample_paths sample_delete)
  then obtain w2 y n m where *: "restore_file sample_fs backup_name (win ''C:/u/a'') PNone w1 = (w2, Inr y)"
    "node_at sample_fs sample_world (win ''C:/u/a'') = Some n" "node_at sample_fs w2 (win ''C:/u/a'') = Some m" "nd_data m = nd_data n"
    by blast
  have "n = file_node ''one''" using *(2) sample_delete(3) by (simp add: node_at_of sample_leads)
  with * show ?thesis by (intro exI [of _ w1] exI [of _ w2] exI [of _ y] exI [of _ m]) (simp add: file_node_def)
qed


text \<open>
  Restoring moves any file that the process can read, also one that the guard does not let read; two files of the same name
  that were changed in the same second share a backup, so the first one comes back as the second; and a copy into the root
  of the drive writes a file outside of the allowed folders.
\<close>

lemma restore_moves_protected:
  "\<not> vr_allowed (check_read sample_fs sample_world (win ''C:/Windows/s''))
   \<and> (case restore_file sample_fs (win ''C:/Windows/s'') (win ''C:/u/s'') PNone sample_world of
        (w1, x) \<Rightarrow> node_of w1 (win ''c:/windows/s'') = None \<and> map_option nd_data (node_of w1 (win ''c:/u/s'')) = Some ''sys'')"
  by code_simp

lemma backups_collide:
  "case delete_file sample_fs (win ''C:/u/a'') PNone sample_world of
     (w1, x) \<Rightarrow> (case delete_file sample_fs (win ''C:/u/d/a'') PNone w1 of
       (w2, y) \<Rightarrow> (case restore_file sample_fs backup_name (win ''C:/u/a'') PNone w2 of
         (w3, z) \<Rightarrow> map_option nd_data (node_of w3 (win ''c:/u/a'')) = Some ''two'' \<and> node_of w3 (win ''c:/u/d/a'') = None))"
  by code_simp

lemma sample_text_read:
  "read_text sample_fs sample_world (win ''C:/u/a'') = Inr ''one''" "is_file sample_fs sample_world (win ''C:/u/a'')"
  by code_simp+

theorem undo_restores_text_witness:
  "\<exists>w1 w2 y m. undo_write sample_fs (win ''C:/u/a'') ''one'' PNone w1 = (w2, y)
     \<and> node_at sample_fs w2 (win ''C:/u/a'') = Some m \<and> nd_data m = ''one''"
proof -
  have "\<exists>v. write_text sample_fs sample_world (win ''C:/u/a'') ''new'' = Inr v"
    by (simp add: write_text_def put_file_def sample_leads sample_delete(3) [unfolded node_of_def] Let_def)
      (simp add: sample_fs_def file_node_def)
  then obtain v where v: "write_text sample_fs sample_world (win ''C:/u/a'') ''new'' = Inr v" by blast
  define w1 where "w1 = fs_log sample_fs ''write'' (win ''C:/u/a'') (check_write sample_fs sample_world (win ''C:/u/a''))
      (resolve_auth PNone) ''success'' v"
  define d where "d = [(''path'', PStr (win ''C:/u/a'')), (''size'', PInt 3)] @ [(''original_content'', PStr ''one'')]"
  have w: "write_file sample_fs (win ''C:/u/a'') ''new'' PNone sample_world = (w1, Inr (PDict d))"
    unfolding write_file_def Let_def sample_paths(2) v sum.case w1_def d_def
    by (simp add: sample_paths(1) sample_text_read max_write_size_def)
  obtain w2 y where u: "undo_write sample_fs (win ''C:/u/a'') ''one'' PNone w1 = (w2, y)" by fastforce
  have "map_of d ''original_content'' = Some (PStr ''one'')" by (simp add: d_def)
  from undo_restores_text [OF w this u, unfolded sample_paths(2)] obtain n m
    where nm: "node_at sample_fs sample_world (win ''C:/u/a'') = Some n" "node_at sample_fs w2 (win ''C:/u/a'') = Some m"
      "nd_data m = nd_data n \<longleftrightarrow> windows_text (nd_data n)" by blast
  have "n = file_node ''one''" using nm(1) sample_delete(3) by (simp add: node_at_of sample_leads)
  then have "nd_data m = ''one''" using nm(3) by (simp add: file_node_def)
  with u nm(2) show ?thesis by blast
qed

text \<open>A copy within the sample machine, undisturbed and with a source that another process changes.\<close>

definition changing :: "file_world \<Rightarrow> file_world" where
  "changing w = w\<lparr>fw_nodes := AList.update (win ''c:/u/a'') (file_node ''other'') (fw_nodes w)\<rparr>"

lemma sample_copy_facts:
  "vr_allowed (check_read sample_fs sample_world (win ''C:/u/a''))" "vr_path (check_read sample_fs sample_world (win ''C:/u/a'')) = win ''C:/u/a''"
  "vr_allowed (check_write sample_fs sample_world (win ''C:/u/b''))" "vr_path (check_write sample_fs sample_world (win ''C:/u/b'')) = win ''C:/u/b''"
  "copy_destination sample_fs sample_world (win ''C:/u/a'') (win ''C:/u/b'') (win ''C:/u/b'') False = win ''C:/u/b''"
  "\<not> path_exists sample_fs sample_world (win ''C:/u/b'')"
  "normpath (oe_abspath sample_fs (oe_expand sample_fs (win ''C:/u/a''))) = win ''C:/u/a''"
  "normpath (oe_abspath sample_fs (oe_expand sample_fs (win ''C:/u/b''))) = win ''C:/u/b''"
  "case copy2 sample_fs sample_world (win ''C:/u/a'') (win ''C:/u/b'') of
     Inl e \<Rightarrow> False | Inr v \<Rightarrow> node_at sample_fs v (win ''C:/u/b'') = Some ((file_node ''one'')\<lparr>nd_id := 1\<rparr>)
       \<and> entry_at sample_fs v (win ''C:/u/b'') = Some ((file_node ''one'')\<lparr>nd_id := 1\<rparr>)
       \<and> node_at sample_fs v (win ''C:/u/a'') = Some (file_node ''one'')"
  "open_read sample_fs sample_world (win ''C:/u/a'') = Inr (file_node ''one'')"
  "open_read sample_fs (changing sample_world) (win ''C:/u/a'') = Inr (file_node ''other'')"
  "oe_denied sample_fs = []" "oe_hash sample_fs x = x"
  by code_simp+

definition sample_identity :: "string \<Rightarrow> resource_identity" where
  "sample_identity s =
     \<lparr>ri_path = win ''C:/u/a'', ri_size = length s, ri_mtime = 0, ri_ctime = 0, ri_file = nat_str 0, ri_volume = ''volume'',
      ri_hash = Some s\<rparr>"

lemma sample_capture:
  "capture_identity sample_fs sample_world (win ''C:/u/a'') = Inr (sample_identity ''one'')"
  "capture_identity sample_fs (changing sample_world) (win ''C:/u/a'') = Inr (sample_identity ''other'')"
proof -
  have n: "node_at sample_fs sample_world (win ''C:/u/a'') = Some (file_node ''one'')"
    "node_at sample_fs (changing sample_world) (win ''C:/u/a'') = Some (file_node ''other'')"
    "entry_at sample_fs sample_world (win ''C:/u/a'') = Some (file_node ''one'')"
    "entry_at sample_fs (changing sample_world) (win ''C:/u/a'') = Some (file_node ''other'')" by code_simp+
  show "capture_identity sample_fs sample_world (win ''C:/u/a'') = Inr (sample_identity ''one'')"
    unfolding capture_identity_def Let_def sample_copy_facts(7) n option.case content_hash_def sample_copy_facts(10) sum.case sample_identity_def
    by (simp add: max_hash_size_def sample_copy_facts(13)) (simp add: file_node_def folder_node_def)
  show "capture_identity sample_fs (changing sample_world) (win ''C:/u/a'') = Inr (sample_identity ''other'')"
    unfolding capture_identity_def Let_def sample_copy_facts(7) n option.case content_hash_def sample_copy_facts(11) sum.case sample_identity_def
    by (simp add: max_hash_size_def sample_copy_facts(13)) (simp add: file_node_def folder_node_def)
qed

theorem changed_source_not_copied_witness:
  "\<exists>w' e. copy_file sample_fs (win ''C:/u/a'') (win ''C:/u/b'') PNone False False (undisturbed\<lparr>ot_check := changing\<rparr>) sample_world
       = (w', Inl e)
     \<and> ((\<forall>i. node_of w' i = node_of sample_world i) \<or> (\<forall>i. node_of w' i = node_of (changing sample_world) i))"
proof -
  obtain w' x where c: "copy_file sample_fs (win ''C:/u/a'') (win ''C:/u/b'') PNone False False (undisturbed\<lparr>ot_check := changing\<rparr>)
      sample_world = (w', x)"
    by fastforce
  have o: "ot_check (undisturbed\<lparr>ot_check := changing\<rparr>) = changing" by simp
  have "\<not> is_same_identity (sample_identity ''one'') (sample_identity ''other'')"
    by (simp add: is_same_identity_def sample_identity_def)
  from changed_source_not_copied [OF c, unfolded sample_copy_facts(2) o, OF sample_capture this] c show ?thesis by blast
qed

lemma sample_capture_target:
  assumes "node_at sample_fs v (win ''C:/u/b'') = Some n" and "entry_at sample_fs v (win ''C:/u/b'') = Some n"
  shows "\<exists>d. capture_identity sample_fs v (win ''C:/u/b'') = Inr d \<and> ri_size d = length (nd_data n)"
  unfolding capture_identity_def Let_def sample_copy_facts(8) assms option.case by simp

lemma sample_same: "is_same_identity i i" "ri_size (sample_identity ''one'') = 3"
  by (simp_all add: is_same_identity_def sample_identity_def)

lemma sample_copies:
  assumes "copy2 sample_fs (f sample_world) (win ''C:/u/a'') (win ''C:/u/b'') = Inr v"
    and "node_at sample_fs v (win ''C:/u/b'') = Some n" and "entry_at sample_fs v (win ''C:/u/b'') = Some n"
    and "node_at sample_fs v (win ''C:/u/a'') = Some m" and "nd_data m = nd_data n" and "length (nd_data n) = 3"
    and "\<not> nd_folder n" and "\<not> nd_folder m"
  shows "\<exists>w' x. copy_file sample_fs (win ''C:/u/a'') (win ''C:/u/b'') PNone False False (undisturbed\<lparr>ot_copy := f\<rparr>) sample_world
      = (w', Inr x) \<and> node_at sample_fs w' (win ''C:/u/b'') = Some n"
proof -
  obtain d where d: "capture_identity sample_fs v (win ''C:/u/b'') = Inr d" "ri_size d = 3"
    using sample_capture_target [OF assms(2,3)] assms(6) by auto
  have o: "ot_check (undisturbed\<lparr>ot_copy := f\<rparr>) = id" "ot_copy (undisturbed\<lparr>ot_copy := f\<rparr>) = f"
    "ot_verify (undisturbed\<lparr>ot_copy := f\<rparr>) = id" by (simp_all add: undisturbed_def)
  have rd: "open_read sample_fs v (win ''C:/u/b'') = Inr n" "open_read sample_fs v (win ''C:/u/a'') = Inr m"
    using assms(2,4,7,8) by (simp_all add: open_read_def sample_copy_facts(12))
  have f: "is_file sample_fs v (win ''C:/u/b'')" using assms(2,7) by (simp add: is_file_def)
  have small: "3 \<le> max_hash_size" by (simp add: max_hash_size_def)
  have "\<exists>w' x. copy_file sample_fs (win ''C:/u/a'') (win ''C:/u/b'') PNone False False (undisturbed\<lparr>ot_copy := f\<rparr>) sample_world
      = (w', Inr x) \<and> node_at sample_fs w' (win ''C:/u/b'') = node_at sample_fs (ot_verify (undisturbed\<lparr>ot_copy := f\<rparr>) v) (win ''C:/u/b'')"
    by (rule copy_succeeds [where src = "win ''C:/u/a''" and before = "sample_identity ''one''" and now = "sample_identity ''one''"
          and n = m and m = n and d = d])
      (simp_all only: o id_apply sample_copy_facts sample_text_read sample_capture sample_same assms f d rd small simp_thms)
  then show ?thesis by (simp only: o id_apply assms(2))
qed


text \<open>
  Between the second snapshot and the copy nothing guards the source: a change in this window that keeps the size is
  copied, and the copy is reported as verified although it is not of the version that the snapshots saw.
\<close>

definition replacing :: "file_world \<Rightarrow> file_world" where
  "replacing w = w\<lparr>fw_nodes := AList.update (win ''c:/u/a'') (file_node ''two'') (fw_nodes w)\<rparr>"

lemma copy_window_unnoticed:
  "\<exists>w' x. copy_file sample_fs (win ''C:/u/a'') (win ''C:/u/b'') PNone False False (undisturbed\<lparr>ot_copy := replacing\<rparr>) sample_world
       = (w', Inr x)
     \<and> node_at sample_fs sample_world (win ''C:/u/a'') = Some (file_node ''one'')
     \<and> node_at sample_fs w' (win ''C:/u/b'') = Some ((file_node ''two'')\<lparr>nd_id := 1\<rparr>)"
proof -
  have "case copy2 sample_fs (replacing sample_world) (win ''C:/u/a'') (win ''C:/u/b'') of
     Inl e \<Rightarrow> False | Inr v \<Rightarrow> node_at sample_fs v (win ''C:/u/b'') = Some ((file_node ''two'')\<lparr>nd_id := 1\<rparr>)
       \<and> entry_at sample_fs v (win ''C:/u/b'') = Some ((file_node ''two'')\<lparr>nd_id := 1\<rparr>)
       \<and> node_at sample_fs v (win ''C:/u/a'') = Some (file_node ''two'')" by code_simp
  then obtain v where v: "copy2 sample_fs (replacing sample_world) (win ''C:/u/a'') (win ''C:/u/b'') = Inr v"
    "node_at sample_fs v (win ''C:/u/b'') = Some ((file_node ''two'')\<lparr>nd_id := 1\<rparr>)"
    "entry_at sample_fs v (win ''C:/u/b'') = Some ((file_node ''two'')\<lparr>nd_id := 1\<rparr>)"
    "node_at sample_fs v (win ''C:/u/a'') = Some (file_node ''two'')"
    by (auto split: sum.splits)
  have n: "node_at sample_fs sample_world (win ''C:/u/a'') = Some (file_node ''one'')" by code_simp
  show ?thesis using sample_copies [of replacing, OF v] n by (auto simp: file_node_def folder_node_def)
qed

text \<open>
  A file that is deleted by a path with a variable in it does not come back: the backup is copied to the path as it was
  given, with the variable in it.
\<close>

definition variable_fs :: fs_env where
  "variable_fs = sample_fs\<lparr>oe_expand := (\<lambda>p. if p = win ''%USERPROFILE%/a'' then win ''C:/u/a'' else oe_expand sample_fs p)\<rparr>"

lemma variable_path_not_restored:
  "case delete_file variable_fs (win ''%USERPROFILE%/a'') PNone sample_world of
     (w1, x) \<Rightarrow> node_of w1 (win ''c:/u/a'') = None \<and> map_option nd_data (node_of w1 (lower backup_name)) = Some ''one''
       \<and> (case restore_file variable_fs backup_name (win ''%USERPROFILE%/a'') PNone w1 of
            (w2, y) \<Rightarrow> (case y of Inl e \<Rightarrow> True | Inr z \<Rightarrow> False) \<and> node_of w2 (win ''c:/u/a'') = None)"
  by code_simp

lemma copy_escapes_allowed:
  "let dst = copy_destination sample_fs sample_world (win ''C:/u/a'') (win ''C:/'') (win ''C:/'') True in
   vr_allowed (check_write sample_fs sample_world (win ''C:/'')) \<and> vr_path (check_write sample_fs sample_world (win ''C:/'')) = win ''C:/''
   \<and> \<not> vr_allowed (check_write sample_fs sample_world dst)"
  by code_simp

text \<open>A text with the line ends of Unix does not survive a write that is undone.\<close>

lemma unix_text_changed: "\<not> windows_text (''a'' @ [CHR 0x0A])"
  by simp

text \<open>The search stops at its bound and shows only names that match.\<close>

definition found_ok :: "string \<Rightarrow> found_file list \<times> bool \<Rightarrow> bool" where
  "found_ok q st \<longleftrightarrow>
     length (fst st) \<le> max_search_results \<and> (\<forall>f \<in> set (fst st). query_matches q (ff_name f))
     \<and> (\<not> snd st \<longrightarrow> length (fst st) < max_search_results)"

lemma add_found_ok: "found_ok q (acc, False) \<Longrightarrow> found_ok q (add_found q dir es acc)"
proof (induction es arbitrary: acc)
  case (Cons e es)
  define acc1 where "acc1 = (case snd e of
      Some m \<Rightarrow> if query_matches q (fst e) then acc @ [\<lparr>ff_name = fst e, ff_path = join_path dir (fst e), ff_node = m\<rparr>] else acc
    | None \<Rightarrow> acc)"
  have ok: "length acc1 \<le> max_search_results \<and> (\<forall>f \<in> set acc1. query_matches q (ff_name f))"
    using Cons.prems by (simp add: found_ok_def acc1_def split: option.split)
  have step: "add_found q dir (e # es) acc = (if max_search_results \<le> length acc1 then (acc1, True) else add_found q dir es acc1)"
  proof -
    obtain name n where e: "e = (name, n)" by fastforce
    show ?thesis unfolding acc1_def e by (simp only: add_found.simps Let_def fst_conv snd_conv)
  qed
  show ?case
  proof (cases "max_search_results \<le> length acc1")
    case True
    with ok show ?thesis unfolding step by (simp add: found_ok_def)
  next
    case False
    with ok have "found_ok q (acc1, False)" by (simp add: found_ok_def)
    from Cons.IH [OF this] False show ?thesis unfolding step by simp
  qed
qed simp

lemma search_dir_ok: "found_ok q st \<Longrightarrow> found_ok q (search_dir n env w q dir st)"
proof (induction n arbitrary: dir st)
  case (Suc n)
  have fold: "found_ok q s \<Longrightarrow> found_ok q (foldl (\<lambda>s d. search_dir n env w q (join_path dir d) s) s ds)" for s ds
    by (induction ds arbitrary: s) (simp_all add: Suc.IH)
  show ?case
  proof (cases "scan_folder env w dir")
    case (Inr es)
    show ?thesis
    proof (cases "snd st")
      case False
      with Suc.prems have "found_ok q (fst st, False)" by (simp add: found_ok_def)
      from fold [OF add_found_ok [OF this]] show ?thesis using Inr False by simp
    qed (use Suc.prems Inr in simp)
  qed (use Suc.prems in simp)
qed simp

text \<open>The files that a search reports are at most 500 and all of their names match the query.\<close>

theorem search_is_bounded:
  assumes "search_dir max_search_depth env w q dir ([], False) = (fs, stopped)"
  shows "length fs \<le> max_search_results \<and> (\<forall>f \<in> set fs. query_matches q (ff_name f))
    \<and> (\<not> stopped \<longrightarrow> length fs < max_search_results)"
proof -
  have "found_ok q ([], False)" by (simp add: found_ok_def max_search_results_def)
  from search_dir_ok [OF this, of max_search_depth env w dir] show ?thesis by (simp add: assms found_ok_def)
qed

theorem search_is_bounded_witness:
  "length (fst (search_dir max_search_depth sample_fs sample_world ''a'' (win ''C:/u'') ([], False))) \<le> max_search_results"
proof -
  obtain fs b where s: "search_dir max_search_depth sample_fs sample_world ''a'' (win ''C:/u'') ([], False) = (fs, b)" by fastforce
  from search_is_bounded [OF s] s show ?thesis by simp
qed

end
