(* ===== verification/Authentication.thy ===== *)
theory Authentication
  imports Py_Text
begin

text \<open>
  Who a request is from: identities and levels (\<open>sidecar/modules/auth.py\<close>, \<open>authorization.py\<close>,
  \<open>sentinel/core/security_levels.py\<close>), tokens with their rotation (\<open>sidecar/modules/jwt_auth.py\<close>,
  \<open>sidecar/routers/auth_jwt.py\<close>) and the middleware in front of every route.

  The token library (PyJWT) is an argument: \<open>jw_encode\<close> signs a payload with a secret, \<open>jw_decode\<close> gives the payload of
  a token that verifies and has not expired. So are the hash function, the time, the drawn token identifiers and whether the
  database can be reached.
\<close>

section \<open>Levels and identities\<close>

definition level_rank :: "(string \<times> nat) list" where
  "level_rank = [(''admin'', 4), (''confirm'', 3), (''auto'', 2), (''view'', 1)]"

definition role_to_level :: "(string \<times> string) list" where
  "role_to_level = [(''admin'', ''admin''), (''user'', ''confirm''), (''viewer'', ''view''), (''service'', ''auto'')]"

definition level_suffices :: "string \<Rightarrow> string \<Rightarrow> bool" where
  \<comment> \<open>\<open>require_level\<close> of the core\<close>
  "level_suffices level minimum \<longleftrightarrow>
     (case (map_of level_rank level, map_of level_rank minimum) of (Some a, Some b) \<Rightarrow> b \<le> a | _ \<Rightarrow> False)"

record identity =
  id_user :: string
  id_username :: pyval
  id_role :: pyval
  id_permissions :: "string list"
  id_method :: string
  id_authenticated :: bool
  id_local :: bool
  id_metadata :: params

definition local_identity :: identity where
  "local_identity =
     \<lparr>id_user = ''local-user'', id_username = PStr ''Local User'', id_role = PStr ''admin'', id_permissions = [''*''],
      id_method = ''local'', id_authenticated = True, id_local = True, id_metadata = []\<rparr>"

definition service_identity :: "string \<Rightarrow> string list \<Rightarrow> identity" where
  "service_identity name perms =
     \<lparr>id_user = ''service:'' @ name, id_username = PStr name, id_role = PStr ''service'', id_permissions = perms,
      id_method = ''internal'', id_authenticated = True, id_local = True, id_metadata = [(''service'', PStr name)]\<rparr>"

definition session_identity :: "string \<Rightarrow> identity" where
  "session_identity session =
     local_identity\<lparr>id_method := ''session_token'', id_metadata := [(''session_id'', PStr session)]\<rparr>"

definition test_identity :: identity where
  "test_identity =
     \<lparr>id_user = ''test-user'', id_username = PStr ''Test User'', id_role = PStr ''admin'', id_permissions = [''*''],
      id_method = ''test'', id_authenticated = True, id_local = True, id_metadata = [(''session_id'', PStr ''test-session'')]\<rparr>"

definition remote_identity :: "string \<Rightarrow> string \<Rightarrow> identity" where
  "remote_identity actor session =
     \<lparr>id_user = ''fleet:'' @ actor, id_username = PStr ''Paired Fleet Client'', id_role = PStr ''viewer'',
      id_permissions = [''system.read'', ''audit.read''], id_method = ''fleet_proxy'', id_authenticated = True, id_local = False,
      id_metadata = [(''session_id'', PStr session), (''actor_fingerprint'', PStr actor)]\<rparr>"

definition identity_level :: "identity \<Rightarrow> string" where
  "identity_level i = (case id_role i of PStr r \<Rightarrow> dict_get role_to_level r ''view'' | _ \<Rightarrow> ''view'')"

definition identity_to_dict :: "identity \<Rightarrow> params" where
  "identity_to_dict i =
     [(''user_id'', PStr (id_user i)), (''username'', id_username i), (''role'', id_role i), (''level'', PStr (identity_level i)),
      (''permissions'', PList (map PStr (py_sorted (id_permissions i)))), (''authentication_method'', PStr (id_method i)),
      (''is_authenticated'', PBool (id_authenticated i)), (''is_local'', PBool (id_local i)), (''metadata'', PDict (id_metadata i))]"

text \<open>A refusal is a status; the texts are left out.\<close>

type_synonym 'a reply = "nat + 'a"

definition request_identity :: "identity option \<Rightarrow> identity reply" where
  "request_identity state =
     (case state of None \<Rightarrow> Inl 401 | Some i \<Rightarrow> if id_authenticated i then Inr i else Inl 401)"

definition require_admin_identity :: "identity option \<Rightarrow> identity reply" where
  "require_admin_identity state =
     (case request_identity state of
        Inl e \<Rightarrow> Inl e | Inr i \<Rightarrow> if identity_level i = ''admin'' then Inr i else Inl 403)"

definition require_level :: "identity \<Rightarrow> string \<Rightarrow> identity reply" where
  "require_level i minimum =
     (case map_of level_rank (identity_level i) of
        None \<Rightarrow> Inl 403
      | Some a \<Rightarrow>
          (case map_of level_rank minimum of None \<Rightarrow> Inl 500 | Some b \<Rightarrow> if a < b then Inl 403 else Inr i))"

definition route_requires_level :: "string \<Rightarrow> identity option \<Rightarrow> identity reply" where
  \<comment> \<open>\<open>require_level\<close> of \<open>authorization.py\<close>, where an unknown level has rank 0\<close>
  "route_requires_level minimum state =
     (case state of
        None \<Rightarrow> Inl 401
      | Some i \<Rightarrow>
          if \<not> id_authenticated i then Inl 401
          else if dict_get level_rank (identity_level i) 0 < dict_get level_rank minimum 0 then Inl 403 else Inr i)"

definition check_level :: "identity \<Rightarrow> string \<Rightarrow> unit result" where
  "check_level i minimum =
     (if dict_get level_rank (identity_level i) 0 < dict_get level_rank minimum 0
      then Inl (PermissionError (''Requires level '' @ quoted minimum @ '', identity has level '' @ quoted (identity_level i)))
      else Inr ())"


section \<open>Tokens\<close>

record jwt_lib =
  jw_encode :: "params \<Rightarrow> string \<Rightarrow> string"
  jw_decode :: "string \<Rightarrow> string \<Rightarrow> int \<Rightarrow> params option"
  jw_sha :: "string \<Rightarrow> string"

record auth_config =
  ac_environment :: string
  ac_test_mode :: bool
  ac_test_secret :: string
  ac_jwt_secret :: string
  ac_session_token :: string
  ac_password :: string

record revoked_token =
  rv_jti :: string
  rv_user :: string
  rv_type :: string
  rv_expires :: int

definition access_ttl :: int where "access_ttl = 3600"
definition refresh_ttl :: int where "refresh_ttl = 2592000"

definition claim :: "params \<Rightarrow> string \<Rightarrow> string" where
  \<comment> \<open>the claims \<open>sub\<close> and \<open>jti\<close>, which the library admits only as strings\<close>
  "claim p k = (case dict_get p k (PStr []) of PStr s \<Rightarrow> s | _ \<Rightarrow> [])"

definition evict_expired :: "bool \<Rightarrow> int \<Rightarrow> revoked_token list \<Rightarrow> revoked_token list" where
  "evict_expired ok now rs = (if ok then filter (\<lambda>r. \<not> rv_expires r < now) rs else rs)"

definition revoke :: "bool \<Rightarrow> bool \<Rightarrow> int \<Rightarrow> string \<Rightarrow> string \<Rightarrow> string \<Rightarrow> pyval \<Rightarrow> revoked_token list \<Rightarrow> revoked_token list" where
  \<comment> \<open>whether the eviction and the insertion succeed; failures are logged and swallowed\<close>
  "revoke evict_ok insert_ok now jti user kind expires rs =
     (let rs1 = evict_expired evict_ok now rs in
      case py_int_of expires of
        Inl e \<Rightarrow> rs1
      | Inr e \<Rightarrow>
          if \<not> insert_ok \<or> list_ex (\<lambda>r. rv_jti r = jti) rs1 then rs1
          else rs1 @ [\<lparr>rv_jti = jti, rv_user = user, rv_type = kind, rv_expires = e\<rparr>])"

definition is_revoked :: "bool \<Rightarrow> string \<Rightarrow> revoked_token list \<Rightarrow> bool" where
  "is_revoked db_ok jti rs \<longleftrightarrow> jti \<noteq> [] \<and> db_ok \<and> list_ex (\<lambda>r. rv_jti r = jti) rs"

definition get_secret :: "jwt_lib \<Rightarrow> auth_config \<Rightarrow> string result" where
  "get_secret lib cfg =
     (if ac_jwt_secret cfg \<noteq> [] then Inr (ac_jwt_secret cfg)
      else if ac_session_token cfg = [] then Inl (AnyException ''JWT signing secret is not configured'')
      else Inr (jw_sha lib (ac_session_token cfg)))"

definition access_payload :: "string \<Rightarrow> string \<Rightarrow> string \<Rightarrow> int \<Rightarrow> int \<Rightarrow> string \<Rightarrow> params" where
  "access_payload user username role ttl now jti =
     [(''sub'', PStr user), (''username'', PStr (if username \<noteq> [] then username else user)), (''role'', PStr role),
      (''iat'', PInt now), (''exp'', PInt (now + ttl)), (''type'', PStr ''access''), (''jti'', PStr jti)]"

definition refresh_payload :: "string \<Rightarrow> int \<Rightarrow> int \<Rightarrow> string \<Rightarrow> params" where
  "refresh_payload user ttl now jti =
     [(''sub'', PStr user), (''iat'', PInt now), (''exp'', PInt (now + ttl)), (''type'', PStr ''refresh''), (''jti'', PStr jti)]"

definition create_access_token :: "jwt_lib \<Rightarrow> auth_config \<Rightarrow> string \<Rightarrow> string \<Rightarrow> string \<Rightarrow> int \<Rightarrow> int \<Rightarrow> string \<Rightarrow> string result" where
  "create_access_token lib cfg user username role ttl now jti =
     bind_result (get_secret lib cfg) (\<lambda>s. Inr (jw_encode lib (access_payload user username role ttl now jti) s))"

definition create_refresh_token :: "jwt_lib \<Rightarrow> auth_config \<Rightarrow> string \<Rightarrow> int \<Rightarrow> int \<Rightarrow> string \<Rightarrow> string result" where
  "create_refresh_token lib cfg user ttl now jti =
     bind_result (get_secret lib cfg) (\<lambda>s. Inr (jw_encode lib (refresh_payload user ttl now jti) s))"

definition verify_token :: "jwt_lib \<Rightarrow> auth_config \<Rightarrow> bool \<Rightarrow> int \<Rightarrow> revoked_token list \<Rightarrow> string \<Rightarrow> params option result" where
  "verify_token lib cfg db_ok now rs token =
     bind_result (get_secret lib cfg)
       (\<lambda>s. Inr (case jw_decode lib token s now of
            None \<Rightarrow> None
          | Some p \<Rightarrow> if is_revoked db_ok (claim p ''jti'') rs then None else Some p))"

definition issue_pair :: "jwt_lib \<Rightarrow> auth_config \<Rightarrow> string \<Rightarrow> int \<Rightarrow> string \<Rightarrow> string \<Rightarrow> (string \<times> string) result" where
  \<comment> \<open>the role of the new access token is always the default\<close>
  "issue_pair lib cfg user now jti1 jti2 =
     bind_result (create_access_token lib cfg user user ''user'' access_ttl now jti1)
       (\<lambda>a. bind_result (create_refresh_token lib cfg user refresh_ttl now jti2) (\<lambda>r. Inr (a, r)))"

record db_outcome =
  db_read :: bool
  db_evict :: bool
  db_insert :: bool

definition rotate_refresh_token :: "jwt_lib \<Rightarrow> auth_config \<Rightarrow> db_outcome \<Rightarrow> int \<Rightarrow> string \<Rightarrow> string \<Rightarrow> string \<Rightarrow> revoked_token list
    \<Rightarrow> revoked_token list \<times> (string \<times> string) option result" where
  "rotate_refresh_token lib cfg db now jti1 jti2 token rs =
     (case verify_token lib cfg (db_read db) now rs token of
        Inl e \<Rightarrow> (rs, Inl e)
      | Inr None \<Rightarrow> (rs, Inr None)
      | Inr (Some p) \<Rightarrow>
          if dict_get p ''type'' PNone \<noteq> PStr ''refresh'' \<or> claim p ''sub'' = [] then (rs, Inr None)
          else
            (revoke (db_evict db) (db_insert db) now (claim p ''jti'') (claim p ''sub'') ''refresh'' (dict_get p ''exp'' (PInt 0)) rs,
             bind_result (issue_pair lib cfg (claim p ''sub'') now jti1 jti2) (\<lambda>x. Inr (Some x))))"

definition role_permissions :: "(string \<times> string list) list" where
  "role_permissions =
     [(''admin'', [''*'']), (''user'', [''system.read'', ''filesystem.read'', ''ai.chat'', ''permissions.read'']),
      (''viewer'', [''system.read'', ''audit.read''])]"

fun hashable :: "pyval \<Rightarrow> bool" where
  "hashable (PList _) = False"
| "hashable (PDict _) = False"
| "hashable _ = True"

definition token_to_identity :: "jwt_lib \<Rightarrow> auth_config \<Rightarrow> bool \<Rightarrow> int \<Rightarrow> revoked_token list \<Rightarrow> string \<Rightarrow> identity option result" where
  "token_to_identity lib cfg db_ok now rs token =
     bind_result (verify_token lib cfg db_ok now rs token)
       (\<lambda>v. case v of
          None \<Rightarrow> Inr None
        | Some p \<Rightarrow>
            if dict_get p ''type'' PNone \<noteq> PStr ''access'' then Inr None
            else
              (let role = dict_get p ''role'' (PStr ''user''); jti = PStr (claim p ''jti'') in
               if map_of p ''sub'' = None then Inl (KeyError ''sub'')
               else if \<not> hashable role then Inl (AnyException ''TypeError'')
               else Inr (Some
                 \<lparr>id_user = claim p ''sub'', id_username = dict_get p ''username'' (PStr (claim p ''sub'')), id_role = role,
                  id_permissions = (case role of PStr r \<Rightarrow> dict_get role_permissions r [] | _ \<Rightarrow> []), id_method = ''jwt'',
                  id_authenticated = True, id_local = True, id_metadata = [(''jti'', jti), (''session_id'', jti)]\<rparr>)))"

definition authenticate_user :: "jwt_lib \<Rightarrow> auth_config \<Rightarrow> string \<Rightarrow> string \<Rightarrow> int \<Rightarrow> string \<Rightarrow> string \<Rightarrow> (string \<times> string) option result" where
  "authenticate_user lib cfg user password now jti1 jti2 =
     (if ac_password cfg = [] \<or> password \<noteq> ac_password cfg then Inr None
      else bind_result (issue_pair lib cfg user now jti1 jti2) (\<lambda>x. Inr (Some x)))"

definition login :: "jwt_lib \<Rightarrow> auth_config \<Rightarrow> string \<Rightarrow> string \<Rightarrow> int \<Rightarrow> string \<Rightarrow> string \<Rightarrow> (string \<times> string) reply" where
  "login lib cfg user password now jti1 jti2 =
     (case authenticate_user lib cfg user password now jti1 jti2 of
        Inl e \<Rightarrow> Inl 500
      | Inr None \<Rightarrow> Inl 401
      | Inr (Some (a, r)) \<Rightarrow> if a = [] then Inl 401 else Inr (a, r))"

definition refresh :: "jwt_lib \<Rightarrow> auth_config \<Rightarrow> db_outcome \<Rightarrow> int \<Rightarrow> string \<Rightarrow> string \<Rightarrow> string \<Rightarrow> revoked_token list
    \<Rightarrow> revoked_token list \<times> (string \<times> string) reply" where
  "refresh lib cfg db now jti1 jti2 token rs =
     (case rotate_refresh_token lib cfg db now jti1 jti2 token rs of
        (rs1, Inl e) \<Rightarrow> (rs1, Inl 500)
      | (rs1, Inr None) \<Rightarrow> (rs1, Inl 401)
      | (rs1, Inr (Some (a, r))) \<Rightarrow> (rs1, if a = [] \<or> r = [] then Inl 401 else Inr (a, r)))"


section \<open>The middleware\<close>

definition ascii :: "string \<Rightarrow> bool" where
  "ascii s \<longleftrightarrow> list_all (\<lambda>c. (of_char c :: nat) < 128) s"

definition identity_from_bearer_token :: "jwt_lib \<Rightarrow> auth_config \<Rightarrow> bool \<Rightarrow> int \<Rightarrow> revoked_token list \<Rightarrow> string \<Rightarrow> identity option result" where
  \<comment> \<open>whatever the token library raises is passed over; \<open>compare_digest\<close> raises for text that is not ASCII\<close>
  "identity_from_bearer_token lib cfg db_ok now rs token =
     (if token = [] then Inr None
      else
        (case token_to_identity lib cfg db_ok now rs token of
           Inr (Some i) \<Rightarrow> Inr (Some i)
         | _ \<Rightarrow>
             if ac_session_token cfg = [] then Inr None
             else if \<not> ascii token \<or> \<not> ascii (ac_session_token cfg) then Inl (AnyException ''TypeError'')
             else if token = ac_session_token cfg
             then Inr (Some (session_identity (take 16 (jw_sha lib (ac_session_token cfg)))))
             else Inr None))"

record request =
  rq_host :: string
  rq_method :: string
  rq_path :: string
  rq_test_token :: string
  rq_authorization :: string
  rq_remote_actor :: string

datatype auth_outcome =
    Shutdown
  | Rejected nat
  | Crashed py_exc
  | Forwarded "identity option"

definition local_hosts :: "string list" where
  "local_hosts = [''127.0.0.1'', ''::1'', ''::ffff:127.0.0.1'', ''testclient'', ''localhost'']"

definition open_paths :: "string list" where
  "open_paths = [''/api/health'', ''/api/info'', ''/api/system/live'', ''/auth/login'', ''/auth/refresh'']"

definition bearer :: "string \<Rightarrow> string \<times> string" where
  \<comment> \<open>\<open>partition(" ")\<close>: the scheme and what follows the first space\<close>
  "bearer h = (takeWhile (\<lambda>c. c \<noteq> CHR '' '') h, drop 1 (dropWhile (\<lambda>c. c \<noteq> CHR '' '') h))"

definition last_resort :: "jwt_lib \<Rightarrow> auth_config \<Rightarrow> bool \<Rightarrow> int \<Rightarrow> revoked_token list \<Rightarrow> request \<Rightarrow> auth_outcome" where
  \<comment> \<open>what is left when the header held no valid bearer token\<close>
  "last_resort lib cfg db_ok now rs rq =
     (if ac_test_mode cfg
      then (if ac_environment cfg = ''production'' then Rejected 503 else Forwarded (Some local_identity))
      else if rq_path rq \<in> set open_paths then Forwarded None
      else if ac_session_token cfg = [] then Rejected 503
      else
        (case identity_from_bearer_token lib cfg db_ok now rs (snd (bearer (rq_authorization rq))) of
           Inl e \<Rightarrow> Crashed e
         | Inr None \<Rightarrow> Rejected 401
         | Inr (Some i) \<Rightarrow>
             Forwarded (Some (if rq_remote_actor rq \<noteq> []
               then remote_identity (rq_remote_actor rq) (take 16 (jw_sha lib (ac_session_token cfg))) else i))))"

definition auth_middleware :: "jwt_lib \<Rightarrow> auth_config \<Rightarrow> bool \<Rightarrow> int \<Rightarrow> revoked_token list \<Rightarrow> request \<Rightarrow> auth_outcome" where
  "auth_middleware lib cfg db_ok now rs rq =
     (if ac_environment cfg = ''production'' \<and> ac_test_mode cfg then Shutdown
      else if rq_host rq \<notin> set local_hosts then Rejected 403
      else if rq_method rq = ''OPTIONS'' then Forwarded None
      else if rq_test_token rq \<noteq> [] then
        (if ac_environment cfg = ''production'' then Rejected 403
         else if \<not> ac_test_mode cfg then Rejected 403
         else if rq_test_token rq \<noteq> ac_test_secret cfg then Rejected 401
         else Forwarded (Some test_identity))
      else
        (let (scheme, token) = bearer (rq_authorization rq) in
         if lower scheme = ''bearer'' \<and> token \<noteq> [] then
           (case identity_from_bearer_token lib cfg db_ok now rs token of
              Inl e \<Rightarrow> Crashed e
            | Inr (Some i) \<Rightarrow> Forwarded (Some i)
            | Inr None \<Rightarrow> last_resort lib cfg db_ok now rs rq)
         else last_resort lib cfg db_ok now rs rq))"


section \<open>Levels\<close>

lemma identity_level_known: "identity_level i \<in> set (keys level_rank)"
  by (auto simp: identity_level_def role_to_level_def level_rank_def dict_get_def split: pyval.split)

text \<open>
  The three checks of a level agree on an authenticated identity and a known minimum; for an unknown minimum the check of
  the routes lets everybody pass, while the others refuse.
\<close>

theorem level_checks_agree:
  assumes "id_authenticated i" and "minimum \<in> set (keys level_rank)"
  shows "route_requires_level minimum (Some i) = require_level i minimum
    \<and> (\<exists>e. require_level i minimum = Inl e) = (\<not> level_suffices (identity_level i) minimum)
    \<and> is_err (check_level i minimum) = (\<not> level_suffices (identity_level i) minimum)"
proof -
  obtain a b where "map_of level_rank (identity_level i) = Some a" "map_of level_rank minimum = Some b"
    using identity_level_known [of i] assms(2) by (metis map_of_eq_None_iff not_None_eq set_map)
  with assms(1) show ?thesis
    by (auto simp: route_requires_level_def require_level_def check_level_def level_suffices_def)
qed

theorem level_checks_agree_witness:
  "route_requires_level ''confirm'' (Some test_identity) = require_level test_identity ''confirm''"
  using level_checks_agree [of test_identity "''confirm''"] by (simp add: test_identity_def level_rank_def)

lemma unknown_level_open:
  "route_requires_level ''operator'' (Some (remote_identity a s)) = Inr (remote_identity a s)
   \<and> require_level (remote_identity a s) ''operator'' = Inl 500"
  by (simp add: route_requires_level_def require_level_def remote_identity_def identity_level_def level_rank_def role_to_level_def dict_get_def)


section \<open>Rotation\<close>

text \<open>
  What the library documents: the payload of a token does not depend on when it is read, and a token whose expiry has come is
  not accepted.
\<close>

definition jwt_laws :: "jwt_lib \<Rightarrow> bool" where
  "jwt_laws lib \<longleftrightarrow>
     (\<forall>t s n m p q. jw_decode lib t s n = Some p \<and> jw_decode lib t s m = Some q \<longrightarrow> p = q)
     \<and> (\<forall>t s n p e. jw_decode lib t s n = Some p \<and> map_of p ''exp'' = Some (PInt e) \<longrightarrow> n < e)"

record rotation =
  rt_db :: db_outcome
  rt_now :: int
  rt_jti1 :: string
  rt_jti2 :: string
  rt_token :: string

fun rotations :: "jwt_lib \<Rightarrow> auth_config \<Rightarrow> rotation list \<Rightarrow> revoked_token list \<Rightarrow> revoked_token list" where
  "rotations lib cfg [] rs = rs"
| "rotations lib cfg (r # ops) rs =
     rotations lib cfg ops (fst (rotate_refresh_token lib cfg (rt_db r) (rt_now r) (rt_jti1 r) (rt_jti2 r) (rt_token r) rs))"

definition revoked_until :: "string \<Rightarrow> int \<Rightarrow> revoked_token list \<Rightarrow> bool" where
  "revoked_until jti e rs \<longleftrightarrow> (\<exists>r \<in> set rs. rv_jti r = jti \<and> e \<le> rv_expires r)"

lemma revoke_keeps:
  assumes "revoked_until jti e rs" and "now \<le> e"
  shows "revoked_until jti e (revoke ev ins now j u k x rs)"
proof -
  have "revoked_until jti e (evict_expired ev now rs)"
    using assms by (auto simp: revoked_until_def evict_expired_def intro!: bexI)
  then show ?thesis by (auto simp: revoke_def Let_def revoked_until_def split: sum.split)
qed

lemma rotate_keeps:
  "revoked_until jti e rs \<Longrightarrow> now \<le> e \<Longrightarrow> revoked_until jti e (fst (rotate_refresh_token lib cfg db now j1 j2 t rs))"
  by (auto simp: rotate_refresh_token_def revoke_keeps split: sum.split option.split)

lemma rotations_keep:
  "revoked_until jti e rs \<Longrightarrow> \<forall>r \<in> set ops. rt_now r \<le> e \<Longrightarrow> revoked_until jti e (rotations lib cfg ops rs)"
  by (induction ops arbitrary: rs) (simp_all add: rotate_keeps)

lemma revoke_adds:
  assumes "\<not> list_ex (\<lambda>r. rv_jti r = jti) rs"
  shows "revoked_until jti e (revoke ev True now jti u k (PInt e) rs)"
  using assms by (auto simp: revoke_def Let_def revoked_until_def evict_expired_def list_ex_iff)

text \<open>
  C35: A refresh token is exchanged at most once: after an exchange that could reach the database, no later exchange of the same
  token succeeds, whatever rotations of other tokens come in between and however their accesses to the database end, as long
  as the later check can read it. The token has an identifier and an expiry, as the issued ones have.
\<close>

theorem refresh_exchanged_once:
  assumes "jwt_laws lib" and "get_secret lib cfg = Inr secret" and "jw_decode lib token secret now = Some p"
    and "claim p ''jti'' \<noteq> []" and "map_of p ''exp'' = Some (PInt e)"
    and "rotate_refresh_token lib cfg db now j1 j2 token rs = (rs1, Inr (Some pair))" and "db_read db" and "db_insert db"
    and "\<forall>r \<in> set ops. rt_now r \<le> later" and "db_read db2"
  shows "snd (rotate_refresh_token lib cfg db2 later j3 j4 token (rotations lib cfg ops rs1)) = Inr None"
proof (cases "jw_decode lib token secret later")
  case None
  then show ?thesis by (simp add: rotate_refresh_token_def verify_token_def assms(2))
next
  case (Some q)
  have q: "q = p" and later: "later < e" using assms(1,3,5) Some unfolding jwt_laws_def by blast+
  have fresh: "\<not> list_ex (\<lambda>r. rv_jti r = claim p ''jti'') rs"
    using assms(2-4,6,7) by (auto simp: rotate_refresh_token_def verify_token_def is_revoked_def split: if_splits)
  have exp: "dict_get p ''exp'' (PInt 0) = PInt e" using assms(5) by simp
  have "rs1 = revoke (db_evict db) True now (claim p ''jti'') (claim p ''sub'') ''refresh'' (PInt e) rs"
    using assms(2,3,6,8) fresh exp
    by (auto simp: rotate_refresh_token_def verify_token_def is_revoked_def split: if_splits)
  then have "revoked_until (claim p ''jti'') e rs1" using revoke_adds [OF fresh] by simp
  then have "revoked_until (claim p ''jti'') e (rotations lib cfg ops rs1)"
    using assms(9) later by (intro rotations_keep) auto
  then have "is_revoked True (claim p ''jti'') (rotations lib cfg ops rs1)"
    using assms(4) by (auto simp: is_revoked_def revoked_until_def list_ex_iff)
  then show ?thesis using assms(2,10) Some q by (simp add: rotate_refresh_token_def verify_token_def)
qed

text \<open>When the database cannot be read the revocation is not seen, and the token is exchanged again.\<close>

lemma rotation_fails_open:
  assumes "get_secret lib cfg = Inr secret" and "jw_decode lib token secret now = Some p"
    and "dict_get p ''type'' PNone = PStr ''refresh''" and "claim p ''sub'' \<noteq> []" and "\<not> db_read db"
  shows "\<exists>pair. snd (rotate_refresh_token lib cfg db now j1 j2 token rs) = Inr (Some pair)"
  using assms
  by (simp add: rotate_refresh_token_def verify_token_def is_revoked_def issue_pair_def create_access_token_def create_refresh_token_def)


section \<open>Admission\<close>

definition trusted_token :: "jwt_lib \<Rightarrow> auth_config \<Rightarrow> bool \<Rightarrow> int \<Rightarrow> revoked_token list \<Rightarrow> string \<Rightarrow> identity \<Rightarrow> bool" where
  \<comment> \<open>an access token that verifies and is not revoked, or the token of the session\<close>
  "trusted_token lib cfg db_ok now rs token i \<longleftrightarrow>
     (\<exists>secret p. get_secret lib cfg = Inr secret \<and> jw_decode lib token secret now = Some p
        \<and> \<not> is_revoked db_ok (claim p ''jti'') rs \<and> map_of p ''type'' = Some (PStr ''access'')
        \<and> id_user i = claim p ''sub'' \<and> id_role i = dict_get p ''role'' (PStr ''user''))
     \<or> token = ac_session_token cfg \<and> token \<noteq> [] \<and> i = session_identity (take 16 (jw_sha lib token))"

lemma token_to_identity_sound:
  assumes "token_to_identity lib cfg db_ok now rs token = Inr (Some i)"
  shows "trusted_token lib cfg db_ok now rs token i"
proof -
  obtain p where p: "verify_token lib cfg db_ok now rs token = Inr (Some p)" and t: "dict_get p ''type'' PNone = PStr ''access''"
    using assms by (auto simp: token_to_identity_def split: option.splits if_splits)
  have i: "id_user i = claim p ''sub''" "id_role i = dict_get p ''role'' (PStr ''user'')"
    using assms p t by (auto simp: token_to_identity_def Let_def split: if_splits)
  have "map_of p ''type'' = Some (PStr ''access'')" using t by (cases "map_of p ''type''") simp_all
  moreover obtain secret where "get_secret lib cfg = Inr secret" "jw_decode lib token secret now = Some p"
    "\<not> is_revoked db_ok (claim p ''jti'') rs"
    using p by (auto simp: verify_token_def split: option.splits if_splits)
  ultimately show ?thesis using i by (auto simp: trusted_token_def)
qed

lemma bearer_sound:
  assumes "identity_from_bearer_token lib cfg db_ok now rs token = Inr (Some i)"
  shows "trusted_token lib cfg db_ok now rs token i"
proof (cases "token_to_identity lib cfg db_ok now rs token = Inr (Some i)")
  case True
  then show ?thesis by (rule token_to_identity_sound)
next
  case False
  with assms have "token = ac_session_token cfg" "token \<noteq> []" "i = session_identity (take 16 (jw_sha lib token))"
    by (auto simp: identity_from_bearer_token_def split: if_splits sum.splits option.splits)
  then show ?thesis by (simp add: trusted_token_def)
qed

lemma last_resort_sound:
  assumes "last_resort lib cfg db_ok now rs rq = Forwarded st"
  shows "case st of
      None \<Rightarrow> rq_path rq \<in> set open_paths
    | Some i \<Rightarrow> ac_test_mode cfg \<and> i = local_identity
        \<or> (\<exists>j. trusted_token lib cfg db_ok now rs (snd (bearer (rq_authorization rq))) j
             \<and> (i = j \<or> (\<exists>actor session. i = remote_identity actor session)))"
  using assms
  by (auto simp: last_resort_def split: if_splits sum.splits option.splits dest!: bearer_sound)

text \<open>
  C34: What the middleware lets through: only requests of the machine itself, and never in production with the test mode on.
  Without an identity only a preflight request or an open path passes; an identity is a test identity in test mode with the
  right secret, the local one in test mode, or comes from a token that verifies or is the session's; in production only the
  last is possible.
\<close>

theorem admitted_requests:
  assumes "auth_middleware lib cfg db_ok now rs rq = Forwarded st"
  shows "rq_host rq \<in> set local_hosts \<and> \<not> (ac_environment cfg = ''production'' \<and> ac_test_mode cfg)
    \<and> (case st of
         None \<Rightarrow> rq_method rq = ''OPTIONS'' \<or> rq_path rq \<in> set open_paths
       | Some i \<Rightarrow>
           ac_test_mode cfg \<and> (i = local_identity \<or> i = test_identity \<and> rq_test_token rq = ac_test_secret cfg)
           \<or> (\<exists>j. trusted_token lib cfg db_ok now rs (snd (bearer (rq_authorization rq))) j
                \<and> (i = j \<or> (\<exists>actor session. i = remote_identity actor session))))"
proof -
  have mode: "\<not> (ac_environment cfg = ''production'' \<and> ac_test_mode cfg)"
  proof
    assume "ac_environment cfg = ''production'' \<and> ac_test_mode cfg"
    from assms [unfolded auth_middleware_def if_P [OF this]] show False by simp
  qed
  have host: "rq_host rq \<in> set local_hosts"
  proof (rule ccontr)
    assume "rq_host rq \<notin> set local_hosts"
    from assms [unfolded auth_middleware_def if_not_P [OF mode] if_P [OF this]] show False by simp
  qed
  define token where "token = snd (bearer (rq_authorization rq))"
  have rest: ?thesis if "last_resort lib cfg db_ok now rs rq = Forwarded st"
    using last_resort_sound [OF that] host mode by (cases st) auto
  have trusted: ?thesis if "identity_from_bearer_token lib cfg db_ok now rs token = Inr (Some i)" "st = Some i" for i
    using bearer_sound [OF that(1)] that(2) host mode unfolding token_def by auto
  show ?thesis
  proof (cases "rq_method rq = ''OPTIONS''")
    case True
    with assms have "st = None" unfolding auth_middleware_def if_not_P [OF mode] by (simp add: host)
    with True host mode show ?thesis by simp
  next
    case False
    note step = assms [unfolded auth_middleware_def if_not_P [OF mode] if_not_P [OF False]]
    show ?thesis
    proof (cases "rq_test_token rq = []")
      case True
      show ?thesis
      proof (cases "lower (fst (bearer (rq_authorization rq))) = ''bearer'' \<and> token \<noteq> []")
        case b: True
        have c: "(case identity_from_bearer_token lib cfg db_ok now rs token of Inl e \<Rightarrow> Crashed e
            | Inr None \<Rightarrow> last_resort lib cfg db_ok now rs rq | Inr (Some i) \<Rightarrow> Forwarded (Some i)) = Forwarded st"
          using step host True b by (simp add: Let_def case_prod_beta' token_def)
        show ?thesis
        proof (cases "identity_from_bearer_token lib cfg db_ok now rs token")
          case (Inl e)
          with c show ?thesis by simp
        next
          case (Inr r)
          show ?thesis
          proof (cases r)
            case None
            with c Inr have "last_resort lib cfg db_ok now rs rq = Forwarded st" by simp
            then show ?thesis by (rule rest)
          next
            case (Some i)
            with c Inr have "st = Some i" by simp
            with trusted Inr Some show ?thesis by simp
          qed
        qed
      next
        case b: False
        then have "last_resort lib cfg db_ok now rs rq = Forwarded st"
          using step host True unfolding Let_def case_prod_beta' token_def [symmetric]
          by (cases "lower (fst (bearer (rq_authorization rq))) = ''bearer''") simp_all
        then show ?thesis by (rule rest)
      qed
    next
      case t: False
      with step host have "ac_test_mode cfg \<and> rq_test_token rq = ac_test_secret cfg \<and> st = Some test_identity"
        by (simp split: if_splits)
      with host mode show ?thesis by simp
    qed
  qed
qed

text \<open>
  C36: A request of a paired remote client that the proxy forwards with the session token as bearer is treated as the local
  administrator: the header that names the remote actor is only read when the authorization header has another scheme.
\<close>

theorem remote_actor_becomes_admin:
  assumes "rq_host rq \<in> set local_hosts" and "rq_method rq \<noteq> ''OPTIONS''" and "rq_test_token rq = []"
    and "\<not> (ac_environment cfg = ''production'' \<and> ac_test_mode cfg)"
    and "rq_authorization rq = ''Bearer '' @ ac_session_token cfg" and "ac_session_token cfg \<noteq> []" and "ascii (ac_session_token cfg)"
    and "get_secret lib cfg = Inr secret" and "jw_decode lib (ac_session_token cfg) secret now = None"
  shows "\<exists>i. auth_middleware lib cfg db_ok now rs (rq\<lparr>rq_remote_actor := actor\<rparr>) = Forwarded (Some i)
    \<and> identity_level i = ''admin'' \<and> id_permissions i = [''*''] \<and> id_local i"
proof -
  have b: "bearer (rq_authorization rq) = (''Bearer'', ac_session_token cfg)" by (simp add: bearer_def assms(5))
  have l: "lower ''Bearer'' = ''bearer''" by code_simp
  have "token_to_identity lib cfg db_ok now rs (ac_session_token cfg) = Inr None"
    by (simp add: token_to_identity_def verify_token_def assms(8,9))
  then have "identity_from_bearer_token lib cfg db_ok now rs (ac_session_token cfg)
      = Inr (Some (session_identity (take 16 (jw_sha lib (ac_session_token cfg)))))"
    using assms(6,7) by (simp add: identity_from_bearer_token_def)
  then have "auth_middleware lib cfg db_ok now rs (rq\<lparr>rq_remote_actor := actor\<rparr>)
      = Forwarded (Some (session_identity (take 16 (jw_sha lib (ac_session_token cfg)))))"
    using assms(1-4,6) b l by (simp add: auth_middleware_def Let_def)
  then show ?thesis
    by (simp add: session_identity_def local_identity_def identity_level_def role_to_level_def dict_get_def)
qed

section \<open>A sample installation\<close>

definition sample_lib :: jwt_lib where
  "sample_lib =
     \<lparr>jw_encode = (\<lambda>p s. claim p ''jti''),
      jw_decode = (\<lambda>t s n. if t = ''r'' \<and> n < 100 then Some (refresh_payload ''u'' 100 0 ''r'') else None), jw_sha = (\<lambda>s. s)\<rparr>"

definition sample_config :: auth_config where
  "sample_config =
     \<lparr>ac_environment = ''production'', ac_test_mode = False, ac_test_secret = [], ac_jwt_secret = ''k'', ac_session_token = ''tok'',
      ac_password = ''pw''\<rparr>"

definition good_db :: db_outcome where
  "good_db = \<lparr>db_read = True, db_evict = True, db_insert = True\<rparr>"

definition sample_request :: request where
  "sample_request =
     \<lparr>rq_host = ''localhost'', rq_method = ''GET'', rq_path = ''/api/plans'', rq_test_token = [],
      rq_authorization = ''Bearer tok'', rq_remote_actor = ''phone''\<rparr>"

lemma sample_secret: "get_secret sample_lib sample_config = Inr ''k''"
  by (simp add: get_secret_def sample_config_def)

lemma sample_laws: "jwt_laws sample_lib"
  by (auto simp: jwt_laws_def sample_lib_def refresh_payload_def split: if_splits)

theorem refresh_exchanged_once_witness:
  "\<exists>rs pair. rotate_refresh_token sample_lib sample_config good_db 1 ''a'' ''b'' ''r'' [] = (rs, Inr (Some pair))
     \<and> snd (rotate_refresh_token sample_lib sample_config good_db 50 ''c'' ''d'' ''r''
          (rotations sample_lib sample_config [\<lparr>rt_db = good_db, rt_now = 9, rt_jti1 = [], rt_jti2 = [], rt_token = ''x''\<rparr>] rs))
        = Inr None"
proof -
  have d: "jw_decode sample_lib ''r'' ''k'' 1 = Some (refresh_payload ''u'' 100 0 ''r'')" by (simp add: sample_lib_def)
  have v: "verify_token sample_lib sample_config True 1 [] ''r'' = Inr (Some (refresh_payload ''u'' 100 0 ''r''))"
    by (simp add: verify_token_def sample_secret d is_revoked_def)
  obtain x where x: "issue_pair sample_lib sample_config ''u'' 1 ''a'' ''b'' = Inr x"
    by (simp add: issue_pair_def create_access_token_def create_refresh_token_def sample_secret)
  have c: "claim (refresh_payload ''u'' 100 0 ''r'') ''sub'' = ''u''" "dict_get (refresh_payload ''u'' 100 0 ''r'') ''type'' PNone = PStr ''refresh''"
    by (simp_all add: refresh_payload_def claim_def dict_get_def)
  have "\<exists>rs. rotate_refresh_token sample_lib sample_config good_db 1 ''a'' ''b'' ''r'' [] = (rs, Inr (Some x))"
    by (simp add: rotate_refresh_token_def good_db_def v c x)
  then obtain rs where r: "rotate_refresh_token sample_lib sample_config good_db 1 ''a'' ''b'' ''r'' [] = (rs, Inr (Some x))"
    by blast
  from refresh_exchanged_once [OF sample_laws sample_secret d _ _ r, of 100 "[\<lparr>rt_db = good_db, rt_now = 9, rt_jti1 = [], rt_jti2 = [],
      rt_token = ''x''\<rparr>]" 50 good_db "''c''" "''d''"] r
  show ?thesis by (auto simp: refresh_payload_def claim_def dict_get_def good_db_def)
qed

lemma sample_remote:
  "\<exists>i. auth_middleware sample_lib sample_config True 5 [] (sample_request\<lparr>rq_remote_actor := ''phone''\<rparr>) = Forwarded (Some i)"
  by (simp add: auth_middleware_def sample_request_def sample_config_def local_hosts_def bearer_def identity_from_bearer_token_def
      token_to_identity_def verify_token_def get_secret_def sample_lib_def ascii_def lower_def lower_char_def)

theorem remote_actor_becomes_admin_witness:
  "\<exists>i. auth_middleware sample_lib sample_config True 5 [] (sample_request\<lparr>rq_remote_actor := ''phone''\<rparr>) = Forwarded (Some i)
     \<and> identity_level i = ''admin'' \<and> id_permissions i = [''*''] \<and> id_local i"
  by (rule remote_actor_becomes_admin [OF _ _ _ _ _ _ _ sample_secret])
    (simp_all add: sample_request_def sample_config_def local_hosts_def ascii_def sample_lib_def)

theorem admitted_requests_witness:
  "\<exists>j. trusted_token sample_lib sample_config True 5 [] ''tok'' j"
proof -
  obtain i where "auth_middleware sample_lib sample_config True 5 [] (sample_request\<lparr>rq_remote_actor := ''phone''\<rparr>) = Forwarded (Some i)"
    using sample_remote by blast
  from admitted_requests [OF this] show ?thesis
    by (auto simp: sample_config_def sample_request_def bearer_def)
qed

end
