(* ===== verification/Spec2Isabelle.thy ===== *)
theory Spec2Isabelle
  imports Tool_Rate_Limiter Rate_Limiter Default_Policies Recovery Tool_Guard
    Cloud_Authority Consent_Manager Offline_Queue Fallback
    Capabilities
    Goals
    Planning
    Risk
    Context_Window
    Caches
    Plugin_Sdk
    Plugin_Manager
    Clarification
    Continuation
    Step_Execution
    Grounding
    Orchestrator
    Model_Tiers
    Provider_Statistics
    Hardware_Fit
    Provider_Selection
    Path_Guard
    File_Service
    Authentication
begin

text \<open>
  A model of the security core of AIVO: the path that every tool call takes through the packages
  \<open>sentinel\<close> and \<open>sidecar\<close>, from the execution pipeline to the tool, with the grants, confirmations,
  policies, limits and breakers that decide about it.

  The parts and how they interact:

  A call enters at \<open>ExecutionPipeline.execute\<close> (\<open>core/execution_pipeline.py\<close>), which builds a
  \<open>ToolRequest\<close> and hands it to \<open>ToolExecutionGuard.execute\<close> (\<open>security/tool_guard.py\<close>). The guard
  refuses open ambiguities, validates the arguments (\<open>security/argument_validator.py\<close>), spends the
  execution grant of an approved plan (\<open>sidecar/repositories/execution_grant_repository.py\<close>), asks the
  tool rate limiter (\<open>security/tool_rate_limiter.py\<close>) and the policy engine
  (\<open>core/policy_engine.py\<close> with the policies of \<open>policies/*.py\<close> and \<open>core/capability_matrix.py\<close>) and
  calls \<open>ToolGateway.execute\<close> (\<open>core/tool_gateway.py\<close>). The gateway checks plan, identity, issuing guard,
  registration, policies, audit and grounding, asks the circuit breaker (\<open>core/circuit_breaker.py\<close>,
  \<open>core/hardening.py\<close>), runs the tool and passes its output through the quality gate
  (\<open>core/quality_gate.py\<close>). Calls that need a confirmation wait in the confirmation broker
  (\<open>core/confirmation.py\<close> over \<open>core/operational_memory.py\<close>), from which \<open>ToolGateway.confirm\<close> resumes
  them; \<open>core/recovery.py\<close> retries, falls back and rolls back around the calls of a plan.

  Theories:
  \<^item> \<open>Py_Prelude\<close>, \<open>Py_Text\<close>: Python values (\<open>pyval\<close>), dictionaries as association lists in insertion
    order, truthiness, results as sums, rounding, string operations; the locale \<open>single_use\<close>.
  \<^item> \<open>Json\<close>: \<open>json.dumps\<close> as the code uses it and a reader, with their round trip, on which the
    canonical hashes rest.
  \<^item> \<open>Rate_Window\<close> (the locale \<open>sliding_window\<close>), \<open>Tool_Rate_Limiter\<close>, \<open>Rate_Limiter\<close>: the two limiters;
    both are shown to keep their bound in every window.
  \<^item> \<open>Security_Models\<close>, \<open>Argument_Validator\<close>: requests, results, risks and the validation of arguments,
    against a specification of what is accepted.
  \<^item> \<open>Policy_Engine\<close>, \<open>Security_Policies\<close>, \<open>Resource_Policies\<close>, \<open>Default_Policies\<close>: the engine, the
    policies, and the engine that \<open>init_policies\<close> of \<open>sidecar/modules/__init__.py\<close> assembles.
  \<^item> \<open>Grant_Repository\<close>, \<open>Confirmation\<close>: grants in the database and confirmations in either memory
    backend, both interpretations of \<open>single_use\<close>. The \<open>SQLiteBackend\<close> sanitizes what it stores, so a call that
    this changes cannot be confirmed; histories of the backend show that a grant goes back to its own request.
  \<^item> \<open>Circuit_Breaker\<close>, \<open>Hardening\<close>, \<open>Recovery\<close>: the breaker as a refinement of an abstract automaton,
    its use around the tools, retries with their exact number of attempts.
  \<^item> \<open>Quality_Gate\<close>: a matcher for the regular expressions of \<open>policies/output_policies.py\<close>, and redaction.
  \<^item> \<open>Tool_Gateway\<close>, \<open>Tool_Guard\<close>: the composition; complete mediation, audit before execution, one run
    per grant.

  \<^item> \<open>Cloud_Authority\<close>, \<open>Consent_Manager\<close>: who may send what to the cloud (over the whole history of
    grants and withdrawals), and which tool a user has consented to; the stored one-time authorizations are a third interpretation of \<open>single_use\<close>.
  \<^item> \<open>Fallback\<close>: chains of model providers and the loop over them, on top of the circuit breaker.
  \<^item> \<open>Model_Tiers\<close>, \<open>Provider_Statistics\<close>, \<open>Hardware_Fit\<close>, \<open>Provider_Selection\<close>: which model answers: the catalogue of
    models and the capability tier of a request (\<open>core/model_registry.py\<close>, \<open>core/model_tier.py\<close>), costs, budgets,
    performance and health of providers (\<open>core/cost_tracker.py\<close>, \<open>provider_performance.py\<close>, \<open>provider_health.py\<close>),
    whether a model fits the machine (\<open>core/hardware_intelligence.py\<close>, \<open>resource_intelligence.py\<close>), and the choice
    itself (\<open>routing/provider_selector.py\<close>) with what a chosen provider satisfies, and the way over the registry,
    which goes past the gates.
  \<^item> \<open>Offline_Queue\<close>: deferred operations, served by priority and age. The synchronization gets the queue
    and may change it; the theorems say what of that they allow.
  \<^item> \<open>Capabilities\<close>, \<open>Goals\<close>, \<open>Planning\<close>: the capability registry, the goals with their index, matching and
    scoring (\<open>core/goals.py\<close>), and the planner: its steps, their rollbacks, the risk score and the levels of
    the dependency graph, computed with a termination proof.
  \<^item> \<open>Risk\<close>: simulation, objective assessment, classification and the decision engine that approves or
    rejects a plan (\<open>core/simulation.py\<close>, \<open>objective_risk_assessor.py\<close>, \<open>risk_classifier.py\<close>,
    \<open>decision_engine.py\<close>).
  \<^item> \<open>Context_Window\<close>, \<open>Caches\<close>: what of a conversation is sent to a model, and the caches of plans and of
    grounded values, both interpretations of the locale \<open>value_cache\<close> of \<open>Value_Store\<close>.
  \<^item> \<open>Plugin_Sdk\<close>, \<open>Plugin_Manager\<close>: permissions with their tokens, lifecycle, manifests and validation of
    plugins (\<open>plugin_sdk/*.py\<close>), and the manager that installs, approves, activates and updates them and
    dispatches events and commands to their code, which is an argument (\<open>core/plugin_manager.py\<close>).
  \<^item> \<open>Clarification\<close>, \<open>Continuation\<close>: questions to the user with their single answer (a fourth interpretation of
    \<open>single_use\<close>), and the executor that plans the clarified request again, asks for a confirmation and
    executes it; its handlers are cut where they wait, so the interleaving of several requests is modelled. Its dry runs
    are answered by an execution plan, which has none of the attributes that are hashed
    (\<open>sidecar/services/clarification_*.py\<close>, \<open>continuation_executor.py\<close>).
  \<^item> \<open>Step_Execution\<close>, \<open>Grounding\<close>, \<open>Orchestrator\<close>: what a plan goes through (\<open>core/orchestrator.py\<close>,
    \<open>core/grounding.py\<close>): a step with its placeholders, its limit, the step grant of an approved plan, its retries
    and fallbacks over the guard above; the evidence a request needs; and the pipeline from the checks over
    simulation, decision and evidence to the loop over the levels with its rollback. The locale \<open>plan_loop\<close> states
    what the loop needs of the way steps are executed and is interpreted with the step above. The lemmas show that no
    tool runs unless the plan was decided, that every step is accounted for once, and that approved plans run in order.

  \<^item> \<open>Path_Guard\<close>, \<open>File_Service\<close>: the file tools behind the gateway (\<open>sidecar/modules/security/path_guardian.py\<close>,
    \<open>path_policy.py\<close>, \<open>sidecar/services/filesystem_service.py\<close>, \<open>security/resource_identity.py\<close>): exactly which paths
    the guard lets through, and over a small file system with symbolic links that nothing else is changed, that deleted
    and overwritten files come back, and that a copy has the data of the version that was looked at while nobody else
    writes. What others do between the steps of a copy is an argument (\<open>others\<close>).

  \<^item> \<open>Authentication\<close>: who a request is from (\<open>sidecar/modules/auth.py\<close>, \<open>jwt_auth.py\<close>, \<open>authorization.py\<close>,
    \<open>core/security_levels.py\<close>): what the middleware admits, that a refresh token is exchanged once, and that the checks
    of a level agree. Of the token library only its documented behaviour is assumed (\<open>jwt_laws\<close>).

  How the code is modelled: a class is a record of its attributes, an operation a function from the
  state to the new state and a result; exceptions are the left side of a sum, early returns of the
  gateway a branch of \<open>flow\<close>. Time is an argument (a rational), as are drawn identifiers, the hash
  function and everything that answers from outside (the tool, the grounding and context engines, the
  risk classifier). A lock makes an operation atomic, so a concurrent history is a sequence of
  operations; the properties quantify over all sequences. Effects on the surroundings are a trace.

  Not modelled: the ranking of models, memory and the clients of providers, the entry point of the orchestrator around its
  pipeline (memory, advice, presentation, caching of plans), the HTTP interface, the desktop shell, and the tools other than those for files, which are operating-system calls
  behind the gateway. The manifest lists every directory with its status.
\<close>

end
